(* ===== verification/Go_Prelude.thy ===== *)
theory Go_Prelude
  imports Main "HOL-Library.Word" "HOL-Library.AList"
begin

text \<open>
  Shared vocabulary of the development.

  \<^item> Go values: a string and a byte slice are both sequences of bytes; a string is a
    \<^typ>\<open>char list\<close> (an Isabelle character is one byte, so \<open>length\<close> is Go's \<open>len\<close>), a byte
    slice a list of \<^typ>\<open>8 word\<close>. An \<open>int64\<close> is an integer with the wrap-around written out
    by \<open>i64\<close>; \<open>uint64\<close> and \<open>uint32\<close> are words.
  \<^item> A Go map is an association list with distinct keys; the order of the list is the order in
    which one \<open>range\<close> loop visits the entries. Go leaves that order open, and theorems
    quantify over every list, so they hold for every order.
  \<^item> Instants are nanoseconds since the Unix epoch, durations are \<open>int64\<close> nanoseconds.
  \<^item> Collections of rewrite rules: \<open>gomap_simps\<close> for maps, \<open>go_defs\<close> for the small wrappers
    that every component unfolds.
\<close>

unbundle bit_operations_syntax

named_theorems gomap_simps \<open>lookup, size and well-formedness rules of Go maps\<close>
named_theorems go_defs \<open>definitions of thin wrappers that proofs unfold freely\<close>

section \<open>Types\<close>

type_synonym byte = "8 word"
type_synonym bytes = "byte list"
type_synonym u32 = "32 word"
type_synonym u64 = "64 word"
type_synonym ('k, 'v) gomap = "('k \<times> 'v) list"

abbreviation bytes_of_string :: "string \<Rightarrow> bytes" where
  "bytes_of_string s \<equiv> map of_char s"

abbreviation string_of_bytes :: "bytes \<Rightarrow> string" where
  "string_of_bytes b \<equiv> map (\<lambda>w. char_of (unat w)) b"

section \<open>Signed 64-bit integers, instants and durations\<close>

definition i64 :: "int \<Rightarrow> int" where
  "i64 z = (z + 2 ^ 63) mod 2 ^ 64 - 2 ^ 63"

definition in_i64 :: "int \<Rightarrow> bool" where
  "in_i64 z \<longleftrightarrow> - (2 ^ 63) \<le> z \<and> z < 2 ^ 63"

text \<open>Go's integer division truncates towards zero.\<close>

definition go_div :: "int \<Rightarrow> int \<Rightarrow> int" where
  "go_div a b = sgn a * sgn b * (\<bar>a\<bar> div \<bar>b\<bar>)"

text \<open>\<open>time.Time.UnixMilli\<close> rounds the instant down to a millisecond,
  \<open>time.Duration.Milliseconds\<close> truncates towards zero.\<close>

definition UnixMilli :: "int \<Rightarrow> int" where
  "UnixMilli t = t div 1000000"

definition Milliseconds :: "int \<Rightarrow> int" where
  "Milliseconds d = go_div d 1000000"

text \<open>\<open>time.UnixMilli\<close>, and the zero \<open>time.Time\<close>, the first of January of year 1.\<close>

definition time_UnixMilli :: "int \<Rightarrow> int" where
  "time_UnixMilli ms = ms * 1000000"

definition time_zero :: int where
  "time_zero = - 62135596800000000000"

abbreviation Millisecond :: int where "Millisecond \<equiv> 1000000"
abbreviation Second :: int where "Second \<equiv> 1000000000"
abbreviation Hour :: int where "Hour \<equiv> 3600000000000"

lemma i64_id: "in_i64 z \<Longrightarrow> i64 z = z"
  by (auto simp: in_i64_def i64_def)

lemma i64_range: "in_i64 (i64 z)"
  by (auto simp: in_i64_def i64_def)

lemma i64_idem [simp]: "i64 (i64 z) = i64 z"
  by (simp add: i64_id i64_range)

lemma UnixMilli_mono: "a \<le> b \<Longrightarrow> UnixMilli a \<le> UnixMilli b"
  by (simp add: UnixMilli_def zdiv_mono1)

lemma UnixMilli_add: "UnixMilli (a + 1000000 * k) = UnixMilli a + k"
  by (simp add: UnixMilli_def)

lemma UnixMilli_time_UnixMilli [simp]: "UnixMilli (time_UnixMilli ms) = ms"
  by (simp add: UnixMilli_def time_UnixMilli_def)

lemma Milliseconds_nonneg: "0 \<le> d \<Longrightarrow> Milliseconds d = d div 1000000"
  by (cases "d = 0") (auto simp: Milliseconds_def go_div_def)

lemma UnixMilli_add_le: "0 \<le> d \<Longrightarrow> UnixMilli t + Milliseconds d \<le> UnixMilli (t + d)"
  by (simp add: UnixMilli_def Milliseconds_nonneg)

section \<open>Go maps\<close>

definition gm_get :: "('k, 'v) gomap \<Rightarrow> 'k \<Rightarrow> 'v option" where
  [go_defs]: "gm_get m k = map_of m k"

definition gm_set :: "'k \<Rightarrow> 'v \<Rightarrow> ('k, 'v) gomap \<Rightarrow> ('k, 'v) gomap" where
  "gm_set k v m = AList.update k v m"

definition gm_del :: "'k \<Rightarrow> ('k, 'v) gomap \<Rightarrow> ('k, 'v) gomap" where
  "gm_del k m = AList.delete k m"

definition gm_wf :: "('k, 'v) gomap \<Rightarrow> bool" where
  "gm_wf m \<longleftrightarrow> distinct (map fst m)"

lemma gm_get_set [gomap_simps]: "gm_get (gm_set k v m) = (gm_get m)(k \<mapsto> v)"
  by (rule ext) (simp add: gm_get_def gm_set_def update_conv')

lemma gm_get_del [gomap_simps]: "gm_get (gm_del k m) = (gm_get m)(k := None)"
  by (rule ext) (simp add: gm_get_def gm_del_def delete_conv')

lemma gm_get_Nil [gomap_simps, simp]: "gm_get [] k = None"
  by (simp add: gm_get_def)

lemma gm_wf_Nil [gomap_simps, simp]: "gm_wf []"
  by (simp add: gm_wf_def)

lemma gm_wf_set [gomap_simps]: "gm_wf m \<Longrightarrow> gm_wf (gm_set k v m)"
  by (simp add: gm_wf_def gm_set_def distinct_update)

lemma gm_wf_del [gomap_simps]: "gm_wf m \<Longrightarrow> gm_wf (gm_del k m)"
  by (simp add: gm_wf_def gm_del_def distinct_delete)

lemma gm_get_iff_mem: "gm_wf m \<Longrightarrow> gm_get m k = Some v \<longleftrightarrow> (k, v) \<in> set m"
  by (simp add: gm_wf_def gm_get_def map_of_eq_Some_iff)

lemma gm_get_eq_None: "gm_get m k = None \<longleftrightarrow> k \<notin> fst ` set m"
  by (simp add: gm_get_def map_of_eq_None_iff)

lemma gm_dom: "dom (gm_get m) = fst ` set m"
  using dom_map_of_conv_image_fst [of m] by (simp add: gm_get_def [abs_def])

lemma gm_keys_set [simp]: "fst ` set (gm_set k v m) = insert k (fst ` set m)"
  using gm_dom [of "gm_set k v m"] by (auto simp: gm_get_set gm_dom [symmetric])

lemma gm_keys_del [simp]: "fst ` set (gm_del k m) = fst ` set m - {k}"
  using gm_dom [of "gm_del k m"] by (simp add: gm_get_del gm_dom [symmetric])

lemma gm_length: "gm_wf m \<Longrightarrow> length m = card (dom (gm_get m))"
  by (metis distinct_card gm_dom gm_wf_def length_map list.set_map)

lemma gm_finite_dom [simp]: "finite (dom (gm_get m))"
  by (simp add: gm_dom)

text \<open>Two well-formed lists with the same lookups are permutations of each other: they are two
  iteration orders of one Go map.\<close>

lemma gm_rebuild: "gm_wf (m @ d) \<Longrightarrow> foldl (\<lambda>m (k, v). gm_set k v m) m d = m @ d"
proof (induction d arbitrary: m)
  case (Cons p d)
  obtain k v where p: "p = (k, v)" by fastforce
  from Cons.prems p have "k \<notin> fst ` set m" by (auto simp: gm_wf_def)
  then have "gm_set k v m = m @ [(k, v)]"
    by (simp add: gm_set_def) (induction m, auto)
  with Cons p show ?case by simp
qed simp

lemma gm_same_set: "gm_wf m \<Longrightarrow> gm_wf n \<Longrightarrow> gm_get m = gm_get n \<Longrightarrow> set m = set n"
proof (rule set_eqI)
  fix p assume "gm_wf m" "gm_wf n" "gm_get m = gm_get n"
  then show "p \<in> set m \<longleftrightarrow> p \<in> set n"
    by (cases p) (metis gm_get_iff_mem)
qed

lemma gm_sum_list:
  fixes f :: "'k \<times> 'v \<Rightarrow> nat"
  assumes "gm_wf m" "gm_wf n" "gm_get m = gm_get n"
  shows "sum_list (map f m) = sum_list (map f n)"
proof -
  have "distinct m" "distinct n"
    using assms by (auto simp: gm_wf_def distinct_map)
  with gm_same_set [OF assms] show ?thesis
    by (simp add: sum_list_distinct_conv_sum_set)
qed

section \<open>Results\<close>

text \<open>A Go function that returns a value and an error is a sum: \<open>Inl\<close> is the error.\<close>

type_synonym ('e, 'a) result = "'e + 'a"

fun is_ok :: "'e + 'a \<Rightarrow> bool" where
  "is_ok (Inl _) = False"
| "is_ok (Inr _) = True"

lemma is_ok_iff: "is_ok r \<longleftrightarrow> (\<exists>x. r = Inr x)"
  by (cases r) auto

end
