(* ===== verification/Domain_Errors.thy ===== *)
theory Domain_Errors
  imports Go_Prelude
begin

text \<open>
  The error values of \<open>internal/core/domain/errors.go\<close>. A Go \<open>error\<close> is a value of
  \<open>go_error\<close>: a \<open>*DomainError\<close> with its four fields, a plain sentinel made by
  \<open>errors.New\<close>, or a value wrapped by \<open>fmt.Errorf("...: %w", err)\<close> or by
  \<open>fmt.Errorf("%w: ...", err)\<close>. \<open>errors.As\<close> and
  \<open>errors.Is\<close> walk the chain of causes; the walks are recursive functions.
\<close>

section \<open>Error values\<close>

datatype go_error =
    DomainError (Code: string) (Message: string) (Details: string) (Cause: "go_error option")
  | PlainError string
  | WrapError string go_error
  | SuffixError go_error string

definition NewDomainError :: "string \<Rightarrow> string \<Rightarrow> go_error" where
  "NewDomainError code message = DomainError code message '''' None"

fun WithDetails :: "go_error \<Rightarrow> string \<Rightarrow> go_error" where
  "WithDetails (DomainError c m d cause) details = DomainError c m details cause"
| "WithDetails e details = e"

fun WithCause :: "go_error \<Rightarrow> go_error \<Rightarrow> go_error" where
  "WithCause (DomainError c m d _) cause = DomainError c m d (Some cause)"
| "WithCause e cause = e"

definition Wrap :: "go_error \<Rightarrow> go_error \<Rightarrow> go_error" where
  "Wrap e cause = WithCause e cause"

text \<open>\<open>DomainError.Error\<close>, and the text of the other kinds of error.\<close>

fun Error :: "go_error \<Rightarrow> string" where
  "Error (DomainError c m d _) =
     (if d \<noteq> '''' then ''['' @ c @ ''] '' @ m @ '': '' @ d else ''['' @ c @ ''] '' @ m)"
| "Error (PlainError s) = s"
| "Error (WrapError s e) = s @ '': '' @ Error e"
| "Error (SuffixError e s) = Error e @ '': '' @ s"

fun Unwrap :: "go_error \<Rightarrow> go_error option" where
  "Unwrap (DomainError _ _ _ cause) = cause"
| "Unwrap (PlainError _) = None"
| "Unwrap (WrapError _ e) = Some e"
| "Unwrap (SuffixError e _) = Some e"

fun Is :: "go_error \<Rightarrow> go_error \<Rightarrow> bool" where
  "Is (DomainError c _ _ _) (DomainError c' _ _ _) = (c = c')"
| "Is _ _ = False"

text \<open>\<open>errors.As(err, &de)\<close> for a \<open>*DomainError\<close>: the first domain error of the chain.\<close>

fun errors_As :: "go_error \<Rightarrow> go_error option" where
  "errors_As (DomainError c m d cause) = Some (DomainError c m d cause)"
| "errors_As (PlainError _) = None"
| "errors_As (WrapError _ e) = errors_As e"
| "errors_As (SuffixError e _) = errors_As e"

text \<open>\<open>errors.Is(err, target)\<close>: some error of the chain equals the target or says so itself.\<close>

fun errors_Is :: "go_error \<Rightarrow> go_error \<Rightarrow> bool" where
  "errors_Is (DomainError c m d cause) t =
     (DomainError c m d cause = t \<or> Is (DomainError c m d cause) t \<or>
      (case cause of None \<Rightarrow> False | Some e \<Rightarrow> errors_Is e t))"
| "errors_Is (PlainError s) t = (PlainError s = t)"
| "errors_Is (WrapError s e) t = (WrapError s e = t \<or> errors_Is e t)"
| "errors_Is (SuffixError e s) t = (SuffixError e s = t \<or> errors_Is e t)"

definition IsDomainError :: "go_error \<Rightarrow> string \<Rightarrow> bool" where
  "IsDomainError err code =
     (case errors_As err of
        None \<Rightarrow> False
      | Some de \<Rightarrow> if code = '''' then True else Code de = code)"

definition GetErrorCode :: "go_error \<Rightarrow> string" where
  "GetErrorCode err = (case errors_As err of None \<Rightarrow> '''' | Some de \<Rightarrow> Code de)"

section \<open>The catalogue of errors\<close>

definition ErrSessionNotFound :: go_error where
  "ErrSessionNotFound = NewDomainError ''TM-SESS-4040'' ''session not found''"
definition ErrSessionExpired :: go_error where
  "ErrSessionExpired = NewDomainError ''TM-SESS-4041'' ''session expired''"
definition ErrSessionConflict :: go_error where
  "ErrSessionConflict = NewDomainError ''TM-SESS-4090'' ''session id conflict''"
definition ErrSessionVersionConflict :: go_error where
  "ErrSessionVersionConflict =
     NewDomainError ''TM-SESS-4091'' ''version conflict, please retry''"
definition ErrSessionValidation :: go_error where
  "ErrSessionValidation = NewDomainError ''TM-SESS-4001'' ''session validation failed''"
definition ErrSessionQuotaExceeded :: go_error where
  "ErrSessionQuotaExceeded =
     NewDomainError ''TM-SESS-4002'' ''user session quota exceeded''"

definition ErrTokenMalformed :: go_error where
  "ErrTokenMalformed = NewDomainError ''TM-TOKN-4000'' ''malformed token''"
definition ErrTokenInvalid :: go_error where
  "ErrTokenInvalid = NewDomainError ''TM-TOKN-4010'' ''invalid token''"
definition ErrTokenExpired :: go_error where
  "ErrTokenExpired = NewDomainError ''TM-TOKN-4011'' ''token expired''"
definition ErrTokenRevoked :: go_error where
  "ErrTokenRevoked = NewDomainError ''TM-TOKN-4012'' ''token revoked''"
definition ErrTokenHashConflict :: go_error where
  "ErrTokenHashConflict = NewDomainError ''TM-TOKN-4090'' ''token hash conflict''"

definition ErrAPIKeyMissing :: go_error where
  "ErrAPIKeyMissing = NewDomainError ''TM-AUTH-4010'' ''api key not provided''"
definition ErrAPIKeyInvalid :: go_error where
  "ErrAPIKeyInvalid = NewDomainError ''TM-AUTH-4011'' ''invalid api key''"
definition ErrAPIKeyDisabled :: go_error where
  "ErrAPIKeyDisabled = NewDomainError ''TM-AUTH-4012'' ''api key disabled''"
definition ErrTimestampSkew :: go_error where
  "ErrTimestampSkew =
     NewDomainError ''TM-AUTH-4014'' ''timestamp out of acceptable window''"
definition ErrNonceReplay :: go_error where
  "ErrNonceReplay = NewDomainError ''TM-AUTH-4015'' ''nonce replay detected''"
definition ErrPermissionDenied :: go_error where
  "ErrPermissionDenied = NewDomainError ''TM-AUTH-4030'' ''permission denied''"
definition ErrIPNotAllowed :: go_error where
  "ErrIPNotAllowed = NewDomainError ''TM-AUTH-4031'' ''ip not in allowlist''"
definition ErrAPIKeyValidation :: go_error where
  "ErrAPIKeyValidation = NewDomainError ''TM-AUTH-4001'' ''api key validation failed''"
definition ErrAPIKeyNotFound :: go_error where
  "ErrAPIKeyNotFound = NewDomainError ''TM-AUTH-4040'' ''api key not found''"
definition ErrAPIKeyConflict :: go_error where
  "ErrAPIKeyConflict = NewDomainError ''TM-AUTH-4090'' ''api key id conflict''"

definition ErrInternalServer :: go_error where
  "ErrInternalServer = NewDomainError ''TM-SYS-5000'' ''internal server error''"
definition ErrStorageError :: go_error where
  "ErrStorageError = NewDomainError ''TM-SYS-5001'' ''storage error''"
definition ErrServiceUnavailable :: go_error where
  "ErrServiceUnavailable = NewDomainError ''TM-SYS-5030'' ''service unavailable''"
definition ErrBadRequest :: go_error where
  "ErrBadRequest = NewDomainError ''TM-SYS-4000'' ''bad request''"
definition ErrRateLimited :: go_error where
  "ErrRateLimited = NewDomainError ''TM-SYS-4290'' ''too many requests''"

definition ErrInvalidArgument :: go_error where
  "ErrInvalidArgument = NewDomainError ''TM-ARG-1001'' ''invalid argument''"
definition ErrMissingArgument :: go_error where
  "ErrMissingArgument = NewDomainError ''TM-ARG-1002'' ''missing required argument''"
definition ErrArgumentConflict :: go_error where
  "ErrArgumentConflict = NewDomainError ''TM-ARG-1003'' ''argument conflict''"

definition ErrAdminPermissionDenied :: go_error where
  "ErrAdminPermissionDenied = NewDomainError ''TM-ADMIN-4030'' ''admin role required''"
definition ErrAdminIPNotAllowed :: go_error where
  "ErrAdminIPNotAllowed = NewDomainError ''TM-ADMIN-4031'' ''admin ip not allowed''"
definition ErrAdminResourceNotFound :: go_error where
  "ErrAdminResourceNotFound =
     NewDomainError ''TM-ADMIN-4041'' ''admin resource not found''"
definition ErrAdminOperationConflict :: go_error where
  "ErrAdminOperationConflict =
     NewDomainError ''TM-ADMIN-4091'' ''admin operation conflict''"

end
