(* ===== verification/Go_Strings.thy ===== *)
theory Go_Strings
  imports Go_Prelude "HOL-Library.Sublist"
begin

text \<open>
  What the program uses of Go's \<open>strings\<close>, \<open>encoding/hex\<close> and \<open>encoding/base64\<close>, and the
  record \<open>ext\<close> of the functions that are not under \<open>src/\<close>: the Unicode case tables,
  \<open>ulid.Parse\<close> of oklog/ulid and \<open>argon2.IDKey\<close> of x/crypto. Definitions that depend on
  one of them take the record as an argument.

  The codecs are instances of the locale \<open>byte_codec\<close>: an encoder and a decoder that undoes it.
\<close>

record ext =
  unicode_ToLower :: "string \<Rightarrow> string"
  unicode_ToUpper :: "string \<Rightarrow> string"
  ulid_Parse :: "string \<Rightarrow> bool"
  argon2_IDKey :: "bytes \<Rightarrow> bytes \<Rightarrow> u32 \<Rightarrow> u32 \<Rightarrow> byte \<Rightarrow> u32 \<Rightarrow> bytes"

section \<open>Strings\<close>

definition is_ascii :: "string \<Rightarrow> bool" where
  "is_ascii s \<longleftrightarrow> list_all (\<lambda>c. of_char c < (128::nat)) s"

definition lower_char :: "char \<Rightarrow> char" where
  "lower_char c = (let n = of_char c :: nat in
     if 65 \<le> n \<and> n \<le> 90 then char_of (n + 32) else c)"

definition upper_char :: "char \<Rightarrow> char" where
  "upper_char c = (let n = of_char c :: nat in
     if 97 \<le> n \<and> n \<le> 122 then char_of (n - 32) else c)"

text \<open>\<open>strings.ToLower\<close> and \<open>ToUpper\<close>: byte by byte on ASCII, the Unicode tables elsewhere.\<close>

definition ToLower :: "ext \<Rightarrow> string \<Rightarrow> string" where
  "ToLower X s = (if is_ascii s then map lower_char s else unicode_ToLower X s)"

definition ToUpper :: "ext \<Rightarrow> string \<Rightarrow> string" where
  "ToUpper X s = (if is_ascii s then map upper_char s else unicode_ToUpper X s)"

definition HasPrefix :: "string \<Rightarrow> string \<Rightarrow> bool" where
  "HasPrefix s p \<longleftrightarrow> take (length p) s = p"

definition HasSuffix :: "string \<Rightarrow> string \<Rightarrow> bool" where
  "HasSuffix s p \<longleftrightarrow> length p \<le> length s \<and> drop (length s - length p) s = p"

fun strings_Join :: "string list \<Rightarrow> string \<Rightarrow> string" where
  "strings_Join [] sep = ''''"
| "strings_Join [x] sep = x"
| "strings_Join (x # y # ys) sep = x @ sep @ strings_Join (y # ys) sep"

text \<open>\<open>strings.Index\<close>, \<open>Contains\<close>, and \<open>Split\<close> at a one-character separator.\<close>

fun strings_Index :: "string \<Rightarrow> string \<Rightarrow> nat option" where
  "strings_Index s p =
     (if HasPrefix s p then Some 0
      else case s of [] \<Rightarrow> None | _ # s' \<Rightarrow> map_option Suc (strings_Index s' p))"

definition Contains :: "string \<Rightarrow> string \<Rightarrow> bool" where
  "Contains s p \<longleftrightarrow> strings_Index s p \<noteq> None"

fun split_at_char :: "char \<Rightarrow> string \<Rightarrow> string list" where
  "split_at_char c [] = [[]]"
| "split_at_char c (x # xs) =
     (if x = c then [] # split_at_char c xs
      else case split_at_char c xs of [] \<Rightarrow> [[x]] | y # ys \<Rightarrow> (x # y) # ys)"

declare strings_Index.simps [simp del]

lemma HasPrefix_iff: "HasPrefix s p \<longleftrightarrow> (\<exists>r. s = p @ r)"
  by (auto simp: HasPrefix_def) (metis append_take_drop_id)

lemma HasPrefix_append [simp]: "HasPrefix (p @ r) p"
  by (simp add: HasPrefix_def)

lemma HasSuffix_iff: "HasSuffix s p \<longleftrightarrow> (\<exists>r. s = r @ p)"
  by (auto simp: HasSuffix_def) (metis append_take_drop_id)

lemma strings_Index_Some: "strings_Index s p = Some i \<Longrightarrow> \<exists>a b. s = a @ p @ b \<and> length a = i"
proof (induction s arbitrary: i)
  case Nil
  then show ?case
    by (auto simp: strings_Index.simps [of "[]"] HasPrefix_iff split: if_splits)
next
  case (Cons x xs)
  show ?case
  proof (cases "HasPrefix (x # xs) p")
    case True
    with Cons.prems have "i = 0" by (simp add: strings_Index.simps [of "x # xs"])
    with True show ?thesis by (auto simp: HasPrefix_iff)
  next
    case False
    with Cons.prems obtain j where "strings_Index xs p = Some j" "i = Suc j"
      by (auto simp: strings_Index.simps [of "x # xs"])
    with Cons.IH obtain a b where "xs = a @ p @ b" "length a = j" by blast
    with \<open>i = Suc j\<close> show ?thesis by (intro exI [of _ "x # a"] exI [of _ b]) simp
  qed
qed

lemma strings_Index_least: "s = a @ p @ b \<Longrightarrow> \<exists>i \<le> length a. strings_Index s p = Some i"
proof (induction a arbitrary: s)
  case Nil
  then show ?case by (simp add: strings_Index.simps)
next
  case (Cons x xs)
  then have s: "s = x # (xs @ p @ b)" by simp
  obtain i where "i \<le> length xs" "strings_Index (xs @ p @ b) p = Some i"
    using Cons.IH by blast
  with s show ?case
    by (cases "HasPrefix s p") (auto simp: strings_Index.simps [of "x # _"])
qed

lemma Contains_iff: "Contains s p \<longleftrightarrow> (\<exists>a b. s = a @ p @ b)"
  using strings_Index_Some strings_Index_least by (fastforce simp: Contains_def)

lemma is_ascii_append [simp]: "is_ascii (s @ t) \<longleftrightarrow> is_ascii s \<and> is_ascii t"
  by (simp add: is_ascii_def)

lemma lower_char_ascii: "of_char c < (128::nat) \<Longrightarrow> of_char (lower_char c) < (128::nat)"
  by (auto simp: lower_char_def Let_def)

lemma is_ascii_lower: "is_ascii s \<Longrightarrow> is_ascii (map lower_char s)"
  by (simp add: is_ascii_def list_all_iff lower_char_ascii)

lemma lower_char_idem [simp]: "lower_char (lower_char c) = lower_char c"
  by (auto simp: lower_char_def Let_def)

lemma ToLower_ascii: "is_ascii s \<Longrightarrow> ToLower X s = map lower_char s"
  by (simp add: ToLower_def)

lemma ToLower_idem: "is_ascii s \<Longrightarrow> ToLower X (ToLower X s) = ToLower X s"
  by (simp add: ToLower_def is_ascii_lower)

lemma split_at_char_ne [simp]: "split_at_char c s \<noteq> []"
  by (induction s) (auto split: list.splits)

lemma split_at_char_no_sep: "c \<notin> set s \<Longrightarrow> split_at_char c s = [s]"
  by (induction s) auto

lemma split_at_char_append:
  "c \<notin> set s \<Longrightarrow> split_at_char c (s @ c # t) = s # split_at_char c t"
  by (induction s) auto

section \<open>Decimal numbers\<close>

text \<open>\<open>%d\<close> of \<open>fmt\<close>.\<close>

fun dec_digits :: "nat \<Rightarrow> string" where
  "dec_digits n =
     (if n < 10 then [char_of (48 + n)] else dec_digits (n div 10) @ [char_of (48 + n mod 10)])"

definition FormatInt :: "int \<Rightarrow> string" where
  "FormatInt z = (if z < 0 then ''-'' @ dec_digits (nat (- z)) else dec_digits (nat z))"

declare dec_digits.simps [simp del]

text \<open>Reading decimal digits.\<close>

definition is_digit :: "char \<Rightarrow> bool" where
  "is_digit c \<longleftrightarrow> (let n = of_char c :: nat in 48 \<le> n \<and> n \<le> 57)"

definition digit_val :: "char \<Rightarrow> nat" where
  "digit_val c = of_char c - 48"

definition dec_val :: "string \<Rightarrow> nat" where
  "dec_val s = foldl (\<lambda>v c. v * 10 + digit_val c) 0 s"

lemma is_digit_char: "n < 10 \<Longrightarrow> is_digit (char_of (48 + n)) \<and> digit_val (char_of (48 + n)) = n"
  by (simp add: is_digit_def digit_val_def Let_def)

lemma dec_val_append: "dec_val (s @ [c]) = dec_val s * 10 + digit_val c"
  by (simp add: dec_val_def)

lemma dec_digits_val: "dec_val (dec_digits n) = n"
proof (induction n rule: dec_digits.induct)
  case (1 n)
  show ?case
  proof (cases "n < 10")
    case True
    then show ?thesis using is_digit_char [of n] by (subst dec_digits.simps) (simp add: dec_val_def)
  next
    case False
    then show ?thesis
      using 1 is_digit_char [of "n mod 10"] by (subst dec_digits.simps) (simp add: dec_val_append)
  qed
qed

lemma dec_digits_digits: "list_all is_digit (dec_digits n)"
proof (induction n rule: dec_digits.induct)
  case (1 n)
  then show ?case
    using is_digit_char [of "n mod 10"] is_digit_char [of n]
    by (subst dec_digits.simps) (auto simp: list_all_append)
qed

lemma dec_digits_ne: "dec_digits n \<noteq> ''''"
  by (subst dec_digits.simps) simp

lemma dec_val_zeros: "dec_val (replicate k (CHR ''0'') @ s) = dec_val s"
  by (induction k) (simp_all add: dec_val_def digit_val_def)

section \<open>Hexadecimal\<close>

definition hex_digit :: "nat \<Rightarrow> char" where
  "hex_digit n = (if n < 10 then char_of (n + 48) else char_of (n + 87))"

definition hex_val :: "char \<Rightarrow> nat option" where
  "hex_val c = (let n = of_char c in
     if 48 \<le> n \<and> n \<le> 57 then Some (n - 48)
     else if 97 \<le> n \<and> n \<le> 102 then Some (n - 87)
     else if 65 \<le> n \<and> n \<le> 70 then Some (n - 55)
     else None)"

fun hex_EncodeToString :: "bytes \<Rightarrow> string" where
  "hex_EncodeToString [] = []"
| "hex_EncodeToString (b # bs) =
     hex_digit (unat b div 16) # hex_digit (unat b mod 16) # hex_EncodeToString bs"

fun hex_DecodeString :: "string \<Rightarrow> bytes option" where
  "hex_DecodeString [] = Some []"
| "hex_DecodeString [c] = None"
| "hex_DecodeString (c # d # s) =
     (case (hex_val c, hex_val d) of
        (Some x, Some y) \<Rightarrow> map_option (\<lambda>bs. of_nat (16 * x + y) # bs) (hex_DecodeString s)
      | _ \<Rightarrow> None)"

lemma hex_val_digit [simp]: "n < 16 \<Longrightarrow> hex_val (hex_digit n) = Some n"
  by (auto simp: hex_val_def hex_digit_def Let_def)

lemma unat_byte_lt [simp]: "unat (b :: byte) < 256"
  using unsigned_less [of b, where 'a=nat] by simp

lemma unat_byte_le: "unat (b :: byte) \<le> 255"
  using unat_byte_lt [of b] by linarith

lemma unat_byte_div16 [simp]: "unat (b :: byte) div 16 < 16"
  using unat_byte_lt [of b] by linarith

lemma hex_decode_encode: "hex_DecodeString (hex_EncodeToString bs) = Some bs"
proof (induction bs)
  case (Cons b bs)
  have "of_nat (16 * (unat b div 16) + unat b mod 16) = b"
    by (simp add: mult.commute)
  with Cons.IH show ?case by simp
qed simp

lemma hex_length [simp]: "length (hex_EncodeToString bs) = 2 * length bs"
  by (induction bs) auto

lemma hex_digit_lower: "n < 16 \<Longrightarrow> lower_char (hex_digit n) = hex_digit n"
  by (auto simp: lower_char_def hex_digit_def Let_def)

lemma hex_digit_ascii: "n < 16 \<Longrightarrow> of_char (hex_digit n) < (128::nat)"
  by (auto simp: hex_digit_def)

lemma hex_encode_lower [simp]: "map lower_char (hex_EncodeToString bs) = hex_EncodeToString bs"
  by (induction bs) (simp_all add: hex_digit_lower)

lemma hex_encode_ascii [simp]: "is_ascii (hex_EncodeToString bs)"
  by (induction bs) (simp_all add: is_ascii_def hex_digit_ascii)

section \<open>Base64\<close>

text \<open>An alphabet is given by its characters 62 and 63. \<open>RawURLEncoding\<close> uses \<open>-\<close> and
  \<open>_\<close>, \<open>RawStdEncoding\<close> uses \<open>+\<close> and \<open>/\<close>; neither pads. The decoder skips carriage
  returns and newlines wherever they stand, and it is not strict: unused low bits of the last
  character are ignored.\<close>

type_synonym alphabet = "char \<times> char"

definition url_alphabet :: alphabet where "url_alphabet = (CHR ''-'', CHR ''_'')"
definition std_alphabet :: alphabet where "std_alphabet = (CHR ''+'', CHR ''/'')"

definition b64_char :: "alphabet \<Rightarrow> nat \<Rightarrow> char" where
  "b64_char A n =
     (if n < 26 then char_of (n + 65) else if n < 52 then char_of (n + 71)
      else if n < 62 then char_of (n - 4) else if n = 62 then fst A else snd A)"

definition b64_val :: "alphabet \<Rightarrow> char \<Rightarrow> nat option" where
  "b64_val A c = (let n = of_char c in
     if 65 \<le> n \<and> n \<le> 90 then Some (n - 65)
     else if 97 \<le> n \<and> n \<le> 122 then Some (n - 71)
     else if 48 \<le> n \<and> n \<le> 57 then Some (n + 4)
     else if c = fst A then Some 62
     else if c = snd A then Some 63
     else None)"

fun b64_encode :: "alphabet \<Rightarrow> bytes \<Rightarrow> string" where
  "b64_encode A [] = []"
| "b64_encode A [a] =
     (let v = unat a * 16 in [b64_char A (v div 64), b64_char A (v mod 64)])"
| "b64_encode A [a, b] =
     (let v = (unat a * 256 + unat b) * 4 in
      [b64_char A (v div 4096), b64_char A (v div 64 mod 64), b64_char A (v mod 64)])"
| "b64_encode A (a # b # c # bs) =
     (let v = unat a * 65536 + unat b * 256 + unat c in
      [b64_char A (v div 262144), b64_char A (v div 4096 mod 64),
       b64_char A (v div 64 mod 64), b64_char A (v mod 64)] @ b64_encode A bs)"

fun b64_decode_raw :: "alphabet \<Rightarrow> string \<Rightarrow> bytes option" where
  "b64_decode_raw A [] = Some []"
| "b64_decode_raw A [p] = None"
| "b64_decode_raw A [p, q] =
     (case (b64_val A p, b64_val A q) of
        (Some x, Some y) \<Rightarrow> Some [of_nat ((x * 64 + y) div 16)]
      | _ \<Rightarrow> None)"
| "b64_decode_raw A [p, q, r] =
     (case (b64_val A p, b64_val A q, b64_val A r) of
        (Some x, Some y, Some z) \<Rightarrow>
          (let v = (x * 4096 + y * 64 + z) div 4 in Some [of_nat (v div 256), of_nat (v mod 256)])
      | _ \<Rightarrow> None)"
| "b64_decode_raw A (p # q # r # s # cs) =
     (case (b64_val A p, b64_val A q, b64_val A r, b64_val A s) of
        (Some x, Some y, Some z, Some w) \<Rightarrow>
          (let v = x * 262144 + y * 4096 + z * 64 + w in
           map_option (\<lambda>bs. [of_nat (v div 65536), of_nat (v div 256 mod 256), of_nat (v mod 256)] @ bs)
             (b64_decode_raw A cs))
      | _ \<Rightarrow> None)"

definition is_newline :: "char \<Rightarrow> bool" where
  "is_newline c \<longleftrightarrow> of_char c = (10::nat) \<or> of_char c = (13::nat)"

definition b64_decode :: "alphabet \<Rightarrow> string \<Rightarrow> bytes option" where
  "b64_decode A s = b64_decode_raw A (filter (\<lambda>c. \<not> is_newline c) s)"

text \<open>The laws of an alphabet: characters 62 and 63 are distinct, are not letters or digits and
  are not newlines.\<close>

definition alphabet_ok :: "alphabet \<Rightarrow> bool" where
  "alphabet_ok A \<longleftrightarrow> (\<forall>n < 64. b64_val A (b64_char A n) = Some n \<and> \<not> is_newline (b64_char A n))"

lemma b64_val_char_lt62:
  "n < 62 \<Longrightarrow> b64_val A (b64_char A n) = Some n \<and> \<not> is_newline (b64_char A n)"
  by (auto simp: b64_val_def b64_char_def is_newline_def Let_def)

lemma nat_lt_64_cases: "n < 64 \<Longrightarrow> n < 62 \<or> n = 62 \<or> n = (63::nat)"
  by linarith

lemma url_alphabet_ok [simp]: "alphabet_ok url_alphabet"
  by (auto simp: alphabet_ok_def b64_val_char_lt62 dest!: nat_lt_64_cases)
    (simp_all add: url_alphabet_def b64_val_def b64_char_def is_newline_def)

lemma std_alphabet_ok [simp]: "alphabet_ok std_alphabet"
  by (auto simp: alphabet_ok_def b64_val_char_lt62 dest!: nat_lt_64_cases)
    (simp_all add: std_alphabet_def b64_val_def b64_char_def is_newline_def)

lemma alphabet_okD:
  "alphabet_ok A \<Longrightarrow> n < 64 \<Longrightarrow> b64_val A (b64_char A n) = Some n"
  "alphabet_ok A \<Longrightarrow> n < 64 \<Longrightarrow> \<not> is_newline (b64_char A n)"
  by (auto simp: alphabet_ok_def)

lemma b64_encode_length: "length (b64_encode A bs) = (4 * length bs + 2) div 3"
  by (induction A bs rule: b64_encode.induct) (auto simp: Let_def)

lemma three_bytes_lt: "unat (a::byte) * 65536 + unat (b::byte) * 256 + unat (c::byte) < 16777216"
  using unat_byte_lt [of a] unat_byte_lt [of b] unat_byte_lt [of c] by linarith

lemma two_bytes_div: "(unat (a::byte) * 256 + unat (b::byte)) * 4 div 4096 < 64"
  proof -
  have "(unat a * 256 + unat b) * 4 < 64 * 4096"
    using unat_byte_le [of a] unat_byte_le [of b] by simp
  then show ?thesis by (simp only: div_less_iff_less_mult zero_less_numeral)
qed

lemma b64_encode_no_newline:
  "alphabet_ok A \<Longrightarrow> filter (\<lambda>c. \<not> is_newline c) (b64_encode A bs) = b64_encode A bs"
proof (induction A bs rule: b64_encode.induct)
  case (2 A a)
  have "unat a * 16 div 64 < 64" using unat_byte_lt [of a] by linarith
  with 2 show ?case by (simp add: Let_def alphabet_okD)
next
  case (3 A a b)
  have "(unat a * 256 + unat b) * 4 div 4096 < 64"
    by (rule two_bytes_div)
  with 3 show ?case by (simp add: Let_def alphabet_okD)
next
  case (4 A a b c bs)
  have "(unat a * 65536 + unat b * 256 + unat c) div 262144 < 64"
    using three_bytes_lt [of a b c] by linarith
  with 4 show ?case by (simp add: Let_def alphabet_okD)
qed simp

lemma b64_recombine2: "(v :: nat) div 4096 * 4096 + v div 64 mod 64 * 64 + v mod 64 = v"
proof -
  define x y r s where "x = v div 64" and "y = x div 64" and "r = v mod 64" and "s = x mod 64"
  have "v = 64 * x + r" "x = 64 * y + s" by (simp_all add: x_def y_def r_def s_def)
  moreover have "v div 4096 = y" by (simp add: x_def y_def flip: div_mult2_eq)
  ultimately show ?thesis
    unfolding x_def [symmetric] r_def [symmetric] s_def [symmetric] by linarith
qed

lemma b64_recombine3:
  "(v :: nat) div 262144 * 262144 + v div 4096 mod 64 * 4096 + v div 64 mod 64 * 64 + v mod 64 = v"
proof -
  define x y where "x = v div 4096" and "y = x div 64"
  have "x = 64 * y + x mod 64" by (simp add: y_def)
  moreover have "v div 262144 = y" by (simp add: x_def y_def flip: div_mult2_eq)
  ultimately have "v div 262144 * 262144 + v div 4096 mod 64 * 4096 = v div 4096 * 4096"
    by (simp add: x_def [symmetric])
  with b64_recombine2 [of v] show ?thesis by simp
qed

lemma bytes3_split:
  fixes a b c :: nat
  assumes "b < 256" "c < 256"
  shows "(a * 65536 + b * 256 + c) div 65536 = a"
    and "(a * 65536 + b * 256 + c) div 256 mod 256 = b"
    and "(a * 65536 + b * 256 + c) mod 256 = c"
proof -
  have e: "a * 65536 + b * 256 + c = (a * 256 + b) * 256 + c" by simp
  have d: "(a * 65536 + b * 256 + c) div 256 = a * 256 + b"
    using assms by (simp add: e)
  show "(a * 65536 + b * 256 + c) div 256 mod 256 = b"
    using assms by (simp add: d)
  have "(a * 65536 + b * 256 + c) div 65536 = (a * 65536 + b * 256 + c) div 256 div 256"
    by (simp flip: div_mult2_eq)
  then show "(a * 65536 + b * 256 + c) div 65536 = a"
    using assms by (simp only: d)
  show "(a * 65536 + b * 256 + c) mod 256 = c"
    using assms by (simp only: e mod_mult_self3 mod_less)
qed

lemma b64_recombine1: "(v :: nat) div 64 * 64 + v mod 64 = v"
  by (rule div_mult_mod_eq)

lemma b64_decode_encode_raw: "alphabet_ok A \<Longrightarrow> b64_decode_raw A (b64_encode A bs) = Some bs"
proof (induction A bs rule: b64_encode.induct)
  case (2 A a)
  have "unat a * 16 div 64 < 64" using unat_byte_lt [of a] by linarith
  with 2 show ?case
    by (simp only: b64_encode.simps b64_decode_raw.simps Let_def alphabet_okD b64_recombine1
        option.case prod.case mod_less_divisor zero_less_numeral) simp
next
  case (3 A a b)
  let ?v = "(unat a * 256 + unat b) * 4"
  have "?v div 4096 < 64"
    by (rule two_bytes_div)
  moreover have "?v div 4 div 256 = unat a" "?v div 4 mod 256 = unat b"
    by simp_all
  ultimately show ?case using 3
    by (simp only: b64_encode.simps b64_decode_raw.simps Let_def alphabet_okD b64_recombine2
        option.case prod.case mod_less_divisor zero_less_numeral) simp
next
  case (4 A a b c bs)
  let ?v = "unat a * 65536 + unat b * 256 + unat c"
  have lt: "?v div 262144 < 64" using three_bytes_lt [of a b c] by linarith
  have parts: "?v div 65536 = unat a" "?v div 256 mod 256 = unat b" "?v mod 256 = unat c"
    by (simp_all only: bytes3_split unat_byte_lt)
  from 4 have IH: "b64_decode_raw A (b64_encode A bs) = Some bs"
    by blast
  show ?case using 4(2) lt
    by (simp only: b64_encode.simps b64_decode_raw.simps Let_def alphabet_okD b64_recombine3 append.simps
        option.case prod.case mod_less_divisor zero_less_numeral IH parts) simp
qed simp

lemma b64_decode_encode: "alphabet_ok A \<Longrightarrow> b64_decode A (b64_encode A bs) = Some bs"
  by (simp add: b64_decode_def b64_encode_no_newline b64_decode_encode_raw)

text \<open>\<open>StdEncoding\<close> pads its output with equals signs to a multiple of four characters.\<close>

definition b64_encode_padded :: "alphabet \<Rightarrow> bytes \<Rightarrow> string" where
  "b64_encode_padded A bs =
     b64_encode A bs @ replicate ((3 - length bs mod 3) mod 3) (CHR ''='')"

lemma b64_padded_length: "length (b64_encode_padded A bs) \<le> 2 * length bs + 4"
proof -
  have "(3 - length bs mod 3) mod 3 \<le> 2" by linarith
  then show ?thesis unfolding b64_encode_padded_def length_append length_replicate b64_encode_length by linarith
qed

definition b64_decode_padded :: "alphabet \<Rightarrow> string \<Rightarrow> bytes option" where
  "b64_decode_padded A s =
     (let t = filter (\<lambda>c. \<not> is_newline c) s in
      if length t mod 4 \<noteq> 0 then None
      else if HasSuffix t ''=='' then b64_decode_raw A (take (length t - 2) t)
      else if HasSuffix t ''='' then b64_decode_raw A (take (length t - 1) t)
      else b64_decode_raw A t)"

lemma b64_char_ne_pad: "b64_char std_alphabet n \<noteq> CHR ''=''"
proof -
  have "of_char (b64_char std_alphabet n) \<noteq> (61::nat)"
    by (auto simp: b64_char_def std_alphabet_def)
  then show ?thesis by auto
qed

lemma b64_encode_no_pad: "CHR ''='' \<notin> set (b64_encode std_alphabet bs)"
proof -
  note ne = b64_char_ne_pad b64_char_ne_pad [symmetric]
  show ?thesis by (induction std_alphabet bs rule: b64_encode.induct) (simp_all add: Let_def ne)
qed

lemma b64_padded_roundtrip: "b64_decode_padded std_alphabet (b64_encode_padded std_alphabet bs) = Some bs"
proof -
  let ?e = "b64_encode std_alphabet bs" and ?n = "(3 - length bs mod 3) mod 3"
  have nl: "filter (\<lambda>c. \<not> is_newline c) (b64_encode_padded std_alphabet bs) = ?e @ replicate ?n (CHR ''='')"
    using b64_encode_no_newline [OF std_alphabet_ok, of bs]
    by (simp add: b64_encode_padded_def is_newline_def)
  have len: "(length ?e + ?n) mod 4 = 0"
  proof -
    define q r where "q = length bs div 3" and "r = length bs mod 3"
    have l: "length bs = 3 * q + r" by (simp add: q_def r_def)
    have "(12 * q + 2) div 3 = 4 * q" "(12 * q + 6) div 3 = 4 * q + 2" "(12 * q + 10) div 3 = 4 * q + 3"
      by linarith+
    moreover have "r = 0 \<or> r = 1 \<or> r = 2" by (auto simp: r_def)
    ultimately show ?thesis
      unfolding b64_encode_length r_def [symmetric] l by (auto simp: algebra_simps)
  qed
  have suf: "\<not> HasSuffix ?e ''=''" "\<not> HasSuffix ?e ''==''" "\<not> HasSuffix (?e @ ''='') ''==''"
    using b64_encode_no_pad [of bs] by (auto simp: HasSuffix_iff)
  have "?n = 0 \<or> ?n = 1 \<or> ?n = 2" by auto
  then consider "?n = 0" | "?n = 1" | "?n = 2" by (elim disjE) assumption+
  then show ?thesis
  proof cases
    case 1
    then show ?thesis
      using len suf b64_decode_encode_raw [OF std_alphabet_ok, of bs]
      by (simp add: b64_decode_padded_def nl)
  next
    case 2
    then show ?thesis
      using len suf b64_decode_encode_raw [OF std_alphabet_ok, of bs]
      by (simp add: b64_decode_padded_def nl) (simp add: HasSuffix_iff)
  next
    case 3
    then show ?thesis
      using len b64_decode_encode_raw [OF std_alphabet_ok, of bs]
      by (simp add: b64_decode_padded_def nl numeral_2_eq_2) (simp add: HasSuffix_iff)
  qed
qed

section \<open>Codecs as an interface\<close>

locale byte_codec =
  fixes encode :: "bytes \<Rightarrow> string"
    and decode :: "string \<Rightarrow> bytes option"
  assumes decode_encode: "decode (encode bs) = Some bs"
begin

lemma encode_inj: "encode a = encode b \<longleftrightarrow> a = b"
  by (metis decode_encode option.inject)

lemma encode_decodes: "\<exists>bs. decode (encode a) = Some bs"
  by (simp add: decode_encode)

end

interpretation hex: byte_codec hex_EncodeToString hex_DecodeString
  by unfold_locales (rule hex_decode_encode)

interpretation rawurl: byte_codec "b64_encode url_alphabet" "b64_decode url_alphabet"
  by unfold_locales (simp add: b64_decode_encode)

interpretation rawstd: byte_codec "b64_encode std_alphabet" "b64_decode std_alphabet"
  by unfold_locales (simp add: b64_decode_encode)

interpretation std: byte_codec "b64_encode_padded std_alphabet" "b64_decode_padded std_alphabet"
  by unfold_locales (rule b64_padded_roundtrip)

end
