(* ===== verification/Domain_Session.thy ===== *)
theory Domain_Session
  imports Domain_Errors Go_Strings
begin

text \<open>
  The session entity, \<open>internal/core/domain/session.go\<close>: the record with the fields of the
  struct, the constructor, the clock-dependent predicates, \<open>Touch\<close>, \<open>Validate\<close> and the
  identifier format. The clock reading of an operation is its argument \<open>now\<close>; the ULID
  generator of oklog/ulid is the argument \<open>ulid\<close>, its result or its error. A \<open>nil\<close> map
  is \<open>None\<close>. Constraint constants keep the names of the source.
\<close>

section \<open>Constants and the record\<close>

abbreviation MaxUserIDLength :: nat where "MaxUserIDLength \<equiv> 128"
abbreviation MaxIPAddressLength :: nat where "MaxIPAddressLength \<equiv> 45"
abbreviation MaxUserAgentLength :: nat where "MaxUserAgentLength \<equiv> 512"
abbreviation MaxDeviceIDLength :: nat where "MaxDeviceIDLength \<equiv> 128"
abbreviation MaxDataKeyLength :: nat where "MaxDataKeyLength \<equiv> 64"
abbreviation MaxDataValueLength :: nat where "MaxDataValueLength \<equiv> 1024"
abbreviation MaxDataTotalSize :: nat where "MaxDataTotalSize \<equiv> 4096"
abbreviation MaxSessionsPerUser :: nat where "MaxSessionsPerUser \<equiv> 50"
abbreviation SessionIDPrefix :: string where "SessionIDPrefix \<equiv> ''tmss-''"

type_synonym data_map = "(string, string) gomap option"

record session =
  S_ID :: string
  S_UserID :: string
  S_TokenHash :: string
  S_IPAddress :: string
  S_UserAgent :: string
  S_LastAccessIP :: string
  S_LastAccessUA :: string
  S_DeviceID :: string
  S_CreatedBy :: string
  S_CreatedAt :: int
  S_ExpiresAt :: int
  S_LastActive :: int
  S_Data :: data_map
  S_Version :: u64
  S_ShardID :: u32
  S_TTL :: int
  S_IsDeleted :: bool

text \<open>The zero value of the struct.\<close>

definition Session_zero :: session where
  "Session_zero = \<lparr> S_ID = '''', S_UserID = '''', S_TokenHash = '''', S_IPAddress = '''',
     S_UserAgent = '''', S_LastAccessIP = '''', S_LastAccessUA = '''', S_DeviceID = '''',
     S_CreatedBy = '''', S_CreatedAt = 0, S_ExpiresAt = 0, S_LastActive = 0, S_Data = None,
     S_Version = 0, S_ShardID = 0, S_TTL = 0, S_IsDeleted = False \<rparr>"

section \<open>Operations\<close>

definition GenerateSessionID :: "ext \<Rightarrow> go_error + string \<Rightarrow> go_error + string" where
  "GenerateSessionID X ulid =
     (case ulid of
        Inl err \<Rightarrow> Inl (WithCause ErrInternalServer err)
      | Inr u \<Rightarrow> Inr (SessionIDPrefix @ ToLower X u))"

definition NewSession :: "ext \<Rightarrow> int \<Rightarrow> go_error + string \<Rightarrow> string \<Rightarrow> go_error + session" where
  "NewSession X now ulid userID =
     (if userID = '''' then Inl (WithDetails ErrInvalidArgument ''user_id is required'')
      else if length userID > MaxUserIDLength then
        Inl (WithDetails ErrInvalidArgument ''user_id exceeds maximum length'')
      else
        (case GenerateSessionID X ulid of
           Inl err \<Rightarrow> Inl err
         | Inr i \<Rightarrow>
             Inr (Session_zero \<lparr> S_ID := i, S_UserID := userID, S_CreatedAt := UnixMilli now,
                    S_LastActive := UnixMilli now, S_Data := Some [], S_Version := 1 \<rparr>)))"

definition Session_IsExpired :: "int \<Rightarrow> session \<Rightarrow> bool" where
  "Session_IsExpired now s =
     (if S_ExpiresAt s = 0 then False else UnixMilli now > S_ExpiresAt s)"

definition Session_TTLDuration :: "int \<Rightarrow> session \<Rightarrow> int" where
  "Session_TTLDuration now s =
     (if S_ExpiresAt s = 0 then 0
      else let remaining = i64 (S_ExpiresAt s - UnixMilli now) in
           if remaining < 0 then 0 else i64 (remaining * Millisecond))"

definition Session_Touch :: "int \<Rightarrow> string \<Rightarrow> string \<Rightarrow> session \<Rightarrow> session" where
  "Session_Touch now ip userAgent s =
     (let s1 = s \<lparr> S_LastActive := UnixMilli now \<rparr>;
          s2 = (if ip \<noteq> '''' then
                  s1 \<lparr> S_LastAccessIP :=
                         (if length ip > MaxIPAddressLength then take MaxIPAddressLength ip else ip) \<rparr>
                else s1)
      in if userAgent \<noteq> '''' then
           s2 \<lparr> S_LastAccessUA :=
                  (if length userAgent > MaxUserAgentLength then take MaxUserAgentLength userAgent
                   else userAgent) \<rparr>
         else s2)"

definition Session_IncrVersion :: "session \<Rightarrow> session" where
  "Session_IncrVersion s = s \<lparr> S_Version := S_Version s + 1 \<rparr>"

definition Session_GetVersion :: "session \<Rightarrow> u64" where
  "Session_GetVersion s = S_Version s"

definition Session_SetVersion :: "u64 \<Rightarrow> session \<Rightarrow> session" where
  "Session_SetVersion v s = s \<lparr> S_Version := v \<rparr>"

text \<open>The loop of \<open>validateData\<close>, with the running total.\<close>

fun validateData_loop :: "(string \<times> string) list \<Rightarrow> nat \<Rightarrow> go_error + nat" where
  "validateData_loop [] totalSize = Inr totalSize"
| "validateData_loop ((k, v) # rest) totalSize =
     (if length k > MaxDataKeyLength then
        Inl (WithDetails ErrSessionValidation ''data key exceeds 64 characters'')
      else if length v > MaxDataValueLength then
        Inl (WithDetails ErrSessionValidation ''data value exceeds 1KB'')
      else validateData_loop rest (totalSize + (length k + length v)))"

definition Session_validateData :: "session \<Rightarrow> go_error option" where
  "Session_validateData s =
     (case S_Data s of
        None \<Rightarrow> None
      | Some d \<Rightarrow>
          (case validateData_loop d 0 of
             Inl err \<Rightarrow> Some err
           | Inr totalSize \<Rightarrow>
               if totalSize > MaxDataTotalSize then
                 Some (WithDetails ErrSessionValidation ''data total size exceeds 4KB'')
               else None))"

definition Session_violations :: "session \<Rightarrow> string list" where
  "Session_violations s =
     (if S_UserID s = '''' then [''user_id is required''] else []) @
     (if length (S_UserID s) > MaxUserIDLength then [''user_id exceeds 128 characters''] else []) @
     (if length (S_IPAddress s) > MaxIPAddressLength then [''ip_address exceeds 45 characters'']
      else []) @
     (if length (S_UserAgent s) > MaxUserAgentLength then [''user_agent exceeds 512 characters'']
      else []) @
     (if length (S_DeviceID s) > MaxDeviceIDLength then [''device_id exceeds 128 characters'']
      else []) @
     (case Session_validateData s of None \<Rightarrow> [] | Some err \<Rightarrow> [Error err])"

definition Session_Validate :: "session \<Rightarrow> go_error option" where
  "Session_Validate s =
     (let violations = Session_violations s in
      if violations \<noteq> [] then Some (WithDetails ErrSessionValidation (strings_Join violations ''; ''))
      else None)"

definition Session_DataSize :: "session \<Rightarrow> nat" where
  "Session_DataSize s =
     (case S_Data s of
        None \<Rightarrow> 0
      | Some d \<Rightarrow> foldl (\<lambda>size (k, v). size + (length k + length v)) 0 d)"

definition Session_SetExpiration :: "int \<Rightarrow> int \<Rightarrow> session \<Rightarrow> session" where
  "Session_SetExpiration now ttl s =
     s \<lparr> S_ExpiresAt := UnixMilli (now + ttl), S_TTL := Milliseconds ttl \<rparr>"

definition Session_ExtendExpiration :: "int \<Rightarrow> session \<Rightarrow> session" where
  "Session_ExtendExpiration extension s =
     (if S_ExpiresAt s > 0 then
        s \<lparr> S_ExpiresAt := i64 (S_ExpiresAt s + Milliseconds extension) \<rparr>
      else s)"

text \<open>\<open>Clone\<close> rebuilds the map entry by entry; the pointer may be nil.\<close>

definition Session_Clone :: "session option \<Rightarrow> session option" where
  "Session_Clone p =
     (case p of
        None \<Rightarrow> None
      | Some s \<Rightarrow>
          Some (case S_Data s of
                  None \<Rightarrow> s
                | Some d \<Rightarrow> s \<lparr> S_Data := Some (foldl (\<lambda>m (k, v). gm_set k v m) [] d) \<rparr>))"

definition Session_CreatedAtTime :: "session \<Rightarrow> int" where
  "Session_CreatedAtTime s = time_UnixMilli (S_CreatedAt s)"

definition Session_ExpiresAtTime :: "session \<Rightarrow> int" where
  "Session_ExpiresAtTime s =
     (if S_ExpiresAt s = 0 then time_zero else time_UnixMilli (S_ExpiresAt s))"

definition Session_LastActiveTime :: "session \<Rightarrow> int" where
  "Session_LastActiveTime s = time_UnixMilli (S_LastActive s)"

definition IsValidSessionID :: "ext \<Rightarrow> string \<Rightarrow> bool" where
  "IsValidSessionID X i0 =
     (let i = ToLower X i0 in
      if \<not> HasPrefix i SessionIDPrefix then False
      else if length i \<noteq> 31 then False
      else ulid_Parse X (ToUpper X (drop (length SessionIDPrefix) i)))"

definition NormalizeSessionID :: "ext \<Rightarrow> string \<Rightarrow> string" where
  "NormalizeSessionID X i =
     (let normalized = ToLower X i in
      if \<not> IsValidSessionID X normalized then '''' else normalized)"

section \<open>Validation\<close>

text \<open>What the constraints of the design document say, with no order of evaluation.\<close>

definition data_within_limits :: "data_map \<Rightarrow> bool" where
  "data_within_limits D \<longleftrightarrow>
     (case D of
        None \<Rightarrow> True
      | Some d \<Rightarrow>
          (\<forall>(k, v) \<in> set d. length k \<le> MaxDataKeyLength \<and> length v \<le> MaxDataValueLength) \<and>
          (\<Sum>(k, v) \<leftarrow> d. length k + length v) \<le> MaxDataTotalSize)"

lemma validateData_loop_ok:
  "validateData_loop d t = Inr n \<longleftrightarrow>
     (\<forall>(k, v) \<in> set d. length k \<le> MaxDataKeyLength \<and> length v \<le> MaxDataValueLength) \<and>
     n = t + (\<Sum>(k, v) \<leftarrow> d. length k + length v)"
  by (induction d t rule: validateData_loop.induct) auto

lemma validateData_loop_sum:
  "is_ok (validateData_loop d t) \<Longrightarrow>
     validateData_loop d t = Inr (t + (\<Sum>(k, v) \<leftarrow> d. length k + length v))"
  by (auto simp: is_ok_iff validateData_loop_ok)

lemma Session_validateData_None: "Session_validateData s = None \<longleftrightarrow> data_within_limits (S_Data s)"
proof (cases "S_Data s")
  case None
  then show ?thesis by (simp add: Session_validateData_def data_within_limits_def)
next
  case (Some d)
  show ?thesis
  proof (cases "validateData_loop d 0")
    case (Inl e)
    then have "\<not> (\<forall>(k, v) \<in> set d. length k \<le> MaxDataKeyLength \<and> length v \<le> MaxDataValueLength)"
      using validateData_loop_ok [of d 0 "0 + (\<Sum>(k, v) \<leftarrow> d. length k + length v)"] by auto
    then show ?thesis
      using Some Inl by (auto simp: Session_validateData_def data_within_limits_def)
  next
    case (Inr n)
    then show ?thesis
      using Some validateData_loop_ok [of d 0 n]
      by (auto simp: Session_validateData_def data_within_limits_def)
  qed
qed

lemma Session_Validate_None:
  "Session_Validate s = None \<longleftrightarrow>
     S_UserID s \<noteq> '''' \<and> length (S_UserID s) \<le> MaxUserIDLength \<and>
     length (S_IPAddress s) \<le> MaxIPAddressLength \<and>
     length (S_UserAgent s) \<le> MaxUserAgentLength \<and>
     length (S_DeviceID s) \<le> MaxDeviceIDLength \<and> data_within_limits (S_Data s)"
  using Session_validateData_None [of s]
  by (auto simp: Session_Validate_def Session_violations_def Let_def split: option.splits)

lemma Session_Validate_code:
  "Session_Validate s = Some e \<Longrightarrow> GetErrorCode e = ''TM-SESS-4001''"
  by (auto simp: Session_Validate_def Let_def ErrSessionValidation_def NewDomainError_def
      GetErrorCode_def split: if_splits)

lemma data_within_limits_order:
  "gm_wf d \<Longrightarrow> gm_wf d' \<Longrightarrow> gm_get d = gm_get d' \<Longrightarrow>
     data_within_limits (Some d) \<longleftrightarrow> data_within_limits (Some d')"
  by (simp add: data_within_limits_def gm_same_set [of d d']
      gm_sum_list [of d d' "\<lambda>(k, v). length k + length v"])

lemma Session_DataSize_sum:
  "S_Data s = Some d \<Longrightarrow> Session_DataSize s = (\<Sum>(k, v) \<leftarrow> d. length k + length v)"
proof -
  have "foldl (\<lambda>size (k, v). size + (length k + length v)) n d =
      n + (\<Sum>(k, v) \<leftarrow> d. length k + length v)" for n and d :: "(string \<times> string) list"
    by (induction d arbitrary: n) auto
  then show "S_Data s = Some d \<Longrightarrow> ?thesis"
    by (simp add: Session_DataSize_def)
qed

section \<open>Expiry\<close>

lemma Session_SetExpiration_alive:
  "0 \<le> ttl \<Longrightarrow> t \<le> now + ttl \<Longrightarrow> \<not> Session_IsExpired t (Session_SetExpiration now ttl s)"
  using UnixMilli_mono [of t "now + ttl"]
  by (auto simp: Session_IsExpired_def Session_SetExpiration_def)

lemma Session_IsExpired_mono:
  "t \<le> t' \<Longrightarrow> Session_IsExpired t s \<Longrightarrow> Session_IsExpired t' s"
  using UnixMilli_mono [of t t'] by (auto simp: Session_IsExpired_def split: if_splits)

lemma Session_TTLDuration_zero_iff:
  assumes "in_i64 (S_ExpiresAt s - UnixMilli now)" "in_i64 ((S_ExpiresAt s - UnixMilli now) * Millisecond)"
    and "S_ExpiresAt s \<noteq> 0"
  shows "Session_TTLDuration now s = max 0 ((S_ExpiresAt s - UnixMilli now) * Millisecond)"
  using assms by (simp add: Session_TTLDuration_def Let_def i64_id)

lemma Session_Touch_bounds:
  assumes "length (S_LastAccessIP s) \<le> MaxIPAddressLength"
    and "length (S_LastAccessUA s) \<le> MaxUserAgentLength"
  shows "length (S_LastAccessIP (Session_Touch now ip ua s)) \<le> MaxIPAddressLength"
    and "length (S_LastAccessUA (Session_Touch now ip ua s)) \<le> MaxUserAgentLength"
  using assms by (simp_all add: Session_Touch_def Let_def)

lemma Session_Touch_keeps [simp]:
  "S_ID (Session_Touch now ip ua s) = S_ID s"
  "S_UserID (Session_Touch now ip ua s) = S_UserID s"
  "S_TokenHash (Session_Touch now ip ua s) = S_TokenHash s"
  "S_ExpiresAt (Session_Touch now ip ua s) = S_ExpiresAt s"
  "S_Version (Session_Touch now ip ua s) = S_Version s"
  "S_DeviceID (Session_Touch now ip ua s) = S_DeviceID s"
  by (simp_all add: Session_Touch_def Let_def)

text \<open>A clone of a live session is equal to it, in whatever order the map is walked: components
  that store clones therefore store the value.\<close>

lemma Session_Clone_Some:
  "(\<And>d. S_Data s = Some d \<Longrightarrow> gm_wf d) \<Longrightarrow> Session_Clone (Some s) = Some s"
  using gm_rebuild [of "[]"]
  by (auto simp: Session_Clone_def split: option.splits intro!: session.equality)

section \<open>Identifiers\<close>

text \<open>The shape of a ULID's text: 26 characters, digits and capital letters.\<close>

definition ulid_text :: "string \<Rightarrow> bool" where
  "ulid_text u \<longleftrightarrow> length u = 26 \<and>
     list_all (\<lambda>c. let n = of_char c :: nat in (48 \<le> n \<and> n \<le> 57) \<or> (65 \<le> n \<and> n \<le> 90)) u"

lemma upper_lower_char:
  "(48 \<le> (of_char c :: nat) \<and> (of_char c :: nat) \<le> 57) \<or> (65 \<le> (of_char c :: nat) \<and> (of_char c :: nat) \<le> 90)
     \<Longrightarrow> upper_char (lower_char c) = c"
  by (auto simp: upper_char_def lower_char_def Let_def)

lemma ulid_text_upper_lower: "ulid_text u \<Longrightarrow> map upper_char (map lower_char u) = u"
  by (auto simp: ulid_text_def list_all_iff Let_def upper_lower_char intro!: map_idI)

lemma ulid_text_ascii: "ulid_text u \<Longrightarrow> is_ascii u"
  by (fastforce simp: ulid_text_def is_ascii_def list_all_iff Let_def)

lemma prefixed_id_valid:
  assumes "ulid_text u" "is_ascii p" "map lower_char p = p" "length p = 5"
  shows "ToLower X (p @ ToLower X u) = p @ map lower_char u"
    and "ToUpper X (drop 5 (p @ map lower_char u)) = u"
    and "length (p @ map lower_char u) = 31"
  using assms ulid_text_ascii [of u] is_ascii_lower [of u] ulid_text_upper_lower [of u]
  by (auto simp: ToLower_def ToUpper_def ulid_text_def)

lemma IsValidSessionID_generated:
  assumes u: "ulid_text u" and parse: "ulid_Parse X u"
    and gen: "GenerateSessionID X (Inr u) = Inr i"
  shows "IsValidSessionID X i" "length i = 31" "NormalizeSessionID X i = i"
proof -
  have p: "is_ascii SessionIDPrefix" "map lower_char SessionIDPrefix = SessionIDPrefix"
    by (simp_all add: is_ascii_def lower_char_def)
  have i: "i = SessionIDPrefix @ map lower_char u"
    using gen ulid_text_ascii [OF u] by (simp add: GenerateSessionID_def ToLower_def)
  have low: "ToLower X i = i"
    using prefixed_id_valid(1) [OF u p, of X] i ulid_text_ascii [OF u] by (simp add: ToLower_ascii)
  show v: "IsValidSessionID X i"
    using prefixed_id_valid(2,3) [OF u p] parse i low
    by (simp add: IsValidSessionID_def HasPrefix_def)
  show "length i = 31" using i u by (simp add: ulid_text_def)
  show "NormalizeSessionID X i = i" using v low by (simp add: NormalizeSessionID_def)
qed

section \<open>An example\<close>

text \<open>A small valid session that the examples of the development store.\<close>

definition example_session :: "string \<Rightarrow> string \<Rightarrow> string \<Rightarrow> session" where
  "example_session i u h =
     Session_zero \<lparr> S_ID := i, S_UserID := u, S_TokenHash := h, S_Version := 1 \<rparr>"

lemma example_session_fields [simp]:
  "S_ID (example_session i u h) = i" "S_UserID (example_session i u h) = u"
  "S_TokenHash (example_session i u h) = h" "S_Version (example_session i u h) = 1"
  "S_IsDeleted (example_session i u h) = False" "S_ExpiresAt (example_session i u h) = 0"
  "S_Data (example_session i u h) = None"
  by (simp_all add: example_session_def Session_zero_def)

lemma example_session_valid [simp]:
  "u \<noteq> '''' \<Longrightarrow> length u \<le> MaxUserIDLength \<Longrightarrow> Session_Validate (example_session i u h) = None"
  by (simp add: Session_Validate_None data_within_limits_def) (simp add: example_session_def Session_zero_def)

lemma example_session_live [simp]: "\<not> Session_IsExpired now (example_session i u h)"
  by (simp add: Session_IsExpired_def)

end
