(* ===== verification/Cmap.thy ===== *)
theory Cmap
  imports Go_Prelude
begin

text \<open>
  The sharded map \<open>pkg/cmap\<close> (\<open>sharded.go\<close>, \<open>iter.go\<close>). A map is a list of shards, a mask and
  the hash function that \<open>maphash\<close> computes with the map's seed; every operation picks the
  shard of its key and works on that shard under its lock, so each single-key operation is one
  atomic step. Values that are pointers are modelled by what they point to; an in-place
  change of the pointee is a \<open>Set\<close> of the changed value.

  The invariant \<open>cmap_inv\<close> says that there are mask + 1 shards, each a well-formed map that
  holds only keys hashing to it; \<open>cmap_abs\<close> reads the whole structure as one finite map. The
  locale \<open>conc_map\<close> is the interface clients rely on.
\<close>

section \<open>Structure and operations\<close>

record ('k, 'v) cmap =
  shards :: "('k, 'v) gomap list"
  shardMask :: u64
  seed_hash :: "'k \<Rightarrow> u64"

abbreviation DefaultShardCount :: int where "DefaultShardCount \<equiv> 16"

definition NewWithShards :: "('k \<Rightarrow> u64) \<Rightarrow> int \<Rightarrow> ('k, 'v) cmap" where
  "NewWithShards seed n =
     (let shardCount = (if n \<le> 0 \<or> n AND (n - 1) \<noteq> 0 then DefaultShardCount else n) in
      \<lparr> shards = replicate (nat shardCount) [], shardMask = of_int (shardCount - 1),
        seed_hash = seed \<rparr>)"

definition Cmap_New :: "('k \<Rightarrow> u64) \<Rightarrow> ('k, 'v) cmap" where
  "Cmap_New seed = NewWithShards seed DefaultShardCount"

definition shard_index :: "('k, 'v) cmap \<Rightarrow> 'k \<Rightarrow> nat" where
  "shard_index m key = unat (seed_hash m key AND shardMask m)"

definition getShard :: "('k, 'v) cmap \<Rightarrow> 'k \<Rightarrow> ('k, 'v) gomap" where
  "getShard m key = shards m ! shard_index m key"

definition putShard :: "('k, 'v) cmap \<Rightarrow> 'k \<Rightarrow> ('k, 'v) gomap \<Rightarrow> ('k, 'v) cmap" where
  "putShard m key items = m \<lparr> shards := (shards m)[shard_index m key := items] \<rparr>"

definition Cmap_Get :: "('k, 'v) cmap \<Rightarrow> 'k \<Rightarrow> 'v option" where
  "Cmap_Get m key = gm_get (getShard m key) key"

definition Cmap_Set :: "('k, 'v) cmap \<Rightarrow> 'k \<Rightarrow> 'v \<Rightarrow> ('k, 'v) cmap" where
  "Cmap_Set m key v = putShard m key (gm_set key v (getShard m key))"

definition Cmap_Delete :: "('k, 'v) cmap \<Rightarrow> 'k \<Rightarrow> ('k, 'v) cmap" where
  "Cmap_Delete m key = putShard m key (gm_del key (getShard m key))"

definition Cmap_Has :: "('k, 'v) cmap \<Rightarrow> 'k \<Rightarrow> bool" where
  "Cmap_Has m key \<longleftrightarrow> Cmap_Get m key \<noteq> None"

definition Cmap_Count :: "('k, 'v) cmap \<Rightarrow> nat" where
  "Cmap_Count m = foldl (\<lambda>count items. count + length items) 0 (shards m)"

definition Cmap_Clear :: "('k, 'v) cmap \<Rightarrow> ('k, 'v) cmap" where
  "Cmap_Clear m = m \<lparr> shards := map (\<lambda>_. []) (shards m) \<rparr>"

text \<open>\<open>Range\<close>: the callback threads a state and returns whether to go on; the outer result says
  whether the walk reached the end.\<close>

fun range_items :: "('k \<Rightarrow> 'v \<Rightarrow> 's \<Rightarrow> 's \<times> bool) \<Rightarrow> ('k, 'v) gomap \<Rightarrow> 's \<Rightarrow> 's \<times> bool" where
  "range_items fn [] s = (s, True)"
| "range_items fn ((k, v) # rest) s =
     (case fn k v s of (s', go) \<Rightarrow> if go then range_items fn rest s' else (s', False))"

fun range_shards :: "('k \<Rightarrow> 'v \<Rightarrow> 's \<Rightarrow> 's \<times> bool) \<Rightarrow> ('k, 'v) gomap list \<Rightarrow> 's \<Rightarrow> 's" where
  "range_shards fn [] s = s"
| "range_shards fn (items # rest) s =
     (case range_items fn items s of (s', go) \<Rightarrow> if go then range_shards fn rest s' else s')"

definition Cmap_Range :: "('k, 'v) cmap \<Rightarrow> ('k \<Rightarrow> 'v \<Rightarrow> 's \<Rightarrow> 's \<times> bool) \<Rightarrow> 's \<Rightarrow> 's" where
  "Cmap_Range m fn s = range_shards fn (shards m) s"

definition Cmap_Keys :: "('k, 'v) cmap \<Rightarrow> 'k list" where
  "Cmap_Keys m = Cmap_Range m (\<lambda>k _ keys. (keys @ [k], True)) []"

definition Cmap_Values :: "('k, 'v) cmap \<Rightarrow> 'v list" where
  "Cmap_Values m = Cmap_Range m (\<lambda>_ v vals. (vals @ [v], True)) []"

definition Cmap_Items :: "('k, 'v) cmap \<Rightarrow> ('k \<times> 'v) list" where
  "Cmap_Items m = Cmap_Range m (\<lambda>k v items. (items @ [(k, v)], True)) []"

definition Cmap_GetOrSet :: "('k, 'v) cmap \<Rightarrow> 'k \<Rightarrow> 'v \<Rightarrow> ('k, 'v) cmap \<times> 'v \<times> bool" where
  "Cmap_GetOrSet m key v =
     (case gm_get (getShard m key) key of
        Some existing \<Rightarrow> (m, existing, True)
      | None \<Rightarrow> (putShard m key (gm_set key v (getShard m key)), v, False))"

definition Cmap_Update :: "('k, 'v) cmap \<Rightarrow> 'k \<Rightarrow> ('v option \<Rightarrow> 'v) \<Rightarrow> ('k, 'v) cmap \<times> 'v" where
  "Cmap_Update m key fn =
     (let newValue = fn (gm_get (getShard m key) key)
      in (putShard m key (gm_set key newValue (getShard m key)), newValue))"

definition Cmap_SetIfAbsent :: "('k, 'v) cmap \<Rightarrow> 'k \<Rightarrow> 'v \<Rightarrow> ('k, 'v) cmap \<times> bool" where
  "Cmap_SetIfAbsent m key v =
     (case gm_get (getShard m key) key of
        Some _ \<Rightarrow> (m, False)
      | None \<Rightarrow> (putShard m key (gm_set key v (getShard m key)), True))"

definition Cmap_SetIfPresent :: "('k, 'v) cmap \<Rightarrow> 'k \<Rightarrow> 'v \<Rightarrow> ('k, 'v) cmap \<times> bool" where
  "Cmap_SetIfPresent m key v =
     (case gm_get (getShard m key) key of
        None \<Rightarrow> (m, False)
      | Some _ \<Rightarrow> (putShard m key (gm_set key v (getShard m key)), True))"

definition Cmap_Pop :: "('k, 'v) cmap \<Rightarrow> 'k \<Rightarrow> ('k, 'v) cmap \<times> 'v option" where
  "Cmap_Pop m key =
     (case gm_get (getShard m key) key of
        Some val \<Rightarrow> (putShard m key (gm_del key (getShard m key)), Some val)
      | None \<Rightarrow> (m, None))"

definition Cmap_Upsert ::
  "('k, 'v) cmap \<Rightarrow> 'k \<Rightarrow> 'v \<Rightarrow> ('v \<Rightarrow> bool \<Rightarrow> 'v) \<Rightarrow> ('k, 'v) cmap \<times> 'v" where
  "Cmap_Upsert m key v fn =
     (let newValue =
        (case gm_get (getShard m key) key of
           Some existing \<Rightarrow> fn existing True
         | None \<Rightarrow> fn v False)
      in (putShard m key (gm_set key newValue (getShard m key)), newValue))"

text \<open>The interface \<open>Versioned\<close> is the pair of functions \<open>GetVersion\<close> and \<open>SetVersion\<close>.\<close>

definition Cmap_CompareAndSwap ::
  "('v \<Rightarrow> u64) \<Rightarrow> (u64 \<Rightarrow> 'v \<Rightarrow> 'v) \<Rightarrow> ('k, 'v) cmap \<Rightarrow> 'k \<Rightarrow> u64 \<Rightarrow> 'v \<Rightarrow> ('k, 'v) cmap \<times> bool" where
  "Cmap_CompareAndSwap getV setV m key expectedVersion newValue =
     (case gm_get (getShard m key) key of
        None \<Rightarrow> (m, False)
      | Some current \<Rightarrow>
          if getV current \<noteq> expectedVersion then (m, False)
          else (putShard m key (gm_set key (setV (expectedVersion + 1) newValue) (getShard m key)),
                True))"

definition Cmap_CompareAndDelete ::
  "('v \<Rightarrow> u64) \<Rightarrow> ('k, 'v) cmap \<Rightarrow> 'k \<Rightarrow> u64 \<Rightarrow> ('k, 'v) cmap \<times> bool" where
  "Cmap_CompareAndDelete getV m key expectedVersion =
     (case gm_get (getShard m key) key of
        None \<Rightarrow> (m, False)
      | Some current \<Rightarrow>
          if getV current \<noteq> expectedVersion then (m, False)
          else (putShard m key (gm_del key (getShard m key)), True))"

definition Cmap_ShardCount :: "('k, 'v) cmap \<Rightarrow> nat" where
  "Cmap_ShardCount m = length (shards m)"

definition Cmap_Stats :: "('k, 'v) cmap \<Rightarrow> (nat \<times> nat) list" where
  "Cmap_Stats m = map (\<lambda>i. (i, length (shards m ! i))) [0..<length (shards m)]"

text \<open>\<open>RangeWithLimit\<close> also counts the entries it gave to the callback and kept going after.\<close>

definition limit_fn ::
  "int \<Rightarrow> ('k \<Rightarrow> 'v \<Rightarrow> 's \<Rightarrow> 's \<times> bool) \<Rightarrow> 'k \<Rightarrow> 'v \<Rightarrow> 's \<times> int \<Rightarrow> ('s \<times> int) \<times> bool" where
  "limit_fn limit fn k v = (\<lambda>(s, count).
     if count \<ge> limit then ((s, count), False)
     else (case fn k v s of (s', go) \<Rightarrow> if go then ((s', count + 1), True) else ((s', count), False)))"

definition Cmap_RangeWithLimit ::
  "('k, 'v) cmap \<Rightarrow> int \<Rightarrow> ('k \<Rightarrow> 'v \<Rightarrow> 's \<Rightarrow> 's \<times> bool) \<Rightarrow> 's \<Rightarrow> 's \<times> int" where
  "Cmap_RangeWithLimit m limit fn s = range_shards (limit_fn limit fn) (shards m) (s, 0)"

section \<open>Invariant and abstraction\<close>

definition cmap_inv :: "('k, 'v) cmap \<Rightarrow> bool" where
  "cmap_inv m \<longleftrightarrow>
     length (shards m) = Suc (unat (shardMask m)) \<and>
     (\<forall>i < length (shards m). gm_wf (shards m ! i) \<and>
        (\<forall>k \<in> fst ` set (shards m ! i). shard_index m k = i))"

definition cmap_abs :: "('k, 'v) cmap \<Rightarrow> 'k \<Rightarrow> 'v option" where
  "cmap_abs m k = Cmap_Get m k"

lemma shard_index_lt: "cmap_inv m \<Longrightarrow> shard_index m k < length (shards m)"
  using word_and_le1 [of "seed_hash m k" "shardMask m"]
  by (simp add: cmap_inv_def shard_index_def word_le_nat_alt le_imp_less_Suc)

lemma putShard_sel [simp]:
  "shardMask (putShard m k s) = shardMask m" "seed_hash (putShard m k s) = seed_hash m"
  "length (shards (putShard m k s)) = length (shards m)"
  by (simp_all add: putShard_def)

lemma shard_index_putShard [simp]: "shard_index (putShard m k s) = shard_index m"
  by (rule ext) (simp add: shard_index_def)

lemma getShard_putShard:
  "cmap_inv m \<Longrightarrow>
     getShard (putShard m k s) k' = (if shard_index m k' = shard_index m k then s else getShard m k')"
  using shard_index_lt [of m k] by (simp add: getShard_def) (simp add: putShard_def)

lemma getShard_wf:
  "cmap_inv m \<Longrightarrow> gm_wf (getShard m k)"
  "cmap_inv m \<Longrightarrow> k' \<in> fst ` set (getShard m k) \<Longrightarrow> shard_index m k' = shard_index m k"
  using shard_index_lt [of m k] by (auto simp: cmap_inv_def getShard_def)

lemma putShard_inv:
  assumes "cmap_inv m" "gm_wf s" "\<And>k'. k' \<in> fst ` set s \<Longrightarrow> shard_index m k' = shard_index m k"
  shows "cmap_inv (putShard m k s)"
  unfolding cmap_inv_def
proof (intro conjI allI impI)
  show "length (shards (putShard m k s)) = Suc (unat (shardMask (putShard m k s)))"
    using assms(1) by (simp add: cmap_inv_def)
next
  fix i assume "i < length (shards (putShard m k s))"
  then show "gm_wf (shards (putShard m k s) ! i)"
    using assms by (cases "i = shard_index m k") (auto simp: putShard_def cmap_inv_def)
next
  fix i assume "i < length (shards (putShard m k s))"
  then show "\<forall>k'\<in>fst ` set (shards (putShard m k s) ! i). shard_index (putShard m k s) k' = i"
    using assms by (cases "i = shard_index m k") (auto simp: putShard_def cmap_inv_def shard_index_def)
qed

lemma cmap_abs_putShard:
  assumes "cmap_inv m"
  shows "cmap_abs (putShard m k s) k' =
    (if shard_index m k' = shard_index m k then gm_get s k' else cmap_abs m k')"
  using assms by (simp add: cmap_abs_def Cmap_Get_def getShard_putShard)

lemma cmap_put_set:
  assumes "cmap_inv m"
  shows "cmap_inv (putShard m k (gm_set k v (getShard m k)))"
    and "cmap_abs (putShard m k (gm_set k v (getShard m k))) = (cmap_abs m)(k \<mapsto> v)"
proof -
  show "cmap_inv (putShard m k (gm_set k v (getShard m k)))"
    using assms getShard_wf [OF assms] by (intro putShard_inv) (auto simp: gm_wf_set)
  show "cmap_abs (putShard m k (gm_set k v (getShard m k))) = (cmap_abs m)(k \<mapsto> v)"
  proof (rule ext)
    fix k'
    show "cmap_abs (putShard m k (gm_set k v (getShard m k))) k' = ((cmap_abs m)(k \<mapsto> v)) k'"
      unfolding cmap_abs_putShard [OF assms]
      by (simp add: gm_get_set cmap_abs_def Cmap_Get_def getShard_def)
  qed
qed

lemma cmap_put_del:
  assumes "cmap_inv m"
  shows "cmap_inv (putShard m k (gm_del k (getShard m k)))"
    and "cmap_abs (putShard m k (gm_del k (getShard m k))) = (cmap_abs m)(k := None)"
proof -
  show "cmap_inv (putShard m k (gm_del k (getShard m k)))"
    using assms getShard_wf [OF assms] by (intro putShard_inv) (auto simp: gm_wf_del)
  show "cmap_abs (putShard m k (gm_del k (getShard m k))) = (cmap_abs m)(k := None)"
  proof (rule ext)
    fix k'
    show "cmap_abs (putShard m k (gm_del k (getShard m k))) k' = ((cmap_abs m)(k := None)) k'"
      unfolding cmap_abs_putShard [OF assms]
      by (simp add: gm_get_del cmap_abs_def Cmap_Get_def getShard_def)
  qed
qed

lemma Cmap_Clear_inv: "cmap_inv m \<Longrightarrow> cmap_inv (Cmap_Clear m)"
  by (simp add: cmap_inv_def Cmap_Clear_def)

lemma Cmap_Clear_abs: "cmap_inv m \<Longrightarrow> cmap_abs (Cmap_Clear m) = Map.empty"
proof (rule ext)
  fix k assume "cmap_inv m"
  then have "shard_index (Cmap_Clear m) k < length (shards m)"
    using shard_index_lt [OF Cmap_Clear_inv, of m k] by (simp add: Cmap_Clear_def)
  then show "cmap_abs (Cmap_Clear m) k = None"
    by (simp add: cmap_abs_def Cmap_Get_def getShard_def Cmap_Clear_def)
qed

section \<open>Walking the map\<close>

lemma range_items_collect:
  "range_items (\<lambda>k v acc. (acc @ f k v, True)) items acc = (acc @ concat (map (case_prod f) items), True)"
  by (induction items arbitrary: acc) auto

lemma range_shards_collect:
  "range_shards (\<lambda>k v acc. (acc @ f k v, True)) ss acc = acc @ concat (map (case_prod f) (concat ss))"
  by (induction ss arbitrary: acc) (auto simp: range_items_collect)

lemma Cmap_Range_collect:
  "Cmap_Range m (\<lambda>k v acc. (acc @ f k v, True)) acc = acc @ concat (map (case_prod f) (concat (shards m)))"
  by (simp add: Cmap_Range_def range_shards_collect)

lemma concat_singletons: "concat (map (\<lambda>(k, v). [g k v]) xs) = map (\<lambda>(k, v). g k v) xs"
  by (induction xs) auto

lemma Cmap_Items_concat: "Cmap_Items m = concat (shards m)"
  unfolding Cmap_Items_def by (subst Cmap_Range_collect) (simp add: concat_singletons)

lemma Cmap_Keys_Items: "Cmap_Keys m = map fst (Cmap_Items m)"
  unfolding Cmap_Keys_def Cmap_Items_concat
  by (subst Cmap_Range_collect) (simp add: concat_singletons case_prod_beta')

lemma Cmap_Values_Items: "Cmap_Values m = map snd (Cmap_Items m)"
  unfolding Cmap_Values_def Cmap_Items_concat
  by (subst Cmap_Range_collect) (simp add: concat_singletons case_prod_beta')

lemma Cmap_Items_mem: "cmap_inv m \<Longrightarrow> (k, v) \<in> set (Cmap_Items m) \<longleftrightarrow> cmap_abs m k = Some v"
proof
  assume inv: "cmap_inv m"
  { assume "(k, v) \<in> set (Cmap_Items m)"
    then obtain t where "t \<in> set (shards m)" "(k, v) \<in> set t" by (auto simp: Cmap_Items_concat)
    then obtain i where i: "i < length (shards m)" "(k, v) \<in> set (shards m ! i)"
      by (metis in_set_conv_nth)
    then have idx: "shard_index m k = i" and wf: "gm_wf (shards m ! i)"
      using inv by (force simp: cmap_inv_def)+
    with i show "cmap_abs m k = Some v"
      by (simp add: cmap_abs_def Cmap_Get_def getShard_def gm_get_iff_mem)
  next
    assume "cmap_abs m k = Some v"
    then have "(k, v) \<in> set (getShard m k)"
      using getShard_wf(1) [OF inv] by (simp add: cmap_abs_def Cmap_Get_def gm_get_iff_mem)
    then show "(k, v) \<in> set (Cmap_Items m)"
      using shard_index_lt [OF inv, of k] nth_mem by (fastforce simp: Cmap_Items_concat getShard_def) }
qed

lemma distinct_concat_keys:
  assumes "\<And>i. i < length ss \<Longrightarrow> gm_wf (ss ! i)"
    and "\<And>i k. i < length ss \<Longrightarrow> k \<in> fst ` set (ss ! i) \<Longrightarrow> f k = i + n"
  shows "distinct (map fst (concat ss))"
  using assms
proof (induction ss arbitrary: n)
  case (Cons s ss)
  have "distinct (map fst (concat ss))"
  proof (rule Cons.IH)
    show "gm_wf (ss ! i)" if "i < length ss" for i using Cons.prems(1) [of "Suc i"] that by simp
    show "f k = i + Suc n" if "i < length ss" "k \<in> fst ` set (ss ! i)" for i k
      using Cons.prems(2) [of "Suc i" k] that by simp
  qed
  moreover have "fst ` set s \<inter> fst ` set (concat ss) = {}"
  proof (rule equals0I)
    fix k assume k: "k \<in> fst ` set s \<inter> fst ` set (concat ss)"
    then obtain t where "t \<in> set ss" "k \<in> fst ` set t" by auto
    then obtain i where "i < length ss" "k \<in> fst ` set (ss ! i)" by (metis in_set_conv_nth)
    with k show False
      using Cons.prems(2) [of 0 k] Cons.prems(2) [of "Suc i" k] by simp
  qed
  ultimately show ?case using Cons.prems(1) [of 0] by (auto simp: gm_wf_def)
qed simp

lemma Cmap_Items_wf: "cmap_inv m \<Longrightarrow> gm_wf (Cmap_Items m)"
  unfolding gm_wf_def Cmap_Items_concat
  by (rule distinct_concat_keys [where f = "shard_index m" and n = 0]) (auto simp: cmap_inv_def)

lemma gm_get_Cmap_Items: "cmap_inv m \<Longrightarrow> gm_get (Cmap_Items m) = cmap_abs m"
proof (rule ext)
  fix k assume inv: "cmap_inv m"
  show "gm_get (Cmap_Items m) k = cmap_abs m k"
    using gm_get_iff_mem [OF Cmap_Items_wf [OF inv], of k] Cmap_Items_mem [OF inv, of k]
    by (metis not_None_eq)
qed

lemma Cmap_Count_Items: "Cmap_Count m = length (Cmap_Items m)"
proof -
  have "foldl (\<lambda>count items. count + length items) n ss = n + length (concat ss)"
    for n and ss :: "('a \<times> 'b) list list"
    by (induction ss arbitrary: n) auto
  then show ?thesis by (simp add: Cmap_Count_def Cmap_Items_concat)
qed

lemma Cmap_Count_card: "cmap_inv m \<Longrightarrow> Cmap_Count m = card (dom (cmap_abs m))"
  using gm_length [OF Cmap_Items_wf, of m] by (simp add: Cmap_Count_Items gm_get_Cmap_Items)

lemma cmap_finite_dom: "cmap_inv m \<Longrightarrow> finite (dom (cmap_abs m))"
  using gm_finite_dom [of "Cmap_Items m"] by (simp add: gm_get_Cmap_Items)

section \<open>A new map\<close>

lemma pow2_mask:
  fixes n :: int
  assumes "0 < n" "n AND (n - 1) = 0"
  shows "\<exists>j. n = 2 ^ j"
proof -
  have "\<exists>j. n = 2 ^ j" if "0 < n" "n AND (n - 1) = 0" "nat n = s" for s n
    using that
  proof (induction s arbitrary: n rule: less_induct)
    case (less s)
    show ?case
    proof (cases "even n")
      case True
      then obtain q where q: "n = 2 * q" by blast
      have "q AND (q - 1) = 0"
      proof -
        have "(n AND (n - 1)) div 2 = (n div 2) AND ((n - 1) div 2)"
          by (simp add: and_int_rec [of n "n - 1"])
        moreover have "(n - 1) div 2 = q - 1" using q by simp
        ultimately show ?thesis using less.prems q by simp
      qed
      moreover have "nat q < s" "0 < q" using less.prems q by auto
      ultimately obtain j where "q = 2 ^ j" using less.IH [of "nat q" q] by blast
      with q show ?thesis by (intro exI [of _ "Suc j"]) simp
    next
      case False
      then obtain q where q: "n = 2 * q + 1" by (blast elim: oddE)
      have "(n AND (n - 1)) div 2 = (n div 2) AND ((n - 1) div 2)"
        by (simp add: and_int_rec [of n "n - 1"])
      then have "q AND q = 0" using less.prems q by simp
      with q show ?thesis by (intro exI [of _ 0]) simp
    qed
  qed
  then show ?thesis using assms by blast
qed

lemma NewWithShards_pow2:
  obtains j where "length (shards (NewWithShards seed n)) = 2 ^ j"
    and "shardMask (NewWithShards seed n) = of_int (2 ^ j - 1)"
    and "n < 2 ^ 63 \<Longrightarrow> j < 63"
proof (cases "n \<le> 0 \<or> n AND (n - 1) \<noteq> 0")
  case True
  then show ?thesis by (intro that [of 4]) (simp_all add: NewWithShards_def Let_def)
next
  case False
  then obtain j where j: "n = 2 ^ j" using pow2_mask [of n] by auto
  have "j < 63" if "n < 2 ^ 63"
    using that unfolding j by (rule power_less_imp_less_exp [rotated]) simp
  with False j show ?thesis
    by (intro that [of j]) (simp_all add: NewWithShards_def Let_def nat_power_eq)
qed

lemma unat_mask_pow2: "j < 64 \<Longrightarrow> unat (of_int (2 ^ j - 1) :: u64) = 2 ^ j - 1"
proof -
  assume j: "j < 64"
  have "(of_int (2 ^ j - 1) :: u64) = of_nat (2 ^ j - 1)"
    by (simp add: of_nat_diff)
  moreover have lt: "2 ^ j - 1 < (2 ^ LENGTH(64) :: nat)"
    using power_strict_increasing [OF j, of "2::nat"] by simp
  moreover have "unat (of_nat (2 ^ j - 1) :: u64) = 2 ^ j - 1"
    unfolding unat_of_nat using lt by (rule mod_less)
  ultimately show ?thesis by argo
qed

lemma NewWithShards_inv:
  assumes n: "n < 2 ^ 63"
  shows "cmap_inv (NewWithShards seed n :: ('k, 'v) cmap)"
proof -
  let ?m = "NewWithShards seed n :: ('k, 'v) cmap"
  obtain j where j: "length (shards ?m) = 2 ^ j" "shardMask ?m = of_int (2 ^ j - 1)" "j < 63"
    using NewWithShards_pow2 [of seed n] n by metis
  have "shards ?m = replicate (length (shards ?m)) []"
    by (simp add: NewWithShards_def Let_def)
  then have "shards ?m ! i = []" if "i < 2 ^ j" for i
    using that j(1) by (metis nth_replicate)
  then show ?thesis
    unfolding cmap_inv_def j(1) j(2) using j(3) by (simp add: unat_mask_pow2 del: of_int_diff)
qed

lemma NewWithShards_abs:
  assumes "n < 2 ^ 63"
  shows "cmap_abs (NewWithShards seed n) = Map.empty"
proof (rule ext)
  fix k :: 'a
  have "shard_index (NewWithShards seed n :: ('a, 'b) cmap) k < length (shards (NewWithShards seed n :: ('a, 'b) cmap))"
    by (rule shard_index_lt [OF NewWithShards_inv [OF assms]])
  then show "cmap_abs (NewWithShards seed n :: ('a, 'b) cmap) k = None"
    by (auto simp: cmap_abs_def Cmap_Get_def getShard_def NewWithShards_def Let_def)
qed

section \<open>The interface\<close>

text \<open>What a client of the map relies on: reads and writes behave as on one finite map, and the
  walk lists exactly the entries of that map, each key once.\<close>

locale conc_map =
  fixes inv :: "'m \<Rightarrow> bool" and \<alpha> :: "'m \<Rightarrow> 'k \<Rightarrow> 'v option"
    and get :: "'m \<Rightarrow> 'k \<Rightarrow> 'v option" and put :: "'m \<Rightarrow> 'k \<Rightarrow> 'v \<Rightarrow> 'm"
    and del :: "'m \<Rightarrow> 'k \<Rightarrow> 'm" and pop :: "'m \<Rightarrow> 'k \<Rightarrow> 'm \<times> 'v option"
    and items :: "'m \<Rightarrow> ('k \<times> 'v) list"
  assumes get_alpha: "get m k = \<alpha> m k"
    and put_inv: "inv m \<Longrightarrow> inv (put m k v)"
    and put_alpha: "inv m \<Longrightarrow> \<alpha> (put m k v) = (\<alpha> m)(k \<mapsto> v)"
    and del_inv: "inv m \<Longrightarrow> inv (del m k)"
    and del_alpha: "inv m \<Longrightarrow> \<alpha> (del m k) = (\<alpha> m)(k := None)"
    and pop_def: "pop m k = (case get m k of Some v \<Rightarrow> (del m k, Some v) | None \<Rightarrow> (m, None))"
    and items_wf: "inv m \<Longrightarrow> gm_wf (items m)"
    and items_alpha: "inv m \<Longrightarrow> gm_get (items m) = \<alpha> m"
begin

lemma get_put: "inv m \<Longrightarrow> get (put m k v) k' = (if k' = k then Some v else get m k')"
  by (simp add: get_alpha put_alpha)

lemma get_del: "inv m \<Longrightarrow> get (del m k) k' = (if k' = k then None else get m k')"
  by (simp add: get_alpha del_alpha)

lemma pop_snd: "snd (pop m k) = \<alpha> m k"
  by (simp add: pop_def get_alpha split: option.splits)

lemma pop_inv: "inv m \<Longrightarrow> inv (fst (pop m k))"
  by (simp add: pop_def del_inv split: option.splits)

lemma pop_alpha: "inv m \<Longrightarrow> \<alpha> (fst (pop m k)) = (\<alpha> m)(k := None)"
  by (auto simp: pop_def get_alpha del_alpha fun_eq_iff split: option.splits)

lemma pop_Some: "pop m k = (m', Some v) \<Longrightarrow> inv m \<Longrightarrow> \<alpha> m k = Some v \<and> inv m' \<and> \<alpha> m' = (\<alpha> m)(k := None)"
  using pop_snd [of m k] pop_inv [of m k] pop_alpha [of m k] by simp

lemma pop_None: "pop m k = (m', None) \<Longrightarrow> \<alpha> m k = None \<and> m' = m"
  by (auto simp: pop_def get_alpha split: option.splits)

lemma items_mem: "inv m \<Longrightarrow> (k, v) \<in> set (items m) \<longleftrightarrow> \<alpha> m k = Some v"
  using gm_get_iff_mem [OF items_wf, of m k v] by (simp add: items_alpha)

lemma length_items: "inv m \<Longrightarrow> length (items m) = card (dom (\<alpha> m))"
  using gm_length [OF items_wf, of m] by (simp add: items_alpha)

lemma finite_dom: "inv m \<Longrightarrow> finite (dom (\<alpha> m))"
  using gm_finite_dom [of "items m"] by (simp add: items_alpha)

end

interpretation cm: conc_map cmap_inv cmap_abs Cmap_Get Cmap_Set Cmap_Delete Cmap_Pop Cmap_Items
proof unfold_locales
  fix m :: "('a, 'b) cmap" and k v
  show "Cmap_Get m k = cmap_abs m k" by (simp add: cmap_abs_def)
  show "Cmap_Pop m k = (case Cmap_Get m k of None \<Rightarrow> (m, None) | Some v \<Rightarrow> (Cmap_Delete m k, Some v))"
    by (simp add: Cmap_Pop_def Cmap_Get_def Cmap_Delete_def split: option.splits)
  assume inv: "cmap_inv m"
  show "cmap_inv (Cmap_Set m k v)" "cmap_abs (Cmap_Set m k v) = (cmap_abs m)(k \<mapsto> v)"
    by (simp_all add: Cmap_Set_def cmap_put_set [OF inv])
  show "cmap_inv (Cmap_Delete m k)" "cmap_abs (Cmap_Delete m k) = (cmap_abs m)(k := None)"
    by (simp_all add: Cmap_Delete_def cmap_put_del [OF inv])
  show "gm_wf (Cmap_Items m)" "gm_get (Cmap_Items m) = cmap_abs m"
    by (simp_all add: Cmap_Items_wf [OF inv] gm_get_Cmap_Items [OF inv])
qed

lemma Cmap_Has_abs: "Cmap_Has m k \<longleftrightarrow> cmap_abs m k \<noteq> None"
  by (simp add: Cmap_Has_def cmap_abs_def)

lemma Cmap_GetOrSet_spec:
  assumes "cmap_inv m" "Cmap_GetOrSet m k v = (m', w, loaded)"
  shows "cmap_inv m'" "cmap_abs m' = (cmap_abs m)(k \<mapsto> w)"
    "w = (case cmap_abs m k of Some x \<Rightarrow> x | None \<Rightarrow> v)" "loaded \<longleftrightarrow> cmap_abs m k \<noteq> None"
  using assms cmap_put_set [OF assms(1), of k v]
  by (auto simp: Cmap_GetOrSet_def cmap_abs_def Cmap_Get_def fun_eq_iff split: option.splits)

lemma Cmap_CompareAndSwap_spec:
  assumes "cmap_inv m" "Cmap_CompareAndSwap getV setV m k e v = (m', ok)"
  shows "cmap_inv m'"
    and "ok \<longleftrightarrow> (\<exists>c. cmap_abs m k = Some c \<and> getV c = e)"
    and "cmap_abs m' = (if ok then (cmap_abs m)(k \<mapsto> setV (e + 1) v) else cmap_abs m)"
  using assms cmap_put_set [OF assms(1), of k "setV (e + 1) v"]
  by (auto simp: Cmap_CompareAndSwap_def cmap_abs_def Cmap_Get_def split: option.splits if_splits)

text \<open>Two writers that read the same version: the second swap fails.\<close>

lemma Cmap_CompareAndSwap_once:
  assumes "cmap_inv m" "\<And>x v. getV (setV x v) = x"
    and "Cmap_CompareAndSwap getV setV m k e v = (m1, True)"
    and "Cmap_CompareAndSwap getV setV m1 k e w = (m2, ok)"
  shows "\<not> ok" "cmap_abs m2 = (cmap_abs m)(k \<mapsto> setV (e + 1) v)"
proof -
  note a = Cmap_CompareAndSwap_spec [OF assms(1,3)]
  note b = Cmap_CompareAndSwap_spec [OF a(1) assms(4)]
  have "e + 1 \<noteq> e" by simp
  then show "\<not> ok" using a b assms(2) by auto
  then show "cmap_abs m2 = (cmap_abs m)(k \<mapsto> setV (e + 1) v)" using a b by simp
qed

lemma Cmap_New_inv [simp]: "cmap_inv (Cmap_New seed)"
  by (simp add: Cmap_New_def NewWithShards_inv)

lemma Cmap_New_abs [simp]: "cmap_abs (Cmap_New seed) = Map.empty"
  by (simp add: Cmap_New_def NewWithShards_abs)

lemmas cmap_laws =
  cm.put_inv cm.put_alpha cm.del_inv cm.del_alpha cm.pop_inv cm.pop_alpha
  Cmap_Clear_inv Cmap_Clear_abs

text \<open>\<open>RangeWithLimit\<close> gives the callback at most \<open>limit\<close> entries.\<close>

lemma limit_fn_apply:
  "limit_fn limit fn k v (s, count) =
     (if count \<ge> limit then ((s, count), False)
      else (case fn k v s of (s', go) \<Rightarrow> if go then ((s', count + 1), True) else ((s', count), False)))"
  by (simp add: limit_fn_def)

lemma range_items_limit:
  "range_items (limit_fn limit fn) items (s, c) = ((s', c'), go) \<Longrightarrow> 0 \<le> c \<Longrightarrow> c \<le> max 0 limit
     \<Longrightarrow> c \<le> c' \<and> c' \<le> max 0 limit"
proof (induction items arbitrary: s c)
  case (Cons p items)
  obtain k v where p: "p = (k, v)" by fastforce
  show ?case
  proof (cases "limit \<le> c")
    case False
    obtain t g where fn: "fn k v s = (t, g)" by fastforce
    show ?thesis
    proof (cases g)
      case True
      with Cons False p fn show ?thesis
        using Cons.IH [of t "c + 1"] by (force simp: limit_fn_apply)
    qed (use Cons False p fn in \<open>simp add: limit_fn_apply\<close>)
  qed (use Cons p in \<open>simp add: limit_fn_apply\<close>)
qed simp

lemma range_shards_limit:
  "range_shards (limit_fn limit fn) ss (s, c) = (s', c') \<Longrightarrow> 0 \<le> c \<Longrightarrow> c \<le> max 0 limit
     \<Longrightarrow> c \<le> c' \<and> c' \<le> max 0 limit"
proof (induction ss arbitrary: s c)
  case (Cons items ss)
  obtain t d g where r: "range_items (limit_fn limit fn) items (s, c) = ((t, d), g)"
    by (metis surj_pair)
  note d = range_items_limit [OF r Cons.prems(2,3)]
  show ?case
    using Cons.IH [of t d] Cons.prems r d by (cases g) auto
qed simp

lemma Cmap_RangeWithLimit_bound:
  "0 \<le> limit \<Longrightarrow> snd (Cmap_RangeWithLimit m limit fn s) \<in> {0..limit}"
  using range_shards_limit [of limit fn "shards m" s 0]
  by (cases "Cmap_RangeWithLimit m limit fn s") (simp add: Cmap_RangeWithLimit_def)

section \<open>Properties\<close>

text \<open>C30: The sharded map behaves as one finite map: \<open>Get\<close>, \<open>Set\<close>, \<open>Delete\<close>, \<open>Pop\<close>, \<open>Clear\<close> and \<open>Count\<close>
  are look-up, update, removal, removal with the old value, emptying and cardinality, a walk lists
  every entry exactly once, and every operation keeps the keys in their shards.\<close>

theorem cmap_refines_map:
  assumes "cmap_inv m"
  shows "Cmap_Get m k = cmap_abs m k \<and>
    cmap_inv (Cmap_Set m k v) \<and> cmap_abs (Cmap_Set m k v) = (cmap_abs m)(k \<mapsto> v) \<and>
    cmap_inv (Cmap_Delete m k) \<and> cmap_abs (Cmap_Delete m k) = (cmap_abs m)(k := None) \<and>
    (case Cmap_Pop m k of (m', r) \<Rightarrow> cmap_inv m' \<and> cmap_abs m' = (cmap_abs m)(k := None) \<and> r = cmap_abs m k) \<and>
    cmap_inv (Cmap_Clear m) \<and> cmap_abs (Cmap_Clear m) = Map.empty \<and>
    Cmap_Count m = card (dom (cmap_abs m)) \<and> gm_wf (Cmap_Items m) \<and> gm_get (Cmap_Items m) = cmap_abs m"
  using cm.pop_inv [OF assms, of k] cm.pop_alpha [OF assms, of k] cm.pop_snd [of m k]
  by (cases "Cmap_Pop m k") (simp add: cmap_laws assms cm.get_alpha Cmap_Count_card cm.items_wf cm.items_alpha)

theorem cmap_refines_map_witness:
  "cmap_abs (Cmap_Set (Cmap_New (\<lambda>_. 5) :: (nat, nat) cmap) 1 2) = [1 \<mapsto> 2] \<and>
   Cmap_Count (Cmap_New (\<lambda>_. 5) :: (nat, nat) cmap) = 0"
  using cmap_refines_map [of "Cmap_New (\<lambda>_. 5) :: (nat, nat) cmap" 1 2] by simp

text \<open>Optimistic concurrency: of two \<open>CompareAndSwap\<close> calls that expect the same version, at most
  the first succeeds; the second changes nothing.\<close>

lemma compare_and_swap_once:
  assumes "cmap_inv m" "\<And>x v. getV (setV x v) = x"
    and "Cmap_CompareAndSwap getV setV m k e v = (m1, True)" "Cmap_CompareAndSwap getV setV m1 k e w = (m2, ok)"
  shows "\<not> ok \<and> cmap_abs m2 = (cmap_abs m)(k \<mapsto> setV (e + 1) v)"
  using Cmap_CompareAndSwap_once [OF assms(1) _ assms(3,4)] assms(2) by blast

text \<open>However many shards are asked for, a new map has a power of two of them, is empty, and every
  key's shard index is in range.\<close>

lemma new_map_shards:
  assumes "n < 2 ^ 63"
  shows "(\<exists>j. length (shards (NewWithShards seed n :: ('k, 'v) cmap)) = 2 ^ j) \<and>
    cmap_abs (NewWithShards seed n :: ('k, 'v) cmap) = Map.empty \<and>
    shard_index (NewWithShards seed n :: ('k, 'v) cmap) k < length (shards (NewWithShards seed n :: ('k, 'v) cmap))"
proof -
  obtain j where "length (shards (NewWithShards seed n :: ('k, 'v) cmap)) = 2 ^ j"
    by (rule NewWithShards_pow2 [of seed n]) blast
  moreover have "cmap_abs (NewWithShards seed n :: ('k, 'v) cmap) = Map.empty" by (rule NewWithShards_abs [OF assms])
  moreover have "shard_index (NewWithShards seed n :: ('k, 'v) cmap) k < length (shards (NewWithShards seed n :: ('k, 'v) cmap))"
    by (rule shard_index_lt [OF NewWithShards_inv [OF assms]])
  ultimately show ?thesis by blast
qed

end
