(* ===== verification/Memory_Index.thy ===== *)
theory Memory_Index
  imports Cmap
begin

text \<open>
  The secondary indexes of the in-memory store, \<open>internal/storage/memory/index.go\<close>: a session
  set is a Go map with empty values, the user and the device index are sharded maps from an
  owner to its set. The maps hold pointers to sets; adding to or removing from a stored set is
  a \<open>Set\<close> of the changed set. The locale \<open>owner_index\<close> is the interface the store uses.
\<close>

section \<open>Session sets\<close>

type_synonym session_set = "(string, unit) gomap"

definition NewSessionSet :: session_set where
  "NewSessionSet = []"

definition SessionSet_Add :: "session_set \<Rightarrow> string \<Rightarrow> session_set" where
  "SessionSet_Add s i = gm_set i () s"

definition SessionSet_Remove :: "session_set \<Rightarrow> string \<Rightarrow> session_set" where
  "SessionSet_Remove s i = gm_del i s"

definition SessionSet_Contains :: "session_set \<Rightarrow> string \<Rightarrow> bool" where
  "SessionSet_Contains s i \<longleftrightarrow> gm_get s i \<noteq> None"

definition SessionSet_Len :: "session_set \<Rightarrow> nat" where
  "SessionSet_Len s = length s"

definition SessionSet_Items :: "session_set \<Rightarrow> string list" where
  "SessionSet_Items s = map fst s"

section \<open>User index\<close>

type_synonym user_index = "(string, session_set) cmap"

definition NewUserIndex :: "(string \<Rightarrow> u64) \<Rightarrow> user_index" where
  "NewUserIndex seed = Cmap_New seed"

definition UserIndex_Add :: "user_index \<Rightarrow> string \<Rightarrow> string \<Rightarrow> user_index" where
  "UserIndex_Add i userID sessionID =
     (case Cmap_GetOrSet i userID NewSessionSet of
        (i', s, _) \<Rightarrow> Cmap_Set i' userID (SessionSet_Add s sessionID))"

definition UserIndex_Remove :: "user_index \<Rightarrow> string \<Rightarrow> string \<Rightarrow> user_index" where
  "UserIndex_Remove i userID sessionID =
     (case Cmap_Get i userID of
        None \<Rightarrow> i
      | Some s \<Rightarrow>
          (let s' = SessionSet_Remove s sessionID;
               i' = Cmap_Set i userID s'
           in if SessionSet_Len s' = 0 then Cmap_Delete i' userID else i'))"

definition UserIndex_Get :: "user_index \<Rightarrow> string \<Rightarrow> string list" where
  "UserIndex_Get i userID =
     (case Cmap_Get i userID of None \<Rightarrow> [] | Some s \<Rightarrow> SessionSet_Items s)"

definition UserIndex_Count :: "user_index \<Rightarrow> string \<Rightarrow> nat" where
  "UserIndex_Count i userID =
     (case Cmap_Get i userID of None \<Rightarrow> 0 | Some s \<Rightarrow> SessionSet_Len s)"

definition UserIndex_Clear :: "user_index \<Rightarrow> string \<Rightarrow> user_index" where
  "UserIndex_Clear i userID = Cmap_Delete i userID"

section \<open>Device index\<close>

type_synonym device_index = "(string, session_set) cmap"

definition NewDeviceIndex :: "(string \<Rightarrow> u64) \<Rightarrow> device_index" where
  "NewDeviceIndex seed = Cmap_New seed"

definition DeviceIndex_Add :: "device_index \<Rightarrow> string \<Rightarrow> string \<Rightarrow> device_index" where
  "DeviceIndex_Add i deviceID sessionID =
     (if deviceID = '''' then i
      else (case Cmap_GetOrSet i deviceID NewSessionSet of
              (i', s, _) \<Rightarrow> Cmap_Set i' deviceID (SessionSet_Add s sessionID)))"

definition DeviceIndex_Remove :: "device_index \<Rightarrow> string \<Rightarrow> string \<Rightarrow> device_index" where
  "DeviceIndex_Remove i deviceID sessionID =
     (if deviceID = '''' then i
      else (case Cmap_Get i deviceID of
              None \<Rightarrow> i
            | Some s \<Rightarrow>
                (let s' = SessionSet_Remove s sessionID;
                     i' = Cmap_Set i deviceID s'
                 in if SessionSet_Len s' = 0 then Cmap_Delete i' deviceID else i')))"

definition DeviceIndex_Get :: "device_index \<Rightarrow> string \<Rightarrow> string list" where
  "DeviceIndex_Get i deviceID =
     (if deviceID = '''' then []
      else (case Cmap_Get i deviceID of None \<Rightarrow> [] | Some s \<Rightarrow> SessionSet_Items s))"

definition DeviceIndex_Count :: "device_index \<Rightarrow> string \<Rightarrow> nat" where
  "DeviceIndex_Count i deviceID =
     (if deviceID = '''' then 0
      else (case Cmap_Get i deviceID of None \<Rightarrow> 0 | Some s \<Rightarrow> SessionSet_Len s))"

section \<open>Invariant and members\<close>

definition members_of :: "(string, session_set) cmap \<Rightarrow> string \<Rightarrow> string set" where
  "members_of i u = (case cmap_abs i u of None \<Rightarrow> {} | Some s \<Rightarrow> fst ` set s)"

definition index_inv :: "(string, session_set) cmap \<Rightarrow> bool" where
  "index_inv i \<longleftrightarrow> cmap_inv i \<and> (\<forall>u s. cmap_abs i u = Some s \<longrightarrow> gm_wf s \<and> s \<noteq> [])"

lemma index_invD:
  "index_inv i \<Longrightarrow> cmap_inv i"
  "index_inv i \<Longrightarrow> cmap_abs i u = Some s \<Longrightarrow> gm_wf s"
  "index_inv i \<Longrightarrow> cmap_abs i u = Some s \<Longrightarrow> s \<noteq> []"
  by (auto simp: index_inv_def)

lemma gm_set_ne [simp]: "gm_set k v m \<noteq> []"
  using gm_keys_set [of k v m] by force

lemma UserIndex_Add_eq:
  assumes "index_inv i"
  obtains s where "cmap_inv (UserIndex_Add i u x)"
    and "cmap_abs (UserIndex_Add i u x) = (cmap_abs i)(u \<mapsto> gm_set x () s)"
    and "s = (case cmap_abs i u of Some s \<Rightarrow> s | None \<Rightarrow> [])"
proof -
  obtain i' s l where g: "Cmap_GetOrSet i u NewSessionSet = (i', s, l)" by (metis surj_pair)
  note spec = Cmap_GetOrSet_spec [OF index_invD(1) [OF assms] g]
  show ?thesis
    using spec g by (intro that [of s]) (simp_all add: UserIndex_Add_def cmap_laws SessionSet_Add_def
        NewSessionSet_def split: option.splits)
qed

lemma UserIndex_Add_inv: "index_inv i \<Longrightarrow> index_inv (UserIndex_Add i u x)"
  by (rule UserIndex_Add_eq [of i u x])
    (auto simp: index_inv_def gm_wf_set split: option.splits if_splits)

lemma UserIndex_Add_members:
  "index_inv i \<Longrightarrow>
     members_of (UserIndex_Add i u x) = (members_of i)(u := insert x (members_of i u))"
  by (rule UserIndex_Add_eq [of i u x]) (auto simp: members_of_def fun_eq_iff split: option.splits)

lemma UserIndex_Remove_inv: "index_inv i \<Longrightarrow> index_inv (UserIndex_Remove i u x)"
  by (auto simp: UserIndex_Remove_def cm.get_alpha Let_def index_inv_def SessionSet_Remove_def
      SessionSet_Len_def gm_wf_del cmap_laws split: option.splits if_splits)

lemma UserIndex_Remove_members:
  assumes "index_inv i"
  shows "members_of (UserIndex_Remove i u x) = (members_of i)(u := members_of i u - {x})"
proof (cases "cmap_abs i u")
  case None
  then show ?thesis by (auto simp: UserIndex_Remove_def cm.get_alpha members_of_def fun_eq_iff)
next
  case (Some s)
  have del: "fst ` set (gm_del x s) = fst ` set s - {x}" by simp
  show ?thesis
  proof (cases "gm_del x s = []")
    case True
    then have "fst ` set s - {x} = {}" using del by simp
    with True Some index_invD(1) [OF assms] show ?thesis
      by (auto simp: UserIndex_Remove_def cm.get_alpha members_of_def Let_def SessionSet_Remove_def
          SessionSet_Len_def cmap_laws fun_eq_iff)
  next
    case False
    with Some index_invD(1) [OF assms] show ?thesis
      by (auto simp: UserIndex_Remove_def cm.get_alpha members_of_def Let_def SessionSet_Remove_def
          SessionSet_Len_def cmap_laws fun_eq_iff)
  qed
qed

lemma UserIndex_Get_members:
  assumes "index_inv i"
  shows "set (UserIndex_Get i u) = members_of i u" "distinct (UserIndex_Get i u)"
  using index_invD(2) [OF assms, of u]
  by (auto simp: UserIndex_Get_def members_of_def cm.get_alpha SessionSet_Items_def gm_wf_def
      split: option.splits)

lemma UserIndex_Count_length: "UserIndex_Count i u = length (UserIndex_Get i u)"
  by (simp add: UserIndex_Count_def UserIndex_Get_def SessionSet_Len_def SessionSet_Items_def
      split: option.splits)

lemma UserIndex_Clear_inv: "index_inv i \<Longrightarrow> index_inv (UserIndex_Clear i u)"
  by (auto simp: index_inv_def UserIndex_Clear_def cmap_laws split: if_splits)

lemma UserIndex_Clear_members:
  "index_inv i \<Longrightarrow> members_of (UserIndex_Clear i u) = (members_of i)(u := {})"
  by (auto simp: index_inv_def UserIndex_Clear_def cmap_laws members_of_def fun_eq_iff)

lemma NewUserIndex_inv: "index_inv (NewUserIndex seed)"
  by (simp add: index_inv_def NewUserIndex_def)

lemma NewUserIndex_members: "members_of (NewUserIndex seed) = (\<lambda>_. {})"
  by (rule ext) (simp add: members_of_def NewUserIndex_def)

section \<open>The interface\<close>

text \<open>An index from owners to sets of identifiers. \<open>valid\<close> is the guard on owners: the device
  index ignores the empty device.\<close>

locale owner_index =
  fixes valid :: "string \<Rightarrow> bool" and inv :: "'i \<Rightarrow> bool" and mem :: "'i \<Rightarrow> string \<Rightarrow> string set"
    and add :: "'i \<Rightarrow> string \<Rightarrow> string \<Rightarrow> 'i" and rem :: "'i \<Rightarrow> string \<Rightarrow> string \<Rightarrow> 'i"
    and get :: "'i \<Rightarrow> string \<Rightarrow> string list" and count :: "'i \<Rightarrow> string \<Rightarrow> nat"
  assumes add_inv: "inv i \<Longrightarrow> inv (add i u x)"
    and add_mem: "inv i \<Longrightarrow> valid u \<Longrightarrow> mem (add i u x) = (mem i)(u := insert x (mem i u))"
    and add_invalid: "\<not> valid u \<Longrightarrow> add i u x = i"
    and rem_inv: "inv i \<Longrightarrow> inv (rem i u x)"
    and rem_mem: "inv i \<Longrightarrow> valid u \<Longrightarrow> mem (rem i u x) = (mem i)(u := mem i u - {x})"
    and get_set: "inv i \<Longrightarrow> valid u \<Longrightarrow> set (get i u) = mem i u"
    and get_distinct: "inv i \<Longrightarrow> distinct (get i u)"
    and count_length: "count i u = length (get i u)"
begin

lemma count_card: "inv i \<Longrightarrow> valid u \<Longrightarrow> count i u = card (mem i u)"
  by (simp add: count_length get_set get_distinct flip: distinct_card)

lemma finite_mem: "inv i \<Longrightarrow> valid u \<Longrightarrow> finite (mem i u)"
  by (simp flip: get_set)

lemma count_add:
  "inv i \<Longrightarrow> valid u \<Longrightarrow> count (add i u x) u = (if x \<in> mem i u then count i u else Suc (count i u))"
  by (simp add: count_card add_inv add_mem finite_mem insert_absorb)

lemma add_rem: "inv i \<Longrightarrow> valid u \<Longrightarrow> x \<notin> mem i u \<Longrightarrow> mem (rem (add i u x) u x) = mem i"
  by (simp add: rem_mem add_inv add_mem)

end

interpretation ui: owner_index "\<lambda>_. True" index_inv members_of UserIndex_Add UserIndex_Remove
  UserIndex_Get UserIndex_Count
  by unfold_locales (simp_all add: UserIndex_Add_inv UserIndex_Add_members UserIndex_Remove_inv
      UserIndex_Remove_members UserIndex_Get_members UserIndex_Count_length)

lemma DeviceIndex_User:
  "d \<noteq> '''' \<Longrightarrow> DeviceIndex_Add i d x = UserIndex_Add i d x"
  "d \<noteq> '''' \<Longrightarrow> DeviceIndex_Remove i d x = UserIndex_Remove i d x"
  "d \<noteq> '''' \<Longrightarrow> DeviceIndex_Get i d = UserIndex_Get i d"
  "d \<noteq> '''' \<Longrightarrow> DeviceIndex_Count i d = UserIndex_Count i d"
  by (simp_all add: DeviceIndex_Add_def UserIndex_Add_def DeviceIndex_Remove_def UserIndex_Remove_def
      DeviceIndex_Get_def UserIndex_Get_def DeviceIndex_Count_def UserIndex_Count_def)

interpretation di: owner_index "\<lambda>d. d \<noteq> ''''" index_inv members_of DeviceIndex_Add
  DeviceIndex_Remove DeviceIndex_Get DeviceIndex_Count
proof unfold_locales
  fix i :: device_index and u x :: string
  show "u \<noteq> '''' \<Longrightarrow> index_inv i \<Longrightarrow> members_of (DeviceIndex_Add i u x) = (members_of i)(u := insert x (members_of i u))"
    by (simp add: DeviceIndex_User UserIndex_Add_members)
  show "u \<noteq> '''' \<Longrightarrow> index_inv i \<Longrightarrow> members_of (DeviceIndex_Remove i u x) = (members_of i)(u := members_of i u - {x})"
    by (simp add: DeviceIndex_User UserIndex_Remove_members)
  show "index_inv i \<Longrightarrow> index_inv (DeviceIndex_Add i u x)"
    by (cases "u = ''''") (simp_all add: DeviceIndex_User UserIndex_Add_inv, simp add: DeviceIndex_Add_def)
  show "index_inv i \<Longrightarrow> index_inv (DeviceIndex_Remove i u x)"
    by (cases "u = ''''") (simp_all add: DeviceIndex_User UserIndex_Remove_inv, simp add: DeviceIndex_Remove_def)
  show "\<not> u \<noteq> '''' \<Longrightarrow> DeviceIndex_Add i u x = i" by (simp add: DeviceIndex_Add_def)
  show "index_inv i \<Longrightarrow> u \<noteq> '''' \<Longrightarrow> set (DeviceIndex_Get i u) = members_of i u"
    by (simp add: DeviceIndex_User UserIndex_Get_members)
  show "index_inv i \<Longrightarrow> distinct (DeviceIndex_Get i u)"
    by (cases "u = ''''") (simp_all add: DeviceIndex_User UserIndex_Get_members, simp add: DeviceIndex_Get_def)
  show "DeviceIndex_Count i u = length (DeviceIndex_Get i u)"
    by (cases "u = ''''") (simp_all add: DeviceIndex_User UserIndex_Count_length,
        simp add: DeviceIndex_Get_def DeviceIndex_Count_def)
qed

lemmas index_laws =
  ui.add_inv ui.add_mem ui.rem_inv ui.rem_mem UserIndex_Clear_inv UserIndex_Clear_members
  NewUserIndex_inv NewUserIndex_members

end
