(* ===== verification/Memory_Store.thy ===== *)
theory Memory_Store
  imports Domain_Session Memory_Index
begin

text \<open>
  The in-memory session store, \<open>internal/storage/memory/store.go\<close>: the primary map from
  session identifiers to sessions and two indexes, from token hashes to identifiers and from
  users to their sets of identifiers. Every operation that writes takes the store's lock, so it
  is one atomic transition from store to store. The store keeps clones and hands out clones;
  a clone is equal to its original (\<open>Session_Clone_Some\<close>), so sessions are stored and
  returned as values, and the caller's session that \<open>Update\<close> writes back to is part of the
  result. \<open>Touch\<close>, which changes the stored session in place, is a \<open>Set\<close>.

  This theory has the operations, the invariant \<open>store_inv\<close> (the indexes are exactly the
  inverse images of the primary map) and its preservation. \<open>Memory_Refine\<close> relates the
  operations to an abstract store that has the primary map only.
\<close>

section \<open>State\<close>

record store =
  st_sessions :: "(string, session) cmap"
  st_tokens :: "(string, string) cmap"
  st_userIndex :: user_index
  st_maxSessionsPerUser :: int

abbreviation DefaultMaxSessionsPerUser :: int where "DefaultMaxSessionsPerUser \<equiv> 50"

definition WithMaxSessionsPerUser :: "int \<Rightarrow> store \<Rightarrow> store" where
  "WithMaxSessionsPerUser mx s = s \<lparr> st_maxSessionsPerUser := mx \<rparr>"

text \<open>The three seeds are the ones the three maps draw.\<close>

definition Store_New ::
  "(string \<Rightarrow> u64) \<Rightarrow> (string \<Rightarrow> u64) \<Rightarrow> (string \<Rightarrow> u64) \<Rightarrow> (store \<Rightarrow> store) list \<Rightarrow> store" where
  "Store_New seed1 seed2 seed3 opts =
     foldl (\<lambda>s opt. opt s)
       \<lparr> st_sessions = Cmap_New seed1, st_tokens = Cmap_New seed2,
         st_userIndex = NewUserIndex seed3, st_maxSessionsPerUser = DefaultMaxSessionsPerUser \<rparr> opts"

section \<open>Operations\<close>

definition Store_Get :: "int \<Rightarrow> store \<Rightarrow> string \<Rightarrow> go_error + session" where
  "Store_Get now s i =
     (case Cmap_Get (st_sessions s) i of
        None \<Rightarrow> Inl ErrSessionNotFound
      | Some sess \<Rightarrow> if Session_IsExpired now sess then Inl ErrSessionExpired else Inr sess)"

definition Store_GetByToken :: "int \<Rightarrow> store \<Rightarrow> string \<Rightarrow> store \<times> (go_error + session)" where
  "Store_GetByToken now s tokenHash =
     (case Cmap_Get (st_tokens s) tokenHash of
        None \<Rightarrow> (s, Inl ErrTokenInvalid)
      | Some sessionID \<Rightarrow>
          (case Cmap_Get (st_sessions s) sessionID of
             None \<Rightarrow>
               (s \<lparr> st_tokens := Cmap_Delete (st_tokens s) tokenHash \<rparr>, Inl ErrTokenInvalid)
           | Some sess \<Rightarrow>
               (s, if Session_IsExpired now sess then Inl ErrSessionExpired else Inr sess)))"

text \<open>Storing a session and adding it to both indexes, shared by \<open>Create\<close> and
  \<open>LoadFromSnapshot\<close>.\<close>

definition store_insert :: "store \<Rightarrow> session \<Rightarrow> store" where
  "store_insert s sess =
     (let s1 = s \<lparr> st_sessions := Cmap_Set (st_sessions s) (S_ID sess) sess \<rparr>;
          s2 = (if S_TokenHash sess \<noteq> '''' then
                  s1 \<lparr> st_tokens := Cmap_Set (st_tokens s1) (S_TokenHash sess) (S_ID sess) \<rparr>
                else s1)
      in s2 \<lparr> st_userIndex := UserIndex_Add (st_userIndex s2) (S_UserID sess) (S_ID sess) \<rparr>)"

definition Store_Create :: "store \<Rightarrow> session \<Rightarrow> store \<times> go_error option" where
  "Store_Create s sess =
     (case Session_Validate sess of
        Some err \<Rightarrow> (s, Some err)
      | None \<Rightarrow>
          if int (UserIndex_Count (st_userIndex s) (S_UserID sess)) \<ge> st_maxSessionsPerUser s then
            (s, Some ErrSessionQuotaExceeded)
          else if Cmap_Has (st_sessions s) (S_ID sess) then (s, Some ErrSessionConflict)
          else if S_TokenHash sess \<noteq> '''' \<and> Cmap_Has (st_tokens s) (S_TokenHash sess) then
            (s, Some ErrTokenHashConflict)
          else (store_insert s sess, None))"

text \<open>The token part of \<open>Update\<close>: the old mapping goes first, then the new one is checked.\<close>

definition Store_retoken :: "store \<Rightarrow> session \<Rightarrow> session \<Rightarrow> store \<times> go_error option" where
  "Store_retoken s existing sess =
     (if S_TokenHash existing \<noteq> S_TokenHash sess then
        (let s1 = (if S_TokenHash existing \<noteq> '''' then
                     s \<lparr> st_tokens := Cmap_Delete (st_tokens s) (S_TokenHash existing) \<rparr>
                   else s)
         in if S_TokenHash sess \<noteq> '''' then
              (if Cmap_Has (st_tokens s1) (S_TokenHash sess) then (s1, Some ErrTokenHashConflict)
               else (s1 \<lparr> st_tokens := Cmap_Set (st_tokens s1) (S_TokenHash sess) (S_ID sess) \<rparr>, None))
            else (s1, None))
      else (s, None))"

definition Store_Update :: "store \<Rightarrow> session \<Rightarrow> u64 \<Rightarrow> store \<times> session \<times> go_error option" where
  "Store_Update s sess expectedVersion =
     (case Session_Validate sess of
        Some err \<Rightarrow> (s, sess, Some err)
      | None \<Rightarrow>
          (case Cmap_Get (st_sessions s) (S_ID sess) of
             None \<Rightarrow> (s, sess, Some ErrSessionNotFound)
           | Some existing \<Rightarrow>
               if S_Version existing \<noteq> expectedVersion then (s, sess, Some ErrSessionVersionConflict)
               else
                 (case Store_retoken s existing sess of
                    (s1, Some err) \<Rightarrow> (s1, sess, Some err)
                  | (s1, None) \<Rightarrow>
                      (let clone = Session_IncrVersion sess in
                       (s1 \<lparr> st_sessions := Cmap_Set (st_sessions s1) (S_ID sess) clone \<rparr>,
                        sess \<lparr> S_Version := S_Version clone \<rparr>, None)))))"

text \<open>Taking a popped session out of the indexes.\<close>

definition store_unindex :: "store \<Rightarrow> string \<Rightarrow> session \<Rightarrow> store" where
  "store_unindex s i sess =
     (let s1 = (if S_TokenHash sess \<noteq> '''' then
                  s \<lparr> st_tokens := Cmap_Delete (st_tokens s) (S_TokenHash sess) \<rparr>
                else s)
      in s1 \<lparr> st_userIndex := UserIndex_Remove (st_userIndex s1) (S_UserID sess) i \<rparr>)"

definition Store_Delete :: "store \<Rightarrow> string \<Rightarrow> store \<times> go_error option" where
  "Store_Delete s i =
     (case Cmap_Pop (st_sessions s) i of
        (_, None) \<Rightarrow> (s, Some ErrSessionNotFound)
      | (m, Some sess) \<Rightarrow> (store_unindex (s \<lparr> st_sessions := m \<rparr>) i sess, None))"

definition Store_DeleteByToken :: "store \<Rightarrow> string \<Rightarrow> store \<times> go_error option" where
  "Store_DeleteByToken s tokenHash =
     (case Cmap_Pop (st_tokens s) tokenHash of
        (_, None) \<Rightarrow> (s, Some ErrTokenInvalid)
      | (t, Some sessionID) \<Rightarrow>
          (let s1 = s \<lparr> st_tokens := t \<rparr> in
           case Cmap_Pop (st_sessions s1) sessionID of
             (_, None) \<Rightarrow> (s1, Some ErrSessionNotFound)
           | (m, Some sess) \<Rightarrow>
               (s1 \<lparr> st_sessions := m,
                     st_userIndex := UserIndex_Remove (st_userIndex s1) (S_UserID sess) sessionID \<rparr>,
                None)))"

definition Store_ListByUserID :: "int \<Rightarrow> store \<Rightarrow> string \<Rightarrow> session list" where
  "Store_ListByUserID now s userID =
     foldl (\<lambda>acc i. case Cmap_Get (st_sessions s) i of
              None \<Rightarrow> acc
            | Some sess \<Rightarrow> if Session_IsExpired now sess then acc else acc @ [sess])
       [] (UserIndex_Get (st_userIndex s) userID)"

text \<open>\<open>DeleteByUserID\<close>: pop every session of the user, drop its token, then clear the user.\<close>

definition delete_user_step :: "store \<times> nat \<Rightarrow> string \<Rightarrow> store \<times> nat" where
  "delete_user_step = (\<lambda>(s, deleted) i.
     case Cmap_Pop (st_sessions s) i of
       (_, None) \<Rightarrow> (s, deleted)
     | (m, Some sess) \<Rightarrow>
         (let s1 = s \<lparr> st_sessions := m \<rparr> in
          (if S_TokenHash sess \<noteq> '''' then
             s1 \<lparr> st_tokens := Cmap_Delete (st_tokens s1) (S_TokenHash sess) \<rparr>
           else s1, deleted + 1)))"

definition Store_DeleteByUserID :: "store \<Rightarrow> string \<Rightarrow> store \<times> nat" where
  "Store_DeleteByUserID s userID =
     (let sessionIDs = UserIndex_Get (st_userIndex s) userID in
      if sessionIDs = [] then (s, 0)
      else (case foldl delete_user_step (s, 0) sessionIDs of
              (s1, deleted) \<Rightarrow>
                (s1 \<lparr> st_userIndex := UserIndex_Clear (st_userIndex s1) userID \<rparr>, deleted)))"

definition Store_Count :: "store \<Rightarrow> nat" where
  "Store_Count s = Cmap_Count (st_sessions s)"

definition Store_CountByUserID :: "store \<Rightarrow> string \<Rightarrow> nat" where
  "Store_CountByUserID s userID = UserIndex_Count (st_userIndex s) userID"

definition Store_Scan :: "store \<Rightarrow> (session \<Rightarrow> 'a \<Rightarrow> 'a \<times> bool) \<Rightarrow> 'a \<Rightarrow> 'a" where
  "Store_Scan s fn a = Cmap_Range (st_sessions s) (\<lambda>_ sess. fn sess) a"

definition Store_All :: "store \<Rightarrow> session list" where
  "Store_All s = Cmap_Range (st_sessions s) (\<lambda>_ sess acc. (acc @ [sess], True)) []"

definition Store_LoadFromSnapshot :: "(string \<Rightarrow> u64) \<Rightarrow> store \<Rightarrow> session list \<Rightarrow> store" where
  "Store_LoadFromSnapshot seed s ss =
     foldl store_insert
       (s \<lparr> st_sessions := Cmap_Clear (st_sessions s), st_tokens := Cmap_Clear (st_tokens s),
            st_userIndex := NewUserIndex seed \<rparr>) ss"

definition Store_Touch :: "int \<Rightarrow> store \<Rightarrow> string \<Rightarrow> string \<Rightarrow> string \<Rightarrow> store \<times> go_error option" where
  "Store_Touch now s i ip userAgent =
     (case Cmap_Get (st_sessions s) i of
        None \<Rightarrow> (s, Some ErrSessionNotFound)
      | Some sess \<Rightarrow>
          if Session_IsExpired now sess then (s, Some ErrSessionExpired)
          else (s \<lparr> st_sessions := Cmap_Set (st_sessions s) i (Session_Touch now ip userAgent sess) \<rparr>,
                None))"

definition cleanup_step :: "store \<Rightarrow> string \<Rightarrow> store" where
  "cleanup_step s i =
     (case Cmap_Pop (st_sessions s) i of
        (_, None) \<Rightarrow> s
      | (m, Some sess) \<Rightarrow> store_unindex (s \<lparr> st_sessions := m \<rparr>) i sess)"

definition expired_ids :: "int \<Rightarrow> store \<Rightarrow> string list" where
  "expired_ids now s =
     Cmap_Range (st_sessions s)
       (\<lambda>i sess acc. (acc @ (if Session_IsExpired now sess then [i] else []), True)) []"

definition Store_CleanupExpired :: "int \<Rightarrow> store \<Rightarrow> store \<times> nat" where
  "Store_CleanupExpired now s =
     (let toDelete = expired_ids now s in (foldl cleanup_step s toDelete, length toDelete))"

definition Store_DeleteExpired :: "int \<Rightarrow> store \<Rightarrow> store \<times> (go_error + nat)" where
  "Store_DeleteExpired now s =
     (case Store_CleanupExpired now s of (s', count) \<Rightarrow> (s', Inr count))"

definition Store_GetSessionByTokenHash :: "int \<Rightarrow> store \<Rightarrow> string \<Rightarrow> store \<times> (go_error + session)" where
  "Store_GetSessionByTokenHash now s tokenHash = Store_GetByToken now s tokenHash"

definition Store_UpdateSession :: "store \<Rightarrow> session \<Rightarrow> store \<times> go_error option" where
  "Store_UpdateSession s sess =
     (case Session_Validate sess of
        Some err \<Rightarrow> (s, Some err)
      | None \<Rightarrow>
          (case Cmap_Get (st_sessions s) (S_ID sess) of
             None \<Rightarrow> (s, Some ErrSessionNotFound)
           | Some _ \<Rightarrow>
               (s \<lparr> st_sessions := Cmap_Set (st_sessions s) (S_ID sess) sess \<rparr>, None)))"

section \<open>Invariant\<close>

definition store_abs :: "store \<Rightarrow> string \<Rightarrow> session option" where
  "store_abs s = cmap_abs (st_sessions s)"

definition keyed :: "(string \<Rightarrow> session option) \<Rightarrow> bool" where
  "keyed m \<longleftrightarrow> (\<forall>i sess. m i = Some sess \<longrightarrow> S_ID sess = i)"

definition tokens_ok :: "(string \<Rightarrow> string option) \<Rightarrow> (string \<Rightarrow> session option) \<Rightarrow> bool" where
  "tokens_ok T m \<longleftrightarrow>
     (\<forall>h i. T h = Some i \<longleftrightarrow> h \<noteq> '''' \<and> (\<exists>sess. m i = Some sess \<and> S_TokenHash sess = h))"

definition user_ids :: "(string \<Rightarrow> session option) \<Rightarrow> string \<Rightarrow> string set" where
  "user_ids m u = {i. \<exists>sess. m i = Some sess \<and> S_UserID sess = u}"

definition store_inv :: "store \<Rightarrow> bool" where
  "store_inv s \<longleftrightarrow>
     cmap_inv (st_sessions s) \<and> cmap_inv (st_tokens s) \<and> index_inv (st_userIndex s) \<and>
     keyed (store_abs s) \<and> tokens_ok (cmap_abs (st_tokens s)) (store_abs s) \<and>
     members_of (st_userIndex s) = user_ids (store_abs s)"

lemma store_invD:
  assumes "store_inv s"
  shows "cmap_inv (st_sessions s)" "cmap_inv (st_tokens s)" "index_inv (st_userIndex s)"
    "keyed (store_abs s)" "tokens_ok (cmap_abs (st_tokens s)) (store_abs s)"
    "members_of (st_userIndex s) = user_ids (store_abs s)"
  using assms by (auto simp: store_inv_def)

subsection \<open>Maps\<close>

lemma tokens_ok_unique:
  "tokens_ok T m \<Longrightarrow> m i = Some a \<Longrightarrow> m j = Some b \<Longrightarrow> S_TokenHash a = S_TokenHash b \<Longrightarrow>
     S_TokenHash a \<noteq> '''' \<Longrightarrow> i = j"
  unfolding tokens_ok_def by (metis option.inject)

lemma tokens_ok_Some: "tokens_ok T m \<Longrightarrow> m i = Some a \<Longrightarrow> S_TokenHash a \<noteq> '''' \<Longrightarrow> T (S_TokenHash a) = Some i"
  unfolding tokens_ok_def by blast

lemma tokens_ok_insert:
  assumes "tokens_ok T m" "m i = None" "S_TokenHash a \<noteq> '''' \<Longrightarrow> T (S_TokenHash a) = None"
  shows "tokens_ok (if S_TokenHash a \<noteq> '''' then T(S_TokenHash a \<mapsto> i) else T) (m(i \<mapsto> a))"
  unfolding tokens_ok_def
proof (intro allI)
  fix h j
  have base: "T h = Some j \<longleftrightarrow> h \<noteq> '''' \<and> (\<exists>x. m j = Some x \<and> S_TokenHash x = h)" for h j
    using assms(1) by (simp add: tokens_ok_def)
  show "(if S_TokenHash a \<noteq> '''' then T(S_TokenHash a \<mapsto> i) else T) h = Some j \<longleftrightarrow>
      h \<noteq> '''' \<and> (\<exists>x. (m(i \<mapsto> a)) j = Some x \<and> S_TokenHash x = h)"
  proof (cases "h = S_TokenHash a")
    case True
    then show ?thesis using base [of h j] assms(2,3) by (cases "j = i"; cases "h = ''''") auto
  next
    case False
    then show ?thesis using base [of h j] base [of h i] assms(2) by (cases "j = i") auto
  qed
qed

lemma tokens_ok_delete:
  assumes "tokens_ok T m" "m i = Some a"
  shows "tokens_ok (if S_TokenHash a \<noteq> '''' then T(S_TokenHash a := None) else T) (m(i := None))"
  unfolding tokens_ok_def
proof (intro allI)
  fix h j
  have base: "T h = Some j \<longleftrightarrow> h \<noteq> '''' \<and> (\<exists>x. m j = Some x \<and> S_TokenHash x = h)"
    using assms(1) by (simp add: tokens_ok_def)
  show "(if S_TokenHash a \<noteq> '''' then T(S_TokenHash a := None) else T) h = Some j \<longleftrightarrow>
      h \<noteq> '''' \<and> (\<exists>x. (m(i := None)) j = Some x \<and> S_TokenHash x = h)"
    using base assms tokens_ok_unique [OF assms(1) assms(2), of j] by (cases "j = i") auto
qed

lemma tokens_ok_replace:
  assumes "tokens_ok T m" "m i = Some a" "S_TokenHash b = S_TokenHash a"
  shows "tokens_ok T (m(i \<mapsto> b))"
  unfolding tokens_ok_def
proof (intro allI)
  fix h j
  have "T h = Some j \<longleftrightarrow> h \<noteq> '''' \<and> (\<exists>x. m j = Some x \<and> S_TokenHash x = h)"
    using assms(1) by (simp add: tokens_ok_def)
  with assms(2,3) show "T h = Some j \<longleftrightarrow> h \<noteq> '''' \<and> (\<exists>x. (m(i \<mapsto> b)) j = Some x \<and> S_TokenHash x = h)"
    by (cases "j = i") auto
qed

lemma user_ids_insert:
  "m i = None \<Longrightarrow> user_ids (m(i \<mapsto> a)) = (user_ids m)(S_UserID a := insert i (user_ids m (S_UserID a)))"
  by (auto simp: user_ids_def fun_eq_iff)

lemma user_ids_delete:
  "m i = Some a \<Longrightarrow> user_ids (m(i := None)) = (user_ids m)(S_UserID a := user_ids m (S_UserID a) - {i})"
  by (auto simp: user_ids_def fun_eq_iff)

lemma user_ids_replace:
  "m i = Some a \<Longrightarrow> S_UserID b = S_UserID a \<Longrightarrow> user_ids (m(i \<mapsto> b)) = user_ids m"
  by (auto simp: user_ids_def fun_eq_iff)

lemma keyed_upd: "keyed m \<Longrightarrow> S_ID a = i \<Longrightarrow> keyed (m(i \<mapsto> a))"
  by (simp add: keyed_def)

lemma keyed_del: "keyed m \<Longrightarrow> keyed (m(i := None))"
  by (simp add: keyed_def)

subsection \<open>Building blocks\<close>

lemma store_insert_spec:
  assumes "store_inv s" "store_abs s (S_ID a) = None"
    and "S_TokenHash a \<noteq> '''' \<Longrightarrow> cmap_abs (st_tokens s) (S_TokenHash a) = None"
  shows "store_inv (store_insert s a)" "store_abs (store_insert s a) = (store_abs s)(S_ID a \<mapsto> a)"
    "st_maxSessionsPerUser (store_insert s a) = st_maxSessionsPerUser s"
proof -
  note I = store_invD [OF assms(1)]
  show abs: "store_abs (store_insert s a) = (store_abs s)(S_ID a \<mapsto> a)"
    using I by (simp add: store_abs_def store_insert_def Let_def cmap_laws)
  have "cmap_abs (st_tokens (store_insert s a)) =
      (if S_TokenHash a \<noteq> '''' then (cmap_abs (st_tokens s))(S_TokenHash a \<mapsto> S_ID a)
       else cmap_abs (st_tokens s))"
    using I by (simp add: store_insert_def Let_def cmap_laws)
  then have "tokens_ok (cmap_abs (st_tokens (store_insert s a))) (store_abs (store_insert s a))"
    using tokens_ok_insert [OF I(5) assms(2) assms(3)] abs by simp
  moreover have "members_of (st_userIndex (store_insert s a)) = user_ids (store_abs (store_insert s a))"
    using I user_ids_insert [of "store_abs s" "S_ID a" a] assms(2) by (simp add: abs) (simp add: store_insert_def Let_def index_laws)
  moreover have "cmap_inv (st_sessions (store_insert s a))" "cmap_inv (st_tokens (store_insert s a))"
    "index_inv (st_userIndex (store_insert s a))"
    using I by (simp_all add: store_insert_def Let_def cmap_laws index_laws)
  moreover have "keyed (store_abs (store_insert s a))"
    using I(4) by (simp add: abs keyed_upd)
  ultimately show "store_inv (store_insert s a)" by (simp add: store_inv_def)
  show "st_maxSessionsPerUser (store_insert s a) = st_maxSessionsPerUser s"
    by (simp add: store_insert_def Let_def)
qed

lemma store_remove_spec:
  assumes "store_inv s" "Cmap_Pop (st_sessions s) i = (m, Some a)"
  shows "store_inv (store_unindex (s \<lparr> st_sessions := m \<rparr>) i a)"
    "store_abs (store_unindex (s \<lparr> st_sessions := m \<rparr>) i a) = (store_abs s)(i := None)"
    "store_abs s i = Some a"
    "st_maxSessionsPerUser (store_unindex (s \<lparr> st_sessions := m \<rparr>) i a) = st_maxSessionsPerUser s"
proof -
  let ?t = "store_unindex (s \<lparr> st_sessions := m \<rparr>) i a"
  note I = store_invD [OF assms(1)]
  note P = cm.pop_Some [OF assms(2) I(1)]
  show at: "store_abs s i = Some a" using P by (simp add: store_abs_def)
  show abs: "store_abs ?t = (store_abs s)(i := None)"
    using P by (simp add: store_abs_def store_unindex_def Let_def)
  have "cmap_abs (st_tokens ?t) =
      (if S_TokenHash a \<noteq> '''' then (cmap_abs (st_tokens s))(S_TokenHash a := None)
       else cmap_abs (st_tokens s))"
    using I by (simp add: store_unindex_def Let_def cmap_laws)
  then have "tokens_ok (cmap_abs (st_tokens ?t)) (store_abs ?t)"
    using tokens_ok_delete [OF I(5) at] abs by simp
  moreover have "members_of (st_userIndex ?t) = user_ids (store_abs ?t)"
    using I user_ids_delete [of "store_abs s" i a] at by (simp add: abs) (simp add: store_unindex_def Let_def index_laws)
  moreover have "cmap_inv (st_sessions ?t)" "cmap_inv (st_tokens ?t)" "index_inv (st_userIndex ?t)"
    using I P by (simp_all add: store_unindex_def Let_def cmap_laws index_laws)
  moreover have "keyed (store_abs ?t)" using I(4) by (simp add: abs keyed_del)
  ultimately show "store_inv ?t" by (simp add: store_inv_def)
  show "st_maxSessionsPerUser ?t = st_maxSessionsPerUser s" by (simp add: store_unindex_def Let_def)
qed

lemma store_replace_spec:
  assumes "store_inv s" "store_abs s i = Some a" "S_ID b = i" "S_UserID b = S_UserID a"
    "S_TokenHash b = S_TokenHash a"
  shows "store_inv (s \<lparr> st_sessions := Cmap_Set (st_sessions s) i b \<rparr>)"
    "store_abs (s \<lparr> st_sessions := Cmap_Set (st_sessions s) i b \<rparr>) = (store_abs s)(i \<mapsto> b)"
proof -
  note I = store_invD [OF assms(1)]
  show abs: "store_abs (s \<lparr> st_sessions := Cmap_Set (st_sessions s) i b \<rparr>) = (store_abs s)(i \<mapsto> b)"
    using I by (simp add: store_abs_def cmap_laws)
  show "store_inv (s \<lparr> st_sessions := Cmap_Set (st_sessions s) i b \<rparr>)"
    unfolding store_inv_def abs
    using I assms tokens_ok_replace [OF I(5) assms(2)] user_ids_replace [of "store_abs s" i a b]
    by (simp add: cmap_laws keyed_upd)
qed

end
