(* ===== verification/Memory_Refine.thy ===== *)
theory Memory_Refine
  imports Memory_Store
begin

text \<open>
  What the in-memory store promises. The abstract store has the primary map alone; its
  operations say when each error is returned and what the map is afterwards, with no index. Each
  concrete operation keeps \<open>store_inv\<close> and, seen through \<open>store_abs\<close>, is the abstract
  one. \<open>store_step\<close> is the transition relation of a store under any sequence of calls;
  the invariant and the per-user quota hold in every reachable store.
\<close>

section \<open>The abstract store\<close>

type_synonym astore = "string \<Rightarrow> session option"

definition token_used :: "astore \<Rightarrow> string \<Rightarrow> bool" where
  "token_used m h \<longleftrightarrow> (\<exists>i sess. m i = Some sess \<and> S_TokenHash sess = h)"

definition a_Get :: "int \<Rightarrow> astore \<Rightarrow> string \<Rightarrow> go_error + session" where
  "a_Get now m i =
     (case m i of
        None \<Rightarrow> Inl ErrSessionNotFound
      | Some sess \<Rightarrow> if Session_IsExpired now sess then Inl ErrSessionExpired else Inr sess)"

definition a_Create :: "int \<Rightarrow> astore \<Rightarrow> session \<Rightarrow> astore \<times> go_error option" where
  "a_Create mx m sess =
     (if Session_Validate sess \<noteq> None then (m, Session_Validate sess)
      else if mx \<le> int (card (user_ids m (S_UserID sess))) then (m, Some ErrSessionQuotaExceeded)
      else if m (S_ID sess) \<noteq> None then (m, Some ErrSessionConflict)
      else if S_TokenHash sess \<noteq> '''' \<and> token_used m (S_TokenHash sess) then
        (m, Some ErrTokenHashConflict)
      else (m(S_ID sess \<mapsto> sess), None))"

definition a_Update :: "astore \<Rightarrow> session \<Rightarrow> u64 \<Rightarrow> astore \<times> go_error option" where
  "a_Update m sess v =
     (if Session_Validate sess \<noteq> None then (m, Session_Validate sess)
      else (case m (S_ID sess) of
              None \<Rightarrow> (m, Some ErrSessionNotFound)
            | Some e \<Rightarrow>
                if S_Version e \<noteq> v then (m, Some ErrSessionVersionConflict)
                else if S_TokenHash e \<noteq> S_TokenHash sess \<and> S_TokenHash sess \<noteq> '''' \<and>
                        token_used m (S_TokenHash sess) then (m, Some ErrTokenHashConflict)
                else (m(S_ID sess \<mapsto> Session_IncrVersion sess), None)))"

definition a_Delete :: "astore \<Rightarrow> string \<Rightarrow> astore \<times> go_error option" where
  "a_Delete m i = (if m i = None then (m, Some ErrSessionNotFound) else (m(i := None), None))"

definition a_CleanupExpired :: "int \<Rightarrow> astore \<Rightarrow> astore" where
  "a_CleanupExpired now m i =
     (case m i of None \<Rightarrow> None | Some sess \<Rightarrow> if Session_IsExpired now sess then None else Some sess)"

definition a_DeleteByUserID :: "astore \<Rightarrow> string \<Rightarrow> astore" where
  "a_DeleteByUserID m u i = (if i \<in> user_ids m u then None else m i)"

section \<open>Reading\<close>

lemma store_token_used:
  "store_inv s \<Longrightarrow> h \<noteq> '''' \<Longrightarrow> Cmap_Has (st_tokens s) h \<longleftrightarrow> token_used (store_abs s) h"
  using store_invD(5) [of s] unfolding tokens_ok_def token_used_def Cmap_Has_abs
  by (metis not_None_eq)

lemma store_count: "store_inv s \<Longrightarrow> UserIndex_Count (st_userIndex s) u = card (user_ids (store_abs s) u)"
  using store_invD(3,6) [of s] by (simp add: ui.count_card)

lemma store_user_finite: "store_inv s \<Longrightarrow> finite (user_ids (store_abs s) u)"
  using store_invD(3,6) [of s] ui.finite_mem [of "st_userIndex s" u] by simp

lemma Store_Get_refines: "Store_Get now s i = a_Get now (store_abs s) i"
  by (simp add: Store_Get_def a_Get_def store_abs_def cm.get_alpha)

lemma Store_GetByToken_hit:
  assumes "store_inv s" "store_abs s i = Some sess" "S_TokenHash sess \<noteq> ''''"
  shows "Store_GetByToken now s (S_TokenHash sess) =
    (s, if Session_IsExpired now sess then Inl ErrSessionExpired else Inr sess)"
  using assms tokens_ok_Some [OF store_invD(5) [OF assms(1)] assms(2,3)]
  by (simp add: Store_GetByToken_def cm.get_alpha store_abs_def)

lemma Store_GetByToken_miss:
  assumes "store_inv s" "h = '''' \<or> \<not> token_used (store_abs s) h"
  shows "Store_GetByToken now s h = (s, Inl ErrTokenInvalid)"
proof -
  have "cmap_abs (st_tokens s) h = None"
    using assms store_invD(5) [OF assms(1)] unfolding tokens_ok_def token_used_def
    by (metis not_None_eq)
  then show ?thesis by (simp add: Store_GetByToken_def cm.get_alpha)
qed

lemma Store_GetByToken_state: "store_inv s \<Longrightarrow> fst (Store_GetByToken now s h) = s"
  using Store_GetByToken_hit [of s] Store_GetByToken_miss [of s h]
  unfolding token_used_def by (metis fst_conv)

lemma foldl_filter_collect:
  "foldl (\<lambda>acc i. case f i of None \<Rightarrow> acc | Some x \<Rightarrow> if P x then acc else acc @ [x]) acc is =
     acc @ filter (\<lambda>x. \<not> P x) (List.map_filter f is)"
  by (induction "is" arbitrary: acc) (auto simp: List.map_filter_simps split: option.splits)

lemma set_map_filter: "set (List.map_filter f xs) = {y. \<exists>x \<in> set xs. f x = Some y}"
  by (induction xs) (auto simp: List.map_filter_simps split: option.splits)

lemma Store_ListByUserID_set:
  assumes "store_inv s"
  shows "set (Store_ListByUserID now s u) =
    {sess. (\<exists>i. store_abs s i = Some sess) \<and> S_UserID sess = u \<and> \<not> Session_IsExpired now sess}"
  using store_invD(3,6) [OF assms]
  by (auto simp: Store_ListByUserID_def foldl_filter_collect set_map_filter cm.get_alpha
      ui.get_set user_ids_def store_abs_def)

section \<open>Writing\<close>

lemma Store_Create_refines:
  assumes "store_inv s" "Store_Create s sess = (s', r)"
  shows "store_inv s'"
    and "(store_abs s', r) = a_Create (st_maxSessionsPerUser s) (store_abs s) sess"
    and "st_maxSessionsPerUser s' = st_maxSessionsPerUser s"
proof -
  have "S_TokenHash sess \<noteq> '''' \<Longrightarrow> \<not> token_used (store_abs s) (S_TokenHash sess) \<Longrightarrow>
      cmap_abs (st_tokens s) (S_TokenHash sess) = None"
    using store_token_used [OF assms(1), of "S_TokenHash sess"] by (simp add: Cmap_Has_abs)
  note ins = store_insert_spec [OF assms(1), of sess, OF _ this]
  have cases: "(s' = s \<and> r \<noteq> None) \<or> (s' = store_insert s sess \<and> r = None \<and> store_abs s (S_ID sess) = None \<and>
      (S_TokenHash sess = '''' \<or> \<not> token_used (store_abs s) (S_TokenHash sess)))"
    using assms(2) store_token_used [OF assms(1), of "S_TokenHash sess"]
    by (auto simp: Store_Create_def Cmap_Has_abs store_abs_def split: option.splits if_splits)
  show "store_inv s'" using cases ins(1) assms(1) by auto
  show "st_maxSessionsPerUser s' = st_maxSessionsPerUser s" using cases ins(3) by auto
  show "(store_abs s', r) = a_Create (st_maxSessionsPerUser s) (store_abs s) sess"
    using assms(2) cases ins(2) store_token_used [OF assms(1), of "S_TokenHash sess"]
      store_count [OF assms(1)]
    by (auto simp: Store_Create_def a_Create_def Cmap_Has_abs store_abs_def split: option.splits if_splits)
qed

lemma Store_Delete_refines:
  assumes "store_inv s" "Store_Delete s i = (s', r)"
  shows "store_inv s'" and "(store_abs s', r) = a_Delete (store_abs s) i"
    and "st_maxSessionsPerUser s' = st_maxSessionsPerUser s"
proof -
  obtain m p where pop: "Cmap_Pop (st_sessions s) i = (m, p)" by fastforce
  have "store_inv s' \<and> (store_abs s', r) = a_Delete (store_abs s) i \<and>
      st_maxSessionsPerUser s' = st_maxSessionsPerUser s"
  proof (cases p)
    case None
    then show ?thesis
      using assms pop cm.pop_None [of "st_sessions s" i m]
      by (auto simp: Store_Delete_def a_Delete_def store_abs_def)
  next
    case (Some a)
    then show ?thesis
      using assms pop store_remove_spec [OF assms(1), of i m a]
      by (auto simp: Store_Delete_def a_Delete_def)
  qed
  then show "store_inv s'" "(store_abs s', r) = a_Delete (store_abs s) i"
    "st_maxSessionsPerUser s' = st_maxSessionsPerUser s" by auto
qed

text \<open>Deleting by token is deleting the session that owns it.\<close>

lemma Store_DeleteByToken_eq_Delete:
  assumes "store_inv s" "store_abs s i = Some a" "S_TokenHash a \<noteq> ''''"
  shows "Store_DeleteByToken s (S_TokenHash a) = Store_Delete s i"
  using assms tokens_ok_Some [OF store_invD(5) [OF assms(1)] assms(2,3)]
  by (simp add: Store_DeleteByToken_def Store_Delete_def cm.pop_def cm.get_alpha store_abs_def
      store_unindex_def Let_def)

lemma Store_DeleteByToken_miss:
  assumes "store_inv s" "h = '''' \<or> \<not> token_used (store_abs s) h"
  shows "Store_DeleteByToken s h = (s, Some ErrTokenInvalid)"
proof -
  have "cmap_abs (st_tokens s) h = None"
    using assms store_invD(5) [OF assms(1)] unfolding tokens_ok_def token_used_def
    by (metis not_None_eq)
  then show ?thesis by (simp add: Store_DeleteByToken_def cm.pop_def cm.get_alpha)
qed

lemma Store_Touch_refines:
  assumes "store_inv s" "Store_Touch now s i ip ua = (s', r)"
  shows "store_inv s'"
    and "store_abs s' = (case store_abs s i of
           Some sess \<Rightarrow> if Session_IsExpired now sess then store_abs s
                        else (store_abs s)(i \<mapsto> Session_Touch now ip ua sess)
         | None \<Rightarrow> store_abs s)"
    and "r = (case a_Get now (store_abs s) i of Inl e \<Rightarrow> Some e | Inr _ \<Rightarrow> None)"
    and "st_maxSessionsPerUser s' = st_maxSessionsPerUser s"
proof -
  have "S_ID a = i" if "store_abs s i = Some a" for a
    using store_invD(4) [OF assms(1)] that by (simp add: keyed_def)
  then have rep: "store_abs s i = Some a \<Longrightarrow>
      store_inv (s \<lparr> st_sessions := Cmap_Set (st_sessions s) i (Session_Touch now ip ua a) \<rparr>) \<and>
      store_abs (s \<lparr> st_sessions := Cmap_Set (st_sessions s) i (Session_Touch now ip ua a) \<rparr>) =
        (store_abs s)(i \<mapsto> Session_Touch now ip ua a)" for a
    using store_replace_spec [OF assms(1), of i a "Session_Touch now ip ua a"] by simp
  show "store_inv s'"
    "store_abs s' = (case store_abs s i of
        Some sess \<Rightarrow> if Session_IsExpired now sess then store_abs s
                     else (store_abs s)(i \<mapsto> Session_Touch now ip ua sess)
      | None \<Rightarrow> store_abs s)"
    "r = (case a_Get now (store_abs s) i of Inl e \<Rightarrow> Some e | Inr _ \<Rightarrow> None)"
    "st_maxSessionsPerUser s' = st_maxSessionsPerUser s"
    using assms rep unfolding Store_Touch_def cm.get_alpha store_abs_def [symmetric] a_Get_def
    by (auto split: option.splits if_splits)
qed

lemma Store_UpdateSession_refines:
  assumes "store_inv s" "Store_UpdateSession s sess = (s', r)"
    and same: "\<And>e. store_abs s (S_ID sess) = Some e \<Longrightarrow>
      S_UserID e = S_UserID sess \<and> S_TokenHash e = S_TokenHash sess"
  shows "store_inv s'"
    and "store_abs s' = (if r = None then (store_abs s)(S_ID sess \<mapsto> sess) else store_abs s)"
    and "r = (if Session_Validate sess \<noteq> None then Session_Validate sess
              else if store_abs s (S_ID sess) = None then Some ErrSessionNotFound else None)"
    and "st_maxSessionsPerUser s' = st_maxSessionsPerUser s"
proof -
  have rep: "store_abs s (S_ID sess) = Some e \<Longrightarrow>
      store_inv (s \<lparr> st_sessions := Cmap_Set (st_sessions s) (S_ID sess) sess \<rparr>) \<and>
      store_abs (s \<lparr> st_sessions := Cmap_Set (st_sessions s) (S_ID sess) sess \<rparr>) =
        (store_abs s)(S_ID sess \<mapsto> sess)" for e
    using store_replace_spec [OF assms(1), of "S_ID sess" e sess] same by simp
  show "store_inv s'"
    "store_abs s' = (if r = None then (store_abs s)(S_ID sess \<mapsto> sess) else store_abs s)"
    "r = (if Session_Validate sess \<noteq> None then Session_Validate sess
          else if store_abs s (S_ID sess) = None then Some ErrSessionNotFound else None)"
    "st_maxSessionsPerUser s' = st_maxSessionsPerUser s"
    using assms rep unfolding Store_UpdateSession_def cm.get_alpha store_abs_def [symmetric]
    by (cases "Session_Validate sess"; auto split: option.splits if_splits)+
qed

subsection \<open>Update\<close>

text \<open>Swapping the token of an existing session in the token index.\<close>

lemma Store_retoken_spec:
  assumes "store_inv s" "store_abs s i = Some e" "S_ID sess = i"
    and "Store_retoken s e sess = (s1, None)"
  shows "cmap_inv (st_tokens s1)" "st_sessions s1 = st_sessions s" "st_userIndex s1 = st_userIndex s"
    "st_maxSessionsPerUser s1 = st_maxSessionsPerUser s"
    "tokens_ok (cmap_abs (st_tokens s1)) ((store_abs s)(i \<mapsto> sess))"
proof -
  note I = store_invD [OF assms(1)]
  have "cmap_inv (st_tokens s1) \<and> st_sessions s1 = st_sessions s \<and> st_userIndex s1 = st_userIndex s \<and>
      st_maxSessionsPerUser s1 = st_maxSessionsPerUser s \<and>
      tokens_ok (cmap_abs (st_tokens s1)) ((store_abs s)(i \<mapsto> sess))"
  proof (cases "S_TokenHash e = S_TokenHash sess")
    case True
    then show ?thesis
      using assms(4) I tokens_ok_replace [OF I(5) assms(2), of sess] by (simp add: Store_retoken_def)
  next
    case False
    let ?T0 = "if S_TokenHash e \<noteq> '''' then Cmap_Delete (st_tokens s) (S_TokenHash e) else st_tokens s"
    let ?m0 = "(store_abs s)(i := None)"
    have T0: "cmap_inv ?T0" "tokens_ok (cmap_abs ?T0) ?m0"
      using I tokens_ok_delete [OF I(5) assms(2)] by (simp_all add: cmap_laws split: if_splits)
    have free: "S_TokenHash sess \<noteq> '''' \<Longrightarrow> cmap_abs ?T0 (S_TokenHash sess) = None"
      using assms(4) False by (auto simp: Store_retoken_def Let_def Cmap_Has_abs split: if_splits)
    have "cmap_abs (st_tokens s1) = (if S_TokenHash sess \<noteq> '''' then (cmap_abs ?T0)(S_TokenHash sess \<mapsto> i)
        else cmap_abs ?T0)" "cmap_inv (st_tokens s1)" "st_sessions s1 = st_sessions s"
      "st_userIndex s1 = st_userIndex s" "st_maxSessionsPerUser s1 = st_maxSessionsPerUser s"
      using assms(3,4) False T0(1) I(2)
      by (auto simp: Store_retoken_def Let_def cmap_laws split: if_splits)
    moreover have "tokens_ok (if S_TokenHash sess \<noteq> '''' then (cmap_abs ?T0)(S_TokenHash sess \<mapsto> i)
        else cmap_abs ?T0) (?m0(i \<mapsto> sess))"
      by (rule tokens_ok_insert [OF T0(2) _ free]) simp
    ultimately show ?thesis by (simp only: fun_upd_upd)
  qed
  then show "cmap_inv (st_tokens s1)" "st_sessions s1 = st_sessions s" "st_userIndex s1 = st_userIndex s"
    "st_maxSessionsPerUser s1 = st_maxSessionsPerUser s"
    "tokens_ok (cmap_abs (st_tokens s1)) ((store_abs s)(i \<mapsto> sess))" by auto
qed

lemma Store_retoken_conflict:
  assumes "store_inv s" "store_abs s i = Some e"
  shows "snd (Store_retoken s e sess) =
    (if S_TokenHash e \<noteq> S_TokenHash sess \<and> S_TokenHash sess \<noteq> '''' \<and>
        token_used (store_abs s) (S_TokenHash sess) then Some ErrTokenHashConflict else None)"
proof -
  note I = store_invD [OF assms(1)]
  have "cmap_abs (Cmap_Delete (st_tokens s) (S_TokenHash e)) h = cmap_abs (st_tokens s) h"
    if "h \<noteq> S_TokenHash e" for h
    using I that by (simp add: cmap_laws)
  then show ?thesis
    using store_token_used [OF assms(1), of "S_TokenHash sess"]
    by (auto simp: Store_retoken_def Let_def Cmap_Has_abs)
qed

lemma IncrVersion_keeps [simp]:
  "S_ID (Session_IncrVersion a) = S_ID a" "S_UserID (Session_IncrVersion a) = S_UserID a"
  "S_TokenHash (Session_IncrVersion a) = S_TokenHash a"
  "S_Version (Session_IncrVersion a) = S_Version a + 1"
  "S_ExpiresAt (Session_IncrVersion a) = S_ExpiresAt a"
  by (simp_all add: Session_IncrVersion_def)

lemma Store_Update_cases:
  assumes "Store_Update s sess v = (s', sess', r)"
  obtains e where "Session_Validate sess = Some e" "s' = s" "sess' = sess" "r = Some e"
  | "Session_Validate sess = None" "store_abs s (S_ID sess) = None" "s' = s" "sess' = sess"
    "r = Some ErrSessionNotFound"
  | e where "Session_Validate sess = None" "store_abs s (S_ID sess) = Some e" "S_Version e \<noteq> v"
    "s' = s" "sess' = sess" "r = Some ErrSessionVersionConflict"
  | e s1 err where "Session_Validate sess = None" "store_abs s (S_ID sess) = Some e" "S_Version e = v"
    "Store_retoken s e sess = (s1, Some err)" "s' = s1" "sess' = sess" "r = Some err"
  | e s1 where "Session_Validate sess = None" "store_abs s (S_ID sess) = Some e" "S_Version e = v"
    "Store_retoken s e sess = (s1, None)"
    "s' = s1 \<lparr> st_sessions := Cmap_Set (st_sessions s1) (S_ID sess) (Session_IncrVersion sess) \<rparr>"
    "sess' = Session_IncrVersion sess" "r = None"
proof (cases "Session_Validate sess")
  case (Some e)
  with assms show ?thesis by (intro that(1) [of e]) (simp_all add: Store_Update_def)
next
  case valid: None
  show ?thesis
  proof (cases "store_abs s (S_ID sess)")
    case None
    with assms valid show ?thesis
      by (intro that(2)) (simp_all add: Store_Update_def cm.get_alpha store_abs_def)
  next
    case (Some e)
    obtain s1 o1 where rt: "Store_retoken s e sess = (s1, o1)" by fastforce
    show ?thesis
    proof (cases "S_Version e = v")
      case False
      with assms valid Some show ?thesis
        by (intro that(3)) (simp_all add: Store_Update_def cm.get_alpha store_abs_def)
    next
      case True
      show ?thesis
      proof (cases o1)
        case None
        with assms valid Some True rt show ?thesis
          by (intro that(5) [of e s1]) (auto simp: Store_Update_def cm.get_alpha store_abs_def Let_def
              Session_IncrVersion_def)
      next
        case (Some err)
        with assms valid \<open>store_abs s (S_ID sess) = Some e\<close> True rt show ?thesis
          by (intro that(4) [of e s1 err]) (auto simp: Store_Update_def cm.get_alpha store_abs_def)
      qed
    qed
  qed
qed

lemma Store_Update_refines:
  assumes inv: "store_inv s" and upd: "Store_Update s sess v = (s', sess', r)"
    and user: "\<And>e. store_abs s (S_ID sess) = Some e \<Longrightarrow> S_UserID e = S_UserID sess"
    and noconf: "r \<noteq> Some ErrTokenHashConflict"
  shows "store_inv s'" and "(store_abs s', r) = a_Update (store_abs s) sess v"
    and "st_maxSessionsPerUser s' = st_maxSessionsPerUser s"
    and "r = None \<Longrightarrow> sess' = Session_IncrVersion sess"
proof -
  have "store_inv s' \<and> (store_abs s', r) = a_Update (store_abs s) sess v \<and>
      st_maxSessionsPerUser s' = st_maxSessionsPerUser s \<and> (r = None \<longrightarrow> sess' = Session_IncrVersion sess)"
    using upd
  proof (cases rule: Store_Update_cases)
    case (4 e s1 err)
    then show ?thesis
      using noconf Store_retoken_conflict [OF inv, of "S_ID sess" e sess] by (auto split: if_splits)
  next
    case (5 e s1)
    note I = store_invD [OF inv]
    note R = Store_retoken_spec [OF inv 5(2) refl 5(4)]
    have nc: "\<not> (S_TokenHash e \<noteq> S_TokenHash sess \<and> S_TokenHash sess \<noteq> '''' \<and>
        token_used (store_abs s) (S_TokenHash sess))"
      using 5 Store_retoken_conflict [OF inv 5(2), of sess] by (auto split: if_splits)
    have abs: "store_abs s' = (store_abs s)(S_ID sess \<mapsto> Session_IncrVersion sess)"
      using 5 R I by (simp add: store_abs_def cmap_laws)
    have "tokens_ok (cmap_abs (st_tokens s')) (store_abs s')"
      unfolding abs
      using tokens_ok_replace [OF R(5), of "S_ID sess" sess "Session_IncrVersion sess"] 5(5) by simp
    moreover have "user_ids (store_abs s') = user_ids (store_abs s)"
      unfolding abs using user_ids_replace [of "store_abs s" "S_ID sess" e "Session_IncrVersion sess"]
        user [OF 5(2)] 5(2) by simp
    moreover have "keyed (store_abs s')" using I(4) by (simp add: abs keyed_upd)
    ultimately have "store_inv s'" using 5 R I by (simp add: store_inv_def cmap_laws)
    moreover have "(store_abs s', r) = a_Update (store_abs s) sess v"
      unfolding abs using 5(1-3,7) nc by (simp add: a_Update_def)
    ultimately show ?thesis using 5 R by simp
  qed (use inv in \<open>simp_all add: a_Update_def\<close>)
  then show "store_inv s'" "(store_abs s', r) = a_Update (store_abs s) sess v"
    "st_maxSessionsPerUser s' = st_maxSessionsPerUser s" "r = None \<Longrightarrow> sess' = Session_IncrVersion sess"
    by auto
qed

text \<open>When the new token is taken, \<open>Update\<close> has already dropped the old one: the session stays
  but can no longer be found by its token.\<close>

lemma Store_Update_conflict:
  assumes inv: "store_inv s" and e: "store_abs s (S_ID sess) = Some e" "S_Version e = v"
    and valid: "Session_Validate sess = None"
    and tok: "S_TokenHash e \<noteq> ''''" "S_TokenHash sess \<noteq> ''''" "S_TokenHash sess \<noteq> S_TokenHash e"
    and used: "token_used (store_abs s) (S_TokenHash sess)"
  obtains s' where "Store_Update s sess v = (s', sess, Some ErrTokenHashConflict)"
    and "store_abs s' = store_abs s"
    and "Store_GetByToken now s' (S_TokenHash e) = (s', Inl ErrTokenInvalid)"
proof -
  note I = store_invD [OF inv]
  define s' where "s' = s \<lparr> st_tokens := Cmap_Delete (st_tokens s) (S_TokenHash e) \<rparr>"
  have "cmap_abs (st_tokens s') (S_TokenHash sess) \<noteq> None"
    using I store_token_used [OF inv tok(2)] used tok(3) by (simp add: s'_def cmap_laws Cmap_Has_abs)
  then have "Store_retoken s e sess = (s', Some ErrTokenHashConflict)"
    using tok by (simp add: Store_retoken_def s'_def Cmap_Has_abs)
  then have "Store_Update s sess v = (s', sess, Some ErrTokenHashConflict)"
    using e valid by (simp add: Store_Update_def cm.get_alpha store_abs_def)
  moreover have "store_abs s' = store_abs s" by (simp add: store_abs_def s'_def)
  moreover have "Store_GetByToken now s' (S_TokenHash e) = (s', Inl ErrTokenInvalid)"
    using I by (simp add: Store_GetByToken_def cm.get_alpha s'_def cmap_laws)
  ultimately show ?thesis by (rule that)
qed

subsection \<open>Bulk operations\<close>

lemma cleanup_step_spec:
  assumes "store_inv s"
  shows "store_inv (cleanup_step s i)" "store_abs (cleanup_step s i) = (store_abs s)(i := None)"
    "st_maxSessionsPerUser (cleanup_step s i) = st_maxSessionsPerUser s"
proof -
  obtain m p where pop: "Cmap_Pop (st_sessions s) i = (m, p)" by fastforce
  have "store_inv (cleanup_step s i) \<and> store_abs (cleanup_step s i) = (store_abs s)(i := None) \<and>
      st_maxSessionsPerUser (cleanup_step s i) = st_maxSessionsPerUser s"
  proof (cases p)
    case None
    then show ?thesis
      using assms pop cm.pop_None [of "st_sessions s" i m]
      by (auto simp: cleanup_step_def store_abs_def)
  next
    case (Some a)
    then show ?thesis
      using pop store_remove_spec [OF assms, of i m a] by (simp add: cleanup_step_def)
  qed
  then show "store_inv (cleanup_step s i)" "store_abs (cleanup_step s i) = (store_abs s)(i := None)"
    "st_maxSessionsPerUser (cleanup_step s i) = st_maxSessionsPerUser s" by auto
qed

lemma cleanup_steps_spec:
  "store_inv s \<Longrightarrow> store_inv (foldl cleanup_step s ids) \<and>
     store_abs (foldl cleanup_step s ids) = (\<lambda>i. if i \<in> set ids then None else store_abs s i) \<and>
     st_maxSessionsPerUser (foldl cleanup_step s ids) = st_maxSessionsPerUser s"
proof (induction ids arbitrary: s)
  case (Cons i ids)
  show ?case
    using Cons.IH [of "cleanup_step s i"] cleanup_step_spec [OF Cons.prems, of i]
    by (auto simp: fun_eq_iff)
qed simp

lemma expired_ids_filter:
  "expired_ids now s = map fst (filter (\<lambda>(i, sess). Session_IsExpired now sess) (Cmap_Items (st_sessions s)))"
proof -
  have "concat (map (\<lambda>(i, sess). if Session_IsExpired now sess then [i] else []) xs) =
      map fst (filter (\<lambda>(i, sess). Session_IsExpired now sess) xs)" for xs :: "(string \<times> session) list"
    by (induction xs) auto
  then show ?thesis
    unfolding expired_ids_def Cmap_Items_concat by (subst Cmap_Range_collect) simp
qed

lemma expired_ids_spec:
  assumes "store_inv s"
  shows "set (expired_ids now s) = {i. \<exists>sess. store_abs s i = Some sess \<and> Session_IsExpired now sess}"
    and "distinct (expired_ids now s)"
proof -
  note inv = store_invD(1) [OF assms]
  show "set (expired_ids now s) = {i. \<exists>sess. store_abs s i = Some sess \<and> Session_IsExpired now sess}"
    using cm.items_mem [OF inv] by (force simp: expired_ids_filter store_abs_def)
  show "distinct (expired_ids now s)"
    using cm.items_wf [OF inv] by (simp add: expired_ids_filter gm_wf_def distinct_map_filter)
qed

lemma Store_CleanupExpired_refines:
  assumes "store_inv s" "Store_CleanupExpired now s = (s', n)"
  shows "store_inv s'" "store_abs s' = a_CleanupExpired now (store_abs s)"
    "n = card {i. \<exists>sess. store_abs s i = Some sess \<and> Session_IsExpired now sess}"
    "st_maxSessionsPerUser s' = st_maxSessionsPerUser s"
proof -
  have s': "s' = foldl cleanup_step s (expired_ids now s)" "n = length (expired_ids now s)"
    using assms(2) by (auto simp: Store_CleanupExpired_def Let_def)
  note C = cleanup_steps_spec [OF assms(1), of "expired_ids now s"]
  note E = expired_ids_spec [OF assms(1), of now]
  show "store_inv s'" "st_maxSessionsPerUser s' = st_maxSessionsPerUser s" using C s' by auto
  show "store_abs s' = a_CleanupExpired now (store_abs s)"
    using C s' E by (auto simp: a_CleanupExpired_def fun_eq_iff split: option.splits)
  show "n = card {i. \<exists>sess. store_abs s i = Some sess \<and> Session_IsExpired now sess}"
    using s'(2) E by (simp flip: distinct_card)
qed

text \<open>The loop of \<open>DeleteByUserID\<close> leaves the user index behind; the invariant without it.\<close>

definition deleting :: "store \<Rightarrow> bool" where
  "deleting s \<longleftrightarrow> cmap_inv (st_sessions s) \<and> cmap_inv (st_tokens s) \<and> keyed (store_abs s) \<and>
     tokens_ok (cmap_abs (st_tokens s)) (store_abs s)"

lemma delete_user_step_spec:
  assumes "deleting s" "delete_user_step (s, n) i = (s', n')"
  shows "deleting s'" "store_abs s' = (store_abs s)(i := None)"
    "n' = (if store_abs s i = None then n else n + 1)"
    "st_userIndex s' = st_userIndex s" "st_maxSessionsPerUser s' = st_maxSessionsPerUser s"
proof -
  obtain m p where pop: "Cmap_Pop (st_sessions s) i = (m, p)" by fastforce
  have "deleting s' \<and> store_abs s' = (store_abs s)(i := None) \<and>
    n' = (if store_abs s i = None then n else n + 1) \<and>
    st_userIndex s' = st_userIndex s \<and> st_maxSessionsPerUser s' = st_maxSessionsPerUser s"
  proof (cases p)
    case None
    then show ?thesis
      using assms pop cm.pop_None [of "st_sessions s" i m]
      by (auto simp: delete_user_step_def store_abs_def)
  next
    case (Some a)
    have D: "cmap_inv (st_sessions s)" "cmap_inv (st_tokens s)" "keyed (store_abs s)"
      "tokens_ok (cmap_abs (st_tokens s)) (store_abs s)"
      using assms(1) by (auto simp: deleting_def)
    note P = cm.pop_Some [OF pop [unfolded Some] D(1)]
    have abs: "store_abs s' = (store_abs s)(i := None)" and at: "store_abs s i = Some a"
      using assms(2) pop Some P by (auto simp: delete_user_step_def store_abs_def Let_def)
    have "deleting s'"
      unfolding deleting_def abs
      using assms(2) pop Some P D keyed_del [OF D(3), of i] tokens_ok_delete [OF D(4) at]
      by (auto simp: delete_user_step_def Let_def cmap_laws split: if_splits)
    then show ?thesis
      using assms(2) pop Some abs at by (auto simp: delete_user_step_def Let_def)
  qed
  then show "deleting s'" "store_abs s' = (store_abs s)(i := None)"
    "n' = (if store_abs s i = None then n else n + 1)"
    "st_userIndex s' = st_userIndex s" "st_maxSessionsPerUser s' = st_maxSessionsPerUser s" by auto
qed

lemma delete_user_steps_spec:
  "deleting s \<Longrightarrow> distinct ids \<Longrightarrow> (\<And>i. i \<in> set ids \<Longrightarrow> store_abs s i \<noteq> None) \<Longrightarrow>
   foldl delete_user_step (s, n) ids = (s', n') \<Longrightarrow>
     deleting s' \<and> store_abs s' = (\<lambda>i. if i \<in> set ids then None else store_abs s i) \<and>
     n' = n + length ids \<and> st_userIndex s' = st_userIndex s \<and>
     st_maxSessionsPerUser s' = st_maxSessionsPerUser s"
proof (induction ids arbitrary: s n)
  case (Cons i ids)
  obtain t k where t: "delete_user_step (s, n) i = (t, k)" by fastforce
  note S = delete_user_step_spec [OF Cons.prems(1) t]
  have "store_abs t j \<noteq> None" if "j \<in> set ids" for j
    using that Cons.prems(2,3) S(2) by auto
  moreover have "k = n + 1" using S(3) Cons.prems(3) [of i] by auto
  moreover have "foldl delete_user_step (t, k) ids = (s', n')" using Cons.prems(4) t by simp
  ultimately have "deleting s' \<and> store_abs s' = (\<lambda>i. if i \<in> set ids then None else store_abs t i) \<and>
      n' = k + length ids \<and> st_userIndex s' = st_userIndex t \<and>
      st_maxSessionsPerUser s' = st_maxSessionsPerUser t"
    using Cons.IH [OF S(1), of k] Cons.prems(2) by simp
  with \<open>k = n + 1\<close> S(2,4,5) show ?case by (simp add: fun_eq_iff)
qed simp

lemma user_ids_DeleteByUserID: "user_ids (a_DeleteByUserID m u) = (user_ids m)(u := {})"
  by (auto simp: a_DeleteByUserID_def user_ids_def fun_eq_iff split: if_splits)

lemma store_abs_upd: "store_abs (t \<lparr> st_userIndex := x \<rparr>) = store_abs t"
  by (simp add: store_abs_def)

lemma Store_DeleteByUserID_refines:
  assumes "store_inv s" "Store_DeleteByUserID s u = (s', n)"
  shows "store_inv s'" "store_abs s' = a_DeleteByUserID (store_abs s) u"
    "n = card (user_ids (store_abs s) u)" "st_maxSessionsPerUser s' = st_maxSessionsPerUser s"
proof -
  note I = store_invD [OF assms(1)]
  define ids where "ids = UserIndex_Get (st_userIndex s) u"
  have ids: "set ids = user_ids (store_abs s) u" "distinct ids"
    using I by (simp_all add: ids_def ui.get_set ui.get_distinct)
  have card: "length ids = card (user_ids (store_abs s) u)"
    using ids by (simp flip: distinct_card)
  have "store_inv s' \<and> store_abs s' = a_DeleteByUserID (store_abs s) u \<and> n = length ids \<and>
      st_maxSessionsPerUser s' = st_maxSessionsPerUser s"
  proof (cases "ids = []")
    case True
    then show ?thesis
      using assms ids by (auto simp: Store_DeleteByUserID_def ids_def [symmetric] a_DeleteByUserID_def fun_eq_iff)
  next
    case False
    obtain t k where t: "foldl delete_user_step (s, 0) ids = (t, k)" by fastforce
    have "deleting s" using I by (simp add: deleting_def)
    moreover have "store_abs s i \<noteq> None" if "i \<in> set ids" for i
      using that ids by (auto simp: user_ids_def)
    ultimately have D: "deleting t" "store_abs t = (\<lambda>i. if i \<in> set ids then None else store_abs s i)"
      "k = length ids" "st_userIndex t = st_userIndex s" "st_maxSessionsPerUser t = st_maxSessionsPerUser s"
      using delete_user_steps_spec [of s ids 0 t k] ids t by auto
    have s': "s' = t \<lparr> st_userIndex := UserIndex_Clear (st_userIndex t) u \<rparr>" "n = k"
      using assms(2) False t by (auto simp: Store_DeleteByUserID_def ids_def [symmetric])
    have abs: "store_abs s' = a_DeleteByUserID (store_abs s) u"
      using s' D ids by (simp add: store_abs_def a_DeleteByUserID_def fun_eq_iff)
    have "members_of (st_userIndex s') = user_ids (store_abs s')"
      unfolding abs user_ids_DeleteByUserID using s' D I by (simp add: index_laws)
    then have "store_inv s'"
      using s' D I by (simp add: store_inv_def deleting_def index_laws store_abs_upd)
    then show ?thesis using abs s' D by simp
  qed
  then show "store_inv s'" "store_abs s' = a_DeleteByUserID (store_abs s) u"
    "n = card (user_ids (store_abs s) u)" "st_maxSessionsPerUser s' = st_maxSessionsPerUser s"
    using card by auto
qed

subsection \<open>Snapshots\<close>

lemma Store_All_values: "Store_All s = map snd (Cmap_Items (st_sessions s))"
  unfolding Store_All_def Cmap_Items_concat
  by (subst Cmap_Range_collect) (simp add: concat_singletons case_prod_beta')

lemma Store_All_set: "store_inv s \<Longrightarrow> set (Store_All s) = ran (store_abs s)"
  using cm.items_mem [OF store_invD(1), of s]
  by (force simp: Store_All_values store_abs_def ran_def)

text \<open>A list of sessions with distinct identifiers and distinct tokens.\<close>

definition loadable :: "session list \<Rightarrow> bool" where
  "loadable ss \<longleftrightarrow> distinct (map S_ID ss) \<and>
     distinct (filter (\<lambda>h. h \<noteq> '''') (map S_TokenHash ss))"

lemma store_inserts_spec:
  assumes "store_inv s" "loadable ss"
    and "\<And>a. a \<in> set ss \<Longrightarrow> store_abs s (S_ID a) = None"
    and "\<And>a. a \<in> set ss \<Longrightarrow> S_TokenHash a \<noteq> '''' \<Longrightarrow> \<not> token_used (store_abs s) (S_TokenHash a)"
  shows "store_inv (foldl store_insert s ss) \<and>
    store_abs (foldl store_insert s ss) = store_abs s ++ map_of (map (\<lambda>a. (S_ID a, a)) ss)"
  using assms
proof (induction ss arbitrary: s)
  case (Cons a ss)
  have tok: "S_TokenHash a \<noteq> '''' \<Longrightarrow> cmap_abs (st_tokens s) (S_TokenHash a) = None"
    using Cons.prems(4) [of a] store_token_used [OF Cons.prems(1), of "S_TokenHash a"]
    by (simp add: Cmap_Has_abs)
  note I = store_insert_spec [OF Cons.prems(1) _ tok]
  have none: "store_abs s (S_ID a) = None" using Cons.prems(3) by simp
  have free: "store_abs (store_insert s a) (S_ID b) = None"
    "S_TokenHash b \<noteq> '''' \<Longrightarrow> \<not> token_used (store_abs (store_insert s a)) (S_TokenHash b)"
    if "b \<in> set ss" for b
    using that Cons.prems(2) Cons.prems(3,4) [of b] I(2) [OF none]
    by (auto simp: loadable_def token_used_def rev_image_eqI split: if_splits)
  have "loadable ss" using Cons.prems(2) by (auto simp: loadable_def split: if_splits)
  then have "store_inv (foldl store_insert (store_insert s a) ss) \<and>
      store_abs (foldl store_insert (store_insert s a) ss) =
        store_abs (store_insert s a) ++ map_of (map (\<lambda>a. (S_ID a, a)) ss)"
    using Cons.IH [OF I(1) [OF none]] free by blast
  moreover have "map_of (map (\<lambda>a. (S_ID a, a)) ss) (S_ID a) = None"
    using Cons.prems(2) by (force simp: loadable_def map_of_eq_None_iff)
  ultimately show ?case
    using I(2) [OF none] by (auto simp: fun_eq_iff map_add_def split: option.splits)
qed simp

lemma Store_LoadFromSnapshot_spec:
  assumes "store_inv s" "loadable ss"
  shows "store_inv (Store_LoadFromSnapshot seed s ss)"
    and "store_abs (Store_LoadFromSnapshot seed s ss) = map_of (map (\<lambda>a. (S_ID a, a)) ss)"
proof -
  let ?s0 = "s \<lparr> st_sessions := Cmap_Clear (st_sessions s), st_tokens := Cmap_Clear (st_tokens s),
    st_userIndex := NewUserIndex seed \<rparr>"
  note I = store_invD [OF assms(1)]
  have abs: "store_abs ?s0 = Map.empty" using I by (simp add: store_abs_def cmap_laws)
  have "store_inv ?s0"
    unfolding store_inv_def abs
    using I by (simp add: cmap_laws index_laws keyed_def tokens_ok_def user_ids_def [abs_def])
  then show "store_inv (Store_LoadFromSnapshot seed s ss)"
    "store_abs (Store_LoadFromSnapshot seed s ss) = map_of (map (\<lambda>a. (S_ID a, a)) ss)"
    using store_inserts_spec [OF _ assms(2), of ?s0] abs
    by (simp_all add: Store_LoadFromSnapshot_def token_used_def)
qed

lemma Store_All_loadable:
  assumes "store_inv s"
  shows "loadable (Store_All s)"
proof -
  note I = store_invD [OF assms]
  let ?xs = "Cmap_Items (st_sessions s)"
  have mem: "(i, a) \<in> set ?xs \<longleftrightarrow> store_abs s i = Some a" for i a
    using cm.items_mem [OF I(1)] by (simp add: store_abs_def)
  have key: "S_ID a = i" if "(i, a) \<in> set ?xs" for i a
    using that mem I(4) by (simp add: keyed_def)
  have "map S_ID (Store_All s) = map fst ?xs"
    using key by (force simp: Store_All_values)
  then have d: "distinct (map S_ID (Store_All s))"
    using cm.items_wf [OF I(1)] by (simp add: gm_wf_def)
  have "inj_on S_TokenHash {a \<in> set (Store_All s). S_TokenHash a \<noteq> ''''}"
  proof (rule inj_onI)
    fix a b assume "a \<in> {a \<in> set (Store_All s). S_TokenHash a \<noteq> ''''}"
      "b \<in> {a \<in> set (Store_All s). S_TokenHash a \<noteq> ''''}" "S_TokenHash a = S_TokenHash b"
    moreover from this obtain i j where "store_abs s i = Some a" "store_abs s j = Some b"
      using Store_All_set [OF assms] by (auto simp: ran_def)
    ultimately have "i = j" using tokens_ok_unique [OF I(5), of i a j b] by blast
    with \<open>store_abs s i = Some a\<close> \<open>store_abs s j = Some b\<close> show "a = b" by simp
  qed
  moreover have "distinct (Store_All s)" using d by (simp add: distinct_map)
  ultimately have "distinct (map S_TokenHash (filter (\<lambda>a. S_TokenHash a \<noteq> '''') (Store_All s)))"
    by (simp add: distinct_map)
  moreover have "filter (\<lambda>h. h \<noteq> '''') (map S_TokenHash xs) =
      map S_TokenHash (filter (\<lambda>a. S_TokenHash a \<noteq> '''') xs)" for xs :: "session list"
    by (induction xs) auto
  ultimately show ?thesis using d by (simp add: loadable_def)
qed

text \<open>Loading what \<open>All\<close> listed gives the same sessions back, in any store.\<close>

lemma Store_snapshot_roundtrip:
  assumes "store_inv s" "store_inv t"
  shows "store_inv (Store_LoadFromSnapshot seed t (Store_All s))"
    and "store_abs (Store_LoadFromSnapshot seed t (Store_All s)) = store_abs s"
proof -
  note L = Store_LoadFromSnapshot_spec [OF assms(2) Store_All_loadable [OF assms(1)], of seed]
  note I = store_invD [OF assms(1)]
  show "store_inv (Store_LoadFromSnapshot seed t (Store_All s))" by (rule L)
  have key: "S_ID a = i" if "(i, a) \<in> set (Cmap_Items (st_sessions s))" for i a
    using that cm.items_mem [OF I(1)] I(4) by (auto simp: keyed_def store_abs_def)
  have "map (\<lambda>a. (S_ID a, a)) (Store_All s) = Cmap_Items (st_sessions s)"
    using key by (auto simp: Store_All_values o_def intro!: map_idI)
  then show "store_abs (Store_LoadFromSnapshot seed t (Store_All s)) = store_abs s"
    using L(2) cm.items_alpha [OF I(1)] by (simp add: gm_get_def [abs_def] store_abs_def fun_eq_iff)
qed

section \<open>Reachable stores\<close>

lemma foldl_opts_keep:
  "(\<And>opt. opt \<in> set opts \<Longrightarrow> \<exists>mx. opt = WithMaxSessionsPerUser mx) \<Longrightarrow>
     \<exists>mx. foldl (\<lambda>s opt. opt s) s opts = s \<lparr> st_maxSessionsPerUser := mx \<rparr>"
proof (induction opts arbitrary: s)
  case Nil
  show ?case by (rule exI [of _ "st_maxSessionsPerUser s"]) simp
next
  case (Cons opt opts)
  obtain mx where "opt = WithMaxSessionsPerUser mx" using Cons.prems by force
  moreover obtain my where "foldl (\<lambda>s opt. opt s) (opt s) opts = opt s \<lparr> st_maxSessionsPerUser := my \<rparr>"
    using Cons by force
  ultimately show ?case by (auto simp: WithMaxSessionsPerUser_def)
qed

lemma Store_New_inv:
  assumes "\<And>opt. opt \<in> set opts \<Longrightarrow> \<exists>mx. opt = WithMaxSessionsPerUser mx"
  shows "store_inv (Store_New h1 h2 h3 opts)" "store_abs (Store_New h1 h2 h3 opts) = Map.empty"
proof -
  obtain mx where "Store_New h1 h2 h3 opts = \<lparr> st_sessions = Cmap_New h1, st_tokens = Cmap_New h2,
      st_userIndex = NewUserIndex h3, st_maxSessionsPerUser = mx \<rparr>"
    using foldl_opts_keep [of opts "\<lparr> st_sessions = Cmap_New h1, st_tokens = Cmap_New h2,
        st_userIndex = NewUserIndex h3, st_maxSessionsPerUser = DefaultMaxSessionsPerUser \<rparr>"] assms
    by (auto simp: Store_New_def)
  then show "store_inv (Store_New h1 h2 h3 opts)" "store_abs (Store_New h1 h2 h3 opts) = Map.empty"
    by (simp_all add: store_inv_def store_abs_def index_laws keyed_def tokens_ok_def user_ids_def [abs_def])
qed

text \<open>One call on the store. The services change neither the user nor the token of a stored
  session, so the two updates carry that as a guard.\<close>

definition same_owner :: "store \<Rightarrow> session \<Rightarrow> bool" where
  "same_owner s sess \<longleftrightarrow>
     (case store_abs s (S_ID sess) of
        None \<Rightarrow> True
      | Some e \<Rightarrow> S_UserID e = S_UserID sess \<and> S_TokenHash e = S_TokenHash sess)"

inductive store_step :: "store \<Rightarrow> store \<Rightarrow> bool" where
  step_Create: "Store_Create s sess = (s', r) \<Longrightarrow> store_step s s'"
| step_Update: "same_owner s sess \<Longrightarrow> Store_Update s sess v = (s', sess', r) \<Longrightarrow> store_step s s'"
| step_UpdateSession: "same_owner s sess \<Longrightarrow> Store_UpdateSession s sess = (s', r) \<Longrightarrow> store_step s s'"
| step_Delete: "Store_Delete s i = (s', r) \<Longrightarrow> store_step s s'"
| step_DeleteByToken: "Store_DeleteByToken s h = (s', r) \<Longrightarrow> store_step s s'"
| step_DeleteByUserID: "Store_DeleteByUserID s u = (s', n) \<Longrightarrow> store_step s s'"
| step_GetByToken: "Store_GetByToken now s h = (s', q) \<Longrightarrow> store_step s s'"
| step_Touch: "Store_Touch now s i ip ua = (s', r) \<Longrightarrow> store_step s s'"
| step_Cleanup: "Store_CleanupExpired now s = (s', n) \<Longrightarrow> store_step s s'"

inductive_cases store_stepE: "store_step s s'"

definition quota_ok :: "store \<Rightarrow> bool" where
  "quota_ok s \<longleftrightarrow> (\<forall>u. int (card (user_ids (store_abs s) u)) \<le> max 0 (st_maxSessionsPerUser s))"

text \<open>Removing sessions, or replacing one by another of the same user, keeps the quota.\<close>

lemma quota_mono:
  assumes "store_inv s" "quota_ok s" "st_maxSessionsPerUser s' = st_maxSessionsPerUser s"
    and "\<And>u. user_ids (store_abs s') u \<subseteq> user_ids (store_abs s) u"
  shows "quota_ok s'"
  unfolding quota_ok_def
proof
  fix u
  have "card (user_ids (store_abs s') u) \<le> card (user_ids (store_abs s) u)"
    using assms(4) store_user_finite [OF assms(1)] by (rule card_mono [rotated])
  then show "int (card (user_ids (store_abs s') u)) \<le> max 0 (st_maxSessionsPerUser s')"
    using assms(2,3) unfolding quota_ok_def by (metis of_nat_mono order_trans)
qed

lemma quota_Create:
  assumes "store_inv s" "quota_ok s" "Store_Create s sess = (s', r)"
  shows "quota_ok s'"
proof (cases "r = None")
  case False
  then have "store_abs s' = store_abs s"
    using Store_Create_refines(2) [OF assms(1,3)] by (auto simp: a_Create_def split: if_splits)
  then show ?thesis
    using quota_mono [OF assms(1,2)] Store_Create_refines(3) [OF assms(1,3)] by simp
next
  case True
  then have m: "store_abs s' = (store_abs s)(S_ID sess \<mapsto> sess)" "store_abs s (S_ID sess) = None"
    "int (card (user_ids (store_abs s) (S_UserID sess))) < st_maxSessionsPerUser s"
    using Store_Create_refines(2) [OF assms(1,3)] by (auto simp: a_Create_def split: if_splits)
  have "card (insert (S_ID sess) (user_ids (store_abs s) (S_UserID sess))) \<le>
      Suc (card (user_ids (store_abs s) (S_UserID sess)))"
    using store_user_finite [OF assms(1)] by (simp add: card_insert_if)
  then show ?thesis
    using assms(2) m Store_Create_refines(3) [OF assms(1,3)]
      user_ids_insert [of "store_abs s" "S_ID sess" sess]
    by (auto simp: quota_ok_def)
qed

lemma same_ownerD:
  assumes "same_owner s sess" "store_abs s (S_ID sess) = Some e"
  shows "S_UserID e = S_UserID sess" "S_TokenHash e = S_TokenHash sess"
  using assms by (simp_all add: same_owner_def)

lemma Store_DeleteByToken_cases:
  assumes "store_inv s"
  obtains i where "Store_DeleteByToken s h = Store_Delete s i"
  | "Store_DeleteByToken s h = (s, Some ErrTokenInvalid)"
proof (cases "h = '''' \<or> \<not> token_used (store_abs s) h")
  case True
  then show ?thesis using Store_DeleteByToken_miss [OF assms] that(2) by blast
next
  case False
  then obtain i a where "store_abs s i = Some a" "S_TokenHash a = h" "h \<noteq> ''''"
    by (auto simp: token_used_def)
  then show ?thesis using Store_DeleteByToken_eq_Delete [OF assms, of i a] that(1) by blast
qed

lemma Store_Update_same_owner:
  assumes "store_inv s" "same_owner s sess" "Store_Update s sess v = (s', sess', r)"
  shows "r \<noteq> Some ErrTokenHashConflict"
  using assms(3)
proof (cases rule: Store_Update_cases)
  case (1 e)
  then show ?thesis using Session_Validate_code [of sess e] by (auto simp: GetErrorCode_def
        ErrTokenHashConflict_def NewDomainError_def)
next
  case (4 e s1 err)
  then show ?thesis
    using Store_retoken_conflict [OF assms(1), of "S_ID sess" e sess] same_ownerD [OF assms(2), of e]
    by (auto split: if_splits)
qed (auto simp: ErrSessionNotFound_def ErrSessionVersionConflict_def ErrTokenHashConflict_def
    NewDomainError_def)

lemma user_ids_keep:
  "m i = Some e \<Longrightarrow> S_UserID a = S_UserID e \<Longrightarrow> user_ids (m(i \<mapsto> a)) u \<subseteq> user_ids m u"
  using user_ids_replace [of m i e a] by simp

lemma store_step_inv:
  assumes "store_step s s'" "store_inv s"
  shows "store_inv s' \<and> (quota_ok s \<longrightarrow> quota_ok s')"
  using assms(1)
proof cases
  case (step_Create sess r)
  then show ?thesis
    using Store_Create_refines(1) [OF assms(2)] quota_Create [OF assms(2)] by blast
next
  case (step_Update sess v sess' r)
  note R = Store_Update_refines [OF assms(2) step_Update(2) same_ownerD(1) [OF step_Update(1)]
      Store_Update_same_owner [OF assms(2) step_Update], simplified]
  have "user_ids (store_abs s') u \<subseteq> user_ids (store_abs s) u" for u
    using R(2) user_ids_keep [of "store_abs s" "S_ID sess" _ "Session_IncrVersion sess" u]
      same_ownerD(1) [OF step_Update(1)]
    by (auto simp: a_Update_def split: if_splits option.splits)
  then show ?thesis using R(1,3) quota_mono [OF assms(2)] by blast
next
  case (step_UpdateSession sess r)
  note R = Store_UpdateSession_refines [OF assms(2) step_UpdateSession(2)]
  have same: "\<And>e. store_abs s (S_ID sess) = Some e \<Longrightarrow>
      S_UserID e = S_UserID sess \<and> S_TokenHash e = S_TokenHash sess"
    using same_ownerD [OF step_UpdateSession(1)] by simp
  have "user_ids (store_abs s') u \<subseteq> user_ids (store_abs s) u" for u
    using R(2,3) [OF same] user_ids_keep [of "store_abs s" "S_ID sess" _ sess u] same
    by (auto split: if_splits)
  then show ?thesis using R(1,4) [OF same] quota_mono [OF assms(2)] by blast
next
  case (step_Delete i r)
  note R = Store_Delete_refines [OF assms(2) this]
  have "user_ids (store_abs s') u \<subseteq> user_ids (store_abs s) u" for u
    using R(2) by (auto simp: a_Delete_def user_ids_def split: if_splits)
  then show ?thesis using R(1,3) quota_mono [OF assms(2)] by blast
next
  case (step_DeleteByToken h r)
  from assms(2) show ?thesis
  proof (cases rule: Store_DeleteByToken_cases [where h = h])
    case (1 i)
    note R = Store_Delete_refines [OF assms(2), of i s' r]
    have "user_ids (store_abs s') u \<subseteq> user_ids (store_abs s) u" for u
      using R(2) 1 step_DeleteByToken by (auto simp: a_Delete_def user_ids_def split: if_splits)
    then show ?thesis
      using R(1,3) 1 step_DeleteByToken quota_mono [OF assms(2)] by simp
  qed (use step_DeleteByToken assms(2) in simp)
next
  case (step_DeleteByUserID u n)
  note R = Store_DeleteByUserID_refines [OF assms(2) this]
  have "user_ids (store_abs s') v \<subseteq> user_ids (store_abs s) v" for v
    unfolding R(2) user_ids_DeleteByUserID by simp
  then show ?thesis using R(1,4) quota_mono [OF assms(2)] by blast
next
  case (step_GetByToken now h q)
  then show ?thesis using Store_GetByToken_state [OF assms(2), of now h] assms(2) by simp
next
  case (step_Touch now i ip ua r)
  note R = Store_Touch_refines [OF assms(2) this]
  have "user_ids (store_abs s') u \<subseteq> user_ids (store_abs s) u" for u
    using R(2) user_ids_keep [of "store_abs s" i _ _ u] by (auto split: option.splits if_splits)
  then show ?thesis using R(1,4) quota_mono [OF assms(2)] by blast
next
  case (step_Cleanup now n)
  note R = Store_CleanupExpired_refines [OF assms(2) this]
  have "user_ids (store_abs s') u \<subseteq> user_ids (store_abs s) u" for u
    unfolding R(2) by (auto simp: user_ids_def a_CleanupExpired_def split: option.splits if_splits)
  then show ?thesis using R(1,4) quota_mono [OF assms(2)] by blast
qed

lemma store_reachable:
  assumes "store_step\<^sup>*\<^sup>* s s'" "store_inv s" "quota_ok s"
  shows "store_inv s' \<and> quota_ok s'"
  using assms by (induction rule: rtranclp_induct) (use store_step_inv in blast)+

lemma Store_New_quota: "quota_ok (Store_New h1 h2 h3 [WithMaxSessionsPerUser mx])"
  by (simp add: quota_ok_def Store_New_def WithMaxSessionsPerUser_def store_abs_def user_ids_def)

lemma store_step_max:
  assumes "store_step s s'" "store_inv s"
  shows "st_maxSessionsPerUser s' = st_maxSessionsPerUser s"
  using assms(1)
proof cases
  case (step_Create sess r) then show ?thesis using Store_Create_refines(3) [OF assms(2)] by blast
next
  case (step_Update sess v sess' r)
  then show ?thesis
    using Store_Update_refines(3) [OF assms(2) step_Update(2) same_ownerD(1) [OF step_Update(1)]
        Store_Update_same_owner [OF assms(2) step_Update]] by blast
next
  case (step_UpdateSession sess r)
  then show ?thesis
    by (auto simp: Store_UpdateSession_def store_insert_def Let_def split: option.splits if_splits)
next
  case (step_Delete i r) then show ?thesis using Store_Delete_refines(3) [OF assms(2)] by blast
next
  case (step_DeleteByToken h r)
  then show ?thesis
    using Store_Delete_refines(3) [OF assms(2)]
    by (auto simp: Store_DeleteByToken_def store_unindex_def Let_def split: option.splits if_splits prod.splits)
next
  case (step_DeleteByUserID u n) then show ?thesis using Store_DeleteByUserID_refines(4) [OF assms(2)] by blast
next
  case (step_GetByToken now h q)
  then show ?thesis by (auto simp: Store_GetByToken_def split: option.splits)
next
  case (step_Touch now i ip ua r) then show ?thesis using Store_Touch_refines(4) [OF assms(2)] by blast
next
  case (step_Cleanup now n) then show ?thesis using Store_CleanupExpired_refines(4) [OF assms(2)] by blast
qed

lemma store_reachable_max:
  assumes "store_step\<^sup>*\<^sup>* s s'" "store_inv s" "quota_ok s"
  shows "st_maxSessionsPerUser s' = st_maxSessionsPerUser s"
  using assms(1)
proof (induction rule: rtranclp_induct)
  case (step y z)
  then show ?case using store_reachable [OF step(1) assms(2,3)] store_step_max [OF step(2)] by simp
qed simp

abbreviation example_store :: "int \<Rightarrow> store" where
  "example_store mx \<equiv> Store_New (\<lambda>_. 0) (\<lambda>_. 0) (\<lambda>_. 0) [WithMaxSessionsPerUser mx]"

lemma example_store_inv [simp]:
  "store_inv (example_store mx)" "store_abs (example_store mx) = Map.empty"
  "st_maxSessionsPerUser (example_store mx) = mx"
proof -
  have o: "\<exists>my. opt = WithMaxSessionsPerUser my" if "opt \<in> set [WithMaxSessionsPerUser mx]" for opt
    using that by auto
  show "store_inv (example_store mx)" by (rule Store_New_inv(1) [OF o])
  show "store_abs (example_store mx) = Map.empty" by (rule Store_New_inv(2) [OF o])
  show "st_maxSessionsPerUser (example_store mx) = mx"
    by (simp add: Store_New_def WithMaxSessionsPerUser_def)
qed

lemma example_store_create:
  assumes "0 < mx" "u \<noteq> ''''" "length u \<le> MaxUserIDLength"
  obtains s where "Store_Create (example_store mx) (example_session i u h) = (s, None)" "store_inv s"
    "store_abs s = [i \<mapsto> example_session i u h]" "st_maxSessionsPerUser s = mx"
proof -
  obtain s e where c: "Store_Create (example_store mx) (example_session i u h) = (s, e)" by fastforce
  note R = Store_Create_refines [OF example_store_inv(1) c]
  have "(store_abs s, e) = ([i \<mapsto> example_session i u h], None)"
    using R(2) assms by (simp add: a_Create_def user_ids_def token_used_def)
  then show ?thesis using that [of s] c R(1,3) by simp
qed

section \<open>Properties\<close>



text \<open>C2: \<open>Create\<close> is the abstract creation on every branch: an invalid session, a user at
  quota, a taken identifier and a taken token are refused with their errors and change nothing;
  otherwise exactly the new session is added. The indexes stay exact.\<close>

theorem create_refines:
  assumes "store_inv s"
  shows "case Store_Create s sess of (s', r) \<Rightarrow>
    store_inv s' \<and> (store_abs s', r) = a_Create (st_maxSessionsPerUser s) (store_abs s) sess"
  using Store_Create_refines [OF assms] by (auto split: prod.splits)

theorem create_refines_witness:
  "case Store_Create (example_store 1) (example_session ''a'' ''u'' ''h'') of (s', r) \<Rightarrow>
     store_inv s' \<and> store_abs s' = [''a'' \<mapsto> example_session ''a'' ''u'' ''h''] \<and> r = None"
  using create_refines [of "example_store 1" "example_session ''a'' ''u'' ''h''"]
  by (simp add: a_Create_def user_ids_def token_used_def split: prod.splits)



text \<open>A token conflict in \<open>Update\<close> is reported after the session's own token has been taken out
  of the index: the stored sessions are unchanged, but the session's token no longer finds it.\<close>

lemma update_conflict_loses_token:
  assumes "store_inv s" "store_abs s (S_ID sess) = Some e" "S_Version e = v"
    and "Session_Validate sess = None"
    and "S_TokenHash e \<noteq> ''''" "S_TokenHash sess \<noteq> ''''" "S_TokenHash sess \<noteq> S_TokenHash e"
    and "token_used (store_abs s) (S_TokenHash sess)"
  shows "\<exists>s'. Store_Update s sess v = (s', sess, Some ErrTokenHashConflict) \<and>
    store_abs s' = store_abs s \<and>
    Store_GetByToken now s' (S_TokenHash e) = (s', Inl ErrTokenInvalid)"
  using Store_Update_conflict [OF assms] by metis

text \<open>Bulk removal is exact: \<open>CleanupExpired\<close> removes the expired sessions and only those, and
  \<open>DeleteByUserID\<close> the user's sessions and only those; both report how many and keep the indexes
  exact.\<close>

lemma bulk_removal_exact:
  assumes "store_inv s"
  shows "(case Store_CleanupExpired now s of (s', n) \<Rightarrow> store_inv s' \<and>
      store_abs s' = (\<lambda>i. case store_abs s i of None \<Rightarrow> None
                          | Some sess \<Rightarrow> if Session_IsExpired now sess then None else Some sess) \<and>
      n = card {i. \<exists>sess. store_abs s i = Some sess \<and> Session_IsExpired now sess}) \<and>
    (case Store_DeleteByUserID s u of (s', n) \<Rightarrow> store_inv s' \<and>
      store_abs s' = (\<lambda>i. if i \<in> user_ids (store_abs s) u then None else store_abs s i) \<and>
      n = card (user_ids (store_abs s) u))"
  using Store_CleanupExpired_refines [OF assms, of now] Store_DeleteByUserID_refines [OF assms, of u]
  by (auto simp: a_CleanupExpired_def [abs_def] a_DeleteByUserID_def [abs_def] split: prod.splits)

text \<open>Loading the sessions that \<open>All\<close> listed restores exactly the same store contents, with exact
  indexes, whatever the store held before.\<close>

lemma store_dump_restores:
  assumes "store_inv s" "store_inv t"
  shows "store_inv (Store_LoadFromSnapshot seed t (Store_All s)) \<and>
    store_abs (Store_LoadFromSnapshot seed t (Store_All s)) = store_abs s"
  using Store_snapshot_roundtrip [OF assms] by blast

end
