(* ===== verification/Memory_List.thy ===== *)
theory Memory_List
  imports Memory_Refine "HOL-Library.Multiset"
begin

text \<open>
  Filtered, sorted and paginated listing: \<open>SessionFilter\<close> of
  \<open>internal/core/service/session.go\<close> and \<open>Store.List\<close> of \<open>memory/store.go\<close>. Indexes are
  Go \<open>int\<close>s with their wrap-around; an index out of range is a run-time panic, the
  value \<open>None\<close>. \<open>sort.Slice\<close> is insertion sort, which is what the library runs on up to
  twelve elements; beyond that it may order equal keys differently, and the theorems on the
  result's order speak of the keys only.
\<close>

record session_filter =
  F_UserID :: string
  F_DeviceID :: string
  F_CreatedBy :: string
  F_IPAddress :: string
  F_Status :: string
  F_CreatedAfter :: "int option"
  F_CreatedBefore :: "int option"
  F_ActiveAfter :: "int option"
  F_SortBy :: string
  F_SortOrder :: string
  F_Page :: int
  F_PageSize :: int

definition SessionFilter_zero :: session_filter where
  "SessionFilter_zero = \<lparr> F_UserID = '''', F_DeviceID = '''', F_CreatedBy = '''', F_IPAddress = '''',
     F_Status = '''', F_CreatedAfter = None, F_CreatedBefore = None, F_ActiveAfter = None,
     F_SortBy = '''', F_SortOrder = '''', F_Page = 0, F_PageSize = 0 \<rparr>"

section \<open>Sorting\<close>

text \<open>Insertion sort as \<open>insertionSortLessFunc\<close> does it: the sorted prefix is kept in reverse, and
  the new element moves left while it is less than its neighbour.\<close>

fun sift :: "('a \<Rightarrow> 'a \<Rightarrow> bool) \<Rightarrow> 'a \<Rightarrow> 'a list \<Rightarrow> 'a list" where
  "sift lt x [] = [x]"
| "sift lt x (y # ys) = (if lt x y then y # sift lt x ys else x # y # ys)"

definition sort_Slice :: "('a \<Rightarrow> 'a \<Rightarrow> bool) \<Rightarrow> 'a list \<Rightarrow> 'a list" where
  "sort_Slice lt xs = rev (foldl (\<lambda>acc x. sift lt x acc) [] xs)"

section \<open>Listing\<close>

definition filter_matches :: "int \<Rightarrow> session_filter \<Rightarrow> session \<Rightarrow> bool" where
  "filter_matches nowMs f sess =
     (if F_DeviceID f \<noteq> '''' \<and> S_DeviceID sess \<noteq> F_DeviceID f then False
      else if F_CreatedBy f \<noteq> '''' \<and> S_CreatedBy sess \<noteq> F_CreatedBy f then False
      else if F_IPAddress f \<noteq> '''' \<and> (S_LastAccessIP sess \<noteq> F_IPAddress f \<and> S_IPAddress sess \<noteq> F_IPAddress f)
        then False
      else if F_Status f \<noteq> '''' \<and>
              (let isExpired = S_ExpiresAt sess > 0 \<and> S_ExpiresAt sess < nowMs in
               (F_Status f = ''active'' \<and> isExpired) \<or> (F_Status f = ''expired'' \<and> \<not> isExpired))
        then False
      else if (case F_CreatedAfter f of None \<Rightarrow> False | Some t \<Rightarrow> S_CreatedAt sess < UnixMilli t) then False
      else if (case F_CreatedBefore f of None \<Rightarrow> False | Some t \<Rightarrow> S_CreatedAt sess \<ge> UnixMilli t) then False
      else if (case F_ActiveAfter f of None \<Rightarrow> False | Some t \<Rightarrow> S_LastActive sess < UnixMilli t) then False
      else True)"

definition list_candidates :: "store \<Rightarrow> session_filter \<Rightarrow> session list" where
  "list_candidates s f =
     (if F_UserID f \<noteq> '''' then
        foldl (\<lambda>acc i. case Cmap_Get (st_sessions s) i of None \<Rightarrow> acc | Some sess \<Rightarrow> acc @ [sess])
          [] (UserIndex_Get (st_userIndex s) (F_UserID f))
      else Cmap_Range (st_sessions s) (\<lambda>_ sess acc. (acc @ [sess], True)) [])"

definition list_sort_key :: "string \<Rightarrow> session \<Rightarrow> int" where
  "list_sort_key sortBy sess = (if sortBy = ''last_active'' then S_LastActive sess else S_CreatedAt sess)"

definition list_less :: "session_filter \<Rightarrow> session \<Rightarrow> session \<Rightarrow> bool" where
  "list_less f a b =
     (let sortBy = (if F_SortBy f = '''' then ''created_at'' else F_SortBy f);
          sortOrder = (if F_SortOrder f = '''' then ''desc'' else F_SortOrder f);
          less = list_sort_key sortBy a < list_sort_key sortBy b
      in if sortOrder = ''asc'' then less else \<not> less)"

text \<open>The copy loop: \<open>filtered[i]\<close> for \<open>i\<close> from \<open>startIdx\<close> to \<open>endIdx - 1\<close>.\<close>

fun copy_page :: "'a list \<Rightarrow> int \<Rightarrow> nat \<Rightarrow> 'a list option" where
  "copy_page xs i 0 = Some []"
| "copy_page xs i (Suc n) =
     (if i < 0 \<or> i \<ge> int (length xs) then None
      else map_option (\<lambda>r. xs ! nat i # r) (copy_page xs (i + 1) n))"

definition paginate :: "session list \<Rightarrow> int \<Rightarrow> int \<Rightarrow> session list option" where
  "paginate filtered page0 pageSize0 =
     (let page = (if page0 < 1 then 1 else page0);
          pageSize = (if pageSize0 \<le> 0 then 20 else if pageSize0 > 100 then 100 else pageSize0);
          startIdx = i64 ((page - 1) * pageSize);
          endIdx0 = i64 (startIdx + pageSize)
      in if startIdx \<ge> int (length filtered) then Some []
         else let endIdx = (if endIdx0 > int (length filtered) then int (length filtered) else endIdx0)
              in copy_page filtered startIdx (nat (endIdx - startIdx)))"

definition Store_List :: "int \<Rightarrow> store \<Rightarrow> session_filter option \<Rightarrow> (session list \<times> nat) option" where
  "Store_List now s filter0 =
     (let f = (case filter0 of None \<Rightarrow> SessionFilter_zero | Some f \<Rightarrow> f);
          filtered = filter (filter_matches (UnixMilli now) f) (list_candidates s f);
          total = length filtered;
          sorted_list = sort_Slice (list_less f) filtered
      in map_option (\<lambda>items. (items, total)) (paginate sorted_list (F_Page f) (F_PageSize f)))"

section \<open>Lemmas\<close>

lemma mset_sift: "mset (sift lt x ys) = add_mset x (mset ys)"
  by (induction ys) auto

lemma mset_sort_Slice: "mset (sort_Slice lt xs) = mset xs"
proof -
  have "mset (foldl (\<lambda>acc x. sift lt x acc) acc xs) = mset acc + mset xs" for acc
    by (induction xs arbitrary: acc) (auto simp: mset_sift)
  then show ?thesis by (simp add: sort_Slice_def)
qed

text \<open>For an order given by keys, with \<open>lt\<close> between the strict and the weak order, the result is
  sorted by the keys.\<close>

lemma sorted_sift:
  fixes key :: "'a \<Rightarrow> int"
  assumes "\<And>a b. key a < key b \<Longrightarrow> lt a b" "\<And>a b. lt a b \<Longrightarrow> key a \<le> key b"
    and "sorted_wrt (\<lambda>a b. key b \<le> key a) ys"
  shows "sorted_wrt (\<lambda>a b. key b \<le> key a) (sift lt x ys)"
  using assms(3)
proof (induction ys)
  case (Cons y ys)
  have "set (sift lt x ys) = insert x (set ys)"
    by (metis mset_sift set_mset_add_mset_insert set_mset_mset)
  moreover have "key y \<le> key x" if "\<not> lt x y" using assms(1) [of x y] that by force
  ultimately show ?case
    using Cons assms(2) [of x y] by (auto intro: order_trans)
qed simp

lemma sorted_sort_Slice:
  fixes key :: "'a \<Rightarrow> int"
  assumes "\<And>a b. key a < key b \<Longrightarrow> lt a b" "\<And>a b. lt a b \<Longrightarrow> key a \<le> key b"
  shows "sorted_wrt (\<lambda>a b. key a \<le> key b) (sort_Slice lt xs)"
proof -
  have "sorted_wrt (\<lambda>a b. key b \<le> key a) (foldl (\<lambda>acc x. sift lt x acc) acc xs)"
    if "sorted_wrt (\<lambda>a b. key b \<le> key a) acc" for acc
    using that sorted_sift [of key lt, OF assms] by (induction xs arbitrary: acc) auto
  then show ?thesis by (simp add: sort_Slice_def sorted_wrt_rev)
qed

lemma copy_page_take:
  "0 \<le> i \<Longrightarrow> i + int n \<le> int (length xs) \<Longrightarrow> copy_page xs i n = Some (take n (drop (nat i) xs))"
proof (induction xs i n rule: copy_page.induct)
  case (2 xs i n)
  then have "nat i < length xs" by simp
  moreover have "nat (i + 1) = Suc (nat i)" using 2 by simp
  ultimately show ?case
    using 2 by (simp add: Cons_nth_drop_Suc [symmetric])
qed simp

definition page_size :: "int \<Rightarrow> int" where
  "page_size n = (if n \<le> 0 then 20 else if n > 100 then 100 else n)"

lemma page_size_bounds: "1 \<le> page_size n" "page_size n \<le> 100"
  by (auto simp: page_size_def)

lemma paginate_ok:
  assumes "int (length xs) < 2 ^ 62" "(max 1 page - 1) * page_size n < 2 ^ 62"
  shows "paginate xs page n =
    Some (take (nat (page_size n)) (drop (nat ((max 1 page - 1) * page_size n)) xs))"
proof -
  define st where "st = (max 1 page - 1) * page_size n"
  have st: "0 \<le> st" "st < 2 ^ 62"
    using assms(2) page_size_bounds [of n] by (auto simp: st_def)
  have i: "i64 st = st" "i64 (st + page_size n) = st + page_size n"
    using st page_size_bounds [of n] by (auto intro!: i64_id simp: in_i64_def)
  have p: "(if page < 1 then 1 else page) = max 1 page" by simp
  show ?thesis
  proof (cases "st \<ge> int (length xs)")
    case True
    then show ?thesis
      unfolding paginate_def p Let_def page_size_def [symmetric] st_def [symmetric] i by simp
  next
    case False
    then have "copy_page xs st (nat (min (st + page_size n) (int (length xs)) - st)) =
        Some (take (nat (min (st + page_size n) (int (length xs)) - st)) (drop (nat st) xs))"
      using st page_size_bounds [of n] by (intro copy_page_take) auto
    moreover have "take (nat (min (st + page_size n) (int (length xs)) - st)) (drop (nat st) xs) =
        take (nat (page_size n)) (drop (nat st) xs)"
      using False st by (cases "st + page_size n \<le> int (length xs)") auto
    ultimately show ?thesis
      unfolding paginate_def p Let_def page_size_def [symmetric] st_def [symmetric] i
      using False by (auto simp: min_def)
  qed
qed

text \<open>A page number whose offset overflows to a negative index panics, even on an empty store.\<close>

lemma paginate_panics:
  assumes "1 \<le> page" "i64 ((page - 1) * page_size n) < 0"
    and "i64 ((page - 1) * page_size n) + 100 < 2 ^ 63"
  shows "paginate xs page n = None"
proof -
  define st where "st = i64 ((page - 1) * page_size n)"
  have st: "st < 0" "in_i64 st" using assms i64_range by (simp_all add: st_def)
  have e: "i64 (st + page_size n) = st + page_size n"
    using st page_size_bounds [of n] by (intro i64_id) (auto simp: in_i64_def)
  have p: "(if page < 1 then 1 else page) = page" using assms by simp
  have "0 < nat ((if st + page_size n > int (length xs) then int (length xs) else st + page_size n) - st)"
    using st page_size_bounds [of n] by auto
  then obtain k where
    k: "nat ((if st + page_size n > int (length xs) then int (length xs) else st + page_size n) - st) = Suc k"
    by (metis gr0_conv_Suc)
  show ?thesis
    unfolding paginate_def p Let_def page_size_def [symmetric] st_def [symmetric] e
    unfolding k using st by simp
qed

lemma list_candidates_set:
  assumes "store_inv s"
  shows "set (list_candidates s f) =
    {sess. (\<exists>i. store_abs s i = Some sess) \<and> (F_UserID f = '''' \<or> S_UserID sess = F_UserID f)}"
proof -
  have "foldl (\<lambda>acc i. case g i of None \<Rightarrow> acc | Some x \<Rightarrow> acc @ [x]) acc is = acc @ List.map_filter g is"
    for g :: "string \<Rightarrow> session option" and acc "is"
    by (induction "is" arbitrary: acc) (auto simp: List.map_filter_simps split: option.splits)
  moreover have "Cmap_Range (st_sessions s) (\<lambda>_ sess acc. (acc @ [sess], True)) [] = Store_All s"
    by (simp add: Store_All_def)
  ultimately show ?thesis
    using Store_All_set [OF assms] store_invD(3,6) [OF assms]
    by (auto simp: list_candidates_def set_map_filter cm.get_alpha ui.get_set user_ids_def store_abs_def ran_def)
qed

lemma Store_List_sorted:
  assumes "F_SortOrder f = '''' \<or> F_SortOrder f = ''desc''"
  shows "sorted_wrt (\<lambda>a b. list_sort_key (F_SortBy f) a \<ge> list_sort_key (F_SortBy f) b)
    (sort_Slice (list_less f) xs)"
proof -
  have "sorted_wrt (\<lambda>a b. - list_sort_key (F_SortBy f) a \<le> - list_sort_key (F_SortBy f) b)
      (sort_Slice (list_less f) xs)"
    by (rule sorted_sort_Slice) (use assms in \<open>auto simp: list_less_def Let_def list_sort_key_def split: if_splits\<close>)
  then show ?thesis by simp
qed

lemma sorted_wrt_take_drop: "sorted_wrt P xs \<Longrightarrow> sorted_wrt P (take n (drop m xs))"
  by (simp add: sorted_wrt_take sorted_wrt_drop)

lemma Store_List_spec:
  assumes "store_inv s" "Store_List now s (Some f) = Some (items, cnt)"
    and "int (length (list_candidates s f)) < 2 ^ 62" "(max 1 (F_Page f) - 1) * page_size (F_PageSize f) < 2 ^ 62"
  shows "length items \<le> 100" "length items \<le> cnt"
    and "set items \<subseteq> {sess. (\<exists>i. store_abs s i = Some sess) \<and> (F_UserID f = '''' \<or> S_UserID sess = F_UserID f) \<and>
           filter_matches (UnixMilli now) f sess}"
    and "F_SortOrder f = '''' \<or> F_SortOrder f = ''desc'' \<Longrightarrow>
           sorted_wrt (\<lambda>a b. list_sort_key (F_SortBy f) a \<ge> list_sort_key (F_SortBy f) b) items"
proof -
  define filtered where "filtered = filter (filter_matches (UnixMilli now) f) (list_candidates s f)"
  define L where "L = sort_Slice (list_less f) filtered"
  have len: "length L = length filtered"
    using arg_cong [OF mset_sort_Slice [of "list_less f" filtered], of size] by (simp add: L_def)
  have "length filtered \<le> length (list_candidates s f)" by (simp add: filtered_def)
  then have "int (length L) < 2 ^ 62" using len assms(3) by linarith
  note P = paginate_ok [OF this assms(4)]
  have items: "items = take (nat (page_size (F_PageSize f)))
      (drop (nat ((max 1 (F_Page f) - 1) * page_size (F_PageSize f))) L)" and cnt: "cnt = length L"
    using assms(2) P len by (auto simp: Store_List_def Let_def filtered_def [symmetric] L_def [symmetric])
  show "length items \<le> 100" using items page_size_bounds [of "F_PageSize f"] by auto
  show "length items \<le> cnt" unfolding items cnt length_take length_drop by (rule min.coboundedI1) (rule diff_le_self)
  have "set items \<subseteq> set L" unfolding items using set_take_subset set_drop_subset by (rule order_trans)
  moreover have "set L = set filtered"
    using mset_sort_Slice [of "list_less f" filtered] by (metis L_def set_mset_mset)
  ultimately show "set items \<subseteq> {sess. (\<exists>i. store_abs s i = Some sess) \<and>
      (F_UserID f = '''' \<or> S_UserID sess = F_UserID f) \<and> filter_matches (UnixMilli now) f sess}"
    using list_candidates_set [OF assms(1), of f] by (auto simp: filtered_def)
  show "F_SortOrder f = '''' \<or> F_SortOrder f = ''desc'' \<Longrightarrow>
      sorted_wrt (\<lambda>a b. list_sort_key (F_SortBy f) a \<ge> list_sort_key (F_SortBy f) b) items"
    unfolding items by (rule sorted_wrt_take_drop) (simp add: L_def Store_List_sorted)
qed

section \<open>Properties\<close>

text \<open>A page of \<open>List\<close> has at most 100 items and no more than the reported total, every item is a
  stored session that matches the filter, and in the default order the items are sorted.\<close>

lemma list_page_correct:
  assumes "store_inv s" "Store_List now s (Some f) = Some (items, cnt)"
    and "int (length (list_candidates s f)) < 2 ^ 62" "(max 1 (F_Page f) - 1) * page_size (F_PageSize f) < 2 ^ 62"
  shows "length items \<le> 100 \<and> length items \<le> cnt \<and>
    (\<forall>sess \<in> set items. (\<exists>i. store_abs s i = Some sess) \<and> (F_UserID f = '''' \<or> S_UserID sess = F_UserID f) \<and>
       filter_matches (UnixMilli now) f sess) \<and>
    (F_SortOrder f = '''' \<or> F_SortOrder f = ''desc'' \<longrightarrow>
       sorted_wrt (\<lambda>a b. list_sort_key (F_SortBy f) a \<ge> list_sort_key (F_SortBy f) b) items)"
  using Store_List_spec [OF assms] by blast

text \<open>The offset of a page is computed in 64-bit arithmetic without a check: a page number for
  which it wraps to a negative value makes \<open>List\<close> panic on an index out of range, on every
  store, also an empty one.\<close>

lemma list_page_overflow_panics:
  assumes "1 \<le> F_Page f" "i64 ((F_Page f - 1) * page_size (F_PageSize f)) < 0"
  shows "Store_List now s (Some f) = None"
  using paginate_panics [OF assms] assms(2) by (simp add: Store_List_def Let_def)

end
