(* ===== verification/Repository.thy ===== *)
theory Repository
  imports Memory_List
begin

text \<open>
  The storage interfaces of the service layer: \<open>SessionRepository\<close> of
  \<open>internal/core/service/session.go\<close> and \<open>TokenRepository\<close> of \<open>service/token.go\<close>. A Go
  interface value is a record of the methods, each from the repository's state and arguments to
  the new state and the result; \<open>None\<close> as the result of \<open>List\<close> is a run-time panic.

  The locale \<open>session_repository\<close> has what the services rely on: seen through the abstraction
  \<open>\<alpha>\<close>, every method is the abstract store's operation, or fails with an error in
  \<open>fault\<close> and changes nothing. The in-memory store is one instance, with no faults.
\<close>

section \<open>Interfaces\<close>

record 'r session_repo =
  sr_Create :: "int \<Rightarrow> 'r \<Rightarrow> session \<Rightarrow> 'r \<times> go_error option"
  sr_Get :: "int \<Rightarrow> 'r \<Rightarrow> string \<Rightarrow> go_error + session"
  sr_Update :: "int \<Rightarrow> 'r \<Rightarrow> session \<Rightarrow> u64 \<Rightarrow> 'r \<times> session \<times> go_error option"
  sr_Delete :: "int \<Rightarrow> 'r \<Rightarrow> string \<Rightarrow> 'r \<times> go_error option"
  sr_List :: "int \<Rightarrow> 'r \<Rightarrow> session_filter \<Rightarrow> (go_error + session list \<times> nat) option"
  sr_CountByUserID :: "'r \<Rightarrow> string \<Rightarrow> go_error + nat"
  sr_ListByUserID :: "int \<Rightarrow> 'r \<Rightarrow> string \<Rightarrow> go_error + session list"
  sr_DeleteByUserID :: "int \<Rightarrow> 'r \<Rightarrow> string \<Rightarrow> 'r \<times> (go_error + nat)"
  sr_DeleteExpired :: "int \<Rightarrow> 'r \<Rightarrow> 'r \<times> (go_error + nat)"

record 'r token_repo =
  tr_GetSessionByTokenHash :: "int \<Rightarrow> 'r \<Rightarrow> string \<Rightarrow> 'r \<times> (go_error + session)"
  tr_UpdateSession :: "int \<Rightarrow> 'r \<Rightarrow> session \<Rightarrow> 'r \<times> go_error option"

definition store_session_repo :: "store session_repo" where
  "store_session_repo =
     \<lparr> sr_Create = (\<lambda>_. Store_Create), sr_Get = Store_Get, sr_Update = (\<lambda>_. Store_Update),
       sr_Delete = (\<lambda>_. Store_Delete),
       sr_List = (\<lambda>now s f. map_option Inr (Store_List now s (Some f))),
       sr_CountByUserID = (\<lambda>s u. Inr (Store_CountByUserID s u)),
       sr_ListByUserID = (\<lambda>now s u. Inr (Store_ListByUserID now s u)),
       sr_DeleteByUserID = (\<lambda>_ s u. case Store_DeleteByUserID s u of (s', n) \<Rightarrow> (s', Inr n)),
       sr_DeleteExpired = Store_DeleteExpired \<rparr>"

definition store_token_repo :: "store token_repo" where
  "store_token_repo =
     \<lparr> tr_GetSessionByTokenHash = Store_GetSessionByTokenHash,
       tr_UpdateSession = (\<lambda>_. Store_UpdateSession) \<rparr>"

section \<open>The contract\<close>

text \<open>\<open>owner_kept\<close>: an update that changes neither the user nor the token of a stored session.\<close>

definition owner_kept :: "astore \<Rightarrow> session \<Rightarrow> bool" where
  "owner_kept m sess \<longleftrightarrow>
     (\<forall>e. m (S_ID sess) = Some e \<longrightarrow> S_UserID e = S_UserID sess \<and> S_TokenHash e = S_TokenHash sess)"

definition a_UpdateSession :: "astore \<Rightarrow> session \<Rightarrow> astore \<times> go_error option" where
  "a_UpdateSession m sess =
     (if Session_Validate sess \<noteq> None then (m, Session_Validate sess)
      else if m (S_ID sess) = None then (m, Some ErrSessionNotFound)
      else (m(S_ID sess \<mapsto> sess), None))"

locale session_repository =
  fixes R :: "'r session_repo" and T :: "'r token_repo" and inv :: "'r \<Rightarrow> bool"
    and \<alpha> :: "'r \<Rightarrow> astore" and mx :: int and fault :: "go_error \<Rightarrow> bool"
  assumes keyed_alpha: "inv r \<Longrightarrow> keyed (\<alpha> r)"
    and token_unique: "inv r \<Longrightarrow> \<alpha> r i = Some a \<Longrightarrow> \<alpha> r j = Some b \<Longrightarrow>
      S_TokenHash a = S_TokenHash b \<Longrightarrow> S_TokenHash a \<noteq> '''' \<Longrightarrow> i = j"
    and get_alpha: "inv r \<Longrightarrow> sr_Get R now r i = a_Get now (\<alpha> r) i"
    and create_alpha: "inv r \<Longrightarrow> sr_Create R now r s = (r', e) \<Longrightarrow>
      inv r' \<and> ((\<alpha> r', e) = a_Create mx (\<alpha> r) s \<or> \<alpha> r' = \<alpha> r \<and> (\<exists>x. e = Some x \<and> fault x))"
    and update_alpha: "inv r \<Longrightarrow> owner_kept (\<alpha> r) s \<Longrightarrow> sr_Update R now r s v = (r', s', e) \<Longrightarrow>
      inv r' \<and> ((\<alpha> r', e) = a_Update (\<alpha> r) s v \<and> (e = None \<longrightarrow> s' = Session_IncrVersion s) \<or>
        \<alpha> r' = \<alpha> r \<and> (\<exists>x. e = Some x \<and> fault x))"
    and delete_alpha: "inv r \<Longrightarrow> sr_Delete R now r i = (r', e) \<Longrightarrow>
      inv r' \<and> ((\<alpha> r', e) = a_Delete (\<alpha> r) i \<or> \<alpha> r' = \<alpha> r \<and> (\<exists>x. e = Some x \<and> fault x))"
    and count_alpha: "inv r \<Longrightarrow> sr_CountByUserID R r u = Inr (card (user_ids (\<alpha> r) u))"
    and listuser_alpha: "inv r \<Longrightarrow> \<exists>l. sr_ListByUserID R now r u = Inr l \<and>
      set l = {s. (\<exists>i. \<alpha> r i = Some s) \<and> S_UserID s = u \<and> \<not> Session_IsExpired now s} \<and>
      length l \<le> card (user_ids (\<alpha> r) u)"
    and deluser_alpha: "inv r \<Longrightarrow> sr_DeleteByUserID R now r u = (r', n) \<Longrightarrow>
      inv r' \<and> \<alpha> r' = a_DeleteByUserID (\<alpha> r) u \<and> n = Inr (card (user_ids (\<alpha> r) u))"
    and expired_alpha: "inv r \<Longrightarrow> sr_DeleteExpired R now r = (r', n) \<Longrightarrow>
      inv r' \<and> \<alpha> r' = a_CleanupExpired now (\<alpha> r) \<and>
      n = Inr (card {i. \<exists>s. \<alpha> r i = Some s \<and> Session_IsExpired now s})"
    and token_hit: "inv r \<Longrightarrow> \<alpha> r i = Some s \<Longrightarrow> S_TokenHash s \<noteq> '''' \<Longrightarrow>
      tr_GetSessionByTokenHash T now r (S_TokenHash s) =
        (r, if Session_IsExpired now s then Inl ErrSessionExpired else Inr s)"
    and token_miss: "inv r \<Longrightarrow> h = '''' \<or> \<not> token_used (\<alpha> r) h \<Longrightarrow>
      tr_GetSessionByTokenHash T now r h = (r, Inl ErrTokenInvalid)"
    and touch_alpha: "inv r \<Longrightarrow> owner_kept (\<alpha> r) s \<Longrightarrow> tr_UpdateSession T now r s = (r', e) \<Longrightarrow>
      inv r' \<and> ((\<alpha> r', e) = a_UpdateSession (\<alpha> r) s \<or> \<alpha> r' = \<alpha> r \<and> (\<exists>x. e = Some x \<and> fault x))"

section \<open>The in-memory store\<close>

lemma owner_kept_same_owner: "owner_kept (store_abs s) sess \<longleftrightarrow> same_owner s sess"
  by (auto simp: owner_kept_def same_owner_def split: option.splits)

lemma Store_ListByUserID_length:
  assumes "store_inv s"
  shows "length (Store_ListByUserID now s u) \<le> card (user_ids (store_abs s) u)"
proof -
  have mf: "length (List.map_filter f xs) \<le> length xs" for f :: "string \<Rightarrow> session option" and xs
    by (induction xs) (auto simp: List.map_filter_simps split: option.splits)
  have "length (Store_ListByUserID now s u) \<le> length (UserIndex_Get (st_userIndex s) u)"
    unfolding Store_ListByUserID_def foldl_filter_collect
    using le_trans [OF length_filter_le mf] by simp
  also have "\<dots> = card (user_ids (store_abs s) u)"
    using store_count [OF assms, of u] by (simp add: ui.count_length)
  finally show ?thesis .
qed

interpretation mem: session_repository store_session_repo store_token_repo
  "\<lambda>s. store_inv s \<and> st_maxSessionsPerUser s = mx" store_abs mx "\<lambda>_. False" for mx
proof unfold_locales
  fix s s' :: store and sess sess' a b :: session and now v e i j h u
  assume I: "store_inv s \<and> st_maxSessionsPerUser s = mx"
  then have inv: "store_inv s" and mx: "st_maxSessionsPerUser s = mx" by auto
  show "keyed (store_abs s)" by (rule store_invD(4) [OF inv])
  show "store_abs s i = Some a \<Longrightarrow> store_abs s j = Some b \<Longrightarrow> S_TokenHash a = S_TokenHash b \<Longrightarrow>
      S_TokenHash a \<noteq> '''' \<Longrightarrow> i = j"
    by (rule tokens_ok_unique [OF store_invD(5) [OF inv]])
  show "sr_Get store_session_repo now s i = a_Get now (store_abs s) i"
    by (simp add: store_session_repo_def Store_Get_refines)
  show "(store_inv s' \<and> st_maxSessionsPerUser s' = mx) \<and>
      ((store_abs s', e) = a_Create mx (store_abs s) sess \<or> store_abs s' = store_abs s \<and> (\<exists>x. e = Some x \<and> False))"
    if "sr_Create store_session_repo now s sess = (s', e)"
    using Store_Create_refines [OF inv, of sess s' e] that mx by (simp add: store_session_repo_def)
  show "(store_inv s' \<and> st_maxSessionsPerUser s' = mx) \<and>
      ((store_abs s', e) = a_Update (store_abs s) sess v \<and> (e = None \<longrightarrow> sess' = Session_IncrVersion sess) \<or>
       store_abs s' = store_abs s \<and> (\<exists>x. e = Some x \<and> False))"
    if "owner_kept (store_abs s) sess" "sr_Update store_session_repo now s sess v = (s', sess', e)"
  proof -
    have so: "same_owner s sess" and up: "Store_Update s sess v = (s', sess', e)"
      using that by (simp_all add: owner_kept_same_owner store_session_repo_def)
    show ?thesis
      using Store_Update_refines [OF inv up same_ownerD(1) [OF so] Store_Update_same_owner [OF inv so up]] mx
      by blast
  qed
  show "(store_inv s' \<and> st_maxSessionsPerUser s' = mx) \<and>
      ((store_abs s', e) = a_Delete (store_abs s) i \<or> store_abs s' = store_abs s \<and> (\<exists>x. e = Some x \<and> False))"
    if "sr_Delete store_session_repo now s i = (s', e)"
    using Store_Delete_refines [OF inv, of i s' e] that mx by (simp add: store_session_repo_def)
  show "sr_CountByUserID store_session_repo s u = Inr (card (user_ids (store_abs s) u))"
    using store_count [OF inv] by (simp add: store_session_repo_def Store_CountByUserID_def)
  show "\<exists>l. sr_ListByUserID store_session_repo now s u = Inr l \<and>
      set l = {sess. (\<exists>i. store_abs s i = Some sess) \<and> S_UserID sess = u \<and> \<not> Session_IsExpired now sess} \<and>
      length l \<le> card (user_ids (store_abs s) u)"
    using Store_ListByUserID_set [OF inv] Store_ListByUserID_length [OF inv]
    by (simp add: store_session_repo_def)
  show "store_abs s i = Some sess \<Longrightarrow> S_TokenHash sess \<noteq> '''' \<Longrightarrow>
      tr_GetSessionByTokenHash store_token_repo now s (S_TokenHash sess) =
        (s, if Session_IsExpired now sess then Inl ErrSessionExpired else Inr sess)"
    using Store_GetByToken_hit [OF inv] by (simp add: store_token_repo_def Store_GetSessionByTokenHash_def)
  show "h = '''' \<or> \<not> token_used (store_abs s) h \<Longrightarrow>
      tr_GetSessionByTokenHash store_token_repo now s h = (s, Inl ErrTokenInvalid)"
    using Store_GetByToken_miss [OF inv] by (simp add: store_token_repo_def Store_GetSessionByTokenHash_def)
  show "(store_inv s' \<and> st_maxSessionsPerUser s' = mx) \<and>
      ((store_abs s', e) = a_UpdateSession (store_abs s) sess \<or> store_abs s' = store_abs s \<and> (\<exists>x. e = Some x \<and> False))"
    if "owner_kept (store_abs s) sess" "tr_UpdateSession store_token_repo now s sess = (s', e)"
    using Store_UpdateSession_refines [OF inv, of sess s' e] that mx
    by (auto simp: owner_kept_def store_token_repo_def a_UpdateSession_def)
next
  fix s s' :: store and now :: int and u e
  assume I: "store_inv s \<and> st_maxSessionsPerUser s = mx"
  then have inv: "store_inv s" and mx: "st_maxSessionsPerUser s = mx" by auto
  show "(store_inv s' \<and> st_maxSessionsPerUser s' = mx) \<and> store_abs s' = a_DeleteByUserID (store_abs s) u \<and>
      e = Inr (card (user_ids (store_abs s) u))"
    if "sr_DeleteByUserID store_session_repo now s u = (s', e)"
    using Store_DeleteByUserID_refines [OF inv, of u] that mx
    by (auto simp: store_session_repo_def split: prod.splits)
  show "(store_inv s' \<and> st_maxSessionsPerUser s' = mx) \<and> store_abs s' = a_CleanupExpired now (store_abs s) \<and>
      e = Inr (card {i. \<exists>sess. store_abs s i = Some sess \<and> Session_IsExpired now sess})"
    if "sr_DeleteExpired store_session_repo now s = (s', e)"
    using Store_CleanupExpired_refines [OF inv, of now] that mx
    by (auto simp: store_session_repo_def Store_DeleteExpired_def split: prod.splits)
qed

end
