(* ===== verification/Go_Hash.thy ===== *)
theory Go_Hash
  imports Go_Prelude
begin

text \<open>
  Byte-level library functions of Go that the storage formats use: big-endian words
  (\<open>encoding/binary\<close>), \<open>crc32.ChecksumIEEE\<close> (\<open>hash/crc32\<close>) and \<open>sha256.Sum256\<close>
  (\<open>crypto/sha256\<close>, FIPS 180-4). All are executable.
\<close>

section \<open>Big-endian words\<close>

definition PutUint32 :: "u32 \<Rightarrow> bytes" where
  "PutUint32 w = [ucast (drop_bit 24 w), ucast (drop_bit 16 w), ucast (drop_bit 8 w), ucast w]"

definition Uint32 :: "bytes \<Rightarrow> u32" where
  "Uint32 b =
     push_bit 24 (ucast (b ! 0)) OR push_bit 16 (ucast (b ! 1)) OR
     push_bit 8 (ucast (b ! 2)) OR ucast (b ! 3)"

definition PutUint64 :: "u64 \<Rightarrow> bytes" where
  "PutUint64 w = PutUint32 (ucast (drop_bit 32 w)) @ PutUint32 (ucast w)"

lemma PutUint32_length [simp]: "length (PutUint32 w) = 4"
  by (simp add: PutUint32_def)

lemma PutUint64_length [simp]: "length (PutUint64 w) = 8"
  by (simp add: PutUint64_def)

lemma Uint32_PutUint32 [simp]: "Uint32 (PutUint32 w) = w"
proof (rule bit_word_eqI)
  fix n assume "n < LENGTH(32)"
  then consider "n < 8" | "8 \<le> n" "n < 16" | "16 \<le> n" "n < 24" | "24 \<le> n" "n < 32"
    by force
  then show "bit (Uint32 (PutUint32 w)) n = bit w n"
    by cases (auto simp: Uint32_def PutUint32_def bit_simps)
qed

lemma Uint32_append [simp]: "4 \<le> length a \<Longrightarrow> Uint32 (a @ b) = Uint32 a"
  by (cases a rule: list.exhaust) (auto simp: Uint32_def nth_append)

section \<open>CRC-32\<close>

definition crc_bit :: "u32 \<Rightarrow> u32" where
  "crc_bit c = (if bit c 0 then drop_bit 1 c XOR 0xEDB88320 else drop_bit 1 c)"

definition crc_byte :: "u32 \<Rightarrow> byte \<Rightarrow> u32" where
  "crc_byte c b =
     crc_bit (crc_bit (crc_bit (crc_bit (crc_bit (crc_bit (crc_bit (crc_bit (c XOR ucast b))))))))"

definition ChecksumIEEE :: "bytes \<Rightarrow> u32" where
  "ChecksumIEEE bs = NOT (foldl crc_byte 0xFFFFFFFF bs)"

section \<open>SHA-256\<close>

text \<open>The round constants (the first 32 bits of the fractional parts of the cube roots of the first 64
  primes), in decimal and in groups of four.\<close>

definition sha_K :: "u32 list" where
  "sha_K = concat
    [[1116352408, 1899447441, 3049323471, 3921009573],
     [961987163, 1508970993, 2453635748, 2870763221],
     [3624381080, 310598401, 607225278, 1426881987],
     [1925078388, 2162078206, 2614888103, 3248222580],
     [3835390401, 4022224774, 264347078, 604807628],
     [770255983, 1249150122, 1555081692, 1996064986],
     [2554220882, 2821834349, 2952996808, 3210313671],
     [3336571891, 3584528711, 113926993, 338241895],
     [666307205, 773529912, 1294757372, 1396182291],
     [1695183700, 1986661051, 2177026350, 2456956037],
     [2730485921, 2820302411, 3259730800, 3345764771],
     [3516065817, 3600352804, 4094571909, 275423344],
     [430227734, 506948616, 659060556, 883997877],
     [958139571, 1322822218, 1537002063, 1747873779],
     [1955562222, 2024104815, 2227730452, 2361852424],
     [2428436474, 2756734187, 3204031479, 3329325298]]"

definition rotr :: "nat \<Rightarrow> u32 \<Rightarrow> u32" where
  "rotr n x = drop_bit n x OR push_bit (32 - n) x"

definition small_sigma0 :: "u32 \<Rightarrow> u32" where
  "small_sigma0 x = rotr 7 x XOR rotr 18 x XOR drop_bit 3 x"

definition small_sigma1 :: "u32 \<Rightarrow> u32" where
  "small_sigma1 x = rotr 17 x XOR rotr 19 x XOR drop_bit 10 x"

definition big_sigma0 :: "u32 \<Rightarrow> u32" where
  "big_sigma0 x = rotr 2 x XOR rotr 13 x XOR rotr 22 x"

definition big_sigma1 :: "u32 \<Rightarrow> u32" where
  "big_sigma1 x = rotr 6 x XOR rotr 11 x XOR rotr 25 x"

text \<open>The message schedule, newest word first.\<close>

fun sha_schedule :: "nat \<Rightarrow> u32 list \<Rightarrow> u32 list" where
  "sha_schedule 0 ws = ws"
| "sha_schedule (Suc n) ws =
     sha_schedule n
       ((small_sigma1 (ws ! 1) + ws ! 6 + small_sigma0 (ws ! 14) + ws ! 15) # ws)"

fun be_words :: "bytes \<Rightarrow> u32 list" where
  "be_words (a # b # c # d # bs) = Uint32 [a, b, c, d] # be_words bs"
| "be_words _ = []"

type_synonym sha_state = "u32 \<times> u32 \<times> u32 \<times> u32 \<times> u32 \<times> u32 \<times> u32 \<times> u32"

fun sha_round :: "sha_state \<Rightarrow> u32 \<times> u32 \<Rightarrow> sha_state" where
  "sha_round (a, b, c, d, e, f, g, h) (k, w) =
     (let t1 = h + big_sigma1 e + ((e AND f) XOR (NOT e AND g)) + k + w;
          t2 = big_sigma0 a + ((a AND b) XOR (a AND c) XOR (b AND c))
      in (t1 + t2, a, b, c, d + t1, e, f, g))"

fun sha_add :: "sha_state \<Rightarrow> sha_state \<Rightarrow> sha_state" where
  "sha_add (a, b, c, d, e, f, g, h) (a', b', c', d', e', f', g', h') =
     (a + a', b + b', c + c', d + d', e + e', f + f', g + g', h + h')"

definition sha_block :: "sha_state \<Rightarrow> bytes \<Rightarrow> sha_state" where
  "sha_block st blk =
     sha_add st (foldl sha_round st
       (zip sha_K (rev (sha_schedule 48 (rev (be_words blk))))))"

function sha_blocks :: "sha_state \<Rightarrow> bytes \<Rightarrow> sha_state" where
  "sha_blocks st bs = (if length bs < 64 then st
                       else sha_blocks (sha_block st (take 64 bs)) (drop 64 bs))"
  by pat_completeness auto
termination
  by (relation "measure (\<lambda>(st, bs). length bs)") auto

definition sha_init :: sha_state where
  "sha_init = (0x6a09e667, 0xbb67ae85, 0x3c6ef372, 0xa54ff53a,
               0x510e527f, 0x9b05688c, 0x1f83d9ab, 0x5be0cd19)"

definition sha_pad :: "bytes \<Rightarrow> bytes" where
  "sha_pad bs = bs @ [0x80] @ replicate ((119 - length bs mod 64) mod 64) 0 @
                PutUint64 (of_nat (8 * length bs))"

definition Sum256 :: "bytes \<Rightarrow> bytes" where
  "Sum256 bs = (case sha_blocks sha_init (sha_pad bs) of
     (a, b, c, d, e, f, g, h) \<Rightarrow> concat (map PutUint32 [a, b, c, d, e, f, g, h]))"

declare sha_blocks.simps [simp del]

lemma Sum256_length [simp]: "length (Sum256 bs) = 32"
  by (simp add: Sum256_def split: prod.splits)

end
