(* ===== verification/Domain_Token.thy ===== *)
theory Domain_Token
  imports Domain_Errors Go_Strings Go_Hash
begin

text \<open>
  Session tokens and their hashes, \<open>internal/core/domain/token.go\<close>. The bytes drawn by
  \<open>crypto/rand\<close> are the argument \<open>rnd\<close>, or the error of the read. Base64, hexadecimal
  and SHA-256 are the definitions of \<open>Go_Strings\<close> and \<open>Go_Hash\<close>.
\<close>

section \<open>Definitions\<close>

abbreviation TokenPrefix :: string where "TokenPrefix \<equiv> ''tmtk_''"
abbreviation TokenHashPrefix :: string where "TokenHashPrefix \<equiv> ''tmth_''"
abbreviation TokenBytesLength :: nat where "TokenBytesLength \<equiv> 32"
abbreviation TokenBodyLength :: nat where "TokenBodyLength \<equiv> 43"
abbreviation TokenLength :: nat where "TokenLength \<equiv> 5 + TokenBodyLength"
abbreviation TokenHashLength :: nat where "TokenHashLength \<equiv> 5 + 64"

definition HashToken :: "string \<Rightarrow> string" where
  "HashToken plaintext =
     TokenHashPrefix @ hex_EncodeToString (Sum256 (bytes_of_string plaintext))"

definition GenerateToken :: "go_error + bytes \<Rightarrow> go_error + string \<times> string" where
  "GenerateToken rnd =
     (case rnd of
        Inl err \<Rightarrow> Inl (WithCause ErrInternalServer err)
      | Inr bs \<Rightarrow>
          (let plaintext = TokenPrefix @ b64_encode url_alphabet bs
           in Inr (plaintext, HashToken plaintext)))"

definition ValidateTokenFormat :: "string \<Rightarrow> bool" where
  "ValidateTokenFormat token =
     (if length token \<noteq> TokenLength then False
      else if \<not> HasPrefix token TokenPrefix then False
      else let body = drop (length TokenPrefix) token in
           if length body \<noteq> TokenBodyLength then False
           else b64_decode url_alphabet body \<noteq> None)"

definition ValidateTokenHashFormat :: "ext \<Rightarrow> string \<Rightarrow> bool" where
  "ValidateTokenHashFormat X hash =
     (if length hash \<noteq> TokenHashLength then False
      else if \<not> HasPrefix (ToLower X hash) TokenHashPrefix then False
      else hex_DecodeString (drop (length TokenHashPrefix) hash) \<noteq> None)"

definition NormalizeTokenHash :: "ext \<Rightarrow> string \<Rightarrow> string" where
  "NormalizeTokenHash X hash =
     (let normalized = ToLower X hash in
      if \<not> ValidateTokenHashFormat X normalized then '''' else normalized)"

record token =
  T_Hash :: string
  T_SessionID :: string

definition NewToken :: "string \<Rightarrow> string \<Rightarrow> token" where
  "NewToken hash sessionID = \<lparr> T_Hash = hash, T_SessionID = sessionID \<rparr>"

definition Token_IsValidHash :: "ext \<Rightarrow> token \<Rightarrow> bool" where
  "Token_IsValidHash X t = ValidateTokenHashFormat X (T_Hash t)"

definition ExtractTokenBody :: "string \<Rightarrow> string" where
  "ExtractTokenBody token =
     (if \<not> HasPrefix token TokenPrefix then '''' else drop (length TokenPrefix) token)"

definition ExtractHashBody :: "string \<Rightarrow> string" where
  "ExtractHashBody hash =
     (if \<not> HasPrefix hash TokenHashPrefix then '''' else drop (length TokenHashPrefix) hash)"

definition MaskToken :: "string \<Rightarrow> string" where
  "MaskToken token =
     (if length token < 10 then ''***REDACTED***''
      else if HasPrefix token TokenPrefix \<or> HasPrefix token ''tmas_'' then
        (let prefix = take 5 token; body = drop 5 token in
         if length body > 6 then prefix @ take 3 body @ ''...'' @ drop (length body - 3) body
         else prefix @ ''***'')
      else ''***REDACTED***'')"

section \<open>Lemmas\<close>

lemma HashToken_length [simp]: "length (HashToken p) = TokenHashLength"
  by (simp add: HashToken_def)

lemma HashToken_nonempty [simp]: "HashToken p \<noteq> ''''"
  by (simp add: HashToken_def)

lemma HashToken_ascii: "is_ascii (HashToken p)"
  by (simp add: HashToken_def is_ascii_def [of "''tmth_''"] flip: append.simps)

lemma HashToken_lower: "ToLower X (HashToken p) = HashToken p"
  using HashToken_ascii [of p] by (simp add: ToLower_def) (simp add: HashToken_def lower_char_def)

lemma HashToken_eq_iff:
  "HashToken p = HashToken q \<longleftrightarrow> Sum256 (bytes_of_string p) = Sum256 (bytes_of_string q)"
  by (simp add: HashToken_def hex.encode_inj)

lemma HashToken_valid: "ValidateTokenHashFormat X (HashToken p)"
  by (simp add: ValidateTokenHashFormat_def HashToken_lower)
    (simp add: HashToken_def HasPrefix_def hex.decode_encode)

lemma NormalizeTokenHash_HashToken: "NormalizeTokenHash X (HashToken p) = HashToken p"
  by (simp add: NormalizeTokenHash_def HashToken_lower HashToken_valid)

lemma GenerateToken_Inr:
  "GenerateToken rnd = Inr (p, h) \<longleftrightarrow>
     (\<exists>bs. rnd = Inr bs \<and> p = TokenPrefix @ b64_encode url_alphabet bs \<and> h = HashToken p)"
  by (auto simp: GenerateToken_def Let_def split: sum.splits)

lemma GenerateToken_valid:
  assumes "GenerateToken (Inr bs) = Inr (p, h)" "length bs = TokenBytesLength"
  shows "ValidateTokenFormat p" "ValidateTokenHashFormat X h" "h = HashToken p"
    "b64_decode url_alphabet (ExtractTokenBody p) = Some bs"
  using assms
  by (auto simp: GenerateToken_Inr ValidateTokenFormat_def HasPrefix_def b64_encode_length
      rawurl.decode_encode HashToken_valid ExtractTokenBody_def)

lemma GenerateToken_inj:
  assumes "GenerateToken (Inr bs) = Inr (p, h)" "GenerateToken (Inr bs') = Inr (p', h')"
  shows "p = p' \<longleftrightarrow> bs = bs'"
  using assms by (auto simp: GenerateToken_Inr rawurl.encode_inj)

lemma ExtractTokenBody_valid:
  "ValidateTokenFormat t \<Longrightarrow> length (ExtractTokenBody t) = TokenBodyLength \<and> t = TokenPrefix @ ExtractTokenBody t"
  by (auto simp: ValidateTokenFormat_def ExtractTokenBody_def HasPrefix_iff split: if_splits)

text \<open>Masking shows at most the five characters of the prefix and six of the body.\<close>

lemma MaskToken_length: "length (MaskToken t) \<le> 14"
  by (auto simp: MaskToken_def Let_def)

lemma MaskToken_same_visible:
  assumes "length t = length t'" "take 8 t = take 8 t'" "drop (length t - 3) t = drop (length t' - 3) t'"
  shows "MaskToken t = MaskToken t'"
proof -
  have five: "take 5 t = take 5 t'"
    using arg_cong [OF assms(2), of "take 5"] by simp
  have three: "take 3 (drop 5 t) = take 3 (drop 5 t')"
    using arg_cong [OF assms(2), of "drop 5"] by (simp add: drop_take)
  have "HasPrefix t p = HasPrefix t' p" if "length p = 5" for p
    using five that by (simp add: HasPrefix_def)
  moreover have "drop (length t - 8) (drop 5 t) = drop (length t' - 8) (drop 5 t')" if "length t > 11"
    using assms that by simp
  ultimately show ?thesis
    using assms(1) five three by (simp add: MaskToken_def Let_def)
qed

section \<open>Properties\<close>

text \<open>A generated token is accepted, its hash is the one that the service computes for it and has
  the format of a hash, and the 32 random bytes are recovered from its body, so two draws give the same
  token only when the bytes agree.\<close>

lemma generated_token_accepted:
  assumes "length bs = 32"
  shows "\<exists>p h. GenerateToken (Inr bs) = Inr (p, h) \<and> ValidateTokenFormat p \<and> h = HashToken p \<and>
    ValidateTokenHashFormat X h \<and> NormalizeTokenHash X h = h \<and>
    b64_decode url_alphabet (ExtractTokenBody p) = Some bs"
proof -
  obtain p h where g: "GenerateToken (Inr bs) = Inr (p, h)" by (simp add: GenerateToken_def Let_def)
  show ?thesis
    using g GenerateToken_valid [OF g assms] NormalizeTokenHash_HashToken [of X p] by blast
qed

end
