(* ===== verification/Domain_APIKey.thy ===== *)
theory Domain_APIKey
  imports Domain_Session
begin

text \<open>
  API keys, \<open>internal/core/domain/apikey.go\<close>: roles and the permission table, the key entity,
  its clock predicates, secret rotation with a grace period, and validation. Roles, statuses
  and permissions are strings, as their Go types are. Random bytes, the ULID and the Argon2
  function are arguments.
\<close>

section \<open>Roles, statuses and permissions\<close>

abbreviation APIKeyIDPrefix :: string where "APIKeyIDPrefix \<equiv> ''tmak-''"
abbreviation APIKeySecretPrefix :: string where "APIKeySecretPrefix \<equiv> ''tmas_''"
abbreviation Argon2Memory :: u32 where "Argon2Memory \<equiv> 16384"
abbreviation Argon2Time :: u32 where "Argon2Time \<equiv> 2"
abbreviation Argon2Parallelism :: byte where "Argon2Parallelism \<equiv> 2"
abbreviation Argon2KeyLen :: u32 where "Argon2KeyLen \<equiv> 32"
abbreviation Argon2SaltLen :: nat where "Argon2SaltLen \<equiv> 16"

abbreviation RoleMetrics :: string where "RoleMetrics \<equiv> ''metrics''"
abbreviation RoleValidator :: string where "RoleValidator \<equiv> ''validator''"
abbreviation RoleIssuer :: string where "RoleIssuer \<equiv> ''issuer''"
abbreviation RoleAdmin :: string where "RoleAdmin \<equiv> ''admin''"

abbreviation KeyStatusActive :: string where "KeyStatusActive \<equiv> ''active''"
abbreviation KeyStatusDisabled :: string where "KeyStatusDisabled \<equiv> ''disabled''"

definition ValidRoles :: "string list" where
  "ValidRoles = [RoleMetrics, RoleValidator, RoleIssuer, RoleAdmin]"

definition IsValidRole :: "string \<Rightarrow> bool" where
  "IsValidRole r \<longleftrightarrow> r = RoleMetrics \<or> r = RoleValidator \<or> r = RoleIssuer \<or> r = RoleAdmin"

definition ValidKeyStatuses :: "string list" where
  "ValidKeyStatuses = [KeyStatusActive, KeyStatusDisabled]"

definition IsValidKeyStatus :: "string \<Rightarrow> bool" where
  "IsValidKeyStatus s \<longleftrightarrow> s = KeyStatusActive \<or> s = KeyStatusDisabled"

definition PermSessionCreate :: string where "PermSessionCreate = ''session.create''"
definition PermSessionRead :: string where "PermSessionRead = ''session.read''"
definition PermSessionRenew :: string where "PermSessionRenew = ''session.renew''"
definition PermSessionRevoke :: string where "PermSessionRevoke = ''session.revoke''"
definition PermSessionRevokeAll :: string where "PermSessionRevokeAll = ''session.revoke_all''"
definition PermSessionList :: string where "PermSessionList = ''session.list''"
definition PermTokenValidate :: string where "PermTokenValidate = ''token.validate''"
definition PermAPIKeyCreate :: string where "PermAPIKeyCreate = ''apikey.create''"
definition PermAPIKeyRead :: string where "PermAPIKeyRead = ''apikey.read''"
definition PermAPIKeyList :: string where "PermAPIKeyList = ''apikey.list''"
definition PermAPIKeyDisable :: string where "PermAPIKeyDisable = ''apikey.disable''"
definition PermAPIKeyEnable :: string where "PermAPIKeyEnable = ''apikey.enable''"
definition PermAPIKeyRotate :: string where "PermAPIKeyRotate = ''apikey.rotate''"
definition PermSystemStatus :: string where "PermSystemStatus = ''system.status''"
definition PermSystemHealth :: string where "PermSystemHealth = ''system.health''"
definition PermSystemGC :: string where "PermSystemGC = ''system.gc''"
definition PermSystemBackup :: string where "PermSystemBackup = ''system.backup''"
definition PermSystemRestore :: string where "PermSystemRestore = ''system.restore''"
definition PermSystemConfig :: string where "PermSystemConfig = ''system.config''"
definition PermMetricsRead :: string where "PermMetricsRead = ''metrics.read''"

lemmas Perm_defs =
  PermSessionCreate_def PermSessionRead_def PermSessionRenew_def PermSessionRevoke_def
  PermSessionRevokeAll_def PermSessionList_def PermTokenValidate_def PermAPIKeyCreate_def
  PermAPIKeyRead_def PermAPIKeyList_def PermAPIKeyDisable_def PermAPIKeyEnable_def
  PermAPIKeyRotate_def PermSystemStatus_def PermSystemHealth_def PermSystemGC_def
  PermSystemBackup_def PermSystemRestore_def PermSystemConfig_def PermMetricsRead_def

definition rolePermissions :: "(string, string list) gomap" where
  "rolePermissions =
    [(RoleMetrics, [PermMetricsRead]),
     (RoleValidator, [PermTokenValidate, PermSessionRead, PermSessionList, PermMetricsRead]),
     (RoleIssuer,
       [PermTokenValidate, PermSessionCreate, PermSessionRead, PermSessionRenew, PermSessionRevoke,
        PermSessionList, PermMetricsRead]),
     (RoleAdmin,
       [PermSessionCreate, PermSessionRead, PermSessionRenew, PermSessionRevoke, PermSessionRevokeAll,
        PermSessionList, PermTokenValidate, PermAPIKeyCreate, PermAPIKeyRead, PermAPIKeyList,
        PermAPIKeyDisable, PermAPIKeyEnable, PermAPIKeyRotate, PermSystemStatus, PermSystemHealth,
        PermSystemGC, PermSystemBackup, PermSystemRestore, PermSystemConfig, PermMetricsRead])]"

fun contains_perm :: "string list \<Rightarrow> string \<Rightarrow> bool" where
  "contains_perm [] perm = False"
| "contains_perm (p # ps) perm = (if p = perm then True else contains_perm ps perm)"

definition HasPermission :: "string \<Rightarrow> string \<Rightarrow> bool" where
  "HasPermission role perm =
     (case gm_get rolePermissions role of
        None \<Rightarrow> False
      | Some permissions \<Rightarrow> contains_perm permissions perm)"

definition GetPermissions :: "string \<Rightarrow> string list option" where
  "GetPermissions role = gm_get rolePermissions role"

definition RoleHierarchy :: "string \<Rightarrow> int" where
  "RoleHierarchy role =
     (if role = RoleMetrics then 1 else if role = RoleValidator then 2
      else if role = RoleIssuer then 3 else if role = RoleAdmin then 4 else 0)"

definition IsRoleAtLeast :: "string \<Rightarrow> string \<Rightarrow> bool" where
  "IsRoleAtLeast role required \<longleftrightarrow> RoleHierarchy role \<ge> RoleHierarchy required"

section \<open>Identifiers and masking\<close>

definition IsValidAPIKeyID :: "ext \<Rightarrow> string \<Rightarrow> bool" where
  "IsValidAPIKeyID X i0 =
     (let i = ToLower X i0 in
      if \<not> HasPrefix i APIKeyIDPrefix then False
      else if length i \<noteq> 31 then False
      else ulid_Parse X (ToUpper X (drop (length APIKeyIDPrefix) i)))"

definition NormalizeAPIKeyID :: "ext \<Rightarrow> string \<Rightarrow> string" where
  "NormalizeAPIKeyID X i =
     (let normalized = ToLower X i in
      if \<not> IsValidAPIKeyID X normalized then '''' else normalized)"

definition MaskAPIKeySecret :: "string \<Rightarrow> string" where
  "MaskAPIKeySecret secret =
     (if length secret < 10 then ''***REDACTED***''
      else if HasPrefix secret APIKeySecretPrefix then
        (let prefix = take 5 secret; body = drop 5 secret in
         if length body > 6 then prefix @ take 3 body @ ''...'' @ drop (length body - 3) body
         else prefix @ ''***'')
      else ''***REDACTED***'')"

section \<open>The key entity\<close>

record apikey =
  K_KeyID :: string
  K_Name :: string
  K_SecretHash :: string
  K_OldSecretHash :: string
  K_GracePeriodEnd :: int
  K_Role :: string
  K_Allowlist :: "string list"
  K_RateLimit :: int
  K_ExpiresAt :: int
  K_Status :: string
  K_Description :: string
  K_CreatedAt :: int
  K_CreatedBy :: string
  K_LastUsed :: int
  K_Version :: u64

definition APIKey_zero :: apikey where
  "APIKey_zero = \<lparr> K_KeyID = '''', K_Name = '''', K_SecretHash = '''', K_OldSecretHash = '''',
     K_GracePeriodEnd = 0, K_Role = '''', K_Allowlist = [], K_RateLimit = 0, K_ExpiresAt = 0,
     K_Status = '''', K_Description = '''', K_CreatedAt = 0, K_CreatedBy = '''', K_LastUsed = 0,
     K_Version = 0 \<rparr>"

abbreviation MaxAllowlistEntries :: nat where "MaxAllowlistEntries \<equiv> 100"
abbreviation MaxDescriptionLength :: nat where "MaxDescriptionLength \<equiv> 256"
abbreviation MinRateLimit :: int where "MinRateLimit \<equiv> 1"
abbreviation MaxRateLimit :: int where "MaxRateLimit \<equiv> 1000000"
abbreviation SecretLength :: nat where "SecretLength \<equiv> 32"
abbreviation GracePeriodDuration :: int where "GracePeriodDuration \<equiv> 24 * Hour"

abbreviation argon2_header :: string where
  "argon2_header \<equiv> ''$argon2id$v=19$m=16384,t=2,p=2$''"

definition hashSecret :: "ext \<Rightarrow> go_error + bytes \<Rightarrow> string \<Rightarrow> go_error + string" where
  "hashSecret X rnd secret =
     (case rnd of
        Inl err \<Rightarrow> Inl err
      | Inr salt \<Rightarrow>
          (let hash = argon2_IDKey X (bytes_of_string secret) salt Argon2Time Argon2Memory
                        Argon2Parallelism Argon2KeyLen;
               saltB64 = b64_encode std_alphabet salt;
               hashB64 = b64_encode std_alphabet hash
           in Inr (argon2_header @ saltB64 @ ''$'' @ hashB64)))"

definition NewAPIKey ::
  "ext \<Rightarrow> int \<Rightarrow> go_error + string \<Rightarrow> go_error + bytes \<Rightarrow> go_error + bytes \<Rightarrow> string \<Rightarrow> string
     \<Rightarrow> go_error + apikey \<times> string" where
  "NewAPIKey X now ulid rnd salt name role =
     (case ulid of
        Inl err \<Rightarrow> Inl (WithCause ErrInternalServer err)
      | Inr u \<Rightarrow>
     (case rnd of
        Inl err \<Rightarrow> Inl (WithCause ErrInternalServer err)
      | Inr secretBytes \<Rightarrow>
     (let keyID = APIKeyIDPrefix @ ToLower X u;
          plainSecret = APIKeySecretPrefix @ b64_encode url_alphabet secretBytes in
      case hashSecret X salt plainSecret of
        Inl err \<Rightarrow> Inl (WithCause ErrInternalServer err)
      | Inr secretHash \<Rightarrow>
          Inr (APIKey_zero \<lparr> K_KeyID := keyID, K_Name := name, K_SecretHash := secretHash,
                 K_Role := role, K_Status := KeyStatusActive, K_RateLimit := 1000,
                 K_CreatedAt := UnixMilli now, K_Version := 1 \<rparr>, plainSecret))))"

definition APIKey_IsExpired :: "int \<Rightarrow> apikey \<Rightarrow> bool" where
  "APIKey_IsExpired now k = (if K_ExpiresAt k = 0 then False else UnixMilli now > K_ExpiresAt k)"

definition APIKey_IsActive :: "int \<Rightarrow> apikey \<Rightarrow> bool" where
  "APIKey_IsActive now k \<longleftrightarrow> K_Status k = KeyStatusActive \<and> \<not> APIKey_IsExpired now k"

definition APIKey_IsInGracePeriod :: "int \<Rightarrow> apikey \<Rightarrow> bool" where
  "APIKey_IsInGracePeriod now k =
     (if K_GracePeriodEnd k = 0 \<or> K_OldSecretHash k = '''' then False
      else UnixMilli now < K_GracePeriodEnd k)"

definition APIKey_Touch :: "int \<Rightarrow> apikey \<Rightarrow> apikey" where
  "APIKey_Touch now k = k \<lparr> K_LastUsed := UnixMilli now \<rparr>"

definition APIKey_IncrVersion :: "apikey \<Rightarrow> apikey" where
  "APIKey_IncrVersion k = k \<lparr> K_Version := K_Version k + 1 \<rparr>"

definition APIKey_RotateSecret ::
  "ext \<Rightarrow> int \<Rightarrow> go_error + bytes \<Rightarrow> go_error + bytes \<Rightarrow> apikey \<Rightarrow> go_error + apikey \<times> string" where
  "APIKey_RotateSecret X now rnd salt k =
     (case rnd of
        Inl err \<Rightarrow> Inl (WithCause ErrInternalServer err)
      | Inr secretBytes \<Rightarrow>
     (let newSecret = APIKeySecretPrefix @ b64_encode url_alphabet secretBytes in
      case hashSecret X salt newSecret of
        Inl err \<Rightarrow> Inl (WithCause ErrInternalServer err)
      | Inr newHash \<Rightarrow>
          Inr (APIKey_IncrVersion
                 (k \<lparr> K_OldSecretHash := K_SecretHash k, K_SecretHash := newHash,
                      K_GracePeriodEnd := i64 (UnixMilli now + Milliseconds GracePeriodDuration) \<rparr>),
               newSecret)))"

definition APIKey_CreatedAtTime :: "apikey \<Rightarrow> int" where
  "APIKey_CreatedAtTime k = time_UnixMilli (K_CreatedAt k)"

definition APIKey_LastUsedAtTime :: "apikey \<Rightarrow> int" where
  "APIKey_LastUsedAtTime k =
     (if K_LastUsed k = 0 then time_zero else time_UnixMilli (K_LastUsed k))"

definition APIKey_violations :: "ext \<Rightarrow> apikey \<Rightarrow> string list" where
  "APIKey_violations X k =
     (if K_KeyID k = '''' then [''key_id is required'']
      else if \<not> IsValidAPIKeyID X (K_KeyID k) then [''key_id format invalid''] else []) @
     (if K_SecretHash k = '''' then [''secret_hash is required''] else []) @
     (if \<not> IsValidRole (K_Role k) then [''invalid role''] else []) @
     (if \<not> IsValidKeyStatus (K_Status k) then [''invalid status''] else []) @
     (if length (K_Allowlist k) > MaxAllowlistEntries then [''allowlist exceeds 100 entries'']
      else []) @
     (if K_RateLimit k < MinRateLimit \<or> K_RateLimit k > MaxRateLimit
      then [''rate_limit must be between 1 and 1,000,000''] else []) @
     (if length (K_Description k) > MaxDescriptionLength then [''description exceeds 256 characters'']
      else [])"

definition APIKey_Validate :: "ext \<Rightarrow> apikey \<Rightarrow> go_error option" where
  "APIKey_Validate X k =
     (let violations = APIKey_violations X k in
      if violations \<noteq> [] then Some (WithDetails ErrAPIKeyValidation (strings_Join violations ''; ''))
      else None)"

section \<open>Lemmas\<close>

lemma contains_perm_set: "contains_perm ps p \<longleftrightarrow> p \<in> set ps"
  by (induction ps) auto

lemma IsValidRole_ValidRoles: "IsValidRole r \<longleftrightarrow> r \<in> set ValidRoles"
  by (auto simp: IsValidRole_def ValidRoles_def)

lemma rolePermissions_valid: "gm_get rolePermissions r \<noteq> None \<longleftrightarrow> IsValidRole r"
  by (auto simp: rolePermissions_def gm_get_def IsValidRole_def)

lemma HasPermission_role: "HasPermission r p \<Longrightarrow> IsValidRole r"
  using rolePermissions_valid [of r] by (auto simp: HasPermission_def split: option.splits)

lemma RoleHierarchy_pos: "0 < RoleHierarchy r \<longleftrightarrow> IsValidRole r"
  by (simp add: RoleHierarchy_def IsValidRole_def)

lemma role_perm_sets:
  "HasPermission RoleMetrics p \<longleftrightarrow> p = PermMetricsRead"
  "HasPermission RoleValidator p \<longleftrightarrow>
     p \<in> {PermTokenValidate, PermSessionRead, PermSessionList, PermMetricsRead}"
  "HasPermission RoleIssuer p \<longleftrightarrow>
     p \<in> {PermTokenValidate, PermSessionRead, PermSessionList, PermMetricsRead,
          PermSessionCreate, PermSessionRenew, PermSessionRevoke}"
  by (auto simp: HasPermission_def rolePermissions_def gm_get_def contains_perm_set)

lemma admin_has_all_of_issuer: "HasPermission RoleIssuer p \<Longrightarrow> HasPermission RoleAdmin p"
  by (auto simp: HasPermission_def rolePermissions_def gm_get_def contains_perm_set)

lemma IsRoleAtLeast_inherits:
  assumes "IsValidRole required" "IsRoleAtLeast role required" "HasPermission required p"
  shows "HasPermission role p"
proof -
  have "(role, required) \<in>
      Id \<union> {(RoleValidator, RoleMetrics), (RoleIssuer, RoleMetrics), (RoleAdmin, RoleMetrics),
        (RoleIssuer, RoleValidator), (RoleAdmin, RoleValidator), (RoleAdmin, RoleIssuer)}"
    using assms(1,2) by (auto simp: IsValidRole_def IsRoleAtLeast_def RoleHierarchy_def split: if_splits)
  then show ?thesis
    using assms(3) admin_has_all_of_issuer [of p] by (auto simp: role_perm_sets)
qed

lemma APIKey_Validate_None:
  "APIKey_Validate X k = None \<longleftrightarrow>
     K_KeyID k \<noteq> '''' \<and> IsValidAPIKeyID X (K_KeyID k) \<and> K_SecretHash k \<noteq> '''' \<and>
     IsValidRole (K_Role k) \<and> IsValidKeyStatus (K_Status k) \<and>
     length (K_Allowlist k) \<le> MaxAllowlistEntries \<and> K_RateLimit k \<in> {MinRateLimit..MaxRateLimit} \<and>
     length (K_Description k) \<le> MaxDescriptionLength"
  by (auto simp: APIKey_Validate_def APIKey_violations_def Let_def)

lemma IsValidAPIKeyID_generated:
  assumes u: "ulid_text u" and parse: "ulid_Parse X u"
  shows "IsValidAPIKeyID X (APIKeyIDPrefix @ ToLower X u)"
proof -
  have p: "is_ascii APIKeyIDPrefix" "map lower_char APIKeyIDPrefix = APIKeyIDPrefix"
    by (simp_all add: is_ascii_def lower_char_def)
  show ?thesis
    using prefixed_id_valid [OF u p] parse ulid_text_ascii [OF u]
    by (simp add: IsValidAPIKeyID_def HasPrefix_def Let_def)
qed

lemma hashSecret_Inr:
  "hashSecret X rnd secret = Inr h \<longleftrightarrow>
     (\<exists>salt. rnd = Inr salt \<and>
        h = argon2_header @ b64_encode std_alphabet salt @ ''$'' @
            b64_encode std_alphabet (argon2_IDKey X (bytes_of_string secret) salt Argon2Time
              Argon2Memory Argon2Parallelism Argon2KeyLen))"
  by (auto simp: hashSecret_def Let_def split: sum.splits)

lemma NewAPIKey_Inr:
  assumes "NewAPIKey X now (Inr u) (Inr rnd) (Inr salt) name role = Inr (k, secret)"
  shows "K_KeyID k = APIKeyIDPrefix @ ToLower X u" "K_Role k = role" "K_Status k = KeyStatusActive"
    "K_Name k = name" "K_RateLimit k = 1000" "K_Allowlist k = []" "K_Description k = ''''"
    "hashSecret X (Inr salt) secret = Inr (K_SecretHash k)" "K_ExpiresAt k = 0"
    "K_SecretHash k \<noteq> ''''" "secret = APIKeySecretPrefix @ b64_encode url_alphabet rnd"
  using assms by (auto simp: NewAPIKey_def Let_def hashSecret_Inr APIKey_zero_def split: sum.splits)

lemma NewAPIKey_validates:
  assumes "NewAPIKey X now (Inr u) (Inr rnd) (Inr salt) name role = Inr (k, secret)"
    and "ulid_text u" "ulid_Parse X u" "IsValidRole role"
  shows "APIKey_Validate X k = None"
  using NewAPIKey_Inr [OF assms(1)] IsValidAPIKeyID_generated [OF assms(2,3)] assms(4)
  by (simp add: APIKey_Validate_None IsValidKeyStatus_def)

lemma APIKey_RotateSecret_Inr:
  assumes "APIKey_RotateSecret X now rnd salt k = Inr (k', secret)"
  shows "K_OldSecretHash k' = K_SecretHash k" "hashSecret X salt secret = Inr (K_SecretHash k')"
    "K_GracePeriodEnd k' = i64 (UnixMilli now + 86400000)" "K_Version k' = K_Version k + 1"
    "K_KeyID k' = K_KeyID k" "K_Status k' = K_Status k" "K_Role k' = K_Role k"
    "K_ExpiresAt k' = K_ExpiresAt k" "K_Allowlist k' = K_Allowlist k"
  using assms
  by (auto simp: APIKey_RotateSecret_def APIKey_IncrVersion_def Let_def Milliseconds_def go_div_def
      split: sum.splits)

lemma RotateSecret_grace:
  assumes "APIKey_RotateSecret X now rnd salt k = Inr (k', secret)"
    and "K_SecretHash k \<noteq> ''''" "0 \<le> now" "now \<le> t" "in_i64 (UnixMilli now + 86400000)"
  shows "APIKey_IsInGracePeriod t k' \<longleftrightarrow> UnixMilli t < UnixMilli now + 86400000"
  using APIKey_RotateSecret_Inr [OF assms(1)] assms(2-5)
  by (auto simp: APIKey_IsInGracePeriod_def i64_id UnixMilli_def)

section \<open>Properties\<close>

text \<open>The role hierarchy is an inclusion of permissions: a role that is at least a required role
  has every permission of it.\<close>

lemma role_hierarchy_inherits:
  assumes "IsValidRole required" "IsRoleAtLeast role required" "HasPermission required p"
  shows "HasPermission role p"
  using IsRoleAtLeast_inherits [OF assms] .

end
