(* ===== verification/Lru_Cache.thy ===== *)
theory Lru_Cache
  imports Domain_APIKey
begin

text \<open>
  The two LRU caches of the service layer: \<open>NonceCache\<close> of
  \<open>internal/core/service/token.go\<close> (anti-replay) and \<open>APIKeyCache\<close> of \<open>service/auth.go\<close>.
  Both hold a Go map from keys to the elements of a \<open>container/list\<close> and the list itself, front
  first. A list element is identified with the entry it holds; an element that is changed in
  place is replaced in the map and in the list. Each method holds the cache's lock for its whole
  body, so it is one step. The eviction loop, which need not end, is a partial function: not
  returning is \<open>None\<close>.

  The locale \<open>bounded_cache\<close> is what the services rely on: with a positive capacity an
  insertion returns, the key is there afterwards, and the size never exceeds the capacity.
\<close>

section \<open>Elements of a list\<close>

definition MoveToFront :: "'e \<Rightarrow> 'e list \<Rightarrow> 'e list" where
  "MoveToFront e order = (if e \<in> set order then e # remove1 e order else order)"

definition PushFront :: "'e \<Rightarrow> 'e list \<Rightarrow> 'e list" where
  "PushFront e order = e # order"

definition list_Remove :: "'e \<Rightarrow> 'e list \<Rightarrow> 'e list" where
  "list_Remove e order = remove1 e order"

record nonce_entry =
  N_nonce :: string
  N_createdAt :: int

record cache_entry =
  C_keyID :: string
  C_key :: apikey
  C_expiresAt :: int

record 'e lru =
  L_items :: "(string, 'e) gomap"
  L_order :: "'e list"
  L_capacity :: int
  L_ttl :: int

type_synonym nonce_cache = "nonce_entry lru"
type_synonym apikey_cache = "cache_entry lru"

text \<open>Dropping an element from both views.\<close>

definition lru_drop :: "string \<Rightarrow> 'e \<Rightarrow> 'e lru \<Rightarrow> 'e lru" where
  "lru_drop k e c =
     c \<lparr> L_order := list_Remove e (L_order c), L_items := gm_del k (L_items c) \<rparr>"

text \<open>The loop \<open>for c.order.Len() >= c.capacity\<close>: when the list is empty nothing is removed
  and the condition is tested again.\<close>

partial_function (option) evict_loop :: "('e \<Rightarrow> string) \<Rightarrow> 'e lru \<Rightarrow> 'e lru option" where
  "evict_loop key c =
     (if int (length (L_order c)) \<ge> L_capacity c then
        (if L_order c = [] then evict_loop key c
         else evict_loop key (lru_drop (key (last (L_order c))) (last (L_order c)) c))
      else Some c)"

declare evict_loop.simps [code]

section \<open>NonceCache\<close>

definition NewNonceCache :: "int \<Rightarrow> int \<Rightarrow> nonce_cache" where
  "NewNonceCache capacity ttl =
     \<lparr> L_items = [], L_order = [], L_capacity = capacity, L_ttl = ttl \<rparr>"

definition NonceCache_Contains :: "int \<Rightarrow> nonce_cache \<Rightarrow> string \<Rightarrow> nonce_cache \<times> bool" where
  "NonceCache_Contains now c nonce =
     (case gm_get (L_items c) nonce of
        None \<Rightarrow> (c, False)
      | Some e \<Rightarrow>
          if now - N_createdAt e \<ge> L_ttl c then (lru_drop nonce e c, False)
          else (c \<lparr> L_order := MoveToFront e (L_order c) \<rparr>, True))"

definition cleanupExpiredLocked :: "int \<Rightarrow> nonce_cache \<Rightarrow> nonce_cache" where
  "cleanupExpiredLocked now c =
     (let toRemove = filter (\<lambda>e. now - N_createdAt e \<ge> L_ttl c) (rev (L_order c))
      in foldl (\<lambda>c e. lru_drop (N_nonce e) e c) c toRemove)"

definition addLocked :: "int \<Rightarrow> nonce_cache \<Rightarrow> string \<Rightarrow> nonce_cache option" where
  "addLocked now c nonce =
     (case gm_get (L_items c) nonce of
        Some e \<Rightarrow> Some (c \<lparr> L_order := MoveToFront e (L_order c) \<rparr>)
      | None \<Rightarrow>
          map_option (\<lambda>c.
            (let e = \<lparr> N_nonce = nonce, N_createdAt = now \<rparr> in
             c \<lparr> L_order := PushFront e (L_order c), L_items := gm_set nonce e (L_items c) \<rparr>))
            (evict_loop N_nonce (cleanupExpiredLocked now c)))"

definition NonceCache_Add :: "int \<Rightarrow> nonce_cache \<Rightarrow> string \<Rightarrow> nonce_cache option" where
  "NonceCache_Add now c nonce = addLocked now c nonce"

definition NonceCache_AddIfAbsent :: "int \<Rightarrow> nonce_cache \<Rightarrow> string \<Rightarrow> (nonce_cache \<times> bool) option" where
  "NonceCache_AddIfAbsent now c nonce =
     (case gm_get (L_items c) nonce of
        Some e \<Rightarrow>
          if now - N_createdAt e < L_ttl c then
            Some (c \<lparr> L_order := MoveToFront e (L_order c) \<rparr>, False)
          else map_option (\<lambda>c. (c, True)) (addLocked now (lru_drop nonce e c) nonce)
      | None \<Rightarrow> map_option (\<lambda>c. (c, True)) (addLocked now c nonce))"

definition NonceCache_Size :: "nonce_cache \<Rightarrow> nat" where
  "NonceCache_Size c = length (L_items c)"

definition NonceCache_Clear :: "nonce_cache \<Rightarrow> nonce_cache" where
  "NonceCache_Clear c = c \<lparr> L_items := [], L_order := [] \<rparr>"

section \<open>APIKeyCache\<close>

definition NewAPIKeyCache :: "int \<Rightarrow> int \<Rightarrow> apikey_cache" where
  "NewAPIKeyCache capacity ttl =
     \<lparr> L_items = [], L_order = [], L_capacity = (if capacity \<le> 0 then 10000 else capacity),
       L_ttl = ttl \<rparr>"

definition APIKeyCache_Get :: "int \<Rightarrow> apikey_cache \<Rightarrow> string \<Rightarrow> apikey_cache \<times> apikey option" where
  "APIKeyCache_Get now c keyID =
     (case gm_get (L_items c) keyID of
        None \<Rightarrow> (c, None)
      | Some e \<Rightarrow>
          if now > C_expiresAt e then (lru_drop keyID e c, None)
          else (c \<lparr> L_order := MoveToFront e (L_order c) \<rparr>, Some (C_key e)))"

definition APIKeyCache_Set :: "int \<Rightarrow> apikey_cache \<Rightarrow> string \<Rightarrow> apikey \<Rightarrow> apikey_cache option" where
  "APIKeyCache_Set now c keyID key =
     (case gm_get (L_items c) keyID of
        Some e \<Rightarrow>
          (let e' = e \<lparr> C_key := key, C_expiresAt := now + L_ttl c \<rparr> in
           Some (c \<lparr> L_items := gm_set keyID e' (L_items c),
                     L_order := MoveToFront e' (map (\<lambda>x. if x = e then e' else x) (L_order c)) \<rparr>))
      | None \<Rightarrow>
          map_option (\<lambda>c.
            (let e = \<lparr> C_keyID = keyID, C_key = key, C_expiresAt = now + L_ttl c \<rparr> in
             c \<lparr> L_order := PushFront e (L_order c), L_items := gm_set keyID e (L_items c) \<rparr>))
            (evict_loop C_keyID c))"

definition APIKeyCache_Delete :: "apikey_cache \<Rightarrow> string \<Rightarrow> apikey_cache" where
  "APIKeyCache_Delete c keyID =
     (case gm_get (L_items c) keyID of None \<Rightarrow> c | Some e \<Rightarrow> lru_drop keyID e c)"

definition APIKeyCache_Clear :: "apikey_cache \<Rightarrow> apikey_cache" where
  "APIKeyCache_Clear c = c \<lparr> L_items := [], L_order := [] \<rparr>"

definition APIKeyCache_Size :: "apikey_cache \<Rightarrow> nat" where
  "APIKeyCache_Size c = length (L_items c)"

section \<open>Invariant\<close>

text \<open>The map and the list hold the same entries, each under its own key, each key once.\<close>

definition lru_inv :: "('e \<Rightarrow> string) \<Rightarrow> 'e lru \<Rightarrow> bool" where
  "lru_inv key c \<longleftrightarrow> gm_wf (L_items c) \<and> distinct (map key (L_order c)) \<and>
     (\<forall>k e. gm_get (L_items c) k = Some e \<longleftrightarrow> e \<in> set (L_order c) \<and> key e = k)"

lemma lru_invD:
  assumes "lru_inv key c"
  shows "gm_wf (L_items c)" "distinct (map key (L_order c))"
    "gm_get (L_items c) k = Some e \<longleftrightarrow> e \<in> set (L_order c) \<and> key e = k"
  using assms by (auto simp: lru_inv_def)

lemma lru_inv_None: "lru_inv key c \<Longrightarrow> gm_get (L_items c) k = None \<longleftrightarrow> k \<notin> key ` set (L_order c)"
proof -
  assume inv: "lru_inv key c"
  show ?thesis
  proof (cases "gm_get (L_items c) k")
    case None
    then have "e \<in> set (L_order c) \<Longrightarrow> key e \<noteq> k" for e
      using lru_invD(3) [OF inv, of k e] by simp
    with None show ?thesis by auto
  next
    case (Some e)
    then have "e \<in> set (L_order c)" "key e = k" using lru_invD(3) [OF inv, of k e] by auto
    with Some show ?thesis by auto
  qed
qed

lemma lru_inv_order_inj: "lru_inv key c \<Longrightarrow> e \<in> set (L_order c) \<Longrightarrow> f \<in> set (L_order c) \<Longrightarrow> key e = key f \<Longrightarrow> e = f"
  by (metis lru_invD(3) option.inject)

lemma lru_size: "lru_inv key c \<Longrightarrow> length (L_items c) = length (L_order c)"
proof -
  assume inv: "lru_inv key c"
  have "dom (gm_get (L_items c)) = key ` set (L_order c)"
    by (rule set_eqI) (simp add: dom_def lru_inv_None [OF inv] del: not_None_eq)
  then have "length (L_items c) = card (key ` set (L_order c))"
    using gm_length [OF lru_invD(1) [OF inv]] by simp
  also have "\<dots> = length (map key (L_order c))"
    using distinct_card [OF lru_invD(2) [OF inv]] by simp
  finally show ?thesis by simp
qed

lemma list_Remove_filter:
  "distinct (map key xs) \<Longrightarrow> e \<in> set xs \<Longrightarrow> list_Remove e xs = filter (\<lambda>x. key x \<noteq> key e) xs"
proof (induction xs)
  case (Cons x xs)
  show ?case
  proof (cases "x = e")
    case True
    then have "filter (\<lambda>x. key x \<noteq> key e) xs = xs"
      using Cons.prems by (auto simp: filter_id_conv rev_image_eqI)
    with True show ?thesis by (simp add: list_Remove_def)
  next
    case False
    then have "e \<in> set xs" "key x \<noteq> key e" using Cons.prems by (auto simp: rev_image_eqI)
    with Cons False show ?thesis by (simp add: list_Remove_def)
  qed
qed simp

lemma lru_drop_inv:
  assumes "lru_inv key c" "e \<in> set (L_order c)"
  shows "lru_inv key (lru_drop (key e) e c)"
    "L_order (lru_drop (key e) e c) = filter (\<lambda>x. key x \<noteq> key e) (L_order c)"
    "L_capacity (lru_drop (key e) e c) = L_capacity c" "L_ttl (lru_drop (key e) e c) = L_ttl c"
proof -
  show ord: "L_order (lru_drop (key e) e c) = filter (\<lambda>x. key x \<noteq> key e) (L_order c)"
    using list_Remove_filter [OF lru_invD(2) [OF assms(1)] assms(2)] by (simp add: lru_drop_def)
  have "gm_get (L_items (lru_drop (key e) e c)) k = Some x \<longleftrightarrow>
      x \<in> set (filter (\<lambda>x. key x \<noteq> key e) (L_order c)) \<and> key x = k" for k x
    using lru_invD(3) [OF assms(1), of k x] by (auto simp: lru_drop_def gm_get_del)
  then show "lru_inv key (lru_drop (key e) e c)"
    unfolding lru_inv_def ord using lru_invD(1,2) [OF assms(1)]
    by (simp add: lru_drop_def gm_wf_del distinct_map_filter)
  show "L_capacity (lru_drop (key e) e c) = L_capacity c" "L_ttl (lru_drop (key e) e c) = L_ttl c"
    by (simp_all add: lru_drop_def)
qed

lemma lru_front_inv:
  assumes "lru_inv key c" "e \<in> set (L_order c)"
  shows "lru_inv key (c \<lparr> L_order := MoveToFront e (L_order c) \<rparr>)"
proof -
  have r: "remove1 e (L_order c) = filter (\<lambda>x. key x \<noteq> key e) (L_order c)"
    using list_Remove_filter [OF lru_invD(2) [OF assms(1)] assms(2)] by (simp add: list_Remove_def)
  have "set (MoveToFront e (L_order c)) = set (L_order c)"
    using lru_inv_order_inj [OF assms(1) _ assms(2)] assms(2) by (auto simp: MoveToFront_def r)
  moreover have "distinct (map key (MoveToFront e (L_order c)))"
    using lru_invD(2) [OF assms(1)] assms(2)
    by (auto simp: MoveToFront_def r distinct_map_filter)
  ultimately show ?thesis
    using assms(1) by (simp add: lru_inv_def)
qed

lemma lru_push_inv:
  assumes "lru_inv key c" "gm_get (L_items c) (key e) = None"
  shows "lru_inv key (c \<lparr> L_order := PushFront e (L_order c), L_items := gm_set (key e) e (L_items c) \<rparr>)"
proof -
  have "key e \<notin> key ` set (L_order c)" using lru_inv_None [OF assms(1)] assms(2) by simp
  then show ?thesis
    using assms(1) by (auto simp: lru_inv_def PushFront_def gm_get_set gm_wf_set rev_image_eqI)
qed

section \<open>Eviction\<close>

lemma filter_key_last:
  assumes "distinct (map key xs)" "xs \<noteq> []"
  shows "filter (\<lambda>x. key x \<noteq> key (last xs)) xs = butlast xs"
proof -
  obtain ys y where xs: "xs = ys @ [y]" using assms(2) by (metis append_butlast_last_id)
  have "filter (\<lambda>x. key x \<noteq> key y) ys = ys"
    using assms(1) xs by (auto simp: filter_id_conv rev_image_eqI)
  then show ?thesis using xs by simp
qed

text \<open>With a positive capacity the loop ends and keeps the front of the list.\<close>

lemma evict_loop_returns:
  assumes "lru_inv key c" "1 \<le> L_capacity c"
  shows "\<exists>c'. evict_loop key c = Some c' \<and> lru_inv key c' \<and>
     L_order c' = take (nat (L_capacity c) - 1) (L_order c) \<and>
     L_capacity c' = L_capacity c \<and> L_ttl c' = L_ttl c"
  using assms
proof (induction "length (L_order c)" arbitrary: c rule: less_induct)
  case less
  show ?case
  proof (cases "int (length (L_order c)) \<ge> L_capacity c")
    case False
    then have "length (L_order c) \<le> nat (L_capacity c) - 1" using less.prems by linarith
    then show ?thesis using False less.prems by (subst evict_loop.simps) simp
  next
    case True
    then have ne: "L_order c \<noteq> []" using less.prems by auto
    define d where "d = lru_drop (key (last (L_order c))) (last (L_order c)) c"
    note D = lru_drop_inv [OF less.prems(1) last_in_set [OF ne], folded d_def]
    have ord: "L_order d = butlast (L_order c)"
      using D(2) filter_key_last [OF lru_invD(2) [OF less.prems(1)] ne] by simp
    then have "length (L_order d) < length (L_order c)" using ne by simp
    from less.hyps [OF this D(1)] D(3,4) less.prems(2)
    obtain c' where c': "evict_loop key d = Some c'" "lru_inv key c'"
      "L_order c' = take (nat (L_capacity c) - 1) (L_order d)" "L_capacity c' = L_capacity c"
      "L_ttl c' = L_ttl c" by auto
    have "nat (L_capacity c) - 1 \<le> length (L_order c) - 1" using True by linarith
    then have "take (nat (L_capacity c) - 1) (L_order d) = take (nat (L_capacity c) - 1) (L_order c)"
      unfolding ord by (simp add: take_butlast butlast_conv_take)
    moreover have "evict_loop key c = evict_loop key d"
      using True ne by (subst evict_loop.simps) (simp add: d_def)
    ultimately show ?thesis using c' by auto
  qed
qed

text \<open>With no capacity it never ends.\<close>

lemma evict_loop_diverges: "L_capacity c \<le> 0 \<Longrightarrow> evict_loop key c = None"
proof -
  have "0 < L_capacity c" if "evict_loop key c = Some y" for y
  proof (rule evict_loop.raw_induct [where P = "\<lambda>key c y. 0 < L_capacity c", OF _ that])
    fix f :: "('a \<Rightarrow> string) \<Rightarrow> 'a lru \<Rightarrow> 'a lru option" and key c y
    assume "\<And>key c y. f key c = Some y \<Longrightarrow> 0 < L_capacity c"
      and "(if int (length (L_order c)) \<ge> L_capacity c then
              (if L_order c = [] then f key c
               else f key (lru_drop (key (last (L_order c))) (last (L_order c)) c))
            else Some c) = Some y"
    then show "0 < L_capacity c"
      by (auto simp: lru_drop_def dest!: spec split: if_splits) force+
  qed
  then show "L_capacity c \<le> 0 \<Longrightarrow> ?thesis"
    by (cases "evict_loop key c") auto
qed

section \<open>Expiry and insertion of nonces\<close>

lemma lru_drops:
  assumes "lru_inv key c" "set rs \<subseteq> set (L_order c)" "distinct (map key rs)"
  shows "lru_inv key (foldl (\<lambda>c e. lru_drop (key e) e c) c rs) \<and>
    L_order (foldl (\<lambda>c e. lru_drop (key e) e c) c rs) = filter (\<lambda>x. key x \<notin> key ` set rs) (L_order c) \<and>
    L_capacity (foldl (\<lambda>c e. lru_drop (key e) e c) c rs) = L_capacity c \<and>
    L_ttl (foldl (\<lambda>c e. lru_drop (key e) e c) c rs) = L_ttl c"
  using assms
proof (induction rs arbitrary: c)
  case (Cons e rs)
  have e: "e \<in> set (L_order c)" using Cons.prems(2) by simp
  note D = lru_drop_inv [OF Cons.prems(1) e]
  have "set rs \<subseteq> set (L_order (lru_drop (key e) e c))"
    using Cons.prems(2,3) by (auto simp: D(2) rev_image_eqI)
  from Cons.IH [OF D(1) this] Cons.prems(3) D show ?case
    by (auto intro!: filter_cong)
qed simp

lemma cleanupExpiredLocked_spec:
  assumes "lru_inv N_nonce c"
  shows "lru_inv N_nonce (cleanupExpiredLocked now c)"
    "L_order (cleanupExpiredLocked now c) = filter (\<lambda>e. now - N_createdAt e < L_ttl c) (L_order c)"
    "L_capacity (cleanupExpiredLocked now c) = L_capacity c" "L_ttl (cleanupExpiredLocked now c) = L_ttl c"
proof -
  let ?rs = "filter (\<lambda>e. now - N_createdAt e \<ge> L_ttl c) (rev (L_order c))"
  have "distinct (map N_nonce ?rs)"
    using lru_invD(2) [OF assms] by (intro distinct_map_filter) (simp add: rev_map [symmetric])
  note L = lru_drops [OF assms _ this]
  have "x \<in> set (L_order c) \<Longrightarrow> N_nonce x \<notin> N_nonce ` set ?rs \<longleftrightarrow> now - N_createdAt x < L_ttl c" for x
    using lru_inv_order_inj [OF assms] by fastforce
  then have "filter (\<lambda>x. N_nonce x \<notin> N_nonce ` set ?rs) (L_order c) =
      filter (\<lambda>e. now - N_createdAt e < L_ttl c) (L_order c)"
    by (rule filter_cong [OF refl])
  then show "lru_inv N_nonce (cleanupExpiredLocked now c)"
    "L_order (cleanupExpiredLocked now c) = filter (\<lambda>e. now - N_createdAt e < L_ttl c) (L_order c)"
    "L_capacity (cleanupExpiredLocked now c) = L_capacity c" "L_ttl (cleanupExpiredLocked now c) = L_ttl c"
    using L by (auto simp: cleanupExpiredLocked_def Let_def)
qed

lemma addLocked_new:
  assumes "lru_inv N_nonce c" "1 \<le> L_capacity c" "gm_get (L_items c) n = None"
  shows "\<exists>c'. addLocked now c n = Some c' \<and> lru_inv N_nonce c' \<and>
    L_order c' = \<lparr> N_nonce = n, N_createdAt = now \<rparr> #
      take (nat (L_capacity c) - 1) (filter (\<lambda>e. now - N_createdAt e < L_ttl c) (L_order c)) \<and>
    L_capacity c' = L_capacity c \<and> L_ttl c' = L_ttl c"
proof -
  let ?e = "\<lparr> N_nonce = n, N_createdAt = now \<rparr>"
  note C = cleanupExpiredLocked_spec [OF assms(1), of now]
  obtain d where d: "evict_loop N_nonce (cleanupExpiredLocked now c) = Some d" "lru_inv N_nonce d"
    "L_order d = take (nat (L_capacity c) - 1) (filter (\<lambda>e. now - N_createdAt e < L_ttl c) (L_order c))"
    "L_capacity d = L_capacity c" "L_ttl d = L_ttl c"
    using evict_loop_returns [OF C(1)] C(2,3,4) assms(2) by auto
  have "set (L_order d) \<subseteq> set (L_order c)" using d(3) by (auto dest: in_set_takeD)
  then have "gm_get (L_items d) n = None"
    using lru_inv_None [OF d(2), of n] lru_inv_None [OF assms(1), of n] assms(3) by auto
  then show ?thesis
    using d lru_push_inv [OF d(2), of ?e] assms(3) by (simp add: addLocked_def PushFront_def Let_def)
qed

text \<open>\<open>AddIfAbsent\<close> on a live nonce refuses it and moves it to the front; otherwise the nonce is
  stored with the current time, the live entries behind it, oldest use last, up to the capacity.\<close>

lemma AddIfAbsent_hit:
  assumes "lru_inv N_nonce c" "e \<in> set (L_order c)" "N_nonce e = n" "now - N_createdAt e < L_ttl c"
  shows "NonceCache_AddIfAbsent now c n = Some (c \<lparr> L_order := MoveToFront e (L_order c) \<rparr>, False)"
  using assms lru_invD(3) [OF assms(1), of n e] by (simp add: NonceCache_AddIfAbsent_def)

lemma AddIfAbsent_miss:
  assumes "lru_inv N_nonce c" "1 \<le> L_capacity c"
    and "\<And>e. e \<in> set (L_order c) \<Longrightarrow> N_nonce e = n \<Longrightarrow> L_ttl c \<le> now - N_createdAt e"
  shows "\<exists>c'. NonceCache_AddIfAbsent now c n = Some (c', True) \<and> lru_inv N_nonce c' \<and>
    L_order c' = \<lparr> N_nonce = n, N_createdAt = now \<rparr> #
      take (nat (L_capacity c) - 1) (filter (\<lambda>e. now - N_createdAt e < L_ttl c) (L_order c)) \<and>
    L_capacity c' = L_capacity c \<and> L_ttl c' = L_ttl c"
proof (cases "gm_get (L_items c) n")
  case None
  then show ?thesis
    using addLocked_new [OF assms(1,2) None, of now] by (auto simp: NonceCache_AddIfAbsent_def)
next
  case (Some e)
  then have e: "e \<in> set (L_order c)" "N_nonce e = n" using lru_invD(3) [OF assms(1)] by auto
  note D = lru_drop_inv [OF assms(1) e(1), unfolded e(2)]
  have "gm_get (L_items (lru_drop n e c)) n = None" by (simp add: lru_drop_def gm_get_del)
  from addLocked_new [OF D(1) _ this, of now] D(3,4) assms(2)
  obtain c' where c': "addLocked now (lru_drop n e c) n = Some c'" "lru_inv N_nonce c'"
    "L_order c' = \<lparr> N_nonce = n, N_createdAt = now \<rparr> # take (nat (L_capacity c) - 1)
      (filter (\<lambda>e. now - N_createdAt e < L_ttl c) (L_order (lru_drop n e c)))"
    "L_capacity c' = L_capacity c" "L_ttl c' = L_ttl c"
    by auto
  have "filter (\<lambda>e. now - N_createdAt e < L_ttl c) (L_order (lru_drop n e c)) =
      filter (\<lambda>e. now - N_createdAt e < L_ttl c) (L_order c)"
    unfolding D(2) filter_filter using assms(3) by (intro filter_cong) force+
  with c' Some assms(3) [OF e] show ?thesis by (auto simp: NonceCache_AddIfAbsent_def)
qed

lemma AddIfAbsent_returns:
  assumes "lru_inv N_nonce c" "1 \<le> L_capacity c"
  shows "\<exists>c' b. NonceCache_AddIfAbsent now c n = Some (c', b) \<and> lru_inv N_nonce c' \<and>
    L_capacity c' = L_capacity c \<and> L_ttl c' = L_ttl c \<and>
    (b \<longleftrightarrow> \<not> (\<exists>e \<in> set (L_order c). N_nonce e = n \<and> now - N_createdAt e < L_ttl c))"
proof (cases "\<exists>e \<in> set (L_order c). N_nonce e = n \<and> now - N_createdAt e < L_ttl c")
  case True
  then obtain e where e: "e \<in> set (L_order c)" "N_nonce e = n" "now - N_createdAt e < L_ttl c" by blast
  from AddIfAbsent_hit [OF assms(1) e] lru_front_inv [OF assms(1) e(1)] True show ?thesis
    by (intro exI [of _ "c \<lparr> L_order := MoveToFront e (L_order c) \<rparr>"] exI [of _ False]) simp
next
  case False
  then obtain c' where "NonceCache_AddIfAbsent now c n = Some (c', True)" "lru_inv N_nonce c'"
    "L_capacity c' = L_capacity c" "L_ttl c' = L_ttl c"
    using AddIfAbsent_miss [OF assms, of n now] by force
  with False show ?thesis by (intro exI [of _ c'] exI [of _ True]) simp
qed

subsection \<open>No replay\<close>

text \<open>A run of calls, each with its clock reading.\<close>

fun nonce_run :: "nonce_cache \<Rightarrow> (int \<times> string) list \<Rightarrow> nonce_cache option" where
  "nonce_run c [] = Some c"
| "nonce_run c ((now, n) # calls) =
     (case NonceCache_AddIfAbsent now c n of None \<Rightarrow> None | Some (c', _) \<Rightarrow> nonce_run c' calls)"

lemma take_filter_mem:
  "e \<in> set (take k xs) \<Longrightarrow> P e \<Longrightarrow> e \<in> set (take k (filter P xs))"
proof (induction xs arbitrary: k)
  case (Cons x xs)
  show ?case
  proof (cases k)
    case (Suc j)
    have "set (take j (filter P xs)) \<subseteq> set (take (Suc j) (filter P xs))"
      by (rule set_take_subset_set_take) simp
    then show ?thesis using Cons Suc by (cases "x = e") auto
  qed (use Cons in simp)
qed simp

lemma take_remove1_mem: "e \<in> set (take k xs) \<Longrightarrow> e \<noteq> f \<Longrightarrow> e \<in> set (take k (remove1 f xs))"
proof (induction xs arbitrary: k)
  case (Cons x xs)
  then show ?case
  proof (cases k)
    case (Suc j)
    show ?thesis
    proof (cases "x = f")
      case True
      with Cons.prems Suc have "e \<in> set (take j xs)" by simp
      moreover have "set (take j xs) \<subseteq> set (take (Suc j) xs)" by (rule set_take_subset_set_take) simp
      ultimately show ?thesis using True Suc by auto
    qed (use Cons Suc in auto)
  qed simp
qed simp

lemma nonce_kept:
  assumes inv: "lru_inv N_nonce c" and cap: "1 \<le> L_capacity c"
    and e: "e \<in> set (take k (L_order c))" "k < nat (L_capacity c)" "now - N_createdAt e < L_ttl c"
    and call: "NonceCache_AddIfAbsent now c n = Some (c', b)"
  shows "e \<in> set (take (Suc k) (L_order c'))"
proof (cases "\<exists>f \<in> set (L_order c). N_nonce f = n \<and> now - N_createdAt f < L_ttl c")
  case True
  then obtain f where f: "f \<in> set (L_order c)" "N_nonce f = n" "now - N_createdAt f < L_ttl c" by blast
  have "L_order c' = f # remove1 f (L_order c)"
    using AddIfAbsent_hit [OF inv f] call f(1) by (auto simp: MoveToFront_def)
  then show ?thesis using take_remove1_mem [OF e(1), of f] by (cases "e = f") auto
next
  case False
  then have miss: "L_order c' = \<lparr> N_nonce = n, N_createdAt = now \<rparr> #
      take (nat (L_capacity c) - 1) (filter (\<lambda>e. now - N_createdAt e < L_ttl c) (L_order c))"
    using AddIfAbsent_miss [OF inv cap, of n now] call by force
  have "e \<in> set (take k (filter (\<lambda>e. now - N_createdAt e < L_ttl c) (L_order c)))"
    using take_filter_mem [OF e(1)] e(3) by simp
  moreover have "min k (nat (L_capacity c) - 1) = k" using e(2) by simp
  ultimately show ?thesis unfolding miss by simp
qed

lemma nonce_run_keeps:
  assumes "lru_inv N_nonce c" "1 \<le> L_capacity c"
    and "e \<in> set (take k (L_order c))" "k + length calls \<le> nat (L_capacity c)"
    and "\<forall>(now, n) \<in> set calls. now - N_createdAt e < L_ttl c"
  shows "\<exists>c'. nonce_run c calls = Some c' \<and> lru_inv N_nonce c' \<and> e \<in> set (L_order c') \<and>
    L_capacity c' = L_capacity c \<and> L_ttl c' = L_ttl c"
  using assms
proof (induction calls arbitrary: c k)
  case Nil
  then show ?case by (auto dest: in_set_takeD)
next
  case (Cons call calls)
  obtain now n where call: "call = (now, n)" by fastforce
  obtain d b where d: "NonceCache_AddIfAbsent now c n = Some (d, b)" "lru_inv N_nonce d"
    "L_capacity d = L_capacity c" "L_ttl d = L_ttl c"
    using AddIfAbsent_returns [OF Cons.prems(1,2), of now n] by blast
  have "e \<in> set (take (Suc k) (L_order d))"
    using nonce_kept [OF Cons.prems(1,2,3) _ _ d(1)] Cons.prems(4,5) call by force
  from Cons.IH [OF d(2) _ this] Cons.prems(2,4,5) d call show ?case by auto
qed

lemma AddIfAbsent_no_replay:
  assumes "lru_inv N_nonce c" "1 \<le> L_capacity c"
    and first: "NonceCache_AddIfAbsent t0 c n = Some (c1, True)"
    and calls: "length calls < nat (L_capacity c)" "\<forall>(t, m) \<in> set calls. t - t0 < L_ttl c"
    and second: "t - t0 < L_ttl c"
  shows "\<exists>c2 c3. nonce_run c1 calls = Some c2 \<and> NonceCache_AddIfAbsent t c2 n = Some (c3, False)"
proof -
  let ?e = "\<lparr> N_nonce = n, N_createdAt = t0 \<rparr>"
  have no: "\<not> (\<exists>e \<in> set (L_order c). N_nonce e = n \<and> t0 - N_createdAt e < L_ttl c)"
    using AddIfAbsent_returns [OF assms(1,2), of t0 n] first by auto
  then have "\<exists>c'. NonceCache_AddIfAbsent t0 c n = Some (c', True) \<and> lru_inv N_nonce c' \<and>
    L_order c' = ?e # take (nat (L_capacity c) - 1) (filter (\<lambda>e. t0 - N_createdAt e < L_ttl c) (L_order c)) \<and>
    L_capacity c' = L_capacity c \<and> L_ttl c' = L_ttl c"
    by (intro AddIfAbsent_miss [OF assms(1,2)]) force
  then have c1: "lru_inv N_nonce c1" "?e \<in> set (take 1 (L_order c1))" "L_capacity c1 = L_capacity c"
    "L_ttl c1 = L_ttl c"
    using first by auto
  obtain c2 where c2: "nonce_run c1 calls = Some c2" "lru_inv N_nonce c2" "?e \<in> set (L_order c2)"
    "L_ttl c2 = L_ttl c"
    using nonce_run_keeps [OF c1(1) _ c1(2), of calls] c1(3,4) assms(2) calls by auto
  have "NonceCache_AddIfAbsent t c2 n = Some (c2 \<lparr> L_order := MoveToFront ?e (L_order c2) \<rparr>, False)"
    using AddIfAbsent_hit [OF c2(2,3), of n t] second c2(4) by simp
  with c2(1) show ?thesis by blast
qed

section \<open>The API key cache\<close>

lemma APIKeyCache_Delete_spec:
  assumes "lru_inv C_keyID c"
  shows "lru_inv C_keyID (APIKeyCache_Delete c k)" "gm_get (L_items (APIKeyCache_Delete c k)) k = None"
    "L_capacity (APIKeyCache_Delete c k) = L_capacity c"
    "k' \<noteq> k \<Longrightarrow> gm_get (L_items (APIKeyCache_Delete c k)) k' = gm_get (L_items c) k'"
proof -
  have "lru_inv C_keyID (lru_drop k e c)" if "gm_get (L_items c) k = Some e" for e
    using that lru_invD(3) [OF assms, of k e] lru_drop_inv(1) [OF assms, of e] by auto
  then show "lru_inv C_keyID (APIKeyCache_Delete c k)"
    using assms by (auto simp: APIKeyCache_Delete_def split: option.splits)
  show "gm_get (L_items (APIKeyCache_Delete c k)) k = None"
    "L_capacity (APIKeyCache_Delete c k) = L_capacity c"
    "k' \<noteq> k \<Longrightarrow> gm_get (L_items (APIKeyCache_Delete c k)) k' = gm_get (L_items c) k'"
    by (auto simp: APIKeyCache_Delete_def lru_drop_def gm_get_del split: option.splits)
qed

lemma APIKeyCache_Get_spec:
  assumes "lru_inv C_keyID c" "APIKeyCache_Get now c k = (c', r)"
  shows "lru_inv C_keyID c'" "L_capacity c' = L_capacity c" "L_ttl c' = L_ttl c"
    "r = (case gm_get (L_items c) k of
            None \<Rightarrow> None | Some e \<Rightarrow> if now > C_expiresAt e then None else Some (C_key e))"
proof -
  have "lru_inv C_keyID (lru_drop k e c)" "lru_inv C_keyID (c \<lparr> L_order := MoveToFront e (L_order c) \<rparr>)"
    if "gm_get (L_items c) k = Some e" for e
    using that lru_invD(3) [OF assms(1), of k e] lru_drop_inv(1) [OF assms(1), of e]
      lru_front_inv [OF assms(1), of e] by auto
  then show "lru_inv C_keyID c'" "L_capacity c' = L_capacity c" "L_ttl c' = L_ttl c"
    using assms by (auto simp: APIKeyCache_Get_def lru_drop_def split: option.splits if_splits)
  show "r = (case gm_get (L_items c) k of
            None \<Rightarrow> None | Some e \<Rightarrow> if now > C_expiresAt e then None else Some (C_key e))"
    using assms(2) by (auto simp: APIKeyCache_Get_def split: option.splits if_splits)
qed

lemma lru_replace_inv:
  assumes "lru_inv key c" "e \<in> set (L_order c)" "key e' = key e"
  shows "lru_inv key (c \<lparr> L_items := gm_set (key e) e' (L_items c),
    L_order := map (\<lambda>x. if x = e then e' else x) (L_order c) \<rparr>)"
proof -
  define c' where "c' = c \<lparr> L_items := gm_set (key e) e' (L_items c),
    L_order := map (\<lambda>x. if x = e then e' else x) (L_order c) \<rparr>"
  have sel: "L_items c' = gm_set (key e) e' (L_items c)"
    "L_order c' = map (\<lambda>x. if x = e then e' else x) (L_order c)" by (simp_all add: c'_def)
  have keys: "map key (L_order c') = map key (L_order c)"
    using assms(3) by (simp add: sel)
  have look: "gm_get (gm_set (key e) e' (L_items c)) k = Some x \<longleftrightarrow>
      x \<in> set (map (\<lambda>x. if x = e then e' else x) (L_order c)) \<and> key x = k" for k x
  proof (cases "k = key e")
    case True
    then show ?thesis
      using assms lru_inv_order_inj [OF assms(1) _ assms(2)] by (auto simp: gm_get_set)
  next
    case False
    then show ?thesis
      using assms lru_invD(3) [OF assms(1), of k x] by (auto simp: gm_get_set)
  qed
  have "gm_wf (gm_set (key e) e' (L_items c))"
    using lru_invD(1) [OF assms(1)] by (rule gm_wf_set)
  then have "lru_inv key c'"
    unfolding lru_inv_def keys using lru_invD(2) [OF assms(1)] look unfolding sel by blast
  then show ?thesis by (simp only: c'_def)
qed

lemma APIKeyCache_Set_spec:
  assumes "lru_inv C_keyID c" "1 \<le> L_capacity c"
  shows "\<exists>c' e. APIKeyCache_Set now c k v = Some c' \<and> lru_inv C_keyID c' \<and>
    gm_get (L_items c') k = Some e \<and> C_key e = v \<and> C_expiresAt e = now + L_ttl c \<and>
    L_capacity c' = L_capacity c \<and> L_ttl c' = L_ttl c \<and>
    length (L_order c') \<le> max (length (L_order c)) (nat (L_capacity c))"
proof (cases "gm_get (L_items c) k")
  case None
  let ?e = "\<lparr> C_keyID = k, C_key = v, C_expiresAt = now + L_ttl c \<rparr>"
  obtain d where d: "evict_loop C_keyID c = Some d" "lru_inv C_keyID d"
    "L_order d = take (nat (L_capacity c) - 1) (L_order c)" "L_capacity d = L_capacity c" "L_ttl d = L_ttl c"
    using evict_loop_returns [OF assms] by blast
  have "set (L_order d) \<subseteq> set (L_order c)" using d(3) by (auto dest: in_set_takeD)
  then have "gm_get (L_items d) k = None"
    using lru_inv_None [OF d(2), of k] lru_inv_None [OF assms(1), of k] None by auto
  note P = lru_push_inv [OF d(2), of ?e, simplified, OF this]
  show ?thesis
    using d P None assms(2)
    by (auto simp: APIKeyCache_Set_def PushFront_def Let_def gm_get_set)
next
  case (Some e)
  let ?e' = "e \<lparr> C_key := v, C_expiresAt := now + L_ttl c \<rparr>"
  let ?c1 = "c \<lparr> L_items := gm_set k ?e' (L_items c),
    L_order := map (\<lambda>x. if x = e then ?e' else x) (L_order c) \<rparr>"
  have e: "e \<in> set (L_order c)" "C_keyID e = k" using lru_invD(3) [OF assms(1)] Some by auto
  have inv1: "lru_inv C_keyID ?c1" using lru_replace_inv [OF assms(1) e(1), of ?e'] e(2) by simp
  have mem: "?e' \<in> set (L_order ?c1)" using e(1) by force
  note F = lru_front_inv [OF inv1 mem]
  have len: "length (MoveToFront x xs) = length xs" for x :: cache_entry and xs
    by (cases "x \<in> set xs") (auto simp: MoveToFront_def length_remove1 dest: length_pos_if_in_set)
  show ?thesis
    using Some F len by (auto simp: APIKeyCache_Set_def Let_def gm_get_set)
qed

section \<open>The interface\<close>

text \<open>A cache whose insertions return and stay within a capacity.\<close>

locale bounded_cache =
  fixes inv :: "'c \<Rightarrow> bool" and size_of :: "'c \<Rightarrow> nat" and cap :: "'c \<Rightarrow> int"
    and ins :: "int \<Rightarrow> 'c \<Rightarrow> 'a \<Rightarrow> 'c option"
  assumes ins_returns: "inv c \<Longrightarrow> 1 \<le> cap c \<Longrightarrow> \<exists>c'. ins now c a = Some c'"
    and ins_inv: "inv c \<Longrightarrow> 1 \<le> cap c \<Longrightarrow> ins now c a = Some c' \<Longrightarrow> inv c' \<and> cap c' = cap c"
    and ins_size: "inv c \<Longrightarrow> 1 \<le> cap c \<Longrightarrow> ins now c a = Some c' \<Longrightarrow>
      int (size_of c') \<le> max (int (size_of c)) (cap c)"
begin

lemma run_bounded:
  assumes "inv c" "1 \<le> cap c" "int (size_of c) \<le> cap c"
  shows "\<exists>c'. foldl (\<lambda>r (now, a). case r of None \<Rightarrow> None | Some c \<Rightarrow> ins now c a) (Some c) calls = Some c' \<and>
    inv c' \<and> cap c' = cap c \<and> int (size_of c') \<le> cap c"
  using assms
proof (induction calls arbitrary: c)
  case (Cons call calls)
  obtain now a where call: "call = (now, a)" by fastforce
  obtain d where d: "ins now c a = Some d" using ins_returns [OF Cons.prems(1,2)] by blast
  note I = ins_inv [OF Cons.prems(1,2) d] ins_size [OF Cons.prems(1,2) d]
  then have "\<exists>c'. foldl (\<lambda>r (now, a). case r of None \<Rightarrow> None | Some c \<Rightarrow> ins now c a) (Some d) calls = Some c' \<and>
      inv c' \<and> cap c' = cap d \<and> int (size_of c') \<le> cap d"
    using Cons.IH [of d] Cons.prems by simp
  then show ?case using call d I by simp
qed simp

end

lemma AddIfAbsent_size:
  assumes "lru_inv N_nonce c" "1 \<le> L_capacity c" "NonceCache_AddIfAbsent now c n = Some (c', b)"
  shows "int (NonceCache_Size c') \<le> max (int (NonceCache_Size c)) (L_capacity c)"
proof (cases "\<exists>e \<in> set (L_order c). N_nonce e = n \<and> now - N_createdAt e < L_ttl c")
  case True
  then obtain e where e: "e \<in> set (L_order c)" "N_nonce e = n" "now - N_createdAt e < L_ttl c" by blast
  then show ?thesis
    using AddIfAbsent_hit [OF assms(1) e] assms(3) by (auto simp: NonceCache_Size_def)
next
  case False
  then have "\<exists>c'. NonceCache_AddIfAbsent now c n = Some (c', True) \<and> lru_inv N_nonce c' \<and>
    L_order c' = \<lparr> N_nonce = n, N_createdAt = now \<rparr> #
      take (nat (L_capacity c) - 1) (filter (\<lambda>e. now - N_createdAt e < L_ttl c) (L_order c)) \<and>
    L_capacity c' = L_capacity c \<and> L_ttl c' = L_ttl c"
    by (intro AddIfAbsent_miss [OF assms(1,2)]) force
  then have "lru_inv N_nonce c'" "length (L_order c') \<le> nat (L_capacity c)"
    using assms(2,3) by auto
  then show ?thesis using lru_size [of N_nonce c'] assms(2) by (simp add: NonceCache_Size_def)
qed

interpretation nonces: bounded_cache "lru_inv N_nonce" NonceCache_Size L_capacity
  "\<lambda>now c n. map_option fst (NonceCache_AddIfAbsent now c n)"
proof unfold_locales
  fix c :: nonce_cache and now n c'
  assume A: "lru_inv N_nonce c" "1 \<le> L_capacity c"
  note R = AddIfAbsent_returns [OF A, of now n]
  show "\<exists>c'. map_option fst (NonceCache_AddIfAbsent now c n) = Some c'" using R by auto
  assume "map_option fst (NonceCache_AddIfAbsent now c n) = Some c'"
  then obtain b where b: "NonceCache_AddIfAbsent now c n = Some (c', b)" by auto
  show "lru_inv N_nonce c' \<and> L_capacity c' = L_capacity c" using R b by auto
  show "int (NonceCache_Size c') \<le> max (int (NonceCache_Size c)) (L_capacity c)"
    by (rule AddIfAbsent_size [OF A b])
qed

interpretation apikeys: bounded_cache "lru_inv C_keyID" APIKeyCache_Size L_capacity
  "\<lambda>now c (k, v). APIKeyCache_Set now c k v"
proof unfold_locales
  fix c :: apikey_cache and now c' and a :: "string \<times> apikey"
  assume A: "lru_inv C_keyID c" "1 \<le> L_capacity c"
  obtain k v where a: "a = (k, v)" by fastforce
  obtain d e where d: "APIKeyCache_Set now c k v = Some d" "lru_inv C_keyID d" "L_capacity d = L_capacity c"
    "length (L_order d) \<le> max (length (L_order c)) (nat (L_capacity c))"
    using APIKeyCache_Set_spec [OF A, of now k v] by blast
  show "\<exists>c'. (case a of (k, v) \<Rightarrow> APIKeyCache_Set now c k v) = Some c'" using d a by simp
  assume "(case a of (k, v) \<Rightarrow> APIKeyCache_Set now c k v) = Some c'"
  then have "c' = d" using d a by simp
  then show "lru_inv C_keyID c' \<and> L_capacity c' = L_capacity c" using d by simp
  show "int (APIKeyCache_Size c') \<le> max (int (APIKeyCache_Size c)) (L_capacity c)"
    using \<open>c' = d\<close> d lru_size [OF A(1)] lru_size [OF d(2)] A(2) by (simp add: APIKeyCache_Size_def)
qed

lemma NewNonceCache_inv: "lru_inv N_nonce (NewNonceCache cap ttl)"
  by (simp add: lru_inv_def NewNonceCache_def)

lemma NewAPIKeyCache_inv: "lru_inv C_keyID (NewAPIKeyCache cap ttl)" "1 \<le> L_capacity (NewAPIKeyCache cap ttl)"
  by (simp_all add: lru_inv_def NewAPIKeyCache_def)

section \<open>Properties\<close>

lemma nonce_run_foldl:
  "nonce_run c calls = foldl (\<lambda>r (now, n). case r of None \<Rightarrow> None
     | Some c \<Rightarrow> map_option fst (NonceCache_AddIfAbsent now c n)) (Some c) calls"
proof (induction calls arbitrary: c)
  case (Cons call calls)
  have "foldl (\<lambda>r (now, n). case r of None \<Rightarrow> None
     | Some c \<Rightarrow> map_option fst (NonceCache_AddIfAbsent now c n)) None calls = None" for calls
    by (induction calls) auto
  with Cons show ?case
    by (cases call) (auto split: option.splits)
qed simp

lemma nonce_run_new:
  assumes "1 \<le> cap"
  shows "\<exists>c. nonce_run (NewNonceCache cap ttl) calls = Some c \<and> lru_inv N_nonce c \<and> L_capacity c = cap \<and>
    int (NonceCache_Size c) \<le> cap"
  using nonces.run_bounded [OF NewNonceCache_inv, of cap ttl calls] assms
  by (simp add: nonce_run_foldl) (simp add: NewNonceCache_def NonceCache_Size_def)

lemma nonce_run_ttl: "nonce_run c calls = Some c' \<Longrightarrow> lru_inv N_nonce c \<Longrightarrow> 1 \<le> L_capacity c \<Longrightarrow> L_ttl c' = L_ttl c"
proof (induction calls arbitrary: c)
  case (Cons call calls)
  then show ?case
    using AddIfAbsent_returns [OF Cons.prems(2,3), of "fst call" "snd call"]
    by (cases call) fastforce
qed simp

text \<open>C24: no replay.  In a cache built with a positive capacity and used by any number of earlier
  requests, a nonce that is accepted at time t0 is refused by every later request before its time to
  live has passed, provided that fewer than capacity other requests came in between.\<close>

theorem nonce_not_replayed:
  assumes "1 \<le> cap" "nonce_run (NewNonceCache cap ttl) earlier = Some c"
    and "NonceCache_AddIfAbsent t0 c n = Some (c1, True)"
    and "length calls < nat cap" "\<forall>(t, m) \<in> set calls. t - t0 < ttl" "t - t0 < ttl"
  shows "\<exists>c2 c3. nonce_run c1 calls = Some c2 \<and> NonceCache_AddIfAbsent t c2 n = Some (c3, False)"
proof -
  have "L_ttl c = ttl"
    using nonce_run_ttl [OF assms(2) NewNonceCache_inv] assms(1) by (simp add: NewNonceCache_def)
  with nonce_run_new [OF assms(1), of ttl earlier] assms(2-) show ?thesis
    using AddIfAbsent_no_replay [of c t0 n c1 calls t] assms(1) by auto
qed

theorem nonce_not_replayed_witness:
  "\<exists>c c1 c2 c3. nonce_run (NewNonceCache 2 300) [(0, ''a'')] = Some c \<and>
     NonceCache_AddIfAbsent 10 c ''b'' = Some (c1, True) \<and> nonce_run c1 [(20, ''c'')] = Some c2 \<and>
     NonceCache_AddIfAbsent 30 c2 ''b'' = Some (c3, False)"
proof -
  let ?a = "\<lparr> N_nonce = ''a'', N_createdAt = 0 \<rparr>" and ?b = "\<lparr> N_nonce = ''b'', N_createdAt = 10 \<rparr>"
  let ?c = "\<lparr> L_items = [(''a'', ?a)], L_order = [?a], L_capacity = 2, L_ttl = 300 \<rparr>"
  let ?d = "\<lparr> L_items = [(''a'', ?a), (''b'', ?b)], L_order = [?b, ?a], L_capacity = 2, L_ttl = 300 \<rparr>"
  have A: "nonce_run (NewNonceCache 2 300) [(0, ''a'')] = Some ?c" by code_simp
  have B: "NonceCache_AddIfAbsent 10 ?c ''b'' = Some (?d, True)" by code_simp
  from A B nonce_not_replayed [OF _ A B, of "[(20, ''c'')]" 30] show ?thesis by auto
qed

text \<open>The nonce cache is bounded and live exactly when it was given room.  With a positive
  capacity every sequence of requests gets its answers and the cache never holds more entries than its
  capacity; with none the first request never returns, and keeps the lock.\<close>

lemma nonce_cache_bounded:
  "if 1 \<le> cap
   then \<exists>c. nonce_run (NewNonceCache cap ttl) calls = Some c \<and> int (NonceCache_Size c) \<le> cap
   else NonceCache_AddIfAbsent now (NewNonceCache cap ttl) n = None"
proof (cases "1 \<le> cap")
  case False
  have "L_capacity (cleanupExpiredLocked now (NewNonceCache cap ttl)) = cap"
    using cleanupExpiredLocked_spec [OF NewNonceCache_inv] by (simp add: NewNonceCache_def)
  then have "addLocked now (NewNonceCache cap ttl) n = None"
    using False by (simp add: addLocked_def evict_loop_diverges NewNonceCache_def)
  with False show ?thesis by (simp add: NonceCache_AddIfAbsent_def NewNonceCache_def)
qed (use nonce_run_new [of cap ttl calls] in auto)

text \<open>The API key cache is bounded: any sequence of insertions returns and never leaves more
  entries than the capacity the constructor settled on (the default when none was given).\<close>

lemma apikey_cache_bounded:
  "\<exists>c. foldl (\<lambda>r (now, k, v). case r of None \<Rightarrow> None | Some c \<Rightarrow> APIKeyCache_Set now c k v)
      (Some (NewAPIKeyCache cap ttl)) calls = Some c \<and>
    int (APIKeyCache_Size c) \<le> (if cap \<le> 0 then 10000 else cap)"
proof -
  have C: "L_capacity (NewAPIKeyCache cap ttl) = (if cap \<le> 0 then 10000 else cap)"
    by (simp add: NewAPIKeyCache_def)
  have Z: "int (APIKeyCache_Size (NewAPIKeyCache cap ttl)) \<le> L_capacity (NewAPIKeyCache cap ttl)"
    by (simp add: NewAPIKeyCache_def APIKeyCache_Size_def)
  have F: "(\<lambda>r (now, k, v). case r of None \<Rightarrow> None | Some c \<Rightarrow> APIKeyCache_Set now c k v) =
      (\<lambda>r (now, a). case r of None \<Rightarrow> None | Some c \<Rightarrow> (case a of (k, v) \<Rightarrow> APIKeyCache_Set now c k v))"
    by (intro ext) (auto split: option.splits)
  show ?thesis
    unfolding F C [symmetric] using apikeys.run_bounded [OF NewAPIKeyCache_inv Z, of calls] by blast
qed

end
