(* ===== verification/Token_Service.thy ===== *)
theory Token_Service
  imports Repository Domain_Token Lru_Cache
begin

text \<open>
  \<open>internal/core/service/token.go\<close>: token validation with an optional touch, the nonce check, and
  constant-time comparison. The service's state is the repository's state and the nonce cache.
  \<open>Validate\<close> returns the response and the error; \<open>None\<close> from \<open>CheckNonce\<close> is a call
  that does not return (the cache's eviction loop).
\<close>

section \<open>Definitions\<close>

record token_service =
  ts_nonceCache :: nonce_cache
  ts_timestampWindow :: int

record token_service_config =
  tc_NonceCacheSize :: int
  tc_NonceTTL :: int
  tc_TimestampWindow :: int

definition DefaultTokenServiceConfig :: token_service_config where
  "DefaultTokenServiceConfig =
     \<lparr> tc_NonceCacheSize = 100000, tc_NonceTTL = 60 * Second, tc_TimestampWindow = 30 * Second \<rparr>"

definition NewTokenService :: "token_service_config option \<Rightarrow> token_service" where
  "NewTokenService config0 =
     (let config = (case config0 of None \<Rightarrow> DefaultTokenServiceConfig | Some c \<Rightarrow> c) in
      \<lparr> ts_nonceCache = NewNonceCache (tc_NonceCacheSize config) (tc_NonceTTL config),
        ts_timestampWindow = tc_TimestampWindow config \<rparr>)"

definition ComputeTokenHash :: "string \<Rightarrow> string" where
  "ComputeTokenHash token = HashToken token"

record validate_token_request =
  vr_Token :: string
  vr_Touch :: bool
  vr_ClientIP :: string
  vr_UserAgent :: string

text \<open>The session is nil exactly when \<open>Valid\<close> is false; the error comes beside it.\<close>

record validate_token_response =
  vp_Valid :: bool
  vp_Session :: "session option"

abbreviation invalid_response :: validate_token_response where
  "invalid_response \<equiv> \<lparr> vp_Valid = False, vp_Session = None \<rparr>"

definition TokenService_Validate ::
  "'r token_repo \<Rightarrow> int \<Rightarrow> 'r \<Rightarrow> validate_token_request
     \<Rightarrow> 'r \<times> validate_token_response \<times> go_error option" where
  "TokenService_Validate T now r req =
     (if \<not> ValidateTokenFormat (vr_Token req) then (r, invalid_response, Some ErrTokenMalformed)
      else
        (case tr_GetSessionByTokenHash T now r (ComputeTokenHash (vr_Token req)) of
           (r1, Inl err) \<Rightarrow> (r1, invalid_response, Some (WithCause ErrTokenInvalid err))
         | (r1, Inr sess) \<Rightarrow>
             if Session_IsExpired now sess then (r1, invalid_response, Some ErrSessionExpired)
             else if S_IsDeleted sess then (r1, invalid_response, Some ErrSessionNotFound)
             else if vr_Touch req then
               (let updated = Session_IncrVersion
                                (Session_Touch now (vr_ClientIP req) (vr_UserAgent req) sess) in
                case tr_UpdateSession T now r1 updated of
                  (r2, Some _) \<Rightarrow> (r2, \<lparr> vp_Valid = True, vp_Session = Some sess \<rparr>, None)
                | (r2, None) \<Rightarrow> (r2, \<lparr> vp_Valid = True, vp_Session = Some updated \<rparr>, None))
             else (r1, \<lparr> vp_Valid = True, vp_Session = Some sess \<rparr>, None)))"

abbreviation MaxNonceLength :: nat where "MaxNonceLength \<equiv> 256"

definition CheckNonce ::
  "int \<Rightarrow> token_service \<Rightarrow> string \<Rightarrow> int \<Rightarrow> (token_service \<times> go_error option) option" where
  "CheckNonce now ts nonce timestamp =
     (if nonce = '''' then Some (ts, Some (WithDetails ErrInvalidArgument ''nonce cannot be empty''))
      else if length nonce > MaxNonceLength then
        Some (ts, Some (WithDetails ErrInvalidArgument ''nonce too long (max 256)''))
      else
        let diff0 = i64 (UnixMilli now - timestamp);
            diff = (if diff0 < 0 then i64 (- diff0) else diff0);
            windowMs = Milliseconds (ts_timestampWindow ts)
        in if diff > windowMs then
             Some (ts, Some (WithDetails ErrTimestampSkew ''timestamp outside acceptable window''))
           else
             map_option (\<lambda>(c, added).
               (ts \<lparr> ts_nonceCache := c \<rparr>,
                if added then None
                else Some (WithDetails ErrNonceReplay ''nonce has been used before'')))
               (NonceCache_AddIfAbsent now (ts_nonceCache ts) nonce))"

text \<open>\<open>subtle.ConstantTimeCompare\<close>: different lengths differ at once; else the differences of all
  bytes are or-ed together.\<close>

definition ConstantTimeCompare :: "bytes \<Rightarrow> bytes \<Rightarrow> nat" where
  "ConstantTimeCompare x y =
     (if length x \<noteq> length y then 0
      else if foldl (\<lambda>v (a, b). v OR (a XOR b)) 0 (zip x y) = 0 then 1 else 0)"

definition VerifyTokenHash :: "string \<Rightarrow> string \<Rightarrow> bool" where
  "VerifyTokenHash token expectedHash \<longleftrightarrow>
     ConstantTimeCompare (bytes_of_string (ComputeTokenHash token)) (bytes_of_string expectedHash) = 1"

section \<open>Comparison\<close>

lemma or_eq_0_iff: "(a :: byte) OR b = 0 \<longleftrightarrow> a = 0 \<and> b = 0"
  by (auto simp: bit_eq_iff bit_simps)

lemma xor_eq_0_iff: "(a :: byte) XOR b = 0 \<longleftrightarrow> a = b"
  by (auto simp: bit_eq_iff bit_simps)

lemma fold_or_zero:
  "length x = length y \<Longrightarrow> foldl (\<lambda>v (a, b). v OR (a XOR b)) acc (zip x y) = 0 \<longleftrightarrow> acc = (0::byte) \<and> x = y"
  by (induction x y arbitrary: acc rule: list_induct2) (auto simp: or_eq_0_iff xor_eq_0_iff)

lemma ConstantTimeCompare_iff: "ConstantTimeCompare x y = 1 \<longleftrightarrow> x = y"
  using fold_or_zero [of x y 0] by (auto simp: ConstantTimeCompare_def)

lemma bytes_of_string_inj: "bytes_of_string s = bytes_of_string t \<longleftrightarrow> s = t"
proof -
  have u: "unat (of_char c :: byte) = of_char c" for c
    using nat_of_char_less_256 [of c]
    by (subst of_nat_of_char [symmetric]) (simp only: unat_of_nat, simp)
  have "inj (of_char :: char \<Rightarrow> byte)"
  proof (rule injI)
    fix c d assume "(of_char c :: byte) = of_char d"
    then have "(of_char c :: nat) = of_char d" by (metis u)
    then show "c = d" by simp
  qed
  then show ?thesis by (simp add: inj_map_eq_map)
qed

lemma VerifyTokenHash_iff: "VerifyTokenHash t h \<longleftrightarrow> HashToken t = h"
  unfolding VerifyTokenHash_def ConstantTimeCompare_iff bytes_of_string_inj ComputeTokenHash_def ..

section \<open>Nonces\<close>

definition ts_ok :: "token_service \<Rightarrow> bool" where
  "ts_ok ts \<longleftrightarrow> lru_inv N_nonce (ts_nonceCache ts) \<and> 1 \<le> L_capacity (ts_nonceCache ts)"

lemma CheckNonce_returns:
  assumes "ts_ok ts"
  shows "\<exists>ts' e. CheckNonce now ts n t = Some (ts', e) \<and> ts_ok ts'"
proof -
  obtain c b where "NonceCache_AddIfAbsent now (ts_nonceCache ts) n = Some (c, b)" "lru_inv N_nonce c"
    "L_capacity c = L_capacity (ts_nonceCache ts)"
    using AddIfAbsent_returns [of "ts_nonceCache ts" now n] assms by (auto simp: ts_ok_def)
  then show ?thesis using assms by (auto simp: CheckNonce_def Let_def ts_ok_def)
qed

lemma CheckNonce_accept:
  assumes "CheckNonce now ts n t = Some (ts', None)"
  shows "n \<noteq> ''''" "length n \<le> MaxNonceLength"
    "NonceCache_AddIfAbsent now (ts_nonceCache ts) n = Some (ts_nonceCache ts', True)"
  using assms by (auto simp: CheckNonce_def Let_def split: if_splits)

text \<open>Away from the one difference that overflows, an accepted timestamp is within the window.\<close>

lemma CheckNonce_window:
  assumes "CheckNonce now ts n t = Some (ts', None)"
    and "in_i64 (UnixMilli now - t)" "UnixMilli now - t \<noteq> - (2 ^ 63)"
  shows "\<bar>UnixMilli now - t\<bar> \<le> Milliseconds (ts_timestampWindow ts)"
proof -
  have "i64 (- (UnixMilli now - t)) = - (UnixMilli now - t)"
    using assms(2,3) by (intro i64_id) (auto simp: in_i64_def)
  then show ?thesis
    using assms(1) i64_id [OF assms(2)] by (auto simp: CheckNonce_def Let_def split: if_splits)
qed

section \<open>Validation against a repository\<close>

context session_repository
begin

lemma Validate_malformed:
  "\<not> ValidateTokenFormat (vr_Token req) \<Longrightarrow>
     TokenService_Validate T now r req = (r, invalid_response, Some ErrTokenMalformed)"
  by (simp add: TokenService_Validate_def)

lemma Validate_unknown:
  assumes "inv r" "ValidateTokenFormat (vr_Token req)" "\<not> token_used (\<alpha> r) (HashToken (vr_Token req))"
  shows "TokenService_Validate T now r req =
    (r, invalid_response, Some (WithCause ErrTokenInvalid ErrTokenInvalid))"
  using assms token_miss [OF assms(1), of "HashToken (vr_Token req)"]
  by (simp add: TokenService_Validate_def ComputeTokenHash_def)

lemma Validate_expired:
  assumes "inv r" "ValidateTokenFormat (vr_Token req)" "\<alpha> r i = Some s"
    and "S_TokenHash s = HashToken (vr_Token req)" "Session_IsExpired now s"
  shows "TokenService_Validate T now r req =
    (r, invalid_response, Some (WithCause ErrTokenInvalid ErrSessionExpired))"
  using assms token_hit [OF assms(1,3)] by (simp add: TokenService_Validate_def ComputeTokenHash_def)

lemma Validate_ok:
  assumes "inv r" "ValidateTokenFormat (vr_Token req)" "\<alpha> r i = Some s"
    and "S_TokenHash s = HashToken (vr_Token req)" "\<not> Session_IsExpired now s" "\<not> S_IsDeleted s"
    and "\<not> vr_Touch req"
  shows "TokenService_Validate T now r req = (r, \<lparr> vp_Valid = True, vp_Session = Some s \<rparr>, None)"
  using assms token_hit [OF assms(1,3)] by (simp add: TokenService_Validate_def ComputeTokenHash_def)

lemma Validate_sound:
  assumes "inv r" "TokenService_Validate T now r req = (r', resp, e)" "vp_Valid resp"
  shows "inv r' \<and> e = None \<and> ValidateTokenFormat (vr_Token req) \<and>
    (\<exists>i s. \<alpha> r i = Some s \<and> S_TokenHash s = HashToken (vr_Token req) \<and>
       \<not> Session_IsExpired now s \<and> \<not> S_IsDeleted s)"
proof -
  have fmt: "ValidateTokenFormat (vr_Token req)"
    using assms(2,3) Validate_malformed [of req now r] by (cases "ValidateTokenFormat (vr_Token req)") auto
  have "token_used (\<alpha> r) (HashToken (vr_Token req))"
    using assms(2,3) Validate_unknown [OF assms(1) fmt, of now]
    by (cases "token_used (\<alpha> r) (HashToken (vr_Token req))") auto
  then obtain i s where s: "\<alpha> r i = Some s" "S_TokenHash s = HashToken (vr_Token req)"
    by (auto simp: token_used_def)
  have live: "\<not> Session_IsExpired now s"
    using assms(2,3) Validate_expired [OF assms(1) fmt s, of now] by (cases "Session_IsExpired now s") auto
  have hit: "tr_GetSessionByTokenHash T now r (HashToken (vr_Token req)) = (r, Inr s)"
    using token_hit [OF assms(1) s(1), of now] s(2) live by simp
  let ?u = "Session_IncrVersion (Session_Touch now (vr_ClientIP req) (vr_UserAgent req) s)"
  have "owner_kept (\<alpha> r) ?u"
    using s(1) keyed_alpha [OF assms(1)] by (auto simp: owner_kept_def keyed_def)
  then have "inv r'' " if "tr_UpdateSession T now r ?u = (r'', x)" for r'' x
    using touch_alpha [OF assms(1) _ that] by blast
  moreover have "\<not> S_IsDeleted s"
    using assms(2,3) hit fmt live by (auto simp: TokenService_Validate_def ComputeTokenHash_def)
  ultimately have "inv r' \<and> e = None"
    using assms(1,2) hit fmt live
    by (auto simp: TokenService_Validate_def ComputeTokenHash_def Let_def split: if_splits prod.splits option.splits)
  then show ?thesis using fmt s live \<open>\<not> S_IsDeleted s\<close> by blast
qed

end

section \<open>Properties\<close>

text \<open>The nonce check is exact.  For a service whose cache was built with room, and a timestamp
  whose distance to the clock is an int64 other than the smallest, the check returns; it accepts exactly
  the nonces of 1 to 256 bytes whose timestamp is inside the window and that are not in the cache with
  time left; an accepted nonce is in the cache afterwards, a refusal names its reason.\<close>

lemma check_nonce_exact:
  assumes "ts_ok ts" "in_i64 (UnixMilli now - t)" "UnixMilli now - t \<noteq> - (2 ^ 63)"
  shows "\<exists>ts' e. CheckNonce now ts n t = Some (ts', e) \<and> ts_ok ts' \<and>
    e = (if n = '''' then Some (WithDetails ErrInvalidArgument ''nonce cannot be empty'')
         else if 256 < length n then Some (WithDetails ErrInvalidArgument ''nonce too long (max 256)'')
         else if Milliseconds (ts_timestampWindow ts) < \<bar>UnixMilli now - t\<bar>
           then Some (WithDetails ErrTimestampSkew ''timestamp outside acceptable window'')
         else if \<exists>x \<in> set (L_order (ts_nonceCache ts)). N_nonce x = n \<and> now - N_createdAt x < L_ttl (ts_nonceCache ts)
           then Some (WithDetails ErrNonceReplay ''nonce has been used before'')
         else None)"
proof -
  have D: "i64 (UnixMilli now - t) = UnixMilli now - t" "i64 (t - UnixMilli now) = t - UnixMilli now"
    using assms(2,3) by (auto intro!: i64_id simp: in_i64_def)
  obtain c b where A: "NonceCache_AddIfAbsent now (ts_nonceCache ts) n = Some (c, b)" "lru_inv N_nonce c"
    "L_capacity c = L_capacity (ts_nonceCache ts)"
    "b \<longleftrightarrow> \<not> (\<exists>x \<in> set (L_order (ts_nonceCache ts)). N_nonce x = n \<and> now - N_createdAt x < L_ttl (ts_nonceCache ts))"
    using AddIfAbsent_returns [of "ts_nonceCache ts" now n] assms(1) by (auto simp: ts_ok_def)
  then have ok: "ts_ok (ts \<lparr> ts_nonceCache := c \<rparr>)" using assms(1) by (simp add: ts_ok_def)
  show ?thesis
  proof (cases "n = '''' \<or> 256 < length n \<or> Milliseconds (ts_timestampWindow ts) < \<bar>UnixMilli now - t\<bar>")
    case True
    then show ?thesis using assms(1) D by (auto simp: CheckNonce_def Let_def)
  next
    case False
    have "CheckNonce now ts n t = Some (ts \<lparr> ts_nonceCache := c \<rparr>,
        if b then None else Some (WithDetails ErrNonceReplay ''nonce has been used before''))"
      using False D A(1) by (auto simp: CheckNonce_def Let_def)
    with False A(4) ok show ?thesis by auto
  qed
qed

text \<open>The window check is defeated by one timestamp.  The difference to a timestamp exactly
  \<open>2 ^ 63\<close> milliseconds before the clock wraps to the smallest int64, whose negation is itself, so the
  check accepts the request although its timestamp is far outside every window.\<close>

lemma check_nonce_overflow_accepts:
  assumes "n \<noteq> ''''" "length n \<le> 256" "ts_ok ts" "0 \<le> Milliseconds (ts_timestampWindow ts)"
    and "n \<notin> N_nonce ` set (L_order (ts_nonceCache ts))"
  shows "\<exists>ts'. CheckNonce now ts n (UnixMilli now - 2 ^ 63) = Some (ts', None)"
proof -
  obtain c b where A: "NonceCache_AddIfAbsent now (ts_nonceCache ts) n = Some (c, b)"
    "b \<longleftrightarrow> \<not> (\<exists>x \<in> set (L_order (ts_nonceCache ts)). N_nonce x = n \<and> now - N_createdAt x < L_ttl (ts_nonceCache ts))"
    using AddIfAbsent_returns [of "ts_nonceCache ts" now n] assms(3) by (auto simp: ts_ok_def)
  have "i64 (2 ^ 63) = - (2 ^ 63)" by (simp add: i64_def)
  then show ?thesis using A assms by (auto simp: CheckNonce_def Let_def)
qed

text \<open>The constant-time comparison of hashes decides equality, so a token verifies against exactly
  its own hash.\<close>

lemma verify_token_hash_exact: "VerifyTokenHash t h \<longleftrightarrow> HashToken t = h"
  by (rule VerifyTokenHash_iff)

end
