(* ===== verification/Session_Service.thy ===== *)
theory Session_Service
  imports Token_Service
begin

text \<open>
  The session service: \<open>internal/core/service/session.go\<close> and
  \<open>internal/core/service/session_lifecycle.go\<close>. Each method is a function from the
  repository's state and the request to the new state and the response or error.

  Between its calls to the repository a method holds no lock, so other requests may run there:
  the argument \<open>env\<close> is what they do to the state at that point, any function the theorems
  quantify over. Theorems are proved in the locale \<open>session_repository\<close>.
\<close>

section \<open>Requests and responses\<close>

record create_session_request =
  cq_UserID :: string
  cq_DeviceID :: string
  cq_Data :: data_map
  cq_TTL :: int
  cq_Token :: string
  cq_CreatedBy :: string
  cq_ClientIP :: string
  cq_UserAgent :: string

record create_session_response =
  cr_SessionID :: string
  cr_Token :: string
  cr_ExpiresAt :: int
  cr_Session :: session

record update_session_request =
  uq_SessionID :: string
  uq_UserID :: string
  uq_DeviceID :: string
  uq_Data :: data_map
  uq_TTL :: int

record create_with_token_request =
  wq_SessionID :: string
  wq_UserID :: string
  wq_Token :: string
  wq_DeviceID :: string
  wq_Data :: data_map
  wq_TTL :: int
  wq_ClientIP :: string
  wq_UserAgent :: string

record create_with_id_request =
  iq_SessionID :: string
  iq_UserID :: string
  iq_DeviceID :: string
  iq_Data :: data_map
  iq_TTL :: int
  iq_ClientIP :: string
  iq_UserAgent :: string

record list_sessions_response =
  lr_Items :: "session list"
  lr_Total :: nat
  lr_Page :: int
  lr_PageSize :: int

section \<open>Creation\<close>

definition quota_details :: "nat \<Rightarrow> string" where
  "quota_details n =
     ''user has '' @ FormatInt (int n) @ '' sessions (max '' @ FormatInt (int MaxSessionsPerUser) @ '')''"

text \<open>The last two steps of the three creating methods: validate and persist.\<close>

definition persist_new ::
  "'r session_repo \<Rightarrow> int \<Rightarrow> 'r \<Rightarrow> session \<Rightarrow> string \<Rightarrow> 'r \<times> (go_error + create_session_response)" where
  "persist_new R now r sess token =
     (case Session_Validate sess of
        Some err \<Rightarrow> (r, Inl err)
      | None \<Rightarrow>
          (case sr_Create R now r sess of
             (r', Some err) \<Rightarrow> (r', Inl (WithCause ErrStorageError err))
           | (r', None) \<Rightarrow>
               (r', Inr \<lparr> cr_SessionID = S_ID sess, cr_Token = token,
                          cr_ExpiresAt = S_ExpiresAt sess, cr_Session = sess \<rparr>)))"

definition data_or_empty :: "data_map \<Rightarrow> data_map" where
  "data_or_empty d = (case d of None \<Rightarrow> Some [] | Some _ \<Rightarrow> d)"

definition ttl_or_default :: "int \<Rightarrow> int" where
  "ttl_or_default ttl = (if ttl = 0 then 24 * Hour else ttl)"

definition choose_token :: "go_error + bytes \<Rightarrow> string \<Rightarrow> go_error + string \<times> string" where
  "choose_token rnd token =
     (if token \<noteq> '''' then
        (if \<not> ValidateTokenFormat token then
           Inl (WithDetails ErrTokenMalformed ''provided token format is invalid'')
         else Inr (token, ComputeTokenHash token))
      else (case GenerateToken rnd of
              Inl err \<Rightarrow> Inl (WithCause ErrInternalServer err)
            | Inr p \<Rightarrow> Inr p))"

definition SessionService_Create ::
  "ext \<Rightarrow> 'r session_repo \<Rightarrow> int \<Rightarrow> go_error + string \<Rightarrow> go_error + bytes \<Rightarrow> ('r \<Rightarrow> 'r) \<Rightarrow> 'r
     \<Rightarrow> create_session_request \<Rightarrow> 'r \<times> (go_error + create_session_response)" where
  "SessionService_Create X R now ulid rnd env r req =
     (if cq_UserID req = '''' then (r, Inl (WithDetails ErrMissingArgument ''user_id is required''))
      else
     (case sr_CountByUserID R r (cq_UserID req) of
        Inl err \<Rightarrow> (r, Inl (WithCause ErrStorageError err))
      | Inr n \<Rightarrow>
          if n \<ge> MaxSessionsPerUser then
            (r, Inl (WithDetails ErrSessionQuotaExceeded (quota_details n)))
          else
     (case choose_token rnd (cq_Token req) of
        Inl err \<Rightarrow> (env r, Inl err)
      | Inr (plainToken, tokenHash) \<Rightarrow>
     (case NewSession X now ulid (cq_UserID req) of
        Inl err \<Rightarrow> (env r, Inl (WithCause ErrInternalServer err))
      | Inr s0 \<Rightarrow>
          (let s1 = s0 \<lparr> S_TokenHash := tokenHash, S_IPAddress := cq_ClientIP req,
                 S_UserAgent := cq_UserAgent req, S_LastAccessIP := cq_ClientIP req,
                 S_LastAccessUA := cq_UserAgent req, S_DeviceID := cq_DeviceID req,
                 S_CreatedBy := cq_CreatedBy req, S_Data := data_or_empty (cq_Data req) \<rparr>
           in persist_new R now (env r) (Session_SetExpiration now (ttl_or_default (cq_TTL req)) s1)
                plainToken)))))"

definition SessionService_CreateWithToken ::
  "ext \<Rightarrow> 'r session_repo \<Rightarrow> int \<Rightarrow> ('r \<Rightarrow> 'r) \<Rightarrow> 'r \<Rightarrow> create_with_token_request
     \<Rightarrow> 'r \<times> (go_error + create_session_response)" where
  "SessionService_CreateWithToken X R now env r req =
     (if wq_SessionID req = '''' then
        (r, Inl (WithDetails ErrMissingArgument ''session_id is required''))
      else if wq_UserID req = '''' then
        (r, Inl (WithDetails ErrMissingArgument ''user_id is required''))
      else if wq_Token req = '''' then
        (r, Inl (WithDetails ErrMissingArgument ''token is required''))
      else if \<not> IsValidSessionID X (wq_SessionID req) then
        (r, Inl (WithDetails ErrInvalidArgument ''invalid session_id format''))
      else if \<not> ValidateTokenFormat (wq_Token req) then
        (r, Inl (WithDetails ErrTokenMalformed ''invalid token format''))
      else
     (case sr_CountByUserID R r (wq_UserID req) of
        Inl err \<Rightarrow> (r, Inl (WithCause ErrStorageError err))
      | Inr n \<Rightarrow>
          if n \<ge> MaxSessionsPerUser then
            (r, Inl (WithDetails ErrSessionQuotaExceeded (quota_details n)))
          else
            (let s1 = Session_zero \<lparr> S_ID := wq_SessionID req, S_UserID := wq_UserID req,
                   S_TokenHash := ComputeTokenHash (wq_Token req), S_IPAddress := wq_ClientIP req,
                   S_UserAgent := wq_UserAgent req, S_LastAccessIP := wq_ClientIP req,
                   S_LastAccessUA := wq_UserAgent req, S_DeviceID := wq_DeviceID req,
                   S_Data := data_or_empty (wq_Data req), S_CreatedAt := UnixMilli now,
                   S_LastActive := UnixMilli now, S_Version := 1 \<rparr>
             in persist_new R now (env r) (Session_SetExpiration now (ttl_or_default (wq_TTL req)) s1)
                  (wq_Token req))))"

definition SessionService_CreateWithID ::
  "ext \<Rightarrow> 'r session_repo \<Rightarrow> int \<Rightarrow> go_error + bytes \<Rightarrow> ('r \<Rightarrow> 'r) \<Rightarrow> 'r \<Rightarrow> create_with_id_request
     \<Rightarrow> 'r \<times> (go_error + create_session_response)" where
  "SessionService_CreateWithID X R now rnd env r req =
     (if iq_SessionID req = '''' then
        (r, Inl (WithDetails ErrMissingArgument ''session_id is required''))
      else if iq_UserID req = '''' then
        (r, Inl (WithDetails ErrMissingArgument ''user_id is required''))
      else if \<not> IsValidSessionID X (iq_SessionID req) then
        (r, Inl (WithDetails ErrInvalidArgument ''invalid session_id format''))
      else
     (case sr_CountByUserID R r (iq_UserID req) of
        Inl err \<Rightarrow> (r, Inl (WithCause ErrStorageError err))
      | Inr n \<Rightarrow>
          if n \<ge> MaxSessionsPerUser then
            (r, Inl (WithDetails ErrSessionQuotaExceeded (quota_details n)))
          else
     (case GenerateToken rnd of
        Inl err \<Rightarrow> (env r, Inl (WithCause ErrInternalServer err))
      | Inr (plainToken, tokenHash) \<Rightarrow>
          (let s1 = Session_zero \<lparr> S_ID := iq_SessionID req, S_UserID := iq_UserID req,
                 S_TokenHash := tokenHash, S_IPAddress := iq_ClientIP req,
                 S_UserAgent := iq_UserAgent req, S_LastAccessIP := iq_ClientIP req,
                 S_LastAccessUA := iq_UserAgent req, S_DeviceID := iq_DeviceID req,
                 S_Data := data_or_empty (iq_Data req), S_CreatedAt := UnixMilli now,
                 S_LastActive := UnixMilli now, S_Version := 1 \<rparr>
           in persist_new R now (env r) (Session_SetExpiration now (ttl_or_default (iq_TTL req)) s1)
                plainToken))))"

section \<open>Queries\<close>

text \<open>The look-up that \<open>Get\<close>, \<open>Update\<close> and \<open>Renew\<close> begin with.\<close>

definition lookup_live :: "'r session_repo \<Rightarrow> int \<Rightarrow> 'r \<Rightarrow> string \<Rightarrow> go_error + session" where
  "lookup_live R now r i =
     (case sr_Get R now r i of
        Inl err \<Rightarrow> Inl (WithCause ErrSessionNotFound err)
      | Inr sess \<Rightarrow>
          if Session_IsExpired now sess then Inl ErrSessionExpired
          else if S_IsDeleted sess then Inl ErrSessionNotFound
          else Inr sess)"

definition SessionService_Get :: "'r session_repo \<Rightarrow> int \<Rightarrow> 'r \<Rightarrow> string \<Rightarrow> go_error + session" where
  "SessionService_Get R now r i =
     (if i = '''' then Inl (WithDetails ErrMissingArgument ''session_id is required'')
      else lookup_live R now r i)"

definition SessionService_List ::
  "'r session_repo \<Rightarrow> int \<Rightarrow> 'r \<Rightarrow> session_filter option \<Rightarrow> (go_error + list_sessions_response) option" where
  "SessionService_List R now r filter0 =
     (let f0 = (case filter0 of None \<Rightarrow> SessionFilter_zero | Some f \<Rightarrow> f);
          f1 = (if F_Page f0 = 0 then f0 \<lparr> F_Page := 1 \<rparr> else f0);
          f2 = (if F_PageSize f1 = 0 then f1 \<lparr> F_PageSize := 20 \<rparr>
                else if F_PageSize f1 > 100 then f1 \<lparr> F_PageSize := 100 \<rparr> else f1);
          f3 = (if F_SortBy f2 = '''' then f2 \<lparr> F_SortBy := ''created_at'' \<rparr> else f2);
          f = (if F_SortOrder f3 = '''' then f3 \<lparr> F_SortOrder := ''desc'' \<rparr> else f3)
      in map_option
           (\<lambda>q. case q of
                  Inl err \<Rightarrow> Inl (WithCause ErrStorageError err)
                | Inr (items, n) \<Rightarrow>
                    Inr \<lparr> lr_Items = items, lr_Total = n, lr_Page = F_Page f, lr_PageSize = F_PageSize f \<rparr>)
           (sr_List R now r f))"

section \<open>Changes\<close>

definition SessionService_Update ::
  "'r session_repo \<Rightarrow> int \<Rightarrow> ('r \<Rightarrow> 'r) \<Rightarrow> 'r \<Rightarrow> update_session_request \<Rightarrow> 'r \<times> (go_error + session)" where
  "SessionService_Update R now env r req =
     (if uq_SessionID req = '''' then
        (r, Inl (WithDetails ErrMissingArgument ''session_id is required''))
      else
     (case lookup_live R now r (uq_SessionID req) of
        Inl err \<Rightarrow> (r, Inl err)
      | Inr sess \<Rightarrow>
          if uq_UserID req \<noteq> '''' \<and> uq_UserID req \<noteq> S_UserID sess then
            (env r, Inl (WithDetails ErrInvalidArgument ''cannot change session user_id (immutable field)''))
          else
            (let oldVersion = S_Version sess;
                 s1 = (if uq_DeviceID req \<noteq> '''' then sess \<lparr> S_DeviceID := uq_DeviceID req \<rparr> else sess);
                 s2 = (if uq_Data req \<noteq> None then s1 \<lparr> S_Data := uq_Data req \<rparr> else s1);
                 s3 = (if uq_TTL req > 0 then Session_SetExpiration now (uq_TTL req) s2 else s2);
                 s4 = Session_IncrVersion (s3 \<lparr> S_LastActive := UnixMilli now \<rparr>)
             in case Session_Validate s4 of
                  Some err \<Rightarrow> (env r, Inl err)
                | None \<Rightarrow>
                    (case sr_Update R now (env r) s4 oldVersion of
                       (r', _, Some err) \<Rightarrow> (r', Inl (WithCause ErrSessionVersionConflict err))
                     | (r', s', None) \<Rightarrow> (r', Inr s')))))"

definition SessionService_Renew ::
  "'r session_repo \<Rightarrow> int \<Rightarrow> ('r \<Rightarrow> 'r) \<Rightarrow> 'r \<Rightarrow> string \<Rightarrow> int \<Rightarrow> 'r \<times> (go_error + int)" where
  "SessionService_Renew R now env r i ttl =
     (if i = '''' then (r, Inl (WithDetails ErrMissingArgument ''session_id is required''))
      else if ttl \<le> 0 then (r, Inl (WithDetails ErrInvalidArgument ''ttl must be positive''))
      else
     (case lookup_live R now r i of
        Inl err \<Rightarrow> (r, Inl err)
      | Inr sess \<Rightarrow>
          (let oldVersion = S_Version sess;
               s1 = Session_IncrVersion
                      ((Session_SetExpiration now ttl sess) \<lparr> S_LastActive := UnixMilli now \<rparr>)
           in case sr_Update R now (env r) s1 oldVersion of
                (r', _, Some err) \<Rightarrow> (r', Inl (WithCause ErrSessionVersionConflict err))
              | (r', s', None) \<Rightarrow> (r', Inr (S_ExpiresAt s')))))"

definition touched :: "int \<Rightarrow> string \<Rightarrow> session \<Rightarrow> session" where
  "touched now ip sess =
     (let s1 = sess \<lparr> S_LastActive := UnixMilli now \<rparr>;
          s2 = (if ip \<noteq> '''' then s1 \<lparr> S_LastAccessIP := ip \<rparr> else s1)
      in Session_IncrVersion s2)"

definition SessionService_Touch ::
  "'r session_repo \<Rightarrow> int \<Rightarrow> ('r \<Rightarrow> 'r) \<Rightarrow> ('r \<Rightarrow> 'r) \<Rightarrow> 'r \<Rightarrow> string \<Rightarrow> string \<Rightarrow> 'r \<times> (go_error + int)" where
  "SessionService_Touch R now env env2 r i ip =
     (if i = '''' then (r, Inl (WithDetails ErrMissingArgument ''session_id is required''))
      else
     (case sr_Get R now r i of
        Inl err \<Rightarrow> (r, Inl err)
      | Inr sess \<Rightarrow>
          if Session_IsExpired now sess then
            (r, Inl (WithDetails ErrSessionExpired (''session '' @ i @ '' has expired'')))
          else
     (case sr_Update R now (env r) (touched now ip sess) (S_Version sess) of
        (r1, s1, None) \<Rightarrow> (r1, Inr (S_LastActive s1))
      | (r1, _, Some err) \<Rightarrow>
          if IsDomainError err ''TM-SESS-4091'' then
            (case sr_Get R now r1 i of
               Inl err \<Rightarrow> (r1, Inl err)
             | Inr sess2 \<Rightarrow>
                 (case sr_Update R now (env2 r1) (touched now ip sess2) (S_Version sess2) of
                    (r2, s2, None) \<Rightarrow> (r2, Inr (S_LastActive s2))
                  | (r2, _, Some err) \<Rightarrow> (r2, Inl (WithCause ErrStorageError err))))
          else (r1, Inl (WithCause ErrStorageError err)))))"

section \<open>Revocation and garbage collection\<close>

definition SessionService_Revoke :: "'r session_repo \<Rightarrow> int \<Rightarrow> 'r \<Rightarrow> string \<Rightarrow> 'r \<times> (go_error + bool)" where
  "SessionService_Revoke R now r i =
     (if i = '''' then (r, Inl (WithDetails ErrMissingArgument ''session_id is required''))
      else
     (case sr_Delete R now r i of
        (r', Some err) \<Rightarrow>
          if IsDomainError err ''TM-SESS-4040'' then (r', Inr True)
          else (r', Inl (WithCause ErrStorageError err))
      | (r', None) \<Rightarrow> (r', Inr True)))"

definition SessionService_RevokeByUser ::
  "'r session_repo \<Rightarrow> int \<Rightarrow> ('r \<Rightarrow> 'r) \<Rightarrow> 'r \<Rightarrow> string \<Rightarrow> 'r \<times> (go_error + nat)" where
  "SessionService_RevokeByUser R now env r u =
     (if u = '''' then (r, Inl (WithDetails ErrMissingArgument ''user_id is required''))
      else
     (case sr_ListByUserID R now r u of
        Inl err \<Rightarrow> (r, Inl (WithCause ErrStorageError err))
      | Inr sessions \<Rightarrow>
          if length sessions > 1000 then
            (r, Inl (WithDetails ErrSessionQuotaExceeded
               (''user has '' @ FormatInt (int (length sessions)) @
                '' sessions, batch revoke limit is 1000'')))
          else
            (case sr_DeleteByUserID R now (env r) u of
               (r', Inl err) \<Rightarrow> (r', Inl (WithCause ErrStorageError err))
             | (r', Inr n) \<Rightarrow> (r', Inr n))))"

definition SessionService_GC :: "'r session_repo \<Rightarrow> int \<Rightarrow> 'r \<Rightarrow> 'r \<times> (go_error + nat)" where
  "SessionService_GC R now r =
     (case sr_DeleteExpired R now r of
        (r', Inl err) \<Rightarrow> (r', Inl (WithCause ErrStorageError err))
      | (r', Inr n) \<Rightarrow> (r', Inr n))"

section \<open>What the methods guarantee\<close>

lemma a_Create_None:
  "a_Create mx m s = (m', None) \<longleftrightarrow>
     Session_Validate s = None \<and> int (card (user_ids m (S_UserID s))) < mx \<and> m (S_ID s) = None \<and>
     (S_TokenHash s = '''' \<or> \<not> token_used m (S_TokenHash s)) \<and> m' = m(S_ID s \<mapsto> s)"
  by (auto simp: a_Create_def)

lemma a_Create_Some: "a_Create mx m s = (m', Some e) \<Longrightarrow> m' = m"
  by (auto simp: a_Create_def split: if_splits)

lemma a_Update_None:
  "a_Update m s v = (m', None) \<longleftrightarrow>
     Session_Validate s = None \<and> (\<exists>e. m (S_ID s) = Some e \<and> S_Version e = v \<and>
       \<not> (S_TokenHash e \<noteq> S_TokenHash s \<and> S_TokenHash s \<noteq> '''' \<and> token_used m (S_TokenHash s))) \<and>
     m' = m(S_ID s \<mapsto> Session_IncrVersion s)"
  by (auto simp: a_Update_def split: option.splits)

lemma a_Update_Some: "a_Update m s v = (m', Some e) \<Longrightarrow> m' = m"
  by (auto simp: a_Update_def split: if_splits option.splits)

lemma choose_token_valid:
  assumes "choose_token rnd token = Inr (p, h)" "token = '''' \<Longrightarrow> \<exists>bs. rnd = Inr bs \<and> length bs = 32"
  shows "ValidateTokenFormat p" "h = HashToken p"
proof -
  have "ValidateTokenFormat p \<and> h = HashToken p"
  proof (cases "token = ''''")
    case True
    with assms(2) obtain bs where bs: "rnd = Inr bs" "length bs = 32" by auto
    with True assms(1) have "GenerateToken (Inr bs) = Inr (p, h)"
      by (auto simp: choose_token_def split: sum.splits)
    with bs show ?thesis using GenerateToken_valid [of bs p h] by simp
  qed (use assms(1) in \<open>auto simp: choose_token_def ComputeTokenHash_def split: if_splits\<close>)
  then show "ValidateTokenFormat p" "h = HashToken p" by auto
qed

lemma NewSession_Inr:
  assumes "NewSession X now ulid u = Inr s"
  shows "S_UserID s = u" "S_Version s = 1" "\<not> S_IsDeleted s" "S_CreatedAt s = UnixMilli now"
    "GenerateSessionID X ulid = Inr (S_ID s)"
  using assms by (auto simp: NewSession_def Session_zero_def split: if_splits sum.splits)

context session_repository
begin

lemma persist_new_ok:
  assumes "inv r" "persist_new R now r sess token = (r', Inr resp)"
  shows "inv r'" "Session_Validate sess = None" "\<alpha> r (S_ID sess) = None"
    "int (card (user_ids (\<alpha> r) (S_UserID sess))) < mx"
    "S_TokenHash sess = '''' \<or> \<not> token_used (\<alpha> r) (S_TokenHash sess)"
    "\<alpha> r' = (\<alpha> r)(S_ID sess \<mapsto> sess)" "cr_Session resp = sess" "cr_Token resp = token"
    "cr_SessionID resp = S_ID sess" "cr_ExpiresAt resp = S_ExpiresAt sess"
proof -
  obtain e where e: "sr_Create R now r sess = (r', e)" "Session_Validate sess = None" "e = None"
    "resp = \<lparr> cr_SessionID = S_ID sess, cr_Token = token, cr_ExpiresAt = S_ExpiresAt sess, cr_Session = sess \<rparr>"
    using assms(2) by (auto simp: persist_new_def split: option.splits prod.splits)
  from create_alpha [OF assms(1) e(1)] e(3)
  have "inv r'" "a_Create mx (\<alpha> r) sess = (\<alpha> r', None)" by auto
  then show "inv r'" "Session_Validate sess = None" "\<alpha> r (S_ID sess) = None"
    "int (card (user_ids (\<alpha> r) (S_UserID sess))) < mx"
    "S_TokenHash sess = '''' \<or> \<not> token_used (\<alpha> r) (S_TokenHash sess)"
    "\<alpha> r' = (\<alpha> r)(S_ID sess \<mapsto> sess)" "cr_Session resp = sess" "cr_Token resp = token"
    "cr_SessionID resp = S_ID sess" "cr_ExpiresAt resp = S_ExpiresAt sess"
    using e by (auto simp: a_Create_None)
qed

lemma persist_new_error:
  assumes "inv r" "persist_new R now r sess token = (r', Inl err)"
  shows "inv r'" "\<alpha> r' = \<alpha> r"
proof -
  have "inv r' \<and> \<alpha> r' = \<alpha> r"
  proof (cases "Session_Validate sess")
    case (Some e)
    with assms show ?thesis by (simp add: persist_new_def)
  next
    case None
    then obtain e where "sr_Create R now r sess = (r', Some e)"
      using assms(2) by (auto simp: persist_new_def split: option.splits prod.splits)
    from create_alpha [OF assms(1) this] show ?thesis by (metis a_Create_Some)
  qed
  then show "inv r'" "\<alpha> r' = \<alpha> r" by auto
qed

lemma Create_ok:
  assumes "inv (env r)" "SessionService_Create X R now ulid rnd env r req = (r', Inr resp)"
    and rnd: "cq_Token req = '''' \<Longrightarrow> \<exists>bs. rnd = Inr bs \<and> length bs = 32"
  obtains sess where "inv r'" "cr_Session resp = sess" "\<alpha> r' = (\<alpha> (env r))(S_ID sess \<mapsto> sess)"
    "cr_SessionID resp = S_ID sess" "ValidateTokenFormat (cr_Token resp)"
    "S_TokenHash sess = HashToken (cr_Token resp)" "S_UserID sess = cq_UserID req"
    "\<alpha> (env r) (S_ID sess) = None" "Session_Validate sess = None" "\<not> S_IsDeleted sess"
    "S_ExpiresAt sess = UnixMilli (now + ttl_or_default (cq_TTL req))"
    "int (card (user_ids (\<alpha> (env r)) (S_UserID sess))) < mx"
    "\<not> token_used (\<alpha> (env r)) (S_TokenHash sess)"
proof -
  obtain p h s0 where ch: "choose_token rnd (cq_Token req) = Inr (p, h)"
    and new: "NewSession X now ulid (cq_UserID req) = Inr s0"
    and per: "persist_new R now (env r) (Session_SetExpiration now (ttl_or_default (cq_TTL req))
      (s0 \<lparr> S_TokenHash := h, S_IPAddress := cq_ClientIP req,
                 S_UserAgent := cq_UserAgent req, S_LastAccessIP := cq_ClientIP req,
                 S_LastAccessUA := cq_UserAgent req, S_DeviceID := cq_DeviceID req,
                 S_CreatedBy := cq_CreatedBy req, S_Data := data_or_empty (cq_Data req) \<rparr>)) p = (r', Inr resp)"
    using assms(2) by (auto simp: SessionService_Create_def Let_def split: if_splits sum.splits)
  note P = persist_new_ok [OF assms(1) per]
  note N = NewSession_Inr [OF new]
  note C = choose_token_valid [OF ch rnd]
  show ?thesis
    by (rule that [OF P(1) P(7) P(6)]) (use P N C in \<open>simp_all add: Session_SetExpiration_def\<close>)
qed

text \<open>The token handed out by \<open>Create\<close> validates to the session that was created, until it expires.\<close>

lemma Create_then_Validate:
  assumes "inv (env r)" "SessionService_Create X R now ulid rnd env r req = (r', Inr resp)"
    and "cq_Token req = '''' \<Longrightarrow> \<exists>bs. rnd = Inr bs \<and> length bs = 32"
    and "\<not> Session_IsExpired t (cr_Session resp)"
  shows "TokenService_Validate T t r' \<lparr> vr_Token = cr_Token resp, vr_Touch = False, vr_ClientIP = ip,
      vr_UserAgent = ua \<rparr> = (r', \<lparr> vp_Valid = True, vp_Session = Some (cr_Session resp) \<rparr>, None)"
    and "SessionService_Get R t r' (cr_SessionID resp) = (if cr_SessionID resp = '''' then
      Inl (WithDetails ErrMissingArgument ''session_id is required'') else Inr (cr_Session resp))"
proof -
  obtain sess where S: "inv r'" "cr_Session resp = sess" "\<alpha> r' = (\<alpha> (env r))(S_ID sess \<mapsto> sess)"
    "cr_SessionID resp = S_ID sess" "ValidateTokenFormat (cr_Token resp)"
    "S_TokenHash sess = HashToken (cr_Token resp)" "\<not> S_IsDeleted sess"
    using Create_ok [OF assms(1-3)] by metis
  have at: "\<alpha> r' (S_ID sess) = Some sess" using S(3) by simp
  show "TokenService_Validate T t r' \<lparr> vr_Token = cr_Token resp, vr_Touch = False, vr_ClientIP = ip,
      vr_UserAgent = ua \<rparr> = (r', \<lparr> vp_Valid = True, vp_Session = Some (cr_Session resp) \<rparr>, None)"
    using Validate_ok [OF S(1) _ at] S assms(4) by simp
  show "SessionService_Get R t r' (cr_SessionID resp) = (if cr_SessionID resp = '''' then
      Inl (WithDetails ErrMissingArgument ''session_id is required'') else Inr (cr_Session resp))"
    using at S assms(4) get_alpha [OF S(1)]
    by (simp add: SessionService_Get_def lookup_live_def a_Get_def)
qed

lemma lookup_live_Inr:
  assumes "inv r" "lookup_live R now r i = Inr s"
  shows "\<alpha> r i = Some s" "S_ID s = i" "\<not> Session_IsExpired now s" "\<not> S_IsDeleted s"
  using assms keyed_alpha [OF assms(1)] get_alpha [OF assms(1), of now i]
  by (auto simp: lookup_live_def a_Get_def keyed_def split: sum.splits option.splits if_splits)

text \<open>An optimistic write: the session read at \<open>r\<close>, changed in fields other than owner and token,
  and written at \<open>q\<close>.\<close>

lemma write_back:
  assumes "inv q" "\<alpha> q i = Some e" "S_ID s1 = i" "S_UserID s1 = S_UserID e"
    "S_TokenHash s1 = S_TokenHash e" "sr_Update R now q s1 v = (r', s', x)"
  shows "inv r'"
    and "x = None \<Longrightarrow> S_Version e = v \<and> s' = Session_IncrVersion s1 \<and>
      \<alpha> r' = (\<alpha> q)(i \<mapsto> Session_IncrVersion s1) \<and> Session_Validate s1 = None"
    and "x \<noteq> None \<Longrightarrow> \<alpha> r' = \<alpha> q"
    and "S_Version e \<noteq> v \<Longrightarrow> x \<noteq> None"
    and "S_Version e = v \<Longrightarrow> Session_Validate s1 = None \<Longrightarrow> x \<noteq> None \<Longrightarrow> \<exists>y. x = Some y \<and> fault y"
proof -
  have own: "owner_kept (\<alpha> q) s1" using assms(2-5) by (simp add: owner_kept_def)
  note U = update_alpha [OF assms(1) own assms(6)]
  show "inv r'" using U by simp
  show "x = None \<Longrightarrow> S_Version e = v \<and> s' = Session_IncrVersion s1 \<and>
      \<alpha> r' = (\<alpha> q)(i \<mapsto> Session_IncrVersion s1) \<and> Session_Validate s1 = None"
    using U assms(2,3) a_Update_None [of "\<alpha> q" s1 v "\<alpha> r'"] by auto
  show "x \<noteq> None \<Longrightarrow> \<alpha> r' = \<alpha> q"
    using U a_Update_Some [of "\<alpha> q" s1 v "\<alpha> r'"] by (metis not_None_eq)
  show "S_Version e \<noteq> v \<Longrightarrow> x \<noteq> None"
    using U assms(2,3) a_Update_None [of "\<alpha> q" s1 v "\<alpha> r'"] by (cases x) auto
  show "S_Version e = v \<Longrightarrow> Session_Validate s1 = None \<Longrightarrow> x \<noteq> None \<Longrightarrow> \<exists>y. x = Some y \<and> fault y"
    using U assms(2,3,5) by (auto simp: a_Update_def)
qed

lemma Renew_ok:
  assumes "inv r" "inv (env r)" "\<And>s. \<alpha> r i = Some s \<Longrightarrow> \<exists>e. \<alpha> (env r) i = Some e \<and>
      S_UserID e = S_UserID s \<and> S_TokenHash e = S_TokenHash s"
    and "SessionService_Renew R now env r i ttl = (r', Inr x)"
  shows "inv r'" "0 < ttl" "x = UnixMilli (now + ttl)"
    "\<exists>s s'. \<alpha> r i = Some s \<and> \<alpha> r' = (\<alpha> (env r))(i \<mapsto> s') \<and> S_ExpiresAt s' = x \<and>
       S_LastActive s' = UnixMilli now \<and> S_Version s' = S_Version s + 2 \<and>
       S_TokenHash s' = S_TokenHash s \<and> S_UserID s' = S_UserID s \<and>
       (\<exists>e. \<alpha> (env r) i = Some e \<and> S_Version e = S_Version s)"
proof -
  obtain s where live: "lookup_live R now r i = Inr s" and ttl: "0 < ttl" and i: "i \<noteq> ''''"
    using assms(4) by (auto simp: SessionService_Renew_def Let_def split: if_splits sum.splits)
  let ?s1 = "Session_IncrVersion ((Session_SetExpiration now ttl s) \<lparr> S_LastActive := UnixMilli now \<rparr>)"
  note L = lookup_live_Inr [OF assms(1) live]
  obtain e where e: "\<alpha> (env r) i = Some e" "S_UserID e = S_UserID s" "S_TokenHash e = S_TokenHash s"
    using assms(3) [OF L(1)] by blast
  obtain s' where up: "sr_Update R now (env r) ?s1 (S_Version s) = (r', s', None)" and x: "x = S_ExpiresAt s'"
    using assms(4) live ttl i by (auto simp: SessionService_Renew_def Let_def split: prod.splits option.splits)
  have "S_ID ?s1 = i" "S_UserID ?s1 = S_UserID e" "S_TokenHash ?s1 = S_TokenHash e"
    using L(2) e by (simp_all add: Session_SetExpiration_def)
  note W = write_back [OF assms(2) e(1) this up]
  show "inv r'" by (rule W(1))
  show "0 < ttl" by (rule ttl)
  show X: "x = UnixMilli (now + ttl)" using x W(2) by (simp add: Session_SetExpiration_def)
  show "\<exists>s s'. \<alpha> r i = Some s \<and> \<alpha> r' = (\<alpha> (env r))(i \<mapsto> s') \<and> S_ExpiresAt s' = x \<and>
       S_LastActive s' = UnixMilli now \<and> S_Version s' = S_Version s + 2 \<and>
       S_TokenHash s' = S_TokenHash s \<and> S_UserID s' = S_UserID s \<and>
       (\<exists>e. \<alpha> (env r) i = Some e \<and> S_Version e = S_Version s)"
    using L(1) W(2) X e
    by (intro exI [of _ s] exI [of _ "Session_IncrVersion ?s1"])
      (simp add: Session_SetExpiration_def Session_IncrVersion_def)
qed

text \<open>No lost update: when another request changed the version in between, \<open>Renew\<close> fails and
  leaves that request's state.\<close>

lemma Renew_conflict:
  assumes "inv r" "inv (env r)" "lookup_live R now r i = Inr s" "0 < ttl" "i \<noteq> ''''"
    and "\<alpha> (env r) i = Some e" "S_UserID e = S_UserID s" "S_TokenHash e = S_TokenHash s"
    and "S_Version e \<noteq> S_Version s"
  shows "\<exists>r' err. SessionService_Renew R now env r i ttl = (r', Inl (WithCause ErrSessionVersionConflict err)) \<and>
    inv r' \<and> \<alpha> r' = \<alpha> (env r)"
proof -
  let ?s1 = "Session_IncrVersion ((Session_SetExpiration now ttl s) \<lparr> S_LastActive := UnixMilli now \<rparr>)"
  note L = lookup_live_Inr [OF assms(1,3)]
  obtain r' s' x where up: "sr_Update R now (env r) ?s1 (S_Version s) = (r', s', x)" by (metis surj_pair)
  have "S_ID ?s1 = i" "S_UserID ?s1 = S_UserID e" "S_TokenHash ?s1 = S_TokenHash e"
    using L(2) assms(7,8) by (simp_all add: Session_SetExpiration_def)
  note W = write_back [OF assms(2,6) this up]
  obtain err where "x = Some err" using W(4) assms(9) by blast
  then show ?thesis
    using up assms(3-5) W(1,3) by (auto simp: SessionService_Renew_def Let_def)
qed

lemma Revoke_spec:
  assumes "inv r" "SessionService_Revoke R now r i = (r', Inr b)"
    and "\<And>x. fault x \<Longrightarrow> \<not> IsDomainError x ''TM-SESS-4040''"
  shows "inv r'" "\<alpha> r' = (\<alpha> r)(i := None)"
proof -
  have i: "i \<noteq> ''''" using assms(2) by (auto simp: SessionService_Revoke_def)
  obtain e where d: "sr_Delete R now r i = (r', e)"
    using assms(2) i
    by (auto simp: SessionService_Revoke_def split: prod.splits option.splits if_splits)
  note D = delete_alpha [OF assms(1) d]
  from i have "e = None \<or> (\<exists>x. e = Some x \<and> IsDomainError x ''TM-SESS-4040'')"
    using assms(2) d by (auto simp: SessionService_Revoke_def split: option.splits if_splits)
  then have "(\<alpha> r', e) = a_Delete (\<alpha> r) i" using D assms(3) by auto
  then show "\<alpha> r' = (\<alpha> r)(i := None)" by (auto simp: a_Delete_def fun_eq_iff split: if_splits)
  show "inv r'" using D by simp
qed

lemma Revoke_then_Validate:
  assumes "inv r" "\<alpha> r i = Some s" "S_TokenHash s = HashToken (vr_Token req)"
    and "SessionService_Revoke R now r i = (r', Inr b)" "ValidateTokenFormat (vr_Token req)"
    and "\<And>x. fault x \<Longrightarrow> \<not> IsDomainError x ''TM-SESS-4040''"
  shows "TokenService_Validate T t r' req =
    (r', invalid_response, Some (WithCause ErrTokenInvalid ErrTokenInvalid))"
proof -
  have D: "inv r'" "\<alpha> r' = (\<alpha> r)(i := None)"
    using Revoke_spec [OF assms(1,4)] assms(6) by blast+
  have "\<not> token_used (\<alpha> r') (HashToken (vr_Token req))"
  proof
    assume "token_used (\<alpha> r') (HashToken (vr_Token req))"
    then obtain j a where a: "j \<noteq> i" "\<alpha> r j = Some a" "S_TokenHash a = HashToken (vr_Token req)"
      unfolding D(2) token_used_def by (auto split: if_splits)
    then show False using token_unique [OF assms(1,2) a(2)] assms(3) by simp
  qed
  then show ?thesis using Validate_unknown [OF D(1) assms(5)] by simp
qed

lemma RevokeByUser_spec:
  assumes "inv r" "inv (env r)" "u \<noteq> ''''" "card (user_ids (\<alpha> r) u) \<le> 1000"
  shows "\<exists>r'. SessionService_RevokeByUser R now env r u = (r', Inr (card (user_ids (\<alpha> (env r)) u))) \<and>
    inv r' \<and> \<alpha> r' = a_DeleteByUserID (\<alpha> (env r)) u"
proof -
  obtain l where l: "sr_ListByUserID R now r u = Inr l" "length l \<le> card (user_ids (\<alpha> r) u)"
    using listuser_alpha [OF assms(1)] by blast
  obtain r' e where d: "sr_DeleteByUserID R now (env r) u = (r', e)" by (metis surj_pair)
  note D = deluser_alpha [OF assms(2) d]
  show ?thesis using l d D assms(3,4) by (simp add: SessionService_RevokeByUser_def)
qed

lemma GC_spec:
  assumes "inv r"
  shows "\<exists>r'. SessionService_GC R now r =
      (r', Inr (card {i. \<exists>s. \<alpha> r i = Some s \<and> Session_IsExpired now s})) \<and>
    inv r' \<and> \<alpha> r' = a_CleanupExpired now (\<alpha> r)"
proof -
  obtain r' e where d: "sr_DeleteExpired R now r = (r', e)" by (metis surj_pair)
  from expired_alpha [OF assms d] d show ?thesis by (simp add: SessionService_GC_def)
qed

end

end
