(* ===== verification/Memory_APIKey.thy ===== *)
theory Memory_APIKey
  imports Domain_APIKey
begin

text \<open>
  The in-memory API key store, \<open>internal/storage/memory/apikey.go\<close>, and the interface
  \<open>APIKeyRepository\<close> of \<open>internal/core/service/auth.go\<close> it implements. Keys are cloned on
  the way in and out, so they are values here. The locale \<open>apikey_repository\<close> has the laws the
  authentication service relies on.
\<close>

record apikey_store =
  ak_keys :: "(string, apikey) gomap"

definition NewAPIKeyStore :: apikey_store where
  "NewAPIKeyStore = \<lparr> ak_keys = [] \<rparr>"

definition APIKeyStore_Get :: "apikey_store \<Rightarrow> string \<Rightarrow> go_error + apikey" where
  "APIKeyStore_Get s keyID =
     (case gm_get (ak_keys s) keyID of None \<Rightarrow> Inl ErrAPIKeyNotFound | Some k \<Rightarrow> Inr k)"

definition APIKeyStore_Create :: "apikey_store \<Rightarrow> apikey \<Rightarrow> apikey_store \<times> go_error option" where
  "APIKeyStore_Create s key =
     (if gm_get (ak_keys s) (K_KeyID key) \<noteq> None then (s, Some ErrAPIKeyConflict)
      else (s \<lparr> ak_keys := gm_set (K_KeyID key) key (ak_keys s) \<rparr>, None))"

definition APIKeyStore_Update :: "apikey_store \<Rightarrow> apikey \<Rightarrow> apikey_store \<times> go_error option" where
  "APIKeyStore_Update s key =
     (if gm_get (ak_keys s) (K_KeyID key) = None then (s, Some ErrAPIKeyNotFound)
      else (s \<lparr> ak_keys := gm_set (K_KeyID key) key (ak_keys s) \<rparr>, None))"

definition APIKeyStore_Delete :: "apikey_store \<Rightarrow> string \<Rightarrow> apikey_store \<times> go_error option" where
  "APIKeyStore_Delete s keyID =
     (if gm_get (ak_keys s) keyID = None then (s, Some ErrAPIKeyNotFound)
      else (s \<lparr> ak_keys := gm_del keyID (ak_keys s) \<rparr>, None))"

definition APIKeyStore_List :: "apikey_store \<Rightarrow> go_error + apikey list" where
  "APIKeyStore_List s = Inr (foldl (\<lambda>keys (_, k). keys @ [k]) [] (ak_keys s))"

section \<open>The interface\<close>

record 'k apikey_repo =
  kr_Get :: "'k \<Rightarrow> string \<Rightarrow> go_error + apikey"
  kr_Create :: "'k \<Rightarrow> apikey \<Rightarrow> 'k \<times> go_error option"
  kr_Update :: "'k \<Rightarrow> apikey \<Rightarrow> 'k \<times> go_error option"
  kr_Delete :: "'k \<Rightarrow> string \<Rightarrow> 'k \<times> go_error option"
  kr_List :: "'k \<Rightarrow> go_error + apikey list"

definition apikey_store_repo :: "apikey_store apikey_repo" where
  "apikey_store_repo =
     \<lparr> kr_Get = APIKeyStore_Get, kr_Create = APIKeyStore_Create, kr_Update = APIKeyStore_Update,
       kr_Delete = APIKeyStore_Delete, kr_List = APIKeyStore_List \<rparr>"

locale apikey_repository =
  fixes K :: "'k apikey_repo" and inv :: "'k \<Rightarrow> bool" and \<alpha> :: "'k \<Rightarrow> string \<Rightarrow> apikey option"
  assumes key_of: "inv s \<Longrightarrow> \<alpha> s i = Some k \<Longrightarrow> K_KeyID k = i"
    and get_alpha: "inv s \<Longrightarrow> kr_Get K s i = (case \<alpha> s i of None \<Rightarrow> Inl ErrAPIKeyNotFound | Some k \<Rightarrow> Inr k)"
    and create_alpha: "inv s \<Longrightarrow> kr_Create K s k = (s', e) \<Longrightarrow> inv s' \<and>
      (if \<alpha> s (K_KeyID k) = None then \<alpha> s' = (\<alpha> s)(K_KeyID k \<mapsto> k) \<and> e = None
       else \<alpha> s' = \<alpha> s \<and> e = Some ErrAPIKeyConflict)"
    and update_alpha: "inv s \<Longrightarrow> kr_Update K s k = (s', e) \<Longrightarrow> inv s' \<and>
      (if \<alpha> s (K_KeyID k) \<noteq> None then \<alpha> s' = (\<alpha> s)(K_KeyID k \<mapsto> k) \<and> e = None
       else \<alpha> s' = \<alpha> s \<and> e = Some ErrAPIKeyNotFound)"
    and delete_alpha: "inv s \<Longrightarrow> kr_Delete K s i = (s', e) \<Longrightarrow> inv s' \<and>
      (if \<alpha> s i \<noteq> None then \<alpha> s' = (\<alpha> s)(i := None) \<and> e = None
       else \<alpha> s' = \<alpha> s \<and> e = Some ErrAPIKeyNotFound)"
    and list_alpha: "inv s \<Longrightarrow> \<exists>l. kr_List K s = Inr l \<and> set l = ran (\<alpha> s)"
begin

lemma update_get:
  "inv s \<Longrightarrow> \<alpha> s (K_KeyID k) \<noteq> None \<Longrightarrow> kr_Get K (fst (kr_Update K s k)) (K_KeyID k) = Inr k"
  using update_alpha [of s k] get_alpha by (cases "kr_Update K s k") auto

end

definition apikey_inv :: "apikey_store \<Rightarrow> bool" where
  "apikey_inv s \<longleftrightarrow> gm_wf (ak_keys s) \<and> (\<forall>i k. gm_get (ak_keys s) i = Some k \<longrightarrow> K_KeyID k = i)"

definition apikey_abs :: "apikey_store \<Rightarrow> string \<Rightarrow> apikey option" where
  "apikey_abs s = gm_get (ak_keys s)"

interpretation aks: apikey_repository apikey_store_repo apikey_inv apikey_abs
proof unfold_locales
  fix s s' :: apikey_store and i k e
  assume inv: "apikey_inv s"
  show "apikey_abs s i = Some k \<Longrightarrow> K_KeyID k = i"
    using inv by (simp add: apikey_inv_def apikey_abs_def)
  show "kr_Get apikey_store_repo s i = (case apikey_abs s i of None \<Rightarrow> Inl ErrAPIKeyNotFound | Some k \<Rightarrow> Inr k)"
    by (simp add: apikey_store_repo_def APIKeyStore_Get_def apikey_abs_def)
  show "apikey_inv s' \<and>
      (if apikey_abs s (K_KeyID k) = None then apikey_abs s' = (apikey_abs s)(K_KeyID k \<mapsto> k) \<and> e = None
       else apikey_abs s' = apikey_abs s \<and> e = Some ErrAPIKeyConflict)"
    if "kr_Create apikey_store_repo s k = (s', e)"
    using that inv
    by (auto simp: apikey_store_repo_def APIKeyStore_Create_def apikey_abs_def apikey_inv_def gm_get_set
        gm_wf_set split: if_splits)
  show "apikey_inv s' \<and>
      (if apikey_abs s (K_KeyID k) \<noteq> None then apikey_abs s' = (apikey_abs s)(K_KeyID k \<mapsto> k) \<and> e = None
       else apikey_abs s' = apikey_abs s \<and> e = Some ErrAPIKeyNotFound)"
    if "kr_Update apikey_store_repo s k = (s', e)"
    using that inv
    by (auto simp: apikey_store_repo_def APIKeyStore_Update_def apikey_abs_def apikey_inv_def gm_get_set
        gm_wf_set split: if_splits)
  show "apikey_inv s' \<and>
      (if apikey_abs s i \<noteq> None then apikey_abs s' = (apikey_abs s)(i := None) \<and> e = None
       else apikey_abs s' = apikey_abs s \<and> e = Some ErrAPIKeyNotFound)"
    if "kr_Delete apikey_store_repo s i = (s', e)"
    using that inv
    by (auto simp: apikey_store_repo_def APIKeyStore_Delete_def apikey_abs_def apikey_inv_def gm_get_del
        gm_wf_del split: if_splits)
  show "\<exists>l. kr_List apikey_store_repo s = Inr l \<and> set l = ran (apikey_abs s)"
  proof -
    have "foldl (\<lambda>keys (_, k). keys @ [k]) acc xs = acc @ map snd xs" for acc and xs :: "(string \<times> apikey) list"
      by (induction xs arbitrary: acc) auto
    moreover have "snd ` set (ak_keys s) = ran (apikey_abs s)"
      using inv gm_get_iff_mem [of "ak_keys s"] by (force simp: apikey_inv_def apikey_abs_def ran_def)
    ultimately show ?thesis
      by (simp add: apikey_store_repo_def APIKeyStore_List_def)
  qed
qed

lemma NewAPIKeyStore_inv: "apikey_inv NewAPIKeyStore"
  by (simp add: apikey_inv_def NewAPIKeyStore_def)

end
