(* ===== verification/Go_Net.thy ===== *)
theory Go_Net
  imports Go_Strings
begin

text \<open>
  What the program uses of Go's \<open>net\<close> package: \<open>ParseIP\<close>, \<open>ParseCIDR\<close>, \<open>IPNet.Contains\<close>
  and \<open>IP.Equal\<close>. An address is sixteen bytes (an IPv4 address in its mapped form) with
  a flag that says whether the text was in IPv4 form, as \<open>netip.Addr\<close> has it. The IPv6 parser
  follows \<open>netip.parseIPv6\<close> with its groups, its ellipsis and its embedded IPv4 tail;
  zones are refused by both callers.
\<close>

section \<open>Addresses\<close>

type_synonym addr = "bool \<times> bytes"

definition v4InV6Prefix :: bytes where
  "v4InV6Prefix = replicate 10 0 @ [0xFF, 0xFF]"

definition v4_field :: "string \<Rightarrow> byte option" where
  "v4_field s =
     (if s = '''' \<or> \<not> list_all is_digit s then None
      else if length s > 1 \<and> hd s = CHR ''0'' then None
      else if dec_val s > 255 then None
      else Some (of_nat (dec_val s)))"

definition parseIPv4Fields :: "string \<Rightarrow> bytes option" where
  "parseIPv4Fields s =
     (case map v4_field (split_at_char (CHR ''.'') s) of
        [Some a, Some b, Some c, Some d] \<Rightarrow> Some [a, b, c, d]
      | _ \<Rightarrow> None)"

text \<open>The loop over groups: \<open>ip\<close> is what has been read, \<open>ell\<close> the position of the ellipsis.
  Each turn reads at least one group, so eight turns are enough.\<close>

fun v6_groups :: "nat \<Rightarrow> string \<Rightarrow> bytes \<Rightarrow> nat option \<Rightarrow> (bytes \<times> nat option \<times> string) option" where
  "v6_groups 0 s ip ell = Some (ip, ell, s)"
| "v6_groups (Suc n) s ip ell =
     (let ds = takeWhile (\<lambda>c. hex_val c \<noteq> None) s;
          rest = dropWhile (\<lambda>c. hex_val c \<noteq> None) s;
          acc = foldl (\<lambda>v c. 16 * v + the (hex_val c)) 0 ds
      in if ds = [] \<or> length ds > 4 then None
         else if rest \<noteq> [] \<and> hd rest = CHR ''.'' then
           (if ell = None \<and> length ip \<noteq> 12 then None
            else if length ip + 4 > 16 then None
            else (case parseIPv4Fields s of None \<Rightarrow> None | Some f \<Rightarrow> Some (ip @ f, ell, [])))
         else let ip' = ip @ [of_nat (acc div 256), of_nat (acc mod 256)] in
           (case rest of
              [] \<Rightarrow> Some (ip', ell, [])
            | c # rest' \<Rightarrow>
                if c \<noteq> CHR '':'' \<or> rest' = [] then None
                else if hd rest' = CHR '':'' then
                  (if ell \<noteq> None then None
                   else if tl rest' = [] then Some (ip', Some (length ip'), [])
                   else v6_groups n (tl rest') ip' (Some (length ip')))
                else v6_groups n rest' ip' ell))"

definition expand_ellipsis :: "bytes \<times> nat option \<times> string \<Rightarrow> bytes option" where
  "expand_ellipsis = (\<lambda>(ip, ell, s).
     if s \<noteq> [] then None
     else if length ip < 16 then
       (case ell of
          None \<Rightarrow> None
        | Some e \<Rightarrow> Some (take e ip @ replicate (16 - length ip) 0 @ drop e ip))
     else if ell \<noteq> None then None else Some ip)"

definition parseIPv6 :: "string \<Rightarrow> bytes option" where
  "parseIPv6 s =
     (if CHR ''%'' \<in> set s then None
      else if HasPrefix s ''::'' then
        (if drop 2 s = [] then Some (replicate 16 0)
         else Option.bind (v6_groups 8 (drop 2 s) [] (Some 0)) expand_ellipsis)
      else Option.bind (v6_groups 8 s [] None) expand_ellipsis)"

text \<open>\<open>netip.ParseAddr\<close> decides by the first dot, colon or percent sign.\<close>

definition ParseAddr :: "string \<Rightarrow> addr option" where
  "ParseAddr s =
     (case dropWhile (\<lambda>c. c \<noteq> CHR ''.'' \<and> c \<noteq> CHR '':'' \<and> c \<noteq> CHR ''%'') s of
        [] \<Rightarrow> None
      | c # _ \<Rightarrow>
          if c = CHR ''.'' then map_option (\<lambda>f. (True, v4InV6Prefix @ f)) (parseIPv4Fields s)
          else if c = CHR '':'' then map_option (Pair False) (parseIPv6 s)
          else None)"

definition ParseIP :: "string \<Rightarrow> bytes option" where
  "ParseIP s = map_option snd (ParseAddr s)"

definition To4 :: "bytes \<Rightarrow> bytes option" where
  "To4 ip = (if length ip = 4 then Some ip
             else if length ip = 16 \<and> take 12 ip = v4InV6Prefix then Some (drop 12 ip) else None)"

definition IP_Equal :: "bytes \<Rightarrow> bytes \<Rightarrow> bool" where
  "IP_Equal a b \<longleftrightarrow>
     (if length a = length b then a = b
      else if length a = 4 \<and> length b = 16 then take 12 b = v4InV6Prefix \<and> a = drop 12 b
      else if length a = 16 \<and> length b = 4 then take 12 a = v4InV6Prefix \<and> drop 12 a = b
      else False)"

section \<open>Networks\<close>

definition mask_byte :: "nat \<Rightarrow> byte" where
  "mask_byte n = (if n \<ge> 8 then 0xFF else NOT (drop_bit n 0xFF))"

definition CIDRMask :: "nat \<Rightarrow> nat \<Rightarrow> bytes" where
  "CIDRMask ones bits = map (\<lambda>i. mask_byte (ones - 8 * i)) [0..<bits div 8]"

definition and_bytes :: "bytes \<Rightarrow> bytes \<Rightarrow> bytes" where
  "and_bytes a b = map (\<lambda>(x, y). x AND y) (zip a b)"

text \<open>A network is its masked address and its mask; an IPv4 network has four bytes of each.\<close>

type_synonym ipnet = "bytes \<times> bytes"

definition ParseCIDR :: "string \<Rightarrow> ipnet option" where
  "ParseCIDR s =
     (let a = takeWhile (\<lambda>c. c \<noteq> CHR ''/'') s;
          m = drop 1 (dropWhile (\<lambda>c. c \<noteq> CHR ''/'') s)
      in if CHR ''/'' \<notin> set s then None
         else case ParseAddr a of
           None \<Rightarrow> None
         | Some (is4, ip) \<Rightarrow>
             (let bits = (if is4 then 32 else 128) in
              if m = '''' \<or> \<not> list_all is_digit m \<or> dec_val m > bits then None
              else let mask = CIDRMask (dec_val m) bits;
                       ip' = (if is4 then drop 12 ip else ip)
                   in Some (and_bytes ip' mask, mask)))"

definition IPNet_Contains :: "ipnet \<Rightarrow> bytes \<Rightarrow> bool" where
  "IPNet_Contains = (\<lambda>(nip, nmask) ip0.
     let nn = (case To4 nip of Some x \<Rightarrow> x | None \<Rightarrow> nip);
         m = (if length nmask = 16 \<and> length nn = 4 then drop 12 nmask else nmask);
         ip = (case To4 ip0 of Some x \<Rightarrow> x | None \<Rightarrow> ip0)
     in length m = length nn \<and> length ip = length nn \<and> and_bytes nn m = and_bytes ip m)"

section \<open>Lemmas\<close>

lemma parseIPv4Fields_length: "parseIPv4Fields s = Some f \<Longrightarrow> length f = 4"
  by (auto simp: parseIPv4Fields_def split: list.splits option.splits)

lemma v4InV6Prefix_length [simp]: "length v4InV6Prefix = 12"
  by (simp add: v4InV6Prefix_def)

lemma length_and_bytes [simp]: "length (and_bytes a b) = min (length a) (length b)"
  by (simp add: and_bytes_def)

lemma and_bytes_idem: "length a = length b \<Longrightarrow> and_bytes (and_bytes a b) b = and_bytes a b"
proof (induction a b rule: list_induct2)
  case (Cons x xs y ys)
  then show ?case by (simp add: and_bytes_def and.assoc)
qed (simp add: and_bytes_def)

lemma CIDRMask_length [simp]: "length (CIDRMask ones bits) = bits div 8"
  by (simp add: CIDRMask_def)

text \<open>An IPv4 network written with a prefix length contains an IPv4 address exactly when the two
  agree on the masked bits.\<close>

lemma Contains_v4:
  assumes "ParseAddr a = Some (True, ip)" "CHR ''/'' \<notin> set a" "m \<noteq> ''''" "list_all is_digit m"
    "dec_val m \<le> 32" "ParseAddr b = Some (True, jp)"
  shows "\<exists>net. ParseCIDR (a @ ''/'' @ m) = Some net \<and>
    (IPNet_Contains net jp \<longleftrightarrow>
       and_bytes (drop 12 ip) (CIDRMask (dec_val m) 32) = and_bytes (drop 12 jp) (CIDRMask (dec_val m) 32))"
proof -
  have v4: "\<exists>f. length f = 4 \<and> x = v4InV6Prefix @ f" if "ParseAddr s = Some (True, x)" for s x
    using that parseIPv4Fields_length by (auto simp: ParseAddr_def split: list.splits if_splits)
  obtain f g where f: "length f = 4" "ip = v4InV6Prefix @ f" and g: "length g = 4" "jp = v4InV6Prefix @ g"
    using v4 assms(1,6) by blast
  let ?M = "CIDRMask (dec_val m) 32"
  have tw: "takeWhile (\<lambda>c. c \<noteq> CHR ''/'') (a @ ''/'' @ m) = a"
    "dropWhile (\<lambda>c. c \<noteq> CHR ''/'') (a @ ''/'' @ m) = ''/'' @ m"
    using assms(2) by (induction a) auto
  have "ParseCIDR (a @ ''/'' @ m) = Some (and_bytes f ?M, ?M)"
    unfolding ParseCIDR_def tw Let_def using assms f by simp
  moreover have "IPNet_Contains (and_bytes f ?M, ?M) jp \<longleftrightarrow> and_bytes f ?M = and_bytes g ?M"
    using f g and_bytes_idem [of f ?M] by (simp add: IPNet_Contains_def To4_def Let_def)
  ultimately show ?thesis using f g by simp
qed

end
