(* ===== verification/Auth_Service.thy ===== *)
theory Auth_Service
  imports Memory_APIKey Lru_Cache Go_Net Token_Service
begin

text \<open>
  The authentication service, \<open>internal/core/service/auth.go\<close>: validation of an API key through
  the cache or the repository, the address allowlist, Argon2 verification with a grace period for
  rotated secrets, permissions, the registry of rate limiters, and key management. The state is the
  repository's state and the cache. \<open>argon2.IDKey\<close> is a field of \<open>ext\<close>; a rate limiter of
  x/time/rate is an abstract value. \<open>env\<close> is what other requests do between the read of a key and
  the write that records its use. A pointer to a cached key is changed in place by \<open>Touch\<close>, which
  \<open>cache_poke\<close> writes back.
\<close>

section \<open>Secrets\<close>

definition verifyArgon2Hash :: "ext \<Rightarrow> string \<Rightarrow> string \<Rightarrow> bool" where
  "verifyArgon2Hash X secret hash =
     (let parts = split_at_char (CHR ''$'') hash in
      if length parts \<noteq> 6 then False
      else if parts ! 1 \<noteq> ''argon2id'' then False
      else (case b64_decode std_alphabet (parts ! 4) of
              None \<Rightarrow> False
            | Some salt \<Rightarrow>
                (case b64_decode std_alphabet (parts ! 5) of
                   None \<Rightarrow> False
                 | Some expectedHash \<Rightarrow>
                     (let computedHash = argon2_IDKey X (bytes_of_string secret) salt Argon2Time
                            Argon2Memory Argon2Parallelism (of_nat (length expectedHash))
                      in ConstantTimeCompare computedHash expectedHash = 1))))"

definition verifySecretHash :: "ext \<Rightarrow> string \<Rightarrow> string \<Rightarrow> string \<Rightarrow> bool \<Rightarrow> bool" where
  "verifySecretHash X secret currentHash oldHash inGracePeriod =
     (let match1 = verifyArgon2Hash X secret currentHash;
          match2 = (if inGracePeriod \<and> oldHash \<noteq> '''' then verifyArgon2Hash X secret oldHash else False)
      in match1 \<or> match2)"

section \<open>Allowlist\<close>

fun allow_loop :: "bytes \<Rightarrow> string list \<Rightarrow> go_error option" where
  "allow_loop ip [] = Some (WithDetails ErrIPNotAllowed ''client IP not in allowlist'')"
| "allow_loop ip (entry # rest) =
     (if Contains entry ''/'' then
        (case ParseCIDR entry of
           None \<Rightarrow> allow_loop ip rest
         | Some ipNet \<Rightarrow> if IPNet_Contains ipNet ip then None else allow_loop ip rest)
      else
        (case ParseIP entry of
           None \<Rightarrow> allow_loop ip rest
         | Some allowedIP \<Rightarrow> if IP_Equal allowedIP ip then None else allow_loop ip rest))"

definition checkIPAllowlist :: "string list \<Rightarrow> string \<Rightarrow> string list \<Rightarrow> go_error option" where
  "checkIPAllowlist globalAllow clientIP keyAllowlist =
     (let allowlist = globalAllow @ keyAllowlist in
      if allowlist = [] then None
      else (case ParseIP clientIP of
              None \<Rightarrow> Some (WithDetails ErrIPNotAllowed ''invalid client IP format'')
            | Some ip \<Rightarrow> allow_loop ip allowlist))"

section \<open>Validation\<close>

record 'k auth_service =
  as_repo :: 'k
  as_cache :: apikey_cache
  as_globalAllow :: "string list"

record auth_service_config =
  ac_CacheTTL :: int
  ac_CacheSize :: int
  ac_GlobalAllowlist :: "string list"

definition DefaultAuthServiceConfig :: auth_service_config where
  "DefaultAuthServiceConfig =
     \<lparr> ac_CacheTTL = 60 * Second, ac_CacheSize = 10000, ac_GlobalAllowlist = [] \<rparr>"

definition NewAuthService :: "'k \<Rightarrow> auth_service_config option \<Rightarrow> 'k auth_service" where
  "NewAuthService repo config0 =
     (let config = (case config0 of None \<Rightarrow> DefaultAuthServiceConfig | Some c \<Rightarrow> c) in
      \<lparr> as_repo = repo, as_cache = NewAPIKeyCache (ac_CacheSize config) (ac_CacheTTL config),
        as_globalAllow = ac_GlobalAllowlist config \<rparr>)"

definition cache_poke :: "apikey_cache \<Rightarrow> string \<Rightarrow> apikey \<Rightarrow> apikey_cache" where
  "cache_poke c keyID k =
     (case gm_get (L_items c) keyID of
        None \<Rightarrow> c
      | Some e \<Rightarrow>
          (let e' = e \<lparr> C_key := k \<rparr> in
           c \<lparr> L_items := gm_set keyID e' (L_items c),
               L_order := map (\<lambda>x. if x = e then e' else x) (L_order c) \<rparr>))"

record validate_apikey_request =
  aq_KeyID :: string
  aq_KeySecret :: string
  aq_ClientIP :: string

text \<open>Steps 2 to 8, after a cache miss or a secret that does not match the cached key.\<close>

definition validate_stored ::
  "ext \<Rightarrow> 'k apikey_repo \<Rightarrow> int \<Rightarrow> ('k auth_service \<Rightarrow> 'k auth_service) \<Rightarrow> 'k auth_service
     \<Rightarrow> validate_apikey_request \<Rightarrow> ('k auth_service \<times> (go_error + apikey)) option" where
  "validate_stored X K now env a req =
     (case kr_Get K (as_repo a) (aq_KeyID req) of
        Inl err \<Rightarrow> Some (a, Inl (WithCause ErrAPIKeyNotFound err))
      | Inr apiKey \<Rightarrow>
          if K_Status apiKey \<noteq> KeyStatusActive then Some (a, Inl ErrAPIKeyDisabled)
          else if APIKey_IsExpired now apiKey then
            Some (a, Inl (WithDetails ErrAPIKeyInvalid ''api key expired''))
          else (case checkIPAllowlist (as_globalAllow a) (aq_ClientIP req) (K_Allowlist apiKey) of
                  Some err \<Rightarrow> Some (a, Inl err)
                | None \<Rightarrow>
                    if \<not> verifySecretHash X (aq_KeySecret req) (K_SecretHash apiKey)
                           (K_OldSecretHash apiKey) (APIKey_IsInGracePeriod now apiKey) then
                      Some (a, Inl (WithDetails ErrAPIKeyInvalid ''invalid secret''))
                    else
                      (let touched_key = APIKey_Touch now apiKey;
                           a1 = env a;
                           repo' = fst (kr_Update K (as_repo a1) touched_key)
                       in map_option
                            (\<lambda>c. (a1 \<lparr> as_repo := repo', as_cache := c \<rparr>, Inr touched_key))
                            (APIKeyCache_Set now (as_cache a1) (aq_KeyID req) touched_key))))"

definition ValidateAPIKey ::
  "ext \<Rightarrow> 'k apikey_repo \<Rightarrow> int \<Rightarrow> ('k auth_service \<Rightarrow> 'k auth_service) \<Rightarrow> 'k auth_service
     \<Rightarrow> validate_apikey_request \<Rightarrow> ('k auth_service \<times> (go_error + apikey)) option" where
  "ValidateAPIKey X K now env a0 req =
     (case APIKeyCache_Get now (as_cache a0) (aq_KeyID req) of
        (c, hit) \<Rightarrow>
          (let a = a0 \<lparr> as_cache := c \<rparr> in
           case hit of
             None \<Rightarrow> validate_stored X K now env a req
           | Some cached \<Rightarrow>
               if verifySecretHash X (aq_KeySecret req) (K_SecretHash cached) (K_OldSecretHash cached)
                    (APIKey_IsInGracePeriod now cached) then
                 (if \<not> APIKey_IsActive now cached \<and> K_Status cached = KeyStatusDisabled then
                    Some (a, Inl ErrAPIKeyDisabled)
                  else if \<not> APIKey_IsActive now cached \<and> APIKey_IsExpired now cached then
                    Some (a, Inl (WithDetails ErrAPIKeyInvalid ''api key expired''))
                  else (case checkIPAllowlist (as_globalAllow a) (aq_ClientIP req) (K_Allowlist cached) of
                          Some err \<Rightarrow> Some (a, Inl err)
                        | None \<Rightarrow>
                            Some (a \<lparr> as_cache := cache_poke c (aq_KeyID req) (APIKey_Touch now cached) \<rparr>,
                                  Inr (APIKey_Touch now cached))))
               else validate_stored X K now env a req))"

section \<open>Permissions and rate limits\<close>

definition AuthService_CheckPermission :: "apikey \<Rightarrow> string \<Rightarrow> go_error option" where
  "AuthService_CheckPermission k perm =
     (if \<not> HasPermission (K_Role k) perm then
        Some (WithDetails ErrPermissionDenied
                (''role '' @ K_Role k @ '' does not have permission '' @ perm))
      else None)"

type_synonym 'l limiter_registry = "(string, 'l) gomap"

definition GetOrCreate :: "(int \<Rightarrow> 'l) \<Rightarrow> 'l limiter_registry \<Rightarrow> string \<Rightarrow> int \<Rightarrow> 'l limiter_registry \<times> 'l" where
  "GetOrCreate NewLimiter r keyID rateLimit =
     (case gm_get r keyID of
        Some limiter \<Rightarrow> (r, limiter)
      | None \<Rightarrow> (let limiter = NewLimiter rateLimit in (gm_set keyID limiter r, limiter)))"

definition RateLimiterRegistry_Delete :: "'l limiter_registry \<Rightarrow> string \<Rightarrow> 'l limiter_registry" where
  "RateLimiterRegistry_Delete r keyID = gm_del keyID r"

definition RateLimiterRegistry_Clear :: "'l limiter_registry \<Rightarrow> 'l limiter_registry" where
  "RateLimiterRegistry_Clear r = []"

text \<open>A limiter is changed in place: \<open>Allow\<close> gives its new state and the answer, \<open>RetryAfter\<close>
  the text of the delay after \<open>Reserve\<close> and \<open>Cancel\<close>.\<close>

definition CheckRateLimit ::
  "(int \<Rightarrow> 'l) \<Rightarrow> ('l \<Rightarrow> 'l \<times> bool) \<Rightarrow> ('l \<Rightarrow> 'l \<times> string) \<Rightarrow> 'l limiter_registry \<Rightarrow> string \<Rightarrow> int
     \<Rightarrow> 'l limiter_registry \<times> go_error option" where
  "CheckRateLimit NewLimiter Allow RetryAfter r keyID rateLimit =
     (case GetOrCreate NewLimiter r keyID rateLimit of
        (r1, limiter) \<Rightarrow>
          (case Allow limiter of
             (l1, True) \<Rightarrow> (gm_set keyID l1 r1, None)
           | (l1, False) \<Rightarrow>
               (case RetryAfter l1 of
                  (l2, delay) \<Rightarrow>
                    (gm_set keyID l2 r1,
                     Some (WithDetails ErrRateLimited (''rate limit exceeded, retry after '' @ delay))))))"

section \<open>Key management\<close>

definition CreateAPIKey ::
  "ext \<Rightarrow> 'k apikey_repo \<Rightarrow> int \<Rightarrow> go_error + string \<Rightarrow> go_error + bytes \<Rightarrow> go_error + bytes
     \<Rightarrow> 'k auth_service \<Rightarrow> string \<Rightarrow> string \<Rightarrow> string \<Rightarrow> 'k auth_service \<times> (go_error + apikey \<times> string)" where
  "CreateAPIKey X K now ulid rnd salt a name role description =
     (case NewAPIKey X now ulid rnd salt name role of
        Inl err \<Rightarrow> (a, Inl (WithCause ErrInternalServer err))
      | Inr (k0, plainSecret) \<Rightarrow>
          (let k = k0 \<lparr> K_Description := description \<rparr> in
           case kr_Create K (as_repo a) k of
             (r, Some err) \<Rightarrow> (a \<lparr> as_repo := r \<rparr>, Inl (WithCause ErrStorageError err))
           | (r, None) \<Rightarrow> (a \<lparr> as_repo := r \<rparr>, Inr (k, plainSecret))))"

record apikey_info =
  ai_KeyID :: string
  ai_Name :: string
  ai_Role :: string
  ai_Description :: string
  ai_Enabled :: bool
  ai_CreatedAt :: int
  ai_LastUsedAt :: int

definition ListAPIKeys :: "'k apikey_repo \<Rightarrow> 'k auth_service \<Rightarrow> string \<Rightarrow> go_error + apikey_info list" where
  "ListAPIKeys K a role =
     (case kr_List K (as_repo a) of
        Inl err \<Rightarrow> Inl (WithCause ErrStorageError err)
      | Inr keys \<Rightarrow>
          Inr (foldl (\<lambda>acc k. if role \<noteq> '''' \<and> K_Role k \<noteq> role then acc
                 else acc @ [\<lparr> ai_KeyID = K_KeyID k, ai_Name = K_Name k, ai_Role = K_Role k,
                               ai_Description = K_Description k,
                               ai_Enabled = (K_Status k = KeyStatusActive),
                               ai_CreatedAt = APIKey_CreatedAtTime k,
                               ai_LastUsedAt = APIKey_LastUsedAtTime k \<rparr>]) [] keys))"

definition UpdateAPIKeyStatus ::
  "'k apikey_repo \<Rightarrow> 'k auth_service \<Rightarrow> string \<Rightarrow> bool \<Rightarrow> 'k auth_service \<times> (go_error + bool)" where
  "UpdateAPIKeyStatus K a keyID enabled =
     (case kr_Get K (as_repo a) keyID of
        Inl err \<Rightarrow> (a, Inl (WithCause ErrAPIKeyNotFound err))
      | Inr k0 \<Rightarrow>
          (let k = k0 \<lparr> K_Status := (if enabled then KeyStatusActive else KeyStatusDisabled) \<rparr> in
           case kr_Update K (as_repo a) k of
             (r, Some err) \<Rightarrow> (a \<lparr> as_repo := r \<rparr>, Inl (WithCause ErrStorageError err))
           | (r, None) \<Rightarrow>
               (a \<lparr> as_repo := r, as_cache := APIKeyCache_Delete (as_cache a) keyID \<rparr>, Inr True)))"

definition RotateAPIKey ::
  "ext \<Rightarrow> 'k apikey_repo \<Rightarrow> int \<Rightarrow> go_error + bytes \<Rightarrow> go_error + bytes \<Rightarrow> 'k auth_service \<Rightarrow> string
     \<Rightarrow> 'k auth_service \<times> (go_error + string)" where
  "RotateAPIKey X K now rnd salt a keyID =
     (case kr_Get K (as_repo a) keyID of
        Inl err \<Rightarrow> (a, Inl (WithCause ErrAPIKeyNotFound err))
      | Inr k0 \<Rightarrow>
          (case APIKey_RotateSecret X now rnd salt k0 of
             Inl err \<Rightarrow> (a, Inl (WithCause ErrInternalServer err))
           | Inr (k, newSecret) \<Rightarrow>
               (case kr_Update K (as_repo a) k of
                  (r, Some err) \<Rightarrow> (a \<lparr> as_repo := r \<rparr>, Inl (WithCause ErrStorageError err))
                | (r, None) \<Rightarrow>
                    (a \<lparr> as_repo := r, as_cache := APIKeyCache_Delete (as_cache a) keyID \<rparr>,
                     Inr newSecret))))"

section \<open>Secrets: hashing and verifying\<close>

lemma b64_no_dollar: "CHR ''$'' \<notin> set (b64_encode std_alphabet bs)"
proof -
  have "b64_char std_alphabet n \<noteq> CHR ''$''" for n
  proof -
    have "of_char (b64_char std_alphabet n) \<noteq> (36::nat)"
      by (auto simp: b64_char_def std_alphabet_def)
    then show ?thesis by auto
  qed
  note ne = this this [symmetric]
  show ?thesis by (induction std_alphabet bs rule: b64_encode.induct) (simp_all add: Let_def ne)
qed

lemma split_argon2:
  assumes "CHR ''$'' \<notin> set a" "CHR ''$'' \<notin> set b"
  shows "split_at_char (CHR ''$'') (argon2_header @ a @ ''$'' @ b) =
    ['''', ''argon2id'', ''v=19'', ''m=16384,t=2,p=2'', a, b]"
  using split_at_char_append [OF assms(1), of b] split_at_char_no_sep [OF assms(2)] by simp

text \<open>\<open>argon2.IDKey\<close> returns as many bytes as it is asked for.\<close>

definition argon2_len_ok :: "ext \<Rightarrow> bool" where
  "argon2_len_ok X \<longleftrightarrow> (\<forall>p s t m th n. length (argon2_IDKey X p s t m th n) = unat n)"

lemma verifyArgon2Hash_hashSecret:
  assumes "argon2_len_ok X" "hashSecret X (Inr salt) secret = Inr h"
  shows "verifyArgon2Hash X s h \<longleftrightarrow>
    argon2_IDKey X (bytes_of_string s) salt Argon2Time Argon2Memory Argon2Parallelism Argon2KeyLen =
    argon2_IDKey X (bytes_of_string secret) salt Argon2Time Argon2Memory Argon2Parallelism Argon2KeyLen"
proof -
  let ?k = "argon2_IDKey X (bytes_of_string secret) salt Argon2Time Argon2Memory Argon2Parallelism Argon2KeyLen"
  have h: "h = argon2_header @ b64_encode std_alphabet salt @ ''$'' @ b64_encode std_alphabet ?k"
    using assms(2) by (simp only: hashSecret_Inr) simp
  have parts: "split_at_char (CHR ''$'') h =
      ['''', ''argon2id'', ''v=19'', ''m=16384,t=2,p=2'', b64_encode std_alphabet salt, b64_encode std_alphabet ?k]"
    unfolding h by (rule split_argon2) (rule b64_no_dollar)+
  have len: "of_nat (length ?k) = Argon2KeyLen" using assms(1) by (simp add: argon2_len_ok_def)
  show ?thesis
    unfolding verifyArgon2Hash_def Let_def parts
    by (simp add: rawstd.decode_encode ConstantTimeCompare_iff [simplified] len del: of_nat_numeral)
qed

lemma hashSecret_verifies:
  assumes "argon2_len_ok X" "hashSecret X salt secret = Inr h"
  shows "verifyArgon2Hash X secret h"
proof -
  obtain b where "salt = Inr b" using assms(2) by (auto simp: hashSecret_Inr)
  with assms verifyArgon2Hash_hashSecret [of X b secret h secret] show ?thesis by simp
qed

section \<open>Allowlist semantics\<close>

definition entry_allows :: "bytes \<Rightarrow> string \<Rightarrow> bool" where
  "entry_allows ip entry \<longleftrightarrow>
     (if Contains entry ''/'' then (\<exists>net. ParseCIDR entry = Some net \<and> IPNet_Contains net ip)
      else (\<exists>x. ParseIP entry = Some x \<and> IP_Equal x ip))"

lemma allow_loop_iff: "allow_loop ip l = None \<longleftrightarrow> (\<exists>entry \<in> set l. entry_allows ip entry)"
  by (induction ip l rule: allow_loop.induct) (auto simp: entry_allows_def split: option.splits)

lemma checkIPAllowlist_iff:
  "checkIPAllowlist g c k = None \<longleftrightarrow>
     g @ k = [] \<or> (\<exists>ip. ParseIP c = Some ip \<and> (\<exists>entry \<in> set (g @ k). entry_allows ip entry))"
  by (auto simp: checkIPAllowlist_def Let_def allow_loop_iff split: option.splits)

section \<open>What validation guarantees\<close>

lemma APIKey_Touch_keeps [simp]:
  "K_KeyID (APIKey_Touch now k) = K_KeyID k" "K_Status (APIKey_Touch now k) = K_Status k"
  "K_SecretHash (APIKey_Touch now k) = K_SecretHash k"
  "K_OldSecretHash (APIKey_Touch now k) = K_OldSecretHash k"
  "K_Allowlist (APIKey_Touch now k) = K_Allowlist k" "K_Role (APIKey_Touch now k) = K_Role k"
  "APIKey_IsExpired t (APIKey_Touch now k) = APIKey_IsExpired t k"
  "APIKey_IsInGracePeriod t (APIKey_Touch now k) = APIKey_IsInGracePeriod t k"
  by (simp_all add: APIKey_Touch_def APIKey_IsExpired_def APIKey_IsInGracePeriod_def)

text \<open>The checks a key has passed when it is returned.\<close>

definition key_accepted :: "ext \<Rightarrow> int \<Rightarrow> string list \<Rightarrow> validate_apikey_request \<Rightarrow> apikey \<Rightarrow> bool" where
  "key_accepted X now g req k \<longleftrightarrow>
     K_Status k = KeyStatusActive \<and> \<not> APIKey_IsExpired now k \<and>
     checkIPAllowlist g (aq_ClientIP req) (K_Allowlist k) = None \<and>
     verifySecretHash X (aq_KeySecret req) (K_SecretHash k) (K_OldSecretHash k) (APIKey_IsInGracePeriod now k)"

lemma key_accepted_Touch [simp]: "key_accepted X now g req (APIKey_Touch t k) = key_accepted X now g req k"
  by (simp add: key_accepted_def)

text \<open>Only active keys are ever cached.\<close>

definition cache_ok :: "apikey_cache \<Rightarrow> bool" where
  "cache_ok c \<longleftrightarrow> lru_inv C_keyID c \<and> 1 \<le> L_capacity c \<and>
     (\<forall>i e. gm_get (L_items c) i = Some e \<longrightarrow> K_Status (C_key e) = KeyStatusActive)"

lemma cache_ok_Get:
  assumes "cache_ok c" "APIKeyCache_Get now c i = (c', r)"
  shows "cache_ok c'" "r = Some k \<Longrightarrow> K_Status k = KeyStatusActive"
proof -
  note G = APIKeyCache_Get_spec [OF _ assms(2)]
  have "gm_get (L_items c') j = Some e \<Longrightarrow> gm_get (L_items c) j = Some e" for j e
    using assms(2) by (auto simp: APIKeyCache_Get_def lru_drop_def gm_get_del split: option.splits if_splits)
  then show "cache_ok c'" using assms(1) G by (auto simp: cache_ok_def)
  show "r = Some k \<Longrightarrow> K_Status k = KeyStatusActive"
    using assms(1) G(4) by (auto simp: cache_ok_def split: option.splits if_splits)
qed

lemma cache_ok_Set:
  assumes "cache_ok c" "K_Status k = KeyStatusActive" "APIKeyCache_Set now c i k = Some c'"
  shows "cache_ok c'"
proof -
  obtain e where S: "lru_inv C_keyID c'" "L_capacity c' = L_capacity c" "gm_get (L_items c') i = Some e" "C_key e = k"
    using APIKeyCache_Set_spec [of c now i k] assms by (auto simp: cache_ok_def)
  have old: "gm_get (L_items c) j = Some x" if "gm_get (L_items c') j = Some x" "j \<noteq> i" for j x
  proof (cases "gm_get (L_items c) i")
    case (Some y)
    with assms(3) that show ?thesis by (auto simp: APIKeyCache_Set_def Let_def gm_get_set)
  next
    case None
    with assms(3) obtain d where d: "evict_loop C_keyID c = Some d"
      and "gm_get (L_items c') = (gm_get (L_items d))(i \<mapsto> \<lparr> C_keyID = i, C_key = k, C_expiresAt = now + L_ttl d \<rparr>)"
      by (auto simp: APIKeyCache_Set_def Let_def gm_get_set)
    with that have "gm_get (L_items d) j = Some x" by auto
    moreover obtain d' where "evict_loop C_keyID c = Some d'" "lru_inv C_keyID d'"
      "L_order d' = take (nat (L_capacity c) - 1) (L_order c)"
      using evict_loop_returns [of C_keyID c] assms(1) by (auto simp: cache_ok_def)
    ultimately show ?thesis
      using d lru_invD(3) [of C_keyID d j x] lru_invD(3) [of C_keyID c j x] assms(1)
      by (auto simp: cache_ok_def dest: in_set_takeD)
  qed
  show ?thesis
    unfolding cache_ok_def using S old assms(1,2) by (metis cache_ok_def option.inject)
qed

lemma validate_stored_accepts:
  assumes "validate_stored X K now env a req = Some (a', Inr k)"
  shows "key_accepted X now (as_globalAllow a) req k"
    and "\<exists>k0. kr_Get K (as_repo a) (aq_KeyID req) = Inr k0 \<and> k = APIKey_Touch now k0"
    and "as_repo a' = fst (kr_Update K (as_repo (env a)) k)"
    and "APIKeyCache_Set now (as_cache (env a)) (aq_KeyID req) k = Some (as_cache a')"
  using assms
  by (auto simp: validate_stored_def key_accepted_def Let_def split: sum.splits if_splits option.splits)

lemma ValidateAPIKey_sound:
  assumes "cache_ok (as_cache a)" "ValidateAPIKey X K now env a req = Some (a', Inr k)"
  shows "key_accepted X now (as_globalAllow a) req k"
proof -
  obtain c hit where g: "APIKeyCache_Get now (as_cache a) (aq_KeyID req) = (c, hit)" by fastforce
  let ?a = "a \<lparr> as_cache := c \<rparr>"
  show ?thesis
  proof (cases "\<exists>cached. hit = Some cached \<and> verifySecretHash X (aq_KeySecret req) (K_SecretHash cached)
      (K_OldSecretHash cached) (APIKey_IsInGracePeriod now cached)")
    case True
    then obtain cached where h: "hit = Some cached" and v: "verifySecretHash X (aq_KeySecret req)
      (K_SecretHash cached) (K_OldSecretHash cached) (APIKey_IsInGracePeriod now cached)" by blast
    have "K_Status cached = KeyStatusActive" using cache_ok_Get(2) [OF assms(1) g] h by simp
    with assms(2) g h v show ?thesis
      by (auto simp: ValidateAPIKey_def Let_def key_accepted_def APIKey_IsActive_def split: if_splits option.splits)
  next
    case False
    then have "validate_stored X K now env ?a req = Some (a', Inr k)"
      using assms(2) g by (auto simp: ValidateAPIKey_def Let_def split: option.splits if_splits)
    from validate_stored_accepts(1) [OF this] show ?thesis by simp
  qed
qed

context apikey_repository
begin

lemma UpdateAPIKeyStatus_ok:
  assumes "inv (as_repo a)" "lru_inv C_keyID (as_cache a)" "UpdateAPIKeyStatus K a i enabled = (a', Inr b)"
  shows "inv (as_repo a')" "gm_get (L_items (as_cache a')) i = None"
    "\<exists>k. \<alpha> (as_repo a') i = Some k \<and> K_Status k = (if enabled then KeyStatusActive else KeyStatusDisabled)"
proof -
  obtain k0 where k0: "kr_Get K (as_repo a) i = Inr k0"
    using assms(3) by (auto simp: UpdateAPIKeyStatus_def split: sum.splits)
  then have at: "\<alpha> (as_repo a) i = Some k0" "K_KeyID k0 = i"
    using get_alpha [OF assms(1), of i] key_of [OF assms(1), of i k0] by (auto split: option.splits)
  let ?k = "k0 \<lparr> K_Status := (if enabled then KeyStatusActive else KeyStatusDisabled) \<rparr>"
  obtain r where r: "kr_Update K (as_repo a) ?k = (r, None)"
    "a' = a \<lparr> as_repo := r, as_cache := APIKeyCache_Delete (as_cache a) i \<rparr>"
    using assms(3) k0 by (auto simp: UpdateAPIKeyStatus_def Let_def split: prod.splits option.splits)
  have "K_KeyID ?k = i" using at by simp
  with update_alpha [OF assms(1) r(1)] at r
  have "inv r" "\<alpha> r = (\<alpha> (as_repo a))(i \<mapsto> ?k)" by (auto split: if_splits)
  then show "inv (as_repo a')" "gm_get (L_items (as_cache a')) i = None"
    "\<exists>k. \<alpha> (as_repo a') i = Some k \<and> K_Status k = (if enabled then KeyStatusActive else KeyStatusDisabled)"
    using r APIKeyCache_Delete_spec(2) [OF assms(2)] by auto
qed

text \<open>Disabling a key takes effect at once, whatever was cached.\<close>

lemma disabled_key_refused:
  assumes "inv (as_repo a)" "lru_inv C_keyID (as_cache a)" "UpdateAPIKeyStatus K a (aq_KeyID req) False = (a', Inr b)"
  shows "ValidateAPIKey X K now env a' req = Some (a', Inl ErrAPIKeyDisabled)"
proof -
  note U = UpdateAPIKeyStatus_ok [OF assms]
  obtain k where k: "\<alpha> (as_repo a') (aq_KeyID req) = Some k" "K_Status k = KeyStatusDisabled"
    using U(3) by auto
  have "APIKeyCache_Get now (as_cache a') (aq_KeyID req) = (as_cache a', None)"
    using U(2) by (simp add: APIKeyCache_Get_def)
  then show ?thesis
    using get_alpha [OF U(1), of "aq_KeyID req"] k
    by (simp add: ValidateAPIKey_def validate_stored_def)
qed

text \<open>But the record of the last use is a write of the whole key as it was read: it undoes what
  another request changed in between.\<close>

lemma validate_overwrites:
  assumes "inv (as_repo a)" "inv (as_repo (env a))" "validate_stored X K now env a req = Some (a', Inr k)"
    and "\<alpha> (as_repo (env a)) (aq_KeyID req) \<noteq> None"
  shows "\<exists>k0. \<alpha> (as_repo a) (aq_KeyID req) = Some k0 \<and>
    \<alpha> (as_repo a') (aq_KeyID req) = Some (APIKey_Touch now k0) \<and> K_Status k0 = KeyStatusActive"
proof -
  note V = validate_stored_accepts [OF assms(3)]
  obtain k0 where k0: "kr_Get K (as_repo a) (aq_KeyID req) = Inr k0" "k = APIKey_Touch now k0"
    using V(2) by blast
  have at: "\<alpha> (as_repo a) (aq_KeyID req) = Some k0" "K_KeyID k0 = aq_KeyID req"
    using k0(1) get_alpha [OF assms(1), of "aq_KeyID req"] key_of [OF assms(1), of "aq_KeyID req"]
    by (auto split: option.splits)
  obtain r e where u: "kr_Update K (as_repo (env a)) k = (r, e)" by (metis surj_pair)
  have "\<alpha> r = (\<alpha> (as_repo (env a)))(aq_KeyID req \<mapsto> k)"
    using update_alpha [OF assms(2) u] assms(4) at k0(2) by (auto split: if_splits)
  moreover have "K_Status k0 = KeyStatusActive" using V(1) k0(2) by (simp add: key_accepted_def)
  ultimately show ?thesis using V(3) u at k0(2) by auto
qed

text \<open>After a rotation the new secret is accepted at once and the old one until the grace period
  ends.\<close>

lemma rotated_secrets:
  assumes "inv (as_repo a)" "argon2_len_ok X" "RotateAPIKey X K now rnd salt a i = (a', Inr newSecret)"
    and "0 \<le> now" "now \<le> t" "in_i64 (UnixMilli now + 86400000)" "\<alpha> (as_repo a) i = Some k0"
    "K_SecretHash k0 \<noteq> ''''"
  shows "\<exists>k. \<alpha> (as_repo a') i = Some k \<and> K_Status k = K_Status k0 \<and>
    verifySecretHash X newSecret (K_SecretHash k) (K_OldSecretHash k) (APIKey_IsInGracePeriod t k) \<and>
    (\<forall>s. UnixMilli t < UnixMilli now + 86400000 \<and> verifyArgon2Hash X s (K_SecretHash k0) \<longrightarrow>
       verifySecretHash X s (K_SecretHash k) (K_OldSecretHash k) (APIKey_IsInGracePeriod t k)) \<and>
    (\<forall>s. UnixMilli now + 86400000 \<le> UnixMilli t \<longrightarrow>
       verifySecretHash X s (K_SecretHash k) (K_OldSecretHash k) (APIKey_IsInGracePeriod t k) =
       verifyArgon2Hash X s (K_SecretHash k))"
proof -
  have g: "kr_Get K (as_repo a) i = Inr k0" and key: "K_KeyID k0 = i"
    using get_alpha [OF assms(1)] key_of [OF assms(1)] assms(7) by simp_all
  obtain k where rot: "APIKey_RotateSecret X now rnd salt k0 = Inr (k, newSecret)"
    using assms(3) g by (auto simp: RotateAPIKey_def split: sum.splits prod.splits option.splits)
  note R = APIKey_RotateSecret_Inr [OF rot]
  note G = RotateSecret_grace [OF rot assms(8,4,5,6)]
  obtain r where r: "kr_Update K (as_repo a) k = (r, None)" "as_repo a' = r"
    using assms(3) g rot by (auto simp: RotateAPIKey_def split: sum.splits prod.splits option.splits)
  have "\<alpha> r = (\<alpha> (as_repo a))(i \<mapsto> k)"
    using update_alpha [OF assms(1) r(1)] R(5) key assms(7) by (auto split: if_splits)
  then show ?thesis
    using r R G hashSecret_verifies [OF assms(2) R(2)] assms(8)
    by (intro exI [of _ k]) (auto simp: verifySecretHash_def)
qed

end

lemma NewAuthService_ok: "cache_ok (as_cache (NewAuthService repo config))"
  using NewAPIKeyCache_inv by (auto simp: cache_ok_def NewAuthService_def Let_def) (simp add: NewAPIKeyCache_def)

section \<open>Properties\<close>

lemma cache_ok_poke:
  assumes "cache_ok c" "K_Status k = KeyStatusActive"
  shows "cache_ok (cache_poke c i k)"
proof (cases "gm_get (L_items c) i")
  case (Some e)
  have L: "lru_inv C_keyID c" using assms(1) by (simp add: cache_ok_def)
  have e: "e \<in> set (L_order c)" "C_keyID e = i" using lru_invD(3) [OF L, of i e] Some by auto
  have "lru_inv C_keyID (cache_poke c i k)"
    using lru_replace_inv [OF L e(1), of "e \<lparr> C_key := k \<rparr>"] e(2) Some by (simp add: cache_poke_def Let_def)
  then show ?thesis
    using assms Some by (auto simp: cache_ok_def cache_poke_def Let_def gm_get_set split: if_splits)
qed (use assms in \<open>simp add: cache_poke_def\<close>)

lemma validate_stored_cache:
  assumes "cache_ok (as_cache (env a))" "cache_ok (as_cache a)"
  shows "\<exists>a' x. validate_stored X K now env a req = Some (a', x) \<and> cache_ok (as_cache a')"
proof (cases "\<exists>k. kr_Get K (as_repo a) (aq_KeyID req) = Inr k \<and> K_Status k = KeyStatusActive")
  case True
  then obtain k where k: "kr_Get K (as_repo a) (aq_KeyID req) = Inr k" "K_Status k = KeyStatusActive" by blast
  obtain c where c: "APIKeyCache_Set now (as_cache (env a)) (aq_KeyID req) (APIKey_Touch now k) = Some c"
    using APIKeyCache_Set_spec [of "as_cache (env a)" now "aq_KeyID req" "APIKey_Touch now k"] assms(1)
    by (auto simp: cache_ok_def)
  have "cache_ok c" using cache_ok_Set [OF assms(1) _ c] k(2) by simp
  with c k assms show ?thesis by (auto simp: validate_stored_def Let_def split: option.splits)
next
  case False
  with assms show ?thesis by (auto simp: validate_stored_def split: sum.splits)
qed

lemma ValidateAPIKey_cache:
  assumes "cache_ok (as_cache a)" "\<And>b. cache_ok (as_cache b) \<Longrightarrow> cache_ok (as_cache (env b))"
  shows "\<exists>a' x. ValidateAPIKey X K now env a req = Some (a', x) \<and> cache_ok (as_cache a')"
proof -
  obtain c hit where g: "APIKeyCache_Get now (as_cache a) (aq_KeyID req) = (c, hit)" by fastforce
  have c: "cache_ok c" "\<And>k. hit = Some k \<Longrightarrow> K_Status k = KeyStatusActive"
    using cache_ok_Get [OF assms(1) g] by blast+
  have "cache_ok (as_cache (env (a \<lparr> as_cache := c \<rparr>)))" using assms(2) c(1) by simp
  then obtain a1 x1 where s: "validate_stored X K now env (a \<lparr> as_cache := c \<rparr>) req = Some (a1, x1)"
    "cache_ok (as_cache a1)"
    using validate_stored_cache [of env "a \<lparr> as_cache := c \<rparr>" X K now req] c(1) by auto
  have p: "hit = Some k \<Longrightarrow> cache_ok (cache_poke c (aq_KeyID req) (APIKey_Touch now k))" for k
    using cache_ok_poke [OF c(1)] c(2) by simp
  show ?thesis
    using s p c(1) g by (cases hit) (auto simp: ValidateAPIKey_def Let_def split: option.splits)
qed

definition example_ext :: ext where
  "example_ext = \<lparr> unicode_ToLower = (\<lambda>s. s), unicode_ToUpper = (\<lambda>s. s), ulid_Parse = (\<lambda>_. True),
     argon2_IDKey = (\<lambda>p s t m th n. take (unat n) (p @ replicate (unat n) 0)) \<rparr>"

definition example_key :: apikey where
  "example_key = APIKey_zero \<lparr> K_KeyID := ''tmak-1'', K_Status := KeyStatusActive, K_SecretHash :=
     argon2_header @ b64_encode std_alphabet [1] @ ''$'' @
       b64_encode std_alphabet (argon2_IDKey example_ext (bytes_of_string ''s'') [1] Argon2Time
         Argon2Memory Argon2Parallelism Argon2KeyLen) \<rparr>"

definition example_auth :: "apikey_store auth_service" where
  "example_auth = NewAuthService \<lparr> ak_keys = [(''tmak-1'', example_key)] \<rparr> None"

lemma example_ext_len: "argon2_len_ok example_ext"
  by (auto simp: argon2_len_ok_def example_ext_def min_def)

lemma example_key_fields [simp]:
  "K_KeyID example_key = ''tmak-1''" "K_Status example_key = KeyStatusActive" "K_Allowlist example_key = []"
  "K_SecretHash example_key \<noteq> ''''" "\<not> APIKey_IsExpired now example_key"
  by (simp_all add: example_key_def APIKey_zero_def APIKey_IsExpired_def)

lemma example_key_secret: "verifySecretHash example_ext ''s'' (K_SecretHash example_key) old g"
proof -
  have "hashSecret example_ext (Inr [1]) ''s'' = Inr (K_SecretHash example_key)"
    unfolding hashSecret_Inr by (simp add: example_key_def)
  from hashSecret_verifies [OF example_ext_len this] show ?thesis by (simp add: verifySecretHash_def)
qed

lemma example_auth_ok:
  "apikey_inv (as_repo example_auth)" "cache_ok (as_cache example_auth)" "as_globalAllow example_auth = []"
  "apikey_abs (as_repo example_auth) ''tmak-1'' = Some example_key" "L_items (as_cache example_auth) = []"
proof -
  show "cache_ok (as_cache example_auth)" unfolding example_auth_def by (rule NewAuthService_ok)
qed (simp_all add: example_auth_def NewAuthService_def apikey_inv_def gm_wf_def gm_get_def apikey_abs_def
      DefaultAuthServiceConfig_def NewAPIKeyCache_def)

text \<open>C10: what a validated key is.  Whatever other requests do between the read and the write, a
  validation always returns and leaves the cache sound; a key is returned only when it is active, has
  not expired, the client's address passes the allowlists and the secret matches the current hash, or
  the previous one within its grace period; this holds for keys from the cache too.\<close>

theorem validated_key_sound:
  assumes "cache_ok (as_cache a)" "\<And>b. cache_ok (as_cache b) \<Longrightarrow> cache_ok (as_cache (env b))"
  shows "\<exists>a' x. ValidateAPIKey X K now env a req = Some (a', x) \<and> cache_ok (as_cache a') \<and>
    (case x of Inl _ \<Rightarrow> True | Inr k \<Rightarrow>
       K_Status k = KeyStatusActive \<and> \<not> APIKey_IsExpired now k \<and>
       checkIPAllowlist (as_globalAllow a) (aq_ClientIP req) (K_Allowlist k) = None \<and>
       (verifyArgon2Hash X (aq_KeySecret req) (K_SecretHash k) \<or>
        APIKey_IsInGracePeriod now k \<and> verifyArgon2Hash X (aq_KeySecret req) (K_OldSecretHash k)))"
proof -
  obtain a' x where v: "ValidateAPIKey X K now env a req = Some (a', x)" "cache_ok (as_cache a')"
    using ValidateAPIKey_cache [of a env, OF assms] by blast
  show ?thesis
  proof (cases x)
    case (Inr k)
    from ValidateAPIKey_sound [OF assms(1), of X K now env req a' k] v Inr show ?thesis
      by (auto simp: key_accepted_def verifySecretHash_def Let_def split: if_splits)
  qed (use v in auto)
qed

theorem validated_key_sound_witness:
  "\<exists>a' x. ValidateAPIKey example_ext apikey_store_repo 0 (\<lambda>b. b) example_auth
      \<lparr> aq_KeyID = ''tmak-1'', aq_KeySecret = ''s'', aq_ClientIP = '''' \<rparr> = Some (a', x) \<and> cache_ok (as_cache a')"
  using validated_key_sound [of example_auth "\<lambda>b. b"] example_auth_ok(2) by blast



text \<open>C12: a disabled key is refused at once: after \<open>UpdateAPIKeyStatus\<close> has disabled a key, the next
  validation of it fails with the error of a disabled key, whatever secret is given, whatever was cached
  and whenever it runs.\<close>

theorem disabled_key_is_refused:
  assumes "apikey_inv (as_repo a)" "cache_ok (as_cache a)"
    and "UpdateAPIKeyStatus apikey_store_repo a (aq_KeyID req) False = (a', Inr b)"
  shows "ValidateAPIKey X apikey_store_repo now env a' req = Some (a', Inl ErrAPIKeyDisabled)"
  by (rule aks.disabled_key_refused [OF assms(1) _ assms(3)]) (use assms(2) in \<open>simp add: cache_ok_def\<close>)

lemma example_disable:
  "\<exists>a'. UpdateAPIKeyStatus apikey_store_repo example_auth ''tmak-1'' False = (a', Inr True) \<and>
     cache_ok (as_cache a') \<and> apikey_inv (as_repo a') \<and> apikey_abs (as_repo a') ''tmak-1'' \<noteq> None"
proof -
  have g: "kr_Get apikey_store_repo (as_repo example_auth) ''tmak-1'' = Inr example_key"
    using aks.get_alpha [OF example_auth_ok(1)] example_auth_ok(4) by simp
  let ?k = "example_key \<lparr> K_Status := KeyStatusDisabled \<rparr>"
  obtain r e where u: "kr_Update apikey_store_repo (as_repo example_auth) ?k = (r, e)" by fastforce
  have r: "apikey_inv r" "e = None" "apikey_abs r ''tmak-1'' = Some ?k"
    using aks.update_alpha [OF example_auth_ok(1) u] example_auth_ok(4) by simp_all
  have "APIKeyCache_Delete (as_cache example_auth) ''tmak-1'' = as_cache example_auth"
    by (simp add: APIKeyCache_Delete_def example_auth_ok(5))
  then show ?thesis
    using g u r example_auth_ok(2) by (simp add: UpdateAPIKeyStatus_def Let_def)
qed

theorem disabled_key_is_refused_witness:
  "\<exists>a'. UpdateAPIKeyStatus apikey_store_repo example_auth ''tmak-1'' False = (a', Inr True) \<and>
     ValidateAPIKey example_ext apikey_store_repo 0 (\<lambda>b. b) a'
      \<lparr> aq_KeyID = ''tmak-1'', aq_KeySecret = ''s'', aq_ClientIP = '''' \<rparr> = Some (a', Inl ErrAPIKeyDisabled)"
proof -
  obtain a' where a: "UpdateAPIKeyStatus apikey_store_repo example_auth ''tmak-1'' False = (a', Inr True)"
    using example_disable by blast
  with disabled_key_is_refused [OF example_auth_ok(1,2), where req =
      "\<lparr> aq_KeyID = ''tmak-1'', aq_KeySecret = ''s'', aq_ClientIP = '''' \<rparr>"] show ?thesis by simp
qed

text \<open>C32: a validation undoes a concurrent disable.  It writes back the whole key that it read, with
  only the time of use changed: when the key is disabled between the read and the write, the key in the
  repository is active again afterwards, and the cache holds it as active.\<close>

theorem validation_undoes_disable:
  assumes "apikey_inv (as_repo a)" "cache_ok (as_cache a)"
    and "gm_get (L_items (as_cache a)) (aq_KeyID req) = None"
    and "UpdateAPIKeyStatus apikey_store_repo a (aq_KeyID req) False = (a1, Inr b)"
    and "ValidateAPIKey X apikey_store_repo now (\<lambda>_. a1) a req = Some (a', Inr k)"
  shows "(\<exists>d. apikey_abs (as_repo a1) (aq_KeyID req) = Some d \<and> K_Status d = KeyStatusDisabled) \<and>
    apikey_abs (as_repo a') (aq_KeyID req) = Some k \<and> K_Status k = KeyStatusActive"
proof -
  have lru: "lru_inv C_keyID (as_cache a)" using assms(2) by (simp add: cache_ok_def)
  note D = aks.UpdateAPIKeyStatus_ok [OF assms(1) lru assms(4)]
  have v: "validate_stored X apikey_store_repo now (\<lambda>_. a1) a req = Some (a', Inr k)"
    using assms(5,3) by (simp add: ValidateAPIKey_def APIKeyCache_Get_def)
  have dis: "\<exists>d. apikey_abs (as_repo a1) (aq_KeyID req) = Some d \<and> K_Status d = KeyStatusDisabled"
    using D(3) by simp
  have "apikey_abs (as_repo a1) (aq_KeyID req) \<noteq> None" using dis by auto
  then obtain k0 where k0: "apikey_abs (as_repo a) (aq_KeyID req) = Some k0"
    "apikey_abs (as_repo a') (aq_KeyID req) = Some (APIKey_Touch now k0)" "K_Status k0 = KeyStatusActive"
    using aks.validate_overwrites [OF assms(1) D(1) v] by blast
  have "k = APIKey_Touch now k0"
    using validate_stored_accepts(2) [OF v] aks.get_alpha [OF assms(1)] k0(1) by simp
  with k0 dis show ?thesis by simp
qed

theorem validation_undoes_disable_witness:
  "\<exists>a1 a' k. UpdateAPIKeyStatus apikey_store_repo example_auth ''tmak-1'' False = (a1, Inr True) \<and>
     ValidateAPIKey example_ext apikey_store_repo 0 (\<lambda>_. a1) example_auth
      \<lparr> aq_KeyID = ''tmak-1'', aq_KeySecret = ''s'', aq_ClientIP = '''' \<rparr> = Some (a', Inr k) \<and>
     apikey_abs (as_repo a') ''tmak-1'' = Some k \<and> K_Status k = KeyStatusActive"
proof -
  obtain a1 where a: "UpdateAPIKeyStatus apikey_store_repo example_auth ''tmak-1'' False = (a1, Inr True)"
    "cache_ok (as_cache a1)" using example_disable by blast
  let ?req = "\<lparr> aq_KeyID = ''tmak-1'', aq_KeySecret = ''s'', aq_ClientIP = '''' \<rparr>"
  have g: "kr_Get apikey_store_repo (as_repo example_auth) ''tmak-1'' = Inr example_key"
    using aks.get_alpha [OF example_auth_ok(1)] example_auth_ok(4) by simp
  obtain c where "APIKeyCache_Set 0 (as_cache a1) ''tmak-1'' (APIKey_Touch 0 example_key) = Some c"
    using APIKeyCache_Set_spec [of "as_cache a1" 0 "''tmak-1''" "APIKey_Touch 0 example_key"] a(2)
    by (auto simp: cache_ok_def)
  then obtain a' k where v: "ValidateAPIKey example_ext apikey_store_repo 0 (\<lambda>_. a1) example_auth ?req = Some (a', Inr k)"
    using that g example_auth_ok(3,5) example_key_secret
    by (simp add: ValidateAPIKey_def APIKeyCache_Get_def validate_stored_def checkIPAllowlist_def Let_def)
  have "apikey_abs (as_repo a') (aq_KeyID ?req) = Some k \<and> K_Status k = KeyStatusActive"
    using validation_undoes_disable [OF example_auth_ok(1,2) _ _ v] a(1) example_auth_ok(5) by simp
  with a v show ?thesis by auto
qed

text \<open>Rotation of a secret.  Afterwards the new secret is accepted at once, every secret that the
  old hash accepted stays accepted for twenty-four hours, and after that the key accepts exactly what its
  new hash accepts.\<close>

lemma rotation_grace_period:
  assumes "apikey_inv (as_repo a)" "argon2_len_ok X" "apikey_abs (as_repo a) i = Some k0" "K_SecretHash k0 \<noteq> ''''"
    and "RotateAPIKey X apikey_store_repo now rnd salt a i = (a', Inr newSecret)"
    and "0 \<le> now" "now \<le> t" "in_i64 (UnixMilli now + 86400000)"
  shows "\<exists>k. apikey_abs (as_repo a') i = Some k \<and> K_Status k = K_Status k0 \<and>
    verifySecretHash X newSecret (K_SecretHash k) (K_OldSecretHash k) (APIKey_IsInGracePeriod t k) \<and>
    (\<forall>s. UnixMilli t < UnixMilli now + 86400000 \<and> verifyArgon2Hash X s (K_SecretHash k0) \<longrightarrow>
       verifySecretHash X s (K_SecretHash k) (K_OldSecretHash k) (APIKey_IsInGracePeriod t k)) \<and>
    (\<forall>s. UnixMilli now + 86400000 \<le> UnixMilli t \<longrightarrow>
       verifySecretHash X s (K_SecretHash k) (K_OldSecretHash k) (APIKey_IsInGracePeriod t k) =
       verifyArgon2Hash X s (K_SecretHash k))"
  by (rule aks.rotated_secrets [OF assms(1,2,5,6,7,8,3,4)])

text \<open>The allowlist check is exact: with no entry at all everyone passes; otherwise the client
  passes exactly when its address parses and some entry, global or of the key, is an address equal to
  it or a network that contains it; entries that do not parse allow nobody.\<close>

lemma allowlist_exact:
  "checkIPAllowlist g c k = None \<longleftrightarrow>
     g @ k = [] \<or> (\<exists>ip. ParseIP c = Some ip \<and> (\<exists>entry \<in> set (g @ k). entry_allows ip entry))"
  by (rule checkIPAllowlist_iff)

end
