(* ===== verification/Go_Os.thy ===== *)
theory Go_Os
  imports Go_Strings Domain_Errors "HOL-Library.Char_ord" "HOL-Library.List_Lexorder"
begin

text \<open>
  What the storage layer uses of Go's \<open>os\<close> and \<open>io\<close> packages. A directory is a map from file
  names to contents; the files a component keeps are in one directory, with no subdirectories. A
  call to the operating system may fail: the outcomes of the calls that one operation makes are
  its argument \<open>os_calls\<close>, any record the theorems quantify over; \<open>os_ok\<close> is the
  record in which every call succeeds. A write that fails may have written a prefix. Reading an
  opened file returns its contents.
\<close>

section \<open>Directories and calls\<close>

type_synonym dir = "(string, bytes) gomap"

record os_calls =
  os_MkdirAll :: "go_error option"
  os_ReadDir :: "go_error option"
  os_Open :: "string \<Rightarrow> go_error option"
  os_Stat :: "string \<Rightarrow> go_error option"
  os_Write :: "bytes \<Rightarrow> nat \<times> go_error option"
  os_Sync :: "go_error option"
  os_Close :: "go_error option"
  os_Remove :: "string \<Rightarrow> go_error option"
  os_Rename :: "go_error option"

definition os_ok :: os_calls where
  "os_ok = \<lparr> os_MkdirAll = None, os_ReadDir = None, os_Open = (\<lambda>_. None), os_Stat = (\<lambda>_. None),
     os_Write = (\<lambda>b. (length b, None)), os_Sync = None, os_Close = None, os_Remove = (\<lambda>_. None),
     os_Rename = None \<rparr>"

definition ErrNotExist :: go_error where "ErrNotExist = PlainError ''file does not exist''"
definition ErrClosed :: go_error where "ErrClosed = PlainError ''file already closed''"

definition io_EOF :: go_error where "io_EOF = PlainError ''EOF''"
definition io_ErrUnexpectedEOF :: go_error where "io_ErrUnexpectedEOF = PlainError ''unexpected EOF''"

text \<open>\<open>os.ReadDir\<close> lists names in increasing order.\<close>

definition dir_names :: "dir \<Rightarrow> string list" where
  "dir_names d = sort (map fst d)"

text \<open>Appending to an open file; a file that has been removed takes the bytes with it.\<close>

definition file_append :: "dir \<Rightarrow> string \<Rightarrow> bytes \<Rightarrow> dir" where
  "file_append d name b =
     (case gm_get d name of None \<Rightarrow> d | Some c \<Rightarrow> gm_set name (c @ b) d)"

text \<open>\<open>io.ReadFull\<close> from a reader with the bytes \<open>b\<close> left: the result and what is left after it.\<close>

definition io_ReadFull :: "nat \<Rightarrow> bytes \<Rightarrow> (go_error + bytes) \<times> bytes" where
  "io_ReadFull n b =
     (if n \<le> length b then (Inr (take n b), drop n b)
      else if b = [] then (Inl io_EOF, []) else (Inl io_ErrUnexpectedEOF, []))"

section \<open>Lemmas\<close>

lemma os_ok_simps [simp]:
  "os_MkdirAll os_ok = None" "os_ReadDir os_ok = None" "os_Open os_ok n = None" "os_Stat os_ok n = None"
  "os_Write os_ok b = (length b, None)" "os_Sync os_ok = None" "os_Close os_ok = None"
  "os_Remove os_ok n = None" "os_Rename os_ok = None"
  by (simp_all add: os_ok_def)

lemma io_errors_distinct [simp]:
  "io_EOF \<noteq> io_ErrUnexpectedEOF" "io_ErrUnexpectedEOF \<noteq> io_EOF"
  "errors_Is io_EOF e \<longleftrightarrow> e = io_EOF" "errors_Is io_ErrUnexpectedEOF e \<longleftrightarrow> e = io_ErrUnexpectedEOF"
  by (auto simp: io_EOF_def io_ErrUnexpectedEOF_def)

lemma io_ReadFull_append [simp]: "length a = n \<Longrightarrow> io_ReadFull n (a @ b) = (Inr a, b)"
  by (simp add: io_ReadFull_def)

lemma io_ReadFull_all [simp]: "length a = n \<Longrightarrow> io_ReadFull n a = (Inr a, [])"
  by (simp add: io_ReadFull_def)

lemma io_ReadFull_Nil [simp]: "0 < n \<Longrightarrow> io_ReadFull n [] = (Inl io_EOF, [])"
  by (simp add: io_ReadFull_def)

lemma io_ReadFull_left:
  "io_ReadFull n b = (q, b') \<Longrightarrow> length b' \<le> length b"
  "io_ReadFull n b = (Inr x, b') \<Longrightarrow> length b = n + length b'"
  "io_ReadFull n b = (Inl e, b') \<Longrightarrow> b' = [] \<and> (e = io_EOF \<and> b = [] \<or> e = io_ErrUnexpectedEOF \<and> b \<noteq> [])"
  by (auto simp: io_ReadFull_def split: if_splits)

lemma dir_names_set [simp]: "set (dir_names d) = fst ` set d"
  by (simp add: dir_names_def)

lemma dir_names_distinct: "gm_wf d \<Longrightarrow> distinct (dir_names d)"
  by (simp add: dir_names_def gm_wf_def)

lemma gm_get_file_append [simp]:
  "gm_get (file_append d f b) = (case gm_get d f of None \<Rightarrow> gm_get d | Some c \<Rightarrow> (gm_get d)(f \<mapsto> c @ b))"
  by (simp add: file_append_def gm_get_set split: option.splits)

lemma gm_wf_file_append [simp]: "gm_wf d \<Longrightarrow> gm_wf (file_append d f b)"
  by (simp add: file_append_def gm_wf_set split: option.splits)

end
