(* ===== verification/Go_Json_Text.thy ===== *)
theory Go_Json_Text
  imports Go_Strings Domain_Errors "HOL-Library.Char_ord" "HOL-Library.List_Lexorder"
begin

text \<open>
  Strings of JSON documents as \<open>encoding/json\<close> (Go 1.24) writes and reads them: UTF-8 sequences, the
  encoder's escaping with HTML escaping on, invalid UTF-8 replaced, and the decoder's scan to the closing
  quote and removal of escapes. A valid UTF-8 string survives the round trip.
\<close>

section \<open>UTF-8\<close>

abbreviation cc :: "char \<Rightarrow> nat" where "cc c \<equiv> of_char c"

definition utf8_second :: "nat \<Rightarrow> nat \<times> nat" where
  "utf8_second x =
     (if x = 224 then (160, 191) else if x = 237 then (128, 159)
      else if x = 240 then (144, 191) else if x = 244 then (128, 143) else (128, 191))"

definition utf8_cont :: "char \<Rightarrow> bool" where
  "utf8_cont c \<longleftrightarrow> 128 \<le> cc c \<and> cc c \<le> 191"

text \<open>The length of the multi-byte sequence at the head, 0 when \<open>utf8.DecodeRune\<close> would report an
  error there.\<close>

fun utf8_len :: "string \<Rightarrow> nat" where
  "utf8_len (a # b # r) =
     (if 194 \<le> cc a \<and> cc a \<le> 223 then (if utf8_cont b then 2 else 0)
      else if 224 \<le> cc a \<and> cc a \<le> 244 \<and> fst (utf8_second (cc a)) \<le> cc b \<and> cc b \<le> snd (utf8_second (cc a)) then
        (case r of
           [] \<Rightarrow> 0
         | c # r' \<Rightarrow>
             if \<not> utf8_cont c then 0
             else if cc a \<le> 239 then 3
             else (case r' of [] \<Rightarrow> 0 | d # _ \<Rightarrow> if utf8_cont d then 4 else 0))
      else 0)"
| "utf8_len _ = 0"

fun utf8_ValidString :: "string \<Rightarrow> bool" where
  "utf8_ValidString [] = True"
| "utf8_ValidString (c # cs) =
     (if cc c < 128 then utf8_ValidString cs
      else let n = utf8_len (c # cs) in if n = 0 then False else utf8_ValidString (drop (n - 1) cs))"

definition utf8_EncodeRune :: "nat \<Rightarrow> string" where
  "utf8_EncodeRune r =
     (if r < 128 then [char_of r]
      else if r < 2048 then [char_of (192 + r div 64), char_of (128 + r mod 64)]
      else if r < 65536 then
        [char_of (224 + r div 4096), char_of (128 + r div 64 mod 64), char_of (128 + r mod 64)]
      else
        [char_of (240 + r div 262144), char_of (128 + r div 4096 mod 64), char_of (128 + r div 64 mod 64),
         char_of (128 + r mod 64)])"

abbreviation utf8_error :: string where "utf8_error \<equiv> [CHR 0xEF, CHR 0xBF, CHR 0xBD]"

section \<open>Strings\<close>

abbreviation backslash :: char where "backslash \<equiv> CHR 0x5C"
abbreviation dquote :: char where "dquote \<equiv> CHR 0x22"

definition json_escape_char :: "char \<Rightarrow> string" where
  "json_escape_char c =
     (if c = dquote \<or> c = backslash then [backslash, c]
      else if c = CHR 0x08 then [backslash, CHR ''b'']
      else if c = CHR 0x0C then [backslash, CHR ''f'']
      else if c = CHR 0x0A then [backslash, CHR ''n'']
      else if c = CHR 0x0D then [backslash, CHR ''r'']
      else if c = CHR 0x09 then [backslash, CHR ''t'']
      else if cc c < 32 \<or> c \<in> set ''<>&'' then
        [backslash, CHR ''u'', CHR ''0'', CHR ''0'', hex_digit (cc c div 16), hex_digit (cc c mod 16)]
      else [c])"

definition line_separator :: "string \<Rightarrow> bool" where
  "line_separator s \<longleftrightarrow> take 3 s = [CHR 0xE2, CHR 0x80, CHR 0xA8] \<or> take 3 s = [CHR 0xE2, CHR 0x80, CHR 0xA9]"

fun json_escape :: "string \<Rightarrow> string" where
  "json_escape [] = []"
| "json_escape (c # cs) =
     (if cc c < 128 then json_escape_char c @ json_escape cs
      else let n = utf8_len (c # cs) in
        if n = 0 then backslash # ''ufffd'' @ json_escape cs
        else if line_separator (c # cs) then
          backslash # ''u202'' @ [hex_digit (cc (cs ! 1) mod 16)] @ json_escape (drop (n - 1) cs)
        else take n (c # cs) @ json_escape (drop (n - 1) cs))"

definition is_hex4 :: "string \<Rightarrow> bool" where
  "is_hex4 s \<longleftrightarrow> length s = 4 \<and> (\<forall>c \<in> set s. hex_val c \<noteq> None)"

definition hex4 :: "string \<Rightarrow> nat" where
  "hex4 s = foldl (\<lambda>r c. r * 16 + the (hex_val c)) 0 s"

text \<open>The scanner inside a string: the raw text up to the closing quote.\<close>

fun scan_raw :: "string \<Rightarrow> (string \<times> string) option" where
  "scan_raw [] = None"
| "scan_raw (c # cs) =
     (if c = dquote then Some ([], cs)
      else if c = backslash then
        (case cs of
           [] \<Rightarrow> None
         | e # es \<Rightarrow>
             if e \<in> set (backslash # dquote # ''/bfnrt'') then map_option (\<lambda>(s, r). (c # e # s, r)) (scan_raw es)
             else if e = CHR ''u'' \<and> is_hex4 (take 4 es) then
               map_option (\<lambda>(s, r). (c # e # take 4 es @ s, r)) (scan_raw (drop 4 es))
             else None)
      else if cc c < 32 then None
      else map_option (\<lambda>(s, r). (c # s, r)) (scan_raw cs))"

definition unescape_char :: "char \<Rightarrow> char" where
  "unescape_char e =
     (if e = CHR ''b'' then CHR 0x08 else if e = CHR ''f'' then CHR 0x0C else if e = CHR ''n'' then CHR 0x0A
      else if e = CHR ''r'' then CHR 0x0D else if e = CHR ''t'' then CHR 0x09 else e)"

definition is_surrogate :: "nat \<Rightarrow> bool" where
  "is_surrogate r \<longleftrightarrow> 55296 \<le> r \<and> r < 57344"

definition surrogate_pair :: "nat \<Rightarrow> string \<Rightarrow> nat option" where
  "surrogate_pair r s =
     (if take 2 s = [backslash, CHR ''u''] \<and> is_hex4 (take 4 (drop 2 s)) \<and> r < 56320 \<and>
         56320 \<le> hex4 (take 4 (drop 2 s)) \<and> hex4 (take 4 (drop 2 s)) < 57344
      then Some (65536 + (r - 55296) * 1024 + (hex4 (take 4 (drop 2 s)) - 56320)) else None)"

fun json_unquote :: "string \<Rightarrow> string" where
  "json_unquote [] = []"
| "json_unquote (c # cs) =
     (if c = backslash then
        (case cs of
           [] \<Rightarrow> []
         | e # es \<Rightarrow>
             if e = CHR ''u'' then
               (let r = hex4 (take 4 es) in
                if is_surrogate r then
                  (case surrogate_pair r (drop 4 es) of
                     Some d \<Rightarrow> utf8_EncodeRune d @ json_unquote (drop 10 es)
                   | None \<Rightarrow> utf8_error @ json_unquote (drop 4 es))
                else utf8_EncodeRune r @ json_unquote (drop 4 es))
             else unescape_char e # json_unquote es)
      else if cc c < 128 then c # json_unquote cs
      else let n = utf8_len (c # cs) in
        if n = 0 then utf8_error @ json_unquote cs
        else take n (c # cs) @ json_unquote (drop (n - 1) cs))"

section \<open>String round trip\<close>

lemma utf8_len_cases:
  assumes "utf8_len s \<noteq> 0"
  obtains a b r where "s = a # b # r" "utf8_len s = 2" "194 \<le> cc a" "cc a \<le> 223" "utf8_cont b"
  | a b c r where "s = a # b # c # r" "utf8_len s = 3" "224 \<le> cc a" "cc a \<le> 239" "utf8_cont c"
      "fst (utf8_second (cc a)) \<le> cc b" "cc b \<le> snd (utf8_second (cc a))"
  | a b c d r where "s = a # b # c # d # r" "utf8_len s = 4" "240 \<le> cc a" "cc a \<le> 244" "utf8_cont c" "utf8_cont d"
      "fst (utf8_second (cc a)) \<le> cc b" "cc b \<le> snd (utf8_second (cc a))"
proof -
  obtain a b r where s: "s = a # b # r" using assms by (cases s rule: utf8_len.cases) auto
  show ?thesis
  proof (cases "cc a \<le> 223")
    case True
    then have "utf8_len s = 2 \<and> 194 \<le> cc a \<and> utf8_cont b" using assms s by (simp split: if_splits)
    with True s show ?thesis by (intro that(1) [of a b r]) simp_all
  next
    case False
    then obtain c r' where r: "r = c # r'" "utf8_cont c" "224 \<le> cc a" "cc a \<le> 244"
      "fst (utf8_second (cc a)) \<le> cc b" "cc b \<le> snd (utf8_second (cc a))"
      using assms s by (cases r) (simp_all split: if_splits)
    show ?thesis
    proof (cases "cc a \<le> 239")
      case True
      then have "utf8_len s = 3" using s r by simp
      with True s r show ?thesis by (intro that(2) [of a b c r']) simp_all
    next
      case False
      then obtain d r'' where "r' = d # r''" "utf8_cont d" "utf8_len s = 4"
        using assms s r by (cases r') (simp_all split: if_splits)
      with False s r show ?thesis by (intro that(3) [of a b c d r'']) simp_all
    qed
  qed
qed

lemma utf8_len_prefix: "utf8_len s \<noteq> 0 \<Longrightarrow> utf8_len (take (utf8_len s) s @ t) = utf8_len s"
  by (erule utf8_len_cases) simp_all

lemma utf8_len_range: "utf8_len s \<noteq> 0 \<Longrightarrow> 2 \<le> utf8_len s \<and> utf8_len s \<le> length s"
  by (erule utf8_len_cases) simp_all

text \<open>The bytes of a multi-byte sequence are all above ASCII.\<close>

lemma utf8_second_ge: "128 \<le> fst (utf8_second x)"
  by (simp add: utf8_second_def)

lemma utf8_len_bytes: "utf8_len s \<noteq> 0 \<Longrightarrow> c \<in> set (take (utf8_len s) s) \<Longrightarrow> 128 \<le> cc c"
proof (erule utf8_len_cases)
  note G = order_trans [OF utf8_second_ge]
  show ?thesis if "c \<in> set (take (utf8_len s) s)" "s = a # b # r" "utf8_len s = 2" "194 \<le> cc a" "utf8_cont b" for a b r
    using that by (auto simp: utf8_cont_def)
  show ?thesis if "c \<in> set (take (utf8_len s) s)" "s = a # b # d # r" "utf8_len s = 3" "224 \<le> cc a" "utf8_cont d"
      "fst (utf8_second (cc a)) \<le> cc b" for a b d r
    using that G [OF that(6)] by (auto simp: utf8_cont_def)
  show ?thesis if "c \<in> set (take (utf8_len s) s)" "s = a # b # d # e # r" "utf8_len s = 4" "240 \<le> cc a"
      "utf8_cont d" "utf8_cont e" "fst (utf8_second (cc a)) \<le> cc b" for a b d e r
    using that G [OF that(7)] by (auto simp: utf8_cont_def)
qed


lemma scan_raw_high:
  "(\<And>c. c \<in> set xs \<Longrightarrow> 128 \<le> cc c) \<Longrightarrow> scan_raw (xs @ t) = map_option (\<lambda>(s, r). (xs @ s, r)) (scan_raw t)"
proof (induction xs)
  case (Cons x xs)
  have "128 \<le> cc x" using Cons.prems by simp
  then have "x \<noteq> dquote" "x \<noteq> backslash" "\<not> cc x < 32" by auto
  with Cons show ?case by (auto simp: option.map_comp o_def case_prod_beta)
qed (simp add: case_prod_beta option.map_id)

lemma json_escape_char_cases:
  obtains (short) e where "json_escape_char c = [backslash, e]" "e \<in> set (backslash # dquote # ''/bfnrt'')"
  | (hex) "json_escape_char c = [backslash, CHR ''u'', CHR ''0'', CHR ''0'', hex_digit (cc c div 16), hex_digit (cc c mod 16)]"
  | (plain) "json_escape_char c = [c]" "c \<noteq> dquote" "c \<noteq> backslash" "\<not> cc c < 32"
proof (cases "c = dquote \<or> c = backslash \<or> c = CHR 0x08 \<or> c = CHR 0x0C \<or> c = CHR 0x0A \<or> c = CHR 0x0D \<or> c = CHR 0x09")
  case True
  then show ?thesis by (intro short [of "json_escape_char c ! 1"]) (auto simp: json_escape_char_def)
next
  case False
  then show ?thesis
    by (cases "cc c < 32 \<or> c \<in> set ''<>&''") (rule hex plain; simp add: json_escape_char_def)+
qed

lemma hex4_00:
  assumes "cc c < 128"
  shows "is_hex4 [CHR ''0'', CHR ''0'', hex_digit (cc c div 16), hex_digit (cc c mod 16)]"
    "hex4 [CHR ''0'', CHR ''0'', hex_digit (cc c div 16), hex_digit (cc c mod 16)] = cc c"
proof -
  have h: "hex_val (hex_digit (cc c div 16)) = Some (cc c div 16)" "hex_val (hex_digit (cc c mod 16)) = Some (cc c mod 16)"
    using assms by simp_all
  have z: "hex_val (CHR ''0'') = Some 0" by (simp add: hex_val_def)
  show "is_hex4 [CHR ''0'', CHR ''0'', hex_digit (cc c div 16), hex_digit (cc c mod 16)]"
    "hex4 [CHR ''0'', CHR ''0'', hex_digit (cc c div 16), hex_digit (cc c mod 16)] = cc c"
    using h z by (auto simp: is_hex4_def hex4_def)
qed

lemma scan_raw_short:
  "e \<in> set (backslash # dquote # ''/bfnrt'') \<Longrightarrow>
     scan_raw (backslash # e # t) = map_option (\<lambda>(s, r). (backslash # e # s, r)) (scan_raw t)"
  by (simp only: scan_raw.simps list.case) simp

lemma scan_raw_hex:
  assumes "is_hex4 [w, x, y, z]"
  shows "scan_raw (backslash # CHR ''u'' # w # x # y # z # t) =
    map_option (\<lambda>(s, r). (backslash # CHR ''u'' # w # x # y # z # s, r)) (scan_raw t)"
proof -
  have "take 4 (w # x # y # z # t) = [w, x, y, z]" "drop 4 (w # x # y # z # t) = t"
    by (simp_all add: numeral_eq_Suc)
  with assms show ?thesis by (simp del: take_Suc_Cons drop_Suc_Cons)
qed

lemma scan_escape_char:
  assumes "cc c < 128"
  shows "scan_raw (json_escape_char c @ t) = map_option (\<lambda>(s, r). (json_escape_char c @ s, r)) (scan_raw t)"
proof (cases c rule: json_escape_char_cases)
  case (short e)
  then show ?thesis using scan_raw_short [of e t] by (simp del: scan_raw.simps)
next
  case hex
  then show ?thesis using scan_raw_hex [OF hex4_00(1) [OF assms], of t] by (simp del: scan_raw.simps)
qed simp

lemma unquote_hex:
  assumes "hex4 [w, x, y, z] = r" "\<not> is_surrogate r"
  shows "json_unquote (backslash # CHR ''u'' # w # x # y # z # t) = utf8_EncodeRune r @ json_unquote t"
proof -
  have "take 4 (w # x # y # z # t) = [w, x, y, z]" "drop 4 (w # x # y # z # t) = t"
    by (simp_all add: numeral_eq_Suc)
  with assms show ?thesis by (simp del: take_Suc_Cons drop_Suc_Cons)
qed

lemma unquote_escape_char:
  assumes "cc c < 128"
  shows "json_unquote (json_escape_char c @ t) = c # json_unquote t"
proof (cases c rule: json_escape_char_cases)
  case (short e)
  then show ?thesis
    by (auto simp: json_escape_char_def unescape_char_def split: if_splits)
next
  case hex
  have "utf8_EncodeRune (cc c) = [c]" "\<not> is_surrogate (cc c)"
    using assms by (simp_all add: utf8_EncodeRune_def is_surrogate_def)
  with hex show ?thesis using unquote_hex [OF hex4_00(2) [OF assms], of t] by (simp del: json_unquote.simps)
qed (use assms in simp)


lemma line_separator_cases:
  assumes "line_separator s"
  obtains r where "s = CHR 0xE2 # CHR 0x80 # CHR 0xA8 # r" | r where "s = CHR 0xE2 # CHR 0x80 # CHR 0xA9 # r"
proof -
  have "s = take 3 s @ drop 3 s" by simp
  with assms that show ?thesis unfolding line_separator_def by (metis append_Cons append_Nil)
qed

lemma separator_chars:
  "char_of (226 :: nat) = CHR 0xE2" "char_of (128 :: nat) = CHR 0x80"
  "char_of (168 :: nat) = CHR 0xA8" "char_of (169 :: nat) = CHR 0xA9"
  by code_simp+

lemma escape_separator:
  assumes "line_separator s"
  shows "\<exists>w r. s = CHR 0xE2 # CHR 0x80 # w # r \<and>
    json_escape s = [backslash, CHR ''u'', CHR ''2'', CHR ''0'', CHR ''2'', hex_digit (cc w mod 16)] @ json_escape r \<and>
    is_hex4 [CHR ''2'', CHR ''0'', CHR ''2'', hex_digit (cc w mod 16)] \<and>
    \<not> is_surrogate (hex4 [CHR ''2'', CHR ''0'', CHR ''2'', hex_digit (cc w mod 16)]) \<and>
    utf8_EncodeRune (hex4 [CHR ''2'', CHR ''0'', CHR ''2'', hex_digit (cc w mod 16)]) = [CHR 0xE2, CHR 0x80, w]"
  using assms
proof (cases rule: line_separator_cases)
  case (1 r)
  have "utf8_len s = 3" by (simp add: 1 utf8_cont_def utf8_second_def)
  moreover have "is_hex4 [CHR ''2'', CHR ''0'', CHR ''2'', hex_digit (168 mod 16)]"
    "hex4 [CHR ''2'', CHR ''0'', CHR ''2'', hex_digit (168 mod 16)] = 8232" by code_simp+
  ultimately show ?thesis
    using assms 1 by (intro exI [of _ "CHR 0xA8"] exI [of _ r]) (simp add: is_surrogate_def utf8_EncodeRune_def separator_chars)
next
  case (2 r)
  have "utf8_len s = 3" by (simp add: 2 utf8_cont_def utf8_second_def)
  moreover have "is_hex4 [CHR ''2'', CHR ''0'', CHR ''2'', hex_digit (169 mod 16)]"
    "hex4 [CHR ''2'', CHR ''0'', CHR ''2'', hex_digit (169 mod 16)] = 8233" by code_simp+
  ultimately show ?thesis
    using assms 2 by (intro exI [of _ "CHR 0xA9"] exI [of _ r]) (simp add: is_surrogate_def utf8_EncodeRune_def separator_chars)
qed


text \<open>The two halves of the round trip.\<close>

lemma escape_high:
  assumes "128 \<le> cc c" "utf8_len (c # cs) \<noteq> 0" "\<not> line_separator (c # cs)"
  shows "json_escape (c # cs) = take (utf8_len (c # cs)) (c # cs) @ json_escape (drop (utf8_len (c # cs) - 1) cs)"
  using assms by (simp add: Let_def del: utf8_len.simps)

lemma scan_escape: "utf8_ValidString s \<Longrightarrow> scan_raw (json_escape s @ dquote # t) = Some (json_escape s, t)"
proof (induction s rule: utf8_ValidString.induct)
  case (2 c cs)
  let ?n = "utf8_len (c # cs)"
  show ?case
  proof (cases "cc c < 128")
    case True
    with 2 show ?thesis by (simp add: scan_escape_char)
  next
    case False
    then have n: "?n \<noteq> 0" "utf8_ValidString (drop (?n - 1) cs)"
      using 2 by (simp_all add: Let_def split: if_splits del: utf8_len.simps)
    with False have IH: "scan_raw (json_escape (drop (?n - 1) cs) @ dquote # t) = Some (json_escape (drop (?n - 1) cs), t)"
      using 2 by (simp add: Let_def del: utf8_len.simps scan_raw.simps)
    show ?thesis
    proof (cases "line_separator (c # cs)")
      case True
      from escape_separator [OF True] obtain w r where w: "c # cs = CHR 0xE2 # CHR 0x80 # w # r"
        "json_escape (c # cs) = [backslash, CHR ''u'', CHR ''2'', CHR ''0'', CHR ''2'', hex_digit (cc w mod 16)] @ json_escape r"
        "is_hex4 [CHR ''2'', CHR ''0'', CHR ''2'', hex_digit (cc w mod 16)]" by blast
      from True have "?n = 3" by (cases rule: line_separator_cases) (simp_all add: utf8_cont_def utf8_second_def)
      then have "drop (?n - 1) cs = r" using w(1) by simp
      with IH w(2,3) show ?thesis by (simp add: scan_raw_hex del: scan_raw.simps json_escape.simps)
    next
      case sep: False
      have "128 \<le> cc x" if "x \<in> set (take ?n (c # cs))" for x using utf8_len_bytes [OF n(1) that] .
      then show ?thesis
        using escape_high [OF _ n(1) sep] False IH scan_raw_high [of "take ?n (c # cs)" "json_escape (drop (?n - 1) cs) @ dquote # t"]
        by (simp del: scan_raw.simps json_escape.simps utf8_len.simps)
    qed
  qed
qed simp

lemma unquote_high:
  assumes "utf8_len s \<noteq> 0"
  shows "json_unquote (take (utf8_len s) s @ t) = take (utf8_len s) s @ json_unquote t"
proof -
  let ?n = "utf8_len s" and ?s = "take (utf8_len s) s @ t"
  obtain c cs where s: "s = c # cs" using assms by (cases s) auto
  have "0 < ?n" "?n \<le> length s" using utf8_len_range [OF assms] assms by auto
  then have c: "?s = c # take (?n - 1) cs @ t" "take ?n s = c # take (?n - 1) cs" "length (take (?n - 1) cs) = ?n - 1"
    using s by (cases ?n; simp)+
  have "128 \<le> cc c" using utf8_len_bytes [OF assms, of c] c(2) by simp
  then have "c \<noteq> backslash" "\<not> cc c < 128" by auto
  moreover have "utf8_len ?s = ?n" by (rule utf8_len_prefix [OF assms])
  ultimately have "json_unquote (c # take (?n - 1) cs @ t) =
      take ?n (c # take (?n - 1) cs @ t) @ json_unquote (drop (?n - 1) (take (?n - 1) cs @ t))"
    using assms c(1) by (simp add: Let_def del: utf8_len.simps)
  moreover have "take ?n (c # take (?n - 1) cs @ t) = take ?n s"
    using c(2,3) \<open>0 < ?n\<close> by (cases ?n) simp_all
  ultimately show ?thesis using c by simp
qed

lemma unquote_escape: "utf8_ValidString s \<Longrightarrow> json_unquote (json_escape s) = s"
proof (induction s rule: utf8_ValidString.induct)
  case (2 c cs)
  let ?n = "utf8_len (c # cs)"
  show ?case
  proof (cases "cc c < 128")
    case True
    with 2 show ?thesis by (simp add: unquote_escape_char)
  next
    case False
    then have n: "?n \<noteq> 0" "utf8_ValidString (drop (?n - 1) cs)"
      using 2 by (simp_all add: Let_def split: if_splits del: utf8_len.simps)
    with False have IH: "json_unquote (json_escape (drop (?n - 1) cs)) = drop (?n - 1) cs"
      using 2 by (simp add: Let_def del: utf8_len.simps json_unquote.simps)
    show ?thesis
    proof (cases "line_separator (c # cs)")
      case True
      from escape_separator [OF True] obtain w r where w: "c # cs = CHR 0xE2 # CHR 0x80 # w # r"
        "json_escape (c # cs) = [backslash, CHR ''u'', CHR ''2'', CHR ''0'', CHR ''2'', hex_digit (cc w mod 16)] @ json_escape r"
        "\<not> is_surrogate (hex4 [CHR ''2'', CHR ''0'', CHR ''2'', hex_digit (cc w mod 16)])"
        "utf8_EncodeRune (hex4 [CHR ''2'', CHR ''0'', CHR ''2'', hex_digit (cc w mod 16)]) = [CHR 0xE2, CHR 0x80, w]" by blast
      from True have "?n = 3" by (cases rule: line_separator_cases) (simp_all add: utf8_cont_def utf8_second_def)
      then have "drop (?n - 1) cs = r" using w(1) by simp
      with IH w show ?thesis by (simp add: unquote_hex del: json_unquote.simps json_escape.simps)
    next
      case sep: False
      have "take ?n (c # cs) @ drop (?n - 1) cs = c # cs" using n(1) by (cases ?n) simp_all
      then show ?thesis
        using escape_high [OF _ n(1) sep] False IH unquote_high [OF n(1)]
        by (simp del: json_unquote.simps json_escape.simps utf8_len.simps)
    qed
  qed
qed simp

end
