(* ===== verification/Go_Json.thy ===== *)
theory Go_Json
  imports Go_Json_Text
begin

text \<open>
  What the sources use of \<open>encoding/json\<close> (Go 1.24): \<open>Marshal\<close> of structures of strings, integers,
  booleans, string maps and slices, and \<open>Unmarshal\<close> into them. A document is a tree; its compact text
  is the concatenation of its tokens' texts. Unmarshalling lexes the text, runs a stack machine over the
  tokens with the decoder's nesting limit, and stores members into fields by exact or else folded name.
  Error texts are not those of the package; callers only test whether there is an error.
\<close>

section \<open>Documents\<close>

datatype json =
    JNull
  | JBool bool
  | JNum string
  | JStr string
  | JArr "json list"
  | JObj "(string \<times> json) list"

datatype token =
    TLBrace | TRBrace | TLBrack | TRBrack | TColon | TComma
  | TNull | TTrue | TFalse
  | TNum string
  | TStr string

fun token_text :: "token \<Rightarrow> string" where
  "token_text TLBrace = ''{''"
| "token_text TRBrace = ''}''"
| "token_text TLBrack = ''[''"
| "token_text TRBrack = '']''"
| "token_text TColon = '':''"
| "token_text TComma = '',''"
| "token_text TNull = ''null''"
| "token_text TTrue = ''true''"
| "token_text TFalse = ''false''"
| "token_text (TNum s) = s"
| "token_text (TStr s) = dquote # json_escape s @ [dquote]"

text \<open>Lists of token lists with a comma between them.\<close>

fun comma_sep :: "token list list \<Rightarrow> token list" where
  "comma_sep [] = []"
| "comma_sep [ts] = ts"
| "comma_sep (ts # us # rest) = ts @ TComma # comma_sep (us # rest)"

fun json_tokens :: "json \<Rightarrow> token list" where
  "json_tokens JNull = [TNull]"
| "json_tokens (JBool b) = [if b then TTrue else TFalse]"
| "json_tokens (JNum s) = [TNum s]"
| "json_tokens (JStr s) = [TStr s]"
| "json_tokens (JArr vs) = TLBrack # comma_sep (map json_tokens vs) @ [TRBrack]"
| "json_tokens (JObj ms) = TLBrace # comma_sep (map (\<lambda>(k, v). TStr k # TColon # json_tokens v) ms) @ [TRBrace]"

definition json_text :: "json \<Rightarrow> string" where
  "json_text v = concat (map token_text (json_tokens v))"

section \<open>Lexer\<close>

definition json_space :: "char \<Rightarrow> bool" where
  "json_space c \<longleftrightarrow> c = CHR '' '' \<or> c = CHR 0x09 \<or> c = CHR 0x0D \<or> c = CHR 0x0A"

text \<open>A number: sign, integer part without leading zero, fraction, exponent.\<close>

definition lex_digits :: "string \<Rightarrow> (string \<times> string) option" where
  "lex_digits s =
     (let ds = takeWhile is_digit s in if ds = [] then None else Some (ds, dropWhile is_digit s))"

definition lex_frac :: "string \<Rightarrow> (string \<times> string) option" where
  "lex_frac s =
     (case s of
        c # r \<Rightarrow> if c = CHR ''.'' then map_option (\<lambda>(ds, t). (c # ds, t)) (lex_digits r) else Some ([], s)
      | [] \<Rightarrow> Some ([], s))"

definition lex_exp :: "string \<Rightarrow> (string \<times> string) option" where
  "lex_exp s =
     (case s of
        c # r \<Rightarrow>
          if c = CHR ''e'' \<or> c = CHR ''E'' then
            (case r of
               d # r' \<Rightarrow>
                 if d = CHR ''+'' \<or> d = CHR ''-'' then map_option (\<lambda>(ds, t). (c # d # ds, t)) (lex_digits r')
                 else map_option (\<lambda>(ds, t). (c # ds, t)) (lex_digits r)
             | [] \<Rightarrow> None)
          else Some ([], s)
      | [] \<Rightarrow> Some ([], s))"

definition lex_num :: "string \<Rightarrow> (string \<times> string) option" where
  "lex_num s0 =
     (let (sign, s) = (case s0 of c # r \<Rightarrow> if c = CHR ''-'' then ([c], r) else ([], s0) | [] \<Rightarrow> ([], s0)) in
      case lex_digits s of
        None \<Rightarrow> None
      | Some (ds, r1) \<Rightarrow>
          if hd ds = CHR ''0'' \<and> length ds > 1 then None
          else (case lex_frac r1 of
                  None \<Rightarrow> None
                | Some (f, r2) \<Rightarrow>
                    (case lex_exp r2 of
                       None \<Rightarrow> None
                     | Some (e, r3) \<Rightarrow> Some (sign @ ds @ f @ e, r3))))"

definition lex_word :: "string \<Rightarrow> token \<Rightarrow> string \<Rightarrow> (token \<times> string) option" where
  "lex_word w t s = (if HasPrefix s w then Some (t, drop (length w) s) else None)"

definition lex_token :: "string \<Rightarrow> (token \<times> string) option" where
  "lex_token s =
     (case s of
        [] \<Rightarrow> None
      | c # r \<Rightarrow>
          if c = CHR ''{'' then Some (TLBrace, r)
          else if c = CHR ''}'' then Some (TRBrace, r)
          else if c = CHR ''['' then Some (TLBrack, r)
          else if c = CHR '']'' then Some (TRBrack, r)
          else if c = CHR '':'' then Some (TColon, r)
          else if c = CHR '','' then Some (TComma, r)
          else if c = dquote then map_option (\<lambda>(raw, t). (TStr (json_unquote raw), t)) (scan_raw r)
          else if c = CHR ''n'' then lex_word ''null'' TNull s
          else if c = CHR ''t'' then lex_word ''true'' TTrue s
          else if c = CHR ''f'' then lex_word ''false'' TFalse s
          else if c = CHR ''-'' \<or> is_digit c then map_option (\<lambda>(lit, t). (TNum lit, t)) (lex_num s)
          else None)"

lemma scan_raw_shorter: "scan_raw s = Some (raw, r) \<Longrightarrow> length r < length s"
proof (induction s arbitrary: raw r rule: scan_raw.induct)
  case (2 c cs)
  then show ?case
    by (auto split: if_splits list.splits) (force dest: less_imp_le_nat le_less_trans)+
qed simp

lemma lex_digits_shorter: "lex_digits s = Some (ds, r) \<Longrightarrow> length r < length s"
proof -
  assume "lex_digits s = Some (ds, r)"
  then have "ds \<noteq> []" "s = ds @ r" by (auto simp: lex_digits_def Let_def split: if_splits)
  then show ?thesis by simp
qed

lemma lex_frac_le: "lex_frac s = Some (f, r) \<Longrightarrow> length r \<le> length s"
  by (auto simp: lex_frac_def split: list.splits if_splits dest!: lex_digits_shorter)

lemma lex_exp_le: "lex_exp s = Some (f, r) \<Longrightarrow> length r \<le> length s"
  by (auto simp: lex_exp_def split: list.splits if_splits dest!: lex_digits_shorter)

lemma lex_num_shorter: "lex_num s = Some (lit, r) \<Longrightarrow> length r < length s"
  by (auto simp: lex_num_def Let_def split: list.splits if_splits option.splits prod.splits
      dest!: lex_digits_shorter lex_frac_le lex_exp_le)

lemma lex_word_shorter: "lex_word w t s = Some (t', r) \<Longrightarrow> w \<noteq> [] \<Longrightarrow> length r < length s"
  by (auto simp: lex_word_def HasPrefix_iff split: if_splits)

lemma lex_token_shorter:
  assumes "lex_token s = Some (t, r)"
  shows "length r < length s"
proof (cases s)
  case (Cons c cs)
  have str: "map_option (\<lambda>(raw, t). (TStr (json_unquote raw), t)) (scan_raw cs) = Some (t, r) \<Longrightarrow> length r < length s"
    using Cons scan_raw_shorter [of cs] by (fastforce intro: less_SucI)
  have num: "map_option (\<lambda>(lit, t). (TNum lit, t)) (lex_num s) = Some (t, r) \<Longrightarrow> length r < length s"
    using lex_num_shorter [of s] by fastforce
  note w = lex_word_shorter [of _ _ s t r]
  have one: "Some (u, cs) = Some (t, r) \<Longrightarrow> length r < length s" for u using Cons by simp
  have none: "None = Some (t, r) \<Longrightarrow> length r < length s" by simp
  show ?thesis
    using assms unfolding lex_token_def Cons list.case unfolding Cons [symmetric]
    by (simp only: split: if_split_asm) (erule str num one none | erule w, simp)+
qed (use assms in \<open>simp add: lex_token_def\<close>)

function json_lex :: "string \<Rightarrow> token list option" where
  "json_lex [] = Some []"
| "json_lex (c # cs) =
     (if json_space c then json_lex cs
      else (case lex_token (c # cs) of
              None \<Rightarrow> None
            | Some (t, r) \<Rightarrow> map_option (Cons t) (json_lex r)))"
  by pat_completeness auto
termination
  by (relation "measure length") (auto dest: lex_token_shorter)


section \<open>Parser\<close>

text \<open>The containers that are open: an array with its elements so far, or an object with its members so
  far and the key whose value is being read.\<close>

datatype json_ctx = CArr "json list" | CObj "(string \<times> json) list" string

datatype pstate =
    PVal "json_ctx list"
  | PArr0 "json_ctx list"
  | PArr "json list" "json_ctx list"
  | PObj0 "json_ctx list"
  | PKey "(string \<times> json) list" "json_ctx list"
  | PColon "(string \<times> json) list" string "json_ctx list"
  | PObj "(string \<times> json) list" "json_ctx list"
  | PDone json
  | PErr

abbreviation maxNestingDepth :: nat where "maxNestingDepth \<equiv> 10000"

fun p_value :: "json \<Rightarrow> json_ctx list \<Rightarrow> pstate" where
  "p_value v [] = PDone v"
| "p_value v (CArr vs # st) = PArr (vs @ [v]) st"
| "p_value v (CObj ms k # st) = PObj (ms @ [(k, v)]) st"

fun p_begin :: "json_ctx list \<Rightarrow> token \<Rightarrow> pstate" where
  "p_begin st TNull = p_value JNull st"
| "p_begin st TTrue = p_value (JBool True) st"
| "p_begin st TFalse = p_value (JBool False) st"
| "p_begin st (TNum s) = p_value (JNum s) st"
| "p_begin st (TStr s) = p_value (JStr s) st"
| "p_begin st TLBrack = (if length st < maxNestingDepth then PArr0 st else PErr)"
| "p_begin st TLBrace = (if length st < maxNestingDepth then PObj0 st else PErr)"
| "p_begin st _ = PErr"

fun p_step :: "pstate \<Rightarrow> token \<Rightarrow> pstate" where
  "p_step (PVal st) t = p_begin st t"
| "p_step (PArr0 st) t = (if t = TRBrack then p_value (JArr []) st else p_begin (CArr [] # st) t)"
| "p_step (PArr vs st) t =
     (if t = TComma then PVal (CArr vs # st) else if t = TRBrack then p_value (JArr vs) st else PErr)"
| "p_step (PObj0 st) t =
     (case t of TRBrace \<Rightarrow> p_value (JObj []) st | TStr k \<Rightarrow> PColon [] k st | _ \<Rightarrow> PErr)"
| "p_step (PKey ms st) t = (case t of TStr k \<Rightarrow> PColon ms k st | _ \<Rightarrow> PErr)"
| "p_step (PColon ms k st) t = (if t = TColon then PVal (CObj ms k # st) else PErr)"
| "p_step (PObj ms st) t =
     (if t = TComma then PKey ms st else if t = TRBrace then p_value (JObj ms) st else PErr)"
| "p_step (PDone v) t = PErr"
| "p_step PErr t = PErr"

definition json_parse :: "string \<Rightarrow> json option" where
  "json_parse s =
     (case json_lex s of
        None \<Rightarrow> None
      | Some ts \<Rightarrow> (case foldl p_step (PVal []) ts of PDone v \<Rightarrow> Some v | _ \<Rightarrow> None))"

section \<open>A text parses to its document\<close>

text \<open>The literals that the lexer takes whole before a comma, a closing bracket or the end.\<close>

definition num_ok :: "string \<Rightarrow> bool" where
  "num_ok s \<longleftrightarrow> (\<exists>c r. s = c # r \<and> (c = CHR ''-'' \<or> is_digit c)) \<and>
     (\<forall>t. t = [] \<or> hd t \<in> set '',]}'' \<longrightarrow> lex_num (s @ t) = Some (s, t))"

fun token_ok :: "token \<Rightarrow> bool" where
  "token_ok (TStr s) = utf8_ValidString s"
| "token_ok (TNum s) = num_ok s"
| "token_ok _ = True"

fun json_ok :: "json \<Rightarrow> bool" where
  "json_ok (JStr s) = utf8_ValidString s"
| "json_ok (JNum s) = num_ok s"
| "json_ok (JArr vs) = (\<forall>v \<in> set vs. json_ok v)"
| "json_ok (JObj ms) = (\<forall>(k, v) \<in> set ms. utf8_ValidString k \<and> json_ok v)"
| "json_ok _ = True"

definition closing :: "token list \<Rightarrow> bool" where
  "closing ts \<longleftrightarrow> ts = [] \<or> hd ts \<in> {TComma, TRBrack, TRBrace}"

fun tokens_ok :: "token list \<Rightarrow> bool" where
  "tokens_ok [] = True"
| "tokens_ok (t # ts) = (token_ok t \<and> (case t of TNum _ \<Rightarrow> closing ts | _ \<Rightarrow> True) \<and> tokens_ok ts)"

lemma num_start:
  assumes "c = CHR ''-'' \<or> is_digit c"
  shows "c \<notin> set (dquote # CHR 0x09 # CHR 0x0D # CHR 0x0A # '' {}[]:,ntf'')"
proof -
  have "list_all (\<lambda>d. d \<noteq> CHR ''-'' \<and> \<not> is_digit d) (dquote # CHR 0x09 # CHR 0x0D # CHR 0x0A # '' {}[]:,ntf'')"
    by code_simp
  with assms show ?thesis unfolding list_all_iff by blast
qed

lemma lex_token_text:
  assumes "token_ok t" "case t of TNum _ \<Rightarrow> r = [] \<or> hd r \<in> set '',]}'' | _ \<Rightarrow> True"
  shows "lex_token (token_text t @ r) = Some (t, r)"
proof (cases t)
  case (TStr s)
  then have "scan_raw (json_escape s @ dquote # r) = Some (json_escape s, r)" "json_unquote (json_escape s) = s"
    using assms(1) scan_escape unquote_escape by simp_all
  then show ?thesis by (simp add: TStr lex_token_def)
next
  case (TNum s)
  then have "num_ok s" "r = [] \<or> hd r \<in> set '',]}''" using assms by (simp_all only: token.case token_ok.simps)
  then obtain c q where c: "s = c # q" "c = CHR ''-'' \<or> is_digit c" "lex_num (s @ r) = Some (s, r)"
    unfolding num_ok_def by blast
  note n = num_start [OF c(2), simplified list.set insert_iff de_Morgan_disj]
  have "lex_token (c # q @ r) = map_option (\<lambda>(lit, t). (TNum lit, t)) (lex_num (c # q @ r))"
    unfolding lex_token_def list.case using n c(2) by (simp only: if_False if_True)
  with c show ?thesis by (simp add: TNum)
qed (simp_all add: lex_token_def lex_word_def HasPrefix_def)

lemma token_text_start:
  assumes "token_ok t"
  obtains c r where "token_text t = c # r" "\<not> json_space c"
proof (cases t)
  case (TNum s)
  then obtain c r where "s = c # r" "c = CHR ''-'' \<or> is_digit c" using assms by (auto simp: num_ok_def)
  then show ?thesis using that [of c r] TNum num_start [of c] by (simp add: json_space_def)
qed (use that in \<open>auto simp: json_space_def\<close>)

lemma closing_text: "closing ts \<Longrightarrow> concat (map token_text ts) = [] \<or> hd (concat (map token_text ts)) \<in> set '',]}''"
  by (cases ts) (auto simp: closing_def)

lemma json_lex_tokens: "tokens_ok ts \<Longrightarrow> json_lex (concat (map token_text ts)) = Some ts"
proof (induction ts)
  case (Cons t ts)
  let ?r = "concat (map token_text ts)"
  obtain c q where c: "token_text t = c # q" "\<not> json_space c" using Cons.prems token_text_start by auto
  have "lex_token (token_text t @ ?r) = Some (t, ?r)"
    using Cons.prems closing_text [of ts] by (intro lex_token_text) (auto split: token.splits)
  with c Cons show ?case by simp
qed simp

lemma tokens_ok_comma_sep:
  assumes "\<And>ts rest. ts \<in> set tss \<Longrightarrow> closing rest \<Longrightarrow> tokens_ok rest \<Longrightarrow> tokens_ok (ts @ rest)"
    and "closing rest" "tokens_ok rest"
  shows "tokens_ok (comma_sep tss @ rest)"
  using assms by (induction tss rule: comma_sep.induct) (auto simp: closing_def)

lemma tokens_ok_json: "json_ok v \<Longrightarrow> closing ts \<Longrightarrow> tokens_ok ts \<Longrightarrow> tokens_ok (json_tokens v @ ts)"
proof (induction v arbitrary: ts)
  case (JArr vs)
  have "tokens_ok (comma_sep (map json_tokens vs) @ TRBrack # ts)"
    by (rule tokens_ok_comma_sep) (use JArr in \<open>auto simp: closing_def\<close>)
  then show ?case by simp
next
  case (JObj ms)
  have "tokens_ok (comma_sep (map (\<lambda>(k, v). TStr k # TColon # json_tokens v) ms) @ TRBrace # ts)"
  proof (rule tokens_ok_comma_sep)
    fix us rest
    assume "us \<in> set (map (\<lambda>(k, v). TStr k # TColon # json_tokens v) ms)" "closing rest" "tokens_ok rest"
    moreover obtain k v where "us = TStr k # TColon # json_tokens v" "(k, v) \<in> set ms"
      using calculation(1) by auto
    ultimately show "tokens_ok (us @ rest)" using JObj by fastforce
  qed (use JObj in \<open>auto simp: closing_def\<close>)
  then show ?case by simp
qed (auto simp: closing_def)

text \<open>Nesting.\<close>

fun json_depth :: "json \<Rightarrow> nat" where
  "json_depth (JArr vs) = Suc (Max (insert 0 (set (map json_depth vs))))"
| "json_depth (JObj ms) = Suc (Max (insert 0 (set (map (\<lambda>(k, v). json_depth v) ms))))"
| "json_depth _ = 0"

lemma json_depth_elem:
  "v \<in> set vs \<Longrightarrow> json_depth v < json_depth (JArr vs)" "(k, v) \<in> set ms \<Longrightarrow> json_depth v < json_depth (JObj ms)"
  by (auto simp: less_Suc_eq_le intro!: Max_ge)


definition parses :: "json \<Rightarrow> json_ctx list \<Rightarrow> bool" where
  "parses v st \<longleftrightarrow> foldl p_step (PVal st) (json_tokens v) = p_value v st"

lemma json_tokens_start: "\<exists>t ts. json_tokens v = t # ts \<and> t \<noteq> TRBrack"
  by (cases v) auto

lemma parse_elements:
  "(\<And>v ws'. v \<in> set ws \<Longrightarrow> parses v (CArr ws' # st)) \<Longrightarrow> ws \<noteq> [] \<Longrightarrow>
     foldl p_step (PVal (CArr vs # st)) (comma_sep (map json_tokens ws)) = PArr (vs @ ws) st"
proof (induction ws arbitrary: vs rule: induct_list012)
  case (3 w x ws)
  then show ?case by (simp add: parses_def)
qed (simp_all add: parses_def)

lemma parse_members:
  "(\<And>k v ms'. (k, v) \<in> set ns \<Longrightarrow> parses v (CObj ms' k # st)) \<Longrightarrow> ns \<noteq> [] \<Longrightarrow>
     foldl p_step (PKey ms st) (comma_sep (map (\<lambda>(k, v). TStr k # TColon # json_tokens v) ns)) = PObj (ms @ ns) st"
proof (induction ns arbitrary: ms rule: induct_list012)
  case (2 n)
  then show ?case by (cases n) (simp add: parses_def)
next
  case (3 n n' ns)
  then show ?case by (cases n) (simp add: parses_def)
qed simp

lemma parse_tokens: "json_depth v + length st \<le> maxNestingDepth \<Longrightarrow> parses v st"
proof (induction v arbitrary: st)
  case (JArr vs)
  show ?case
  proof (cases vs)
    case Nil
    with JArr.prems show ?thesis by (simp add: parses_def)
  next
    case (Cons w ws)
    have "parses v (CArr ws' # st)" if "v \<in> set vs" for v ws'
      using JArr.IH [OF that, of "CArr ws' # st"] JArr.prems json_depth_elem(1) [OF that] by simp
    then have run: "foldl p_step (PVal (CArr [] # st)) (comma_sep (map json_tokens vs)) = PArr vs st"
      using parse_elements [of vs st "[]"] Cons by simp
    obtain t ts where t: "comma_sep (map json_tokens vs) = t # ts" "t \<noteq> TRBrack"
      using json_tokens_start [of w] Cons by (cases ws) auto
    from JArr.prems have "length st < maxNestingDepth" by simp
    with run t show ?thesis by (simp add: parses_def)
  qed
next
  case (JObj ms)
  show ?case
  proof (cases ms)
    case Nil
    with JObj.prems show ?thesis by (simp add: parses_def)
  next
    case (Cons n ns)
    have "parses v (CObj ms' k # st)" if "(k, v) \<in> set ms" for k v ms'
      using JObj.IH [OF that, of v "CObj ms' k # st"] JObj.prems json_depth_elem(2) [OF that] by simp
    then have run: "foldl p_step (PKey [] st) (comma_sep (map (\<lambda>(k, v). TStr k # TColon # json_tokens v) ms)) = PObj ms st"
      using parse_members [of ms st "[]"] Cons by simp
    obtain k ts where t: "comma_sep (map (\<lambda>(k, v). TStr k # TColon # json_tokens v) ms) = TStr k # ts"
      using Cons by (cases n; cases ns) auto
    from JObj.prems have "length st < maxNestingDepth" by simp
    with run t show ?thesis by (simp add: parses_def)
  qed
qed (simp_all add: parses_def)

lemma json_parse_text: "json_ok v \<Longrightarrow> json_depth v \<le> maxNestingDepth \<Longrightarrow> json_parse (json_text v) = Some v"
  using json_lex_tokens [of "json_tokens v"] tokens_ok_json [of v "[]"] parse_tokens [of v "[]"]
  by (simp add: json_parse_def json_text_def closing_def parses_def)

section \<open>Integers\<close>

definition parse_decimal :: "string \<Rightarrow> int option" where
  "parse_decimal s =
     (case s of
        [] \<Rightarrow> None
      | c # r \<Rightarrow>
          if c = CHR ''-'' then (if r \<noteq> [] \<and> list_all is_digit r then Some (- int (dec_val r)) else None)
          else if list_all is_digit s then Some (int (dec_val s)) else None)"

text \<open>\<open>strconv.ParseInt\<close> and \<open>ParseUint\<close> in base 10 on the literals of the lexer: the range is checked,
  a fraction or an exponent is an error, and so is the sign of an unsigned number.\<close>

definition ParseInt64 :: "string \<Rightarrow> int option" where
  "ParseInt64 s = (case parse_decimal s of None \<Rightarrow> None | Some n \<Rightarrow> if in_i64 n then Some n else None)"

definition ParseUint :: "nat \<Rightarrow> string \<Rightarrow> nat option" where
  "ParseUint bits s =
     (if s \<noteq> [] \<and> list_all is_digit s \<and> dec_val s < 2 ^ bits then Some (dec_val s) else None)"

lemma dec_digits_lead: "0 < n \<Longrightarrow> hd (dec_digits n) \<noteq> CHR ''0''"
proof (induction n rule: dec_digits.induct)
  case (1 n)
  show ?case
  proof (cases "n < 10")
    case True
    have "digit_val (char_of (48 + n)) \<noteq> digit_val (CHR ''0'')"
      using is_digit_char [OF True] 1(2) by (simp add: digit_val_def)
    then show ?thesis using True by (subst dec_digits.simps) auto
  next
    case False
    then have "hd (dec_digits (n div 10)) \<noteq> CHR ''0''" using 1 by simp
    then show ?thesis using False dec_digits_ne [of "n div 10"] by (subst dec_digits.simps) simp
  qed
qed


lemma dec_digits_single: "hd (dec_digits n) = CHR ''0'' \<Longrightarrow> dec_digits n = ''0''"
  using dec_digits_lead [of n] by (cases "n = 0") (simp_all add: dec_digits.simps [of 0])

lemma after_number:
  assumes "t = [] \<or> hd t \<in> set '',]}''"
  shows "lex_frac t = Some ([], t)" "lex_exp t = Some ([], t)" "takeWhile is_digit t = []" "dropWhile is_digit t = t"
proof -
  have "list_all (\<lambda>d. \<not> is_digit d \<and> d \<noteq> CHR ''.'' \<and> d \<noteq> CHR ''e'' \<and> d \<noteq> CHR ''E'') '',]}''" by code_simp
  with assms have "t = [] \<or> \<not> is_digit (hd t) \<and> hd t \<noteq> CHR ''.'' \<and> hd t \<noteq> CHR ''e'' \<and> hd t \<noteq> CHR ''E''"
    unfolding list_all_iff by blast
  then show "lex_frac t = Some ([], t)" "lex_exp t = Some ([], t)" "takeWhile is_digit t = []" "dropWhile is_digit t = t"
    by (cases t; simp add: lex_frac_def lex_exp_def)+
qed

lemma lex_dec_digits:
  assumes "t = [] \<or> hd t \<in> set '',]}''"
  shows "lex_digits (dec_digits n @ t) = Some (dec_digits n, t)"
  using dec_digits_digits [of n] dec_digits_ne [of n] after_number [OF assms]
  by (simp add: lex_digits_def takeWhile_append2 dropWhile_append2 list_all_iff)

lemma dec_digits_start: "\<exists>c r. dec_digits n = c # r \<and> is_digit c \<and> c \<noteq> CHR ''-''"
proof -
  obtain c r where c: "dec_digits n = c # r" using dec_digits_ne [of n] by (cases "dec_digits n") auto
  then have "is_digit c" using dec_digits_digits [of n] by simp
  moreover have "\<not> is_digit (CHR ''-'')" by code_simp
  ultimately show ?thesis using c by auto
qed

lemma num_ok_dec: "num_ok (dec_digits n)"
proof -
  obtain c r where c: "dec_digits n = c # r" "is_digit c" "c \<noteq> CHR ''-''" using dec_digits_start by blast
  have "lex_num (dec_digits n @ t) = Some (dec_digits n, t)" if t: "t = [] \<or> hd t \<in> set '',]}''" for t
  proof -
    have "\<not> (hd (dec_digits n) = CHR ''0'' \<and> 1 < length (dec_digits n))"
      using dec_digits_single [of n] by auto
    with lex_dec_digits [OF t, of n] after_number(1,2) [OF t] c show ?thesis by (simp add: lex_num_def)
  qed
  with c show ?thesis unfolding num_ok_def by blast
qed

lemma num_ok_neg: "num_ok (CHR ''-'' # dec_digits n)"
proof -
  have "lex_num (CHR ''-'' # dec_digits n @ t) = Some (CHR ''-'' # dec_digits n, t)"
    if t: "t = [] \<or> hd t \<in> set '',]}''" for t
  proof -
    have "\<not> (hd (dec_digits n) = CHR ''0'' \<and> 1 < length (dec_digits n))"
      using dec_digits_single [of n] by auto
    with lex_dec_digits [OF t, of n] after_number(1,2) [OF t] show ?thesis by (simp add: lex_num_def)
  qed
  then show ?thesis by (simp add: num_ok_def)
qed

lemma num_ok_FormatInt [simp]: "num_ok (FormatInt z)"
  using num_ok_dec num_ok_neg by (simp add: FormatInt_def)

lemma parse_FormatInt: "parse_decimal (FormatInt z) = Some z"
proof (cases "z < 0")
  case True
  then show ?thesis
    using dec_digits_ne [of "nat (- z)"] dec_digits_digits [of "nat (- z)"]
    by (simp add: FormatInt_def parse_decimal_def dec_digits_val)
next
  case False
  obtain c r where "dec_digits (nat z) = c # r" "c \<noteq> CHR ''-''" using dec_digits_start by blast
  then show ?thesis
    using False dec_digits_digits [of "nat z"] dec_digits_val [of "nat z"]
    by (simp add: FormatInt_def parse_decimal_def)
qed

lemma ParseInt64_FormatInt [simp]: "in_i64 z \<Longrightarrow> ParseInt64 (FormatInt z) = Some z"
  by (simp add: ParseInt64_def parse_FormatInt)

lemma ParseUint_FormatInt [simp]: "n < 2 ^ bits \<Longrightarrow> ParseUint bits (FormatInt (int n)) = Some n"
  using dec_digits_ne [of n] dec_digits_digits [of n] by (simp add: ParseUint_def FormatInt_def dec_digits_val)

section \<open>Storing a document into a structure\<close>

definition json_syntax_error :: go_error where "json_syntax_error = PlainError ''json: syntax error''"
definition json_type_error :: go_error where "json_type_error = PlainError ''json: cannot unmarshal''"

text \<open>A null leaves the field as it is.\<close>

fun dec_string :: "json \<Rightarrow> string \<Rightarrow> go_error + string" where
  "dec_string (JStr s) old = Inr s"
| "dec_string JNull old = Inr old"
| "dec_string _ old = Inl json_type_error"

fun dec_int64 :: "json \<Rightarrow> int \<Rightarrow> go_error + int" where
  "dec_int64 (JNum s) old = (case ParseInt64 s of None \<Rightarrow> Inl json_type_error | Some n \<Rightarrow> Inr n)"
| "dec_int64 JNull old = Inr old"
| "dec_int64 _ old = Inl json_type_error"

fun dec_uint :: "json \<Rightarrow> 'w::len word \<Rightarrow> go_error + 'w word" where
  "dec_uint (JNum s) old = (case ParseUint LENGTH('w) s of None \<Rightarrow> Inl json_type_error | Some n \<Rightarrow> Inr (of_nat n))"
| "dec_uint JNull old = Inr old"
| "dec_uint _ old = Inl json_type_error"

fun dec_bool :: "json \<Rightarrow> bool \<Rightarrow> go_error + bool" where
  "dec_bool (JBool b) old = Inr b"
| "dec_bool JNull old = Inr old"
| "dec_bool _ old = Inl json_type_error"

text \<open>A string map: a null makes it nil; members are added to the map that is there, a null value as
  the empty string.\<close>

definition dec_strmap :: "json \<Rightarrow> (string, string) gomap option \<Rightarrow> go_error + (string, string) gomap option" where
  "dec_strmap v old =
     (case v of
        JNull \<Rightarrow> Inr None
      | JObj ms \<Rightarrow>
          map_sum id Some
            (foldl (\<lambda>acc (k, x). case acc of Inl e \<Rightarrow> Inl e
                     | Inr m \<Rightarrow> map_sum id (\<lambda>s. gm_set k s m) (dec_string x ''''))
               (Inr (case old of None \<Rightarrow> [] | Some m \<Rightarrow> m)) ms)
      | _ \<Rightarrow> Inl json_type_error)"

text \<open>Names match exactly or else up to case, where the long s and the Kelvin sign fold to ASCII.\<close>

fun fold_name :: "string \<Rightarrow> string" where
  "fold_name [] = []"
| "fold_name (c # cs) =
     (if take 2 (c # cs) = [CHR 0xC5, CHR 0xBF] then CHR ''S'' # fold_name (drop 1 cs)
      else if take 3 (c # cs) = [CHR 0xE2, CHR 0x84, CHR 0xAA] then CHR ''K'' # fold_name (drop 2 cs)
      else upper_char c # fold_name cs)"

definition find_field :: "string list \<Rightarrow> string \<Rightarrow> string option" where
  "find_field names key =
     (if key \<in> set names then Some key else List.find (\<lambda>n. fold_name n = fold_name key) names)"

text \<open>The members in turn; unknown names are skipped; the first error is the result.\<close>

definition dec_struct :: "string list \<Rightarrow> (string \<Rightarrow> json \<Rightarrow> 'a \<Rightarrow> go_error + 'a) \<Rightarrow> json \<Rightarrow> 'a \<Rightarrow> go_error + 'a" where
  "dec_struct names store v old =
     (case v of
        JNull \<Rightarrow> Inr old
      | JObj ms \<Rightarrow>
          foldl (\<lambda>acc (k, x). case acc of Inl e \<Rightarrow> Inl e
                   | Inr r \<Rightarrow> (case find_field names k of None \<Rightarrow> Inr r | Some n \<Rightarrow> store n x r))
            (Inr old) ms
      | _ \<Rightarrow> Inl json_type_error)"

text \<open>A slice is filled from zero values.\<close>

definition dec_slice :: "(json \<Rightarrow> go_error + 'a) \<Rightarrow> json \<Rightarrow> go_error + 'a list" where
  "dec_slice dec v =
     (case v of
        JNull \<Rightarrow> Inr []
      | JArr vs \<Rightarrow>
          foldl (\<lambda>acc x. case acc of Inl e \<Rightarrow> Inl e | Inr l \<Rightarrow> map_sum id (\<lambda>y. l @ [y]) (dec x)) (Inr []) vs
      | _ \<Rightarrow> Inl json_type_error)"

definition json_Unmarshal :: "(json \<Rightarrow> go_error + 'a) \<Rightarrow> bytes \<Rightarrow> go_error + 'a" where
  "json_Unmarshal dec b =
     (case json_parse (string_of_bytes b) of None \<Rightarrow> Inl json_syntax_error | Some v \<Rightarrow> dec v)"

definition json_Marshal :: "json \<Rightarrow> go_error + bytes" where
  "json_Marshal v = Inr (bytes_of_string (json_text v))"

text \<open>Maps are written in the order of their keys.\<close>

definition json_strmap :: "(string, string) gomap option \<Rightarrow> json" where
  "json_strmap m = (case m of None \<Rightarrow> JNull | Some d \<Rightarrow> JObj (map (\<lambda>(k, v). (k, JStr v)) (sort_key fst d)))"

abbreviation JInt :: "int \<Rightarrow> json" where "JInt n \<equiv> JNum (FormatInt n)"
abbreviation JUint :: "'w::len word \<Rightarrow> json" where "JUint w \<equiv> JNum (FormatInt (uint w))"

lemma dec_uint_JUint [simp]: "dec_uint (JUint w) (old :: 'w::len word) = Inr (w :: 'w word)"
proof -
  have "ParseUint LENGTH('w) (FormatInt (uint w)) = Some (unat w)"
    using ParseUint_FormatInt [of "unat w" "LENGTH('w)"] by simp
  then show ?thesis by simp
qed

lemma string_of_bytes_of_string [simp]: "string_of_bytes (bytes_of_string s) = s"
proof -
  have "char_of (unat (of_char c :: byte)) = c" for c
  proof -
    have "unat (of_char c :: byte) = of_char c"
      using nat_of_char_less_256 [of c]
      by (subst of_nat_of_char [symmetric]) (simp only: unat_of_nat, simp)
    then show ?thesis by simp
  qed
  then show ?thesis by (simp add: map_idI)
qed

lemma json_roundtrip:
  assumes "json_ok v" "json_depth v \<le> maxNestingDepth"
  shows "json_Marshal v = Inr (bytes_of_string (json_text v))"
    "json_Unmarshal dec (bytes_of_string (json_text v)) = dec v"
  using json_parse_text [OF assms] by (simp_all add: json_Marshal_def json_Unmarshal_def del: map_map)

definition strmap_ok :: "(string, string) gomap option \<Rightarrow> bool" where
  "strmap_ok m \<longleftrightarrow> (case m of None \<Rightarrow> True
     | Some d \<Rightarrow> gm_wf d \<and> (\<forall>(k, v) \<in> set d. utf8_ValidString k \<and> utf8_ValidString v))"

lemma json_strmap_ok: "strmap_ok m \<Longrightarrow> json_ok (json_strmap m)" "json_depth (json_strmap m) \<le> 1"
  by (force simp: strmap_ok_def json_strmap_def split: option.splits)
    (auto simp: json_strmap_def split: option.splits intro!: Max_eqI)

lemma dec_json_strmap:
  assumes "strmap_ok m"
  shows "dec_strmap (json_strmap m) None = Inr (map_option (sort_key fst) m)"
proof (cases m)
  case (Some d)
  have "foldl (\<lambda>acc (k, x). case acc of Inl e \<Rightarrow> Inl e | Inr m \<Rightarrow> map_sum id (\<lambda>s. gm_set k s m) (dec_string x ''''))
      (Inr acc) (map (\<lambda>(k, v). (k, JStr v)) xs) = Inr (foldl (\<lambda>m (k, v). gm_set k v m) acc xs)"
    for acc and xs :: "(string \<times> string) list"
    by (induction xs arbitrary: acc) auto
  moreover have "gm_wf ([] @ sort_key fst d)" using assms Some
    by (simp add: strmap_ok_def gm_wf_def distinct_map)
  ultimately show ?thesis
    using Some gm_rebuild [of "[]" "sort_key fst d"] by (simp add: dec_strmap_def json_strmap_def)
qed (simp add: dec_strmap_def json_strmap_def)

lemma json_depth_le:
  "(\<And>v. v \<in> set vs \<Longrightarrow> json_depth v \<le> n) \<Longrightarrow> json_depth (JArr vs) \<le> Suc n"
  "(\<And>k v. (k, v) \<in> set ms \<Longrightarrow> json_depth v \<le> n) \<Longrightarrow> json_depth (JObj ms) \<le> Suc n"
  by auto

lemma utf8_ascii: "is_ascii s \<Longrightarrow> utf8_ValidString s"
  by (induction s) (simp_all add: is_ascii_def)

end
