(* ===== verification/Session_Json.thy ===== *)
theory Session_Json
  imports Domain_Session Go_Json
begin

text \<open>
  The JSON form of a session, given by the field tags of \<open>domain.Session\<close> in
  \<open>internal/core/domain/session.go\<close>: fourteen members in the order of the structure; the fields tagged
  \<open>json:"-"\<close> are left out. Reading back what was written gives the session without those fields and with
  its data map in the order of the keys, when its strings are valid UTF-8.
\<close>

section \<open>Definitions\<close>

abbreviation session_names :: "string list" where
  "session_names \<equiv>
     [''id'', ''user_id'', ''token_hash'', ''ip_address'', ''user_agent'', ''last_access_ip'', ''last_access_ua'',
      ''device_id'', ''created_by'', ''created_at'', ''expires_at'', ''last_active'', ''data'', ''version'']"

definition session_json :: "session \<Rightarrow> json" where
  "session_json s = JObj
     [(''id'', JStr (S_ID s)), (''user_id'', JStr (S_UserID s)), (''token_hash'', JStr (S_TokenHash s)),
      (''ip_address'', JStr (S_IPAddress s)), (''user_agent'', JStr (S_UserAgent s)),
      (''last_access_ip'', JStr (S_LastAccessIP s)), (''last_access_ua'', JStr (S_LastAccessUA s)),
      (''device_id'', JStr (S_DeviceID s)), (''created_by'', JStr (S_CreatedBy s)),
      (''created_at'', JInt (S_CreatedAt s)), (''expires_at'', JInt (S_ExpiresAt s)),
      (''last_active'', JInt (S_LastActive s)), (''data'', json_strmap (S_Data s)),
      (''version'', JUint (S_Version s))]"

definition session_field :: "string \<Rightarrow> json \<Rightarrow> session \<Rightarrow> go_error + session" where
  "session_field n v s =
     (if n = ''id'' then map_sum id (\<lambda>x. s \<lparr> S_ID := x \<rparr>) (dec_string v (S_ID s))
      else if n = ''user_id'' then map_sum id (\<lambda>x. s \<lparr> S_UserID := x \<rparr>) (dec_string v (S_UserID s))
      else if n = ''token_hash'' then map_sum id (\<lambda>x. s \<lparr> S_TokenHash := x \<rparr>) (dec_string v (S_TokenHash s))
      else if n = ''ip_address'' then map_sum id (\<lambda>x. s \<lparr> S_IPAddress := x \<rparr>) (dec_string v (S_IPAddress s))
      else if n = ''user_agent'' then map_sum id (\<lambda>x. s \<lparr> S_UserAgent := x \<rparr>) (dec_string v (S_UserAgent s))
      else if n = ''last_access_ip'' then map_sum id (\<lambda>x. s \<lparr> S_LastAccessIP := x \<rparr>) (dec_string v (S_LastAccessIP s))
      else if n = ''last_access_ua'' then map_sum id (\<lambda>x. s \<lparr> S_LastAccessUA := x \<rparr>) (dec_string v (S_LastAccessUA s))
      else if n = ''device_id'' then map_sum id (\<lambda>x. s \<lparr> S_DeviceID := x \<rparr>) (dec_string v (S_DeviceID s))
      else if n = ''created_by'' then map_sum id (\<lambda>x. s \<lparr> S_CreatedBy := x \<rparr>) (dec_string v (S_CreatedBy s))
      else if n = ''created_at'' then map_sum id (\<lambda>x. s \<lparr> S_CreatedAt := x \<rparr>) (dec_int64 v (S_CreatedAt s))
      else if n = ''expires_at'' then map_sum id (\<lambda>x. s \<lparr> S_ExpiresAt := x \<rparr>) (dec_int64 v (S_ExpiresAt s))
      else if n = ''last_active'' then map_sum id (\<lambda>x. s \<lparr> S_LastActive := x \<rparr>) (dec_int64 v (S_LastActive s))
      else if n = ''data'' then map_sum id (\<lambda>x. s \<lparr> S_Data := x \<rparr>) (dec_strmap v (S_Data s))
      else map_sum id (\<lambda>x. s \<lparr> S_Version := x \<rparr>) (dec_uint v (S_Version s)))"

definition json_Marshal_session :: "session \<Rightarrow> go_error + bytes" where
  "json_Marshal_session s = json_Marshal (session_json s)"

definition json_Unmarshal_session :: "bytes \<Rightarrow> go_error + session" where
  "json_Unmarshal_session = json_Unmarshal (\<lambda>v. dec_struct session_names session_field v Session_zero)"

section \<open>Round trip\<close>

text \<open>What comes back.\<close>

definition data_sorted :: "session \<Rightarrow> session" where
  "data_sorted s = s \<lparr> S_Data := map_option (sort_key fst) (S_Data s) \<rparr>"

definition json_view :: "session \<Rightarrow> session" where
  "json_view s = (data_sorted s) \<lparr> S_ShardID := 0, S_TTL := 0, S_IsDeleted := False \<rparr>"

text \<open>The sessions whose text holds all of them.\<close>

definition session_json_ok :: "session \<Rightarrow> bool" where
  "session_json_ok s \<longleftrightarrow>
     list_all utf8_ValidString
       [S_ID s, S_UserID s, S_TokenHash s, S_IPAddress s, S_UserAgent s, S_LastAccessIP s, S_LastAccessUA s,
        S_DeviceID s, S_CreatedBy s] \<and>
     in_i64 (S_CreatedAt s) \<and> in_i64 (S_ExpiresAt s) \<and> in_i64 (S_LastActive s) \<and> strmap_ok (S_Data s)"

lemma find_field_mem: "n \<in> set names \<Longrightarrow> find_field names n = Some n"
  by (simp add: find_field_def)

lemma session_field_simps:
  "session_field ''id'' v s = map_sum id (\<lambda>x. s \<lparr> S_ID := x \<rparr>) (dec_string v (S_ID s))"
  "session_field ''user_id'' v s = map_sum id (\<lambda>x. s \<lparr> S_UserID := x \<rparr>) (dec_string v (S_UserID s))"
  "session_field ''token_hash'' v s = map_sum id (\<lambda>x. s \<lparr> S_TokenHash := x \<rparr>) (dec_string v (S_TokenHash s))"
  "session_field ''ip_address'' v s = map_sum id (\<lambda>x. s \<lparr> S_IPAddress := x \<rparr>) (dec_string v (S_IPAddress s))"
  "session_field ''user_agent'' v s = map_sum id (\<lambda>x. s \<lparr> S_UserAgent := x \<rparr>) (dec_string v (S_UserAgent s))"
  "session_field ''last_access_ip'' v s = map_sum id (\<lambda>x. s \<lparr> S_LastAccessIP := x \<rparr>) (dec_string v (S_LastAccessIP s))"
  "session_field ''last_access_ua'' v s = map_sum id (\<lambda>x. s \<lparr> S_LastAccessUA := x \<rparr>) (dec_string v (S_LastAccessUA s))"
  "session_field ''device_id'' v s = map_sum id (\<lambda>x. s \<lparr> S_DeviceID := x \<rparr>) (dec_string v (S_DeviceID s))"
  "session_field ''created_by'' v s = map_sum id (\<lambda>x. s \<lparr> S_CreatedBy := x \<rparr>) (dec_string v (S_CreatedBy s))"
  "session_field ''created_at'' v s = map_sum id (\<lambda>x. s \<lparr> S_CreatedAt := x \<rparr>) (dec_int64 v (S_CreatedAt s))"
  "session_field ''expires_at'' v s = map_sum id (\<lambda>x. s \<lparr> S_ExpiresAt := x \<rparr>) (dec_int64 v (S_ExpiresAt s))"
  "session_field ''last_active'' v s = map_sum id (\<lambda>x. s \<lparr> S_LastActive := x \<rparr>) (dec_int64 v (S_LastActive s))"
  "session_field ''data'' v s = map_sum id (\<lambda>x. s \<lparr> S_Data := x \<rparr>) (dec_strmap v (S_Data s))"
  "session_field ''version'' v s = map_sum id (\<lambda>x. s \<lparr> S_Version := x \<rparr>) (dec_uint v (S_Version s))"
  unfolding session_field_def by (simp_all only: list.inject char.inject list.distinct if_False if_True simp_thms)

lemma session_json_ok_json: "session_json_ok s \<Longrightarrow> json_ok (session_json s)"
  using json_strmap_ok(1) [of "S_Data s"] by (simp add: session_json_ok_def session_json_def)

lemma session_json_depth: "json_depth (session_json s) \<le> 2"
  using json_strmap_ok(2) [of "S_Data s"] by (simp add: session_json_def)

lemma dec_session_json:
  assumes "session_json_ok s"
  shows "dec_struct session_names session_field (session_json s) Session_zero = Inr (json_view s)"
proof -
  have i: "in_i64 (S_CreatedAt s)" "in_i64 (S_ExpiresAt s)" "in_i64 (S_LastActive s)" "strmap_ok (S_Data s)"
    using assms by (simp_all add: session_json_ok_def)
  have z: "S_Data Session_zero = None" by (simp add: Session_zero_def)
  have "dec_struct session_names session_field (session_json s) Session_zero =
      Inr (Session_zero \<lparr> S_ID := S_ID s, S_UserID := S_UserID s, S_TokenHash := S_TokenHash s,
        S_IPAddress := S_IPAddress s, S_UserAgent := S_UserAgent s, S_LastAccessIP := S_LastAccessIP s,
        S_LastAccessUA := S_LastAccessUA s, S_DeviceID := S_DeviceID s, S_CreatedBy := S_CreatedBy s,
        S_CreatedAt := S_CreatedAt s, S_ExpiresAt := S_ExpiresAt s, S_LastActive := S_LastActive s,
        S_Data := map_option (sort_key fst) (S_Data s), S_Version := S_Version s \<rparr>)"
    unfolding dec_struct_def session_json_def json.case
    by (simp add: find_field_mem session_field_simps i z dec_json_strmap del: dec_uint.simps)
  then show ?thesis by (simp add: json_view_def data_sorted_def Session_zero_def)
qed

lemma session_json_roundtrip:
  assumes "session_json_ok s"
  shows "\<exists>b. json_Marshal_session s = Inr b \<and> json_Unmarshal_session b = Inr (json_view s)"
proof -
  have "json_depth (session_json s) \<le> maxNestingDepth" using session_json_depth [of s] by simp
  note R = json_roundtrip [OF session_json_ok_json [OF assms] this]
  show ?thesis
    using R(1) R(2) [of "\<lambda>v. dec_struct session_names session_field v Session_zero"] dec_session_json [OF assms]
    by (simp add: json_Marshal_session_def json_Unmarshal_session_def)
qed

end
