(* ===== verification/Wal_Codec.thy ===== *)
theory Wal_Codec
  imports Session_Json Go_Hash
begin

text \<open>
  Entries of the write-ahead log and their frames: \<open>internal/storage/wal/entry.go\<close> and
  \<open>internal/storage/wal/codec.go\<close>. A frame is four bytes of length, four of CRC-32, one of
  type and the payload, a JSON document.

  The payload is written and read by the JSON model; what is lost on the way are the fields of a
  session that are tagged \<open>json:"-"\<close>. The cipher is the interface \<open>adaptive.Cipher\<close>, a record of its two
  methods.
\<close>

section \<open>Entries\<close>

abbreviation OpTypeUnspecified :: byte where "OpTypeUnspecified \<equiv> 0"
abbreviation OpTypeCreate :: byte where "OpTypeCreate \<equiv> 1"
abbreviation OpTypeUpdate :: byte where "OpTypeUpdate \<equiv> 2"
abbreviation OpTypeDelete :: byte where "OpTypeDelete \<equiv> 3"

definition ErrCorruptedEntry :: go_error where
  "ErrCorruptedEntry = PlainError ''wal: corrupted entry''"
definition ErrChecksumMismatch :: go_error where
  "ErrChecksumMismatch = PlainError ''wal: checksum mismatch''"
definition ErrInvalidEntryType :: go_error where
  "ErrInvalidEntryType = PlainError ''wal: invalid entry type''"

record wal_entry =
  E_OpType :: byte
  E_Timestamp :: int
  E_SessionID :: string
  E_Version :: u64
  E_Session :: "session option"

definition NewCreateEntry :: "int \<Rightarrow> session \<Rightarrow> wal_entry" where
  "NewCreateEntry now sess =
     \<lparr> E_OpType = OpTypeCreate, E_Timestamp = UnixMilli now, E_SessionID = S_ID sess,
       E_Version = S_Version sess, E_Session = Some sess \<rparr>"

definition NewUpdateEntry :: "int \<Rightarrow> session \<Rightarrow> wal_entry" where
  "NewUpdateEntry now sess =
     \<lparr> E_OpType = OpTypeUpdate, E_Timestamp = UnixMilli now, E_SessionID = S_ID sess,
       E_Version = S_Version sess, E_Session = Some sess \<rparr>"

definition NewDeleteEntry :: "int \<Rightarrow> string \<Rightarrow> wal_entry" where
  "NewDeleteEntry now sessionID =
     \<lparr> E_OpType = OpTypeDelete, E_Timestamp = UnixMilli now, E_SessionID = sessionID,
       E_Version = 0, E_Session = None \<rparr>"

section \<open>Frames\<close>

record wire_payload =
  P_Timestamp :: int
  P_SessionID :: string
  P_Version :: u64
  P_Session :: "session option"
  P_EncryptedSession :: string

abbreviation payload_names :: "string list" where
  "payload_names \<equiv> [''ts'', ''sid'', ''ver'', ''session'', ''enc_session'']"

definition payload_json :: "wire_payload \<Rightarrow> json" where
  "payload_json p = JObj
     ([(''ts'', JInt (P_Timestamp p)), (''sid'', JStr (P_SessionID p))] @
      (if P_Version p = 0 then [] else [(''ver'', JUint (P_Version p))]) @
      (case P_Session p of None \<Rightarrow> [] | Some s \<Rightarrow> [(''session'', session_json s)]) @
      (if P_EncryptedSession p = '''' then [] else [(''enc_session'', JStr (P_EncryptedSession p))]))"

definition payload_field :: "string \<Rightarrow> json \<Rightarrow> wire_payload \<Rightarrow> go_error + wire_payload" where
  "payload_field n v p =
     (if n = ''ts'' then map_sum id (\<lambda>x. p \<lparr> P_Timestamp := x \<rparr>) (dec_int64 v (P_Timestamp p))
      else if n = ''sid'' then map_sum id (\<lambda>x. p \<lparr> P_SessionID := x \<rparr>) (dec_string v (P_SessionID p))
      else if n = ''ver'' then map_sum id (\<lambda>x. p \<lparr> P_Version := x \<rparr>) (dec_uint v (P_Version p))
      else if n = ''session'' then
        (if v = JNull then Inr (p \<lparr> P_Session := None \<rparr>)
         else map_sum id (\<lambda>x. p \<lparr> P_Session := Some x \<rparr>)
                (dec_struct session_names session_field v
                   (case P_Session p of None \<Rightarrow> Session_zero | Some s \<Rightarrow> s)))
      else map_sum id (\<lambda>x. p \<lparr> P_EncryptedSession := x \<rparr>) (dec_string v (P_EncryptedSession p)))"

definition payload_zero :: wire_payload where
  "payload_zero = \<lparr> P_Timestamp = 0, P_SessionID = '''', P_Version = 0, P_Session = None, P_EncryptedSession = '''' \<rparr>"

definition json_Marshal_payload :: "wire_payload \<Rightarrow> go_error + bytes" where
  "json_Marshal_payload p = json_Marshal (payload_json p)"

definition json_Unmarshal_payload :: "bytes \<Rightarrow> go_error + wire_payload" where
  "json_Unmarshal_payload = json_Unmarshal (\<lambda>v. dec_struct payload_names payload_field v payload_zero)"

record cipher =
  ci_Encrypt :: "bytes \<Rightarrow> bytes \<Rightarrow> go_error + bytes"
  ci_Decrypt :: "bytes \<Rightarrow> bytes \<Rightarrow> go_error + bytes"

text \<open>The payload: the session in clear, or encrypted and in base64.\<close>

definition entry_payload :: "cipher option \<Rightarrow> wal_entry \<Rightarrow> go_error + wire_payload" where
  "entry_payload ci e =
     (let p = \<lparr> P_Timestamp = E_Timestamp e, P_SessionID = E_SessionID e, P_Version = E_Version e,
                P_Session = None, P_EncryptedSession = '''' \<rparr> in
      if E_OpType e = OpTypeDelete then Inr p
      else (case ci of
              None \<Rightarrow> Inr (p \<lparr> P_Session := E_Session e \<rparr>)
            | Some c \<Rightarrow>
                (case json_Marshal_session (the (E_Session e)) of
                   Inl err \<Rightarrow> Inl (WrapError ''wal: marshal session'' err)
                 | Inr plain \<Rightarrow>
                     (case ci_Encrypt c plain [] of
                        Inl err \<Rightarrow> Inl (WrapError ''wal: encrypt session'' err)
                      | Inr encrypted \<Rightarrow>
                          Inr (p \<lparr> P_EncryptedSession := b64_encode_padded std_alphabet encrypted \<rparr>)))))"

text \<open>The bytes after the length: checksum, type, payload.\<close>

definition frame_body :: "byte \<Rightarrow> bytes \<Rightarrow> bytes" where
  "frame_body ty payload = PutUint32 (ChecksumIEEE (ty # payload)) @ [ty] @ payload"

definition encodeEntryFrame :: "cipher option \<Rightarrow> wal_entry \<Rightarrow> go_error + bytes" where
  "encodeEntryFrame ci e =
     (if E_OpType e = OpTypeUnspecified then Inl ErrInvalidEntryType
      else if E_OpType e \<noteq> OpTypeDelete \<and> E_Session e = None then
        Inl (PlainError (''wal: missing session for op '' @ FormatInt (uint (E_OpType e))))
      else
        (case entry_payload ci e of
           Inl err \<Rightarrow> Inl err
         | Inr p \<Rightarrow>
             (case json_Marshal_payload p of
                Inl err \<Rightarrow> Inl (WrapError ''wal: marshal payload'' err)
              | Inr payload \<Rightarrow>
                  (let len = (of_nat (4 + 1 + length payload) :: u32) in
                   if len < 5 then Inl ErrCorruptedEntry
                   else Inr (PutUint32 len @ frame_body (E_OpType e) payload)))))"

definition decodeEntryFrame :: "cipher option \<Rightarrow> bytes \<Rightarrow> go_error + wal_entry" where
  "decodeEntryFrame ci frame =
     (if length frame < 5 then Inl ErrCorruptedEntry
      else
        let wantCRC = Uint32 (take 4 frame); typeByte = frame ! 4; payload = drop 5 frame in
        if ChecksumIEEE (typeByte # payload) \<noteq> wantCRC then Inl ErrChecksumMismatch
        else (case json_Unmarshal_payload payload of
                Inl err \<Rightarrow> Inl (WrapError ''wal: unmarshal payload'' err)
              | Inr p \<Rightarrow>
                  if typeByte \<notin> {OpTypeCreate, OpTypeUpdate, OpTypeDelete} then Inl ErrInvalidEntryType
                  else
                    let out = \<lparr> E_OpType = typeByte, E_Timestamp = P_Timestamp p,
                                E_SessionID = P_SessionID p, E_Version = P_Version p, E_Session = None \<rparr> in
                    if typeByte = OpTypeDelete then Inr out
                    else (case P_Session p of
                            Some s \<Rightarrow> Inr (out \<lparr> E_Session := Some s \<rparr>)
                          | None \<Rightarrow>
                              if P_EncryptedSession p = '''' then Inl (PlainError ''wal: missing session payload'')
                              else (case ci of
                                      None \<Rightarrow> Inl (PlainError ''wal: encrypted entry requires cipher'')
                                    | Some c \<Rightarrow>
                                        (case b64_decode_padded std_alphabet (P_EncryptedSession p) of
                                           None \<Rightarrow> Inl (PlainError ''wal: decode encrypted session'')
                                         | Some ciphertext \<Rightarrow>
                                             (case ci_Decrypt c ciphertext [] of
                                                Inl err \<Rightarrow> Inl (WrapError ''wal: decrypt session'' err)
                                              | Inr plain \<Rightarrow>
                                                  (case json_Unmarshal_session plain of
                                                     Inl err \<Rightarrow> Inl (WrapError ''wal: unmarshal session'' err)
                                                   | Inr s \<Rightarrow> Inr (out \<lparr> E_Session := Some s \<rparr>))))))))"

section \<open>Round trip\<close>

definition entry_view :: "wal_entry \<Rightarrow> wal_entry" where
  "entry_view e = e \<lparr> E_Session := map_option json_view (E_Session e) \<rparr>"

definition payload_view :: "wire_payload \<Rightarrow> wire_payload" where
  "payload_view p = p \<lparr> P_Session := map_option json_view (P_Session p) \<rparr>"

text \<open>The documented behaviour relied on of the cipher, at one value: decryption undoes encryption, and a
  ciphertext is never empty (it holds a nonce and a tag).\<close>

definition cipher_ok :: "cipher \<Rightarrow> bytes \<Rightarrow> bool" where
  "cipher_ok c plain \<longleftrightarrow> (\<exists>b. ci_Encrypt c plain [] = Inr b \<and> b \<noteq> [] \<and> ci_Decrypt c b [] = Inr plain)"

definition entry_codec_ok :: "cipher option \<Rightarrow> wal_entry \<Rightarrow> bool" where
  "entry_codec_ok ci e \<longleftrightarrow>
     in_i64 (E_Timestamp e) \<and> utf8_ValidString (E_SessionID e) \<and>
     (case E_Session e of
        None \<Rightarrow> True
      | Some s \<Rightarrow> session_json_ok s \<and>
          (case ci of None \<Rightarrow> True | Some c \<Rightarrow> cipher_ok c (bytes_of_string (json_text (session_json s)))))"

definition wf_entry :: "wal_entry \<Rightarrow> bool" where
  "wf_entry e \<longleftrightarrow> E_OpType e \<in> {OpTypeCreate, OpTypeUpdate, OpTypeDelete} \<and>
     (E_OpType e = OpTypeDelete \<longleftrightarrow> E_Session e = None)"

lemma payload_field_simps:
  "payload_field ''ts'' v p = map_sum id (\<lambda>x. p \<lparr> P_Timestamp := x \<rparr>) (dec_int64 v (P_Timestamp p))"
  "payload_field ''sid'' v p = map_sum id (\<lambda>x. p \<lparr> P_SessionID := x \<rparr>) (dec_string v (P_SessionID p))"
  "payload_field ''ver'' v p = map_sum id (\<lambda>x. p \<lparr> P_Version := x \<rparr>) (dec_uint v (P_Version p))"
  "payload_field ''session'' v p =
     (if v = JNull then Inr (p \<lparr> P_Session := None \<rparr>)
      else map_sum id (\<lambda>x. p \<lparr> P_Session := Some x \<rparr>)
             (dec_struct session_names session_field v
                (case P_Session p of None \<Rightarrow> Session_zero | Some s \<Rightarrow> s)))"
  "payload_field ''enc_session'' v p =
     map_sum id (\<lambda>x. p \<lparr> P_EncryptedSession := x \<rparr>) (dec_string v (P_EncryptedSession p))"
  unfolding payload_field_def by (simp_all only: list.inject char.inject list.distinct if_False if_True simp_thms)

definition payload_ok :: "wire_payload \<Rightarrow> bool" where
  "payload_ok p \<longleftrightarrow> in_i64 (P_Timestamp p) \<and> utf8_ValidString (P_SessionID p) \<and>
     (case P_Session p of None \<Rightarrow> True | Some s \<Rightarrow> session_json_ok s) \<and> utf8_ValidString (P_EncryptedSession p)"

lemma dec_payload_json:
  assumes "payload_ok p"
  shows "dec_struct payload_names payload_field (payload_json p) payload_zero = Inr (payload_view p)"
proof -
  have i: "in_i64 (P_Timestamp p)" "\<And>s. P_Session p = Some s \<Longrightarrow> session_json_ok s"
    using assms by (auto simp: payload_ok_def)
  have J: "session_json s \<noteq> JNull" for s by (simp add: session_json_def)
  show ?thesis
    unfolding dec_struct_def payload_json_def json.case
    using i dec_session_json
    by (cases "P_Version p = 0"; cases "P_Session p"; cases "P_EncryptedSession p = ''''")
      (simp_all add: find_field_mem payload_field_simps J payload_zero_def payload_view_def dec_session_json
         del: dec_uint.simps split_paired_All)
qed

lemma payload_json_ok:
  assumes "payload_ok p"
  shows "\<exists>b. json_Marshal_payload p = Inr b \<and> json_Unmarshal_payload b = Inr (payload_view p)"
proof -
  have "json_ok (payload_json p)"
    using assms session_json_ok_json by (auto simp: payload_ok_def payload_json_def split: option.splits)
  moreover have "json_depth (payload_json p) \<le> Suc 2"
    unfolding payload_json_def
    by (rule json_depth_le(2)) (auto simp: session_json_depth split: option.splits if_splits)
  ultimately show ?thesis
    using json_roundtrip(1) [of "payload_json p"] dec_payload_json [OF assms]
      json_roundtrip(2) [of "payload_json p" "\<lambda>v. dec_struct payload_names payload_field v payload_zero"]
    by (simp add: json_Marshal_payload_def json_Unmarshal_payload_def)
qed

lemma frame_body_parts:
  "length (frame_body ty pl) = 5 + length pl" "take 4 (frame_body ty pl) = PutUint32 (ChecksumIEEE (ty # pl))"
  "frame_body ty pl ! 4 = ty" "drop 5 (frame_body ty pl) = pl"
  by (simp_all add: frame_body_def nth_append)

lemma encodeEntryFrame_Inr:
  assumes "encodeEntryFrame ci e = Inr f"
  obtains p payload where "entry_payload ci e = Inr p" "json_Marshal_payload p = Inr payload"
    "f = PutUint32 (of_nat (5 + length payload)) @ frame_body (E_OpType e) payload"
    "5 \<le> (of_nat (5 + length payload) :: u32)"
  using assms that
  by (auto simp: encodeEntryFrame_def Let_def not_less split: if_splits sum.splits)

lemma decode_body:
  assumes "json_Unmarshal_payload pl = Inr p" "ty \<in> {OpTypeCreate, OpTypeUpdate, OpTypeDelete}"
  shows "decodeEntryFrame ci (frame_body ty pl) =
    (let out = \<lparr> E_OpType = ty, E_Timestamp = P_Timestamp p, E_SessionID = P_SessionID p,
                 E_Version = P_Version p, E_Session = None \<rparr> in
     if ty = OpTypeDelete then Inr out
     else (case P_Session p of
        Some s \<Rightarrow> Inr (out \<lparr> E_Session := Some s \<rparr>)
      | None \<Rightarrow>
          if P_EncryptedSession p = '''' then Inl (PlainError ''wal: missing session payload'')
          else (case ci of
            None \<Rightarrow> Inl (PlainError ''wal: encrypted entry requires cipher'')
          | Some c \<Rightarrow>
              (case b64_decode_padded std_alphabet (P_EncryptedSession p) of
                 None \<Rightarrow> Inl (PlainError ''wal: decode encrypted session'')
               | Some ciphertext \<Rightarrow>
                   (case ci_Decrypt c ciphertext [] of
                      Inl err \<Rightarrow> Inl (WrapError ''wal: decrypt session'' err)
                    | Inr plain \<Rightarrow>
                        (case json_Unmarshal_session plain of
                           Inl err \<Rightarrow> Inl (WrapError ''wal: unmarshal session'' err)
                         | Inr s \<Rightarrow> Inr (out \<lparr> E_Session := Some s \<rparr>)))))))"
  unfolding decodeEntryFrame_def Let_def frame_body_parts Uint32_PutUint32 assms(1)
  using assms(2) by simp

lemma b64_encode_ne: "b \<noteq> [] \<Longrightarrow> b64_encode_padded A b \<noteq> ''''"
  by (cases b rule: remdups_adj.cases) (auto simp: b64_encode_padded_def b64_encode_length
      simp flip: length_0_conv)

lemma b64_padded_ascii: "is_ascii (b64_encode_padded std_alphabet bs)"
proof -
  have "of_char (b64_char std_alphabet n) < (128::nat)" for n
    by (auto simp: b64_char_def std_alphabet_def)
  then have "is_ascii (b64_encode std_alphabet bs)"
    by (induction std_alphabet bs rule: b64_encode.induct) (simp_all add: Let_def is_ascii_def)
  then show ?thesis by (auto simp: b64_encode_padded_def is_ascii_def list_all_iff)
qed

lemma entry_payload_ok:
  assumes "entry_payload ci e = Inr p" "entry_codec_ok ci e" "wf_entry e"
  shows "payload_ok p"
  using assms utf8_ascii [OF b64_padded_ascii]
  by (auto simp: entry_payload_def payload_ok_def entry_codec_ok_def wf_entry_def Let_def
      split: if_splits option.splits sum.splits)

lemma entry_frame_roundtrip:
  assumes enc: "encodeEntryFrame ci e = Inr f" and wf: "wf_entry e" and ok: "entry_codec_ok ci e"
    and small: "length f < 2 ^ 32"
  shows "decodeEntryFrame ci (drop 4 f) = Inr (entry_view e)"
    and "unat (Uint32 (take 4 f)) = length f - 4" and "9 \<le> length f"
proof -
  obtain p payload where p: "entry_payload ci e = Inr p" "json_Marshal_payload p = Inr payload"
    "f = PutUint32 (of_nat (5 + length payload)) @ frame_body (E_OpType e) payload"
    using encodeEntryFrame_Inr [OF enc] by metis
  have len: "length f = 9 + length payload" by (simp add: p(3) frame_body_parts)
  then show "9 \<le> length f" by simp
  have "unat (of_nat (5 + length payload) :: u32) = 5 + length payload"
    unfolding unat_of_nat using small len by (intro mod_less) simp
  then show "unat (Uint32 (take 4 f)) = length f - 4" by (simp add: p(3) frame_body_parts)
  have un: "json_Unmarshal_payload payload = Inr (payload_view p)"
    using payload_json_ok [OF entry_payload_ok [OF p(1) ok wf]] p(2) by auto
  have ty: "E_OpType e \<in> {OpTypeCreate, OpTypeUpdate, OpTypeDelete}" using wf by (auto simp: wf_entry_def)
  note D = decode_body [OF un ty, of ci]
  have drop: "drop 4 f = frame_body (E_OpType e) payload" by (simp add: p(3))
  show "decodeEntryFrame ci (drop 4 f) = Inr (entry_view e)"
  proof (cases "E_Session e")
    case None
    then have "E_OpType e = OpTypeDelete" using wf by (simp add: wf_entry_def)
    then show ?thesis
      unfolding drop D using p(1) None
      by (auto simp: entry_payload_def payload_view_def entry_view_def intro!: wal_entry.equality)
  next
    case (Some s)
    then have op: "E_OpType e \<noteq> OpTypeDelete" using wf by (simp add: wf_entry_def)
    show ?thesis
    proof (cases ci)
      case None
      then show ?thesis
        unfolding drop D using p(1) op Some
        by (auto simp: entry_payload_def payload_view_def entry_view_def intro!: wal_entry.equality)
    next
      case ci: (Some c)
      obtain b where b: "json_Marshal_session s = Inr b" "json_Unmarshal_session b = Inr (json_view s)" and "cipher_ok c b"
        using ok ci Some session_json_roundtrip [of s]
        by (auto simp: entry_codec_ok_def json_Marshal_session_def json_Marshal_def)
      then obtain x where x: "ci_Encrypt c b [] = Inr x" "x \<noteq> []" "ci_Decrypt c x [] = Inr b"
        by (auto simp: cipher_ok_def)
      have "payload_view p = \<lparr> P_Timestamp = E_Timestamp e, P_SessionID = E_SessionID e, P_Version = E_Version e,
          P_Session = None, P_EncryptedSession = b64_encode_padded std_alphabet x \<rparr>"
        using p(1) op ci Some b x by (auto simp: entry_payload_def payload_view_def Let_def)
      then show ?thesis
        unfolding drop D using op ci Some b x b64_encode_ne [OF x(2)]
        by (auto simp: b64_padded_roundtrip entry_view_def intro!: wal_entry.equality)
    qed
  qed
qed

text \<open>A frame whose checksum does not match its type and payload is refused, whatever it holds.\<close>

lemma decode_bad_crc:
  assumes "5 \<le> length f" "ChecksumIEEE (f ! 4 # drop 5 f) \<noteq> Uint32 (take 4 f)"
  shows "decodeEntryFrame ci f = Inl ErrChecksumMismatch"
  using assms by (simp add: decodeEntryFrame_def)

text \<open>The frame of an entry, by the length of the text of its payload.\<close>

lemma encode_fits:
  assumes "wf_entry e" "entry_payload ci e = Inr p" "9 + length (json_text (payload_json p)) < 2 ^ 32"
  shows "\<exists>f. encodeEntryFrame ci e = Inr f \<and> length f = 9 + length (json_text (payload_json p))"
proof -
  let ?pl = "bytes_of_string (json_text (payload_json p))"
  have "E_OpType e \<noteq> OpTypeUnspecified" "\<not> (E_OpType e \<noteq> OpTypeDelete \<and> E_Session e = None)"
    using assms(1) by (auto simp: wf_entry_def)
  moreover have "json_Marshal_payload p = Inr ?pl" by (simp add: json_Marshal_payload_def json_Marshal_def)
  moreover have "\<not> (of_nat (4 + 1 + length ?pl) :: u32) < 5"
  proof -
    have "unat (of_nat (4 + 1 + length ?pl) :: u32) = 4 + 1 + length ?pl"
      unfolding unat_of_nat using assms(3) by (intro mod_less) simp
    then show ?thesis by (simp add: word_less_nat_alt)
  qed
  ultimately show ?thesis
    using assms(2) by (simp add: encodeEntryFrame_def Let_def frame_body_parts)
qed

text \<open>Escaping makes a string at most six times as long.\<close>

lemma json_escape_length: "length (json_escape s) \<le> 6 * length s"
proof (induction s rule: json_escape.induct)
  case (2 c cs)
  have "length (json_escape_char c) \<le> 6" by (simp add: json_escape_char_def)
  then show ?case
  proof (cases "cc c < 128")
    case False
    let ?n = "utf8_len (c # cs)"
    have IH: "?n \<noteq> 0 \<Longrightarrow> length (json_escape (drop (?n - 1) cs)) \<le> 6 * (length cs - (?n - 1))"
      using 2(3,4) False by (cases "line_separator (c # cs)") (simp_all del: utf8_len.simps)
    show ?thesis
      using False 2(2) [OF False] IH utf8_len_range [of "c # cs"]
      by (auto simp: Let_def min_def simp del: utf8_len.simps)
  qed (use 2(1) in simp)
qed simp

section \<open>Properties\<close>

text \<open>An entry survives its frame.  Decoding the frame that was written for an entry whose strings are
  valid UTF-8 gives the entry back, with its session less the fields that JSON leaves out, encrypted or
  not; the first four bytes hold the length of the rest.\<close>

lemma entry_frame_decodes:
  assumes "wf_entry e" "entry_codec_ok ci e" "encodeEntryFrame ci e = Inr f" "length f < 2 ^ 32"
  shows "decodeEntryFrame ci (drop 4 f) = Inr (entry_view e) \<and> unat (Uint32 (take 4 f)) = length f - 4"
  using entry_frame_roundtrip [OF assms(3,1,2,4)] by blast

definition example_entry :: wal_entry where
  "example_entry = NewCreateEntry 1000000 (example_session ''tmss-1'' ''u'' '''')"

lemma example_entry_ok:
  "wf_entry example_entry" "entry_codec_ok None example_entry"
  "\<exists>f. encodeEntryFrame None example_entry = Inr f \<and> length f < 2 ^ 32"
proof -
  show w: "wf_entry example_entry" by (simp add: example_entry_def wf_entry_def NewCreateEntry_def)
  have "session_json_ok (example_session ''tmss-1'' ''u'' '''')" "utf8_ValidString ''tmss-1''" by code_simp+
  then show "entry_codec_ok None example_entry"
    by (simp add: example_entry_def entry_codec_ok_def NewCreateEntry_def in_i64_def UnixMilli_def)
  let ?p = "\<lparr> P_Timestamp = 1, P_SessionID = ''tmss-1'', P_Version = 1,
    P_Session = Some (example_session ''tmss-1'' ''u'' ''''), P_EncryptedSession = '''' \<rparr>"
  have p: "entry_payload None example_entry = Inr ?p"
    by (simp add: example_entry_def entry_payload_def NewCreateEntry_def UnixMilli_def)
  have "length (json_text (payload_json ?p)) \<le> 400" by code_simp
  then have l: "9 + length (json_text (payload_json ?p)) < 2 ^ 32"
    by (rule order_le_less_trans [OF add_left_mono]) simp
  from encode_fits [OF w p l] l show "\<exists>f. encodeEntryFrame None example_entry = Inr f \<and> length f < 2 ^ 32"
    by auto
qed

end
