(* ===== verification/Wal_Writer.thy ===== *)
theory Wal_Writer
  imports Go_Os Wal_Codec
begin

text \<open>
  The writer of the log, \<open>internal/storage/wal/writer.go\<close>: buffered frames, batches, rotation to
  a new segment file, the SHA-256 trailer of a finished segment, and reopening an unfinished one.

  A segment file is the magic bytes, frames, and the trailer once it is finished. The open file is
  its name with the cursor at the end; \<open>W_shut\<close> marks a handle that the operating system has
  closed while the writer still holds it. The running hash is the list of the bytes hashed so far.
  The mutex makes each method one transition; the ticker of \<open>startSyncLoop\<close> calls \<open>Flush\<close>.
\<close>

section \<open>Segments on disk\<close>

definition errInvalidMagic :: go_error where
  "errInvalidMagic = PlainError ''wal: invalid magic bytes''"

abbreviation FilePrefix :: string where "FilePrefix \<equiv> ''wal-''"
abbreviation FileExtension :: string where "FileExtension \<equiv> ''.log''"
abbreviation MagicBytesSize :: nat where "MagicBytesSize \<equiv> 8"
abbreviation ChecksumSize :: nat where "ChecksumSize \<equiv> 32"

definition MagicBytes :: bytes where
  "MagicBytes = bytes_of_string ''TOKMWAL'' @ [1]"

abbreviation DefaultBatchCount :: int where "DefaultBatchCount \<equiv> 100"
abbreviation DefaultBatchBytes :: int where "DefaultBatchBytes \<equiv> 1048576"
abbreviation DefaultSyncInterval :: int where "DefaultSyncInterval \<equiv> Second"
abbreviation DefaultMaxFileSize :: int where "DefaultMaxFileSize \<equiv> 67108864"
abbreviation DefaultMaxEntryCount :: int where "DefaultMaxEntryCount \<equiv> 100000"
abbreviation SyncModeSync :: string where "SyncModeSync \<equiv> ''sync''"
abbreviation SyncModeBatch :: string where "SyncModeBatch \<equiv> ''batch''"

text \<open>\<open>%08d\<close>, and \<open>fmt.Sscanf\<close> with the format \<open>wal-%d.log\<close>: blanks before the number are
  skipped, the number must fit 64 bits, what follows the literal is not looked at.\<close>

definition formatSegmentFilename :: "u64 \<Rightarrow> string" where
  "formatSegmentFilename segmentID =
     (let ds = dec_digits (unat segmentID) in
      FilePrefix @ replicate (8 - length ds) (CHR ''0'') @ ds @ FileExtension)"

definition is_blank :: "char \<Rightarrow> bool" where
  "is_blank c \<longleftrightarrow> (of_char c :: nat) \<in> {9, 11, 12, 13, 32}"

definition parseSegmentFilename :: "string \<Rightarrow> u64 option" where
  "parseSegmentFilename name =
     (if \<not> HasPrefix name FilePrefix \<or> \<not> HasSuffix name FileExtension then None
      else let s = dropWhile is_blank (drop (length FilePrefix) name);
               ds = takeWhile is_digit s
           in if ds = '''' \<or> dec_val ds \<ge> 2 ^ 64 then None
              else if HasPrefix (dropWhile is_digit s) FileExtension then Some (of_nat (dec_val ds))
              else None)"

text \<open>Whether a file of these contents has a valid trailer, and how much of it is data.\<close>

definition verifyChecksumTrailer :: "bytes \<Rightarrow> go_error + bool \<times> nat" where
  "verifyChecksumTrailer c =
     (let size = length c in
      if size < MagicBytesSize then Inr (False, size)
      else if take MagicBytesSize c \<noteq> MagicBytes then Inl errInvalidMagic
      else if size < MagicBytesSize + ChecksumSize then Inr (False, size)
      else let dataLen = size - ChecksumSize in
           if Sum256 (take dataLen c) \<noteq> drop dataLen c then Inr (False, size)
           else Inr (True, dataLen))"

text \<open>The segments of a directory by increasing identifier: the scan of the reader and of
  \<open>findLatestSegment\<close>.\<close>

definition list_segments :: "dir \<Rightarrow> (u64 \<times> string) list" where
  "list_segments d =
     sort_key fst (List.map_filter
       (\<lambda>name. map_option (\<lambda>i. (i, name)) (parseSegmentFilename name)) (dir_names d))"

definition findLatestSegment :: "os_calls \<Rightarrow> dir \<Rightarrow> go_error + u64 \<times> string \<times> bool" where
  "findLatestSegment sys d =
     (case os_ReadDir sys of
        Some err \<Rightarrow> Inl (WrapError ''wal: read dir'' err)
      | None \<Rightarrow>
          let segs = list_segments d in
          if segs = [] then Inr (0, '''', False)
          else let (i, name) = last segs in
            (case os_Open sys name of
               Some err \<Rightarrow> Inl (WrapError ''wal: open latest'' err)
             | None \<Rightarrow>
                 (case os_Stat sys name of
                    Some err \<Rightarrow> Inl (WrapError ''wal: stat latest'' err)
                  | None \<Rightarrow>
                      (case verifyChecksumTrailer (the (gm_get d name)) of
                         Inl err \<Rightarrow> if errors_Is err errInvalidMagic then Inr (i, name, False) else Inl err
                       | Inr (closed, _) \<Rightarrow> Inr (i, name, closed)))))"

section \<open>The writer\<close>

record wal_config =
  wc_Dir :: string
  wc_NodeID :: string
  wc_SyncMode :: string
  wc_SyncInterval :: int
  wc_BatchCount :: int
  wc_BatchBytes :: int
  wc_MaxFileSize :: int
  wc_MaxEntryCount :: int
  wc_Cipher :: "cipher option"

definition wal_DefaultConfig :: "string \<Rightarrow> wal_config" where
  "wal_DefaultConfig d =
     \<lparr> wc_Dir = d, wc_NodeID = '''', wc_SyncMode = SyncModeBatch, wc_SyncInterval = DefaultSyncInterval,
       wc_BatchCount = DefaultBatchCount, wc_BatchBytes = DefaultBatchBytes,
       wc_MaxFileSize = DefaultMaxFileSize, wc_MaxEntryCount = DefaultMaxEntryCount, wc_Cipher = None \<rparr>"

definition applyDefaults :: "wal_config \<Rightarrow> wal_config" where
  "applyDefaults cfg =
     cfg \<lparr> wc_SyncMode := (if wc_SyncMode cfg = '''' then SyncModeBatch else wc_SyncMode cfg),
           wc_SyncInterval := (if wc_SyncInterval cfg = 0 then DefaultSyncInterval else wc_SyncInterval cfg),
           wc_BatchCount := (if wc_BatchCount cfg = 0 then DefaultBatchCount else wc_BatchCount cfg),
           wc_BatchBytes := (if wc_BatchBytes cfg = 0 then DefaultBatchBytes else wc_BatchBytes cfg),
           wc_MaxFileSize := (if wc_MaxFileSize cfg = 0 then DefaultMaxFileSize else wc_MaxFileSize cfg),
           wc_MaxEntryCount := (if wc_MaxEntryCount cfg = 0 then DefaultMaxEntryCount else wc_MaxEntryCount cfg) \<rparr>"

record wal_writer =
  W_cfg :: wal_config
  W_segmentID :: u64
  W_file :: "string option"
  W_shut :: bool
  W_filePath :: string
  W_fileSize :: nat
  W_segmentEntries :: nat
  W_hashed :: bytes
  W_buffer :: "bytes list"
  W_bufferBytes :: nat
  W_closed :: bool
  W_headerWritten :: bool

definition Writer_CurrentOffset :: "wal_writer \<Rightarrow> u64" where
  "Writer_CurrentOffset w = push_bit 32 (W_segmentID w) OR ucast (of_nat (W_fileSize w) :: u32)"

text \<open>\<open>file.Write\<close> on the handle: the new directory, the number of bytes written and the error.\<close>

definition handle_write :: "os_calls \<Rightarrow> dir \<Rightarrow> wal_writer \<Rightarrow> string \<Rightarrow> bytes \<Rightarrow> dir \<times> nat \<times> go_error option" where
  "handle_write sys d w f p =
     (if W_shut w then (d, 0, Some ErrClosed)
      else case os_Write sys p of (n, err) \<Rightarrow> (file_append d f (take n p), n, err))"

definition writeLocked :: "os_calls \<Rightarrow> dir \<Rightarrow> wal_writer \<Rightarrow> bytes \<Rightarrow> dir \<times> wal_writer \<times> go_error option" where
  "writeLocked sys d w p =
     (case W_file w of
        None \<Rightarrow> (d, w, Some (PlainError ''wal: file not open''))
      | Some f \<Rightarrow>
          (case handle_write sys d w f p of
             (d', n, err) \<Rightarrow>
               (d', if n > 0 then w \<lparr> W_hashed := W_hashed w @ take n p, W_fileSize := W_fileSize w + n \<rparr> else w,
                err)))"

definition writeHeaderLocked :: "os_calls \<Rightarrow> dir \<Rightarrow> wal_writer \<Rightarrow> dir \<times> wal_writer \<times> go_error option" where
  "writeHeaderLocked sys d w =
     (if W_headerWritten w then (d, w, None)
      else case writeLocked sys d w MagicBytes of
             (d', w', Some err) \<Rightarrow> (d', w', Some err)
           | (d', w', None) \<Rightarrow> (d', w' \<lparr> W_headerWritten := True \<rparr>, None))"

definition openNewSegment :: "os_calls \<Rightarrow> dir \<Rightarrow> wal_writer \<Rightarrow> dir \<times> wal_writer \<times> go_error option" where
  "openNewSegment sys d w =
     (let path = formatSegmentFilename (W_segmentID w) in
      case os_Open sys path of
        Some err \<Rightarrow> (d, w, Some (WrapError ''wal: open segment'' err))
      | None \<Rightarrow>
          (let w1 = w \<lparr> W_file := Some path, W_shut := False, W_filePath := path, W_fileSize := 0,
                 W_segmentEntries := 0, W_hashed := [], W_headerWritten := False \<rparr>
           in case writeHeaderLocked sys (gm_set path [] d) w1 of
                (d', w', Some err) \<Rightarrow> (d', w' \<lparr> W_shut := True \<rparr>, Some err)
              | (d', w', None) \<Rightarrow> (d', w', None)))"

definition openExistingOpenSegment :: "os_calls \<Rightarrow> dir \<Rightarrow> wal_writer \<Rightarrow> go_error + wal_writer" where
  "openExistingOpenSegment sys d w =
     (let f = W_filePath w in
      case os_Open sys f of
        Some err \<Rightarrow> Inl (WrapError ''wal: open existing segment'' err)
      | None \<Rightarrow>
     (case os_Stat sys f of
        Some err \<Rightarrow> Inl (WrapError ''wal: stat segment'' err)
      | None \<Rightarrow>
     (let c = the (gm_get d f) in
      case io_ReadFull MagicBytesSize c of
        (Inl err, _) \<Rightarrow> Inl (WrapError ''wal: read magic'' err)
      | (Inr magic, _) \<Rightarrow>
          if magic \<noteq> MagicBytes then Inl errInvalidMagic
          else
            (case verifyChecksumTrailer c of
               Inl err \<Rightarrow> Inl err
             | Inr (closed, dataLen) \<Rightarrow>
                 if closed then Inl (PlainError ''wal: latest segment already finalized'')
                 else Inr (w \<lparr> W_hashed := take dataLen c, W_file := Some f, W_shut := False,
                               W_fileSize := dataLen, W_headerWritten := True \<rparr>)))))"

definition finalizeSegmentWithoutFlushingLocked ::
  "os_calls \<Rightarrow> dir \<Rightarrow> wal_writer \<Rightarrow> dir \<times> wal_writer \<times> go_error option" where
  "finalizeSegmentWithoutFlushingLocked sys d w =
     (case W_file w of
        None \<Rightarrow> (d, w, Some (WrapError ''wal: write checksum'' (PlainError ''invalid argument'')))
      | Some f \<Rightarrow>
     (case handle_write sys d w f (Sum256 (W_hashed w)) of
        (d', _, Some err) \<Rightarrow> (d', w, Some (WrapError ''wal: write checksum'' err))
      | (d', _, None) \<Rightarrow>
     (case os_Sync sys of
        Some err \<Rightarrow> (d', w, Some (WrapError ''wal: sync'' err))
      | None \<Rightarrow>
     (case os_Close sys of
        Some err \<Rightarrow> (d', w \<lparr> W_shut := True \<rparr>, Some (WrapError ''wal: close'' err))
      | None \<Rightarrow> (d', w \<lparr> W_file := None \<rparr>, None)))))"

text \<open>\<open>file.Sync\<close> at the end of a flush in sync mode.\<close>

definition sync_handle :: "os_calls \<Rightarrow> wal_writer \<Rightarrow> go_error option" where
  "sync_handle sys w =
     (if wc_SyncMode (W_cfg w) = SyncModeSync \<and> W_file w \<noteq> None then
        (if W_shut w then Some ErrClosed else os_Sync sys)
      else None)"

text \<open>Whether a batch of \<open>len\<close> bytes goes to a new segment.\<close>

definition needs_rotation :: "wal_writer \<Rightarrow> nat \<Rightarrow> bool" where
  "needs_rotation w len \<longleftrightarrow>
     int (W_fileSize w + len) > wc_MaxFileSize (W_cfg w) \<or>
     int (W_segmentEntries w + length (W_buffer w)) > wc_MaxEntryCount (W_cfg w)"

definition rotate :: "os_calls \<Rightarrow> dir \<Rightarrow> wal_writer \<Rightarrow> dir \<times> wal_writer \<times> go_error option" where
  "rotate sys d w =
     (case finalizeSegmentWithoutFlushingLocked sys d w of
        (d1, w1, Some err) \<Rightarrow> (d1, w1, Some err)
      | (d1, w1, None) \<Rightarrow> openNewSegment sys d1 (w1 \<lparr> W_segmentID := W_segmentID w1 + 1 \<rparr>))"

definition write_batch :: "os_calls \<Rightarrow> dir \<Rightarrow> wal_writer \<Rightarrow> bytes \<Rightarrow> dir \<times> wal_writer \<times> go_error option" where
  "write_batch sys d w buf =
     (case writeLocked sys d w buf of
        (d', w', Some err) \<Rightarrow> (d', w', Some (WrapError ''wal: write batch'' err))
      | (d', w', None) \<Rightarrow>
          (let w2 = w' \<lparr> W_segmentEntries := W_segmentEntries w' + length (W_buffer w'),
                         W_buffer := [], W_bufferBytes := 0 \<rparr>
           in (d', w2, sync_handle sys w2)))"

definition flushLocked :: "os_calls \<Rightarrow> dir \<Rightarrow> wal_writer \<Rightarrow> dir \<times> wal_writer \<times> go_error option" where
  "flushLocked sys d w =
     (if W_buffer w = [] then (d, w, sync_handle sys w)
      else if W_file w = None then (d, w, Some (PlainError ''wal: file not open''))
      else
        (let buf = concat (W_buffer w) in
         if needs_rotation w (length buf) then
           (case rotate sys d w of
              (d1, w1, Some err) \<Rightarrow> (d1, w1, Some err)
            | (d1, w1, None) \<Rightarrow> write_batch sys d1 w1 buf)
         else write_batch sys d w buf))"

definition Writer_Append ::
  "os_calls \<Rightarrow> dir \<Rightarrow> wal_writer \<Rightarrow> wal_entry \<Rightarrow> dir \<times> wal_writer \<times> go_error option" where
  "Writer_Append sys d w entry =
     (if W_closed w then (d, w, Some (PlainError ''wal: writer is closed''))
      else
        (case encodeEntryFrame (wc_Cipher (W_cfg w)) entry of
           Inl err \<Rightarrow> (d, w, Some err)
         | Inr frame \<Rightarrow>
             (let w1 = w \<lparr> W_buffer := W_buffer w @ [frame], W_bufferBytes := W_bufferBytes w + length frame \<rparr>
              in if int (length (W_buffer w1)) \<ge> wc_BatchCount (W_cfg w1) \<or>
                    int (W_bufferBytes w1) \<ge> wc_BatchBytes (W_cfg w1) then flushLocked sys d w1
                 else (d, w1, None))))"

definition Writer_Flush :: "os_calls \<Rightarrow> dir \<Rightarrow> wal_writer \<Rightarrow> dir \<times> wal_writer \<times> go_error option" where
  "Writer_Flush sys d w = flushLocked sys d w"

definition finalizeSegmentLocked :: "os_calls \<Rightarrow> dir \<Rightarrow> wal_writer \<Rightarrow> dir \<times> wal_writer \<times> go_error option" where
  "finalizeSegmentLocked sys d w =
     (case flushLocked sys d w of
        (d1, w1, Some err) \<Rightarrow> (d1, w1, Some err)
      | (d1, w1, None) \<Rightarrow>
          if W_file w1 = None then (d1, w1, None) else finalizeSegmentWithoutFlushingLocked sys d1 w1)"

definition Writer_Close :: "os_calls \<Rightarrow> dir \<Rightarrow> wal_writer \<Rightarrow> dir \<times> wal_writer \<times> go_error option" where
  "Writer_Close sys d w =
     (if W_closed w then (d, w, None)
      else let w1 = w \<lparr> W_closed := True \<rparr> in
           if W_file w1 = None then (d, w1, None) else finalizeSegmentLocked sys d w1)"

definition NewWriter :: "os_calls \<Rightarrow> dir \<Rightarrow> wal_config \<Rightarrow> dir \<times> (go_error + wal_writer)" where
  "NewWriter sys d cfg0 =
     (if wc_Dir cfg0 = '''' then (d, Inl (PlainError ''wal: dir is required''))
      else
     (case os_MkdirAll sys of
        Some err \<Rightarrow> (d, Inl (WrapError ''wal: create dir'' err))
      | None \<Rightarrow>
     (let cfg = applyDefaults cfg0;
          w = \<lparr> W_cfg = cfg, W_segmentID = 0, W_file = None, W_shut = False, W_filePath = '''',
                W_fileSize = 0, W_segmentEntries = 0, W_hashed = [], W_buffer = [], W_bufferBytes = 0,
                W_closed = False, W_headerWritten = False \<rparr>
      in case findLatestSegment sys d of
           Inl err \<Rightarrow> (d, Inl err)
         | Inr (latestID, latestPath, isClosed) \<Rightarrow>
             if latestID = 0 \<or> isClosed then
               (case openNewSegment sys d (w \<lparr> W_segmentID := latestID + 1 \<rparr>) of
                  (d', _, Some err) \<Rightarrow> (d', Inl err)
                | (d', w', None) \<Rightarrow> (d', Inr w'))
             else
               (case openExistingOpenSegment sys d (w \<lparr> W_segmentID := latestID, W_filePath := latestPath \<rparr>) of
                  Inl err \<Rightarrow> (d, Inl err)
                | Inr w' \<Rightarrow> (d, Inr w')))))"

section \<open>Segment names\<close>

lemma while_prefix:
  "list_all P ds \<Longrightarrow> \<not> P c \<Longrightarrow> takeWhile P (ds @ c # r) = ds \<and> dropWhile P (ds @ c # r) = c # r"
  by (induction ds) auto

lemma formatSegmentFilename_parse: "parseSegmentFilename (formatSegmentFilename i) = Some i"
proof -
  let ?ds = "replicate (8 - length (dec_digits (unat i))) (CHR ''0'') @ dec_digits (unat i)"
  have dig: "list_all is_digit ?ds"
    using dec_digits_digits [of "unat i"] by (auto simp: list_all_iff is_digit_def)
  have ne: "?ds \<noteq> ''''" using dec_digits_ne by simp
  have name: "formatSegmentFilename i = FilePrefix @ ?ds @ FileExtension"
    by (simp add: formatSegmentFilename_def Let_def)
  have "\<not> is_blank (hd ?ds)"
    using dig ne by (cases ?ds) (auto simp: is_digit_def is_blank_def Let_def)
  then have blank: "dropWhile is_blank (?ds @ FileExtension) = ?ds @ FileExtension"
    using ne by (cases ?ds) auto
  have nd: "\<not> is_digit (CHR ''.'')" by (simp add: is_digit_def)
  have tw: "takeWhile is_digit (?ds @ FileExtension) = ?ds" "dropWhile is_digit (?ds @ FileExtension) = FileExtension"
    using while_prefix [OF dig nd] by auto
  have v: "dec_val ?ds = unat i" by (simp only: dec_val_zeros dec_digits_val)
  have lt: "unat i < 2 ^ 64" using unsigned_less [of i] by simp
  have pre: "HasPrefix (formatSegmentFilename i) FilePrefix" "HasSuffix (formatSegmentFilename i) FileExtension"
    unfolding name HasPrefix_iff HasSuffix_iff by (blast, metis append.assoc)
  have drop: "drop (length FilePrefix) (formatSegmentFilename i) = ?ds @ FileExtension" unfolding name by simp
  show ?thesis
    unfolding parseSegmentFilename_def drop blank Let_def tw v
    using pre ne lt by (simp add: HasPrefix_def)
qed

lemma formatSegmentFilename_inj [simp]: "formatSegmentFilename i = formatSegmentFilename j \<longleftrightarrow> i = j"
  by (metis formatSegmentFilename_parse option.inject)

lemma MagicBytes_length [simp]: "length MagicBytes = 8"
  by (simp add: MagicBytes_def)

section \<open>What the writer has on disk\<close>

definition seg_data :: "bytes list \<Rightarrow> bytes" where
  "seg_data fs = MagicBytes @ concat fs"

definition seg_sealed :: "bytes list \<Rightarrow> bytes" where
  "seg_sealed fs = seg_data fs @ Sum256 (seg_data fs)"

definition log_dir :: "(u64 \<times> bytes) list \<Rightarrow> string \<Rightarrow> bytes option" where
  "log_dir segs = map_of (map (\<lambda>(i, c). (formatSegmentFilename i, c)) segs)"

lemma verify_sealed: "verifyChecksumTrailer (seg_sealed fs) = Inr (True, length (seg_data fs))"
  by (simp add: verifyChecksumTrailer_def seg_sealed_def seg_data_def Let_def)

lemma log_dir_Nil [simp]: "log_dir [] = Map.empty"
  by (simp add: log_dir_def)

lemma log_dir_dom: "dom (log_dir segs) = formatSegmentFilename ` fst ` set segs"
  by (simp add: log_dir_def dom_map_of_conv_image_fst image_image case_prod_beta)

lemma log_dir_snoc:
  assumes "i \<notin> fst ` set segs"
  shows "log_dir (segs @ [(i, c)]) = (log_dir segs)(formatSegmentFilename i \<mapsto> c)"
proof -
  have "formatSegmentFilename i \<notin> dom (log_dir segs)"
    using assms unfolding log_dir_dom by (metis formatSegmentFilename_inj imageE)
  then have "[formatSegmentFilename i \<mapsto> c] ++ log_dir segs = (log_dir segs)(formatSegmentFilename i \<mapsto> c)"
    by (auto simp: map_add_def fun_eq_iff domIff split: option.splits)
  then show ?thesis by (simp add: log_dir_def)
qed

lemma log_dir_get:
  assumes "distinct (map fst segs)" "(i, c) \<in> set segs"
  shows "log_dir segs (formatSegmentFilename i) = Some c"
proof -
  have "map fst (map (\<lambda>(i, c). (formatSegmentFilename i, c)) segs) = map formatSegmentFilename (map fst segs)"
    by auto
  then have "distinct (map fst (map (\<lambda>(i, c). (formatSegmentFilename i, c)) segs))"
    using assms(1) by (simp add: distinct_map inj_on_def)
  then show ?thesis using assms(2) unfolding log_dir_def by (intro map_of_is_SomeI) force+
qed

text \<open>The state between calls when nothing failed: \<open>old\<close> the finished segments with their
  frames, \<open>cur\<close> the frames of the open one.\<close>

definition log_state :: "dir \<Rightarrow> wal_writer \<Rightarrow> (u64 \<times> bytes list) list \<Rightarrow> bytes list \<Rightarrow> bool" where
  "log_state d w old cur \<longleftrightarrow>
     gm_wf d \<and> gm_get d = log_dir (map (apsnd seg_sealed) old @ [(W_segmentID w, seg_data cur)]) \<and>
     sorted_wrt (<) (map fst old @ [W_segmentID w]) \<and> 0 < W_segmentID w \<and>
     W_file w = Some (formatSegmentFilename (W_segmentID w)) \<and> \<not> W_shut w \<and>
     W_hashed w = seg_data cur \<and> W_fileSize w = length (seg_data cur) \<and> W_headerWritten w"

definition log_frames :: "(u64 \<times> bytes list) list \<Rightarrow> bytes list" where
  "log_frames segs = concat (map snd segs)"

lemma sorted_wrt_less_distinct: "sorted_wrt (<) (map fst segs @ [i]) \<Longrightarrow> i \<notin> fst ` set (map (apsnd f) segs)"
  for i :: "'a :: order"
  by (auto simp: sorted_wrt_append)

lemma log_state_get:
  assumes "log_state d w old cur"
  shows "gm_get d (formatSegmentFilename (W_segmentID w)) = Some (seg_data cur)"
    and "gm_get d = (log_dir (map (apsnd seg_sealed) old))(formatSegmentFilename (W_segmentID w) \<mapsto> seg_data cur)"
proof -
  have "W_segmentID w \<notin> fst ` set (map (apsnd seg_sealed) old)"
    using assms sorted_wrt_less_distinct [of old "W_segmentID w"] by (simp add: log_state_def)
  then show "gm_get d = (log_dir (map (apsnd seg_sealed) old))(formatSegmentFilename (W_segmentID w) \<mapsto> seg_data cur)"
    using assms by (simp add: log_state_def log_dir_snoc)
  then show "gm_get d (formatSegmentFilename (W_segmentID w)) = Some (seg_data cur)" by simp
qed

lemma openNewSegment_ok:
  assumes "gm_wf d" "gm_get d = log_dir (map (apsnd seg_sealed) old)" "sorted_wrt (<) (map fst old @ [W_segmentID w])"
    "0 < W_segmentID w"
  obtains d' w' where "openNewSegment os_ok d w = (d', w', None)" "log_state d' w' old []"
    "W_segmentID w' = W_segmentID w" "W_buffer w' = W_buffer w" "W_cfg w' = W_cfg w" "W_closed w' = W_closed w"
    "W_bufferBytes w' = W_bufferBytes w"
proof -
  let ?f = "formatSegmentFilename (W_segmentID w)"
  let ?d = "file_append (gm_set ?f [] d) ?f MagicBytes"
  let ?w = "w \<lparr> W_file := Some ?f, W_shut := False, W_filePath := ?f, W_fileSize := 8,
                 W_segmentEntries := 0, W_hashed := MagicBytes, W_headerWritten := True \<rparr>"
  have new: "W_segmentID w \<notin> fst ` set (map (apsnd seg_sealed) old)"
    by (rule sorted_wrt_less_distinct [OF assms(3)])
  have "openNewSegment os_ok d w = (?d, ?w, None)"
    by (simp add: openNewSegment_def writeHeaderLocked_def writeLocked_def handle_write_def Let_def)
  moreover have "log_state ?d ?w old []"
    using assms log_dir_snoc [OF new, of "seg_data []"]
    by (simp add: log_state_def gm_wf_set gm_get_set seg_data_def fun_upd_upd)
  ultimately show ?thesis by (rule that) simp_all
qed

lemma finalize_ok:
  assumes "log_state d w old cur"
  obtains d' where "finalizeSegmentWithoutFlushingLocked os_ok d w = (d', w \<lparr> W_file := None \<rparr>, None)"
    "gm_wf d'" "gm_get d' = log_dir (map (apsnd seg_sealed) (old @ [(W_segmentID w, cur)]))"
proof -
  let ?f = "formatSegmentFilename (W_segmentID w)"
  let ?d = "file_append d ?f (Sum256 (seg_data cur))"
  note S = assms [unfolded log_state_def] and G = log_state_get [OF assms]
  have new: "W_segmentID w \<notin> fst ` set (map (apsnd seg_sealed) old)"
    using S by (intro sorted_wrt_less_distinct) auto
  have "finalizeSegmentWithoutFlushingLocked os_ok d w = (?d, w \<lparr> W_file := None \<rparr>, None)"
    using S by (simp add: finalizeSegmentWithoutFlushingLocked_def handle_write_def)
  moreover have "gm_get ?d = log_dir (map (apsnd seg_sealed) (old @ [(W_segmentID w, cur)]))"
    using G log_dir_snoc [OF new, of "seg_sealed cur"] by (simp add: seg_sealed_def)
  ultimately show ?thesis using S by (intro that [of ?d]) (simp_all only: gm_wf_file_append)
qed

lemma rotate_ok:
  assumes "log_state d w old cur" "unat (W_segmentID w) + 1 < 2 ^ 64"
  obtains d' w' where "rotate os_ok d w = (d', w', None)" "log_state d' w' (old @ [(W_segmentID w, cur)]) []"
    "W_segmentID w' = W_segmentID w + 1" "W_buffer w' = W_buffer w" "W_cfg w' = W_cfg w" "W_closed w' = W_closed w"
proof -
  have lt: "W_segmentID w < W_segmentID w + 1"
    using assms(2) by (simp add: word_less_nat_alt unat_word_ariths)
  obtain d1 where f: "finalizeSegmentWithoutFlushingLocked os_ok d w = (d1, w \<lparr> W_file := None \<rparr>, None)"
    "gm_wf d1" "gm_get d1 = log_dir (map (apsnd seg_sealed) (old @ [(W_segmentID w, cur)]))"
    by (rule finalize_ok [OF assms(1)])
  let ?w1 = "w \<lparr> W_file := None, W_segmentID := W_segmentID w + 1 \<rparr>"
  have "sorted_wrt (<) (map fst (old @ [(W_segmentID w, cur)]) @ [W_segmentID ?w1])"
    using assms(1) lt by (auto simp: log_state_def sorted_wrt_append intro: less_trans)
  moreover have "0 < W_segmentID ?w1" using assms(1) lt by (auto simp: log_state_def intro: less_trans)
  ultimately obtain d' w' where
    "openNewSegment os_ok d1 ?w1 = (d', w', None)" "log_state d' w' (old @ [(W_segmentID w, cur)]) []"
    "W_segmentID w' = W_segmentID ?w1" "W_buffer w' = W_buffer ?w1" "W_cfg w' = W_cfg ?w1" "W_closed w' = W_closed ?w1"
    using openNewSegment_ok [OF f(2,3)] by metis
  then show ?thesis using f(1) by (intro that [of d' w']) (auto simp: rotate_def)
qed

lemma sync_handle_ok [simp]: "\<not> W_shut w \<Longrightarrow> sync_handle os_ok w = None"
  by (simp add: sync_handle_def)

lemma write_batch_ok:
  assumes "log_state d w old cur"
  obtains d' w' where "write_batch os_ok d w (concat (W_buffer w)) = (d', w', None)"
    "log_state d' w' old (cur @ W_buffer w)" "W_buffer w' = []" "W_segmentID w' = W_segmentID w"
    "W_cfg w' = W_cfg w" "W_closed w' = W_closed w"
proof -
  let ?p = "concat (W_buffer w)"
  let ?f = "formatSegmentFilename (W_segmentID w)"
  note S = assms [unfolded log_state_def] and G = log_state_get [OF assms]
  let ?w = "w \<lparr> W_hashed := W_hashed w @ ?p, W_fileSize := W_fileSize w + length ?p,
    W_segmentEntries := W_segmentEntries w + length (W_buffer w), W_buffer := [], W_bufferBytes := 0 \<rparr>"
  have new: "W_segmentID w \<notin> fst ` set (map (apsnd seg_sealed) old)"
    using S by (intro sorted_wrt_less_distinct) auto
  have app: "seg_data (cur @ W_buffer w) = seg_data cur @ ?p" by (simp add: seg_data_def)
  have "write_batch os_ok d w ?p = (file_append d ?f ?p, ?w, None)"
    using S by (auto simp: write_batch_def writeLocked_def handle_write_def Let_def)
  moreover have "gm_get (file_append d ?f ?p) = log_dir (map (apsnd seg_sealed) old @ [(W_segmentID w, seg_data cur @ ?p)])"
    unfolding gm_get_file_append G(1) log_dir_snoc [OF new] unfolding G(2) by simp
  then have "log_state (file_append d ?f ?p) ?w old (cur @ W_buffer w)"
    unfolding log_state_def app using S by (simp del: gm_get_file_append)
  ultimately show ?thesis by (rule that) simp_all
qed

text \<open>A flush keeps the frames of the log and empties the buffer.\<close>

lemma flush_ok:
  assumes "log_state d w old cur" "unat (W_segmentID w) + 1 < 2 ^ 64"
  obtains d' w' old' cur' where "flushLocked os_ok d w = (d', w', None)" "log_state d' w' old' cur'"
    "log_frames old' @ cur' = log_frames old @ cur @ W_buffer w" "W_buffer w' = []"
    "unat (W_segmentID w') \<le> unat (W_segmentID w) + 1" "W_cfg w' = W_cfg w" "W_closed w' = W_closed w"
proof (cases "W_buffer w = []")
  case True
  then show ?thesis
    using assms(1) by (intro that [of d w old cur]) (auto simp: flushLocked_def log_state_def)
next
  case False
  have fl: "W_file w \<noteq> None" using assms(1) by (simp add: log_state_def)
  show ?thesis
  proof (cases "needs_rotation w (length (concat (W_buffer w)))")
    case True
    obtain d1 w1 where r: "rotate os_ok d w = (d1, w1, None)" "log_state d1 w1 (old @ [(W_segmentID w, cur)]) []"
      "W_segmentID w1 = W_segmentID w + 1" "W_buffer w1 = W_buffer w" "W_cfg w1 = W_cfg w" "W_closed w1 = W_closed w"
      by (rule rotate_ok [OF assms])
    obtain d2 w2 where b: "write_batch os_ok d1 w1 (concat (W_buffer w1)) = (d2, w2, None)"
      "log_state d2 w2 (old @ [(W_segmentID w, cur)]) ([] @ W_buffer w1)" "W_buffer w2 = []"
      "W_segmentID w2 = W_segmentID w1" "W_cfg w2 = W_cfg w1" "W_closed w2 = W_closed w1"
      by (rule write_batch_ok [OF r(2)])
    have "unat (W_segmentID w + 1) \<le> unat (W_segmentID w) + 1" using assms(2) by (simp add: unat_word_ariths)
    then show ?thesis
      using False fl True r b
      by (intro that [of d2 w2 "old @ [(W_segmentID w, cur)]" "W_buffer w"])
        (auto simp: flushLocked_def Let_def log_frames_def)
  next
    case no: False
    obtain d2 w2 where "write_batch os_ok d w (concat (W_buffer w)) = (d2, w2, None)"
      "log_state d2 w2 old (cur @ W_buffer w)" "W_buffer w2 = []"
      "W_segmentID w2 = W_segmentID w" "W_cfg w2 = W_cfg w" "W_closed w2 = W_closed w"
      by (rule write_batch_ok [OF assms(1)])
    then show ?thesis
      using False fl no by (intro that [of d2 w2 old "cur @ W_buffer w"]) (auto simp: flushLocked_def Let_def)
  qed
qed

section \<open>Listing the segments\<close>

lemma map_filter_parsed:
  assumes "\<And>n. n \<in> set ns \<Longrightarrow> \<exists>i. n = formatSegmentFilename i"
  shows "\<exists>ids. ns = map formatSegmentFilename ids \<and>
    List.map_filter (\<lambda>name. map_option (\<lambda>i. (i, name)) (parseSegmentFilename name)) ns =
      map (\<lambda>i. (i, formatSegmentFilename i)) ids"
  using assms
proof (induction ns)
  case Nil
  show ?case by (rule exI [of _ "[]"]) (simp add: List.map_filter_simps)
next
  case (Cons n ns)
  obtain i where "n = formatSegmentFilename i" using Cons.prems [of n] by auto
  moreover obtain ids where "ns = map formatSegmentFilename ids"
    "List.map_filter (\<lambda>name. map_option (\<lambda>i. (i, name)) (parseSegmentFilename name)) ns =
      map (\<lambda>i. (i, formatSegmentFilename i)) ids"
    using Cons.IH Cons.prems by auto
  ultimately show ?case
    by (intro exI [of _ "i # ids"]) (simp add: List.map_filter_simps formatSegmentFilename_parse)
qed

text \<open>Both scans list the segments of a log by increasing identifier.\<close>

lemma list_segments_log:
  assumes "gm_wf d" "gm_get d = log_dir segs" "sorted_wrt (<) (map fst segs)"
  shows "list_segments d = map (\<lambda>(i, c). (i, formatSegmentFilename i)) segs"
proof -
  have dom: "fst ` set d = formatSegmentFilename ` fst ` set segs"
    using gm_dom [of d] assms(2) log_dir_dom [of segs] by simp
  obtain ids where ids: "dir_names d = map formatSegmentFilename ids"
    "List.map_filter (\<lambda>name. map_option (\<lambda>i. (i, name)) (parseSegmentFilename name)) (dir_names d) =
      map (\<lambda>i. (i, formatSegmentFilename i)) ids"
  proof -
    have "\<exists>i. n = formatSegmentFilename i" if "n \<in> set (dir_names d)" for n
      using that dom by auto
    from map_filter_parsed [OF this] show ?thesis using that by blast
  qed
  have set: "set ids = fst ` set segs"
  proof -
    have "formatSegmentFilename ` set ids = formatSegmentFilename ` fst ` set segs"
      using dom dir_names_set [of d] by (simp add: ids(1))
    then show ?thesis by (subst (asm) inj_image_eq_iff) (auto intro: injI)
  qed
  have "distinct ids" using dir_names_distinct [OF assms(1)] by (simp add: ids(1) distinct_map)
  moreover have "sorted (map fst segs)" "distinct (map fst segs)"
    using assms(3) by (simp_all add: strict_sorted_iff)
  ultimately have srt: "sort ids = map fst segs"
    using set by (intro sorted_distinct_set_unique) auto
  have "insort_key fst (x, formatSegmentFilename x) (map (\<lambda>i. (i, formatSegmentFilename i)) xs) =
      map (\<lambda>i. (i, formatSegmentFilename i)) (insort x xs)" for x xs
    by (induction xs) auto
  then have "sort_key fst (map (\<lambda>i. (i, formatSegmentFilename i)) ids) = map (\<lambda>i. (i, formatSegmentFilename i)) (sort ids)"
    for ids by (induction ids) simp_all
  then show ?thesis unfolding list_segments_def ids(2) using srt by (simp add: case_prod_beta o_def)
qed

section \<open>A run of the writer\<close>

text \<open>The log of a writer: the frames on disk and in the buffer.\<close>

definition log_holds :: "dir \<Rightarrow> wal_writer \<Rightarrow> bytes list \<Rightarrow> bool" where
  "log_holds d w fs \<longleftrightarrow> (\<exists>old cur. log_state d w old cur \<and> fs = log_frames old @ cur @ W_buffer w)"

text \<open>A directory of finished segments only, and the frames it holds.\<close>

definition log_closed :: "dir \<Rightarrow> (u64 \<times> bytes list) list \<Rightarrow> bool" where
  "log_closed d segs \<longleftrightarrow>
     gm_wf d \<and> gm_get d = log_dir (map (apsnd seg_sealed) segs) \<and> sorted_wrt (<) (map fst segs)"

fun append_all ::
  "os_calls \<Rightarrow> dir \<Rightarrow> wal_writer \<Rightarrow> wal_entry list \<Rightarrow> dir \<times> wal_writer \<times> go_error option" where
  "append_all sys d w [] = (d, w, None)"
| "append_all sys d w (e # es) =
     (case Writer_Append sys d w e of
        (d', w', Some err) \<Rightarrow> (d', w', Some err)
      | (d', w', None) \<Rightarrow> append_all sys d' w' es)"

lemma log_holds_flush:
  assumes "log_holds d w fs" "unat (W_segmentID w) + 1 < 2 ^ 64"
  obtains d' w' where "flushLocked os_ok d w = (d', w', None)" "log_holds d' w' fs" "W_buffer w' = []"
    "unat (W_segmentID w') \<le> unat (W_segmentID w) + 1" "W_cfg w' = W_cfg w" "W_closed w' = W_closed w"
proof -
  obtain old cur where s: "log_state d w old cur" "fs = log_frames old @ cur @ W_buffer w"
    using assms(1) by (auto simp: log_holds_def)
  obtain d' w' old' cur' where f: "flushLocked os_ok d w = (d', w', None)" "log_state d' w' old' cur'"
    "log_frames old' @ cur' = log_frames old @ cur @ W_buffer w" "W_buffer w' = []"
    "unat (W_segmentID w') \<le> unat (W_segmentID w) + 1" "W_cfg w' = W_cfg w" "W_closed w' = W_closed w"
    by (rule flush_ok [OF s(1) assms(2)])
  have "log_holds d' w' fs" using f(2,3,4) s(2) unfolding log_holds_def by (metis append_Nil2)
  then show ?thesis using f by (intro that [of d' w']) auto
qed

lemma Writer_Append_ok:
  assumes "log_holds d w fs" "\<not> W_closed w" "unat (W_segmentID w) + 1 < 2 ^ 64"
    and "encodeEntryFrame (wc_Cipher (W_cfg w)) e = Inr f"
  obtains d' w' where "Writer_Append os_ok d w e = (d', w', None)" "log_holds d' w' (fs @ [f])" "\<not> W_closed w'"
    "unat (W_segmentID w') \<le> unat (W_segmentID w) + 1" "W_cfg w' = W_cfg w"
proof -
  let ?w = "w \<lparr> W_buffer := W_buffer w @ [f], W_bufferBytes := W_bufferBytes w + length f \<rparr>"
  have h: "log_holds d ?w (fs @ [f])"
    using assms(1) by (auto simp: log_holds_def log_state_def)
  show ?thesis
  proof (cases "int (length (W_buffer ?w)) \<ge> wc_BatchCount (W_cfg ?w) \<or> int (W_bufferBytes ?w) \<ge> wc_BatchBytes (W_cfg ?w)")
    case True
    obtain d' w' where "flushLocked os_ok d ?w = (d', w', None)" "log_holds d' w' (fs @ [f])" "W_buffer w' = []"
      "unat (W_segmentID w') \<le> unat (W_segmentID ?w) + 1" "W_cfg w' = W_cfg ?w" "W_closed w' = W_closed ?w"
      by (rule log_holds_flush [OF h]) (use assms(3) in simp)
    then show ?thesis using True assms(2,4) by (intro that [of d' w']) (auto simp: Writer_Append_def Let_def)
  next
    case False
    then show ?thesis using h assms(2,4) by (intro that [of d ?w]) (auto simp: Writer_Append_def Let_def)
  qed
qed

lemma append_all_ok:
  assumes "log_holds d w fs" "\<not> W_closed w" "unat (W_segmentID w) + length es < 2 ^ 64"
    and "map (encodeEntryFrame (wc_Cipher (W_cfg w))) es = map Inr fs'"
  obtains d' w' where "append_all os_ok d w es = (d', w', None)" "log_holds d' w' (fs @ fs')" "\<not> W_closed w'"
    "unat (W_segmentID w') \<le> unat (W_segmentID w) + length es" "W_cfg w' = W_cfg w"
  using assms
proof (induction es arbitrary: d w fs fs' thesis)
  case Nil
  then show ?case by (intro Nil.prems(1) [of d w]) auto
next
  case (Cons e es)
  obtain f fs2 where fs': "fs' = f # fs2" "encodeEntryFrame (wc_Cipher (W_cfg w)) e = Inr f"
    "map (encodeEntryFrame (wc_Cipher (W_cfg w))) es = map Inr fs2"
    using Cons.prems(5) by (cases fs') auto
  obtain d1 w1 where a: "Writer_Append os_ok d w e = (d1, w1, None)" "log_holds d1 w1 (fs @ [f])" "\<not> W_closed w1"
    "unat (W_segmentID w1) \<le> unat (W_segmentID w) + 1" "W_cfg w1 = W_cfg w"
    by (rule Writer_Append_ok [OF Cons.prems(2,3) _ fs'(2)]) (use Cons.prems(4) in auto)
  obtain d2 w2 where b: "append_all os_ok d1 w1 es = (d2, w2, None)" "log_holds d2 w2 ((fs @ [f]) @ fs2)"
    "\<not> W_closed w2" "unat (W_segmentID w2) \<le> unat (W_segmentID w1) + length es" "W_cfg w2 = W_cfg w1"
    by (rule Cons.IH [OF _ a(2,3)]) (use Cons.prems(4) a(4,5) fs'(3) in auto)
  show ?case by (rule Cons.prems(1) [of d2 w2]) (use a b fs'(1) in auto)
qed

text \<open>Closing flushes the buffer and seals the last segment: the whole log is on disk.\<close>

lemma Writer_Close_ok:
  assumes "log_holds d w fs" "\<not> W_closed w" "unat (W_segmentID w) + 1 < 2 ^ 64"
  obtains d' w' segs where "Writer_Close os_ok d w = (d', w', None)" "log_closed d' segs" "log_frames segs = fs"
    "W_closed w'" "W_file w' = None" "segs \<noteq> []" "unat (fst (last segs)) \<le> unat (W_segmentID w) + 1"
    "0 < fst (last segs)"
proof -
  let ?w = "w \<lparr> W_closed := True \<rparr>"
  have h: "log_holds d ?w fs" using assms(1) by (auto simp: log_holds_def log_state_def)
  have fl: "W_file ?w \<noteq> None" using assms(1) by (auto simp: log_holds_def log_state_def)
  obtain d1 w1 where f: "flushLocked os_ok d ?w = (d1, w1, None)" "log_holds d1 w1 fs" "W_buffer w1 = []"
    "W_closed w1 = W_closed ?w" "unat (W_segmentID w1) \<le> unat (W_segmentID ?w) + 1"
    by (rule log_holds_flush [OF h]) (use assms(3) in auto)
  obtain old cur where s: "log_state d1 w1 old cur" "fs = log_frames old @ cur"
    using f(2,3) by (auto simp: log_holds_def)
  obtain d2 where z: "finalizeSegmentWithoutFlushingLocked os_ok d1 w1 = (d2, w1 \<lparr> W_file := None \<rparr>, None)"
    "gm_wf d2" "gm_get d2 = log_dir (map (apsnd seg_sealed) (old @ [(W_segmentID w1, cur)]))"
    by (rule finalize_ok [OF s(1)])
  have "W_file w1 \<noteq> None" "log_closed d2 (old @ [(W_segmentID w1, cur)])" "0 < W_segmentID w1"
    using s(1) z(2,3) by (auto simp: log_closed_def log_state_def)
  then show ?thesis
    using assms(2) fl f z s(2)
    by (intro that [of d2 "w1 \<lparr> W_file := None \<rparr>" "old @ [(W_segmentID w1, cur)]"])
      (auto simp: Writer_Close_def finalizeSegmentLocked_def Let_def log_frames_def)
qed

text \<open>A writer opened on a log that was closed continues after it, in a new segment.\<close>

lemma NewWriter_closed_log:
  assumes "log_closed d segs" "wc_Dir cfg \<noteq> ''''"
    and "segs \<noteq> [] \<Longrightarrow> 0 < fst (last segs) \<and> unat (fst (last segs)) + 1 < 2 ^ 64"
  obtains d' w where "NewWriter os_ok d cfg = (d', Inr w)" "log_state d' w segs []" "\<not> W_closed w"
    "W_cfg w = applyDefaults cfg" "W_buffer w = []"
    "unat (W_segmentID w) = (if segs = [] then 1 else unat (fst (last segs)) + 1)"
proof -
  note C = assms(1) [unfolded log_closed_def]
  define latest where "latest = (if segs = [] then 0 else fst (last segs))"
  have srt: "sorted_wrt (<) (map fst (map (apsnd seg_sealed) segs))" using C by (simp add: o_def)
  have ls: "list_segments d = map (\<lambda>(i, c). (i, formatSegmentFilename i)) (map (apsnd seg_sealed) segs)"
    by (rule list_segments_log) (use C srt in auto)
  have find: "findLatestSegment os_ok d = Inr (latest, if segs = [] then '''' else formatSegmentFilename latest, segs \<noteq> [])"
  proof (cases "segs = []")
    case True
    then show ?thesis by (simp add: findLatestSegment_def ls latest_def)
  next
    case False
    have "distinct (map fst segs)" using C by (simp add: strict_sorted_iff)
    then have "log_dir (map (apsnd seg_sealed) segs) (formatSegmentFilename (fst (last segs))) =
        Some (seg_sealed (snd (last segs)))"
      using False by (intro log_dir_get) (auto simp: o_def image_iff intro!: bexI [of _ "last segs"] prod_eqI)
    then show ?thesis
      using C False
      by (simp add: findLatestSegment_def ls latest_def last_map case_prod_beta verify_sealed Let_def)
  qed
  have lt: "x < latest + 1" if "x \<in> fst ` set segs" for x
  proof -
    have ne: "segs \<noteq> []" using that by auto
    have "x \<le> latest"
      using that C ne unfolding latest_def
      by (cases segs rule: rev_cases) (auto simp: sorted_wrt_append)
    moreover have "latest < latest + 1"
      using assms(3) ne by (simp add: latest_def word_less_nat_alt unat_word_ariths)
    ultimately show ?thesis by simp
  qed
  let ?w = "\<lparr> W_cfg = applyDefaults cfg, W_segmentID = latest + 1, W_file = None, W_shut = False, W_filePath = '''',
    W_fileSize = 0, W_segmentEntries = 0, W_hashed = [], W_buffer = [], W_bufferBytes = 0,
    W_closed = False, W_headerWritten = False \<rparr>"
  have sw: "sorted_wrt (<) (map fst segs @ [W_segmentID ?w])" using C lt by (auto simp: sorted_wrt_append)
  have pos: "0 < latest + 1"
    using assms(3) by (auto simp: latest_def word_less_nat_alt unat_word_ariths)
  obtain d' w' where o: "openNewSegment os_ok d ?w = (d', w', None)" "log_state d' w' segs []"
    "W_segmentID w' = latest + 1" "W_buffer w' = []" "W_cfg w' = applyDefaults cfg" "\<not> W_closed w'"
    by (rule openNewSegment_ok [OF _ _ sw]) (use C pos in auto)
  have "NewWriter os_ok d cfg = (d', Inr w')"
    using assms(2) find o(1) by (auto simp: NewWriter_def Let_def latest_def)
  moreover have "unat (latest + 1) = (if segs = [] then 1 else unat (fst (last segs)) + 1)"
    using assms(3) by (auto simp: latest_def unat_word_ariths)
  ultimately show ?thesis using o by (intro that [of d' w']) auto
qed

end
