(* ===== verification/Wal_Reader.thy ===== *)
theory Wal_Reader
  imports Wal_Writer
begin

text \<open>
  The reader of the log, \<open>internal/storage/wal/reader.go\<close>. The reader of an open segment is the
  bytes that are left of its section; a call takes the directory as it is when it opens a file.
  \<open>Read\<close> and \<open>ReadAll\<close> loop over entries and segments: both are total functions here, with
  the termination proofs that the loops of the code end. The last part shows that what a writer
  logged is what a reader returns, and what a reader that was positioned by \<open>Seek\<close> does instead.
\<close>

section \<open>Definitions\<close>

definition ErrCorrupted :: go_error where "ErrCorrupted = PlainError ''wal: corrupted segment''"
definition errChecksumInvalid :: go_error where "errChecksumInvalid = PlainError ''wal: checksum mismatch''"

record wal_reader =
  R_cipher :: "cipher option"
  R_segments :: "(u64 \<times> string) list"
  R_segIndex :: nat
  R_file :: "string option"
  R_dataLen :: nat
  R_startAt :: nat
  R_reader :: "bytes option"
  R_headerOK :: bool

definition scanSegments :: "os_calls \<Rightarrow> dir \<Rightarrow> go_error + (u64 \<times> string) list" where
  "scanSegments sys d =
     (case os_ReadDir sys of
        Some err \<Rightarrow> if err = ErrNotExist then Inr [] else Inl err
      | None \<Rightarrow> Inr (list_segments d))"

definition NewReader :: "os_calls \<Rightarrow> dir \<Rightarrow> cipher option \<Rightarrow> go_error + wal_reader" where
  "NewReader sys d ci =
     (case scanSegments sys d of
        Inl err \<Rightarrow> Inl err
      | Inr segs \<Rightarrow>
          Inr \<lparr> R_cipher = ci, R_segments = segs, R_segIndex = 0, R_file = None, R_dataLen = 0,
                R_startAt = 0, R_reader = None, R_headerOK = False \<rparr>)"

definition closeCurrent :: "wal_reader \<Rightarrow> wal_reader" where
  "closeCurrent r = r \<lparr> R_reader := None, R_headerOK := False, R_file := None \<rparr>"

definition Reader_Seek :: "wal_reader \<Rightarrow> u64 \<Rightarrow> wal_reader" where
  "Reader_Seek r offset =
     (let segID = drop_bit 32 offset;
          segOff = unat (ucast offset :: u32);
          i = length (takeWhile (\<lambda>(j, _). \<not> j \<ge> segID) (R_segments r))
      in (closeCurrent r) \<lparr> R_segIndex := i, R_startAt := segOff, R_headerOK := False \<rparr>)"

definition openNextSegment :: "os_calls \<Rightarrow> dir \<Rightarrow> wal_reader \<Rightarrow> wal_reader \<times> go_error option" where
  "openNextSegment sys d r0 =
     (let r = closeCurrent r0 in
      if R_segIndex r \<ge> length (R_segments r) then (r, Some io_EOF)
      else
        let name = snd (R_segments r ! R_segIndex r); r1 = r \<lparr> R_segIndex := R_segIndex r + 1 \<rparr> in
        case os_Open sys name of
          Some err \<Rightarrow> (r1, Some err)
        | None \<Rightarrow>
       (case os_Stat sys name of
          Some err \<Rightarrow> (r1, Some err)
        | None \<Rightarrow>
       (case gm_get d name of
          None \<Rightarrow> (r1, Some ErrNotExist)
        | Some c \<Rightarrow>
       (case verifyChecksumTrailer c of
          Inl err \<Rightarrow> (r1, Some err)
        | Inr (closed, dataLen) \<Rightarrow>
            if closed \<and> dataLen < MagicBytesSize then (r1, Some ErrCorrupted)
            else
              let limit = (if closed then dataLen else length c) in
              (r1 \<lparr> R_dataLen := limit, R_file := Some name,
                    R_reader := Some (drop (R_startAt r1) (take limit c)),
                    R_headerOK := False, R_startAt := 0 \<rparr>, None)))))"

definition readAndValidateHeader :: "wal_reader \<Rightarrow> wal_reader \<times> go_error option" where
  "readAndValidateHeader r =
     (case io_ReadFull MagicBytesSize (the (R_reader r)) of
        (Inl err, b) \<Rightarrow> (r \<lparr> R_reader := Some b \<rparr>, Some err)
      | (Inr magic, b) \<Rightarrow>
          if magic \<noteq> MagicBytes then (r \<lparr> R_reader := Some b \<rparr>, Some errInvalidMagic)
          else (r \<lparr> R_reader := Some b, R_headerOK := True \<rparr>, None))"

definition readOneEntry :: "cipher option \<Rightarrow> bytes \<Rightarrow> (go_error + wal_entry) \<times> bytes" where
  "readOneEntry ci b =
     (case io_ReadFull 4 b of
        (Inl err, b1) \<Rightarrow> (Inl err, b1)
      | (Inr lenBuf, b1) \<Rightarrow>
          (let len = Uint32 lenBuf in
           if len < 5 then (Inl ErrCorruptedEntry, b1)
           else (case io_ReadFull (unat len) b1 of
                   (Inl err, b2) \<Rightarrow> (Inl err, b2)
                 | (Inr frame, b2) \<Rightarrow> (decodeEntryFrame ci frame, b2))))"

text \<open>The part of a turn after a segment is open.\<close>

definition read_open :: "wal_reader \<Rightarrow> (go_error + wal_entry) option \<times> wal_reader" where
  "read_open r1 =
     (case (if \<not> R_headerOK r1 \<and> R_startAt r1 = 0 then readAndValidateHeader r1
            else (r1 \<lparr> R_headerOK := True \<rparr>, None)) of
        (r2, Some err) \<Rightarrow>
          if errors_Is err ErrCorrupted \<or> errors_Is err errChecksumInvalid then (None, closeCurrent r2)
          else (Some (Inl err), r2)
      | (r2, None) \<Rightarrow>
     (case readOneEntry (R_cipher r2) (the (R_reader r2)) of
        (Inr e, b) \<Rightarrow> (Some (Inr e), r2 \<lparr> R_reader := Some b \<rparr>)
      | (Inl err, b) \<Rightarrow>
          if errors_Is err io_EOF \<or> errors_Is err io_ErrUnexpectedEOF \<or> errors_Is err ErrCorruptedEntry \<or>
             errors_Is err ErrChecksumMismatch \<or> errors_Is err ErrInvalidEntryType
          then (None, closeCurrent (r2 \<lparr> R_reader := Some b \<rparr>))
          else (Some (Inl err), r2 \<lparr> R_reader := Some b \<rparr>)))"

text \<open>One turn of the loop of \<open>Read\<close>: the value it returns, or \<open>None\<close> for \<open>continue\<close>.\<close>

definition read_step ::
  "os_calls \<Rightarrow> dir \<Rightarrow> wal_reader \<Rightarrow> (go_error + wal_entry) option \<times> wal_reader" where
  "read_step sys d r =
     (if R_reader r = None then
        (case openNextSegment sys d r of
           (r1, Some err) \<Rightarrow> (Some (Inl err), r1)
         | (r1, None) \<Rightarrow> read_open r1)
      else read_open r)"

text \<open>Segments that are still to be opened, then bytes left in the open one.\<close>

definition reader_rel :: "(wal_reader \<times> wal_reader) set" where
  "reader_rel = measures [\<lambda>r. length (R_segments r) - R_segIndex r,
     \<lambda>r. case R_reader r of None \<Rightarrow> 0 | Some b \<Rightarrow> length b + 1]"

lemma reader_relI:
  "R_segments r' = R_segments r \<Longrightarrow> R_segIndex r < R_segIndex r' \<Longrightarrow> R_segIndex r < length (R_segments r) \<Longrightarrow>
     (r', r) \<in> reader_rel"
  "R_segments r' = R_segments r \<Longrightarrow> R_segIndex r' = R_segIndex r \<Longrightarrow> R_reader r = Some b \<Longrightarrow>
     R_reader r' = None \<or> (\<exists>b'. R_reader r' = Some b' \<and> length b' < length b) \<Longrightarrow> (r', r) \<in> reader_rel"
  by (auto simp: reader_rel_def)

lemma openNextSegment_moves:
  assumes "openNextSegment sys d r = (r', e)"
  shows "R_segments r' = R_segments r" "R_cipher r' = R_cipher r"
    and "e \<noteq> Some io_EOF \<Longrightarrow> R_segIndex r' = R_segIndex r + 1 \<and> R_segIndex r < length (R_segments r)"
    and "e = None \<Longrightarrow> R_reader r' \<noteq> None" "e \<noteq> None \<Longrightarrow> R_reader r' = None"
  using assms
  by (auto simp: openNextSegment_def closeCurrent_def Let_def split: if_splits option.splits sum.splits prod.splits)

lemma readAndValidateHeader_moves:
  assumes "readAndValidateHeader r = (r', e)" "R_reader r = Some b"
  obtains b' where "R_reader r' = Some b'" "R_segments r' = R_segments r" "R_segIndex r' = R_segIndex r"
    "R_cipher r' = R_cipher r" "length b' \<le> length b" "e \<noteq> None \<Longrightarrow> e \<noteq> Some io_EOF \<Longrightarrow> length b' < length b"
proof -
  obtain q b' where q: "io_ReadFull 8 b = (q, b')" by fastforce
  have "length b' < length b" if "q = Inl err" "err \<noteq> io_EOF" for err
    using io_ReadFull_left(3) [of 8 b err b'] q that by auto
  moreover have "length b' < length b" if "q = Inr x" for x
    using io_ReadFull_left(2) [of 8 b x b'] q that by simp
  ultimately show ?thesis
    using assms q io_ReadFull_left(1) [OF q]
    by (intro that [of b']) (auto simp: readAndValidateHeader_def split: sum.splits if_splits)
qed

lemma readOneEntry_left:
  assumes "readOneEntry ci b = (q, b')"
  shows "length b' \<le> length b" and "q \<noteq> Inl io_EOF \<Longrightarrow> q \<noteq> Inl io_ErrUnexpectedEOF \<Longrightarrow> length b' < length b"
proof -
  obtain p b1 where p: "io_ReadFull 4 b = (p, b1)" by fastforce
  have "length b' \<le> length b \<and> (q \<noteq> Inl io_EOF \<longrightarrow> q \<noteq> Inl io_ErrUnexpectedEOF \<longrightarrow> length b' < length b)"
  proof (cases p)
    case (Inl e)
    then show ?thesis
      using assms p io_ReadFull_left(1) [OF p] io_ReadFull_left(3) [of 4 b e b1]
      by (auto simp: readOneEntry_def)
  next
    case (Inr x)
    then have "length b = 4 + length b1" using p io_ReadFull_left(2) by blast
    moreover have "length b' \<le> length b1"
      using assms p Inr io_ReadFull_left(1) [of "unat (Uint32 x)" b1]
      by (auto simp: readOneEntry_def Let_def split: if_splits prod.splits sum.splits)
    ultimately show ?thesis by simp
  qed
  then show "length b' \<le> length b"
    and "q \<noteq> Inl io_EOF \<Longrightarrow> q \<noteq> Inl io_ErrUnexpectedEOF \<Longrightarrow> length b' < length b" by auto
qed

lemma read_open_moves:
  assumes "read_open r = (q, r')" "R_reader r = Some b"
  shows "R_segments r' = R_segments r \<and> R_segIndex r' = R_segIndex r"
    and "q \<noteq> Some (Inl io_EOF) \<Longrightarrow>
      R_reader r' = None \<or> (\<exists>b'. R_reader r' = Some b' \<and> length b' < length b)"
proof -
  obtain r2 e where h: "(if \<not> R_headerOK r \<and> R_startAt r = 0 then readAndValidateHeader r
            else (r \<lparr> R_headerOK := True \<rparr>, None)) = (r2, e)" by fastforce
  obtain b2 where b2: "R_reader r2 = Some b2" "R_segments r2 = R_segments r" "R_segIndex r2 = R_segIndex r"
    "length b2 \<le> length b" "e \<noteq> None \<Longrightarrow> e \<noteq> Some io_EOF \<Longrightarrow> length b2 < length b"
  proof (cases "\<not> R_headerOK r \<and> R_startAt r = 0")
    case True
    then have "readAndValidateHeader r = (r2, e)" using h by simp
    from readAndValidateHeader_moves [OF this assms(2)] show ?thesis using that by metis
  next
    case False
    then show ?thesis using h assms(2) that [of b] by auto
  qed
  obtain x b3 where x: "readOneEntry (R_cipher r2) b2 = (x, b3)" by fastforce
  have L: "length b3 < length b" if "x \<noteq> Inl io_EOF" "x \<noteq> Inl io_ErrUnexpectedEOF"
    using readOneEntry_left(2) [OF x that] b2(4) by (rule less_le_trans)
  have ne: "a \<noteq> io_EOF" "a \<noteq> io_ErrUnexpectedEOF"
    if "\<not> errors_Is a io_EOF" "\<not> errors_Is a io_ErrUnexpectedEOF" for a
    using that by auto
  have "(R_segments r' = R_segments r \<and> R_segIndex r' = R_segIndex r) \<and>
      (q \<noteq> Some (Inl io_EOF) \<longrightarrow> R_reader r' = None \<or> (\<exists>b'. R_reader r' = Some b' \<and> length b' < length b))"
  proof (cases e)
    case (Some err)
    then show ?thesis
      using assms(1) h b2 by (auto simp: read_open_def closeCurrent_def split: if_splits)
  next
    case None
    then show ?thesis
      using assms(1) h b2(1-3) x L ne
      by (cases x) (auto simp: read_open_def closeCurrent_def split: if_splits)
  qed
  then show "R_segments r' = R_segments r \<and> R_segIndex r' = R_segIndex r"
    and "q \<noteq> Some (Inl io_EOF) \<Longrightarrow>
      R_reader r' = None \<or> (\<exists>b'. R_reader r' = Some b' \<and> length b' < length b)" by auto
qed

lemma read_step_progress:
  assumes "read_step sys d r = (q, r')" "q \<noteq> Some (Inl io_EOF)"
  shows "(r', r) \<in> reader_rel"
proof (cases "R_reader r")
  case (Some b)
  then have "read_open r = (q, r')" using assms(1) by (simp add: read_step_def)
  from read_open_moves [OF this Some] assms(2) Some show ?thesis by (intro reader_relI(2)) auto
next
  case None
  obtain r1 e where o: "openNextSegment sys d r = (r1, e)" by fastforce
  note M = openNextSegment_moves [OF o]
  show ?thesis
  proof (cases e)
    case (Some err)
    then have "q = Some (Inl err)" "r' = r1" using assms None o by (auto simp: read_step_def)
    then show ?thesis using assms(2) Some M(1,3) by (intro reader_relI(1)) auto
  next
    case noerr: None
    then obtain b where b: "R_reader r1 = Some b" using M(4) by blast
    have "read_open r1 = (q, r')" using assms(1) None o noerr by (simp add: read_step_def)
    from read_open_moves(1) [OF this b] M noerr show ?thesis by (intro reader_relI(1)) auto
  qed
qed

lemma wf_reader_rel: "wf reader_rel"
  by (simp add: reader_rel_def)

function Reader_Read ::
  "os_calls \<Rightarrow> dir \<Rightarrow> wal_reader \<Rightarrow> (go_error + wal_entry) \<times> wal_reader" where
  "Reader_Read sys d r =
     (case read_step sys d r of
        (Some q, r') \<Rightarrow> (q, r')
      | (None, r') \<Rightarrow> Reader_Read sys d r')"
  by pat_completeness auto
termination
proof (relation "inv_image reader_rel (\<lambda>(sys, d, r). r)")
  show "wf (inv_image reader_rel (\<lambda>(sys :: os_calls, d :: dir, r). r))"
    by (rule wf_inv_image [OF wf_reader_rel])
qed (metis (no_types, lifting) case_prod_conv in_inv_image option.distinct(1) read_step_progress)

declare Reader_Read.simps [simp del]

lemma Reader_Read_progress:
  "Reader_Read sys d r = (q, r') \<Longrightarrow> q \<noteq> Inl io_EOF \<Longrightarrow> (r', r) \<in> reader_rel"
proof (induction sys d r rule: Reader_Read.induct)
  case (1 sys d r)
  obtain p r1 where s: "read_step sys d r = (p, r1)" by fastforce
  show ?case
  proof (cases p)
    case (Some x)
    then show ?thesis
      using 1(2,3) s read_step_progress [OF s] by (subst (asm) Reader_Read.simps) auto
  next
    case None
    then have "Reader_Read sys d r1 = (q, r')"
      using 1(2) s by (subst (asm) Reader_Read.simps) simp
    then have "(r', r1) \<in> reader_rel" using 1(1) [OF s [symmetric] None] 1(3) by simp
    moreover have "(r1, r) \<in> reader_rel" using read_step_progress [OF s] None by simp
    ultimately show ?thesis by (auto simp: reader_rel_def)
  qed
qed

function Reader_ReadAll ::
  "os_calls \<Rightarrow> dir \<Rightarrow> wal_reader \<Rightarrow> wal_entry list \<Rightarrow> (go_error + wal_entry list) \<times> wal_reader" where
  "Reader_ReadAll sys d r out =
     (case Reader_Read sys d r of
        (Inl err, r') \<Rightarrow> if errors_Is err io_EOF then (Inr out, r') else (Inl err, r')
      | (Inr e, r') \<Rightarrow> Reader_ReadAll sys d r' (out @ [e]))"
  by pat_completeness auto
termination
proof (relation "inv_image reader_rel (\<lambda>(sys, d, r, out). r)")
  show "wf (inv_image reader_rel (\<lambda>(sys :: os_calls, d :: dir, r, out :: wal_entry list). r))"
    by (rule wf_inv_image [OF wf_reader_rel])
qed (metis (no_types, lifting) case_prod_conv in_inv_image sum.distinct(1) Reader_Read_progress)

declare Reader_ReadAll.simps [simp del]

section \<open>Reading what was written\<close>

definition good_frame :: "cipher option \<Rightarrow> bytes \<Rightarrow> wal_entry \<Rightarrow> bool" where
  "good_frame ci f e \<longleftrightarrow>
     decodeEntryFrame ci (drop 4 f) = Inr e \<and> unat (Uint32 (take 4 f)) = length f - 4 \<and> 9 \<le> length f"

definition reader_at :: "wal_reader \<Rightarrow> bytes \<Rightarrow> bool" where
  "reader_at r b \<longleftrightarrow> R_reader r = Some b \<and> R_headerOK r \<and> R_startAt r = 0"

lemma readOneEntry_frame:
  assumes "good_frame ci f e"
  shows "readOneEntry ci (f @ b) = (Inr e, b)"
proof -
  note G = assms [unfolded good_frame_def]
  let ?len = "Uint32 (take 4 f)"
  have "\<not> ?len < 5" using G by (auto simp: word_less_nat_alt)
  moreover have "io_ReadFull 4 (f @ b) = (Inr (take 4 f), drop 4 f @ b)" using G by (simp add: io_ReadFull_def)
  moreover have "io_ReadFull (unat ?len) (drop 4 f @ b) = (Inr (drop 4 f), b)" using G by simp
  ultimately show ?thesis using G by (simp add: readOneEntry_def Let_def)
qed

lemma Read_frame:
  assumes "reader_at r (f @ b)" "good_frame (R_cipher r) f e"
  shows "Reader_Read sys d r = (Inr e, r \<lparr> R_reader := Some b \<rparr>)"
proof -
  have "read_step sys d r = (Some (Inr e), r \<lparr> R_reader := Some b \<rparr>)"
    using assms readOneEntry_frame [OF assms(2), of b]
    by (simp add: read_step_def read_open_def reader_at_def)
  then show ?thesis by (subst Reader_Read.simps) simp
qed

lemma Read_end:
  assumes "reader_at r []"
  shows "Reader_Read sys d r = Reader_Read sys d (closeCurrent r)"
proof -
  have "read_step sys d r = (None, closeCurrent r)"
    using assms by (simp add: read_step_def read_open_def reader_at_def readOneEntry_def closeCurrent_def)
  then show ?thesis by (subst Reader_Read.simps) simp
qed

text \<open>Opening a segment and passing its header: the reader stands at the first frame.\<close>

lemma Read_open:
  assumes "R_reader r = None" "R_startAt r = 0" "R_segIndex r < length (R_segments r)"
    and "gm_get d (snd (R_segments r ! R_segIndex r)) = Some c"
    and "verifyChecksumTrailer c = Inr (closed, n)" "take (if closed then n else length c) c = seg_data fs"
  obtains r' where "Reader_Read os_ok d r = Reader_Read os_ok d r'" "reader_at r' (concat fs)"
    "R_segments r' = R_segments r" "R_segIndex r' = R_segIndex r + 1" "R_cipher r' = R_cipher r"
proof -
  let ?name = "snd (R_segments r ! R_segIndex r)"
  let ?r0 = "(closeCurrent r) \<lparr> R_segIndex := R_segIndex r + 1, R_dataLen := (if closed then n else length c),
    R_file := Some ?name, R_reader := Some (seg_data fs), R_headerOK := False, R_startAt := 0 \<rparr>"
  let ?r1 = "?r0 \<lparr> R_reader := Some (concat fs), R_headerOK := True \<rparr>"
  have big: "\<not> (closed \<and> n < 8)"
  proof
    assume a: "closed \<and> n < 8"
    have "length (take (if closed then n else length c) c) = length (seg_data fs)" by (simp only: assms(6))
    then show False using a by (simp add: seg_data_def min_def split: if_splits)
  qed
  have "openNextSegment os_ok d r = (?r0, None)"
    using assms big by (auto simp: openNextSegment_def closeCurrent_def Let_def)
  then have "read_step os_ok d r = read_open ?r0" using assms(1) by (simp add: read_step_def)
  also have "\<dots> = read_open ?r1"
    by (simp add: read_open_def readAndValidateHeader_def seg_data_def)
  also have "\<dots> = read_step os_ok d ?r1" by (simp add: read_step_def)
  finally have "Reader_Read os_ok d r = Reader_Read os_ok d ?r1"
    by (subst Reader_Read.simps, subst (2) Reader_Read.simps) simp
  moreover have "reader_at ?r1 (concat fs)" by (simp add: reader_at_def)
  moreover have "R_segments ?r1 = R_segments r" "R_segIndex ?r1 = R_segIndex r + 1" "R_cipher ?r1 = R_cipher r"
    by (simp_all add: closeCurrent_def)
  ultimately show ?thesis by (rule that)
qed

lemma Read_past_end:
  assumes "R_reader r = None" "length (R_segments r) \<le> R_segIndex r"
  shows "Reader_Read sys d r = (Inl io_EOF, closeCurrent r)"
  using assms
  by (subst Reader_Read.simps) (simp add: read_step_def openNextSegment_def closeCurrent_def)

text \<open>The entries a reader yields, one after the other, until the end of the log.\<close>

fun yields :: "os_calls \<Rightarrow> dir \<Rightarrow> wal_reader \<Rightarrow> wal_entry list \<Rightarrow> bool" where
  "yields sys d r [] = (\<exists>r'. Reader_Read sys d r = (Inl io_EOF, r'))"
| "yields sys d r (e # es) = (\<exists>r'. Reader_Read sys d r = (Inr e, r') \<and> yields sys d r' es)"

lemma yields_cong: "Reader_Read sys d r = Reader_Read sys d r' \<Longrightarrow> yields sys d r es = yields sys d r' es"
  by (cases es) auto

lemma yields_ReadAll: "yields sys d r es \<Longrightarrow> \<exists>r'. Reader_ReadAll sys d r out = (Inr (out @ es), r')"
proof (induction es arbitrary: r out)
  case Nil
  then show ?case by (subst Reader_ReadAll.simps) auto
next
  case (Cons e es)
  then obtain r1 where r1: "Reader_Read sys d r = (Inr e, r1)" "yields sys d r1 es" by auto
  have "Reader_ReadAll sys d r out = Reader_ReadAll sys d r1 (out @ [e])"
    using r1(1) by (subst Reader_ReadAll.simps) simp
  then show ?case using Cons.IH [OF r1(2), of "out @ [e]"] by simp
qed

lemma yields_frames:
  assumes "reader_at r (concat fs)" "list_all2 (good_frame (R_cipher r)) fs es" "yields sys d (closeCurrent r) es'"
  shows "yields sys d r (es @ es')"
  using assms
proof (induction fs arbitrary: r es)
  case Nil
  then show ?case using yields_cong [OF Read_end] by simp
next
  case (Cons f fs)
  obtain e es2 where es: "es = e # es2" "good_frame (R_cipher r) f e" "list_all2 (good_frame (R_cipher r)) fs es2"
    using Cons.prems(2) by (cases es) auto
  let ?r = "r \<lparr> R_reader := Some (concat fs) \<rparr>"
  have "Reader_Read sys d r = (Inr e, ?r)"
    using Read_frame [OF _ es(2), of "concat fs"] Cons.prems(1) by simp
  moreover have "closeCurrent ?r = closeCurrent r" by (simp add: closeCurrent_def)
  then have "yields sys d ?r (es2 @ es')"
    using Cons.IH [of ?r es2] Cons.prems(1,3) es(3) by (auto simp: reader_at_def)
  ultimately show ?case using es(1) by simp
qed

text \<open>A file that a reader takes for a segment with these frames.\<close>

definition seg_readable :: "bytes \<Rightarrow> bytes list \<Rightarrow> bool" where
  "seg_readable c fs \<longleftrightarrow>
     (\<exists>closed n. verifyChecksumTrailer c = Inr (closed, n) \<and> take (if closed then n else length c) c = seg_data fs)"

lemma seg_readable_sealed: "seg_readable (seg_sealed fs) fs"
  using verify_sealed [of fs] by (auto simp: seg_readable_def seg_sealed_def)

text \<open>An unfinished segment, unless its last 32 bytes happen to be the hash of what is before them.\<close>

lemma seg_readable_open:
  assumes "Sum256 (take (length (seg_data fs) - 32) (seg_data fs)) \<noteq> drop (length (seg_data fs) - 32) (seg_data fs)"
  shows "seg_readable (seg_data fs) fs"
proof -
  have "take 8 (seg_data fs) = MagicBytes" "8 \<le> length (seg_data fs)" by (simp_all add: seg_data_def)
  then have "verifyChecksumTrailer (seg_data fs) = Inr (False, length (seg_data fs))"
    using assms by (simp add: verifyChecksumTrailer_def Let_def)
  then show ?thesis by (auto simp: seg_readable_def)
qed

lemma seg_readable_empty: "seg_readable (seg_data []) []"
  by (auto simp: seg_readable_def verifyChecksumTrailer_def Let_def seg_data_def)

text \<open>From the start of a segment to the end of the log.\<close>

lemma yields_segments:
  assumes "R_reader r = None" "R_startAt r = 0"
    and "drop (R_segIndex r) (R_segments r) = map (\<lambda>(i, fs). (i, formatSegmentFilename i)) segs"
    and "\<And>i fs. (i, fs) \<in> set segs \<Longrightarrow> \<exists>c. gm_get d (formatSegmentFilename i) = Some c \<and> seg_readable c fs"
    and "list_all2 (good_frame (R_cipher r)) (log_frames segs) es"
  shows "yields os_ok d r es"
  using assms
proof (induction segs arbitrary: r es)
  case Nil
  then show ?case by (simp add: Read_past_end log_frames_def)
next
  case (Cons s segs)
  obtain i fs where s: "s = (i, fs)" by fastforce
  have lt: "R_segIndex r < length (R_segments r)" using Cons.prems(3) by (cases "R_segIndex r < length (R_segments r)") auto
  have nth: "R_segments r ! R_segIndex r = (i, formatSegmentFilename i)"
    and rest: "drop (R_segIndex r + 1) (R_segments r) = map (\<lambda>(i, fs). (i, formatSegmentFilename i)) segs"
    using Cons.prems(3) s Cons_nth_drop_Suc [OF lt] by auto
  obtain es1 es2 where es: "es = es1 @ es2" "list_all2 (good_frame (R_cipher r)) fs es1"
    "list_all2 (good_frame (R_cipher r)) (log_frames segs) es2"
    using Cons.prems(5) s by (auto simp: log_frames_def list_all2_append1)
  obtain c closed n where c: "gm_get d (formatSegmentFilename i) = Some c"
    "verifyChecksumTrailer c = Inr (closed, n)" "take (if closed then n else length c) c = seg_data fs"
    using Cons.prems(4) [of i fs] s by (auto simp: seg_readable_def)
  obtain r' where r': "Reader_Read os_ok d r = Reader_Read os_ok d r'" "reader_at r' (concat fs)"
    "R_segments r' = R_segments r" "R_segIndex r' = R_segIndex r + 1" "R_cipher r' = R_cipher r"
    by (rule Read_open [OF Cons.prems(1,2) lt _ c(2,3)]) (use c(1) nth in auto)
  have "yields os_ok d (closeCurrent r') es2"
    by (rule Cons.IH) (use r' rest Cons.prems(4) es(3) in \<open>auto simp: closeCurrent_def reader_at_def\<close>)
  then have "yields os_ok d r' (es1 @ es2)" using yields_frames [OF r'(2)] es(2) r'(5) by simp
  then show ?case using yields_cong [OF r'(1)] es(1) by simp
qed

text \<open>A log whose segments are all readable, read from the start.\<close>

lemma yields_log:
  assumes "gm_wf d" "gm_get d = log_dir segs" "sorted_wrt (<) (map fst segs)"
    and "list_all2 (\<lambda>(i, c) fs. seg_readable c fs) segs fss" "list_all2 (good_frame ci) (concat fss) es"
    and "NewReader os_ok d ci = Inr r"
  shows "yields os_ok d r es"
proof -
  let ?segs = "zip (map fst segs) fss"
  have len: "length fss = length segs" using assms(4) list_all2_lengthD by metis
  have dist: "distinct (map fst segs)" using assms(3) by (simp add: strict_sorted_iff)
  have ls: "list_segments d = map (\<lambda>(i, fs). (i, formatSegmentFilename i)) ?segs"
    unfolding list_segments_log [OF assms(1-3)]
    using len by (intro nth_equalityI) (simp_all add: case_prod_beta)
  have r: "r = \<lparr> R_cipher = ci, R_segments = list_segments d, R_segIndex = 0, R_file = None, R_dataLen = 0,
                R_startAt = 0, R_reader = None, R_headerOK = False \<rparr>"
    using assms(6) by (simp add: NewReader_def scanSegments_def)
  have get: "\<exists>c. gm_get d (formatSegmentFilename i) = Some c \<and> seg_readable c fs"
    if mem: "(i, fs) \<in> set ?segs" for i fs
  proof -
    obtain k where k: "k < length segs" "i = fst (segs ! k)" "fs = fss ! k"
      using mem len unfolding in_set_zip by auto
    then have "seg_readable (snd (segs ! k)) fs"
      using list_all2_nthD [OF assms(4), of k] by (simp add: case_prod_beta)
    moreover have "log_dir segs (formatSegmentFilename i) = Some (snd (segs ! k))"
      using k by (intro log_dir_get [OF dist]) simp
    ultimately show ?thesis using assms(2) by simp
  qed
  have "log_frames ?segs = concat fss" using len by (simp add: log_frames_def)
  then show ?thesis
    using assms(5) by (intro yields_segments [where segs = ?segs]) (use r ls get in auto)
qed

text \<open>A closed log, read from the start.\<close>

lemma read_closed_log:
  assumes "log_closed d segs" "list_all2 (good_frame ci) (log_frames segs) es"
  shows "\<exists>r r'. NewReader os_ok d ci = Inr r \<and> Reader_ReadAll os_ok d r [] = (Inr es, r')"
proof -
  note C = assms(1) [unfolded log_closed_def]
  obtain r where r: "NewReader os_ok d ci = Inr r" by (simp add: NewReader_def scanSegments_def)
  have "yields os_ok d r es"
  proof (rule yields_log [OF _ _ _ _ _ r])
    show "list_all2 (\<lambda>(i, c). seg_readable c) (map (apsnd seg_sealed) segs) (map snd segs)"
      by (auto simp: list_all2_map1 list_all2_map2 seg_readable_sealed case_prod_beta intro!: list.rel_refl)
  qed (use C assms(2) in \<open>simp_all add: log_frames_def o_def\<close>)
  from yields_ReadAll [OF this, of "[]"] r show ?thesis by auto
qed

text \<open>What a writer logs and closes is what a reader of the directory returns.\<close>

lemma written_log_is_read:
  assumes cl: "log_closed d segs" and good: "list_all2 (good_frame (wc_Cipher cfg)) (log_frames segs) es0"
    and cfg: "wc_Dir cfg \<noteq> ''''"
    and ids: "segs \<noteq> [] \<Longrightarrow> 0 < fst (last segs)"
      "(if segs = [] then 0 else unat (fst (last segs))) + length es + 2 < 2 ^ 64"
    and es: "\<And>e. e \<in> set es \<Longrightarrow> wf_entry e \<and> entry_codec_ok (wc_Cipher cfg) e \<and>
      (\<exists>f. encodeEntryFrame (wc_Cipher cfg) e = Inr f \<and> length f < 2 ^ 32)"
  obtains d1 w1 d2 w2 d3 w3 r r' where "NewWriter os_ok d cfg = (d1, Inr w1)"
    "append_all os_ok d1 w1 es = (d2, w2, None)" "Writer_Close os_ok d2 w2 = (d3, w3, None)"
    "NewReader os_ok d3 (wc_Cipher cfg) = Inr r" "Reader_ReadAll os_ok d3 r [] = (Inr (es0 @ map entry_view es), r')"
proof -
  let ?ci = "wc_Cipher cfg"
  obtain d1 w1 where n1: "NewWriter os_ok d cfg = (d1, Inr w1)" "log_state d1 w1 segs []" "\<not> W_closed w1"
    "W_cfg w1 = applyDefaults cfg" "W_buffer w1 = []"
    "unat (W_segmentID w1) = (if segs = [] then 1 else unat (fst (last segs)) + 1)"
    by (rule NewWriter_closed_log [OF cl cfg]) (use ids in auto)
  then have h: "log_holds d1 w1 (log_frames segs)" by (auto simp: log_holds_def)
  note n = n1(1) h n1(3,4,6)
  have ci: "wc_Cipher (W_cfg w1) = ?ci" using n(4) by (simp add: applyDefaults_def)
  define fs where "fs = map (\<lambda>e. case encodeEntryFrame ?ci e of Inr f \<Rightarrow> f) es"
  have enc: "map (encodeEntryFrame (wc_Cipher (W_cfg w1))) es = map Inr fs"
    using es ci by (fastforce simp: fs_def)
  have "good_frame ?ci (case encodeEntryFrame ?ci e of Inr f \<Rightarrow> f) (entry_view e)" if "e \<in> set es" for e
    using es [OF that] entry_frame_roundtrip [of ?ci e] by (auto simp: good_frame_def)
  then have gfs: "list_all2 (good_frame ?ci) fs (map entry_view es)"
    by (auto simp: fs_def list_all2_map1 list_all2_map2 intro!: list.rel_refl_strong)
  obtain d2 w2 where a: "append_all os_ok d1 w1 es = (d2, w2, None)" "log_holds d2 w2 (log_frames segs @ fs)"
    "\<not> W_closed w2" "unat (W_segmentID w2) \<le> unat (W_segmentID w1) + length es"
    by (rule append_all_ok [OF n(2,3) _ enc]) (use n(5) ids(2) in \<open>auto split: if_splits\<close>)
  obtain d3 w3 segs' where c: "Writer_Close os_ok d2 w2 = (d3, w3, None)" "log_closed d3 segs'"
    "log_frames segs' = log_frames segs @ fs"
    by (rule Writer_Close_ok [OF a(2,3)]) (use a(4) n(5) ids(2) in \<open>auto split: if_splits\<close>)
  have "list_all2 (good_frame ?ci) (log_frames segs') (es0 @ map entry_view es)"
    unfolding c(3) using good gfs by (rule list_all2_appendI)
  from read_closed_log [OF c(2) this] show ?thesis using that n(1) a(1) c(1) by blast
qed

section \<open>Positioned reads\<close>

text \<open>\<open>Seek\<close> to the end of a segment's data: the next \<open>Read\<close> reports the end of the log, whatever
  later segments hold.\<close>

lemma read_after_seek_end:
  assumes segs: "R_segments r = pre @ (i, name) # post" "\<And>j m. (j, m) \<in> set pre \<Longrightarrow> j < i"
    and off: "drop_bit 32 offset = i" "unat (ucast offset :: u32) = length (seg_data fs)"
    and fc: "gm_get d name = Some (seg_sealed fs)"
  shows "\<exists>r'. Reader_Read os_ok d (Reader_Seek r offset) = (Inl io_EOF, r')"
proof -
  have tw: "takeWhile (\<lambda>(j, _). \<not> i \<le> j) (R_segments r) = pre"
    using segs(2) unfolding segs(1) by (subst takeWhile_append2) (auto simp: not_le)
  let ?r = "Reader_Seek r offset"
  have r: "R_segIndex ?r = length pre" "R_startAt ?r = length (seg_data fs)" "R_reader ?r = None"
    "R_segments ?r = pre @ (i, name) # post"
    using tw off segs(1) by (simp_all add: Reader_Seek_def closeCurrent_def Let_def)
  have "openNextSegment os_ok d ?r = ((closeCurrent ?r) \<lparr> R_segIndex := length pre + 1,
      R_dataLen := length (seg_data fs), R_file := Some name, R_reader := Some [], R_headerOK := False, R_startAt := 0 \<rparr>, None)"
    using r fc verify_sealed [of fs]
    by (simp add: openNextSegment_def closeCurrent_def Let_def) (simp add: seg_sealed_def seg_data_def)
  moreover have "\<not> errors_Is io_EOF ErrCorrupted" "\<not> errors_Is io_EOF errChecksumInvalid"
    by (simp_all add: ErrCorrupted_def errChecksumInvalid_def io_EOF_def)
  ultimately show ?thesis
    using r(3) by (subst Reader_Read.simps) (simp add: read_step_def read_open_def readAndValidateHeader_def closeCurrent_def)
qed

text \<open>\<open>Seek\<close> to an entry inside a segment: the next \<open>Read\<close> takes the entry's first eight bytes for
  the header and fails, unless they happen to be the magic bytes.\<close>

lemma read_after_seek_inside:
  assumes segs: "R_segments r = pre @ (i, name) # post" "\<And>j m. (j, m) \<in> set pre \<Longrightarrow> j < i"
    and off: "drop_bit 32 offset = i" "unat (ucast offset :: u32) = length (seg_data fs)"
    and fc: "gm_get d name = Some (seg_sealed (fs @ f # gs))"
    and f: "8 \<le> length f" "take 8 f \<noteq> MagicBytes"
  shows "\<exists>r'. Reader_Read os_ok d (Reader_Seek r offset) = (Inl errInvalidMagic, r')"
proof -
  have tw: "takeWhile (\<lambda>(j, _). \<not> i \<le> j) (R_segments r) = pre"
    using segs(2) unfolding segs(1) by (subst takeWhile_append2) (auto simp: not_le)
  let ?r = "Reader_Seek r offset"
  have r: "R_segIndex ?r = length pre" "R_startAt ?r = length (seg_data fs)" "R_reader ?r = None"
    "R_segments ?r = pre @ (i, name) # post"
    using tw off segs(1) by (simp_all add: Reader_Seek_def closeCurrent_def Let_def)
  have op: "openNextSegment os_ok d ?r = ((closeCurrent ?r) \<lparr> R_segIndex := length pre + 1,
      R_dataLen := length (seg_data (fs @ f # gs)), R_file := Some name, R_reader := Some (f @ concat gs),
      R_headerOK := False, R_startAt := 0 \<rparr>, None)"
    using r fc verify_sealed [of "fs @ f # gs"]
    by (simp add: openNextSegment_def closeCurrent_def Let_def) (simp add: seg_sealed_def seg_data_def)
  have "io_ReadFull 8 (f @ concat gs) = (Inr (take 8 f), drop 8 f @ concat gs)"
    using f(1) by (simp add: io_ReadFull_def)
  moreover have "\<not> errors_Is errInvalidMagic ErrCorrupted" "\<not> errors_Is errInvalidMagic errChecksumInvalid"
    by (simp_all add: ErrCorrupted_def errChecksumInvalid_def errInvalidMagic_def)
  ultimately show ?thesis
    using r(3) f(2) op
    by (subst Reader_Read.simps) (simp add: read_step_def read_open_def readAndValidateHeader_def closeCurrent_def)
qed

section \<open>Properties\<close>

text \<open>C8: what is written is read back. In a directory whose log was closed in order, a writer that
  appends any entries and is closed leaves a log from which a new reader returns the entries of
  before and then the appended ones, in order, however the writer batched and rotated.\<close>

theorem written_entries_read_back:
  assumes "log_closed d segs" "list_all2 (good_frame (wc_Cipher cfg)) (log_frames segs) es0"
    and "wc_Dir cfg \<noteq> ''''" "segs \<noteq> [] \<Longrightarrow> 0 < fst (last segs)"
    and "(if segs = [] then 0 else unat (fst (last segs))) + length es + 2 < 2 ^ 64"
    and "\<And>e. e \<in> set es \<Longrightarrow> wf_entry e \<and> entry_codec_ok (wc_Cipher cfg) e \<and>
      (\<exists>f. encodeEntryFrame (wc_Cipher cfg) e = Inr f \<and> length f < 2 ^ 32)"
  shows "\<exists>d1 w1 d2 w2 d3 w3 r r'. NewWriter os_ok d cfg = (d1, Inr w1) \<and>
    append_all os_ok d1 w1 es = (d2, w2, None) \<and> Writer_Close os_ok d2 w2 = (d3, w3, None) \<and>
    NewReader os_ok d3 (wc_Cipher cfg) = Inr r \<and>
    Reader_ReadAll os_ok d3 r [] = (Inr (es0 @ map entry_view es), r')"
  by (rule written_log_is_read [OF assms(1,2,3,4,5,6)]) blast+

theorem written_entries_read_back_witness:
  "\<exists>d1 w1 d2 w2 d3 w3 r r'. NewWriter os_ok [] (wal_DefaultConfig ''wal'') = (d1, Inr w1) \<and>
    append_all os_ok d1 w1 [example_entry, example_entry] = (d2, w2, None) \<and>
    Writer_Close os_ok d2 w2 = (d3, w3, None) \<and> NewReader os_ok d3 None = Inr r \<and>
    Reader_ReadAll os_ok d3 r [] = (Inr [entry_view example_entry, entry_view example_entry], r')"
  using written_entries_read_back [of "[]" "[]" "wal_DefaultConfig ''wal''" "[]" "[example_entry, example_entry]"]
    example_entry_ok
  by (simp add: wal_DefaultConfig_def log_closed_def fun_eq_iff log_frames_def)

text \<open>Reading a log ends. Every call of \<open>Read\<close> that does not report the end moves the reader
  forward in a well-founded order, whatever the files hold and whichever calls fail, so no loop
  over \<open>Read\<close> runs forever.\<close>

lemma every_read_moves_on:
  "wf reader_rel \<and> (\<forall>q r'. Reader_Read sys d r = (q, r') \<longrightarrow> q = Inl io_EOF \<or> (r', r) \<in> reader_rel)"
  using wf_reader_rel Reader_Read_progress by blast

text \<open>A reader positioned at the end of a segment loses what follows. \<open>Seek\<close> to the end of a
  finished segment and \<open>Read\<close> reports the end of the log, although later segments hold entries.\<close>

lemma seek_to_segment_end_loses_tail:
  assumes "R_segments r = pre @ (i, name) # post" "\<And>j m. (j, m) \<in> set pre \<Longrightarrow> j < i"
    and "drop_bit 32 offset = i" "unat (ucast offset :: u32) = length (seg_data fs)"
    and "gm_get d name = Some (seg_sealed fs)"
  shows "\<exists>r'. Reader_Read os_ok d (Reader_Seek r offset) = (Inl io_EOF, r')"
  by (rule read_after_seek_end [OF assms])

end
