(* ===== verification/Wal_Compactor.thy ===== *)
theory Wal_Compactor
  imports Wal_Writer
begin

text \<open>
  Removal of old segments, \<open>internal/storage/wal/compactor.go\<close>. The compactor lists the segment
  files by name, drops those whose identifier is below the snapshot's segment, and keeps a minimum
  number of files. The error of several failed removals is their joined text.
\<close>

section \<open>Definitions\<close>

abbreviation DefaultRetainCount :: int where "DefaultRetainCount \<equiv> 3"

record compactor =
  cp_retainCount :: int

definition WithRetainCount :: "int \<Rightarrow> compactor \<Rightarrow> compactor" where
  "WithRetainCount cnt c = (if cnt > 0 then c \<lparr> cp_retainCount := cnt \<rparr> else c)"

definition NewCompactor :: "(compactor \<Rightarrow> compactor) list \<Rightarrow> compactor" where
  "NewCompactor opts = foldl (\<lambda>c opt. opt c) \<lparr> cp_retainCount = DefaultRetainCount \<rparr> opts"

definition listWALFiles :: "os_calls \<Rightarrow> dir \<Rightarrow> go_error + string list" where
  "listWALFiles sys d =
     (case os_ReadDir sys of
        Some err \<Rightarrow> if err = ErrNotExist then Inr [] else Inl err
      | None \<Rightarrow> Inr (filter (\<lambda>name. parseSegmentFilename name \<noteq> None) (dir_names d)))"

text \<open>The loop of removals, with the errors met.\<close>

fun remove_files :: "os_calls \<Rightarrow> dir \<Rightarrow> string list \<Rightarrow> dir \<times> go_error list" where
  "remove_files sys d [] = (d, [])"
| "remove_files sys d (name # names) =
     (case os_Remove sys name of
        Some err \<Rightarrow>
          (case remove_files sys d names of
             (d', errs) \<Rightarrow> (d', WrapError (''remove '' @ name) err # errs))
      | None \<Rightarrow> remove_files sys (gm_del name d) names)"

definition join_errors :: "go_error list \<Rightarrow> go_error option" where
  "join_errors errs =
     (if errs \<noteq> [] then
        Some (PlainError (''wal: failed to delete '' @ FormatInt (int (length errs)) @ '' files: '' @
          strings_Join (map Error errs) [char_of (10 :: nat)]))
      else None)"

text \<open>The files that are old enough, less those the minimum keeps.\<close>

definition files_to_delete :: "int \<Rightarrow> u64 \<Rightarrow> string list \<Rightarrow> string list" where
  "files_to_delete retain snapshotSegmentID files =
     (let old = filter (\<lambda>f. case parseSegmentFilename f of
                             None \<Rightarrow> False | Some segmentID \<Rightarrow> segmentID < snapshotSegmentID) files;
          kept = int (length files) - int (length old)
      in if kept < retain then
           (let keepCount = retain - kept;
                keepCount = (if keepCount > int (length old) then int (length old) else keepCount)
            in take (length old - nat keepCount) old)
         else old)"

definition Compactor_Compact :: "os_calls \<Rightarrow> dir \<Rightarrow> compactor \<Rightarrow> u64 \<Rightarrow> dir \<times> go_error option" where
  "Compactor_Compact sys d c snapshotOffset =
     (case listWALFiles sys d of
        Inl err \<Rightarrow> (d, Some err)
      | Inr files \<Rightarrow>
          if files = [] then (d, None)
          else (case remove_files sys d
                  (files_to_delete (cp_retainCount c) (drop_bit 32 snapshotOffset) files) of
                  (d', errs) \<Rightarrow> (d', join_errors errs)))"

definition Compactor_TotalSize :: "os_calls \<Rightarrow> dir \<Rightarrow> go_error + nat" where
  "Compactor_TotalSize sys d =
     (case listWALFiles sys d of
        Inl err \<Rightarrow> Inl err
      | Inr files \<Rightarrow>
          Inr (foldl (\<lambda>n file. case os_Stat sys file of
                       Some _ \<Rightarrow> n | None \<Rightarrow> n + length (the (gm_get d file))) 0 files))"

definition NeedsCompaction :: "os_calls \<Rightarrow> dir \<Rightarrow> int \<Rightarrow> bool" where
  "NeedsCompaction sys d threshold \<longleftrightarrow>
     int (case Compactor_TotalSize sys d of Inl _ \<Rightarrow> 0 | Inr n \<Rightarrow> n) > threshold"

definition Compactor_FileCount :: "os_calls \<Rightarrow> dir \<Rightarrow> go_error + nat" where
  "Compactor_FileCount sys d = map_sum id length (listWALFiles sys d)"

definition Compactor_CleanAll :: "os_calls \<Rightarrow> dir \<Rightarrow> dir \<times> go_error option" where
  "Compactor_CleanAll sys d =
     (case listWALFiles sys d of
        Inl err \<Rightarrow> (d, Some err)
      | Inr files \<Rightarrow> (case remove_files sys d files of (d', errs) \<Rightarrow> (d', join_errors errs)))"

section \<open>Lemmas\<close>

text \<open>Nothing outside the list is removed, whatever fails; and all of it is when nothing fails.\<close>

lemma remove_files_others:
  "remove_files sys d names = (d', errs) \<Longrightarrow> n \<notin> set names \<Longrightarrow> gm_get d' n = gm_get d n"
  by (induction sys d names arbitrary: d' errs rule: remove_files.induct)
    (auto simp: gm_get_del split: option.splits prod.splits)

lemma remove_files_removes:
  "remove_files sys d names = (d', errs) \<Longrightarrow> gm_get d' n = gm_get d n \<or> gm_get d' n = None"
  by (induction sys d names arbitrary: d' errs rule: remove_files.induct)
    (force simp: gm_get_del split: option.splits prod.splits if_splits)+

lemma remove_files_wf: "remove_files sys d names = (d', errs) \<Longrightarrow> gm_wf d \<Longrightarrow> gm_wf d'"
  by (induction sys d names arbitrary: d' errs rule: remove_files.induct)
    (auto simp: gm_wf_del split: option.splits prod.splits)

lemma remove_files_ok:
  "snd (remove_files os_ok d names) = [] \<and>
     gm_get (fst (remove_files os_ok d names)) = (\<lambda>n. if n \<in> set names then None else gm_get d n)"
  by (induction names arbitrary: d) (auto simp: gm_get_del fun_eq_iff)

lemma files_to_delete_old:
  assumes "f \<in> set (files_to_delete retain seg files)"
  shows "\<exists>i. parseSegmentFilename f = Some i \<and> i < seg" "f \<in> set files"
proof -
  let ?old = "filter (\<lambda>f. case parseSegmentFilename f of None \<Rightarrow> False | Some i \<Rightarrow> i < seg) files"
  have "f \<in> set ?old"
    using assms set_take_subset [of _ ?old] by (auto simp: files_to_delete_def Let_def split: if_splits)
  then show "\<exists>i. parseSegmentFilename f = Some i \<and> i < seg" "f \<in> set files" by (auto split: option.splits)
qed

lemma files_to_delete_count:
  "min retain (int (length files)) \<le> int (length files) - int (length (files_to_delete retain seg files))"
proof -
  let ?old = "filter (\<lambda>f. case parseSegmentFilename f of None \<Rightarrow> False | Some i \<Rightarrow> i < seg) files"
  have "length ?old \<le> length files" by simp
  then show ?thesis by (auto simp: files_to_delete_def Let_def min_def of_nat_diff)
qed

lemma files_to_delete_distinct: "distinct files \<Longrightarrow> distinct (files_to_delete retain seg files)"
  by (simp add: files_to_delete_def Let_def distinct_take)

text \<open>The files that stay, counted.\<close>

lemma remaining_count:
  assumes "distinct files" "distinct del" "set del \<subseteq> set files"
  shows "length (filter (\<lambda>f. f \<notin> set del) files) = length files - length del"
proof -
  have "card (set files - set del) = card (set files) - card (set del)"
    using assms(3) by (intro card_Diff_subset) auto
  moreover have "set (filter (\<lambda>f. f \<notin> set del) files) = set files - set del" by auto
  ultimately show ?thesis using assms by (metis distinct_card distinct_filter)
qed

lemma listWALFiles_distinct: "gm_wf d \<Longrightarrow> listWALFiles sys d = Inr files \<Longrightarrow> distinct files"
  by (auto simp: listWALFiles_def dir_names_distinct split: option.splits if_splits)

lemma Compact_cases:
  assumes "Compactor_Compact sys d c off = (d', e)"
  shows "d' = d \<or> (\<exists>files errs. listWALFiles sys d = Inr files \<and>
    remove_files sys d (files_to_delete (cp_retainCount c) (drop_bit 32 off) files) = (d', errs))"
  using assms by (auto simp: Compactor_Compact_def split: sum.splits if_splits prod.splits)

lemma Compact_keeps:
  assumes "Compactor_Compact sys d c off = (d', e)"
    and "\<And>i. parseSegmentFilename name = Some i \<Longrightarrow> drop_bit 32 off \<le> i"
  shows "gm_get d' name = gm_get d name"
proof -
  have "name \<notin> set (files_to_delete (cp_retainCount c) (drop_bit 32 off) files)" for files
    using files_to_delete_old(1) [of name] assms(2) by (force simp: not_less)
  then show ?thesis using Compact_cases [OF assms(1)] remove_files_others by blast
qed

lemma Compact_retains:
  assumes "Compactor_Compact sys d c off = (d', e)" "gm_wf d" "listWALFiles sys d = Inr files"
  shows "min (cp_retainCount c) (int (length files)) \<le> int (length (filter (\<lambda>f. gm_get d' f \<noteq> None) files))"
proof -
  have mem: "f \<in> set files \<Longrightarrow> gm_get d f \<noteq> None" for f
    using assms(3) by (auto simp: listWALFiles_def gm_get_eq_None split: option.splits if_splits)
  show ?thesis
  proof (cases "d' = d")
    case True
    then have "filter (\<lambda>f. gm_get d' f \<noteq> None) files = files" using mem by (auto intro: filter_True)
    then show ?thesis by simp
  next
    case False
    let ?del = "files_to_delete (cp_retainCount c) (drop_bit 32 off) files"
    obtain errs where rm: "remove_files sys d ?del = (d', errs)"
      using Compact_cases [OF assms(1)] False assms(3) by auto
    have dist: "distinct files" by (rule listWALFiles_distinct [OF assms(2,3)])
    have "f \<notin> set ?del \<Longrightarrow> f \<in> set files \<Longrightarrow> gm_get d' f \<noteq> None" for f
      using remove_files_others [OF rm] mem by simp
    then have "set (filter (\<lambda>f. f \<notin> set ?del) files) \<subseteq> set (filter (\<lambda>f. gm_get d' f \<noteq> None) files)" by auto
    then have "length (filter (\<lambda>f. f \<notin> set ?del) files) \<le> length (filter (\<lambda>f. gm_get d' f \<noteq> None) files)"
      using dist by (metis List.finite_set card_mono distinct_card distinct_filter)
    moreover have "length (filter (\<lambda>f. f \<notin> set ?del) files) = length files - length ?del"
      by (rule remaining_count [OF dist files_to_delete_distinct [OF dist]]) (use files_to_delete_old(2) in blast)
    moreover have "length ?del \<le> length files"
      using files_to_delete_distinct [OF dist] files_to_delete_old(2) dist
      by (metis List.finite_set card_mono distinct_card subsetI)
    ultimately show ?thesis using files_to_delete_count [of "cp_retainCount c" files "drop_bit 32 off"] by linarith
  qed
qed

section \<open>Properties\<close>

text \<open>C23: compaction is safe. Whatever calls fail, no file other than a segment older than the
  snapshot's position changes, and of the listed segments at least the retention count, or all when
  there are fewer, are still there.\<close>

theorem compaction_safe:
  assumes "Compactor_Compact sys d c off = (d', e)" "gm_wf d" "listWALFiles sys d = Inr files"
  shows "(\<forall>name. gm_get d' name \<noteq> gm_get d name \<longrightarrow>
            gm_get d' name = None \<and> name \<in> set files \<and> (\<exists>i. parseSegmentFilename name = Some i \<and> i < drop_bit 32 off)) \<and>
    min (cp_retainCount c) (int (length files)) \<le> int (length (filter (\<lambda>f. gm_get d' f \<noteq> None) files))"
proof (intro conjI allI impI)
  fix name assume ch: "gm_get d' name \<noteq> gm_get d name"
  let ?del = "files_to_delete (cp_retainCount c) (drop_bit 32 off) files"
  from ch obtain errs where rm: "remove_files sys d ?del = (d', errs)"
    using Compact_cases [OF assms(1)] assms(3) by auto
  from ch remove_files_others [OF rm] have mem: "name \<in> set ?del" by blast
  show "gm_get d' name = None" using remove_files_removes [OF rm] ch by blast
  show "name \<in> set files" "\<exists>i. parseSegmentFilename name = Some i \<and> i < drop_bit 32 off"
    using files_to_delete_old [OF mem] by auto
next
  show "min (cp_retainCount c) (int (length files)) \<le> int (length (filter (\<lambda>f. gm_get d' f \<noteq> None) files))"
    by (rule Compact_retains [OF assms])
qed

theorem compaction_safe_witness:
  "\<exists>d'. Compactor_Compact os_ok (map (\<lambda>i. (formatSegmentFilename i, [])) [1, 2, 3, 4, 5]) (NewCompactor []) 0x500000000 =
      (d', None) \<and> gm_get d' (formatSegmentFilename 1) = None \<and>
    3 \<le> length (filter (\<lambda>f. gm_get d' f \<noteq> None) (map formatSegmentFilename [1, 2, 3, 4, 5]))"
proof -
  let ?d = "map (\<lambda>i. (formatSegmentFilename i, [])) [1, 2, 3, 4, 5] :: dir"
  have "dir_names ?d = map formatSegmentFilename [1, 2, 3, 4, 5]" "gm_wf ?d" by code_simp+
  then have l: "gm_wf ?d" "listWALFiles os_ok ?d = Inr (map formatSegmentFilename [1, 2, 3, 4, 5])"
    by (simp_all add: listWALFiles_def formatSegmentFilename_parse)
  have f: "files_to_delete 3 5 (map formatSegmentFilename [1, 2, 3, 4, 5]) = map formatSegmentFilename [1, 2]"
    by (simp add: files_to_delete_def formatSegmentFilename_parse)
  have "cp_retainCount (NewCompactor []) = 3" "drop_bit 32 (0x500000000 :: u64) = 5" by (simp_all add: NewCompactor_def)
  moreover from this have "Compactor_Compact os_ok ?d (NewCompactor []) 0x500000000 =
      (fst (remove_files os_ok ?d (map formatSegmentFilename [1, 2])), None)"
    using l(2) f by (simp add: Compactor_Compact_def join_errors_def)
  moreover have "gm_get (fst (remove_files os_ok ?d (map formatSegmentFilename [1, 2]))) (formatSegmentFilename 1) = None"
    using remove_files_ok [of ?d "map formatSegmentFilename [1, 2]"] by simp
  ultimately show ?thesis using compaction_safe [OF _ l, of "NewCompactor []" "0x500000000"] by fastforce
qed

end
