(* ===== verification/Snapshot_Json.thy ===== *)
theory Snapshot_Json
  imports Session_Json
begin

text \<open>
  The header and the session records of a snapshot file and their JSON form
  (\<open>internal/storage/snapshot/manager.go\<close>). A session record holds every field of a session, so only the
  order of the data map is lost on the way.
\<close>

section \<open>Data\<close>

abbreviation snap_headerVersion :: int where "snap_headerVersion \<equiv> 1"

record snapshot_header =
  H_Version :: int
  H_CreatedAt :: int
  H_NodeID :: string
  H_SessionCount :: u64
  H_WALLastOffset :: u64
  H_Encrypted :: bool

record snapshot_session =
  N_ID :: string
  N_UserID :: string
  N_TokenHash :: string
  N_IPAddress :: string
  N_UserAgent :: string
  N_LastAccessIP :: string
  N_LastAccessUA :: string
  N_DeviceID :: string
  N_CreatedBy :: string
  N_CreatedAt :: int
  N_ExpiresAt :: int
  N_LastActive :: int
  N_Data :: data_map
  N_Version :: u64
  N_ShardID :: u32
  N_TTL :: int
  N_IsDeleted :: bool

definition snapshotSessionFromDomain :: "session \<Rightarrow> snapshot_session" where
  "snapshotSessionFromDomain s =
     \<lparr> N_ID = S_ID s, N_UserID = S_UserID s, N_TokenHash = S_TokenHash s, N_IPAddress = S_IPAddress s,
       N_UserAgent = S_UserAgent s, N_LastAccessIP = S_LastAccessIP s, N_LastAccessUA = S_LastAccessUA s,
       N_DeviceID = S_DeviceID s, N_CreatedBy = S_CreatedBy s, N_CreatedAt = S_CreatedAt s,
       N_ExpiresAt = S_ExpiresAt s, N_LastActive = S_LastActive s, N_Data = S_Data s, N_Version = S_Version s,
       N_ShardID = S_ShardID s, N_TTL = S_TTL s, N_IsDeleted = S_IsDeleted s \<rparr>"

definition toDomain :: "snapshot_session \<Rightarrow> session" where
  "toDomain s =
     \<lparr> S_ID = N_ID s, S_UserID = N_UserID s, S_TokenHash = N_TokenHash s, S_IPAddress = N_IPAddress s,
       S_UserAgent = N_UserAgent s, S_LastAccessIP = N_LastAccessIP s, S_LastAccessUA = N_LastAccessUA s,
       S_DeviceID = N_DeviceID s, S_CreatedBy = N_CreatedBy s, S_CreatedAt = N_CreatedAt s,
       S_ExpiresAt = N_ExpiresAt s, S_LastActive = N_LastActive s, S_Data = N_Data s, S_Version = N_Version s,
       S_ShardID = N_ShardID s, S_TTL = N_TTL s, S_IsDeleted = N_IsDeleted s \<rparr>"

section \<open>JSON\<close>

abbreviation header_names :: "string list" where
  "header_names \<equiv> [''version'', ''created_at'', ''node_id'', ''session_count'', ''wal_last_offset'', ''encrypted'']"

definition header_json :: "snapshot_header \<Rightarrow> json" where
  "header_json h = JObj
     ([(''version'', JInt (H_Version h)), (''created_at'', JInt (H_CreatedAt h))] @
      (if H_NodeID h = '''' then [] else [(''node_id'', JStr (H_NodeID h))]) @
      [(''session_count'', JUint (H_SessionCount h)), (''wal_last_offset'', JUint (H_WALLastOffset h)),
       (''encrypted'', JBool (H_Encrypted h))])"

definition header_field :: "string \<Rightarrow> json \<Rightarrow> snapshot_header \<Rightarrow> go_error + snapshot_header" where
  "header_field n v h =
     (if n = ''version'' then map_sum id (\<lambda>x. h \<lparr> H_Version := x \<rparr>) (dec_int64 v (H_Version h))
      else if n = ''created_at'' then map_sum id (\<lambda>x. h \<lparr> H_CreatedAt := x \<rparr>) (dec_int64 v (H_CreatedAt h))
      else if n = ''node_id'' then map_sum id (\<lambda>x. h \<lparr> H_NodeID := x \<rparr>) (dec_string v (H_NodeID h))
      else if n = ''session_count'' then map_sum id (\<lambda>x. h \<lparr> H_SessionCount := x \<rparr>) (dec_uint v (H_SessionCount h))
      else if n = ''wal_last_offset'' then map_sum id (\<lambda>x. h \<lparr> H_WALLastOffset := x \<rparr>) (dec_uint v (H_WALLastOffset h))
      else map_sum id (\<lambda>x. h \<lparr> H_Encrypted := x \<rparr>) (dec_bool v (H_Encrypted h)))"

definition header_zero :: snapshot_header where
  "header_zero = \<lparr> H_Version = 0, H_CreatedAt = 0, H_NodeID = '''', H_SessionCount = 0, H_WALLastOffset = 0,
     H_Encrypted = False \<rparr>"

definition json_Marshal_header :: "snapshot_header \<Rightarrow> go_error + bytes" where
  "json_Marshal_header h = json_Marshal (header_json h)"

definition json_Unmarshal_header :: "bytes \<Rightarrow> go_error + snapshot_header" where
  "json_Unmarshal_header = json_Unmarshal (\<lambda>v. dec_struct header_names header_field v header_zero)"

abbreviation snap_session_names :: "string list" where
  "snap_session_names \<equiv> [''id'', ''user_id'', ''token_hash'', ''ip_address'', ''user_agent'', ''last_access_ip'', ''last_access_ua'', ''device_id'', ''created_by'', ''created_at'', ''expires_at'', ''last_active'', ''data'', ''version'', ''shard_id'', ''ttl'', ''is_deleted'']"

definition snap_session_json :: "snapshot_session \<Rightarrow> json" where
  "snap_session_json s = JObj
     [(''id'', JStr (N_ID s)),
      (''user_id'', JStr (N_UserID s)),
      (''token_hash'', JStr (N_TokenHash s)),
      (''ip_address'', JStr (N_IPAddress s)),
      (''user_agent'', JStr (N_UserAgent s)),
      (''last_access_ip'', JStr (N_LastAccessIP s)),
      (''last_access_ua'', JStr (N_LastAccessUA s)),
      (''device_id'', JStr (N_DeviceID s)),
      (''created_by'', JStr (N_CreatedBy s)),
      (''created_at'', JInt (N_CreatedAt s)),
      (''expires_at'', JInt (N_ExpiresAt s)),
      (''last_active'', JInt (N_LastActive s)),
      (''data'', json_strmap (N_Data s)),
      (''version'', JUint (N_Version s)),
      (''shard_id'', JUint (N_ShardID s)),
      (''ttl'', JInt (N_TTL s)),
      (''is_deleted'', JBool (N_IsDeleted s))]"

definition snap_session_field :: "string \<Rightarrow> json \<Rightarrow> snapshot_session \<Rightarrow> go_error + snapshot_session" where
  "snap_session_field n v s =
     (if n = ''id'' then map_sum id (\<lambda>x. s \<lparr> N_ID := x \<rparr>) (dec_string v (N_ID s))
      else if n = ''user_id'' then map_sum id (\<lambda>x. s \<lparr> N_UserID := x \<rparr>) (dec_string v (N_UserID s))
      else if n = ''token_hash'' then map_sum id (\<lambda>x. s \<lparr> N_TokenHash := x \<rparr>) (dec_string v (N_TokenHash s))
      else if n = ''ip_address'' then map_sum id (\<lambda>x. s \<lparr> N_IPAddress := x \<rparr>) (dec_string v (N_IPAddress s))
      else if n = ''user_agent'' then map_sum id (\<lambda>x. s \<lparr> N_UserAgent := x \<rparr>) (dec_string v (N_UserAgent s))
      else if n = ''last_access_ip'' then map_sum id (\<lambda>x. s \<lparr> N_LastAccessIP := x \<rparr>) (dec_string v (N_LastAccessIP s))
      else if n = ''last_access_ua'' then map_sum id (\<lambda>x. s \<lparr> N_LastAccessUA := x \<rparr>) (dec_string v (N_LastAccessUA s))
      else if n = ''device_id'' then map_sum id (\<lambda>x. s \<lparr> N_DeviceID := x \<rparr>) (dec_string v (N_DeviceID s))
      else if n = ''created_by'' then map_sum id (\<lambda>x. s \<lparr> N_CreatedBy := x \<rparr>) (dec_string v (N_CreatedBy s))
      else if n = ''created_at'' then map_sum id (\<lambda>x. s \<lparr> N_CreatedAt := x \<rparr>) (dec_int64 v (N_CreatedAt s))
      else if n = ''expires_at'' then map_sum id (\<lambda>x. s \<lparr> N_ExpiresAt := x \<rparr>) (dec_int64 v (N_ExpiresAt s))
      else if n = ''last_active'' then map_sum id (\<lambda>x. s \<lparr> N_LastActive := x \<rparr>) (dec_int64 v (N_LastActive s))
      else if n = ''data'' then map_sum id (\<lambda>x. s \<lparr> N_Data := x \<rparr>) (dec_strmap v (N_Data s))
      else if n = ''version'' then map_sum id (\<lambda>x. s \<lparr> N_Version := x \<rparr>) (dec_uint v (N_Version s))
      else if n = ''shard_id'' then map_sum id (\<lambda>x. s \<lparr> N_ShardID := x \<rparr>) (dec_uint v (N_ShardID s))
      else if n = ''ttl'' then map_sum id (\<lambda>x. s \<lparr> N_TTL := x \<rparr>) (dec_int64 v (N_TTL s))
      else map_sum id (\<lambda>x. s \<lparr> N_IsDeleted := x \<rparr>) (dec_bool v (N_IsDeleted s)))"

definition snap_session_zero :: snapshot_session where
  "snap_session_zero = snapshotSessionFromDomain Session_zero"

definition json_Marshal_sessions :: "snapshot_session list \<Rightarrow> go_error + bytes" where
  "json_Marshal_sessions ss = json_Marshal (JArr (map snap_session_json ss))"

definition json_Unmarshal_sessions :: "bytes \<Rightarrow> go_error + snapshot_session list" where
  "json_Unmarshal_sessions =
     json_Unmarshal (dec_slice (\<lambda>v. dec_struct snap_session_names snap_session_field v snap_session_zero))"

section \<open>Round trips\<close>

lemma toDomain_FromDomain [simp]: "toDomain (snapshotSessionFromDomain s) = s"
  by (simp add: toDomain_def snapshotSessionFromDomain_def)


definition header_json_ok :: "snapshot_header \<Rightarrow> bool" where
  "header_json_ok h \<longleftrightarrow> in_i64 (H_Version h) \<and> in_i64 (H_CreatedAt h) \<and> utf8_ValidString (H_NodeID h)"

definition snap_session_ok :: "session \<Rightarrow> bool" where
  "snap_session_ok s \<longleftrightarrow> session_json_ok s \<and> in_i64 (S_TTL s)"

lemma header_field_simps:
  "header_field ''version'' v h = map_sum id (\<lambda>x. h \<lparr> H_Version := x \<rparr>) (dec_int64 v (H_Version h))"
  "header_field ''created_at'' v h = map_sum id (\<lambda>x. h \<lparr> H_CreatedAt := x \<rparr>) (dec_int64 v (H_CreatedAt h))"
  "header_field ''node_id'' v h = map_sum id (\<lambda>x. h \<lparr> H_NodeID := x \<rparr>) (dec_string v (H_NodeID h))"
  "header_field ''session_count'' v h = map_sum id (\<lambda>x. h \<lparr> H_SessionCount := x \<rparr>) (dec_uint v (H_SessionCount h))"
  "header_field ''wal_last_offset'' v h = map_sum id (\<lambda>x. h \<lparr> H_WALLastOffset := x \<rparr>) (dec_uint v (H_WALLastOffset h))"
  "header_field ''encrypted'' v h = map_sum id (\<lambda>x. h \<lparr> H_Encrypted := x \<rparr>) (dec_bool v (H_Encrypted h))"
  unfolding header_field_def by (simp_all only: list.inject char.inject list.distinct if_False if_True simp_thms)

lemma header_json_roundtrip:
  assumes "header_json_ok h"
  shows "\<exists>b. json_Marshal_header h = Inr b \<and> json_Unmarshal_header b = Inr h \<and> b \<noteq> [] \<and>
    length b = length (json_text (header_json h))"
proof -
  have i: "in_i64 (H_Version h)" "in_i64 (H_CreatedAt h)" using assms by (simp_all add: header_json_ok_def)
  have "dec_struct header_names header_field (header_json h) header_zero = Inr h"
    unfolding dec_struct_def header_json_def json.case
    by (cases "H_NodeID h = ''''")
      (simp_all add: find_field_mem header_field_simps i header_zero_def del: dec_uint.simps)
  moreover have "json_ok (header_json h)" using assms by (auto simp: header_json_ok_def header_json_def)
  moreover have "json_depth (header_json h) \<le> Suc 0"
    unfolding header_json_def by (rule json_depth_le(2)) (auto split: if_splits)
  moreover have "json_text (header_json h) \<noteq> []" by (simp add: json_text_def header_json_def)
  ultimately show ?thesis
    using json_roundtrip(1) [of "header_json h"]
      json_roundtrip(2) [of "header_json h" "\<lambda>v. dec_struct header_names header_field v header_zero"]
    by (simp add: json_Marshal_header_def json_Unmarshal_header_def)
qed

lemma snap_session_field_simps:
  "snap_session_field ''id'' v s = map_sum id (\<lambda>x. s \<lparr> N_ID := x \<rparr>) (dec_string v (N_ID s))"
  "snap_session_field ''user_id'' v s = map_sum id (\<lambda>x. s \<lparr> N_UserID := x \<rparr>) (dec_string v (N_UserID s))"
  "snap_session_field ''token_hash'' v s = map_sum id (\<lambda>x. s \<lparr> N_TokenHash := x \<rparr>) (dec_string v (N_TokenHash s))"
  "snap_session_field ''ip_address'' v s = map_sum id (\<lambda>x. s \<lparr> N_IPAddress := x \<rparr>) (dec_string v (N_IPAddress s))"
  "snap_session_field ''user_agent'' v s = map_sum id (\<lambda>x. s \<lparr> N_UserAgent := x \<rparr>) (dec_string v (N_UserAgent s))"
  "snap_session_field ''last_access_ip'' v s = map_sum id (\<lambda>x. s \<lparr> N_LastAccessIP := x \<rparr>) (dec_string v (N_LastAccessIP s))"
  "snap_session_field ''last_access_ua'' v s = map_sum id (\<lambda>x. s \<lparr> N_LastAccessUA := x \<rparr>) (dec_string v (N_LastAccessUA s))"
  "snap_session_field ''device_id'' v s = map_sum id (\<lambda>x. s \<lparr> N_DeviceID := x \<rparr>) (dec_string v (N_DeviceID s))"
  "snap_session_field ''created_by'' v s = map_sum id (\<lambda>x. s \<lparr> N_CreatedBy := x \<rparr>) (dec_string v (N_CreatedBy s))"
  "snap_session_field ''created_at'' v s = map_sum id (\<lambda>x. s \<lparr> N_CreatedAt := x \<rparr>) (dec_int64 v (N_CreatedAt s))"
  "snap_session_field ''expires_at'' v s = map_sum id (\<lambda>x. s \<lparr> N_ExpiresAt := x \<rparr>) (dec_int64 v (N_ExpiresAt s))"
  "snap_session_field ''last_active'' v s = map_sum id (\<lambda>x. s \<lparr> N_LastActive := x \<rparr>) (dec_int64 v (N_LastActive s))"
  "snap_session_field ''data'' v s = map_sum id (\<lambda>x. s \<lparr> N_Data := x \<rparr>) (dec_strmap v (N_Data s))"
  "snap_session_field ''version'' v s = map_sum id (\<lambda>x. s \<lparr> N_Version := x \<rparr>) (dec_uint v (N_Version s))"
  "snap_session_field ''shard_id'' v s = map_sum id (\<lambda>x. s \<lparr> N_ShardID := x \<rparr>) (dec_uint v (N_ShardID s))"
  "snap_session_field ''ttl'' v s = map_sum id (\<lambda>x. s \<lparr> N_TTL := x \<rparr>) (dec_int64 v (N_TTL s))"
  "snap_session_field ''is_deleted'' v s = map_sum id (\<lambda>x. s \<lparr> N_IsDeleted := x \<rparr>) (dec_bool v (N_IsDeleted s))"
  unfolding snap_session_field_def by (simp_all only: list.inject char.inject list.distinct if_False if_True simp_thms)

lemma dec_snap_session:
  assumes "snap_session_ok s"
  shows "dec_struct snap_session_names snap_session_field (snap_session_json (snapshotSessionFromDomain s)) snap_session_zero =
    Inr (snapshotSessionFromDomain (data_sorted s))"
proof -
  let ?s = "snapshotSessionFromDomain s"
  have i: "in_i64 (N_CreatedAt ?s)" "in_i64 (N_ExpiresAt ?s)" "in_i64 (N_LastActive ?s)" "in_i64 (N_TTL ?s)"
    "strmap_ok (N_Data ?s)"
    using assms by (simp_all add: snap_session_ok_def session_json_ok_def snapshotSessionFromDomain_def)
  have z: "N_Data snap_session_zero = None"
    by (simp add: snap_session_zero_def snapshotSessionFromDomain_def Session_zero_def)
  have "dec_struct snap_session_names snap_session_field (snap_session_json ?s) snap_session_zero =
      Inr (snap_session_zero \<lparr> N_ID := N_ID ?s, N_UserID := N_UserID ?s, N_TokenHash := N_TokenHash ?s, N_IPAddress := N_IPAddress ?s, N_UserAgent := N_UserAgent ?s, N_LastAccessIP := N_LastAccessIP ?s, N_LastAccessUA := N_LastAccessUA ?s, N_DeviceID := N_DeviceID ?s, N_CreatedBy := N_CreatedBy ?s, N_CreatedAt := N_CreatedAt ?s, N_ExpiresAt := N_ExpiresAt ?s, N_LastActive := N_LastActive ?s, N_Data := map_option (sort_key fst) (N_Data ?s), N_Version := N_Version ?s, N_ShardID := N_ShardID ?s, N_TTL := N_TTL ?s, N_IsDeleted := N_IsDeleted ?s \<rparr>)"
    unfolding dec_struct_def snap_session_json_def json.case
    by (simp add: find_field_mem snap_session_field_simps i z dec_json_strmap del: dec_uint.simps)
  then show ?thesis by (simp add: snapshotSessionFromDomain_def data_sorted_def)
qed

lemma snap_session_json_ok:
  assumes "snap_session_ok s"
  shows "json_ok (snap_session_json (snapshotSessionFromDomain s))"
    "json_depth (snap_session_json (snapshotSessionFromDomain s)) \<le> 2"
proof -
  note M = json_strmap_ok [of "S_Data s"]
  show "json_ok (snap_session_json (snapshotSessionFromDomain s))"
    using assms M(1)
    by (simp add: snap_session_json_def snapshotSessionFromDomain_def snap_session_ok_def session_json_ok_def)
  show "json_depth (snap_session_json (snapshotSessionFromDomain s)) \<le> 2"
    using M(2) by (simp add: snap_session_json_def snapshotSessionFromDomain_def)
qed

lemma dec_slice_JArr:
  assumes "\<And>x. x \<in> set xs \<Longrightarrow> dec (f x) = Inr (g x)"
  shows "dec_slice dec (JArr (map f xs)) = Inr (map g xs)"
proof -
  have "(\<And>x. x \<in> set xs \<Longrightarrow> dec (f x) = Inr (g x)) \<Longrightarrow>
      foldl (\<lambda>acc x. case acc of Inl e \<Rightarrow> Inl e | Inr l \<Rightarrow> map_sum id (\<lambda>y. l @ [y]) (dec x)) (Inr acc) (map f xs) =
      Inr (acc @ map g xs)" for acc
    by (induction xs arbitrary: acc) auto
  with assms show ?thesis by (simp add: dec_slice_def)
qed

lemma snap_sessions_roundtrip:
  assumes "list_all snap_session_ok ss"
  shows "json_Marshal_sessions (map snapshotSessionFromDomain ss) =
      Inr (bytes_of_string (json_text (JArr (map (snap_session_json \<circ> snapshotSessionFromDomain) ss))))"
    "json_Unmarshal_sessions (bytes_of_string (json_text (JArr (map (snap_session_json \<circ> snapshotSessionFromDomain) ss)))) =
      Inr (map (snapshotSessionFromDomain \<circ> data_sorted) ss)"
proof -
  let ?v = "JArr (map (snap_session_json \<circ> snapshotSessionFromDomain) ss)"
  have ok: "json_ok ?v" using assms snap_session_json_ok(1) by (auto simp: list_all_iff)
  have "json_depth ?v \<le> Suc 2"
    by (rule json_depth_le(1)) (use assms snap_session_json_ok(2) in \<open>auto simp: list_all_iff\<close>)
  then have d: "json_depth ?v \<le> maxNestingDepth" by (rule order_trans) simp
  show "json_Marshal_sessions (map snapshotSessionFromDomain ss) = Inr (bytes_of_string (json_text ?v))"
    by (simp add: json_Marshal_sessions_def json_Marshal_def)
  show "json_Unmarshal_sessions (bytes_of_string (json_text ?v)) = Inr (map (snapshotSessionFromDomain \<circ> data_sorted) ss)"
    unfolding json_Unmarshal_sessions_def json_roundtrip(2) [OF ok d]
    by (rule dec_slice_JArr) (use assms dec_snap_session in \<open>auto simp: list_all_iff\<close>)
qed

end
