(* ===== verification/Snapshot_Manager.thy ===== *)
theory Snapshot_Manager
  imports Snapshot_Json Wal_Codec Go_Os
begin

text \<open>
  Snapshot files, \<open>internal/storage/snapshot/manager.go\<close>: magic bytes, a JSON header and the
  sessions in JSON (encrypted or not), each behind its length, and a SHA-256 trailer; written to a
  temporary file that is renamed. The manager loads the newest valid file and prunes old ones.

  The formatted local time of an instant and the modification times of files are arguments. A path
  is the file's name in the one directory of the manager. An output that the code returns beside
  an error is not used by its callers and is left out.
\<close>

section \<open>Data\<close>

definition snap_magicBytes :: bytes where
  "snap_magicBytes = bytes_of_string ''TOKMSNAP''"

abbreviation snap_filePrefix :: string where "snap_filePrefix \<equiv> ''snapshot-''"
abbreviation snap_fileExtension :: string where "snap_fileExtension \<equiv> ''.snap''"
abbreviation snap_checksumSize :: nat where "snap_checksumSize \<equiv> 32"
abbreviation DefaultRetentionCount :: int where "DefaultRetentionCount \<equiv> 5"
abbreviation DefaultRetentionDays :: int where "DefaultRetentionDays \<equiv> 7"

definition snap_ErrInvalidMagic :: go_error where
  "snap_ErrInvalidMagic = PlainError ''snapshot: invalid magic bytes''"
definition snap_ErrChecksumMismatch :: go_error where
  "snap_ErrChecksumMismatch = PlainError ''snapshot: checksum mismatch''"
definition snap_ErrNoSnapshots :: go_error where
  "snap_ErrNoSnapshots = PlainError ''snapshot: no snapshots available''"

record snap_config =
  sc_Dir :: string
  sc_RetentionCount :: int
  sc_RetentionDays :: int
  sc_Cipher :: "cipher option"
  sc_NodeID :: string

definition snap_DefaultConfig :: "string \<Rightarrow> snap_config" where
  "snap_DefaultConfig d =
     \<lparr> sc_Dir = d, sc_RetentionCount = DefaultRetentionCount, sc_RetentionDays = DefaultRetentionDays,
       sc_Cipher = None, sc_NodeID = '''' \<rparr>"

text \<open>A manager is its configuration with the defaults filled in.\<close>

definition NewManager :: "os_calls \<Rightarrow> snap_config \<Rightarrow> go_error + snap_config" where
  "NewManager sys cfg =
     (if sc_Dir cfg = '''' then Inl (PlainError ''snapshot: dir is required'')
      else
        (case os_MkdirAll sys of
           Some err \<Rightarrow> Inl (WrapError ''snapshot: create dir'' err)
         | None \<Rightarrow>
             Inr (cfg \<lparr> sc_RetentionCount := (if sc_RetentionCount cfg = 0 then DefaultRetentionCount
                                              else sc_RetentionCount cfg),
                        sc_RetentionDays := (if sc_RetentionDays cfg = 0 then DefaultRetentionDays
                                             else sc_RetentionDays cfg) \<rparr>)))"

record snap_info =
  I_ID :: string
  I_WALLastOffset :: u64
  I_SessionCount :: int
  I_CreatedAt :: int
  I_Size :: nat
  I_Path :: string
  I_Checksum :: string
  I_NodeID :: string

section \<open>Writing\<close>

definition snap_pad4 :: "nat \<Rightarrow> string" where
  "snap_pad4 n = (let ds = dec_digits n in replicate (4 - length ds) (CHR ''0'') @ ds)"

definition generateID :: "(int \<Rightarrow> string) \<Rightarrow> os_calls \<Rightarrow> dir \<Rightarrow> int \<Rightarrow> string" where
  "generateID format_time sys d now =
     (let ts = format_time now;
          names = (if os_ReadDir sys = None then dir_names d else []);
          seq = 1 + length (filter (\<lambda>name. HasPrefix name (snap_filePrefix @ ts @ ''-'') \<and>
                                           HasSuffix name snap_fileExtension) names)
      in snap_filePrefix @ ts @ ''-'' @ snap_pad4 seq)"

text \<open>Writes in sequence until one fails; a label is the text that wraps the error.\<close>

fun write_chunks :: "os_calls \<Rightarrow> (string \<times> bytes) list \<Rightarrow> bytes \<times> go_error option" where
  "write_chunks sys [] = ([], None)"
| "write_chunks sys ((label, b) # rest) =
     (case os_Write sys b of
        (n, Some err) \<Rightarrow> (take n b, Some (if label = '''' then err else WrapError label err))
      | (n, None) \<Rightarrow> (case write_chunks sys rest of (c, e) \<Rightarrow> (take n b @ c, e)))"

definition snap_header_of :: "snap_config \<Rightarrow> int \<Rightarrow> session list \<Rightarrow> u64 \<Rightarrow> snapshot_header" where
  "snap_header_of m now sessions walLastOffset =
     \<lparr> H_Version = snap_headerVersion, H_CreatedAt = UnixMilli now, H_NodeID = sc_NodeID m,
       H_SessionCount = of_nat (length sessions), H_WALLastOffset = walLastOffset,
       H_Encrypted = (sc_Cipher m \<noteq> None) \<rparr>"

text \<open>The sessions in JSON, encrypted when there is a cipher.\<close>

definition snap_data :: "snap_config \<Rightarrow> session list \<Rightarrow> go_error + bytes" where
  "snap_data m sessions =
     (case json_Marshal_sessions (map snapshotSessionFromDomain sessions) of
        Inl err \<Rightarrow> Inl (WrapError ''snapshot: marshal sessions'' err)
      | Inr b \<Rightarrow>
          (case sc_Cipher m of
             None \<Rightarrow> Inr b
           | Some c \<Rightarrow> (case ci_Encrypt c b [] of
                          Inl err \<Rightarrow> Inl (WrapError ''snapshot: encrypt'' err)
                        | Inr x \<Rightarrow> Inr x)))"

text \<open>The temporary file's contents and the error that stopped it, if any: the three stages of
  writing in the order of the code.\<close>

definition snap_write_temp ::
  "os_calls \<Rightarrow> int \<Rightarrow> snap_config \<Rightarrow> session list \<Rightarrow> u64 \<Rightarrow> bytes \<times> go_error option" where
  "snap_write_temp sys now m sessions off =
     (case write_chunks sys [('''', snap_magicBytes)] of
        (c0, Some err) \<Rightarrow> (c0, Some err)
      | (c0, None) \<Rightarrow>
     (case json_Marshal_header (snap_header_of m now sessions off) of
        Inl err \<Rightarrow> (c0, Some (WrapError ''snapshot: marshal header'' err))
      | Inr hdr \<Rightarrow>
     (case write_chunks sys [(''snapshot: write header length'', PutUint32 (of_nat (length hdr))),
                             (''snapshot: write header'', hdr)] of
        (c1, Some err) \<Rightarrow> (c0 @ c1, Some err)
      | (c1, None) \<Rightarrow>
     (case snap_data m sessions of
        Inl err \<Rightarrow> (c0 @ c1, Some err)
      | Inr dat \<Rightarrow>
     (case write_chunks sys [(''snapshot: write data length'', PutUint32 (of_nat (length dat))),
                             (''snapshot: write data'', dat)] of
        (c2, Some err) \<Rightarrow> (c0 @ c1 @ c2, Some err)
      | (c2, None) \<Rightarrow>
          (let body = c0 @ c1 @ c2 in
           case write_chunks sys [(''snapshot: write checksum'', Sum256 body)] of
             (c3, Some err) \<Rightarrow> (body @ c3, Some err)
           | (c3, None) \<Rightarrow>
               (body @ c3,
                case os_Sync sys of
                  Some err \<Rightarrow> Some (WrapError ''snapshot: sync'' err)
                | None \<Rightarrow> map_option (WrapError ''snapshot: close'') (os_Close sys))))))))"

text \<open>The deferred removal of the temporary file.\<close>

definition drop_temp :: "os_calls \<Rightarrow> dir \<Rightarrow> string \<Rightarrow> bytes \<Rightarrow> dir" where
  "drop_temp sys d tmp c = (if os_Remove sys tmp = None then gm_del tmp d else gm_set tmp c d)"

definition Manager_Create ::
  "(int \<Rightarrow> string) \<Rightarrow> os_calls \<Rightarrow> int \<Rightarrow> dir \<Rightarrow> snap_config \<Rightarrow> session list \<Rightarrow> u64
     \<Rightarrow> dir \<times> (go_error + snap_info)" where
  "Manager_Create format_time sys now d m sessions walLastOffset =
     (let i = generateID format_time sys d now; tmp = i @ ''.tmp''; final = i @ snap_fileExtension in
      case os_Open sys tmp of
        Some err \<Rightarrow> (d, Inl (WrapError ''snapshot: create temp file'' err))
      | None \<Rightarrow>
     (case snap_write_temp sys now m sessions walLastOffset of
        (c, Some err) \<Rightarrow> (drop_temp sys d tmp c, Inl err)
      | (c, None) \<Rightarrow>
     (case os_Stat sys tmp of
        Some err \<Rightarrow> (drop_temp sys d tmp c, Inl err)
      | None \<Rightarrow>
     (case os_Rename sys of
        Some err \<Rightarrow> (drop_temp sys d tmp c, Inl (WrapError ''snapshot: rename'' err))
      | None \<Rightarrow>
          (gm_set final c (gm_del tmp d),
           Inr \<lparr> I_ID = i, I_WALLastOffset = walLastOffset, I_SessionCount = int (length sessions),
                 I_CreatedAt = UnixMilli now, I_Size = length c, I_Path = final,
                 I_Checksum = hex_EncodeToString (drop (length c - snap_checksumSize) c),
                 I_NodeID = sc_NodeID m \<rparr>)))))"

section \<open>Reading\<close>

text \<open>The decoded sessions: none for an encrypted file without a cipher.\<close>

definition snap_sessions ::
  "cipher option \<Rightarrow> bool \<Rightarrow> bytes \<Rightarrow> go_error + session list" where
  "snap_sessions ci encrypted dat =
     (let decode = (\<lambda>b. case json_Unmarshal_sessions b of
                          Inl err \<Rightarrow> Inl (WrapError ''snapshot: unmarshal sessions'' err)
                        | Inr l \<Rightarrow> Inr (map toDomain l))
      in if encrypted then
           (case ci of
              None \<Rightarrow> Inr []
            | Some c \<Rightarrow> (case ci_Decrypt c dat [] of
                           Inl err \<Rightarrow> Inl (WrapError ''snapshot: decrypt'' err)
                         | Inr plain \<Rightarrow> decode plain))
         else if ci \<noteq> None then Inl (PlainError ''snapshot: expected encrypted snapshot'')
         else decode dat)"

text \<open>The part of \<open>loadFile\<close> after the checksum: header and data from the bytes before the trailer.\<close>

definition snap_parse ::
  "cipher option \<Rightarrow> bytes \<Rightarrow> go_error + snapshot_header \<times> session list" where
  "snap_parse ci body =
     (case io_ReadFull 8 body of
        (Inl err, _) \<Rightarrow> Inl err
      | (Inr magic, b1) \<Rightarrow>
          if magic \<noteq> snap_magicBytes then Inl snap_ErrInvalidMagic
          else
     (case io_ReadFull 4 b1 of
        (Inl err, _) \<Rightarrow> Inl err
      | (Inr hl, b2) \<Rightarrow>
          if Uint32 hl = 0 then Inl (PlainError ''snapshot: empty header'')
          else
     (case io_ReadFull (unat (Uint32 hl)) b2 of
        (Inl err, _) \<Rightarrow> Inl err
      | (Inr hj, b3) \<Rightarrow>
     (case json_Unmarshal_header hj of
        Inl err \<Rightarrow> Inl (WrapError ''snapshot: unmarshal header'' err)
      | Inr hdr \<Rightarrow>
     (case io_ReadFull 4 b3 of
        (Inl err, _) \<Rightarrow> Inl err
      | (Inr dl, b4) \<Rightarrow>
     (case io_ReadFull (unat (Uint32 dl)) b4 of
        (Inl err, _) \<Rightarrow> Inl err
      | (Inr dat, _) \<Rightarrow>
          (case snap_sessions ci (H_Encrypted hdr) dat of
             Inl err \<Rightarrow> Inl err
           | Inr l \<Rightarrow> Inr (hdr, l))))))))"

definition loadFile ::
  "os_calls \<Rightarrow> dir \<Rightarrow> snap_config \<Rightarrow> string \<Rightarrow> go_error + session list \<times> snap_info" where
  "loadFile sys d m path =
     (case os_Open sys path of
        Some err \<Rightarrow> Inl err
      | None \<Rightarrow>
     (case os_Stat sys path of
        Some err \<Rightarrow> Inl err
      | None \<Rightarrow>
     (case gm_get d path of
        None \<Rightarrow> Inl ErrNotExist
      | Some c \<Rightarrow>
          if length c < 8 + snap_checksumSize then Inl snap_ErrChecksumMismatch
          else
            (let dataLen = length c - snap_checksumSize; expected = drop dataLen c in
             if Sum256 (take dataLen c) \<noteq> expected then Inl snap_ErrChecksumMismatch
             else
               (case snap_parse (sc_Cipher m) (take dataLen c) of
                  Inl err \<Rightarrow> Inl err
                | Inr (hdr, sessions) \<Rightarrow>
                    Inr (sessions,
                      \<lparr> I_ID = take (length path - length snap_fileExtension) path,
                        I_WALLastOffset = H_WALLastOffset hdr, I_SessionCount = sint (H_SessionCount hdr),
                        I_CreatedAt = H_CreatedAt hdr, I_Size = length c, I_Path = path,
                        I_Checksum = hex_EncodeToString expected, I_NodeID = H_NodeID hdr \<rparr>))))))"

text \<open>The listing: names in order, those whose \<open>Stat\<close> fails left out; the paths are what the
  callers use.\<close>

definition Manager_List :: "os_calls \<Rightarrow> dir \<Rightarrow> go_error + string list" where
  "Manager_List sys d =
     (case os_ReadDir sys of
        Some err \<Rightarrow> if err = ErrNotExist then Inr [] else Inl err
      | None \<Rightarrow>
          Inr (filter (\<lambda>p. os_Stat sys p = None)
                 (filter (\<lambda>name. HasPrefix name snap_filePrefix \<and> HasSuffix name snap_fileExtension)
                    (dir_names d))))"

text \<open>The loop of \<open>Load\<close> over the paths, newest first.\<close>

fun load_loop ::
  "os_calls \<Rightarrow> dir \<Rightarrow> snap_config \<Rightarrow> string list \<Rightarrow> go_error + session list \<times> snap_info" where
  "load_loop sys d m [] = Inl snap_ErrNoSnapshots"
| "load_loop sys d m (path # paths) =
     (case loadFile sys d m path of
        Inr x \<Rightarrow> Inr x
      | Inl err \<Rightarrow>
          if errors_Is err snap_ErrChecksumMismatch \<or> errors_Is err snap_ErrInvalidMagic
          then load_loop sys d m paths else Inl err)"

definition Manager_Load ::
  "os_calls \<Rightarrow> dir \<Rightarrow> snap_config \<Rightarrow> go_error + session list \<times> snap_info" where
  "Manager_Load sys d m =
     (case Manager_List sys d of
        Inl err \<Rightarrow> Inl err
      | Inr paths \<Rightarrow> if paths = [] then Inl snap_ErrNoSnapshots else load_loop sys d m (rev paths))"

section \<open>Pruning\<close>

definition prune_kept :: "os_calls \<Rightarrow> int \<Rightarrow> (string \<Rightarrow> int) \<Rightarrow> snap_config \<Rightarrow> string list \<Rightarrow> string list" where
  "prune_kept sys now mtime m paths =
     (if sc_RetentionCount m > 0 then drop (length paths - nat (sc_RetentionCount m)) paths else []) @
     (if sc_RetentionDays m > 0 then
        (let cutoff = now + i64 (i64 (i64 (- sc_RetentionDays m) * 24) * Hour) in
         filter (\<lambda>p. os_Stat sys p = None \<and> mtime p > cutoff) paths)
      else []) @
     [last paths]"

definition Manager_Prune ::
  "os_calls \<Rightarrow> int \<Rightarrow> (string \<Rightarrow> int) \<Rightarrow> dir \<Rightarrow> snap_config \<Rightarrow> dir \<times> go_error option" where
  "Manager_Prune sys now mtime d m =
     (case Manager_List sys d of
        Inl err \<Rightarrow> (d, Some err)
      | Inr paths \<Rightarrow>
          if length paths \<le> 1 then (d, None)
          else
            (let keep = prune_kept sys now mtime m paths in
             (foldl (\<lambda>d p. if p \<in> set keep then d
                           else if os_Remove sys p = None then gm_del p d else d) d paths, None)))"

section \<open>Round trip\<close>

lemma write_chunks_ok [simp]: "write_chunks os_ok cs = (concat (map snd cs), None)"
  by (induction cs) auto

text \<open>The snapshots whose text holds all of them and whose two parts have lengths that fit their 32-bit
  fields; of the cipher it is relied on that decryption undoes encryption.\<close>

definition snap_codec_ok :: "cipher option \<Rightarrow> snapshot_header \<Rightarrow> session list \<Rightarrow> bool" where
  "snap_codec_ok ci hdr ss \<longleftrightarrow>
     header_json_ok hdr \<and> length (json_text (header_json hdr)) < 2 ^ 32 \<and> list_all snap_session_ok ss \<and>
     (let b = bytes_of_string (json_text (JArr (map (snap_session_json \<circ> snapshotSessionFromDomain) ss))) in
      case ci of
        None \<Rightarrow> length b < 2 ^ 32
      | Some c \<Rightarrow> \<exists>x. ci_Encrypt c b [] = Inr x \<and> ci_Decrypt c x [] = Inr b \<and> length x < 2 ^ 32)"

definition snap_body :: "bytes \<Rightarrow> bytes \<Rightarrow> bytes" where
  "snap_body hb dat =
     snap_magicBytes @ PutUint32 (of_nat (length hb)) @ hb @ PutUint32 (of_nat (length dat)) @ dat"

lemma unat_of_nat_u32: "n < 2 ^ 32 \<Longrightarrow> unat (of_nat n :: u32) = n"
  unfolding unat_of_nat by (rule mod_less) simp

lemma snap_parse_body:
  assumes "json_Unmarshal_header hb = Inr hdr" "hb \<noteq> []" "length hb < 2 ^ 32" "length dat < 2 ^ 32"
    and "snap_sessions ci (H_Encrypted hdr) dat = Inr ss"
  shows "snap_parse ci (snap_body hb dat) = Inr (hdr, ss)"
proof -
  have "length snap_magicBytes = 8" by (simp add: snap_magicBytes_def)
  moreover have "(of_nat (length hb) :: u32) \<noteq> 0"
    using unat_of_nat_u32 [OF assms(3)] assms(2) by (metis length_0_conv unat_0)
  ultimately show ?thesis
    using assms unat_of_nat_u32 [OF assms(3)] unat_of_nat_u32 [OF assms(4)]
    by (simp add: snap_parse_def snap_body_def)
qed

lemma snap_write_parse:
  assumes "snap_codec_ok (sc_Cipher m) (snap_header_of m now ss off) ss"
  obtains body where "snap_write_temp os_ok now m ss off = (body @ Sum256 body, None)" "8 \<le> length body"
    "snap_parse (sc_Cipher m) body = Inr (snap_header_of m now ss off, map data_sorted ss)"
proof -
  let ?hdr = "snap_header_of m now ss off"
  obtain hb where hb: "json_Marshal_header ?hdr = Inr hb" "hb \<noteq> []" "length hb < 2 ^ 32" "json_Unmarshal_header hb = Inr ?hdr"
    using assms header_json_roundtrip [of ?hdr] by (auto simp: snap_codec_ok_def)
  have ok: "list_all snap_session_ok ss" using assms by (simp add: snap_codec_ok_def)
  obtain dat where dat: "snap_data m ss = Inr dat" "length dat < 2 ^ 32"
    "snap_sessions (sc_Cipher m) (H_Encrypted ?hdr) dat = Inr (map data_sorted ss)"
    using assms snap_sessions_roundtrip [OF ok]
    by (cases "sc_Cipher m")
      (auto simp: snap_codec_ok_def snap_data_def snap_sessions_def snap_header_of_def o_def Let_def)
  have "snap_write_temp os_ok now m ss off = (snap_body hb dat @ Sum256 (snap_body hb dat), None)"
    using hb(1) dat(1) by (simp add: snap_write_temp_def snap_body_def Let_def)
  moreover have "8 \<le> length (snap_body hb dat)" by (simp add: snap_body_def snap_magicBytes_def)
  ultimately show ?thesis using snap_parse_body [OF hb(4,2,3) dat(2,3)] by (rule that)
qed

lemma Manager_Create_ok:
  assumes "snap_codec_ok (sc_Cipher m) (snap_header_of m now ss off) ss" "length ss < 2 ^ 63"
  obtains d' info where "Manager_Create ft os_ok now d m ss off = (d', Inr info)"
    "I_WALLastOffset info = off" "I_Path info = generateID ft os_ok d now @ snap_fileExtension"
    "loadFile os_ok d' m (I_Path info) = Inr (map data_sorted ss, info)"
    "\<And>p. gm_get d' p \<noteq> None \<Longrightarrow> p \<noteq> I_Path info \<Longrightarrow> gm_get d' p = gm_get d p"
    "gm_get d' (I_Path info) \<noteq> None"
proof -
  obtain body where b: "snap_write_temp os_ok now m ss off = (body @ Sum256 body, None)" "8 \<le> length body"
    "snap_parse (sc_Cipher m) body = Inr (snap_header_of m now ss off, map data_sorted ss)"
    by (rule snap_write_parse [OF assms(1)])
  let ?i = "generateID ft os_ok d now"
  let ?c = "body @ Sum256 body"
  let ?d = "gm_set (?i @ snap_fileExtension) ?c (gm_del (?i @ ''.tmp'') d)"
  let ?info = "\<lparr> I_ID = ?i, I_WALLastOffset = off, I_SessionCount = int (length ss),
                 I_CreatedAt = UnixMilli now, I_Size = length ?c, I_Path = ?i @ snap_fileExtension,
                 I_Checksum = hex_EncodeToString (Sum256 body), I_NodeID = sc_NodeID m \<rparr>"
  have cnt: "sint (of_nat (length ss) :: u64) = int (length ss)"
    using assms(2) by (simp add: sint_uint uint_nat unat_of_nat signed_take_bit_int_eq_self flip: of_nat_mod)
  have "Manager_Create ft os_ok now d m ss off = (?d, Inr ?info)"
    using b(1) by (simp add: Manager_Create_def Let_def)
  moreover have "loadFile os_ok ?d m (I_Path ?info) = Inr (map data_sorted ss, ?info)"
    using b(2,3) cnt by (simp add: loadFile_def gm_get_set snap_header_of_def Let_def)
  ultimately show ?thesis
    by (intro that [of ?d ?info]) (auto simp: gm_get_set gm_get_del split: if_splits)
qed

section \<open>Choosing a file\<close>

lemma Manager_List_ok:
  assumes "Manager_List os_ok d = Inr paths"
  shows "sorted paths" and "gm_wf d \<Longrightarrow> distinct paths"
    and "p \<in> set paths \<longleftrightarrow>
      gm_get d p \<noteq> None \<and> HasPrefix p snap_filePrefix \<and> HasSuffix p snap_fileExtension"
  using assms
  by (auto simp: Manager_List_def dir_names_def gm_get_eq_None gm_wf_def sorted_wrt_filter distinct_filter) force

text \<open>The files newer than the first valid one are corrupted: they are skipped.\<close>

lemma load_loop_skips:
  assumes "\<And>q. q \<in> set bad \<Longrightarrow> loadFile sys d m q = Inl snap_ErrChecksumMismatch"
    and "loadFile sys d m p = Inr x"
  shows "load_loop sys d m (bad @ p # rest) = Inr x"
  using assms by (induction bad) (auto simp: snap_ErrChecksumMismatch_def)

definition snap_corrupted :: "bytes \<Rightarrow> bool" where
  "snap_corrupted c \<longleftrightarrow> length c < 40 \<or> Sum256 (take (length c - 32) c) \<noteq> drop (length c - 32) c"

lemma loadFile_corrupted:
  "gm_get d q = Some c \<Longrightarrow> snap_corrupted c \<Longrightarrow> loadFile os_ok d m q = Inl snap_ErrChecksumMismatch"
  by (auto simp: loadFile_def snap_corrupted_def Let_def)

lemma Load_falls_back:
  assumes "Manager_List os_ok d = Inr (older @ p # newer)" "loadFile os_ok d m p = Inr x"
    and "\<And>q. q \<in> set newer \<Longrightarrow> \<exists>c. gm_get d q = Some c \<and> snap_corrupted c"
  shows "Manager_Load os_ok d m = Inr x"
proof -
  have "loadFile os_ok d m q = Inl snap_ErrChecksumMismatch" if "q \<in> set (rev newer)" for q
    using assms(3) that loadFile_corrupted by fastforce
  then have "load_loop os_ok d m (rev newer @ p # rev older) = Inr x"
    using load_loop_skips [of "rev newer" os_ok d m p x "rev older"] assms(2) by blast
  then show ?thesis using assms(1) by (simp add: Manager_Load_def)
qed

text \<open>What \<open>Create\<close> wrote is what \<open>Load\<close> returns, when no listed file has a later name.\<close>

lemma Create_then_Load:
  assumes "snap_codec_ok (sc_Cipher m) (snap_header_of m now ss off) ss" "length ss < 2 ^ 63"
    and "\<And>p. gm_get d p \<noteq> None \<Longrightarrow> HasPrefix p snap_filePrefix \<Longrightarrow> HasSuffix p snap_fileExtension \<Longrightarrow>
      p \<le> generateID ft os_ok d now @ snap_fileExtension"
  obtains d' info where "Manager_Create ft os_ok now d m ss off = (d', Inr info)" "I_WALLastOffset info = off"
    "Manager_Load os_ok d' m = Inr (map data_sorted ss, info)"
proof -
  obtain d' info where c: "Manager_Create ft os_ok now d m ss off = (d', Inr info)"
    "I_WALLastOffset info = off" "I_Path info = generateID ft os_ok d now @ snap_fileExtension"
    "loadFile os_ok d' m (I_Path info) = Inr (map data_sorted ss, info)"
    "\<And>p. gm_get d' p \<noteq> None \<Longrightarrow> p \<noteq> I_Path info \<Longrightarrow> gm_get d' p = gm_get d p"
    "gm_get d' (I_Path info) \<noteq> None"
    by (rule Manager_Create_ok [OF assms(1,2), of ft d]) blast
  obtain paths where l: "Manager_List os_ok d' = Inr paths" by (simp add: Manager_List_def)
  have "HasPrefix (I_Path info) snap_filePrefix" "HasSuffix (I_Path info) snap_fileExtension"
    unfolding c(3) by (simp_all add: generateID_def Let_def HasPrefix_def HasSuffix_iff)
  then have mem: "I_Path info \<in> set paths" using Manager_List_ok(3) [OF l] c(6) by blast
  have "q \<le> I_Path info" if "q \<in> set paths" for q
    using that Manager_List_ok(3) [OF l, of q] c(5) [of q] assms(3) [of q] c(3) by (cases "q = I_Path info") auto
  then have "last paths \<le> I_Path info" using mem by (metis last_in_set empty_iff list.set(1))
  moreover have "I_Path info \<le> last paths"
    using Manager_List_ok(1) [OF l] mem
    by (cases paths rule: rev_cases) (auto simp: sorted_append)
  ultimately have "last paths = I_Path info" by simp
  then have "Manager_List os_ok d' = Inr (butlast paths @ I_Path info # [])"
    using l mem by (metis append_butlast_last_id empty_iff list.set(1))
  from Load_falls_back [OF this c(4)] show ?thesis using that [OF c(1,2)] by simp
qed

section \<open>Retention\<close>

lemma prune_fold:
  "gm_get (foldl (\<lambda>d p. if p \<in> K then d else if os_Remove sys p = None then gm_del p d else d) d paths) q =
     (if q \<in> set paths \<and> q \<notin> K \<and> os_Remove sys q = None then None else gm_get d q)"
  by (induction paths arbitrary: d) (auto simp: gm_get_del)

text \<open>A file that pruning removes is a listed snapshot, is not the newest, is not among the last
  \<open>RetentionCount\<close> and is older than \<open>RetentionDays\<close>.\<close>

lemma Prune_removes:
  assumes "Manager_Prune sys now mtime d m = (d', None)" "gm_get d q \<noteq> None" "gm_get d' q = None"
    and "Manager_List sys d = Inr paths"
  shows "q \<in> set paths" "q \<noteq> last paths"
    "0 < sc_RetentionCount m \<Longrightarrow> q \<notin> set (drop (length paths - nat (sc_RetentionCount m)) paths)"
    "0 < sc_RetentionDays m \<Longrightarrow> mtime q \<le> now + i64 (i64 (i64 (- sc_RetentionDays m) * 24) * Hour)"
proof -
  have st: "q \<in> set paths \<Longrightarrow> os_Stat sys q = None"
    using assms(4) by (auto simp: Manager_List_def split: option.splits if_splits)
  have "q \<in> set paths \<and> q \<notin> set (prune_kept sys now mtime m paths)"
    using assms by (auto simp: Manager_Prune_def Let_def prune_fold split: if_splits)
  then show "q \<in> set paths" "q \<noteq> last paths"
    "0 < sc_RetentionCount m \<Longrightarrow> q \<notin> set (drop (length paths - nat (sc_RetentionCount m)) paths)"
    "0 < sc_RetentionDays m \<Longrightarrow> mtime q \<le> now + i64 (i64 (i64 (- sc_RetentionDays m) * 24) * Hour)"
    using st by (auto simp: prune_kept_def Let_def not_less)
qed

lemma Prune_changes:
  assumes "Manager_Prune sys now mtime d m = (d', e)" "gm_get d' q \<noteq> gm_get d q"
  shows "gm_get d' q = None"
  using assms by (auto simp: Manager_Prune_def Let_def prune_fold split: if_splits sum.splits)

text \<open>Pruning leaves a newest file, so what was loadable as the newest stays loadable.\<close>

lemma Prune_keeps_newest:
  assumes "Manager_Prune sys now mtime d m = (d', e)" "Manager_List sys d = Inr paths" "paths \<noteq> []"
  shows "gm_get d' (last paths) = gm_get d (last paths)"
proof -
  have "last paths \<in> set (prune_kept sys now mtime m paths)" by (simp add: prune_kept_def)
  then show ?thesis using assms by (auto simp: Manager_Prune_def Let_def prune_fold split: if_splits)
qed

section \<open>Properties\<close>

text \<open>C13: a snapshot is loaded as it was taken. When no snapshot file has a later name, \<open>Load\<close> after
  \<open>Create\<close> returns exactly the sessions of the snapshot, their data sorted by key, and the
  position in the log that was recorded with them.\<close>

theorem snapshot_create_load:
  assumes "snap_codec_ok (sc_Cipher m) (snap_header_of m now ss off) ss" "length ss < 2 ^ 63"
    and "\<And>p. gm_get d p \<noteq> None \<Longrightarrow> HasPrefix p snap_filePrefix \<Longrightarrow> HasSuffix p snap_fileExtension \<Longrightarrow>
      p \<le> generateID ft os_ok d now @ snap_fileExtension"
  shows "\<exists>d' info. Manager_Create ft os_ok now d m ss off = (d', Inr info) \<and> I_WALLastOffset info = off \<and>
    Manager_Load os_ok d' m = Inr (map data_sorted ss, info)"
  by (rule Create_then_Load [OF assms]) blast+

lemma example_snap_ok:
  "snap_codec_ok None (snap_header_of (snap_DefaultConfig ''snap'') 1000000 [example_session ''tmss-1'' ''u'' ''''] 7)
     [example_session ''tmss-1'' ''u'' '''']"
proof -
  let ?h = "snap_header_of (snap_DefaultConfig ''snap'') 1000000 [example_session ''tmss-1'' ''u'' ''''] 7"
  let ?s = "example_session ''tmss-1'' ''u'' ''''"
  have "length (json_text (header_json ?h)) \<le> 200"
    "length (json_text (JArr (map (snap_session_json \<circ> snapshotSessionFromDomain) [?s]))) \<le> 600" by code_simp+
  then have "length (json_text (header_json ?h)) < 2 ^ 32"
    "length (json_text (JArr (map (snap_session_json \<circ> snapshotSessionFromDomain) [?s]))) < 2 ^ 32"
    by (auto elim: order_le_less_trans)
  moreover have "session_json_ok ?s" by code_simp
  ultimately show ?thesis
    by (simp add: snap_codec_ok_def header_json_ok_def snap_session_ok_def snap_header_of_def
        snap_DefaultConfig_def UnixMilli_def in_i64_def example_session_def Session_zero_def)
qed

theorem snapshot_create_load_witness:
  "\<exists>d' info. Manager_Create (\<lambda>_. ''20240101000000'') os_ok 1000000 [] (snap_DefaultConfig ''snap'')
       [example_session ''tmss-1'' ''u'' ''''] 7 = (d', Inr info) \<and> I_WALLastOffset info = 7 \<and>
     Manager_Load os_ok d' (snap_DefaultConfig ''snap'') = Inr (map data_sorted [example_session ''tmss-1'' ''u'' ''''], info)"
  using snapshot_create_load [of "snap_DefaultConfig ''snap''" 1000000 "[example_session ''tmss-1'' ''u'' '''']" 7 "[]"
      "\<lambda>_. ''20240101000000''"] example_snap_ok
  by (simp add: snap_DefaultConfig_def)

text \<open>C14: a corrupted snapshot does not block recovery, and no retention rule takes the newest file.
  \<open>Load\<close> returns the newest snapshot that loads when all newer files fail their checksum;
  \<open>Prune\<close> removes only listed snapshots, never the newest, none of the last
  \<open>RetentionCount\<close> and none younger than \<open>RetentionDays\<close>.\<close>

theorem snapshot_fallback_and_retention:
  assumes "Manager_List os_ok d = Inr (older @ p # newer)" "loadFile os_ok d m p = Inr x"
    and "list_all (\<lambda>q. \<exists>c. gm_get d q = Some c \<and> snap_corrupted c) newer"
    and "Manager_Prune os_ok now mtime d m = (d', None)"
  shows "Manager_Load os_ok d m = Inr x \<and>
    (\<forall>q. gm_get d' q \<noteq> gm_get d q \<longrightarrow> gm_get d' q = None \<and> q \<in> set (older @ p # newer) \<and> q \<noteq> last (p # newer) \<and>
      (0 < sc_RetentionCount m \<longrightarrow>
         q \<notin> set (drop (length (older @ p # newer) - nat (sc_RetentionCount m)) (older @ p # newer))) \<and>
      (0 < sc_RetentionDays m \<longrightarrow> mtime q \<le> now + i64 (i64 (i64 (- sc_RetentionDays m) * 24) * Hour)))"
proof (intro conjI allI impI)
  show "Manager_Load os_ok d m = Inr x"
    using Load_falls_back [OF assms(1,2)] assms(3) by (simp add: list_all_iff)
  fix q assume ch: "gm_get d' q \<noteq> gm_get d q"
  show none: "gm_get d' q = None" by (rule Prune_changes [OF assms(4) ch])
  note P = Prune_removes [OF assms(4) ch [unfolded none, symmetric] none assms(1)]
  show "q \<in> set (older @ p # newer)" by (rule P(1))
  show "q \<noteq> last (p # newer)" using P(2) by simp
  show "q \<notin> set (drop (length (older @ p # newer) - nat (sc_RetentionCount m)) (older @ p # newer))"
    if "0 < sc_RetentionCount m" by (rule P(3) [OF that])
  show "mtime q \<le> now + i64 (i64 (i64 (- sc_RetentionDays m) * 24) * Hour)"
    if "0 < sc_RetentionDays m" by (rule P(4) [OF that])
qed

theorem snapshot_fallback_and_retention_witness:
  "\<exists>body x. Manager_Load os_ok [(''snapshot-1.snap'', body), (''snapshot-2.snap'', [])] (snap_DefaultConfig ''snap'') = Inr x \<and>
     fst x = map data_sorted [example_session ''tmss-1'' ''u'' '''']"
proof -
  let ?m = "snap_DefaultConfig ''snap''" and ?ss = "[example_session ''tmss-1'' ''u'' '''']"
  have ok: "snap_codec_ok (sc_Cipher ?m) (snap_header_of ?m 1000000 ?ss 7) ?ss"
    using example_snap_ok by (simp add: snap_DefaultConfig_def)
  obtain body where b: "8 \<le> length body" "snap_parse (sc_Cipher ?m) body = Inr (snap_header_of ?m 1000000 ?ss 7, map data_sorted ?ss)"
    by (rule snap_write_parse [OF ok])
  let ?d = "[(''snapshot-1.snap'', body @ Sum256 body), (''snapshot-2.snap'', [])]"
  have "map fst ?d = [''snapshot-1.snap'', ''snapshot-2.snap'']" by simp
  moreover have "sort [''snapshot-1.snap'', ''snapshot-2.snap''] = [''snapshot-1.snap'', ''snapshot-2.snap'']" by code_simp
  ultimately have l: "Manager_List os_ok ?d = Inr ([] @ ''snapshot-1.snap'' # [''snapshot-2.snap''])"
    by (simp add: Manager_List_def dir_names_def HasPrefix_def HasSuffix_def)
  obtain x where x: "loadFile os_ok ?d ?m ''snapshot-1.snap'' = Inr x" "fst x = map data_sorted ?ss"
    using b by (simp add: loadFile_def Let_def gm_get_def)
  have c: "list_all (\<lambda>q. \<exists>c. gm_get ?d q = Some c \<and> snap_corrupted c) [''snapshot-2.snap'']"
    by (simp add: gm_get_def snap_corrupted_def)
  obtain d' where p: "Manager_Prune os_ok 0 (\<lambda>_. 0) ?d ?m = (d', None)"
    using l by (auto simp: Manager_Prune_def Let_def)
  from snapshot_fallback_and_retention [OF l x(1) c p] x(2) show ?thesis by blast
qed

end
