(* ===== verification/Engine.thy ===== *)
theory Engine
  imports Session_Service Wal_Reader Wal_Compactor Snapshot_Manager
begin

text \<open>
  The storage engine, \<open>internal/storage/engine.go\<close>: the in-memory store, the log and the
  snapshots put together. A change is appended to the log and then made in memory; recovery loads
  the newest valid snapshot and replays the log from the offset it records.

  The state is the store, the writer, the last offset and the two directories. The outcomes of
  operating-system calls are the argument \<open>sys\<close>; in the interface the services see, the calls
  made at the instant \<open>now\<close> have the outcomes \<open>sys now\<close>. Log lines are left out. The
  background goroutine calls \<open>TriggerSnapshot\<close>.
\<close>

section \<open>State and construction\<close>

record engine_config =
  ec_DataDir :: string
  ec_WAL :: wal_config
  ec_Snapshot :: snap_config
  ec_MaxSessionsPerUser :: int
  ec_SnapshotInterval :: int
  ec_Cipher :: "cipher option"
  ec_NodeID :: string

abbreviation DefaultSnapshotInterval :: int where "DefaultSnapshotInterval \<equiv> Hour"
abbreviation DefaultWALDir :: string where "DefaultWALDir \<equiv> ''data/wal''"
abbreviation DefaultSnapshotDir :: string where "DefaultSnapshotDir \<equiv> ''data/snapshots''"

definition engine_DefaultConfig :: "string \<Rightarrow> engine_config" where
  "engine_DefaultConfig dataDir =
     \<lparr> ec_DataDir = dataDir, ec_WAL = wal_DefaultConfig (dataDir @ ''/'' @ DefaultWALDir),
       ec_Snapshot = snap_DefaultConfig (dataDir @ ''/'' @ DefaultSnapshotDir),
       ec_MaxSessionsPerUser = 0, ec_SnapshotInterval = DefaultSnapshotInterval, ec_Cipher = None,
       ec_NodeID = '''' \<rparr>"

record engine =
  en_cfg :: engine_config
  en_store :: store
  en_wal :: wal_writer
  en_snapshot :: snap_config
  en_lastWALOffset :: u64
  en_walDir :: dir
  en_snapDir :: dir

text \<open>The seeds are the ones that the maps of the store draw. A writer that was opened is closed
  again when the snapshot manager cannot be made.\<close>

definition Engine_New ::
  "(string \<Rightarrow> u64) \<Rightarrow> (string \<Rightarrow> u64) \<Rightarrow> (string \<Rightarrow> u64) \<Rightarrow> os_calls \<Rightarrow> dir \<Rightarrow> dir \<Rightarrow> engine_config
     \<Rightarrow> dir \<times> (go_error + engine)" where
  "Engine_New h1 h2 h3 sys walDir snapDir cfg0 =
     (if ec_DataDir cfg0 = '''' then (walDir, Inl (PlainError ''storage: data_dir is required''))
      else
        (let cfg = cfg0 \<lparr> ec_WAL := (ec_WAL cfg0) \<lparr> wc_Cipher := ec_Cipher cfg0, wc_NodeID := ec_NodeID cfg0 \<rparr>,
               ec_Snapshot := (ec_Snapshot cfg0) \<lparr> sc_Cipher := ec_Cipher cfg0, sc_NodeID := ec_NodeID cfg0 \<rparr> \<rparr>;
             opts = (if ec_MaxSessionsPerUser cfg > 0 then [WithMaxSessionsPerUser (ec_MaxSessionsPerUser cfg)] else []);
             store = Store_New h1 h2 h3 opts
         in case NewWriter sys walDir (ec_WAL cfg) of
              (walDir1, Inl err) \<Rightarrow> (walDir1, Inl (WrapError ''storage: create wal writer'' err))
            | (walDir1, Inr w) \<Rightarrow>
                (case NewManager sys (ec_Snapshot cfg) of
                   Inl err \<Rightarrow>
                     (case Writer_Close sys walDir1 w of
                        (walDir2, _, _) \<Rightarrow> (walDir2, Inl (WrapError ''storage: create snapshot manager'' err)))
                 | Inr m \<Rightarrow>
                     (walDir1, Inr \<lparr> en_cfg = cfg, en_store = store, en_wal = w, en_snapshot = m,
                                     en_lastWALOffset = 0, en_walDir = walDir1, en_snapDir = snapDir \<rparr>))))"

section \<open>Operations\<close>

text \<open>A change: first the log, then memory.\<close>

definition log_then ::
  "os_calls \<Rightarrow> engine \<Rightarrow> wal_entry \<Rightarrow> (store \<Rightarrow> store \<times> go_error option) \<Rightarrow> engine \<times> go_error option" where
  "log_then sys e entry apply_mem =
     (case Writer_Append sys (en_walDir e) (en_wal e) entry of
        (d, w, Some err) \<Rightarrow> (e \<lparr> en_walDir := d, en_wal := w \<rparr>, Some (WrapError ''write wal'' err))
      | (d, w, None) \<Rightarrow>
          (case apply_mem (en_store e) of
             (st, Some err) \<Rightarrow> (e \<lparr> en_walDir := d, en_wal := w, en_store := st \<rparr>, Some err)
           | (st, None) \<Rightarrow>
               (e \<lparr> en_walDir := d, en_wal := w, en_store := st, en_lastWALOffset := Writer_CurrentOffset w \<rparr>,
                None)))"

definition Engine_Create :: "os_calls \<Rightarrow> int \<Rightarrow> engine \<Rightarrow> session \<Rightarrow> engine \<times> go_error option" where
  "Engine_Create sys now e sess =
     log_then sys e (NewCreateEntry now sess) (\<lambda>st. Store_Create st sess)"

text \<open>The caller's session comes back with the version the store gave it.\<close>

definition Engine_Update ::
  "os_calls \<Rightarrow> int \<Rightarrow> engine \<Rightarrow> session \<Rightarrow> u64 \<Rightarrow> engine \<times> session \<times> go_error option" where
  "Engine_Update sys now e sess expectedVersion =
     (case log_then sys e (NewUpdateEntry now sess)
             (\<lambda>st. case Store_Update st sess expectedVersion of (st', _, err) \<Rightarrow> (st', err)) of
        (e', err) \<Rightarrow>
          (e', if err = None then fst (snd (Store_Update (en_store e) sess expectedVersion)) else sess, err))"

definition Engine_UpdateSession :: "os_calls \<Rightarrow> int \<Rightarrow> engine \<Rightarrow> session \<Rightarrow> engine \<times> go_error option" where
  "Engine_UpdateSession sys now e sess =
     log_then sys e (NewUpdateEntry now sess) (\<lambda>st. Store_UpdateSession st sess)"

definition Engine_Delete :: "os_calls \<Rightarrow> int \<Rightarrow> engine \<Rightarrow> string \<Rightarrow> engine \<times> go_error option" where
  "Engine_Delete sys now e i =
     log_then sys e (NewDeleteEntry now i) (\<lambda>st. Store_Delete st i)"

text \<open>The entries of a bulk delete; an append that fails is only logged.\<close>

definition log_deletes :: "os_calls \<Rightarrow> int \<Rightarrow> dir \<times> wal_writer \<Rightarrow> session list \<Rightarrow> dir \<times> wal_writer" where
  "log_deletes sys now dw sessions =
     foldl (\<lambda>(d, w) sess. case Writer_Append sys d w (NewDeleteEntry now (S_ID sess)) of
                            (d', w', _) \<Rightarrow> (d', w')) dw sessions"

definition Engine_DeleteByUserID ::
  "os_calls \<Rightarrow> int \<Rightarrow> engine \<Rightarrow> string \<Rightarrow> engine \<times> (go_error + nat)" where
  "Engine_DeleteByUserID sys now e u =
     (case log_deletes sys now (en_walDir e, en_wal e) (Store_ListByUserID now (en_store e) u) of
        (d, w) \<Rightarrow>
          (case Store_DeleteByUserID (en_store e) u of
             (st, n) \<Rightarrow> (e \<lparr> en_walDir := d, en_wal := w, en_store := st \<rparr>, Inr n)))"

definition Engine_Get :: "int \<Rightarrow> engine \<Rightarrow> string \<Rightarrow> go_error + session" where
  "Engine_Get now e i = Store_Get now (en_store e) i"

definition Engine_GetByToken :: "int \<Rightarrow> engine \<Rightarrow> string \<Rightarrow> engine \<times> (go_error + session)" where
  "Engine_GetByToken now e h =
     (case Store_GetByToken now (en_store e) h of (st, q) \<Rightarrow> (e \<lparr> en_store := st \<rparr>, q))"

definition Engine_GetSessionByTokenHash :: "int \<Rightarrow> engine \<Rightarrow> string \<Rightarrow> engine \<times> (go_error + session)" where
  "Engine_GetSessionByTokenHash now e h =
     (case Store_GetSessionByTokenHash now (en_store e) h of (st, q) \<Rightarrow> (e \<lparr> en_store := st \<rparr>, q))"

definition Engine_List :: "int \<Rightarrow> engine \<Rightarrow> session_filter option \<Rightarrow> (session list \<times> nat) option" where
  "Engine_List now e f = Store_List now (en_store e) f"

definition Engine_CountByUserID :: "engine \<Rightarrow> string \<Rightarrow> nat" where
  "Engine_CountByUserID e u = Store_CountByUserID (en_store e) u"

definition Engine_ListByUserID :: "int \<Rightarrow> engine \<Rightarrow> string \<Rightarrow> session list" where
  "Engine_ListByUserID now e u = Store_ListByUserID now (en_store e) u"

definition Engine_Count :: "engine \<Rightarrow> nat" where
  "Engine_Count e = Store_Count (en_store e)"

definition Engine_DeleteExpired :: "int \<Rightarrow> engine \<Rightarrow> engine \<times> (go_error + nat)" where
  "Engine_DeleteExpired now e =
     (case Store_DeleteExpired now (en_store e) of (st, q) \<Rightarrow> (e \<lparr> en_store := st \<rparr>, q))"

definition Engine_Close :: "os_calls \<Rightarrow> engine \<Rightarrow> engine \<times> go_error option" where
  "Engine_Close sys e =
     (case Writer_Close sys (en_walDir e) (en_wal e) of
        (d, w, err) \<Rightarrow> (e \<lparr> en_walDir := d, en_wal := w \<rparr>, err))"

definition TriggerSnapshot ::
  "(int \<Rightarrow> string) \<Rightarrow> (string \<Rightarrow> int) \<Rightarrow> os_calls \<Rightarrow> int \<Rightarrow> engine \<Rightarrow> engine \<times> (go_error + snap_info)" where
  "TriggerSnapshot ft mtime sys now e =
     (case Manager_Create ft sys now (en_snapDir e) (en_snapshot e) (Store_All (en_store e)) (en_lastWALOffset e) of
        (d, Inl err) \<Rightarrow> (e \<lparr> en_snapDir := d \<rparr>, Inl (WrapError ''create snapshot'' err))
      | (d, Inr info) \<Rightarrow>
          (e \<lparr> en_snapDir := fst (Manager_Prune sys now mtime d (en_snapshot e)),
               en_walDir := fst (Compactor_Compact sys (en_walDir e) (NewCompactor []) (I_WALLastOffset info)) \<rparr>,
           Inr info))"

section \<open>Recovery\<close>

definition applyEntry :: "store \<Rightarrow> wal_entry \<Rightarrow> store \<times> go_error option" where
  "applyEntry st entry =
     (if E_OpType entry = OpTypeCreate then
        (case E_Session entry of
           None \<Rightarrow> (st, Some (PlainError ''missing session data for CREATE''))
         | Some sess \<Rightarrow>
             (case Store_Create st sess of
                (st', Some err) \<Rightarrow> (st', if \<not> errors_Is err ErrSessionConflict then Some err else None)
              | (st', None) \<Rightarrow> (st', None)))
      else if E_OpType entry = OpTypeUpdate then
        (case E_Session entry of
           None \<Rightarrow> (st, Some (PlainError ''missing session data for UPDATE''))
         | Some sess \<Rightarrow>
             (case Store_Update st sess (S_Version sess - 1) of
                (st', _, Some err) \<Rightarrow>
                  (st', if \<not> errors_Is err ErrSessionNotFound \<and> \<not> errors_Is err ErrSessionVersionConflict
                        then Some err else None)
              | (st', _, None) \<Rightarrow> (st', None)))
      else if E_OpType entry = OpTypeDelete then
        (case Store_Delete st (E_SessionID entry) of
           (st', Some err) \<Rightarrow> (st', if \<not> errors_Is err ErrSessionNotFound then Some err else None)
         | (st', None) \<Rightarrow> (st', None))
      else (st, Some (PlainError (''unknown entry type: '' @ FormatInt (uint (E_OpType entry))))))"

text \<open>What the replay loop does with one entry: the store and the number of entries applied.\<close>

definition replay_entry :: "int \<Rightarrow> store \<times> nat \<Rightarrow> wal_entry \<Rightarrow> store \<times> nat" where
  "replay_entry nowMs sn entry =
     (if E_OpType entry = OpTypeCreate \<and>
         (case E_Session entry of None \<Rightarrow> False | Some sess \<Rightarrow> S_ExpiresAt sess < nowMs) then sn
      else (case applyEntry (fst sn) entry of
              (st, Some _) \<Rightarrow> (st, snd sn)
            | (st, None) \<Rightarrow> (st, snd sn + 1)))"

lemma Reader_Read_continue:
  "Reader_Read sys d r = (Inl err, r') \<Longrightarrow> \<not> errors_Is err io_EOF \<Longrightarrow> (r', r) \<in> reader_rel"
  by (rule Reader_Read_progress) auto

function replay_loop ::
  "os_calls \<Rightarrow> dir \<Rightarrow> int \<Rightarrow> wal_reader \<Rightarrow> store \<times> nat \<Rightarrow> store \<times> nat" where
  "replay_loop sys d nowMs r sn =
     (case Reader_Read sys d r of
        (Inl err, r') \<Rightarrow> if errors_Is err io_EOF then sn else replay_loop sys d nowMs r' sn
      | (Inr entry, r') \<Rightarrow> replay_loop sys d nowMs r' (replay_entry nowMs sn entry))"
  by pat_completeness auto
termination
proof (relation "inv_image reader_rel (\<lambda>(sys, d, nowMs, r, sn). r)")
  show "wf (inv_image reader_rel (\<lambda>(sys :: os_calls, d :: dir, nowMs :: int, r, sn :: store \<times> nat). r))"
    by (rule wf_inv_image [OF wf_reader_rel])
qed (use Reader_Read_progress Reader_Read_continue in \<open>metis (no_types, lifting) case_prod_conv in_inv_image sum.distinct(1)\<close>)+

declare replay_loop.simps [simp del]

definition replayWAL :: "os_calls \<Rightarrow> int \<Rightarrow> engine \<Rightarrow> u64 \<Rightarrow> engine \<times> (go_error + nat)" where
  "replayWAL sys now e fromOffset =
     (case NewReader sys (en_walDir e) (wc_Cipher (ec_WAL (en_cfg e))) of
        Inl err \<Rightarrow> (e, Inl err)
      | Inr r \<Rightarrow>
          (case replay_loop sys (en_walDir e) (UnixMilli now) (Reader_Seek r fromOffset) (en_store e, 0) of
             (st, applied) \<Rightarrow>
               (e \<lparr> en_store := st,
                    en_lastWALOffset := (if applied > 0 then Writer_CurrentOffset (en_wal e) else en_lastWALOffset e) \<rparr>,
                Inr applied)))"

text \<open>Sessions of a snapshot, one \<open>Create\<close> each; a refusal is only logged.\<close>

definition restore_sessions :: "store \<Rightarrow> session list \<Rightarrow> store" where
  "restore_sessions st sessions = foldl (\<lambda>st sess. fst (Store_Create st sess)) st sessions"

definition Recover :: "os_calls \<Rightarrow> int \<Rightarrow> engine \<Rightarrow> engine \<times> go_error option" where
  "Recover sys now e =
     (let finish = (\<lambda>(e', q). (e', case q of Inl err \<Rightarrow> Some (WrapError ''replay wal'' err) | Inr _ \<Rightarrow> None)) in
      case Manager_Load sys (en_snapDir e) (en_snapshot e) of
        Inl err \<Rightarrow>
          if errors_Is err snap_ErrNoSnapshots then finish (replayWAL sys now e 0)
          else (e, Some (WrapError ''load snapshot'' err))
      | Inr (sessions, info) \<Rightarrow>
          (let e1 = e \<lparr> en_store := restore_sessions (en_store e) sessions,
                        en_lastWALOffset := I_WALLastOffset info \<rparr>
           in finish (replayWAL sys now e1 (I_WALLastOffset info))))"

section \<open>The engine as a repository\<close>

definition engine_session_repo :: "(int \<Rightarrow> os_calls) \<Rightarrow> engine session_repo" where
  "engine_session_repo sys =
     \<lparr> sr_Create = (\<lambda>now. Engine_Create (sys now) now), sr_Get = Engine_Get,
       sr_Update = (\<lambda>now. Engine_Update (sys now) now), sr_Delete = (\<lambda>now. Engine_Delete (sys now) now),
       sr_List = (\<lambda>now e f. map_option Inr (Engine_List now e (Some f))),
       sr_CountByUserID = (\<lambda>e u. Inr (Engine_CountByUserID e u)),
       sr_ListByUserID = (\<lambda>now e u. Inr (Engine_ListByUserID now e u)),
       sr_DeleteByUserID = (\<lambda>now. Engine_DeleteByUserID (sys now) now),
       sr_DeleteExpired = Engine_DeleteExpired \<rparr>"

definition engine_token_repo :: "(int \<Rightarrow> os_calls) \<Rightarrow> engine token_repo" where
  "engine_token_repo sys =
     \<lparr> tr_GetSessionByTokenHash = Engine_GetSessionByTokenHash,
       tr_UpdateSession = (\<lambda>now. Engine_UpdateSession (sys now) now) \<rparr>"

lemma log_then_cases:
  assumes "log_then sys e entry f = (e', r)"
  shows "(\<exists>err. r = Some (WrapError ''write wal'' err)) \<and> en_store e' = en_store e \<or>
    f (en_store e) = (en_store e', r)"
  using assms by (auto simp: log_then_def split: prod.splits option.splits)

interpretation dur: session_repository "engine_session_repo sys" "engine_token_repo sys"
  "\<lambda>e. store_inv (en_store e) \<and> st_maxSessionsPerUser (en_store e) = mx" "\<lambda>e. store_abs (en_store e)"
  mx "\<lambda>x. \<exists>y. x = WrapError ''write wal'' y" for sys mx
proof unfold_locales
  fix e e' :: engine and s s' a b :: session and now v r i j h u
  assume I: "store_inv (en_store e) \<and> st_maxSessionsPerUser (en_store e) = mx"
  let ?W = "\<lambda>r. \<exists>x. r = Some x \<and> (\<exists>y. x = WrapError ''write wal'' y)"
  show "keyed (store_abs (en_store e))" by (rule mem.keyed_alpha [OF I])
  show "store_abs (en_store e) i = Some a \<Longrightarrow> store_abs (en_store e) j = Some b \<Longrightarrow>
      S_TokenHash a = S_TokenHash b \<Longrightarrow> S_TokenHash a \<noteq> '''' \<Longrightarrow> i = j"
    by (rule mem.token_unique [OF I])
  show "sr_Get (engine_session_repo sys) now e i = a_Get now (store_abs (en_store e)) i"
    using mem.get_alpha [OF I, of now i] by (simp add: engine_session_repo_def store_session_repo_def Engine_Get_def)
  show "(store_inv (en_store e') \<and> st_maxSessionsPerUser (en_store e') = mx) \<and>
      ((store_abs (en_store e'), r) = a_Create mx (store_abs (en_store e)) s \<or>
       store_abs (en_store e') = store_abs (en_store e) \<and> ?W r)"
    if "sr_Create (engine_session_repo sys) now e s = (e', r)"
    using that I log_then_cases [of "sys now" e] mem.create_alpha [OF I, of now s "en_store e'" r]
    by (fastforce simp: engine_session_repo_def store_session_repo_def Engine_Create_def)
  show "(store_inv (en_store e') \<and> st_maxSessionsPerUser (en_store e') = mx) \<and>
      ((store_abs (en_store e'), r) = a_Update (store_abs (en_store e)) s v \<and> (r = None \<longrightarrow> s' = Session_IncrVersion s) \<or>
       store_abs (en_store e') = store_abs (en_store e) \<and> ?W r)"
    if own: "owner_kept (store_abs (en_store e)) s" and up: "sr_Update (engine_session_repo sys) now e s v = (e', s', r)"
  proof -
    obtain st t x where st: "Store_Update (en_store e) s v = (st, t, x)" by (metis prod_cases3)
    note U = mem.update_alpha [OF I own, of now v st t x]
    show ?thesis
      using up I st U log_then_cases [of "sys now" e "NewUpdateEntry now s"
          "\<lambda>st. case Store_Update st s v of (st', _, err) \<Rightarrow> (st', err)" e' r]
      by (auto simp: engine_session_repo_def store_session_repo_def Engine_Update_def split: prod.splits)
  qed
  show "(store_inv (en_store e') \<and> st_maxSessionsPerUser (en_store e') = mx) \<and>
      ((store_abs (en_store e'), r) = a_Delete (store_abs (en_store e)) i \<or>
       store_abs (en_store e') = store_abs (en_store e) \<and> ?W r)"
    if "sr_Delete (engine_session_repo sys) now e i = (e', r)"
    using that I log_then_cases [of "sys now" e] mem.delete_alpha [OF I, of now i "en_store e'" r]
    by (fastforce simp: engine_session_repo_def store_session_repo_def Engine_Delete_def)
  show "sr_CountByUserID (engine_session_repo sys) e u = Inr (card (user_ids (store_abs (en_store e)) u))"
    using mem.count_alpha [OF I, of u]
    by (simp add: engine_session_repo_def store_session_repo_def Engine_CountByUserID_def)
  show "\<exists>l. sr_ListByUserID (engine_session_repo sys) now e u = Inr l \<and>
      set l = {s. (\<exists>i. store_abs (en_store e) i = Some s) \<and> S_UserID s = u \<and> \<not> Session_IsExpired now s} \<and>
      length l \<le> card (user_ids (store_abs (en_store e)) u)"
    using mem.listuser_alpha [OF I, of now u]
    by (simp add: engine_session_repo_def store_session_repo_def Engine_ListByUserID_def)
  show "store_abs (en_store e) i = Some s \<Longrightarrow> S_TokenHash s \<noteq> '''' \<Longrightarrow>
      tr_GetSessionByTokenHash (engine_token_repo sys) now e (S_TokenHash s) =
        (e, if Session_IsExpired now s then Inl ErrSessionExpired else Inr s)"
    using mem.token_hit [OF I, of i s now]
    by (simp add: engine_token_repo_def store_token_repo_def Engine_GetSessionByTokenHash_def)
  show "h = '''' \<or> \<not> token_used (store_abs (en_store e)) h \<Longrightarrow>
      tr_GetSessionByTokenHash (engine_token_repo sys) now e h = (e, Inl ErrTokenInvalid)"
    using mem.token_miss [OF I, of h now]
    by (simp add: engine_token_repo_def store_token_repo_def Engine_GetSessionByTokenHash_def)
  show "(store_inv (en_store e') \<and> st_maxSessionsPerUser (en_store e') = mx) \<and>
      ((store_abs (en_store e'), r) = a_UpdateSession (store_abs (en_store e)) s \<or>
       store_abs (en_store e') = store_abs (en_store e) \<and> ?W r)"
    if own: "owner_kept (store_abs (en_store e)) s" and up: "tr_UpdateSession (engine_token_repo sys) now e s = (e', r)"
    using up I log_then_cases [of "sys now" e] mem.touch_alpha [OF I own, of now "en_store e'" r]
    by (fastforce simp: engine_token_repo_def store_token_repo_def Engine_UpdateSession_def)
next
  fix e e' :: engine and now u n
  assume I: "store_inv (en_store e) \<and> st_maxSessionsPerUser (en_store e) = mx"
  show "(store_inv (en_store e') \<and> st_maxSessionsPerUser (en_store e') = mx) \<and>
      store_abs (en_store e') = a_DeleteByUserID (store_abs (en_store e)) u \<and>
      n = Inr (card (user_ids (store_abs (en_store e)) u))"
    if "sr_DeleteByUserID (engine_session_repo sys) now e u = (e', n)"
    using that mem.deluser_alpha [OF I, of now u "en_store e'" n]
    by (auto simp: engine_session_repo_def store_session_repo_def Engine_DeleteByUserID_def split: prod.splits)
  show "(store_inv (en_store e') \<and> st_maxSessionsPerUser (en_store e') = mx) \<and>
      store_abs (en_store e') = a_CleanupExpired now (store_abs (en_store e)) \<and>
      n = Inr (card {i. \<exists>s. store_abs (en_store e) i = Some s \<and> Session_IsExpired now s})"
    if "sr_DeleteExpired (engine_session_repo sys) now e = (e', n)"
    using that mem.expired_alpha [OF I, of now "en_store e'" n]
    by (auto simp: engine_session_repo_def store_session_repo_def Engine_DeleteExpired_def split: prod.splits)
qed

end
