(* ===== verification/Engine_Recovery.thy ===== *)
theory Engine_Recovery
  imports Engine
begin

text \<open>
  What recovery gives back. The memory of an engine and the memory that a later engine rebuilds from
  the log agree, up to the fields of a session that its JSON form leaves out, as long as no created
  session has expired when the log is replayed and every update was logged at the version after the
  one it expected. The end of the theory shows what happens to a touch, which is logged as
  such an update but is not one, and to a renewed session.
\<close>

section \<open>Replay as a fold\<close>

lemma replay_yields:
  "yields sys d r es \<Longrightarrow> replay_loop sys d nowMs r sn = foldl (replay_entry nowMs) sn es"
proof (induction es arbitrary: r sn)
  case Nil
  then show ?case by (subst replay_loop.simps) auto
next
  case (Cons e es)
  then obtain r1 where r1: "Reader_Read sys d r = (Inr e, r1)" "yields sys d r1 es" by auto
  then show ?case using Cons.IH [OF r1(2), of "replay_entry nowMs sn e"] by (subst replay_loop.simps) simp
qed

lemma Reader_Seek_start: "NewReader sys d ci = Inr r \<Longrightarrow> Reader_Seek r 0 = r"
  by (auto simp: NewReader_def Reader_Seek_def closeCurrent_def takeWhile_eq_Nil_iff split: sum.splits)

section \<open>Operations and their entries\<close>

datatype wal_op =
    WalCreate int session
  | WalUpdate int session
  | WalDelete int string

fun op_entry :: "wal_op \<Rightarrow> wal_entry" where
  "op_entry (WalCreate now s) = NewCreateEntry now s"
| "op_entry (WalUpdate now s) = NewUpdateEntry now s"
| "op_entry (WalDelete now i) = NewDeleteEntry now i"

text \<open>The call on the engine; an update expects the version before the session's.\<close>

fun engine_op :: "os_calls \<Rightarrow> engine \<Rightarrow> wal_op \<Rightarrow> engine" where
  "engine_op sys e (WalCreate now s) = fst (Engine_Create sys now e s)"
| "engine_op sys e (WalUpdate now s) = fst (Engine_Update sys now e s (S_Version s - 1))"
| "engine_op sys e (WalDelete now i) = fst (Engine_Delete sys now e i)"

fun mem_op :: "store \<Rightarrow> wal_op \<Rightarrow> store" where
  "mem_op st (WalCreate now s) = fst (Store_Create st s)"
| "mem_op st (WalUpdate now s) = fst (Store_Update st s (S_Version s - 1))"
| "mem_op st (WalDelete now i) = fst (Store_Delete st i)"

fun op_ok :: "int \<Rightarrow> store \<Rightarrow> wal_op \<Rightarrow> bool" where
  "op_ok nowMs st (WalCreate now s) = (nowMs \<le> S_ExpiresAt s)"
| "op_ok nowMs st (WalUpdate now s) = same_owner st s"
| "op_ok nowMs st (WalDelete now i) = True"

fun run_ok :: "int \<Rightarrow> store \<Rightarrow> wal_op list \<Rightarrow> bool" where
  "run_ok nowMs st [] = True"
| "run_ok nowMs st (op # ops) = (op_ok nowMs st op \<and> run_ok nowMs (mem_op st op) ops)"

section \<open>The abstract store through JSON\<close>

definition json_store :: "astore \<Rightarrow> astore" where
  "json_store m = (\<lambda>i. map_option json_view (m i))"

lemma json_view_simps [simp]:
  "S_ID (json_view s) = S_ID s" "S_UserID (json_view s) = S_UserID s" "S_TokenHash (json_view s) = S_TokenHash s"
  "S_Version (json_view s) = S_Version s" "S_ExpiresAt (json_view s) = S_ExpiresAt s"
  "Session_IncrVersion (json_view s) = json_view (Session_IncrVersion s)"
  by (simp_all add: json_view_def data_sorted_def Session_IncrVersion_def)

lemma sum_list_sort_key: "sum_list (map f (sort_key g xs)) = (sum_list (map f xs) :: nat)"
  by (metis mset_map mset_sort sum_mset_sum_list)

text \<open>Which violation is named may depend on the order of the data map, whether there is one does not.\<close>

lemma Session_Validate_json_view [simp]: "Session_Validate (json_view s) = None \<longleftrightarrow> Session_Validate s = None"
proof -
  have "data_within_limits (map_option (sort_key fst) d) \<longleftrightarrow> data_within_limits d" for d
    by (cases d) (simp_all add: data_within_limits_def sum_list_sort_key)
  then show ?thesis by (simp add: Session_Validate_None) (simp add: json_view_def data_sorted_def)
qed

lemma json_store_simps [simp]:
  "json_store m i = map_option json_view (m i)" "json_store Map.empty = Map.empty"
  "json_store (m(i := x)) = (json_store m)(i := map_option json_view x)"
  by (auto simp: json_store_def fun_eq_iff)

lemma user_ids_json_store [simp]: "user_ids (json_store m) u = user_ids m u"
  by (auto simp: user_ids_def)

lemma token_used_json_store [simp]: "token_used (json_store m) h \<longleftrightarrow> token_used m h"
  by (force simp: token_used_def)

lemma a_ops_json_store:
  "fst (a_Create mx (json_store m) (json_view s)) = json_store (fst (a_Create mx m s))"
  "fst (a_Update (json_store m) (json_view s) v) = json_store (fst (a_Update m s v))"
  "fst (a_Delete (json_store m) i) = json_store (fst (a_Delete m i))"
  using Session_Validate_json_view [of s]
  by (auto simp: a_Create_def a_Update_def a_Delete_def split: option.splits)

fun a_op :: "int \<Rightarrow> astore \<Rightarrow> wal_op \<Rightarrow> astore" where
  "a_op mx m (WalCreate now s) = fst (a_Create mx m s)"
| "a_op mx m (WalUpdate now s) = fst (a_Update m s (S_Version s - 1))"
| "a_op mx m (WalDelete now i) = fst (a_Delete m i)"

fun view_op :: "wal_op \<Rightarrow> wal_op" where
  "view_op (WalCreate now s) = WalCreate now (json_view s)"
| "view_op (WalUpdate now s) = WalUpdate now (json_view s)"
| "view_op (WalDelete now i) = WalDelete now i"

lemma a_op_json_store: "a_op mx (json_store m) (view_op op) = json_store (a_op mx m op)"
  by (cases op) (auto simp: a_ops_json_store)

lemma mem_op_refines:
  assumes "store_inv st" "op_ok nowMs st op"
  shows "store_inv (mem_op st op)" "st_maxSessionsPerUser (mem_op st op) = st_maxSessionsPerUser st"
    "store_abs (mem_op st op) = a_op (st_maxSessionsPerUser st) (store_abs st) op"
proof -
  have "store_inv (mem_op st op) \<and> st_maxSessionsPerUser (mem_op st op) = st_maxSessionsPerUser st \<and>
      store_abs (mem_op st op) = a_op (st_maxSessionsPerUser st) (store_abs st) op"
  proof (cases op)
    case (WalCreate now s)
    obtain st' r where c: "Store_Create st s = (st', r)" by fastforce
    from Store_Create_refines [OF assms(1) c] WalCreate c show ?thesis by (auto dest: arg_cong [of _ _ fst])
  next
    case (WalUpdate now s)
    obtain st' s' r where u: "Store_Update st s (S_Version s - 1) = (st', s', r)" by (metis prod_cases3)
    have so: "same_owner st s" using assms(2) WalUpdate by simp
    from Store_Update_refines [OF assms(1) u same_ownerD(1) [OF so] Store_Update_same_owner [OF assms(1) so u]]
    show ?thesis using WalUpdate u by (auto dest: arg_cong [of _ _ fst])
  next
    case (WalDelete now i)
    obtain st' r where c: "Store_Delete st i = (st', r)" by fastforce
    from Store_Delete_refines [OF assms(1) c] WalDelete c show ?thesis by (auto dest: arg_cong [of _ _ fst])
  qed
  then show "store_inv (mem_op st op)" "st_maxSessionsPerUser (mem_op st op) = st_maxSessionsPerUser st"
    "store_abs (mem_op st op) = a_op (st_maxSessionsPerUser st) (store_abs st) op" by auto
qed

section \<open>Replay follows memory\<close>

lemma applied_store:
  assumes "op_ok nowMs st op"
  shows "fst (replay_entry nowMs (st', n) (entry_view (op_entry op))) = mem_op st' (view_op op)"
  using assms
  by (cases op)
    (auto simp: replay_entry_def applyEntry_def entry_view_def NewCreateEntry_def NewUpdateEntry_def
      NewDeleteEntry_def split: prod.splits option.splits)

definition mirrors :: "store \<Rightarrow> store \<Rightarrow> bool" where
  "mirrors st st' \<longleftrightarrow> store_inv st \<and> store_inv st' \<and>
     st_maxSessionsPerUser st' = st_maxSessionsPerUser st \<and> store_abs st' = json_store (store_abs st)"

lemma op_ok_view:
  assumes "op_ok nowMs st op" "mirrors st st'"
  shows "op_ok nowMs st' (view_op op)"
  using assms by (cases op) (auto simp: mirrors_def same_owner_def split: option.splits)

lemma mirrors_op:
  assumes "mirrors st st'" "op_ok nowMs st op"
  shows "mirrors (mem_op st op) (fst (replay_entry nowMs (st', n) (entry_view (op_entry op))))"
  unfolding applied_store [OF assms(2)]
  using assms(1) mem_op_refines [of st nowMs op] mem_op_refines [of st' nowMs "view_op op"] assms(2)
    op_ok_view [OF assms(2,1)] by (simp add: mirrors_def a_op_json_store)

lemma mirrors_run:
  assumes "mirrors st st'" "run_ok nowMs st ops"
  shows "mirrors (foldl mem_op st ops)
    (fst (foldl (replay_entry nowMs) (st', n) (map (\<lambda>op. entry_view (op_entry op)) ops)))"
  using assms
proof (induction ops arbitrary: st st' n)
  case (Cons op ops)
  obtain st2 n2 where r: "replay_entry nowMs (st', n) (entry_view (op_entry op)) = (st2, n2)" by fastforce
  have "mirrors (mem_op st op) st2" using mirrors_op [OF Cons.prems(1), of nowMs op n] Cons.prems(2) r by simp
  from Cons.IH [OF this] Cons.prems(2) r show ?case by simp
qed simp

section \<open>The engine's log\<close>

definition entry_ok :: "cipher option \<Rightarrow> wal_entry \<Rightarrow> bool" where
  "entry_ok ci e \<longleftrightarrow> entry_codec_ok ci e \<and> (\<exists>f. encodeEntryFrame ci e = Inr f \<and> length f < 2 ^ 32)"

lemma op_entry_wf: "wf_entry (op_entry op)"
  by (cases op) (simp_all add: wf_entry_def NewCreateEntry_def NewUpdateEntry_def NewDeleteEntry_def)

lemma entry_ok_frame:
  assumes "entry_ok ci e" "wf_entry e"
  obtains f where "encodeEntryFrame ci e = Inr f" "good_frame ci f (entry_view e)"
  using assms entry_frame_roundtrip [of ci e] that by (auto simp: entry_ok_def good_frame_def)

lemma engine_op_store:
  assumes "Writer_Append sys (en_walDir e) (en_wal e) (op_entry op) = (d, w, None)"
  shows "en_store (engine_op sys e op) = mem_op (en_store e) op" "en_walDir (engine_op sys e op) = d"
    "en_wal (engine_op sys e op) = w" "en_cfg (engine_op sys e op) = en_cfg e"
  using assms
  by (cases op; auto simp: Engine_Create_def Engine_Update_def Engine_Delete_def log_then_def split: prod.splits option.splits)+

text \<open>A run of operations with no failing call: memory is the store's run, the log the entries.\<close>

lemma engine_run_log:
  assumes "log_holds (en_walDir e) (en_wal e) fs" "\<not> W_closed (en_wal e)"
    and "unat (W_segmentID (en_wal e)) + length ops < 2 ^ 64" "wc_Cipher (W_cfg (en_wal e)) = ci"
    and "\<And>op. op \<in> set ops \<Longrightarrow> entry_ok ci (op_entry op)"
  obtains e' fs' where "foldl (engine_op os_ok) e ops = e'" "en_store e' = foldl mem_op (en_store e) ops"
    "log_holds (en_walDir e') (en_wal e') (fs @ fs')" "\<not> W_closed (en_wal e')"
    "list_all2 (good_frame ci) fs' (map (\<lambda>op. entry_view (op_entry op)) ops)"
    "unat (W_segmentID (en_wal e')) \<le> unat (W_segmentID (en_wal e)) + length ops" "en_cfg e' = en_cfg e"
  using assms
proof (induction ops arbitrary: e fs thesis)
  case Nil
  then show ?case by (intro Nil.prems(1) [of e "[]"]) auto
next
  case (Cons op ops)
  obtain f where f: "encodeEntryFrame ci (op_entry op) = Inr f" "good_frame ci f (entry_view (op_entry op))"
    by (rule entry_ok_frame [OF _ op_entry_wf]) (use Cons.prems(6) in auto)
  obtain d w where a: "Writer_Append os_ok (en_walDir e) (en_wal e) (op_entry op) = (d, w, None)"
    "log_holds d w (fs @ [f])" "\<not> W_closed w" "unat (W_segmentID w) \<le> unat (W_segmentID (en_wal e)) + 1"
    "W_cfg w = W_cfg (en_wal e)"
    by (rule Writer_Append_ok [OF Cons.prems(2,3)]) (use Cons.prems(4,5) f(1) in auto)
  let ?e = "engine_op os_ok e op"
  note S = engine_op_store [OF a(1)]
  obtain e' fs' where r: "foldl (engine_op os_ok) ?e ops = e'" "en_store e' = foldl mem_op (en_store ?e) ops"
    "log_holds (en_walDir e') (en_wal e') ((fs @ [f]) @ fs')" "\<not> W_closed (en_wal e')"
    "list_all2 (good_frame ci) fs' (map (\<lambda>op. entry_view (op_entry op)) ops)"
    "unat (W_segmentID (en_wal e')) \<le> unat (W_segmentID (en_wal ?e)) + length ops" "en_cfg e' = en_cfg ?e"
    by (rule Cons.IH [of ?e "fs @ [f]"]) (use Cons.prems a S in auto)
  show ?case by (rule Cons.prems(1) [of e' "f # fs'"]) (use r f(2) S a(4) in auto)
qed

definition engine_cfg_ok :: "engine_config \<Rightarrow> bool" where
  "engine_cfg_ok cfg \<longleftrightarrow> ec_DataDir cfg \<noteq> '''' \<and> wc_Dir (ec_WAL cfg) \<noteq> '''' \<and> sc_Dir (ec_Snapshot cfg) \<noteq> ''''"

definition engine_max :: "engine_config \<Rightarrow> int" where
  "engine_max cfg = (if ec_MaxSessionsPerUser cfg > 0 then ec_MaxSessionsPerUser cfg else DefaultMaxSessionsPerUser)"

lemma Engine_New_ok:
  assumes "engine_cfg_ok cfg" "log_closed d segs"
    and "segs \<noteq> [] \<Longrightarrow> 0 < fst (last segs) \<and> unat (fst (last segs)) + 1 < 2 ^ 64"
  obtains e where "Engine_New h1 h2 h3 os_ok d sd cfg = (en_walDir e, Inr e)" "log_state (en_walDir e) (en_wal e) segs []"
    "\<not> W_closed (en_wal e)" "W_buffer (en_wal e) = []" "wc_Cipher (W_cfg (en_wal e)) = ec_Cipher cfg"
    "unat (W_segmentID (en_wal e)) = (if segs = [] then 1 else unat (fst (last segs)) + 1)"
    "en_snapDir e = sd" "wc_Cipher (ec_WAL (en_cfg e)) = ec_Cipher cfg"
    "store_inv (en_store e)" "store_abs (en_store e) = Map.empty" "st_maxSessionsPerUser (en_store e) = engine_max cfg"
proof -
  let ?wc = "(ec_WAL cfg) \<lparr> wc_Cipher := ec_Cipher cfg, wc_NodeID := ec_NodeID cfg \<rparr>"
  let ?opts = "if ec_MaxSessionsPerUser cfg > 0 then [WithMaxSessionsPerUser (ec_MaxSessionsPerUser cfg)] else []"
  have dir: "wc_Dir ?wc \<noteq> ''''" using assms(1) by (simp add: engine_cfg_ok_def)
  obtain d' w where n: "NewWriter os_ok d ?wc = (d', Inr w)" "log_state d' w segs []" "\<not> W_closed w"
    "W_cfg w = applyDefaults ?wc" "W_buffer w = []"
    "unat (W_segmentID w) = (if segs = [] then 1 else unat (fst (last segs)) + 1)"
    by (rule NewWriter_closed_log [OF assms(2) dir]) (use assms(3) in auto)
  obtain m where m: "NewManager os_ok ((ec_Snapshot cfg) \<lparr> sc_Cipher := ec_Cipher cfg, sc_NodeID := ec_NodeID cfg \<rparr>) = Inr m"
    using assms(1) by (simp add: NewManager_def engine_cfg_ok_def)
  have o: "\<exists>mx. opt = WithMaxSessionsPerUser mx" if "opt \<in> set ?opts" for opt using that by (auto split: if_splits)
  have st: "store_inv (Store_New h1 h2 h3 ?opts)" by (rule Store_New_inv(1) [OF o])
  have ab: "store_abs (Store_New h1 h2 h3 ?opts) = Map.empty" by (rule Store_New_inv(2) [OF o])
  have mx: "st_maxSessionsPerUser (Store_New h1 h2 h3 ?opts) = engine_max cfg"
    by (simp add: Store_New_def WithMaxSessionsPerUser_def engine_max_def)
  have ci: "wc_Cipher (W_cfg w) = ec_Cipher cfg" using n(4) by (simp add: applyDefaults_def)
  let ?cfg = "cfg \<lparr> ec_WAL := ?wc,
    ec_Snapshot := (ec_Snapshot cfg) \<lparr> sc_Cipher := ec_Cipher cfg, sc_NodeID := ec_NodeID cfg \<rparr> \<rparr>"
  let ?e = "\<lparr> en_cfg = ?cfg, en_store = Store_New h1 h2 h3 ?opts, en_wal = w, en_snapshot = m,
    en_lastWALOffset = 0, en_walDir = d', en_snapDir = sd \<rparr>"
  have "Engine_New h1 h2 h3 os_ok d sd cfg = (d', Inr ?e)"
    using assms(1) n(1) m by (simp add: Engine_New_def engine_cfg_ok_def Let_def)
  then show ?thesis by (intro that [of ?e]) (use n st ab mx ci in auto)
qed

text \<open>A log of finished segments and an empty open one, replayed from the start.\<close>

lemma Recover_log:
  assumes "log_state (en_walDir e) (en_wal e) segs []" "wc_Cipher (ec_WAL (en_cfg e)) = ci" "en_snapDir e = []"
    and "list_all2 (good_frame ci) (log_frames segs) es"
  shows "\<exists>e' n. Recover os_ok now e = (e', None) \<and>
    foldl (replay_entry (UnixMilli now)) (en_store e, 0) es = (en_store e', n)"
proof -
  note S = assms(1) [unfolded log_state_def]
  obtain r where r: "NewReader os_ok (en_walDir e) ci = Inr r" by (simp add: NewReader_def scanSegments_def)
  let ?segs = "map (apsnd seg_sealed) segs @ [(W_segmentID (en_wal e), seg_data [])]"
  have "list_all2 (\<lambda>(i, c). seg_readable c) (map (apsnd seg_sealed) segs) (map snd segs)"
    by (auto simp: list_all2_map1 list_all2_map2 seg_readable_sealed case_prod_beta intro!: list.rel_refl)
  then have rd: "list_all2 (\<lambda>(i, c). seg_readable c) ?segs (map snd segs @ [[]])"
    by (intro list_all2_appendI) (auto simp: seg_readable_empty)
  have srt: "sorted_wrt (<) (map fst ?segs)" using S by (simp add: o_def)
  have "yields os_ok (en_walDir e) r es"
    by (rule yields_log [OF _ _ srt rd _ r]) (use S assms(4) in \<open>auto simp: log_frames_def\<close>)
  then have "replay_loop os_ok (en_walDir e) (UnixMilli now) (Reader_Seek r 0) (en_store e, 0) =
      foldl (replay_entry (UnixMilli now)) (en_store e, 0) es"
    using Reader_Seek_start [OF r] replay_yields by simp
  moreover have "Manager_Load os_ok [] (en_snapshot e) = Inl snap_ErrNoSnapshots"
    by (simp add: Manager_Load_def Manager_List_def dir_names_def)
  ultimately show ?thesis
    using r assms(2,3)
    by (auto simp: Recover_def replayWAL_def Let_def snap_ErrNoSnapshots_def split: prod.splits)
qed

text \<open>Run, close, start again, recover.\<close>

lemma recovery_restores:
  assumes cfg: "engine_cfg_ok cfg"
    and run: "run_ok (UnixMilli now) (en_store e0) ops" and e0: "Engine_New h1 h2 h3 os_ok [] [] cfg = (d0, Inr e0)"
    and codec: "\<And>op. op \<in> set ops \<Longrightarrow> entry_ok (ec_Cipher cfg) (op_entry op)" and len: "length ops < 2 ^ 63"
  obtains e2 e3 e4 where "Engine_Close os_ok (foldl (engine_op os_ok) e0 ops) = (e2, None)"
    "Engine_New g1 g2 g3 os_ok (en_walDir e2) [] cfg = (en_walDir e3, Inr e3)"
    "Recover os_ok now e3 = (e4, None)" "store_inv (en_store e4)"
    "store_abs (en_store e4) = json_store (store_abs (en_store (foldl (engine_op os_ok) e0 ops)))"
proof -
  have empty: "log_closed [] []" by (simp add: log_closed_def fun_eq_iff)
  obtain e where "Engine_New h1 h2 h3 os_ok [] [] cfg = (en_walDir e, Inr e)"
    and L: "log_state (en_walDir e) (en_wal e) [] []" "\<not> W_closed (en_wal e)" "W_buffer (en_wal e) = []"
      "wc_Cipher (W_cfg (en_wal e)) = ec_Cipher cfg" "unat (W_segmentID (en_wal e)) = 1"
      "store_inv (en_store e)" "store_abs (en_store e) = Map.empty" "st_maxSessionsPerUser (en_store e) = engine_max cfg"
    by (rule Engine_New_ok [OF cfg empty, of h1 h2 h3 "[]"]) auto
  with e0 have e: "e = e0" by simp
  have "log_holds (en_walDir e0) (en_wal e0) []"
    using L(1,3) unfolding e log_holds_def by (auto simp: log_frames_def intro!: exI [of _ "[]"])
  then obtain e1 fs where r: "foldl (engine_op os_ok) e0 ops = e1" "en_store e1 = foldl mem_op (en_store e0) ops"
    "log_holds (en_walDir e1) (en_wal e1) ([] @ fs)" "\<not> W_closed (en_wal e1)"
    "list_all2 (good_frame (ec_Cipher cfg)) fs (map (\<lambda>op. entry_view (op_entry op)) ops)"
    "unat (W_segmentID (en_wal e1)) \<le> unat (W_segmentID (en_wal e0)) + length ops"
    by (rule engine_run_log [of e0 "[]" ops "ec_Cipher cfg"]) (use L(2,4,5) e codec len in auto)
  have id: "unat (W_segmentID (en_wal e1)) + 1 < 2 ^ 63 + 10" using r(6) L(5) e len by simp
  obtain d2 w2 segs where c: "Writer_Close os_ok (en_walDir e1) (en_wal e1) = (d2, w2, None)" "log_closed d2 segs"
    "log_frames segs = [] @ fs" "segs \<noteq> []" "0 < fst (last segs)" "unat (fst (last segs)) + 1 < 2 ^ 64"
    by (rule Writer_Close_ok [OF r(3,4)]) (use id in auto)
  let ?e2 = "e1 \<lparr> en_walDir := d2, en_wal := w2 \<rparr>"
  obtain e3 where n: "Engine_New g1 g2 g3 os_ok d2 [] cfg = (en_walDir e3, Inr e3)"
    "log_state (en_walDir e3) (en_wal e3) segs []" "en_snapDir e3 = []" "wc_Cipher (ec_WAL (en_cfg e3)) = ec_Cipher cfg"
    "store_inv (en_store e3)" "store_abs (en_store e3) = Map.empty" "st_maxSessionsPerUser (en_store e3) = engine_max cfg"
    by (rule Engine_New_ok [OF cfg c(2), of g1 g2 g3 "[]"]) (use c(5,6) in auto)
  have "list_all2 (good_frame (ec_Cipher cfg)) (log_frames segs) (map (\<lambda>op. entry_view (op_entry op)) ops)"
    using c(3) r(5) by simp
  from Recover_log [OF n(2,4,3) this, of now] obtain e4 k where R: "Recover os_ok now e3 = (e4, None)"
    "foldl (replay_entry (UnixMilli now)) (en_store e3, 0) (map (\<lambda>op. entry_view (op_entry op)) ops) = (en_store e4, k)"
    by blast
  have "mirrors (en_store e0) (en_store e3)" using L(6-8) n(5-7) e by (simp add: mirrors_def)
  from mirrors_run [OF this run, of 0] R(2) r(1,2)
  have "store_inv (en_store e4)" "store_abs (en_store e4) = json_store (store_abs (en_store e1))"
    by (auto simp: mirrors_def)
  then show ?thesis using c(1) n(1) R(1) r(1) by (intro that [of ?e2 e3 e4]) (auto simp: Engine_Close_def)
qed

section \<open>What replay gets wrong\<close>

lemma Store_Update_alpha:
  assumes "store_inv st" "same_owner st s" "Store_Update st s v = (st', s', r)"
  shows "store_inv st'" "(store_abs st', r) = a_Update (store_abs st) s v"
    "st_maxSessionsPerUser st' = st_maxSessionsPerUser st"
proof -
  note U = Store_Update_refines [OF assms(1,3) same_ownerD(1) [OF assms(2)] Store_Update_same_owner [OF assms(1-3)]]
  show "store_inv st'" by (rule U(1))
  show "(store_abs st', r) = a_Update (store_abs st) s v" by (rule U(2))
  show "st_maxSessionsPerUser st' = st_maxSessionsPerUser st" by (rule U(3))
qed

text \<open>An update that replays without an error other than the two that are ignored counts as applied,
  whether or not it changed anything.\<close>

lemma replay_update:
  assumes "store_inv st" "same_owner st s" "Session_Validate s = None"
    and "replay_entry nowMs (st, n) (entry_view (NewUpdateEntry now s)) = (st', k)"
  shows "store_inv st'" "k = n + 1"
    "store_abs st' = (case store_abs st (S_ID s) of None \<Rightarrow> store_abs st
       | Some e \<Rightarrow> if S_Version e \<noteq> S_Version s - 1 then store_abs st
                   else (store_abs st)(S_ID s \<mapsto> json_view (Session_IncrVersion s)))"
proof -
  have so: "same_owner st (json_view s)" using assms(2) by (auto simp: same_owner_def split: option.splits)
  obtain st1 s1 r where u: "Store_Update st (json_view s) (S_Version s - 1) = (st1, s1, r)" by (metis prod_cases3)
  note U = Store_Update_alpha [OF assms(1) so u]
  have v: "Session_Validate (json_view s) = None" using assms(3) by simp
  have r: "r = None \<or> r = Some ErrSessionNotFound \<or> r = Some ErrSessionVersionConflict"
    using U(2) v assms(2) by (auto simp: a_Update_def same_owner_def split: option.splits if_splits)
  have "errors_Is ErrSessionNotFound ErrSessionNotFound" "errors_Is ErrSessionVersionConflict ErrSessionVersionConflict"
    by (simp_all add: ErrSessionNotFound_def ErrSessionVersionConflict_def NewDomainError_def)
  then have "st' = st1 \<and> k = n + 1"
    using assms(4) u r by (auto simp: replay_entry_def applyEntry_def entry_view_def NewUpdateEntry_def)
  then show "store_inv st'" "k = n + 1"
    "store_abs st' = (case store_abs st (S_ID s) of None \<Rightarrow> store_abs st
       | Some e \<Rightarrow> if S_Version e \<noteq> S_Version s - 1 then store_abs st
                   else (store_abs st)(S_ID s \<mapsto> json_view (Session_IncrVersion s)))"
    using U v assms(2) by (auto simp: a_Update_def same_owner_def split: option.splits if_splits)
qed

section \<open>Properties\<close>


lemma example_engine:
  obtains e d where "Engine_New h1 h2 h3 os_ok [] [] (engine_DefaultConfig ''d'') = (d, Inr e)"
    "engine_cfg_ok (engine_DefaultConfig ''d'')" "ec_Cipher (engine_DefaultConfig ''d'') = None"
    "log_holds (en_walDir e) (en_wal e) []" "\<not> W_closed (en_wal e)" "unat (W_segmentID (en_wal e)) = 1"
    "wc_Cipher (W_cfg (en_wal e)) = None" "store_inv (en_store e)" "store_abs (en_store e) = Map.empty"
    "st_maxSessionsPerUser (en_store e) = DefaultMaxSessionsPerUser"
proof -
  have c: "engine_cfg_ok (engine_DefaultConfig ''d'')" "ec_Cipher (engine_DefaultConfig ''d'') = None"
    "engine_max (engine_DefaultConfig ''d'') = DefaultMaxSessionsPerUser"
    by (simp_all add: engine_cfg_ok_def engine_DefaultConfig_def wal_DefaultConfig_def snap_DefaultConfig_def engine_max_def)
  have empty: "log_closed [] []" by (simp add: log_closed_def fun_eq_iff)
  obtain e where e: "Engine_New h1 h2 h3 os_ok [] [] (engine_DefaultConfig ''d'') = (en_walDir e, Inr e)"
    "log_state (en_walDir e) (en_wal e) [] []" "\<not> W_closed (en_wal e)" "W_buffer (en_wal e) = []"
    "wc_Cipher (W_cfg (en_wal e)) = None" "unat (W_segmentID (en_wal e)) = 1"
    "store_inv (en_store e)" "store_abs (en_store e) = Map.empty"
    "st_maxSessionsPerUser (en_store e) = DefaultMaxSessionsPerUser"
    by (rule Engine_New_ok [OF c(1) empty, of h1 h2 h3 "[]"]) (use c in auto)
  have "log_holds (en_walDir e) (en_wal e) []"
    using e(2,4) unfolding log_holds_def by (auto simp: log_frames_def intro!: exI [of _ "[]"])
  then show ?thesis using that e c(1,2) by blast
qed

text \<open>The log of an open engine without a cipher takes the deletion of a short id.\<close>

lemma example_delete_append:
  assumes "log_holds (en_walDir e) (en_wal e) []" "\<not> W_closed (en_wal e)" "unat (W_segmentID (en_wal e)) = 1"
    "wc_Cipher (W_cfg (en_wal e)) = None"
  obtains d w where "Writer_Append os_ok (en_walDir e) (en_wal e) (NewDeleteEntry 0 ''tmss-1'') = (d, w, None)"
proof -
  let ?p = "\<lparr> P_Timestamp = 0, P_SessionID = ''tmss-1'', P_Version = 0, P_Session = None, P_EncryptedSession = '''' \<rparr>"
  have "length (json_text (payload_json ?p)) \<le> 100" by code_simp
  then have l: "9 + length (json_text (payload_json ?p)) < 2 ^ 32"
    by (rule order_le_less_trans [OF add_left_mono]) simp
  have "entry_payload None (NewDeleteEntry 0 ''tmss-1'') = Inr ?p" "wf_entry (NewDeleteEntry 0 ''tmss-1'')"
    by (simp_all add: entry_payload_def NewDeleteEntry_def UnixMilli_def wf_entry_def)
  then obtain f where "encodeEntryFrame (wc_Cipher (W_cfg (en_wal e))) (NewDeleteEntry 0 ''tmss-1'') = Inr f"
    using encode_fits l assms(4) by metis
  moreover have "unat (W_segmentID (en_wal e)) + 1 < 2 ^ 64" using assms(3) by simp
  ultimately show ?thesis using Writer_Append_ok [OF assms(1,2)] that by metis
qed


text \<open>A touch makes the next update disappear at recovery. The touch of \<open>TokenService.Validate\<close>
  writes version \<open>v + 1\<close> in memory but is logged as an update, whose replay writes
  \<open>v + 2\<close>. The update that follows succeeds in memory and replays as a version conflict, which
  is ignored and counted as applied: the recovered session is the touched one.\<close>

lemma update_after_touch_lost:
  assumes "store_inv st" "store_abs st i = Some s"
    and "S_ID t = i" "S_UserID t = S_UserID s" "S_TokenHash t = S_TokenHash s" "S_Version t = S_Version s + 1"
    and "S_ID u = i" "S_UserID u = S_UserID s" "S_TokenHash u = S_TokenHash s" "S_Version u = S_Version s + 2"
    and "Session_Validate t = None" "Session_Validate u = None"
  shows "(\<exists>st1 st2 u'. Store_UpdateSession st t = (st1, None) \<and> Store_Update st1 u (S_Version t) = (st2, u', None) \<and>
      store_abs st2 = (store_abs st)(i \<mapsto> Session_IncrVersion u)) \<and>
    (\<exists>st'. foldl (replay_entry nowMs) (st, n) [entry_view (NewUpdateEntry now1 t), entry_view (NewUpdateEntry now2 u)] =
      (st', n + 2) \<and> store_abs st' = (store_abs st)(i \<mapsto> json_view (Session_IncrVersion t)))"
proof
  obtain st1 r1 where t: "Store_UpdateSession st t = (st1, r1)" by fastforce
  note T = Store_UpdateSession_refines [OF assms(1) t]
  have so: "same_owner st t" "same_owner st1 u"
    using assms T(2,3) by (auto simp: same_owner_def)
  have r1: "r1 = None" "store_inv st1" "store_abs st1 = (store_abs st)(i \<mapsto> t)"
    using assms T by auto
  obtain st2 u' r2 where u: "Store_Update st1 u (S_Version t) = (st2, u', r2)" by (metis prod_cases3)
  from Store_Update_alpha(2) [OF r1(2) so(2) u] r1(3) assms
  show "\<exists>st1 st2 u'. Store_UpdateSession st t = (st1, None) \<and> Store_Update st1 u (S_Version t) = (st2, u', None) \<and>
      store_abs st2 = (store_abs st)(i \<mapsto> Session_IncrVersion u)"
    using t u r1(1) by (simp add: a_Update_def)
  obtain st3 k where e1: "replay_entry nowMs (st, n) (entry_view (NewUpdateEntry now1 t)) = (st3, k)" by fastforce
  note R1 = replay_update [OF assms(1) so(1) assms(11) e1]
  have a3: "store_abs st3 = (store_abs st)(i \<mapsto> json_view (Session_IncrVersion t))" using R1(3) assms by simp
  have so3: "same_owner st3 u" using a3 assms by (simp add: same_owner_def)
  obtain st4 j where e2: "replay_entry nowMs (st3, k) (entry_view (NewUpdateEntry now2 u)) = (st4, j)" by fastforce
  note R2 = replay_update [OF R1(1) so3 assms(12) e2]
  have "S_Version s + 1 + 1 \<noteq> S_Version s + 2 - 1" by simp
  then have "store_abs st4 = store_abs st3" using R2(3) a3 assms by (simp add: Session_IncrVersion_def)
  then show "\<exists>st'. foldl (replay_entry nowMs) (st, n) [entry_view (NewUpdateEntry now1 t), entry_view (NewUpdateEntry now2 u)] =
      (st', n + 2) \<and> store_abs st' = (store_abs st)(i \<mapsto> json_view (Session_IncrVersion t))"
    using e1 e2 R1(2) R2(2) a3 by simp
qed

text \<open>A store with one session, for the examples.\<close>

lemma example_store:
  obtains st where "store_inv st" "store_abs st = [''tmss-1'' \<mapsto> example_session ''tmss-1'' ''u'' '''']"
    "fst (Store_Create (Store_New (\<lambda>_. 0) (\<lambda>_. 0) (\<lambda>_. 0) []) (example_session ''tmss-1'' ''u'' '''')) = st"
proof -
  let ?n = "Store_New (\<lambda>_. 0) (\<lambda>_. 0) (\<lambda>_. 0) []" and ?s = "example_session ''tmss-1'' ''u'' ''''"
  have n: "store_inv ?n" "store_abs ?n = Map.empty" using Store_New_inv [of "[]"] by auto
  obtain st r where c: "Store_Create ?n ?s = (st, r)" by fastforce
  have "Session_Validate ?s = None" by code_simp
  moreover have "st_maxSessionsPerUser ?n = DefaultMaxSessionsPerUser" by (simp add: Store_New_def)
  ultimately show ?thesis
    using Store_Create_refines [OF n(1) c] n(2) c by (intro that [of st]) (auto simp: a_Create_def user_ids_def)
qed

text \<open>C31: a renewed session is lost at recovery. When the expiry that a session was created with has passed,
  its creation is skipped, although an update that follows in the log extended it; that update finds
  no session, which is ignored and counted as applied.\<close>

theorem renewed_session_lost:
  assumes "store_inv st" "store_abs st (S_ID s) = None" "S_ExpiresAt s < nowMs"
    and "S_ID u = S_ID s" "Session_Validate u = None" "nowMs \<le> S_ExpiresAt u"
  shows "\<exists>st'. foldl (replay_entry nowMs) (st, n) [entry_view (NewCreateEntry now1 s), entry_view (NewUpdateEntry now2 u)] =
      (st', n + 1) \<and> store_abs st' = store_abs st \<and> store_abs st' (S_ID u) = None"
proof -
  have e1: "replay_entry nowMs (st, n) (entry_view (NewCreateEntry now1 s)) = (st, n)"
    using assms(3) by (simp add: replay_entry_def entry_view_def NewCreateEntry_def)
  have so: "same_owner st u" using assms(2,4) by (simp add: same_owner_def)
  obtain st' k where e2: "replay_entry nowMs (st, n) (entry_view (NewUpdateEntry now2 u)) = (st', k)" by fastforce
  from replay_update [OF assms(1) so assms(5) e2] e1 e2 assms(2,4) show ?thesis by simp
qed

theorem renewed_session_lost_witness:
  "\<exists>st'. foldl (replay_entry 1000) (Store_New (\<lambda>_. 0) (\<lambda>_. 0) (\<lambda>_. 0) [], 0)
      [entry_view (NewCreateEntry 0 ((example_session ''tmss-1'' ''u'' '''') \<lparr> S_ExpiresAt := 500 \<rparr>)),
       entry_view (NewUpdateEntry 0 ((example_session ''tmss-1'' ''u'' '''') \<lparr> S_ExpiresAt := 5000, S_Version := 2 \<rparr>))] = (st', 1) \<and>
    store_abs st' ''tmss-1'' = None"
proof -
  let ?s = "(example_session ''tmss-1'' ''u'' '''') \<lparr> S_ExpiresAt := 500 \<rparr>"
  let ?u = "(example_session ''tmss-1'' ''u'' '''') \<lparr> S_ExpiresAt := 5000, S_Version := 2 \<rparr>"
  have "store_inv (Store_New (\<lambda>_. 0) (\<lambda>_. 0) (\<lambda>_. 0) [])" "store_abs (Store_New (\<lambda>_. 0) (\<lambda>_. 0) (\<lambda>_. 0) []) = Map.empty"
    using Store_New_inv [of "[]"] by auto
  moreover have "Session_Validate ?u = None" by code_simp
  ultimately show ?thesis
    using renewed_session_lost [of "Store_New (\<lambda>_. 0) (\<lambda>_. 0) (\<lambda>_. 0) []" ?s 1000 ?u 0 0 0] by auto
qed

end
