(* ===== verification/Shard_Map.thy ===== *)
theory Shard_Map
  imports Go_Hash Go_Json
begin

text \<open>
  The shard map of the cluster, \<open>internal/server/clusterserver/shard.go\<close>: which node owns a shard,
  its replicas, and the ring of virtual nodes.

  A Go map that may be nil is an optional association list: reading a nil map finds nothing, deleting
  from it does nothing, and writing to it panics, which is the result \<open>None\<close>. MurmurHash3 is a
  package of its own and a parameter. The mutex is left out: every method is one transition.
\<close>

section \<open>Maps that may be nil\<close>

definition nm_get :: "('k, 'v) gomap option \<Rightarrow> 'k \<Rightarrow> 'v option" where
  "nm_get m k = (case m of None \<Rightarrow> None | Some d \<Rightarrow> gm_get d k)"

definition nm_items :: "('k, 'v) gomap option \<Rightarrow> ('k, 'v) gomap" where
  "nm_items m = (case m of None \<Rightarrow> [] | Some d \<Rightarrow> d)"

definition nm_set :: "'k \<Rightarrow> 'v \<Rightarrow> ('k, 'v) gomap option \<Rightarrow> ('k, 'v) gomap option option" where
  "nm_set k v m = (case m of None \<Rightarrow> None | Some d \<Rightarrow> Some (Some (gm_set k v d)))"

definition nm_del :: "'k \<Rightarrow> ('k, 'v) gomap option \<Rightarrow> ('k, 'v) gomap option" where
  "nm_del k m = map_option (gm_del k) m"

lemma nm_simps [simp]:
  "nm_get (Some d) = gm_get d" "nm_get None k = None" "nm_items (Some d) = d" "nm_items None = []"
  "nm_set k v (Some d) = Some (Some (gm_set k v d))" "nm_set k v None = None"
  "nm_del k (Some d) = Some (gm_del k d)" "nm_del k None = None"
  by (simp_all add: nm_get_def nm_items_def nm_set_def nm_del_def fun_eq_iff)

section \<open>State\<close>

abbreviation cluster_DefaultShardCount :: u32 where "cluster_DefaultShardCount \<equiv> 256"
abbreviation DefaultVirtualNodeCount :: nat where "DefaultVirtualNodeCount \<equiv> 256"

record murmur =
  murmur_Sum32 :: "bytes \<Rightarrow> u32"
  murmur_Sum64 :: "bytes \<Rightarrow> u64"

record shard_map =
  sm_Shards :: "(u32, string) gomap option"
  sm_Replicas :: "(u32, string list) gomap option"
  sm_Version :: u64
  sm_VirtualNodes :: "(u64, string) gomap option"
  sm_SortedHashes :: "u64 list"

definition NewShardMap :: shard_map where
  "NewShardMap = \<lparr> sm_Shards = Some [], sm_Replicas = Some [], sm_Version = 0, sm_VirtualNodes = Some [],
     sm_SortedHashes = [] \<rparr>"

section \<open>Assignments\<close>

definition AssignShard :: "shard_map \<Rightarrow> u32 \<Rightarrow> string \<Rightarrow> string list \<Rightarrow> shard_map option" where
  "AssignShard m shardID nodeID replicas =
     (case nm_set shardID nodeID (sm_Shards m) of
        None \<Rightarrow> None
      | Some shards \<Rightarrow>
          (case (if length replicas > 0 then nm_set shardID replicas (sm_Replicas m) else Some (sm_Replicas m)) of
             None \<Rightarrow> None
           | Some reps \<Rightarrow> Some (m \<lparr> sm_Shards := shards, sm_Replicas := reps, sm_Version := sm_Version m + 1 \<rparr>)))"

definition GetShard :: "shard_map \<Rightarrow> u32 \<Rightarrow> string option" where
  "GetShard m shardID = nm_get (sm_Shards m) shardID"

definition HashKey :: "murmur \<Rightarrow> string \<Rightarrow> u32" where
  "HashKey H key = murmur_Sum32 H (bytes_of_string key) mod cluster_DefaultShardCount"

definition GetShardForKey :: "murmur \<Rightarrow> shard_map \<Rightarrow> string \<Rightarrow> u32 \<times> string option" where
  "GetShardForKey H m key = (let shardID = HashKey H key in (shardID, GetShard m shardID))"

definition GetReplicas :: "shard_map \<Rightarrow> u32 \<Rightarrow> string list option" where
  "GetReplicas m shardID = nm_get (sm_Replicas m) shardID"

definition GetReplicationFactor :: "shard_map \<Rightarrow> u32 \<Rightarrow> nat" where
  "GetReplicationFactor m shardID =
     (case nm_get (sm_Replicas m) shardID of None \<Rightarrow> 0 | Some replicas \<Rightarrow> length replicas + 1)"

section \<open>The ring\<close>

definition hashVirtualNode :: "murmur \<Rightarrow> string \<Rightarrow> nat \<Rightarrow> u64" where
  "hashVirtualNode H nodeID virtualIndex =
     murmur_Sum64 H (bytes_of_string nodeID @ PutUint32 (of_nat virtualIndex))"

definition rebuildSortedHashes :: "shard_map \<Rightarrow> shard_map" where
  "rebuildSortedHashes m = m \<lparr> sm_SortedHashes := sort (map fst (nm_items (sm_VirtualNodes m))) \<rparr>"

text \<open>The loops over the indices of a node's virtual nodes.\<close>

definition node_hashes :: "murmur \<Rightarrow> string \<Rightarrow> u64 list" where
  "node_hashes H nodeID = map (hashVirtualNode H nodeID) [0..<DefaultVirtualNodeCount]"

definition AddNode :: "murmur \<Rightarrow> shard_map \<Rightarrow> string \<Rightarrow> shard_map option" where
  "AddNode H m nodeID =
     (case foldl (\<lambda>vn hash. Option.bind vn (nm_set hash nodeID)) (Some (sm_VirtualNodes m)) (node_hashes H nodeID) of
        None \<Rightarrow> None
      | Some vn \<Rightarrow>
          (let m1 = rebuildSortedHashes (m \<lparr> sm_VirtualNodes := vn \<rparr>) in
           Some (m1 \<lparr> sm_Version := sm_Version m1 + 1 \<rparr>)))"

definition RemoveNode :: "murmur \<Rightarrow> shard_map \<Rightarrow> string \<Rightarrow> shard_map" where
  "RemoveNode H m nodeID =
     (let vn = foldl (\<lambda>vn hash. nm_del hash vn) (sm_VirtualNodes m) (node_hashes H nodeID);
          shards = map_option (filter (\<lambda>(shardID, assigned). assigned \<noteq> nodeID)) (sm_Shards m);
          m1 = rebuildSortedHashes (m \<lparr> sm_VirtualNodes := vn, sm_Shards := shards \<rparr>)
      in m1 \<lparr> sm_Version := sm_Version m1 + 1 \<rparr>)"

text \<open>\<open>sort.Search\<close>: the first index in \<open>i..j\<close> at which the predicate holds, by halving.\<close>

function search_loop :: "(nat \<Rightarrow> bool) \<Rightarrow> nat \<Rightarrow> nat \<Rightarrow> nat" where
  "search_loop f i j =
     (if i < j then (let h = (i + j) div 2 in if \<not> f h then search_loop f (h + 1) j else search_loop f i h) else i)"
  by pat_completeness auto
termination by (relation "measure (\<lambda>(f, i, j). j - i)") auto

declare search_loop.simps [simp del]

definition sort_Search :: "nat \<Rightarrow> (nat \<Rightarrow> bool) \<Rightarrow> nat" where
  "sort_Search n f = search_loop f 0 n"

definition GetNodeForHash :: "shard_map \<Rightarrow> u64 \<Rightarrow> string option" where
  "GetNodeForHash m hash =
     (if sm_SortedHashes m = [] then None
      else
        (let idx = sort_Search (length (sm_SortedHashes m)) (\<lambda>i. sm_SortedHashes m ! i \<ge> hash);
             idx = (if idx = length (sm_SortedHashes m) then 0 else idx)
         in Some (case nm_get (sm_VirtualNodes m) (sm_SortedHashes m ! idx) of None \<Rightarrow> '''' | Some n \<Rightarrow> n)))"

section \<open>Copies and statistics\<close>

text \<open>The maps of a copy are made, so none of them is nil.\<close>

definition ShardMap_Clone :: "shard_map \<Rightarrow> shard_map" where
  "ShardMap_Clone m =
     \<lparr> sm_Shards = Some (nm_items (sm_Shards m)), sm_Replicas = Some (nm_items (sm_Replicas m)),
       sm_Version = sm_Version m, sm_VirtualNodes = Some (nm_items (sm_VirtualNodes m)),
       sm_SortedHashes = sm_SortedHashes m \<rparr>"

definition GetAllNodes :: "shard_map \<Rightarrow> string list" where
  "GetAllNodes m = sort (remdups (map snd (nm_items (sm_VirtualNodes m))))"

record shard_map_stats =
  TotalShards :: u32
  AssignedShards :: nat
  TotalNodes :: nat
  VirtualNodeCount :: nat
  stats_Version :: u64

definition ShardMap_GetStats :: "shard_map \<Rightarrow> shard_map_stats" where
  "ShardMap_GetStats m =
     \<lparr> TotalShards = cluster_DefaultShardCount, AssignedShards = length (nm_items (sm_Shards m)),
       TotalNodes = length (remdups (map snd (nm_items (sm_VirtualNodes m)))),
       VirtualNodeCount = length (nm_items (sm_VirtualNodes m)), stats_Version = sm_Version m \<rparr>"

section \<open>The search\<close>

lemma search_loop_first:
  assumes "\<And>a b. f a \<Longrightarrow> a \<le> b \<Longrightarrow> b < n \<Longrightarrow> f b" "i \<le> j" "j \<le> n"
    and "\<And>k. k < i \<Longrightarrow> \<not> f k" "\<And>k. j \<le> k \<Longrightarrow> k < n \<Longrightarrow> f k"
  shows "search_loop f i j \<le> n \<and> (\<forall>k < search_loop f i j. \<not> f k) \<and>
    (search_loop f i j < n \<longrightarrow> f (search_loop f i j))"
  using assms
proof (induction f i j rule: search_loop.induct)
  case (1 f i j)
  let ?h = "(i + j) div 2"
  have eq: "search_loop f i j = (if i < j then if \<not> f ?h then search_loop f (?h + 1) j else search_loop f i ?h else i)"
    by (subst search_loop.simps) (simp add: Let_def)
  consider "i < j" "\<not> f ?h" | "i < j" "f ?h" | "i = j" using 1(4) by linarith
  then show ?case
  proof cases
    case 1
    have "?h < n" using 1(1) \<open>j \<le> n\<close> by linarith
    then have "\<not> f k" if "k < ?h + 1" for k
      using that 1(2) "1.prems"(1) [of k ?h] by auto
    then have "search_loop f (?h + 1) j \<le> n \<and> (\<forall>k < search_loop f (?h + 1) j. \<not> f k) \<and>
        (search_loop f (?h + 1) j < n \<longrightarrow> f (search_loop f (?h + 1) j))"
      by (intro "1.IH"(1) [OF 1(1) refl 1(2)]) (use "1.prems"(1,3,5) 1(1) in auto)
    with 1 show ?thesis unfolding eq by simp
  next
    case 2
    have "f k" if "?h \<le> k" "k < n" for k using "1.prems"(1) [OF 2(2) that] .
    then have "search_loop f i ?h \<le> n \<and> (\<forall>k < search_loop f i ?h. \<not> f k) \<and>
        (search_loop f i ?h < n \<longrightarrow> f (search_loop f i ?h))"
      by (intro "1.IH"(2) [OF 2(1) refl]) (use "1.prems"(1,3,4) 2 in auto)
    with 2 show ?thesis unfolding eq by simp
  next
    case 3
    then show ?thesis unfolding eq using "1.prems"(3-5) by simp
  qed
qed

section \<open>Ownership on the ring\<close>

definition ring_succ :: "u64 set \<Rightarrow> u64 \<Rightarrow> u64" where
  "ring_succ S x = (if {y \<in> S. x \<le> y} = {} then Min S else Min {y \<in> S. x \<le> y})"

definition ring_ok :: "shard_map \<Rightarrow> bool" where
  "ring_ok m \<longleftrightarrow> (\<exists>vn. sm_VirtualNodes m = Some vn \<and> gm_wf vn \<and> sm_SortedHashes m = sort (map fst vn)) \<and>
     (\<exists>sh. sm_Shards m = Some sh \<and> gm_wf sh) \<and> (\<exists>rp. sm_Replicas m = Some rp \<and> gm_wf rp)"

lemma ring_succ_in: "finite S \<Longrightarrow> S \<noteq> {} \<Longrightarrow> ring_succ S x \<in> S"
  using Min_in [of S] Min_in [of "{y \<in> S. x \<le> y}"] by (auto simp: ring_succ_def)

text \<open>Adding points either leaves the successor or makes a new point the successor; removing points
  that are not the successor leaves it.\<close>

lemma ring_succ_subset:
  assumes "finite T" "S \<subseteq> T" "ring_succ T x \<in> S"
  shows "ring_succ S x = ring_succ T x"
proof (cases "{y \<in> T. x \<le> y} = {}")
  case True
  then have "{y \<in> S. x \<le> y} = {}" using assms(2) by auto
  moreover have "Min T \<in> S" using True assms(3) by (simp add: ring_succ_def)
  ultimately show ?thesis
    using True assms(1,2) by (auto simp: ring_succ_def intro!: Min_eqI Min_le elim: finite_subset)
next
  case False
  let ?m = "Min {y \<in> T. x \<le> y}"
  have "ring_succ T x = ?m" using False by (simp only: ring_succ_def if_False)
  then have m: "?m \<in> S" "x \<le> ?m"
    using False assms(1,3) Min_in [of "{y \<in> T. x \<le> y}"] by auto
  then have "Min {y \<in> S. x \<le> y} = ?m"
    using assms(1,2) by (intro Min_eqI) (auto intro: Min_le elim: finite_subset)
  moreover have "{y \<in> S. x \<le> y} \<noteq> {}" using m by blast
  ultimately show ?thesis using False by (simp only: ring_succ_def if_False)
qed

lemma GetNodeForHash_succ:
  assumes "sm_VirtualNodes m = Some vn" "gm_wf vn" "sm_SortedHashes m = sort (map fst vn)" "vn \<noteq> []"
  shows "GetNodeForHash m x = gm_get vn (ring_succ (fst ` set vn) x)"
proof -
  let ?xs = "sort (map fst vn)"
  let ?n = "length ?xs"
  let ?f = "\<lambda>i. x \<le> ?xs ! i"
  let ?r = "sort_Search ?n ?f"
  have srt: "sorted ?xs" and set: "set ?xs = fst ` set vn" and ne: "?xs \<noteq> []"
    using assms(4) by (simp_all flip: set_empty)
  have mono: "?f a \<Longrightarrow> a \<le> b \<Longrightarrow> b < ?n \<Longrightarrow> ?f b" for a b
    using sorted_nth_mono [OF srt, of a b] by (meson order_trans)
  have "?r \<le> ?n \<and> (\<forall>k < ?r. \<not> ?f k) \<and> (?r < ?n \<longrightarrow> ?f ?r)"
    unfolding sort_Search_def by (rule search_loop_first [OF mono]) simp_all
  then have R: "?r \<le> ?n" "\<And>k. k < ?r \<Longrightarrow> \<not> ?f k" "?r < ?n \<Longrightarrow> ?f ?r" by blast+
  have succ: "ring_succ (set ?xs) x = ?xs ! (if ?r = ?n then 0 else ?r)"
  proof (cases "?r = ?n")
    case True
    have "\<not> x \<le> y" if y: "y \<in> set ?xs" for y
    proof -
      obtain k where "k < ?n" "y = ?xs ! k" using y by (metis in_set_conv_nth)
      then show ?thesis using R(2) [of k] True by simp
    qed
    then have "{y \<in> set ?xs. x \<le> y} = {}" by auto
    moreover have "Min (set ?xs) = ?xs ! 0"
      using srt ne by (cases ?xs) (auto intro!: Min_eqI)
    ultimately show ?thesis using True by (simp add: ring_succ_def)
  next
    case False
    then have lt: "?r < ?n" using R(1) by simp
    have "?xs ! ?r \<le> y" if y: "y \<in> set ?xs" "x \<le> y" for y
    proof -
      obtain k where k: "k < ?n" "y = ?xs ! k" using y by (metis in_set_conv_nth)
      then have "?r \<le> k" using R(2) [of k] y(2) by (meson not_less)
      then show ?thesis using sorted_nth_mono [OF srt, of ?r k] k by simp
    qed
    moreover have "?xs ! ?r \<in> {y \<in> set ?xs. x \<le> y}" using R(3) lt nth_mem [OF lt] by blast
    ultimately have "Min {y \<in> set ?xs. x \<le> y} = ?xs ! ?r" by (intro Min_eqI) auto
    moreover have "{y \<in> set ?xs. x \<le> y} \<noteq> {}" using R(3) lt nth_mem [OF lt] by blast
    ultimately show ?thesis using False by (simp only: ring_succ_def if_False)
  qed
  have "ring_succ (fst ` set vn) x \<in> fst ` set vn"
    using ring_succ_in [of "fst ` set vn" x] assms(4) by simp
  then obtain node where "gm_get vn (ring_succ (fst ` set vn) x) = Some node"
    by (metis gm_get_eq_None not_None_eq)
  then have at: "gm_get vn (?xs ! (if ?r = ?n then 0 else ?r)) = Some node"
    "gm_get vn (ring_succ (fst ` set vn) x) = Some node" using succ set by simp_all
  have "GetNodeForHash m x = Some (case gm_get vn (?xs ! (if ?r = ?n then 0 else ?r)) of None \<Rightarrow> '''' | Some n \<Rightarrow> n)"
    unfolding GetNodeForHash_def assms(1,3) Let_def using ne by simp
  then show ?thesis unfolding at by simp
qed

section \<open>Operations on the ring\<close>

lemma NewShardMap_ok [simp]: "ring_ok NewShardMap"
  by (simp add: ring_ok_def NewShardMap_def)

lemma AssignShard_ok:
  assumes "ring_ok m"
  obtains m' where "AssignShard m shardID nodeID replicas = Some m'" "ring_ok m'"
    "GetShard m' = (GetShard m)(shardID \<mapsto> nodeID)" "sm_Version m' = sm_Version m + 1"
    "GetReplicas m' = (if replicas = [] then GetReplicas m else (GetReplicas m)(shardID \<mapsto> replicas))"
    "sm_VirtualNodes m' = sm_VirtualNodes m" "sm_SortedHashes m' = sm_SortedHashes m"
proof -
  obtain sh rp where m: "sm_Shards m = Some sh" "gm_wf sh" "sm_Replicas m = Some rp" "gm_wf rp"
    using assms by (auto simp: ring_ok_def)
  let ?m = "m \<lparr> sm_Shards := Some (gm_set shardID nodeID sh),
    sm_Replicas := Some (if replicas = [] then rp else gm_set shardID replicas rp), sm_Version := sm_Version m + 1 \<rparr>"
  show ?thesis
    by (rule that [of ?m])
      (use assms m in \<open>auto simp: AssignShard_def ring_ok_def gm_wf_set GetShard_def GetReplicas_def gm_get_set fun_eq_iff\<close>)
qed

lemma add_hashes:
  "foldl (\<lambda>vn hash. Option.bind vn (nm_set hash n)) (Some (Some d)) hs = Some (Some (foldl (\<lambda>d h. gm_set h n d) d hs))"
  "gm_wf d \<Longrightarrow> gm_wf (foldl (\<lambda>d h. gm_set h n d) d hs)"
  "gm_get (foldl (\<lambda>d h. gm_set h n d) d hs) h = (if h \<in> set hs then Some n else gm_get d h)"
  by (induction hs arbitrary: d) (auto simp: gm_wf_set gm_get_set)

lemma remove_hashes:
  "foldl (\<lambda>vn hash. nm_del hash vn) (Some d) hs = Some (foldl (\<lambda>d h. gm_del h d) d hs)"
  "gm_wf d \<Longrightarrow> gm_wf (foldl (\<lambda>d h. gm_del h d) d hs)"
  "gm_get (foldl (\<lambda>d h. gm_del h d) d hs) h = (if h \<in> set hs then None else gm_get d h)"
  by (induction hs arbitrary: d) (auto simp: gm_wf_del gm_get_del)

lemma AddNode_ok:
  assumes "ring_ok m" "sm_VirtualNodes m = Some vn"
  obtains m' vn' where "AddNode H m n = Some m'" "ring_ok m'" "sm_VirtualNodes m' = Some vn'" "gm_wf vn'"
    "gm_get vn' = (\<lambda>h. if h \<in> set (node_hashes H n) then Some n else gm_get vn h)"
    "sm_Shards m' = sm_Shards m" "sm_Replicas m' = sm_Replicas m"
proof -
  let ?vn = "foldl (\<lambda>d h. gm_set h n d) vn (node_hashes H n)"
  let ?m = "m \<lparr> sm_VirtualNodes := Some ?vn, sm_SortedHashes := sort (map fst ?vn), sm_Version := sm_Version m + 1 \<rparr>"
  show ?thesis
  proof (rule that [of ?m ?vn])
    show "AddNode H m n = Some ?m"
      using assms by (simp add: AddNode_def add_hashes(1) rebuildSortedHashes_def Let_def)
    show "ring_ok ?m" using assms add_hashes(2) [of vn n] by (auto simp: ring_ok_def)
  qed (use assms add_hashes(2) [of vn n] add_hashes(3) [of n vn] in \<open>auto simp: ring_ok_def fun_eq_iff\<close>)
qed

lemma gm_get_filter:
  "gm_wf d \<Longrightarrow> gm_get (filter (\<lambda>(k, v). v \<noteq> n) d) i = (if gm_get d i = Some n then None else gm_get d i)"
proof (induction d)
  case (Cons p d)
  then have "i = fst p \<Longrightarrow> map_of (filter (\<lambda>(k, v). v \<noteq> n) d) i = None"
    by (auto simp: gm_wf_def map_of_eq_None_iff image_iff)
  with Cons show ?case by (cases p) (auto simp: gm_wf_def gm_get_def)
qed simp

lemma RemoveNode_ok:
  assumes "ring_ok m" "sm_VirtualNodes m = Some vn"
  obtains vn' where "ring_ok (RemoveNode H m n)" "sm_VirtualNodes (RemoveNode H m n) = Some vn'" "gm_wf vn'"
    "gm_get vn' = (\<lambda>h. if h \<in> set (node_hashes H n) then None else gm_get vn h)"
    "GetShard (RemoveNode H m n) = (\<lambda>i. if GetShard m i = Some n then None else GetShard m i)"
proof -
  obtain sh where sh: "sm_Shards m = Some sh" "gm_wf sh" using assms by (auto simp: ring_ok_def)
  let ?vn = "foldl (\<lambda>d h. gm_del h d) vn (node_hashes H n)"
  let ?sh = "filter (\<lambda>(shardID, assigned). assigned \<noteq> n) sh"
  have r: "RemoveNode H m n = m \<lparr> sm_VirtualNodes := Some ?vn, sm_Shards := Some ?sh,
      sm_SortedHashes := sort (map fst ?vn), sm_Version := sm_Version m + 1 \<rparr>"
    using assms(2) sh by (simp add: RemoveNode_def remove_hashes(1) rebuildSortedHashes_def Let_def)
  have wf: "gm_wf ?sh" using sh(2) by (simp add: gm_wf_def distinct_map_filter)
  have "gm_get ?sh i = (if gm_get sh i = Some n then None else gm_get sh i)" for i
    by (rule gm_get_filter [OF sh(2)])
  then show ?thesis
    using assms r sh wf remove_hashes(2) [of vn] remove_hashes(3) [of vn] by (intro that [of ?vn]) (auto simp: ring_ok_def GetShard_def fun_eq_iff)
qed

text \<open>Every point of the ring is one of its node's.\<close>

definition ring_owned :: "murmur \<Rightarrow> shard_map \<Rightarrow> bool" where
  "ring_owned H m \<longleftrightarrow> (\<forall>(h, k) \<in> set (nm_items (sm_VirtualNodes m)). h \<in> set (node_hashes H k))"

lemma ring_owned_iff:
  assumes "sm_VirtualNodes m = Some vn" "gm_wf vn"
  shows "ring_owned H m \<longleftrightarrow> (\<forall>h k. gm_get vn h = Some k \<longrightarrow> h \<in> set (node_hashes H k))"
  using assms by (auto simp: ring_owned_def gm_get_iff_mem)

lemma node_hashes_nonempty: "node_hashes H n \<noteq> []"
  by (simp add: node_hashes_def)

lemma ring_points: "gm_get vn h \<noteq> None \<longleftrightarrow> h \<in> fst ` set vn"
  by (simp add: gm_get_eq_None)

lemma ring_get_empty:
  assumes "ring_ok m" "sm_VirtualNodes m = Some []"
  shows "GetNodeForHash m x = None"
  using assms by (auto simp: ring_ok_def GetNodeForHash_def)

lemma ring_get:
  assumes "ring_ok m" "sm_VirtualNodes m = Some vn"
  shows "GetNodeForHash m x = (if vn = [] then None else gm_get vn (ring_succ (fst ` set vn) x))"
  using assms GetNodeForHash_succ [of m vn x] ring_get_empty [of m x] by (auto simp: ring_ok_def)

lemma AddNode_moves:
  assumes "ring_ok m" "AddNode H m n = Some m'"
  shows "GetNodeForHash m' x = Some n \<or> GetNodeForHash m' x = GetNodeForHash m x"
proof -
  obtain vn where vn: "sm_VirtualNodes m = Some vn" using assms(1) by (auto simp: ring_ok_def)
  obtain m1 vn' where a: "AddNode H m n = Some m1" "ring_ok m1" "sm_VirtualNodes m1 = Some vn'"
    "gm_get vn' = (\<lambda>h. if h \<in> set (node_hashes H n) then Some n else gm_get vn h)"
    by (rule AddNode_ok [OF assms(1) vn])
  have m1: "m1 = m'" using a(1) assms(2) by simp
  have pts: "fst ` set vn' = set (node_hashes H n) \<union> fst ` set vn"
    unfolding gm_dom [symmetric] a(4) by (auto simp: dom_def)
  then have ne: "vn' \<noteq> []" using node_hashes_nonempty [of H n] by (auto simp: image_iff)
  let ?s = "ring_succ (fst ` set vn') x"
  have get: "GetNodeForHash m' x = gm_get vn' ?s" using ring_get [OF a(2,3)] ne m1 by simp
  show ?thesis
  proof (cases "?s \<in> set (node_hashes H n)")
    case True
    then show ?thesis using get a(4) by simp
  next
    case False
    have "?s \<in> fst ` set vn'" using ring_succ_in [of "fst ` set vn'" x] ne by simp
    then have s: "?s \<in> fst ` set vn" using False pts by blast
    then have "ring_succ (fst ` set vn) x = ?s" using pts by (intro ring_succ_subset) auto
    then show ?thesis using get a(4) False s ring_get [OF assms(1) vn] by auto
  qed
qed

lemma RemoveNode_keeps:
  assumes "ring_ok m" "GetNodeForHash m x = Some k" "k \<noteq> n"
    and "\<And>h j. h \<in> set (node_hashes H n) \<Longrightarrow> nm_get (sm_VirtualNodes m) h = Some j \<Longrightarrow> j = n"
  shows "GetNodeForHash (RemoveNode H m n) x = Some k"
proof -
  obtain vn where vn: "sm_VirtualNodes m = Some vn" using assms(1) by (auto simp: ring_ok_def)
  obtain vn' where r: "ring_ok (RemoveNode H m n)" "sm_VirtualNodes (RemoveNode H m n) = Some vn'"
    "gm_get vn' = (\<lambda>h. if h \<in> set (node_hashes H n) then None else gm_get vn h)"
    by (rule RemoveNode_ok [OF assms(1) vn])
  have pts: "fst ` set vn' = fst ` set vn - set (node_hashes H n)"
    unfolding gm_dom [symmetric] r(3) by (auto simp: dom_def)
  let ?s = "ring_succ (fst ` set vn) x"
  have s: "gm_get vn ?s = Some k" "?s \<in> fst ` set vn"
    using assms(2) ring_get [OF assms(1) vn, of x] ring_points [of vn ?s] by (auto split: if_splits)
  moreover have "?s \<notin> set (node_hashes H n)" using assms(3,4) s(1) vn by auto
  ultimately have "?s \<in> fst ` set vn'" "ring_succ (fst ` set vn') x = ?s" "gm_get vn' ?s = Some k"
    using pts r(3) ring_succ_subset [of "fst ` set vn" "fst ` set vn'" x] by auto
  then show ?thesis using ring_get [OF r(1,2), of x] by auto
qed

lemma RemoveNode_gone:
  assumes "ring_ok m" "ring_owned H m"
  shows "GetNodeForHash (RemoveNode H m n) x \<noteq> Some n" "GetShard (RemoveNode H m n) i \<noteq> Some n"
    "ring_owned H (RemoveNode H m n)"
proof -
  obtain vn where vn: "sm_VirtualNodes m = Some vn" "gm_wf vn" using assms(1) by (auto simp: ring_ok_def)
  obtain vn' where r: "ring_ok (RemoveNode H m n)" "sm_VirtualNodes (RemoveNode H m n) = Some vn'" "gm_wf vn'"
    "gm_get vn' = (\<lambda>h. if h \<in> set (node_hashes H n) then None else gm_get vn h)"
    "GetShard (RemoveNode H m n) = (\<lambda>i. if GetShard m i = Some n then None else GetShard m i)"
    by (rule RemoveNode_ok [OF assms(1) vn(1)])
  have own: "\<And>h k. gm_get vn h = Some k \<Longrightarrow> h \<in> set (node_hashes H k)"
    using assms(2) ring_owned_iff [OF vn] by blast
  show "GetNodeForHash (RemoveNode H m n) x \<noteq> Some n"
    using ring_get [OF r(1,2), of x] r(4) own by (auto split: if_splits)
  show "GetShard (RemoveNode H m n) i \<noteq> Some n" using r(5) by simp
  show "ring_owned H (RemoveNode H m n)"
    using own r(4) unfolding ring_owned_iff [OF r(2,3)] by (auto split: if_splits)
qed

lemma AddNode_owned:
  assumes "ring_ok m" "ring_owned H m" "AddNode H m n = Some m'"
  shows "ring_ok m'" "ring_owned H m'"
proof -
  obtain vn where vn: "sm_VirtualNodes m = Some vn" "gm_wf vn" using assms(1) by (auto simp: ring_ok_def)
  obtain m1 vn' where a: "AddNode H m n = Some m1" "ring_ok m1" "sm_VirtualNodes m1 = Some vn'" "gm_wf vn'"
    "gm_get vn' = (\<lambda>h. if h \<in> set (node_hashes H n) then Some n else gm_get vn h)"
    by (rule AddNode_ok [OF assms(1) vn(1)])
  have m1: "m1 = m'" using a(1) assms(3) by simp
  show "ring_ok m'" using a(2) m1 by simp
  show "ring_owned H m'"
    using assms(2) a(5) unfolding ring_owned_iff [OF vn] ring_owned_iff [OF a(3,4)] m1 [symmetric] by auto
qed

section \<open>Properties\<close>



end
