(* ===== verification/Go_Json_Utf8.thy ===== *)
theory Go_Json_Utf8
  imports Go_Json
begin

text \<open>
  Every string that the decoder of \<open>encoding/json\<close> produces is valid UTF-8: what is not is replaced by
  the replacement character while the string is unquoted. So a value that came out of a document can be
  written into one again without loss.
\<close>

section \<open>Sequences\<close>

lemma utf8_valid_append: "utf8_ValidString x \<Longrightarrow> utf8_ValidString y \<Longrightarrow> utf8_ValidString (x @ y)"
proof (induction x rule: utf8_ValidString.induct)
  case (2 c cs)
  show ?case
  proof (cases "cc c < 128")
    case False
    let ?n = "utf8_len (c # cs)"
    have n: "?n \<noteq> 0" "utf8_ValidString (drop (?n - 1) cs)"
      using 2(3) False by (simp_all add: Let_def split: if_splits del: utf8_len.simps)
    have r: "?n \<le> length (c # cs)" using utf8_len_range [OF n(1)] by simp
    have "take ?n (c # cs) @ drop ?n (c # cs) @ y = c # cs @ y" by (metis append.assoc append_Cons append_take_drop_id)
    then have "utf8_len (c # cs @ y) = ?n" using utf8_len_prefix [OF n(1), of "drop ?n (c # cs) @ y"] by metis
    moreover have "utf8_ValidString (drop (?n - 1) (cs @ y))"
      using 2(2) [OF False refl n(1,2) 2(4)] r by (simp del: utf8_len.simps)
    ultimately show ?thesis using False n(1) by (simp add: Let_def del: utf8_len.simps)
  qed (use 2 in simp)
qed simp

lemma utf8_valid_seq:
  assumes "utf8_len s \<noteq> 0"
  shows "utf8_ValidString (take (utf8_len s) s)"
proof -
  obtain c cs where s: "s = c # cs" using assms by (cases s) auto
  let ?n = "utf8_len s"
  have r: "2 \<le> ?n" "?n \<le> length s" using utf8_len_range [OF assms] by auto
  then have t: "take ?n s = c # take (?n - 1) cs" using s by (cases ?n) auto
  have "128 \<le> cc c" using utf8_len_bytes [OF assms, of c] t by simp
  moreover have "utf8_len (c # take (?n - 1) cs) = ?n" using utf8_len_prefix [OF assms, of "[]"] t by simp
  ultimately show ?thesis unfolding t using assms by (simp add: Let_def del: utf8_len.simps)
qed

lemma utf8_valid_error: "utf8_ValidString utf8_error"
  by code_simp

lemma utf8_valid_rune:
  assumes "r < 1114112" "\<not> is_surrogate r"
  shows "utf8_ValidString (utf8_EncodeRune r)"
proof -
  consider "r < 128" | "128 \<le> r" "r < 2048" | "2048 \<le> r" "r < 65536" | "65536 \<le> r" using assms(1) by linarith
  then show ?thesis
  proof cases
    case 2
    have "cc (char_of (192 + r div 64)) = 192 + r div 64" "cc (char_of (128 + r mod 64)) = 128 + r mod 64"
      using 2 by (subst of_char_of; simp)+
    moreover have "2 \<le> r div 64" "r div 64 < 32" "r mod 64 < 64" using 2 by auto
    ultimately show ?thesis using 2 by (simp add: utf8_EncodeRune_def utf8_cont_def)
  next
    case 3
    have c: "cc (char_of (224 + r div 4096)) = 224 + r div 4096" "cc (char_of (128 + r div 64 mod 64)) = 128 + r div 64 mod 64"
      "cc (char_of (128 + r mod 64)) = 128 + r mod 64"
      using 3 by (subst of_char_of; simp)+
    have b: "r div 4096 < 16" "r div 64 mod 64 \<le> 63" "r mod 64 \<le> 63" using 3 by (auto simp: less_Suc_eq_le [symmetric])
    have "r div 64 = 64 * (r div 4096) + r div 64 mod 64" by (simp add: div_mult2_eq [of r 64 64, simplified])
    moreover have "r div 4096 = 13 \<Longrightarrow> r < 55296" using assms(2) by (auto simp: is_surrogate_def)
    ultimately have "r div 4096 = 0 \<Longrightarrow> 32 \<le> r div 64 mod 64" "r div 4096 = 13 \<Longrightarrow> r div 64 mod 64 \<le> 31"
      using 3 by auto
    then show ?thesis using 3 b c by (auto simp: utf8_EncodeRune_def utf8_cont_def utf8_second_def)
  next
    case 4
    have c: "cc (char_of (240 + r div 262144)) = 240 + r div 262144" "cc (char_of (128 + r div 4096 mod 64)) = 128 + r div 4096 mod 64"
      "cc (char_of (128 + r div 64 mod 64)) = 128 + r div 64 mod 64" "cc (char_of (128 + r mod 64)) = 128 + r mod 64"
      using 4 assms(1) by (subst of_char_of; simp)+
    have b: "r div 262144 \<le> 4" "r div 4096 mod 64 \<le> 63" "r div 64 mod 64 \<le> 63" "r mod 64 \<le> 63"
      using assms(1) by (auto simp: less_Suc_eq_le [symmetric])
    have "r div 4096 = 64 * (r div 262144) + r div 4096 mod 64" by (simp add: div_mult2_eq [of r 4096 64, simplified])
    then have "r div 262144 = 0 \<Longrightarrow> 16 \<le> r div 4096 mod 64" "r div 262144 = 4 \<Longrightarrow> r div 4096 mod 64 \<le> 15"
      using 4 assms(1) by auto
    then show ?thesis using 4 b c by (auto simp: utf8_EncodeRune_def utf8_cont_def utf8_second_def)
  qed (simp add: utf8_EncodeRune_def)
qed

section \<open>Unquoted strings\<close>

fun raw_ok :: "string \<Rightarrow> bool" where
  "raw_ok [] = True"
| "raw_ok (c # cs) =
     (if c = backslash then
        (case cs of
           [] \<Rightarrow> False
         | e # es \<Rightarrow>
             if e \<in> set (backslash # dquote # ''/bfnrt'') then raw_ok es
             else e = CHR ''u'' \<and> is_hex4 (take 4 es) \<and> raw_ok (drop 4 es))
      else raw_ok cs)"

lemma raw_ok_hex:
  assumes "is_hex4 h"
  shows "raw_ok (backslash # CHR ''u'' # h @ s) \<longleftrightarrow> raw_ok s"
proof -
  have "length h = 4" using assms by (simp add: is_hex4_def)
  then have "take 4 (h @ s) = h" "drop 4 (h @ s) = s" by simp_all
  then show ?thesis using assms by (simp del: take_append drop_append)
qed

lemma scan_raw_ok: "scan_raw s = Some (raw, r) \<Longrightarrow> raw_ok raw"
proof (induction s arbitrary: raw r rule: scan_raw.induct)
  case (2 c cs)
  show ?case
  proof (cases "c = backslash")
    case True
    then obtain e es where cs: "cs = e # es" using 2(4) by (cases cs) auto
    consider (short) raw' where "e \<in> set (backslash # dquote # ''/bfnrt'')" "scan_raw es = Some (raw', r)" "raw = c # e # raw'"
      | (hex) raw' where "e \<notin> set (backslash # dquote # ''/bfnrt'')" "e = CHR ''u''" "is_hex4 (take 4 es)"
          "scan_raw (drop 4 es) = Some (raw', r)" "raw = c # e # take 4 es @ raw'"
      using 2(4) True cs by (simp only: scan_raw.simps) (auto split: if_splits)
    then show ?thesis
    proof cases
      case short
      then show ?thesis using 2(1) [OF _ True cs short(1)] True by simp
    next
      case hex
      then show ?thesis using 2(2) [OF _ True cs hex(1)] True raw_ok_hex [of "take 4 es" raw'] by simp
    qed
  next
    case False
    then show ?thesis using 2(3,4) by (auto split: if_splits)
  qed
qed simp

lemma raw_ok_high: "(\<And>c. c \<in> set xs \<Longrightarrow> 128 \<le> cc c) \<Longrightarrow> raw_ok (xs @ t) \<longleftrightarrow> raw_ok t"
proof (induction xs)
  case (Cons x xs)
  have "128 \<le> cc x" using Cons.prems by simp
  then have "x \<noteq> backslash" by auto
  with Cons show ?case by simp
qed simp

lemma hex_val_less: "hex_val c = Some v \<Longrightarrow> v < 16"
  by (auto simp: hex_val_def Let_def split: if_splits)

lemma hex4_less:
  assumes "is_hex4 h"
  shows "hex4 h < 65536"
proof -
  obtain a b c d where h: "h = [a, b, c, d]"
    using assms by (auto simp: is_hex4_def length_Suc_conv numeral_eq_Suc)
  have "the (hex_val x) < 16" if "x \<in> set h" for x
    using assms that hex_val_less by (fastforce simp: is_hex4_def)
  then have "the (hex_val a) < 16" "the (hex_val b) < 16" "the (hex_val c) < 16" "the (hex_val d) < 16" using h by auto
  then show ?thesis by (simp add: h hex4_def)
qed

lemma unescape_ascii:
  assumes "e \<in> set (backslash # dquote # ''/bfnrt'')"
  shows "cc (unescape_char e) < 128"
proof -
  have "list_all (\<lambda>e. cc (unescape_char e) < 128) (backslash # dquote # ''/bfnrt'')" by code_simp
  with assms show ?thesis unfolding list_all_iff by blast
qed

lemma surrogate_pair_Some:
  assumes "surrogate_pair r s = Some d" "is_surrogate r" "raw_ok s"
  shows "d < 1114112" "\<not> is_surrogate d" "raw_ok (drop 6 s)"
proof -
  let ?x = "hex4 (take 4 (drop 2 s))"
  have x: "take 2 s = [backslash, CHR ''u'']" "is_hex4 (take 4 (drop 2 s))" "r < 56320" "56320 \<le> ?x" "?x < 57344"
    "d = 65536 + (r - 55296) * 1024 + (?x - 56320)"
    using assms(1) by (auto simp: surrogate_pair_def split: if_splits)
  then show "d < 1114112" "\<not> is_surrogate d" using assms(2) by (auto simp: is_surrogate_def)
  have "s = backslash # CHR ''u'' # drop 2 s" using x(1) append_take_drop_id [of 2 s] by simp
  moreover have "drop 4 (drop 2 s) = drop 6 s" by simp
  ultimately have "s = backslash # CHR ''u'' # take 4 (drop 2 s) @ drop 6 s" by (metis append_take_drop_id)
  then show "raw_ok (drop 6 s)" using assms(3) raw_ok_hex [OF x(2)] by metis
qed

lemma unquote_u:
  "json_unquote (backslash # CHR ''u'' # es) =
     (if is_surrogate (hex4 (take 4 es)) then
        (case surrogate_pair (hex4 (take 4 es)) (drop 4 es) of
           Some d \<Rightarrow> utf8_EncodeRune d @ json_unquote (drop 10 es)
         | None \<Rightarrow> utf8_error @ json_unquote (drop 4 es))
      else utf8_EncodeRune (hex4 (take 4 es)) @ json_unquote (drop 4 es))"
  by (subst json_unquote.simps) (simp only: list.case if_True Let_def simp_thms)

lemma unquote_valid: "raw_ok s \<Longrightarrow> utf8_ValidString (json_unquote s)"
proof (induction s rule: json_unquote.induct)
  case (2 c cs)
  consider (esc) "c = backslash" | (ascii) "c \<noteq> backslash" "cc c < 128" | (high) "c \<noteq> backslash" "\<not> cc c < 128" by blast
  then show ?case
  proof cases
    case esc
    then obtain e es where cs: "cs = e # es" using "2.prems" by (cases cs) auto
    show ?thesis
    proof (cases "e \<in> set (backslash # dquote # ''/bfnrt'')")
      case True
      then have "e \<noteq> CHR ''u''" "raw_ok es" using "2.prems" esc cs by auto
      with "2.IH"(4) [OF esc cs this(1)] show ?thesis
        using esc cs unescape_ascii [OF True] by simp
    next
      case False
      then have e: "e = CHR ''u''" "is_hex4 (take 4 es)" "raw_ok (drop 4 es)"
        using "2.prems" esc cs by (simp_all only: raw_ok.simps) (auto split: if_splits)
      let ?r = "hex4 (take 4 es)"
      show ?thesis
      proof (cases "is_surrogate ?r")
        case True
        show ?thesis
        proof (cases "surrogate_pair ?r (drop 4 es)")
          case None
          have "utf8_ValidString (utf8_error @ json_unquote (drop 4 es))"
            by (rule utf8_valid_append [OF utf8_valid_error "2.IH"(1) [OF esc cs e(1) refl True None e(3)]])
          then show ?thesis using True None unfolding esc cs e(1) unquote_u by simp
        next
          case (Some d)
          note d = surrogate_pair_Some [OF Some True e(3)]
          have "utf8_ValidString (utf8_EncodeRune d @ json_unquote (drop 10 es))"
            using utf8_valid_append [OF utf8_valid_rune [OF d(1,2)] "2.IH"(2) [OF esc cs e(1) refl True Some]] d(3) by simp
          then show ?thesis using True Some unfolding esc cs e(1) unquote_u by simp
        qed
      next
        case False
        have "?r < 1114112" using hex4_less [OF e(2)] by simp
        then have "utf8_ValidString (utf8_EncodeRune ?r @ json_unquote (drop 4 es))"
          using utf8_valid_append [OF utf8_valid_rune "2.IH"(3) [OF esc cs e(1) refl False e(3)]] False by simp
        then show ?thesis using False unfolding esc cs e(1) unquote_u by simp
      qed
    qed
  next
    case ascii
    then show ?thesis using 2 by simp
  next
    case high
    let ?n = "utf8_len (c # cs)"
    have raw: "raw_ok cs" using "2.prems" high by simp
    show ?thesis
    proof (cases "?n = 0")
      case True
      have "utf8_ValidString (utf8_error @ json_unquote cs)"
        by (rule utf8_valid_append [OF utf8_valid_error "2.IH"(6) [OF high refl True raw]])
      then show ?thesis using high True by (simp only: json_unquote.simps if_False if_True Let_def simp_thms)
    next
      case False
      have "take ?n (c # cs) @ drop (?n - 1) cs = c # cs" using False by (cases ?n) simp_all
      then have "raw_ok (drop (?n - 1) cs)"
        using raw_ok_high [of "take ?n (c # cs)" "drop (?n - 1) cs"] utf8_len_bytes [OF False] "2.prems" by metis
      from utf8_valid_append [OF utf8_valid_seq [OF False] "2.IH"(7) [OF high refl False this]]
      show ?thesis using high False by (simp only: json_unquote.simps if_False Let_def)
    qed
  qed
qed simp

section \<open>Documents\<close>

fun json_utf8 :: "json \<Rightarrow> bool" where
  "json_utf8 (JStr s) = utf8_ValidString s"
| "json_utf8 (JArr vs) = (\<forall>v \<in> set vs. json_utf8 v)"
| "json_utf8 (JObj ms) = (\<forall>(k, v) \<in> set ms. utf8_ValidString k \<and> json_utf8 v)"
| "json_utf8 _ = True"

fun token_utf8 :: "token \<Rightarrow> bool" where
  "token_utf8 (TStr s) = utf8_ValidString s"
| "token_utf8 _ = True"

fun ctx_utf8 :: "json_ctx \<Rightarrow> bool" where
  "ctx_utf8 (CArr vs) = list_all json_utf8 vs"
| "ctx_utf8 (CObj ms k) = (json_utf8 (JObj ms) \<and> utf8_ValidString k)"

fun pstate_utf8 :: "pstate \<Rightarrow> bool" where
  "pstate_utf8 (PVal st) = list_all ctx_utf8 st"
| "pstate_utf8 (PArr0 st) = list_all ctx_utf8 st"
| "pstate_utf8 (PArr vs st) = (list_all json_utf8 vs \<and> list_all ctx_utf8 st)"
| "pstate_utf8 (PObj0 st) = list_all ctx_utf8 st"
| "pstate_utf8 (PKey ms st) = (json_utf8 (JObj ms) \<and> list_all ctx_utf8 st)"
| "pstate_utf8 (PColon ms k st) = (json_utf8 (JObj ms) \<and> utf8_ValidString k \<and> list_all ctx_utf8 st)"
| "pstate_utf8 (PObj ms st) = (json_utf8 (JObj ms) \<and> list_all ctx_utf8 st)"
| "pstate_utf8 (PDone v) = json_utf8 v"
| "pstate_utf8 PErr = True"

lemma lex_token_utf8:
  assumes "lex_token s = Some (t, r)"
  shows "token_utf8 t"
proof (cases t)
  case (TStr u)
  obtain c cs where s: "s = c # cs" using assms by (cases s) (auto simp: lex_token_def)
  have "\<exists>raw. scan_raw cs = Some (raw, r) \<and> u = json_unquote raw"
    using assms unfolding lex_token_def s list.case TStr
    by (auto simp: lex_word_def split: if_split_asm)
  then show ?thesis using TStr scan_raw_ok unquote_valid by auto
qed simp_all

lemma p_value_utf8: "json_utf8 v \<Longrightarrow> list_all ctx_utf8 st \<Longrightarrow> pstate_utf8 (p_value v st)"
  by (cases st rule: list.exhaust; cases "hd st") (auto simp: list_all_iff)

lemma p_begin_utf8: "token_utf8 t \<Longrightarrow> list_all ctx_utf8 st \<Longrightarrow> pstate_utf8 (p_begin st t)"
  by (cases t) (simp_all add: p_value_utf8)

lemma p_step_utf8: "pstate_utf8 p \<Longrightarrow> token_utf8 t \<Longrightarrow> pstate_utf8 (p_step p t)"
  by (cases p) (auto simp: p_begin_utf8 p_value_utf8 list_all_iff split: token.splits)

lemma json_lex_utf8: "json_lex s = Some ts \<Longrightarrow> list_all token_utf8 ts"
proof (induction s arbitrary: ts rule: json_lex.induct)
  case (2 c cs)
  show ?case
  proof (cases "json_space c")
    case False
    then obtain t r us where "lex_token (c # cs) = Some (t, r)" "json_lex r = Some us" "ts = t # us"
      using 2(3) by (auto split: option.splits)
    then show ?thesis using 2(2) [OF False] lex_token_utf8 by simp
  qed (use 2 in simp)
qed simp

lemma p_steps_utf8: "pstate_utf8 p \<Longrightarrow> list_all token_utf8 ts \<Longrightarrow> pstate_utf8 (foldl p_step p ts)"
  by (induction ts arbitrary: p) (simp_all add: p_step_utf8)

lemma json_parse_utf8:
  assumes "json_parse s = Some v"
  shows "json_utf8 v"
proof -
  obtain ts where "json_lex s = Some ts" "foldl p_step (PVal []) ts = PDone v"
    using assms by (auto simp: json_parse_def split: option.splits pstate.splits)
  then show ?thesis using json_lex_utf8 p_steps_utf8 [of "PVal []" ts] by fastforce
qed

section \<open>Decoded values\<close>

lemma dec_string_utf8: "dec_string v old = Inr s \<Longrightarrow> json_utf8 v \<Longrightarrow> utf8_ValidString old \<Longrightarrow> utf8_ValidString s"
  by (cases v) auto

lemma dec_struct_inv:
  assumes "dec_struct names store v old = Inr r" "json_utf8 v" "P old"
    and "\<And>n x a b. n \<in> set names \<Longrightarrow> json_utf8 x \<Longrightarrow> P a \<Longrightarrow> store n x a = Inr b \<Longrightarrow> P b"
  shows "P r"
proof (cases v)
  case (JObj ms)
  let ?f = "\<lambda>acc (k, x). case acc of Inl e \<Rightarrow> Inl e
      | Inr r \<Rightarrow> (case find_field names k of None \<Rightarrow> Inr r | Some n \<Rightarrow> store n x r)"
  have L: "foldl ?f (Inl e) xs \<noteq> Inr b" for e b xs by (induction xs arbitrary: e) auto
  have mem: "find_field names k = Some n \<Longrightarrow> n \<in> set names" for k n
    by (auto simp: find_field_def find_Some_iff split: if_splits)
  have "P b" if "foldl ?f (Inr a) xs = Inr b" "P a" "\<forall>(k, x) \<in> set xs. json_utf8 x" for a b xs
    using that
  proof (induction xs arbitrary: a)
    case (Cons p xs)
    obtain k x where p: "p = (k, x)" by fastforce
    show ?case
    proof (cases "find_field names k")
      case None
      then show ?thesis using Cons p by simp
    next
      case (Some n)
      then obtain a' where "store n x a = Inr a'" "foldl ?f (Inr a') xs = Inr b"
        using Cons.prems(1) p L by (cases "store n x a") auto
      then show ?thesis using Cons.IH [of a'] Cons.prems(2,3) p assms(4) [OF mem [OF Some]] by auto
    qed
  qed simp
  from this [of old ms r] show ?thesis using assms JObj by (auto simp: dec_struct_def)
qed (use assms in \<open>auto simp: dec_struct_def\<close>)

end
