(* ===== verification/Cluster_Json.thy ===== *)
theory Cluster_Json
  imports Shard_Map Go_Json_Utf8
begin

text \<open>
  The JSON of the cluster's replicated state (\<open>internal/server/clusterserver/fsm.go\<close> and
  \<open>shard.go\<close>): the structs by their tags or field names, maps with integer keys, and a
  \<open>json.Decoder\<close> that takes the first document of a stream.
\<close>

section \<open>The first document of a stream\<close>

lemma lex_after_space: "lex_token (dropWhile json_space s) = Some (t, r) \<Longrightarrow> length r < length s"
  using lex_token_shorter length_dropWhile_le by (metis order_less_le_trans)

function json_stream :: "pstate \<Rightarrow> string \<Rightarrow> json option" where
  "json_stream p s =
     (case p of
        PDone v \<Rightarrow> Some v
      | PErr \<Rightarrow> None
      | _ \<Rightarrow> (case lex_token (dropWhile json_space s) of
                None \<Rightarrow> None
              | Some (t, r) \<Rightarrow> json_stream (p_step p t) r))"
  by pat_completeness auto
termination
  by (relation "measure (\<lambda>(p, s). length s)")
    (auto dest: lex_after_space)

declare json_stream.simps [simp del]

definition json_Decode :: "(json \<Rightarrow> go_error + 'a) \<Rightarrow> bytes \<Rightarrow> go_error + 'a" where
  "json_Decode dec b =
     (case json_stream (PVal []) (string_of_bytes b) of None \<Rightarrow> Inl json_syntax_error | Some v \<Rightarrow> dec v)"

lemma p_step_PErr [simp]: "foldl p_step PErr ts = PErr"
  by (induction ts) simp_all

lemma json_stream_tokens:
  assumes "foldl p_step p ts = PDone v" "tokens_ok ts" "ts \<noteq> [] \<Longrightarrow> \<nexists>n. last ts = TNum n"
  shows "json_stream p (concat (map token_text ts) @ r) = Some v"
  using assms
proof (induction ts arbitrary: p)
  case Nil
  then show ?case by (subst json_stream.simps) simp
next
  case (Cons t ts)
  let ?r = "concat (map token_text ts) @ r"
  obtain c q where c: "token_text t = c # q" "\<not> json_space c" using token_text_start [of t] Cons.prems(2) by (metis tokens_ok.simps(2))
  have num: "case t of TNum _ \<Rightarrow> ?r = [] \<or> hd ?r \<in> set '',]}'' | _ \<Rightarrow> True"
  proof (cases "\<exists>n. t = TNum n")
    case True
    then have "ts \<noteq> []" "closing ts" using Cons.prems(2,3) by auto
    then have "concat (map token_text ts) \<noteq> []" "hd (concat (map token_text ts)) \<in> set '',]}''"
      using closing_text [of ts] by (cases ts; auto simp: closing_def)+
    then show ?thesis by (auto split: token.splits)
  qed (auto split: token.splits)
  have "lex_token (token_text t @ ?r) = Some (t, ?r)" by (rule lex_token_text) (use Cons.prems(2) num in auto)
  moreover have "json_stream (p_step p t) ?r = Some v" using Cons by (auto split: if_splits)
  ultimately have "json_stream p (token_text t @ ?r) = Some v" if "\<forall>v. p \<noteq> PDone v" "p \<noteq> PErr"
    using c that by (subst json_stream.simps) (cases p; simp)
  moreover have "\<forall>v. p \<noteq> PDone v" "p \<noteq> PErr" using Cons.prems(1) by auto
  ultimately show ?case by simp
qed

lemma json_Decode_text:
  assumes "json_ok (JObj ms)" "json_depth (JObj ms) \<le> maxNestingDepth"
  shows "json_Decode dec (bytes_of_string (json_text (JObj ms) @ r)) = dec (JObj ms)"
proof -
  let ?ts = "json_tokens (JObj ms)"
  have "foldl p_step (PVal []) ?ts = PDone (JObj ms)"
    using parse_tokens [of "JObj ms" "[]"] assms(2) by (simp add: parses_def)
  moreover have "tokens_ok ?ts" using tokens_ok_json [OF assms(1), of "[]"] by (simp add: closing_def)
  ultimately have "json_stream (PVal []) (json_text (JObj ms) @ r) = Some (JObj ms)"
    unfolding json_text_def by (intro json_stream_tokens) simp_all
  then show ?thesis unfolding json_Decode_def string_of_bytes_of_string by simp
qed

section \<open>Maps with integer keys\<close>

definition json_umap :: "('v \<Rightarrow> json) \<Rightarrow> ('w::len word, 'v) gomap option \<Rightarrow> json" where
  "json_umap enc m = (case m of None \<Rightarrow> JNull
     | Some d \<Rightarrow> JObj (sort_key fst (map (\<lambda>(k, v). (FormatInt (uint k), enc v)) d)))"

definition dec_umap :: "(json \<Rightarrow> go_error + 'v) \<Rightarrow> json \<Rightarrow> ('w::len word, 'v) gomap option \<Rightarrow> go_error + ('w word, 'v) gomap option" where
  "dec_umap dec v old =
     (case v of
        JNull \<Rightarrow> Inr None
      | JObj ms \<Rightarrow>
          map_sum id Some
            (foldl (\<lambda>acc (k, x). case acc of Inl e \<Rightarrow> Inl e
                     | Inr m \<Rightarrow> (case ParseUint LENGTH('w) k of
                                  None \<Rightarrow> Inl json_type_error
                                | Some n \<Rightarrow> map_sum id (\<lambda>y. gm_set (of_nat n) y m) (dec x)))
               (Inr (nm_items old)) ms)
      | _ \<Rightarrow> Inl json_type_error)"

lemma option_eqI: "(\<And>v. x = Some v \<longleftrightarrow> y = Some v) \<Longrightarrow> x = y"
  by (cases x; cases y) auto

lemma gm_eqI:
  assumes "gm_wf m" "gm_wf n" "set m = set n"
  shows "gm_get m = gm_get n"
proof (rule ext, rule option_eqI)
  show "gm_get m k = Some v \<longleftrightarrow> gm_get n k = Some v" for k v
    unfolding gm_get_iff_mem [OF assms(1)] gm_get_iff_mem [OF assms(2)] assms(3) ..
qed

lemma sort_key_map: "sort_key f (map g xs) = map g (sort_key (f \<circ> g) xs)"
proof -
  have "insort_key f (g x) (map g ys) = map g (insort_key (f \<circ> g) x ys)" for x ys by (induction ys) simp_all
  then show ?thesis by (induction xs) simp_all
qed

text \<open>A map that comes back has the same entries, perhaps in another order.\<close>

lemma dec_json_umap:
  fixes m :: "('w::len word, 'v) gomap"
  assumes "gm_wf m" "\<And>v. v \<in> snd ` set m \<Longrightarrow> dec (enc v) = Inr v"
  obtains m' where "dec_umap dec (json_umap enc (Some m)) None = Inr (Some m')" "gm_wf m'" "gm_get m' = gm_get m"
proof -
  let ?f = "\<lambda>(k, v). (FormatInt (uint k), enc v) :: string \<times> json"
  let ?xs = "sort_key (fst \<circ> ?f) m"
  have set: "set ?xs = set m" by simp
  have wf: "gm_wf ?xs" using assms(1) by (simp add: gm_wf_def distinct_map)
  have fold: "foldl (\<lambda>acc (k, x). case acc of Inl e \<Rightarrow> Inl e
        | Inr m \<Rightarrow> (case ParseUint LENGTH('w) k of None \<Rightarrow> Inl json_type_error
             | Some n \<Rightarrow> map_sum id (\<lambda>y. gm_set (of_nat n) y m) (dec x))) (Inr acc) (map ?f xs) =
      Inr (foldl (\<lambda>m (k, v). gm_set k v m) acc xs)"
    if "set xs \<subseteq> set m" for acc :: "('w word, 'v) gomap" and xs
    using that
  proof (induction xs arbitrary: acc)
    case (Cons p xs)
    obtain k v where p: "p = (k, v)" by fastforce
    have "ParseUint LENGTH('w) (FormatInt (uint k)) = Some (unat k)"
      using ParseUint_FormatInt [of "unat k" "LENGTH('w)"] by simp
    moreover have "dec (enc v) = Inr v" using Cons.prems p by (intro assms(2)) force
    ultimately show ?case using Cons p by simp
  qed simp
  have "dec_umap dec (json_umap enc (Some m)) None = Inr (Some ?xs)"
    using fold [of ?xs "[]"] gm_rebuild [of "[]" ?xs] wf set
    by (simp add: dec_umap_def json_umap_def sort_key_map)
  moreover have "gm_get ?xs = gm_get m" by (rule gm_eqI [OF wf assms(1) set])
  ultimately show ?thesis using that wf by blast
qed

section \<open>Slices\<close>

text \<open>A slice is decoded over the elements that are there, so a null keeps an old element.\<close>

fun dec_elems :: "(json \<Rightarrow> 'a \<Rightarrow> go_error + 'a) \<Rightarrow> 'a \<Rightarrow> json list \<Rightarrow> 'a list \<Rightarrow> go_error + 'a list" where
  "dec_elems dec z [] old = Inr []"
| "dec_elems dec z (x # xs) old =
     (case dec x (case old of [] \<Rightarrow> z | y # _ \<Rightarrow> y) of
        Inl e \<Rightarrow> Inl e
      | Inr y \<Rightarrow> map_sum id (Cons y) (dec_elems dec z xs (tl old)))"

definition dec_list :: "(json \<Rightarrow> 'a \<Rightarrow> go_error + 'a) \<Rightarrow> 'a \<Rightarrow> json \<Rightarrow> 'a list \<Rightarrow> go_error + 'a list" where
  "dec_list dec z v old =
     (case v of JNull \<Rightarrow> Inr [] | JArr vs \<Rightarrow> dec_elems dec z vs old | _ \<Rightarrow> Inl json_type_error)"

lemma dec_elems_map:
  "(\<And>x old. x \<in> set xs \<Longrightarrow> dec (enc x) old = Inr x) \<Longrightarrow> dec_elems dec z (map enc xs) old = Inr xs"
  by (induction xs arbitrary: old) auto

lemma dec_list_strings [simp]: "dec_list dec_string z (JArr (map JStr xs)) old = Inr xs"
  by (simp add: dec_list_def dec_elems_map)

lemma dec_list_uints [simp]: "dec_list dec_uint z (JArr (map JUint xs)) old = Inr (xs :: 'w::len word list)"
  by (simp add: dec_list_def dec_elems_map del: dec_uint.simps)

lemma dec_list_strings_utf8:
  assumes "dec_list dec_string '''' v old = Inr xs" "json_utf8 v" "list_all utf8_ValidString old"
  shows "list_all utf8_ValidString xs"
proof (cases v)
  case (JArr vs)
  have "list_all utf8_ValidString xs" if "dec_elems dec_string '''' vs old = Inr xs" "\<forall>v \<in> set vs. json_utf8 v"
    "list_all utf8_ValidString old" for vs old xs
    using that
  proof (induction vs arbitrary: old xs)
    case (Cons v vs)
    let ?o = "case old of [] \<Rightarrow> '''' | y # _ \<Rightarrow> y"
    have o: "utf8_ValidString ?o" "list_all utf8_ValidString (tl old)" using Cons.prems(3) by (cases old; simp)+
    obtain y ys where "dec_string v ?o = Inr y" "dec_elems dec_string '''' vs (tl old) = Inr ys" "xs = y # ys"
      using Cons.prems(1) by (cases "dec_elems dec_string '''' vs (tl old)") (auto split: sum.splits)
    then show ?case using Cons o dec_string_utf8 [of v ?o y] by auto
  qed simp
  then show ?thesis using assms JArr by (simp add: dec_list_def)
qed (use assms in \<open>auto simp: dec_list_def\<close>)

section \<open>Decoded documents are valid UTF-8\<close>

lemma json_stream_utf8: "json_stream p s = Some v \<Longrightarrow> pstate_utf8 p \<Longrightarrow> json_utf8 v"
proof (induction s arbitrary: p rule: length_induct)
  case (1 s)
  show ?case
  proof (cases "(\<exists>w. p = PDone w) \<or> p = PErr")
    case True
    then show ?thesis using "1.prems" by (subst (asm) json_stream.simps) auto
  next
    case False
    then obtain t r where t: "lex_token (dropWhile json_space s) = Some (t, r)" "json_stream (p_step p t) r = Some v"
      using "1.prems"(1) by (subst (asm) json_stream.simps) (auto split: pstate.splits option.splits)
    have "pstate_utf8 (p_step p t)" by (rule p_step_utf8 [OF "1.prems"(2) lex_token_utf8 [OF t(1)]])
    then show ?thesis using "1.IH" lex_after_space [OF t(1)] t(2) by blast
  qed
qed

end
