(* ===== verification/Cluster_FSM.thy ===== *)
theory Cluster_FSM
  imports Cluster_Json
begin

text \<open>
  The state machine that Raft replicates, \<open>internal/server/clusterserver/fsm.go\<close>: log entries in
  JSON, their application, snapshots and their restoration; and \<open>encodeLogEntry\<close> of \<open>server.go\<close>,
  which makes the entries.

  A panic is the result \<open>None\<close>. A \<open>json.RawMessage\<close> is the document it holds, nil when absent:
  encoding it compacts the text that \<open>Marshal\<close> wrote, which changes nothing. A pointer or map that may
  be nil is an option. The compression of \<open>compress/gzip\<close> and the snapshot sink of Raft are parameters.
  Log lines are left out, except that one of them reads the restored shard map.
\<close>

section \<open>Log entries\<close>

abbreviation LogEntryShardMapUpdate :: byte where "LogEntryShardMapUpdate \<equiv> 1"
abbreviation LogEntryMemberJoin :: byte where "LogEntryMemberJoin \<equiv> 2"
abbreviation LogEntryMemberLeave :: byte where "LogEntryMemberLeave \<equiv> 3"
abbreviation LogEntryConfigChange :: byte where "LogEntryConfigChange \<equiv> 4"

record log_entry =
  le_Type :: byte
  le_Payload :: "json option"

record shard_update =
  su_ShardID :: u32
  su_NodeID :: string
  su_Replicas :: "string list"

record member_join =
  mj_NodeID :: string
  mj_Addr :: string

record member_leave =
  ml_NodeID :: string

definition shard_update_json :: "shard_update \<Rightarrow> json" where
  "shard_update_json u = JObj
     ([(''shard_id'', JUint (su_ShardID u)), (''node_id'', JStr (su_NodeID u))] @
      (if su_Replicas u = [] then [] else [(''replicas'', JArr (map JStr (su_Replicas u)))]))"

definition member_join_json :: "member_join \<Rightarrow> json" where
  "member_join_json j = JObj [(''node_id'', JStr (mj_NodeID j)), (''addr'', JStr (mj_Addr j))]"

definition member_leave_json :: "member_leave \<Rightarrow> json" where
  "member_leave_json l = JObj [(''node_id'', JStr (ml_NodeID l))]"

definition encodeLogEntry :: "byte \<Rightarrow> json \<Rightarrow> go_error + bytes" where
  "encodeLogEntry typ payload = json_Marshal (JObj [(''type'', JUint typ), (''payload'', payload)])"

definition log_entry_field :: "string \<Rightarrow> json \<Rightarrow> log_entry \<Rightarrow> go_error + log_entry" where
  "log_entry_field n v e =
     (if n = ''type'' then map_sum id (\<lambda>x. e \<lparr> le_Type := x \<rparr>) (dec_uint v (le_Type e))
      else Inr (e \<lparr> le_Payload := Some v \<rparr>))"

definition json_Unmarshal_entry :: "bytes \<Rightarrow> go_error + log_entry" where
  "json_Unmarshal_entry = json_Unmarshal (\<lambda>v. dec_struct [''type'', ''payload''] log_entry_field v
     \<lparr> le_Type = 0, le_Payload = None \<rparr>)"

definition shard_update_field :: "string \<Rightarrow> json \<Rightarrow> shard_update \<Rightarrow> go_error + shard_update" where
  "shard_update_field n v u =
     (if n = ''shard_id'' then map_sum id (\<lambda>x. u \<lparr> su_ShardID := x \<rparr>) (dec_uint v (su_ShardID u))
      else if n = ''node_id'' then map_sum id (\<lambda>x. u \<lparr> su_NodeID := x \<rparr>) (dec_string v (su_NodeID u))
      else map_sum id (\<lambda>x. u \<lparr> su_Replicas := x \<rparr>) (dec_list dec_string '''' v (su_Replicas u)))"

definition member_join_field :: "string \<Rightarrow> json \<Rightarrow> member_join \<Rightarrow> go_error + member_join" where
  "member_join_field n v j =
     (if n = ''node_id'' then map_sum id (\<lambda>x. j \<lparr> mj_NodeID := x \<rparr>) (dec_string v (mj_NodeID j))
      else map_sum id (\<lambda>x. j \<lparr> mj_Addr := x \<rparr>) (dec_string v (mj_Addr j)))"

definition member_leave_field :: "string \<Rightarrow> json \<Rightarrow> member_leave \<Rightarrow> go_error + member_leave" where
  "member_leave_field n v l = map_sum id (\<lambda>x. l \<lparr> ml_NodeID := x \<rparr>) (dec_string v (ml_NodeID l))"

text \<open>Unmarshalling a nil payload is a syntax error.\<close>

definition dec_payload :: "string list \<Rightarrow> (string \<Rightarrow> json \<Rightarrow> 'a \<Rightarrow> go_error + 'a) \<Rightarrow> json option \<Rightarrow> 'a \<Rightarrow> go_error + 'a" where
  "dec_payload names store payload zero =
     (case payload of None \<Rightarrow> Inl json_syntax_error | Some v \<Rightarrow> dec_struct names store v zero)"

section \<open>The machine\<close>

record member =
  m_NodeID :: string
  m_Addr :: string
  m_IsLeader :: bool
  m_State :: string

record fsm =
  f_shardMap :: "shard_map option"
  f_members :: "(string, member option) gomap option"

definition NewFSM :: fsm where
  "NewFSM = \<lparr> f_shardMap = Some NewShardMap, f_members = Some [] \<rparr>"

definition applyShardMapUpdate :: "fsm \<Rightarrow> json option \<Rightarrow> fsm option" where
  "applyShardMapUpdate f payload =
     (case dec_payload [''shard_id'', ''node_id'', ''replicas''] shard_update_field payload
             \<lparr> su_ShardID = 0, su_NodeID = '''', su_Replicas = [] \<rparr> of
        Inl err \<Rightarrow> None
      | Inr u \<Rightarrow>
          (case f_shardMap f of
             None \<Rightarrow> None
           | Some m \<Rightarrow>
               map_option (\<lambda>m'. f \<lparr> f_shardMap := Some m' \<rparr>) (AssignShard m (su_ShardID u) (su_NodeID u) (su_Replicas u))))"

definition applyMemberJoin :: "fsm \<Rightarrow> json option \<Rightarrow> fsm option" where
  "applyMemberJoin f payload =
     (case dec_payload [''node_id'', ''addr''] member_join_field payload \<lparr> mj_NodeID = '''', mj_Addr = '''' \<rparr> of
        Inl err \<Rightarrow> None
      | Inr j \<Rightarrow>
          map_option (\<lambda>ms. f \<lparr> f_members := ms \<rparr>)
            (nm_set (mj_NodeID j)
               (Some \<lparr> m_NodeID = mj_NodeID j, m_Addr = mj_Addr j, m_IsLeader = False, m_State = ''alive'' \<rparr>)
               (f_members f)))"

definition applyMemberLeave :: "fsm \<Rightarrow> json option \<Rightarrow> fsm option" where
  "applyMemberLeave f payload =
     (case dec_payload [''node_id''] member_leave_field payload \<lparr> ml_NodeID = '''' \<rparr> of
        Inl err \<Rightarrow> None
      | Inr l \<Rightarrow> Some (f \<lparr> f_members := nm_del (ml_NodeID l) (f_members f) \<rparr>))"

definition applyConfigChange :: "fsm \<Rightarrow> json option \<Rightarrow> fsm option" where
  "applyConfigChange f payload = Some f"

definition FSM_Apply :: "fsm \<Rightarrow> bytes \<Rightarrow> fsm option" where
  "FSM_Apply f dat =
     (case json_Unmarshal_entry dat of
        Inl err \<Rightarrow> None
      | Inr entry \<Rightarrow>
          if le_Type entry = LogEntryShardMapUpdate then applyShardMapUpdate f (le_Payload entry)
          else if le_Type entry = LogEntryMemberJoin then applyMemberJoin f (le_Payload entry)
          else if le_Type entry = LogEntryMemberLeave then applyMemberLeave f (le_Payload entry)
          else if le_Type entry = LogEntryConfigChange then applyConfigChange f (le_Payload entry)
          else None)"

section \<open>Snapshots\<close>

record fsm_snapshot =
  ss_shardMap :: shard_map
  ss_members :: "(string, member) gomap"

text \<open>Copying the members reads every one of them; a nil member panics.\<close>

definition copy_members :: "(string, member option) gomap option \<Rightarrow> (string, member) gomap option" where
  "copy_members ms =
     (if list_all (\<lambda>(k, v). v \<noteq> None) (nm_items ms) then Some (map (\<lambda>(k, v). (k, the v)) (nm_items ms)) else None)"

definition FSM_Snapshot :: "fsm \<Rightarrow> fsm_snapshot option" where
  "FSM_Snapshot f =
     (case f_shardMap f of
        None \<Rightarrow> None
      | Some m \<Rightarrow>
          map_option (\<lambda>ms. \<lparr> ss_shardMap = ShardMap_Clone m, ss_members = ms \<rparr>) (copy_members (f_members f)))"

definition FSM_GetShardMap :: "fsm \<Rightarrow> shard_map option" where
  "FSM_GetShardMap f = map_option ShardMap_Clone (f_shardMap f)"

definition FSM_GetMembers :: "fsm \<Rightarrow> (string, member) gomap option" where
  "FSM_GetMembers f = copy_members (f_members f)"

definition shard_map_json :: "shard_map \<Rightarrow> json" where
  "shard_map_json m = JObj
     [(''Shards'', json_umap JStr (sm_Shards m)),
      (''Replicas'', json_umap (\<lambda>l. JArr (map JStr l)) (sm_Replicas m)), (''Version'', JUint (sm_Version m)),
      (''VirtualNodes'', json_umap JStr (sm_VirtualNodes m)), (''SortedHashes'', JArr (map JUint (sm_SortedHashes m)))]"

definition member_json :: "member \<Rightarrow> json" where
  "member_json m = JObj [(''NodeID'', JStr (m_NodeID m)), (''Addr'', JStr (m_Addr m)), (''IsLeader'', JBool (m_IsLeader m)),
     (''State'', JStr (m_State m))]"

definition snapshot_json :: "fsm_snapshot \<Rightarrow> json" where
  "snapshot_json s = JObj
     [(''shard_map'', shard_map_json (ss_shardMap s)),
      (''members'', JObj (map (\<lambda>(k, v). (k, member_json v)) (sort_key fst (ss_members s))))]"

record gzip =
  gz_Write :: "bytes \<Rightarrow> bytes"
  gz_Read :: "bytes \<Rightarrow> go_error + bytes \<times> go_error option"

text \<open>The outcomes of writing the document, of closing the compressor and of closing the sink.\<close>

record sink_calls =
  sink_Encode :: "go_error option"
  sink_Flush :: "go_error option"
  sink_Close :: "go_error option"

text \<open>The encoder ends the document with a newline.\<close>

definition snapshot_text :: "fsm_snapshot \<Rightarrow> bytes" where
  "snapshot_text s = bytes_of_string (json_text (snapshot_json s) @ [CHR 0x0A])"

text \<open>The contents that the sink was closed with, or \<open>None\<close> when it was cancelled.\<close>

definition Persist :: "gzip \<Rightarrow> sink_calls \<Rightarrow> fsm_snapshot \<Rightarrow> bytes option \<times> go_error option" where
  "Persist G sink s =
     (case sink_Encode sink of
        Some err \<Rightarrow> (None, Some (WrapError ''encode snapshot'' err))
      | None \<Rightarrow>
     (case sink_Flush sink of
        Some err \<Rightarrow> (None, Some (WrapError ''close gzip writer'' err))
      | None \<Rightarrow>
          (Some (gz_Write G (snapshot_text s)), sink_Close sink)))"

definition shard_map_field :: "string \<Rightarrow> json \<Rightarrow> shard_map \<Rightarrow> go_error + shard_map" where
  "shard_map_field n v m =
     (if n = ''Shards'' then map_sum id (\<lambda>x. m \<lparr> sm_Shards := x \<rparr>) (dec_umap (\<lambda>v. dec_string v '''') v (sm_Shards m))
      else if n = ''Replicas'' then
        map_sum id (\<lambda>x. m \<lparr> sm_Replicas := x \<rparr>) (dec_umap (\<lambda>v. dec_list dec_string '''' v []) v (sm_Replicas m))
      else if n = ''Version'' then map_sum id (\<lambda>x. m \<lparr> sm_Version := x \<rparr>) (dec_uint v (sm_Version m))
      else if n = ''VirtualNodes'' then
        map_sum id (\<lambda>x. m \<lparr> sm_VirtualNodes := x \<rparr>) (dec_umap (\<lambda>v. dec_string v '''') v (sm_VirtualNodes m))
      else map_sum id (\<lambda>x. m \<lparr> sm_SortedHashes := x \<rparr>) (dec_list dec_uint 0 v (sm_SortedHashes m)))"

abbreviation shard_map_names :: "string list" where
  "shard_map_names \<equiv> [''Shards'', ''Replicas'', ''Version'', ''VirtualNodes'', ''SortedHashes'']"

definition shard_map_zero :: shard_map where
  "shard_map_zero = \<lparr> sm_Shards = None, sm_Replicas = None, sm_Version = 0, sm_VirtualNodes = None, sm_SortedHashes = [] \<rparr>"

definition member_field :: "string \<Rightarrow> json \<Rightarrow> member \<Rightarrow> go_error + member" where
  "member_field n v m =
     (if n = ''NodeID'' then map_sum id (\<lambda>x. m \<lparr> m_NodeID := x \<rparr>) (dec_string v (m_NodeID m))
      else if n = ''Addr'' then map_sum id (\<lambda>x. m \<lparr> m_Addr := x \<rparr>) (dec_string v (m_Addr m))
      else if n = ''IsLeader'' then map_sum id (\<lambda>x. m \<lparr> m_IsLeader := x \<rparr>) (dec_bool v (m_IsLeader m))
      else map_sum id (\<lambda>x. m \<lparr> m_State := x \<rparr>) (dec_string v (m_State m)))"

abbreviation member_names :: "string list" where
  "member_names \<equiv> [''NodeID'', ''Addr'', ''IsLeader'', ''State'']"

definition member_zero :: member where
  "member_zero = \<lparr> m_NodeID = '''', m_Addr = '''', m_IsLeader = False, m_State = '''' \<rparr>"

definition dec_member :: "json \<Rightarrow> go_error + member option" where
  "dec_member v = (if v = JNull then Inr None else map_sum id Some (dec_struct member_names member_field v member_zero))"

definition dec_members :: "json \<Rightarrow> (string, member option) gomap option \<Rightarrow> go_error + (string, member option) gomap option" where
  "dec_members v old =
     (case v of
        JNull \<Rightarrow> Inr None
      | JObj ms \<Rightarrow>
          map_sum id Some
            (foldl (\<lambda>acc (k, x). case acc of Inl e \<Rightarrow> Inl e | Inr m \<Rightarrow> map_sum id (\<lambda>y. gm_set k y m) (dec_member x))
               (Inr (nm_items old)) ms)
      | _ \<Rightarrow> Inl json_type_error)"

text \<open>The state that is decoded into: the fields of the machine.\<close>

definition restore_field :: "string \<Rightarrow> json \<Rightarrow> fsm \<Rightarrow> go_error + fsm" where
  "restore_field n v f =
     (if n = ''shard_map'' then
        (if v = JNull then Inr (f \<lparr> f_shardMap := None \<rparr>)
         else map_sum id (\<lambda>m. f \<lparr> f_shardMap := Some m \<rparr>)
                (dec_struct shard_map_names shard_map_field v (case f_shardMap f of None \<Rightarrow> shard_map_zero | Some m \<Rightarrow> m)))
      else map_sum id (\<lambda>ms. f \<lparr> f_members := ms \<rparr>) (dec_members v (f_members f)))"

text \<open>Which error the decoder reports when the stream breaks off is not modelled. After a success the
  number of shards is logged, which panics when the document had no shard map.\<close>

definition restore_text :: "fsm \<Rightarrow> bytes \<Rightarrow> (fsm \<times> go_error option) option" where
  "restore_text f text =
     (case json_Decode (\<lambda>v. dec_struct [''shard_map'', ''members''] restore_field v
             \<lparr> f_shardMap = None, f_members = None \<rparr>) text of
        Inl err \<Rightarrow> Some (f, Some (WrapError ''decode snapshot'' err))
      | Inr f' \<Rightarrow> if f_shardMap f' = None then None else Some (f', None))"

definition FSM_Restore :: "gzip \<Rightarrow> fsm \<Rightarrow> bytes \<Rightarrow> (fsm \<times> go_error option) option" where
  "FSM_Restore G f b =
     (case gz_Read G b of
        Inl err \<Rightarrow> Some (f, Some (WrapError ''create gzip reader'' err))
      | Inr (text, _) \<Rightarrow> restore_text f text)"

section \<open>The state invariant\<close>

text \<open>Maps that are not nil, whose entries all satisfy a predicate.\<close>

definition nm_all :: "('k \<Rightarrow> 'v \<Rightarrow> bool) \<Rightarrow> ('k, 'v) gomap option \<Rightarrow> bool" where
  "nm_all P m \<longleftrightarrow> (\<exists>d. m = Some d \<and> gm_wf d \<and> (\<forall>(k, v) \<in> set d. P k v))"

lemma nm_all_iff: "nm_all P m \<longleftrightarrow> (\<exists>d. m = Some d \<and> gm_wf d) \<and> (\<forall>k v. nm_get m k = Some v \<longrightarrow> P k v)"
  by (auto simp: nm_all_def gm_get_iff_mem)

lemma nm_all_set:
  assumes "nm_all P m" "P k v"
  obtains m' where "nm_set k v m = Some m'" "nm_all P m'" "nm_get m' = (nm_get m)(k \<mapsto> v)"
proof -
  obtain d where d: "m = Some d" "gm_wf d" using assms(1) by (auto simp: nm_all_def)
  have "nm_all P (Some (gm_set k v d))"
    using assms d by (auto simp: nm_all_iff gm_wf_set gm_get_set)
  then show ?thesis using d by (intro that [of "Some (gm_set k v d)"]) (auto simp: gm_get_set)
qed

lemma nm_all_del:
  assumes "nm_all P m"
  shows "nm_all P (nm_del k m)" "nm_get (nm_del k m) = (nm_get m)(k := None)"
proof -
  obtain d where d: "m = Some d" "gm_wf d" using assms by (auto simp: nm_all_def)
  show "nm_all P (nm_del k m)" using assms d by (auto simp: nm_all_iff gm_wf_del gm_get_del)
  show "nm_get (nm_del k m) = (nm_get m)(k := None)" using d by (simp add: gm_get_del)
qed

definition shard_map_ok :: "shard_map \<Rightarrow> bool" where
  "shard_map_ok m \<longleftrightarrow> nm_all (\<lambda>_. utf8_ValidString) (sm_Shards m) \<and>
     nm_all (\<lambda>_. list_all utf8_ValidString) (sm_Replicas m) \<and> nm_all (\<lambda>_. utf8_ValidString) (sm_VirtualNodes m)"

definition member_ok :: "string \<Rightarrow> member option \<Rightarrow> bool" where
  "member_ok k v \<longleftrightarrow> utf8_ValidString k \<and>
     (case v of None \<Rightarrow> False
      | Some m \<Rightarrow> utf8_ValidString (m_NodeID m) \<and> utf8_ValidString (m_Addr m) \<and> utf8_ValidString (m_State m))"

definition fsm_ok :: "fsm \<Rightarrow> bool" where
  "fsm_ok f \<longleftrightarrow> (\<exists>m. f_shardMap f = Some m \<and> shard_map_ok m) \<and> nm_all member_ok (f_members f)"

text \<open>Two states that no operation tells apart: maps with the same entries.\<close>

definition same_map :: "shard_map \<Rightarrow> shard_map \<Rightarrow> bool" where
  "same_map m n \<longleftrightarrow> nm_get (sm_Shards m) = nm_get (sm_Shards n) \<and> nm_get (sm_Replicas m) = nm_get (sm_Replicas n) \<and>
     sm_Version m = sm_Version n \<and> nm_get (sm_VirtualNodes m) = nm_get (sm_VirtualNodes n) \<and>
     sm_SortedHashes m = sm_SortedHashes n"

definition fsm_same :: "fsm \<Rightarrow> fsm \<Rightarrow> bool" where
  "fsm_same f g \<longleftrightarrow> rel_option same_map (f_shardMap f) (f_shardMap g) \<and>
     nm_get (f_members f) = nm_get (f_members g)"

lemma fsm_same_refl: "fsm_same f f"
  by (auto simp: fsm_same_def same_map_def intro: option.rel_refl)

lemma fsm_same_trans: "fsm_same f g \<Longrightarrow> fsm_same g h \<Longrightarrow> fsm_same f h"
  by (auto simp: fsm_same_def same_map_def elim!: option.rel_cases)

lemma NewFSM_ok: "fsm_ok NewFSM"
  by (simp add: fsm_ok_def NewFSM_def NewShardMap_def shard_map_ok_def nm_all_def)

section \<open>Application\<close>

lemma map_sum_Inr: "map_sum id f x = Inr y \<longleftrightarrow> (\<exists>z. x = Inr z \<and> y = f z)"
  by (cases x) auto

lemma entry_payload_utf8:
  assumes "json_Unmarshal_entry b = Inr e" "le_Payload e = Some v"
  shows "json_utf8 v"
proof -
  let ?P = "\<lambda>e. \<forall>v. le_Payload e = Some v \<longrightarrow> json_utf8 v"
  obtain d where d: "json_parse (string_of_bytes b) = Some d"
    "dec_struct [''type'', ''payload''] log_entry_field d \<lparr> le_Type = 0, le_Payload = None \<rparr> = Inr e"
    using assms(1) by (auto simp: json_Unmarshal_entry_def json_Unmarshal_def split: option.splits)
  have "?P e"
    by (rule dec_struct_inv [OF d(2) json_parse_utf8 [OF d(1)], of ?P])
      (auto simp: log_entry_field_def map_sum_Inr split: if_splits)
  then show ?thesis using assms(2) by blast
qed

lemma dec_payload_utf8:
  assumes "dec_payload names store p z = Inr r" "\<And>v. p = Some v \<Longrightarrow> json_utf8 v" "P z"
    and "\<And>n x a b. n \<in> set names \<Longrightarrow> json_utf8 x \<Longrightarrow> P a \<Longrightarrow> store n x a = Inr b \<Longrightarrow> P b"
  shows "P r"
proof (cases p)
  case (Some v)
  then have "dec_struct names store v z = Inr r" using assms(1) by (simp add: dec_payload_def)
  then show ?thesis by (rule dec_struct_inv [where P = P]) (use assms(2-4) Some in blast)+
qed (use assms(1) in \<open>simp add: dec_payload_def\<close>)

lemma shard_update_utf8:
  assumes "dec_payload names shard_update_field p \<lparr> su_ShardID = 0, su_NodeID = '''', su_Replicas = [] \<rparr> = Inr u"
    and "\<And>v. p = Some v \<Longrightarrow> json_utf8 v"
  shows "utf8_ValidString (su_NodeID u)" "list_all utf8_ValidString (su_Replicas u)"
proof -
  have "utf8_ValidString (su_NodeID u) \<and> list_all utf8_ValidString (su_Replicas u)"
    by (rule dec_payload_utf8 [OF assms(1), where P = "\<lambda>u. utf8_ValidString (su_NodeID u) \<and> list_all utf8_ValidString (su_Replicas u)"])
      (use assms(2) in \<open>auto simp: shard_update_field_def map_sum_Inr dec_string_utf8 dec_list_strings_utf8 split: if_splits\<close>)
  then show "utf8_ValidString (su_NodeID u)" "list_all utf8_ValidString (su_Replicas u)" by auto
qed

lemma member_join_utf8:
  assumes "dec_payload names member_join_field p \<lparr> mj_NodeID = '''', mj_Addr = '''' \<rparr> = Inr j"
    and "\<And>v. p = Some v \<Longrightarrow> json_utf8 v"
  shows "utf8_ValidString (mj_NodeID j)" "utf8_ValidString (mj_Addr j)"
proof -
  have "utf8_ValidString (mj_NodeID j) \<and> utf8_ValidString (mj_Addr j)"
    by (rule dec_payload_utf8 [OF assms(1), where P = "\<lambda>j. utf8_ValidString (mj_NodeID j) \<and> utf8_ValidString (mj_Addr j)"])
      (use assms(2) in \<open>auto simp: member_join_field_def map_sum_Inr dec_string_utf8 split: if_splits\<close>)
  then show "utf8_ValidString (mj_NodeID j)" "utf8_ValidString (mj_Addr j)" by auto
qed

text \<open>A shard assignment on states with the same entries.\<close>

lemma AssignShard_same:
  assumes "shard_map_ok m" "shard_map_ok n" "same_map m n" "utf8_ValidString node" "list_all utf8_ValidString reps"
  obtains m' n' where "AssignShard m i node reps = Some m'" "AssignShard n i node reps = Some n'"
    "shard_map_ok m'" "shard_map_ok n'" "same_map m' n'"
proof -
  obtain sm where sm: "nm_set i node (sm_Shards m) = Some sm" "nm_all (\<lambda>_. utf8_ValidString) sm"
    "nm_get sm = (nm_get (sm_Shards m))(i \<mapsto> node)"
    by (rule nm_all_set [of "\<lambda>_. utf8_ValidString" "sm_Shards m" i node]) (use assms in \<open>auto simp: shard_map_ok_def\<close>)
  obtain sn where sn: "nm_set i node (sm_Shards n) = Some sn" "nm_all (\<lambda>_. utf8_ValidString) sn"
    "nm_get sn = (nm_get (sm_Shards n))(i \<mapsto> node)"
    by (rule nm_all_set [of "\<lambda>_. utf8_ValidString" "sm_Shards n" i node]) (use assms in \<open>auto simp: shard_map_ok_def\<close>)
  obtain rm where rm: "nm_set i reps (sm_Replicas m) = Some rm" "nm_all (\<lambda>_. list_all utf8_ValidString) rm"
    "nm_get rm = (nm_get (sm_Replicas m))(i \<mapsto> reps)"
    by (rule nm_all_set [of "\<lambda>_. list_all utf8_ValidString" "sm_Replicas m" i reps]) (use assms in \<open>auto simp: shard_map_ok_def\<close>)
  obtain rn where rn: "nm_set i reps (sm_Replicas n) = Some rn" "nm_all (\<lambda>_. list_all utf8_ValidString) rn"
    "nm_get rn = (nm_get (sm_Replicas n))(i \<mapsto> reps)"
    by (rule nm_all_set [of "\<lambda>_. list_all utf8_ValidString" "sm_Replicas n" i reps]) (use assms in \<open>auto simp: shard_map_ok_def\<close>)
  let ?m = "m \<lparr> sm_Shards := sm, sm_Replicas := (if reps = [] then sm_Replicas m else rm), sm_Version := sm_Version m + 1 \<rparr>"
  let ?n = "n \<lparr> sm_Shards := sn, sm_Replicas := (if reps = [] then sm_Replicas n else rn), sm_Version := sm_Version n + 1 \<rparr>"
  show ?thesis
  proof (rule that [of ?m ?n])
    show "AssignShard m i node reps = Some ?m" "AssignShard n i node reps = Some ?n"
      using sm(1) sn(1) rm(1) rn(1) by (simp_all add: AssignShard_def)
    show "shard_map_ok ?m" "shard_map_ok ?n" using assms(1,2) sm(2) sn(2) rm(2) rn(2) by (simp_all add: shard_map_ok_def)
    show "same_map ?m ?n" using assms(3) sm(3) sn(3) rm(3) rn(3) by (simp add: same_map_def)
  qed
qed

lemma applyShardMapUpdate_same:
  assumes "fsm_ok f" "fsm_ok g" "fsm_same f g" "\<And>v. p = Some v \<Longrightarrow> json_utf8 v"
  shows "applyShardMapUpdate f p = None \<and> applyShardMapUpdate g p = None \<or>
    (\<exists>f' g'. applyShardMapUpdate f p = Some f' \<and> applyShardMapUpdate g p = Some g' \<and> fsm_ok f' \<and> fsm_ok g' \<and> fsm_same f' g')"
proof (cases "dec_payload [''shard_id'', ''node_id'', ''replicas''] shard_update_field p
    \<lparr> su_ShardID = 0, su_NodeID = '''', su_Replicas = [] \<rparr>")
  case (Inr u)
  obtain m n where m: "f_shardMap f = Some m" "f_shardMap g = Some n" "shard_map_ok m" "shard_map_ok n" "same_map m n"
    using assms(1-3) by (auto simp: fsm_ok_def fsm_same_def)
  obtain m' n' where a: "AssignShard m (su_ShardID u) (su_NodeID u) (su_Replicas u) = Some m'"
    "AssignShard n (su_ShardID u) (su_NodeID u) (su_Replicas u) = Some n'" "shard_map_ok m'" "shard_map_ok n'" "same_map m' n'"
    by (rule AssignShard_same [OF m(3-5) shard_update_utf8 [OF Inr assms(4)]])
  then show ?thesis using Inr m assms(1-3) by (auto simp: applyShardMapUpdate_def fsm_ok_def fsm_same_def)
qed (simp add: applyShardMapUpdate_def)

lemma applyMemberJoin_same:
  assumes "fsm_ok f" "fsm_ok g" "fsm_same f g" "\<And>v. p = Some v \<Longrightarrow> json_utf8 v"
  shows "applyMemberJoin f p = None \<and> applyMemberJoin g p = None \<or>
    (\<exists>f' g'. applyMemberJoin f p = Some f' \<and> applyMemberJoin g p = Some g' \<and> fsm_ok f' \<and> fsm_ok g' \<and> fsm_same f' g')"
proof (cases "dec_payload [''node_id'', ''addr''] member_join_field p \<lparr> mj_NodeID = '''', mj_Addr = '''' \<rparr>")
  case (Inr j)
  note U = member_join_utf8 [OF Inr assms(4)]
  let ?v = "Some \<lparr> m_NodeID = mj_NodeID j, m_Addr = mj_Addr j, m_IsLeader = False, m_State = ''alive'' \<rparr>"
  have "utf8_ValidString ''alive''" by code_simp
  then have v: "member_ok (mj_NodeID j) ?v" using U by (simp add: member_ok_def)
  obtain mf where mf: "nm_set (mj_NodeID j) ?v (f_members f) = Some mf" "nm_all member_ok mf"
    "nm_get mf = (nm_get (f_members f))(mj_NodeID j \<mapsto> ?v)"
    by (rule nm_all_set [of member_ok "f_members f"]) (use assms(1) v in \<open>auto simp: fsm_ok_def\<close>)
  obtain mg where mg: "nm_set (mj_NodeID j) ?v (f_members g) = Some mg" "nm_all member_ok mg"
    "nm_get mg = (nm_get (f_members g))(mj_NodeID j \<mapsto> ?v)"
    by (rule nm_all_set [of member_ok "f_members g"]) (use assms(2) v in \<open>auto simp: fsm_ok_def\<close>)
  show ?thesis using Inr mf mg assms(1-3) by (simp add: applyMemberJoin_def fsm_ok_def fsm_same_def)
qed (simp add: applyMemberJoin_def)

lemma applyMemberLeave_same:
  assumes "fsm_ok f" "fsm_ok g" "fsm_same f g"
  shows "applyMemberLeave f p = None \<and> applyMemberLeave g p = None \<or>
    (\<exists>f' g'. applyMemberLeave f p = Some f' \<and> applyMemberLeave g p = Some g' \<and> fsm_ok f' \<and> fsm_ok g' \<and> fsm_same f' g')"
  using assms nm_all_del [of member_ok "f_members f"] nm_all_del [of member_ok "f_members g"]
  by (simp add: applyMemberLeave_def fsm_ok_def fsm_same_def split: sum.splits)

lemma FSM_Apply_same:
  assumes "fsm_ok f" "fsm_ok g" "fsm_same f g"
  shows "FSM_Apply f b = None \<and> FSM_Apply g b = None \<or>
    (\<exists>f' g'. FSM_Apply f b = Some f' \<and> FSM_Apply g b = Some g' \<and> fsm_ok f' \<and> fsm_ok g' \<and> fsm_same f' g')"
proof (cases "json_Unmarshal_entry b")
  case (Inr e)
  note u = entry_payload_utf8 [OF Inr]
  show ?thesis
    using Inr applyShardMapUpdate_same [OF assms u] applyMemberJoin_same [OF assms u] applyMemberLeave_same [OF assms, of "le_Payload e"] assms
    by (simp add: FSM_Apply_def applyConfigChange_def)
qed (simp add: FSM_Apply_def)

section \<open>Snapshots hold the state\<close>

lemma FormatInt_utf8 [simp]: "utf8_ValidString (FormatInt (uint w))"
proof -
  have "cc c < 128" if "is_digit c" for c using that by (auto simp: is_digit_def Let_def)
  then have "is_ascii (dec_digits n)" for n
    using dec_digits_digits [of n] by (auto simp: is_ascii_def list_all_iff)
  then show ?thesis using utf8_ascii by (simp add: FormatInt_def)
qed

lemma json_umap_ok:
  assumes "\<And>k v. (k, v) \<in> set d \<Longrightarrow> json_ok (enc v) \<and> json_depth (enc v) \<le> n"
  shows "json_ok (json_umap enc (Some d))" "json_depth (json_umap enc (Some d)) \<le> Suc n"
  unfolding json_umap_def option.case by (force simp: assms, rule json_depth_le(2)) (use assms in force)

lemma dec_member_json: "dec_member (member_json m) = Inr (Some m)"
  unfolding dec_member_def member_json_def dec_struct_def json.case
  by (simp add: find_field_def member_field_def member_zero_def)

lemma dec_members_json:
  assumes "gm_wf d"
  shows "dec_members (JObj (map (\<lambda>(k, v). (k, member_json v)) (sort_key fst d))) None =
    Inr (Some (map (\<lambda>(k, v). (k, Some v)) (sort_key fst d)))"
proof -
  let ?xs = "sort_key fst d"
  have fold: "foldl (\<lambda>acc (k, x). case acc of Inl e \<Rightarrow> Inl e | Inr m \<Rightarrow> map_sum id (\<lambda>y. gm_set k y m) (dec_member x))
      (Inr acc) (map (\<lambda>(k, v). (k, member_json v)) xs) =
      Inr (foldl (\<lambda>m (k, v). gm_set k v m) acc (map (\<lambda>(k, v). (k, Some v)) xs))"
    for acc :: "(string, member option) gomap" and xs
    by (induction xs arbitrary: acc) (auto simp: dec_member_json)
  have "gm_wf ([] @ map (\<lambda>(k, v). (k, Some v)) ?xs)"
    using assms by (simp add: gm_wf_def o_def case_prod_beta distinct_map)
  from gm_rebuild [OF this] show ?thesis using fold [of "[]" ?xs] by (simp add: dec_members_def)
qed

lemma dec_shard_map_json:
  assumes "shard_map_ok m"
  obtains m' where "dec_struct shard_map_names shard_map_field (shard_map_json m) shard_map_zero = Inr m'"
    "shard_map_ok m'" "same_map m m'"
proof -
  obtain sh rp vn where m: "sm_Shards m = Some sh" "gm_wf sh" "sm_Replicas m = Some rp" "gm_wf rp"
    "sm_VirtualNodes m = Some vn" "gm_wf vn"
    using assms by (auto simp: shard_map_ok_def nm_all_def)
  obtain sh' where sh: "dec_umap (\<lambda>v. dec_string v '''') (json_umap JStr (Some sh)) None = Inr (Some sh')" "gm_wf sh'" "gm_get sh' = gm_get sh"
    by (rule dec_json_umap [OF m(2), of "\<lambda>v. dec_string v ''''" JStr]) simp
  obtain rp' where rp: "dec_umap (\<lambda>v. dec_list dec_string '''' v []) (json_umap (\<lambda>l. JArr (map JStr l)) (Some rp)) None = Inr (Some rp')"
    "gm_wf rp'" "gm_get rp' = gm_get rp"
    by (rule dec_json_umap [OF m(4), of "\<lambda>v. dec_list dec_string '''' v []" "\<lambda>l. JArr (map JStr l)"]) simp
  obtain vn' where vn: "dec_umap (\<lambda>v. dec_string v '''') (json_umap JStr (Some vn)) None = Inr (Some vn')" "gm_wf vn'" "gm_get vn' = gm_get vn"
    by (rule dec_json_umap [OF m(6), of "\<lambda>v. dec_string v ''''" JStr]) simp
  let ?m = "\<lparr> sm_Shards = Some sh', sm_Replicas = Some rp', sm_Version = sm_Version m, sm_VirtualNodes = Some vn',
    sm_SortedHashes = sm_SortedHashes m \<rparr>"
  show ?thesis
  proof (rule that [of ?m])
    show "dec_struct shard_map_names shard_map_field (shard_map_json m) shard_map_zero = Inr ?m"
      unfolding dec_struct_def shard_map_json_def json.case
      by (simp add: find_field_def shard_map_field_def shard_map_zero_def m sh(1) rp(1) vn(1) del: dec_uint.simps)
    show "same_map m ?m" using m sh rp vn by (simp add: same_map_def)
    show "shard_map_ok ?m" using assms m sh rp vn by (auto simp: shard_map_ok_def nm_all_iff)
  qed
qed

lemma copy_members_ok:
  assumes "nm_all member_ok ms"
  obtains d where "copy_members ms = Some d" "gm_wf d" "ms = Some (map (\<lambda>(k, v). (k, Some v)) d)"
    "\<And>k v. (k, v) \<in> set d \<Longrightarrow> member_ok k (Some v)"
proof -
  obtain xs where xs: "ms = Some xs" "gm_wf xs" "\<And>k v. (k, v) \<in> set xs \<Longrightarrow> member_ok k v"
    using assms by (auto simp: nm_all_def)
  have some: "v \<noteq> None" if "(k, v) \<in> set xs" for k v
    using xs(3) [OF that] by (cases v) (auto simp: member_ok_def)
  let ?d = "map (\<lambda>(k, v). (k, the v)) xs"
  have "copy_members ms = Some ?d" using xs(1) some by (force simp: copy_members_def list_all_iff)
  moreover have "gm_wf ?d" using xs(2) by (simp add: gm_wf_def o_def case_prod_beta)
  moreover have "map (\<lambda>(k, v). (k, Some v)) ?d = xs" using some by (force simp: o_def intro: map_idI)
  moreover have "\<And>k v. (k, v) \<in> set ?d \<Longrightarrow> member_ok k (Some v)" using xs(3) some by force
  ultimately show ?thesis using that xs(1) by metis
qed

lemma snapshot_json_ok:
  assumes "shard_map_ok m" "\<And>k v. (k, v) \<in> set d \<Longrightarrow> member_ok k (Some v)"
  shows "json_ok (snapshot_json \<lparr> ss_shardMap = m, ss_members = d \<rparr>)"
    "json_depth (snapshot_json \<lparr> ss_shardMap = m, ss_members = d \<rparr>) \<le> maxNestingDepth"
proof -
  obtain sh rp vn where m: "sm_Shards m = Some sh" "sm_Replicas m = Some rp" "sm_VirtualNodes m = Some vn"
    "\<And>k v. (k, v) \<in> set sh \<Longrightarrow> utf8_ValidString v" "\<And>k v. (k, v) \<in> set rp \<Longrightarrow> list_all utf8_ValidString v"
    "\<And>k v. (k, v) \<in> set vn \<Longrightarrow> utf8_ValidString v"
    using assms(1) by (fastforce simp: shard_map_ok_def nm_all_def)
  have js: "json_ok (JStr x) \<and> json_depth (JStr x) \<le> 0" if "utf8_ValidString x" for x using that by simp
  have ja: "json_ok (JArr (map JStr l)) \<and> json_depth (JArr (map JStr l)) \<le> 1" if "list_all utf8_ValidString l" for l
  proof
    show "json_ok (JArr (map JStr l))" using that by (auto simp: list_all_iff)
    have "json_depth (JArr (map JStr l)) \<le> Suc 0" by (rule json_depth_le(1)) auto
    then show "json_depth (JArr (map JStr l)) \<le> 1" by simp
  qed
  have S: "json_ok (json_umap JStr (Some sh))" "json_depth (json_umap JStr (Some sh)) \<le> Suc 0"
    by (rule json_umap_ok, rule js, erule m(4))+
  have V: "json_ok (json_umap JStr (Some vn))" "json_depth (json_umap JStr (Some vn)) \<le> Suc 0"
    by (rule json_umap_ok, rule js, erule m(6))+
  have R: "json_ok (json_umap (\<lambda>l. JArr (map JStr l)) (Some rp))"
    "json_depth (json_umap (\<lambda>l. JArr (map JStr l)) (Some rp)) \<le> Suc 1"
    by (rule json_umap_ok, rule ja, erule m(5))+
  note ok = S(1) V(1) R(1) and dp = S(2) V(2) R(2)
  have "json_ok (shard_map_json m)" using ok m(1-3) by (simp add: shard_map_json_def)
  moreover have "json_depth (shard_map_json m) \<le> Suc 2"
    unfolding shard_map_json_def m by (rule json_depth_le(2)) (use dp in auto)
  moreover have "json_ok (member_json v) \<and> json_depth (member_json v) \<le> 1" if "(k, v) \<in> set d" for k v
    using assms(2) [OF that] by (simp add: member_json_def member_ok_def)
  moreover have "utf8_ValidString k" if "(k, v) \<in> set d" for k v using assms(2) [OF that] by (simp add: member_ok_def)
  ultimately show "json_ok (snapshot_json \<lparr> ss_shardMap = m, ss_members = d \<rparr>)"
    by (force simp: snapshot_json_def)
  have "json_depth (JObj (map (\<lambda>(k, v). (k, member_json v)) (sort_key fst d))) \<le> Suc 1"
    using \<open>\<And>k v. (k, v) \<in> set d \<Longrightarrow> json_ok (member_json v) \<and> json_depth (member_json v) \<le> 1\<close>
    by (intro json_depth_le(2)) force
  then have "json_depth (snapshot_json \<lparr> ss_shardMap = m, ss_members = d \<rparr>) \<le> Suc 3"
    using \<open>json_depth (shard_map_json m) \<le> Suc 2\<close> unfolding snapshot_json_def by (intro json_depth_le(2)) (auto simp del: json_depth.simps)
  then show "json_depth (snapshot_json \<lparr> ss_shardMap = m, ss_members = d \<rparr>) \<le> maxNestingDepth" by simp
qed

definition sink_ok :: sink_calls where
  "sink_ok = \<lparr> sink_Encode = None, sink_Flush = None, sink_Close = None \<rparr>"

lemma same_map_Clone: "shard_map_ok m \<Longrightarrow> ShardMap_Clone m = m"
  by (auto simp: shard_map_ok_def nm_all_def ShardMap_Clone_def)

lemma snapshot_restores:
  assumes "fsm_ok f"
  obtains s f' where "FSM_Snapshot f = Some s" "restore_text g (snapshot_text s) = Some (f', None)"
    "fsm_ok f'" "fsm_same f f'"
proof -
  obtain m where m: "f_shardMap f = Some m" "shard_map_ok m" using assms(1) by (auto simp: fsm_ok_def)
  obtain d where d: "copy_members (f_members f) = Some d" "gm_wf d" "f_members f = Some (map (\<lambda>(k, v). (k, Some v)) d)"
    "\<And>k v. (k, v) \<in> set d \<Longrightarrow> member_ok k (Some v)"
    using copy_members_ok [of "f_members f"] assms(1) by (metis fsm_ok_def)
  let ?s = "\<lparr> ss_shardMap = m, ss_members = d \<rparr>"
  have snap: "FSM_Snapshot f = Some ?s" using m d(1) by (simp add: FSM_Snapshot_def same_map_Clone)
  obtain m' where m': "dec_struct shard_map_names shard_map_field (shard_map_json m) shard_map_zero = Inr m'"
    "shard_map_ok m'" "same_map m m'" by (rule dec_shard_map_json [OF m(2)])
  let ?ms = "map (\<lambda>(k, v). (k, Some v)) (sort_key fst d)"
  let ?f = "\<lparr> f_shardMap = Some m', f_members = Some ?ms \<rparr>"
  have "shard_map_json m \<noteq> JNull" by (simp add: shard_map_json_def)
  then have "dec_struct [''shard_map'', ''members''] restore_field (snapshot_json ?s) \<lparr> f_shardMap = None, f_members = None \<rparr> = Inr ?f"
    unfolding dec_struct_def snapshot_json_def json.case
    using m'(1) dec_members_json [OF d(2)] by (simp add: find_field_def restore_field_def)
  moreover obtain ms where ms: "snapshot_json ?s = JObj ms" by (simp add: snapshot_json_def)
  moreover have "json_ok (JObj ms)" "json_depth (JObj ms) \<le> maxNestingDepth"
    using snapshot_json_ok [OF m(2), of d] d(4) unfolding ms by blast+
  ultimately have "json_Decode (\<lambda>v. dec_struct [''shard_map'', ''members''] restore_field v
      \<lparr> f_shardMap = None, f_members = None \<rparr>) (snapshot_text ?s) = Inr ?f"
    unfolding snapshot_text_def by (simp only: ms json_Decode_text)
  then have res: "restore_text g (snapshot_text ?s) = Some (?f, None)" by (simp add: restore_text_def)
  have wf: "gm_wf ?ms" "gm_wf (map (\<lambda>(k, v). (k, Some v)) d)"
    using d(2) by (simp_all add: gm_wf_def o_def case_prod_beta distinct_map)
  have same: "gm_get ?ms = nm_get (f_members f)"
    unfolding d(3) nm_simps by (rule gm_eqI [OF wf]) simp
  have "nm_all member_ok (Some ?ms)" using wf(1) d(4) by (auto simp: nm_all_def)
  then have "fsm_ok ?f" using m'(2) by (simp add: fsm_ok_def)
  moreover have "fsm_same f ?f" using m m'(3) same by (simp add: fsm_same_def)
  ultimately show ?thesis
    using snap res by (intro that [of ?s ?f])
qed

section \<open>Replication\<close>

text \<open>A machine whose states may be told apart only up to \<open>same\<close>: entries act alike on states that are
  the same, and a snapshot that is taken and restored gives the same state. Then a replica that caught up
  from a snapshot ends in the same state as one that applied the whole log.\<close>

fun run_log :: "('s \<Rightarrow> 'e \<Rightarrow> 's option) \<Rightarrow> 's \<Rightarrow> 'e list \<Rightarrow> 's option" where
  "run_log step s [] = Some s"
| "run_log step s (e # es) = (case step s e of None \<Rightarrow> None | Some s' \<Rightarrow> run_log step s' es)"

lemma run_log_append:
  "run_log step s (xs @ ys) = (case run_log step s xs of None \<Rightarrow> None | Some s' \<Rightarrow> run_log step s' ys)"
  by (induction xs arbitrary: s) (simp_all split: option.splits)

locale replicated_machine =
  fixes step :: "'s \<Rightarrow> 'e \<Rightarrow> 's option" and ok :: "'s \<Rightarrow> bool" and same :: "'s \<Rightarrow> 's \<Rightarrow> bool"
    and transfer :: "'s \<Rightarrow> 's option"
  assumes same_refl: "same s s" and same_trans: "same s t \<Longrightarrow> same t u \<Longrightarrow> same s u"
    and step_same: "ok s \<Longrightarrow> ok t \<Longrightarrow> same s t \<Longrightarrow> step s e = None \<and> step t e = None \<or>
      (\<exists>s' t'. step s e = Some s' \<and> step t e = Some t' \<and> ok s' \<and> ok t' \<and> same s' t')"
    and transfer_same: "ok s \<Longrightarrow> \<exists>t. transfer s = Some t \<and> ok t \<and> same s t"
begin

lemma run_same:
  "ok s \<Longrightarrow> ok t \<Longrightarrow> same s t \<Longrightarrow> run_log step s es = None \<and> run_log step t es = None \<or>
     (\<exists>s' t'. run_log step s es = Some s' \<and> run_log step t es = Some t' \<and> ok s' \<and> ok t' \<and> same s' t')"
proof (induction es arbitrary: s t)
  case (Cons e es)
  from step_same [OF Cons.prems, of e] show ?case using Cons.IH by fastforce
qed simp

lemma catch_up:
  assumes "ok s" "run_log step s (xs @ ys) = Some u"
  shows "\<exists>m t v. run_log step s xs = Some m \<and> transfer m = Some t \<and> run_log step t ys = Some v \<and> ok v \<and> same u v"
proof -
  obtain m where m: "run_log step s xs = Some m" "run_log step m ys = Some u"
    using assms(2) by (auto simp: run_log_append split: option.splits)
  have "ok m" using run_same [OF assms(1,1) same_refl, of xs] m(1) by auto
  from transfer_same [OF this] obtain t where t: "transfer m = Some t" "ok t" "same m t" by blast
  from run_same [OF \<open>ok m\<close> t(2,3), of ys] m t(1) show ?thesis by auto
qed

end

section \<open>Entries do what their encoder meant\<close>

lemma encodeLogEntry_decodes:
  assumes "json_ok p" "Suc (json_depth p) \<le> maxNestingDepth"
  shows "\<exists>b. encodeLogEntry t p = Inr b \<and> json_Unmarshal_entry b = Inr \<lparr> le_Type = t, le_Payload = Some p \<rparr>"
proof -
  let ?v = "JObj [(''type'', JUint t), (''payload'', p)]"
  have "json_ok ?v" using assms(1) by simp
  moreover have "json_depth ?v \<le> maxNestingDepth" using assms(2) by simp
  ultimately have "json_Unmarshal dec (bytes_of_string (json_text ?v)) = dec ?v" for dec :: "json \<Rightarrow> go_error + log_entry"
    by (rule json_roundtrip(2))
  then have "json_Unmarshal_entry (bytes_of_string (json_text ?v)) = Inr \<lparr> le_Type = t, le_Payload = Some p \<rparr>"
    by (simp add: json_Unmarshal_entry_def dec_struct_def find_field_def log_entry_field_def del: dec_uint.simps)
  then show ?thesis by (simp add: encodeLogEntry_def json_Marshal_def)
qed

lemma shard_update_applies:
  assumes "utf8_ValidString (su_NodeID u)" "list_all utf8_ValidString (su_Replicas u)"
  obtains b where "encodeLogEntry LogEntryShardMapUpdate (shard_update_json u) = Inr b"
    "\<And>f m. f_shardMap f = Some m \<Longrightarrow> FSM_Apply f b =
       map_option (\<lambda>m'. f \<lparr> f_shardMap := Some m' \<rparr>) (AssignShard m (su_ShardID u) (su_NodeID u) (su_Replicas u))"
proof -
  have "json_ok (shard_update_json u)" using assms by (auto simp: shard_update_json_def list_all_iff)
  moreover have "json_depth (shard_update_json u) \<le> Suc (Suc 0)"
    unfolding shard_update_json_def by (rule json_depth_le(2)) (auto intro!: json_depth_le(1) split: if_splits)
  ultimately obtain b where b: "encodeLogEntry LogEntryShardMapUpdate (shard_update_json u) = Inr b"
    "json_Unmarshal_entry b = Inr \<lparr> le_Type = LogEntryShardMapUpdate, le_Payload = Some (shard_update_json u) \<rparr>"
    using encodeLogEntry_decodes [of "shard_update_json u" LogEntryShardMapUpdate] by fastforce
  have "dec_struct [''shard_id'', ''node_id'', ''replicas''] shard_update_field (shard_update_json u)
      \<lparr> su_ShardID = 0, su_NodeID = '''', su_Replicas = [] \<rparr> = Inr u"
    by (cases "su_Replicas u = []")
      (simp_all add: shard_update_json_def dec_struct_def find_field_def shard_update_field_def del: dec_uint.simps)
  then show ?thesis
    using b by (intro that [of b]) (simp_all add: FSM_Apply_def applyShardMapUpdate_def dec_payload_def)
qed

lemma member_join_applies:
  assumes "utf8_ValidString (mj_NodeID j)" "utf8_ValidString (mj_Addr j)"
  obtains b where "encodeLogEntry LogEntryMemberJoin (member_join_json j) = Inr b"
    "\<And>f. FSM_Apply f b = map_option (\<lambda>ms. f \<lparr> f_members := ms \<rparr>)
       (nm_set (mj_NodeID j)
          (Some \<lparr> m_NodeID = mj_NodeID j, m_Addr = mj_Addr j, m_IsLeader = False, m_State = ''alive'' \<rparr>) (f_members f))"
proof -
  obtain b where b: "encodeLogEntry LogEntryMemberJoin (member_join_json j) = Inr b"
    "json_Unmarshal_entry b = Inr \<lparr> le_Type = LogEntryMemberJoin, le_Payload = Some (member_join_json j) \<rparr>"
    using encodeLogEntry_decodes [of "member_join_json j" LogEntryMemberJoin] assms by (auto simp: member_join_json_def)
  have "dec_struct [''node_id'', ''addr''] member_join_field (member_join_json j) \<lparr> mj_NodeID = '''', mj_Addr = '''' \<rparr> = Inr j"
    by (simp add: member_join_json_def dec_struct_def find_field_def member_join_field_def)
  then show ?thesis
    using b by (intro that [of b]) (simp_all add: FSM_Apply_def applyMemberJoin_def dec_payload_def)
qed

lemma member_leave_applies:
  assumes "utf8_ValidString (ml_NodeID l)"
  obtains b where "encodeLogEntry LogEntryMemberLeave (member_leave_json l) = Inr b"
    "\<And>f. FSM_Apply f b = Some (f \<lparr> f_members := nm_del (ml_NodeID l) (f_members f) \<rparr>)"
proof -
  obtain b where b: "encodeLogEntry LogEntryMemberLeave (member_leave_json l) = Inr b"
    "json_Unmarshal_entry b = Inr \<lparr> le_Type = LogEntryMemberLeave, le_Payload = Some (member_leave_json l) \<rparr>"
    using encodeLogEntry_decodes [of "member_leave_json l" LogEntryMemberLeave] assms by (auto simp: member_leave_json_def)
  have "dec_struct [''node_id''] member_leave_field (member_leave_json l) \<lparr> ml_NodeID = '''' \<rparr> = Inr l"
    by (simp add: member_leave_json_def dec_struct_def find_field_def member_leave_field_def)
  then show ?thesis
    using b by (intro that [of b]) (simp_all add: FSM_Apply_def applyMemberLeave_def dec_payload_def)
qed

section \<open>The machine of the cluster replicates\<close>

text \<open>What a node that installs a snapshot gets: the state that the document of the snapshot restores.\<close>

definition fsm_transfer :: "fsm \<Rightarrow> fsm option" where
  "fsm_transfer f =
     (case FSM_Snapshot f of
        None \<Rightarrow> None
      | Some s \<Rightarrow> (case restore_text NewFSM (snapshot_text s) of Some (f', None) \<Rightarrow> Some f' | _ \<Rightarrow> None))"

lemma fsm_transfer_same: "fsm_ok f \<Longrightarrow> \<exists>g. fsm_transfer f = Some g \<and> fsm_ok g \<and> fsm_same f g"
  by (erule snapshot_restores [of _ NewFSM]) (auto simp: fsm_transfer_def)

interpretation fsmr: replicated_machine FSM_Apply fsm_ok fsm_same fsm_transfer
  by unfold_locales (rule fsm_same_refl, erule (1) fsm_same_trans, erule (2) FSM_Apply_same, erule fsm_transfer_same)

lemma restore_any:
  assumes "restore_text f t = Some (f', None)" shows "restore_text h t = Some (f', None)"
  using assms by (auto simp: restore_text_def split: sum.splits if_splits)

lemma transfer_through_file:
  assumes "fsm_transfer f = Some g" "\<And>b. \<exists>e. gz_Read G (gz_Write G b) = Inr (b, e)"
  obtains s b where "FSM_Snapshot f = Some s" "Persist G sink_ok s = (Some b, None)" "FSM_Restore G h b = Some (g, None)"
proof -
  obtain s where s: "FSM_Snapshot f = Some s" "restore_text NewFSM (snapshot_text s) = Some (g, None)"
    using assms(1) by (auto simp: fsm_transfer_def split: option.splits)
  obtain e where "gz_Read G (gz_Write G (snapshot_text s)) = Inr (snapshot_text s, e)" using assms(2) by blast
  with s show ?thesis
    by (intro that [of s "gz_Write G (snapshot_text s)"])
      (simp_all add: Persist_def sink_ok_def FSM_Restore_def restore_any [OF s(2)])
qed

text \<open>C19: A node that installs the snapshot which another took after the first entries of the log, and then applies
  the remaining entries, ends in the state of a node that applied the whole log: neither side panics, the snapshot
  is written and read without an error, and the shard map and the members have the same entries, whatever the
  state of the installing node was. The compression is assumed to give back what was compressed.\<close>

theorem replicas_converge:
  assumes "\<And>b. \<exists>e. gz_Read G (gz_Write G b) = Inr (b, e)"
    and "run_log FSM_Apply NewFSM (xs @ ys) = Some f"
  shows "\<exists>m s b t g. run_log FSM_Apply NewFSM xs = Some m \<and> FSM_Snapshot m = Some s \<and>
    Persist G sink_ok s = (Some b, None) \<and> FSM_Restore G h b = Some (t, None) \<and>
    run_log FSM_Apply t ys = Some g \<and> fsm_same f g"
proof -
  obtain m t g where m: "run_log FSM_Apply NewFSM xs = Some m" "fsm_transfer m = Some t"
    "run_log FSM_Apply t ys = Some g" "fsm_same f g"
    using fsmr.catch_up [OF NewFSM_ok assms(2)] by blast
  from transfer_through_file [OF m(2) assms(1), of h] obtain s b where
    "FSM_Snapshot m = Some s" "Persist G sink_ok s = (Some b, None)" "FSM_Restore G h b = Some (t, None)" by blast
  with m show ?thesis by blast
qed

definition plain_gzip :: gzip where
  "plain_gzip = \<lparr> gz_Write = (\<lambda>b. b), gz_Read = (\<lambda>b. Inr (b, None)) \<rparr>"

theorem replicas_converge_witness:
  "\<exists>join assign f m s b t g. encodeLogEntry LogEntryMemberJoin
       (member_join_json \<lparr> mj_NodeID = ''n1'', mj_Addr = ''10.0.0.1:5343'' \<rparr>) = Inr join \<and>
     encodeLogEntry LogEntryShardMapUpdate
       (shard_update_json \<lparr> su_ShardID = 7, su_NodeID = ''n1'', su_Replicas = [''n2''] \<rparr>) = Inr assign \<and>
     run_log FSM_Apply NewFSM ([join] @ [assign]) = Some f \<and> run_log FSM_Apply NewFSM [join] = Some m \<and>
     FSM_Snapshot m = Some s \<and> Persist plain_gzip sink_ok s = (Some b, None) \<and>
     FSM_Restore plain_gzip NewFSM b = Some (t, None) \<and> run_log FSM_Apply t [assign] = Some g \<and> fsm_same f g"
proof -
  obtain j where j: "encodeLogEntry LogEntryMemberJoin
       (member_join_json \<lparr> mj_NodeID = ''n1'', mj_Addr = ''10.0.0.1:5343'' \<rparr>) = Inr j" and
    fj: "\<And>f. FSM_Apply f j = map_option (\<lambda>ms. f \<lparr> f_members := ms \<rparr>)
       (nm_set ''n1'' (Some \<lparr> m_NodeID = ''n1'', m_Addr = ''10.0.0.1:5343'', m_IsLeader = False, m_State = ''alive'' \<rparr>)
          (f_members f))"
    by (rule member_join_applies [of "\<lparr> mj_NodeID = ''n1'', mj_Addr = ''10.0.0.1:5343'' \<rparr>"])
      (simp_all add: utf8_ascii is_ascii_def)
  obtain a where a: "encodeLogEntry LogEntryShardMapUpdate
       (shard_update_json \<lparr> su_ShardID = 7, su_NodeID = ''n1'', su_Replicas = [''n2''] \<rparr>) = Inr a" and
    fa: "\<And>f m. f_shardMap f = Some m \<Longrightarrow> FSM_Apply f a =
       map_option (\<lambda>m'. f \<lparr> f_shardMap := Some m' \<rparr>) (AssignShard m 7 ''n1'' [''n2''])"
    by (rule shard_update_applies [of "\<lparr> su_ShardID = 7, su_NodeID = ''n1'', su_Replicas = [''n2''] \<rparr>"])
      (simp_all add: utf8_ascii is_ascii_def)
  have "\<exists>f. run_log FSM_Apply NewFSM ([j] @ [a]) = Some f"
    by (simp add: fj fa NewFSM_def NewShardMap_def AssignShard_def)
  then obtain f where f: "run_log FSM_Apply NewFSM ([j] @ [a]) = Some f" by blast
  have "\<And>b. \<exists>e. gz_Read plain_gzip (gz_Write plain_gzip b) = Inr (b, e)" by (simp add: plain_gzip_def)
  from replicas_converge [OF this f, of NewFSM] show ?thesis using j a f by blast
qed

text \<open>C28: whatever the entries of the log are, as long as applying them does not panic the state stays well formed:
  there is a shard map, its tables and the table of members are not nil and hold only valid UTF-8 names, no member is nil, and
  a snapshot of it can be taken.\<close>

theorem fsm_stays_well_formed:
  assumes "run_log FSM_Apply NewFSM es = Some f"
  shows "fsm_ok f \<and> (\<exists>s. FSM_Snapshot f = Some s)"
proof -
  have ok: "fsm_ok f" using fsmr.run_same [OF NewFSM_ok NewFSM_ok fsm_same_refl, of es] assms by auto
  moreover from fsm_transfer_same [OF ok] have "\<exists>s. FSM_Snapshot f = Some s"
    by (auto simp: fsm_transfer_def split: option.splits)
  ultimately show ?thesis by blast
qed

theorem fsm_stays_well_formed_witness:
  "\<exists>join f. encodeLogEntry LogEntryMemberJoin (member_join_json \<lparr> mj_NodeID = ''n1'', mj_Addr = ''10.0.0.1:5343'' \<rparr>) = Inr join \<and>
     run_log FSM_Apply NewFSM [join] = Some f \<and> fsm_ok f"
proof -
  obtain j where j: "encodeLogEntry LogEntryMemberJoin
       (member_join_json \<lparr> mj_NodeID = ''n1'', mj_Addr = ''10.0.0.1:5343'' \<rparr>) = Inr j" and
    fj: "\<And>f. FSM_Apply f j = map_option (\<lambda>ms. f \<lparr> f_members := ms \<rparr>)
       (nm_set ''n1'' (Some \<lparr> m_NodeID = ''n1'', m_Addr = ''10.0.0.1:5343'', m_IsLeader = False, m_State = ''alive'' \<rparr>)
          (f_members f))"
    by (rule member_join_applies [of "\<lparr> mj_NodeID = ''n1'', mj_Addr = ''10.0.0.1:5343'' \<rparr>"])
      (simp_all add: utf8_ascii is_ascii_def)
  have "\<exists>f. run_log FSM_Apply NewFSM [j] = Some f" by (simp add: fj NewFSM_def)
  then obtain f where f: "run_log FSM_Apply NewFSM [j] = Some f" by blast
  from fsm_stays_well_formed [OF f] j f show ?thesis by blast
qed

end
