(* ===== verification/Rebalance.thy ===== *)
theory Rebalance
  imports Cluster_FSM Engine_Recovery
begin

text \<open>
  Moving the sessions of a shard to another node: \<open>internal/server/clusterserver/rebalance.go\<close> on the
  sending side, the stream handler \<open>TransferShard\<close> of \<open>handler.go\<close> on the receiving side.

  The RPC client, its stream and the limiter of \<open>golang.org/x/time/rate\<close> are parameters: a record
  of the outcomes of their calls, which may depend on what was sent before. A panic and a call that
  blocks forever are the result \<open>None\<close>. The goroutines of a rebalance are run one after the other in
  an order that is an argument. Log lines are left out.
\<close>

section \<open>Configuration and tasks\<close>

record rebalance_config =
  rc_MaxRateBytesPerSec :: int
  rc_MinTTL :: int
  rc_ConcurrentShards :: int
  rc_StreamingTimeout :: int

definition DefaultRebalanceConfig :: rebalance_config where
  "DefaultRebalanceConfig = \<lparr> rc_MaxRateBytesPerSec = 20 * 1024 * 1024, rc_MinTTL = 60 * Second,
     rc_ConcurrentShards = 3, rc_StreamingTimeout = 600 * Second \<rparr>"

definition TaskStatusPending :: string where "TaskStatusPending = ''pending''"
definition TaskStatusRunning :: string where "TaskStatusRunning = ''running''"
definition TaskStatusCompleted :: string where "TaskStatusCompleted = ''completed''"
definition TaskStatusFailed :: string where "TaskStatusFailed = ''failed''"

record task_progress =
  tp_TotalItems :: u64
  tp_TransferredItems :: u64
  tp_BytesTransferred :: int
  tp_SkippedExpired :: u64
  tp_LastError :: string

record transfer_task =
  tt_ShardID :: u32
  tt_TargetNode :: string
  tt_TargetAddr :: string
  tt_Status :: string
  tt_Progress :: task_progress
  tt_startTime :: int
  tt_endTime :: int

record rebalance_manager =
  rm_cfg :: rebalance_config
  rm_storage :: "engine option"
  rm_tasks :: "(u32, transfer_task) gomap"
  rm_running :: bool

record migration_target =
  mt_NodeID :: string
  mt_Addr :: string

definition NewRebalanceManager :: "rebalance_config \<Rightarrow> engine option \<Rightarrow> rebalance_manager" where
  "NewRebalanceManager cfg storage = \<lparr> rm_cfg = cfg, rm_storage = storage, rm_tasks = [], rm_running = False \<rparr>"

definition GetTaskStatus :: "rebalance_manager \<Rightarrow> u32 \<Rightarrow> transfer_task option" where
  "GetTaskStatus rm shardID = gm_get (rm_tasks rm) shardID"

definition GetAllTasks :: "rebalance_manager \<Rightarrow> transfer_task list" where
  "GetAllTasks rm = map snd (rm_tasks rm)"

definition IsRunning :: "rebalance_manager \<Rightarrow> bool" where
  "IsRunning rm = rm_running rm"

definition set_task :: "rebalance_manager \<Rightarrow> u32 \<Rightarrow> transfer_task \<Rightarrow> rebalance_manager" where
  "set_task rm shardID task = rm \<lparr> rm_tasks := gm_set shardID task (rm_tasks rm) \<rparr>"

definition updateTaskError :: "int \<Rightarrow> transfer_task \<Rightarrow> string \<Rightarrow> transfer_task" where
  "updateTaskError now task errMsg =
     task \<lparr> tt_Status := TaskStatusFailed, tt_endTime := now, tt_Progress := (tt_Progress task) \<lparr> tp_LastError := errMsg \<rparr> \<rparr>"

section \<open>What has to move\<close>

definition compute_step :: "shard_map \<Rightarrow> shard_map \<Rightarrow> (u32, migration_target) gomap \<Rightarrow> u32 \<Rightarrow> (u32, migration_target) gomap" where
  "compute_step oldMap newMap migrations shardID =
     (case GetShard newMap shardID of
        None \<Rightarrow> migrations
      | Some newOwner \<Rightarrow>
          (case GetShard oldMap shardID of
             None \<Rightarrow> gm_set shardID \<lparr> mt_NodeID = newOwner, mt_Addr = '''' \<rparr> migrations
           | Some oldOwner \<Rightarrow>
               if oldOwner \<noteq> newOwner then gm_set shardID \<lparr> mt_NodeID = newOwner, mt_Addr = '''' \<rparr> migrations
               else migrations))"

definition computeMigrations :: "shard_map \<Rightarrow> shard_map \<Rightarrow> (u32, migration_target) gomap" where
  "computeMigrations oldMap newMap =
     foldl (compute_step oldMap newMap) [] (map of_nat [0 ..< unat cluster_DefaultShardCount])"

section \<open>Sending\<close>

record transfer_request =
  tr_ShardId :: u32
  tr_SessionId :: string
  tr_SessionData :: bytes

text \<open>The outcomes of the client factory at an address, of the n-th wait for a number of bytes at a rate
  and burst, of sending a request after others, and of closing the stream after the requests sent: an
  error, or whether the server reported success.\<close>

record migration_rpc =
  rpc_client :: "string \<Rightarrow> go_error option"
  rpc_WaitN :: "int \<Rightarrow> int \<Rightarrow> nat \<Rightarrow> int \<Rightarrow> go_error option"
  rpc_Send :: "transfer_request list \<Rightarrow> transfer_request \<Rightarrow> go_error option"
  rpc_CloseAndReceive :: "transfer_request list \<Rightarrow> go_error + bool"

record migration_scan =
  sc_sent :: "transfer_request list"
  sc_waits :: nat
  sc_transferred :: u64
  sc_skipped :: u64
  sc_totalBytes :: int

definition burstSize :: "rebalance_config \<Rightarrow> int" where
  "burstSize cfg = (if 1024 * 1024 > rc_MaxRateBytesPerSec cfg then rc_MaxRateBytesPerSec cfg else 1024 * 1024)"

text \<open>The callback of the scan: the new state and whether to go on.\<close>

definition migrate_session ::
  "migration_rpc \<Rightarrow> rebalance_config \<Rightarrow> int \<Rightarrow> u32 \<Rightarrow> session \<Rightarrow> migration_scan \<Rightarrow> migration_scan \<times> bool" where
  "migrate_session rpc cfg now shardID sess s =
     (if S_ShardID sess \<noteq> shardID then (s, True)
      else if Session_IsExpired now sess then (s \<lparr> sc_skipped := sc_skipped s + 1 \<rparr>, True)
      else if i64 (S_ExpiresAt sess - UnixMilli now) < Milliseconds (rc_MinTTL cfg) then
        (s \<lparr> sc_skipped := sc_skipped s + 1 \<rparr>, True)
      else
        (case json_Marshal_session sess of
           Inl err \<Rightarrow> (s, True)
         | Inr sessionData \<Rightarrow>
             (let dataSize = int (length sessionData);
                  req = \<lparr> tr_ShardId = shardID, tr_SessionId = S_ID sess, tr_SessionData = sessionData \<rparr>;
                  s1 = s \<lparr> sc_waits := Suc (sc_waits s) \<rparr>
              in case rpc_WaitN rpc (rc_MaxRateBytesPerSec cfg) (burstSize cfg) (sc_waits s) dataSize of
                   Some err \<Rightarrow> (s1, False)
                 | None \<Rightarrow>
                     (case rpc_Send rpc (sc_sent s1) req of
                        Some err \<Rightarrow> (s1, False)
                      | None \<Rightarrow>
                          (s1 \<lparr> sc_sent := sc_sent s1 @ [req], sc_transferred := sc_transferred s1 + 1,
                                sc_totalBytes := i64 (sc_totalBytes s1 + dataSize) \<rparr>, True)))))"

definition Engine_Scan :: "engine \<Rightarrow> (session \<Rightarrow> 's \<Rightarrow> 's \<times> bool) \<Rightarrow> 's \<Rightarrow> 's" where
  "Engine_Scan e fn s = Cmap_Range (st_sessions (en_store e)) (\<lambda>_ sess. fn sess) s"

definition scan_zero :: migration_scan where
  "scan_zero = \<lparr> sc_sent = [], sc_waits = 0, sc_transferred = 0, sc_skipped = 0, sc_totalBytes = 0 \<rparr>"

section \<open>Cleaning up\<close>

text \<open>Deleting while a scan holds the read lock of shard \<open>held\<close> of the session map: the deletion needs
  the write lock of the shard of the session, and blocks forever when that is the one held.\<close>

definition Engine_Delete_in_scan :: "os_calls \<Rightarrow> int \<Rightarrow> nat \<Rightarrow> engine \<Rightarrow> string \<Rightarrow> (engine \<times> go_error option) option" where
  "Engine_Delete_in_scan sys now held e i =
     (case Writer_Append sys (en_walDir e) (en_wal e) (NewDeleteEntry now i) of
        (_, _, Some err) \<Rightarrow> Some (Engine_Delete sys now e i)
      | (_, _, None) \<Rightarrow>
          if shard_index (st_sessions (en_store e)) i = held then None else Some (Engine_Delete sys now e i))"

definition cleanup_session ::
  "(string \<Rightarrow> os_calls) \<Rightarrow> int \<Rightarrow> u32 \<Rightarrow> nat \<Rightarrow> session \<Rightarrow> engine \<times> go_error option \<Rightarrow> (engine \<times> go_error option) option" where
  "cleanup_session sys now shardID held sess el =
     (if S_ShardID sess \<noteq> shardID then Some el
      else
        (case Engine_Delete_in_scan (sys (S_ID sess)) now held (fst el) (S_ID sess) of
           None \<Rightarrow> None
         | Some (e', Some err) \<Rightarrow> Some (e', Some err)
         | Some (e', None) \<Rightarrow> Some (e', snd el)))"

fun cleanup_items ::
  "(session \<Rightarrow> 's \<Rightarrow> 's option) \<Rightarrow> (string, session) gomap \<Rightarrow> 's \<Rightarrow> 's option" where
  "cleanup_items fn [] s = Some s"
| "cleanup_items fn ((k, sess) # rest) s = (case fn sess s of None \<Rightarrow> None | Some s' \<Rightarrow> cleanup_items fn rest s')"

text \<open>The walk over the shards of the session map; each is locked while its items are visited.\<close>

fun cleanup_shards ::
  "(string \<Rightarrow> os_calls) \<Rightarrow> int \<Rightarrow> u32 \<Rightarrow> nat list \<Rightarrow> engine \<times> go_error option \<Rightarrow> (engine \<times> go_error option) option" where
  "cleanup_shards sys now shardID [] el = Some el"
| "cleanup_shards sys now shardID (i # is) el =
     (case cleanup_items (cleanup_session sys now shardID i) (shards (st_sessions (en_store (fst el))) ! i) el of
        None \<Rightarrow> None
      | Some el' \<Rightarrow> cleanup_shards sys now shardID is el')"

definition cleanupShardData ::
  "(string \<Rightarrow> os_calls) \<Rightarrow> int \<Rightarrow> rebalance_manager \<Rightarrow> u32 \<Rightarrow> (rebalance_manager \<times> go_error option) option" where
  "cleanupShardData sys now rm shardID =
     (case rm_storage rm of
        None \<Rightarrow> Some (rm, Some (PlainError ''storage not configured''))
      | Some e \<Rightarrow>
          map_option (\<lambda>(e', lastErr). (rm \<lparr> rm_storage := Some e' \<rparr>, lastErr))
            (cleanup_shards sys now shardID [0 ..< length (shards (st_sessions (en_store e)))] (e, None)))"

section \<open>A migration\<close>

text \<open>The end of a migration whose stream was closed with a report of success.\<close>

definition finish_migration ::
  "(string \<Rightarrow> os_calls) \<Rightarrow> int \<Rightarrow> rebalance_manager \<Rightarrow> u32 \<Rightarrow> transfer_task \<Rightarrow> migration_scan \<Rightarrow>
   (rebalance_manager \<times> go_error option) option" where
  "finish_migration sys now rm shardID task s =
     (let task' = task \<lparr> tt_Status := TaskStatusCompleted, tt_endTime := now,
                         tt_Progress := \<lparr> tp_TotalItems = sc_transferred s + sc_skipped s,
                                         tp_TransferredItems = sc_transferred s,
                                         tp_BytesTransferred = sc_totalBytes s, tp_SkippedExpired = sc_skipped s,
                                         tp_LastError = '''' \<rparr> \<rparr>
      in case cleanupShardData sys now (set_task rm shardID task') shardID of
           None \<Rightarrow> None
         | Some (rm', _) \<Rightarrow> Some (rm', None))"

definition migrateShardData ::
  "migration_rpc \<Rightarrow> (string \<Rightarrow> os_calls) \<Rightarrow> int \<Rightarrow> rebalance_manager \<Rightarrow> u32 \<Rightarrow>
   (rebalance_manager \<times> go_error option) option" where
  "migrateShardData rpc sys now rm shardID =
     (case gm_get (rm_tasks rm) shardID of
        None \<Rightarrow> Some (rm, Some (PlainError (''task not found for shard '' @ FormatInt (uint shardID))))
      | Some task0 \<Rightarrow>
          (let task = task0 \<lparr> tt_Status := TaskStatusRunning, tt_startTime := now \<rparr> in
           case rpc_client rpc (tt_TargetAddr task) of
             Some err \<Rightarrow>
               Some (set_task rm shardID (updateTaskError now task (''create client: '' @ Error err)),
                     Some (WrapError ''create client'' err))
           | None \<Rightarrow>
               (case rm_storage rm of
                  None \<Rightarrow> None
                | Some e \<Rightarrow>
                    (let s = Engine_Scan e (migrate_session rpc (rm_cfg rm) now shardID) scan_zero in
                     case rpc_CloseAndReceive rpc (sc_sent s) of
                       Inl err \<Rightarrow>
                         Some (set_task rm shardID (updateTaskError now task (''stream close: '' @ Error err)),
                               Some (WrapError ''stream close'' err))
                     | Inr success \<Rightarrow>
                         if \<not> success then
                           Some (set_task rm shardID (updateTaskError now task ''server reported failure''),
                                 Some (PlainError ''server reported migration failure''))
                         else finish_migration sys now rm shardID task s))))"

section \<open>A rebalance\<close>

definition add_tasks :: "int \<Rightarrow> (u32, migration_target) gomap \<Rightarrow> rebalance_manager \<Rightarrow> rebalance_manager" where
  "add_tasks now migrations rm =
     foldl (\<lambda>r (shardID, target).
              set_task r shardID
                \<lparr> tt_ShardID = shardID, tt_TargetNode = mt_NodeID target, tt_TargetAddr = mt_Addr target,
                  tt_Status = TaskStatusPending,
                  tt_Progress = \<lparr> tp_TotalItems = 0, tp_TransferredItems = 0, tp_BytesTransferred = 0,
                                  tp_SkippedExpired = 0, tp_LastError = '''' \<rparr>,
                  tt_startTime = now, tt_endTime = time_zero \<rparr>) rm migrations"

fun run_migrations ::
  "(u32 \<Rightarrow> migration_rpc) \<Rightarrow> (u32 \<Rightarrow> string \<Rightarrow> os_calls) \<Rightarrow> int \<Rightarrow> u32 list \<Rightarrow> rebalance_manager \<Rightarrow> rebalance_manager option" where
  "run_migrations rpc sys now [] rm = Some rm"
| "run_migrations rpc sys now (sid # sids) rm =
     (case migrateShardData (rpc sid) (sys sid) now rm sid of
        None \<Rightarrow> None
      | Some (rm', _) \<Rightarrow> run_migrations rpc sys now sids rm')"

text \<open>A channel of capacity zero takes nothing from a goroutine that nobody receives from; a negative
  capacity panics.\<close>

definition TriggerRebalance ::
  "(u32 \<Rightarrow> migration_rpc) \<Rightarrow> (u32 \<Rightarrow> string \<Rightarrow> os_calls) \<Rightarrow> (u32 list \<Rightarrow> u32 list) \<Rightarrow> int \<Rightarrow> rebalance_manager \<Rightarrow>
   shard_map \<Rightarrow> shard_map \<Rightarrow> (rebalance_manager \<times> go_error option) option" where
  "TriggerRebalance rpc sys sched now rm oldMap newMap =
     (if rm_running rm then Some (rm, Some (PlainError ''rebalance already in progress''))
      else
        (let migrations = computeMigrations oldMap newMap in
         if migrations = [] then Some (rm, None)
         else if rc_ConcurrentShards (rm_cfg rm) \<le> 0 then None
         else
           map_option (\<lambda>rm'. (rm' \<lparr> rm_running := False \<rparr>, None))
             (run_migrations rpc sys now (sched (map fst migrations)) (add_tasks now migrations (rm \<lparr> rm_running := True \<rparr>)))))"

section \<open>Receiving\<close>

datatype connect_code = CodeInternal | CodeFailedPrecondition | CodeUnauthenticated

record transfer_response =
  tsr_Success :: bool
  tsr_TransferredItems :: u64

text \<open>The loop over the messages of the stream: the storage, the number received, and the error that
  ended it.\<close>

fun receive_sessions ::
  "(string \<Rightarrow> os_calls) \<Rightarrow> int \<Rightarrow> transfer_request list \<Rightarrow> engine \<times> u64 \<Rightarrow> engine \<times> (connect_code \<times> go_error + u64)" where
  "receive_sessions sys now [] (e, receivedCount) = (e, Inr receivedCount)"
| "receive_sessions sys now (msg # msgs) (e, receivedCount) =
     (case json_Unmarshal_session (tr_SessionData msg) of
        Inl err \<Rightarrow> receive_sessions sys now msgs (e, receivedCount + 1)
      | Inr sess \<Rightarrow>
          (case Engine_Create (sys (S_ID sess)) now e sess of
             (e', Some err) \<Rightarrow> (e', Inl (CodeInternal, WrapError (''storage failed for session '' @ S_ID sess) err))
           | (e', None) \<Rightarrow> receive_sessions sys now msgs (e', receivedCount + 1)))"

definition Handler_TransferShard ::
  "(string \<Rightarrow> os_calls) \<Rightarrow> int \<Rightarrow> transfer_request list \<Rightarrow> go_error option \<Rightarrow> engine option \<Rightarrow>
   engine option \<times> (connect_code \<times> go_error + transfer_response)" where
  "Handler_TransferShard sys now msgs streamErr storage =
     (case storage of
        None \<Rightarrow>
          (None, Inl (CodeFailedPrecondition, PlainError ''storage engine not available - cannot accept shard migration''))
      | Some e \<Rightarrow>
          (case receive_sessions sys now msgs (e, 0) of
             (e', Inl err) \<Rightarrow> (Some e', Inl err)
           | (e', Inr receivedCount) \<Rightarrow>
               (case streamErr of
                  None \<Rightarrow> (Some e', Inr \<lparr> tsr_Success = True, tsr_TransferredItems = receivedCount \<rparr>)
                | Some err \<Rightarrow>
                    if err = io_EOF then (Some e', Inr \<lparr> tsr_Success = True, tsr_TransferredItems = receivedCount \<rparr>)
                    else (Some e', Inl (CodeInternal, WrapError ''stream error'' err)))))"

section \<open>What has to move: lemmas\<close>

lemma compute_step_get:
  "gm_get (compute_step om nm m i) j =
     (if j = i \<and> GetShard nm i \<noteq> None \<and> GetShard om i \<noteq> GetShard nm i
      then Some \<lparr> mt_NodeID = the (GetShard nm i), mt_Addr = '''' \<rparr> else gm_get m j)"
  by (auto simp: compute_step_def gm_get_set split: option.splits)

lemma compute_steps_get:
  "gm_get (foldl (compute_step om nm) m xs) j =
     (if j \<in> set xs \<and> GetShard nm j \<noteq> None \<and> GetShard om j \<noteq> GetShard nm j
      then Some \<lparr> mt_NodeID = the (GetShard nm j), mt_Addr = '''' \<rparr> else gm_get m j)"
  by (induction xs arbitrary: m) (auto simp: compute_step_get)

lemma shard_ids: "set (map of_nat [0 ..< unat cluster_DefaultShardCount]) = {i. i < cluster_DefaultShardCount}"
proof
  show "set (map of_nat [0 ..< unat cluster_DefaultShardCount]) \<subseteq> {i. i < cluster_DefaultShardCount}"
    by (auto simp: word_less_nat_alt unat_of_nat)
  show "{i. i < cluster_DefaultShardCount} \<subseteq> set (map of_nat [0 ..< unat cluster_DefaultShardCount])"
  proof
    fix i :: u32
    assume "i \<in> {i. i < cluster_DefaultShardCount}"
    then have "unat i \<in> set [0 ..< unat cluster_DefaultShardCount]" by (simp add: word_less_nat_alt)
    then have "of_nat (unat i) \<in> set (map of_nat [0 ..< unat cluster_DefaultShardCount] :: u32 list)"
      unfolding set_map by (rule imageI)
    then show "i \<in> set (map of_nat [0 ..< unat cluster_DefaultShardCount])" by simp
  qed
qed

lemma computeMigrations_get:
  "gm_get (computeMigrations om nm) j =
     (if j < cluster_DefaultShardCount \<and> GetShard nm j \<noteq> None \<and> GetShard om j \<noteq> GetShard nm j
      then Some \<lparr> mt_NodeID = the (GetShard nm j), mt_Addr = '''' \<rparr> else None)"
  unfolding computeMigrations_def compute_steps_get shard_ids by simp

lemma computeMigrations_same: "computeMigrations m m = []"
proof -
  have "compute_step m m = (\<lambda>ms _. ms)" by (auto simp: fun_eq_iff compute_step_def split: option.splits)
  moreover have "foldl (\<lambda>ms _. ms) acc xs = acc" for acc :: "(u32, migration_target) gomap" and xs :: "u32 list"
    by (induction xs) simp_all
  ultimately show ?thesis by (simp add: computeMigrations_def)
qed

section \<open>Sending: lemmas\<close>

lemma range_items_append:
  "range_items fn (xs @ ys) s = (case range_items fn xs s of (s', go) \<Rightarrow> if go then range_items fn ys s' else (s', False))"
  by (induction fn xs s rule: range_items.induct) (auto split: prod.splits)

lemma range_shards_concat: "range_shards fn ss s = fst (range_items fn (concat ss) s)"
  by (induction fn ss s rule: range_shards.induct) (auto simp: range_items_append split: prod.splits)

lemma Engine_Scan_items:
  "Engine_Scan e fn s = fst (range_items (\<lambda>_ sess. fn sess) (Cmap_Items (st_sessions (en_store e))) s)"
  by (simp add: Engine_Scan_def Cmap_Range_def range_shards_concat Cmap_Items_concat)

definition migrates :: "rebalance_config \<Rightarrow> int \<Rightarrow> u32 \<Rightarrow> session \<Rightarrow> bool" where
  "migrates cfg now shardID sess \<longleftrightarrow> S_ShardID sess = shardID \<and> \<not> Session_IsExpired now sess \<and>
     Milliseconds (rc_MinTTL cfg) \<le> i64 (S_ExpiresAt sess - UnixMilli now)"

definition request_of :: "u32 \<Rightarrow> session \<Rightarrow> transfer_request" where
  "request_of shardID sess =
     \<lparr> tr_ShardId = shardID, tr_SessionId = S_ID sess, tr_SessionData = bytes_of_string (json_text (session_json sess)) \<rparr>"

lemma migrate_session_sends:
  assumes "migrate_session rpc cfg now sid sess s = (s', go)"
  shows "sc_sent s' = sc_sent s @ (if migrates cfg now sid sess \<and> go then [request_of sid sess] else [])"
    and "\<not> migrates cfg now sid sess \<Longrightarrow> go"
    and "(\<And>r b n k. rpc_WaitN rpc r b n k = None) \<Longrightarrow> (\<And>xs x. rpc_Send rpc xs x = None) \<Longrightarrow> go"
  using assms
  by (auto simp: migrate_session_def migrates_def request_of_def json_Marshal_session_def json_Marshal_def Let_def
      split: if_splits option.splits)

lemma scan_sends:
  assumes "\<And>r b n k. rpc_WaitN rpc r b n k = None" "\<And>xs x. rpc_Send rpc xs x = None"
  shows "sc_sent (fst (range_items (\<lambda>_ sess. migrate_session rpc cfg now sid sess) items s)) =
    sc_sent s @ map (request_of sid) (filter (migrates cfg now sid) (map snd items))"
proof (induction items arbitrary: s)
  case (Cons p items)
  obtain k sess where p: "p = (k, sess)" by (cases p)
  obtain s' go where m: "migrate_session rpc cfg now sid sess s = (s', go)" by fastforce
  note M = migrate_session_sends [OF m]
  show ?case using M(1) M(3) [OF assms] m p Cons.IH [of s'] by simp
qed simp

lemma scan_sends_prefix:
  "\<exists>n. sc_sent (fst (range_items (\<lambda>_ sess. migrate_session rpc cfg now sid sess) items s)) =
    sc_sent s @ take n (map (request_of sid) (filter (migrates cfg now sid) (map snd items)))"
proof (induction items arbitrary: s)
  case (Cons p items)
  obtain k sess where p: "p = (k, sess)" by (cases p)
  obtain s' go where m: "migrate_session rpc cfg now sid sess s = (s', go)" by fastforce
  note M = migrate_session_sends [OF m]
  show ?case
  proof (cases go)
    case True
    obtain n where n: "sc_sent (fst (range_items (\<lambda>_ sess. migrate_session rpc cfg now sid sess) items s')) =
        sc_sent s' @ take n (map (request_of sid) (filter (migrates cfg now sid) (map snd items)))"
      using Cons.IH [of s'] by blast
    show ?thesis
      using M(1) n m p True
      by (intro exI [of _ "if migrates cfg now sid sess then Suc n else n"]) simp
  next
    case False
    then show ?thesis using M(1) m p by (intro exI [of _ 0]) simp
  qed
qed simp

section \<open>Receiving: lemmas\<close>

lemma request_decodes: "session_json_ok sess \<Longrightarrow> json_Unmarshal_session (tr_SessionData (request_of sid sess)) = Inr (json_view sess)"
  using session_json_roundtrip [of sess] by (auto simp: request_of_def json_Marshal_session_def json_Marshal_def)

lemma Engine_Create_stores:
  assumes "store_inv (en_store e)" "Engine_Create sys now e sess = (e', None)"
  shows "store_inv (en_store e')" "store_abs (en_store e) (S_ID sess) = None"
    "store_abs (en_store e') = (store_abs (en_store e))(S_ID sess \<mapsto> sess)"
proof -
  have c: "Store_Create (en_store e) sess = (en_store e', None)"
    using log_then_cases [of sys e "NewCreateEntry now sess"] assms(2) by (fastforce simp: Engine_Create_def)
  note R = Store_Create_refines [OF assms(1) c]
  show "store_inv (en_store e')" by (rule R(1))
  show "store_abs (en_store e) (S_ID sess) = None" "store_abs (en_store e') = (store_abs (en_store e))(S_ID sess \<mapsto> sess)"
    using R(2) by (auto simp: a_Create_def split: if_splits)
qed

lemma receive_success:
  assumes "receive_sessions sys now (map (request_of sid) ss) (e, c) = (e', Inr n)"
    and "store_inv (en_store e)" "\<And>sess. sess \<in> set ss \<Longrightarrow> session_json_ok sess"
  shows "store_inv (en_store e') \<and> n = c + of_nat (length ss) \<and> distinct (map S_ID ss) \<and>
    (\<forall>sess \<in> set ss. store_abs (en_store e) (S_ID sess) = None) \<and>
    store_abs (en_store e') = (store_abs (en_store e)) ++ map_of (map (\<lambda>sess. (S_ID sess, json_view sess)) ss)"
  using assms
proof (induction ss arbitrary: e c)
  case (Cons sess ss)
  have v: "S_ID (json_view sess) = S_ID sess" by (simp add: json_view_def data_sorted_def)
  obtain e1 r where c: "Engine_Create (sys (S_ID sess)) now e (json_view sess) = (e1, r)" by fastforce
  have r: "r = None" "receive_sessions sys now (map (request_of sid) ss) (e1, c + 1) = (e', Inr n)"
    using Cons.prems c v by (auto simp: request_decodes split: option.splits)
  note S = Engine_Create_stores [OF Cons.prems(2) c [unfolded r(1)], unfolded v]
  have IH: "store_inv (en_store e') \<and> n = c + 1 + of_nat (length ss) \<and> distinct (map S_ID ss) \<and>
    (\<forall>sess \<in> set ss. store_abs (en_store e1) (S_ID sess) = None) \<and>
    store_abs (en_store e') = (store_abs (en_store e1)) ++ map_of (map (\<lambda>sess. (S_ID sess, json_view sess)) ss)"
    by (rule Cons.IH [OF r(2) S(1)]) (simp add: Cons.prems(3))
  then have new: "S_ID sess \<notin> S_ID ` set ss" "\<forall>x \<in> set ss. store_abs (en_store e) (S_ID x) = None"
    using S(3) by (auto simp: fun_upd_def split: if_splits)
  then have "map_of (map (\<lambda>sess. (S_ID sess, json_view sess)) ss) (S_ID sess) = None"
    by (auto simp: map_of_eq_None_iff image_iff)
  then have "(store_abs (en_store e))(S_ID sess \<mapsto> json_view sess) ++ map_of (map (\<lambda>sess. (S_ID sess, json_view sess)) ss) =
      (store_abs (en_store e)) ++ map_of (map (\<lambda>sess. (S_ID sess, json_view sess)) (sess # ss))"
    by (auto simp: map_add_def fun_eq_iff split: option.splits)
  then have "store_abs (en_store e') = (store_abs (en_store e)) ++ map_of (map (\<lambda>sess. (S_ID sess, json_view sess)) (sess # ss))"
    using IH S(3) by simp
  moreover have "distinct (map S_ID (sess # ss))" using IH new by simp
  ultimately show ?case using IH S(2) new by (simp del: map_of.simps list.map)
qed simp

lemma receive_result:
  "fst (Handler_TransferShard sys now msgs None (Some t)) = Some (fst (receive_sessions sys now msgs (t, 0)))"
  "snd (Handler_TransferShard sys now msgs None (Some t)) = Inr r \<longleftrightarrow>
    (\<exists>n. snd (receive_sessions sys now msgs (t, 0)) = Inr n \<and> r = \<lparr> tsr_Success = True, tsr_TransferredItems = n \<rparr>)"
  by (auto simp: Handler_TransferShard_def split: prod.splits sum.splits)

section \<open>Cleaning up: lemmas\<close>

text \<open>A walk that meets a session of the shard blocks at the first one.\<close>

lemma cleanup_items_blocks:
  assumes "\<And>sess. sess \<in> snd ` set items \<Longrightarrow> shard_index (st_sessions (en_store e)) (S_ID sess) = held \<and>
      snd (snd (Writer_Append (sys (S_ID sess)) (en_walDir e) (en_wal e) (NewDeleteEntry now (S_ID sess)))) = None"
  shows "cleanup_items (cleanup_session sys now sid held) items (e, None) =
    (if \<exists>sess \<in> snd ` set items. S_ShardID sess = sid then None else Some (e, None))"
  using assms
proof (induction items)
  case (Cons p items)
  obtain k sess where p: "p = (k, sess)" by (cases p)
  have h: "shard_index (st_sessions (en_store e)) (S_ID sess) = held"
    "snd (snd (Writer_Append (sys (S_ID sess)) (en_walDir e) (en_wal e) (NewDeleteEntry now (S_ID sess)))) = None"
    using Cons.prems [of sess] p by auto
  have IH: "cleanup_items (cleanup_session sys now sid held) items (e, None) =
    (if \<exists>sess \<in> snd ` set items. S_ShardID sess = sid then None else Some (e, None))"
    by (rule Cons.IH, rule Cons.prems) auto
  show ?case
  proof (cases "S_ShardID sess = sid")
    case True
    then have "cleanup_session sys now sid held sess (e, None) = None"
      using h by (auto simp: cleanup_session_def Engine_Delete_in_scan_def split: prod.splits)
    then show ?thesis using p True by simp
  next
    case False
    then have "cleanup_session sys now sid held sess (e, None) = Some (e, None)" by (simp add: cleanup_session_def)
    then show ?thesis using p IH False by simp
  qed
qed simp

lemma cleanup_shards_blocks:
  assumes "\<And>i sess. i \<in> set is \<Longrightarrow> sess \<in> snd ` set (shards (st_sessions (en_store e)) ! i) \<Longrightarrow>
      shard_index (st_sessions (en_store e)) (S_ID sess) = i \<and>
      snd (snd (Writer_Append (sys (S_ID sess)) (en_walDir e) (en_wal e) (NewDeleteEntry now (S_ID sess)))) = None"
  shows "cleanup_shards sys now sid is (e, None) =
    (if \<exists>i \<in> set is. \<exists>sess \<in> snd ` set (shards (st_sessions (en_store e)) ! i). S_ShardID sess = sid then None
     else Some (e, None))"
  using assms
proof (induction "is")
  case (Cons i "is")
  have "cleanup_items (cleanup_session sys now sid i) (shards (st_sessions (en_store e)) ! i) (e, None) =
    (if \<exists>sess \<in> snd ` set (shards (st_sessions (en_store e)) ! i). S_ShardID sess = sid then None else Some (e, None))"
    by (rule cleanup_items_blocks) (rule Cons.prems, auto)
  moreover have "cleanup_shards sys now sid is (e, None) =
    (if \<exists>i \<in> set is. \<exists>sess \<in> snd ` set (shards (st_sessions (en_store e)) ! i). S_ShardID sess = sid then None
     else Some (e, None))"
    by (rule Cons.IH, rule Cons.prems) auto
  ultimately show ?case by auto
qed simp

lemma shard_items:
  assumes "store_inv st"
  shows "i < length (shards (st_sessions st)) \<Longrightarrow> (k, sess) \<in> set (shards (st_sessions st) ! i) \<Longrightarrow>
      store_abs st k = Some sess \<and> S_ID sess = k \<and> shard_index (st_sessions st) k = i"
    and "store_abs st k = Some sess \<Longrightarrow> \<exists>i < length (shards (st_sessions st)). (k, sess) \<in> set (shards (st_sessions st) ! i)"
proof -
  have inv: "cmap_inv (st_sessions st)" and key: "keyed (store_abs st)" using store_invD [OF assms] by auto
  have mem: "(k, sess) \<in> set (concat (shards (st_sessions st))) \<longleftrightarrow> store_abs st k = Some sess" for k sess
    using Cmap_Items_mem [OF inv, of k sess] by (simp add: Cmap_Items_concat store_abs_def)
  { assume i: "i < length (shards (st_sessions st))" "(k, sess) \<in> set (shards (st_sessions st) ! i)"
    then have "store_abs st k = Some sess" using mem [of k sess] by (auto intro: nth_mem)
    moreover have "shard_index (st_sessions st) k = i" using inv i by (force simp: cmap_inv_def)
    ultimately show "store_abs st k = Some sess \<and> S_ID sess = k \<and> shard_index (st_sessions st) k = i"
      using key by (simp add: keyed_def) }
  { assume "store_abs st k = Some sess"
    then obtain t where "t \<in> set (shards (st_sessions st))" "(k, sess) \<in> set t" using mem [of k sess] by auto
    then show "\<exists>i < length (shards (st_sessions st)). (k, sess) \<in> set (shards (st_sessions st) ! i)"
      by (metis in_set_conv_nth) }
qed

lemma cleanup_blocks:
  assumes "store_inv (en_store e)" "rm_storage rm = Some e"
    and "\<And>i. i \<in> dom (store_abs (en_store e)) \<Longrightarrow>
      snd (snd (Writer_Append (sys i) (en_walDir e) (en_wal e) (NewDeleteEntry now i))) = None"
  shows "cleanupShardData sys now rm sid =
    (if \<exists>sess \<in> ran (store_abs (en_store e)). S_ShardID sess = sid then None else Some (rm, None))"
proof -
  let ?n = "[0 ..< length (shards (st_sessions (en_store e)))]"
  have ex: "(\<exists>i \<in> set ?n. \<exists>sess \<in> snd ` set (shards (st_sessions (en_store e)) ! i). S_ShardID sess = sid) \<longleftrightarrow>
      (\<exists>sess \<in> ran (store_abs (en_store e)). S_ShardID sess = sid)"
  proof
    assume "\<exists>i \<in> set ?n. \<exists>sess \<in> snd ` set (shards (st_sessions (en_store e)) ! i). S_ShardID sess = sid"
    then show "\<exists>sess \<in> ran (store_abs (en_store e)). S_ShardID sess = sid"
      using shard_items(1) [OF assms(1)] by (fastforce intro: ranI)
  next
    assume "\<exists>sess \<in> ran (store_abs (en_store e)). S_ShardID sess = sid"
    then obtain k sess where "store_abs (en_store e) k = Some sess" "S_ShardID sess = sid" by (auto simp: ran_def)
    then show "\<exists>i \<in> set ?n. \<exists>sess \<in> snd ` set (shards (st_sessions (en_store e)) ! i). S_ShardID sess = sid"
      using shard_items(2) [OF assms(1)] by force
  qed
  have "cleanup_shards sys now sid ?n (e, None) =
      (if \<exists>i \<in> set ?n. \<exists>sess \<in> snd ` set (shards (st_sessions (en_store e)) ! i). S_ShardID sess = sid then None
       else Some (e, None))"
    by (rule cleanup_shards_blocks) (use shard_items(1) [OF assms(1)] assms(3) in \<open>fastforce simp: dom_def\<close>)
  then show ?thesis using assms(2) unfolding ex by (simp add: cleanupShardData_def)
qed

text \<open>The sessions that a scan visits, and the contents they make at the receiver.\<close>

lemma scanned_sessions:
  "store_inv st \<Longrightarrow> sess \<in> snd ` set (Cmap_Items (st_sessions st)) \<longleftrightarrow> store_abs st (S_ID sess) = Some sess"
  using Store_All_set [of st] store_invD(4) [of st] by (auto simp: Store_All_values ran_def keyed_def)

lemma map_of_sessions:
  assumes "distinct (map S_ID ss)" "\<And>sess. sess \<in> set ss \<longleftrightarrow> P sess \<and> m (S_ID sess) = Some sess"
    and "\<And>k sess. m k = Some sess \<Longrightarrow> S_ID sess = k"
  shows "map_of (map (\<lambda>sess. (S_ID sess, g sess)) ss) i =
    (case m i of None \<Rightarrow> None | Some sess \<Rightarrow> if P sess then Some (g sess) else None)"
proof (cases "\<exists>sess. m i = Some sess \<and> P sess")
  case True
  then obtain sess where sess: "m i = Some sess" "P sess" "S_ID sess = i" using assms(3) by blast
  then have "(i, g sess) \<in> set (map (\<lambda>sess. (S_ID sess, g sess)) ss)" using assms(2) [of sess] by force
  moreover have "distinct (map fst (map (\<lambda>sess. (S_ID sess, g sess)) ss))" using assms(1) by (simp add: o_def)
  ultimately show ?thesis using sess by (simp add: map_of_is_SomeI)
next
  case False
  then have "i \<notin> fst ` set (map (\<lambda>sess. (S_ID sess, g sess)) ss)" using assms(2) by fastforce
  then have "map_of (map (\<lambda>sess. (S_ID sess, g sess)) ss) i = None" by (simp only: map_of_eq_None_iff not_False_eq_True)
  then show ?thesis using False by (auto split: option.splits)
qed

section \<open>Properties\<close>

text \<open>The plan of a rebalance is exact: a shard is moved exactly when it is one of the 256 shards, has an owner in
  the new map and had another owner or none in the old one; its target is the new owner, with an address that
  is left empty. A rebalance between equal maps, which is what a node that becomes the leader asks for, changes nothing.\<close>

lemma rebalance_plan_exact:
  "gm_get (computeMigrations om nm) j =
     (if j < cluster_DefaultShardCount \<and> GetShard nm j \<noteq> None \<and> GetShard om j \<noteq> GetShard nm j
      then Some \<lparr> mt_NodeID = the (GetShard nm j), mt_Addr = '''' \<rparr> else None) \<and>
   TriggerRebalance rpc sys sched now rm nm nm =
     Some (rm, if rm_running rm then Some (PlainError ''rebalance already in progress'') else None)"
  by (simp add: computeMigrations_get computeMigrations_same TriggerRebalance_def)

text \<open>C18: what is sent arrives. When the stream and the limiter of a migration do not fail and the receiving node
  answers with success, the receiving node then holds, beside what it held before, exactly the sessions of
  the shard that are not expired and have the least remaining time to live, as their JSON text
  keeps them (the shard number is not part of it), and none of them was there before.\<close>

theorem migrated_sessions_arrive:
  assumes "store_inv (en_store e)" "store_inv (en_store t)" "\<forall>sess \<in> ran (store_abs (en_store e)). session_json_ok sess"
    and "\<And>r b n k. rpc_WaitN rpc r b n k = None" "\<And>xs x. rpc_Send rpc xs x = None"
    and "Handler_TransferShard sys now' (sc_sent (Engine_Scan e (migrate_session rpc cfg now sid) scan_zero)) None (Some t) =
      (Some t', Inr resp)"
  shows "store_inv (en_store t') \<and> tsr_Success resp \<and>
    (\<forall>i. store_abs (en_store t') i =
      (case store_abs (en_store e) i of
         None \<Rightarrow> store_abs (en_store t) i
       | Some sess \<Rightarrow> if migrates cfg now sid sess then Some (json_view sess) else store_abs (en_store t) i)) \<and>
    (\<forall>i sess. store_abs (en_store e) i = Some sess \<longrightarrow> migrates cfg now sid sess \<longrightarrow> store_abs (en_store t) i = None)"
proof -
  let ?ss = "filter (migrates cfg now sid) (map snd (Cmap_Items (st_sessions (en_store e))))"
  have in_ss: "sess \<in> set ?ss \<longleftrightarrow> migrates cfg now sid sess \<and> store_abs (en_store e) (S_ID sess) = Some sess" for sess
    using scanned_sessions [OF assms(1), of sess] by auto
  have key: "S_ID sess = k" if "store_abs (en_store e) k = Some sess" for k sess
    using store_invD(4) [OF assms(1)] that by (simp add: keyed_def)
  have sent: "sc_sent (Engine_Scan e (migrate_session rpc cfg now sid) scan_zero) = map (request_of sid) ?ss"
    unfolding Engine_Scan_items by (subst scan_sends [OF assms(4,5)]) (simp add: scan_zero_def)
  obtain n where n: "receive_sessions sys now' (map (request_of sid) ?ss) (t, 0) = (t', Inr n)" and s: "tsr_Success resp"
    using assms(6) receive_result(1) [of sys now' "map (request_of sid) ?ss" t]
      receive_result(2) [of sys now' "map (request_of sid) ?ss" t resp] unfolding sent
    by (cases "receive_sessions sys now' (map (request_of sid) ?ss) (t, 0)") auto
  have ok: "session_json_ok sess" if "sess \<in> set ?ss" for sess
    using that assms(3) in_ss by (blast intro: ranI)
  note R = receive_success [OF n assms(2) ok]
  have "map_of (map (\<lambda>sess. (S_ID sess, json_view sess)) ?ss) i =
      (case store_abs (en_store e) i of
         None \<Rightarrow> None | Some sess \<Rightarrow> if migrates cfg now sid sess then Some (json_view sess) else None)" for i
    by (rule map_of_sessions) (use R in_ss key in auto)
  then have "store_abs (en_store t') i =
      (case store_abs (en_store e) i of
         None \<Rightarrow> store_abs (en_store t) i
       | Some sess \<Rightarrow> if migrates cfg now sid sess then Some (json_view sess) else store_abs (en_store t) i)" for i
    using R by (auto simp: map_add_def split: option.splits)
  moreover have "store_abs (en_store t) i = None" if "store_abs (en_store e) i = Some sess" "migrates cfg now sid sess" for i sess
    using R in_ss [of sess] that key [of i sess] by auto
  ultimately show ?thesis using R s by blast
qed

text \<open>A transfer is not repeatable. When the receiving node holds one of the sessions that are sent, as it does after
  a transfer that broke off, it answers with an error, so a migration that failed half way cannot be
  retried with success.\<close>

lemma retried_transfer_refused:
  assumes "store_inv (en_store t)" "\<forall>sess \<in> set ss. session_json_ok sess"
    and "\<exists>sess \<in> set ss. store_abs (en_store t) (S_ID sess) \<noteq> None"
  shows "\<exists>t' err. Handler_TransferShard sys now (map (request_of sid) ss) None (Some t) = (Some t', Inl err)"
proof -
  obtain t' r where r: "receive_sessions sys now (map (request_of sid) ss) (t, 0) = (t', r)" by fastforce
  have "\<exists>err. r = Inl err"
    using receive_success [of sys now sid ss t 0 t'] assms r by (cases r) auto
  then show ?thesis using r by (auto simp: Handler_TransferShard_def)
qed

text \<open>C33: the clean-up blocks. It walks the sessions with the read lock of a part of the session map held and deletes from
  the same part, which waits for that lock: as long as the log accepts the deletions, it returns exactly when the node holds no
  session of the shard, and a migration that was reported successful never returns otherwise.\<close>

theorem cleanup_never_returns:
  assumes "store_inv (en_store e)" "rm_storage rm = Some e"
    and "\<And>i. i \<in> dom (store_abs (en_store e)) \<Longrightarrow>
      snd (snd (Writer_Append (sys i) (en_walDir e) (en_wal e) (NewDeleteEntry now i))) = None"
  shows "cleanupShardData sys now rm sid =
      (if \<exists>sess \<in> ran (store_abs (en_store e)). S_ShardID sess = sid then None else Some (rm, None)) \<and>
    (\<forall>task rpc. gm_get (rm_tasks rm) sid = Some task \<longrightarrow> rpc_client rpc (tt_TargetAddr task) = None \<longrightarrow>
      rpc_CloseAndReceive rpc (sc_sent (Engine_Scan e (migrate_session rpc (rm_cfg rm) now sid) scan_zero)) = Inr True \<longrightarrow>
      (migrateShardData rpc sys now rm sid = None \<longleftrightarrow> (\<exists>sess \<in> ran (store_abs (en_store e)). S_ShardID sess = sid)))"
proof -
  have c: "cleanupShardData sys now (set_task rm sid task) sid =
      (if \<exists>sess \<in> ran (store_abs (en_store e)). S_ShardID sess = sid then None else Some (set_task rm sid task, None))" for task
    by (rule cleanup_blocks [OF assms(1) _ assms(3)]) (use assms(2) in \<open>auto simp: set_task_def\<close>)
  show ?thesis
    using cleanup_blocks [OF assms] assms(2) by (simp add: migrateShardData_def finish_migration_def Let_def c)
qed

section \<open>Examples\<close>

definition moving_session :: session where
  "moving_session = (example_session ''tmss-1'' ''u'' ''h'') \<lparr> S_ExpiresAt := 100 \<rparr>"

lemma moving_session_facts:
  "S_ID moving_session = ''tmss-1''" "S_ShardID moving_session = 0" "Session_Validate moving_session = None"
  "session_json_ok moving_session" "json_view moving_session = moving_session"
  by (simp_all add: moving_session_def example_session_def Session_zero_def Session_Validate_None data_within_limits_def
      session_json_ok_def in_i64_def utf8_ascii is_ascii_def json_view_def data_sorted_def strmap_ok_def)

text \<open>A fresh engine, and one that holds the session.\<close>

lemma moving_engine:
  obtains e :: engine where "store_inv (en_store e)" "store_abs (en_store e) = [''tmss-1'' \<mapsto> moving_session]"
    "log_holds (en_walDir e) (en_wal e) []" "\<not> W_closed (en_wal e)" "unat (W_segmentID (en_wal e)) = 1"
    "wc_Cipher (W_cfg (en_wal e)) = None"
proof -
  obtain e :: engine where e: "log_holds (en_walDir e) (en_wal e) []" "\<not> W_closed (en_wal e)" "unat (W_segmentID (en_wal e)) = 1"
    "wc_Cipher (W_cfg (en_wal e)) = None" "store_inv (en_store e)" "store_abs (en_store e) = Map.empty"
    "st_maxSessionsPerUser (en_store e) = DefaultMaxSessionsPerUser"
    by (rule example_engine [of "\<lambda>_. 0" "\<lambda>_. 0" "\<lambda>_. 0"]) blast
  obtain st r where c: "Store_Create (en_store e) moving_session = (st, r)" by fastforce
  then have "store_inv st" "store_abs st = [''tmss-1'' \<mapsto> moving_session]"
    using Store_Create_refines [OF e(5) c] e(6,7) moving_session_facts by (auto simp: a_Create_def user_ids_def token_used_def)
  with e(1-4) show ?thesis by (intro that [of "e \<lparr> en_store := st \<rparr>"]) auto
qed

lemma moving_create:
  obtains t t' :: engine where "store_inv (en_store t)" "store_abs (en_store t) = Map.empty"
    "Engine_Create os_ok 0 t moving_session = (t', None)"
proof -
  obtain e :: engine where e: "log_holds (en_walDir e) (en_wal e) []" "\<not> W_closed (en_wal e)" "unat (W_segmentID (en_wal e)) = 1"
    "wc_Cipher (W_cfg (en_wal e)) = None" "store_inv (en_store e)" "store_abs (en_store e) = Map.empty"
    "st_maxSessionsPerUser (en_store e) = DefaultMaxSessionsPerUser"
    by (rule example_engine [of "\<lambda>_. 0" "\<lambda>_. 0" "\<lambda>_. 0"]) blast
  let ?p = "\<lparr> P_Timestamp = 0, P_SessionID = ''tmss-1'', P_Version = 1, P_Session = Some moving_session, P_EncryptedSession = '''' \<rparr>"
  have "length (json_text (payload_json ?p)) \<le> 400" by code_simp
  then have l: "9 + length (json_text (payload_json ?p)) < 2 ^ 32" by (rule order_le_less_trans [OF add_left_mono]) simp
  have "entry_payload None (NewCreateEntry 0 moving_session) = Inr ?p" "wf_entry (NewCreateEntry 0 moving_session)"
    by (simp_all add: entry_payload_def NewCreateEntry_def UnixMilli_def wf_entry_def moving_session_facts)
      (simp_all add: moving_session_def)
  then obtain f where "encodeEntryFrame (wc_Cipher (W_cfg (en_wal e))) (NewCreateEntry 0 moving_session) = Inr f"
    using encode_fits l e(4) by metis
  moreover have "unat (W_segmentID (en_wal e)) + 1 < 2 ^ 64" using e(3) by simp
  ultimately obtain d w where a: "Writer_Append os_ok (en_walDir e) (en_wal e) (NewCreateEntry 0 moving_session) = (d, w, None)"
    using Writer_Append_ok [OF e(1,2)] by metis
  obtain st r where c: "Store_Create (en_store e) moving_session = (st, r)" by fastforce
  then have "r = None"
    using Store_Create_refines(2) [OF e(5) c] e(6,7) moving_session_facts by (simp add: a_Create_def user_ids_def token_used_def)
  then have "\<exists>t'. Engine_Create os_ok 0 e moving_session = (t', None)" using a c by (simp add: Engine_Create_def log_then_def)
  then show ?thesis using that e(5,6) by blast
qed

definition quick_config :: rebalance_config where
  "quick_config = DefaultRebalanceConfig \<lparr> rc_MinTTL := 50 * Millisecond \<rparr>"

definition reliable_rpc :: migration_rpc where
  "reliable_rpc = \<lparr> rpc_client = (\<lambda>_. None), rpc_WaitN = (\<lambda>_ _ _ _. None), rpc_Send = (\<lambda>_ _. None),
     rpc_CloseAndReceive = (\<lambda>_. Inr True) \<rparr>"

lemma moving_migrates: "migrates quick_config 0 0 moving_session"
  by (simp add: migrates_def moving_session_facts quick_config_def DefaultRebalanceConfig_def)
    (simp add: moving_session_def Session_IsExpired_def UnixMilli_def Milliseconds_def go_div_def i64_def)

lemma moving_items:
  assumes "store_inv st" "store_abs st = [''tmss-1'' \<mapsto> moving_session]"
  shows "Cmap_Items (st_sessions st) = [(''tmss-1'', moving_session)]"
proof -
  note inv = store_invD(1) [OF assms(1)]
  have s: "set (Cmap_Items (st_sessions st)) = {(''tmss-1'', moving_session)}"
    using Cmap_Items_mem [OF inv] assms(2) by (auto simp: store_abs_def fun_eq_iff split: if_splits)
  have "distinct (Cmap_Items (st_sessions st))" using Cmap_Items_wf [OF inv] by (simp add: gm_wf_def distinct_map)
  with s show ?thesis
    by (cases "Cmap_Items (st_sessions st)") (auto simp: insert_eq_iff subset_singleton_iff)
qed

theorem migrated_sessions_arrive_witness:
  "\<exists>e t t' resp. Handler_TransferShard (\<lambda>_. os_ok) 0
      (sc_sent (Engine_Scan e (migrate_session reliable_rpc quick_config 0 0) scan_zero)) None (Some t) =
      (Some t', Inr resp) \<and> store_abs (en_store t) = Map.empty \<and>
    store_abs (en_store t') ''tmss-1'' = Some moving_session"
proof -
  obtain e :: engine where e: "store_inv (en_store e)" "store_abs (en_store e) = [''tmss-1'' \<mapsto> moving_session]"
    by (rule moving_engine)
  obtain t t' :: engine where t: "store_inv (en_store t)" "store_abs (en_store t) = Map.empty"
    "Engine_Create os_ok 0 t moving_session = (t', None)" by (rule moving_create)
  have w: "\<And>r b n k. rpc_WaitN reliable_rpc r b n k = None" "\<And>xs x. rpc_Send reliable_rpc xs x = None"
    by (simp_all add: reliable_rpc_def)
  have "sc_sent (Engine_Scan e (migrate_session reliable_rpc quick_config 0 0) scan_zero) = [request_of 0 moving_session]"
    unfolding Engine_Scan_items
    by (subst scan_sends [OF w]) (simp add: moving_items [OF e] moving_migrates scan_zero_def)
  then have h: "Handler_TransferShard (\<lambda>_. os_ok) 0
      (sc_sent (Engine_Scan e (migrate_session reliable_rpc quick_config 0 0) scan_zero)) None (Some t) =
      (Some t', Inr \<lparr> tsr_Success = True, tsr_TransferredItems = 1 \<rparr>)"
    using t(3) by (simp add: Handler_TransferShard_def request_decodes moving_session_facts)
  have "\<forall>sess \<in> ran (store_abs (en_store e)). session_json_ok sess" using e(2) moving_session_facts(4) by simp
  from migrated_sessions_arrive [OF e(1) t(1) this w h] show ?thesis
    using h t(2) e(2) moving_migrates moving_session_facts(5) by fastforce
qed

theorem cleanup_never_returns_witness:
  "\<exists>e. store_abs (en_store e) = [''tmss-1'' \<mapsto> moving_session] \<and>
     cleanupShardData (\<lambda>_. os_ok) 0 (NewRebalanceManager DefaultRebalanceConfig (Some e)) 0 = None"
proof -
  obtain e :: engine where e: "store_inv (en_store e)" "store_abs (en_store e) = [''tmss-1'' \<mapsto> moving_session]"
    "log_holds (en_walDir e) (en_wal e) []" "\<not> W_closed (en_wal e)" "unat (W_segmentID (en_wal e)) = 1"
    "wc_Cipher (W_cfg (en_wal e)) = None"
    by (rule moving_engine)
  let ?p = "\<lparr> P_Timestamp = 0, P_SessionID = ''tmss-1'', P_Version = 0, P_Session = None, P_EncryptedSession = '''' \<rparr>"
  have "length (json_text (payload_json ?p)) \<le> 100" by code_simp
  then have l: "9 + length (json_text (payload_json ?p)) < 2 ^ 32" by (rule order_le_less_trans [OF add_left_mono]) simp
  have "entry_payload None (NewDeleteEntry 0 ''tmss-1'') = Inr ?p" "wf_entry (NewDeleteEntry 0 ''tmss-1'')"
    by (simp_all add: entry_payload_def NewDeleteEntry_def UnixMilli_def wf_entry_def)
  then obtain f where "encodeEntryFrame (wc_Cipher (W_cfg (en_wal e))) (NewDeleteEntry 0 ''tmss-1'') = Inr f"
    using encode_fits l e(6) by metis
  moreover have "unat (W_segmentID (en_wal e)) + 1 < 2 ^ 64" using e(5) by simp
  ultimately obtain d w where "Writer_Append os_ok (en_walDir e) (en_wal e) (NewDeleteEntry 0 ''tmss-1'') = (d, w, None)"
    using Writer_Append_ok [OF e(3,4)] by metis
  then have "cleanupShardData (\<lambda>_. os_ok) 0 (NewRebalanceManager DefaultRebalanceConfig (Some e)) 0 = None"
    using cleanup_never_returns [OF e(1), of "NewRebalanceManager DefaultRebalanceConfig (Some e)" "\<lambda>_. os_ok" 0 0] e(2) moving_session_facts(2)
    by (auto simp: NewRebalanceManager_def split: if_splits)
  then show ?thesis using e(2) by blast
qed

end
