(* ===== verification/Cluster_Raft.thy ===== *)
theory Cluster_Raft
  imports Cluster_FSM
begin

text \<open>
  The node of the consensus group, \<open>internal/server/clusterserver/raft.go\<close>: how it is put together from a
  transport, two BoltDB stores and a Raft instance, how it is taken apart again when a step fails or when it is
  closed, and the calls that the server makes on it.

  \<open>hashicorp/raft\<close> and \<open>raft-boltdb\<close> are packages of their own and parameters: \<open>raft_setup\<close> holds the
  outcomes of the calls that build a node, \<open>raft_lib\<close> the calls on the instance, which act on the library's state
  of a type that is left open. A call reports the entries of the log which this node applied to its state machine until
  the call returned. The state machine answers nil to every entry, so \<open>Response\<close> never is an error. The adapter
  of the loggers is left out.
\<close>

section \<open>The library\<close>

text \<open>Leader address and identifier are reported together. The configuration lists identifiers and addresses.\<close>

record 'r raft_lib =
  lib_Apply :: "'r \<Rightarrow> bytes \<Rightarrow> int \<Rightarrow> 'r \<times> bytes list \<times> go_error option"
  lib_AddVoter :: "'r \<Rightarrow> string \<Rightarrow> string \<Rightarrow> int \<Rightarrow> 'r \<times> bytes list \<times> go_error option"
  lib_RemoveServer :: "'r \<Rightarrow> string \<Rightarrow> int \<Rightarrow> 'r \<times> bytes list \<times> go_error option"
  lib_IsLeader :: "'r \<Rightarrow> bool"
  lib_LeaderWithID :: "'r \<Rightarrow> string \<times> string"
  lib_Snapshot :: "'r \<Rightarrow> 'r \<times> go_error option"
  lib_GetConfiguration :: "'r \<Rightarrow> go_error + (string \<times> string) list"
  lib_Stats :: "'r \<Rightarrow> (string, string) gomap"
  lib_Shutdown :: "'r \<Rightarrow> 'r \<times> go_error option"

text \<open>What a node holds open.\<close>

datatype raft_resource = Transport | LogStore | StableStore | RaftInstance

definition release :: "raft_resource list \<Rightarrow> raft_resource list \<Rightarrow> raft_resource list" where
  "release closed opened = foldl (\<lambda>xs x. removeAll x xs) opened closed"

section \<open>Configuration and state\<close>

record raft_config =
  rf_NodeID :: string
  rf_BindAddr :: string
  rf_DataDir :: string
  rf_Bootstrap :: bool
  rf_TransportTimeout :: int

record 'r raft_node =
  rn_raft :: 'r
  rn_open :: "raft_resource list"
  rn_leaderChClosed :: bool

text \<open>The outcomes of making the directory, resolving the address, opening the transport, the two stores and the
  snapshot store, creating the instance in its first state, the entries of the log which it applied while it started, and of
  bootstrapping.\<close>

record 'r raft_setup =
  rs_MkdirAll :: "go_error option"
  rs_ResolveTCPAddr :: "go_error option"
  rs_NewTCPTransport :: "int \<Rightarrow> go_error option"
  rs_NewLogStore :: "go_error option"
  rs_NewStableStore :: "go_error option"
  rs_NewFileSnapshotStore :: "go_error option"
  rs_NewRaft :: "go_error + 'r \<times> bytes list"
  rs_BootstrapCluster :: "'r \<Rightarrow> string \<Rightarrow> 'r \<times> go_error option"

section \<open>Closing\<close>

text \<open>A failing shutdown is logged and the rest is closed all the same; closing the channel of the leader
  notifications a second time panics. What fails to close is logged, and counts as closed.\<close>

definition RaftNode_Close :: "'r raft_lib \<Rightarrow> 'r raft_node \<Rightarrow> 'r raft_node option" where
  "RaftNode_Close lib n =
     (if rn_leaderChClosed n then None
      else Some \<lparr> rn_raft = fst (lib_Shutdown lib (rn_raft n)),
                  rn_open = release [RaftInstance, StableStore, LogStore, Transport] (rn_open n),
                  rn_leaderChClosed = True \<rparr>)"

section \<open>Creation\<close>

text \<open>The last steps, with transport and stores open: the instance and its bootstrap.\<close>

definition start_raft ::
  "'r raft_lib \<Rightarrow> 'r raft_setup \<Rightarrow> raft_config \<Rightarrow> (raft_resource list \<times> bytes list \<times> (go_error + 'r raft_node)) option" where
  "start_raft lib su cfg =
     (case rs_NewRaft su of
        Inl err \<Rightarrow> Some (release [StableStore, LogStore, Transport] [Transport, LogStore, StableStore], [],
                         Inl (WrapError ''create raft'' err))
      | Inr (r, entries) \<Rightarrow>
          (let node = \<lparr> rn_raft = r, rn_open = [Transport, LogStore, StableStore, RaftInstance], rn_leaderChClosed = False \<rparr> in
           if rf_Bootstrap cfg then
             (case rs_BootstrapCluster su r (rf_NodeID cfg) of
                (r', Some err) \<Rightarrow>
                  map_option (\<lambda>n. (rn_open n, entries, Inl (WrapError ''bootstrap cluster'' err)))
                    (RaftNode_Close lib (node \<lparr> rn_raft := r' \<rparr>))
              | (r', None) \<Rightarrow> Some (rn_open node, entries, Inr (node \<lparr> rn_raft := r' \<rparr>)))
           else Some (rn_open node, entries, Inr node)))"

text \<open>The result: what is open afterwards, the entries applied, and the node or the error.\<close>

definition NewRaftNode ::
  "'r raft_lib \<Rightarrow> 'r raft_setup \<Rightarrow> raft_config \<Rightarrow> (raft_resource list \<times> bytes list \<times> (go_error + 'r raft_node)) option" where
  "NewRaftNode lib su cfg =
     (if rf_DataDir cfg = '''' then Some ([], [], Inl (PlainError ''raft: data_dir is required''))
      else
        (let timeout = (if rf_TransportTimeout cfg = 0 then 10 * Second else rf_TransportTimeout cfg) in
     case rs_MkdirAll su of
       Some err \<Rightarrow> Some ([], [], Inl (WrapError ''create data dir'' err))
     | None \<Rightarrow>
     (case rs_ResolveTCPAddr su of
        Some err \<Rightarrow> Some ([], [], Inl (WrapError ''resolve bind addr'' err))
      | None \<Rightarrow>
     (case rs_NewTCPTransport su timeout of
        Some err \<Rightarrow> Some ([], [], Inl (WrapError ''create transport'' err))
      | None \<Rightarrow>
     (case rs_NewLogStore su of
        Some err \<Rightarrow> Some (release [Transport] [Transport], [], Inl (WrapError ''create log store'' err))
      | None \<Rightarrow>
     (case rs_NewStableStore su of
        Some err \<Rightarrow> Some (release [LogStore, Transport] [Transport, LogStore], [], Inl (WrapError ''create stable store'' err))
      | None \<Rightarrow>
     (case rs_NewFileSnapshotStore su of
        Some err \<Rightarrow> Some (release [StableStore, LogStore, Transport] [Transport, LogStore, StableStore], [],
                         Inl (WrapError ''create snapshot store'' err))
      | None \<Rightarrow> start_raft lib su cfg)))))))"

section \<open>Calls\<close>

definition node_result :: "'r raft_node \<Rightarrow> string \<Rightarrow> 'r \<times> bytes list \<times> go_error option \<Rightarrow> 'r raft_node \<times> bytes list \<times> go_error option" where
  "node_result n what = (\<lambda>(r, entries, err). (n \<lparr> rn_raft := r \<rparr>, entries, map_option (WrapError what) err))"

definition RaftNode_Apply :: "'r raft_lib \<Rightarrow> 'r raft_node \<Rightarrow> bytes \<Rightarrow> int \<Rightarrow> 'r raft_node \<times> bytes list \<times> go_error option" where
  "RaftNode_Apply lib n dat timeout = node_result n ''raft apply'' (lib_Apply lib (rn_raft n) dat timeout)"

definition RaftNode_AddVoter ::
  "'r raft_lib \<Rightarrow> 'r raft_node \<Rightarrow> string \<Rightarrow> string \<Rightarrow> int \<Rightarrow> 'r raft_node \<times> bytes list \<times> go_error option" where
  "RaftNode_AddVoter lib n nodeID addr timeout =
     node_result n ''add voter'' (lib_AddVoter lib (rn_raft n) nodeID addr timeout)"

definition RaftNode_RemoveServer ::
  "'r raft_lib \<Rightarrow> 'r raft_node \<Rightarrow> string \<Rightarrow> int \<Rightarrow> 'r raft_node \<times> bytes list \<times> go_error option" where
  "RaftNode_RemoveServer lib n nodeID timeout =
     node_result n ''remove server'' (lib_RemoveServer lib (rn_raft n) nodeID timeout)"

definition RaftNode_IsLeader :: "'r raft_lib \<Rightarrow> 'r raft_node \<Rightarrow> bool" where
  "RaftNode_IsLeader lib n = lib_IsLeader lib (rn_raft n)"

definition RaftNode_Leader :: "'r raft_lib \<Rightarrow> 'r raft_node \<Rightarrow> string" where
  "RaftNode_Leader lib n = fst (lib_LeaderWithID lib (rn_raft n))"

definition RaftNode_LeaderID :: "'r raft_lib \<Rightarrow> 'r raft_node \<Rightarrow> string" where
  "RaftNode_LeaderID lib n = snd (lib_LeaderWithID lib (rn_raft n))"

definition RaftNode_Snapshot :: "'r raft_lib \<Rightarrow> 'r raft_node \<Rightarrow> 'r raft_node \<times> go_error option" where
  "RaftNode_Snapshot lib n =
     (case lib_Snapshot lib (rn_raft n) of (r, err) \<Rightarrow> (n \<lparr> rn_raft := r \<rparr>, map_option (WrapError ''snapshot'') err))"

definition RaftNode_GetConfiguration :: "'r raft_lib \<Rightarrow> 'r raft_node \<Rightarrow> go_error + (string \<times> string) list" where
  "RaftNode_GetConfiguration lib n = map_sum (WrapError ''get configuration'') id (lib_GetConfiguration lib (rn_raft n))"

definition RaftNode_Stats :: "'r raft_lib \<Rightarrow> 'r raft_node \<Rightarrow> (string, string) gomap" where
  "RaftNode_Stats lib n = lib_Stats lib (rn_raft n)"

section \<open>Nothing stays open after a failure\<close>

lemma release_all: "release [RaftInstance, StableStore, LogStore, Transport] xs = []"
proof -
  have "set (release cs xs) = set xs - set cs" for cs by (induction cs arbitrary: xs) (auto simp: release_def)
  moreover have "x \<in> set [RaftInstance, StableStore, LogStore, Transport]" for x by (cases x) simp_all
  ultimately have "set (release [RaftInstance, StableStore, LogStore, Transport] xs) = {}" by (auto simp del: list.set)
  then show ?thesis by (simp only: set_empty)
qed

lemma RaftNode_Close_open:
  "RaftNode_Close lib n = Some n' \<Longrightarrow> rn_open n' = [] \<and> rn_leaderChClosed n' \<and> \<not> rn_leaderChClosed n"
  by (auto simp: RaftNode_Close_def release_all split: if_splits)

lemma RaftNode_Close_again: "RaftNode_Close lib n = Some n' \<Longrightarrow> RaftNode_Close lib n' = None"
  by (auto simp: RaftNode_Close_def split: if_splits)

lemma start_raft_resources:
  obtains es err where "start_raft lib su cfg = Some ([], es, Inl err)"
  | es n where "start_raft lib su cfg = Some (rn_open n, es, Inr n)" "\<not> rn_leaderChClosed n"
proof (cases "\<exists>err. rs_NewRaft su = Inl err")
  case True
  then show ?thesis using that(1) by (auto simp: start_raft_def release_def)
next
  case False
  then obtain r es where r: "rs_NewRaft su = Inr (r, es)" by (cases "rs_NewRaft su") auto
  let ?n = "\<lparr> rn_raft = r, rn_open = [Transport, LogStore, StableStore, RaftInstance], rn_leaderChClosed = False \<rparr>"
  show ?thesis
  proof (cases "rf_Bootstrap cfg")
    case False
    then show ?thesis using that(2) [of ?n es] r by (simp add: start_raft_def)
  next
    case boot: True
    obtain r' err where b: "rs_BootstrapCluster su r (rf_NodeID cfg) = (r', err)" by fastforce
    obtain n' where n': "RaftNode_Close lib (?n \<lparr> rn_raft := r' \<rparr>) = Some n'" by (simp add: RaftNode_Close_def)
    show ?thesis
    proof (cases err)
      case None
      then show ?thesis using that(2) [of "?n \<lparr> rn_raft := r' \<rparr>" es] r b boot by (simp add: start_raft_def)
    next
      case (Some e)
      then show ?thesis using that(1) r b boot n' RaftNode_Close_open [OF n'] by (simp add: start_raft_def)
    qed
  qed
qed

lemma NewRaftNode_resources:
  obtains es err where "NewRaftNode lib su cfg = Some ([], es, Inl err)"
  | es n where "NewRaftNode lib su cfg = Some (rn_open n, es, Inr n)" "\<not> rn_leaderChClosed n"
proof -
  have "NewRaftNode lib su cfg = start_raft lib su cfg \<or> (\<exists>err. NewRaftNode lib su cfg = Some ([], [], Inl err))"
    by (simp add: NewRaftNode_def Let_def release_def split: option.split)
  then show ?thesis
  proof
    assume eq: "NewRaftNode lib su cfg = start_raft lib su cfg"
    show ?thesis by (rule start_raft_resources [of lib su cfg]) (use that eq in simp_all)
  next
    assume "\<exists>err. NewRaftNode lib su cfg = Some ([], [], Inl err)"
    then show ?thesis using that(1) by blast
  qed
qed

end
