(* ===== verification/Cluster_Discovery.thy ===== *)
theory Cluster_Discovery
  imports Cluster_FSM
begin

text \<open>
  Finding the other nodes by gossip, \<open>internal/server/clusterserver/discovery.go\<close>: what a node tells the others of
  itself, and what it makes of the notices about them.

  \<open>hashicorp/memberlist\<close> is a package of its own: the outcomes of its calls are arguments, and its notices are
  inputs, with the text of the IP address that it hands over. The callbacks that a discovery has are those of the server or
  none. Log lines and the adapter of the logger are left out.
\<close>

section \<open>What a node tells of itself\<close>

record node_metadata =
  nmd_RaftAddr :: string
  nmd_ClusterID :: string

definition node_metadata_json :: "node_metadata \<Rightarrow> json" where
  "node_metadata_json m = JObj [(''raft_addr'', JStr (nmd_RaftAddr m)), (''cluster_id'', JStr (nmd_ClusterID m))]"

definition node_metadata_field :: "string \<Rightarrow> json \<Rightarrow> node_metadata \<Rightarrow> go_error + node_metadata" where
  "node_metadata_field n v m =
     (if n = ''raft_addr'' then map_sum id (\<lambda>x. m \<lparr> nmd_RaftAddr := x \<rparr>) (dec_string v (nmd_RaftAddr m))
      else map_sum id (\<lambda>x. m \<lparr> nmd_ClusterID := x \<rparr>) (dec_string v (nmd_ClusterID m)))"

definition json_Unmarshal_metadata :: "bytes \<Rightarrow> go_error + node_metadata" where
  "json_Unmarshal_metadata = json_Unmarshal (\<lambda>v. dec_struct [''raft_addr'', ''cluster_id''] node_metadata_field v
     \<lparr> nmd_RaftAddr = '''', nmd_ClusterID = '''' \<rparr>)"

text \<open>A document that is too long is cut off.\<close>

definition NodeMeta :: "node_metadata \<Rightarrow> nat \<Rightarrow> bytes" where
  "NodeMeta m limit =
     (case json_Marshal (node_metadata_json m) of
        Inl err \<Rightarrow> []
      | Inr dat \<Rightarrow> if length dat > limit then take limit dat else dat)"

section \<open>Life cycle\<close>

record discovery_config =
  dc_NodeID :: string
  dc_ClusterID :: string
  dc_BindAddr :: string
  dc_BindPort :: int
  dc_RaftAddr :: string
  dc_SeedNodes :: "string list"

record discovery =
  d_clusterID :: string
  d_metadata :: "node_metadata option"
  d_shutdown :: bool
  d_running :: bool
  d_callbacks :: bool

record discovery_setup =
  ds_Create :: "go_error option"
  ds_Join :: "string list \<Rightarrow> go_error + int"

text \<open>The member list runs while the discovery exists and is not shut down; when joining fails it is shut down
  at once.\<close>

definition NewDiscovery :: "discovery_setup \<Rightarrow> discovery_config \<Rightarrow> go_error + discovery" where
  "NewDiscovery ds cfg =
     (let metadata = (if dc_RaftAddr cfg \<noteq> '''' \<or> dc_ClusterID cfg \<noteq> ''''
                      then Some \<lparr> nmd_RaftAddr = dc_RaftAddr cfg, nmd_ClusterID = dc_ClusterID cfg \<rparr> else None);
          d = \<lparr> d_clusterID = dc_ClusterID cfg, d_metadata = metadata, d_shutdown = False, d_running = True,
                d_callbacks = False \<rparr>
      in case ds_Create ds of
           Some err \<Rightarrow> Inl (WrapError ''create memberlist'' err)
         | None \<Rightarrow>
             if length (dc_SeedNodes cfg) > 0 then
               (case ds_Join ds (dc_SeedNodes cfg) of
                  Inl err \<Rightarrow> Inl (WrapError ''join seed nodes'' err)
                | Inr n \<Rightarrow> Inr d)
             else Inr d)"

definition Discovery_Shutdown :: "go_error option \<Rightarrow> discovery \<Rightarrow> discovery \<times> go_error option" where
  "Discovery_Shutdown outcome d =
     (if d_shutdown d then (d, None)
      else
        (case outcome of
           Some err \<Rightarrow> (d \<lparr> d_shutdown := True \<rparr>, Some (WrapError ''shutdown memberlist'' err))
         | None \<Rightarrow> (d \<lparr> d_shutdown := True, d_running := False \<rparr>, None)))"

section \<open>Notices\<close>

record ml_node =
  nd_Name :: string
  nd_Addr :: string
  nd_Port :: nat
  nd_Meta :: bytes

definition JoinHostPort :: "string \<Rightarrow> string \<Rightarrow> string" where
  "JoinHostPort host port =
     (if CHR '':'' \<in> set host then ''['' @ host @ '']:'' @ port else host @ '':'' @ port)"

text \<open>The address that the callback gets for a node that joined, or nothing when the node is refused.\<close>

definition NotifyJoin :: "discovery \<Rightarrow> ml_node \<Rightarrow> string option" where
  "NotifyJoin d node =
     (let gossipAddr = JoinHostPort (nd_Addr node) (FormatInt (int (nd_Port node))) in
      case (if length (nd_Meta node) > 0 then json_Unmarshal_metadata (nd_Meta node)
            else Inr \<lparr> nmd_RaftAddr = '''', nmd_ClusterID = '''' \<rparr>) of
        Inl err \<Rightarrow> None
      | Inr metadata \<Rightarrow>
          if d_clusterID d \<noteq> '''' \<and> nmd_ClusterID metadata \<noteq> '''' \<and> nmd_ClusterID metadata \<noteq> d_clusterID d then None
          else Some (if nmd_RaftAddr metadata = '''' then gossipAddr else nmd_RaftAddr metadata))"

section \<open>What is told arrives\<close>

lemma NodeMeta_decodes:
  assumes "utf8_ValidString (nmd_RaftAddr m)" "utf8_ValidString (nmd_ClusterID m)"
    and "length (json_text (node_metadata_json m)) \<le> limit"
  shows "json_Unmarshal_metadata (NodeMeta m limit) = Inr m" "NodeMeta m limit \<noteq> []"
proof -
  have ok: "json_ok (node_metadata_json m)" "json_depth (node_metadata_json m) \<le> maxNestingDepth"
    using assms(1,2) by (simp_all add: node_metadata_json_def)
  have dec: "dec_struct [''raft_addr'', ''cluster_id''] node_metadata_field (node_metadata_json m)
      \<lparr> nmd_RaftAddr = '''', nmd_ClusterID = '''' \<rparr> = Inr m"
    by (simp add: node_metadata_json_def dec_struct_def find_field_def node_metadata_field_def)
  have eq: "NodeMeta m limit = bytes_of_string (json_text (node_metadata_json m))"
    using assms(3) json_roundtrip(1) [OF ok] by (simp add: NodeMeta_def)
  show "json_Unmarshal_metadata (NodeMeta m limit) = Inr m"
    unfolding eq json_Unmarshal_metadata_def json_roundtrip(2) [OF ok] by (rule dec)
  show "NodeMeta m limit \<noteq> []" unfolding eq by (simp add: node_metadata_json_def json_text_def)
qed

text \<open>The notice about a node carries the metadata of its configuration.\<close>

lemma NotifyJoin_advertised:
  assumes "utf8_ValidString (nmd_RaftAddr m)" "utf8_ValidString (nmd_ClusterID m)"
    and "length (json_text (node_metadata_json m)) \<le> limit" "nd_Meta node = NodeMeta m limit"
  shows "NotifyJoin d node =
    (if d_clusterID d \<noteq> '''' \<and> nmd_ClusterID m \<noteq> '''' \<and> nmd_ClusterID m \<noteq> d_clusterID d then None
     else Some (if nmd_RaftAddr m = '''' then JoinHostPort (nd_Addr node) (FormatInt (int (nd_Port node))) else nmd_RaftAddr m))"
  using NodeMeta_decodes [OF assms(1-3)] assms(4) by (simp add: NotifyJoin_def Let_def)

end
