(* ===== verification/Cluster_Server.thy ===== *)
theory Cluster_Server
  imports Rebalance Cluster_Raft Cluster_Discovery
begin

text \<open>
  The cluster server, \<open>internal/server/clusterserver/server.go\<close>, and the handlers of its RPC service in
  \<open>handler.go\<close> (the stream handler \<open>TransferShard\<close> is in \<open>Rebalance\<close>): configuration, start and stop,
  changes of the membership and of the shard map through Raft, the reaction to gossip and to changes of the leader, and
  the checks of the cluster's health.

  The state machine is shared with Raft, which applies entries to it during any of its calls. The storage engine is shared
  with the rebalance manager, which holds it in the model; a manager exists exactly when there is storage. Goroutines are
  operations of their own. Of the log lines, the warnings about the health of the cluster are kept. A panic is
  \<open>None\<close>.
\<close>

section \<open>Configuration\<close>

record timeout_config =
  to_RaftApply :: int
  to_RaftMembership :: int
  to_RaftTransport :: int
  to_StreamingRPC :: int
  to_WaitLeader :: int
  to_Rebalance :: int

text \<open>Of the TLS configuration it matters whether there is one. The storage of the configuration is read only when the
  server is made.\<close>

record cluster_config =
  cc_NodeID :: string
  cc_ClusterID :: string
  cc_RaftBindAddr :: string
  cc_GossipBindAddr :: string
  cc_GossipBindPort :: int
  cc_Bootstrap :: bool
  cc_SeedNodes :: "string list"
  cc_RaftDataDir :: string
  cc_ReplicationFactor :: int
  cc_Storage :: "engine option"
  cc_Rebalance :: rebalance_config
  cc_TLSConfig :: bool
  cc_Timeouts :: timeout_config

definition default_timeouts :: "timeout_config \<Rightarrow> timeout_config" where
  "default_timeouts t =
     \<lparr> to_RaftApply = (if to_RaftApply t = 0 then 5 * Second else to_RaftApply t),
       to_RaftMembership = (if to_RaftMembership t = 0 then 10 * Second else to_RaftMembership t),
       to_RaftTransport = (if to_RaftTransport t = 0 then 10 * Second else to_RaftTransport t),
       to_StreamingRPC = (if to_StreamingRPC t = 0 then 600 * Second else to_StreamingRPC t),
       to_WaitLeader = (if to_WaitLeader t = 0 then 10 * Second else to_WaitLeader t),
       to_Rebalance = (if to_Rebalance t = 0 then 1800 * Second else to_Rebalance t) \<rparr>"

definition Config_validate :: "cluster_config \<Rightarrow> go_error + cluster_config" where
  "Config_validate cfg =
     (if cc_NodeID cfg = '''' then Inl (PlainError ''node_id is required'')
      else if cc_RaftBindAddr cfg = '''' then Inl (PlainError ''raft_bind_addr is required'')
      else if cc_GossipBindAddr cfg = '''' then Inl (PlainError ''gossip_bind_addr is required'')
      else if cc_GossipBindPort cfg = 0 then Inl (PlainError ''gossip_bind_port is required'')
      else if cc_RaftDataDir cfg = '''' then Inl (PlainError ''raft_data_dir is required'')
      else if cc_Bootstrap cfg \<and> length (cc_SeedNodes cfg) > 0 then
        Inl (PlainError ''bootstrap mode should not specify seed_nodes (mutually exclusive)'')
      else
        (let cfg = (if cc_ReplicationFactor cfg < 1 then cfg \<lparr> cc_ReplicationFactor := 1 \<rparr> else cfg) in
         if cc_ReplicationFactor cfg > 7 then
           Inl (PlainError (''replication_factor must be 1-7, got '' @ FormatInt (cc_ReplicationFactor cfg) @
                            '' (higher values may impact performance)''))
         else if rc_ConcurrentShards (cc_Rebalance cfg) > 0 \<and> cc_Storage cfg = None then
           Inl (PlainError ''storage is required when rebalance is enabled (rebalance.concurrent_shards > 0)'')
         else Inr (cfg \<lparr> cc_Timeouts := default_timeouts (cc_Timeouts cfg) \<rparr>)))"

section \<open>State\<close>

datatype health_warning =
    EvenNodes nat
  | ReplicationSkipped
  | ShardUnassigned u32
  | UnderReplicated u32 string nat
  | ReplicationDegraded nat nat nat

text \<open>\<open>cs_rebalances\<close> are the rebalances that wait for the cluster to settle, with the map that each was
  given.\<close>

record 'r cluster_server =
  cs_raft :: "'r raft_node option"
  cs_discovery :: "discovery option"
  cs_fsm :: fsm
  cs_shardMap :: shard_map
  cs_rebalanceManager :: "rebalance_manager option"
  cs_config :: cluster_config
  cs_isLeader :: bool
  cs_leaderAddr :: string
  cs_leaderID :: string
  cs_stopped :: bool
  cs_done :: bool
  cs_rebalances :: "shard_map list"
  cs_warnings :: "health_warning list"

definition ErrNotLeader :: go_error where
  "ErrNotLeader = PlainError ''clusterserver: not the leader''"

definition cs_storage :: "'r cluster_server \<Rightarrow> engine option" where
  "cs_storage s = Option.bind (cs_rebalanceManager s) rm_storage"

definition NewServer :: "cluster_config \<Rightarrow> go_error + 'r cluster_server" where
  "NewServer cfg =
     (case Config_validate cfg of
        Inl err \<Rightarrow> Inl (WrapError ''invalid config'' err)
      | Inr cfg \<Rightarrow>
          Inr \<lparr> cs_raft = None, cs_discovery = None, cs_fsm = NewFSM, cs_shardMap = NewShardMap,
                cs_rebalanceManager =
                  (if cc_Storage cfg \<noteq> None then Some (NewRebalanceManager (cc_Rebalance cfg) (cc_Storage cfg)) else None),
                cs_config = cfg, cs_isLeader = False, cs_leaderAddr = '''', cs_leaderID = '''', cs_stopped = False,
                cs_done = False, cs_rebalances = [], cs_warnings = [] \<rparr>)"

section \<open>Reading\<close>

definition Server_IsLeader :: "'r cluster_server \<Rightarrow> bool" where
  "Server_IsLeader s = cs_isLeader s"

definition Server_Leader :: "'r cluster_server \<Rightarrow> string \<times> string" where
  "Server_Leader s = (cs_leaderID s, cs_leaderAddr s)"

definition Server_GetShardMap :: "'r cluster_server \<Rightarrow> shard_map option" where
  "Server_GetShardMap s = FSM_GetShardMap (cs_fsm s)"

definition Server_GetMembers :: "'r cluster_server \<Rightarrow> (string, member) gomap option" where
  "Server_GetMembers s = FSM_GetMembers (cs_fsm s)"

definition GetShardOwner :: "'r cluster_server \<Rightarrow> u32 \<Rightarrow> string option option" where
  "GetShardOwner s shardID = map_option (\<lambda>m. GetShard m shardID) (FSM_GetShardMap (cs_fsm s))"

definition GetKeyOwner :: "murmur \<Rightarrow> 'r cluster_server \<Rightarrow> string \<Rightarrow> (u32 \<times> string option) option" where
  "GetKeyOwner H s key = map_option (\<lambda>m. GetShardForKey H m key) (FSM_GetShardMap (cs_fsm s))"

record cluster_stats =
  stat_NodeID :: string
  stat_IsLeader :: bool
  stat_LeaderID :: string
  stat_LeaderAddr :: string
  stat_MemberCount :: nat
  stat_ShardMapStats :: shard_map_stats
  stat_RaftStats :: "(string, string) gomap option"

definition Server_GetStats :: "'r raft_lib \<Rightarrow> 'r cluster_server \<Rightarrow> cluster_stats option" where
  "Server_GetStats lib s =
     (case FSM_GetShardMap (cs_fsm s) of
        None \<Rightarrow> None
      | Some shardMap \<Rightarrow>
          (case FSM_GetMembers (cs_fsm s) of
             None \<Rightarrow> None
           | Some members \<Rightarrow>
               Some \<lparr> stat_NodeID = cc_NodeID (cs_config s), stat_IsLeader = cs_isLeader s, stat_LeaderID = cs_leaderID s,
                      stat_LeaderAddr = cs_leaderAddr s, stat_MemberCount = length members,
                      stat_ShardMapStats = ShardMap_GetStats shardMap,
                      stat_RaftStats = map_option (RaftNode_Stats lib) (cs_raft s) \<rparr>))"

section \<open>Changes through Raft\<close>

text \<open>A call on the Raft node, which panics when there is none, and the entries that it applies meanwhile.\<close>

definition raft_call ::
  "'r cluster_server \<Rightarrow> ('r raft_node \<Rightarrow> 'r raft_node \<times> bytes list \<times> go_error option) \<Rightarrow>
   ('r cluster_server \<times> go_error option) option" where
  "raft_call s call =
     (case cs_raft s of
        None \<Rightarrow> None
      | Some n \<Rightarrow>
          (case call n of
             (n', entries, err) \<Rightarrow>
               map_option (\<lambda>f. (s \<lparr> cs_raft := Some n', cs_fsm := f \<rparr>, err)) (run_log FSM_Apply (cs_fsm s) entries)))"

text \<open>The three methods that submit an entry differ only in the entry.\<close>

definition apply_entry ::
  "'r raft_lib \<Rightarrow> 'r cluster_server \<Rightarrow> byte \<Rightarrow> json \<Rightarrow> ('r cluster_server \<times> go_error option) option" where
  "apply_entry lib s typ payload =
     (if \<not> Server_IsLeader s then Some (s, Some ErrNotLeader)
      else
        (case encodeLogEntry typ payload of
           Inl err \<Rightarrow> Some (s, Some (WrapError ''encode log entry'' err))
         | Inr dat \<Rightarrow>
             map_option (map_prod id (map_option (WrapError ''raft apply'')))
               (raft_call s (\<lambda>n. RaftNode_Apply lib n dat (to_RaftApply (cc_Timeouts (cs_config s)))))))"

definition ApplyShardUpdate ::
  "'r raft_lib \<Rightarrow> 'r cluster_server \<Rightarrow> u32 \<Rightarrow> string \<Rightarrow> string list \<Rightarrow> ('r cluster_server \<times> go_error option) option" where
  "ApplyShardUpdate lib s shardID nodeID replicas =
     apply_entry lib s LogEntryShardMapUpdate
       (shard_update_json \<lparr> su_ShardID = shardID, su_NodeID = nodeID, su_Replicas = replicas \<rparr>)"

definition ApplyMemberJoin ::
  "'r raft_lib \<Rightarrow> 'r cluster_server \<Rightarrow> string \<Rightarrow> string \<Rightarrow> ('r cluster_server \<times> go_error option) option" where
  "ApplyMemberJoin lib s nodeID addr =
     apply_entry lib s LogEntryMemberJoin (member_join_json \<lparr> mj_NodeID = nodeID, mj_Addr = addr \<rparr>)"

definition ApplyMemberLeave ::
  "'r raft_lib \<Rightarrow> 'r cluster_server \<Rightarrow> string \<Rightarrow> ('r cluster_server \<times> go_error option) option" where
  "ApplyMemberLeave lib s nodeID = apply_entry lib s LogEntryMemberLeave (member_leave_json \<lparr> ml_NodeID = nodeID \<rparr>)"

definition add_voter ::
  "'r raft_lib \<Rightarrow> 'r cluster_server \<Rightarrow> string \<Rightarrow> string \<Rightarrow> ('r cluster_server \<times> go_error option) option" where
  "add_voter lib s nodeID addr =
     raft_call s (\<lambda>n. RaftNode_AddVoter lib n nodeID addr (to_RaftMembership (cc_Timeouts (cs_config s))))"

definition remove_server :: "'r raft_lib \<Rightarrow> 'r cluster_server \<Rightarrow> string \<Rightarrow> ('r cluster_server \<times> go_error option) option" where
  "remove_server lib s nodeID =
     raft_call s (\<lambda>n. RaftNode_RemoveServer lib n nodeID (to_RaftMembership (cc_Timeouts (cs_config s))))"

section \<open>Health\<close>

definition warn :: "health_warning \<Rightarrow> 'r cluster_server \<Rightarrow> 'r cluster_server" where
  "warn w s = s \<lparr> cs_warnings := cs_warnings s @ [w] \<rparr>"

definition checkClusterParity :: "'r cluster_server \<Rightarrow> 'r cluster_server option" where
  "checkClusterParity s =
     map_option (\<lambda>members.
         let nodeCount = length members in
         if nodeCount mod 2 = 0 \<and> nodeCount > 0 then warn (EvenNodes nodeCount) s else s)
       (FSM_GetMembers (cs_fsm s))"

text \<open>One shard: the warning about it, if any.\<close>

definition shard_health :: "int \<Rightarrow> shard_map \<Rightarrow> u32 \<Rightarrow> health_warning option" where
  "shard_health factor m shardID =
     (case GetShard m shardID of
        None \<Rightarrow> Some (ShardUnassigned shardID)
      | Some owner \<Rightarrow>
          (let actualReplicas = (case GetReplicas m shardID of None \<Rightarrow> 0 | Some l \<Rightarrow> length l) in
           if int actualReplicas < factor then Some (UnderReplicated shardID owner actualReplicas) else None))"

definition checkReplicationHealth :: "'r raft_lib \<Rightarrow> 'r cluster_server \<Rightarrow> 'r cluster_server option" where
  "checkReplicationHealth lib s =
     (case cs_raft s of
        None \<Rightarrow> None
      | Some n \<Rightarrow>
          if \<not> RaftNode_IsLeader lib n then Some s
          else
     (case FSM_GetShardMap (cs_fsm s) of
        None \<Rightarrow> None
      | Some currentMap \<Rightarrow>
     (case FSM_GetMembers (cs_fsm s) of
        None \<Rightarrow> None
      | Some members \<Rightarrow>
          if length members = 0 then Some (warn ReplicationSkipped s)
          else
            (let shards = map of_nat [0 ..< unat cluster_DefaultShardCount];
                 warnings = List.map_filter (shard_health (cc_ReplicationFactor (cs_config s)) currentMap) shards;
                 s1 = foldl (\<lambda>s w. warn w s) s warnings;
                 underReplicated = length warnings
             in Some (if underReplicated > 0
                      then warn (ReplicationDegraded (length shards) underReplicated (length members)) s1 else s1)))))"

section \<open>Changes of the leader\<close>

definition onBecomeLeader :: "'r cluster_server \<Rightarrow> 'r cluster_server option" where
  "onBecomeLeader s =
     (case FSM_GetMembers (cs_fsm s) of
        None \<Rightarrow> None
      | Some members \<Rightarrow>
          if cs_rebalanceManager s = None then Some s
          else map_option (\<lambda>m. s \<lparr> cs_rebalances := cs_rebalances s @ [m] \<rparr>) (FSM_GetShardMap (cs_fsm s)))"

text \<open>The goroutine of a rebalance, once the cluster has settled or the server stops. Its error is logged.\<close>

definition auto_rebalance ::
  "(u32 \<Rightarrow> migration_rpc) \<Rightarrow> (u32 \<Rightarrow> string \<Rightarrow> os_calls) \<Rightarrow> (u32 list \<Rightarrow> u32 list) \<Rightarrow> int \<Rightarrow> 'r cluster_server \<Rightarrow> shard_map \<Rightarrow>
   'r cluster_server option" where
  "auto_rebalance rpc sys sched now s currentMap =
     (if cs_stopped s then Some s
      else
        (case cs_rebalanceManager s of
           None \<Rightarrow> None
         | Some rm \<Rightarrow>
             map_option (\<lambda>(rm', err). s \<lparr> cs_rebalanceManager := Some rm' \<rparr>)
               (TriggerRebalance rpc sys sched now rm currentMap currentMap)))"

definition onLoseLeadership :: "'r cluster_server \<Rightarrow> 'r cluster_server" where
  "onLoseLeadership s = s"

definition handleLeaderChange :: "'r raft_lib \<Rightarrow> 'r cluster_server \<Rightarrow> bool \<Rightarrow> 'r cluster_server option" where
  "handleLeaderChange lib s isLeader =
     (case cs_raft s of
        None \<Rightarrow> None
      | Some n \<Rightarrow>
          (let wasLeader = cs_isLeader s;
               s1 = s \<lparr> cs_isLeader := isLeader, cs_leaderAddr := RaftNode_Leader lib n, cs_leaderID := RaftNode_LeaderID lib n \<rparr>
           in if isLeader \<and> \<not> wasLeader then Option.bind (onBecomeLeader s1) checkClusterParity
              else if \<not> isLeader \<and> wasLeader then Some (onLoseLeadership s1)
              else Some s1))"

text \<open>What a monitoring loop takes from its channels.\<close>

datatype 'a loop_event = Received 'a | StopSignal

fun leaderMonitorLoop :: "'r raft_lib \<Rightarrow> bool loop_event list \<Rightarrow> 'r cluster_server \<Rightarrow> 'r cluster_server option" where
  "leaderMonitorLoop lib [] s = Some s"
| "leaderMonitorLoop lib (Received isLeader # es) s =
     Option.bind (handleLeaderChange lib s isLeader) (leaderMonitorLoop lib es)"
| "leaderMonitorLoop lib (StopSignal # es) s = Some (s \<lparr> cs_done := True \<rparr>)"

fun replicationMonitorLoop :: "'r raft_lib \<Rightarrow> unit loop_event list \<Rightarrow> 'r cluster_server \<Rightarrow> 'r cluster_server option" where
  "replicationMonitorLoop lib [] s = Some s"
| "replicationMonitorLoop lib (Received _ # es) s =
     Option.bind (checkReplicationHealth lib s) (replicationMonitorLoop lib es)"
| "replicationMonitorLoop lib (StopSignal # es) s = Some s"

section \<open>Gossip\<close>

text \<open>The callback for a node that joined.\<close>

definition discovery_onJoin :: "'r raft_lib \<Rightarrow> 'r cluster_server \<Rightarrow> string \<Rightarrow> string \<Rightarrow> 'r cluster_server option" where
  "discovery_onJoin lib s nodeID addr =
     (if \<not> Server_IsLeader s then Some s
      else
     (case add_voter lib s nodeID addr of
        None \<Rightarrow> None
      | Some (s1, Some err) \<Rightarrow> Some s1
      | Some (s1, None) \<Rightarrow>
     (case ApplyMemberJoin lib s1 nodeID addr of
        None \<Rightarrow> None
      | Some (s2, Some err) \<Rightarrow> map_option fst (remove_server lib s2 nodeID)
      | Some (s2, None) \<Rightarrow> checkClusterParity s2)))"

definition discovery_onLeave :: "'r raft_lib \<Rightarrow> 'r cluster_server \<Rightarrow> string \<Rightarrow> 'r cluster_server option" where
  "discovery_onLeave lib s nodeID =
     (if \<not> Server_IsLeader s then Some s
      else
     (case remove_server lib s nodeID of
        None \<Rightarrow> None
      | Some (s1, Some err) \<Rightarrow> Some s1
      | Some (s1, None) \<Rightarrow>
     (case ApplyMemberLeave lib s1 nodeID of
        None \<Rightarrow> None
      | Some (s2, Some err) \<Rightarrow> Some s2
      | Some (s2, None) \<Rightarrow> checkClusterParity s2)))"

text \<open>The notices of the member list.\<close>

definition gossip_join :: "'r raft_lib \<Rightarrow> 'r cluster_server \<Rightarrow> ml_node \<Rightarrow> 'r cluster_server option" where
  "gossip_join lib s node =
     (case cs_discovery s of
        None \<Rightarrow> Some s
      | Some d \<Rightarrow>
          (case NotifyJoin d node of
             None \<Rightarrow> Some s
           | Some raftAddr \<Rightarrow> if d_callbacks d then discovery_onJoin lib s (nd_Name node) raftAddr else Some s))"

definition gossip_leave :: "'r raft_lib \<Rightarrow> 'r cluster_server \<Rightarrow> ml_node \<Rightarrow> 'r cluster_server option" where
  "gossip_leave lib s node =
     (case cs_discovery s of
        None \<Rightarrow> Some s
      | Some d \<Rightarrow> if d_callbacks d then discovery_onLeave lib s (nd_Name node) else Some s)"

section \<open>Start and stop\<close>

text \<open>The ticks before the deadline, with the leader's address at each.\<close>

fun waitForLeader :: "string list \<Rightarrow> go_error option" where
  "waitForLeader [] = Some (PlainError ''timeout waiting for leader election'')"
| "waitForLeader (leader # ticks) = (if leader \<noteq> '''' then None else waitForLeader ticks)"

definition raft_config_of :: "cluster_config \<Rightarrow> raft_config" where
  "raft_config_of cfg = \<lparr> rf_NodeID = cc_NodeID cfg, rf_BindAddr = cc_RaftBindAddr cfg, rf_DataDir = cc_RaftDataDir cfg,
     rf_Bootstrap = cc_Bootstrap cfg, rf_TransportTimeout = to_RaftTransport (cc_Timeouts cfg) \<rparr>"

definition discovery_config_of :: "cluster_config \<Rightarrow> discovery_config" where
  "discovery_config_of cfg = \<lparr> dc_NodeID = cc_NodeID cfg, dc_ClusterID = cc_ClusterID cfg, dc_BindAddr = cc_GossipBindAddr cfg,
     dc_BindPort = cc_GossipBindPort cfg, dc_RaftAddr = cc_RaftBindAddr cfg, dc_SeedNodes = cc_SeedNodes cfg \<rparr>"

text \<open>What \<open>Start\<close> leaves: the server, what Raft holds open, and the error. Waiting for the leader only logs. The
  monitoring loops are operations of their own.\<close>

definition Server_Start ::
  "'r raft_lib \<Rightarrow> 'r raft_setup \<Rightarrow> discovery_setup \<Rightarrow> 'r cluster_server \<Rightarrow>
   ('r cluster_server \<times> raft_resource list \<times> go_error option) option" where
  "Server_Start lib su ds s =
     (case NewRaftNode lib su (raft_config_of (cs_config s)) of
        None \<Rightarrow> None
      | Some (opened, entries, result) \<Rightarrow>
     (case run_log FSM_Apply (cs_fsm s) entries of
        None \<Rightarrow> None
      | Some f \<Rightarrow>
     (case result of
        Inl err \<Rightarrow> Some (s \<lparr> cs_fsm := f \<rparr>, opened, Some (WrapError ''create raft node'' err))
      | Inr node \<Rightarrow>
     (case NewDiscovery ds (discovery_config_of (cs_config s)) of
        Inl err \<Rightarrow>
          map_option (\<lambda>n. (s \<lparr> cs_fsm := f, cs_raft := Some n \<rparr>, rn_open n, Some (WrapError ''create discovery'' err)))
            (RaftNode_Close lib node)
      | Inr d \<Rightarrow>
          Some (s \<lparr> cs_fsm := f, cs_raft := Some node, cs_discovery := Some (d \<lparr> d_callbacks := True \<rparr>) \<rparr>, opened, None)))))"

text \<open>The outcomes of leaving and of shutting down the member list, and the error of the context when it ended before
  the monitoring loop did. The notices that leaving causes are inputs of their own.\<close>

record stop_calls =
  stop_Leave :: "go_error option"
  stop_Shutdown :: "go_error option"
  stop_Context :: "go_error option"

definition Server_Stop :: "'r raft_lib \<Rightarrow> stop_calls \<Rightarrow> 'r cluster_server \<Rightarrow> ('r cluster_server \<times> go_error option) option" where
  "Server_Stop lib st s =
     (if cs_stopped s then Some (s, None)
      else
        (let s1 = s \<lparr> cs_stopped := True,
                      cs_discovery := map_option (\<lambda>d. fst (Discovery_Shutdown (stop_Shutdown st) d)) (cs_discovery s) \<rparr> in
         case cs_raft s1 of
           None \<Rightarrow> Some (s1, stop_Context st)
         | Some n \<Rightarrow> map_option (\<lambda>n'. (s1 \<lparr> cs_raft := Some n' \<rparr>, stop_Context st)) (RaftNode_Close lib n)))"

definition createRPCClient :: "'r cluster_server \<Rightarrow> string \<Rightarrow> string" where
  "createRPCClient s addr = (if cc_TLSConfig (cs_config s) then ''https'' else ''http'') @ ''://'' @ addr"

section \<open>RPC handlers\<close>

record pb_shard_map =
  pb_Shards :: "(u32, string) gomap"
  pb_Replicas :: "(u32, string list) gomap"
  pb_Version :: u64

record join_response =
  jr_Accepted :: bool
  jr_LeaderNodeId :: string
  jr_LeaderAddr :: string
  jr_Members :: "member list"
  jr_ShardMap :: "pb_shard_map option"

definition pb_of_shard_map :: "shard_map \<Rightarrow> pb_shard_map" where
  "pb_of_shard_map m = \<lparr> pb_Shards = nm_items (sm_Shards m), pb_Replicas = nm_items (sm_Replicas m), pb_Version = sm_Version m \<rparr>"

definition Handler_Join ::
  "'r raft_lib \<Rightarrow> 'r cluster_server \<Rightarrow> string \<Rightarrow> string \<Rightarrow>
   ('r cluster_server \<times> (connect_code \<times> go_error + join_response)) option" where
  "Handler_Join lib s nodeID addr =
     (if \<not> Server_IsLeader s then
        (let (leaderID, leaderAddr) = Server_Leader s in
         Some (s, Inr \<lparr> jr_Accepted = False, jr_LeaderNodeId = leaderID, jr_LeaderAddr = leaderAddr, jr_Members = [],
                        jr_ShardMap = None \<rparr>))
      else
     (case ApplyMemberJoin lib s nodeID addr of
        None \<Rightarrow> None
      | Some (s1, Some err) \<Rightarrow> Some (s1, Inl (CodeInternal, WrapError ''apply member join'' err))
      | Some (s1, None) \<Rightarrow>
     (case add_voter lib s1 nodeID addr of
        None \<Rightarrow> None
      | Some (s2, Some err) \<Rightarrow> Some (s2, Inl (CodeInternal, WrapError ''add voter'' err))
      | Some (s2, None) \<Rightarrow>
     (case Server_GetMembers s2 of
        None \<Rightarrow> None
      | Some members \<Rightarrow>
     (case Server_GetShardMap s2 of
        None \<Rightarrow> None
      | Some shardMap \<Rightarrow>
          (let (leaderID, leaderAddr) = Server_Leader s2 in
           Some (s2, Inr \<lparr> jr_Accepted = True, jr_LeaderNodeId = leaderID, jr_LeaderAddr = leaderAddr,
                           jr_Members = map snd members, jr_ShardMap = Some (pb_of_shard_map shardMap) \<rparr>)))))))"

definition Handler_GetShardMap :: "'r cluster_server \<Rightarrow> pb_shard_map option" where
  "Handler_GetShardMap s = map_option pb_of_shard_map (Server_GetShardMap s)"

record ping_response =
  pr_NodeId :: string
  pr_Timestamp :: int
  pr_IsLeader :: bool

definition Handler_Ping :: "'r raft_lib \<Rightarrow> int \<Rightarrow> 'r cluster_server \<Rightarrow> ping_response option" where
  "Handler_Ping lib now s =
     map_option (\<lambda>st. \<lparr> pr_NodeId = stat_NodeID st, pr_Timestamp = now div Second, pr_IsLeader = stat_IsLeader st \<rparr>)
       (Server_GetStats lib s)"

end
