(* ===== verification/Cluster_Rpc.thy ===== *)
theory Cluster_Rpc
  imports Cluster_Server
begin

text \<open>
  The interceptors around the RPC handlers of the cluster, \<open>internal/server/clusterserver/interceptor.go\<close>: recovery
  from panics, authentication by client certificate, logging.

  A handler takes a request and the state and gives a new state with an answer, an error or a panic; an interceptor is a
  function from handlers to handlers. The log lines of the interceptors are kept beside the state, without durations. The
  check of a certificate chain by \<open>crypto/x509\<close> against a pool of authorities, for client authentication, is a
  parameter. All clock readings of one request are equal. A streaming handler answers with nothing.
\<close>

section \<open>Requests, handlers, log\<close>

record certificate =
  cert_Raw :: bytes
  cert_CommonName :: string
  cert_NotBefore :: int
  cert_NotAfter :: int
  cert_IsCA :: bool

text \<open>\<open>rq_TLS\<close> is the TLS state of the connection, \<open>rq_ctxTLS\<close> the one that the context holds.\<close>

record 'm rpc_request =
  rq_Procedure :: string
  rq_PeerAddr :: string
  rq_TLS :: "certificate list option"
  rq_ctxTLS :: "certificate list option"
  rq_Msg :: 'm

datatype 'b rpc_result = RpcOk 'b | RpcError connect_code go_error | RpcPanic

datatype rpc_log =
    RpcRequest string string
  | RpcResponse string
  | RpcFailed string go_error
  | RpcAuthDisabled
  | RpcAuthFailed string string go_error
  | RpcAuthSuccess string string
  | RpcPanicRecovered string

type_synonym ('m, 's, 'b) rpc_handler = "'m rpc_request \<Rightarrow> rpc_log list \<times> 's \<Rightarrow> (rpc_log list \<times> 's) \<times> 'b rpc_result"

definition rpc_note :: "rpc_log \<Rightarrow> rpc_log list \<times> 's \<Rightarrow> rpc_log list \<times> 's" where
  "rpc_note l = (\<lambda>(log, s). (log @ [l], s))"

section \<open>Logging\<close>

definition log_result :: "string \<Rightarrow> (rpc_log list \<times> 's) \<times> 'b rpc_result \<Rightarrow> (rpc_log list \<times> 's) \<times> 'b rpc_result" where
  "log_result procedure = (\<lambda>(st, result).
     case result of
       RpcPanic \<Rightarrow> (st, RpcPanic)
     | RpcError code err \<Rightarrow> (rpc_note (RpcFailed procedure err) st, result)
     | RpcOk resp \<Rightarrow> (rpc_note (RpcResponse procedure) st, result))"

definition Logging_WrapUnary :: "('m, 's, 'b) rpc_handler \<Rightarrow> ('m, 's, 'b) rpc_handler" where
  "Logging_WrapUnary next rq st =
     log_result (rq_Procedure rq) (next rq (rpc_note (RpcRequest (rq_Procedure rq) (rq_PeerAddr rq)) st))"

definition Logging_WrapStreamingHandler :: "('m, 's, unit) rpc_handler \<Rightarrow> ('m, 's, unit) rpc_handler" where
  "Logging_WrapStreamingHandler next conn st =
     log_result (rq_Procedure conn) (next conn (rpc_note (RpcRequest (rq_Procedure conn) (rq_PeerAddr conn)) st))"

section \<open>Authentication\<close>

record 'p auth_interceptor =
  ai_clientCAPool :: "'p option"
  ai_allowedNodes :: "(string, bool) gomap option"
  ai_strictNodeIDCheck :: bool

text \<open>The check of a chain: the pool of roots, the time and the certificate.\<close>

type_synonym 'p x509_verify = "'p \<Rightarrow> int \<Rightarrow> certificate \<Rightarrow> go_error option"

definition verifyCertificate :: "'p x509_verify \<Rightarrow> int \<Rightarrow> 'p \<Rightarrow> certificate \<Rightarrow> go_error option" where
  "verifyCertificate V now pool cert =
     (case V pool now cert of
        Some err \<Rightarrow> Some (WrapError ''certificate chain verification failed'' err)
      | None \<Rightarrow>
          if now < cert_NotBefore cert then Some (PlainError ''certificate not yet valid'')
          else if now > cert_NotAfter cert then Some (PlainError ''certificate has expired'')
          else if cert_IsCA cert then Some (PlainError ''client certificate cannot be a CA certificate'')
          else None)"

definition extractTLSInfo :: "'m rpc_request \<Rightarrow> go_error + certificate list" where
  "extractTLSInfo rq =
     (case rq_ctxTLS rq of
        Some tlsState \<Rightarrow> Inr tlsState
      | None \<Rightarrow> Inl (PlainError ''TLS connection state not available - ensure TLS middleware is configured''))"

text \<open>The text of the refusal quotes the identifier, here without the escapes.\<close>

definition check_node :: "'p auth_interceptor \<Rightarrow> string \<Rightarrow> go_error option" where
  "check_node i nodeID =
     (if ai_strictNodeIDCheck i then
        (case ai_allowedNodes i of
           None \<Rightarrow> None
         | Some allowed \<Rightarrow>
             if gm_get allowed nodeID = Some True then None
             else Some (PlainError (''node ID '' @ [CHR 0x22] @ nodeID @ [CHR 0x22] @ '' not in allowed list'')))
      else None)"

definition authenticate :: "'p x509_verify \<Rightarrow> int \<Rightarrow> 'p auth_interceptor \<Rightarrow> 'm rpc_request \<Rightarrow> go_error option" where
  "authenticate V now i rq =
     (case ai_clientCAPool i of
        None \<Rightarrow> None
      | Some pool \<Rightarrow>
     (case extractTLSInfo rq of
        Inl err \<Rightarrow> Some (WrapError ''extract TLS info'' err)
      | Inr [] \<Rightarrow> Some (PlainError ''no client certificate provided'')
      | Inr (clientCert # _) \<Rightarrow>
     (case verifyCertificate V now pool clientCert of
        Some err \<Rightarrow> Some (WrapError ''certificate verification failed'' err)
      | None \<Rightarrow>
          if cert_CommonName clientCert = '''' then Some (PlainError ''certificate CN (node ID) is empty'')
          else check_node i (cert_CommonName clientCert))))"

definition auth_step :: "'p x509_verify \<Rightarrow> int \<Rightarrow> 'p auth_interceptor \<Rightarrow> ('m, 's, 'b) rpc_handler \<Rightarrow> ('m, 's, 'b) rpc_handler" where
  "auth_step V now i next rq st =
     (let st = (if ai_clientCAPool i = None then rpc_note RpcAuthDisabled st else st) in
      case authenticate V now i rq of
        Some err \<Rightarrow> (rpc_note (RpcAuthFailed (rq_Procedure rq) (rq_PeerAddr rq) err) st, RpcError CodeUnauthenticated err)
      | None \<Rightarrow> next rq (rpc_note (RpcAuthSuccess (rq_Procedure rq) (rq_PeerAddr rq)) st))"

definition Auth_WrapUnary :: "'p x509_verify \<Rightarrow> int \<Rightarrow> 'p auth_interceptor \<Rightarrow> ('m, 's, 'b) rpc_handler \<Rightarrow> ('m, 's, 'b) rpc_handler" where
  "Auth_WrapUnary V now i next = auth_step V now i next"

definition Auth_WrapStreamingHandler ::
  "'p x509_verify \<Rightarrow> int \<Rightarrow> 'p auth_interceptor \<Rightarrow> ('m, 's, unit) rpc_handler \<Rightarrow> ('m, 's, unit) rpc_handler" where
  "Auth_WrapStreamingHandler V now i next = auth_step V now i next"

definition UpdateAllowedNodes :: "'p auth_interceptor \<Rightarrow> (string, bool) gomap option \<Rightarrow> 'p auth_interceptor" where
  "UpdateAllowedNodes i nodes = i \<lparr> ai_allowedNodes := nodes \<rparr>"

section \<open>Recovery\<close>

definition recover_step :: "('m, 's, 'b) rpc_handler \<Rightarrow> ('m, 's, 'b) rpc_handler" where
  "recover_step next rq st =
     (case next rq st of
        (st', RpcPanic) \<Rightarrow>
          (rpc_note (RpcPanicRecovered (rq_Procedure rq)) st',
           RpcError CodeInternal (PlainError ''internal server error: panic recovered''))
      | r \<Rightarrow> r)"

definition Recovery_WrapUnary :: "('m, 's, 'b) rpc_handler \<Rightarrow> ('m, 's, 'b) rpc_handler" where
  "Recovery_WrapUnary next = recover_step next"

definition Recovery_WrapStreamingHandler :: "('m, 's, unit) rpc_handler \<Rightarrow> ('m, 's, unit) rpc_handler" where
  "Recovery_WrapStreamingHandler next = recover_step next"

section \<open>The chain\<close>

text \<open>The first interceptor of a list is the outermost.\<close>

definition rpc_chain ::
  "'p x509_verify \<Rightarrow> int \<Rightarrow> 'p auth_interceptor \<Rightarrow> ('m, 's, 'b) rpc_handler \<Rightarrow> ('m, 's, 'b) rpc_handler" where
  "rpc_chain V now i h = Recovery_WrapUnary (Auth_WrapUnary V now i (Logging_WrapUnary h))"

definition rpc_stream_chain ::
  "'p x509_verify \<Rightarrow> int \<Rightarrow> 'p auth_interceptor \<Rightarrow> ('m, 's, unit) rpc_handler \<Rightarrow> ('m, 's, unit) rpc_handler" where
  "rpc_stream_chain V now i h =
     Recovery_WrapStreamingHandler (Auth_WrapStreamingHandler V now i (Logging_WrapStreamingHandler h))"

definition DefaultInterceptors :: "'p x509_verify \<Rightarrow> int \<Rightarrow> ('m, 's, 'b) rpc_handler \<Rightarrow> ('m, 's, 'b) rpc_handler" where
  "DefaultInterceptors V now h =
     rpc_chain V now \<lparr> ai_clientCAPool = None, ai_allowedNodes = None, ai_strictNodeIDCheck = False \<rparr> h"

definition TLSMiddleware :: "('m, 's, 'b) rpc_handler \<Rightarrow> ('m, 's, 'b) rpc_handler" where
  "TLSMiddleware next rq = next (if rq_TLS rq \<noteq> None then rq \<lparr> rq_ctxTLS := rq_TLS rq \<rparr> else rq)"

section \<open>What the chain lets through\<close>

text \<open>A request whose peer has proved to be a node: a certificate that the pool vouches for, within its time, of no
  authority, with a name that the list of nodes allows.\<close>

definition peer_proved :: "'p x509_verify \<Rightarrow> int \<Rightarrow> 'p \<Rightarrow> 'p auth_interceptor \<Rightarrow> certificate list option \<Rightarrow> bool" where
  "peer_proved V now pool i tls \<longleftrightarrow>
     (\<exists>cert rest. tls = Some (cert # rest) \<and> V pool now cert = None \<and> cert_NotBefore cert \<le> now \<and> now \<le> cert_NotAfter cert \<and>
        \<not> cert_IsCA cert \<and> cert_CommonName cert \<noteq> '''' \<and>
        (ai_strictNodeIDCheck i \<longrightarrow> (\<forall>nodes. ai_allowedNodes i = Some nodes \<longrightarrow> gm_get nodes (cert_CommonName cert) = Some True)))"

lemma authenticate_iff:
  assumes "ai_clientCAPool i = Some pool"
  shows "authenticate V now i rq = None \<longleftrightarrow> peer_proved V now pool i (rq_ctxTLS rq)"
  using assms by (auto simp: authenticate_def peer_proved_def extractTLSInfo_def verifyCertificate_def check_node_def
      split: option.splits list.splits if_splits)

lemma snd_rpc_note [simp]: "snd (rpc_note l st) = snd st"
  by (simp add: rpc_note_def case_prod_beta)

lemma chain_refuses:
  assumes "authenticate V now i rq = Some err"
  shows "snd (fst (rpc_chain V now i h rq st)) = snd st \<and> snd (rpc_chain V now i h rq st) = RpcError CodeUnauthenticated err"
    "snd (fst (rpc_stream_chain V now i g rq st)) = snd st \<and> snd (rpc_stream_chain V now i g rq st) = RpcError CodeUnauthenticated err"
  using assms by (simp_all add: rpc_chain_def rpc_stream_chain_def Recovery_WrapUnary_def Auth_WrapUnary_def
      Recovery_WrapStreamingHandler_def Auth_WrapStreamingHandler_def recover_step_def auth_step_def Let_def)

lemma recover_step_no_panic: "snd (recover_step h rq st) \<noteq> RpcPanic"
  by (cases "h rq st", cases "snd (h rq st)") (simp_all add: recover_step_def)

text \<open>C22: Around any handler of the cluster's RPC service the interceptors never let a panic out, and when a pool of
  authorities is configured a request changes the state or is answered only if its peer proved to be a node of the cluster: the
  TLS state that the middleware put into the context starts with a certificate that the pool vouches for, within its
  time, of no authority, with a name, which the list of allowed nodes has when the strict check is on and there is
  a list. The same holds of streams. Every other request gets the error \<open>Unauthenticated\<close>.\<close>

theorem rpc_needs_certificate:
  assumes "ai_clientCAPool i = Some pool"
  shows "snd (rpc_chain V now i h rq st) \<noteq> RpcPanic \<and> snd (rpc_stream_chain V now i g rq' st') \<noteq> RpcPanic \<and>
    (peer_proved V now pool i (rq_ctxTLS rq) \<or>
       snd (fst (rpc_chain V now i h rq st)) = snd st \<and> (\<exists>err. snd (rpc_chain V now i h rq st) = RpcError CodeUnauthenticated err)) \<and>
    (peer_proved V now pool i (rq_ctxTLS rq') \<or>
       snd (fst (rpc_stream_chain V now i g rq' st')) = snd st' \<and>
       (\<exists>err. snd (rpc_stream_chain V now i g rq' st') = RpcError CodeUnauthenticated err))"
proof -
  have "snd (rpc_chain V now i h rq st) \<noteq> RpcPanic" "snd (rpc_stream_chain V now i g rq' st') \<noteq> RpcPanic"
    unfolding rpc_chain_def rpc_stream_chain_def Recovery_WrapUnary_def Recovery_WrapStreamingHandler_def
    by (rule recover_step_no_panic)+
  then show ?thesis
    using authenticate_iff [OF assms, of V now rq] authenticate_iff [OF assms, of V now rq'] chain_refuses
    by (metis option.exhaust)
qed

text \<open>A node of the cluster, and the same request without TLS.\<close>

definition node_cert :: certificate where
  "node_cert = \<lparr> cert_Raw = [1], cert_CommonName = ''n2'', cert_NotBefore = 0, cert_NotAfter = 100, cert_IsCA = False \<rparr>"

definition ping_request :: "unit rpc_request" where
  "ping_request = \<lparr> rq_Procedure = ''Ping'', rq_PeerAddr = ''10.0.0.2:5000'', rq_TLS = None, rq_ctxTLS = None, rq_Msg = () \<rparr>"

definition strict_nodes :: "unit auth_interceptor" where
  "strict_nodes = \<lparr> ai_clientCAPool = Some (), ai_allowedNodes = Some [(''n2'', True)], ai_strictNodeIDCheck = True \<rparr>"

definition trusts :: "unit x509_verify" where
  "trusts pool now cert = (if cert_Raw cert = [1] then None else Some (PlainError ''unknown authority''))"

definition count_calls :: "(unit, nat, unit) rpc_handler" where
  "count_calls rq st = ((fst st, Suc (snd st)), RpcOk ())"

theorem rpc_needs_certificate_witness:
  "snd (rpc_chain trusts 50 strict_nodes count_calls (ping_request \<lparr> rq_ctxTLS := Some [node_cert] \<rparr>) ([], 0)) = RpcOk () \<and>
   peer_proved trusts 50 () strict_nodes (Some [node_cert]) \<and>
   (\<exists>err. snd (rpc_chain trusts 50 strict_nodes count_calls ping_request ([], 0)) = RpcError CodeUnauthenticated err)"
proof -
  have pool: "ai_clientCAPool strict_nodes = Some ()" by (simp add: strict_nodes_def)
  have ok: "snd (rpc_chain trusts 50 strict_nodes count_calls (ping_request \<lparr> rq_ctxTLS := Some [node_cert] \<rparr>) ([], 0)) = RpcOk ()"
    by code_simp
  have no: "\<not> peer_proved trusts 50 () strict_nodes (rq_ctxTLS ping_request)" by (simp add: peer_proved_def ping_request_def)
  show ?thesis
    using rpc_needs_certificate [OF pool, of trusts 50 count_calls "ping_request \<lparr> rq_ctxTLS := Some [node_cert] \<rparr>" "([], 0)"
        count_calls ping_request "([], 0)"] ok
      rpc_needs_certificate [OF pool, of trusts 50 count_calls ping_request "([], 0)" count_calls ping_request "([], 0)"] no
    by auto
qed

lemma recover_step_state: "snd (fst (recover_step h rq st)) = snd (fst (h rq st))"
  by (cases "h rq st", cases "snd (h rq st)") (simp_all add: recover_step_def)

lemma log_result_state: "snd (fst (log_result p x)) = snd (fst x)"
  by (cases x, cases "snd x") (simp_all add: log_result_def)

text \<open>The default interceptors have no pool of authorities, so they let every request through to the handler.\<close>

lemma default_interceptors_open:
  "snd (fst (DefaultInterceptors V now h rq st)) =
   snd (fst (h rq (rpc_note (RpcRequest (rq_Procedure rq) (rq_PeerAddr rq))
     (rpc_note (RpcAuthSuccess (rq_Procedure rq) (rq_PeerAddr rq)) (rpc_note RpcAuthDisabled st)))))"
  by (simp add: DefaultInterceptors_def rpc_chain_def Recovery_WrapUnary_def Auth_WrapUnary_def auth_step_def
      authenticate_def Logging_WrapUnary_def Let_def recover_step_state log_result_state)

end
