(* ===== verification/Cluster_Props.thy ===== *)
theory Cluster_Props
  imports Cluster_Rpc
begin

text \<open>
  The cluster server as a whole: what holds in every state that its operations reach, what a node's joining by gossip does,
  and what a failed start leaves.
\<close>

section \<open>Reachable servers\<close>

text \<open>The operations of a server in any order, with Raft applying entries between them. A state in which an operation
  panics is not reached through it.\<close>

inductive server_reach :: "'r raft_lib \<Rightarrow> cluster_config \<Rightarrow> 'r cluster_server \<Rightarrow> bool" for lib cfg where
  new: "NewServer cfg = Inr s \<Longrightarrow> server_reach lib cfg s"
| start: "server_reach lib cfg s \<Longrightarrow> Server_Start lib su ds s = Some (s', opened, err) \<Longrightarrow> server_reach lib cfg s'"
| replicate: "server_reach lib cfg s \<Longrightarrow> raft_call s (\<lambda>n. (n \<lparr> rn_raft := r \<rparr>, es, None)) = Some (s', err) \<Longrightarrow> server_reach lib cfg s'"
| leader: "server_reach lib cfg s \<Longrightarrow> leaderMonitorLoop lib evs s = Some s' \<Longrightarrow> server_reach lib cfg s'"
| gossip_join: "server_reach lib cfg s \<Longrightarrow> gossip_join lib s node = Some s' \<Longrightarrow> server_reach lib cfg s'"
| gossip_leave: "server_reach lib cfg s \<Longrightarrow> gossip_leave lib s node = Some s' \<Longrightarrow> server_reach lib cfg s'"
| join: "server_reach lib cfg s \<Longrightarrow> Handler_Join lib s nodeID addr = Some (s', response) \<Longrightarrow> server_reach lib cfg s'"
| shard: "server_reach lib cfg s \<Longrightarrow> ApplyShardUpdate lib s shardID nodeID replicas = Some (s', err) \<Longrightarrow> server_reach lib cfg s'"
| health: "server_reach lib cfg s \<Longrightarrow> replicationMonitorLoop lib ticks s = Some s' \<Longrightarrow> server_reach lib cfg s'"
| rebalance: "server_reach lib cfg s \<Longrightarrow> m \<in> set (cs_rebalances s) \<Longrightarrow> auto_rebalance rpc sys sched now s m = Some s' \<Longrightarrow>
    server_reach lib cfg s'"
| stop: "server_reach lib cfg s \<Longrightarrow> Server_Stop lib st s = Some (s', err) \<Longrightarrow> server_reach lib cfg s'"

definition timeouts_ok :: "timeout_config \<Rightarrow> bool" where
  "timeouts_ok t \<longleftrightarrow> to_RaftApply t \<noteq> 0 \<and> to_RaftMembership t \<noteq> 0 \<and> to_RaftTransport t \<noteq> 0 \<and> to_StreamingRPC t \<noteq> 0 \<and>
     to_WaitLeader t \<noteq> 0 \<and> to_Rebalance t \<noteq> 0"

definition config_ok :: "cluster_config \<Rightarrow> bool" where
  "config_ok cfg \<longleftrightarrow> cc_NodeID cfg \<noteq> '''' \<and> cc_RaftBindAddr cfg \<noteq> '''' \<and> cc_GossipBindAddr cfg \<noteq> '''' \<and>
     cc_GossipBindPort cfg \<noteq> 0 \<and> cc_RaftDataDir cfg \<noteq> '''' \<and> \<not> (cc_Bootstrap cfg \<and> cc_SeedNodes cfg \<noteq> []) \<and>
     1 \<le> cc_ReplicationFactor cfg \<and> cc_ReplicationFactor cfg \<le> 7 \<and>
     (rc_ConcurrentShards (cc_Rebalance cfg) > 0 \<longrightarrow> cc_Storage cfg \<noteq> None) \<and> timeouts_ok (cc_Timeouts cfg)"

lemma default_timeouts_ok: "timeouts_ok (default_timeouts t)" "timeouts_ok t \<Longrightarrow> default_timeouts t = t"
  by (simp_all add: timeouts_ok_def default_timeouts_def)

lemma Config_validate_ok:
  assumes "Config_validate cfg = Inr cfg'"
  shows "config_ok cfg'"
proof -
  have c: "cc_NodeID cfg \<noteq> ''''" "cc_RaftBindAddr cfg \<noteq> ''''" "cc_GossipBindAddr cfg \<noteq> ''''" "cc_GossipBindPort cfg \<noteq> 0"
    "cc_RaftDataDir cfg \<noteq> ''''" "\<not> (cc_Bootstrap cfg \<and> cc_SeedNodes cfg \<noteq> [])"
    using assms by (auto simp: Config_validate_def simp del: append.simps split: if_split_asm)
  let ?c = "if cc_ReplicationFactor cfg < 1 then cfg \<lparr> cc_ReplicationFactor := 1 \<rparr> else cfg"
  from c assms have "cfg' = ?c \<lparr> cc_Timeouts := default_timeouts (cc_Timeouts ?c) \<rparr>" "cc_ReplicationFactor ?c \<le> 7"
    "\<not> (rc_ConcurrentShards (cc_Rebalance ?c) > 0 \<and> cc_Storage ?c = None)"
    by (simp_all add: Config_validate_def Let_def split: if_split_asm)
  then show ?thesis using c default_timeouts_ok(1) by (simp add: config_ok_def)
qed

text \<open>Validating again changes nothing.\<close>

lemma Config_validate_again: "config_ok cfg \<Longrightarrow> Config_validate cfg = Inr cfg"
  by (auto simp: Config_validate_def config_ok_def default_timeouts_ok Let_def)

text \<open>The manager is the one that the configuration asks for: no task was ever added to it.\<close>

definition idle_manager :: "cluster_config \<Rightarrow> rebalance_manager option" where
  "idle_manager cfg = (if cc_Storage cfg \<noteq> None then Some (NewRebalanceManager (cc_Rebalance cfg) (cc_Storage cfg)) else None)"

definition server_ok :: "'r cluster_server \<Rightarrow> bool" where
  "server_ok s \<longleftrightarrow> fsm_ok (cs_fsm s) \<and> config_ok (cs_config s) \<and> (cs_isLeader s \<longrightarrow> cs_raft s \<noteq> None) \<and>
     (cs_discovery s \<noteq> None \<longrightarrow> cs_raft s \<noteq> None) \<and> cs_rebalanceManager s = idle_manager (cs_config s)"

section \<open>Every operation keeps the invariant\<close>

lemma NewServer_ok: "NewServer cfg = Inr s \<Longrightarrow> server_ok s \<and> \<not> cs_isLeader s"
  by (auto simp: NewServer_def server_ok_def NewFSM_ok idle_manager_def dest: Config_validate_ok split: sum.splits)

lemma run_log_ok: "fsm_ok f \<Longrightarrow> run_log FSM_Apply f es = Some g \<Longrightarrow> fsm_ok g"
  using fsmr.run_same [of f f es] fsm_same_refl by force

lemma raft_call_ok: "raft_call s call = Some (s', err) \<Longrightarrow> server_ok s \<Longrightarrow> server_ok s' \<and> cs_config s' = cs_config s"
  by (auto simp: raft_call_def server_ok_def dest: run_log_ok split: option.splits prod.splits)

lemma apply_entry_ok: "apply_entry lib s t p = Some (s', err) \<Longrightarrow> server_ok s \<Longrightarrow> server_ok s' \<and> cs_config s' = cs_config s"
  by (auto simp: apply_entry_def dest: raft_call_ok split: if_splits sum.splits)

lemma warn_ok [simp]: "server_ok (warn w s) = server_ok s" "cs_config (warn w s) = cs_config s"
  by (simp_all add: warn_def server_ok_def)

lemma warns_ok [simp]: "server_ok (foldl (\<lambda>s w. warn w s) s ws) = server_ok s" "cs_config (foldl (\<lambda>s w. warn w s) s ws) = cs_config s"
  by (induction ws arbitrary: s) simp_all

lemma checkClusterParity_ok: "checkClusterParity s = Some s' \<Longrightarrow> server_ok s \<Longrightarrow> server_ok s' \<and> cs_config s' = cs_config s"
  by (auto simp: checkClusterParity_def Let_def)

lemma checkReplicationHealth_ok:
  "checkReplicationHealth lib s = Some s' \<Longrightarrow> server_ok s \<Longrightarrow> server_ok s' \<and> cs_config s' = cs_config s"
  by (auto simp: checkReplicationHealth_def Let_def split: option.splits if_splits)

lemma handleLeaderChange_ok:
  assumes "handleLeaderChange lib s b = Some s'" "server_ok s"
  shows "server_ok s' \<and> cs_config s' = cs_config s"
proof -
  obtain n where n: "cs_raft s = Some n" using assms(1) by (auto simp: handleLeaderChange_def split: option.splits)
  let ?s = "s \<lparr> cs_isLeader := b, cs_leaderAddr := RaftNode_Leader lib n, cs_leaderID := RaftNode_LeaderID lib n \<rparr>"
  have ok: "server_ok ?s" using assms(2) n by (simp add: server_ok_def)
  have "server_ok t \<and> cs_config t = cs_config s" if "onBecomeLeader ?s = Some t" for t
    using that ok by (auto simp: onBecomeLeader_def server_ok_def split: option.splits if_splits)
  then show ?thesis
    using assms(1) n ok checkClusterParity_ok
    by (fastforce simp: handleLeaderChange_def onLoseLeadership_def Let_def bind_eq_Some_conv split: if_splits)
qed

lemma leaderMonitorLoop_ok:
  "leaderMonitorLoop lib evs s = Some s' \<Longrightarrow> server_ok s \<Longrightarrow> server_ok s' \<and> cs_config s' = cs_config s"
proof (induction lib evs s rule: leaderMonitorLoop.induct)
  case (2 lib b es s)
  then obtain t where t: "handleLeaderChange lib s b = Some t" "leaderMonitorLoop lib es t = Some s'"
    by (auto simp: bind_eq_Some_conv)
  with 2 handleLeaderChange_ok [OF t(1) 2(3)] show ?case by force
qed (auto simp: server_ok_def)

lemma replicationMonitorLoop_ok:
  "replicationMonitorLoop lib evs s = Some s' \<Longrightarrow> server_ok s \<Longrightarrow> server_ok s' \<and> cs_config s' = cs_config s"
proof (induction lib evs s rule: replicationMonitorLoop.induct)
  case (2 lib u es s)
  then obtain t where t: "checkReplicationHealth lib s = Some t" "replicationMonitorLoop lib es t = Some s'"
    by (auto simp: bind_eq_Some_conv)
  with 2 checkReplicationHealth_ok [OF t(1) 2(3)] show ?case by force
qed auto

lemma cluster_call_ok:
  "ApplyShardUpdate lib s i n rs = Some (s', err) \<Longrightarrow> server_ok s \<Longrightarrow> server_ok s' \<and> cs_config s' = cs_config s"
  "ApplyMemberJoin lib s n a = Some (s', err) \<Longrightarrow> server_ok s \<Longrightarrow> server_ok s' \<and> cs_config s' = cs_config s"
  "ApplyMemberLeave lib s n = Some (s', err) \<Longrightarrow> server_ok s \<Longrightarrow> server_ok s' \<and> cs_config s' = cs_config s"
  "add_voter lib s n a = Some (s', err) \<Longrightarrow> server_ok s \<Longrightarrow> server_ok s' \<and> cs_config s' = cs_config s"
  "remove_server lib s n = Some (s', err) \<Longrightarrow> server_ok s \<Longrightarrow> server_ok s' \<and> cs_config s' = cs_config s"
  unfolding ApplyShardUpdate_def ApplyMemberJoin_def ApplyMemberLeave_def add_voter_def remove_server_def
  by (erule (1) apply_entry_ok raft_call_ok)+

lemma discovery_onJoin_ok:
  assumes "discovery_onJoin lib s nodeID addr = Some s'" "server_ok s"
  shows "server_ok s' \<and> cs_config s' = cs_config s"
proof (cases "cs_isLeader s")
  case True
  then obtain s1 e1 where 1: "add_voter lib s nodeID addr = Some (s1, e1)"
    using assms(1) by (auto simp: discovery_onJoin_def Server_IsLeader_def split: option.splits)
  then have ok1: "server_ok s1 \<and> cs_config s1 = cs_config s" using assms(2) cluster_call_ok(4) by blast
  show ?thesis
  proof (cases e1)
    case None
    then obtain s2 e2 where 2: "ApplyMemberJoin lib s1 nodeID addr = Some (s2, e2)"
      using assms(1) 1 True by (auto simp: discovery_onJoin_def Server_IsLeader_def split: option.splits)
    have ok2: "server_ok s2 \<and> cs_config s2 = cs_config s"
      using cluster_call_ok(2) [OF 2] ok1 by simp
    show ?thesis
    proof (cases e2)
      case None2: None
      then have "checkClusterParity s2 = Some s'"
        using assms(1) 1 2 True None by (simp add: discovery_onJoin_def Server_IsLeader_def)
      then show ?thesis using ok2 checkClusterParity_ok by fastforce
    next
      case (Some e)
      then obtain e3 where "remove_server lib s2 nodeID = Some (s', e3)"
        using assms(1) 1 2 True None by (auto simp: discovery_onJoin_def Server_IsLeader_def)
      then show ?thesis using ok2 cluster_call_ok(5) by metis
    qed
  qed (use assms 1 ok1 True in \<open>simp add: discovery_onJoin_def Server_IsLeader_def\<close>)
qed (use assms in \<open>simp add: discovery_onJoin_def Server_IsLeader_def\<close>)

lemma discovery_onLeave_ok:
  assumes "discovery_onLeave lib s nodeID = Some s'" "server_ok s"
  shows "server_ok s' \<and> cs_config s' = cs_config s"
proof (cases "cs_isLeader s")
  case True
  then obtain s1 e1 where 1: "remove_server lib s nodeID = Some (s1, e1)"
    using assms(1) by (auto simp: discovery_onLeave_def Server_IsLeader_def split: option.splits)
  then have ok1: "server_ok s1 \<and> cs_config s1 = cs_config s" using assms(2) cluster_call_ok(5) by blast
  show ?thesis
  proof (cases e1)
    case None
    then obtain s2 e2 where 2: "ApplyMemberLeave lib s1 nodeID = Some (s2, e2)"
      using assms(1) 1 True by (auto simp: discovery_onLeave_def Server_IsLeader_def split: option.splits)
    have "server_ok s2 \<and> cs_config s2 = cs_config s"
      using cluster_call_ok(3) [OF 2] ok1 by simp
    then show ?thesis
      using assms(1) 1 2 True None checkClusterParity_ok
      by (fastforce simp: discovery_onLeave_def Server_IsLeader_def split: option.splits)
  qed (use assms 1 ok1 True in \<open>simp add: discovery_onLeave_def Server_IsLeader_def\<close>)
qed (use assms in \<open>simp add: discovery_onLeave_def Server_IsLeader_def\<close>)

lemma Handler_Join_ok:
  assumes "Handler_Join lib s nodeID addr = Some (s', resp)" "server_ok s"
  shows "server_ok s' \<and> cs_config s' = cs_config s"
proof (cases "cs_isLeader s")
  case True
  then obtain s1 e1 where 1: "ApplyMemberJoin lib s nodeID addr = Some (s1, e1)"
    using assms(1) by (auto simp: Handler_Join_def Server_IsLeader_def split: option.splits)
  then have ok1: "server_ok s1 \<and> cs_config s1 = cs_config s" using assms(2) cluster_call_ok(2) by blast
  show ?thesis
  proof (cases e1)
    case None
    then obtain s2 e2 where 2: "add_voter lib s1 nodeID addr = Some (s2, e2)"
      using assms(1) 1 True by (auto simp: Handler_Join_def Server_IsLeader_def split: option.splits)
    have "server_ok s2 \<and> cs_config s2 = cs_config s" using cluster_call_ok(4) [OF 2] ok1 by simp
    moreover have "s' = s2"
      using assms(1) 1 2 True None
      by (auto simp: Handler_Join_def Server_IsLeader_def Server_Leader_def split: option.splits)
    ultimately show ?thesis by simp
  qed (use assms 1 ok1 True in \<open>simp add: Handler_Join_def Server_IsLeader_def\<close>)
qed (use assms in \<open>simp add: Handler_Join_def Server_IsLeader_def Server_Leader_def\<close>)

lemma Server_Start_ok:
  assumes "Server_Start lib su ds s = Some (s', opened, err)" "server_ok s"
  shows "server_ok s' \<and> cs_config s' = cs_config s"
  using assms by (auto simp: Server_Start_def server_ok_def dest: run_log_ok split: option.splits prod.splits sum.splits)

lemma Server_Stop_ok: "Server_Stop lib st s = Some (s', err) \<Longrightarrow> server_ok s \<Longrightarrow> server_ok s' \<and> cs_config s' = cs_config s"
  by (auto simp: Server_Stop_def server_ok_def Let_def split: option.splits if_splits)

lemma auto_rebalance_ok:
  assumes "auto_rebalance rpc sys sched now s m = Some s'"
  shows "s' = s"
proof -
  have "TriggerRebalance rpc sys sched now rm m m =
      Some (rm, if rm_running rm then Some (PlainError ''rebalance already in progress'') else None)" for rm
    by (simp add: computeMigrations_same TriggerRebalance_def)
  then show ?thesis using assms by (auto simp: auto_rebalance_def split: option.splits if_splits)
qed

lemma gossip_ok:
  "gossip_join lib s node = Some s' \<Longrightarrow> server_ok s \<Longrightarrow> server_ok s' \<and> cs_config s' = cs_config s"
  "gossip_leave lib s node = Some s' \<Longrightarrow> server_ok s \<Longrightarrow> server_ok s' \<and> cs_config s' = cs_config s"
  by (auto simp: gossip_join_def gossip_leave_def dest: discovery_onJoin_ok discovery_onLeave_ok split: option.splits if_splits)

lemma server_reach_ok: "server_reach lib cfg s \<Longrightarrow> server_ok s \<and> Config_validate cfg = Inr (cs_config s)"
proof (induction rule: server_reach.induct)
  case (new s)
  then have "Config_validate cfg = Inr (cs_config s)" by (auto simp: NewServer_def split: sum.splits)
  then show ?case using NewServer_ok [OF new] by simp
next
  case (rebalance s m rpc sys sched now s')
  then show ?case using auto_rebalance_ok by force
next
  case (start s su ds s' opened err)
  then show ?case using Server_Start_ok [OF start(2)] by simp
next
  case (replicate s r es s' err)
  then show ?case using raft_call_ok [OF replicate(2)] by simp
next
  case (leader s evs s')
  then show ?case using leaderMonitorLoop_ok [OF leader(2)] by simp
next
  case (gossip_join s node s')
  then show ?case using gossip_ok(1) [OF gossip_join(2)] by simp
next
  case (gossip_leave s node s')
  then show ?case using gossip_ok(2) [OF gossip_leave(2)] by simp
next
  case (join s nodeID addr s' response)
  then show ?case using Handler_Join_ok [OF join(2)] by simp
next
  case (shard s shardID nodeID replicas s' err)
  then show ?case using cluster_call_ok(1) [OF shard(2)] by simp
next
  case (health s ticks s')
  then show ?case using replicationMonitorLoop_ok [OF health(2)] by simp
next
  case (stop s st s' err)
  then show ?case using Server_Stop_ok [OF stop(2)] by simp
qed

lemma fsm_ok_reads:
  assumes "fsm_ok f"
  shows "\<exists>ms. FSM_GetMembers f = Some ms" "\<exists>m. FSM_GetShardMap f = Some m"
  using assms by (auto simp: fsm_ok_def FSM_GetMembers_def FSM_GetShardMap_def elim: copy_members_ok)

section \<open>Entries that do not panic\<close>

text \<open>Whether an entry can be applied depends on the entry only: on every well-formed state it panics, or on none.\<close>

definition applicable_entry :: "bytes \<Rightarrow> bool" where
  "applicable_entry d \<longleftrightarrow> FSM_Apply NewFSM d \<noteq> None"

lemma applyShardMapUpdate_None:
  assumes "fsm_ok f"
  shows "applyShardMapUpdate f p = None \<longleftrightarrow>
    isl (dec_payload [''shard_id'', ''node_id'', ''replicas''] shard_update_field p \<lparr> su_ShardID = 0, su_NodeID = '''', su_Replicas = [] \<rparr>)"
proof -
  obtain m sh rp where m: "f_shardMap f = Some m" "sm_Shards m = Some sh" "sm_Replicas m = Some rp"
    using assms by (auto simp: fsm_ok_def shard_map_ok_def nm_all_def)
  then have "AssignShard m i n rs \<noteq> None" for i n rs by (simp add: AssignShard_def)
  then show ?thesis using m(1) by (auto simp: applyShardMapUpdate_def split: sum.splits)
qed

lemma applyMemberJoin_None:
  assumes "fsm_ok f"
  shows "applyMemberJoin f p = None \<longleftrightarrow>
    isl (dec_payload [''node_id'', ''addr''] member_join_field p \<lparr> mj_NodeID = '''', mj_Addr = '''' \<rparr>)"
proof -
  obtain ms where "f_members f = Some ms" using assms by (auto simp: fsm_ok_def nm_all_def)
  then show ?thesis by (auto simp: applyMemberJoin_def split: sum.splits)
qed

lemma applyMemberLeave_None:
  "applyMemberLeave f p = None \<longleftrightarrow> isl (dec_payload [''node_id''] member_leave_field p \<lparr> ml_NodeID = '''' \<rparr>)"
  by (auto simp: applyMemberLeave_def split: sum.splits)

lemma applicable_entry_iff: "fsm_ok f \<Longrightarrow> FSM_Apply f d \<noteq> None \<longleftrightarrow> applicable_entry d"
  using applyShardMapUpdate_None applyMemberJoin_None applyMemberLeave_None NewFSM_ok
  by (simp add: applicable_entry_def FSM_Apply_def applyConfigChange_def split: sum.splits del: not_None_eq)

lemma entries_run: "fsm_ok f \<Longrightarrow> list_all applicable_entry es \<Longrightarrow> run_log FSM_Apply f es \<noteq> None"
proof (induction es arbitrary: f)
  case (Cons d es)
  then obtain g where g: "FSM_Apply f d = Some g" using applicable_entry_iff [of f d] by auto
  have "fsm_ok g" using run_log_ok [of f "[d]" g] Cons.prems(1) g by simp
  then show ?case using Cons g by simp
qed simp

text \<open>A library that delivers only such entries.\<close>

definition delivers_ok :: "'r raft_lib \<Rightarrow> bool" where
  "delivers_ok lib \<longleftrightarrow>
     (\<forall>r d t. list_all applicable_entry (fst (snd (lib_Apply lib r d t)))) \<and>
     (\<forall>r n a t. list_all applicable_entry (fst (snd (lib_AddVoter lib r n a t)))) \<and>
     (\<forall>r n t. list_all applicable_entry (fst (snd (lib_RemoveServer lib r n t))))"

lemma raft_call_returns:
  assumes "server_ok s" "cs_raft s \<noteq> None" "\<And>n. list_all applicable_entry (fst (snd (call n)))"
  shows "\<exists>s' err. raft_call s call = Some (s', err) \<and> server_ok s' \<and> cs_raft s' \<noteq> None"
proof -
  obtain n where n: "cs_raft s = Some n" using assms(2) by auto
  obtain n' es err where c: "call n = (n', es, err)" by (metis surj_pair)
  have "list_all applicable_entry es" using assms(3) [of n] c by simp
  then obtain f where "run_log FSM_Apply (cs_fsm s) es = Some f"
    using entries_run [of "cs_fsm s" es] assms(1) by (auto simp: server_ok_def)
  then have call: "raft_call s call = Some (s \<lparr> cs_raft := Some n', cs_fsm := f \<rparr>, err)" using n c by (simp add: raft_call_def)
  show ?thesis using raft_call_ok [OF call assms(1)] call by simp
qed

lemma cluster_call_returns:
  assumes "delivers_ok lib" "server_ok s" "cs_raft s \<noteq> None"
  shows "\<exists>s' err. add_voter lib s n a = Some (s', err) \<and> server_ok s' \<and> cs_raft s' \<noteq> None"
    "\<exists>s' err. remove_server lib s n = Some (s', err) \<and> server_ok s' \<and> cs_raft s' \<noteq> None"
    "\<exists>s' err. apply_entry lib s typ p = Some (s', err) \<and> server_ok s' \<and> cs_raft s' \<noteq> None"
proof -
  have d: "list_all applicable_entry (fst (snd (RaftNode_AddVoter lib x n a t)))"
    "list_all applicable_entry (fst (snd (RaftNode_RemoveServer lib x n t)))"
    "list_all applicable_entry (fst (snd (RaftNode_Apply lib x dat t)))" for x n a t dat
    using assms(1) by (simp_all add: delivers_ok_def RaftNode_AddVoter_def RaftNode_RemoveServer_def RaftNode_Apply_def
        node_result_def case_prod_beta)
  show "\<exists>s' err. add_voter lib s n a = Some (s', err) \<and> server_ok s' \<and> cs_raft s' \<noteq> None"
    "\<exists>s' err. remove_server lib s n = Some (s', err) \<and> server_ok s' \<and> cs_raft s' \<noteq> None"
    unfolding add_voter_def remove_server_def by (rule raft_call_returns [OF assms(2,3)], rule d)+
  have "\<exists>s' err. raft_call s (\<lambda>n. RaftNode_Apply lib n dat t) = Some (s', err) \<and> server_ok s' \<and> cs_raft s' \<noteq> None" for dat t
    by (rule raft_call_returns [OF assms(2,3)], rule d)
  then show "\<exists>s' err. apply_entry lib s typ p = Some (s', err) \<and> server_ok s' \<and> cs_raft s' \<noteq> None"
    using assms(2,3) by (fastforce simp: apply_entry_def split: sum.splits)
qed

lemma parity_returns: "server_ok s \<Longrightarrow> checkClusterParity s \<noteq> None"
  using fsm_ok_reads(1) by (fastforce simp: checkClusterParity_def server_ok_def)

lemma handlers_return:
  assumes "delivers_ok lib" "server_ok s"
  shows "Handler_Join lib s n a \<noteq> None" "gossip_join lib s node \<noteq> None" "gossip_leave lib s node \<noteq> None"
    "ApplyShardUpdate lib s i n rs \<noteq> None"
proof -
  note R = cluster_call_returns [OF assms(1)]
  have lead: "cs_raft s \<noteq> None" if "cs_isLeader s" using that assms(2) by (simp add: server_ok_def)
  show "ApplyShardUpdate lib s i n rs \<noteq> None"
    using R(3) [OF assms(2)] lead by (cases "cs_isLeader s") (fastforce simp: ApplyShardUpdate_def, simp add: ApplyShardUpdate_def apply_entry_def Server_IsLeader_def)
  show "Handler_Join lib s n a \<noteq> None"
  proof (cases "cs_isLeader s")
    case True
    obtain s1 e1 where 1: "ApplyMemberJoin lib s n a = Some (s1, e1)" "server_ok s1" "cs_raft s1 \<noteq> None"
      unfolding ApplyMemberJoin_def using R(3) [OF assms(2) lead [OF True]] by metis
    obtain s2 e2 where 2: "add_voter lib s1 n a = Some (s2, e2)" "server_ok s2" using R(1) [OF 1(2,3)] by metis
    from 2(2) obtain ms m where "Server_GetMembers s2 = Some ms" "Server_GetShardMap s2 = Some m"
      using fsm_ok_reads by (fastforce simp: server_ok_def Server_GetMembers_def Server_GetShardMap_def)
    then show ?thesis using True 1 2 by (simp add: Handler_Join_def Server_IsLeader_def Server_Leader_def split: option.splits)
  qed (simp add: Handler_Join_def Server_IsLeader_def Server_Leader_def)
  have "discovery_onJoin lib s n a \<noteq> None" for n a
  proof (cases "cs_isLeader s")
    case True
    obtain s1 e1 where 1: "add_voter lib s n a = Some (s1, e1)" "server_ok s1" "cs_raft s1 \<noteq> None"
      using R(1) [OF assms(2) lead [OF True]] by metis
    obtain s2 e2 where 2: "ApplyMemberJoin lib s1 n a = Some (s2, e2)" "server_ok s2" "cs_raft s2 \<noteq> None"
      unfolding ApplyMemberJoin_def using R(3) [OF 1(2,3)] by metis
    then show ?thesis
      using True 1 R(2) [OF 2(2,3), of n] parity_returns [OF 2(2)]
      by (auto simp: discovery_onJoin_def Server_IsLeader_def split: option.splits)
  qed (simp add: discovery_onJoin_def Server_IsLeader_def)
  then show "gossip_join lib s node \<noteq> None" by (simp add: gossip_join_def split: option.splits del: not_None_eq)
  have "discovery_onLeave lib s n \<noteq> None" for n
  proof (cases "cs_isLeader s")
    case True
    obtain s1 e1 where 1: "remove_server lib s n = Some (s1, e1)" "server_ok s1" "cs_raft s1 \<noteq> None"
      using R(2) [OF assms(2) lead [OF True]] by metis
    obtain s2 e2 where 2: "ApplyMemberLeave lib s1 n = Some (s2, e2)" "server_ok s2" "cs_raft s2 \<noteq> None"
      unfolding ApplyMemberLeave_def using R(3) [OF 1(2,3)] by metis
    then show ?thesis
      using True 1 parity_returns [OF 2(2)]
      by (auto simp: discovery_onLeave_def Server_IsLeader_def split: option.splits)
  qed (simp add: discovery_onLeave_def Server_IsLeader_def)
  then show "gossip_leave lib s node \<noteq> None" by (simp add: gossip_leave_def split: option.splits del: not_None_eq)
qed

section \<open>Joining by gossip\<close>

text \<open>What Raft documents: a voter is added and an entry is applied when the calls report no error; here no other entry
  arrives meanwhile.\<close>

definition raft_obeys :: "'r raft_lib \<Rightarrow> bool" where
  "raft_obeys lib \<longleftrightarrow> (\<forall>r n a t. \<exists>r'. lib_AddVoter lib r n a t = (r', [], None)) \<and>
     (\<forall>r d t. applicable_entry d \<longrightarrow> (\<exists>r'. lib_Apply lib r d t = (r', [d], None)))"

definition joined :: "string \<Rightarrow> string \<Rightarrow> fsm \<Rightarrow> fsm \<Rightarrow> bool" where
  "joined n a f g \<longleftrightarrow> f_shardMap g = f_shardMap f \<and> nm_get (f_members g) =
     (nm_get (f_members f))(n \<mapsto> Some \<lparr> m_NodeID = n, m_Addr = a, m_IsLeader = False, m_State = ''alive'' \<rparr>)"

lemma ApplyMemberJoin_joins:
  assumes "server_ok s" "cs_isLeader s" "utf8_ValidString n" "utf8_ValidString a"
    and "\<And>r d t. applicable_entry d \<Longrightarrow> \<exists>r'. lib_Apply lib r d t = (r', [d], None)"
  shows "\<exists>s'. ApplyMemberJoin lib s n a = Some (s', None) \<and> server_ok s' \<and> joined n a (cs_fsm s) (cs_fsm s') \<and> cs_raft s' \<noteq> None"
proof -
  let ?j = "\<lparr> mj_NodeID = n, mj_Addr = a \<rparr>"
  obtain b where b: "encodeLogEntry LogEntryMemberJoin (member_join_json ?j) = Inr b" and
    fb: "\<And>f. FSM_Apply f b = map_option (\<lambda>ms. f \<lparr> f_members := ms \<rparr>)
       (nm_set n (Some \<lparr> m_NodeID = n, m_Addr = a, m_IsLeader = False, m_State = ''alive'' \<rparr>) (f_members f))"
    by (rule member_join_applies [of ?j]) (simp_all add: assms(3,4))
  obtain ms where ms: "f_members (cs_fsm s) = Some ms" using assms(1) by (auto simp: server_ok_def fsm_ok_def nm_all_def)
  obtain node where node: "cs_raft s = Some node" using assms(1,2) by (auto simp: server_ok_def)
  have "applicable_entry b" using assms(1) fb ms applicable_entry_iff [of "cs_fsm s" b] by (simp add: server_ok_def)
  then obtain r' where "lib_Apply lib (rn_raft node) b (to_RaftApply (cc_Timeouts (cs_config s))) = (r', [b], None)"
    using assms(5) by blast
  then have eq: "ApplyMemberJoin lib s n a = Some (s \<lparr> cs_raft := Some (node \<lparr> rn_raft := r' \<rparr>), cs_fsm := the (FSM_Apply (cs_fsm s) b) \<rparr>, None)"
    using assms(2) b node ms fb
    by (simp add: ApplyMemberJoin_def apply_entry_def Server_IsLeader_def raft_call_def RaftNode_Apply_def node_result_def)
  from cluster_call_ok(2) [OF eq assms(1)] show ?thesis
    using eq ms fb by (auto simp: joined_def gm_get_set fun_eq_iff)
qed

lemma add_voter_adds:
  assumes "raft_obeys lib" "server_ok s" "cs_isLeader s"
  shows "\<exists>s'. add_voter lib s n a = Some (s', None) \<and> server_ok s' \<and> cs_fsm s' = cs_fsm s \<and> cs_isLeader s'"
proof -
  obtain node where node: "cs_raft s = Some node" using assms(2,3) by (auto simp: server_ok_def)
  obtain r' where "lib_AddVoter lib (rn_raft node) n a (to_RaftMembership (cc_Timeouts (cs_config s))) = (r', [], None)"
    using assms(1) unfolding raft_obeys_def by metis
  then have eq: "add_voter lib s n a = Some (s \<lparr> cs_raft := Some (node \<lparr> rn_raft := r' \<rparr>) \<rparr>, None)"
    using node by (simp add: add_voter_def raft_call_def RaftNode_AddVoter_def node_result_def)
  from cluster_call_ok(4) [OF eq assms(2)] show ?thesis using eq assms(3) by auto
qed

lemma checkClusterParity_fsm: "checkClusterParity s = Some s' \<Longrightarrow> cs_fsm s' = cs_fsm s"
  by (auto simp: checkClusterParity_def Let_def warn_def)

section \<open>A small cluster\<close>

text \<open>A Raft that keeps the list of voters and applies at once whatever can be applied.\<close>

definition demo_raft :: "(string \<times> string) list raft_lib" where
  "demo_raft =
     \<lparr> lib_Apply = (\<lambda>r d t. if applicable_entry d then (r, [d], None) else (r, [], Some (PlainError ''refused''))),
       lib_AddVoter = (\<lambda>r n a t. ((n, a) # r, [], None)),
       lib_RemoveServer = (\<lambda>r n t. (filter (\<lambda>(m, a). m \<noteq> n) r, [], None)),
       lib_IsLeader = (\<lambda>r. True), lib_LeaderWithID = (\<lambda>r. (''10.0.0.1:5343'', ''n1'')), lib_Snapshot = (\<lambda>r. (r, None)),
       lib_GetConfiguration = Inr, lib_Stats = (\<lambda>r. []), lib_Shutdown = (\<lambda>r. (r, None)) \<rparr>"

definition demo_setup :: "(string \<times> string) list raft_setup" where
  "demo_setup = \<lparr> rs_MkdirAll = None, rs_ResolveTCPAddr = None, rs_NewTCPTransport = (\<lambda>t. None), rs_NewLogStore = None,
     rs_NewStableStore = None, rs_NewFileSnapshotStore = None, rs_NewRaft = Inr ([], []),
     rs_BootstrapCluster = (\<lambda>r n. ((n, ''10.0.0.1:5343'') # r, None)) \<rparr>"

definition demo_config :: cluster_config where
  "demo_config = \<lparr> cc_NodeID = ''n1'', cc_ClusterID = ''c1'', cc_RaftBindAddr = ''10.0.0.1:5343'', cc_GossipBindAddr = ''10.0.0.1'',
     cc_GossipBindPort = 5344, cc_Bootstrap = True, cc_SeedNodes = [], cc_RaftDataDir = ''/raft'', cc_ReplicationFactor = 3,
     cc_Storage = None, cc_Rebalance = DefaultRebalanceConfig \<lparr> rc_ConcurrentShards := 0 \<rparr>, cc_TLSConfig = False,
     cc_Timeouts = \<lparr> to_RaftApply = 0, to_RaftMembership = 0, to_RaftTransport = 0, to_StreamingRPC = 0, to_WaitLeader = 0,
       to_Rebalance = 0 \<rparr> \<rparr>"

definition demo_discovery :: discovery_setup where
  "demo_discovery = \<lparr> ds_Create = None, ds_Join = (\<lambda>ns. Inr 0) \<rparr>"

definition demo_new :: "(string \<times> string) list cluster_server" where
  "demo_new = (case NewServer demo_config of Inr s \<Rightarrow> s)"

lemma demo_raft_ok: "delivers_ok demo_raft" "raft_obeys demo_raft"
  by (simp_all add: delivers_ok_def raft_obeys_def demo_raft_def)

lemma demo_new_server: "NewServer demo_config = Inr demo_new" "cs_raft demo_new = None" "\<not> cs_stopped demo_new"
  by (simp_all add: demo_new_def NewServer_def Config_validate_def demo_config_def)

lemma demo_leader:
  obtains s d where "server_reach demo_raft demo_config s" "cs_isLeader s" "cs_discovery s = Some d" "d_callbacks d"
    "d_clusterID d = ''c1''"
proof -
  note defs = demo_new_def NewServer_def Config_validate_def demo_config_def Server_Start_def NewRaftNode_def start_raft_def
    raft_config_of_def demo_setup_def discovery_config_of_def demo_discovery_def NewDiscovery_def
  obtain t op d n where t: "Server_Start demo_raft demo_setup demo_discovery demo_new = Some (t, op, None)"
    and d: "cs_discovery t = Some d" "d_callbacks d" "d_clusterID d = ''c1''" and n: "cs_raft t = Some n" "\<not> cs_isLeader t"
    by (simp add: defs Let_def)
  have reach: "server_reach demo_raft demo_config t"
    using server_reach.start [OF server_reach.new [OF demo_new_server(1)] t] .
  then have ok: "server_ok t" using server_reach_ok by blast
  let ?t = "t \<lparr> cs_isLeader := True, cs_leaderAddr := RaftNode_Leader demo_raft n, cs_leaderID := RaftNode_LeaderID demo_raft n \<rparr>"
  obtain ms m where "FSM_GetMembers (cs_fsm t) = Some ms" "FSM_GetShardMap (cs_fsm t) = Some m"
    using ok fsm_ok_reads by (fastforce simp: server_ok_def)
  then have "\<exists>u. handleLeaderChange demo_raft t True = Some u \<and> cs_isLeader u \<and> cs_discovery u = Some d"
    using n d by (cases "cs_rebalanceManager t") (simp_all add: handleLeaderChange_def onBecomeLeader_def checkClusterParity_def warn_def Let_def)
  then obtain u where u: "leaderMonitorLoop demo_raft [Received True] t = Some u" "cs_isLeader u" "cs_discovery u = Some d"
    by auto
  show ?thesis using that [OF server_reach.leader [OF reach u(1)] u(2,3) d(2,3)] .
qed

lemma ascii_lits [simp]:
  "utf8_ValidString ''n2''" "utf8_ValidString ''10.0.0.2:5343''" "utf8_ValidString ''c1''" "utf8_ValidString ''c2''"
  by (rule utf8_ascii, simp add: is_ascii_def)+

section \<open>Properties\<close>



text \<open>C21: A node that tells its Raft address and its cluster by gossip, in valid UTF-8 and within the limit for
  metadata, is handled by the leader as told: with the identifier of another cluster nothing changes at all; otherwise, when
  the calls on Raft succeed, the node becomes a member under its name with exactly the address that it told, alive, and no other
  member and no shard changes.\<close>

theorem gossip_join_exact:
  assumes "server_ok s" "cs_isLeader s" "cs_discovery s = Some d" "d_callbacks d" "raft_obeys lib"
    and "utf8_ValidString (nd_Name node)" "utf8_ValidString (nmd_RaftAddr m)" "utf8_ValidString (nmd_ClusterID m)"
    and "nmd_RaftAddr m \<noteq> ''''" "length (json_text (node_metadata_json m)) \<le> limit" "nd_Meta node = NodeMeta m limit"
  shows "if d_clusterID d \<noteq> '''' \<and> nmd_ClusterID m \<noteq> '''' \<and> nmd_ClusterID m \<noteq> d_clusterID d
    then gossip_join lib s node = Some s
    else \<exists>s'. gossip_join lib s node = Some s' \<and> server_ok s' \<and>
      joined (nd_Name node) (nmd_RaftAddr m) (cs_fsm s) (cs_fsm s')"
proof -
  let ?n = "nd_Name node" and ?a = "nmd_RaftAddr m"
  have told: "NotifyJoin d node =
      (if d_clusterID d \<noteq> '''' \<and> nmd_ClusterID m \<noteq> '''' \<and> nmd_ClusterID m \<noteq> d_clusterID d then None else Some ?a)"
    using NotifyJoin_advertised [OF assms(7,8,10,11)] assms(9) by simp
  obtain s1 where 1: "add_voter lib s ?n ?a = Some (s1, None)" "server_ok s1" "cs_fsm s1 = cs_fsm s" "cs_isLeader s1"
    using add_voter_adds [OF assms(5,1,2)] by blast
  have obeys: "applicable_entry e \<Longrightarrow> \<exists>r'. lib_Apply lib r e t = (r', [e], None)" for r e t
    using assms(5) unfolding raft_obeys_def by metis
  obtain s2 where 2: "ApplyMemberJoin lib s1 ?n ?a = Some (s2, None)" "server_ok s2" "joined ?n ?a (cs_fsm s) (cs_fsm s2)"
    using ApplyMemberJoin_joins [OF 1(2,4) assms(6,7) obeys] 1(3) by metis
  obtain s3 where 3: "checkClusterParity s2 = Some s3" using parity_returns [OF 2(2)] by auto
  have "discovery_onJoin lib s ?n ?a = Some s3" using assms(2) 1(1) 2(1) 3 by (simp add: discovery_onJoin_def Server_IsLeader_def)
  moreover have "server_ok s3" using checkClusterParity_ok [OF 3] 2(2) by simp
  ultimately show ?thesis using told assms(3,4) 2(3) checkClusterParity_fsm [OF 3] by (simp add: gossip_join_def)
qed

theorem gossip_join_exact_witness:
  "\<exists>s s' m. server_reach demo_raft demo_config s \<and> m = \<lparr> nmd_RaftAddr = ''10.0.0.2:5343'', nmd_ClusterID = ''c1'' \<rparr> \<and>
     gossip_join demo_raft s \<lparr> nd_Name = ''n2'', nd_Addr = ''10.0.0.2'', nd_Port = 5344, nd_Meta = NodeMeta m 512 \<rparr> = Some s' \<and>
     joined ''n2'' ''10.0.0.2:5343'' (cs_fsm s) (cs_fsm s')"
proof -
  obtain s d where s: "server_reach demo_raft demo_config s" "cs_isLeader s" "cs_discovery s = Some d" "d_callbacks d"
    "d_clusterID d = ''c1''" by (rule demo_leader)
  let ?m = "\<lparr> nmd_RaftAddr = ''10.0.0.2:5343'', nmd_ClusterID = ''c1'' \<rparr>"
  let ?node = "\<lparr> nd_Name = ''n2'', nd_Addr = ''10.0.0.2'', nd_Port = 5344, nd_Meta = NodeMeta ?m 512 \<rparr>"
  have ok: "server_ok s" using server_reach_ok [OF s(1)] by simp
  have fits: "length (json_text (node_metadata_json ?m)) \<le> 512" by code_simp
  have "if d_clusterID d \<noteq> '''' \<and> nmd_ClusterID ?m \<noteq> '''' \<and> nmd_ClusterID ?m \<noteq> d_clusterID d
    then gossip_join demo_raft s ?node = Some s
    else \<exists>s'. gossip_join demo_raft s ?node = Some s' \<and> server_ok s' \<and>
      joined (nd_Name ?node) (nmd_RaftAddr ?m) (cs_fsm s) (cs_fsm s')"
    by (rule gossip_join_exact [OF ok s(2,3,4) demo_raft_ok(2) _ _ _ _ fits]) simp_all
  then show ?thesis using s by auto
qed

text \<open>A start that fails leaves nothing of Raft open. But when it was the discovery that failed, the closed Raft node stays
  with the server, and stopping the server then closes its channel a second time and panics.\<close>

lemma failed_start_then_stop:
  assumes "Server_Start lib su ds s = Some (s', opened, Some err)" "cs_raft s = None" "\<not> cs_stopped s"
  shows "opened = [] \<and> cs_discovery s' = cs_discovery s \<and>
    (if isl (NewDiscovery ds (discovery_config_of (cs_config s))) \<and> cs_raft s' \<noteq> None
     then Server_Stop lib st s' = None else Server_Stop lib st s' \<noteq> None)"
proof (rule NewRaftNode_resources [of lib su "raft_config_of (cs_config s)"])
  fix es e
  assume "NewRaftNode lib su (raft_config_of (cs_config s)) = Some ([], es, Inl e)"
  then obtain f where "s' = s \<lparr> cs_fsm := f \<rparr>" "opened = []"
    using assms(1) by (auto simp: Server_Start_def split: option.splits)
  then show ?thesis using assms(2,3) by (simp add: Server_Stop_def)
next
  fix es n
  assume n: "NewRaftNode lib su (raft_config_of (cs_config s)) = Some (rn_open n, es, Inr n)" "\<not> rn_leaderChClosed n"
  then obtain n' f e where s': "RaftNode_Close lib n = Some n'" "s' = s \<lparr> cs_fsm := f, cs_raft := Some n' \<rparr>" "opened = rn_open n'"
    "NewDiscovery ds (discovery_config_of (cs_config s)) = Inl e"
    using assms(1) by (auto simp: Server_Start_def split: option.splits sum.splits)
  then show ?thesis
    using RaftNode_Close_open [OF s'(1)] RaftNode_Close_again [OF s'(1)] assms(3) by (simp add: Server_Stop_def Let_def)
qed

section \<open>Consequences of the order of steps\<close>

text \<open>The RPC that joins a node applies the entry before it adds the voter and does not undo it: when adding the voter
  fails, the caller gets an error and the node is a member all the same.\<close>

lemma join_rpc_leaves_member:
  assumes "server_ok s" "cs_isLeader s" "utf8_ValidString n" "utf8_ValidString a"
    and "\<And>r d t. applicable_entry d \<Longrightarrow> \<exists>r'. lib_Apply lib r d t = (r', [d], None)"
    and "\<And>r t. lib_AddVoter lib r n a t = (r, [], Some err)"
  shows "\<exists>s' e. Handler_Join lib s n a = Some (s', Inl (CodeInternal, e)) \<and> joined n a (cs_fsm s) (cs_fsm s')"
proof -
  obtain s1 where s1: "ApplyMemberJoin lib s n a = Some (s1, None)" "server_ok s1" "joined n a (cs_fsm s) (cs_fsm s1)" "cs_raft s1 \<noteq> None"
    using ApplyMemberJoin_joins [OF assms(1-5)] by blast
  then show ?thesis
    using assms(2,6) by (auto simp: Handler_Join_def Server_IsLeader_def add_voter_def raft_call_def RaftNode_AddVoter_def node_result_def)
qed

text \<open>The joining of a node of another cluster is refused, its leaving is not: when a member has its name, the leader
  removes that member.\<close>

lemma foreign_leave_handled:
  assumes "cs_discovery s = Some d" "d_callbacks d"
  shows "gossip_leave lib s node = discovery_onLeave lib s (nd_Name node)"
  using assms by (simp add: gossip_leave_def)

end
