(* ===== verification/Go_Text.thy ===== *)
theory Go_Text
  imports Go_Json
begin

text \<open>
  What the servers use of \<open>strings\<close>, \<open>strconv\<close> and \<open>time\<close>: white space, decimal numbers, durations, and the
  operations of \<open>float64\<close> as a parameter.
\<close>

section \<open>White space and numbers\<close>

text \<open>\<open>unicode.IsSpace\<close> at the start of a string: the length of the white space character, zero when there is
  none. The lead byte of a character never occurs inside another, so a string may be scanned byte by byte.\<close>

fun space_len :: "string \<Rightarrow> nat" where
  "space_len [] = 0"
| "space_len (a # r) =
     (if cc a = 32 \<or> 9 \<le> cc a \<and> cc a \<le> 13 then 1
      else if cc a = 0xC2 then (case r of b # _ \<Rightarrow> if cc b = 0x85 \<or> cc b = 0xA0 then 2 else 0 | _ \<Rightarrow> 0)
      else if cc a = 0xE1 then (case r of b # c # _ \<Rightarrow> if cc b = 0x9A \<and> cc c = 0x80 then 3 else 0 | _ \<Rightarrow> 0)
      else if cc a = 0xE2 then
        (case r of
           b # c # _ \<Rightarrow>
             if cc b = 0x80 \<and> (0x80 \<le> cc c \<and> cc c \<le> 0x8A \<or> cc c = 0xA8 \<or> cc c = 0xA9 \<or> cc c = 0xAF) \<or>
                cc b = 0x81 \<and> cc c = 0x9F then 3 else 0
         | _ \<Rightarrow> 0)
      else if cc a = 0xE3 then (case r of b # c # _ \<Rightarrow> if cc b = 0x80 \<and> cc c = 0x80 then 3 else 0 | _ \<Rightarrow> 0)
      else 0)"

lemma space_len_pos: "0 < space_len s \<Longrightarrow> length s - space_len s < length s"
  by (cases s) (simp_all del: space_len.simps(2))

function trim_left :: "string \<Rightarrow> string" where
  "trim_left s = (if space_len s = 0 then s else trim_left (drop (space_len s) s))"
  by pat_completeness auto
termination
  by (relation "measure length") (auto dest: space_len_pos)

text \<open>The length of a white space character at the end.\<close>

definition last_space :: "string \<Rightarrow> nat" where
  "last_space s = (case filter (\<lambda>k. k \<le> length s \<and> space_len (drop (length s - k) s) = k) [1, 2, 3] of [] \<Rightarrow> 0 | k # _ \<Rightarrow> k)"

lemma last_space_pos: "0 < last_space s \<Longrightarrow> length s - last_space s < length s"
  by (cases s) (simp_all add: last_space_def)

function trim_right :: "string \<Rightarrow> string" where
  "trim_right s = (if last_space s = 0 then s else trim_right (take (length s - last_space s) s))"
  by pat_completeness auto
termination
  by (relation "measure length") (auto dest: last_space_pos)

declare trim_left.simps [simp del] trim_right.simps [simp del]

definition TrimSpace :: "string \<Rightarrow> string" where
  "TrimSpace s = trim_right (trim_left s)"

function fields_loop :: "string \<Rightarrow> string \<Rightarrow> string list" where
  "fields_loop cur s =
     (case s of
        [] \<Rightarrow> if cur = [] then [] else [cur]
      | c # r \<Rightarrow>
          if space_len s = 0 then fields_loop (cur @ [c]) r
          else (if cur = [] then [] else [cur]) @ fields_loop [] (drop (space_len s) s))"
  by pat_completeness auto
termination
  by (relation "measure (\<lambda>(cur, s). length s)") (auto intro: diff_less)

declare fields_loop.simps [simp del]

definition strings_Fields :: "string \<Rightarrow> string list" where
  "strings_Fields s = fields_loop [] s"

text \<open>\<open>strconv.ParseInt(s, 10, 64)\<close>, and \<open>strconv.Atoi\<close>, which gives the same.\<close>

definition strconv_ParseInt :: "string \<Rightarrow> int option" where
  "strconv_ParseInt s =
     (let (sign, d) = (case s of c # r \<Rightarrow> if c = CHR ''-'' then (- 1, r) else if c = CHR ''+'' then (1, r) else (1, s) | [] \<Rightarrow> (1, s));
          n = sign * int (dec_val d)
      in if d \<noteq> [] \<and> list_all is_digit d \<and> in_i64 n then Some n else None)"

section \<open>Durations\<close>

text \<open>The operations of \<open>float64\<close> that are used; \<open>fl_Seconds\<close> is \<open>Duration.Seconds\<close>, \<open>fl_int64\<close> the conversion.\<close>

record 'f float64 =
  fl_of_int :: "int \<Rightarrow> 'f"
  fl_add :: "'f \<Rightarrow> 'f \<Rightarrow> 'f"
  fl_mul :: "'f \<Rightarrow> 'f \<Rightarrow> 'f"
  fl_le :: "'f \<Rightarrow> 'f \<Rightarrow> bool"
  fl_less :: "'f \<Rightarrow> 'f \<Rightarrow> bool"
  fl_Seconds :: "int \<Rightarrow> 'f"
  fl_int64 :: "'f \<Rightarrow> int"

text \<open>The difference of two instants is clamped to the range of a duration.\<close>

definition time_Sub :: "int \<Rightarrow> int \<Rightarrow> int" where
  "time_Sub t u = max (- (2 ^ 63)) (min (2 ^ 63 - 1) (t - u))"

declare space_len.simps(2) [simp del]

section \<open>Facts\<close>

text \<open>Characters that no trimming removes.\<close>

definition visible :: "char \<Rightarrow> bool" where
  "visible c \<longleftrightarrow> 33 \<le> cc c \<and> cc c < 128"

lemma space_len_visible: "s \<noteq> [] \<Longrightarrow> visible (hd s) \<Longrightarrow> space_len s = 0"
  by (cases s) (auto simp: visible_def space_len.simps(2))

lemma TrimSpace_visible:
  assumes "list_all visible s"
  shows "TrimSpace s = s"
proof -
  have suffix: "space_len (drop k s) = 0" if "k < length s" for k
    using space_len_visible [of "drop k s"] that assms by (simp add: list_all_length hd_drop_conv_nth)
  have "last_space s = 0"
    using suffix by (auto simp: last_space_def filter_empty_conv split: list.splits)
  moreover have "space_len s = 0" using suffix [of 0] by (cases s) auto
  ultimately show ?thesis by (simp add: TrimSpace_def trim_left.simps [of s] trim_right.simps [of s])
qed

lemma digit_visible: "list_all is_digit s \<Longrightarrow> list_all visible s"
  by (auto simp: list_all_iff is_digit_def visible_def Let_def)

lemma dec_digits_length: "n < 10 ^ Suc k \<Longrightarrow> length (dec_digits n) \<le> Suc k"
proof (induction k arbitrary: n)
  case 0
  then show ?case by (subst dec_digits.simps) simp
next
  case (Suc k)
  have "n div 10 < 10 ^ Suc k" using Suc.prems by (simp add: less_mult_imp_div_less)
  from Suc.IH [OF this] show ?case by (subst dec_digits.simps) simp
qed

lemma ParseInt_digits:
  assumes "in_i64 (int n)"
  shows "strconv_ParseInt (dec_digits n) = Some (int n)"
proof -
  obtain c r where c: "dec_digits n = c # r" using dec_digits_ne [of n] by (cases "dec_digits n") auto
  then have "is_digit c" using dec_digits_digits [of n] by simp
  then have "c \<noteq> CHR ''-''" "c \<noteq> CHR ''+''" by (auto simp: is_digit_def Let_def)
  then show ?thesis using c assms dec_digits_val [of n] dec_digits_digits [of n] by (simp add: strconv_ParseInt_def)
qed

end
