(* ===== verification/Redis_Resp.thy ===== *)
theory Redis_Resp
  imports Go_Text Go_Os
begin

text \<open>
  The Redis wire protocol, \<open>internal/server/redisserver/resp.go\<close>: reading a command from a connection
  and writing replies.

  A \<open>bufio.Reader\<close> is what the connection still delivers, and the error it reports after that. A byte
  slice that may be nil is an option. Replies are the text that is written; the handlers ignore the errors of
  the writer.
\<close>

section \<open>The reader\<close>

definition CRLF :: string where "CRLF = [CHR 0x0D, CHR 0x0A]"

record resp_reader =
  rd_data :: string
  rd_err :: go_error

abbreviation bufio_defaultBufSize :: nat where "bufio_defaultBufSize \<equiv> 4096"

text \<open>\<open>ReadSlice\<close>: a slice that ends with the delimiter, a full buffer without it, or what was left with the
  error of the stream.\<close>

datatype slice_end = SliceDelim | SliceFull | SliceErr go_error

definition ReadSlice :: "char \<Rightarrow> resp_reader \<Rightarrow> string \<times> slice_end \<times> resp_reader" where
  "ReadSlice d r =
     (let s = rd_data r; n = length (takeWhile (\<lambda>c. c \<noteq> d) s) in
      if n < length s \<and> n < bufio_defaultBufSize then (take (Suc n) s, SliceDelim, r \<lparr> rd_data := drop (Suc n) s \<rparr>)
      else if bufio_defaultBufSize \<le> length s then
        (take bufio_defaultBufSize s, SliceFull, r \<lparr> rd_data := drop bufio_defaultBufSize s \<rparr>)
      else (s, SliceErr (rd_err r), r \<lparr> rd_data := [] \<rparr>))"

definition rd_ReadFull :: "nat \<Rightarrow> resp_reader \<Rightarrow> (go_error + string) \<times> resp_reader" where
  "rd_ReadFull n r =
     (if n \<le> length (rd_data r) then (Inr (take n (rd_data r)), r \<lparr> rd_data := drop n (rd_data r) \<rparr>)
      else (Inl (if rd_data r \<noteq> [] \<and> rd_err r = io_EOF then io_ErrUnexpectedEOF else rd_err r), r \<lparr> rd_data := [] \<rparr>))"

section \<open>Limits and errors\<close>

abbreviation MaxArrayLen :: int where "MaxArrayLen \<equiv> 1024"
abbreviation MaxBulkLen :: int where "MaxBulkLen \<equiv> 524288"
abbreviation MaxInlineLen :: int where "MaxInlineLen \<equiv> 4096"

definition ErrProtocol :: go_error where "ErrProtocol = PlainError ''resp: protocol error''"
definition ErrLimitExceeded :: go_error where "ErrLimitExceeded = PlainError ''resp: limit exceeded''"

section \<open>Reading\<close>

definition line_limit_error :: "int \<Rightarrow> go_error" where
  "line_limit_error maxLen = SuffixError ErrLimitExceeded (''line length exceeds limit '' @ FormatInt maxLen)"

text \<open>The loop of \<open>readLine\<close>, which collects the slices of a line.\<close>

function readLine_loop :: "int \<Rightarrow> string \<Rightarrow> resp_reader \<Rightarrow> (go_error + string) \<times> resp_reader" where
  "readLine_loop maxLen buf r =
     (case ReadSlice (CHR 0x0A) r of
        (frag, SliceDelim, r') \<Rightarrow> (Inr (buf @ frag), r')
      | (frag, SliceFull, r') \<Rightarrow>
          if int (length (buf @ frag)) > maxLen then (Inl (line_limit_error maxLen), r')
          else readLine_loop maxLen (buf @ frag) r'
      | (frag, SliceErr err, r') \<Rightarrow> (Inl err, r'))"
  by pat_completeness auto
termination
  by (relation "measure (\<lambda>(m, buf, r). length (rd_data r))") (auto simp: ReadSlice_def Let_def split: if_splits)

declare readLine_loop.simps [simp del]

definition readLine :: "int \<Rightarrow> resp_reader \<Rightarrow> (go_error + string) \<times> resp_reader" where
  "readLine maxLen r =
     (if maxLen \<le> 0 then (Inl (SuffixError ErrProtocol ''invalid maxLen''), r)
      else
        (case readLine_loop maxLen [] r of
           (Inl err, r') \<Rightarrow> (Inl err, r')
         | (Inr buf, r') \<Rightarrow>
             if int (length buf) > maxLen then (Inl (line_limit_error maxLen), r')
             else if length buf < 2 \<or> \<not> HasSuffix buf CRLF then (Inl (SuffixError ErrProtocol ''missing CRLF''), r')
             else (Inr (take (length buf - 2) buf), r')))"

definition readBulkString :: "resp_reader \<Rightarrow> (go_error + string option) \<times> resp_reader" where
  "readBulkString r =
     (case readLine 64 r of
        (Inl err, r1) \<Rightarrow> (Inl err, r1)
      | (Inr line, r1) \<Rightarrow>
          if length line < 2 \<or> line ! 0 \<noteq> CHR ''$'' then
            (if length line \<ge> 2 \<and> line ! 0 = CHR ''+'' then (Inr (Some (drop 1 line)), r1)
             else (Inl (SuffixError ErrProtocol ''expected bulk string''), r1))
          else
            (case strconv_ParseInt (TrimSpace (drop 1 line)) of
               None \<Rightarrow> (Inl (SuffixError ErrProtocol ''invalid bulk length''), r1)
             | Some n \<Rightarrow>
                 if n = - 1 then (Inr None, r1)
                 else if n < 0 then (Inl (SuffixError ErrProtocol ''invalid bulk length''), r1)
                 else if n > MaxBulkLen then
                   (Inl (SuffixError ErrLimitExceeded
                      (''bulk length '' @ FormatInt n @ '' exceeds limit '' @ FormatInt MaxBulkLen)), r1)
                 else
                   (case rd_ReadFull (nat n + 2) r1 of
                      (Inl err, r2) \<Rightarrow> (Inl err, r2)
                    | (Inr buf, r2) \<Rightarrow>
                        if \<not> HasSuffix buf CRLF then (Inl (SuffixError ErrProtocol ''invalid bulk terminator''), r2)
                        else (Inr (Some (take (length buf - 2) buf)), r2))))"

fun read_args :: "nat \<Rightarrow> string option list \<Rightarrow> resp_reader \<Rightarrow> (go_error + string option list) \<times> resp_reader" where
  "read_args 0 out r = (Inr out, r)"
| "read_args (Suc n) out r =
     (case readBulkString r of
        (Inl err, r') \<Rightarrow> (Inl err, r')
      | (Inr arg, r') \<Rightarrow> read_args n (out @ [arg]) r')"

text \<open>No arguments at all: a nil slice and no error.\<close>

definition readArrayCommand :: "resp_reader \<Rightarrow> (go_error + string option list) \<times> resp_reader" where
  "readArrayCommand r =
     (case readLine 64 r of
        (Inl err, r1) \<Rightarrow> (Inl err, r1)
      | (Inr line, r1) \<Rightarrow>
          if length line < 2 \<or> line ! 0 \<noteq> CHR ''*'' then (Inl (SuffixError ErrProtocol ''expected array''), r1)
          else
            (case strconv_ParseInt (TrimSpace (drop 1 line)) of
               None \<Rightarrow> (Inl (SuffixError ErrProtocol ''invalid array length''), r1)
             | Some n \<Rightarrow>
                 if n \<le> 0 then (Inr [], r1)
                 else if n > MaxArrayLen then
                   (Inl (SuffixError ErrLimitExceeded
                      (''array length '' @ FormatInt n @ '' exceeds limit '' @ FormatInt MaxArrayLen)), r1)
                 else read_args (nat n) [] r1))"

definition ReadCommand :: "resp_reader \<Rightarrow> (go_error + string option list) \<times> resp_reader" where
  "ReadCommand r =
     (case rd_data r of
        [] \<Rightarrow> (Inl (rd_err r), r)
      | b # _ \<Rightarrow>
          if b = CHR ''*'' then readArrayCommand r
          else
            (case readLine MaxInlineLen r of
               (Inl err, r1) \<Rightarrow> (Inl err, r1)
             | (Inr line, r1) \<Rightarrow>
                 if TrimSpace line = '''' then (Inr [], r1)
                 else (Inr (map Some (strings_Fields (TrimSpace line))), r1)))"

section \<open>Writing\<close>

definition WriteSimpleString :: "string \<Rightarrow> string" where "WriteSimpleString s = ''+'' @ s @ CRLF"
definition WriteError :: "string \<Rightarrow> string" where "WriteError s = ''-'' @ s @ CRLF"
definition WriteInteger :: "int \<Rightarrow> string" where "WriteInteger n = '':'' @ FormatInt n @ CRLF"
definition WriteNullBulk :: string where "WriteNullBulk = ''$-1'' @ CRLF"

definition WriteBulk :: "string option \<Rightarrow> string" where
  "WriteBulk b =
     (case b of None \<Rightarrow> WriteNullBulk | Some s \<Rightarrow> ''$'' @ FormatInt (int (length s)) @ CRLF @ s @ CRLF)"

definition WriteBulkString :: "string \<Rightarrow> string" where "WriteBulkString s = WriteBulk (Some s)"
definition WriteArrayHeader :: "nat \<Rightarrow> string" where "WriteArrayHeader n = ''*'' @ FormatInt (int n) @ CRLF"

section \<open>Command names\<close>

definition normalizeCommandName :: "ext \<Rightarrow> string \<Rightarrow> string" where
  "normalizeCommandName X b =
     (if b = '''' then ''''
      else if list_ex (\<lambda>c. c \<in> set ''abcdefghijklmnopqrstuvwxyz'') b then ToUpper X b
      else b)"

section \<open>Lines and numbers\<close>

lemma ReadSlice_line:
  assumes "CHR 0x0A \<notin> set l" "length l < bufio_defaultBufSize"
  shows "ReadSlice (CHR 0x0A) \<lparr> rd_data = l @ CHR 0x0A # rest, rd_err = e \<rparr> = (l @ [CHR 0x0A], SliceDelim, \<lparr> rd_data = rest, rd_err = e \<rparr>)"
proof -
  have "takeWhile (\<lambda>c. c \<noteq> CHR 0x0A) (l @ CHR 0x0A # rest) = l" using assms(1) by (subst takeWhile_append2) auto
  then show ?thesis using assms(2) by (simp add: ReadSlice_def Let_def)
qed

lemma HasSuffix_append [simp]: "HasSuffix (s @ p) p"
  by (simp add: HasSuffix_def)

lemma CRLF_length [simp]: "length CRLF = 2"
  by (simp add: CRLF_def)

lemma readLine_line:
  assumes "CHR 0x0A \<notin> set l" "int (length l) + 2 \<le> m" "m \<le> int bufio_defaultBufSize"
  shows "readLine m \<lparr> rd_data = l @ CRLF @ rest, rd_err = e \<rparr> = (Inr l, \<lparr> rd_data = rest, rd_err = e \<rparr>)"
proof -
  have "ReadSlice (CHR 0x0A) \<lparr> rd_data = l @ CRLF @ rest, rd_err = e \<rparr> =
      (l @ CRLF, SliceDelim, \<lparr> rd_data = rest, rd_err = e \<rparr>)"
    using ReadSlice_line [of "l @ [CHR 0x0D]" rest e] assms by (simp add: CRLF_def)
  then have "readLine_loop m [] \<lparr> rd_data = l @ CRLF @ rest, rd_err = e \<rparr> = (Inr (l @ CRLF), \<lparr> rd_data = rest, rd_err = e \<rparr>)"
    by (subst readLine_loop.simps) simp
  then show ?thesis using assms by (simp add: readLine_def)
qed

lemma header_line:
  assumes "n < 1000000" "c \<noteq> CHR 0x0A"
  shows "readLine 64 \<lparr> rd_data = [c] @ FormatInt (int n) @ CRLF @ rest, rd_err = e \<rparr> =
      (Inr (c # dec_digits n), \<lparr> rd_data = rest, rd_err = e \<rparr>)"
proof -
  have d: "CHR 0x0A \<notin> set (dec_digits n)" using dec_digits_digits [of n] by (auto simp: list_all_iff is_digit_def Let_def)
  have l: "length (dec_digits n) \<le> 6" using dec_digits_length [of n 5] assms(1) by simp
  show "readLine 64 \<lparr> rd_data = [c] @ FormatInt (int n) @ CRLF @ rest, rd_err = e \<rparr> =
      (Inr (c # dec_digits n), \<lparr> rd_data = rest, rd_err = e \<rparr>)"
    using readLine_line [of "c # dec_digits n" 64 rest e] assms(2) d l by (simp add: FormatInt_def)
qed

lemma header_number: "n < 1000000 \<Longrightarrow> strconv_ParseInt (TrimSpace (dec_digits n)) = Some (int n)"
  using ParseInt_digits [of n] TrimSpace_visible [OF digit_visible [OF dec_digits_digits]] by (simp add: in_i64_def)

section \<open>Commands round trip\<close>

lemma readBulk_WriteBulk:
  assumes "\<And>s. b = Some s \<Longrightarrow> int (length s) \<le> MaxBulkLen"
  shows "readBulkString \<lparr> rd_data = WriteBulk b @ rest, rd_err = e \<rparr> = (Inr b, \<lparr> rd_data = rest, rd_err = e \<rparr>)"
proof (cases b)
  case None
  have "readLine 64 \<lparr> rd_data = ''$-1'' @ CRLF @ rest, rd_err = e \<rparr> = (Inr ''$-1'', \<lparr> rd_data = rest, rd_err = e \<rparr>)"
    by (rule readLine_line) simp_all
  moreover have "TrimSpace ''-1'' = ''-1''" by (rule TrimSpace_visible) (simp add: visible_def)
  moreover have "strconv_ParseInt ''-1'' = Some (- 1)"
    by (simp add: strconv_ParseInt_def is_digit_def dec_val_def digit_val_def in_i64_def)
  ultimately show ?thesis using None by (simp add: readBulkString_def WriteBulk_def WriteNullBulk_def)
next
  case (Some s)
  then have n: "length s < 1000000" "int (length s) \<le> MaxBulkLen" using assms [of s] by simp_all
  note H = header_line [OF n(1), of "CHR ''$''" "s @ CRLF @ rest" e] header_number [OF n(1)] dec_digits_ne [of "length s"]
  have "readBulkString \<lparr> rd_data = ''$'' @ FormatInt (int (length s)) @ CRLF @ s @ CRLF @ rest, rd_err = e \<rparr> =
      (Inr (Some s), \<lparr> rd_data = rest, rd_err = e \<rparr>)"
    unfolding readBulkString_def using H n by (cases "dec_digits (length s)") (simp_all add: rd_ReadFull_def)
  then show ?thesis using Some by (simp add: WriteBulk_def)
qed

lemma read_args_WriteBulk:
  assumes "\<And>s. Some s \<in> set bs \<Longrightarrow> int (length s) \<le> MaxBulkLen"
  shows "read_args (length bs) out \<lparr> rd_data = concat (map WriteBulk bs) @ rest, rd_err = e \<rparr> =
    (Inr (out @ bs), \<lparr> rd_data = rest, rd_err = e \<rparr>)"
  using assms
proof (induction bs arbitrary: out)
  case (Cons b bs)
  then show ?case using readBulk_WriteBulk [of b "concat (map WriteBulk bs) @ rest" e] by simp
qed simp

section \<open>Bounds\<close>

lemma ReadSlice_split:
  "ReadSlice d r = (frag, en, r') \<Longrightarrow> rd_data r = frag @ rd_data r' \<and> rd_err r' = rd_err r"
  by (auto simp: ReadSlice_def Let_def split: if_splits)

lemma readLine_loop_split:
  "readLine_loop m buf r = (Inr l, r') \<Longrightarrow> \<exists>c. l = buf @ c \<and> rd_data r = c @ rd_data r'"
proof (induction m buf r rule: readLine_loop.induct)
  case (1 m buf r)
  obtain frag en r1 where s: "ReadSlice (CHR 0x0A) r = (frag, en, r1)" by (metis prod_cases3)
  note S = ReadSlice_split [OF s]
  show ?case
  proof (cases en)
    case SliceDelim
    then show ?thesis using 1(2) s S by (simp add: readLine_loop.simps [of m buf r])
  next
    case SliceFull
    then have "readLine_loop m (buf @ frag) r1 = (Inr l, r')"
      and le: "\<not> m < int (length (buf @ frag))"
      using 1(2) s by (simp_all add: readLine_loop.simps [of m buf r] split: if_splits)
    from 1(1) [OF s [symmetric] refl _ le this(1)] SliceFull S show ?thesis by auto
  next
    case (SliceErr err)
    then show ?thesis using 1(2) s by (simp add: readLine_loop.simps [of m buf r])
  qed
qed

lemma readLine_bounds:
  assumes "readLine m r = (Inr l, r')"
  shows "int (length l) + 2 \<le> m" "length (rd_data r) = length l + 2 + length (rd_data r')"
proof -
  obtain buf where b: "readLine_loop m [] r = (Inr buf, r')" "int (length buf) \<le> m" "2 \<le> length buf" "l = take (length buf - 2) buf"
    using assms by (auto simp: readLine_def split: if_splits prod.splits sum.splits)
  then have "rd_data r = buf @ rd_data r'" using readLine_loop_split [OF b(1)] by simp
  with b show "int (length l) + 2 \<le> m" "length (rd_data r) = length l + 2 + length (rd_data r')" by simp_all
qed

lemma readBulk_bounds:
  assumes "readBulkString r = (Inr b, r')"
  shows "\<And>s. b = Some s \<Longrightarrow> int (length s) \<le> MaxBulkLen" "length (rd_data r') < length (rd_data r)"
proof -
  obtain line r1 where l: "readLine 64 r = (Inr line, r1)" using assms
    by (auto simp: readBulkString_def split: prod.splits sum.splits)
  note B = readLine_bounds [OF l]
  show "length (rd_data r') < length (rd_data r)"
    using assms l B by (auto simp: readBulkString_def rd_ReadFull_def split: if_splits option.splits prod.splits sum.splits)
  show "\<And>s. b = Some s \<Longrightarrow> int (length s) \<le> MaxBulkLen"
    using assms l B(1) by (auto simp: readBulkString_def rd_ReadFull_def split: if_splits option.splits prod.splits sum.splits)
qed

lemma read_args_bounds:
  assumes "read_args n out r = (Inr args, r')" "\<And>s. Some s \<in> set out \<Longrightarrow> int (length s) \<le> MaxBulkLen"
  shows "length args = length out + n \<and> (\<forall>s. Some s \<in> set args \<longrightarrow> int (length s) \<le> MaxBulkLen) \<and>
    length (rd_data r') \<le> length (rd_data r)"
  using assms
proof (induction n out r rule: read_args.induct)
  case (2 n out r)
  obtain b r1 where b: "readBulkString r = (Inr b, r1)" using 2(2) by (auto split: prod.splits sum.splits)
  note B = readBulk_bounds [OF b]
  have "length args = length (out @ [b]) + n \<and> (\<forall>s. Some s \<in> set args \<longrightarrow> int (length s) \<le> MaxBulkLen) \<and>
    length (rd_data r') \<le> length (rd_data r1)"
    by (rule 2(1) [OF b [symmetric] refl]) (use 2(2,3) b B(1) in auto)
  then show ?case using B(2) by simp
qed auto

lemma trim_left_length: "length (trim_left s) \<le> length s"
proof (induction s rule: trim_left.induct)
  case (1 s)
  then show ?case by (cases "space_len s = 0") (auto simp: trim_left.simps [of s])
qed

lemma trim_right_length: "length (trim_right s) \<le> length s"
proof (induction s rule: trim_right.induct)
  case (1 s)
  then show ?case by (cases "last_space s = 0") (auto simp: trim_right.simps [of s])
qed

lemma TrimSpace_length: "length (TrimSpace s) \<le> length s"
  unfolding TrimSpace_def using trim_left_length [of s] trim_right_length [of "trim_left s"] by simp

lemma fields_loop_bounds:
  "sum_list (map length (fields_loop cur s)) \<le> length cur + length s \<and> [] \<notin> set (fields_loop cur s)"
proof (induction cur s rule: fields_loop.induct)
  case (1 cur s)
  show ?case
  proof (cases s)
    case Nil
    then show ?thesis by (subst fields_loop.simps, subst (2) fields_loop.simps) simp
  next
    case (Cons c r)
    show ?thesis
    proof (cases "space_len s = 0")
      case True
      then have "fields_loop cur s = fields_loop (cur @ [c]) r" using Cons by (subst fields_loop.simps) simp
      then show ?thesis using 1(1) [OF Cons True] Cons by simp
    next
      case False
      then have "fields_loop cur s = (if cur = [] then [] else [cur]) @ fields_loop [] (drop (space_len s) s)"
        using Cons by (subst fields_loop.simps) simp
      then show ?thesis using 1(2) [OF Cons False] by auto
    qed
  qed
qed

lemma fields_bounds:
  "length (strings_Fields s) \<le> length s" "f \<in> set (strings_Fields s) \<Longrightarrow> length f \<le> length s"
proof -
  note F = fields_loop_bounds [of "[]" s]
  have "length xs \<le> sum_list (map length xs)" if "[] \<notin> set xs" for xs :: "string list"
    using that by (induction xs) (auto simp: Suc_le_eq add_strict_increasing)
  then show "length (strings_Fields s) \<le> length s" using F by (fastforce simp: strings_Fields_def)
  show "f \<in> set (strings_Fields s) \<Longrightarrow> length f \<le> length s"
    using F member_le_sum_list [of "length f" "map length (strings_Fields s)"] by (auto simp: strings_Fields_def)
qed

lemma ReadCommand_bounds:
  assumes "ReadCommand r = (Inr args, r')"
  shows "int (length args) \<le> MaxInlineLen" "\<And>s. Some s \<in> set args \<Longrightarrow> int (length s) \<le> MaxBulkLen"
    "length (rd_data r') < length (rd_data r)"
proof -
  have "int (length args) \<le> MaxInlineLen \<and> (\<forall>s. Some s \<in> set args \<longrightarrow> int (length s) \<le> MaxBulkLen) \<and>
    length (rd_data r') < length (rd_data r)"
  proof (cases "hd (rd_data r) = CHR ''*''")
    case True
    then have a: "readArrayCommand r = (Inr args, r')" using assms by (auto simp: ReadCommand_def split: list.splits)
    obtain line r1 where l: "readLine 64 r = (Inr line, r1)" using a
      by (auto simp: readArrayCommand_def split: prod.splits sum.splits)
    note B = readLine_bounds [OF l]
    consider "args = []" "r' = r1" | n where "0 < n" "n \<le> MaxArrayLen" "read_args (nat n) [] r1 = (Inr args, r')"
      using a l by (auto simp: readArrayCommand_def not_le not_less split: if_splits option.splits)
    then show ?thesis
    proof cases
      case 2
      from read_args_bounds [OF 2(3)] 2(1,2) B show ?thesis by auto
    qed (use B in auto)
  next
    case False
    then obtain line where l: "readLine MaxInlineLen r = (Inr line, r')"
      "args = (if TrimSpace line = '''' then [] else map Some (strings_Fields (TrimSpace line)))"
      using assms by (auto simp: ReadCommand_def split: list.splits prod.splits sum.splits if_splits)
    note B = readLine_bounds [OF l(1)]
    have t: "length (TrimSpace line) \<le> length line" by (rule TrimSpace_length)
    have "length args \<le> length line" using l(2) t fields_bounds(1) [of "TrimSpace line"] by simp
    moreover have "length s \<le> length line" if "Some s \<in> set args" for s
      using that l(2) t fields_bounds(2) [of s "TrimSpace line"] by (auto split: if_splits)
    ultimately show ?thesis using B by fastforce
  qed
  then show "int (length args) \<le> MaxInlineLen" "\<And>s. Some s \<in> set args \<Longrightarrow> int (length s) \<le> MaxBulkLen"
    "length (rd_data r') < length (rd_data r)" by auto
qed

section \<open>Properties\<close>

text \<open>C25: a command that is written as an array of bulk strings is read back: for one to 1024 arguments of at most
  512 KiB each, nil ones included, \<open>ReadCommand\<close> returns exactly the arguments and leaves what follows in the
  stream.\<close>

theorem command_roundtrip:
  assumes "bs \<noteq> []" "int (length bs) \<le> MaxArrayLen" "\<forall>s. Some s \<in> set bs \<longrightarrow> int (length s) \<le> MaxBulkLen"
  shows "ReadCommand \<lparr> rd_data = WriteArrayHeader (length bs) @ concat (map WriteBulk bs) @ rest, rd_err = e \<rparr> =
    (Inr bs, \<lparr> rd_data = rest, rd_err = e \<rparr>)"
proof -
  have n: "length bs < 1000000" using assms(2) by simp
  have "read_args (length bs) [] \<lparr> rd_data = concat (map WriteBulk bs) @ rest, rd_err = e \<rparr> =
      (Inr bs, \<lparr> rd_data = rest, rd_err = e \<rparr>)"
    using read_args_WriteBulk [of bs "[]" rest e] assms(3) by simp
  then have "readArrayCommand \<lparr> rd_data = ''*'' @ FormatInt (int (length bs)) @ CRLF @ concat (map WriteBulk bs) @ rest, rd_err = e \<rparr> =
      (Inr bs, \<lparr> rd_data = rest, rd_err = e \<rparr>)"
    unfolding readArrayCommand_def
    using header_line [OF n, of "CHR ''*''" "concat (map WriteBulk bs) @ rest" e] header_number [OF n]
      dec_digits_ne [of "length bs"] assms(1,2)
    by (cases "dec_digits (length bs)") simp_all
  then show ?thesis by (simp add: ReadCommand_def WriteArrayHeader_def)
qed

theorem command_roundtrip_witness:
  "ReadCommand \<lparr> rd_data = WriteArrayHeader 3 @ WriteBulk (Some ''SET'') @ WriteBulk None @ WriteBulk (Some ''a b'') @ ''PING'', rd_err = io_EOF \<rparr> =
    (Inr [Some ''SET'', None, Some ''a b''], \<lparr> rd_data = ''PING'', rd_err = io_EOF \<rparr>)"
  using command_roundtrip [of "[Some ''SET'', None, Some ''a b'']" "''PING''" io_EOF] by (simp add: numeral_3_eq_3)

text \<open>C29: whatever a client sends, a command that is accepted has at most 4096 arguments of at most 512 KiB each and takes
  at least one byte from the stream, so the loop that serves a connection cannot spin.\<close>

theorem command_bounds:
  assumes "ReadCommand r = (Inr args, r')"
  shows "int (length args) \<le> MaxInlineLen \<and> (\<forall>s. Some s \<in> set args \<longrightarrow> int (length s) \<le> MaxBulkLen) \<and>
    length (rd_data r') < length (rd_data r)"
  using ReadCommand_bounds [OF assms] by blast

theorem command_bounds_witness:
  "length (rd_data (snd (ReadCommand \<lparr> rd_data = ''PING'' @ CRLF @ ''x'', rd_err = io_EOF \<rparr>))) < 7"
proof -
  have "readLine 4096 \<lparr> rd_data = ''PING'' @ CRLF @ ''x'', rd_err = io_EOF \<rparr> = (Inr ''PING'', \<lparr> rd_data = ''x'', rd_err = io_EOF \<rparr>)"
    by (rule readLine_line) simp_all
  then have "\<exists>args r'. ReadCommand \<lparr> rd_data = ''PING'' @ CRLF @ ''x'', rd_err = io_EOF \<rparr> = (Inr args, r')"
    by (auto simp: ReadCommand_def)
  then obtain args r' where c: "ReadCommand \<lparr> rd_data = ''PING'' @ CRLF @ ''x'', rd_err = io_EOF \<rparr> = (Inr args, r')" by blast
  from command_bounds [OF c] c show ?thesis by simp
qed

end
