(* ===== verification/Redis_Glob.thy ===== *)
theory Redis_Glob
  imports Go_Strings
begin

text \<open>
  The patterns of the \<open>SCAN\<close> command: \<open>matchGlob\<close> of \<open>internal/server/redisserver/command.go\<close>, which takes
  special cases first and then matches the parts between the stars from left to right. It is shown to decide
  the textbook definition of a pattern in which a star stands for any string.
\<close>

section \<open>The code\<close>

fun match_middle :: "string list \<Rightarrow> string \<Rightarrow> string option" where
  "match_middle [] s = Some s"
| "match_middle (p # ps) s =
     (if p = '''' then match_middle ps s
      else (case strings_Index s p of None \<Rightarrow> None | Some idx \<Rightarrow> match_middle ps (drop (idx + length p) s)))"

definition matchGlob :: "string \<Rightarrow> string \<Rightarrow> bool" where
  "matchGlob pattern s =
     (if pattern = ''*'' then True
      else if pattern = '''' then s = ''''
      else if \<not> Contains pattern ''*'' then pattern = s
      else if HasSuffix pattern ''*'' \<and> \<not> Contains (take (length pattern - 1) pattern) ''*'' then
        HasPrefix s (take (length pattern - 1) pattern)
      else if HasPrefix pattern ''*'' \<and> \<not> Contains (drop 1 pattern) ''*'' then HasSuffix s (drop 1 pattern)
      else
        (let parts = split_at_char (CHR ''*'') pattern in
         if parts = [] then True
         else if parts ! 0 \<noteq> '''' \<and> \<not> HasPrefix s (parts ! 0) then False
         else
           (case match_middle (take (length parts - 2) (drop 1 parts)) (drop (length (parts ! 0)) s) of
              None \<Rightarrow> False
            | Some rest \<Rightarrow>
                if length parts > 1 \<and> last parts \<noteq> '''' then HasSuffix rest (last parts) else True)))"

section \<open>The definition\<close>

fun glob :: "string \<Rightarrow> string \<Rightarrow> bool" where
  "glob [] s \<longleftrightarrow> s = []"
| "glob (c # p) [] \<longleftrightarrow> c = CHR ''*'' \<and> glob p []"
| "glob (c # p) (x # s) \<longleftrightarrow> (if c = CHR ''*'' then glob p (x # s) \<or> glob (c # p) s else c = x \<and> glob p s)"

section \<open>Strings\<close>

lemma HasPrefix_ex: "(\<exists>t. s = p @ t \<and> Q t) \<longleftrightarrow> HasPrefix s p \<and> Q (drop (length p) s)"
  by (auto simp: HasPrefix_iff)

lemma Index_Some:
  assumes "strings_Index s p = Some i"
  shows "s = take i s @ p @ drop (i + length p) s \<and> i \<le> length s"
  using strings_Index_Some [OF assms] by auto

lemma Index_least: "s = w @ p @ t \<Longrightarrow> \<exists>i. strings_Index s p = Some i \<and> i \<le> length w"
  using strings_Index_least by blast

lemma Index_None: "strings_Index s p = None \<Longrightarrow> s \<noteq> w @ p @ t"
  using Index_least by fastforce

lemma Contains_star: "Contains s ''*'' \<longleftrightarrow> CHR ''*'' \<in> set s"
  by (auto simp: Contains_iff in_set_conv_decomp)

section \<open>Parts\<close>

text \<open>A string that is made of the parts with anything between them.\<close>

fun match_parts :: "string list \<Rightarrow> string \<Rightarrow> bool" where
  "match_parts [] s \<longleftrightarrow> False"
| "match_parts [p] s \<longleftrightarrow> s = p"
| "match_parts (p # q # ps) s \<longleftrightarrow> (\<exists>w t. s = p @ w @ t \<and> match_parts (q # ps) t)"

abbreviation tail_match :: "string list \<Rightarrow> string \<Rightarrow> bool" where
  "tail_match ps s \<equiv> \<exists>w t. s = w @ t \<and> match_parts ps t"

lemma match_parts_first: "ps \<noteq> [] \<Longrightarrow> match_parts (p # ps) s \<longleftrightarrow> (\<exists>t. s = p @ t \<and> tail_match ps t)"
  by (cases ps) auto

lemma glob_star: "glob (CHR ''*'' # p) s \<longleftrightarrow> (\<exists>w t. s = w @ t \<and> glob p t)"
proof (induction s)
  case (Cons x s)
  have "(\<exists>w t. x # s = w @ t \<and> glob p t) \<longleftrightarrow> glob p (x # s) \<or> (\<exists>w t. s = w @ t \<and> glob p t)"
    by (auto simp: Cons_eq_append_conv)
  then show ?case using Cons by simp
qed simp

lemma glob_parts: "glob p s \<longleftrightarrow> match_parts (split_at_char (CHR ''*'') p) s"
proof (induction p arbitrary: s)
  case (Cons c p)
  obtain q qs where q: "split_at_char (CHR ''*'') p = q # qs" using split_at_char_ne by (metis list.exhaust)
  show ?case
  proof (cases "c = CHR ''*''")
    case True
    then show ?thesis using Cons q by (auto simp: glob_star)
  next
    case False
    then have "split_at_char (CHR ''*'') (c # p) = (c # q) # qs" using q by simp
    moreover have "glob (c # p) s \<longleftrightarrow> (\<exists>t. s = c # t \<and> glob p t)" using False by (cases s) auto
    ultimately show ?thesis using Cons q by (cases qs) auto
  qed
qed simp

text \<open>Taking the first occurrence of a part is enough.\<close>

lemma tail_match_greedy:
  assumes "ps \<noteq> []"
  shows "tail_match (p # ps) s \<longleftrightarrow>
    (case strings_Index s p of None \<Rightarrow> False | Some i \<Rightarrow> tail_match ps (drop (i + length p) s))"
proof
  assume "tail_match (p # ps) s"
  then obtain w t u v where s: "s = w @ p @ t" "t = u @ v" "match_parts ps v"
    using match_parts_first [OF assms] by auto
  then obtain i where i: "strings_Index s p = Some i" "i \<le> length w" using Index_least by blast
  have "drop (i + length p) s = drop (i + length p) (w @ p) @ t" using s(1) i(2) by simp
  then show "case strings_Index s p of None \<Rightarrow> False | Some i \<Rightarrow> tail_match ps (drop (i + length p) s)"
    using i(1) s(2,3) by (auto simp flip: append_assoc)
next
  assume "case strings_Index s p of None \<Rightarrow> False | Some i \<Rightarrow> tail_match ps (drop (i + length p) s)"
  then obtain i where i: "strings_Index s p = Some i" "tail_match ps (drop (i + length p) s)" by (auto split: option.splits)
  have "s = take i s @ p @ drop (i + length p) s" using Index_Some [OF i(1)] by simp
  moreover have "match_parts (p # ps) (p @ drop (i + length p) s)" using i(2) match_parts_first [OF assms] by blast
  ultimately show "tail_match (p # ps) s" by blast
qed

lemma Index_empty: "strings_Index s '''' = Some 0"
  by (subst strings_Index.simps) (simp add: HasPrefix_def)

lemma match_middle_correct:
  "tail_match (ps @ [l]) s \<longleftrightarrow> (case match_middle ps s of None \<Rightarrow> False | Some r \<Rightarrow> HasSuffix r l)"
proof (induction ps s rule: match_middle.induct)
  case (1 s)
  show ?case by (auto simp: HasSuffix_iff)
next
  case (2 p ps s)
  show ?case
  proof (cases "p = ''''")
    case True
    then show ?thesis using 2(1) tail_match_greedy [of "ps @ [l]" s p] by (simp add: Index_empty)
  next
    case False
    then show ?thesis using 2(2) tail_match_greedy [of "ps @ [l]" s p] by (auto split: option.splits)
  qed
qed

section \<open>Equivalence\<close>

lemma HasSuffix_star: "HasSuffix p ''*'' \<Longrightarrow> p = take (length p - 1) p @ ''*''"
  by (auto simp: HasSuffix_iff)

lemma matchGlob_general:
  assumes "CHR ''*'' \<in> set p" "parts = split_at_char (CHR ''*'') p"
  shows "glob p s \<longleftrightarrow> HasPrefix s (parts ! 0) \<and>
    (case match_middle (take (length parts - 2) (drop 1 parts)) (drop (length (parts ! 0)) s) of
       None \<Rightarrow> False | Some rest \<Rightarrow> HasSuffix rest (last parts))"
proof -
  obtain a b where p: "p = a @ CHR ''*'' # b" "CHR ''*'' \<notin> set a" using split_list_first [OF assms(1)] by blast
  obtain ms l where b: "split_at_char (CHR ''*'') b = ms @ [l]" using split_at_char_ne by (metis rev_exhaust)
  have parts: "parts = a # ms @ [l]" using assms(2) p b split_at_char_append by simp
  have "glob p s \<longleftrightarrow> (\<exists>t. s = a @ t \<and> tail_match (ms @ [l]) t)"
    unfolding glob_parts using match_parts_first [of "ms @ [l]" a s] parts assms(2) by simp
  also have "\<dots> \<longleftrightarrow> HasPrefix s a \<and> tail_match (ms @ [l]) (drop (length a) s)"
    by (rule HasPrefix_ex)
  finally have "glob p s \<longleftrightarrow> HasPrefix s a \<and> tail_match (ms @ [l]) (drop (length a) s)" .
  moreover have "last parts = l" "parts ! 0 = a" "take (length parts - 2) (drop 1 parts) = ms" using parts by simp_all
  ultimately show ?thesis by (simp only: match_middle_correct)
qed

text \<open>C26: the patterns of \<open>SCAN\<close> mean what they should: \<open>matchGlob\<close>, with its shortcuts and its search from left to
  right, accepts exactly the strings that the pattern describes when each star stands for any string.\<close>

theorem match_glob_exact: "matchGlob pattern s = glob pattern s"
proof (cases "CHR ''*'' \<in> set pattern")
  case False
  then have "glob pattern s \<longleftrightarrow> s = pattern" by (simp add: glob_parts split_at_char_no_sep)
  then show ?thesis using False by (auto simp: matchGlob_def Contains_star)
next
  case True
  let ?parts = "split_at_char (CHR ''*'') pattern"
  have pre: "glob (a @ ''*'') s \<longleftrightarrow> HasPrefix s a" if "CHR ''*'' \<notin> set a" for a
    using that by (auto simp: glob_parts split_at_char_append HasPrefix_iff)
  have suf: "glob (CHR ''*'' # a) s \<longleftrightarrow> HasSuffix s a" if "CHR ''*'' \<notin> set a" for a
    using that by (auto simp: glob_parts split_at_char_no_sep HasSuffix_iff)
  show ?thesis
  proof (cases "HasSuffix pattern ''*'' \<and> CHR ''*'' \<notin> set (take (length pattern - 1) pattern)")
    case suffix: True
    then show ?thesis
      using True pre [of "take (length pattern - 1) pattern"] HasSuffix_star [of pattern]
      by (auto simp: matchGlob_def Contains_star HasPrefix_def)
  next
    case notsuffix: False
    show ?thesis
    proof (cases "HasPrefix pattern ''*'' \<and> CHR ''*'' \<notin> set (drop 1 pattern)")
      case prefix: True
      then obtain a where "pattern = CHR ''*'' # a" "CHR ''*'' \<notin> set a" by (auto simp: HasPrefix_iff)
      then show ?thesis using notsuffix suf [of a] by (auto simp: matchGlob_def Contains_star HasPrefix_def HasSuffix_def)
    next
      case False
      have ne: "pattern \<noteq> ''*''" "pattern \<noteq> ''''" using notsuffix True by (auto simp: HasSuffix_def)
      have l: "length ?parts > 1"
        using split_list_first [OF True] split_at_char_append split_at_char_ne by (metis length_greater_0_conv length_Cons less_add_same_cancel2 One_nat_def Suc_less_eq)
      have "matchGlob pattern s \<longleftrightarrow> (?parts ! 0 = '''' \<or> HasPrefix s (?parts ! 0)) \<and>
          (case match_middle (take (length ?parts - 2) (drop 1 ?parts)) (drop (length (?parts ! 0)) s) of
             None \<Rightarrow> False | Some rest \<Rightarrow> last ?parts = '''' \<or> HasSuffix rest (last ?parts))"
        using True ne notsuffix False l split_at_char_ne [of "CHR ''*''" pattern]
        by (auto simp: matchGlob_def Contains_star Let_def split: option.splits)
      also have "\<dots> \<longleftrightarrow> glob pattern s"
        unfolding matchGlob_general [OF True refl] by (auto simp: HasPrefix_def HasSuffix_def split: option.splits)
      finally show ?thesis .
    qed
  qed
qed

end
