(* ===== verification/Redis_Command.thy ===== *)
theory Redis_Command
  imports Redis_Resp Redis_Glob Engine_Recovery Auth_Service Session_Json
begin

text \<open>
  The Redis server: the command handler of \<open>internal/server/redisserver/command.go\<close> and the loop of
  \<open>server.go\<close> that serves a connection, over the services.

  What a command needs from outside is a record: the repositories, the clock, random bytes, what other
  requests do between two calls of a repository, the format of times in the local zone, and the arithmetic of
  \<open>float64\<close>, which is a parameter. The text written to a connection is collected in it. A panic is
  \<open>None\<close>. Setting a deadline and flushing succeed as long as the connection is open. Log lines are left out; the
  keys of one \<open>EXISTS\<close> are read at one moment.
\<close>

section \<open>Connections and the handler\<close>

record conn =
  cn_remoteAddr :: string
  cn_Authenticated :: bool
  cn_APIKey :: "apikey_info option"
  cn_out :: string
  cn_closed :: bool

definition newConn :: "string \<Rightarrow> conn" where
  "newConn addr = \<lparr> cn_remoteAddr = addr, cn_Authenticated = False, cn_APIKey = None, cn_out = '''', cn_closed = False \<rparr>"

definition reply :: "conn \<Rightarrow> string \<Rightarrow> conn" where
  "reply c text = c \<lparr> cn_out := cn_out c @ text \<rparr>"

record 'f token_bucket =
  tb_tokens :: 'f
  tb_lastCheck :: int

record 'f rate_limiter =
  rl_buckets :: "(string, 'f token_bucket) gomap"
  rl_rate :: 'f

definition newRateLimiter :: "'f float64 \<Rightarrow> int \<Rightarrow> 'f rate_limiter" where
  "newRateLimiter F requestsPerSecond = \<lparr> rl_buckets = [], rl_rate = fl_of_int F requestsPerSecond \<rparr>"

definition rate_allow :: "'f float64 \<Rightarrow> int \<Rightarrow> 'f rate_limiter \<Rightarrow> string \<Rightarrow> 'f rate_limiter \<times> bool" where
  "rate_allow F now rl ip =
     (if fl_le F (rl_rate rl) (fl_of_int F 0) then (rl, True)
      else
        (let b = (case gm_get (rl_buckets rl) ip of
                    Some b \<Rightarrow> b | None \<Rightarrow> \<lparr> tb_tokens = rl_rate rl, tb_lastCheck = now \<rparr>);
             elapsed = fl_Seconds F (time_Sub now (tb_lastCheck b));
             t1 = fl_add F (tb_tokens b) (fl_mul F elapsed (rl_rate rl));
             t2 = (if fl_less F (rl_rate rl) t1 then rl_rate rl else t1)
         in if fl_less F t2 (fl_of_int F 1) then
              (rl \<lparr> rl_buckets := gm_set ip \<lparr> tb_tokens = t2, tb_lastCheck = now \<rparr> (rl_buckets rl) \<rparr>, False)
            else
              (rl \<lparr> rl_buckets := gm_set ip \<lparr> tb_tokens = fl_add F t2 (fl_of_int F (- 1)), tb_lastCheck = now \<rparr> (rl_buckets rl) \<rparr>,
               True)))"

record ('r, 'k, 'f) command_handler =
  h_sessions :: 'r
  h_auth :: "'k auth_service"
  h_rateLimiter :: "'f rate_limiter option"

record ('r, 'k, 'f) redis_calls =
  rx_ext :: ext
  rx_sessions :: "'r session_repo"
  rx_tokens :: "'r token_repo"
  rx_keys :: "'k apikey_repo"
  rx_float :: "'f float64"
  rx_RFC3339 :: "int \<Rightarrow> string"
  rx_now :: int
  rx_random :: "go_error + bytes"
  rx_between :: "'r \<Rightarrow> 'r"
  rx_between_keys :: "'k auth_service \<Rightarrow> 'k auth_service"

definition NewCommandHandler ::
  "'f float64 \<Rightarrow> 'r \<Rightarrow> 'k auth_service \<Rightarrow> int option \<Rightarrow> ('r, 'k, 'f) command_handler" where
  "NewCommandHandler F sessions auth rateLimit =
     \<lparr> h_sessions = sessions, h_auth = auth,
       h_rateLimiter = (case rateLimit of None \<Rightarrow> None | Some n \<Rightarrow> if n > 0 then Some (newRateLimiter F n) else None) \<rparr>"

definition formatRedisError :: "go_error \<Rightarrow> string" where
  "formatRedisError err =
     (case errors_As err of Some de \<Rightarrow> ''ERR '' @ Code de @ '' '' @ Message de | None \<Rightarrow> ''ERR '' @ Error err)"

section \<open>Arguments\<close>

text \<open>An argument as a string; a nil slice is the empty string.\<close>

definition arg :: "string option list \<Rightarrow> nat \<Rightarrow> string" where
  "arg args i = (case args ! i of None \<Rightarrow> '''' | Some s \<Rightarrow> s)"

definition arg_strings :: "string option list \<Rightarrow> string list" where
  "arg_strings = map (\<lambda>a. case a of None \<Rightarrow> '''' | Some s \<Rightarrow> s)"

text \<open>The part of an address before its last colon.\<close>

definition strip_port :: "string \<Rightarrow> string" where
  "strip_port ip =
     (if CHR '':'' \<in> set ip then take (length ip - 1 - length (takeWhile (\<lambda>c. c \<noteq> CHR '':'') (rev ip))) ip else ip)"

definition wrong_args :: "string \<Rightarrow> string" where
  "wrong_args name = WriteError (''ERR wrong number of arguments for '' @ [CHR 0x27] @ name @ [CHR 0x27] @ '' command'')"

record set_request =
  sq_UserID :: string
  sq_Token :: string
  sq_DeviceID :: string
  sq_Data :: data_map

definition set_request_field :: "string \<Rightarrow> json \<Rightarrow> set_request \<Rightarrow> go_error + set_request" where
  "set_request_field n v q =
     (if n = ''user_id'' then map_sum id (\<lambda>x. q \<lparr> sq_UserID := x \<rparr>) (dec_string v (sq_UserID q))
      else if n = ''token'' then map_sum id (\<lambda>x. q \<lparr> sq_Token := x \<rparr>) (dec_string v (sq_Token q))
      else if n = ''device_id'' then map_sum id (\<lambda>x. q \<lparr> sq_DeviceID := x \<rparr>) (dec_string v (sq_DeviceID q))
      else map_sum id (\<lambda>x. q \<lparr> sq_Data := x \<rparr>) (dec_strmap v (sq_Data q)))"

definition json_Unmarshal_set :: "string \<Rightarrow> go_error + set_request" where
  "json_Unmarshal_set s =
     json_Unmarshal (\<lambda>v. dec_struct [''user_id'', ''token'', ''device_id'', ''data''] set_request_field v
       \<lparr> sq_UserID = '''', sq_Token = '''', sq_DeviceID = '''', sq_Data = None \<rparr>) (bytes_of_string s)"

text \<open>The reply to \<open>GET\<close>: the struct \<open>sessionRedisResponse\<close>, with its empty fields left out.\<close>

definition opt_str :: "string \<Rightarrow> string \<Rightarrow> (string \<times> json) list" where
  "opt_str n s = (if s = '''' then [] else [(n, JStr s)])"

definition sessionToRedisResponse :: "(int \<Rightarrow> string) \<Rightarrow> session \<Rightarrow> json" where
  "sessionToRedisResponse ft s = JObj
     ([(''id'', JStr (S_ID s)), (''user_id'', JStr (S_UserID s))] @ opt_str ''device_id'' (S_DeviceID s) @
      opt_str ''ip_address'' (S_IPAddress s) @ opt_str ''user_agent'' (S_UserAgent s) @
      [(''created_at'', JStr (ft (S_CreatedAt s))), (''expires_at'', JStr (ft (S_ExpiresAt s))),
       (''last_active'', JStr (ft (S_LastActive s)))] @
      opt_str ''last_access_ip'' (S_LastAccessIP s) @
      (case S_Data s of None \<Rightarrow> [] | Some d \<Rightarrow> if d = [] then [] else [(''data'', json_strmap (Some d))]))"

section \<open>Connection commands\<close>

definition handlePing :: "conn \<Rightarrow> string option list \<Rightarrow> conn" where
  "handlePing c args = reply c (if length args > 1 then WriteBulk (args ! 1) else WriteSimpleString ''PONG'')"

definition handleQuit :: "conn \<Rightarrow> conn" where
  "handleQuit c = (reply c (WriteSimpleString ''OK'')) \<lparr> cn_closed := True \<rparr>"

text \<open>The key and the secret of an \<open>AUTH\<close> command, or the text of the refusal.\<close>

definition auth_credentials :: "string option list \<Rightarrow> string + string \<times> string" where
  "auth_credentials args =
     (if length args = 2 then
        (let s = arg args 1; k = takeWhile (\<lambda>ch. ch \<noteq> CHR '':'') s in
         if k = s then
           Inl (WriteError (''ERR invalid AUTH format, expected '' @ [CHR 0x27] @ ''key_id:key_secret'' @ [CHR 0x27] @
              '' or '' @ [CHR 0x27] @ ''key_id key_secret'' @ [CHR 0x27]))
         else Inr (k, drop (Suc (length k)) s))
      else if length args = 3 then Inr (arg args 1, arg args 2)
      else Inl (wrong_args ''AUTH''))"

definition handleAuth ::
  "('r, 'k, 'f) redis_calls \<Rightarrow> ('r, 'k, 'f) command_handler \<Rightarrow> conn \<Rightarrow> string option list \<Rightarrow>
   (('r, 'k, 'f) command_handler \<times> conn) option" where
  "handleAuth C h c args =
     (case auth_credentials args of
        Inl text \<Rightarrow> Some (h, reply c text)
      | Inr (keyID, keySecret) \<Rightarrow>
          (case ValidateAPIKey (rx_ext C) (rx_keys C) (rx_now C) (rx_between_keys C) (h_auth h)
                  \<lparr> aq_KeyID = keyID, aq_KeySecret = keySecret, aq_ClientIP = '''' \<rparr> of
             None \<Rightarrow> None
           | Some (a, Inl err) \<Rightarrow>
               Some (h \<lparr> h_auth := a \<rparr>, reply c (WriteError ''ERR TM-AUTH-4010 invalid credentials''))
           | Some (a, Inr k) \<Rightarrow>
               Some (h \<lparr> h_auth := a \<rparr>,
                     reply (c \<lparr> cn_Authenticated := True,
                                cn_APIKey := Some \<lparr> ai_KeyID = K_KeyID k, ai_Name = K_Name k, ai_Role = K_Role k,
                                                     ai_Description = '''', ai_Enabled = APIKey_IsActive (rx_now C) k,
                                                     ai_CreatedAt = time_zero, ai_LastUsedAt = time_zero \<rparr> \<rparr>)
                       (WriteSimpleString ''OK''))))"

section \<open>Session commands\<close>

text \<open>Each gives the sessions and the text of the reply.\<close>

definition redis_Get :: "('r, 'k, 'f) redis_calls \<Rightarrow> 'r \<Rightarrow> string \<Rightarrow> go_error + session" where
  "redis_Get C r i = SessionService_Get (rx_sessions C) (rx_now C) r i"

definition handleGet :: "('r, 'k, 'f) redis_calls \<Rightarrow> 'r \<Rightarrow> string option list \<Rightarrow> 'r \<times> string" where
  "handleGet C r args =
     (if length args \<noteq> 2 then (r, wrong_args ''GET'')
      else
        (case redis_Get C r (arg args 1) of
           Inl err \<Rightarrow>
             if IsDomainError err ''TM-SESS-4040'' \<or> IsDomainError err ''TM-SESS-4041'' then (r, WriteNullBulk)
             else (r, WriteError (formatRedisError err))
         | Inr sess \<Rightarrow>
             (case json_Marshal (sessionToRedisResponse (rx_RFC3339 C) sess) of
                Inl err \<Rightarrow> (r, WriteError ''ERR failed to marshal session'')
              | Inr d \<Rightarrow> (r, WriteBulk (Some (string_of_bytes d))))))"

text \<open>The options of \<open>SET\<close>: the text of a refusal, or the time to live.\<close>

fun set_options :: "ext \<Rightarrow> string list \<Rightarrow> int \<Rightarrow> string + int" where
  "set_options X [] ttl = Inr ttl"
| "set_options X [opt] ttl = Inl (WriteError ''ERR syntax error'')"
| "set_options X (opt # v # rest) ttl =
     (if ToUpper X opt = ''EX'' then
        (case strconv_ParseInt v of
           None \<Rightarrow> Inl (WriteError ''ERR value is not an integer or out of range'')
         | Some seconds \<Rightarrow> set_options X rest (i64 (seconds * Second)))
      else set_options X rest ttl)"

definition set_create :: "('r, 'k, 'f) redis_calls \<Rightarrow> 'r \<Rightarrow> string \<Rightarrow> set_request \<Rightarrow> int \<Rightarrow> 'r \<times> string" where
  "set_create C r sessionID q ttl =
     (if sq_Token q = '''' then
        (r, WriteError ''ERR TM-ARG-4001 token is required when creating new session with SET'')
      else
        (case SessionService_CreateWithToken (rx_ext C) (rx_sessions C) (rx_now C) (rx_between C) r
                \<lparr> wq_SessionID = sessionID, wq_UserID = sq_UserID q, wq_Token = sq_Token q, wq_DeviceID = sq_DeviceID q,
                  wq_Data = sq_Data q, wq_TTL = (if ttl = 0 then 24 * Hour else ttl), wq_ClientIP = '''', wq_UserAgent = '''' \<rparr> of
           (r', Inl err) \<Rightarrow> (r', WriteError (formatRedisError err))
         | (r', Inr _) \<Rightarrow> (r', WriteSimpleString ''OK'')))"

definition set_update :: "('r, 'k, 'f) redis_calls \<Rightarrow> 'r \<Rightarrow> string \<Rightarrow> set_request \<Rightarrow> int \<Rightarrow> 'r \<times> string" where
  "set_update C r sessionID q ttl =
     (if sq_Token q \<noteq> '''' then
        (r, WriteError ''ERR TM-ARG-4003 token rotation via SET not supported, recreate session instead'')
      else
        (case SessionService_Update (rx_sessions C) (rx_now C) (rx_between C) r
                \<lparr> uq_SessionID = sessionID, uq_UserID = sq_UserID q, uq_DeviceID = sq_DeviceID q, uq_Data = sq_Data q,
                  uq_TTL = (if ttl > 0 then ttl else 0) \<rparr> of
           (r', Inl err) \<Rightarrow> (r', WriteError (formatRedisError err))
         | (r', Inr _) \<Rightarrow> (r', WriteSimpleString ''OK'')))"

definition handleSet :: "('r, 'k, 'f) redis_calls \<Rightarrow> 'r \<Rightarrow> string option list \<Rightarrow> 'r \<times> string" where
  "handleSet C r args =
     (if length args < 3 then (r, wrong_args ''SET'')
      else
        (case set_options (rx_ext C) (arg_strings (drop 3 args)) 0 of
           Inl text \<Rightarrow> (r, text)
         | Inr ttl \<Rightarrow>
             (case json_Unmarshal_set (arg args 2) of
                Inl err \<Rightarrow> (r, WriteError ''ERR invalid JSON value'')
              | Inr q \<Rightarrow>
                  (case redis_Get C r (arg args 1) of
                     Inl err \<Rightarrow>
                       if \<not> IsDomainError err ''TM-SESS-4040'' then (r, WriteError (formatRedisError err))
                       else set_create C (rx_between C r) (arg args 1) q ttl
                   | Inr existing \<Rightarrow> set_update C (rx_between C r) (arg args 1) q ttl))))"

fun del_loop :: "('r, 'k, 'f) redis_calls \<Rightarrow> string list \<Rightarrow> 'r \<times> nat \<Rightarrow> 'r \<times> nat" where
  "del_loop C [] s = s"
| "del_loop C (i # is) (r, deleted) =
     (case SessionService_Revoke (rx_sessions C) (rx_now C) r i of
        (r', Inl err) \<Rightarrow> del_loop C is (if is = [] then r' else rx_between C r', deleted)
      | (r', Inr _) \<Rightarrow> del_loop C is (if is = [] then r' else rx_between C r', deleted + 1))"

definition handleDel :: "('r, 'k, 'f) redis_calls \<Rightarrow> 'r \<Rightarrow> string option list \<Rightarrow> 'r \<times> string" where
  "handleDel C r args =
     (if length args < 2 then (r, wrong_args ''DEL'')
      else if length args > 1001 then (r, WriteError ''ERR TM-ARG-4002 maximum 1000 keys per DEL command'')
      else (case del_loop C (arg_strings (drop 1 args)) (r, 0) of (r', deleted) \<Rightarrow> (r', WriteInteger (int deleted))))"

definition handleExpire :: "('r, 'k, 'f) redis_calls \<Rightarrow> 'r \<Rightarrow> string option list \<Rightarrow> 'r \<times> string" where
  "handleExpire C r args =
     (if length args \<noteq> 3 then (r, wrong_args ''EXPIRE'')
      else
        (case strconv_ParseInt (arg args 2) of
           None \<Rightarrow> (r, WriteError ''ERR value is not an integer or out of range'')
         | Some seconds \<Rightarrow>
             (case SessionService_Renew (rx_sessions C) (rx_now C) (rx_between C) r (arg args 1) (i64 (seconds * Second)) of
                (r', Inl err) \<Rightarrow>
                  if IsDomainError err ''TM-SESS-4040'' then (r', WriteInteger 0)
                  else (r', WriteError (formatRedisError err))
              | (r', Inr _) \<Rightarrow> (r', WriteInteger 1))))"

definition handleTTL :: "('r, 'k, 'f) redis_calls \<Rightarrow> 'r \<Rightarrow> string option list \<Rightarrow> 'r \<times> string" where
  "handleTTL C r args =
     (if length args \<noteq> 2 then (r, wrong_args ''TTL'')
      else
        (case redis_Get C r (arg args 1) of
           Inl err \<Rightarrow>
             if IsDomainError err ''TM-SESS-4040'' then (r, WriteInteger (- 2))
             else (r, WriteError (formatRedisError err))
         | Inr sess \<Rightarrow>
             if S_ExpiresAt sess = 0 then (r, WriteInteger (- 1))
             else
               (let remaining = time_Sub (time_UnixMilli (S_ExpiresAt sess)) (rx_now C) in
                if remaining < 0 then (r, WriteInteger (- 2))
                else (r, WriteInteger (fl_int64 (rx_float C) (fl_Seconds (rx_float C) remaining))))))"

definition handleExists :: "('r, 'k, 'f) redis_calls \<Rightarrow> 'r \<Rightarrow> string option list \<Rightarrow> 'r \<times> string" where
  "handleExists C r args =
     (if length args < 2 then (r, wrong_args ''EXISTS'')
      else (r, WriteInteger (int (length (filter (\<lambda>i. is_ok (redis_Get C r i)) (arg_strings (drop 1 args)))))))"

text \<open>The options of \<open>SCAN\<close>: the text of a refusal, or the pattern and the count.\<close>

fun scan_options :: "ext \<Rightarrow> string list \<Rightarrow> string \<times> int \<Rightarrow> string + string \<times> int" where
  "scan_options X [] pc = Inr pc"
| "scan_options X [opt] pc = Inl (WriteError ''ERR syntax error'')"
| "scan_options X (opt # v # rest) (pattern, n) =
     (if ToUpper X opt = ''MATCH'' then scan_options X rest (v, n)
      else if ToUpper X opt = ''COUNT'' then
        (case strconv_ParseInt v of
           None \<Rightarrow> Inl (WriteError ''ERR value is not an integer or out of range'')
         | Some k \<Rightarrow> scan_options X rest (pattern, k))
      else scan_options X rest (pattern, n))"

definition scan_reply :: "int \<Rightarrow> string \<times> int \<Rightarrow> session list \<Rightarrow> string" where
  "scan_reply cursor pc items =
     (let filteredItems = (if fst pc \<noteq> '''' \<and> fst pc \<noteq> ''*'' then filter (\<lambda>s. matchGlob (fst pc) (S_ID s)) items else items);
          nextCursor = (if int (length items) = snd pc then FormatInt (i64 (cursor + 1)) else ''0'')
      in WriteArrayHeader 2 @ WriteBulkString nextCursor @ WriteArrayHeader (length filteredItems) @
         concat (map (\<lambda>s. WriteBulkString (S_ID s)) filteredItems))"

definition handleScan :: "('r, 'k, 'f) redis_calls \<Rightarrow> 'r \<Rightarrow> string option list \<Rightarrow> ('r \<times> string) option" where
  "handleScan C r args =
     (if length args < 2 then Some (r, wrong_args ''SCAN'')
      else
        (case strconv_ParseInt (arg args 1) of
           None \<Rightarrow> Some (r, WriteError ''ERR invalid cursor'')
         | Some cursor \<Rightarrow>
             (case scan_options (rx_ext C) (arg_strings (drop 2 args)) ('''', 10) of
                Inl text \<Rightarrow> Some (r, text)
              | Inr pc \<Rightarrow>
                  (case SessionService_List (rx_sessions C) (rx_now C) r
                          (Some (SessionFilter_zero \<lparr> F_Page := i64 (cursor + 1), F_PageSize := snd pc \<rparr>)) of
                     None \<Rightarrow> None
                   | Some (Inl err) \<Rightarrow> Some (r, WriteError (formatRedisError err))
                   | Some (Inr resp) \<Rightarrow> Some (r, scan_reply cursor pc (lr_Items resp))))))"

text \<open>The result of \<open>TM.CREATE\<close> is a map, whose keys are encoded in order.\<close>

definition tm_create :: "('r, 'k, 'f) redis_calls \<Rightarrow> 'r \<Rightarrow> string \<Rightarrow> string \<Rightarrow> int \<Rightarrow> 'r \<times> string" where
  "tm_create C r sessionID jsonValue ttl =
     (case json_Unmarshal_set jsonValue of
        Inl err \<Rightarrow> (r, WriteError ''ERR invalid JSON value'')
      | Inr q \<Rightarrow>
          (case SessionService_CreateWithID (rx_ext C) (rx_sessions C) (rx_now C) (rx_random C) (rx_between C) r
                  \<lparr> iq_SessionID = sessionID, iq_UserID = sq_UserID q, iq_DeviceID = sq_DeviceID q, iq_Data = sq_Data q,
                    iq_TTL = ttl, iq_ClientIP = '''', iq_UserAgent = '''' \<rparr> of
             (r', Inl err) \<Rightarrow> (r', WriteError (formatRedisError err))
           | (r', Inr resp) \<Rightarrow>
               (case json_Marshal (JObj [(''expires_at'', JStr (rx_RFC3339 C (cr_ExpiresAt resp))),
                                         (''session_id'', JStr (cr_SessionID resp)), (''token'', JStr (cr_Token resp))]) of
                  Inl err \<Rightarrow> (r', WriteError ''ERR failed to marshal response'')
                | Inr d \<Rightarrow> (r', WriteBulk (Some (string_of_bytes d))))))"

definition handleTMCreate :: "('r, 'k, 'f) redis_calls \<Rightarrow> 'r \<Rightarrow> string option list \<Rightarrow> 'r \<times> string" where
  "handleTMCreate C r args =
     (if length args < 3 then (r, wrong_args ''TM.CREATE'')
      else if length args \<ge> 5 \<and> ToUpper (rx_ext C) (arg args 3) = ''TTL'' then
        (case strconv_ParseInt (arg args 4) of
           None \<Rightarrow> (r, WriteError ''ERR value is not an integer or out of range'')
         | Some seconds \<Rightarrow> tm_create C r (arg args 1) (arg args 2) (i64 (seconds * Second)))
      else tm_create C r (arg args 1) (arg args 2) (24 * Hour))"

definition tm_validate :: "('r, 'k, 'f) redis_calls \<Rightarrow> 'r \<Rightarrow> string \<Rightarrow> string \<Rightarrow> bool \<Rightarrow> 'r \<times> string" where
  "tm_validate C r addr token touch =
     (case TokenService_Validate (rx_tokens C) (rx_now C) r
             \<lparr> vr_Token = token, vr_Touch = touch, vr_ClientIP = strip_port addr, vr_UserAgent = '''' \<rparr> of
        (r', resp, err) \<Rightarrow>
          if err \<noteq> None \<or> \<not> vp_Valid resp then (r', WriteError ''ERR TM-TOKN-4010 Token invalid'')
          else (r', WriteSimpleString ''OK''))"

definition handleTMValidate :: "('r, 'k, 'f) redis_calls \<Rightarrow> 'r \<Rightarrow> string \<Rightarrow> string option list \<Rightarrow> 'r \<times> string" where
  "handleTMValidate C r addr args =
     (if length args < 2 \<or> length args > 3 then (r, wrong_args ''TM.VALIDATE'')
      else if length args = 3 then
        (if ToUpper (rx_ext C) (arg args 2) = ''TOUCH'' then tm_validate C r addr (arg args 1) True
         else (r, WriteError (''ERR syntax error, expected '' @ [CHR 0x27] @ ''TOUCH'' @ [CHR 0x27] @ '' option'')))
      else tm_validate C r addr (arg args 1) False)"

definition handleTMTouch :: "('r, 'k, 'f) redis_calls \<Rightarrow> 'r \<Rightarrow> string \<Rightarrow> string option list \<Rightarrow> 'r \<times> string" where
  "handleTMTouch C r addr args =
     (if length args \<noteq> 2 then (r, wrong_args ''TM.TOUCH'')
      else
        (case SessionService_Touch (rx_sessions C) (rx_now C) (rx_between C) (rx_between C) r (arg args 1) (strip_port addr) of
           (r', Inl err) \<Rightarrow>
             if IsDomainError err ''TM-SESS-4040'' \<or> IsDomainError err ''TM-SESS-4041'' then
               (r', WriteError ''ERR TM-SESS-4040 Session not found'')
             else (r', WriteError (formatRedisError err))
         | (r', Inr lastActive) \<Rightarrow> (r', WriteInteger lastActive)))"

definition handleTMRevokeUser :: "('r, 'k, 'f) redis_calls \<Rightarrow> 'r \<Rightarrow> string option list \<Rightarrow> 'r \<times> string" where
  "handleTMRevokeUser C r args =
     (if length args \<noteq> 2 then (r, wrong_args ''TM.REVOKE_USER'')
      else
        (case SessionService_RevokeByUser (rx_sessions C) (rx_now C) (rx_between C) r (arg args 1) of
           (r', Inl err) \<Rightarrow> (r', WriteError (formatRedisError err))
         | (r', Inr n) \<Rightarrow> (r', WriteInteger (int n))))"

section \<open>Dispatch\<close>

definition checkPermission :: "apikey_info option \<Rightarrow> string \<Rightarrow> bool" where
  "checkPermission key cmdName =
     (case key of
        None \<Rightarrow> False
      | Some k \<Rightarrow>
          if ai_Role k = ''admin'' then True
          else if cmdName \<in> set [''GET'', ''TTL'', ''EXISTS'', ''SCAN'', ''TM.VALIDATE'', ''TM.TOUCH''] then
            ai_Role k = ''validator'' \<or> ai_Role k = ''issuer''
          else if cmdName \<in> set [''SET'', ''DEL'', ''EXPIRE'', ''TM.CREATE'', ''TM.REVOKE_USER''] then ai_Role k = ''issuer''
          else False)"

definition run_command ::
  "('r, 'k, 'f) redis_calls \<Rightarrow> 'r \<Rightarrow> string \<Rightarrow> string \<Rightarrow> string option list \<Rightarrow> ('r \<times> string) option" where
  "run_command C r addr cmdName args =
     (if cmdName = ''GET'' then Some (handleGet C r args)
      else if cmdName = ''SET'' then Some (handleSet C r args)
      else if cmdName = ''DEL'' then Some (handleDel C r args)
      else if cmdName = ''EXPIRE'' then Some (handleExpire C r args)
      else if cmdName = ''TTL'' then Some (handleTTL C r args)
      else if cmdName = ''EXISTS'' then Some (handleExists C r args)
      else if cmdName = ''SCAN'' then handleScan C r args
      else if cmdName = ''TM.CREATE'' then Some (handleTMCreate C r args)
      else if cmdName = ''TM.VALIDATE'' then Some (handleTMValidate C r addr args)
      else if cmdName = ''TM.TOUCH'' then Some (handleTMTouch C r addr args)
      else if cmdName = ''TM.REVOKE_USER'' then Some (handleTMRevokeUser C r args)
      else Some (r, WriteError (''ERR unknown command '' @ [CHR 0x27] @ cmdName @ [CHR 0x27])))"

definition check_rate ::
  "('r, 'k, 'f) redis_calls \<Rightarrow> ('r, 'k, 'f) command_handler \<Rightarrow> conn \<Rightarrow> ('r, 'k, 'f) command_handler \<times> bool" where
  "check_rate C h c =
     (case h_rateLimiter h of
        None \<Rightarrow> (h, True)
      | Some rl \<Rightarrow>
          (case rate_allow (rx_float C) (rx_now C) rl (strip_port (cn_remoteAddr c)) of
             (rl', ok) \<Rightarrow> (h \<lparr> h_rateLimiter := Some rl' \<rparr>, ok)))"

definition Handle ::
  "('r, 'k, 'f) redis_calls \<Rightarrow> ('r, 'k, 'f) command_handler \<Rightarrow> conn \<Rightarrow> string option list \<Rightarrow>
   (('r, 'k, 'f) command_handler \<times> conn) option" where
  "Handle C h c args =
     (if args = [] then Some (h, reply c (WriteError ''ERR no command''))
      else
        (let cmdName = normalizeCommandName (rx_ext C) (arg args 0) in
         if cmdName = ''PING'' then Some (h, handlePing c args)
         else if cmdName = ''AUTH'' then handleAuth C h c args
         else if cmdName = ''QUIT'' then Some (h, handleQuit c)
         else if \<not> cn_Authenticated c then Some (h, reply c (WriteError ''NOAUTH Authentication required''))
         else
           (case check_rate C h c of
              (h1, False) \<Rightarrow> Some (h1, reply c (WriteError ''ERR TM-RATE-4290 rate limit exceeded''))
            | (h1, True) \<Rightarrow>
                if \<not> checkPermission (cn_APIKey c) cmdName then
                  Some (h1, reply c (WriteError (''ERR TM-AUTH-4030 permission denied for command '' @ [CHR 0x27] @ cmdName @ [CHR 0x27])))
                else
                  (case run_command C (h_sessions h1) (cn_remoteAddr c) cmdName args of
                     None \<Rightarrow> None
                   | Some (r', text) \<Rightarrow> Some (h1 \<lparr> h_sessions := r' \<rparr>, reply c text)))))"

section \<open>Serving a connection\<close>

text \<open>What surrounds the n-th command is given by \<open>C n\<close>; \<open>timeout\<close> tells the network errors that are timeouts.\<close>

function serveConn ::
  "(nat \<Rightarrow> ('r, 'k, 'f) redis_calls) \<Rightarrow> (go_error \<Rightarrow> bool) \<Rightarrow> nat \<Rightarrow> ('r, 'k, 'f) command_handler \<Rightarrow> conn \<Rightarrow> resp_reader \<Rightarrow>
   (('r, 'k, 'f) command_handler \<times> conn) option" where
  "serveConn C timeout n h c r =
     (if rd_data r = [] then Some (h, c \<lparr> cn_closed := True \<rparr>)
      else
        (case ReadCommand r of
           (Inl err, r') \<Rightarrow>
             if errors_Is err io_EOF \<or> timeout err then Some (h, c \<lparr> cn_closed := True \<rparr>)
             else if errors_Is err ErrLimitExceeded then
               Some (h, (reply c (WriteError ''ERR protocol limit exceeded'')) \<lparr> cn_closed := True \<rparr>)
             else Some (h, (reply c (WriteError (''ERR protocol error: '' @ Error err))) \<lparr> cn_closed := True \<rparr>)
         | (Inr args, r') \<Rightarrow>
             if args = [] then serveConn C timeout (Suc n) h (reply c (WriteError ''ERR no command'')) r'
             else
               (case Handle (C n) h c args of
                  None \<Rightarrow> None
                | Some (h', c') \<Rightarrow>
                    if cn_closed c' then Some (h', c') else serveConn C timeout (Suc n) h' c' r')))"
  by pat_completeness auto
termination
  by (relation "measure (\<lambda>(C, timeout, n, h, c, r). length (rd_data r))") (auto dest: ReadCommand_bounds(3) [OF sym])

declare serveConn.simps [simp del]

end
