(* ===== verification/Redis_Props.thy ===== *)
theory Redis_Props
  imports Redis_Command Memory_List
begin

text \<open>
  What the Redis server guarantees: which connections can change the sessions, and what the session
  commands do over the storage engine.
\<close>

section \<open>Who may change the sessions\<close>

lemma run_command_readonly:
  assumes "run_command C r addr cmd args = Some (r', text)" "cmd \<in> {''GET'', ''TTL'', ''EXISTS'', ''SCAN''}"
  shows "r' = r"
  using assms
  by (auto simp: run_command_def handleGet_def handleTTL_def handleExists_def handleScan_def Let_def
      split: if_splits sum.splits option.splits)

lemma check_rate_keeps:
  assumes "check_rate C h c = (h', ok)"
  shows "h_sessions h' = h_sessions h" "h_auth h' = h_auth h"
  using assms by (auto simp: check_rate_def split: option.splits prod.splits)

lemma handleAuth_sessions: "handleAuth C h c args = Some (h', c') \<Longrightarrow> h_sessions h' = h_sessions h"
  by (auto simp: handleAuth_def split: sum.splits option.splits prod.splits)

lemma checkPermission_roles:
  assumes "checkPermission key cmd" "cmd \<notin> {''GET'', ''TTL'', ''EXISTS'', ''SCAN''}"
  obtains k where "key = Some k"
    "ai_Role k \<in> {''admin'', ''issuer''} \<or> ai_Role k = ''validator'' \<and> cmd \<in> {''TM.VALIDATE'', ''TM.TOUCH''}"
proof (cases key)
  case None
  then show thesis using assms(1) by (simp add: checkPermission_def)
next
  case (Some k)
  have read: "cmd \<in> set [''GET'', ''TTL'', ''EXISTS'', ''SCAN'', ''TM.VALIDATE'', ''TM.TOUCH''] \<Longrightarrow>
      cmd \<in> {''TM.VALIDATE'', ''TM.TOUCH''}"
    using assms(2) by simp
  have "ai_Role k \<in> {''admin'', ''issuer''} \<or>
      ai_Role k = ''validator'' \<and> cmd \<in> set [''GET'', ''TTL'', ''EXISTS'', ''SCAN'', ''TM.VALIDATE'', ''TM.TOUCH'']"
    using assms(1) unfolding Some checkPermission_def option.case
    by (simp only: insert_iff empty_iff split: if_split_asm) blast+
  then show thesis using that [OF Some] read by blast
qed

text \<open>A command that changes the sessions got past the three checks of \<open>Handle\<close>.\<close>

lemma Handle_changes:
  assumes "Handle C h c args = Some (h', c')" "h_sessions h' \<noteq> h_sessions h"
  obtains out where "cn_Authenticated c" "c' = reply c out"
    "checkPermission (cn_APIKey c) (normalizeCommandName (rx_ext C) (arg args 0))"
    "run_command C (h_sessions h) (cn_remoteAddr c) (normalizeCommandName (rx_ext C) (arg args 0)) args =
       Some (h_sessions h', out)"
proof -
  define cmd where "cmd = normalizeCommandName (rx_ext C) (arg args 0)"
  obtain h1 ok where ck: "check_rate C h c = (h1, ok)" by fastforce
  have ne: "args \<noteq> []" "cmd \<noteq> ''PING''" "cmd \<noteq> ''AUTH''" "cmd \<noteq> ''QUIT''" "cn_Authenticated c"
    using assms handleAuth_sessions [of C h c args h' c'] unfolding Handle_def cmd_def [symmetric] Let_def
    by (auto split: if_split_asm)
  have ok: "ok" "checkPermission (cn_APIKey c) cmd"
    using assms ne ck check_rate_keeps(1) [OF ck] unfolding Handle_def cmd_def [symmetric] Let_def
    by (auto split: if_split_asm bool.split_asm)
  obtain out where "run_command C (h_sessions h) (cn_remoteAddr c) cmd args = Some (h_sessions h', out)" "c' = reply c out"
    using assms ne ok ck check_rate_keeps(1) [OF ck] unfolding Handle_def cmd_def [symmetric] Let_def
    by (auto split: option.split_asm)
  then show thesis using that ne ok unfolding cmd_def by blast
qed

lemma Handle_authenticated:
  assumes "Handle C h c args = Some (h', c')" "cn_Authenticated c"
  shows "cn_Authenticated c'"
  using assms
  by (auto simp: Handle_def Let_def handlePing_def handleQuit_def handleAuth_def reply_def
      split: if_splits prod.splits option.splits bool.splits sum.splits)

lemma serveConn_auth:
  "serveConn C timeout n h c r = Some (h', c') \<Longrightarrow>
   cn_Authenticated c' \<or> h_sessions h' = h_sessions h \<and> \<not> cn_Authenticated c"
proof (induction C timeout n h c r rule: serveConn.induct)
  case (1 C timeout n h c r)
  show ?case
  proof (cases "rd_data r = []")
    case True
    then show ?thesis using 1(3) by (auto simp: serveConn.simps [of _ _ _ _ _ r])
  next
    case False
    obtain res r1 where rd: "ReadCommand r = (res, r1)" by fastforce
    show ?thesis
    proof (cases res)
      case (Inl err)
      then show ?thesis using 1(3) rd False
        by (auto simp: serveConn.simps [of _ _ _ _ _ r] reply_def split: if_splits)
    next
      case (Inr args)
      show ?thesis
      proof (cases "args = []")
        case True
        then show ?thesis using 1(1) [OF False rd [symmetric] Inr True] 1(3) rd Inr False
          by (simp add: serveConn.simps [of _ _ _ _ _ r] reply_def)
      next
        case args: False
        obtain h1 c1 where H: "Handle (C n) h c args = Some (h1, c1)"
          using 1(3) rd Inr False args by (cases "Handle (C n) h c args") (auto simp: serveConn.simps [of _ _ _ _ _ r])
        have step: "cn_Authenticated c1 \<or> h_sessions h1 = h_sessions h \<and> \<not> cn_Authenticated c"
          using Handle_changes [OF H] Handle_authenticated [OF H] by (metis Handle_authenticated)
        show ?thesis
        proof (cases "cn_closed c1")
          case True
          then show ?thesis using 1(3) rd Inr False args H step by (simp add: serveConn.simps [of _ _ _ _ _ r])
        next
          case open1: False
          then show ?thesis using 1(2) [OF False rd [symmetric] Inr args H refl open1] 1(3) rd Inr False args H step
            by (auto simp: serveConn.simps [of _ _ _ _ _ r])
        qed
      qed
    qed
  qed
qed

text \<open>C17: a command that changes the sessions comes from an authenticated connection whose API key has the role
  \<open>admin\<close> or \<open>issuer\<close>; a \<open>validator\<close> changes them only by validating or touching.
\<close>

theorem redis_writes_need_role:
  assumes "Handle C h c args = Some (h', c')" "h_sessions h' \<noteq> h_sessions h"
  shows "cn_Authenticated c \<and>
    (\<exists>k. cn_APIKey c = Some k \<and>
       (ai_Role k \<in> {''admin'', ''issuer''} \<or>
        ai_Role k = ''validator'' \<and>
        normalizeCommandName (rx_ext C) (arg args 0) \<in> {''TM.VALIDATE'', ''TM.TOUCH''}))"
proof -
  obtain out where H: "cn_Authenticated c"
    "checkPermission (cn_APIKey c) (normalizeCommandName (rx_ext C) (arg args 0))"
    "run_command C (h_sessions h) (cn_remoteAddr c) (normalizeCommandName (rx_ext C) (arg args 0)) args =
       Some (h_sessions h', out)"
    using Handle_changes [OF assms] by metis
  have "normalizeCommandName (rx_ext C) (arg args 0) \<notin> {''GET'', ''TTL'', ''EXISTS'', ''SCAN''}"
    using run_command_readonly [OF H(3)] assms(2) by auto
  from checkPermission_roles [OF H(2) this] show ?thesis using H(1) by metis
qed

text \<open>If serving a connection changes the sessions at all, the connection has authenticated.
\<close>

lemma redis_session_needs_auth:
  assumes "serveConn C timeout n h c r = Some (h', c')" "h_sessions h' \<noteq> h_sessions h"
  shows "cn_Authenticated c'"
  using serveConn_auth [OF assms(1)] assms(2) by simp

section \<open>SET and TM.VALIDATE\<close>

context session_repository
begin

lemma CreateWithToken_ok:
  assumes "inv (env r)" "SessionService_CreateWithToken X R now env r req = (r', Inr resp)"
  obtains sess where "inv r'" "\<alpha> r' = (\<alpha> (env r))(wq_SessionID req \<mapsto> sess)" "S_ID sess = wq_SessionID req"
    "ValidateTokenFormat (wq_Token req)" "S_TokenHash sess = HashToken (wq_Token req)" "S_UserID sess = wq_UserID req"
    "\<not> S_IsDeleted sess" "S_ExpiresAt sess = UnixMilli (now + ttl_or_default (wq_TTL req))"
proof -
  obtain s where v: "ValidateTokenFormat (wq_Token req)"
    and per: "persist_new R now (env r) (Session_SetExpiration now (ttl_or_default (wq_TTL req)) s) (wq_Token req) = (r', Inr resp)"
    and s: "S_ID s = wq_SessionID req" "S_UserID s = wq_UserID req" "S_TokenHash s = HashToken (wq_Token req)" "\<not> S_IsDeleted s"
    using assms(2) unfolding SessionService_CreateWithToken_def Let_def
    by (auto simp: ComputeTokenHash_def Session_zero_def split: if_splits sum.splits)
  note P = persist_new_ok [OF assms(1) per]
  show ?thesis
    by (rule that [OF P(1), of "Session_SetExpiration now (ttl_or_default (wq_TTL req)) s"])
      (use P(6) v s in \<open>simp_all add: Session_SetExpiration_def\<close>)
qed

text \<open>A reply \<open>+OK\<close> to \<open>SET\<close> with a token is that of a creation.\<close>

lemma set_create_ok:
  assumes "rx_sessions C = R" "inv (rx_between C r)" "set_create C r i q ttl = (r', WriteSimpleString ''OK'')"
  obtains sess where "inv r'" "\<alpha> r' i = Some sess" "ValidateTokenFormat (sq_Token q)" "S_TokenHash sess = HashToken (sq_Token q)"
    "\<not> S_IsDeleted sess" "S_ExpiresAt sess = UnixMilli (rx_now C + (if ttl = 0 then 24 * Hour else ttl))"
proof -
  have d: "ttl_or_default (if ttl = 0 then 24 * Hour else ttl) = (if ttl = 0 then 24 * Hour else ttl)"
    by (simp add: ttl_or_default_def)
  obtain resp where c: "SessionService_CreateWithToken (rx_ext C) R (rx_now C) (rx_between C) r
      \<lparr> wq_SessionID = i, wq_UserID = sq_UserID q, wq_Token = sq_Token q, wq_DeviceID = sq_DeviceID q,
        wq_Data = sq_Data q, wq_TTL = (if ttl = 0 then 24 * Hour else ttl), wq_ClientIP = '''', wq_UserAgent = '''' \<rparr> = (r', Inr resp)"
    using assms(3) unfolding set_create_def assms(1)
    by (auto simp: WriteError_def WriteSimpleString_def split: if_splits prod.splits sum.splits)
  show thesis by (rule CreateWithToken_ok [OF assms(2) c]) (use that d in simp)
qed

lemma tm_validate_ok:
  assumes "rx_tokens C = T" "inv r" "\<alpha> r i = Some sess" "ValidateTokenFormat token" "S_TokenHash sess = HashToken token"
    "\<not> Session_IsExpired (rx_now C) sess" "\<not> S_IsDeleted sess"
  shows "tm_validate C r addr token False = (r, WriteSimpleString ''OK'')"
  using Validate_ok [OF assms(2) _ assms(3)] assms by (simp add: tm_validate_def)

end

text \<open>
  Over the engine, once \<open>SET\<close> of a key that holds no session has replied \<open>+OK\<close>, \<open>TM.VALIDATE\<close> of the token
  given to it replies \<open>+OK\<close> until the session expires.
\<close>

lemma set_then_validate:
  assumes "rx_sessions C = engine_session_repo sys" "rx_tokens C' = engine_token_repo sys'"
    and "store_inv (en_store e)" "store_inv (en_store (rx_between C (rx_between C e)))"
    and "store_abs (en_store e) (arg args 1) = None"
    and "set_options (rx_ext C) (arg_strings (drop 3 args)) 0 = Inr ttl"
    and "json_Unmarshal_set (arg args 2) = Inr q"
    and "run_command C e addr ''SET'' args = Some (e', WriteSimpleString ''OK'')"
    and "UnixMilli (rx_now C') \<le> UnixMilli (rx_now C + (if ttl = 0 then 24 * Hour else ttl))"
  shows "run_command C' e' addr' ''TM.VALIDATE'' [Some ''TM.VALIDATE'', Some (sq_Token q)] =
    Some (e', WriteSimpleString ''OK'')"
proof -
  let ?mx = "st_maxSessionsPerUser (en_store (rx_between C (rx_between C e)))"
  have s: "handleSet C e args = (e', WriteSimpleString ''OK'')" using assms(8) by (simp add: run_command_def)
  have c: "set_create C (rx_between C e) (arg args 1) q ttl = (e', WriteSimpleString ''OK'')"
    if "redis_Get C e (arg args 1) = Inl err" for err
    using s that assms(6,7) unfolding handleSet_def
    by (auto simp: wrong_args_def WriteError_def WriteSimpleString_def split: if_splits)
  have "\<exists>err. redis_Get C e (arg args 1) = Inl err"
    using dur.get_alpha [of e "st_maxSessionsPerUser (en_store e)" sys "rx_now C" "arg args 1"] assms(1,3,5)
    by (auto simp: redis_Get_def SessionService_Get_def lookup_live_def a_Get_def)
  then obtain sess where v: "store_inv (en_store e')" "store_abs (en_store e') (arg args 1) = Some sess"
      "ValidateTokenFormat (sq_Token q)" "S_TokenHash sess = HashToken (sq_Token q)" "\<not> S_IsDeleted sess"
      "S_ExpiresAt sess = UnixMilli (rx_now C + (if ttl = 0 then 24 * Hour else ttl))"
    using dur.set_create_ok [OF assms(1), of "rx_between C e" ?mx "arg args 1" q ttl e'] c assms(4) by metis
  have "tm_validate C' e' addr' (sq_Token q) False = (e', WriteSimpleString ''OK'')"
    using dur.tm_validate_ok [OF assms(2), of e' "st_maxSessionsPerUser (en_store e')" "arg args 1" sess] v assms(9)
    by (simp add: Session_IsExpired_def)
  then show ?thesis by (simp add: run_command_def handleTMValidate_def arg_def)
qed

section \<open>SCAN and DEL\<close>

text \<open>\<open>SCAN\<close> with \<open>COUNT\<close> above 100 never continues: the page has at most 100 sessions, and because the cursor is advanced
  only when exactly \<open>COUNT\<close> were found, the reply has cursor 0, the end of the iteration, whatever else is stored.
\<close>

lemma scan_count_over_100_ends:
  assumes "rx_sessions C = engine_session_repo sys" "store_inv (en_store e)"
    and "strconv_ParseInt (arg args 1) = Some cursor" "0 \<le> cursor" "cursor * 100 < 2 ^ 62"
    and "scan_options (rx_ext C) (arg_strings (drop 2 args)) ([], 10) = Inr (pattern, n)" "100 < n"
    and "int (length (list_candidates (en_store e) SessionFilter_zero)) < 2 ^ 62"
    and "run_command C e addr ''SCAN'' args = Some (e', out)" "2 \<le> length args"
  shows "e' = e \<and> (\<exists>ids. length ids \<le> 100 \<and> out = WriteArrayHeader 2 @ WriteBulkString ''0'' @
    WriteArrayHeader (length ids) @ concat (map WriteBulkString ids))"
proof -
  let ?f = "SessionFilter_zero \<lparr> F_Page := i64 (cursor + 1), F_PageSize := 100, F_SortBy := ''created_at'', F_SortOrder := ''desc'' \<rparr>"
  have c: "i64 (cursor + 1) = cursor + 1" using assms(4,5) by (simp add: i64_id in_i64_def)
  have lc: "list_candidates (en_store e) ?f = list_candidates (en_store e) SessionFilter_zero"
    by (simp add: list_candidates_def)
  have hs: "handleScan C e args = Some (e', out)" using assms(9) by (simp add: run_command_def)
  obtain items cnt where l: "Store_List (rx_now C) (en_store e) (Some ?f) = Some (items, cnt)"
    and e': "e' = e" and out: "out = scan_reply cursor (pattern, n) items"
    using hs assms(1,3,4,6,7,10) c
    by (auto simp: handleScan_def SessionService_List_def engine_session_repo_def Engine_List_def Let_def SessionFilter_zero_def
        split: option.splits)
  have "length items \<le> 100"
    by (rule Store_List_spec(1) [OF assms(2) l]) (use assms(4,5,8) lc c in \<open>simp_all add: page_size_def\<close>)
  moreover define fi where "fi = (if pattern \<noteq> [] \<and> pattern \<noteq> ''*'' then filter (\<lambda>s. matchGlob pattern (S_ID s)) items else items)"
  then have "length fi \<le> length items" by (simp add: length_filter_le)
  ultimately have "length (map S_ID fi) \<le> 100" "int (length items) \<noteq> n" using assms(7) by auto
  moreover have "out = WriteArrayHeader 2 @ WriteBulkString ''0'' @ WriteArrayHeader (length (map S_ID fi)) @
      concat (map WriteBulkString (map S_ID fi))"
    using out \<open>int (length items) \<noteq> n\<close> unfolding scan_reply_def Let_def fst_conv snd_conv fi_def [symmetric] by (simp add: comp_def)
  ultimately show ?thesis using e' by blast
qed

lemma not_found_code: "IsDomainError ErrSessionNotFound ''TM-SESS-4040''"
  by code_simp

text \<open>\<open>DEL\<close> counts keys that hold no session: over an engine that can append to its log, the reply to \<open>DEL\<close> of an absent key
  is 1, and no session changes.
\<close>

lemma del_counts_absent_key:
  assumes "rx_sessions C = engine_session_repo sys" "store_inv (en_store e)" "store_abs (en_store e) i = None" "i \<noteq> ''''"
    and "Writer_Append (sys (rx_now C)) (en_walDir e) (en_wal e) (NewDeleteEntry (rx_now C) i) = (d, w, None)"
  shows "\<exists>e'. run_command C e addr ''DEL'' [Some ''DEL'', Some i] = Some (e', WriteInteger 1) \<and>
    store_abs (en_store e') = store_abs (en_store e)"
proof -
  obtain st r where del: "Store_Delete (en_store e) i = (st, r)" by fastforce
  note D = Store_Delete_refines [OF assms(2) del]
  have r: "r = Some ErrSessionNotFound" "store_abs st = store_abs (en_store e)"
    using D(2) assms(3) by (simp_all add: a_Delete_def)
  have "\<exists>e'. SessionService_Revoke (rx_sessions C) (rx_now C) e i = (e', Inr True) \<and> store_abs (en_store e') = store_abs (en_store e)"
    using assms(1,4,5) del r not_found_code by (simp add: SessionService_Revoke_def engine_session_repo_def Engine_Delete_def log_then_def)
  then show ?thesis by (auto simp: run_command_def handleDel_def arg_strings_def)
qed

section \<open>Examples\<close>

abbreviation example_redis :: "'r session_repo \<Rightarrow> 'r token_repo \<Rightarrow> ('r, apikey_store, int) redis_calls" where
  "example_redis R T \<equiv> \<lparr> rx_ext = example_ext, rx_sessions = R, rx_tokens = T, rx_keys = apikey_store_repo,
     rx_float = \<lparr> fl_of_int = (\<lambda>x. x), fl_add = (+), fl_mul = (*), fl_le = (\<le>), fl_less = (<),
                   fl_Seconds = (\<lambda>x. x div Second), fl_int64 = (\<lambda>x. x) \<rparr>,
     rx_RFC3339 = (\<lambda>_. ''''), rx_now = 0, rx_random = Inr [], rx_between = (\<lambda>r. r), rx_between_keys = (\<lambda>a. a) \<rparr>"

abbreviation example_handler :: "'r \<Rightarrow> ('r, apikey_store, int) command_handler" where
  "example_handler r \<equiv> \<lparr> h_sessions = r, h_auth = example_auth, h_rateLimiter = None \<rparr>"

abbreviation example_conn :: conn where
  "example_conn \<equiv> (newConn ''10.0.0.1:5'') \<lparr> cn_Authenticated := True,
     cn_APIKey := Some \<lparr> ai_KeyID = ''tmak-1'', ai_Name = '''', ai_Role = ''issuer'', ai_Description = '''',
       ai_Enabled = True, ai_CreatedAt = time_zero, ai_LastUsedAt = time_zero \<rparr> \<rparr>"

lemma example_del:
  obtains st st' where "store_inv st" "store_abs st ''tmss-1'' \<noteq> None" "store_abs st' ''tmss-1'' = None"
    "Handle (example_redis store_session_repo store_token_repo) (example_handler st) example_conn [Some ''DEL'', Some ''tmss-1''] =
       Some (example_handler st', reply example_conn (WriteInteger 1))"
proof -
  obtain st where st: "store_inv st" "store_abs st = [''tmss-1'' \<mapsto> example_session ''tmss-1'' ''u'' '''']"
    by (rule example_store)
  obtain st' r where del: "Store_Delete st ''tmss-1'' = (st', r)" by fastforce
  have d: "r = None" "store_abs st' = Map.empty"
    using Store_Delete_refines [OF st(1) del] st(2) by (simp_all add: a_Delete_def)
  have name: "normalizeCommandName example_ext ''DEL'' = ''DEL''" by code_simp
  have perm: "checkPermission (cn_APIKey example_conn) ''DEL''" by code_simp
  have run: "run_command (example_redis store_session_repo store_token_repo) st addr ''DEL'' [Some ''DEL'', Some ''tmss-1''] =
      Some (st', WriteInteger 1)" for addr
    using del d(1) by (simp add: run_command_def handleDel_def arg_strings_def SessionService_Revoke_def store_session_repo_def)
  have "Handle (example_redis store_session_repo store_token_repo) (example_handler st) example_conn [Some ''DEL'', Some ''tmss-1''] =
       Some (example_handler st', reply example_conn (WriteInteger 1))"
    using perm name run by (simp add: Handle_def arg_def check_rate_def)
  with st d show thesis by (intro that [of st st']) auto
qed

theorem redis_writes_need_role_witness:
  "\<exists>st st' c'. Handle (example_redis store_session_repo store_token_repo) (example_handler st) example_conn
      [Some ''DEL'', Some ''tmss-1''] = Some (example_handler st', c') \<and> st' \<noteq> st \<and> cn_Authenticated example_conn"
proof -
  obtain st st' where h: "store_abs st ''tmss-1'' \<noteq> None" "store_abs st' ''tmss-1'' = None"
    "Handle (example_redis store_session_repo store_token_repo) (example_handler st) example_conn [Some ''DEL'', Some ''tmss-1''] =
       Some (example_handler st', reply example_conn (WriteInteger 1))"
    by (rule example_del)
  have ne: "st' \<noteq> st" using h(1,2) by auto
  from redis_writes_need_role [OF h(3)] ne have "cn_Authenticated example_conn" by simp
  with h(3) ne show ?thesis by blast
qed

text \<open>A connection that sends one command and closes.\<close>

lemma serveConn_one:
  assumes "ReadCommand r = (Inr args, \<lparr> rd_data = [], rd_err = x \<rparr>)" "rd_data r \<noteq> []" "args \<noteq> []"
    and "Handle (C n) h c args = Some (h', c')" "\<not> cn_closed c'"
  shows "serveConn C timeout n h c r = Some (h', c' \<lparr> cn_closed := True \<rparr>)"
  using assms by (simp add: serveConn.simps [of _ _ _ _ _ r] serveConn.simps [of _ _ _ _ _ "\<lparr> rd_data = [], rd_err = x \<rparr>"])

end
