(* ===== verification/Http_Handler.thy ===== *)
theory Http_Handler
  imports Go_Text Cluster_Json Engine_Recovery Auth_Service Session_Json
begin

text \<open>
  The HTTP handlers, \<open>internal/server/httpserver/handler\<close>, over the services.

  A request is what \<open>net/http\<close> hands over: the method, the segments of the path, the query, the headers by the names the
  code uses, the body, and the values in its context. The response writer keeps the header map, what was sent when the status
  was written, and the body. A handler returns, panics or never returns, with the state it leaves. What a request
  needs from outside is a record; the format of times and the answers the multiplexer gives on its own
  (redirects, 404 and 405) are parameters. Log lines of the handlers are left out.
\<close>

section \<open>Requests and responses\<close>

type_synonym header = "(string, string) gomap"

definition Header_Get :: "header \<Rightarrow> string \<Rightarrow> string" where
  "Header_Get h k = (case gm_get h k of None \<Rightarrow> '''' | Some v \<Rightarrow> v)"

record http_request =
  hr_Method :: string
  hr_Segments :: "string list"
  hr_Query :: header
  hr_Header :: header
  hr_RemoteAddr :: string
  hr_Body :: bytes
  hr_PathValues :: header
  hr_ctx_RequestID :: string
  hr_ctx_APIKey :: "apikey option"

definition URL_Path :: "http_request \<Rightarrow> string" where
  "URL_Path rq = (if hr_Segments rq = [] then ''/'' else concat (map (\<lambda>s. CHR ''/'' # s) (hr_Segments rq)))"

record http_response =
  hw_Header :: header
  hw_Sent :: "(int \<times> header) option"
  hw_Body :: string
  hw_Last :: int

definition Header_Set :: "string \<Rightarrow> string \<Rightarrow> http_response \<Rightarrow> http_response" where
  "Header_Set k v w = w \<lparr> hw_Header := gm_set k v (hw_Header w) \<rparr>"

text \<open>Only the first status is sent, with the headers of that moment; a body that comes first sends 200. \<open>hw_Last\<close> is
  the field \<open>statusCode\<close> of the wrapper that \<open>Audit\<close> puts around the writer: the last status that was written.\<close>

definition send_header :: "int \<Rightarrow> http_response \<Rightarrow> http_response" where
  "send_header code w = (case hw_Sent w of None \<Rightarrow> w \<lparr> hw_Sent := Some (code, hw_Header w) \<rparr> | Some _ \<Rightarrow> w)"

definition WriteHeader :: "int \<Rightarrow> http_response \<Rightarrow> http_response" where
  "WriteHeader code w = send_header code (w \<lparr> hw_Last := code \<rparr>)"

definition write_body :: "string \<Rightarrow> http_response \<Rightarrow> http_response" where
  "write_body s w = (let w1 = send_header 200 w in w1 \<lparr> hw_Body := hw_Body w1 @ s \<rparr>)"

text \<open>\<open>json.NewEncoder(w).Encode\<close>: a value that cannot be encoded writes nothing.\<close>

definition json_Encode :: "json option \<Rightarrow> http_response \<Rightarrow> http_response" where
  "json_Encode v w = (case v of None \<Rightarrow> w | Some j \<Rightarrow> write_body (json_text j @ [CHR 0x0A]) w)"

datatype 's outcome = Returned 's http_response | Panicked 's http_response | Blocked

type_synonym 's http_handler = "http_request \<Rightarrow> http_response \<Rightarrow> 's \<Rightarrow> 's outcome"

section \<open>Routing\<close>

text \<open>Patterns of \<open>http.ServeMux\<close>: a wildcard takes one segment, which is not empty. The patterns of this program never
  overlap. A pattern for GET also takes HEAD.\<close>

datatype pat_seg = Lit string | Wild string

fun match_segs :: "pat_seg list \<Rightarrow> string list \<Rightarrow> header option" where
  "match_segs [] [] = Some []"
| "match_segs (Lit l # ps) (s # ss) = (if l = s then match_segs ps ss else None)"
| "match_segs (Wild n # ps) (s # ss) = (if s = '''' then None else map_option (gm_set n s) (match_segs ps ss))"
| "match_segs _ _ = None"

definition match_method :: "string \<Rightarrow> string \<Rightarrow> bool" where
  "match_method m rm \<longleftrightarrow> m = rm \<or> m = ''GET'' \<and> rm = ''HEAD''"

fun mux_find :: "(string \<times> pat_seg list \<times> 'h) list \<Rightarrow> http_request \<Rightarrow> ('h \<times> header) option" where
  "mux_find [] rq = None"
| "mux_find ((m, ps, h) # rs) rq =
     (case match_segs ps (hr_Segments rq) of
        Some vs \<Rightarrow> if match_method m (hr_Method rq) then Some (h, vs) else mux_find rs rq
      | None \<Rightarrow> mux_find rs rq)"

definition mux_ServeHTTP ::
  "(http_request \<Rightarrow> http_response \<Rightarrow> http_response) \<Rightarrow> (string \<times> pat_seg list \<times> 's http_handler) list \<Rightarrow> 's http_handler" where
  "mux_ServeHTTP own routes rq w s =
     (case mux_find routes rq of
        None \<Rightarrow> Returned s (own rq w)
      | Some (h, vs) \<Rightarrow> h (rq \<lparr> hr_PathValues := vs \<rparr>) w s)"

abbreviation PathValue :: "http_request \<Rightarrow> string \<Rightarrow> string" where
  "PathValue rq n \<equiv> Header_Get (hr_PathValues rq) n"

section \<open>The state and the calls\<close>

record audit_entry =
  au_Level :: string
  au_RequestID :: string
  au_Method :: string
  au_Path :: string
  au_Status :: int
  au_ClientIP :: string
  au_Key :: "(string \<times> string) option"

record 'f ip_bucket =
  ib_tokens :: 'f
  ib_lastCheck :: int

record ('r, 'k, 'l, 'f) http_state =
  hs_sessions :: 'r
  hs_auth :: "'k auth_service"
  hs_limiters :: "'l limiter_registry"
  hs_buckets :: "(string, 'f ip_bucket) gomap"
  hs_audit :: "audit_entry list"

record ('r, 'k, 'l, 'f) http_calls =
  hx_ext :: ext
  hx_sessions :: "'r session_repo"
  hx_tokens :: "'r token_repo"
  hx_keys :: "'k apikey_repo"
  hx_float :: "'f float64"
  hx_now :: int
  hx_time :: "int \<Rightarrow> string option"
  hx_RFC3339 :: "int \<Rightarrow> string"
  hx_requestID :: "go_error + bytes"
  hx_ulid :: "go_error + string"
  hx_random :: "go_error + bytes"
  hx_salt :: "go_error + bytes"
  hx_between :: "'r \<Rightarrow> 'r"
  hx_between_keys :: "'k auth_service \<Rightarrow> 'k auth_service"
  hx_NewLimiter :: "int \<Rightarrow> 'l"
  hx_Allow :: "'l \<Rightarrow> 'l \<times> bool"
  hx_RetryAfter :: "'l \<Rightarrow> 'l \<times> string"
  hx_mux :: "http_request \<Rightarrow> http_response \<Rightarrow> http_response"

section \<open>The envelope\<close>

definition getRequestID :: "http_request \<Rightarrow> string" where
  "getRequestID rq = Header_Get (hr_Header rq) ''X-Request-ID''"

definition NewResponse :: "int \<Rightarrow> string \<Rightarrow> json \<Rightarrow> json" where
  "NewResponse now requestID d = JObj [(''code'', JStr ''OK''), (''message'', JStr ''Success''), (''request_id'', JStr requestID),
     (''timestamp'', JInt (UnixMilli now)), (''data'', d)]"

definition NewErrorResponse :: "int \<Rightarrow> string \<Rightarrow> string \<Rightarrow> string \<Rightarrow> json" where
  "NewErrorResponse now requestID code message = JObj [(''code'', JStr code), (''message'', JStr message),
     (''request_id'', JStr requestID), (''timestamp'', JInt (UnixMilli now))]"

definition writeJSON :: "int \<Rightarrow> http_request \<Rightarrow> int \<Rightarrow> json option \<Rightarrow> http_response \<Rightarrow> http_response" where
  "writeJSON now rq status d w =
     json_Encode (map_option (NewResponse now (getRequestID rq)) d)
       (WriteHeader status (Header_Set ''X-Request-ID'' (getRequestID rq) (Header_Set ''Content-Type'' ''application/json'' w)))"

definition writeError :: "int \<Rightarrow> http_request \<Rightarrow> int \<Rightarrow> string \<Rightarrow> string \<Rightarrow> http_response \<Rightarrow> http_response" where
  "writeError now rq status code message w =
     json_Encode (Some (NewErrorResponse now (getRequestID rq) code message))
       (WriteHeader status (Header_Set ''X-Request-ID'' (getRequestID rq)
         (Header_Set ''X-Error-Code'' code (Header_Set ''Content-Type'' ''application/json'' w))))"

definition errorCodeToHTTPStatus :: "string \<Rightarrow> int" where
  "errorCodeToHTTPStatus code =
     (if HasSuffix code ''-4040'' \<or> HasSuffix code ''-4041'' then 404
      else if HasSuffix code ''-4090'' \<or> HasSuffix code ''-4091'' then 409
      else if HasSuffix code ''-4290'' then 429
      else if HasSuffix code ''-4001'' \<or> HasSuffix code ''-4002'' then 400
      else if HasSuffix code ''-4010'' \<or> HasSuffix code ''-4011'' \<or> HasSuffix code ''-4012'' then 401
      else if HasSuffix code ''-4030'' \<or> HasSuffix code ''-4031'' then 403
      else if HasPrefix code ''TM-ARG-'' then 400
      else if HasPrefix code ''TM-SYS-5'' then 500
      else 500)"

definition handleServiceError :: "int \<Rightarrow> http_request \<Rightarrow> go_error \<Rightarrow> http_response \<Rightarrow> http_response" where
  "handleServiceError now rq err w =
     (if IsDomainError err '''' then
        writeError now rq (errorCodeToHTTPStatus (GetErrorCode err)) (GetErrorCode err) (Error err) w
      else writeError now rq 500 ''TM-SYS-5000'' ''internal server error'' w)"

definition LastIndex_cut :: "string \<Rightarrow> string" where
  "LastIndex_cut ip =
     (if CHR '':'' \<in> set ip then take (length ip - 1 - length (takeWhile (\<lambda>c. c \<noteq> CHR '':'') (rev ip))) ip else ip)"

definition handler_getClientIP :: "http_request \<Rightarrow> string" where
  "handler_getClientIP rq =
     (let xff = Header_Get (hr_Header rq) ''X-Forwarded-For''; xri = Header_Get (hr_Header rq) ''X-Real-IP'' in
      if xff \<noteq> '''' then TrimSpace (hd (split_at_char (CHR '','') xff))
      else if xri \<noteq> '''' then xri
      else LastIndex_cut (hr_RemoteAddr rq))"

abbreviation UserAgent :: "http_request \<Rightarrow> string" where
  "UserAgent rq \<equiv> Header_Get (hr_Header rq) ''User-Agent''"

section \<open>Bodies\<close>

record create_session_body =
  cb_UserID :: string
  cb_DeviceID :: string
  cb_Data :: data_map
  cb_TTLSeconds :: int

definition create_session_field :: "string \<Rightarrow> json \<Rightarrow> create_session_body \<Rightarrow> go_error + create_session_body" where
  "create_session_field n v b =
     (if n = ''user_id'' then map_sum id (\<lambda>x. b \<lparr> cb_UserID := x \<rparr>) (dec_string v (cb_UserID b))
      else if n = ''device_id'' then map_sum id (\<lambda>x. b \<lparr> cb_DeviceID := x \<rparr>) (dec_string v (cb_DeviceID b))
      else if n = ''data'' then map_sum id (\<lambda>x. b \<lparr> cb_Data := x \<rparr>) (dec_strmap v (cb_Data b))
      else map_sum id (\<lambda>x. b \<lparr> cb_TTLSeconds := x \<rparr>) (dec_int64 v (cb_TTLSeconds b)))"

definition Decode_create_session :: "bytes \<Rightarrow> go_error + create_session_body" where
  "Decode_create_session = json_Decode (\<lambda>v. dec_struct [''user_id'', ''device_id'', ''data'', ''ttl_seconds''] create_session_field v
     \<lparr> cb_UserID = '''', cb_DeviceID = '''', cb_Data = None, cb_TTLSeconds = 0 \<rparr>)"

definition Decode_renew :: "bytes \<Rightarrow> go_error + int" where
  "Decode_renew = json_Decode (\<lambda>v. dec_struct [''ttl_seconds''] (\<lambda>n x old. dec_int64 x old) v 0)"

definition Decode_validate :: "bytes \<Rightarrow> go_error + string \<times> bool" where
  "Decode_validate = json_Decode (\<lambda>v. dec_struct [''token'', ''touch'']
     (\<lambda>n x b. if n = ''token'' then map_sum id (\<lambda>y. (y, snd b)) (dec_string x (fst b))
              else map_sum id (\<lambda>y. (fst b, y)) (dec_bool x (snd b))) v ('''', False))"

record create_key_body =
  kb_Name :: string
  kb_Role :: string
  kb_Description :: string

definition create_key_field :: "string \<Rightarrow> json \<Rightarrow> create_key_body \<Rightarrow> go_error + create_key_body" where
  "create_key_field n v b =
     (if n = ''name'' then map_sum id (\<lambda>x. b \<lparr> kb_Name := x \<rparr>) (dec_string v (kb_Name b))
      else if n = ''role'' then map_sum id (\<lambda>x. b \<lparr> kb_Role := x \<rparr>) (dec_string v (kb_Role b))
      else map_sum id (\<lambda>x. b \<lparr> kb_Description := x \<rparr>) (dec_string v (kb_Description b)))"

definition Decode_create_key :: "bytes \<Rightarrow> go_error + create_key_body" where
  "Decode_create_key = json_Decode (\<lambda>v. dec_struct [''name'', ''role'', ''description''] create_key_field v
     \<lparr> kb_Name = '''', kb_Role = '''', kb_Description = '''' \<rparr>)"

definition Decode_status :: "bytes \<Rightarrow> go_error + bool" where
  "Decode_status = json_Decode (\<lambda>v. dec_struct [''enabled''] (\<lambda>n x old. dec_bool x old) v False)"

text \<open>An object with times in it: it cannot be encoded when one of them cannot.\<close>

definition obj_opt :: "(string \<times> json option) list \<Rightarrow> json option" where
  "obj_opt fs = (if \<exists>f \<in> set fs. snd f = None then None else Some (JObj (map (\<lambda>(n, v). (n, the v)) fs)))"

abbreviation time_json :: "('r, 'k, 'l, 'f) http_calls \<Rightarrow> int \<Rightarrow> json option" where
  "time_json C t \<equiv> map_option JStr (hx_time C t)"

definition omit_empty :: "string \<Rightarrow> string \<Rightarrow> (string \<times> json option) list" where
  "omit_empty n s = (if s = '''' then [] else [(n, Some (JStr s))])"

definition sessionToResponse :: "('r, 'k, 'l, 'f) http_calls \<Rightarrow> session \<Rightarrow> json option" where
  "sessionToResponse C s = obj_opt
     ([(''id'', Some (JStr (S_ID s))), (''user_id'', Some (JStr (S_UserID s)))] @ omit_empty ''ip_address'' (S_IPAddress s) @
      omit_empty ''user_agent'' (S_UserAgent s) @ omit_empty ''device_id'' (S_DeviceID s) @
      [(''created_at'', time_json C (time_UnixMilli (S_CreatedAt s))), (''expires_at'', time_json C (time_UnixMilli (S_ExpiresAt s))),
       (''last_active'', time_json C (time_UnixMilli (S_LastActive s)))] @
      omit_empty ''last_access_ip'' (S_LastAccessIP s) @
      (case S_Data s of None \<Rightarrow> [] | Some d \<Rightarrow> if d = [] then [] else [(''data'', Some (json_strmap (Some d)))]))"

section \<open>Session handlers\<close>

abbreviation with_sessions ::
  "('r, 'k, 'l, 'f) http_state \<Rightarrow> 'r \<Rightarrow> http_response \<Rightarrow> ('r, 'k, 'l, 'f) http_state outcome" where
  "with_sessions s r w \<equiv> Returned (s \<lparr> hs_sessions := r \<rparr>) w"

definition bad_body :: "int \<Rightarrow> http_request \<Rightarrow> http_response \<Rightarrow> http_response" where
  "bad_body now rq w = writeError now rq 400 ''TM-SYS-4000'' ''invalid request body'' w"

definition missing :: "int \<Rightarrow> http_request \<Rightarrow> string \<Rightarrow> http_response \<Rightarrow> http_response" where
  "missing now rq name w = writeError now rq 400 ''TM-ARG-1002'' (name @ '' is required'') w"

definition handleCreateSession ::
  "('r, 'k, 'l, 'f) http_calls \<Rightarrow> ('r, 'k, 'l, 'f) http_state http_handler" where
  "handleCreateSession C rq w s =
     (case Decode_create_session (hr_Body rq) of
        Inl err \<Rightarrow> Returned s (bad_body (hx_now C) rq w)
      | Inr b \<Rightarrow>
          (case SessionService_Create (hx_ext C) (hx_sessions C) (hx_now C) (hx_ulid C) (hx_random C) (hx_between C) (hs_sessions s)
                  \<lparr> cq_UserID = cb_UserID b, cq_DeviceID = cb_DeviceID b, cq_Data = cb_Data b,
                    cq_TTL = (if cb_TTLSeconds b > 0 then i64 (cb_TTLSeconds b * Second) else 0), cq_Token = '''',
                    cq_CreatedBy = '''', cq_ClientIP = handler_getClientIP rq, cq_UserAgent = UserAgent rq \<rparr> of
             (r, Inl err) \<Rightarrow> with_sessions s r (handleServiceError (hx_now C) rq err w)
           | (r, Inr resp) \<Rightarrow>
               with_sessions s r (writeJSON (hx_now C) rq 201
                 (obj_opt [(''session_id'', Some (JStr (cr_SessionID resp))), (''token'', Some (JStr (cr_Token resp))),
                           (''expires_at'', time_json C (time_UnixMilli (cr_ExpiresAt resp)))]) w)))"

definition handleGetSession :: "('r, 'k, 'l, 'f) http_calls \<Rightarrow> ('r, 'k, 'l, 'f) http_state http_handler" where
  "handleGetSession C rq w s =
     (if PathValue rq ''id'' = '''' then Returned s (missing (hx_now C) rq ''session_id'' w)
      else
        (case SessionService_Get (hx_sessions C) (hx_now C) (hs_sessions s) (PathValue rq ''id'') of
           Inl err \<Rightarrow> Returned s (handleServiceError (hx_now C) rq err w)
         | Inr sess \<Rightarrow> Returned s (writeJSON (hx_now C) rq 200 (sessionToResponse C sess) w)))"

definition handleRenewSession :: "('r, 'k, 'l, 'f) http_calls \<Rightarrow> ('r, 'k, 'l, 'f) http_state http_handler" where
  "handleRenewSession C rq w s =
     (if PathValue rq ''id'' = '''' then Returned s (missing (hx_now C) rq ''session_id'' w)
      else
        (case Decode_renew (hr_Body rq) of
           Inl err \<Rightarrow> Returned s (bad_body (hx_now C) rq w)
         | Inr secs \<Rightarrow>
             (case SessionService_Renew (hx_sessions C) (hx_now C) (hx_between C) (hs_sessions s) (PathValue rq ''id'')
                     (if secs > 0 then i64 (secs * Second) else 24 * Hour) of
                (r, Inl err) \<Rightarrow> with_sessions s r (handleServiceError (hx_now C) rq err w)
              | (r, Inr t) \<Rightarrow>
                  with_sessions s r (writeJSON (hx_now C) rq 200
                    (obj_opt [(''new_expires_at'', time_json C (time_UnixMilli t))]) w))))"

definition handleTouchSession :: "('r, 'k, 'l, 'f) http_calls \<Rightarrow> ('r, 'k, 'l, 'f) http_state http_handler" where
  "handleTouchSession C rq w s =
     (if PathValue rq ''id'' = '''' then Returned s (missing (hx_now C) rq ''session_id'' w)
      else
        (case SessionService_Touch (hx_sessions C) (hx_now C) (hx_between C) (hx_between C) (hs_sessions s) (PathValue rq ''id'')
                (handler_getClientIP rq) of
           (r, Inl err) \<Rightarrow> with_sessions s r (handleServiceError (hx_now C) rq err w)
         | (r, Inr t) \<Rightarrow>
             with_sessions s r (writeJSON (hx_now C) rq 200 (obj_opt [(''last_active'', time_json C (time_UnixMilli t))]) w)))"

definition success_json :: json where
  "success_json = JObj [(''success'', JBool True)]"

definition handleRevokeSession :: "('r, 'k, 'l, 'f) http_calls \<Rightarrow> ('r, 'k, 'l, 'f) http_state http_handler" where
  "handleRevokeSession C rq w s =
     (if PathValue rq ''id'' = '''' then Returned s (missing (hx_now C) rq ''session_id'' w)
      else
        (case SessionService_Revoke (hx_sessions C) (hx_now C) (hs_sessions s) (PathValue rq ''id'') of
           (r, Inl err) \<Rightarrow> with_sessions s r (handleServiceError (hx_now C) rq err w)
         | (r, Inr _) \<Rightarrow> with_sessions s r (writeJSON (hx_now C) rq 200 (Some success_json) w)))"

text \<open>\<open>fmt.Sscanf(s, "%d", &n)\<close>: white space, but no line break, then a sign and digits; what follows is ignored.\<close>

definition Sscanf_d :: "string \<Rightarrow> int option" where
  "Sscanf_d s =
     (let t = trim_left s;
          sg = (case t of c # r \<Rightarrow> if c = CHR ''-'' \<or> c = CHR ''+'' then [c] else [] | [] \<Rightarrow> []);
          d = takeWhile is_digit (drop (length sg) t)
      in if CHR 0x0A \<in> set (take (length s - length t) s) then None else strconv_ParseInt (sg @ d))"

definition page_param :: "string \<Rightarrow> int" where
  "page_param s = (if s = '''' then 0 else case Sscanf_d s of None \<Rightarrow> 0 | Some n \<Rightarrow> if n > 0 then n else 0)"

definition handleListSessions :: "('r, 'k, 'l, 'f) http_calls \<Rightarrow> ('r, 'k, 'l, 'f) http_state http_handler" where
  "handleListSessions C rq w s =
     (case SessionService_List (hx_sessions C) (hx_now C) (hs_sessions s)
             (Some (SessionFilter_zero \<lparr> F_UserID := Header_Get (hr_Query rq) ''user_id'', F_DeviceID := Header_Get (hr_Query rq) ''device_id'',
                F_Status := Header_Get (hr_Query rq) ''status'', F_Page := page_param (Header_Get (hr_Query rq) ''page''),
                F_PageSize := page_param (Header_Get (hr_Query rq) ''page_size'') \<rparr>)) of
        None \<Rightarrow> Panicked s w
      | Some (Inl err) \<Rightarrow> Returned s (handleServiceError (hx_now C) rq err w)
      | Some (Inr resp) \<Rightarrow>
          (let items = map (sessionToResponse C) (lr_Items resp) in
           Returned s (writeJSON (hx_now C) rq 200
             (obj_opt [(''items'', if None \<in> set items then None else Some (JArr (map the items))),
                       (''total'', Some (JInt (int (lr_Total resp)))), (''page'', Some (JInt (lr_Page resp))),
                       (''page_size'', Some (JInt (lr_PageSize resp)))]) w)))"

definition handleRevokeUserSessions :: "('r, 'k, 'l, 'f) http_calls \<Rightarrow> ('r, 'k, 'l, 'f) http_state http_handler" where
  "handleRevokeUserSessions C rq w s =
     (if PathValue rq ''user_id'' = '''' then Returned s (missing (hx_now C) rq ''user_id'' w)
      else
        (case SessionService_RevokeByUser (hx_sessions C) (hx_now C) (hx_between C) (hs_sessions s) (PathValue rq ''user_id'') of
           (r, Inl err) \<Rightarrow> with_sessions s r (handleServiceError (hx_now C) rq err w)
         | (r, Inr n) \<Rightarrow> with_sessions s r (writeJSON (hx_now C) rq 200 (Some (JObj [(''revoked_count'', JInt (int n))])) w)))"

section \<open>Tokens\<close>

definition handleValidateToken :: "('r, 'k, 'l, 'f) http_calls \<Rightarrow> ('r, 'k, 'l, 'f) http_state http_handler" where
  "handleValidateToken C rq w s =
     (case Decode_validate (hr_Body rq) of
        Inl err \<Rightarrow> Returned s (bad_body (hx_now C) rq w)
      | Inr (token, touch) \<Rightarrow>
          if token = '''' then Returned s (missing (hx_now C) rq ''token'' w)
          else
            (case TokenService_Validate (hx_tokens C) (hx_now C) (hs_sessions s)
                    \<lparr> vr_Token = token, vr_Touch = touch, vr_ClientIP = handler_getClientIP rq, vr_UserAgent = UserAgent rq \<rparr> of
               (r, resp, Some err) \<Rightarrow>
                 with_sessions s r (writeJSON (hx_now C) rq 200
                   (obj_opt ([(''valid'', Some (JBool False)), (''expires_at'', time_json C time_zero)] @ omit_empty ''message'' (Error err))) w)
             | (r, resp, None) \<Rightarrow>
                 (case vp_Session resp of
                    None \<Rightarrow> Panicked (s \<lparr> hs_sessions := r \<rparr>) w
                  | Some sess \<Rightarrow>
                      with_sessions s r (writeJSON (hx_now C) rq 200
                        (obj_opt ([(''valid'', Some (JBool (vp_Valid resp)))] @ omit_empty ''session_id'' (S_ID sess) @
                           omit_empty ''user_id'' (S_UserID sess) @
                           [(''expires_at'', time_json C (time_UnixMilli (S_ExpiresAt sess)))])) w))))"

section \<open>Health and administration\<close>

definition handleHealth :: "('r, 'k, 'l, 'f) http_calls \<Rightarrow> ('r, 'k, 'l, 'f) http_state http_handler" where
  "handleHealth C rq w s = Returned s (writeJSON (hx_now C) rq 200
     (Some (JObj [(''status'', JStr ''healthy''), (''time'', JStr (hx_RFC3339 C (hx_now C)))])) w)"

definition handleReady :: "('r, 'k, 'l, 'f) http_calls \<Rightarrow> ('r, 'k, 'l, 'f) http_state http_handler" where
  "handleReady C rq w s = Returned s (writeJSON (hx_now C) rq 200
     (Some (JObj [(''status'', JStr ''ready''), (''time'', JStr (hx_RFC3339 C (hx_now C)))])) w)"

definition handleAdminStatus :: "('r, 'k, 'l, 'f) http_calls \<Rightarrow> ('r, 'k, 'l, 'f) http_state http_handler" where
  "handleAdminStatus C rq w s = Returned s (writeJSON (hx_now C) rq 200
     (Some (JObj [(''status'', JStr ''running''), (''time'', JStr (hx_RFC3339 C (hx_now C))), (''version'', JStr ''dev'')])) w)"

definition handleGCTrigger :: "('r, 'k, 'l, 'f) http_calls \<Rightarrow> ('r, 'k, 'l, 'f) http_state http_handler" where
  "handleGCTrigger C rq w s =
     (case SessionService_GC (hx_sessions C) (hx_now C) (hs_sessions s) of
        (r, Inl err) \<Rightarrow> with_sessions s r (handleServiceError (hx_now C) rq err w)
      | (r, Inr n) \<Rightarrow>
          with_sessions s r (writeJSON (hx_now C) rq 200
            (Some (JObj [(''cleaned_count'', JInt (int n)), (''success'', JBool True), (''triggered_at'', JStr (hx_RFC3339 C (hx_now C)))])) w))"

definition handleCreateAPIKey :: "('r, 'k, 'l, 'f) http_calls \<Rightarrow> ('r, 'k, 'l, 'f) http_state http_handler" where
  "handleCreateAPIKey C rq w s =
     (case Decode_create_key (hr_Body rq) of
        Inl err \<Rightarrow> Returned s (bad_body (hx_now C) rq w)
      | Inr b \<Rightarrow>
          if kb_Name b = '''' then Returned s (missing (hx_now C) rq ''name'' w)
          else if kb_Role b = '''' then Returned s (missing (hx_now C) rq ''role'' w)
          else if kb_Role b \<notin> set [''metrics'', ''validator'', ''issuer'', ''admin''] then
            Returned s (writeError (hx_now C) rq 400 ''TM-ARG-4001''
              ''invalid role, must be one of: metrics, validator, issuer, admin'' w)
          else
            (case CreateAPIKey (hx_ext C) (hx_keys C) (hx_now C) (hx_ulid C) (hx_random C) (hx_salt C) (hs_auth s)
                    (kb_Name b) (kb_Role b) (kb_Description b) of
               (a, Inl err) \<Rightarrow> Returned (s \<lparr> hs_auth := a \<rparr>) (handleServiceError (hx_now C) rq err w)
             | (a, Inr (k, secret)) \<Rightarrow>
                 Returned (s \<lparr> hs_auth := a \<rparr>) (writeJSON (hx_now C) rq 201
                   (obj_opt [(''key_id'', Some (JStr (K_KeyID k))), (''secret'', Some (JStr secret)), (''name'', Some (JStr (K_Name k))),
                             (''role'', Some (JStr (K_Role k))), (''created_at'', time_json C (APIKey_CreatedAtTime k))]) w)))"

definition apikey_response :: "('r, 'k, 'l, 'f) http_calls \<Rightarrow> apikey_info \<Rightarrow> json option" where
  "apikey_response C k = obj_opt
     ([(''key_id'', Some (JStr (ai_KeyID k))), (''name'', Some (JStr (ai_Name k))), (''role'', Some (JStr (ai_Role k)))] @
      omit_empty ''description'' (ai_Description k) @
      [(''enabled'', Some (JBool (ai_Enabled k))), (''created_at'', time_json C (ai_CreatedAt k)),
       (''last_used_at'', time_json C (ai_LastUsedAt k))])"

definition handleListAPIKeys :: "('r, 'k, 'l, 'f) http_calls \<Rightarrow> ('r, 'k, 'l, 'f) http_state http_handler" where
  "handleListAPIKeys C rq w s =
     (case ListAPIKeys (hx_keys C) (hs_auth s) (Header_Get (hr_Query rq) ''role'') of
        Inl err \<Rightarrow> Returned s (handleServiceError (hx_now C) rq err w)
      | Inr keys \<Rightarrow>
          (let items = map (apikey_response C) keys in
           Returned s (writeJSON (hx_now C) rq 200
             (if None \<in> set items then None else Some (JObj [(''keys'', JArr (map the items))])) w)))"

definition handleUpdateAPIKeyStatus :: "('r, 'k, 'l, 'f) http_calls \<Rightarrow> ('r, 'k, 'l, 'f) http_state http_handler" where
  "handleUpdateAPIKeyStatus C rq w s =
     (if PathValue rq ''key_id'' = '''' then Returned s (missing (hx_now C) rq ''key_id'' w)
      else
        (case Decode_status (hr_Body rq) of
           Inl err \<Rightarrow> Returned s (bad_body (hx_now C) rq w)
         | Inr enabled \<Rightarrow>
             (case UpdateAPIKeyStatus (hx_keys C) (hs_auth s) (PathValue rq ''key_id'') enabled of
                (a, Inl err) \<Rightarrow> Returned (s \<lparr> hs_auth := a \<rparr>) (handleServiceError (hx_now C) rq err w)
              | (a, Inr _) \<Rightarrow> Returned (s \<lparr> hs_auth := a \<rparr>) (writeJSON (hx_now C) rq 200 (Some success_json) w))))"

text \<open>The reply names the key as it is stored.\<close>

definition handleRotateAPIKey :: "('r, 'k, 'l, 'f) http_calls \<Rightarrow> ('r, 'k, 'l, 'f) http_state http_handler" where
  "handleRotateAPIKey C rq w s =
     (if PathValue rq ''key_id'' = '''' then Returned s (missing (hx_now C) rq ''key_id'' w)
      else
        (case RotateAPIKey (hx_ext C) (hx_keys C) (hx_now C) (hx_random C) (hx_salt C) (hs_auth s) (PathValue rq ''key_id'') of
           (a, Inl err) \<Rightarrow> Returned (s \<lparr> hs_auth := a \<rparr>) (handleServiceError (hx_now C) rq err w)
         | (a, Inr newSecret) \<Rightarrow>
             Returned (s \<lparr> hs_auth := a \<rparr>) (writeJSON (hx_now C) rq 200
               (Some (JObj [(''key_id'', JStr (case kr_Get (hx_keys C) (as_repo (hs_auth s)) (PathValue rq ''key_id'') of
                                             Inl _ \<Rightarrow> '''' | Inr k \<Rightarrow> K_KeyID k)), (''new_secret'', JStr newSecret)])) w)))"

section \<open>The handler\<close>

definition registerRoutes ::
  "('r, 'k, 'l, 'f) http_calls \<Rightarrow> (string \<times> pat_seg list \<times> ('r, 'k, 'l, 'f) http_state http_handler) list" where
  "registerRoutes C =
     [(''GET'', [Lit ''health''], handleHealth C),
      (''GET'', [Lit ''ready''], handleReady C),
      (''GET'', [Lit ''sessions''], handleListSessions C),
      (''POST'', [Lit ''sessions''], handleCreateSession C),
      (''GET'', [Lit ''sessions'', Wild ''id''], handleGetSession C),
      (''POST'', [Lit ''sessions'', Wild ''id'', Lit ''touch''], handleTouchSession C),
      (''POST'', [Lit ''sessions'', Wild ''id'', Lit ''renew''], handleRenewSession C),
      (''POST'', [Lit ''sessions'', Wild ''id'', Lit ''revoke''], handleRevokeSession C),
      (''POST'', [Lit ''users'', Wild ''user_id'', Lit ''sessions'', Lit ''revoke''], handleRevokeUserSessions C),
      (''POST'', [Lit ''tokens'', Lit ''validate''], handleValidateToken C),
      (''GET'', [Lit ''admin'', Lit ''v1'', Lit ''status'', Lit ''summary''], handleAdminStatus C),
      (''POST'', [Lit ''admin'', Lit ''v1'', Lit ''gc'', Lit ''trigger''], handleGCTrigger C),
      (''POST'', [Lit ''admin'', Lit ''v1'', Lit ''keys''], handleCreateAPIKey C),
      (''GET'', [Lit ''admin'', Lit ''v1'', Lit ''keys''], handleListAPIKeys C),
      (''POST'', [Lit ''admin'', Lit ''v1'', Lit ''keys'', Wild ''key_id'', Lit ''status''], handleUpdateAPIKeyStatus C),
      (''POST'', [Lit ''admin'', Lit ''v1'', Lit ''keys'', Wild ''key_id'', Lit ''rotate''], handleRotateAPIKey C)]"

definition Handler_ServeHTTP :: "('r, 'k, 'l, 'f) http_calls \<Rightarrow> ('r, 'k, 'l, 'f) http_state http_handler" where
  "Handler_ServeHTTP C = mux_ServeHTTP (hx_mux C) (registerRoutes C)"

end
