(* ===== verification/Http_Router.thy ===== *)
theory Http_Router
  imports Http_Handler
begin

text \<open>
  The middleware and the router of the HTTP server, \<open>internal/server/httpserver/middleware.go\<close> and \<open>router.go\<close>.

  A middleware is a function from handlers to handlers, as in the code. The audit trail is part of the state, without
  durations; other log lines are left out. All clock readings of one request are equal.
\<close>

type_synonym 's middleware = "'s http_handler \<Rightarrow> 's http_handler"

definition Chain :: "'s http_handler \<Rightarrow> 's middleware list \<Rightarrow> 's http_handler" where
  "Chain h ms = foldr (\<lambda>m h. m h) ms h"

section \<open>Credentials and addresses\<close>

text \<open>\<open>strings.SplitN(s, ":", 2)\<close> when it has two parts.\<close>

definition split_colon :: "string \<Rightarrow> (string \<times> string) option" where
  "split_colon s =
     (let k = takeWhile (\<lambda>c. c \<noteq> CHR '':'') s in if k = s then None else Some (k, drop (Suc (length k)) s))"

definition bearer :: "http_request \<Rightarrow> (string \<times> string) option" where
  "bearer rq =
     (let a = Header_Get (hr_Header rq) ''Authorization'' in
      if HasPrefix a ''Bearer '' then split_colon (drop 7 a) else None)"

definition auth_header_credentials :: "http_request \<Rightarrow> string \<times> string" where
  "auth_header_credentials rq =
     (let keyID = Header_Get (hr_Header rq) ''X-API-Key-ID''; keySecret = Header_Get (hr_Header rq) ''X-API-Key'' in
      if keyID = '''' \<and> keySecret = '''' then (case bearer rq of Some p \<Rightarrow> p | None \<Rightarrow> (keyID, keySecret))
      else (keyID, keySecret))"

definition extractAPIKeyCredentials :: "http_request \<Rightarrow> string \<times> string" where
  "extractAPIKeyCredentials rq =
     (case bearer rq of
        Some p \<Rightarrow> p
      | None \<Rightarrow>
          (let apiKey = Header_Get (hr_Header rq) ''X-API-Key'' in
           case (if apiKey \<noteq> '''' then split_colon apiKey else None) of
             Some p \<Rightarrow> p
           | None \<Rightarrow> (Header_Get (hr_Header rq) ''X-API-Key-ID'', Header_Get (hr_Header rq) ''X-API-Key'')))"

text \<open>The host of \<open>net.SplitHostPort\<close>, or nothing for its errors.\<close>

definition last_colon :: "string \<Rightarrow> nat option" where
  "last_colon s =
     (if CHR '':'' \<in> set s then Some (length s - 1 - length (takeWhile (\<lambda>c. c \<noteq> CHR '':'') (rev s))) else None)"

definition SplitHostPort_host :: "string \<Rightarrow> string option" where
  "SplitHostPort_host hp =
     (case last_colon hp of
        None \<Rightarrow> None
      | Some i \<Rightarrow>
          if hp ! 0 = CHR ''['' then
            (let e = length (takeWhile (\<lambda>c. c \<noteq> CHR '']'') hp) in
             if e = length hp \<or> e + 1 \<noteq> i then None
             else if CHR ''['' \<in> set (drop 1 hp) \<or> CHR '']'' \<in> set (drop (e + 1) hp) then None
             else Some (take (e - 1) (drop 1 hp)))
          else if CHR '':'' \<in> set (take i hp) \<or> CHR ''['' \<in> set hp \<or> CHR '']'' \<in> set hp then None
          else Some (take i hp))"

definition getClientIP :: "http_request \<Rightarrow> string" where
  "getClientIP rq =
     (let xff = Header_Get (hr_Header rq) ''X-Forwarded-For''; xri = Header_Get (hr_Header rq) ''X-Real-IP'' in
      if xff \<noteq> '''' then TrimSpace (hd (split_at_char (CHR '','') xff))
      else if xri \<noteq> '''' then xri
      else (case SplitHostPort_host (hr_RemoteAddr rq) of None \<Rightarrow> hr_RemoteAddr rq | Some host \<Rightarrow> host))"

definition writeAuthError :: "string \<Rightarrow> string \<Rightarrow> http_response \<Rightarrow> http_response" where
  "writeAuthError code message w =
     json_Encode (Some (JObj [(''code'', JStr code), (''message'', JStr message)]))
       (WriteHeader (if Contains code ''-403'' then 403 else if HasSuffix code ''-4290'' then 429 else 401)
         (Header_Set ''X-Error-Code'' code (Header_Set ''Content-Type'' ''application/json'' w)))"

section \<open>Middleware\<close>

definition GenerateWithLength :: "go_error + bytes \<Rightarrow> go_error + string" where
  "GenerateWithLength rnd = map_sum id (b64_encode url_alphabet) rnd"

definition RequestID :: "('r, 'k, 'l, 'f) http_calls \<Rightarrow> ('r, 'k, 'l, 'f) http_state middleware" where
  "RequestID C next_h rq w s =
     (let h = Header_Get (hr_Header rq) ''X-Request-ID'';
          requestID = (if h \<noteq> '''' then h
                       else case GenerateWithLength (hx_requestID C) of Inr i \<Rightarrow> ''req-'' @ i | Inl _ \<Rightarrow> ''req-unknown'')
      in next_h (rq \<lparr> hr_ctx_RequestID := requestID \<rparr>) (Header_Set ''X-Request-ID'' requestID w) s)"

text \<open>The limit on the requests of a key, and what follows.\<close>

definition limited ::
  "('r, 'k, 'l, 'f) http_calls \<Rightarrow> string \<Rightarrow> apikey \<Rightarrow> ('r, 'k, 'l, 'f) http_state middleware" where
  "limited C keyID k next_h rq w s =
     (case CheckRateLimit (hx_NewLimiter C) (hx_Allow C) (hx_RetryAfter C) (hs_limiters s) keyID (K_RateLimit k) of
        (l, Some err) \<Rightarrow>
          Returned (s \<lparr> hs_limiters := l \<rparr>) (writeAuthError ''TM-AUTH-4290'' ''rate limit exceeded'' (Header_Set ''Retry-After'' ''60'' w))
      | (l, None) \<Rightarrow> next_h (rq \<lparr> hr_ctx_APIKey := Some k \<rparr>) w (s \<lparr> hs_limiters := l \<rparr>))"

abbreviation validate_request ::
  "('r, 'k, 'l, 'f) http_calls \<Rightarrow> ('r, 'k, 'l, 'f) http_state \<Rightarrow> http_request \<Rightarrow> string \<times> string \<Rightarrow>
   ('k auth_service \<times> (go_error + apikey)) option" where
  "validate_request C s rq cred \<equiv> ValidateAPIKey (hx_ext C) (hx_keys C) (hx_now C) (hx_between_keys C) (hs_auth s)
     \<lparr> aq_KeyID = fst cred, aq_KeySecret = snd cred, aq_ClientIP = getClientIP rq \<rparr>"

definition Auth :: "('r, 'k, 'l, 'f) http_calls \<Rightarrow> string list \<Rightarrow> ('r, 'k, 'l, 'f) http_state middleware" where
  "Auth C skipPaths next_h rq w s =
     (if list_ex (\<lambda>p. HasPrefix (URL_Path rq) p) skipPaths then next_h rq w s
      else
        (let cred = auth_header_credentials rq in
         if fst cred = '''' \<or> snd cred = '''' then Returned s (writeAuthError ''TM-AUTH-4010'' ''authentication required'' w)
         else
           (case validate_request C s rq cred of
              None \<Rightarrow> Blocked
            | Some (a, Inl err) \<Rightarrow> Returned (s \<lparr> hs_auth := a \<rparr>) (writeAuthError (GetErrorCode err) (Error err) w)
            | Some (a, Inr k) \<Rightarrow> limited C (fst cred) k next_h rq w (s \<lparr> hs_auth := a \<rparr>))))"

definition RequirePermission :: "string \<Rightarrow> 's middleware" where
  "RequirePermission perm next_h rq w s =
     (case hr_ctx_APIKey rq of
        None \<Rightarrow> Returned s (writeAuthError ''TM-AUTH-4010'' ''authentication required'' w)
      | Some k \<Rightarrow>
          (case AuthService_CheckPermission k perm of
             Some err \<Rightarrow> Returned s (writeAuthError ''TM-AUTH-4030'' (''permission denied: '' @ perm) w)
           | None \<Rightarrow> next_h rq w s))"

definition RateLimit :: "('r, 'k, 'l, 'f) http_calls \<Rightarrow> int \<Rightarrow> ('r, 'k, 'l, 'f) http_state middleware" where
  "RateLimit C requestsPerSecond next_h rq w s =
     (let F = hx_float C; rate = fl_of_int F requestsPerSecond; ip = getClientIP rq;
          b = (case gm_get (hs_buckets s) ip of Some b \<Rightarrow> b | None \<Rightarrow> \<lparr> ib_tokens = rate, ib_lastCheck = hx_now C \<rparr>);
          t1 = fl_add F (ib_tokens b) (fl_mul F (fl_Seconds F (time_Sub (hx_now C) (ib_lastCheck b))) rate);
          t2 = (if fl_less F rate t1 then rate else t1)
      in if fl_less F t2 (fl_of_int F 1) then
           Returned (s \<lparr> hs_buckets := gm_set ip \<lparr> ib_tokens = t2, ib_lastCheck = hx_now C \<rparr> (hs_buckets s) \<rparr>)
             (writeAuthError ''TM-SYS-4290'' ''too many requests'' (Header_Set ''Retry-After'' ''1'' w))
         else
           next_h rq w (s \<lparr> hs_buckets := gm_set ip \<lparr> ib_tokens = fl_add F t2 (fl_of_int F (- 1)), ib_lastCheck = hx_now C \<rparr>
                              (hs_buckets s) \<rparr>))"

definition audit_level :: "int \<Rightarrow> string" where
  "audit_level status = (if status \<ge> 500 then ''ERROR'' else if status \<ge> 400 then ''WARN'' else ''INFO'')"

definition Audit :: "('r, 'k, 'l, 'f) http_state middleware" where
  "Audit next_h rq w s =
     (case next_h rq (w \<lparr> hw_Last := 200 \<rparr>) s of
        Returned s' w' \<Rightarrow>
          Returned (s' \<lparr> hs_audit := hs_audit s' @
              [\<lparr> au_Level = audit_level (hw_Last w'), au_RequestID = hr_ctx_RequestID rq, au_Method = hr_Method rq,
                 au_Path = URL_Path rq, au_Status = hw_Last w', au_ClientIP = getClientIP rq,
                 au_Key = map_option (\<lambda>k. (K_KeyID k, K_Role k)) (hr_ctx_APIKey rq) \<rparr>] \<rparr>) w'
      | x \<Rightarrow> x)"

definition Recover_panic :: "'s middleware" where
  "Recover_panic next_h rq w s =
     (case next_h rq w s of
        Panicked s' w' \<Rightarrow>
          Returned s' (json_Encode (Some (JObj [(''code'', JStr ''TM-SYS-5000''), (''message'', JStr ''internal server error'')]))
            (WriteHeader 500 (Header_Set ''X-Error-Code'' ''TM-SYS-5000'' (Header_Set ''Content-Type'' ''application/json'' w'))))
      | x \<Rightarrow> x)"

definition AdminAuth :: "('r, 'k, 'l, 'f) http_calls \<Rightarrow> ('r, 'k, 'l, 'f) http_state middleware" where
  "AdminAuth C next_h rq w s =
     (let cred = extractAPIKeyCredentials rq in
      if fst cred = '''' \<or> snd cred = '''' then Returned s (writeAuthError ''TM-AUTH-4010'' ''API Key not provided'' w)
      else
        (case validate_request C s rq cred of
           None \<Rightarrow> Blocked
         | Some (a, Inl err) \<Rightarrow> Returned (s \<lparr> hs_auth := a \<rparr>) (writeAuthError (GetErrorCode err) (Error err) w)
         | Some (a, Inr k) \<Rightarrow>
             if K_Role k \<noteq> RoleAdmin then Returned (s \<lparr> hs_auth := a \<rparr>) (writeAuthError ''TM-ADMIN-4030'' ''admin role required'' w)
             else limited C (fst cred) k next_h rq w (s \<lparr> hs_auth := a \<rparr>)))"

definition MetricsAuth :: "('r, 'k, 'l, 'f) http_calls \<Rightarrow> bool \<Rightarrow> ('r, 'k, 'l, 'f) http_state middleware" where
  "MetricsAuth C authRequired next_h rq w s =
     (if \<not> authRequired then next_h rq w s
      else
        (let cred = extractAPIKeyCredentials rq in
         if fst cred = '''' \<or> snd cred = '''' then Returned s (WriteHeader 401 w)
         else
           (case validate_request C s rq cred of
              None \<Rightarrow> Blocked
            | Some (a, Inl err) \<Rightarrow> Returned (s \<lparr> hs_auth := a \<rparr>) (WriteHeader 401 w)
            | Some (a, Inr k) \<Rightarrow>
                if K_Role k \<noteq> RoleMetrics \<and> K_Role k \<noteq> RoleAdmin then Returned (s \<lparr> hs_auth := a \<rparr>) (WriteHeader 403 w)
                else next_h rq w (s \<lparr> hs_auth := a \<rparr>))))"

text \<open>The allowlist is parsed when the middleware is made; entries that do not parse are dropped.\<close>

definition acl_networks :: "string list \<Rightarrow> ipnet list" where
  "acl_networks allow = List.map_filter (\<lambda>e. if Contains e ''/'' then ParseCIDR e else None) allow"

definition acl_singles :: "string list \<Rightarrow> bytes list" where
  "acl_singles allow = List.map_filter (\<lambda>e. if Contains e ''/'' then None else ParseIP e) allow"

definition NetworkACL :: "string list \<Rightarrow> 's middleware" where
  "NetworkACL allow next_h rq w s =
     (let networks = acl_networks allow; singleIPs = acl_singles allow in
      if networks = [] \<and> singleIPs = [] then next_h rq w s
      else
        (case ParseIP (getClientIP rq) of
           None \<Rightarrow> Returned s (writeAuthError ''TM-ADMIN-4031'' ''invalid client IP'' w)
         | Some ip \<Rightarrow>
             if list_ex (\<lambda>a. IP_Equal a ip) singleIPs then next_h rq w s
             else if list_ex (\<lambda>n. IPNet_Contains n ip) networks then next_h rq w s
             else Returned s (writeAuthError ''TM-ADMIN-4031'' ''IP not in allowlist'' w)))"

definition CORS :: "string list \<Rightarrow> 's middleware" where
  "CORS allowedOrigins next_h rq w s =
     (let origin = Header_Get (hr_Header rq) ''Origin'';
          allowed = (allowedOrigins = [] \<or> list_ex (\<lambda>x. x = ''*'' \<or> x = origin) allowedOrigins);
          w1 = (if allowed \<and> origin \<noteq> '''' then
                  Header_Set ''Access-Control-Max-Age'' ''86400''
                    (Header_Set ''Access-Control-Allow-Headers'' ''Content-Type, X-API-Key-ID, X-API-Key, X-Request-ID, Authorization''
                      (Header_Set ''Access-Control-Allow-Methods'' ''GET, POST, OPTIONS''
                        (Header_Set ''Access-Control-Allow-Origin'' origin w)))
                else w)
      in if hr_Method rq = ''OPTIONS'' then Returned s (WriteHeader 204 w1) else next_h rq w1 s)"

section \<open>The router\<close>

record router_config =
  rc_SkipAuthPaths :: "string list"
  rc_AdminAllowList :: "string list"
  rc_MetricsAuthRequired :: bool
  rc_CORSAllowedOrigins :: "string list"
  rc_GlobalRateLimit :: int
  rc_EnableAudit :: bool

definition DefaultRouterConfig :: router_config where
  "DefaultRouterConfig = \<lparr> rc_SkipAuthPaths = [''/health'', ''/ready''], rc_AdminAllowList = [], rc_MetricsAuthRequired = True,
     rc_CORSAllowedOrigins = [], rc_GlobalRateLimit = 1000, rc_EnableAudit = True \<rparr>"

definition healthHandler :: "('r, 'k, 'l, 'f) http_calls \<Rightarrow> ('r, 'k, 'l, 'f) http_state http_handler" where
  "healthHandler C = Chain (Handler_ServeHTTP C) [RequestID C, Recover_panic]"

definition metricsHandler :: "('r, 'k, 'l, 'f) http_calls \<Rightarrow> router_config \<Rightarrow> ('r, 'k, 'l, 'f) http_state http_handler" where
  "metricsHandler C cfg = Chain (Handler_ServeHTTP C) [RequestID C, Recover_panic, MetricsAuth C (rc_MetricsAuthRequired cfg)]"

definition businessHandler :: "('r, 'k, 'l, 'f) http_calls \<Rightarrow> router_config \<Rightarrow> ('r, 'k, 'l, 'f) http_state http_handler" where
  "businessHandler C cfg =
     (let h0 = Chain (Handler_ServeHTTP C)
                 [RequestID C, Recover_panic, CORS (rc_CORSAllowedOrigins cfg), Auth C (rc_SkipAuthPaths cfg)];
          h1 = (if rc_EnableAudit cfg then Audit h0 else h0)
      in if rc_GlobalRateLimit cfg > 0 then RateLimit C (rc_GlobalRateLimit cfg) h1 else h1)"

definition adminHandler :: "('r, 'k, 'l, 'f) http_calls \<Rightarrow> router_config \<Rightarrow> ('r, 'k, 'l, 'f) http_state http_handler" where
  "adminHandler C cfg = Chain (Handler_ServeHTTP C)
     ([RequestID C, Recover_panic, AdminAuth C] @
      (if rc_AdminAllowList cfg \<noteq> [] then [NetworkACL (rc_AdminAllowList cfg)] else []) @
      (if rc_EnableAudit cfg then [Audit] else []))"

text \<open>The first chain that \<open>NewRouter\<close> builds, \<open>mainHandler\<close>, is not attached to any route and is left out.\<close>

datatype route_group = HealthRoute | MetricsRoute | BusinessRoute | AdminRoute

abbreviation admin_path :: "pat_seg list \<Rightarrow> pat_seg list" where
  "admin_path ps \<equiv> [Lit ''admin'', Lit ''v1''] @ ps"

definition router_routes :: "(string \<times> pat_seg list \<times> route_group) list" where
  "router_routes =
     [(''GET'', [Lit ''health''], HealthRoute),
      (''GET'', [Lit ''ready''], HealthRoute),
      (''GET'', [Lit ''metrics''], MetricsRoute),
      (''GET'', [Lit ''sessions''], BusinessRoute),
      (''POST'', [Lit ''sessions''], BusinessRoute),
      (''GET'', [Lit ''sessions'', Wild ''id''], BusinessRoute),
      (''POST'', [Lit ''sessions'', Wild ''id'', Lit ''touch''], BusinessRoute),
      (''POST'', [Lit ''sessions'', Wild ''id'', Lit ''renew''], BusinessRoute),
      (''POST'', [Lit ''sessions'', Wild ''id'', Lit ''revoke''], BusinessRoute),
      (''POST'', [Lit ''users'', Wild ''user_id'', Lit ''sessions'', Lit ''revoke''], BusinessRoute),
      (''POST'', [Lit ''tokens'', Lit ''validate''], BusinessRoute),
      (''GET'', admin_path [Lit ''status'', Lit ''summary''], AdminRoute),
      (''POST'', admin_path [Lit ''gc'', Lit ''trigger''], AdminRoute),
      (''POST'', admin_path [Lit ''keys''], AdminRoute),
      (''GET'', admin_path [Lit ''keys''], AdminRoute),
      (''POST'', admin_path [Lit ''keys'', Wild ''key_id'', Lit ''status''], AdminRoute),
      (''POST'', admin_path [Lit ''keys'', Wild ''key_id'', Lit ''rotate''], AdminRoute),
      (''POST'', admin_path [Lit ''backups'', Lit ''snapshots''], AdminRoute),
      (''GET'', admin_path [Lit ''backups'', Lit ''snapshots''], AdminRoute),
      (''GET'', admin_path [Lit ''backups'', Lit ''snapshots'', Wild ''snapshot_id'', Lit ''file''], AdminRoute),
      (''POST'', admin_path [Lit ''backups'', Lit ''restores''], AdminRoute),
      (''GET'', admin_path [Lit ''backups'', Lit ''restores'', Wild ''job_id''], AdminRoute),
      (''GET'', admin_path [Lit ''audit'', Lit ''logs''], AdminRoute),
      (''GET'', admin_path [Lit ''cluster'', Lit ''nodes''], AdminRoute),
      (''POST'', admin_path [Lit ''cluster'', Lit ''nodes'', Wild ''node_id'', Lit ''remove''], AdminRoute),
      (''POST'', admin_path [Lit ''cluster'', Lit ''reset''], AdminRoute),
      (''GET'', admin_path [Lit ''config''], AdminRoute),
      (''POST'', admin_path [Lit ''config'', Lit ''apply''], AdminRoute),
      (''POST'', admin_path [Lit ''config'', Lit ''validate''], AdminRoute),
      (''POST'', admin_path [Lit ''config'', Lit ''reload''], AdminRoute),
      (''GET'', admin_path [Lit ''wal'', Lit ''status''], AdminRoute),
      (''GET'', admin_path [Lit ''wal'', Lit ''logs''], AdminRoute)]"

definition group_handler :: "('r, 'k, 'l, 'f) http_calls \<Rightarrow> router_config \<Rightarrow> route_group \<Rightarrow> ('r, 'k, 'l, 'f) http_state http_handler" where
  "group_handler C cfg g =
     (case g of HealthRoute \<Rightarrow> healthHandler C | MetricsRoute \<Rightarrow> metricsHandler C cfg
      | BusinessRoute \<Rightarrow> businessHandler C cfg | AdminRoute \<Rightarrow> adminHandler C cfg)"

definition NewRouter :: "('r, 'k, 'l, 'f) http_calls \<Rightarrow> router_config \<Rightarrow> ('r, 'k, 'l, 'f) http_state http_handler" where
  "NewRouter C cfg = mux_ServeHTTP (hx_mux C) (map (\<lambda>(m, ps, g). (m, ps, group_handler C cfg g)) router_routes)"

end
