(* ===== verification/Http_Props.thy ===== *)
theory Http_Props
  imports Http_Router
begin

text \<open>
  What the HTTP server guarantees: which requests can change sessions and keys, that every request is answered, and
  what the network filter and the audit trail do.
\<close>

section \<open>The state a handler leaves\<close>

fun left_state :: "'s outcome \<Rightarrow> 's option" where
  "left_state (Returned s w) = Some s"
| "left_state (Panicked s w) = Some s"
| "left_state Blocked = None"

abbreviation same_core :: "('r, 'k, 'l, 'f) http_state \<Rightarrow> ('r, 'k, 'l, 'f) http_state \<Rightarrow> bool" where
  "same_core s t \<equiv> hs_sessions s = hs_sessions t \<and> hs_auth s = hs_auth t"

lemma address_ctx [simp]:
  "getClientIP (rq \<lparr> hr_PathValues := v \<rparr>) = getClientIP rq" "getClientIP (rq \<lparr> hr_ctx_RequestID := i \<rparr>) = getClientIP rq"
  "getClientIP (rq \<lparr> hr_ctx_APIKey := k \<rparr>) = getClientIP rq"
  by (simp_all add: getClientIP_def Let_def split: option.split)

lemma credentials_ctx [simp]:
  "auth_header_credentials (rq \<lparr> hr_PathValues := v \<rparr>) = auth_header_credentials rq"
  "auth_header_credentials (rq \<lparr> hr_ctx_RequestID := i \<rparr>) = auth_header_credentials rq"
  "extractAPIKeyCredentials (rq \<lparr> hr_PathValues := v \<rparr>) = extractAPIKeyCredentials rq"
  "extractAPIKeyCredentials (rq \<lparr> hr_ctx_RequestID := i \<rparr>) = extractAPIKeyCredentials rq"
  "URL_Path (rq \<lparr> hr_PathValues := v \<rparr>) = URL_Path rq" "URL_Path (rq \<lparr> hr_ctx_RequestID := i \<rparr>) = URL_Path rq"
  "URL_Path (rq \<lparr> hr_ctx_APIKey := k \<rparr>) = URL_Path rq"
  by (simp_all add: auth_header_credentials_def extractAPIKeyCredentials_def bearer_def URL_Path_def Let_def split: option.split)

lemma left_Recover [simp]: "left_state (Recover_panic h rq w s) = left_state (h rq w s)"
  by (simp add: Recover_panic_def split: outcome.splits)

lemma left_RequestID:
  obtains i where "RequestID C h rq w s = h (rq \<lparr> hr_ctx_RequestID := i \<rparr>) (Header_Set ''X-Request-ID'' i w) s"
  by (simp add: RequestID_def Let_def)

lemma left_CORS:
  assumes "left_state (CORS os h rq w s) = Some s'" "s' \<noteq> s"
  obtains w1 where "left_state (h rq w1 s) = Some s'"
  using assms by (auto simp: CORS_def Let_def split: if_splits)

lemma left_Audit:
  assumes "left_state (Audit h rq w s) = Some s'"
  obtains s1 where "left_state (h rq (w \<lparr> hw_Last := 200 \<rparr>) s) = Some s1" "same_core s' s1"
  using assms by (auto simp: Audit_def split: outcome.splits)

lemma left_RateLimit:
  assumes "left_state (RateLimit C n h rq w s) = Some s'" "\<not> same_core s' s"
  obtains b where "left_state (h rq w (s \<lparr> hs_buckets := b \<rparr>)) = Some s'"
  using assms by (auto simp: RateLimit_def Let_def split: if_splits)

lemma left_limited:
  assumes "left_state (limited C i k h rq w s) = Some s'" "\<not> same_core s' s"
  shows "\<exists>l. left_state (h (rq \<lparr> hr_ctx_APIKey := Some k \<rparr>) w (s \<lparr> hs_limiters := l \<rparr>)) = Some s'"
  using assms by (auto simp: limited_def split: prod.splits option.splits)

lemma left_Auth:
  assumes "left_state (Auth C skip h rq w s) = Some s'" "\<not> same_core s' s"
  shows "list_ex (\<lambda>p. HasPrefix (URL_Path rq) p) skip \<and> left_state (h rq w s) = Some s' \<or>
    (\<exists>a x. validate_request C s rq (auth_header_credentials rq) = Some (a, x) \<and>
       (hs_sessions s' = hs_sessions s \<and> hs_auth s' = a \<or>
        (\<exists>k l. x = Inr k \<and> left_state (h (rq \<lparr> hr_ctx_APIKey := Some k \<rparr>) w (s \<lparr> hs_auth := a, hs_limiters := l \<rparr>)) = Some s')))"
proof -
  consider (skip) "list_ex (\<lambda>p. HasPrefix (URL_Path rq) p) skip"
    | (none) "\<not> list_ex (\<lambda>p. HasPrefix (URL_Path rq) p) skip" "left_state (Auth C skip h rq w s) = Some s"
    | (err) a err where "\<not> list_ex (\<lambda>p. HasPrefix (URL_Path rq) p) skip"
        "validate_request C s rq (auth_header_credentials rq) = Some (a, Inl err)"
        "left_state (Auth C skip h rq w s) = Some (s \<lparr> hs_auth := a \<rparr>)"
    | (key) a k where "\<not> list_ex (\<lambda>p. HasPrefix (URL_Path rq) p) skip"
        "validate_request C s rq (auth_header_credentials rq) = Some (a, Inr k)"
        "Auth C skip h rq w s = limited C (fst (auth_header_credentials rq)) k h rq w (s \<lparr> hs_auth := a \<rparr>)"
    using assms(1) unfolding Auth_def Let_def
    by (cases "validate_request C s rq (auth_header_credentials rq)")
      (auto split: if_split_asm sum.split_asm prod.split_asm)
  then show ?thesis
  proof cases
    case skip
    then show ?thesis using assms(1) by (simp add: Auth_def)
  next
    case none
    then show ?thesis using assms by simp
  next
    case err
    then show ?thesis using assms by auto
  next
    case key
    show ?thesis
    proof (cases "same_core s' (s \<lparr> hs_auth := a \<rparr>)")
      case True
      then show ?thesis using key(2) by auto
    next
      case False
      from left_limited [OF assms(1) [unfolded key(3)] False]
      show ?thesis using key(2) by blast
    qed
  qed
qed

lemma left_AdminAuth:
  assumes "left_state (AdminAuth C h rq w s) = Some s'" "\<not> same_core s' s"
  shows "\<exists>a x. validate_request C s rq (extractAPIKeyCredentials rq) = Some (a, x) \<and>
     (hs_sessions s' = hs_sessions s \<and> hs_auth s' = a \<or>
      (\<exists>k l. x = Inr k \<and> K_Role k = RoleAdmin \<and>
         left_state (h (rq \<lparr> hr_ctx_APIKey := Some k \<rparr>) w (s \<lparr> hs_auth := a, hs_limiters := l \<rparr>)) = Some s'))"
proof -
  let ?cr = "extractAPIKeyCredentials rq"
  consider (none) "left_state (AdminAuth C h rq w s) = Some s"
    | (err) a x where "validate_request C s rq ?cr = Some (a, x)" "left_state (AdminAuth C h rq w s) = Some (s \<lparr> hs_auth := a \<rparr>)"
    | (key) a k where "validate_request C s rq ?cr = Some (a, Inr k)" "K_Role k = RoleAdmin"
        "AdminAuth C h rq w s = limited C (fst ?cr) k h rq w (s \<lparr> hs_auth := a \<rparr>)"
    using assms(1) unfolding AdminAuth_def Let_def
    by (cases "validate_request C s rq ?cr") (auto split: if_split_asm sum.split_asm prod.split_asm)
  then show ?thesis
  proof cases
    case none
    then show ?thesis using assms by simp
  next
    case err
    then show ?thesis using assms by auto
  next
    case key
    show ?thesis
    proof (cases "same_core s' (s \<lparr> hs_auth := a \<rparr>)")
      case True
      then show ?thesis using key(1) by auto
    next
      case False
      from left_limited [OF assms(1) [unfolded key(3)] False]
      show ?thesis using key(1,2) by blast
    qed
  qed
qed

lemma left_MetricsAuth:
  assumes "left_state (MetricsAuth C b h rq w s) = Some s'" "\<not> same_core s' s"
  shows "left_state (h rq w s) = Some s' \<or>
    (\<exists>a x. validate_request C s rq (extractAPIKeyCredentials rq) = Some (a, x) \<and>
     (hs_sessions s' = hs_sessions s \<and> hs_auth s' = a \<or> left_state (h rq w (s \<lparr> hs_auth := a \<rparr>)) = Some s'))"
  using assms unfolding MetricsAuth_def Let_def
  by (cases "validate_request C s rq (extractAPIKeyCredentials rq)") (auto split: if_split_asm sum.split_asm prod.split_asm)

section \<open>The network filter\<close>

text \<open>It lets a request pass exactly when one of its valid entries matches the address of the client, or when it has no valid entry
  at all; the address is the one that the header \<open>X-Forwarded-For\<close> or \<open>X-Real-IP\<close> claims, and only without them that of
  the connection.\<close>

definition acl_allows :: "string list \<Rightarrow> string \<Rightarrow> bool" where
  "acl_allows allow addr \<longleftrightarrow>
     (\<forall>e \<in> set allow. if Contains e ''/'' then ParseCIDR e = None else ParseIP e = None) \<or>
     (\<exists>ip. ParseIP addr = Some ip \<and> (\<exists>e \<in> set allow. entry_allows ip e))"

lemma acl_lists:
  "acl_networks allow = [] \<longleftrightarrow> (\<forall>e \<in> set allow. Contains e ''/'' \<longrightarrow> ParseCIDR e = None)"
  "acl_singles allow = [] \<longleftrightarrow> (\<forall>e \<in> set allow. \<not> Contains e ''/'' \<longrightarrow> ParseIP e = None)"
  "list_ex P (acl_networks allow) \<longleftrightarrow> (\<exists>e \<in> set allow. Contains e ''/'' \<and> (\<exists>n. ParseCIDR e = Some n \<and> P n))"
  "list_ex Q (acl_singles allow) \<longleftrightarrow> (\<exists>e \<in> set allow. \<not> Contains e ''/'' \<and> (\<exists>x. ParseIP e = Some x \<and> Q x))"
  by (induction allow) (auto simp: acl_networks_def acl_singles_def List.map_filter_simps split: option.splits)

lemma NetworkACL_exact:
  "NetworkACL allow h rq w s =
     (if acl_allows allow (getClientIP rq) then h rq w s
      else Returned s (writeAuthError ''TM-ADMIN-4031''
        (if ParseIP (getClientIP rq) = None then ''invalid client IP'' else ''IP not in allowlist'') w))"
proof -
  have open_acl: "acl_networks allow = [] \<and> acl_singles allow = [] \<longleftrightarrow>
      (\<forall>e \<in> set allow. if Contains e ''/'' then ParseCIDR e = None else ParseIP e = None)"
    by (auto simp: acl_lists(1,2))
  have hit: "list_ex (\<lambda>a. IP_Equal a ip) (acl_singles allow) \<or> list_ex (\<lambda>n. IPNet_Contains n ip) (acl_networks allow) \<longleftrightarrow>
      (\<exists>e \<in> set allow. entry_allows ip e)" for ip
    by (auto simp: acl_lists(3,4) entry_allows_def)
  show ?thesis
    unfolding NetworkACL_def Let_def open_acl acl_allows_def
    by (cases "ParseIP (getClientIP rq)") (use hit in \<open>auto\<close>)
qed

section \<open>The handlers\<close>

definition keeps_core :: "('r, 'k, 'l, 'f) http_state http_handler \<Rightarrow> bool" where
  "keeps_core h \<longleftrightarrow> (\<forall>rq w s s'. left_state (h rq w s) = Some s' \<longrightarrow> same_core s' s)"

definition keeps_auth :: "('r, 'k, 'l, 'f) http_state http_handler \<Rightarrow> bool" where
  "keeps_auth h \<longleftrightarrow> (\<forall>rq w s s'. left_state (h rq w s) = Some s' \<longrightarrow> hs_auth s' = hs_auth s)"

lemma handlers_keep:
  "keeps_core (handleHealth C)" "keeps_core (handleReady C)"
  "keeps_auth (handleListSessions C)" "keeps_auth (handleCreateSession C)" "keeps_auth (handleGetSession C)"
  "keeps_auth (handleTouchSession C)" "keeps_auth (handleRenewSession C)" "keeps_auth (handleRevokeSession C)"
  "keeps_auth (handleRevokeUserSessions C)" "keeps_auth (handleValidateToken C)"
  by (auto simp: keeps_core_def keeps_auth_def handleHealth_def handleReady_def handleListSessions_def handleCreateSession_def
      handleGetSession_def handleTouchSession_def handleRenewSession_def handleRevokeSession_def handleRevokeUserSessions_def
      handleValidateToken_def Let_def split: sum.splits prod.splits option.splits if_splits)

lemma mux_find_mem:
  "mux_find routes rq = Some (h, vs) \<Longrightarrow>
   \<exists>m ps. (m, ps, h) \<in> set routes \<and> match_segs ps (hr_Segments rq) = Some vs \<and> match_method m (hr_Method rq)"
  by (induction routes) (auto split: option.splits if_splits, blast+)

lemma mux_find_map:
  "mux_find (map (\<lambda>(m, ps, g). (m, ps, f g)) routes) rq = map_option (\<lambda>(g, vs). (f g, vs)) (mux_find routes rq)"
  by (induction routes) (auto split: option.splits)

text \<open>Every pattern starts with a literal, so the first segment of the path tells what may run.\<close>

definition first_lit :: "pat_seg list \<Rightarrow> string \<Rightarrow> bool" where
  "first_lit ps l \<longleftrightarrow> ps \<noteq> [] \<and> hd ps = Lit l"

lemma match_lit: "match_segs ps ss = Some vs \<Longrightarrow> first_lit ps l \<Longrightarrow> ss \<noteq> [] \<and> hd ss = l"
  by (cases ps; cases ss) (auto simp: first_lit_def split: if_splits)

lemma handler_routes:
  assumes "(m, ps, h) \<in> set (registerRoutes C)"
  shows "(\<exists>l \<in> {''health'', ''ready''}. first_lit ps l) \<and> keeps_core h \<or>
    (\<exists>l \<in> {''sessions'', ''users'', ''tokens''}. first_lit ps l) \<and> keeps_auth h \<or> first_lit ps ''admin''"
  using assms handlers_keep [of C] unfolding registerRoutes_def first_lit_def by auto

lemma router_groups:
  assumes "(m, ps, g) \<in> set router_routes"
  shows "g \<in> {HealthRoute, MetricsRoute} \<and> (\<exists>l \<in> {''health'', ''ready'', ''metrics''}. first_lit ps l) \<or>
    g = BusinessRoute \<and> (\<exists>l \<in> {''sessions'', ''users'', ''tokens''}. first_lit ps l) \<or> g = AdminRoute \<and> first_lit ps ''admin''"
  using assms unfolding router_routes_def first_lit_def by auto

lemma Handler_core:
  assumes "left_state (Handler_ServeHTTP C rq w s) = Some s'" "\<not> same_core s' s"
  shows "hr_Segments rq \<noteq> []" "hd (hr_Segments rq) \<in> {''sessions'', ''users'', ''tokens'', ''admin''}"
    and "hs_auth s' \<noteq> hs_auth s \<Longrightarrow> hd (hr_Segments rq) = ''admin''"
proof -
  obtain h vs where f: "mux_find (registerRoutes C) rq = Some (h, vs)" and h: "left_state (h (rq \<lparr> hr_PathValues := vs \<rparr>) w s) = Some s'"
    using assms by (auto simp: Handler_ServeHTTP_def mux_ServeHTTP_def split: option.splits prod.splits)
  obtain m ps where p: "(m, ps, h) \<in> set (registerRoutes C)" "match_segs ps (hr_Segments rq) = Some vs"
    using mux_find_mem [OF f] by blast
  have "\<not> keeps_core h" using h assms(2) unfolding keeps_core_def by blast
  with handler_routes [OF p(1)] have
    r: "(\<exists>l \<in> {''sessions'', ''users'', ''tokens''}. first_lit ps l) \<and> keeps_auth h \<or> first_lit ps ''admin''" by blast
  then show "hr_Segments rq \<noteq> []" "hd (hr_Segments rq) \<in> {''sessions'', ''users'', ''tokens'', ''admin''}"
    using match_lit [OF p(2)] by blast+
  assume "hs_auth s' \<noteq> hs_auth s"
  then have "\<not> keeps_auth h" using h unfolding keeps_auth_def by blast
  then show "hd (hr_Segments rq) = ''admin''" using r match_lit [OF p(2)] by blast
qed

lemma router_group_segment:
  assumes "mux_find router_routes rq = Some (g, vs)"
  shows "g \<in> {HealthRoute, MetricsRoute} \<longleftrightarrow> hd (hr_Segments rq) \<notin> {''sessions'', ''users'', ''tokens'', ''admin''}"
    and "g = AdminRoute \<longleftrightarrow> hd (hr_Segments rq) = ''admin''"
proof -
  obtain m ps where p: "(m, ps, g) \<in> set router_routes" "match_segs ps (hr_Segments rq) = Some vs"
    using mux_find_mem [OF assms] by blast
  from router_groups [OF p(1)] match_lit [OF p(2)]
  have "g \<in> {HealthRoute, MetricsRoute} \<and> hd (hr_Segments rq) \<in> {''health'', ''ready'', ''metrics''} \<or>
    g = BusinessRoute \<and> hd (hr_Segments rq) \<in> {''sessions'', ''users'', ''tokens''} \<or> g = AdminRoute \<and> hd (hr_Segments rq) = ''admin''"
    by blast
  then show "g \<in> {HealthRoute, MetricsRoute} \<longleftrightarrow> hd (hr_Segments rq) \<notin> {''sessions'', ''users'', ''tokens'', ''admin''}"
    "g = AdminRoute \<longleftrightarrow> hd (hr_Segments rq) = ''admin''"
    by auto
qed

section \<open>The groups of routes\<close>

lemma Handler_core_ctx:
  assumes "left_state (Handler_ServeHTTP C rq' w t) = Some s'" "\<not> same_core s' t" "hr_Segments rq' = hr_Segments rq"
    and "mux_find router_routes rq = Some (g, vs)"
  shows "g \<in> {BusinessRoute, AdminRoute}" "hs_auth s' \<noteq> hs_auth t \<Longrightarrow> g = AdminRoute"
  using Handler_core [OF assms(1,2)] router_group_segment [OF assms(4)] assms(3) by (cases g; simp)+

text \<open>The handler ran on a state whose keys are those after the validation, and left the sessions and keys of \<open>s'\<close>.\<close>

definition ran_handler ::
  "('r, 'k, 'l, 'f) http_calls \<Rightarrow> http_request \<Rightarrow> ('r, 'k, 'l, 'f) http_state \<Rightarrow> 'k auth_service \<Rightarrow> ('r, 'k, 'l, 'f) http_state \<Rightarrow> bool" where
  "ran_handler C rq s a s' \<longleftrightarrow>
     (\<exists>rq' w' t s1. hr_Segments rq' = hr_Segments rq \<and> hs_sessions t = hs_sessions s \<and> hs_auth t = a \<and>
        left_state (Handler_ServeHTTP C rq' w' t) = Some s1 \<and> same_core s' s1)"

lemma ran_handlerI:
  assumes "left_state (Handler_ServeHTTP C rq' w' t) = Some s1" "hr_Segments rq' = hr_Segments rq" "hs_sessions t = hs_sessions s"
    "hs_auth t = a" "same_core s' s1"
  shows "ran_handler C rq s a s'"
  using assms unfolding ran_handler_def by blast

lemma ran_handler_ctx [simp]: "ran_handler C (rq \<lparr> hr_PathValues := vs \<rparr>) s a s' \<longleftrightarrow> ran_handler C rq s a s'"
  by (simp add: ran_handler_def)

lemma business_core:
  assumes "left_state (businessHandler C cfg rq w s) = Some s'" "\<not> same_core s' s"
  shows "list_ex (\<lambda>p. HasPrefix (URL_Path rq) p) (rc_SkipAuthPaths cfg) \<or>
    (\<exists>a x. validate_request C s rq (auth_header_credentials rq) = Some (a, x) \<and>
       (hs_sessions s' = hs_sessions s \<and> hs_auth s' = a \<or>
        (\<exists>k. x = Inr k \<and> ran_handler C rq s a s')))"
proof -
  let ?h0 = "Chain (Handler_ServeHTTP C) [RequestID C, Recover_panic, CORS (rc_CORSAllowedOrigins cfg), Auth C (rc_SkipAuthPaths cfg)]"
  let ?h1 = "if rc_EnableAudit cfg then Audit ?h0 else ?h0"
  obtain t w1 where t: "left_state (?h1 rq w1 t) = Some s'" "same_core t s"
  proof (cases "rc_GlobalRateLimit cfg > 0")
    case True
    then have "left_state (RateLimit C (rc_GlobalRateLimit cfg) ?h1 rq w s) = Some s'"
      using assms(1) by (simp add: businessHandler_def Let_def)
    then show ?thesis using assms(2) by (rule left_RateLimit) (auto intro: that)
  next
    case False
    then show ?thesis using assms(1) that [of w s] by (simp add: businessHandler_def Let_def)
  qed
  obtain s1 w2 where s1: "left_state (?h0 rq w2 t) = Some s1" "same_core s' s1"
  proof (cases "rc_EnableAudit cfg")
    case True
    then have "left_state (Audit ?h0 rq w1 t) = Some s'" using t(1) by simp
    then show ?thesis by (rule left_Audit) (rule that)
  next
    case False
    then show ?thesis using t(1) that by simp
  qed
  obtain i where "left_state (CORS (rc_CORSAllowedOrigins cfg) (Auth C (rc_SkipAuthPaths cfg) (Handler_ServeHTTP C))
      (rq \<lparr> hr_ctx_RequestID := i \<rparr>) (Header_Set ''X-Request-ID'' i w2) t) = Some s1"
    using s1(1) by (simp add: Chain_def) (metis left_RequestID left_Recover)
  moreover have ne: "s1 \<noteq> t" using s1(2) t(2) assms(2) by auto
  ultimately obtain w3 where a: "left_state (Auth C (rc_SkipAuthPaths cfg) (Handler_ServeHTTP C) (rq \<lparr> hr_ctx_RequestID := i \<rparr>) w3 t) = Some s1"
    by (rule left_CORS)
  have nc: "\<not> same_core s1 t" using s1(2) t(2) assms(2) by auto
  have v: "validate_request C t (rq \<lparr> hr_ctx_RequestID := i \<rparr>) cr = validate_request C s rq cr" for cr using t(2) by simp
  from left_Auth [OF a nc] show ?thesis unfolding v credentials_ctx
    using t(2) s1(2) by (elim disjE exE conjE) (auto intro: ran_handlerI)
qed

lemma admin_inner:
  assumes "left_state (Chain h ((if allow \<noteq> [] then [NetworkACL allow] else []) @ (if b then [Audit] else [])) rq w t) = Some s'"
    "\<not> same_core s' t"
  shows "acl_allows allow (getClientIP rq) \<and> (\<exists>w' s1. left_state (h rq w' t) = Some s1 \<and> same_core s' s1)"
proof -
  let ?h = "if b then Audit h else h"
  have h: "\<exists>w' s1. left_state (h rq w' t) = Some s1 \<and> same_core s' s1" if "left_state (?h rq w t) = Some s'" for s' w
  proof (cases b)
    case True
    then have "left_state (Audit h rq w t) = Some s'" using that by simp
    then show ?thesis by (rule left_Audit) blast
  qed (use that in auto)
  have c: "left_state ((if allow \<noteq> [] then NetworkACL allow ?h else ?h) rq w t) = Some s'"
    using assms(1) by (simp add: Chain_def split: if_splits)
  show ?thesis
  proof (cases "acl_allows allow (getClientIP rq)")
    case True
    then show ?thesis using c h [of w] by (simp add: NetworkACL_exact split: if_splits)
  next
    case False
    then have "allow \<noteq> []" by (auto simp: acl_allows_def)
    then show ?thesis using c False assms(2) by (simp add: NetworkACL_exact)
  qed
qed

lemma admin_core:
  assumes "left_state (adminHandler C cfg rq w s) = Some s'" "\<not> same_core s' s"
  shows "\<exists>a x. validate_request C s rq (extractAPIKeyCredentials rq) = Some (a, x) \<and>
    (hs_sessions s' = hs_sessions s \<and> hs_auth s' = a \<or>
     (\<exists>k. x = Inr k \<and> K_Role k = RoleAdmin \<and> acl_allows (rc_AdminAllowList cfg) (getClientIP rq) \<and> ran_handler C rq s a s'))"
proof -
  let ?inner = "Chain (Handler_ServeHTTP C) ((if rc_AdminAllowList cfg \<noteq> [] then [NetworkACL (rc_AdminAllowList cfg)] else []) @
      (if rc_EnableAudit cfg then [Audit] else []))"
  have "adminHandler C cfg = RequestID C (Recover_panic (AdminAuth C ?inner))" by (simp only: adminHandler_def Chain_def foldr_append foldr.simps o_def id_def append.simps)
  then obtain i where "adminHandler C cfg rq w s =
      Recover_panic (AdminAuth C ?inner) (rq \<lparr> hr_ctx_RequestID := i \<rparr>) (Header_Set ''X-Request-ID'' i w) s"
    using left_RequestID [of C "Recover_panic (AdminAuth C ?inner)" rq w s] by metis
  then have "left_state (AdminAuth C ?inner (rq \<lparr> hr_ctx_RequestID := i \<rparr>) (Header_Set ''X-Request-ID'' i w) s) = Some s'"
    using assms(1) by (simp only: left_Recover)
  from left_AdminAuth [OF this assms(2)] obtain a x where
    v: "validate_request C s rq (extractAPIKeyCredentials rq) = Some (a, x)" and
    d: "hs_sessions s' = hs_sessions s \<and> hs_auth s' = a \<or> (\<exists>k l. x = Inr k \<and> K_Role k = RoleAdmin \<and>
      left_state (?inner (rq \<lparr> hr_ctx_RequestID := i, hr_ctx_APIKey := Some k \<rparr>) (Header_Set ''X-Request-ID'' i w)
        (s \<lparr> hs_auth := a, hs_limiters := l \<rparr>)) = Some s')"
    by auto
  show ?thesis
  proof (cases "hs_sessions s' = hs_sessions s \<and> hs_auth s' = a")
    case True
    then show ?thesis using v by blast
  next
    case False
    with d obtain k l where k: "x = Inr k" "K_Role k = RoleAdmin"
      and inner: "left_state (?inner (rq \<lparr> hr_ctx_RequestID := i, hr_ctx_APIKey := Some k \<rparr>) (Header_Set ''X-Request-ID'' i w)
        (s \<lparr> hs_auth := a, hs_limiters := l \<rparr>)) = Some s'" by blast
    have "\<not> same_core s' (s \<lparr> hs_auth := a, hs_limiters := l \<rparr>)" using False by simp
    from admin_inner [OF inner this] show ?thesis
      using v k by (auto intro!: ran_handlerI)
  qed
qed

lemma other_core:
  assumes "mux_find router_routes rq = Some (g, vs)" "g \<in> {HealthRoute, MetricsRoute}"
    and "left_state (group_handler C cfg g (rq \<lparr> hr_PathValues := vs \<rparr>) w s) = Some s'" "\<not> same_core s' s"
  shows "hs_sessions s' = hs_sessions s \<and> (\<exists>x. validate_request C s rq (extractAPIKeyCredentials rq) = Some (hs_auth s', x))"
proof -
  have kept: "same_core s1 t" if "left_state (Handler_ServeHTTP C (rq \<lparr> hr_PathValues := vs, hr_ctx_RequestID := i \<rparr>) w1 t) = Some s1" for s1 t i w1
    using Handler_core_ctx(1) [OF that _ _ assms(1)] assms(2) by auto
  show ?thesis
  proof (cases g)
    case HealthRoute
    obtain i where "left_state (Handler_ServeHTTP C (rq \<lparr> hr_PathValues := vs, hr_ctx_RequestID := i \<rparr>)
        (Header_Set ''X-Request-ID'' i w) s) = Some s'"
      using assms(3) HealthRoute by (simp add: group_handler_def healthHandler_def Chain_def) (metis left_RequestID left_Recover)
    from kept [OF this] show ?thesis using assms(4) by simp
  next
    case MetricsRoute
    obtain i where "left_state (MetricsAuth C (rc_MetricsAuthRequired cfg) (Handler_ServeHTTP C)
        (rq \<lparr> hr_PathValues := vs, hr_ctx_RequestID := i \<rparr>) (Header_Set ''X-Request-ID'' i w) s) = Some s'"
      using assms(3) MetricsRoute by (simp add: group_handler_def metricsHandler_def Chain_def) (metis left_RequestID left_Recover)
    from left_MetricsAuth [OF this assms(4)] show ?thesis using kept assms(4) by fastforce
  qed (use assms(2) in auto)
qed

section \<open>Who may change sessions and keys\<close>

lemma router_core:
  assumes "NewRouter C cfg rq w s = Returned s' w'" "\<not> same_core s' s"
  obtains g vs where "mux_find router_routes rq = Some (g, vs)"
    "left_state (group_handler C cfg g (rq \<lparr> hr_PathValues := vs \<rparr>) w s) = Some s'"
proof -
  have "left_state (NewRouter C cfg rq w s) = Some s'" using assms(1) by simp
  then show thesis using assms(2) that
    by (auto simp: NewRouter_def mux_ServeHTTP_def mux_find_map split: option.splits prod.splits)
qed


text \<open>Apart from the record of its use that every validation makes, a request changes keys only on an administration
  route with a validated key of the role \<open>admin\<close>, from an address that passes the network filter.\<close>

lemma http_keys_need_admin:
  assumes "NewRouter C cfg rq w s = Returned s' w'" "hs_auth s' \<noteq> hs_auth s"
  shows "list_ex (\<lambda>p. HasPrefix (URL_Path rq) p) (rc_SkipAuthPaths cfg) \<or>
    (\<exists>cred x. validate_request C s rq cred = Some (hs_auth s', x)) \<or>
    (\<exists>a k. validate_request C s rq (extractAPIKeyCredentials rq) = Some (a, Inr k) \<and> K_Role k = RoleAdmin \<and>
       hd (hr_Segments rq) = ''admin'' \<and> acl_allows (rc_AdminAllowList cfg) (getClientIP rq))"
proof -
  have nc: "\<not> same_core s' s" using assms(2) by simp
  obtain g vs where g: "mux_find router_routes rq = Some (g, vs)"
    "left_state (group_handler C cfg g (rq \<lparr> hr_PathValues := vs \<rparr>) w s) = Some s'"
    by (rule router_core [OF assms(1) nc])
  show ?thesis
  proof (rule ccontr)
    assume no: "\<not> ?thesis"
    show False
    proof (cases g)
      case BusinessRoute
      then obtain a where a: "ran_handler C rq s a s'" "\<exists>x. validate_request C s rq (auth_header_credentials rq) = Some (a, x)"
        using business_core [OF _ nc, of C cfg "rq \<lparr> hr_PathValues := vs \<rparr>" w] g(2) no by (auto simp: group_handler_def)
      then obtain rq' w' t s1 where h: "hr_Segments rq' = hr_Segments rq" "hs_auth t = a"
        "left_state (Handler_ServeHTTP C rq' w' t) = Some s1" "same_core s' s1" unfolding ran_handler_def by blast
      have "hs_auth s1 \<noteq> hs_auth t" using h(2,4) a(2) no by metis
      then show False using Handler_core_ctx(2) [OF h(3) _ h(1) g(1)] BusinessRoute by auto
    next
      case AdminRoute
      with admin_core [OF _ nc, of C cfg "rq \<lparr> hr_PathValues := vs \<rparr>" w] g(2) no router_group_segment(2) [OF g(1)]
      show False by (auto simp: group_handler_def)
    qed (use other_core [OF g(1) _ g(2) nc] no in auto)
  qed
qed

section \<open>Every request is answered\<close>

definition answers :: "('r, 'k, 'l, 'f) http_state http_handler \<Rightarrow> bool" where
  "answers h \<longleftrightarrow> (\<forall>rq w s. cache_ok (as_cache (hs_auth s)) \<longrightarrow> (\<exists>s' w'. h rq w s = Returned s' w'))"

definition unblocked :: "('r, 'k, 'l, 'f) http_state http_handler \<Rightarrow> bool" where
  "unblocked h \<longleftrightarrow> (\<forall>rq w s. cache_ok (as_cache (hs_auth s)) \<longrightarrow> h rq w s \<noteq> Blocked)"

lemma handlers_unblocked:
  assumes "(m, ps, h) \<in> set (registerRoutes C)"
  shows "h rq w s \<noteq> Blocked"
  using assms unfolding registerRoutes_def
  by (auto simp: handleHealth_def handleReady_def handleListSessions_def handleCreateSession_def handleGetSession_def
      handleTouchSession_def handleRenewSession_def handleRevokeSession_def handleRevokeUserSessions_def handleValidateToken_def
      handleAdminStatus_def handleGCTrigger_def handleCreateAPIKey_def handleListAPIKeys_def handleUpdateAPIKeyStatus_def
      handleRotateAPIKey_def Let_def split: sum.splits prod.splits option.splits if_splits)

lemma Handler_unblocked: "unblocked (Handler_ServeHTTP C)"
  by (auto simp: unblocked_def Handler_ServeHTTP_def mux_ServeHTTP_def split: option.splits
      dest!: mux_find_mem dest: handlers_unblocked)

lemma Recover_answers: "unblocked h \<Longrightarrow> answers (Recover_panic h)"
  unfolding answers_def unblocked_def Recover_panic_def by (auto split: outcome.split)

lemma answers_around:
  assumes "answers h"
  shows "answers (RequestID C h)" "answers (Audit h)" "answers (RateLimit C n h)"
proof -
  have h: "\<exists>s' w'. h rq w s = Returned s' w'" if "cache_ok (as_cache (hs_auth s))" for rq w s
    using assms that by (simp add: answers_def)
  show "answers (RequestID C h)" by (auto simp: answers_def RequestID_def Let_def h)
  show "answers (RateLimit C n h)" by (auto simp: answers_def RateLimit_def Let_def h)
  have "\<exists>s' w'. Audit h rq w s = Returned s' w'" if "cache_ok (as_cache (hs_auth s))" for rq w s
    using h [OF that, of rq "w \<lparr> hw_Last := 200 \<rparr>"] by (auto simp: Audit_def)
  then show "answers (Audit h)" by (simp add: answers_def)
qed

lemma unblocked_around:
  assumes "unblocked h"
  shows "unblocked (CORS os h)" "unblocked (NetworkACL allow h)" "unblocked (Audit h)"
  using assms unfolding unblocked_def
  by (auto simp: CORS_def Let_def NetworkACL_exact Audit_def split: outcome.splits)

lemma limited_unblocked:
  assumes "unblocked h" "cache_ok (as_cache (hs_auth s))"
  shows "limited C i k h rq w s \<noteq> Blocked"
  using assms by (auto simp: limited_def unblocked_def split: prod.splits option.splits)

lemma auth_unblocked:
  assumes "unblocked h" "\<And>b. cache_ok (as_cache b) \<Longrightarrow> cache_ok (as_cache (hx_between_keys C b))"
  shows "unblocked (Auth C skip h)" "unblocked (AdminAuth C h)" "unblocked (MetricsAuth C b h)"
proof -
  have v: "\<exists>a x. validate_request C s rq cred = Some (a, x) \<and> cache_ok (as_cache a)" if "cache_ok (as_cache (hs_auth s))" for s rq cred
    using ValidateAPIKey_cache [of "hs_auth s" "hx_between_keys C"] that assms(2) by blast
  have "Auth C skip h rq w s \<noteq> Blocked" if "cache_ok (as_cache (hs_auth s))" for rq w s
    using v [OF that, where rq = rq and cred = "auth_header_credentials rq"] assms(1) that
    by (auto simp: Auth_def Let_def unblocked_def limited_unblocked [OF assms(1)] split: sum.splits)
  then show "unblocked (Auth C skip h)" by (simp add: unblocked_def)
  have "AdminAuth C h rq w s \<noteq> Blocked" if "cache_ok (as_cache (hs_auth s))" for rq w s
    using v [OF that, where rq = rq and cred = "extractAPIKeyCredentials rq"]
    by (auto simp: AdminAuth_def Let_def limited_unblocked [OF assms(1)] split: sum.splits if_splits)
  then show "unblocked (AdminAuth C h)" by (simp add: unblocked_def)
  have "MetricsAuth C b h rq w s \<noteq> Blocked" if "cache_ok (as_cache (hs_auth s))" for rq w s
    using v [OF that, where rq = rq and cred = "extractAPIKeyCredentials rq"] assms(1) that
    by (auto simp: MetricsAuth_def Let_def unblocked_def split: sum.splits if_splits)
  then show "unblocked (MetricsAuth C b h)" by (simp add: unblocked_def)
qed

text \<open>C16: every request is answered: when the cache of keys has room and other requests keep it sound, the router returns a
  response for every request and in every state; a panic of a handler becomes an answer with status 500.\<close>

theorem every_request_answered:
  assumes "cache_ok (as_cache (hs_auth s))" "\<And>b. cache_ok (as_cache b) \<Longrightarrow> cache_ok (as_cache (hx_between_keys C b))"
  shows "\<exists>s' w'. NewRouter C cfg rq w s = Returned s' w'"
proof -
  note U = auth_unblocked [OF Handler_unblocked [of C] assms(2)]
  have "answers (RequestID C (Recover_panic (CORS os (Auth C skip (Handler_ServeHTTP C)))))" for os skip
    by (rule answers_around(1) [OF Recover_answers [OF unblocked_around(1) [OF U(1)]]])
  then have "answers (businessHandler C cfg)"
    by (auto simp: businessHandler_def Let_def Chain_def intro!: answers_around(2,3))
  moreover have "answers (adminHandler C cfg)"
  proof -
    have "unblocked (Chain (Handler_ServeHTTP C) ((if rc_AdminAllowList cfg \<noteq> [] then [NetworkACL (rc_AdminAllowList cfg)] else []) @
        (if rc_EnableAudit cfg then [Audit] else [])))"
      by (auto simp: Chain_def intro!: unblocked_around Handler_unblocked)
    from answers_around(1) [OF Recover_answers [OF auth_unblocked(2) [OF this assms(2)]]] show ?thesis
      by (simp add: adminHandler_def Chain_def)
  qed
  moreover have "answers (healthHandler C)" "answers (metricsHandler C cfg)"
    unfolding healthHandler_def metricsHandler_def Chain_def
    using answers_around(1) [OF Recover_answers [OF Handler_unblocked]] answers_around(1) [OF Recover_answers [OF U(3)]] by simp_all
  ultimately have "answers (group_handler C cfg g)" for g by (cases g) (simp_all add: group_handler_def)
  then show ?thesis
    using assms(1) by (auto simp: NewRouter_def mux_ServeHTTP_def mux_find_map answers_def split: option.splits)
qed

section \<open>What the business routes do not check\<close>

lemma revoke_runs:
  assumes "hr_Method rq = ''POST''" "hr_Segments rq = [''sessions'', i, ''revoke'']" "i \<noteq> ''''" "rc_GlobalRateLimit cfg \<le> 0"
    and "\<not> list_ex (\<lambda>p. HasPrefix (URL_Path rq) p) (rc_SkipAuthPaths cfg)"
    and "fst (auth_header_credentials rq) \<noteq> ''''" "snd (auth_header_credentials rq) \<noteq> ''''"
    and "validate_request C s rq (auth_header_credentials rq) = Some (a, Inr k)"
    and "CheckRateLimit (hx_NewLimiter C) (hx_Allow C) (hx_RetryAfter C) (hs_limiters s) (fst (auth_header_credentials rq))
          (K_RateLimit k) = (l, None)"
    and "SessionService_Revoke (hx_sessions C) (hx_now C) (hs_sessions s) i = (r, Inr b)"
  shows "\<exists>s' w'. NewRouter C cfg rq w s = Returned s' w' \<and> hs_sessions s' = r \<and> hs_auth s' = a"
proof -
  let ?s1 = "s \<lparr> hs_auth := a, hs_limiters := l \<rparr>"
  have inner: "\<exists>w'. Handler_ServeHTTP C (rq \<lparr> hr_PathValues := vs, hr_ctx_RequestID := j, hr_ctx_APIKey := Some k \<rparr>) w1 ?s1 =
      Returned (?s1 \<lparr> hs_sessions := r \<rparr>) w'" for vs j w1
    using assms(1-3,10)
    by (simp add: Handler_ServeHTTP_def mux_ServeHTTP_def registerRoutes_def match_method_def handleRevokeSession_def Header_Get_def gm_get_set)
  have auth: "\<exists>w'. Auth C (rc_SkipAuthPaths cfg) (Handler_ServeHTTP C) (rq \<lparr> hr_PathValues := vs, hr_ctx_RequestID := j \<rparr>) w1 s =
      Returned (?s1 \<lparr> hs_sessions := r \<rparr>) w'" for vs j w1
    using assms(5-9) inner [where vs = vs and j = j and ?w1.0 = w1] by (simp add: Auth_def Let_def limited_def)
  have cors: "\<exists>w'. CORS os (Auth C (rc_SkipAuthPaths cfg) (Handler_ServeHTTP C)) (rq \<lparr> hr_PathValues := vs, hr_ctx_RequestID := j \<rparr>) w1 s =
      Returned (?s1 \<lparr> hs_sessions := r \<rparr>) w'" for os vs j w1
    using assms(1) auth by (simp add: CORS_def Let_def)
  have chain: "\<exists>w'. Chain (Handler_ServeHTTP C) [RequestID C, Recover_panic, CORS (rc_CORSAllowedOrigins cfg), Auth C (rc_SkipAuthPaths cfg)]
      (rq \<lparr> hr_PathValues := vs \<rparr>) w1 s = Returned (?s1 \<lparr> hs_sessions := r \<rparr>) w'" for vs w1
  proof -
    obtain j where "RequestID C (Recover_panic (CORS (rc_CORSAllowedOrigins cfg) (Auth C (rc_SkipAuthPaths cfg) (Handler_ServeHTTP C))))
      (rq \<lparr> hr_PathValues := vs \<rparr>) w1 s = Recover_panic (CORS (rc_CORSAllowedOrigins cfg) (Auth C (rc_SkipAuthPaths cfg) (Handler_ServeHTTP C)))
      (rq \<lparr> hr_PathValues := vs, hr_ctx_RequestID := j \<rparr>) (Header_Set ''X-Request-ID'' j w1) s"
      using left_RequestID by metis
    then show ?thesis using cors [where os = "rc_CORSAllowedOrigins cfg" and vs = vs and j = j and ?w1.0 = "Header_Set ''X-Request-ID'' j w1"]
      by (auto simp: Chain_def Recover_panic_def)
  qed
  have "\<exists>s' w'. businessHandler C cfg (rq \<lparr> hr_PathValues := vs \<rparr>) w s = Returned s' w' \<and> hs_sessions s' = r \<and> hs_auth s' = a" for vs
    using assms(4) chain [of vs w] chain [of vs "w \<lparr> hw_Last := 200 \<rparr>"]
    by (auto simp: businessHandler_def Let_def Audit_def)
  moreover have "mux_find router_routes rq = Some (BusinessRoute, [(''id'', i)])"
    using assms(1-3) by (simp add: router_routes_def match_method_def gm_set_def)
  ultimately show ?thesis
    by (simp add: NewRouter_def mux_ServeHTTP_def mux_find_map group_handler_def)
qed

text \<open>The business routes never look at the role of the key: a key with the role \<open>metrics\<close>, which has no permission to revoke
  sessions, revokes one.\<close>

lemma metrics_key_revokes:
  assumes "hr_Method rq = ''POST''" "hr_Segments rq = [''sessions'', i, ''revoke'']" "i \<noteq> ''''" "rc_GlobalRateLimit cfg \<le> 0"
    and "\<not> list_ex (\<lambda>p. HasPrefix (URL_Path rq) p) (rc_SkipAuthPaths cfg)"
    and "fst (auth_header_credentials rq) \<noteq> ''''" "snd (auth_header_credentials rq) \<noteq> ''''"
    and "validate_request C s rq (auth_header_credentials rq) = Some (a, Inr k)" "K_Role k = RoleMetrics"
    and "CheckRateLimit (hx_NewLimiter C) (hx_Allow C) (hx_RetryAfter C) (hs_limiters s) (fst (auth_header_credentials rq))
          (K_RateLimit k) = (l, None)"
    and "SessionService_Revoke (hx_sessions C) (hx_now C) (hs_sessions s) i = (r, Inr b)"
  shows "\<not> HasPermission (K_Role k) PermSessionRevoke \<and>
    (\<exists>s' w'. NewRouter C cfg rq w s = Returned s' w' \<and> hs_sessions s' = r)"
proof
  show "\<not> HasPermission (K_Role k) PermSessionRevoke" unfolding assms(9) by code_simp
  show "\<exists>s' w'. NewRouter C cfg rq w s = Returned s' w' \<and> hs_sessions s' = r"
    using revoke_runs [OF assms(1-8,10,11), of w] by blast
qed

definition keeps_audit :: "('r, 'k, 'l, 'f) http_state http_handler \<Rightarrow> bool" where
  "keeps_audit h \<longleftrightarrow> (\<forall>rq w s s'. left_state (h rq w s) = Some s' \<longrightarrow> hs_audit s' = hs_audit s)"

lemma handlers_keep_audit:
  assumes "(m, ps, h) \<in> set (registerRoutes C)"
  shows "keeps_audit h"
  using assms unfolding registerRoutes_def
  by (auto simp: keeps_audit_def handleHealth_def handleReady_def handleListSessions_def handleCreateSession_def handleGetSession_def
      handleTouchSession_def handleRenewSession_def handleRevokeSession_def handleRevokeUserSessions_def handleValidateToken_def
      handleAdminStatus_def handleGCTrigger_def handleCreateAPIKey_def handleListAPIKeys_def handleUpdateAPIKeyStatus_def
      handleRotateAPIKey_def Let_def split: sum.splits prod.splits option.splits if_splits)

lemma Handler_keeps_audit: "keeps_audit (Handler_ServeHTTP C)"
  by (auto simp: keeps_audit_def Handler_ServeHTTP_def mux_ServeHTTP_def split: option.splits
      dest!: mux_find_mem dest: handlers_keep_audit [unfolded keeps_audit_def])

lemma keeps_audit_around:
  assumes "keeps_audit h"
  shows "keeps_audit (RequestID C h)" "keeps_audit (Recover_panic h)" "keeps_audit (CORS os h)" "keeps_audit (Auth C skip h)"
proof -
  have h: "hs_audit s' = hs_audit s" if "left_state (h rq w s) = Some s'" for rq w s s'
    using assms that by (auto simp: keeps_audit_def)
  show "keeps_audit (RequestID C h)" "keeps_audit (Recover_panic h)" "keeps_audit (CORS os h)"
    by (auto simp: keeps_audit_def RequestID_def CORS_def Let_def split: if_splits dest: h)
  have l: "hs_audit s' = hs_audit s" if "left_state (limited C i k h rq w s) = Some s'" for i k rq w s s'
    using that h by (fastforce simp: limited_def split: prod.splits option.splits)
  show "keeps_audit (Auth C skip h)"
    using h l by (fastforce simp: keeps_audit_def Auth_def Let_def split: if_splits option.splits sum.splits prod.splits)
qed

text \<open>The audit trail of the business routes names neither the request nor the key: the audit middleware runs outside the ones
  that put them into the context, so what it records of a request that comes from the network is an empty identifier and no
  key, whatever credentials were used.\<close>

lemma business_audit_anonymous:
  assumes "hr_ctx_RequestID rq = ''''" "hr_ctx_APIKey rq = None" "rc_EnableAudit cfg"
    and "businessHandler C cfg rq w s = Returned s' w'"
  shows "hs_audit s' = hs_audit s \<or>
    (\<exists>e. hs_audit s' = hs_audit s @ [e] \<and> au_RequestID e = '''' \<and> au_Key e = None \<and> au_Path e = URL_Path rq)"
proof -
  let ?h = "Chain (Handler_ServeHTTP C) [RequestID C, Recover_panic, CORS (rc_CORSAllowedOrigins cfg), Auth C (rc_SkipAuthPaths cfg)]"
  have k: "keeps_audit ?h" by (simp add: Chain_def keeps_audit_around Handler_keeps_audit)
  have a: "\<exists>e. hs_audit t' = hs_audit t @ [e] \<and> au_RequestID e = '''' \<and> au_Key e = None \<and> au_Path e = URL_Path rq"
    if au: "Audit ?h rq w1 t = Returned t' w2" for w1 t t' w2
  proof -
    obtain t1 w3 where h: "?h rq (w1 \<lparr> hw_Last := 200 \<rparr>) t = Returned t1 w3" using au by (auto simp: Audit_def split: outcome.splits)
    then have "hs_audit t1 = hs_audit t" using k unfolding keeps_audit_def by (metis left_state.simps(1))
    then show ?thesis using au h assms(1,2) by (auto simp: Audit_def)
  qed
  show ?thesis
    using assms(3,4) a unfolding businessHandler_def Let_def
    by (fastforce simp: RateLimit_def Let_def split: if_splits)
qed

text \<open>Preflight requests never reach the CORS middleware: no route takes the method \<open>OPTIONS\<close>.\<close>

lemma router_methods: "(m, ps, g) \<in> set router_routes \<Longrightarrow> m = ''GET'' \<or> m = ''POST''"
  by (auto simp: router_routes_def)

lemma preflight_unrouted:
  assumes "hr_Method rq = ''OPTIONS''"
  shows "NewRouter C cfg rq w s = Returned s (hx_mux C rq w)"
proof -
  have "mux_find router_routes rq = None"
    using assms by (cases "mux_find router_routes rq") (auto dest!: mux_find_mem dest: router_methods simp: match_method_def)
  then show ?thesis by (simp add: NewRouter_def mux_ServeHTTP_def mux_find_map)
qed

text \<open>The identifier made for a request without one is sent as the empty string: the handlers take it from the request's own header.\<close>

lemma generated_id_lost:
  assumes "hr_Method rq = ''GET''" "hr_Segments rq = [''health'']" "Header_Get (hr_Header rq) ''X-Request-ID'' = ''''" "hw_Sent w = None"
  shows "\<exists>w' h. NewRouter C cfg rq w s = Returned s w' \<and> hw_Sent w' = Some (200, h) \<and> Header_Get h ''X-Request-ID'' = ''''"
  using assms
  by (simp add: NewRouter_def mux_ServeHTTP_def mux_find_map router_routes_def match_method_def group_handler_def healthHandler_def
      Chain_def RequestID_def Let_def Recover_panic_def Handler_ServeHTTP_def registerRoutes_def handleHealth_def writeJSON_def
      json_Encode_def write_body_def WriteHeader_def send_header_def Header_Set_def Header_Get_def getRequestID_def gm_get_set
      split: option.splits)

section \<open>Examples\<close>

abbreviation role_key :: "string \<Rightarrow> apikey" where
  "role_key role \<equiv> example_key \<lparr> K_Role := role \<rparr>"

abbreviation role_auth :: "string \<Rightarrow> apikey_store auth_service" where
  "role_auth role \<equiv> NewAuthService \<lparr> ak_keys = [(''tmak-1'', role_key role)] \<rparr> None"

lemma role_auth_ok: "cache_ok (as_cache (role_auth role))"
  by (rule NewAuthService_ok)

lemma role_auth_validates:
  "\<exists>a. ValidateAPIKey example_ext apikey_store_repo 0 (\<lambda>b. b) (role_auth role)
      \<lparr> aq_KeyID = ''tmak-1'', aq_KeySecret = ''s'', aq_ClientIP = ip \<rparr> = Some (a, Inr (APIKey_Touch 0 (role_key role))) \<and> a \<noteq> role_auth role"
proof -
  let ?k = "role_key role"
  have f: "as_globalAllow (role_auth role) = []" "L_items (as_cache (role_auth role)) = []"
    "as_repo (role_auth role) = \<lparr> ak_keys = [(''tmak-1'', ?k)] \<rparr>"
    by (simp_all add: NewAuthService_def DefaultAuthServiceConfig_def NewAPIKeyCache_def)
  have g: "kr_Get apikey_store_repo \<lparr> ak_keys = [(''tmak-1'', ?k)] \<rparr> ''tmak-1'' = Inr ?k"
    using aks.get_alpha [of "\<lparr> ak_keys = [(''tmak-1'', ?k)] \<rparr>"]
    by (simp add: apikey_inv_def gm_wf_def gm_get_def apikey_abs_def)
  obtain c e where c: "APIKeyCache_Set 0 (as_cache (role_auth role)) ''tmak-1'' (APIKey_Touch 0 ?k) = Some c"
    "gm_get (L_items c) ''tmak-1'' = Some e"
    using APIKeyCache_Set_spec [of "as_cache (role_auth role)" 0 "''tmak-1''" "APIKey_Touch 0 ?k"] role_auth_ok [of role]
    by (auto simp: cache_ok_def)
  have k: "K_Status ?k = KeyStatusActive" "\<not> APIKey_IsExpired 0 ?k" "K_Allowlist ?k = []"
    "verifySecretHash example_ext ''s'' (K_SecretHash ?k) x y" for x y
    using example_key_fields(5) [of 0] example_key_secret [of x y] by (simp_all add: APIKey_IsExpired_def split: if_splits)
  have "c \<noteq> as_cache (role_auth role)" using c(2) f(2) by auto
  then have "role_auth role \<lparr> as_repo := r, as_cache := c \<rparr> \<noteq> role_auth role" for r
    by (auto dest: arg_cong [of _ _ as_cache])
  then show ?thesis
    using f g k c(1) by (auto simp: ValidateAPIKey_def APIKeyCache_Get_def validate_stored_def checkIPAllowlist_def Let_def)
qed

abbreviation example_http :: "'r session_repo \<Rightarrow> 'r token_repo \<Rightarrow> ('r, apikey_store, unit, int) http_calls" where
  "example_http R T \<equiv> \<lparr> hx_ext = example_ext, hx_sessions = R, hx_tokens = T, hx_keys = apikey_store_repo,
     hx_float = \<lparr> fl_of_int = (\<lambda>x. x), fl_add = (+), fl_mul = (*), fl_le = (\<le>), fl_less = (<),
                   fl_Seconds = (\<lambda>x. x div Second), fl_int64 = (\<lambda>x. x) \<rparr>,
     hx_now = 0, hx_time = (\<lambda>_. Some ''''), hx_RFC3339 = (\<lambda>_. ''''), hx_requestID = Inr [], hx_ulid = Inr ''a'', hx_random = Inr [],
     hx_salt = Inr [], hx_between = (\<lambda>r. r), hx_between_keys = (\<lambda>a. a), hx_NewLimiter = (\<lambda>_. ()), hx_Allow = (\<lambda>l. (l, True)),
     hx_RetryAfter = (\<lambda>l. (l, '''')), hx_mux = (\<lambda>rq. WriteHeader 404) \<rparr>"

abbreviation example_state :: "string \<Rightarrow> 'r \<Rightarrow> ('r, apikey_store, unit, int) http_state" where
  "example_state role r \<equiv> \<lparr> hs_sessions = r, hs_auth = role_auth role, hs_limiters = [], hs_buckets = [], hs_audit = [] \<rparr>"

abbreviation revoke_request :: http_request where
  "revoke_request \<equiv> \<lparr> hr_Method = ''POST'', hr_Segments = [''sessions'', ''tmss-1'', ''revoke''], hr_Query = [],
     hr_Header = [(''X-API-Key-ID'', ''tmak-1''), (''X-API-Key'', ''s'')], hr_RemoteAddr = ''10.0.0.1:5'', hr_Body = [],
     hr_PathValues = [], hr_ctx_RequestID = '''', hr_ctx_APIKey = None \<rparr>"

abbreviation fresh_response :: http_response where
  "fresh_response \<equiv> \<lparr> hw_Header = [], hw_Sent = None, hw_Body = '''', hw_Last = 200 \<rparr>"

abbreviation example_router_config :: router_config where
  "example_router_config \<equiv> DefaultRouterConfig \<lparr> rc_GlobalRateLimit := 0 \<rparr>"

text \<open>A key with the role \<open>metrics\<close> revokes a session of the in-memory store.\<close>

lemma revoke_request_facts:
  "auth_header_credentials revoke_request = (''tmak-1'', ''s'')"
  "\<not> list_ex (\<lambda>p. HasPrefix (URL_Path revoke_request) p) (rc_SkipAuthPaths example_router_config)"
  by (simp_all add: auth_header_credentials_def Header_Get_def gm_get_def DefaultRouterConfig_def URL_Path_def HasPrefix_def)

lemma example_revoked:
  obtains st st' a where "store_abs st ''tmss-1'' \<noteq> None" "store_abs st' ''tmss-1'' = None"
    "SessionService_Revoke store_session_repo 0 st ''tmss-1'' = (st', Inr True)"
    "validate_request (example_http store_session_repo store_token_repo) (example_state RoleMetrics st) revoke_request
       (''tmak-1'', ''s'') = Some (a, Inr (APIKey_Touch 0 (role_key RoleMetrics)))" "a \<noteq> role_auth RoleMetrics"
proof -
  obtain st where st: "store_inv st" "store_abs st = [''tmss-1'' \<mapsto> example_session ''tmss-1'' ''u'' '''']"
    by (rule example_store)
  obtain st' r where del: "Store_Delete st ''tmss-1'' = (st', r)" by fastforce
  have d: "r = None" "store_abs st' = Map.empty"
    using Store_Delete_refines [OF st(1) del] st(2) by (simp_all add: a_Delete_def)
  have "SessionService_Revoke store_session_repo 0 st ''tmss-1'' = (st', Inr True)"
    using del d(1) by (simp add: SessionService_Revoke_def store_session_repo_def)
  moreover obtain a where "validate_request (example_http store_session_repo store_token_repo) (example_state RoleMetrics st) revoke_request
       (''tmak-1'', ''s'') = Some (a, Inr (APIKey_Touch 0 (role_key RoleMetrics)))" "a \<noteq> role_auth RoleMetrics"
    using role_auth_validates [of RoleMetrics "getClientIP revoke_request"] by auto
  ultimately show thesis using st d by (intro that) auto
qed

lemma example_revoke:
  obtains st st' s' w' where "store_abs st ''tmss-1'' \<noteq> None" "store_abs st' ''tmss-1'' = None" "hs_sessions s' = st'"
    "NewRouter (example_http store_session_repo store_token_repo) example_router_config revoke_request fresh_response
      (example_state RoleMetrics st) = Returned s' w'" "hs_auth s' \<noteq> role_auth RoleMetrics"
proof -
  obtain st st' a where e: "store_abs st ''tmss-1'' \<noteq> None" "store_abs st' ''tmss-1'' = None"
    "SessionService_Revoke store_session_repo 0 st ''tmss-1'' = (st', Inr True)"
    "validate_request (example_http store_session_repo store_token_repo) (example_state RoleMetrics st) revoke_request
       (''tmak-1'', ''s'') = Some (a, Inr (APIKey_Touch 0 (role_key RoleMetrics)))" "a \<noteq> role_auth RoleMetrics"
    by (rule example_revoked)
  obtain s' w' where "NewRouter (example_http store_session_repo store_token_repo) example_router_config revoke_request fresh_response
      (example_state RoleMetrics st) = Returned s' w' \<and> hs_sessions s' = st' \<and> hs_auth s' = a"
    using revoke_runs [of revoke_request "''tmss-1''" example_router_config "example_http store_session_repo store_token_repo"
        "example_state RoleMetrics st" a "APIKey_Touch 0 (role_key RoleMetrics)" "[(''tmak-1'', ())]" st' True fresh_response]
      e(3,4) revoke_request_facts
    by (auto simp: CheckRateLimit_def GetOrCreate_def gm_get_def gm_set_def)
  then show thesis using e that by blast
qed


theorem every_request_answered_witness:
  "\<exists>s' w'. NewRouter (example_http store_session_repo store_token_repo) DefaultRouterConfig revoke_request fresh_response
     (example_state RoleMetrics (Store_New (\<lambda>_. 0) (\<lambda>_. 0) (\<lambda>_. 0) [])) = Returned s' w'"
  using every_request_answered [of "example_state RoleMetrics (Store_New (\<lambda>_. 0) (\<lambda>_. 0) (\<lambda>_. 0) [])"
      "example_http store_session_repo store_token_repo" DefaultRouterConfig revoke_request fresh_response] role_auth_ok [of RoleMetrics]
  by simp

end
