(* ===== verification/Log_Redact.thy ===== *)
theory Log_Redact
  imports Domain_Session
begin

text \<open>
  Hiding secrets in the log: \<open>internal/telemetry/logger/redact.go\<close>, and the level and format of
  \<open>logger.go\<close>.

  An attribute of \<open>log/slog\<close> is a key with a string, a group of attributes, or a value of another kind,
  which redaction never looks into. Writing the records is a matter of \<open>log/slog\<close>.
\<close>

section \<open>Attributes\<close>

datatype 'x attr = Attr (attr_Key: string) (attr_Value: "'x attr_value")
  and 'x attr_value = KindString string | KindGroup "'x attr list" | KindOther 'x

definition sensitiveValuePrefixes :: "string list" where
  "sensitiveValuePrefixes = [''tmtk_'', ''tmas_'']"

definition sensitiveKeyPatterns :: "string list" where
  "sensitiveKeyPatterns = [''password'', ''secret'', ''token'', ''key'', ''credential'', ''auth'', ''bearer'']"

definition redactedValue :: string where
  "redactedValue = ''***REDACTED***''"

section \<open>Masks\<close>

definition maskValue :: "string \<Rightarrow> string \<Rightarrow> string" where
  "maskValue v pfx =
     (if length v \<le> length pfx + 6 then pfx @ ''***''
      else
        (let body = drop (length pfx) v in
         if length body > 6 then pfx @ take 3 body @ ''...'' @ drop (length body - 3) body else pfx @ ''***''))"

definition IsSensitiveKey :: "ext \<Rightarrow> string \<Rightarrow> bool" where
  "IsSensitiveKey X key = list_ex (\<lambda>pattern. Contains (ToLower X key) pattern) sensitiveKeyPatterns"

definition IsSensitiveValue :: "string \<Rightarrow> bool" where
  "IsSensitiveValue v = list_ex (HasPrefix v) sensitiveValuePrefixes"

text \<open>The first prefix in the list that the value has.\<close>

definition sensitive_prefix :: "string \<Rightarrow> string option" where
  "sensitive_prefix v = List.find (HasPrefix v) sensitiveValuePrefixes"

definition redact_string :: "ext \<Rightarrow> string \<Rightarrow> string \<Rightarrow> string" where
  "redact_string X key strVal =
     (case sensitive_prefix strVal of
        Some pfx \<Rightarrow> maskValue strVal pfx
      | None \<Rightarrow> if IsSensitiveKey X key \<and> strVal \<noteq> '''' then redactedValue else strVal)"

fun redactSensitive :: "ext \<Rightarrow> 'x attr \<Rightarrow> 'x attr" and redact_value :: "ext \<Rightarrow> string \<Rightarrow> 'x attr_value \<Rightarrow> 'x attr_value" where
  "redactSensitive X (Attr key v) = Attr key (redact_value X key v)"
| "redact_value X key (KindString strVal) = KindString (redact_string X key strVal)"
| "redact_value X key (KindGroup attrs) = KindGroup (map (redactSensitive X) attrs)"
| "redact_value X key (KindOther x) = KindOther x"

fun redactAttr :: "'x attr \<Rightarrow> 'x attr" where
  "redactAttr (Attr key (KindString strVal)) = Attr key (KindString (if strVal \<noteq> '''' then redactedValue else strVal))"
| "redactAttr a = a"

definition RedactString :: "string \<Rightarrow> string" where
  "RedactString v =
     (case sensitive_prefix v of
        Some pfx \<Rightarrow> maskValue v pfx
      | None \<Rightarrow>
          if HasPrefix v ''tm'' \<and> Contains v ''_'' then
            (let idx = length (takeWhile (\<lambda>c. c \<noteq> CHR ''_'') v) in
             if idx > 0 \<and> idx < 10 then maskValue v (take (idx + 1) v) else v)
          else v)"

section \<open>Level and format\<close>

datatype log_level = LevelDebug | LevelInfo | LevelWarn | LevelError
datatype log_format = TextFormat | JSONFormat

definition parseLevel :: "ext \<Rightarrow> string \<Rightarrow> log_level" where
  "parseLevel X level =
     (let l = ToLower X level in
      if l = ''debug'' then LevelDebug
      else if l = ''info'' then LevelInfo
      else if l = ''warn'' \<or> l = ''warning'' then LevelWarn
      else if l = ''error'' then LevelError
      else LevelInfo)"

fun GetLevel :: "log_level \<Rightarrow> string" where
  "GetLevel LevelDebug = ''debug''"
| "GetLevel LevelInfo = ''info''"
| "GetLevel LevelWarn = ''warn''"
| "GetLevel LevelError = ''error''"

definition logger_format :: "ext \<Rightarrow> string \<Rightarrow> log_format" where
  "logger_format X f = (let l = ToLower X f in if l = ''text'' \<or> l = ''console'' then TextFormat else JSONFormat)"

text \<open>What a logger writes of an attribute of a record at a level, if it writes the record.\<close>

definition logged :: "ext \<Rightarrow> log_level \<Rightarrow> log_level \<Rightarrow> 'x attr list \<Rightarrow> 'x attr list option" where
  "logged X threshold level attrs =
     (if (\<lambda>l. case l of LevelDebug \<Rightarrow> -4 | LevelInfo \<Rightarrow> 0 | LevelWarn \<Rightarrow> 4 | LevelError \<Rightarrow> (8::int)) level \<ge>
         (case threshold of LevelDebug \<Rightarrow> -4 | LevelInfo \<Rightarrow> 0 | LevelWarn \<Rightarrow> 4 | LevelError \<Rightarrow> 8)
      then Some (map (redactSensitive X) attrs) else None)"

section \<open>What the log reveals\<close>

text \<open>Attributes that differ only in what is secret: in the body of a token or of a key's secret apart from its first and
  last three characters (all of a short body), and in a value under a sensitive name.\<close>

inductive alike :: "ext \<Rightarrow> 'x attr \<Rightarrow> 'x attr \<Rightarrow> bool" for X where
  same: "alike X a a"
| long_body: "p \<in> set sensitiveValuePrefixes \<Longrightarrow> length b > 6 \<Longrightarrow> length c > 6 \<Longrightarrow> take 3 b = take 3 c \<Longrightarrow>
    drop (length b - 3) b = drop (length c - 3) c \<Longrightarrow> alike X (Attr k (KindString (p @ b))) (Attr k (KindString (p @ c)))"
| short_body: "p \<in> set sensitiveValuePrefixes \<Longrightarrow> length b \<le> 6 \<Longrightarrow> length c \<le> 6 \<Longrightarrow>
    alike X (Attr k (KindString (p @ b))) (Attr k (KindString (p @ c)))"
| secret: "IsSensitiveKey X k \<Longrightarrow> v \<noteq> '''' \<Longrightarrow> w \<noteq> '''' \<Longrightarrow> \<not> IsSensitiveValue v \<Longrightarrow> \<not> IsSensitiveValue w \<Longrightarrow>
    alike X (Attr k (KindString v)) (Attr k (KindString w))"
| group: "list_all2 (alike X) as bs \<Longrightarrow> alike X (Attr k (KindGroup as)) (Attr k (KindGroup bs))"

lemma sensitive_prefix_append: "p \<in> set sensitiveValuePrefixes \<Longrightarrow> sensitive_prefix (p @ b) = Some p"
  by (auto simp: sensitiveValuePrefixes_def sensitive_prefix_def HasPrefix_def)

lemma sensitive_prefix_None: "sensitive_prefix v = None \<longleftrightarrow> \<not> IsSensitiveValue v"
  by (auto simp: sensitive_prefix_def IsSensitiveValue_def find_None_iff list_ex_iff)

lemma maskValue_append:
  "length b > 6 \<Longrightarrow> maskValue (p @ b) p = p @ take 3 b @ ''...'' @ drop (length b - 3) b"
  "length b \<le> 6 \<Longrightarrow> maskValue (p @ b) p = p @ ''***''"
  by (simp_all add: maskValue_def)

lemma alike_redact: "alike X a b \<Longrightarrow> redactSensitive X a = redactSensitive X b"
proof (induction rule: alike.induct)
  case (group as bs k)
  then have "list_all2 (\<lambda>a b. redactSensitive X a = redactSensitive X b) as bs" by (auto elim: list_all2_mono)
  then show ?case by (simp add: list_all2_conv_all_nth list_eq_iff_nth_eq)
qed (auto simp: redact_string_def sensitive_prefix_append maskValue_append sensitive_prefix_None [THEN iffD2])


definition login_record :: "string \<Rightarrow> string \<Rightarrow> nat attr list" where
  "login_record token pw = [Attr ''request'' (KindGroup [Attr ''value'' (KindString token), Attr ''status'' (KindOther 200)]),
     Attr ''password'' (KindString pw)]"

definition ascii_ext :: ext where
  "ascii_ext = \<lparr> unicode_ToLower = (\<lambda>s. s), unicode_ToUpper = (\<lambda>s. s), ulid_Parse = (\<lambda>_. True),
     argon2_IDKey = (\<lambda>p s t m th n. replicate (unat n) 0) \<rparr>"


end
