(* ===== verification/Server_Config.thy ===== *)
theory Server_Config
  imports Cluster_Props Log_Redact
begin

text \<open>
  The configuration of the server, \<open>internal/server/config\<close>: its sections, defaults, checks, what is shown of it in
  the log, the configuration of the cluster that is made of it; and how \<open>internal/infra/confloader\<close> turns the names of
  environment variables into names of settings.

  Koanf, which reads files and variables and fills the struct by its tags, is a package of its own: the outcomes of
  loading are arguments. Log lines are left out.
\<close>

section \<open>Sections\<close>

record http_section =
  hc_Addr :: string
  hc_TLSCertFile :: string
  hc_TLSKeyFile :: string

record redis_section =
  rdc_Enabled :: bool
  rdc_Addr :: string

text \<open>The address of the cluster server and the path of the local socket are sections of one field.\<close>

record server_section =
  sv_HTTP :: http_section
  sv_Redis :: redis_section
  sv_Cluster :: string
  sv_Local :: string

record storage_section =
  sto_DataDir :: string
  sto_WALSyncInterval :: int
  sto_SnapshotKeep :: int

record security_section =
  sec_EncryptionKey :: string
  sec_TLSCAFile :: string

record cluster_section =
  cls_NodeID :: string
  cls_RaftAddr :: string
  cls_GossipAddr :: string
  cls_GossipPort :: int
  cls_Bootstrap :: bool
  cls_Seeds :: "string list"
  cls_DataDir :: string
  cls_ReplicationFactor :: int
  cls_RebalanceMaxRateMBps :: int
  cls_RebalanceMinTTL :: int
  cls_RebalanceConcurrentQty :: int

record log_section =
  lg_Level :: string
  lg_Format :: string

record server_config =
  svc_Server :: server_section
  svc_Storage :: storage_section
  svc_Security :: security_section
  svc_Cluster :: cluster_section
  svc_Log :: log_section

section \<open>Defaults\<close>

abbreviation DefaultHTTPAddr :: string where "DefaultHTTPAddr \<equiv> ''127.0.0.1:5080''"
abbreviation DefaultRedisAddr :: string where "DefaultRedisAddr \<equiv> ''127.0.0.1:6379''"
abbreviation DefaultClusterAddr :: string where "DefaultClusterAddr \<equiv> ''127.0.0.1:5343''"
abbreviation DefaultLocalSocket :: string where "DefaultLocalSocket \<equiv> ''/var/run/tokmesh-server/tokmesh-server.sock''"
abbreviation DefaultDataDir :: string where "DefaultDataDir \<equiv> ''/var/lib/tokmesh-server/data''"
abbreviation DefaultWALSyncInterval :: int where "DefaultWALSyncInterval \<equiv> 100 * 1000000"
abbreviation DefaultSnapshotKeep :: int where "DefaultSnapshotKeep \<equiv> 3"

definition zero_cluster_section :: cluster_section where
  "zero_cluster_section = \<lparr> cls_NodeID = '''', cls_RaftAddr = '''', cls_GossipAddr = '''', cls_GossipPort = 0, cls_Bootstrap = False,
     cls_Seeds = [], cls_DataDir = '''', cls_ReplicationFactor = 0, cls_RebalanceMaxRateMBps = 0, cls_RebalanceMinTTL = 0,
     cls_RebalanceConcurrentQty = 0 \<rparr>"

definition config_Default :: server_config where
  "config_Default =
     \<lparr> svc_Server = \<lparr> sv_HTTP = \<lparr> hc_Addr = DefaultHTTPAddr, hc_TLSCertFile = '''', hc_TLSKeyFile = '''' \<rparr>,
                      sv_Redis = \<lparr> rdc_Enabled = False, rdc_Addr = DefaultRedisAddr \<rparr>, sv_Cluster = DefaultClusterAddr,
                      sv_Local = DefaultLocalSocket \<rparr>,
       svc_Storage = \<lparr> sto_DataDir = DefaultDataDir, sto_WALSyncInterval = DefaultWALSyncInterval,
                       sto_SnapshotKeep = DefaultSnapshotKeep \<rparr>,
       svc_Security = \<lparr> sec_EncryptionKey = '''', sec_TLSCAFile = '''' \<rparr>, svc_Cluster = zero_cluster_section,
       svc_Log = \<lparr> lg_Level = ''info'', lg_Format = ''json'' \<rparr> \<rparr>"

section \<open>Checks\<close>

text \<open>The checks of the server section are still to be written in the code: it accepts everything.\<close>

definition verifyServer :: "server_section \<Rightarrow> go_error option" where
  "verifyServer cfg = None"

definition verifyStorage :: "(string \<Rightarrow> go_error option) \<Rightarrow> storage_section \<Rightarrow> go_error option" where
  "verifyStorage MkdirAll cfg =
     (if sto_DataDir cfg = '''' then Some (PlainError ''storage.data_dir is required'')
      else
        (case MkdirAll (sto_DataDir cfg) of
           Some err \<Rightarrow> Some (PlainError (''cannot create data directory: '' @ Error err))
         | None \<Rightarrow>
             if sto_SnapshotKeep cfg < 1 then Some (PlainError ''storage.snapshot_keep must be at least 1'') else None))"

definition config_Verify :: "(string \<Rightarrow> go_error option) \<Rightarrow> server_config \<Rightarrow> go_error option" where
  "config_Verify MkdirAll cfg =
     (case verifyServer (svc_Server cfg) of
        Some err \<Rightarrow> Some err
      | None \<Rightarrow> verifyStorage MkdirAll (svc_Storage cfg))"

section \<open>What is shown\<close>

definition maskSecret :: "string \<Rightarrow> string" where
  "maskSecret s =
     (if length s \<le> 4 then ''****''
      else take 2 s @ replicate (length s - 4) (CHR ''*'') @ drop (length s - 2) s)"

definition Sanitize :: "server_config \<Rightarrow> server_config" where
  "Sanitize cfg =
     (if sec_EncryptionKey (svc_Security cfg) \<noteq> ''''
      then cfg \<lparr> svc_Security := (svc_Security cfg) \<lparr> sec_EncryptionKey := maskSecret (sec_EncryptionKey (svc_Security cfg)) \<rparr> \<rparr>
      else cfg)"

section \<open>The configuration of the cluster\<close>

definition generateNodeID :: "go_error + bytes \<Rightarrow> go_error + string" where
  "generateNodeID random =
     (case random of
        Inl err \<Rightarrow> Inl (WrapError ''read random bytes'' err)
      | Inr buf \<Rightarrow> Inr (''tmnode-'' @ hex_EncodeToString buf))"

definition buildRebalanceConfig :: "cluster_section \<Rightarrow> rebalance_config" where
  "buildRebalanceConfig cluster =
     (let maxRateMBps = (if cls_RebalanceMaxRateMBps cluster \<le> 0 then 20 else cls_RebalanceMaxRateMBps cluster);
          minTTL = (if cls_RebalanceMinTTL cluster \<le> 0 then 60 * Second else cls_RebalanceMinTTL cluster);
          concurrentQty = (if cls_RebalanceConcurrentQty cluster \<le> 0 then 3 else cls_RebalanceConcurrentQty cluster)
      in \<lparr> rc_MaxRateBytesPerSec = i64 (maxRateMBps * 1024 * 1024), rc_MinTTL = minTTL, rc_ConcurrentShards = concurrentQty,
           rc_StreamingTimeout = 0 \<rparr>)"

text \<open>The cluster identifier, the TLS configuration and the timeouts are left at their zero values.\<close>

definition ToClusterConfig :: "go_error + bytes \<Rightarrow> server_config option \<Rightarrow> engine option \<Rightarrow> go_error + cluster_config" where
  "ToClusterConfig random cfg0 storageEngine =
     (case cfg0 of
        None \<Rightarrow> Inl (PlainError ''server config is nil'')
      | Some cfg \<Rightarrow>
          (case (if cls_NodeID (svc_Cluster cfg) = '''' then map_sum (WrapError ''generate node ID'') id (generateNodeID random)
                 else Inr (cls_NodeID (svc_Cluster cfg))) of
             Inl err \<Rightarrow> Inl err
           | Inr nodeID \<Rightarrow>
               (let c = svc_Cluster cfg in
                Inr \<lparr> cc_NodeID = nodeID, cc_ClusterID = '''', cc_RaftBindAddr = cls_RaftAddr c, cc_GossipBindAddr = cls_GossipAddr c,
                      cc_GossipBindPort = cls_GossipPort c, cc_Bootstrap = cls_Bootstrap c, cc_SeedNodes = cls_Seeds c,
                      cc_RaftDataDir = cls_DataDir c, cc_ReplicationFactor = cls_ReplicationFactor c, cc_Storage = storageEngine,
                      cc_Rebalance = buildRebalanceConfig c, cc_TLSConfig = False,
                      cc_Timeouts = \<lparr> to_RaftApply = 0, to_RaftMembership = 0, to_RaftTransport = 0, to_StreamingRPC = 0,
                                      to_WaitLeader = 0, to_Rebalance = 0 \<rparr> \<rparr>)))"

section \<open>Loading\<close>

record config_loader =
  ld_envPrefix :: string
  ld_filePath :: string
  ld_loaded :: bool

abbreviation DefaultEnvPrefix :: string where "DefaultEnvPrefix \<equiv> ''TOKMESH_''"

definition WithEnvPrefix :: "string \<Rightarrow> config_loader \<Rightarrow> config_loader" where
  "WithEnvPrefix p l = l \<lparr> ld_envPrefix := p \<rparr>"

definition WithConfigFile :: "string \<Rightarrow> config_loader \<Rightarrow> config_loader" where
  "WithConfigFile path l = l \<lparr> ld_filePath := path \<rparr>"

definition NewLoader :: "(config_loader \<Rightarrow> config_loader) list \<Rightarrow> config_loader" where
  "NewLoader opts =
     foldl (\<lambda>l opt. opt l) \<lparr> ld_envPrefix = DefaultEnvPrefix, ld_filePath = '''', ld_loaded = False \<rparr> opts"

definition TrimPrefix :: "string \<Rightarrow> string \<Rightarrow> string" where
  "TrimPrefix s p = (if HasPrefix s p then drop (length p) s else s)"

text \<open>The name of a setting for the name of a variable; the replacement is of one character by another.\<close>

definition envTransformer :: "ext \<Rightarrow> string \<Rightarrow> string \<Rightarrow> string" where
  "envTransformer X envPrefix s =
     map (\<lambda>c. if c = CHR ''_'' then CHR ''.'' else c) (ToLower X (TrimPrefix s envPrefix))"

text \<open>The outcomes of reading the file and the variables, and of filling the struct.\<close>

record 'c koanf_calls =
  kf_LoadFile :: "string \<Rightarrow> go_error option"
  kf_LoadEnv :: "go_error option"
  kf_Unmarshal :: "'c \<Rightarrow> go_error + 'c"

definition LoadFile :: "'c koanf_calls \<Rightarrow> string \<Rightarrow> go_error option" where
  "LoadFile K path = (if path = '''' then None else map_option (WrapError (''load file '' @ path)) (kf_LoadFile K path))"

definition Loader_Load :: "'c koanf_calls \<Rightarrow> config_loader \<Rightarrow> 'c \<Rightarrow> config_loader \<times> (go_error + 'c)" where
  "Loader_Load K l target =
     (case (if ld_filePath l \<noteq> '''' then LoadFile K (ld_filePath l) else None) of
        Some err \<Rightarrow> (l, Inl (WrapError ''load config file'' err))
      | None \<Rightarrow>
     (case map_option (WrapError ''load env'') (kf_LoadEnv K) of
        Some err \<Rightarrow> (l, Inl (WrapError ''load env'' err))
      | None \<Rightarrow>
     (case kf_Unmarshal K target of
        Inl err \<Rightarrow> (l, Inl (WrapError ''unmarshal config'' err))
      | Inr c \<Rightarrow> (l \<lparr> ld_loaded := True \<rparr>, Inr c))))"

text \<open>Loading a map, by the outcome of the call of koanf.\<close>

definition LoadMap :: "go_error option \<Rightarrow> go_error option" where
  "LoadMap outcome = map_option (WrapError ''load map'') outcome"

definition IsLoaded :: "config_loader \<Rightarrow> bool" where
  "IsLoaded l = ld_loaded l"

text \<open>The names of the settings, by the tags of the sections.\<close>

definition setting_names :: "string list" where
  "setting_names = [''server.http.addr'', ''server.http.tls_cert_file'', ''server.http.tls_key_file'', ''server.redis.enabled'',
     ''server.redis.addr'', ''server.cluster.addr'', ''server.local.path'', ''storage.data_dir'', ''storage.wal_sync_interval'',
     ''storage.snapshot_keep'', ''security.encryption_key'', ''security.tls_ca_file'', ''cluster.node_id'', ''cluster.raft_addr'',
     ''cluster.gossip_addr'', ''cluster.gossip_port'', ''cluster.bootstrap'', ''cluster.seeds'', ''cluster.data_dir'',
     ''cluster.replication_factor'', ''cluster.rebalance_max_rate_mbps'', ''cluster.rebalance_min_ttl'',
     ''cluster.rebalance_concurrent_qty'', ''log.level'', ''log.format'']"

section \<open>Which settings a variable reaches\<close>

lemma envTransformer_no_underscore: "CHR ''_'' \<notin> set (envTransformer X p s)"
  by (auto simp: envTransformer_def)

text \<open>The variable that the comment of \<open>LoadEnv\<close> describes for a setting.\<close>

definition env_name :: "string \<Rightarrow> string" where
  "env_name k = DefaultEnvPrefix @ map (\<lambda>c. if c = CHR ''.'' then CHR ''_'' else upper_char c) k"

definition plain_char :: "char \<Rightarrow> bool" where
  "plain_char c \<longleftrightarrow> c = CHR ''.'' \<or> 97 \<le> (of_char c :: nat) \<and> of_char c \<le> (122 :: nat)"

lemma plain_char_upper:
  assumes "plain_char c"
  shows "of_char (if c = CHR ''.'' then CHR ''_'' else upper_char c) < (128 :: nat)"
    "(let x = lower_char (if c = CHR ''.'' then CHR ''_'' else upper_char c) in if x = CHR ''_'' then CHR ''.'' else x) = c"
proof -
  have "lower_char (upper_char c) = c" "of_char (upper_char c) < (128 :: nat)" "c \<noteq> CHR ''_''"
    if "97 \<le> (of_char c :: nat)" "of_char c \<le> (122 :: nat)"
    using that by (auto simp: upper_char_def lower_char_def Let_def)
  then show "of_char (if c = CHR ''.'' then CHR ''_'' else upper_char c) < (128 :: nat)"
    "(let x = lower_char (if c = CHR ''.'' then CHR ''_'' else upper_char c) in if x = CHR ''_'' then CHR ''.'' else x) = c"
    using assms by (auto simp: plain_char_def lower_char_def)
qed

lemma env_name_read:
  assumes "list_all plain_char k"
  shows "envTransformer X DefaultEnvPrefix (env_name k) = k"
proof -
  let ?f = "\<lambda>c. if c = CHR ''.'' then CHR ''_'' else upper_char c"
  have "is_ascii (map ?f k)" using assms plain_char_upper(1) by (induction k) (simp_all add: is_ascii_def)
  moreover have "map (\<lambda>c. if c = CHR ''_'' then CHR ''.'' else c) (map lower_char (map ?f k)) = k"
    using assms plain_char_upper(2) by (induction k) (simp_all add: Let_def)
  moreover have "TrimPrefix (env_name k) DefaultEnvPrefix = map ?f k" by (simp add: env_name_def TrimPrefix_def HasPrefix_def)
  ultimately show ?thesis by (simp add: envTransformer_def ToLower_def)
qed

text \<open>An environment variable reaches exactly the settings whose names have no underscore: for such a name, the variable
  that the code documents is read as it, and no variable at all, with whatever prefix, is ever read as a setting with an underscore
  in its name, such as the data directory, the encryption key or the identifier of the node.\<close>

lemma env_reaches_settings:
  assumes "k \<in> set setting_names"
  shows "(CHR ''_'' \<notin> set k \<longrightarrow> envTransformer X DefaultEnvPrefix (env_name k) = k) \<and>
    (CHR ''_'' \<in> set k \<longrightarrow> (\<forall>p s. envTransformer X p s \<noteq> k))"
proof
  have "list_all (\<lambda>k. CHR ''_'' \<in> set k \<or> list_all plain_char k) setting_names"
    by (simp add: setting_names_def plain_char_def)
  with assms have "CHR ''_'' \<in> set k \<or> list_all plain_char k" unfolding list_all_iff by blast
  then show "CHR ''_'' \<notin> set k \<longrightarrow> envTransformer X DefaultEnvPrefix (env_name k) = k"
    using env_name_read [of k X] by blast
  show "CHR ''_'' \<in> set k \<longrightarrow> (\<forall>p s. envTransformer X p s \<noteq> k)" using envTransformer_no_underscore by metis
qed

lemma env_reaches_settings_example:
  "envTransformer ascii_ext ''TOKMESH_'' (env_name ''log.level'') = ''log.level'' \<and>
   (\<forall>s. envTransformer ascii_ext ''TOKMESH_'' s \<noteq> ''storage.data_dir'')"
proof -
  have "''log.level'' \<in> set setting_names" "''storage.data_dir'' \<in> set setting_names" by (simp_all add: setting_names_def)
  then show ?thesis
    using env_reaches_settings [of "''log.level''" ascii_ext] env_reaches_settings [of "''storage.data_dir''" ascii_ext] by simp
qed

end
