(* ===== verification/Redis_Server.thy ===== *)
theory Redis_Server
  imports Redis_Command
begin

text \<open>
  The life of the Redis server, \<open>redisserver/server.go\<close>: starting, listening, accepting and shutting down. Each goroutine is
  a thread of a step relation, and a step is what one of them does between two points where others can run. Serving a connection
  (\<open>serveConn\<close> of \<open>Redis_Command\<close>) counts here only as long as it lasts.

  Log lines are left out. The context of \<open>Start\<close> is the background context of the process, which never ends.
\<close>

section \<open>Configuration\<close>

record redis_config =
  rsc_PlainEnabled :: bool
  rsc_PlainAddress :: string
  rsc_TLSEnabled :: bool
  rsc_TLSAddress :: string
  rsc_TLSConfig :: bool
  rsc_ReadTimeout :: int
  rsc_WriteTimeout :: int
  rsc_IdleTimeout :: int
  rsc_RateLimit :: int

definition redis_DefaultConfig :: redis_config where
  "redis_DefaultConfig =
     \<lparr> rsc_PlainEnabled = False, rsc_PlainAddress = ''127.0.0.1:6379'', rsc_TLSEnabled = False, rsc_TLSAddress = ''127.0.0.1:6380'',
       rsc_TLSConfig = False, rsc_ReadTimeout = 30 * Second, rsc_WriteTimeout = 30 * Second, rsc_IdleTimeout = 300 * Second,
       rsc_RateLimit = 1000 \<rparr>"

section \<open>State\<close>

datatype port = PlainPort | TLSPort

text \<open>Where the goroutine of a port is: not started, before listening, between listening and storing the listener, in the accept
  loop, or at its end with the error that it logs.\<close>

datatype accept_thread = NotStarted | Starting | Bound | Accepting | Ended "go_error option"

text \<open>Where \<open>Shutdown\<close> is: the listeners it found are kept from reading the fields until closing.\<close>

datatype shutdown_phase =
    NotCalled
  | Flagged
  | Closing "port list"
  | Waiting "go_error option"
  | Finished "go_error option"
  | TimedOut go_error

record redis_server =
  rv_cfg :: redis_config
  rv_running :: bool
  rv_thread :: "port \<Rightarrow> accept_thread"
  rv_open :: "port \<Rightarrow> bool"
  rv_ln :: "port \<Rightarrow> bool"
  rv_conns :: nat
  rv_wg :: int
  rv_shutdown :: shutdown_phase

definition redis_New :: "redis_config option \<Rightarrow> redis_server" where
  "redis_New cfg =
     \<lparr> rv_cfg = (case cfg of None \<Rightarrow> redis_DefaultConfig | Some c \<Rightarrow> c), rv_running = False, rv_thread = (\<lambda>_. NotStarted),
       rv_open = (\<lambda>_. False), rv_ln = (\<lambda>_. False), rv_conns = 0, rv_wg = 0, rv_shutdown = NotCalled \<rparr>"

section \<open>Operations\<close>

definition Redis_Start :: "redis_server \<Rightarrow> redis_server \<times> go_error option" where
  "Redis_Start s =
     (if \<not> rsc_PlainEnabled (rv_cfg s) \<and> \<not> rsc_TLSEnabled (rv_cfg s) then (s, None)
      else
        (let s = s \<lparr> rv_running := True \<rparr>;
             s = (if rsc_PlainEnabled (rv_cfg s)
                  then s \<lparr> rv_wg := rv_wg s + 1, rv_thread := (rv_thread s)(PlainPort := Starting) \<rparr> else s);
             s = (if rsc_TLSEnabled (rv_cfg s)
                  then s \<lparr> rv_wg := rv_wg s + 1, rv_thread := (rv_thread s)(TLSPort := Starting) \<rparr> else s)
         in (s, None)))"

text \<open>The end of the goroutine of a port.\<close>

definition end_thread :: "port \<Rightarrow> go_error option \<Rightarrow> redis_server \<Rightarrow> redis_server" where
  "end_thread p err s = s \<lparr> rv_thread := (rv_thread s)(p := Ended err), rv_wg := rv_wg s - 1 \<rparr>"

text \<open>\<open>startPlain\<close> and \<open>startTLS\<close>: listening, with the outcome of the call, and storing the listener. Without a TLS
  configuration the second does nothing.\<close>

definition start_listen :: "port \<Rightarrow> go_error option \<Rightarrow> redis_server \<Rightarrow> redis_server" where
  "start_listen p r s =
     (if p = TLSPort \<and> \<not> rsc_TLSConfig (rv_cfg s) then end_thread p None s
      else
        (case r of
           Some err \<Rightarrow> end_thread p (if rv_running s then Some err else None) s
         | None \<Rightarrow> s \<lparr> rv_open := (rv_open s)(p := True), rv_thread := (rv_thread s)(p := Bound) \<rparr>))"

definition store_listener :: "port \<Rightarrow> redis_server \<Rightarrow> redis_server" where
  "store_listener p s = s \<lparr> rv_ln := (rv_ln s)(p := True), rv_thread := (rv_thread s)(p := Accepting) \<rparr>"

text \<open>One turn of \<open>acceptLoop\<close>: a connection, which gets a goroutine, or an error, which ends the loop.\<close>

definition acceptLoop :: "port \<Rightarrow> go_error option \<Rightarrow> redis_server \<Rightarrow> redis_server" where
  "acceptLoop p r s =
     (case r of
        None \<Rightarrow> s \<lparr> rv_conns := rv_conns s + 1, rv_wg := rv_wg s + 1 \<rparr>
      | Some err \<Rightarrow>
          end_thread p (if \<not> rv_running s then None else if errors_Is err ErrClosed then None else Some err) s)"

definition conn_done :: "redis_server \<Rightarrow> redis_server" where
  "conn_done s = s \<lparr> rv_conns := rv_conns s - 1, rv_wg := rv_wg s - 1 \<rparr>"

text \<open>\<open>Shutdown\<close>: clearing the flag, reading the listeners, closing them in order, and waiting for the goroutines or the end of
  the context.\<close>

definition shutdown_flag :: "redis_server \<Rightarrow> redis_server" where
  "shutdown_flag s = s \<lparr> rv_running := False, rv_shutdown := Flagged \<rparr>"

definition shutdown_read :: "redis_server \<Rightarrow> redis_server" where
  "shutdown_read s = s \<lparr> rv_shutdown := Closing (filter (rv_ln s) [PlainPort, TLSPort]) \<rparr>"

definition shutdown_close :: "(port \<Rightarrow> go_error option) \<Rightarrow> port list \<Rightarrow> redis_server \<Rightarrow> redis_server" where
  "shutdown_close r ps s =
     (let firstErr = foldl (\<lambda>e p. if e = None then r p else e) None ps in
      s \<lparr> rv_open := (\<lambda>p. rv_open s p \<and> p \<notin> set ps), rv_shutdown := Waiting firstErr \<rparr>)"

definition shutdown_wait :: "go_error option \<Rightarrow> go_error option \<Rightarrow> redis_server \<Rightarrow> redis_server" where
  "shutdown_wait ctxErr firstErr s =
     s \<lparr> rv_shutdown := (case ctxErr of Some err \<Rightarrow> TimedOut err | None \<Rightarrow> Finished firstErr) \<rparr>"

section \<open>Runs\<close>

text \<open>Accepting on a closed listener fails with \<open>ErrClosed\<close>. The channel \<open>done\<close> is closed when the wait group is at zero.\<close>

inductive redis_step :: "redis_server \<Rightarrow> redis_server \<Rightarrow> bool" where
  listen: "rv_thread s p = Starting \<Longrightarrow> redis_step s (start_listen p r s)"
| store: "rv_thread s p = Bound \<Longrightarrow> redis_step s (store_listener p s)"
| accept: "rv_thread s p = Accepting \<Longrightarrow> rv_open s p \<Longrightarrow> redis_step s (acceptLoop p r s)"
| refused: "rv_thread s p = Accepting \<Longrightarrow> \<not> rv_open s p \<Longrightarrow> redis_step s (acceptLoop p (Some ErrClosed) s)"
| served: "0 < rv_conns s \<Longrightarrow> redis_step s (conn_done s)"
| flag: "rv_shutdown s = NotCalled \<Longrightarrow> redis_step s (shutdown_flag s)"
| read: "rv_shutdown s = Flagged \<Longrightarrow> redis_step s (shutdown_read s)"
| close: "rv_shutdown s = Closing ps \<Longrightarrow> redis_step s (shutdown_close r ps s)"
| finish: "rv_shutdown s = Waiting err \<Longrightarrow> rv_wg s = 0 \<Longrightarrow> redis_step s (shutdown_wait None err s)"
| expire: "rv_shutdown s = Waiting err \<Longrightarrow> redis_step s (shutdown_wait (Some e) err s)"

inductive redis_reach :: "redis_config option \<Rightarrow> redis_server \<Rightarrow> bool" for cfg where
  started: "redis_reach cfg (fst (Redis_Start (redis_New cfg)))"
| stepped: "redis_reach cfg s \<Longrightarrow> redis_step s s' \<Longrightarrow> redis_reach cfg s'"

inductive_cases redis_stepE: "redis_step s s'"

lemmas redis_ops = start_listen_def end_thread_def store_listener_def acceptLoop_def conn_done_def shutdown_flag_def shutdown_read_def
  shutdown_close_def shutdown_wait_def

section \<open>Invariant\<close>

definition alive :: "accept_thread \<Rightarrow> int" where
  "alive t = (if t \<in> {Starting, Bound, Accepting} then 1 else 0)"

lemma alive_simps [simp]:
  "alive NotStarted = 0" "alive Starting = 1" "alive Bound = 1" "alive Accepting = 1" "alive (Ended e) = 0"
  by (simp_all add: alive_def)

lemma alive_nonneg: "0 \<le> alive t" by (simp add: alive_def)

lemma alive_zero: "alive t = 0 \<longleftrightarrow> t = NotStarted \<or> (\<exists>e. t = Ended e)" by (cases t) auto

text \<open>The wait group counts exactly the goroutines that have not ended, and a listener is stored only by a thread that goes on to
  accept.\<close>

definition redis_inv :: "redis_server \<Rightarrow> bool" where
  "redis_inv s \<longleftrightarrow> rv_wg s = alive (rv_thread s PlainPort) + alive (rv_thread s TLSPort) + int (rv_conns s) \<and>
     (\<forall>p. rv_thread s p = Bound \<longrightarrow> rv_open s p) \<and> (\<forall>p. rv_ln s p \<longrightarrow> rv_thread s p \<notin> {NotStarted, Starting, Bound}) \<and>
     (\<forall>p. rv_thread s p = Accepting \<longrightarrow> rv_ln s p) \<and>
     (\<forall>ps. rv_shutdown s = Closing ps \<longrightarrow> (\<forall>p\<in>set ps. rv_ln s p)) \<and>
     (rv_running s \<longrightarrow> rv_shutdown s = NotCalled) \<and> (\<forall>err. rv_shutdown s = Finished err \<longrightarrow> rv_wg s = 0)"

lemma Redis_Start_inv: "redis_inv (fst (Redis_Start (redis_New cfg)))"
  by (simp add: Redis_Start_def redis_New_def redis_inv_def Let_def)

lemma redis_inv_zero:
  assumes "redis_inv s" "rv_wg s = 0"
  shows "alive (rv_thread s p) = 0 \<and> rv_conns s = 0"
proof -
  have "alive (rv_thread s PlainPort) + alive (rv_thread s TLSPort) + int (rv_conns s) = 0" using assms by (simp add: redis_inv_def)
  moreover note alive_nonneg [of "rv_thread s PlainPort"] alive_nonneg [of "rv_thread s TLSPort"]
  ultimately have "alive (rv_thread s PlainPort) = 0" "alive (rv_thread s TLSPort) = 0" "rv_conns s = 0" by linarith+
  then show ?thesis by (cases p) simp_all
qed

lemma redis_inv_unfinished:
  assumes "redis_inv s" "alive (rv_thread s p) = 1 \<or> 0 < rv_conns s"
  shows "rv_shutdown s \<noteq> Finished err"
proof
  assume "rv_shutdown s = Finished err"
  with assms(1) have "rv_wg s = 0" by (simp add: redis_inv_def)
  with redis_inv_zero [OF assms(1), of p] assms(2) show False by simp
qed

text \<open>A thread moves on, or ends.\<close>

lemma redis_inv_end:
  assumes "redis_inv s" "alive (rv_thread s p) = 1"
  shows "redis_inv (end_thread p e s)"
  using assms redis_inv_unfinished [OF assms(1), of p] by (cases p) (auto simp: redis_inv_def end_thread_def)

lemma redis_inv_bound:
  assumes "redis_inv s" "rv_thread s p = Starting" "rv_open s p"
  shows "redis_inv (s \<lparr> rv_thread := (rv_thread s)(p := Bound) \<rparr>)"
  using assms redis_inv_unfinished [OF assms(1), of p] by (cases p) (auto simp: redis_inv_def)

lemma redis_inv_store:
  assumes "redis_inv s" "rv_thread s p = Bound"
  shows "redis_inv (store_listener p s)"
  using assms redis_inv_unfinished [OF assms(1), of p] by (cases p) (auto simp: redis_inv_def store_listener_def)

lemma redis_inv_open: "redis_inv s \<Longrightarrow> redis_inv (s \<lparr> rv_open := (rv_open s)(p := True) \<rparr>)"
  by (auto simp: redis_inv_def)

lemma redis_inv_close:
  assumes "redis_inv s" "rv_shutdown s = Closing ps"
  shows "redis_inv (shutdown_close r ps s)"
proof -
  have "p \<notin> set ps" if "rv_thread s p = Bound" for p using assms that by (auto simp: redis_inv_def)
  then show ?thesis using assms by (auto simp: redis_inv_def shutdown_close_def Let_def)
qed

lemma redis_inv_step: "redis_step s s' \<Longrightarrow> redis_inv s \<Longrightarrow> redis_inv s'"
proof (induction rule: redis_step.induct)
  case (listen s p r)
  then show ?case
    using redis_inv_end [of s p] redis_inv_bound [OF redis_inv_open, of s p p]
    by (auto simp: start_listen_def split: option.splits)
next
  case (store s p)
  then show ?case by (intro redis_inv_store)
next
  case (accept s p r)
  then have "\<forall>err. rv_shutdown s \<noteq> Finished err" using redis_inv_unfinished [of s p] by auto
  then have "redis_inv (acceptLoop p None s)" using accept by (simp add: acceptLoop_def redis_inv_def)
  then show ?case using accept redis_inv_end [of s p] by (cases r) (simp_all add: acceptLoop_def)
next
  case (refused s p)
  then show ?case using redis_inv_end [of s p] by (simp add: acceptLoop_def)
next
  case (served s)
  then have "\<forall>err. rv_shutdown s \<noteq> Finished err" using redis_inv_unfinished by blast
  with served show ?case by (auto simp: redis_inv_def conn_done_def)
next
  case (close s ps r)
  then show ?case using redis_inv_close by blast
qed (auto simp: redis_inv_def redis_ops)

lemma redis_reach_inv: "redis_reach cfg s \<Longrightarrow> redis_inv s"
  by (induction rule: redis_reach.induct) (auto intro: Redis_Start_inv redis_inv_step)

section \<open>Shutting down\<close>

lemma redis_finished_stuck: "redis_inv s \<Longrightarrow> rv_shutdown s = Finished err \<Longrightarrow> \<not> redis_step s s'"
proof
  assume I: "redis_inv s" and F: "rv_shutdown s = Finished err" and "redis_step s s'"
  from I F have "rv_wg s = 0" by (simp add: redis_inv_def)
  then have z: "alive (rv_thread s p) = 0" "rv_conns s = 0" for p using redis_inv_zero [OF I] by blast+
  from \<open>redis_step s s'\<close> show False
  proof (cases rule: redis_step.cases)
    case (listen p) then show False using z(1) [of p] by simp
  next
    case (store p) then show False using z(1) [of p] by simp
  next
    case (accept p) then show False using z(1) [of p] by simp
  next
    case (refused p) then show False using z(1) [of p] by simp
  qed (use F z(2) in simp_all)
qed

text \<open>No thread is on its way to store a listener, and once they are closed no thread accepts from an open one.\<close>

definition settled :: "redis_server \<Rightarrow> bool" where
  "settled s \<longleftrightarrow> (\<forall>p. rv_thread s p \<notin> {Starting, Bound} \<and> (rv_thread s p = Accepting \<longrightarrow> rv_ln s p)) \<and>
     (\<forall>ps p. rv_shutdown s = Closing ps \<and> rv_thread s p = Accepting \<longrightarrow> p \<in> set ps) \<and>
     (\<forall>p. rv_thread s p = Accepting \<and> rv_open s p \<longrightarrow> rv_shutdown s = NotCalled \<or> rv_shutdown s = Flagged \<or> (\<exists>ps. rv_shutdown s = Closing ps))"

lemma port_in: "p \<in> set (filter P [PlainPort, TLSPort]) \<longleftrightarrow> P p"
  by (cases p) auto

lemma settled_step: "redis_step s s' \<Longrightarrow> settled s \<Longrightarrow> settled s'"
proof (induction rule: redis_step.induct)
  case (read s)
  then show ?case using port_in [of _ "rv_ln s"] by (auto simp: settled_def shutdown_read_def simp del: filter.simps)
qed (auto simp: settled_def redis_ops Let_def split: option.splits if_splits)

text \<open>Once the listeners are closed, each step ends a goroutine or the shutdown.\<close>

definition closed_down :: "redis_server \<Rightarrow> bool" where
  "closed_down s \<longleftrightarrow> redis_inv s \<and> settled s \<and> \<not> rv_shutdown s = NotCalled \<and> \<not> rv_shutdown s = Flagged \<and> (\<forall>ps. rv_shutdown s \<noteq> Closing ps)"

definition left_to_do :: "redis_server \<Rightarrow> int" where
  "left_to_do s = rv_wg s + (if \<exists>err. rv_shutdown s = Waiting err then 1 else 0)"

lemma closed_down_step:
  assumes "redis_step s s'" "closed_down s"
  shows "closed_down s' \<and> left_to_do s = left_to_do s' + 1"
proof -
  have "redis_inv s'" "settled s'" using assms redis_inv_step settled_step by (auto simp: closed_down_def)
  with assms(2) have "closed_down s' \<longleftrightarrow> rv_shutdown s' \<noteq> NotCalled \<and> rv_shutdown s' \<noteq> Flagged \<and> (\<forall>ps. rv_shutdown s' \<noteq> Closing ps)"
    by (auto simp: closed_down_def)
  with assms(1) show ?thesis using assms(2)
    by (cases rule: redis_step.cases) (auto simp: closed_down_def settled_def left_to_do_def redis_ops split: option.splits)
qed

lemma closed_down_steps: "(redis_step ^^ n) s s' \<Longrightarrow> closed_down s \<Longrightarrow> closed_down s' \<and> left_to_do s = left_to_do s' + int n"
proof (induction n arbitrary: s')
  case (Suc n)
  then show ?case using closed_down_step by (fastforce elim!: relpowp_Suc_E)
qed simp

lemma closed_down_moves:
  assumes "closed_down s" "rv_shutdown s = Waiting err"
  shows "\<exists>s'. redis_step s s' \<and> (\<forall>e. rv_shutdown s' \<noteq> TimedOut e)"
proof -
  have I: "redis_inv s" "settled s" using assms by (auto simp: closed_down_def)
  consider "rv_wg s = 0" | "0 < rv_conns s" | "rv_wg s \<noteq> 0" "rv_conns s = 0" by blast
  then show ?thesis
  proof cases
    case 1
    then show ?thesis using redis_step.finish [OF assms(2)] by (auto simp: shutdown_wait_def)
  next
    case 2
    then show ?thesis using redis_step.served [of s] assms(2) by (auto simp: conn_done_def)
  next
    case 3
    then have "alive (rv_thread s PlainPort) \<noteq> 0 \<or> alive (rv_thread s TLSPort) \<noteq> 0" using I(1) by (auto simp: redis_inv_def)
    then obtain p where "alive (rv_thread s p) \<noteq> 0" by blast
    then have p: "rv_thread s p = Accepting" using I(2) by (auto simp: settled_def alive_def split: if_splits)
    with I assms have "\<not> rv_open s p" by (auto simp: settled_def closed_down_def)
    with redis_step.refused [OF p] assms(2) show ?thesis by (auto simp: acceptLoop_def end_thread_def)
  qed
qed

lemma left_to_do_nonneg: "redis_inv s \<Longrightarrow> 0 \<le> left_to_do s"
  using alive_nonneg by (simp add: left_to_do_def redis_inv_def)

lemma closed_down_from:
  assumes "redis_step\<^sup>*\<^sup>* s s'" "redis_inv s" "settled s" "rv_shutdown s' = Waiting err"
  shows "closed_down s'"
proof -
  have "redis_inv s' \<and> settled s'" using assms(1-3) by (induction) (auto dest: redis_inv_step settled_step)
  then show ?thesis using assms(4) by (simp add: closed_down_def)
qed

section \<open>Properties\<close>

text \<open>\<open>Shutdown\<close> that returns without the error of its context has stopped the server: in every reachable state where it has,
  no listener's goroutine runs, no connection is served, and nothing happens any more.\<close>

lemma redis_shutdown_complete:
  assumes "redis_reach cfg s" "rv_shutdown s = Finished err"
  shows "(\<forall>p. rv_thread s p = NotStarted \<or> (\<exists>e. rv_thread s p = Ended e)) \<and> rv_conns s = 0 \<and> (\<forall>s'. \<not> redis_step s s')"
proof -
  have I: "redis_inv s" by (rule redis_reach_inv [OF assms(1)])
  then have "rv_wg s = 0" using assms(2) by (simp add: redis_inv_def)
  then show ?thesis using redis_inv_zero [OF I] redis_finished_stuck [OF I assms(2)] alive_zero by blast
qed


text \<open>A shutdown that comes before the listener is stored misses it: with the plain port enabled there are runs in which
  \<open>Shutdown\<close> has returned with the error of its context, the listener is open, and any number of connections is being served.\<close>

lemma redis_shutdown_race:
  assumes "rsc_PlainEnabled cfg"
  shows "\<exists>s. redis_reach (Some cfg) s \<and> rv_shutdown s = TimedOut e \<and> rv_open s PlainPort \<and> rv_conns s = n"
proof -
  let ?s0 = "fst (Redis_Start (redis_New (Some cfg)))"
  let ?s1 = "start_listen PlainPort None ?s0"
  let ?s2 = "shutdown_wait (Some e) None (shutdown_close (\<lambda>_. None) [] (shutdown_read (shutdown_flag ?s1)))"
  let ?s3 = "store_listener PlainPort ?s2"
  have "rv_thread ?s0 PlainPort = Starting" "rv_shutdown ?s0 = NotCalled" "\<forall>p. \<not> rv_ln ?s0 p" "rv_conns ?s0 = 0"
    using assms by (simp_all add: Redis_Start_def redis_New_def Let_def)
  note f = this
  have "redis_reach (Some cfg) ?s1" by (rule stepped [OF started]) (rule redis_step.listen [OF f(1)])
  then have "redis_reach (Some cfg) (shutdown_flag ?s1)" by (rule stepped) (rule redis_step.flag, use f in \<open>simp add: start_listen_def\<close>)
  then have "redis_reach (Some cfg) (shutdown_read (shutdown_flag ?s1))"
    by (rule stepped) (auto intro: redis_step.read simp: shutdown_flag_def)
  then have "redis_reach (Some cfg) (shutdown_close (\<lambda>_. None) [] (shutdown_read (shutdown_flag ?s1)))"
    by (rule stepped) (rule redis_step.close, use f in \<open>simp add: redis_ops\<close>)
  then have "redis_reach (Some cfg) ?s2" by (rule stepped) (rule redis_step.expire, simp add: shutdown_close_def)
  then have r3: "redis_reach (Some cfg) ?s3" by (rule stepped) (rule redis_step.store, simp add: redis_ops)
  have "\<exists>s. redis_reach (Some cfg) s \<and> rv_shutdown s = TimedOut e \<and> rv_open s PlainPort \<and> rv_thread s PlainPort = Accepting \<and> rv_conns s = n"
  proof (induction n)
    case 0
    show ?case using r3 f by (intro exI [of _ ?s3]) (simp add: redis_ops)
  next
    case (Suc n)
    then obtain s where s: "redis_reach (Some cfg) s" "rv_shutdown s = TimedOut e" "rv_open s PlainPort" "rv_thread s PlainPort = Accepting"
      "rv_conns s = n" by blast
    have "redis_reach (Some cfg) (acceptLoop PlainPort None s)" by (rule stepped [OF s(1) redis_step.accept [OF s(4,3)]])
    then show ?case using s by (intro exI [of _ "acceptLoop PlainPort None s"]) (simp add: acceptLoop_def)
  qed
  then show ?thesis by blast
qed

text \<open>A server with the plain port that starts and is shut down.\<close>

abbreviation plain_config :: redis_config where
  "plain_config \<equiv> redis_DefaultConfig \<lparr> rsc_PlainEnabled := True \<rparr>"

lemma plain_run:
  obtains s1 s2 s3 where "redis_reach (Some plain_config) s1" "rv_shutdown s1 = NotCalled" "\<forall>p. rv_thread s1 p \<notin> {Starting, Bound}"
    "redis_step\<^sup>*\<^sup>* s1 s2" "rv_shutdown s2 = Waiting None" "(redis_step ^^ 2) s2 s3" "rv_shutdown s3 = Finished None"
    "redis_reach (Some plain_config) s3"
proof -
  let ?s0 = "fst (Redis_Start (redis_New (Some plain_config)))"
  let ?s1 = "store_listener PlainPort (start_listen PlainPort None ?s0)"
  let ?c = "shutdown_read (shutdown_flag ?s1)"
  let ?s2 = "shutdown_close (\<lambda>_. None) [PlainPort] ?c"
  let ?r = "acceptLoop PlainPort (Some ErrClosed) ?s2"
  let ?s3 = "shutdown_wait None None ?r"
  have f: "rv_thread ?s0 = (\<lambda>_. NotStarted)(PlainPort := Starting)" "rv_shutdown ?s0 = NotCalled" "rv_ln ?s0 = (\<lambda>_. False)" "rv_wg ?s0 = 1"
    by (simp_all add: Redis_Start_def redis_New_def redis_DefaultConfig_def Let_def)
  have st: "redis_step ?s0 (start_listen PlainPort None ?s0)" "redis_step (start_listen PlainPort None ?s0) ?s1"
    by (rule redis_step.listen redis_step.store, use f in \<open>simp add: start_listen_def\<close>)+
  then have 1: "redis_reach (Some plain_config) ?s1" by (rule stepped [OF stepped [OF started]])
  have a: "redis_step ?s1 (shutdown_flag ?s1)" by (rule redis_step.flag) (use f in \<open>simp add: start_listen_def store_listener_def\<close>)
  have b: "redis_step (shutdown_flag ?s1) ?c" by (rule redis_step.read) (simp add: shutdown_flag_def)
  have c: "redis_step ?c ?s2" by (rule redis_step.close) (use f in \<open>simp add: redis_ops\<close>)
  have d: "redis_step ?s2 ?r" by (rule redis_step.refused) (use f in \<open>simp_all add: redis_ops Let_def\<close>)
  have e: "redis_step ?r ?s3" by (rule redis_step.finish) (use f in \<open>simp_all add: redis_ops Let_def\<close>)
  have 2: "redis_step\<^sup>*\<^sup>* ?s1 ?s2" using a b c by (blast intro: rtranclp.rtrancl_into_rtrancl)
  have 3: "redis_reach (Some plain_config) ?s3" by (rule stepped [OF stepped [OF stepped [OF stepped [OF stepped [OF 1 a] b] c] d] e])
  have "(redis_step ^^ 2) ?s2 ?s3" using d e by (auto simp: numeral_2_eq_2 relcompp_apply)
  then show thesis
    by (intro that [of ?s1 ?s2 ?s3] 1 2 3) (use f in \<open>simp_all add: redis_ops Let_def\<close>)
qed

lemma redis_shutdown_complete_example:
  "\<exists>s. redis_reach (Some plain_config) s \<and> rv_conns s = 0 \<and> (\<forall>s'. \<not> redis_step s s')"
proof -
  obtain s1 s2 s3 where "rv_shutdown s3 = Finished None" "redis_reach (Some plain_config) s3" by (rule plain_run)
  with redis_shutdown_complete [of "Some plain_config" s3 None] show ?thesis by blast
qed


lemma redis_shutdown_race_example:
  "\<exists>s. redis_reach (Some plain_config) s \<and> rv_open s PlainPort \<and> rv_conns s = 3"
  using redis_shutdown_race [of plain_config "PlainError ''context deadline exceeded''" 3] by auto

end
