(* ===== verification/Server_Main.thy ===== *)
theory Server_Main
  imports Server_Config Http_Props Redis_Server
begin

text \<open>
  The server process, \<open>cmd/tokmesh-server/main.go\<close>: how the parts are put together and in which order they are
  stopped, with the shutdown handler of \<open>internal/infra/shutdown\<close>.

  Everything that the process meets outside (files, Raft, the member list, random bytes) is an argument. The flag
  that only prints the version, the build information and log lines are left out; creating the logger never fails.
\<close>

section \<open>Shutdown hooks\<close>

record 's shutdown_handler =
  sh_timeout :: int
  sh_hooks :: "('s \<Rightarrow> 's \<times> go_error option) list"

definition shutdown_NewHandler :: "int \<Rightarrow> 's shutdown_handler" where
  "shutdown_NewHandler timeout = \<lparr> sh_timeout = timeout, sh_hooks = [] \<rparr>"

definition OnShutdown :: "('s \<Rightarrow> 's \<times> go_error option) \<Rightarrow> 's shutdown_handler \<Rightarrow> 's shutdown_handler" where
  "OnShutdown hook h = h \<lparr> sh_hooks := sh_hooks h @ [hook] \<rparr>"

text \<open>What happens after the signal: the hooks from the last to the first; the last error is returned.\<close>

definition shutdown_Wait :: "'s shutdown_handler \<Rightarrow> 's \<Rightarrow> 's \<times> go_error option" where
  "shutdown_Wait h s =
     foldl (\<lambda>(s, lastErr) hook. case hook s of (s', err) \<Rightarrow> (s', if err \<noteq> None then err else lastErr)) (s, None) (rev (sh_hooks h))"

section \<open>Parts\<close>

record 'r boot =
  bt_koanf :: "server_config koanf_calls"
  bt_MkdirAll :: "string \<Rightarrow> go_error option"
  bt_hashes :: "(string \<Rightarrow> u64) \<times> (string \<Rightarrow> u64) \<times> (string \<Rightarrow> u64)"
  bt_os :: os_calls
  bt_walDir :: dir
  bt_snapDir :: dir
  bt_now :: int
  bt_random :: "go_error + bytes"
  bt_raft :: "'r raft_lib"
  bt_setup :: "'r raft_setup"
  bt_discovery :: discovery_setup

definition loadConfig :: "'r boot \<Rightarrow> string \<Rightarrow> go_error + server_config" where
  "loadConfig B configFile =
     (let loader = NewLoader (if configFile \<noteq> '''' then [WithConfigFile configFile] else []) in
      case snd (Loader_Load (bt_koanf B) loader config_Default) of
        Inl err \<Rightarrow> Inl err
      | Inr cfg \<Rightarrow>
          (case config_Verify (bt_MkdirAll B) cfg of
             Some err \<Rightarrow> Inl (WrapError ''invalid configuration'' err)
           | None \<Rightarrow> Inr cfg))"

text \<open>The configuration of the storage engine. The key for encryption is not passed on.\<close>

definition storage_config :: "server_config \<Rightarrow> engine_config" where
  "storage_config cfg =
     (let c = (engine_DefaultConfig (sto_DataDir (svc_Storage cfg))) \<lparr> ec_NodeID := cls_NodeID (svc_Cluster cfg) \<rparr>;
          c = (if sto_WALSyncInterval (svc_Storage cfg) > 0
               then c \<lparr> ec_WAL := (ec_WAL c) \<lparr> wc_SyncInterval := sto_WALSyncInterval (svc_Storage cfg) \<rparr> \<rparr> else c)
      in if sto_SnapshotKeep (svc_Storage cfg) > 0
         then c \<lparr> ec_Snapshot := (ec_Snapshot c) \<lparr> sc_RetentionCount := sto_SnapshotKeep (svc_Storage cfg) \<rparr> \<rparr> else c)"

definition initStorage :: "'r boot \<Rightarrow> server_config \<Rightarrow> go_error + engine" where
  "initStorage B cfg =
     (case bt_hashes B of
        (h1, h2, h3) \<Rightarrow> snd (Engine_New h1 h2 h3 (bt_os B) (bt_walDir B) (bt_snapDir B) (storage_config cfg)))"

definition initServices :: "token_service \<times> apikey_store auth_service" where
  "initServices = (NewTokenService None, NewAuthService NewAPIKeyStore None)"

text \<open>The HTTP server serves the handler as it is. The Redis server has no rate limit.\<close>

definition http_handler_of :: "('s, 'k, 'l, 'f) http_calls \<Rightarrow> ('s, 'k, 'l, 'f) http_state http_handler" where
  "http_handler_of C = Handler_ServeHTTP C"

definition redis_config_of :: "server_config \<Rightarrow> redis_config" where
  "redis_config_of cfg =
     \<lparr> rsc_PlainEnabled = True, rsc_PlainAddress = rdc_Addr (sv_Redis (svc_Server cfg)), rsc_TLSEnabled = False, rsc_TLSAddress = '''',
       rsc_TLSConfig = False, rsc_ReadTimeout = 0, rsc_WriteTimeout = 0, rsc_IdleTimeout = 0, rsc_RateLimit = 0 \<rparr>"

definition redis_handler_of :: "'f float64 \<Rightarrow> server_config \<Rightarrow> 's \<Rightarrow> 'k auth_service \<Rightarrow> ('s, 'k, 'f) command_handler" where
  "redis_handler_of F cfg sessions auth = NewCommandHandler F sessions auth (Some (rsc_RateLimit (redis_config_of cfg)))"

definition start_cluster :: "'r boot \<Rightarrow> server_config \<Rightarrow> engine \<Rightarrow> (go_error + 'r cluster_server) option" where
  "start_cluster B cfg storageEngine =
     (case ToClusterConfig (bt_random B) (Some cfg) (Some storageEngine) of
        Inl err \<Rightarrow> Some (Inl (WrapError ''create cluster config'' err))
      | Inr clusterCfg \<Rightarrow>
     (case NewServer clusterCfg of
        Inl err \<Rightarrow> Some (Inl (WrapError ''create cluster server'' err))
      | Inr s \<Rightarrow>
          map_option (\<lambda>(s', opened, err). case err of Some e \<Rightarrow> Inl (WrapError ''start cluster server'' e) | None \<Rightarrow> Inr s')
            (Server_Start (bt_raft B) (bt_setup B) (bt_discovery B) s)))"

section \<open>The process\<close>

record 'r node =
  nod_config :: server_config
  nod_engine :: engine
  nod_tokens :: token_service
  nod_auth :: "apikey_store auth_service"
  nod_cluster :: "'r cluster_server option"
  nod_redis :: "redis_server option"

definition start_redis :: "server_config \<Rightarrow> go_error + redis_server option" where
  "start_redis cfg =
     (if rdc_Enabled (sv_Redis (svc_Server cfg)) then
        (case Redis_Start (redis_New (Some (redis_config_of cfg))) of
           (s, Some err) \<Rightarrow> Inl (WrapError ''start redis server'' err)
         | (s, None) \<Rightarrow> Inr (Some s))
      else Inr None)"

text \<open>Up to the point where the HTTP server listens and the process waits for a signal; a panic is \<open>None\<close>.\<close>

definition run :: "'r boot \<Rightarrow> string \<Rightarrow> (go_error + 'r node) option" where
  "run B configFile =
     (case loadConfig B configFile of
        Inl err \<Rightarrow> Some (Inl (WrapError ''load config'' err))
      | Inr cfg \<Rightarrow>
     (case initStorage B cfg of
        Inl err \<Rightarrow> Some (Inl (WrapError ''init storage'' err))
      | Inr e0 \<Rightarrow>
     (case Recover (bt_os B) (bt_now B) e0 of
        (e, Some err) \<Rightarrow> Some (Inl (WrapError ''storage recovery'' err))
      | (e, None) \<Rightarrow>
          (let (tokens, auth) = initServices in
           case (if cls_NodeID (svc_Cluster cfg) \<noteq> '''' then map_option (map_sum id Some) (start_cluster B cfg e) else Some (Inr None)) of
             None \<Rightarrow> None
           | Some (Inl err) \<Rightarrow> Some (Inl err)
           | Some (Inr c) \<Rightarrow>
               Some (map_sum id
                 (\<lambda>r. \<lparr> nod_config = cfg, nod_engine = e, nod_tokens = tokens, nod_auth = auth, nod_cluster = c, nod_redis = r \<rparr>)
                 (start_redis cfg))))))"

datatype component = ClusterServer | RedisServer | HTTPServer | StorageEngine

text \<open>The hooks in the order in which they are registered.\<close>

definition register_hooks :: "server_config \<Rightarrow> (component \<Rightarrow> 's \<Rightarrow> 's \<times> go_error option) \<Rightarrow> 's shutdown_handler" where
  "register_hooks cfg stop =
     (let h = shutdown_NewHandler (30 * Second);
          h = (if cls_NodeID (svc_Cluster cfg) \<noteq> '''' then OnShutdown (stop ClusterServer) h else h);
          h = (if rdc_Enabled (sv_Redis (svc_Server cfg)) then OnShutdown (stop RedisServer) h else h)
      in OnShutdown (stop StorageEngine) (OnShutdown (stop HTTPServer) h))"

section \<open>A closed log stays closed\<close>

lemma writeLocked_closed: "writeLocked sys d w p = (d', w', err) \<Longrightarrow> W_closed w' = W_closed w"
  by (auto simp: writeLocked_def split: option.splits prod.splits if_splits)

lemma openNewSegment_closed: "openNewSegment sys d w = (d', w', err) \<Longrightarrow> W_closed w' = W_closed w"
  by (auto simp: openNewSegment_def writeHeaderLocked_def Let_def dest!: writeLocked_closed split: option.splits prod.splits if_splits)

lemma finalize_closed: "finalizeSegmentWithoutFlushingLocked sys d w = (d', w', err) \<Longrightarrow> W_closed w' = W_closed w"
  by (auto simp: finalizeSegmentWithoutFlushingLocked_def split: option.splits prod.splits)

lemma rotate_closed: "rotate sys d w = (d', w', err) \<Longrightarrow> W_closed w' = W_closed w"
  by (auto simp: rotate_def dest!: finalize_closed openNewSegment_closed split: option.splits prod.splits)

lemma write_batch_closed: "write_batch sys d w b = (d', w', err) \<Longrightarrow> W_closed w' = W_closed w"
  by (auto simp: write_batch_def Let_def dest!: writeLocked_closed split: option.splits prod.splits)

lemma flushLocked_closed: "flushLocked sys d w = (d', w', err) \<Longrightarrow> W_closed w' = W_closed w"
  by (auto simp: flushLocked_def Let_def dest!: rotate_closed write_batch_closed split: option.splits prod.splits if_splits)

lemma Writer_Close_closed: "Writer_Close sys d w = (d', w', err) \<Longrightarrow> W_closed w'"
  by (auto simp: Writer_Close_def finalizeSegmentLocked_def Let_def dest!: flushLocked_closed finalize_closed
      split: option.splits prod.splits if_splits)

lemma Engine_Close_closed: "W_closed (en_wal (fst (Engine_Close sys e)))"
  by (auto simp: Engine_Close_def dest: Writer_Close_closed split: prod.splits)

lemma log_then_closed:
  "W_closed (en_wal e) \<Longrightarrow> log_then sys e entry f = (e, Some (WrapError ''write wal'' (PlainError ''wal: writer is closed'')))"
  by (simp add: log_then_def Writer_Append_def)

section \<open>Properties\<close>

text \<open>C38: The order of the shutdown: the hooks run from the last registered to the first, so the storage engine is closed before
  the HTTP server, the Redis server and the cluster server stop. A session that a client creates or changes while those are still
  serving is refused with an error of the closed log, whatever the operating system does.\<close>

theorem shutdown_closes_storage_first:
  "fst (shutdown_Wait (register_hooks cfg (\<lambda>c stopped. (stopped @ [c], None))) []) =
     [StorageEngine, HTTPServer] @ (if rdc_Enabled (sv_Redis (svc_Server cfg)) then [RedisServer] else []) @
     (if cls_NodeID (svc_Cluster cfg) \<noteq> '''' then [ClusterServer] else []) \<and>
   Engine_Create sys' now (fst (Engine_Close sys e)) sess =
     (fst (Engine_Close sys e), Some (WrapError ''write wal'' (PlainError ''wal: writer is closed''))) \<and>
   Engine_Update sys' now (fst (Engine_Close sys e)) sess v =
     (fst (Engine_Close sys e), sess, Some (WrapError ''write wal'' (PlainError ''wal: writer is closed'')))"
proof (intro conjI)
  show "fst (shutdown_Wait (register_hooks cfg (\<lambda>c stopped. (stopped @ [c], None))) []) =
     [StorageEngine, HTTPServer] @ (if rdc_Enabled (sv_Redis (svc_Server cfg)) then [RedisServer] else []) @
     (if cls_NodeID (svc_Cluster cfg) \<noteq> '''' then [ClusterServer] else [])"
    by (simp add: register_hooks_def shutdown_NewHandler_def OnShutdown_def shutdown_Wait_def Let_def)
qed (simp_all add: Engine_Create_def Engine_Update_def log_then_closed [OF Engine_Close_closed])

text \<open>C39: The HTTP server of the process does not authenticate: with any headers, or none, a request that asks for the revocation of
  a session has its effect on the store.\<close>

theorem process_http_open:
  assumes "hr_Method rq = ''POST''" "hr_Segments rq = [''sessions'', i, ''revoke'']" "i \<noteq> ''''"
    and "SessionService_Revoke (hx_sessions C) (hx_now C) (hs_sessions s) i = (r, Inr b)"
  shows "\<exists>w'. http_handler_of C rq w s = Returned (s \<lparr> hs_sessions := r \<rparr>) w'"
  using assms
  by (simp add: http_handler_of_def Handler_ServeHTTP_def mux_ServeHTTP_def registerRoutes_def match_method_def handleRevokeSession_def
      Header_Get_def gm_get_set)

theorem process_http_open_witness:
  "\<exists>st s' w'. store_abs st ''tmss-1'' \<noteq> None \<and> store_abs (hs_sessions s') ''tmss-1'' = None \<and>
     http_handler_of (example_http store_session_repo store_token_repo) (revoke_request \<lparr> hr_Header := [] \<rparr>) fresh_response
       (example_state RoleMetrics st) = Returned s' w'"
proof -
  obtain st st' a where e: "store_abs st ''tmss-1'' \<noteq> None" "store_abs st' ''tmss-1'' = None"
    "SessionService_Revoke store_session_repo 0 st ''tmss-1'' = (st', Inr True)"
    "validate_request (example_http store_session_repo store_token_repo) (example_state RoleMetrics st) revoke_request
       (''tmak-1'', ''s'') = Some (a, Inr (APIKey_Touch 0 (role_key RoleMetrics)))"
    by (rule example_revoked)
  have "\<exists>w'. http_handler_of (example_http store_session_repo store_token_repo) (revoke_request \<lparr> hr_Header := [] \<rparr>) fresh_response
      (example_state RoleMetrics st) = Returned (example_state RoleMetrics st \<lparr> hs_sessions := st' \<rparr>) w'"
    using e(3) by (intro process_http_open [where i = "''tmss-1''" and b = True]) simp_all
  then show ?thesis using e(1,2)
    by (intro exI [of _ st] exI [of _ "example_state RoleMetrics st \<lparr> hs_sessions := st' \<rparr>"]) simp
qed

section \<open>A started node\<close>

lemma Engine_New_cfg:
  "Engine_New h1 h2 h3 sys wd sd cfg = (d, Inr e) \<Longrightarrow>
   ec_Cipher (en_cfg e) = ec_Cipher cfg \<and> wc_Cipher (ec_WAL (en_cfg e)) = ec_Cipher cfg \<and> sc_Cipher (ec_Snapshot (en_cfg e)) = ec_Cipher cfg"
  by (auto simp: Engine_New_def Let_def split: if_splits sum.splits prod.splits)

lemma Recover_cfg: "Recover sys now e = (e', r) \<Longrightarrow> en_cfg e' = en_cfg e"
  by (auto simp: Recover_def replayWAL_def Let_def split: sum.splits prod.splits if_splits)

lemma storage_config_Cipher: "ec_Cipher (storage_config cfg) = None"
  by (simp add: storage_config_def engine_DefaultConfig_def Let_def)

lemma start_cluster_open:
  assumes "start_cluster B cfg e = Some (Inr s)"
  shows "server_ok s \<and> cc_ClusterID (cs_config s) = '''' \<and> \<not> cc_TLSConfig (cs_config s)"
proof -
  obtain cc s0 op where c: "ToClusterConfig (bt_random B) (Some cfg) (Some e) = Inr cc" "NewServer cc = Inr s0"
    "Server_Start (bt_raft B) (bt_setup B) (bt_discovery B) s0 = Some (s, op, None)"
    using assms by (auto simp: start_cluster_def split: sum.splits option.splits)
  have "cc_ClusterID cc = ''''" "\<not> cc_TLSConfig cc" using c(1) by (auto simp: ToClusterConfig_def Let_def split: sum.splits if_splits)
  with c(2) have "cc_ClusterID (cs_config s0) = ''''" "\<not> cc_TLSConfig (cs_config s0)"
    by (auto simp: NewServer_def Config_validate_def Let_def split: sum.splits if_splits)
  then show ?thesis using Server_Start_ok [OF c(3)] NewServer_ok [OF c(2)] by auto
qed

text \<open>C35: What every process that started has: a configuration that passed the checks, a log and snapshots without a cipher even when
  an encryption key is set, no API keys, a Redis server exactly if it is enabled, which then has no rate limit, and a cluster
  server exactly if the node has an identifier, well-formed, without TLS and with the empty cluster identifier, which lets the
  nodes of other clusters in.\<close>

theorem started_node:
  assumes "run B configFile = Some (Inr n)"
  shows "config_Verify (bt_MkdirAll B) (nod_config n) = None \<and>
    wc_Cipher (ec_WAL (en_cfg (nod_engine n))) = None \<and> sc_Cipher (ec_Snapshot (en_cfg (nod_engine n))) = None \<and>
    as_repo (nod_auth n) = NewAPIKeyStore \<and>
    (nod_redis n \<noteq> None \<longleftrightarrow> rdc_Enabled (sv_Redis (svc_Server (nod_config n)))) \<and>
    h_rateLimiter (redis_handler_of F (nod_config n) sessions (nod_auth n)) = None \<and>
    (case nod_cluster n of
       None \<Rightarrow> cls_NodeID (svc_Cluster (nod_config n)) = ''''
     | Some s \<Rightarrow> cls_NodeID (svc_Cluster (nod_config n)) \<noteq> '''' \<and> server_ok s \<and> cc_ClusterID (cs_config s) = '''' \<and>
         \<not> cc_TLSConfig (cs_config s))"
proof -
  obtain cfg e0 e where r: "loadConfig B configFile = Inr cfg" "initStorage B cfg = Inr e0" "Recover (bt_os B) (bt_now B) e0 = (e, None)"
    using assms by (auto simp: run_def split: sum.splits prod.splits option.splits)
  obtain d h1 h2 h3 where h: "Engine_New h1 h2 h3 (bt_os B) (bt_walDir B) (bt_snapDir B) (storage_config cfg) = (d, Inr e0)"
    using r(2) by (cases "bt_hashes B") (auto simp: initStorage_def prod_eq_iff intro: that)
  have v: "config_Verify (bt_MkdirAll B) cfg = None" using r(1) by (auto simp: loadConfig_def Let_def split: sum.splits option.splits)
  have c: "wc_Cipher (ec_WAL (en_cfg e)) = None" "sc_Cipher (ec_Snapshot (en_cfg e)) = None"
    using Engine_New_cfg [OF h] Recover_cfg [OF r(3)] storage_config_Cipher by simp_all
  have f: "nod_config n = cfg" "nod_engine n = e" "as_repo (nod_auth n) = NewAPIKeyStore"
    "nod_cluster n = None \<and> cls_NodeID (svc_Cluster cfg) = '''' \<or>
     (\<exists>s. nod_cluster n = Some s \<and> cls_NodeID (svc_Cluster cfg) \<noteq> '''' \<and> start_cluster B cfg e = Some (Inr s))"
    "nod_redis n \<noteq> None \<longleftrightarrow> rdc_Enabled (sv_Redis (svc_Server cfg))"
    using assms r
    by (auto simp: run_def initServices_def NewAuthService_def Let_def map_sum_Inr start_redis_def split: if_splits option.splits sum.splits prod.splits)
  have rl: "h_rateLimiter (redis_handler_of F cfg sessions (nod_auth n)) = None"
    by (simp add: redis_handler_of_def redis_config_of_def NewCommandHandler_def)
  from f(4) show ?thesis
  proof (elim disjE exE)
    assume "nod_cluster n = None \<and> cls_NodeID (svc_Cluster cfg) = ''''"
    then show ?thesis using v c f(1-3,5) rl by simp
  next
    fix s assume "nod_cluster n = Some s \<and> cls_NodeID (svc_Cluster cfg) \<noteq> '''' \<and> start_cluster B cfg e = Some (Inr s)"
    then show ?thesis using v c f(1-3,5) rl start_cluster_open [of B cfg e s] by simp
  qed
qed

text \<open>A node with the default configuration, an encryption key and an empty directory.\<close>

definition demo_boot :: "(string \<times> string) list boot" where
  "demo_boot =
     \<lparr> bt_koanf = \<lparr> kf_LoadFile = (\<lambda>p. None), kf_LoadEnv = None,
                     kf_Unmarshal = (\<lambda>c. Inr (c \<lparr> svc_Security := (svc_Security c) \<lparr> sec_EncryptionKey := ''secret'' \<rparr> \<rparr>)) \<rparr>,
       bt_MkdirAll = (\<lambda>p. None), bt_hashes = (\<lambda>_. 0, \<lambda>_. 0, \<lambda>_. 0), bt_os = os_ok, bt_walDir = [], bt_snapDir = [], bt_now = 0,
       bt_random = Inr [], bt_raft = demo_raft, bt_setup = demo_setup, bt_discovery = demo_discovery \<rparr>"

lemma demo_boot_config:
  obtains cfg where "loadConfig demo_boot '''' = Inr cfg" "engine_cfg_ok (storage_config cfg)" "cls_NodeID (svc_Cluster cfg) = ''''"
    "sec_EncryptionKey (svc_Security cfg) = ''secret''" "\<not> rdc_Enabled (sv_Redis (svc_Server cfg))"
proof
  let ?c = "config_Default \<lparr> svc_Security := (svc_Security config_Default) \<lparr> sec_EncryptionKey := ''secret'' \<rparr> \<rparr>"
  show "loadConfig demo_boot '''' = Inr ?c"
    by (simp add: loadConfig_def demo_boot_def Loader_Load_def NewLoader_def config_Default_def config_Verify_def verifyServer_def
        verifyStorage_def)
  show "engine_cfg_ok (storage_config ?c)" "cls_NodeID (svc_Cluster ?c) = ''''" "sec_EncryptionKey (svc_Security ?c) = ''secret''"
    "\<not> rdc_Enabled (sv_Redis (svc_Server ?c))"
    by (simp_all add: engine_cfg_ok_def storage_config_def config_Default_def engine_DefaultConfig_def wal_DefaultConfig_def
        snap_DefaultConfig_def zero_cluster_section_def Let_def)
qed

lemma demo_boot_starts:
  obtains n where "run demo_boot '''' = Some (Inr n)" "sec_EncryptionKey (svc_Security (nod_config n)) = ''secret''"
proof -
  obtain cfg where c: "loadConfig demo_boot '''' = Inr cfg" "engine_cfg_ok (storage_config cfg)" "cls_NodeID (svc_Cluster cfg) = ''''"
    "sec_EncryptionKey (svc_Security cfg) = ''secret''" "\<not> rdc_Enabled (sv_Redis (svc_Server cfg))"
    by (rule demo_boot_config)
  have empty: "log_closed [] []" by (simp add: log_closed_def fun_eq_iff)
  obtain e where e: "Engine_New (\<lambda>_. 0) (\<lambda>_. 0) (\<lambda>_. 0) os_ok [] [] (storage_config cfg) = (en_walDir e, Inr e)"
    "log_state (en_walDir e) (en_wal e) [] []" "en_snapDir e = []" "wc_Cipher (ec_WAL (en_cfg e)) = ec_Cipher (storage_config cfg)"
    by (rule Engine_New_ok [OF c(2) empty, of "\<lambda>_. 0" "\<lambda>_. 0" "\<lambda>_. 0" "[]"]) auto
  obtain e' k where "Recover os_ok 0 e = (e', None)"
    using Recover_log [OF e(2,4,3), of "[]" 0] by (auto simp: log_frames_def)
  moreover have "initStorage demo_boot cfg = Inr e" using e(1) by (simp add: initStorage_def demo_boot_def)
  ultimately show thesis
    using c by (intro that) (auto simp: run_def Let_def initServices_def demo_boot_def start_redis_def)
qed

theorem started_node_witness:
  "\<exists>n. run demo_boot '''' = Some (Inr n) \<and> sec_EncryptionKey (svc_Security (nod_config n)) = ''secret'' \<and>
     wc_Cipher (ec_WAL (en_cfg (nod_engine n))) = None"
proof -
  obtain n where n: "run demo_boot '''' = Some (Inr n)" "sec_EncryptionKey (svc_Security (nod_config n)) = ''secret''"
    by (rule demo_boot_starts)
  have "wc_Cipher (ec_WAL (en_cfg (nod_engine n))) = None"
    using started_node [OF n(1), of "hx_float (example_http store_session_repo store_token_repo)" "()"] by blast
  with n show ?thesis by blast
qed

end
