(* ===== verification/Cli_Client.thy ===== *)
theory Cli_Client
  imports Server_Main
begin

text \<open>
  The command line client: the HTTP client of \<open>cli/connection/http.go\<close> and the commands of \<open>cli/command\<close> that talk to a
  server. A command gets the values of its flags and arguments, the line that the user types where it asks, and the network; it
  leaves the state of the server, what it printed, and its error.

  The network, the parsing of flags and the output formats (aligned columns, indented JSON, YAML, times and floating-point numbers)
  are parameters.
\<close>

section \<open>The HTTP client\<close>

record client_request =
  crq_Method :: string
  crq_URL :: string
  crq_Header :: header
  crq_Body :: "bytes option"

record 's client_calls =
  cl_NewRequest :: "string \<Rightarrow> go_error option"
  cl_Do :: "client_request \<Rightarrow> 's \<Rightarrow> 's \<times> (go_error + int \<times> bytes)"

record http_client =
  hcl_baseURL :: string
  hcl_apiKeyID :: string
  hcl_apiKey :: string

definition NewHTTPClient :: "string \<Rightarrow> string \<Rightarrow> string \<Rightarrow> http_client" where
  "NewHTTPClient server apiKeyID apiKey =
     \<lparr> hcl_baseURL = (if \<not> HasPrefix server ''http://'' \<and> \<not> HasPrefix server ''https://'' then ''http://'' @ server else server),
       hcl_apiKeyID = apiKeyID, hcl_apiKey = apiKey \<rparr>"

definition addHeaders :: "http_client \<Rightarrow> header \<Rightarrow> header" where
  "addHeaders c h =
     gm_set ''User-Agent'' ''tokmesh-cli/1.0''
       (if hcl_apiKeyID c \<noteq> '''' \<and> hcl_apiKey c \<noteq> ''''
        then gm_set ''X-API-Key'' (hcl_apiKey c) (gm_set ''X-API-Key-ID'' (hcl_apiKeyID c) h) else h)"

definition HTTPClient_Get :: "'s client_calls \<Rightarrow> http_client \<Rightarrow> string \<Rightarrow> 's \<Rightarrow> 's \<times> (go_error + int \<times> bytes)" where
  "HTTPClient_Get N c path s =
     (case cl_NewRequest N (hcl_baseURL c @ path) of
        Some err \<Rightarrow> (s, Inl (WrapError ''create request'' err))
      | None \<Rightarrow> cl_Do N \<lparr> crq_Method = ''GET'', crq_URL = hcl_baseURL c @ path, crq_Header = addHeaders c [], crq_Body = None \<rparr> s)"

definition HTTPClient_Post :: "'s client_calls \<Rightarrow> http_client \<Rightarrow> string \<Rightarrow> json option \<Rightarrow> 's \<Rightarrow> 's \<times> (go_error + int \<times> bytes)" where
  "HTTPClient_Post N c path body s =
     (case cl_NewRequest N (hcl_baseURL c @ path) of
        Some err \<Rightarrow> (s, Inl (WrapError ''create request'' err))
      | None \<Rightarrow>
          cl_Do N \<lparr> crq_Method = ''POST'', crq_URL = hcl_baseURL c @ path,
                     crq_Header = (let h = addHeaders c [] in if body \<noteq> None then gm_set ''Content-Type'' ''application/json'' h else h),
                     crq_Body = map_option (\<lambda>j. bytes_of_string (json_text j)) body \<rparr> s)"

text \<open>The members \<open>code\<close> and \<open>message\<close> of an error, and the reply into the target of the caller.\<close>

definition error_field :: "string \<Rightarrow> json \<Rightarrow> string \<times> string \<Rightarrow> go_error + string \<times> string" where
  "error_field n v e =
     (if n = ''code'' then map_sum id (\<lambda>x. (x, snd e)) (dec_string v (fst e)) else map_sum id (\<lambda>x. (fst e, x)) (dec_string v (snd e)))"

definition ParseResponse :: "int \<times> bytes \<Rightarrow> (json \<Rightarrow> go_error + 'a) option \<Rightarrow> 'a \<Rightarrow> go_error + 'a" where
  "ParseResponse resp target zero =
     (if fst resp \<ge> 400 then
        (case json_Decode (\<lambda>v. dec_struct [''code'', ''message''] error_field v ('''', '''')) (snd resp) of
           Inr (code, message) \<Rightarrow>
             if message \<noteq> '''' then Inl (PlainError (''['' @ code @ ''] '' @ message))
             else Inl (PlainError (''request failed with status '' @ FormatInt (fst resp)))
         | Inl _ \<Rightarrow> Inl (PlainError (''request failed with status '' @ FormatInt (fst resp))))
      else
        (case target of
           None \<Rightarrow> Inr zero
         | Some dec \<Rightarrow> map_sum (WrapError ''parse response'') id (json_Decode dec (snd resp))))"

section \<open>Flags and output\<close>

record cli_context =
  ct_String :: "string \<Rightarrow> string"
  ct_Int :: "string \<Rightarrow> int"
  ct_Bool :: "string \<Rightarrow> bool"
  ct_Duration :: "string \<Rightarrow> int"
  ct_StringSlice :: "string \<Rightarrow> string list"
  ct_First :: string
  ct_Scanln :: string

record global_flags =
  gf_Server :: string
  gf_APIKeyID :: string
  gf_APIKey :: string
  gf_Output :: string
  gf_Wide :: bool
  gf_Verbose :: bool

definition ParseGlobalFlags :: "cli_context \<Rightarrow> global_flags" where
  "ParseGlobalFlags c =
     \<lparr> gf_Server = ct_String c ''server'', gf_APIKeyID = ct_String c ''api-key-id'', gf_APIKey = ct_String c ''api-key'',
       gf_Output = ct_String c ''output'', gf_Wide = ct_Bool c ''wide'', gf_Verbose = ct_Bool c ''verbose'' \<rparr>"

definition EnsureConnected :: "cli_context \<Rightarrow> http_client" where
  "EnsureConnected c =
     (let flags = ParseGlobalFlags c in NewHTTPClient (gf_Server flags) (gf_APIKeyID flags) (gf_APIKey flags))"

text \<open>What is printed, with the marks that the client prints in UTF-8, and formats.\<close>

record 'f cli_output =
  out_float :: "'f float64"
  out_Format :: "string \<Rightarrow> bool \<Rightarrow> json \<Rightarrow> string \<times> go_error option"
  out_Table :: "string list list \<Rightarrow> string"
  out_time :: "json \<Rightarrow> (string \<times> string) option"
  out_number :: "nat \<Rightarrow> string \<Rightarrow> string"

type_synonym 's cli_result = "'s \<times> string \<times> go_error option"

abbreviation nl :: string where "nl \<equiv> [CHR 0x0A]"
abbreviation warning_mark :: string where
  "warning_mark \<equiv> [CHR 0xE2, CHR 0x9A, CHR 0xA0, CHR 0xEF, CHR 0xB8, CHR 0x8F]"
abbreviation check_mark :: string where "check_mark \<equiv> [CHR 0xE2, CHR 0x9C, CHR 0x93]"
abbreviation cross_mark :: string where "cross_mark \<equiv> [CHR 0xE2, CHR 0x9C, CHR 0x97]"
abbreviation quoted :: "string \<Rightarrow> string" where "quoted s \<equiv> [CHR 0x27] @ s @ [CHR 0x27]"

definition truncateID :: "string \<Rightarrow> string" where
  "truncateID i = (if length i \<le> 16 then i else take 13 i @ ''...'')"

text \<open>A request, the reading of its reply, and what the command does with it; what was printed before stays.\<close>

definition with_reply ::
  "'s \<times> (go_error + int \<times> bytes) \<Rightarrow> (json \<Rightarrow> go_error + 'a) option \<Rightarrow> 'a \<Rightarrow> string \<Rightarrow> ('a \<Rightarrow> string \<times> go_error option) \<Rightarrow> 's cli_result" where
  "with_reply resp target zero before cont =
     (case resp of
        (s, Inl err) \<Rightarrow> (s, before, Some (WrapError ''request failed'' err))
      | (s, Inr r) \<Rightarrow>
          (case ParseResponse r target zero of
             Inl err \<Rightarrow> (s, before, Some err)
           | Inr x \<Rightarrow> (case cont x of (after, err) \<Rightarrow> (s, before @ after, err))))"

text \<open>The question before a dangerous command: what is printed, and whether to go on.\<close>

definition confirm_yes :: "cli_context \<Rightarrow> string \<Rightarrow> string \<times> bool" where
  "confirm_yes c question =
     (if ct_Bool c ''force'' then ('''', True)
      else if ct_Scanln c \<noteq> ''y'' \<and> ct_Scanln c \<noteq> ''Y'' then (question @ ''Cancelled.'' @ nl, False)
      else (question, True))"

definition dec_any :: "json \<Rightarrow> go_error + json" where
  "dec_any v = (case v of JObj ms \<Rightarrow> Inr v | JNull \<Rightarrow> Inr (JObj []) | _ \<Rightarrow> Inl json_type_error)"

section \<open>Session commands\<close>

definition list_params :: "cli_context \<Rightarrow> string list" where
  "list_params c =
     (if ct_String c ''user-id'' \<noteq> '''' then [''user_id='' @ ct_String c ''user-id''] else []) @
     (if ct_Int c ''page'' > 0 then [''page='' @ FormatInt (ct_Int c ''page'')] else []) @
     (if ct_Int c ''page-size'' > 0 then [''page_size='' @ FormatInt (ct_Int c ''page-size'')] else [])"

fun join_params :: "string list \<Rightarrow> string" where
  "join_params [] = ''''"
| "join_params [p] = p"
| "join_params (p # ps) = p @ ''&'' @ join_params ps"

text \<open>A time is kept as the text of its JSON form and as it is shown.\<close>

type_synonym shown_time = "string \<times> string"

record session_item =
  si_ID :: string
  si_UserID :: string
  si_CreatedAt :: shown_time
  si_ExpiresAt :: shown_time

abbreviation zero_time :: shown_time where "zero_time \<equiv> (''0001-01-01T00:00:00Z'', ''0001-01-01 00:00'')"

definition dec_time :: "'f cli_output \<Rightarrow> json \<Rightarrow> shown_time \<Rightarrow> go_error + shown_time" where
  "dec_time W v old = (if v = JNull then Inr old else case out_time W v of None \<Rightarrow> Inl json_type_error | Some t \<Rightarrow> Inr t)"

definition session_item_field :: "'f cli_output \<Rightarrow> string \<Rightarrow> json \<Rightarrow> session_item \<Rightarrow> go_error + session_item" where
  "session_item_field W n v i =
     (if n = ''id'' then map_sum id (\<lambda>x. i \<lparr> si_ID := x \<rparr>) (dec_string v (si_ID i))
      else if n = ''user_id'' then map_sum id (\<lambda>x. i \<lparr> si_UserID := x \<rparr>) (dec_string v (si_UserID i))
      else if n = ''created_at'' then map_sum id (\<lambda>x. i \<lparr> si_CreatedAt := x \<rparr>) (dec_time W v (si_CreatedAt i))
      else map_sum id (\<lambda>x. i \<lparr> si_ExpiresAt := x \<rparr>) (dec_time W v (si_ExpiresAt i)))"

definition session_item_json :: "session_item \<Rightarrow> json" where
  "session_item_json i = JObj [(''id'', JStr (si_ID i)), (''user_id'', JStr (si_UserID i)), (''created_at'', JStr (fst (si_CreatedAt i))),
     (''expires_at'', JStr (fst (si_ExpiresAt i)))]"

text \<open>A slice that is nil is \<open>None\<close>; its JSON is null.\<close>

definition dec_nil_slice :: "(json \<Rightarrow> go_error + 'a) \<Rightarrow> json \<Rightarrow> go_error + 'a list option" where
  "dec_nil_slice dec v = (if v = JNull then Inr None else map_sum id Some (dec_slice dec v))"

definition json_slice :: "('a \<Rightarrow> json) \<Rightarrow> 'a list option \<Rightarrow> json" where
  "json_slice f l = (case l of None \<Rightarrow> JNull | Some xs \<Rightarrow> JArr (map f xs))"

abbreviation items_of :: "'a list option \<Rightarrow> 'a list" where
  "items_of l \<equiv> case l of None \<Rightarrow> [] | Some xs \<Rightarrow> xs"

definition dec_session_list :: "'f cli_output \<Rightarrow> json \<Rightarrow> go_error + session_item list option \<times> int" where
  "dec_session_list W v = dec_struct [''items'', ''total'']
     (\<lambda>n x r. if n = ''items'' then
                map_sum id (\<lambda>l. (l, snd r))
                  (dec_nil_slice (\<lambda>y. dec_struct [''id'', ''user_id'', ''created_at'', ''expires_at''] (session_item_field W) y
                     \<lparr> si_ID = '''', si_UserID = '''', si_CreatedAt = zero_time, si_ExpiresAt = zero_time \<rparr>) x)
              else map_sum id (\<lambda>t. (fst r, t)) (dec_int64 x (snd r))) v (None, 0)"

definition outputSessions :: "'f cli_output \<Rightarrow> global_flags \<Rightarrow> session_item list option \<Rightarrow> int \<Rightarrow> string \<times> go_error option" where
  "outputSessions W flags items n =
     (if gf_Output flags = ''json'' then out_Format W ''json'' False (json_slice session_item_json items)
      else
        (out_Table W ([''SESSION ID'', ''USER ID'', ''CREATED'', ''EXPIRES''] #
           map (\<lambda>i. [truncateID (si_ID i), si_UserID i, snd (si_CreatedAt i), snd (si_ExpiresAt i)]) (items_of items)) @
         nl @ ''Total: '' @ FormatInt n @ '' sessions'' @ nl, None))"

definition sessionList :: "'f cli_output \<Rightarrow> 's client_calls \<Rightarrow> cli_context \<Rightarrow> 's \<Rightarrow> 's cli_result" where
  "sessionList W N c s =
     (let params = list_params c;
          path = (if params = [] then ''/sessions'' else ''/sessions?'' @ join_params params)
      in with_reply (HTTPClient_Get N (EnsureConnected c) path s) (Some (dec_session_list W)) (None, 0) ''''
           (\<lambda>(items, n). outputSessions W (ParseGlobalFlags c) items n))"

definition sessionGet :: "'f cli_output \<Rightarrow> 's client_calls \<Rightarrow> cli_context \<Rightarrow> 's \<Rightarrow> 's cli_result" where
  "sessionGet W N c s =
     (if ct_First c = '''' then (s, '''', Some (PlainError ''session ID required''))
      else
        with_reply (HTTPClient_Get N (EnsureConnected c) (''/sessions/'' @ ct_First c) s) (Some dec_any) (JObj []) ''''
          (\<lambda>j. out_Format W (gf_Output (ParseGlobalFlags c)) (gf_Wide (ParseGlobalFlags c)) j))"

text \<open>\<open>KEY=VALUE\<close>; what has no equals sign is passed over.\<close>

definition parse_data :: "string list \<Rightarrow> (string, string) gomap" where
  "parse_data flags =
     foldl (\<lambda>m d. if CHR ''='' \<in> set d
                  then gm_set (takeWhile (\<lambda>x. x \<noteq> CHR ''='') d) (drop 1 (dropWhile (\<lambda>x. x \<noteq> CHR ''='') d)) m else m) [] flags"

abbreviation ttl_seconds :: "'f cli_output \<Rightarrow> cli_context \<Rightarrow> json" where
  "ttl_seconds W c \<equiv> JInt (fl_int64 (out_float W) (fl_Seconds (out_float W) (ct_Duration c ''ttl'')))"

definition dec_pair :: "string \<Rightarrow> string \<Rightarrow> json \<Rightarrow> go_error + string \<times> string" where
  "dec_pair a b v = dec_struct [a, b]
     (\<lambda>n x p. if n = a then map_sum id (\<lambda>y. (y, snd p)) (dec_string x (fst p)) else map_sum id (\<lambda>y. (fst p, y)) (dec_string x (snd p)))
     v ('''', '''')"

definition created_text :: "string \<times> string \<Rightarrow> string" where
  "created_text p =
     ''Session created successfully:'' @ nl @ ''  Session ID: '' @ fst p @ nl @ ''  Token:      '' @ snd p @ nl @
     nl @ warning_mark @ ''  Save this token - it cannot be retrieved later.'' @ nl"

definition sessionCreate :: "'f cli_output \<Rightarrow> 's client_calls \<Rightarrow> cli_context \<Rightarrow> 's \<Rightarrow> 's cli_result" where
  "sessionCreate W N c s =
     (let body = JObj ((if ct_StringSlice c ''data'' \<noteq> [] then [(''data'', json_strmap (Some (parse_data (ct_StringSlice c ''data''))))] else []) @
                       [(''ttl_seconds'', ttl_seconds W c), (''user_id'', JStr (ct_String c ''user-id''))])
      in with_reply (HTTPClient_Post N (EnsureConnected c) ''/sessions'' (Some body) s) (Some (dec_pair ''session_id'' ''token'')) ('''', '''') ''''
           (\<lambda>p. (created_text p, None)))"

definition sessionRenew :: "'f cli_output \<Rightarrow> 's client_calls \<Rightarrow> cli_context \<Rightarrow> 's \<Rightarrow> 's cli_result" where
  "sessionRenew W N c s =
     (if ct_First c = '''' then (s, '''', Some (PlainError ''session ID required''))
      else
        with_reply
          (HTTPClient_Post N (EnsureConnected c) (''/sessions/'' @ ct_First c @ ''/renew'')
             (Some (JObj (if ct_Duration c ''ttl'' > 0 then [(''ttl_seconds'', ttl_seconds W c)] else []))) s)
          (Some dec_any) (JObj []) '''' (\<lambda>j. (''Session '' @ truncateID (ct_First c) @ '' renewed successfully.'' @ nl, None)))"

definition sessionRevoke :: "'s client_calls \<Rightarrow> cli_context \<Rightarrow> 's \<Rightarrow> 's cli_result" where
  "sessionRevoke N c s =
     (if ct_First c = '''' then (s, '''', Some (PlainError ''session ID required''))
      else
        (case confirm_yes c (''Are you sure you want to revoke session '' @ quoted (truncateID (ct_First c)) @ ''? [y/N]: '') of
           (printed, False) \<Rightarrow> (s, printed, None)
         | (printed, True) \<Rightarrow>
             with_reply (HTTPClient_Post N (EnsureConnected c) (''/sessions/'' @ ct_First c @ ''/revoke'') None s) None () printed
               (\<lambda>_. (''Session '' @ truncateID (ct_First c) @ '' revoked successfully.'' @ nl, None))))"

definition dec_count :: "string \<Rightarrow> json \<Rightarrow> go_error + int" where
  "dec_count n v = dec_struct [n] (\<lambda>_ x old. dec_int64 x old) v 0"

definition sessionRevokeAll :: "'s client_calls \<Rightarrow> cli_context \<Rightarrow> 's \<Rightarrow> 's cli_result" where
  "sessionRevokeAll N c s =
     (let userID = ct_First c;
          question = ''This will revoke all sessions for user '' @ quoted userID @ ''. Type '' @ quoted userID @ '' to confirm: '' in
      if userID = '''' then (s, '''', Some (PlainError ''user ID required''))
      else if \<not> ct_Bool c ''force'' \<and> ct_Scanln c \<noteq> userID then (s, question @ ''Cancelled.'' @ nl, None)
      else
        with_reply (HTTPClient_Post N (EnsureConnected c) (''/users/'' @ userID @ ''/sessions/revoke'') None s)
          (Some (dec_count ''revoked_count'')) 0 (if ct_Bool c ''force'' then '''' else question)
          (\<lambda>n. (FormatInt n @ '' sessions revoked for user '' @ quoted userID @ ''.'' @ nl, None)))"

section \<open>API key commands\<close>

record key_item =
  ki_KeyID :: string
  ki_Name :: string
  ki_Role :: string
  ki_Status :: string
  ki_Description :: string
  ki_RateLimit :: int

definition key_item_field :: "string \<Rightarrow> json \<Rightarrow> key_item \<Rightarrow> go_error + key_item" where
  "key_item_field n v i =
     (if n = ''key_id'' then map_sum id (\<lambda>x. i \<lparr> ki_KeyID := x \<rparr>) (dec_string v (ki_KeyID i))
      else if n = ''name'' then map_sum id (\<lambda>x. i \<lparr> ki_Name := x \<rparr>) (dec_string v (ki_Name i))
      else if n = ''role'' then map_sum id (\<lambda>x. i \<lparr> ki_Role := x \<rparr>) (dec_string v (ki_Role i))
      else if n = ''status'' then map_sum id (\<lambda>x. i \<lparr> ki_Status := x \<rparr>) (dec_string v (ki_Status i))
      else if n = ''description'' then map_sum id (\<lambda>x. i \<lparr> ki_Description := x \<rparr>) (dec_string v (ki_Description i))
      else map_sum id (\<lambda>x. i \<lparr> ki_RateLimit := x \<rparr>) (dec_int64 v (ki_RateLimit i)))"

definition key_item_json :: "key_item \<Rightarrow> json" where
  "key_item_json i = JObj [(''key_id'', JStr (ki_KeyID i)), (''name'', JStr (ki_Name i)), (''role'', JStr (ki_Role i)),
     (''status'', JStr (ki_Status i)), (''description'', JStr (ki_Description i)), (''rate_limit'', JInt (ki_RateLimit i))]"

definition dec_key_list :: "json \<Rightarrow> go_error + key_item list option" where
  "dec_key_list v = dec_struct [''keys'']
     (\<lambda>n x r. dec_nil_slice (\<lambda>y. dec_struct [''key_id'', ''name'', ''role'', ''status'', ''description'', ''rate_limit''] key_item_field y
        \<lparr> ki_KeyID = '''', ki_Name = '''', ki_Role = '''', ki_Status = '''', ki_Description = '''', ki_RateLimit = 0 \<rparr>) x)
     v None"

definition apikeyList :: "'f cli_output \<Rightarrow> 's client_calls \<Rightarrow> cli_context \<Rightarrow> 's \<Rightarrow> 's cli_result" where
  "apikeyList W N c s =
     with_reply (HTTPClient_Get N (EnsureConnected c) ''/admin/v1/keys'' s) (Some dec_key_list) None ''''
       (\<lambda>keys.
          if gf_Output (ParseGlobalFlags c) = ''json'' then out_Format W ''json'' False (json_slice key_item_json keys)
          else
            (out_Table W ([''KEY ID'', ''NAME'', ''ROLE'', ''STATUS'', ''RATE LIMIT''] #
               map (\<lambda>k. [truncateID (ki_KeyID k), ki_Name k, ki_Role k, ki_Status k, FormatInt (ki_RateLimit k)]) (items_of keys)) @
             nl @ ''Total: '' @ FormatInt (int (length (items_of keys))) @ '' keys'' @ nl, None))"

definition apikeyGet :: "'f cli_output \<Rightarrow> 's client_calls \<Rightarrow> cli_context \<Rightarrow> 's \<Rightarrow> 's cli_result" where
  "apikeyGet W N c s =
     (if ct_First c = '''' then (s, '''', Some (PlainError ''key ID required''))
      else
        with_reply (HTTPClient_Get N (EnsureConnected c) (''/admin/v1/keys/'' @ ct_First c) s) (Some dec_any) (JObj []) ''''
          (\<lambda>j. out_Format W (gf_Output (ParseGlobalFlags c)) (gf_Wide (ParseGlobalFlags c)) j))"

definition key_created_text :: "string \<times> string \<Rightarrow> string" where
  "key_created_text p =
     ''API Key created successfully:'' @ nl @ ''  Key ID: '' @ fst p @ nl @ ''  Secret: '' @ snd p @ nl @
     nl @ warning_mark @ ''  IMPORTANT: Save this secret now - it cannot be retrieved later!'' @ nl @
     ''   Use format: '' @ fst p @ '':'' @ snd p @ nl"

definition apikeyCreate :: "'s client_calls \<Rightarrow> cli_context \<Rightarrow> 's \<Rightarrow> 's cli_result" where
  "apikeyCreate N c s =
     (let body = JObj ((if ct_String c ''description'' \<noteq> '''' then [(''description'', JStr (ct_String c ''description''))] else []) @
                       [(''name'', JStr (ct_String c ''name'')), (''rate_limit'', JInt (ct_Int c ''rate-limit'')), (''role'', JStr (ct_String c ''role''))])
      in with_reply (HTTPClient_Post N (EnsureConnected c) ''/admin/v1/keys'' (Some body) s) (Some (dec_pair ''key_id'' ''secret'')) ('''', '''') ''''
           (\<lambda>p. (key_created_text p, None)))"

definition set_status :: "'s client_calls \<Rightarrow> cli_context \<Rightarrow> 's \<Rightarrow> string \<Rightarrow> string \<Rightarrow> string \<Rightarrow> 's cli_result" where
  "set_status N c s printed status done_text =
     with_reply (HTTPClient_Post N (EnsureConnected c) (''/admin/v1/keys/'' @ ct_First c @ ''/status'')
       (Some (JObj [(''status'', JStr status)])) s) None () printed
       (\<lambda>_. (''API key '' @ truncateID (ct_First c) @ done_text @ nl, None))"

definition apikeyDisable :: "'s client_calls \<Rightarrow> cli_context \<Rightarrow> 's \<Rightarrow> 's cli_result" where
  "apikeyDisable N c s =
     (if ct_First c = '''' then (s, '''', Some (PlainError ''key ID required''))
      else
        (case confirm_yes c (''Are you sure you want to disable API key '' @ quoted (truncateID (ct_First c)) @ ''? [y/N]: '') of
           (printed, False) \<Rightarrow> (s, printed, None)
         | (printed, True) \<Rightarrow> set_status N c s printed ''disabled'' '' disabled successfully.''))"

definition apikeyEnable :: "'s client_calls \<Rightarrow> cli_context \<Rightarrow> 's \<Rightarrow> 's cli_result" where
  "apikeyEnable N c s =
     (if ct_First c = '''' then (s, '''', Some (PlainError ''key ID required''))
      else set_status N c s '''' ''active'' '' enabled successfully.'')"

definition apikeyRotate :: "'s client_calls \<Rightarrow> cli_context \<Rightarrow> 's \<Rightarrow> 's cli_result" where
  "apikeyRotate N c s =
     (if ct_First c = '''' then (s, '''', Some (PlainError ''key ID required''))
      else
        (case confirm_yes c (''Are you sure you want to rotate secret for API key '' @ quoted (truncateID (ct_First c)) @ ''? [y/N]: '') of
           (printed, False) \<Rightarrow> (s, printed, None)
         | (printed, True) \<Rightarrow>
             with_reply (HTTPClient_Post N (EnsureConnected c) (''/admin/v1/keys/'' @ ct_First c @ ''/rotate'') None s)
               (Some (\<lambda>v. dec_struct [''new_secret''] (\<lambda>_ x old. dec_string x old) v '''')) '''' printed
               (\<lambda>secret. (''API key secret rotated successfully:'' @ nl @ ''  Key ID:     '' @ ct_First c @ nl @
                  ''  New Secret: '' @ secret @ nl @ nl @ warning_mark @
                  ''  IMPORTANT: Save this secret now - it cannot be retrieved later!'' @ nl @
                  ''   Old secret remains valid for 24 hours (grace period).'' @ nl, None))))"

section \<open>System commands\<close>

text \<open>A member of a JSON object, the last of its name; numbers are shown by the format with their index.\<close>

definition any_get :: "json \<Rightarrow> string \<Rightarrow> json option" where
  "any_get j k = (case j of JObj ms \<Rightarrow> map_of (rev ms) k | _ \<Rightarrow> None)"

definition status_line :: "json \<Rightarrow> string \<Rightarrow> string \<Rightarrow> string" where
  "status_line j k label = (case any_get j k of Some (JStr v) \<Rightarrow> label @ v @ nl | _ \<Rightarrow> '''')"

definition number_line :: "'f cli_output \<Rightarrow> nat \<Rightarrow> json \<Rightarrow> string \<Rightarrow> string \<Rightarrow> string \<Rightarrow> string" where
  "number_line W f j k label unit = (case any_get j k of Some (JNum v) \<Rightarrow> label @ out_number W f v @ unit @ nl | _ \<Rightarrow> '''')"

definition systemStatus :: "'f cli_output \<Rightarrow> 's client_calls \<Rightarrow> cli_context \<Rightarrow> 's \<Rightarrow> 's cli_result" where
  "systemStatus W N c s =
     with_reply (HTTPClient_Get N (EnsureConnected c) ''/admin/v1/status/summary'' s) (Some dec_any) (JObj []) ''''
       (\<lambda>j. if gf_Output (ParseGlobalFlags c) = ''json'' then out_Format W ''json'' False j
            else (''System Status'' @ nl @ ''============='' @ nl @ nl @
                  status_line j ''version'' ''Version:        '' @ status_line j ''uptime'' ''Uptime:         '' @
                  number_line W 0 j ''active_sessions'' ''Active Sessions: '' '''' @
                  number_line W 1 j ''memory_usage'' ''Memory Usage:   '' '' MB'' @
                  number_line W 0 j ''goroutines'' ''Goroutines:     '' '''', None))"

definition systemHealth :: "'f cli_output \<Rightarrow> 's client_calls \<Rightarrow> cli_context \<Rightarrow> 's \<Rightarrow> 's cli_result" where
  "systemHealth W N c s =
     (case HTTPClient_Get N (EnsureConnected c) ''/health'' s of
        (s', Inl err) \<Rightarrow> (s', '''', Some (PlainError ''server unhealthy''))
      | (s', Inr r) \<Rightarrow>
          with_reply (s', Inr r) (Some (\<lambda>v. dec_struct [''status''] (\<lambda>_ x old. dec_string x old) v '''')) '''' ''''
            (\<lambda>status.
               if gf_Output (ParseGlobalFlags c) = ''json'' then out_Format W ''json'' False (JObj [(''status'', JStr status)])
               else if status = ''healthy''
               then (check_mark @ '' Server is healthy'' @ nl @ ''  Target: '' @ hcl_baseURL (EnsureConnected c) @ nl, None)
               else (cross_mark @ '' Server is unhealthy: '' @ status @ nl, None)))"

record gc_result =
  gr_ExpiredCount :: int
  gr_FreedBytes :: int
  gr_DryRun :: bool

definition gc_field :: "string \<Rightarrow> json \<Rightarrow> gc_result \<Rightarrow> go_error + gc_result" where
  "gc_field n v r =
     (if n = ''expired_count'' then map_sum id (\<lambda>x. r \<lparr> gr_ExpiredCount := x \<rparr>) (dec_int64 v (gr_ExpiredCount r))
      else if n = ''freed_bytes'' then map_sum id (\<lambda>x. r \<lparr> gr_FreedBytes := x \<rparr>) (dec_int64 v (gr_FreedBytes r))
      else map_sum id (\<lambda>x. r \<lparr> gr_DryRun := x \<rparr>) (dec_bool v (gr_DryRun r)))"

definition systemGC :: "'f cli_output \<Rightarrow> 's client_calls \<Rightarrow> cli_context \<Rightarrow> 's \<Rightarrow> 's cli_result" where
  "systemGC W N c s =
     (let dryRun = ct_Bool c ''dry-run'' in
      with_reply
        (HTTPClient_Post N (EnsureConnected c) ''/admin/v1/gc/trigger'' (Some (JObj (if dryRun then [(''dry_run'', JBool True)] else []))) s)
        (Some (\<lambda>v. dec_struct [''expired_count'', ''freed_bytes'', ''dry_run''] gc_field v
                 \<lparr> gr_ExpiredCount = 0, gr_FreedBytes = 0, gr_DryRun = False \<rparr>))
        \<lparr> gr_ExpiredCount = 0, gr_FreedBytes = 0, gr_DryRun = False \<rparr>
        ((if dryRun then ''[DRY RUN] Would trigger garbage collection...'' else ''Triggering garbage collection...'') @ nl)
        (\<lambda>r. if gf_Output (ParseGlobalFlags c) = ''json'' then
               out_Format W ''json'' False (JObj [(''expired_count'', JInt (gr_ExpiredCount r)), (''freed_bytes'', JInt (gr_FreedBytes r)),
                 (''dry_run'', JBool (gr_DryRun r))])
             else
               (nl @ (if dryRun then ''[DRY RUN] Would clean up:'' else ''Garbage collection completed:'') @ nl @
                ''  Expired sessions: '' @ FormatInt (gr_ExpiredCount r) @ nl @
                ''  Freed memory:     '' @ out_number W 2 (FormatInt (gr_FreedBytes r)) @ '' KB'' @ nl, None)))"

section \<open>The client and the server\<close>

text \<open>A network that takes a request to the handler of a server and its answer back. The parsing of the URL is given; a panic
  closes the connection.\<close>

definition server_Do ::
  "(string \<Rightarrow> go_error + string list \<times> header) \<Rightarrow> 's http_handler \<Rightarrow> string \<Rightarrow> client_request \<Rightarrow> 's \<Rightarrow> 's \<times> (go_error + int \<times> bytes)" where
  "server_Do url_Parse h addr q s =
     (case url_Parse (crq_URL q) of
        Inl err \<Rightarrow> (s, Inl err)
      | Inr (segs, query) \<Rightarrow>
          (case h \<lparr> hr_Method = crq_Method q, hr_Segments = segs, hr_Query = query, hr_Header = crq_Header q, hr_RemoteAddr = addr,
                    hr_Body = (case crq_Body q of None \<Rightarrow> [] | Some b \<Rightarrow> b), hr_PathValues = [], hr_ctx_RequestID = '''',
                    hr_ctx_APIKey = None \<rparr> \<lparr> hw_Header = [], hw_Sent = None, hw_Body = '''', hw_Last = 200 \<rparr> s of
             Returned s' w \<Rightarrow> (s', Inr (case hw_Sent w of None \<Rightarrow> 200 | Some (code, _) \<Rightarrow> code, bytes_of_string (hw_Body w)))
           | Panicked s' w \<Rightarrow> (s', Inl io_EOF)
           | Blocked \<Rightarrow> (s, Inl (PlainError ''context deadline exceeded''))))"

abbreviation to_server ::
  "(string \<Rightarrow> go_error + string list \<times> header) \<Rightarrow> ('r, 'k, 'l, 'f) http_calls \<Rightarrow> ('r, 'k, 'l, 'f) http_state client_calls" where
  "to_server url_Parse C \<equiv> \<lparr> cl_NewRequest = (\<lambda>_. None), cl_Do = server_Do url_Parse (http_handler_of C) ''127.0.0.1:40000'' \<rparr>"

abbreviation api_url :: "cli_context \<Rightarrow> string \<Rightarrow> string" where
  "api_url c path \<equiv> hcl_baseURL (EnsureConnected c) @ path"

lemma client_no_request_id: "Header_Get (gm_set ''Content-Type'' t (addHeaders c [])) ''X-Request-ID'' = ''''"
  "Header_Get (addHeaders c []) ''X-Request-ID'' = ''''"
  by (auto simp: Header_Get_def addHeaders_def gm_get_set gm_get_def [of "[]"])

lemma Decode_status_of_cli:
  assumes "utf8_ValidString t"
  shows "Decode_status (bytes_of_string (json_text (JObj [(''status'', JStr t)]))) = Inr False"
proof -
  have "utf8_ValidString ''status''" by code_simp
  then have ok: "json_ok (JObj [(''status'', JStr t)])" using assms by simp
  show ?thesis
    unfolding Decode_status_def
    by (subst json_Decode_text [OF ok, of _ "[]", unfolded append_Nil2]) (simp_all add: dec_struct_def find_field_def upper_char_def)
qed

text \<open>The answer of the server to a change of status.\<close>

lemma status_reply:
  assumes "url_Parse (api_url c (''/admin/v1/keys/'' @ k @ ''/status'')) = Inr ([''admin'', ''v1'', ''keys'', k, ''status''], [])" "k \<noteq> ''''"
    and "utf8_ValidString t" "UpdateAPIKeyStatus (hx_keys C) (hs_auth s) k False = (a, Inr b)"
  shows "\<exists>body. HTTPClient_Post (to_server url_Parse C) (EnsureConnected c) (''/admin/v1/keys/'' @ k @ ''/status'')
    (Some (JObj [(''status'', JStr t)])) s = (s \<lparr> hs_auth := a \<rparr>, Inr (200, body))"
  using assms
  by (simp add: HTTPClient_Post_def server_Do_def http_handler_of_def Handler_ServeHTTP_def mux_ServeHTTP_def registerRoutes_def
      match_method_def handleUpdateAPIKeyStatus_def Header_Get_def gm_get_set Decode_status_of_cli Let_def
      writeJSON_def json_Encode_def write_body_def WriteHeader_def send_header_def Header_Set_def)

text \<open>The envelope that the server puts around its answers.\<close>

lemma envelope_ok:
  assumes "json_ok d" "json_depth d < maxNestingDepth" "utf8_ValidString rid"
  shows "json_Decode dec (bytes_of_string (json_text (NewResponse now rid d) @ r)) = dec (NewResponse now rid d)"
proof -
  have "list_all utf8_ValidString [''code'', ''message'', ''request_id'', ''timestamp'', ''data'', ''OK'', ''Success'']" by code_simp
  then show ?thesis unfolding NewResponse_def using assms by (intro json_Decode_text) simp_all
qed

lemma envelope_read:
  "dec_pair ''session_id'' ''token'' (NewResponse now rid d) = Inr ('''', '''')"
  "dec_pair ''key_id'' ''secret'' (NewResponse now rid d) = Inr ('''', '''')"
  "dec_count ''revoked_count'' (NewResponse now rid d) = Inr 0"
  "dec_struct [''status''] (\<lambda>_ x old. dec_string x old) (NewResponse now rid d) '''' = Inr ''''"
  by (simp_all add: NewResponse_def dec_pair_def dec_count_def dec_struct_def find_field_def upper_char_def)

lemma Decode_create_of_cli:
  assumes "utf8_ValidString u" "in_i64 n"
  shows "Decode_create_session (bytes_of_string (json_text (JObj [(''ttl_seconds'', JInt n), (''user_id'', JStr u)]))) =
    Inr \<lparr> cb_UserID = u, cb_DeviceID = '''', cb_Data = None, cb_TTLSeconds = n \<rparr>"
proof -
  have "utf8_ValidString ''ttl_seconds''" "utf8_ValidString ''user_id''" by code_simp+
  then have ok: "json_ok (JObj [(''ttl_seconds'', JInt n), (''user_id'', JStr u)])" using assms by simp
  show ?thesis
    unfolding Decode_create_session_def
    by (subst json_Decode_text [OF ok, of _ "[]", unfolded append_Nil2])
      (simp_all add: dec_struct_def find_field_def create_session_field_def assms(2))
qed

definition cli_create_request :: "cli_context \<Rightarrow> int \<Rightarrow> create_session_request" where
  "cli_create_request c n =
     \<lparr> cq_UserID = ct_String c ''user-id'', cq_DeviceID = '''', cq_Data = None, cq_TTL = (if n > 0 then i64 (n * Second) else 0),
       cq_Token = '''', cq_CreatedBy = '''', cq_ClientIP = ''127.0.0.1'', cq_UserAgent = ''tokmesh-cli/1.0'' \<rparr>"

lemma cli_headers:
  "Header_Get (gm_set ''Content-Type'' t (addHeaders c [])) ''X-Forwarded-For'' = ''''"
  "Header_Get (gm_set ''Content-Type'' t (addHeaders c [])) ''X-Real-IP'' = ''''"
  "Header_Get (gm_set ''Content-Type'' t (addHeaders c [])) ''User-Agent'' = ''tokmesh-cli/1.0''"
  by (auto simp: Header_Get_def addHeaders_def gm_get_set gm_get_def [of "[]"])

section \<open>Properties\<close>

text \<open>C40: Enabling a key disables it. The client sends a status, the server reads a flag that is not there as false: when the service
  disables the key, the command ends without an error, tells that the key was enabled, and leaves it disabled.\<close>

theorem cli_enable_disables:
  assumes "url_Parse (api_url c (''/admin/v1/keys/'' @ ct_First c @ ''/status'')) =
      Inr ([''admin'', ''v1'', ''keys'', ct_First c, ''status''], [])" "ct_First c \<noteq> ''''"
    and "UpdateAPIKeyStatus (hx_keys C) (hs_auth s) (ct_First c) False = (a, Inr b)"
  shows "apikeyEnable (to_server url_Parse C) c s =
    (s \<lparr> hs_auth := a \<rparr>, ''API key '' @ truncateID (ct_First c) @ '' enabled successfully.'' @ nl, None)"
proof -
  have "utf8_ValidString ''active''" by code_simp
  from status_reply [of url_Parse c "ct_First c", OF assms(1,2) this assms(3)] show ?thesis
    using assms(2) by (auto simp: apikeyEnable_def set_status_def with_reply_def ParseResponse_def)
qed

text \<open>The token of a session that the client creates is lost. The server answers in an envelope, the client reads the
  identifier and the token beside it: when the service has created the session, the command ends without an error and shows
  neither.\<close>

lemma cli_create_shows_no_token:
  assumes "url_Parse (api_url c ''/sessions'') = Inr ([''sessions''], [])" "ct_StringSlice c ''data'' = []" "utf8_ValidString (ct_String c ''user-id'')"
    and "fl_int64 (out_float W) (fl_Seconds (out_float W) (ct_Duration c ''ttl'')) = n" "in_i64 n"
    and "SessionService_Create (hx_ext C) (hx_sessions C) (hx_now C) (hx_ulid C) (hx_random C) (hx_between C) (hs_sessions s)
      (cli_create_request c n) = (r, Inr resp)"
    and "hx_time C (time_UnixMilli (cr_ExpiresAt resp)) = Some t"
      "list_all utf8_ValidString [t, cr_SessionID resp, cr_Token resp]"
  shows "sessionCreate W (to_server url_Parse C) c s = (s \<lparr> hs_sessions := r \<rparr>, created_text ('''', ''''), None)"
proof -
  let ?d = "JObj [(''session_id'', JStr (cr_SessionID resp)), (''token'', JStr (cr_Token resp)), (''expires_at'', JStr t)]"
  let ?body = "JObj [(''ttl_seconds'', JInt n), (''user_id'', JStr (ct_String c ''user-id''))]"
  have names: "list_all utf8_ValidString [''session_id'', ''token'', ''expires_at'', '''']" by code_simp
  have ip: "LastIndex_cut ''127.0.0.1:40000'' = ''127.0.0.1''" by (simp add: LastIndex_cut_def)
  have o: "obj_opt [(''session_id'', Some (JStr (cr_SessionID resp))), (''token'', Some (JStr (cr_Token resp))),
      (''expires_at'', map_option JStr (hx_time C (time_UnixMilli (cr_ExpiresAt resp))))] = Some ?d"
    using assms(7) by (simp add: obj_opt_def)
  let ?h = "gm_set ''Content-Type'' ''application/json'' (addHeaders (EnsureConnected c) [])"
  let ?rq = "\<lparr> hr_Method = ''POST'', hr_Segments = [''sessions''], hr_Query = [], hr_Header = ?h, hr_RemoteAddr = ''127.0.0.1:40000'',
    hr_Body = bytes_of_string (json_text ?body), hr_PathValues = [], hr_ctx_RequestID = '''', hr_ctx_APIKey = None \<rparr>"
  have "handler_getClientIP ?rq = ''127.0.0.1''" "UserAgent ?rq = ''tokmesh-cli/1.0''"
    by (simp_all add: handler_getClientIP_def cli_headers ip Let_def)
  then have H: "handleCreateSession C ?rq w s = Returned (s \<lparr> hs_sessions := r \<rparr>) (writeJSON (hx_now C) ?rq 201 (Some ?d) w)" for w
    unfolding handleCreateSession_def http_request.select_convs Decode_create_of_cli [OF assms(3,5)] sum.case create_session_body.select_convs
    using assms(6) o by (simp add: cli_create_request_def)
  have F: "http_handler_of C ?rq w s = handleCreateSession C ?rq w s" for w
    by (simp add: http_handler_of_def Handler_ServeHTTP_def mux_ServeHTTP_def registerRoutes_def match_method_def)
  have P: "HTTPClient_Post (to_server url_Parse C) (EnsureConnected c) ''/sessions'' (Some ?body) s =
      (s \<lparr> hs_sessions := r \<rparr>, Inr (201, bytes_of_string (json_text (NewResponse (hx_now C) '''' ?d) @ nl)))"
    using assms(1)
    by (simp add: HTTPClient_Post_def server_Do_def F H client_no_request_id getRequestID_def Let_def
      writeJSON_def json_Encode_def write_body_def WriteHeader_def send_header_def Header_Set_def)
  have "json_Decode (dec_pair ''session_id'' ''token'') (bytes_of_string (json_text (NewResponse (hx_now C) '''' ?d) @ nl)) = Inr ('''', '''')"
    by (subst envelope_ok) (use names assms(8) in \<open>simp_all add: envelope_read\<close>)
  then show ?thesis using P assms(2,4) by (simp add: sessionCreate_def with_reply_def ParseResponse_def)
qed

text \<open>A healthy server is reported as unhealthy, for the same reason.\<close>

lemma cli_health_unhealthy:
  assumes "url_Parse (api_url c ''/health'') = Inr ([''health''], [])" "utf8_ValidString (hx_RFC3339 C (hx_now C))"
    and "ct_String c ''output'' \<noteq> ''json''"
  shows "systemHealth W (to_server url_Parse C) c s = (s, cross_mark @ '' Server is unhealthy: '' @ nl, None)"
proof -
  let ?d = "JObj [(''status'', JStr ''healthy''), (''time'', JStr (hx_RFC3339 C (hx_now C)))]"
  have names: "list_all utf8_ValidString [''status'', ''time'', ''healthy'', '''']" by code_simp
  have G: "HTTPClient_Get (to_server url_Parse C) (EnsureConnected c) ''/health'' s =
      (s, Inr (200, bytes_of_string (json_text (NewResponse (hx_now C) '''' ?d) @ nl)))"
    using assms(1)
    by (simp add: HTTPClient_Get_def server_Do_def http_handler_of_def Handler_ServeHTTP_def mux_ServeHTTP_def registerRoutes_def
        match_method_def handleHealth_def client_no_request_id getRequestID_def Let_def
        writeJSON_def json_Encode_def write_body_def WriteHeader_def send_header_def Header_Set_def)
  have "json_Decode (\<lambda>v. dec_struct [''status''] (\<lambda>_ x old. dec_string x old) v '''')
      (bytes_of_string (json_text (NewResponse (hx_now C) '''' ?d) @ nl)) = Inr ''''"
    by (subst envelope_ok) (use names assms(2) in \<open>simp_all add: envelope_read\<close>)
  then show ?thesis using G assms(3) by (simp add: systemHealth_def with_reply_def ParseResponse_def ParseGlobalFlags_def)
qed

text \<open>The dry run of a garbage collection is a garbage collection: the server does not read the body of the request.\<close>

lemma cli_dry_run_collects:
  assumes "url_Parse (api_url c ''/admin/v1/gc/trigger'') = Inr ([''admin'', ''v1'', ''gc'', ''trigger''], [])"
    and "SessionService_GC (hx_sessions C) (hx_now C) (hs_sessions s) = (r, Inr n)"
  shows "fst (systemGC W (to_server url_Parse C) c s) = s \<lparr> hs_sessions := r \<rparr>"
proof -
  have "\<exists>x. HTTPClient_Post (to_server url_Parse C) (EnsureConnected c) ''/admin/v1/gc/trigger'' b s = (s \<lparr> hs_sessions := r \<rparr>, x)" for b
    using assms
    by (simp add: HTTPClient_Post_def server_Do_def http_handler_of_def Handler_ServeHTTP_def mux_ServeHTTP_def registerRoutes_def
        match_method_def handleGCTrigger_def Let_def)
  then obtain x where "HTTPClient_Post (to_server url_Parse C) (EnsureConnected c) ''/admin/v1/gc/trigger''
      (Some (JObj (if ct_Bool c ''dry-run'' then [(''dry_run'', JBool True)] else []))) s = (s \<lparr> hs_sessions := r \<rparr>, x)" by blast
  then show ?thesis by (simp add: systemGC_def with_reply_def Let_def split: sum.splits prod.splits)
qed

section \<open>Examples\<close>

abbreviation demo_cli :: cli_context where
  "demo_cli \<equiv> \<lparr> ct_String = (\<lambda>n. if n = ''user-id'' then ''u'' else if n = ''server'' then ''localhost:5080'' else ''''), ct_Int = (\<lambda>_. 0),
     ct_Bool = (\<lambda>_. False), ct_Duration = (\<lambda>_. 43200 * Second), ct_StringSlice = (\<lambda>_. []), ct_First = ''tmak-1'', ct_Scanln = '''' \<rparr>"

abbreviation demo_output :: "int cli_output" where
  "demo_output \<equiv> \<lparr> out_float = hx_float (example_http store_session_repo store_token_repo), out_Format = (\<lambda>_ _ j. (json_text j, None)),
     out_Table = concat \<circ> concat, out_time = (\<lambda>_. None), out_number = (\<lambda>_ s. s) \<rparr>"

lemma demo_disable:
  obtains a b k where "UpdateAPIKeyStatus apikey_store_repo (role_auth RoleAdmin) ''tmak-1'' False = (a, Inr b)"
    "APIKeyStore_Get (as_repo a) ''tmak-1'' = Inr k" "K_Status k = KeyStatusDisabled"
proof -
  have i: "K_KeyID (role_key RoleAdmin) = ''tmak-1''" by (simp add: example_key_def)
  obtain a b where u: "UpdateAPIKeyStatus apikey_store_repo (role_auth RoleAdmin) ''tmak-1'' False = (a, b)" by fastforce
  have "b = Inr True \<and> APIKeyStore_Get (as_repo a) ''tmak-1'' = Inr (role_key RoleAdmin \<lparr> K_Status := KeyStatusDisabled \<rparr>)"
    using u i
    by (auto simp: UpdateAPIKeyStatus_def apikey_store_repo_def APIKeyStore_Get_def APIKeyStore_Update_def NewAuthService_def
        gm_get_def gm_set_def Let_def)
  then show thesis using u by (intro that [of a True]) auto
qed

theorem cli_enable_disables_witness:
  "\<exists>s' k. apikeyEnable (to_server (\<lambda>_. Inr ([''admin'', ''v1'', ''keys'', ''tmak-1'', ''status''], [])) (example_http store_session_repo store_token_repo))
     demo_cli (example_state RoleAdmin (Store_New (\<lambda>_. 0) (\<lambda>_. 0) (\<lambda>_. 0) [])) =
       (s', ''API key tmak-1 enabled successfully.'' @ nl, None) \<and>
     APIKeyStore_Get (as_repo (hs_auth s')) ''tmak-1'' = Inr k \<and> K_Status k = KeyStatusDisabled"
proof -
  obtain a b k where d: "UpdateAPIKeyStatus apikey_store_repo (role_auth RoleAdmin) ''tmak-1'' False = (a, Inr b)"
    "APIKeyStore_Get (as_repo a) ''tmak-1'' = Inr k" "K_Status k = KeyStatusDisabled"
    by (rule demo_disable)
  let ?s = "example_state RoleAdmin (Store_New (\<lambda>_. 0) (\<lambda>_. 0) (\<lambda>_. 0) [])"
  have "apikeyEnable (to_server (\<lambda>_. Inr ([''admin'', ''v1'', ''keys'', ''tmak-1'', ''status''], [])) (example_http store_session_repo store_token_repo))
     demo_cli ?s = (?s \<lparr> hs_auth := a \<rparr>, ''API key tmak-1 enabled successfully.'' @ nl, None)"
    using cli_enable_disables [where C = "example_http store_session_repo store_token_repo" and c = demo_cli and s = ?s and a = a and b = b
        and url_Parse = "\<lambda>_. Inr ([''admin'', ''v1'', ''keys'', ''tmak-1'', ''status''], [])"] d(1)
    by (simp add: truncateID_def)
  then show ?thesis using d(2,3) by auto
qed

lemma demo_create:
  obtains r resp where "SessionService_Create example_ext store_session_repo 0 (Inr ''a'') (Inr []) (\<lambda>r. r)
      (Store_New (\<lambda>_. 0) (\<lambda>_. 0) (\<lambda>_. 0) []) (cli_create_request demo_cli 43200) = (r, Inr resp)"
    "cr_SessionID resp = ''tmss-a''" "cr_Token resp = TokenPrefix"
proof -
  let ?st = "Store_New (\<lambda>_. 0) (\<lambda>_. 0) (\<lambda>_. 0) []"
  have st: "store_inv ?st" "store_abs ?st = Map.empty" by (rule Store_New_inv; simp)+
  have mx: "st_maxSessionsPerUser ?st = DefaultMaxSessionsPerUser" by (simp add: Store_New_def)
  have n: "Store_CountByUserID ?st ''u'' = 0"
    using mem.count_alpha [of ?st "st_maxSessionsPerUser ?st" "''u''"] st by (simp add: store_session_repo_def user_ids_def)
  have i: "GenerateSessionID example_ext (Inr ''a'') = Inr ''tmss-a''"
    by (simp add: GenerateSessionID_def ToLower_def is_ascii_def lower_char_def)
  have g: "GenerateToken (Inr []) = Inr (TokenPrefix, HashToken TokenPrefix)" by (simp add: GenerateToken_def Let_def)
  have t: "i64 43200000000000 = 43200000000000" by (simp add: i64_def)
  let ?s = "Session_SetExpiration 0 (43200 * Second) (Session_zero \<lparr> S_ID := ''tmss-a'', S_UserID := ''u'', S_CreatedAt := UnixMilli 0,
      S_LastActive := UnixMilli 0, S_Version := 1, S_TokenHash := HashToken TokenPrefix,
      S_IPAddress := ''127.0.0.1'', S_UserAgent := ''tokmesh-cli/1.0'', S_LastAccessIP := ''127.0.0.1'', S_LastAccessUA := ''tokmesh-cli/1.0'',
      S_DeviceID := '''', S_CreatedBy := '''', S_Data := Some [] \<rparr>)"
  have P: "SessionService_Create example_ext store_session_repo 0 (Inr ''a'') (Inr []) (\<lambda>r. r) ?st (cli_create_request demo_cli 43200) =
      persist_new store_session_repo 0 ?st ?s TokenPrefix"
    by (simp add: SessionService_Create_def choose_token_def NewSession_def store_session_repo_def ttl_or_default_def data_or_empty_def
        cli_create_request_def n i g t Let_def)
  have f: "S_ID ?s = ''tmss-a''" "S_UserID ?s = ''u''" by (simp_all add: Session_SetExpiration_def Let_def)
  have v: "Session_Validate ?s = None"
    by (simp add: Session_Validate_None data_within_limits_def Session_zero_def Session_SetExpiration_def Let_def)
  obtain r x where c: "Store_Create ?st ?s = (r, x)" by fastforce
  have "x = None" using Store_Create_refines(2) [OF st(1) c] st(2) mx v f by (simp add: a_Create_def user_ids_def token_used_def)
  then have "persist_new store_session_repo 0 ?st ?s TokenPrefix =
      (r, Inr \<lparr> cr_SessionID = ''tmss-a'', cr_Token = TokenPrefix, cr_ExpiresAt = S_ExpiresAt ?s, cr_Session = ?s \<rparr>)"
    using c v f(1) by (simp add: persist_new_def store_session_repo_def)
  then show thesis unfolding P [symmetric] by (rule that) (simp_all only: create_session_response.select_convs)
qed

lemma cli_create_shows_no_token_example:
  "\<exists>r. sessionCreate demo_output (to_server (\<lambda>_. Inr ([''sessions''], [])) (example_http store_session_repo store_token_repo)) demo_cli
     (example_state RoleAdmin (Store_New (\<lambda>_. 0) (\<lambda>_. 0) (\<lambda>_. 0) [])) =
     (example_state RoleAdmin r, created_text ('''', ''''), None)"
proof -
  let ?s = "example_state RoleAdmin (Store_New (\<lambda>_. 0) (\<lambda>_. 0) (\<lambda>_. 0) [])"
  obtain r resp where c: "SessionService_Create example_ext store_session_repo 0 (Inr ''a'') (Inr []) (\<lambda>r. r)
      (Store_New (\<lambda>_. 0) (\<lambda>_. 0) (\<lambda>_. 0) []) (cli_create_request demo_cli 43200) = (r, Inr resp)"
    "cr_SessionID resp = ''tmss-a''" "cr_Token resp = TokenPrefix"
    by (rule demo_create)
  have u: "list_all utf8_ValidString ['''', cr_SessionID resp, cr_Token resp]" "utf8_ValidString ''u''" unfolding c(2,3) by code_simp+
  have "sessionCreate demo_output (to_server (\<lambda>_. Inr ([''sessions''], [])) (example_http store_session_repo store_token_repo)) demo_cli ?s =
     (?s \<lparr> hs_sessions := r \<rparr>, created_text ('''', ''''), None)"
    by (rule cli_create_shows_no_token [where n = 43200 and resp = resp and t = "''''"]) (use c(1) u in \<open>simp_all add: in_i64_def\<close>)
  then show ?thesis by auto
qed

end
