(* ===== verification/Cli_Output.thy ===== *)
theory Cli_Output
  imports Cli_Client
begin

text \<open>
  The output of the client (\<open>cli/output\<close>): values as \<open>reflect\<close> shows them, the tables made of them, and the text that is given to
  \<open>text/tabwriter\<close>, which aligns its columns and is a parameter, like the indented JSON, YAML, \<open>%v\<close> and floating-point formats.
  The lemmas show that a table of structs is rectangular, that its text can be taken apart again, what the client prints of a reply,
  and that the unit of a size exists.
\<close>

section \<open>Values\<close>

record gfield =
  fd_Name :: string
  fd_Exported :: bool
  fd_json :: string
  fd_table :: string

text \<open>A value by its kind. A time is a struct without exported fields, with the text it is shown as unless it is zero; a map is the
  list of its members, visited in an order that is a parameter; a nil pointer or interface is \<open>None\<close>.\<close>

datatype 'f gv =
    GInvalid
  | GString string
  | GInt int
  | GUint int
  | GFloat 'f
  | GBool bool
  | GTime "string option"
  | GSlice "'f gv list"
  | GMap "('f gv \<times> 'f gv) list"
  | GStruct "(gfield \<times> 'f gv) list"
  | GPtr "'f gv option"
  | GIface "'f gv option"
  | GOther string

record 'f out_calls =
  oc_tabwriter :: "string \<Rightarrow> string"
  oc_JSON :: "'f gv \<Rightarrow> string \<times> go_error option"
  oc_YAML :: "'f gv \<Rightarrow> string \<times> go_error option"
  oc_float :: "'f \<Rightarrow> string"
  oc_any :: "'f gv \<Rightarrow> string"
  oc_range :: "('f gv \<times> 'f gv) list \<Rightarrow> ('f gv \<times> 'f gv) list"
  oc_size :: "int \<Rightarrow> int \<Rightarrow> string"

definition format_plain :: "'f out_calls \<Rightarrow> 'f gv \<Rightarrow> string" where
  "format_plain W v =
     (case v of
        GInvalid \<Rightarrow> ''''
      | GTime t \<Rightarrow> (case t of None \<Rightarrow> ''-'' | Some s \<Rightarrow> s)
      | GString s \<Rightarrow> if s = '''' then ''-'' else s
      | GInt i \<Rightarrow> FormatInt i
      | GUint i \<Rightarrow> FormatInt i
      | GFloat x \<Rightarrow> oc_float W x
      | GBool b \<Rightarrow> if b then ''true'' else ''false''
      | GSlice xs \<Rightarrow> if xs = [] then ''-'' else ''['' @ FormatInt (int (length xs)) @ '' items]''
      | GMap ms \<Rightarrow> if ms = [] then ''-'' else ''{'' @ FormatInt (int (length ms)) @ '' keys}''
      | _ \<Rightarrow> oc_any W v)"

definition formatValue :: "'f out_calls \<Rightarrow> 'f gv \<Rightarrow> string" where
  "formatValue W v =
     (case (case v of GIface w \<Rightarrow> w | _ \<Rightarrow> Some v) of
        None \<Rightarrow> ''''
      | Some v1 \<Rightarrow> (case (case v1 of GPtr w \<Rightarrow> w | _ \<Rightarrow> Some v1) of None \<Rightarrow> '''' | Some v2 \<Rightarrow> format_plain W v2))"

text \<open>Rune by rune: an invalid byte becomes U+FFFD.\<close>

fun snake_loop :: "bool \<Rightarrow> string \<Rightarrow> string" where
  "snake_loop first [] = []"
| "snake_loop first (c # cs) =
     (if cc c < 128 then (if \<not> first \<and> CHR ''A'' \<le> c \<and> c \<le> CHR ''Z'' then ''_'' else []) @ c # snake_loop False cs
      else let n = utf8_len (c # cs) in
        if n = 0 then [CHR 0xEF, CHR 0xBF, CHR 0xBD] @ snake_loop False cs
        else take n (c # cs) @ snake_loop False (drop (n - 1) cs))"

definition toSnakeCase :: "string \<Rightarrow> string" where
  "toSnakeCase s = snake_loop True s"

section \<open>Tables\<close>

record table =
  tb_Headers :: "string list"
  tb_Rows :: "string list list"

definition AddRow :: "table \<Rightarrow> string list \<Rightarrow> table" where
  "AddRow t cells = t \<lparr> tb_Rows := tb_Rows t @ [cells] \<rparr>"

definition SetHeaders :: "table \<Rightarrow> string list \<Rightarrow> table" where
  "SetHeaders t headers = t \<lparr> tb_Headers := headers \<rparr>"

definition field_name :: "gfield \<Rightarrow> string" where
  "field_name f =
     (let p = takeWhile (\<lambda>c. c \<noteq> CHR '','') (fd_json f) in if p \<noteq> '''' \<and> p \<noteq> ''-'' then p else fd_Name f)"

definition shown_field :: "bool \<Rightarrow> gfield \<Rightarrow> bool" where
  "shown_field wide f \<longleftrightarrow> fd_Exported f \<and> fd_table f \<noteq> ''-'' \<and> \<not> (Contains (fd_table f) ''wide'' \<and> \<not> wide)"

definition elem_deref :: "'f gv \<Rightarrow> 'f gv" where
  "elem_deref v = (case v of GPtr None \<Rightarrow> GInvalid | GPtr (Some w) \<Rightarrow> w | _ \<Rightarrow> v)"

definition struct_fields :: "'f gv \<Rightarrow> (gfield \<times> 'f gv) list option" where
  "struct_fields v = (case v of GStruct fs \<Rightarrow> Some fs | GTime _ \<Rightarrow> Some [] | _ \<Rightarrow> None)"

definition fieldIndices :: "bool \<Rightarrow> 'f gv \<Rightarrow> nat list" where
  "fieldIndices wide first =
     (case struct_fields first of
        None \<Rightarrow> []
      | Some fs \<Rightarrow> filter (\<lambda>i. shown_field wide (fst (fs ! i))) [0..<length fs])"

definition slice_headers :: "ext \<Rightarrow> bool \<Rightarrow> 'f gv \<Rightarrow> string list" where
  "slice_headers X wide first =
     (case struct_fields first of
        Some fs \<Rightarrow> map (\<lambda>i. ToUpper X (toSnakeCase (field_name (fst (fs ! i))))) (fieldIndices wide first)
      | None \<Rightarrow> (case first of GMap _ \<Rightarrow> [''KEY'', ''VALUE''] | _ \<Rightarrow> [''VALUE'']))"

definition elem_rows :: "'f out_calls \<Rightarrow> nat list \<Rightarrow> 'f gv \<Rightarrow> string list list" where
  "elem_rows W idx v =
     (case struct_fields v of
        Some fs \<Rightarrow> [map (\<lambda>i. formatValue W (snd (fs ! i))) idx]
      | None \<Rightarrow> (case v of GMap ms \<Rightarrow> map (\<lambda>(k, w). [formatValue W k, formatValue W w]) (oc_range W ms) | _ \<Rightarrow> [[formatValue W v]]))"

definition sliceToTable :: "ext \<Rightarrow> 'f out_calls \<Rightarrow> bool \<Rightarrow> 'f gv list \<Rightarrow> table" where
  "sliceToTable X W wide vs =
     (case vs of
        [] \<Rightarrow> \<lparr> tb_Headers = [], tb_Rows = [] \<rparr>
      | v # _ \<Rightarrow>
          (let first = elem_deref v in
           \<lparr> tb_Headers = slice_headers X wide first,
             tb_Rows = concat (map (\<lambda>e. elem_rows W (fieldIndices wide first) (elem_deref e)) vs) \<rparr>))"

definition mapToTable :: "'f out_calls \<Rightarrow> ('f gv \<times> 'f gv) list \<Rightarrow> table" where
  "mapToTable W ms = \<lparr> tb_Headers = [''KEY'', ''VALUE''], tb_Rows = map (\<lambda>(k, v). [formatValue W k, formatValue W v]) (oc_range W ms) \<rparr>"

definition structToTable :: "'f out_calls \<Rightarrow> (gfield \<times> 'f gv) list \<Rightarrow> table" where
  "structToTable W fs =
     \<lparr> tb_Headers = [''FIELD'', ''VALUE''],
       tb_Rows = map (\<lambda>(f, v). [field_name f, formatValue W v]) (filter (\<lambda>(f, v). fd_Exported f) fs) \<rparr>"

text \<open>\<open>None\<close> is the error of an unsupported kind.\<close>

definition toTable :: "ext \<Rightarrow> 'f out_calls \<Rightarrow> bool \<Rightarrow> 'f gv \<Rightarrow> table option" where
  "toTable X W wide data =
     (case elem_deref data of
        GSlice vs \<Rightarrow> Some (sliceToTable X W wide vs)
      | GMap ms \<Rightarrow> Some (mapToTable W ms)
      | GStruct fs \<Rightarrow> Some (structToTable W fs)
      | GTime _ \<Rightarrow> Some (structToTable W [])
      | _ \<Rightarrow> None)"

section \<open>Text\<close>

abbreviation tab :: char where "tab \<equiv> CHR 0x09"
abbreviation newline :: char where "newline \<equiv> CHR 0x0A"

fun row_text :: "string list \<Rightarrow> string" where
  "row_text [] = [newline]"
| "row_text [cell] = cell @ [newline]"
| "row_text (cell # row) = cell @ tab # row_text row"

definition table_text :: "bool \<Rightarrow> table \<Rightarrow> string" where
  "table_text noHeaders t =
     (if \<not> noHeaders \<and> tb_Headers t \<noteq> [] then row_text (tb_Headers t) else []) @ concat (map row_text (tb_Rows t))"

definition RenderWithOptions :: "'f out_calls \<Rightarrow> table \<Rightarrow> bool \<Rightarrow> string \<times> go_error option" where
  "RenderWithOptions W t noHeaders = (oc_tabwriter W (table_text noHeaders t), None)"

definition Table_Render :: "'f out_calls \<Rightarrow> table \<Rightarrow> string \<times> go_error option" where
  "Table_Render W t = RenderWithOptions W t False"

datatype 'f out_data = DTable table | DValue "'f gv"

definition TableFormatter_Format :: "ext \<Rightarrow> 'f out_calls \<Rightarrow> bool \<Rightarrow> bool \<Rightarrow> 'f out_data \<Rightarrow> string \<times> go_error option" where
  "TableFormatter_Format X W wide noHeaders data =
     (case data of
        DTable t \<Rightarrow> RenderWithOptions W t noHeaders
      | DValue GInvalid \<Rightarrow> ('''', None)
      | DValue v \<Rightarrow>
          (case toTable X W wide v of
             None \<Rightarrow> oc_JSON W v
           | Some t \<Rightarrow> RenderWithOptions W t noHeaders))"

text \<open>\<open>NewFormatter\<close>, applied to a value.\<close>

definition formatter_Format :: "ext \<Rightarrow> 'f out_calls \<Rightarrow> string \<Rightarrow> bool \<Rightarrow> 'f gv \<Rightarrow> string \<times> go_error option" where
  "formatter_Format X W fmt wide v =
     (if fmt = ''json'' then oc_JSON W v
      else if fmt = ''yaml'' then oc_YAML W v
      else TableFormatter_Format X W wide False (DValue v))"

text \<open>A JSON document decoded into \<open>any\<close>: numbers are \<open>float64\<close>, objects maps with values in interfaces.\<close>

fun any_of_json :: "(string \<Rightarrow> 'f) \<Rightarrow> json \<Rightarrow> 'f gv option" where
  "any_of_json parse JNull = None"
| "any_of_json parse (JBool b) = Some (GBool b)"
| "any_of_json parse (JNum s) = Some (GFloat (parse s))"
| "any_of_json parse (JStr s) = Some (GString s)"
| "any_of_json parse (JArr vs) = Some (GSlice (map (\<lambda>v. GIface (any_of_json parse v)) vs))"
| "any_of_json parse (JObj ms) = Some (GMap (map (\<lambda>(k, v). (GString k, GIface (any_of_json parse v))) ms))"

text \<open>The size of a file: divided by 1024 until less than that is left.\<close>

function size_loop :: "int \<Rightarrow> int \<Rightarrow> nat \<Rightarrow> int \<times> nat" where
  "size_loop n d e = (if n \<ge> 1024 then size_loop (n div 1024) (d * 1024) (e + 1) else (d, e))"
  by pat_completeness auto
termination
  by (relation "measure (\<lambda>(n, d, e). nat n)") (auto simp: nat_less_iff)

declare size_loop.simps [simp del]

text \<open>\<open>None\<close> is the panic of an index out of range.\<close>

definition formatBytes :: "'f out_calls \<Rightarrow> int \<Rightarrow> string option" where
  "formatBytes W b =
     (if b < 1024 then Some (FormatInt b @ '' B'')
      else
        (case size_loop (b div 1024) 1024 0 of
           (d, e) \<Rightarrow> if e < 6 then Some (oc_size W b d @ '' '' @ [''KMGTPE'' ! e] @ ''B'') else None))"

section \<open>The text of a table\<close>

fun split_on :: "char \<Rightarrow> string \<Rightarrow> string list" where
  "split_on c [] = [[]]"
| "split_on c (x # xs) = (if x = c then [] # split_on c xs else (case split_on c xs of y # ys \<Rightarrow> (x # y) # ys | [] \<Rightarrow> [[x]]))"

definition text_lines :: "string \<Rightarrow> string list" where
  "text_lines s = butlast (split_on newline s)"

definition plain_row :: "string list \<Rightarrow> bool" where
  "plain_row row \<longleftrightarrow> row \<noteq> [] \<and> (\<forall>cell \<in> set row. tab \<notin> set cell \<and> newline \<notin> set cell)"

lemma split_on_nonempty [simp]: "split_on c s \<noteq> []"
  by (induction s) (auto split: list.splits)

lemma split_on_append: "c \<notin> set a \<Longrightarrow> split_on c (a @ c # b) = a # split_on c b"
  by (induction a) auto

lemma split_on_none: "c \<notin> set a \<Longrightarrow> split_on c a = [a]"
  by (induction a) auto

lemma row_text_line:
  "plain_row row \<Longrightarrow> \<exists>line. row_text row = line @ [newline] \<and> newline \<notin> set line \<and> split_on tab line = row"
proof (induction row rule: row_text.induct)
  case (3 cell c row)
  then have "plain_row (c # row)" by (simp add: plain_row_def)
  then obtain line where "row_text (c # row) = line @ [newline]" "newline \<notin> set line" "split_on tab line = c # row"
    using 3(1) by blast
  moreover have "tab \<notin> set cell" "newline \<notin> set cell" using 3(2) by (auto simp: plain_row_def)
  ultimately show ?case by (intro exI [of _ "cell @ tab # line"]) (simp add: split_on_append)
qed (auto simp: plain_row_def split_on_none)

lemma rows_text_lines:
  "\<forall>row \<in> set rows. plain_row row \<Longrightarrow> map (split_on tab) (text_lines (concat (map row_text rows))) = rows"
proof (induction rows)
  case (Cons row rows)
  then obtain line where "row_text row = line @ [newline]" "newline \<notin> set line" "split_on tab line = row"
    using row_text_line by (metis list.set_intros(1))
  with Cons show ?case by (simp add: text_lines_def split_on_append)
qed (simp add: text_lines_def)

text \<open>The text of a table tells the table: without tabs and line ends in the cells, taking it apart at the line ends and the tabs gives
  the headers and the rows back.\<close>

lemma table_text_splits:
  assumes "\<forall>row \<in> set (tb_Headers t # tb_Rows t). plain_row row"
  shows "map (split_on tab) (text_lines (table_text False t)) = tb_Headers t # tb_Rows t"
  using rows_text_lines [of "tb_Headers t # tb_Rows t"] assms by (auto simp: table_text_def plain_row_def)

text \<open>A user identifier with a tab or a line end forges cells and rows: two tables have the same text.\<close>

lemma table_text_forged:
  "table_text n \<lparr> tb_Headers = h, tb_Rows = [[a @ [tab] @ b @ [newline] @ c]] \<rparr> = table_text n \<lparr> tb_Headers = h, tb_Rows = [[a, b], [c]] \<rparr>"
  by (simp add: table_text_def)

section \<open>Tables of structs\<close>

lemma map_filter_upt: "map (\<lambda>i. f (xs ! i)) (filter (\<lambda>i. P (xs ! i)) [0..<length xs]) = map f (filter P xs)"
proof -
  have "map f (filter P (map ((!) xs) [0..<length xs])) = map (\<lambda>i. f (xs ! i)) (filter (\<lambda>i. P (xs ! i)) [0..<length xs])"
    unfolding filter_map by (simp add: comp_def)
  then show ?thesis by (simp add: map_nth)
qed

lemma fieldIndices_same:
  assumes "map fst fs = map fst gs"
  shows "fieldIndices wide (GStruct fs) = fieldIndices wide (GStruct gs)"
proof -
  have l: "length fs = length gs" using assms map_eq_imp_length_eq by blast
  have "fst (fs ! i) = fst (gs ! i)" if "i < length gs" for i
    using assms l that by (metis nth_map)
  then have "filter (\<lambda>i. shown_field wide (fst (fs ! i))) [0..<length gs] = filter (\<lambda>i. shown_field wide (fst (gs ! i))) [0..<length gs]"
    by (intro filter_cong) simp_all
  then show ?thesis using l by (simp add: fieldIndices_def struct_fields_def)
qed

lemma fieldIndices_values:
  "map (\<lambda>i. g (fs ! i)) (fieldIndices wide (GStruct fs)) = map g (filter (\<lambda>p. shown_field wide (fst p)) fs)"
  using map_filter_upt [of g fs "\<lambda>p. shown_field wide (fst p)"] by (simp add: fieldIndices_def struct_fields_def)

lemma concat_map_single: "(\<And>x. x \<in> set xs \<Longrightarrow> f x = [g x]) \<Longrightarrow> concat (map f xs) = map g xs"
  by (induction xs) auto

text \<open>A slice of structs of one type, or of pointers to them, becomes a table with a column for each field that is shown and a row for
  each element, which holds its fields in the order of the columns.\<close>

lemma struct_slice_table:
  assumes "vs \<noteq> []" "\<forall>v \<in> set vs. \<exists>fs. elem_deref v = GStruct fs \<and> map fst fs = F"
  shows "tb_Headers (sliceToTable X W wide vs) = map (\<lambda>f. ToUpper X (toSnakeCase (field_name f))) (filter (shown_field wide) F) \<and>
    tb_Rows (sliceToTable X W wide vs) =
      map (\<lambda>v. map (\<lambda>p. formatValue W (snd p)) (filter (\<lambda>p. shown_field wide (fst p)) (the (struct_fields (elem_deref v))))) vs"
proof -
  obtain v ws where vs: "vs = v # ws" using assms(1) by (cases vs) auto
  with assms(2) obtain fs where fs: "elem_deref v = GStruct fs" "map fst fs = F" by auto
  have "slice_headers X wide (GStruct fs) =
      map (\<lambda>p. ToUpper X (toSnakeCase (field_name (fst p)))) (filter (\<lambda>p. shown_field wide (fst p)) fs)"
    using fieldIndices_values [of "\<lambda>p. ToUpper X (toSnakeCase (field_name (fst p)))" fs wide]
    by (simp add: slice_headers_def struct_fields_def)
  also have "\<dots> = map (\<lambda>f. ToUpper X (toSnakeCase (field_name f))) (filter (shown_field wide) F)"
    unfolding fs(2) [symmetric] filter_map by (simp add: comp_def)
  finally have h: "slice_headers X wide (GStruct fs) = \<dots>" .
  have r: "elem_rows W (fieldIndices wide (GStruct fs)) (elem_deref u) =
      [map (\<lambda>p. formatValue W (snd p)) (filter (\<lambda>p. shown_field wide (fst p)) (the (struct_fields (elem_deref u))))]"
    if u: "u \<in> set vs" for u
  proof -
    obtain gs where gs: "elem_deref u = GStruct gs" "map fst gs = F" using assms(2) u by blast
    show ?thesis
      using fieldIndices_same [of fs gs wide] fieldIndices_values [of "\<lambda>p. formatValue W (snd p)" gs wide] fs(2) gs
      by (simp add: elem_rows_def struct_fields_def)
  qed
  have "concat (map (\<lambda>e. elem_rows W (fieldIndices wide (GStruct fs)) (elem_deref e)) vs) =
      map (\<lambda>v. map (\<lambda>p. formatValue W (snd p)) (filter (\<lambda>p. shown_field wide (fst p)) (the (struct_fields (elem_deref v))))) vs"
    by (rule concat_map_single [OF r])
  moreover have "sliceToTable X W wide vs = \<lparr> tb_Headers = slice_headers X wide (GStruct fs),
      tb_Rows = concat (map (\<lambda>e. elem_rows W (fieldIndices wide (GStruct fs)) (elem_deref e)) vs) \<rparr>"
    using vs fs(1) by (simp add: sliceToTable_def Let_def)
  ultimately show ?thesis using h by simp
qed

section \<open>Sizes\<close>

lemma size_loop_spec:
  assumes "1024 ^ (e + 1) * n \<le> b" "b < 1024 ^ (e + 1) * (n + 1)" "1 \<le> n"
  shows "\<exists>k. size_loop n (1024 ^ (e + 1)) e = (1024 ^ (k + 1), k) \<and> 1024 ^ (k + 1) \<le> b \<and> b < 1024 ^ (k + 2)"
  using assms
proof (induction "nat n" arbitrary: n e rule: less_induct)
  case less
  show ?case
  proof (cases "n \<ge> 1024")
    case True
    let ?m = "n div 1024"
    have m: "1 \<le> ?m" "nat ?m < nat n" "1024 * ?m \<le> n" "n + 1 \<le> 1024 * (?m + 1)" using True by auto
    have "1024 ^ (e + 1 + 1) * ?m = 1024 ^ (e + 1) * (1024 * ?m)" "1024 ^ (e + 1 + 1) * (?m + 1) = 1024 ^ (e + 1) * (1024 * (?m + 1))"
      by simp_all
    moreover have "(1024::int) ^ (e + 1) * (1024 * ?m) \<le> 1024 ^ (e + 1) * n" "(1024::int) ^ (e + 1) * (n + 1) \<le> 1024 ^ (e + 1) * (1024 * (?m + 1))"
      using m(3,4) by (intro mult_left_mono; simp)+
    ultimately have "1024 ^ (e + 1 + 1) * ?m \<le> b" "b < 1024 ^ (e + 1 + 1) * (?m + 1)" using less(2,3) by linarith+
    from less(1) [OF m(2) this m(1)] show ?thesis using True by (simp add: size_loop.simps [of n] mult.commute)
  next
    case False
    have "(1024::int) ^ (e + 1) * 1 \<le> 1024 ^ (e + 1) * n" "(1024::int) ^ (e + 1) * (n + 1) \<le> 1024 ^ (e + 1) * 1024"
      using less(4) False by (intro mult_left_mono; simp)+
    moreover have "(1024::int) ^ (e + 2) = 1024 ^ (e + 1) * 1024" by simp
    ultimately have "1024 ^ (e + 1) \<le> b" "b < 1024 ^ (e + 2)" using less(2,3) by linarith+
    then show ?thesis using False by (intro exI [of _ e]) (simp add: size_loop.simps [of n])
  qed
qed

text \<open>Every size has its unit: for no \<open>int64\<close> is the index of the unit out of range, and the divisor is the power of 1024 just below.\<close>

lemma formatBytes_unit:
  assumes "b < 2 ^ 63"
  shows "b < 1024 \<and> formatBytes W b = Some (FormatInt b @ '' B'') \<or>
    (\<exists>k < 6. 1024 ^ (k + 1) \<le> b \<and> b < 1024 ^ (k + 2) \<and> formatBytes W b = Some (oc_size W b (1024 ^ (k + 1)) @ '' '' @ [''KMGTPE'' ! k] @ ''B''))"
proof (cases "b < 1024")
  case False
  have "1024 ^ (0 + 1) * (b div 1024) \<le> b" "b < 1024 ^ (0 + 1) * (b div 1024 + 1)" "1 \<le> b div 1024" using False by auto
  from size_loop_spec [OF this] obtain k where k: "size_loop (b div 1024) 1024 0 = (1024 ^ (k + 1), k)" "1024 ^ (k + 1) \<le> b" "b < 1024 ^ (k + 2)"
    by auto
  have "k < 6"
  proof (rule ccontr)
    assume "\<not> k < 6"
    then have "(1024::int) ^ 7 \<le> 1024 ^ (k + 1)" by (intro power_increasing) simp_all
    with k(2) assms show False by simp
  qed
  with k False show ?thesis by (auto simp: formatBytes_def)
qed (simp add: formatBytes_def)

section \<open>What the client shows\<close>

text \<open>The formats of the client, by the definitions above.\<close>

definition cli_formats ::
  "ext \<Rightarrow> 'f out_calls \<Rightarrow> (string \<Rightarrow> 'f) \<Rightarrow> 'f float64 \<Rightarrow> (json \<Rightarrow> (string \<times> string) option) \<Rightarrow> (nat \<Rightarrow> string \<Rightarrow> string) \<Rightarrow> 'f cli_output" where
  "cli_formats X W parse F tm num =
     \<lparr> out_float = F,
       out_Format = (\<lambda>fmt wide j. formatter_Format X W fmt wide (case any_of_json parse j of None \<Rightarrow> GInvalid | Some v \<Rightarrow> v)),
       out_Table = (\<lambda>rows. fst (Table_Render W \<lparr> tb_Headers = hd rows, tb_Rows = tl rows \<rparr>)),
       out_time = tm, out_number = num \<rparr>"

text \<open>In a table the answer of the server shows nothing of the session: the client formats the envelope, in which the session is one
  member, shown as the number of its own members.\<close>

lemma get_shows_envelope:
  assumes "HTTPClient_Get N (EnsureConnected c) (''/sessions/'' @ ct_First c) s =
      (s', Inr (200, bytes_of_string (json_text (NewResponse now rid (JObj ms)) @ r)))"
    and "ct_First c \<noteq> ''''" "ct_String c ''output'' = ''table''" "ms \<noteq> []" "rid \<noteq> ''''" "\<And>kvs. mset (oc_range W kvs) = mset kvs"
    and "json_ok (JObj ms)" "json_depth (JObj ms) < maxNestingDepth" "utf8_ValidString rid"
  shows "\<exists>rows. sessionGet (cli_formats X W parse F tm num) N c s =
      (s', oc_tabwriter W (table_text False \<lparr> tb_Headers = [''KEY'', ''VALUE''], tb_Rows = rows \<rparr>), None) \<and>
    mset rows = {# [''code'', ''OK''], [''message'', ''Success''], [''request_id'', rid],
      [''timestamp'', oc_float W (parse (FormatInt (UnixMilli now)))], [''data'', ''{'' @ FormatInt (int (length ms)) @ '' keys}''] #}"
proof -
  let ?v = "case any_of_json parse (NewResponse now rid (JObj ms)) of Some (GMap kvs) \<Rightarrow> kvs | _ \<Rightarrow> []"
  let ?rows = "map (\<lambda>(k, v). [formatValue W k, formatValue W v]) (oc_range W ?v)"
  have "sessionGet (cli_formats X W parse F tm num) N c s =
      (s', oc_tabwriter W (table_text False \<lparr> tb_Headers = [''KEY'', ''VALUE''], tb_Rows = ?rows \<rparr>), None)"
    using assms(1-3) envelope_ok [OF assms(7-9), of dec_any now r]
    by (simp add: sessionGet_def with_reply_def ParseResponse_def dec_any_def NewResponse_def cli_formats_def ParseGlobalFlags_def
        formatter_Format_def TableFormatter_Format_def toTable_def elem_deref_def mapToTable_def RenderWithOptions_def)
  moreover have "mset ?rows = image_mset (\<lambda>(k, v). [formatValue W k, formatValue W v]) (mset ?v)" by (simp add: assms(6))
  moreover have "\<dots> = {# [''code'', ''OK''], [''message'', ''Success''], [''request_id'', rid],
      [''timestamp'', oc_float W (parse (FormatInt (UnixMilli now)))], [''data'', ''{'' @ FormatInt (int (length ms)) @ '' keys}''] #}"
    using assms(4,5) by (simp add: NewResponse_def formatValue_def format_plain_def)
  ultimately show ?thesis by metis
qed

end
