(* ===== verification/Cli_Repl.thy ===== *)
theory Cli_Repl
  imports Cli_Output
begin

text \<open>
  The rest of the client: the history, completion and loop of the interactive mode (\<open>cli/repl\<close>), connections
  (\<open>cli/connection/manager.go\<close>, \<open>socket.go\<close>, \<open>cli/command/connect.go\<close>), the configuration commands (\<open>cli/command/config.go\<close>)
  and the local management server they would talk to (\<open>internal/server/localserver\<close>).

  Files and sockets enter by the outcome of each call. The lemmas show that a history that was saved is loaded again, that the loop
  ends and what it remembers, and that neither the configuration commands nor the local socket are served.
\<close>

section \<open>History\<close>

record history =
  hi_entries :: "string list"
  hi_maxSize :: int
  hi_file :: string

definition NewHistory :: "string \<Rightarrow> history" where
  "NewHistory file = \<lparr> hi_entries = [], hi_maxSize = 1000, hi_file = file \<rparr>"

definition History_Add :: "history \<Rightarrow> string \<Rightarrow> history" where
  "History_Add h cmd =
     (let entries = hi_entries h @ [cmd] in
      h \<lparr> hi_entries := if int (length entries) > hi_maxSize h then drop 1 entries else entries \<rparr>)"

definition History_Get :: "history \<Rightarrow> int \<Rightarrow> string" where
  "History_Get h index =
     (if index < 0 \<or> index \<ge> int (length (hi_entries h)) then ''''
      else hi_entries h ! (length (hi_entries h) - 1 - nat index))"

text \<open>\<open>bufio.Scanner\<close>: lines without their end, and without a carriage return before it; a line that does not fit into 64 KiB is an error.\<close>

abbreviation MaxScanTokenSize :: nat where "MaxScanTokenSize \<equiv> 65536"
definition bufio_ErrTooLong :: go_error where "bufio_ErrTooLong = PlainError ''bufio.Scanner: token too long''"

definition dropCR :: "string \<Rightarrow> string" where
  "dropCR s = (if s \<noteq> [] \<and> last s = CHR 0x0D then butlast s else s)"

function scan_lines :: "string \<Rightarrow> string list \<times> go_error option" where
  "scan_lines s =
     (if s = [] then ([], None)
      else
        (let line = takeWhile (\<lambda>c. c \<noteq> newline) s in
         if length line \<ge> MaxScanTokenSize then ([], Some bufio_ErrTooLong)
         else (case scan_lines (drop (length line + 1) s) of (ls, err) \<Rightarrow> (dropCR line # ls, err))))"
  by pat_completeness auto
termination
  by (relation "measure length") auto

declare scan_lines.simps [simp del]

text \<open>Opening the file: an error, which may be that there is none, or what can be read and the error it ends with.\<close>

definition History_Load :: "(bool \<times> go_error) + (string \<times> go_error option) \<Rightarrow> history \<Rightarrow> history \<times> go_error option" where
  "History_Load opened h =
     (case opened of
        Inl (notExist, err) \<Rightarrow> (h, if notExist then None else Some err)
      | Inr (content, readErr) \<Rightarrow>
          (case scan_lines content of
             (ls, err) \<Rightarrow> (h \<lparr> hi_entries := hi_entries h @ ls \<rparr>, if err \<noteq> None then err else readErr)))"

text \<open>A write that fails has written the given number of bytes.\<close>

record save_calls =
  hy_MkdirAll :: "go_error option"
  hy_Create :: "go_error option"
  hy_Write :: "nat \<Rightarrow> (nat \<times> go_error) option"

fun write_entries :: "(nat \<Rightarrow> (nat \<times> go_error) option) \<Rightarrow> nat \<Rightarrow> string list \<Rightarrow> string \<times> go_error option" where
  "write_entries wr k [] = ('''', None)"
| "write_entries wr k (e # es) =
     (case wr k of
        Some (n, err) \<Rightarrow> (take n (e @ nl), Some err)
      | None \<Rightarrow> (case write_entries wr (Suc k) es of (t, err) \<Rightarrow> (e @ nl @ t, err)))"

text \<open>The new content of the file, unless it was not created.\<close>

definition History_Save :: "save_calls \<Rightarrow> history \<Rightarrow> string option \<times> go_error option" where
  "History_Save C h =
     (case hy_MkdirAll C of
        Some err \<Rightarrow> (None, Some err)
      | None \<Rightarrow>
          (case hy_Create C of
             Some err \<Rightarrow> (None, Some err)
           | None \<Rightarrow> (case write_entries (hy_Write C) 0 (hi_entries h) of (t, err) \<Rightarrow> (Some t, err))))"

section \<open>Completion and the loop\<close>

definition completer_commands :: "string list" where
  "completer_commands =
     [''session'', ''session list'', ''session get'', ''session create'', ''session delete'', ''session extend'',
      ''apikey'', ''apikey list'', ''apikey create'', ''apikey delete'',
      ''config'', ''config show'', ''config set'', ''config get'',
      ''backup'', ''backup create'', ''backup restore'', ''backup list'',
      ''system'', ''system status'', ''system info'', ''system health'',
      ''connect'', ''disconnect'', ''use'', ''help'', ''exit'', ''quit'']"

definition Complete :: "string \<Rightarrow> string list" where
  "Complete pfx = filter (\<lambda>cmd. HasPrefix cmd pfx) completer_commands"

definition repl_execute :: "string \<Rightarrow> go_error option" where
  "repl_execute line = None"

abbreviation repl_prompt :: string where "repl_prompt \<equiv> ''tokmesh> ''"

text \<open>The input and the error it ends with, \<open>None\<close> for its end. The result is the history, what was printed, and the error.\<close>

function REPL_Run :: "history \<Rightarrow> string \<Rightarrow> go_error option \<Rightarrow> history \<times> string \<times> go_error option" where
  "REPL_Run h inp fin =
     (if newline \<notin> set inp then (h, repl_prompt @ (if fin = None then nl else ''''), fin)
      else
        (let raw = takeWhile (\<lambda>c. c \<noteq> newline) inp;
             rest = drop (length raw + 1) inp;
             line = TrimSpace (raw @ nl);
             more = (\<lambda>h' printed. case REPL_Run h' rest fin of (h'', out, err) \<Rightarrow> (h'', repl_prompt @ printed @ out, err))
         in if line = '''' then more h ''''
            else if line = ''exit'' \<or> line = ''quit'' then (History_Add h line, repl_prompt, None)
            else (case repl_execute line of
                    None \<Rightarrow> more (History_Add h line) ''''
                  | Some err \<Rightarrow> more (History_Add h line) (''Error: '' @ Error err @ nl))))"
  by pat_completeness auto
termination
  by (relation "measure (\<lambda>(h, inp, fin). length inp)") (auto intro!: diff_less length_pos_if_in_set)

declare REPL_Run.simps [simp del]

section \<open>Connections\<close>

record connection =
  cn_Name :: string
  cn_Server :: string
  cn_KeyID :: string
  cn_Key :: string
  cn_TLS :: bool

type_synonym manager = "connection option"

definition Manager_Connect :: "connection \<Rightarrow> manager \<Rightarrow> manager \<times> go_error option" where
  "Manager_Connect conn m = (Some conn, None)"

definition Manager_Disconnect :: "manager \<Rightarrow> manager" where
  "Manager_Disconnect m = None"

definition IsConnected :: "manager \<Rightarrow> bool" where
  "IsConnected m \<longleftrightarrow> m \<noteq> None"

text \<open>The manager of the application, absent when it was not made.\<close>

definition connectAction :: "cli_context \<Rightarrow> manager option \<Rightarrow> manager option cli_result" where
  "connectAction c mgr =
     (let flags = ParseGlobalFlags c;
          server = (if ct_First c = '''' then gf_Server flags else ct_First c)
      in case mgr of
           None \<Rightarrow> (mgr, '''', Some (PlainError ''connection manager not initialized''))
         | Some m \<Rightarrow>
             (case Manager_Connect \<lparr> cn_Name = ct_String c ''name'', cn_Server = server, cn_KeyID = gf_APIKeyID flags, cn_Key = gf_APIKey flags,
                       cn_TLS = False \<rparr> m of
                (m', Some err) \<Rightarrow> (Some m', '''', Some (WrapError ''connect failed'' err))
              | (m', None) \<Rightarrow> (Some m', ''Connected to '' @ server @ nl, None)))"

definition disconnectAction :: "manager option \<Rightarrow> manager option cli_result" where
  "disconnectAction mgr =
     (case mgr of
        None \<Rightarrow> (mgr, '''', Some (PlainError ''connection manager not initialized''))
      | Some m \<Rightarrow>
          if \<not> IsConnected m then (mgr, ''Not connected to any server'' @ nl, None)
          else (Some (Manager_Disconnect m), ''Disconnected'' @ nl, None))"

definition useAction :: "cli_context \<Rightarrow> manager option \<Rightarrow> manager option cli_result" where
  "useAction c mgr =
     (if ct_First c = '''' then (mgr, '''', Some (PlainError ''connection name required''))
      else (mgr, ''Switching to connection: '' @ ct_First c @ nl, None))"

section \<open>Configuration commands\<close>

text \<open>A file: it does not exist, or reading it has an outcome.\<close>

type_synonym file_outcome = "(go_error + string) option"

definition cli_config_path :: "string \<Rightarrow> string" where
  "cli_config_path homeDir = homeDir @ ''/.config/tokmesh-cli/cli.yaml''"

definition configCLIShow :: "string \<Rightarrow> file_outcome \<Rightarrow> string \<times> go_error option" where
  "configCLIShow homeDir file =
     (let head = ''CLI Configuration'' @ nl @ ''================='' @ nl @ nl @ ''Config file: '' @ cli_config_path homeDir @ nl @ nl in
      case file of
        None \<Rightarrow> (head @ ''(No configuration file found)'' @ nl @ nl @ ''Default settings:'' @ nl @ ''  Server:   localhost:5080'' @ nl @
                 ''  Output:   table'' @ nl @ ''  Timeout:  30s'' @ nl, None)
      | Some (Inl err) \<Rightarrow> (head, Some (WrapError ''read config'' err))
      | Some (Inr content) \<Rightarrow> (head @ content @ nl, None))"

definition configCLIValidate :: "string \<Rightarrow> file_outcome \<Rightarrow> string \<times> go_error option" where
  "configCLIValidate homeDir file =
     (case file of
        None \<Rightarrow> (''No configuration file found at '' @ cli_config_path homeDir @ nl @ ''Using default settings.'' @ nl, None)
      | Some (Inl err) \<Rightarrow> ('''', Some (WrapError ''cannot read config'' err))
      | Some (Inr content) \<Rightarrow> (check_mark @ '' Configuration file is valid: '' @ cli_config_path homeDir @ nl, None))"

definition configServerShow :: "'f cli_output \<Rightarrow> 's client_calls \<Rightarrow> cli_context \<Rightarrow> 's \<Rightarrow> 's cli_result" where
  "configServerShow W N c s =
     with_reply (HTTPClient_Get N (EnsureConnected c) (''/admin/v1/config'' @ (if ct_Bool c ''merged'' then ''?merged=true'' else '''')) s)
       (Some dec_any) (JObj []) ''''
       (\<lambda>j. out_Format W (gf_Output (ParseGlobalFlags c)) (gf_Wide (ParseGlobalFlags c)) j)"

definition dec_validation :: "json \<Rightarrow> go_error + bool \<times> string list" where
  "dec_validation v = dec_struct [''valid'', ''errors'']
     (\<lambda>n x r. if n = ''valid'' then map_sum id (\<lambda>b. (b, snd r)) (dec_bool x (fst r))
              else map_sum id (\<lambda>l. (fst r, items_of l)) (dec_nil_slice (\<lambda>y. dec_string y '''') x)) v (False, [])"

definition configServerTest :: "'s client_calls \<Rightarrow> (string \<Rightarrow> go_error + string) \<Rightarrow> cli_context \<Rightarrow> 's \<Rightarrow> 's cli_result" where
  "configServerTest N ReadFile c s =
     (if ct_First c = '''' then (s, '''', Some (PlainError ''configuration file path required''))
      else
        (case ReadFile (ct_First c) of
           Inl err \<Rightarrow> (s, '''', Some (WrapError ''read file'' err))
         | Inr content \<Rightarrow>
             if \<not> ct_Bool c ''remote'' then
               (s, ''[LOCAL] Testing configuration syntax...'' @ nl @ check_mark @ '' Configuration syntax is valid.'' @ nl, None)
             else
               with_reply (HTTPClient_Post N (EnsureConnected c) ''/admin/v1/config/validate'' (Some (JObj [(''content'', JStr content)])) s)
                 (Some dec_validation) (False, []) ''''
                 (\<lambda>(valid, errors).
                    let head = ''[REMOTE: '' @ gf_Server (ParseGlobalFlags c) @ ''] Testing configuration...'' @ nl in
                    if valid then (head @ check_mark @ '' Configuration is valid and compatible with server.'' @ nl, None)
                    else (head @ cross_mark @ '' Configuration validation failed:'' @ nl @
                            concat (map (\<lambda>e. ''  - '' @ e @ nl) errors),
                          Some (PlainError ''validation failed'')))))"

definition configServerReload :: "'s client_calls \<Rightarrow> cli_context \<Rightarrow> 's \<Rightarrow> 's cli_result" where
  "configServerReload N c s =
     with_reply (HTTPClient_Post N (EnsureConnected c) ''/admin/v1/config/reload'' None s) None ()
       (''Reloading server configuration...'' @ nl)
       (\<lambda>_. (check_mark @ '' Server configuration reloaded successfully.'' @ nl, None))"

section \<open>The local server\<close>

text \<open>The commands of the handler: what is written for each, and the outcome of the write.\<close>

definition local_Execute :: "go_error option \<Rightarrow> string \<Rightarrow> string \<times> go_error option" where
  "local_Execute writeErr cmd =
     (if cmd \<in> {''status'', ''shutdown'', ''reload'', ''drain''} then ('''', None) else (''unknown command: '' @ cmd @ nl, writeErr))"

text \<open>A connection is closed without being read; the bytes that its peer receives.\<close>

definition handleConnection :: "string \<Rightarrow> string" where
  "handleConnection received = ''''"

record local_server =
  ls_listener :: "bool option"
  ls_running :: bool
  ls_wg :: nat

definition local_New :: local_server where
  "local_New = \<lparr> ls_listener = None, ls_running = False, ls_wg = 0 \<rparr>"

text \<open>\<open>ListenAndServe\<close> up to its loop, and one turn of the loop: a connection, or an error, after which it returns.\<close>

definition local_Listen :: "go_error option \<Rightarrow> local_server \<Rightarrow> local_server \<times> go_error option" where
  "local_Listen listenErr s =
     (case listenErr of
        Some err \<Rightarrow> (s \<lparr> ls_listener := None \<rparr>, Some err)
      | None \<Rightarrow> (s \<lparr> ls_listener := Some True, ls_running := True \<rparr>, None))"

definition local_Accept :: "(go_error \<times> bool) option \<Rightarrow> local_server \<Rightarrow> local_server \<times> go_error option option" where
  "local_Accept acceptErr s =
     (case acceptErr of
        None \<Rightarrow> (s \<lparr> ls_wg := ls_wg s + 1 \<rparr>, None)
      | Some (err, isClosed) \<Rightarrow> (s, Some (if \<not> ls_running s \<or> isClosed then None else Some err)))"

definition local_conn_done :: "local_server \<Rightarrow> local_server" where
  "local_conn_done s = s \<lparr> ls_wg := ls_wg s - 1 \<rparr>"

text \<open>\<open>Shutdown\<close> up to its wait, and the wait, which ends when no connection is left or with the error of the context.\<close>

definition local_Shutdown :: "go_error option \<Rightarrow> local_server \<Rightarrow> local_server \<times> go_error option" where
  "local_Shutdown closeErr s =
     (s \<lparr> ls_running := False, ls_listener := map_option (\<lambda>_. False) (ls_listener s) \<rparr>,
      if ls_listener s = None then None else closeErr)"

definition local_Wait :: "go_error option \<Rightarrow> go_error option \<Rightarrow> local_server \<Rightarrow> go_error option option" where
  "local_Wait ctxErr closeErr s =
     (case ctxErr of Some err \<Rightarrow> Some (Some err) | None \<Rightarrow> if ls_wg s = 0 then Some closeErr else None)"

text \<open>The client of the socket: the outcome of dialling and writing, and what the peer sends before it closes.\<close>

definition Socket_Execute :: "go_error option \<Rightarrow> go_error option \<Rightarrow> (string \<Rightarrow> string) \<Rightarrow> string \<Rightarrow> string \<times> go_error option" where
  "Socket_Execute dialErr writeErr peer cmd =
     (case dialErr of
        Some err \<Rightarrow> ('''', Some err)
      | None \<Rightarrow>
          (case writeErr of
             Some err \<Rightarrow> ('''', Some err)
           | None \<Rightarrow>
               (let reply = peer (cmd @ nl) in
                if newline \<in> set reply then (takeWhile (\<lambda>c. c \<noteq> newline) reply @ nl, None) else ('''', Some io_EOF))))"

section \<open>A saved history\<close>

definition history_line :: "string \<Rightarrow> bool" where
  "history_line e \<longleftrightarrow> newline \<notin> set e \<and> dropCR e = e \<and> length e < MaxScanTokenSize"

lemma scan_lines_line: "newline \<notin> set e \<Longrightarrow> length e < MaxScanTokenSize \<Longrightarrow>
    scan_lines (e @ nl @ r) = (case scan_lines r of (ls, err) \<Rightarrow> (dropCR e # ls, err))"
proof -
  assume e: "newline \<notin> set e" "length e < MaxScanTokenSize"
  then have "takeWhile (\<lambda>c. c \<noteq> newline) (e @ nl @ r) = e" by (induction e) auto
  with e(2) show ?thesis by (subst scan_lines.simps) (simp add: Let_def)
qed

lemma write_scan: "list_all history_line es \<Longrightarrow> \<exists>t. write_entries (\<lambda>_. None) k es = (t, None) \<and> scan_lines t = (es, None)"
proof (induction es arbitrary: k)
  case (Cons e es)
  then obtain t where "write_entries (\<lambda>_. None) (Suc k) es = (t, None)" "scan_lines t = (es, None)" by fastforce
  moreover have "scan_lines (e @ nl @ t) = (case scan_lines t of (ls, err) \<Rightarrow> (dropCR e # ls, err))"
    using Cons.prems(1) by (intro scan_lines_line) (simp_all add: history_line_def)
  ultimately show ?case using Cons.prems by (simp add: history_line_def)
qed (simp add: scan_lines.simps)

text \<open>What was saved is loaded: a new history that loads the file written by \<open>Save\<close> has the same entries, if they are lines.\<close>

lemma history_save_load:
  assumes "list_all history_line (hi_entries h)" "hy_MkdirAll C = None" "hy_Create C = None" "hy_Write C = (\<lambda>_. None)"
  shows "\<exists>t. History_Save C h = (Some t, None) \<and> History_Load (Inr (t, None)) (NewHistory f) = ((NewHistory f) \<lparr> hi_entries := hi_entries h \<rparr>, None)"
  using write_scan [OF assms(1), of 0] assms(2-4) by (auto simp: History_Save_def History_Load_def NewHistory_def)

text \<open>A line that was loaded is one that can be saved, unless it ends with a second carriage return.\<close>

lemma scan_lines_no_newline: "\<forall>e \<in> set (fst (scan_lines s)). newline \<notin> set e \<and> length e < MaxScanTokenSize"
proof (induction s rule: scan_lines.induct)
  case (1 s)
  show ?case
  proof (cases "s = [] \<or> length (takeWhile (\<lambda>c. c \<noteq> newline) s) \<ge> MaxScanTokenSize")
    case True
    then show ?thesis by (subst scan_lines.simps) (auto simp: Let_def)
  next
    case False
    let ?l = "takeWhile (\<lambda>c. c \<noteq> newline) s"
    have "set (dropCR ?l) \<subseteq> set ?l" "length (dropCR ?l) \<le> length ?l" by (auto simp: dropCR_def dest: in_set_butlastD)
    moreover have "newline \<notin> set ?l" by (auto dest: set_takeWhileD)
    ultimately have "newline \<notin> set (dropCR ?l)" "length (dropCR ?l) < MaxScanTokenSize" using False by auto
    then show ?thesis using 1 False by (subst scan_lines.simps) (auto simp: Let_def split: prod.splits)
  qed
qed

section \<open>The loop\<close>

text \<open>The last \<open>n\<close> elements of a list.\<close>

definition last_n :: "int \<Rightarrow> 'a list \<Rightarrow> 'a list" where
  "last_n n xs = drop (nat (int (length xs) - n)) xs"

lemma History_Add_entries:
  assumes "hi_entries h = last_n (hi_maxSize h) xs" "0 \<le> hi_maxSize h"
  shows "hi_entries (History_Add h cmd) = last_n (hi_maxSize h) (xs @ [cmd])"
proof (cases "int (length xs) < hi_maxSize h")
  case False
  then have "nat (1 + int (length xs) - hi_maxSize h) = Suc (nat (int (length xs) - hi_maxSize h))" by linarith
  moreover have "int (length (hi_entries h)) = hi_maxSize h" using assms False by (simp add: nat_diff_distrib last_n_def)
  ultimately show ?thesis using assms False by (simp add: last_n_def History_Add_def Let_def drop_Suc drop_tl)
qed (use assms in \<open>simp add: last_n_def History_Add_def Let_def\<close>)

text \<open>The commands of an input: its trimmed lines that are not empty, up to the first that leaves.\<close>

fun until_exit :: "string list \<Rightarrow> string list" where
  "until_exit [] = []"
| "until_exit (l # ls) = (if l = '''' then until_exit ls else if l = ''exit'' \<or> l = ''quit'' then [l] else l # until_exit ls)"

definition repl_commands :: "string \<Rightarrow> string list" where
  "repl_commands inp = until_exit (map (\<lambda>l. TrimSpace (l @ nl)) (text_lines inp))"

lemma text_lines_step:
  "text_lines inp = (if newline \<in> set inp then takeWhile (\<lambda>c. c \<noteq> newline) inp # text_lines (drop (length (takeWhile (\<lambda>c. c \<noteq> newline) inp) + 1) inp) else [])"
proof (cases "newline \<in> set inp")
  case True
  then obtain a b where s: "inp = a @ newline # b" "newline \<notin> set a" by (meson split_list_first)
  then have "takeWhile (\<lambda>c. c \<noteq> newline) inp = a" by (induction a arbitrary: inp) auto
  with s True show ?thesis by (simp add: text_lines_def split_on_append)
qed (simp add: text_lines_def split_on_none)

lemma repl_commands_step:
  assumes "newline \<in> set inp" "raw = takeWhile (\<lambda>c. c \<noteq> newline) inp" "rest = drop (length raw + 1) inp" "line = TrimSpace (raw @ nl)"
  shows "repl_commands inp =
    (if line = '''' then repl_commands rest else if line = ''exit'' \<or> line = ''quit'' then [line] else line # repl_commands rest)"
  using text_lines_step [of inp] assms by (simp add: repl_commands_def)

lemma REPL_Run_step:
  assumes "newline \<in> set inp" "raw = takeWhile (\<lambda>c. c \<noteq> newline) inp" "rest = drop (length raw + 1) inp" "line = TrimSpace (raw @ nl)"
  shows "fst (REPL_Run h inp fin) =
    (if line = '''' then fst (REPL_Run h rest fin)
     else if line = ''exit'' \<or> line = ''quit'' then History_Add h line else fst (REPL_Run (History_Add h line) rest fin))"
  using assms by (subst REPL_Run.simps) (auto simp: Let_def repl_execute_def split: prod.splits)

text \<open>The loop ends on every input; its history holds the last commands, whether the input was left by a command or came to its end, and
  a last line without its end is not a command.\<close>

lemma repl_remembers:
  assumes "hi_entries h = last_n (hi_maxSize h) xs" "0 \<le> hi_maxSize h"
  shows "hi_entries (fst (REPL_Run h inp fin)) = last_n (hi_maxSize h) (xs @ repl_commands inp)"
  using assms
proof (induction "length inp" arbitrary: h inp xs rule: less_induct)
  case less
  show ?case
  proof (cases "newline \<in> set inp")
    case True
    define raw rest line where d: "raw = takeWhile (\<lambda>c. c \<noteq> newline) inp" "rest = drop (length raw + 1) inp" "line = TrimSpace (raw @ nl)"
    have l: "length rest < length inp" using True by (auto simp: d intro!: diff_less length_pos_if_in_set)
    have m: "hi_maxSize (History_Add h line) = hi_maxSize h" by (simp add: History_Add_def Let_def)
    have a: "hi_entries (History_Add h line) = last_n (hi_maxSize h) (xs @ [line])" by (rule History_Add_entries [OF less(2,3)])
    have "hi_entries (fst (REPL_Run (History_Add h line) rest fin)) = last_n (hi_maxSize h) ((xs @ [line]) @ repl_commands rest)"
      using less(1) [OF l, of "History_Add h line" "xs @ [line]"] a m less(3) by simp
    with less(1) [OF l less(2,3)] a show ?thesis
      unfolding REPL_Run_step [OF True d] repl_commands_step [OF True d] by simp
  next
    case False
    then show ?thesis using less(2) text_lines_step [of inp] by (subst REPL_Run.simps) (simp add: repl_commands_def)
  qed
qed

section \<open>What is not served\<close>

text \<open>The process has no route for the configuration: on the modelled server, where the multiplexer answers for itself as Go documents
  it, reloading, showing and testing the configuration end with an error and change nothing.\<close>

definition mux_not_found :: "http_request \<Rightarrow> http_response \<Rightarrow> http_response" where
  "mux_not_found rq w = w \<lparr> hw_Sent := Some (404, hw_Header w), hw_Body := ''404 page not found'' @ nl \<rparr>"

lemma not_found_text: "\<exists>e. json_Decode (\<lambda>v. dec_struct [''code'', ''message''] error_field v ('''', '''')) (bytes_of_string (''404 page not found'' @ nl)) = Inl e"
proof -
  have "\<not> (case json_Decode (\<lambda>v. dec_struct [''code'', ''message''] error_field v ('''', '''')) (bytes_of_string (''404 page not found'' @ nl)) of
      Inl _ \<Rightarrow> False | Inr _ \<Rightarrow> True)"
    by code_simp
  then show ?thesis by (auto split: sum.splits)
qed

lemma not_found_reply:
  "with_reply (s, Inr (404, bytes_of_string (''404 page not found'' @ nl))) target zero before cont =
    (s, before, Some (PlainError ''request failed with status 404''))"
proof -
  have "FormatInt 404 = ''404''" by code_simp
  then show ?thesis using not_found_text by (auto simp: with_reply_def ParseResponse_def)
qed

lemma config_request_fails:
  assumes "hx_mux C = mux_not_found" "url_Parse (api_url c path) = Inr (''admin'' # ''v1'' # ''config'' # segs, query)"
  shows "HTTPClient_Get (to_server url_Parse C) (EnsureConnected c) path s = (s, Inr (404, bytes_of_string (''404 page not found'' @ nl)))"
    and "HTTPClient_Post (to_server url_Parse C) (EnsureConnected c) path body s = (s, Inr (404, bytes_of_string (''404 page not found'' @ nl)))"
  using assms
  by (simp_all add: HTTPClient_Get_def HTTPClient_Post_def server_Do_def http_handler_of_def Handler_ServeHTTP_def mux_ServeHTTP_def registerRoutes_def
      mux_not_found_def)

lemma config_commands_fail:
  assumes "hx_mux C = mux_not_found"
    and "\<And>path. path \<in> {''/admin/v1/config'', ''/admin/v1/config?merged=true'', ''/admin/v1/config/validate'', ''/admin/v1/config/reload''} \<Longrightarrow>
      \<exists>segs query. url_Parse (api_url c path) = Inr (''admin'' # ''v1'' # ''config'' # segs, query)"
  shows "configServerReload (to_server url_Parse C) c s =
      (s, ''Reloading server configuration...'' @ nl, Some (PlainError ''request failed with status 404''))"
    and "configServerShow W (to_server url_Parse C) c s = (s, '''', Some (PlainError ''request failed with status 404''))"
    and "ct_Bool c ''remote'' \<Longrightarrow> fst (configServerTest (to_server url_Parse C) ReadFile c s) = s \<and>
      snd (snd (configServerTest (to_server url_Parse C) ReadFile c s)) \<noteq> None"
proof -
  have g: "HTTPClient_Get (to_server url_Parse C) (EnsureConnected c) path s = (s, Inr (404, bytes_of_string (''404 page not found'' @ nl)))"
    "HTTPClient_Post (to_server url_Parse C) (EnsureConnected c) path body s = (s, Inr (404, bytes_of_string (''404 page not found'' @ nl)))"
    if "path \<in> {''/admin/v1/config'', ''/admin/v1/config?merged=true'', ''/admin/v1/config/validate'', ''/admin/v1/config/reload''}" for path body
    using config_request_fails [OF assms(1)] assms(2) [OF that] by blast+
  show "configServerReload (to_server url_Parse C) c s =
      (s, ''Reloading server configuration...'' @ nl, Some (PlainError ''request failed with status 404''))"
    by (simp only: configServerReload_def g insert_iff simp_thms not_found_reply)
  show "configServerShow W (to_server url_Parse C) c s = (s, '''', Some (PlainError ''request failed with status 404''))"
    unfolding configServerShow_def by (cases "ct_Bool c ''merged''") (simp_all add: g not_found_reply [simplified])
  show "fst (configServerTest (to_server url_Parse C) ReadFile c s) = s \<and>
      snd (snd (configServerTest (to_server url_Parse C) ReadFile c s)) \<noteq> None" if "ct_Bool c ''remote''"
    using that by (simp add: configServerTest_def g not_found_reply [simplified] split: sum.splits)
qed

text \<open>The local socket answers nothing: whatever command is sent to the local server, the client ends with an error.\<close>

lemma local_socket_silent: "snd (Socket_Execute dialErr writeErr handleConnection cmd) \<noteq> None"
  by (simp add: Socket_Execute_def handleConnection_def split: option.splits)

text \<open>A shutdown of the local server that comes before it listens is lost: the server then listens, serves, and takes every connection.\<close>

lemma local_shutdown_lost:
  "ls_listener (fst (local_Listen None (fst (local_Shutdown closeErr local_New)))) = Some True \<and>
   ls_running (fst (local_Listen None (fst (local_Shutdown closeErr local_New)))) \<and>
   local_Wait None (snd (local_Shutdown closeErr local_New)) (fst (local_Shutdown closeErr local_New)) = Some None"
  by (simp add: local_Shutdown_def local_New_def local_Listen_def local_Wait_def)

end
