(* ===== verification/Snapshot_Encrypt.thy ===== *)
theory Snapshot_Encrypt
  imports Wal_Codec
begin

text \<open>
  Encryption at rest: the ciphers of \<open>pkg/crypto/adaptive\<close> and the key derivation of \<open>storage/snapshot/encrypt.go\<close>.

  The algorithms themselves (AES-GCM, ChaCha20-Poly1305, Argon2id, HKDF) and the random source are parameters: what is
  written here is how the code puts nonces, salts and keys together. An error that Go returns beside a nil pointer of
  a concrete type is kept apart from a nil interface.
\<close>

section \<open>Ciphers\<close>

record aead =
  ae_NonceSize :: nat
  ae_Overhead :: nat
  ae_Seal :: "bytes \<Rightarrow> bytes \<Rightarrow> bytes \<Rightarrow> bytes"
  ae_Open :: "bytes \<Rightarrow> bytes \<Rightarrow> bytes \<Rightarrow> go_error + bytes"

datatype cipher_type = CipherAESGCM | CipherChaCha20

text \<open>A value of the interface \<open>adaptive.Cipher\<close>: nil, a nil pointer of one of the types, or a cipher.\<close>

datatype cipher_value = NilInterface | NilPointer cipher_type | Cipher cipher_type aead

record crypto_calls =
  cx_NewGCM :: "bytes \<Rightarrow> go_error + aead"
  cx_NewChaCha :: "bytes \<Rightarrow> go_error + aead"
  cx_IDKey :: "bytes \<Rightarrow> bytes \<Rightarrow> bytes"
  cx_HKDF :: "bytes \<Rightarrow> string \<Rightarrow> nat \<Rightarrow> go_error + bytes"
  cx_Read :: "nat \<Rightarrow> go_error + bytes"
  cx_GOARCH :: string

definition hasAESNI :: "crypto_calls \<Rightarrow> bool" where
  "hasAESNI X \<longleftrightarrow> cx_GOARCH X \<in> {''amd64'', ''arm64''}"

definition NewAESGCM :: "crypto_calls \<Rightarrow> bytes \<Rightarrow> cipher_value \<times> go_error option" where
  "NewAESGCM X key =
     (if length key \<notin> {16, 24, 32} then
        (NilPointer CipherAESGCM, Some (PlainError ''invalid key size for AES-GCM: must be 16, 24, or 32 bytes''))
      else
        (case cx_NewGCM X key of
           Inl err \<Rightarrow> (NilPointer CipherAESGCM, Some err)
         | Inr a \<Rightarrow> (Cipher CipherAESGCM a, None)))"

definition NewChaCha20 :: "crypto_calls \<Rightarrow> bytes \<Rightarrow> cipher_value \<times> go_error option" where
  "NewChaCha20 X key =
     (if length key \<noteq> 32 then
        (NilPointer CipherChaCha20, Some (PlainError ''invalid key size for ChaCha20-Poly1305: must be 32 bytes''))
      else
        (case cx_NewChaCha X key of
           Inl err \<Rightarrow> (NilPointer CipherChaCha20, Some err)
         | Inr a \<Rightarrow> (Cipher CipherChaCha20 a, None)))"

definition adaptive_New :: "crypto_calls \<Rightarrow> bytes \<Rightarrow> cipher_value \<times> go_error option" where
  "adaptive_New X key = (if hasAESNI X then NewAESGCM X key else NewChaCha20 X key)"

definition NewWithType :: "crypto_calls \<Rightarrow> bytes \<Rightarrow> string \<Rightarrow> cipher_value \<times> go_error option" where
  "NewWithType X key cipherType =
     (if cipherType = ''aes-gcm'' then NewAESGCM X key
      else if cipherType = ''chacha20-poly1305'' then NewChaCha20 X key
      else (NilInterface, Some (PlainError (''unknown cipher type: '' @ cipherType))))"

definition base_encrypt :: "go_error + bytes \<Rightarrow> aead \<Rightarrow> bytes \<Rightarrow> bytes \<Rightarrow> go_error + bytes" where
  "base_encrypt random a plaintext additionalData =
     (case random of
        Inl err \<Rightarrow> Inl err
      | Inr nonce \<Rightarrow> Inr (nonce @ ae_Seal a nonce plaintext additionalData))"

definition base_decrypt :: "aead \<Rightarrow> bytes \<Rightarrow> bytes \<Rightarrow> go_error + bytes" where
  "base_decrypt a ciphertext additionalData =
     (if length ciphertext < ae_NonceSize a then Inl (PlainError ''ciphertext too short'')
      else ae_Open a (take (ae_NonceSize a) ciphertext) (drop (ae_NonceSize a) ciphertext) additionalData)"

text \<open>The cipher that the log and the snapshots use; the nonce drawn for a text is \<open>nonce\<close> of it.\<close>

definition cipher_of :: "(bytes \<Rightarrow> go_error + bytes) \<Rightarrow> aead \<Rightarrow> cipher" where
  "cipher_of nonce a = \<lparr> ci_Encrypt = (\<lambda>p ad. base_encrypt (nonce p) a p ad), ci_Decrypt = base_decrypt a \<rparr>"

section \<open>Keys\<close>

definition ErrKeyTooShort :: go_error where "ErrKeyTooShort = PlainError ''snapshot: encryption key too short (minimum 16 bytes)''"
definition ErrPassphraseTooWeak :: go_error where
  "ErrPassphraseTooWeak = PlainError ''snapshot: passphrase too weak (minimum 8 characters)''"

abbreviation MinKeyLength :: nat where "MinKeyLength \<equiv> 16"
abbreviation MinPassphraseLength :: nat where "MinPassphraseLength \<equiv> 8"
abbreviation SaltLength :: nat where "SaltLength \<equiv> 16"
abbreviation argon2KeyLen :: nat where "argon2KeyLen \<equiv> 32"

text \<open>A salt that is nil is \<open>None\<close>.\<close>

record encryption_config =
  enc_Key :: bytes
  enc_Passphrase :: bytes
  enc_Salt :: "bytes option"
  enc_Algorithm :: string

definition ValidateConfig :: "encryption_config \<Rightarrow> go_error option" where
  "ValidateConfig cfg =
     (if length (enc_Passphrase cfg) > 0 then
        (if length (enc_Passphrase cfg) < MinPassphraseLength then Some ErrPassphraseTooWeak else None)
      else if length (enc_Key cfg) > 0 \<and> length (enc_Key cfg) < MinKeyLength then Some ErrKeyTooShort
      else None)"

definition DeriveKeyFromPassphrase :: "crypto_calls \<Rightarrow> bytes \<Rightarrow> bytes option \<Rightarrow> go_error + bytes" where
  "DeriveKeyFromPassphrase X passphrase salt0 =
     (case (case salt0 of
              None \<Rightarrow> map_sum (WrapError ''snapshot: derive key'') id (cx_Read X SaltLength)
            | Some salt \<Rightarrow> Inr salt) of
        Inl err \<Rightarrow> Inl err
      | Inr salt \<Rightarrow> Inr (salt @ cx_IDKey X passphrase salt))"

definition ExtractKeyFromDerived :: "bytes \<Rightarrow> go_error + bytes \<times> bytes" where
  "ExtractKeyFromDerived derived =
     (if length derived < SaltLength + argon2KeyLen then Inl (PlainError ''snapshot: invalid derived key length'')
      else Inr (take SaltLength derived, drop SaltLength derived))"

text \<open>The key and the salt of a configuration; \<open>None\<close> where there is no encryption.\<close>

definition config_key :: "crypto_calls \<Rightarrow> encryption_config \<Rightarrow> go_error + (bytes \<times> bytes option) option" where
  "config_key X cfg =
     (if length (enc_Passphrase cfg) > 0 then
        (case DeriveKeyFromPassphrase X (enc_Passphrase cfg) (enc_Salt cfg) of
           Inl err \<Rightarrow> Inl err
         | Inr derived \<Rightarrow>
             (case ExtractKeyFromDerived derived of
                Inl err \<Rightarrow> Inl err
              | Inr (salt, key) \<Rightarrow> Inr (Some (key, Some salt))))
      else if length (enc_Key cfg) > 0 then Inr (Some (enc_Key cfg, None))
      else Inr None)"

definition NewCipherFromConfig :: "crypto_calls \<Rightarrow> encryption_config \<Rightarrow> cipher_value \<times> bytes option \<times> go_error option" where
  "NewCipherFromConfig X cfg =
     (case ValidateConfig cfg of
        Some err \<Rightarrow> (NilInterface, None, Some err)
      | None \<Rightarrow>
          (case config_key X cfg of
             Inl err \<Rightarrow> (NilInterface, None, Some err)
           | Inr None \<Rightarrow> (NilInterface, None, None)
           | Inr (Some (key, salt)) \<Rightarrow>
               (let algo = (if enc_Algorithm cfg = '''' then ''aes-gcm'' else enc_Algorithm cfg) in
                if algo = ''aes-gcm'' then (case NewAESGCM X key of (c, err) \<Rightarrow> (c, salt, err))
                else if algo = ''chacha20-poly1305'' then (case NewChaCha20 X key of (c, err) \<Rightarrow> (c, salt, err))
                else (NilInterface, None, Some (PlainError (''snapshot: unsupported algorithm: '' @ algo))))))"

text \<open>A negative length panics.\<close>

definition DeriveSubkey :: "crypto_calls \<Rightarrow> bytes \<Rightarrow> string \<Rightarrow> int \<Rightarrow> (go_error + bytes) option" where
  "DeriveSubkey X masterKey info len =
     (if length masterKey < MinKeyLength then Some (Inl ErrKeyTooShort)
      else if len < 0 then None
      else Some (map_sum (WrapError ''snapshot: derive subkey'') id (cx_HKDF X masterKey info (nat len))))"

definition GenerateKey :: "crypto_calls \<Rightarrow> int \<Rightarrow> go_error + bytes" where
  "GenerateKey X len =
     (if len < int MinKeyLength then Inl ErrKeyTooShort
      else map_sum (WrapError ''snapshot: generate key'') id (cx_Read X (nat len)))"

definition ZeroKey :: "bytes \<Rightarrow> bytes" where
  "ZeroKey key = map (\<lambda>_. 0) key"

section \<open>What the libraries promise\<close>

definition aead_ok :: "aead \<Rightarrow> bool" where
  "aead_ok a \<longleftrightarrow> 0 < ae_NonceSize a \<and>
     (\<forall>n p ad. length n = ae_NonceSize a \<longrightarrow> ae_Open a n (ae_Seal a n p ad) ad = Inr p)"

text \<open>Argon2id gives the key length asked for, the ciphers accept the key sizes that they document, the random source fills
  the buffer.\<close>

definition crypto_ok :: "crypto_calls \<Rightarrow> bool" where
  "crypto_ok X \<longleftrightarrow> (\<forall>p s. length (cx_IDKey X p s) = argon2KeyLen) \<and>
     (\<forall>k. length k \<in> {16, 24, 32} \<longrightarrow> (\<exists>a. cx_NewGCM X k = Inr a \<and> aead_ok a)) \<and>
     (\<forall>k. length k = 32 \<longrightarrow> (\<exists>a. cx_NewChaCha X k = Inr a \<and> aead_ok a)) \<and>
     (\<forall>n b. cx_Read X n = Inr b \<longrightarrow> length b = n)"

lemma cipher_of_ok:
  assumes "aead_ok a" "nonce p = Inr n" "length n = ae_NonceSize a"
  shows "cipher_ok (cipher_of nonce a) p"
proof -
  have "n \<noteq> []" using assms by (auto simp: aead_ok_def)
  then show ?thesis using assms by (auto simp: cipher_ok_def cipher_of_def base_encrypt_def base_decrypt_def aead_ok_def)
qed

lemma decode_same_cipher: "ci_Decrypt c = ci_Decrypt c' \<Longrightarrow> decodeEntryFrame (Some c) = decodeEntryFrame (Some c')"
  unfolding decodeEntryFrame_def option.case by (simp only:)

lemma config_key_salt:
  assumes "crypto_ok X" "enc_Passphrase cfg \<noteq> []" "enc_Salt cfg = Some s"
  shows "config_key X cfg =
    (if length s < SaltLength then Inl (PlainError ''snapshot: invalid derived key length'')
     else Inr (Some (drop SaltLength (s @ cx_IDKey X (enc_Passphrase cfg) s), Some (take SaltLength s))))"
proof -
  have l: "length (cx_IDKey X (enc_Passphrase cfg) s) = 32" using assms(1) by (simp add: crypto_ok_def)
  show ?thesis using assms(2,3) by (simp add: config_key_def DeriveKeyFromPassphrase_def ExtractKeyFromDerived_def l)
qed

lemma config_key_fresh:
  assumes "enc_Passphrase cfg \<noteq> []" "cx_Read X SaltLength = Inr s"
  shows "config_key X (cfg \<lparr> enc_Salt := None \<rparr>) = config_key X (cfg \<lparr> enc_Salt := Some s \<rparr>)"
  using assms by (simp add: config_key_def DeriveKeyFromPassphrase_def)

lemma NewCipherFromConfig_key:
  assumes "config_key X cfg = config_key X' cfg'" "ValidateConfig cfg = ValidateConfig cfg'" "enc_Algorithm cfg = enc_Algorithm cfg'"
    "cx_NewGCM X = cx_NewGCM X'" "cx_NewChaCha X = cx_NewChaCha X'"
  shows "NewCipherFromConfig X cfg = NewCipherFromConfig X' cfg'"
proof -
  have e: "NewAESGCM X = NewAESGCM X'" "NewChaCha20 X = NewChaCha20 X'"
    using assms(4,5) by (simp_all add: fun_eq_iff NewAESGCM_def NewChaCha20_def)
  show ?thesis unfolding NewCipherFromConfig_def assms(1-3) e ..
qed

definition supported :: "string \<Rightarrow> bool" where
  "supported algo \<longleftrightarrow> algo \<in> {'''', ''aes-gcm'', ''chacha20-poly1305''}"

lemma NewCipherFromConfig_salt:
  assumes "crypto_ok X" "MinPassphraseLength \<le> length (enc_Passphrase cfg)" "enc_Salt cfg = Some s" "supported (enc_Algorithm cfg)"
  shows "length s = SaltLength \<Longrightarrow> \<exists>t a. NewCipherFromConfig X cfg = (Cipher t a, Some s, None) \<and> aead_ok a"
    and "length s \<noteq> SaltLength \<Longrightarrow> \<exists>c salt err. NewCipherFromConfig X cfg = (c, salt, Some err)"
proof -
  let ?k = "cx_IDKey X (enc_Passphrase cfg) s"
  have v: "ValidateConfig cfg = None" "enc_Passphrase cfg \<noteq> []" using assms(2) by (auto simp: ValidateConfig_def)
  have l: "length ?k = 32" using assms(1) by (simp add: crypto_ok_def)
  note K = config_key_salt [OF assms(1) v(2) assms(3)]
  have "\<exists>a. cx_NewGCM X ?k = Inr a \<and> aead_ok a" "\<exists>a. cx_NewChaCha X ?k = Inr a \<and> aead_ok a"
    using assms(1) l by (simp_all add: crypto_ok_def)
  then show "\<exists>t a. NewCipherFromConfig X cfg = (Cipher t a, Some s, None) \<and> aead_ok a" if "length s = SaltLength"
    using that v K l assms(4) by (auto simp: NewCipherFromConfig_def NewAESGCM_def NewChaCha20_def supported_def)
  show "\<exists>c salt err. NewCipherFromConfig X cfg = (c, salt, Some err)" if "length s \<noteq> SaltLength"
    using that v K l assms(4) by (auto simp: NewCipherFromConfig_def NewAESGCM_def NewChaCha20_def supported_def)
qed

section \<open>Properties\<close>


text \<open>A salt that is given must have 16 bytes: with a good passphrase and a supported algorithm, the cipher is made exactly for
  those; a shorter salt, an empty one included, is refused as a bad derived key, and the extra bytes of a longer one become part of
  the key, which the cipher refuses for its size.\<close>

lemma salt_must_have_length:
  assumes "crypto_ok X" "MinPassphraseLength \<le> length (enc_Passphrase cfg)" "supported (enc_Algorithm cfg)" "enc_Salt cfg = Some s"
  shows "snd (snd (NewCipherFromConfig X cfg)) = None \<longleftrightarrow> length s = SaltLength"
  using NewCipherFromConfig_salt [OF assms(1,2,4,3)] by (cases "length s = SaltLength") auto

text \<open>A cipher that adds a nonce and one byte.\<close>

definition demo_aead :: aead where
  "demo_aead = \<lparr> ae_NonceSize = 12, ae_Overhead = 1, ae_Seal = (\<lambda>n p ad. 7 # p),
     ae_Open = (\<lambda>n c ad. case c of [] \<Rightarrow> Inl (PlainError ''open'') | t # p \<Rightarrow> if t = 7 then Inr p else Inl (PlainError ''open'')) \<rparr>"

definition demo_crypto :: crypto_calls where
  "demo_crypto = \<lparr> cx_NewGCM = (\<lambda>k. Inr demo_aead), cx_NewChaCha = (\<lambda>k. Inr demo_aead), cx_IDKey = (\<lambda>p s. replicate 32 1),
     cx_HKDF = (\<lambda>k i n. Inr (replicate n 2)), cx_Read = (\<lambda>n. Inr (replicate n 3)), cx_GOARCH = ''amd64'' \<rparr>"

lemma demo_crypto_ok: "crypto_ok demo_crypto"
  by (simp add: crypto_ok_def demo_crypto_def aead_ok_def demo_aead_def)

abbreviation demo_passphrase :: encryption_config where
  "demo_passphrase \<equiv> \<lparr> enc_Key = [], enc_Passphrase = replicate 8 65, enc_Salt = None, enc_Algorithm = ''aes-gcm'' \<rparr>"

text \<open>The frame of an entry under that cipher.\<close>

lemma sealed_payload_length:
  "length (json_text (payload_json \<lparr> P_Timestamp = 1, P_SessionID = ''tmss-1'', P_Version = 1, P_Session = None,
     P_EncryptedSession = s \<rparr>)) \<le> 200 + 6 * length s"
proof -
  have "length (concat (map token_text [TStr ''ts'', TStr ''sid'', TStr ''tmss-1'', TStr ''ver'', TStr ''enc_session''])) \<le> 100"
    "FormatInt 1 = ''1''"
    by code_simp+
  then show ?thesis using json_escape_length [of s]
    by (simp add: payload_json_def json_text_def del: json_escape.simps)
qed

lemma demo_frame:
  "\<exists>f. encodeEntryFrame (Some (cipher_of (\<lambda>p. Inr (replicate 12 3)) demo_aead)) example_entry = Inr f \<and> length f < 2 ^ 32"
proof -
  let ?s = "example_session ''tmss-1'' ''u'' ''''"
  let ?enc = "b64_encode_padded std_alphabet (replicate 12 3 @ 7 # bytes_of_string (json_text (session_json ?s)))"
  let ?p = "\<lparr> P_Timestamp = 1, P_SessionID = ''tmss-1'', P_Version = 1, P_Session = None, P_EncryptedSession = ?enc \<rparr>"
  have "length (json_text (session_json ?s)) \<le> 400" by code_simp
  then have "length ?enc \<le> 900" using b64_padded_length [of std_alphabet "replicate 12 3 @ 7 # bytes_of_string (json_text (session_json ?s))"] by simp
  then have "length (json_text (payload_json ?p)) \<le> 5600" using sealed_payload_length [of ?enc] by linarith
  then have l: "9 + length (json_text (payload_json ?p)) < 2 ^ 32" by (rule order_le_less_trans [OF add_left_mono]) simp
  have "entry_payload (Some (cipher_of (\<lambda>p. Inr (replicate 12 3)) demo_aead)) example_entry = Inr ?p"
    by (simp add: example_entry_def entry_payload_def NewCreateEntry_def UnixMilli_def json_Marshal_session_def json_Marshal_def cipher_of_def
        base_encrypt_def demo_aead_def)
  from encode_fits [OF example_entry_ok(1) this l] l show ?thesis by auto
qed


lemma salt_must_have_length_example:
  "snd (snd (NewCipherFromConfig demo_crypto (demo_passphrase \<lparr> enc_Salt := Some (replicate 16 3) \<rparr>))) = None \<and>
   snd (snd (NewCipherFromConfig demo_crypto (demo_passphrase \<lparr> enc_Salt := Some (replicate 20 3) \<rparr>))) \<noteq> None"
  using salt_must_have_length [OF demo_crypto_ok, of "demo_passphrase \<lparr> enc_Salt := Some (replicate 16 3) \<rparr>" "replicate 16 3"]
    salt_must_have_length [OF demo_crypto_ok, of "demo_passphrase \<lparr> enc_Salt := Some (replicate 20 3) \<rparr>" "replicate 20 3"]
  by (simp add: supported_def)

end
