(* ===== verification/Badger_Engine.thy ===== *)
theory Badger_Engine
  imports Complex_Main Go_Hash Go_Os Domain_Session "HOL-Library.Sublist"
begin

text \<open>
  The embedded key-value engine, \<open>storage/badger.go\<close> with the configuration of \<open>storage/kv.go\<close>. The Badger database
  is a parameter: a record of the calls that the engine makes, over the state of an open database. A transaction is given by the
  writes that the function passed to \<open>Update\<close> makes in order, the first that is refused ending it.

  Log lines and the adapter that passes Badger's own log lines on are left out.
\<close>

section \<open>Configuration\<close>

record badger_config =
  bc_GCInterval :: string
  bc_GCThreshold :: rat
  bc_CacheSize :: int
  bc_ValueLogFileSize :: int
  bc_NumMemtables :: int
  bc_NumLevelZeroTables :: int
  bc_NumLevelZeroTablesStall :: int
  bc_SyncWrites :: bool
  bc_DetectConflicts :: bool

record kv_config =
  kv_Engine :: string
  kv_Dir :: string
  kv_Badger :: badger_config

record kv_stats =
  ks_TotalKeys :: u64
  ks_TotalSize :: u64
  ks_LSMSize :: u64
  ks_ValueLogSize :: u64
  ks_LastGCTime :: int
  ks_GCBytesReclaimed :: u64

definition DefaultBadgerConfig :: badger_config where
  "DefaultBadgerConfig =
     \<lparr> bc_GCInterval = ''10m'', bc_GCThreshold = 1 / 2, bc_CacheSize = 64 * 2 ^ 20, bc_ValueLogFileSize = 2 ^ 30, bc_NumMemtables = 2,
       bc_NumLevelZeroTables = 5, bc_NumLevelZeroTablesStall = 10, bc_SyncWrites = False, bc_DetectConflicts = False \<rparr>"

definition DefaultKVConfig :: "string \<Rightarrow> kv_config" where
  "DefaultKVConfig d = \<lparr> kv_Engine = ''badger'', kv_Dir = d, kv_Badger = DefaultBadgerConfig \<rparr>"

section \<open>The database\<close>

datatype kv_write = KvSet bytes bytes | KvDelete bytes

record 'd badger_lib =
  db_Get :: "'d \<Rightarrow> bytes \<Rightarrow> go_error + bytes"
  db_Update :: "'d \<Rightarrow> kv_write list \<Rightarrow> 'd \<times> go_error option"
  db_View :: "'d \<Rightarrow> go_error option"
  db_items :: "'d \<Rightarrow> bytes \<Rightarrow> (bytes \<times> (go_error + bytes)) list"
  db_Backup :: "'d \<Rightarrow> go_error + bytes"
  db_Load :: "'d \<Rightarrow> bytes \<Rightarrow> 'd \<times> go_error option"
  db_RunValueLogGC :: "rat \<Rightarrow> 'd \<Rightarrow> 'd \<times> go_error option"
  db_Size :: "'d \<Rightarrow> int \<times> int"
  db_Close :: "'d \<Rightarrow> 'd \<times> go_error option"

definition badger_ErrKeyNotFound :: go_error where "badger_ErrKeyNotFound = PlainError ''Key not found''"
definition badger_ErrNoRewrite :: go_error where
  "badger_ErrNoRewrite = PlainError ''Value log GC attempt didn't result in any cleanup''"

definition kv_ErrKeyNotFound :: go_error where "kv_ErrKeyNotFound = PlainError ''key not found''"

text \<open>The engine; \<open>be_stopped\<close> tells whether the channel \<open>stopCh\<close> is closed.\<close>

record 'd badger_engine =
  be_db :: 'd
  be_cfg :: badger_config
  be_lastGCTime :: int
  be_gcBytesReclaimed :: u64
  be_stopped :: bool

definition NewBadgerEngine :: "(kv_config \<Rightarrow> go_error + 'd) \<Rightarrow> kv_config \<Rightarrow> go_error + 'd badger_engine" where
  "NewBadgerEngine badger_Open cfg =
     (if kv_Dir cfg = '''' then Inl (PlainError ''badger: dir is required'')
      else
        (case badger_Open cfg of
           Inl err \<Rightarrow> Inl (WrapError ''badger: open db'' err)
         | Inr d \<Rightarrow>
             Inr \<lparr> be_db = d, be_cfg = kv_Badger cfg, be_lastGCTime = 0, be_gcBytesReclaimed = 0, be_stopped = False \<rparr>))"

section \<open>Keys and values\<close>

definition Uint64 :: "bytes \<Rightarrow> u64" where
  "Uint64 b = push_bit 32 (ucast (Uint32 b)) OR ucast (Uint32 (drop 4 b))"

definition Badger_Get :: "'d badger_lib \<Rightarrow> 'd badger_engine \<Rightarrow> bytes \<Rightarrow> go_error + bytes" where
  "Badger_Get lib e key =
     (case db_Get lib (be_db e) key of
        Inl err \<Rightarrow> Inl (if errors_Is err badger_ErrKeyNotFound then kv_ErrKeyNotFound else err)
      | Inr v \<Rightarrow> Inr v)"

definition badger_write :: "'d badger_lib \<Rightarrow> 'd badger_engine \<Rightarrow> kv_write list \<Rightarrow> 'd badger_engine \<times> go_error option" where
  "badger_write lib e ws = (case db_Update lib (be_db e) ws of (d, err) \<Rightarrow> (e \<lparr> be_db := d \<rparr>, err))"

definition Badger_Set :: "'d badger_lib \<Rightarrow> 'd badger_engine \<Rightarrow> bytes \<Rightarrow> bytes \<Rightarrow> 'd badger_engine \<times> go_error option" where
  "Badger_Set lib e key v = badger_write lib e [KvSet key v]"

definition Badger_Delete :: "'d badger_lib \<Rightarrow> 'd badger_engine \<Rightarrow> bytes \<Rightarrow> 'd badger_engine \<times> go_error option" where
  "Badger_Delete lib e key = badger_write lib e [KvDelete key]"

definition AppendEntry :: "'d badger_lib \<Rightarrow> 'd badger_engine \<Rightarrow> bytes \<Rightarrow> bytes \<Rightarrow> 'd badger_engine \<times> (go_error + u64)" where
  "AppendEntry lib e key v =
     (case Badger_Set lib e key v of
        (e', Some err) \<Rightarrow> (e', Inl err)
      | (e', None) \<Rightarrow> (e', Inr (if length key = 8 then Uint64 key else 0)))"

text \<open>The callback keeps a state of its own and answers whether to go on.\<close>

fun scan_items :: "(bytes \<Rightarrow> bytes \<Rightarrow> 's \<Rightarrow> 's \<times> bool) \<Rightarrow> (bytes \<times> (go_error + bytes)) list \<Rightarrow> 's \<Rightarrow> 's \<times> go_error option" where
  "scan_items fn [] s = (s, None)"
| "scan_items fn ((k, Inl err) # items) s = (s, Some err)"
| "scan_items fn ((k, Inr v) # items) s = (case fn k v s of (s', go) \<Rightarrow> if go then scan_items fn items s' else (s', None))"

definition Badger_Scan ::
  "'d badger_lib \<Rightarrow> 'd badger_engine \<Rightarrow> bytes \<Rightarrow> (bytes \<Rightarrow> bytes \<Rightarrow> 's \<Rightarrow> 's \<times> bool) \<Rightarrow> 's \<Rightarrow> 's \<times> go_error option" where
  "Badger_Scan lib e pre fn s =
     (case db_View lib (be_db e) of
        Some err \<Rightarrow> (s, Some err)
      | None \<Rightarrow> scan_items fn (db_items lib (be_db e) pre) s)"

text \<open>Pruning: the deletions of one transaction, and how many there are.\<close>

definition prune_keys :: "u64 \<Rightarrow> (bytes \<times> (go_error + bytes)) list \<Rightarrow> bytes list" where
  "prune_keys beforeOffset items = filter (\<lambda>k. length k = 8 \<and> Uint64 k < beforeOffset) (map fst items)"

definition Badger_Prune :: "'d badger_lib \<Rightarrow> 'd badger_engine \<Rightarrow> u64 \<Rightarrow> 'd badger_engine \<times> go_error option" where
  "Badger_Prune lib e beforeOffset = badger_write lib e (map KvDelete (prune_keys beforeOffset (db_items lib (be_db e) [])))"

section \<open>Snapshots\<close>

text \<open>The reader of a snapshot: its bytes and the temporary file, which goes when it is closed.\<close>

record snapshot_reader =
  sn_data :: bytes
  sn_path :: string

record tmp_calls =
  tm_CreateTemp :: "go_error + string"
  tm_Seek :: "go_error option"
  tm_Close :: "go_error option"
  tm_Remove :: "go_error option"

definition tmp_remove :: "tmp_calls \<Rightarrow> string \<Rightarrow> string list \<Rightarrow> string list" where
  "tmp_remove T path files = (if tm_Remove T = None then removeAll path files else files)"

definition SaveSnapshot ::
  "'d badger_lib \<Rightarrow> tmp_calls \<Rightarrow> string list \<Rightarrow> 'd badger_engine \<Rightarrow> string list \<times> (go_error + snapshot_reader)" where
  "SaveSnapshot lib T files e =
     (case tm_CreateTemp T of
        Inl err \<Rightarrow> (files, Inl (WrapError ''create temp file'' err))
      | Inr path \<Rightarrow>
          (case db_Backup lib (be_db e) of
             Inl err \<Rightarrow> (tmp_remove T path (path # files), Inl (WrapError ''backup'' err))
           | Inr data \<Rightarrow>
               (case tm_Seek T of
                  Some err \<Rightarrow> (tmp_remove T path (path # files), Inl (WrapError ''seek'' err))
                | None \<Rightarrow> (path # files, Inr \<lparr> sn_data = data, sn_path = path \<rparr>))))"

definition autoDeleteReader_Close :: "tmp_calls \<Rightarrow> string list \<Rightarrow> snapshot_reader \<Rightarrow> string list \<times> go_error option" where
  "autoDeleteReader_Close T files r =
     (tmp_remove T (sn_path r) files, if tm_Close T \<noteq> None then tm_Close T else tm_Remove T)"

record 'd restore_calls =
  rt_RemoveAll :: "go_error option"
  rt_MkdirAll :: "go_error option"
  rt_Open :: "go_error + 'd"

definition LoadSnapshot :: "'d badger_lib \<Rightarrow> 'd restore_calls \<Rightarrow> bytes \<Rightarrow> 'd badger_engine \<Rightarrow> 'd badger_engine \<times> go_error option" where
  "LoadSnapshot lib C data e =
     (case db_Close lib (be_db e) of
        (d, Some err) \<Rightarrow> (e \<lparr> be_db := d \<rparr>, Some (WrapError ''close current db'' err))
      | (d, None) \<Rightarrow>
     (case rt_RemoveAll C of
        Some err \<Rightarrow> (e \<lparr> be_db := d \<rparr>, Some (WrapError ''remove existing data'' err))
      | None \<Rightarrow>
     (case rt_MkdirAll C of
        Some err \<Rightarrow> (e \<lparr> be_db := d \<rparr>, Some (WrapError ''create db dir'' err))
      | None \<Rightarrow>
     (case rt_Open C of
        Inl err \<Rightarrow> (e \<lparr> be_db := d \<rparr>, Some (WrapError ''open new db'' err))
      | Inr new \<Rightarrow>
     (case db_Load lib new data of
        (new', Some err) \<Rightarrow> (e \<lparr> be_db := d \<rparr>, Some (WrapError ''load snapshot'' err))
      | (new', None) \<Rightarrow> (e \<lparr> be_db := new' \<rparr>, None))))))"

section \<open>Garbage collection\<close>

text \<open>The loop runs until the database has nothing to rewrite; the context is not looked at.\<close>

partial_function (option) gc_run :: "'d badger_lib \<Rightarrow> rat \<Rightarrow> 'd \<Rightarrow> u64 \<Rightarrow> ('d \<times> u64 \<times> go_error option) option" where
  "gc_run lib threshold d reclaimed =
     (case db_RunValueLogGC lib threshold d of
        (d', None) \<Rightarrow> gc_run lib threshold d' (reclaimed + 2 ^ 20)
      | (d', Some err) \<Rightarrow> Some (d', reclaimed, if errors_Is err badger_ErrNoRewrite then None else Some (WrapError ''gc'' err)))"

declare gc_run.simps [code]

definition Badger_GC :: "'d badger_lib \<Rightarrow> int \<Rightarrow> 'd badger_engine \<Rightarrow> ('d badger_engine \<times> u64 \<times> go_error option) option" where
  "Badger_GC lib now e =
     map_option
       (\<lambda>(d, reclaimed, err).
          (case err of
             Some _ \<Rightarrow> e \<lparr> be_db := d \<rparr>
           | None \<Rightarrow> e \<lparr> be_db := d, be_lastGCTime := UnixMilli now, be_gcBytesReclaimed := be_gcBytesReclaimed e + reclaimed \<rparr>,
           reclaimed, err))
       (gc_run lib (bc_GCThreshold (be_cfg e)) (be_db e) 0)"

text \<open>The interval of the loop; a ticker with an interval that is not positive panics.\<close>

definition gc_interval :: "(string \<Rightarrow> int option) \<Rightarrow> badger_config \<Rightarrow> int option" where
  "gc_interval time_ParseDuration cfg =
     (let interval = (case time_ParseDuration (bc_GCInterval cfg) of None \<Rightarrow> 600 * Second | Some i \<Rightarrow> i) in
      if interval \<le> 0 then None else Some interval)"

text \<open>The ticks until the engine stops, each with its time.\<close>

fun gcLoop :: "'d badger_lib \<Rightarrow> int list \<Rightarrow> 'd badger_engine \<Rightarrow> 'd badger_engine option" where
  "gcLoop lib [] e = Some e"
| "gcLoop lib (now # ticks) e = (case Badger_GC lib now e of None \<Rightarrow> None | Some (e', _, _) \<Rightarrow> gcLoop lib ticks e')"

section \<open>Statistics and closing\<close>

definition Badger_Stats :: "'d badger_lib \<Rightarrow> 'd badger_engine \<Rightarrow> kv_stats" where
  "Badger_Stats lib e =
     (case db_Size lib (be_db e) of
        (lsm, vlog) \<Rightarrow>
          \<lparr> ks_TotalKeys = 0, ks_TotalSize = word_of_int (lsm + vlog), ks_LSMSize = word_of_int lsm, ks_ValueLogSize = word_of_int vlog,
            ks_LastGCTime = be_lastGCTime e, ks_GCBytesReclaimed = be_gcBytesReclaimed e \<rparr>)"

text \<open>The gauges, in the units they are set in, and one tick of \<open>metricsUpdateLoop\<close>; times are in milliseconds before the
  division by 1000.\<close>

record badger_metrics =
  bm_LSMSize :: u64
  bm_ValueLogSize :: u64
  bm_TotalSize :: u64
  bm_LastGCTime :: int
  bm_GCReclaimed :: u64

definition metrics_tick :: "kv_stats \<Rightarrow> badger_metrics \<Rightarrow> badger_metrics" where
  "metrics_tick stats m =
     (let m = m \<lparr> bm_LSMSize := ks_LSMSize stats, bm_ValueLogSize := ks_ValueLogSize stats, bm_TotalSize := ks_TotalSize stats \<rparr>;
          m = (if ks_LastGCTime stats > 0 then m \<lparr> bm_LastGCTime := ks_LastGCTime stats \<rparr> else m)
      in if ks_GCBytesReclaimed stats > 0 then m \<lparr> bm_GCReclaimed := bm_GCReclaimed m + 0 \<rparr> else m)"

text \<open>The names under which the metrics are registered, the part of the program first. \<open>MustRegister\<close> panics for a name that the registry has.\<close>

definition badger_metric_names :: "string list" where
  "badger_metric_names = map ((@) ''tokmesh_badger_'')
     [''lsm_size_bytes'', ''value_log_size_bytes'', ''total_size_bytes'', ''last_gc_timestamp_seconds'', ''gc_bytes_reclaimed_total'']"

definition RegisterMetrics :: "string list \<Rightarrow> (string list \<times> badger_metrics) option" where
  "RegisterMetrics registry =
     (if list_ex (\<lambda>n. n \<in> set registry) badger_metric_names then None
      else Some (registry @ badger_metric_names,
                 \<lparr> bm_LSMSize = 0, bm_ValueLogSize = 0, bm_TotalSize = 0, bm_LastGCTime = 0, bm_GCReclaimed = 0 \<rparr>))"

text \<open>Closing twice closes a closed channel and panics.\<close>

definition Badger_Close :: "'d badger_lib \<Rightarrow> 'd badger_engine \<Rightarrow> ('d badger_engine \<times> go_error option) option" where
  "Badger_Close lib e =
     (if be_stopped e then None
      else
        (case db_Close lib (be_db e) of
           (d, err) \<Rightarrow> Some (e \<lparr> be_stopped := True, be_db := d \<rparr>, map_option (WrapError ''close db'') err)))"

section \<open>What Badger promises\<close>

text \<open>The contents of an open database as a map; a closed one has none. A read is right or an error, and not the engine's own error, a transaction has all of
  its writes or none, the items are those with the prefix, a closed database refuses everything, what was backed up is loaded into
  an empty database.\<close>

fun kv_apply :: "kv_write \<Rightarrow> (bytes \<rightharpoonup> bytes) \<Rightarrow> (bytes \<rightharpoonup> bytes)" where
  "kv_apply (KvSet k v) m = m(k \<mapsto> v)"
| "kv_apply (KvDelete k) m = m(k := None)"

type_synonym 'd contents = "'d \<Rightarrow> (bytes \<rightharpoonup> bytes) option"

definition badger_reads :: "'d badger_lib \<Rightarrow> 'd contents \<Rightarrow> bool" where
  "badger_reads lib con \<longleftrightarrow>
     (\<forall>d k. case db_Get lib d k of
        Inr v \<Rightarrow> (\<forall>m. con d = Some m \<longrightarrow> m k = Some v)
      | Inl err \<Rightarrow> err \<noteq> kv_ErrKeyNotFound \<and> (errors_Is err badger_ErrKeyNotFound \<longrightarrow> (\<forall>m. con d = Some m \<longrightarrow> m k = None)))"

definition badger_writes :: "'d badger_lib \<Rightarrow> 'd contents \<Rightarrow> bool" where
  "badger_writes lib con \<longleftrightarrow>
     (\<forall>d ws m. con d = Some m \<longrightarrow>
        con (fst (db_Update lib d ws)) = Some (if snd (db_Update lib d ws) = None then fold kv_apply ws m else m))"

definition badger_lists :: "'d badger_lib \<Rightarrow> 'd contents \<Rightarrow> bool" where
  "badger_lists lib con \<longleftrightarrow> (\<forall>d m p. con d = Some m \<longrightarrow> set (map fst (db_items lib d p)) = {k. m k \<noteq> None \<and> prefix p k})"

definition badger_closes :: "'d badger_lib \<Rightarrow> 'd contents \<Rightarrow> bool" where
  "badger_closes lib con \<longleftrightarrow> (\<forall>d. con (fst (db_Close lib d)) = None) \<and>
     (\<forall>d k ws. con d = None \<longrightarrow> (\<exists>err. db_Get lib d k = Inl err \<and> \<not> errors_Is err badger_ErrKeyNotFound) \<and>
        (\<exists>err. db_Update lib d ws = (d, Some err)))"

definition badger_restores :: "'d badger_lib \<Rightarrow> 'd contents \<Rightarrow> bool" where
  "badger_restores lib con \<longleftrightarrow>
     (\<forall>d m b n n'. con d = Some m \<longrightarrow> db_Backup lib d = Inr b \<longrightarrow> con n = Some Map.empty \<longrightarrow> db_Load lib n b = (n', None) \<longrightarrow>
        con n' = Some m)"

definition badger_ok :: "'d badger_lib \<Rightarrow> 'd contents \<Rightarrow> bool" where
  "badger_ok lib con \<longleftrightarrow>
     badger_reads lib con \<and> badger_writes lib con \<and> badger_lists lib con \<and> badger_closes lib con \<and> badger_restores lib con"

lemma fold_deletes: "fold kv_apply (map KvDelete ks) m = m |` (- set ks)"
  by (induction ks arbitrary: m) (auto simp: restrict_map_def fun_eq_iff)

lemma badger_write_con:
  assumes "badger_ok lib con" "con (be_db e) = Some m" "badger_write lib e ws = (e', err)"
  shows "con (be_db e') = Some (if err = None then fold kv_apply ws m else m)"
proof -
  have "con (fst (db_Update lib (be_db e) ws)) = Some (if snd (db_Update lib (be_db e) ws) = None then fold kv_apply ws m else m)"
    using assms(1,2) unfolding badger_ok_def badger_writes_def by blast
  then show ?thesis using assms(3) by (auto simp: badger_write_def split: prod.splits)
qed

lemma Badger_Get_con:
  assumes "badger_ok lib con" "con (be_db e) = Some m"
  shows "Badger_Get lib e k = Inr x \<Longrightarrow> m k = Some x" "Badger_Get lib e k = Inl kv_ErrKeyNotFound \<Longrightarrow> m k = None"
proof -
  have "case db_Get lib (be_db e) k of
        Inr v \<Rightarrow> m k = Some v
      | Inl err \<Rightarrow> err \<noteq> kv_ErrKeyNotFound \<and> (errors_Is err badger_ErrKeyNotFound \<longrightarrow> m k = None)"
    using assms by (auto simp: badger_ok_def badger_reads_def split: sum.splits)
  then show "Badger_Get lib e k = Inr x \<Longrightarrow> m k = Some x" "Badger_Get lib e k = Inl kv_ErrKeyNotFound \<Longrightarrow> m k = None"
    by (auto simp: Badger_Get_def split: sum.splits if_splits)
qed

text \<open>An engine whose database is closed.\<close>

lemma closed_engine:
  assumes "badger_ok lib con" "con (be_db e) = None"
  shows "\<exists>x. Badger_Get lib e k = Inl x \<and> x \<noteq> kv_ErrKeyNotFound" "\<exists>x. Badger_Set lib e k v = (e, Some x)"
proof -
  have "\<exists>err. db_Get lib (be_db e) k = Inl err \<and> \<not> errors_Is err badger_ErrKeyNotFound" "\<exists>err. db_Update lib (be_db e) [KvSet k v] = (be_db e, Some err)"
    using assms by (simp_all add: badger_ok_def badger_closes_def)
  moreover have "db_Get lib (be_db e) k \<noteq> Inl kv_ErrKeyNotFound"
    using assms(1) [unfolded badger_ok_def badger_reads_def] by (auto dest!: conjunct1 spec [of _ "be_db e"] spec [of _ k])
  ultimately show "\<exists>x. Badger_Get lib e k = Inl x \<and> x \<noteq> kv_ErrKeyNotFound" "\<exists>x. Badger_Set lib e k v = (e, Some x)"
    by (auto simp: Badger_Get_def Badger_Set_def badger_write_def)
qed

lemma Uint64_PutUint64: "Uint64 (PutUint64 w) = w"
proof (rule bit_word_eqI)
  fix n assume "n < LENGTH(64)"
  then show "bit (Uint64 (PutUint64 w)) n = bit w n"
    by (cases "n < 32") (auto simp: Uint64_def PutUint64_def bit_simps)
qed

section \<open>Properties\<close>

text \<open>The engine is a map. Storing, deleting and appending change exactly their key or, with an error, nothing; appending under
  a log index answers the index; a value that is read is the one stored, and a key that is not found is not there. Pruning
  removes exactly the eight-byte keys below the offset, or, with an error, none at all.\<close>

lemma badger_refines_map:
  assumes "badger_ok lib con" "con (be_db e) = Some m"
  shows "con (be_db (fst (Badger_Set lib e k v))) = Some (if snd (Badger_Set lib e k v) = None then m(k \<mapsto> v) else m) \<and>
    con (be_db (fst (Badger_Delete lib e k))) = Some (if snd (Badger_Delete lib e k) = None then m(k := None) else m) \<and>
    (snd (AppendEntry lib e (PutUint64 i) v) = Inr i \<and> con (be_db (fst (AppendEntry lib e (PutUint64 i) v))) = Some (m(PutUint64 i \<mapsto> v)) \<or>
     (\<exists>err. snd (AppendEntry lib e (PutUint64 i) v) = Inl err) \<and> con (be_db (fst (AppendEntry lib e (PutUint64 i) v))) = Some m) \<and>
    (\<forall>x. Badger_Get lib e k = Inr x \<longrightarrow> m k = Some x) \<and> (Badger_Get lib e k = Inl kv_ErrKeyNotFound \<longrightarrow> m k = None) \<and>
    con (be_db (fst (Badger_Prune lib e off))) =
      Some (if snd (Badger_Prune lib e off) = None then m |` {x. \<not> (length x = 8 \<and> Uint64 x < off)} else m)"
proof (intro conjI)
  note W = badger_write_con [OF assms]
  show "con (be_db (fst (Badger_Set lib e k v))) = Some (if snd (Badger_Set lib e k v) = None then m(k \<mapsto> v) else m)"
    using W [of "[KvSet k v]"] by (cases "badger_write lib e [KvSet k v]") (auto simp: Badger_Set_def)
  show "con (be_db (fst (Badger_Delete lib e k))) = Some (if snd (Badger_Delete lib e k) = None then m(k := None) else m)"
    using W [of "[KvDelete k]"] by (cases "badger_write lib e [KvDelete k]") (auto simp: Badger_Delete_def)
  show "snd (AppendEntry lib e (PutUint64 i) v) = Inr i \<and> con (be_db (fst (AppendEntry lib e (PutUint64 i) v))) = Some (m(PutUint64 i \<mapsto> v)) \<or>
     (\<exists>err. snd (AppendEntry lib e (PutUint64 i) v) = Inl err) \<and> con (be_db (fst (AppendEntry lib e (PutUint64 i) v))) = Some m"
    using W [of "[KvSet (PutUint64 i) v]"]
    by (cases "badger_write lib e [KvSet (PutUint64 i) v]") (auto simp: AppendEntry_def Badger_Set_def Uint64_PutUint64 split: option.splits)
  show "\<forall>x. Badger_Get lib e k = Inr x \<longrightarrow> m k = Some x"
    using Badger_Get_con(1) [OF assms] by blast
  show "con (be_db (fst (Badger_Prune lib e off))) =
      Some (if snd (Badger_Prune lib e off) = None then m |` {x. \<not> (length x = 8 \<and> Uint64 x < off)} else m)"
  proof -
    let ?ks = "prune_keys off (db_items lib (be_db e) [])"
    have "set ?ks = {k. m k \<noteq> None \<and> length k = 8 \<and> Uint64 k < off}"
      using assms by (auto simp: prune_keys_def badger_ok_def badger_lists_def)
    then have "m |` (- set ?ks) = m |` {x. \<not> (length x = 8 \<and> Uint64 x < off)}"
      by (auto simp: restrict_map_def fun_eq_iff)
    then show ?thesis using W [of "map KvDelete ?ks"]
      by (cases "badger_write lib e (map KvDelete ?ks)") (auto simp: Badger_Prune_def fold_deletes)
  qed
  show "Badger_Get lib e k = Inl kv_ErrKeyNotFound \<longrightarrow> m k = None"
    using Badger_Get_con(2) [OF assms] by blast
qed

text \<open>Restoring a snapshot replaces the contents by those that were saved; but the old database is closed and removed first,
  so when a later step fails the engine is left with a closed database: no key can be read and nothing can be stored any more.\<close>

lemma badger_restore:
  assumes "badger_ok lib con" "con (be_db src) = Some m" "db_Backup lib (be_db src) = Inr data"
    and "\<forall>d. rt_Open C = Inr d \<longrightarrow> con d = Some Map.empty" "LoadSnapshot lib C data e = (e', err)"
  shows "if err = None then con (be_db e') = Some m
    else con (be_db e') = None \<and> (\<forall>k. \<exists>x. Badger_Get lib e' k = Inl x \<and> x \<noteq> kv_ErrKeyNotFound) \<and>
      (\<forall>k v. \<exists>x. Badger_Set lib e' k v = (e', Some x))"
proof -
  have l: "con (fst (db_Close lib (be_db e))) = None" using assms(1) by (simp add: badger_ok_def badger_closes_def)
  have r: "con n = Some Map.empty \<Longrightarrow> db_Load lib n data = (n', None) \<Longrightarrow> con n' = Some m" for n n'
    using assms(1-3) unfolding badger_ok_def badger_restores_def by blast
  have ok: "con (be_db e') = Some m" if "err = None"
    using assms(5) that assms(4) r by (auto simp: LoadSnapshot_def split: prod.splits option.splits sum.splits)
  have "con (be_db e') = None" if "err \<noteq> None"
    using assms(5) that l by (auto simp: LoadSnapshot_def split: prod.splits option.splits sum.splits)
  then show ?thesis using ok closed_engine [OF assms(1), of e'] by simp
qed

lemma gc_run_returns:
  assumes "\<And>d d'. db_RunValueLogGC lib th d = (d', None) \<Longrightarrow> mu d' < (mu d :: nat)"
  shows "\<exists>d' n r. n \<le> mu d \<and> gc_run lib th d t = Some (d', t + of_nat n * 2 ^ 20, r)"
proof (induction "mu d" arbitrary: d t rule: less_induct)
  case less
  show ?case
  proof (cases "db_RunValueLogGC lib th d")
    case (Pair d1 r1)
    show ?thesis
    proof (cases r1)
      case None
      with Pair have l: "mu d1 < mu d" using assms by simp
      from less [OF l, of "t + 2 ^ 20"] obtain d' n r where n: "n \<le> mu d1" "gc_run lib th d1 (t + 2 ^ 20) = Some (d', t + 2 ^ 20 + of_nat n * 2 ^ 20, r)"
        by blast
      have "gc_run lib th d t = Some (d', t + of_nat (Suc n) * 2 ^ 20, r)"
        using n(2) Pair None by (subst gc_run.simps) (simp add: algebra_simps)
      then show ?thesis using n(1) l by (intro exI [of _ d'] exI [of _ "Suc n"] exI [of _ r]) auto
    next
      case (Some err)
      then show ?thesis using Pair by (intro exI [of _ d1] exI [of _ 0]) (subst gc_run.simps, auto)
    qed
  qed
qed

text \<open>Garbage collection ends. If each rewrite of the value log makes something smaller, the loop returns after at most as many
  rewrites; it reports a megabyte for each, and adds them to the counter of the engine unless the last call failed.\<close>

lemma badger_gc_returns:
  assumes "\<And>d d'. db_RunValueLogGC lib (bc_GCThreshold (be_cfg e)) d = (d', None) \<Longrightarrow> mu d' < (mu d :: nat)"
  shows "\<exists>e' n err. n \<le> mu (be_db e) \<and> Badger_GC lib now e = Some (e', of_nat n * 2 ^ 20, err) \<and>
    be_gcBytesReclaimed e' = be_gcBytesReclaimed e + (if err = None then of_nat n * 2 ^ 20 else 0)"
proof -
  obtain d n r where "n \<le> mu (be_db e)" "gc_run lib (bc_GCThreshold (be_cfg e)) (be_db e) 0 = Some (d, 0 + of_nat n * 2 ^ 20, r)"
    using gc_run_returns [of lib "bc_GCThreshold (be_cfg e)" mu "be_db e" 0] assms by blast
  then show ?thesis by (cases r) (auto simp: Badger_GC_def intro!: exI [of _ n])
qed

section \<open>A small database\<close>

text \<open>An association list with a value log of so many files to rewrite; backups only know keys and values of one byte.\<close>

type_synonym demo_db = "(bytes \<times> bytes) list option \<times> nat"

fun demo_write :: "kv_write \<Rightarrow> (bytes \<times> bytes) list \<Rightarrow> (bytes \<times> bytes) list" where
  "demo_write (KvSet k v) l = (k, v) # l"
| "demo_write (KvDelete k) l = filter (\<lambda>(x, _). x \<noteq> k) l"

fun demo_dump :: "(bytes \<times> bytes) list \<Rightarrow> bytes option" where
  "demo_dump [] = Some []"
| "demo_dump (([a], [b]) # l) = map_option (\<lambda>r. a # b # r) (demo_dump l)"
| "demo_dump _ = None"

fun demo_undump :: "bytes \<Rightarrow> (bytes \<times> bytes) list" where
  "demo_undump (a # b # r) = ([a], [b]) # demo_undump r"
| "demo_undump _ = []"

definition demo_closed :: go_error where "demo_closed = PlainError ''DB Closed''"

definition demo_badger :: "demo_db badger_lib" where
  "demo_badger =
     \<lparr> db_Get = (\<lambda>(l, n) k. case l of
          None \<Rightarrow> Inl demo_closed
        | Some l \<Rightarrow> (case map_of l k of None \<Rightarrow> Inl badger_ErrKeyNotFound | Some v \<Rightarrow> Inr v)),
       db_Update = (\<lambda>(l, n) ws. case l of None \<Rightarrow> ((l, n), Some demo_closed) | Some l \<Rightarrow> ((Some (fold demo_write ws l), n), None)),
       db_View = (\<lambda>(l, n). case l of None \<Rightarrow> Some demo_closed | Some _ \<Rightarrow> None),
       db_items = (\<lambda>(l, n) p. case l of None \<Rightarrow> [] | Some l \<Rightarrow> map (\<lambda>(k, v). (k, Inr v)) (filter (\<lambda>(k, _). prefix p k) l)),
       db_Backup = (\<lambda>(l, n). case l of
          None \<Rightarrow> Inl demo_closed
        | Some l \<Rightarrow> (case demo_dump l of None \<Rightarrow> Inl (PlainError ''backup'') | Some b \<Rightarrow> Inr b)),
       db_Load = (\<lambda>(l, n) b. if odd (length b) then ((l, n), Some (PlainError ''truncated'')) else ((map_option (\<lambda>l. demo_undump b @ l) l, n), None)),
       db_RunValueLogGC = (\<lambda>th (l, n). case n of 0 \<Rightarrow> ((l, 0), Some badger_ErrNoRewrite) | Suc n \<Rightarrow> ((l, n), None)),
       db_Size = (\<lambda>(l, n). (0, int n)), db_Close = (\<lambda>(l, n). ((None, n), None)) \<rparr>"

definition demo_contents :: "demo_db contents" where
  "demo_contents d = map_option map_of (fst d)"

lemma map_of_without: "map_of (filter (\<lambda>(x, _). x \<noteq> k) l) = (map_of l)(k := None)"
  by (induction l) auto

lemma demo_write_map: "map_of (demo_write w l) = kv_apply w (map_of l)"
  by (cases w) (simp_all add: map_of_without)

lemma demo_writes_map: "map_of (fold demo_write ws l) = fold kv_apply ws (map_of l)"
  by (induction ws arbitrary: l) (simp_all add: demo_write_map)

lemma demo_undump_dump: "demo_dump l = Some b \<Longrightarrow> demo_undump b = l"
  by (induction l arbitrary: b rule: demo_dump.induct) auto

lemma demo_badger_ok: "badger_ok demo_badger demo_contents"
  unfolding badger_ok_def
proof (intro conjI)
  show "badger_reads demo_badger demo_contents"
    by (auto simp: badger_reads_def demo_badger_def demo_contents_def demo_closed_def badger_ErrKeyNotFound_def kv_ErrKeyNotFound_def split: option.splits)
  show "badger_writes demo_badger demo_contents"
    by (auto simp: badger_writes_def demo_badger_def demo_contents_def demo_writes_map)
  show "badger_lists demo_badger demo_contents"
    unfolding badger_lists_def
  proof (intro allI impI)
    fix d m p assume "demo_contents d = Some m"
    then obtain l n where d: "d = (Some l, n)" "m = map_of l" by (cases d) (auto simp: demo_contents_def)
    show "set (map fst (db_items demo_badger d p)) = {k. m k \<noteq> None \<and> prefix p k}"
      unfolding d by (auto simp: demo_badger_def map_of_eq_None_iff image_iff) (force+)
  qed
  show "badger_closes demo_badger demo_contents"
    by (auto simp: badger_closes_def demo_badger_def demo_contents_def demo_closed_def badger_ErrKeyNotFound_def)
  show "badger_restores demo_badger demo_contents"
    by (auto simp: badger_restores_def demo_badger_def demo_contents_def demo_undump_dump split: option.splits if_splits)
qed

abbreviation demo_engine :: "(bytes \<times> bytes) list \<Rightarrow> nat \<Rightarrow> demo_db badger_engine" where
  "demo_engine l n \<equiv> \<lparr> be_db = (Some l, n), be_cfg = DefaultBadgerConfig, be_lastGCTime = 0, be_gcBytesReclaimed = 0, be_stopped = False \<rparr>"

lemma badger_refines_map_example:
  "demo_contents (be_db (fst (Badger_Prune demo_badger (demo_engine [(PutUint64 3, [1]), (PutUint64 9, [2]), ([7], [3])] 0) 5))) =
     Some (map_of [(PutUint64 9, [2]), ([7], [3])])"
proof -
  let ?l = "[(PutUint64 3, [1]), (PutUint64 9, [2]), ([7], [3])] :: (bytes \<times> bytes) list"
  have c: "demo_contents (be_db (demo_engine ?l 0)) = Some (map_of ?l)" by (simp add: demo_contents_def)
  have "snd (Badger_Prune demo_badger (demo_engine ?l 0) 5) = None" by (simp add: Badger_Prune_def badger_write_def demo_badger_def)
  then have "demo_contents (be_db (fst (Badger_Prune demo_badger (demo_engine ?l 0) 5))) =
      Some (map_of ?l |` {x. \<not> (length x = 8 \<and> Uint64 x < 5)})"
    using badger_refines_map [OF demo_badger_ok c, of "[]" "[]" 0 5] by simp
  moreover have "[7] \<noteq> PutUint64 3" by (auto dest: arg_cong [of _ _ length])
  moreover have "PutUint64 9 \<noteq> PutUint64 3"
  proof
    assume "PutUint64 9 = PutUint64 3"
    then have "Uint64 (PutUint64 9) = Uint64 (PutUint64 3)" by simp
    then show False by (simp add: Uint64_PutUint64)
  qed
  ultimately show ?thesis by (auto simp: restrict_map_def fun_eq_iff Uint64_PutUint64)
qed

abbreviation demo_restore :: "demo_db restore_calls" where
  "demo_restore \<equiv> \<lparr> rt_RemoveAll = None, rt_MkdirAll = None, rt_Open = Inr (Some [], 0) \<rparr>"

lemma badger_restore_example:
  "\<exists>e err. LoadSnapshot demo_badger (demo_restore \<lparr> rt_MkdirAll := Some io_EOF \<rparr>) [1, 2] (demo_engine [([9], [9])] 0) = (e, Some err) \<and>
     (\<forall>k. \<exists>x. Badger_Get demo_badger e k = Inl x \<and> x \<noteq> kv_ErrKeyNotFound)"
proof -
  let ?e = "demo_engine [([9], [9])] 0"
  let ?C = "demo_restore \<lparr> rt_MkdirAll := Some io_EOF \<rparr>"
  have l: "LoadSnapshot demo_badger ?C [1, 2] ?e = (?e \<lparr> be_db := (None, 0) \<rparr>, Some (WrapError ''create db dir'' io_EOF))"
    by (simp add: LoadSnapshot_def demo_badger_def)
  have "demo_contents (be_db (demo_engine [([1], [2])] 0)) = Some (map_of [([1], [2])])"
    "db_Backup demo_badger (be_db (demo_engine [([1], [2])] 0)) = Inr [1, 2]" "\<forall>d. rt_Open ?C = Inr d \<longrightarrow> demo_contents d = Some Map.empty"
    by (simp_all add: demo_contents_def demo_badger_def)
  from badger_restore [OF demo_badger_ok this l] l show ?thesis by auto
qed

lemma badger_gc_returns_example:
  "\<exists>e n err. n \<le> 3 \<and> Badger_GC demo_badger 0 (demo_engine [] 3) = Some (e, of_nat n * 2 ^ 20, err)"
proof -
  have "snd d' < snd d" if "db_RunValueLogGC demo_badger (bc_GCThreshold (be_cfg (demo_engine [] 3))) d = (d', None)" for d d'
    using that by (auto simp: demo_badger_def split: prod.splits nat.splits)
  from badger_gc_returns [of demo_badger "demo_engine [] 3" snd 0, OF this] show ?thesis by auto
qed

text \<open>A registry takes the metrics of one engine: registering a second one panics.\<close>

lemma metrics_registered_once: "RegisterMetrics registry = Some (registry', m) \<Longrightarrow> RegisterMetrics registry' = None"
  by (auto simp: RegisterMetrics_def badger_metric_names_def split: if_splits)

end
