(* ===== verification/Tls_Roots.thy ===== *)
theory Tls_Roots
  imports Go_Os Go_Strings Domain_Session
begin

text \<open>
  Certificates and files that change: the pool of certificates and the certificate watcher of \<open>infra/tlsroots\<close>, and the
  watcher of configuration files of \<open>infra/confloader/watcher.go\<close>. PEM, X.509 and the file system notifications are
  parameters; what the files hold is a function of the time. Log lines are left out.
\<close>

section \<open>Pools\<close>

definition ErrNoCertsFound :: go_error where "ErrNoCertsFound = PlainError ''tlsroots: no certificates found in PEM file''"

record 'c pem_calls =
  pem_Decode :: "bytes \<Rightarrow> (string \<times> bytes) option \<times> bytes"
  x509_Parse :: "bytes \<Rightarrow> go_error + 'c"
  pem_ReadFile :: "string \<Rightarrow> go_error + bytes"
  pem_ReadDir :: "string \<Rightarrow> go_error + (string \<times> bool) list"

type_synonym 'c cert_pool = "'c list"

definition NewPool :: "go_error + 'c cert_pool \<Rightarrow> 'c cert_pool" where
  "NewPool system = (case system of Inl _ \<Rightarrow> [] | Inr p \<Rightarrow> p)"

text \<open>The loop over the blocks: the pool, the number of certificates added, the error.\<close>

partial_function (option) pem_loop :: "'c pem_calls \<Rightarrow> bytes \<Rightarrow> 'c cert_pool \<Rightarrow> nat \<Rightarrow> ('c cert_pool \<times> nat \<times> go_error option) option" where
  "pem_loop X pemData p n =
     (if pemData = [] then Some (p, n, None)
      else
        (case pem_Decode X pemData of
           (None, rest) \<Rightarrow> Some (p, n, None)
         | (Some (ty, body), rest) \<Rightarrow>
             if ty \<noteq> ''CERTIFICATE'' then pem_loop X rest p n
             else
               (case x509_Parse X body of
                  Inl err \<Rightarrow> Some (p, n, Some (WrapError ''tlsroots: parse certificate'' err))
                | Inr c \<Rightarrow> pem_loop X rest (p @ [c]) (Suc n))))"

declare pem_loop.simps [code]

definition AddCertPEM :: "'c pem_calls \<Rightarrow> bytes \<Rightarrow> 'c cert_pool \<Rightarrow> ('c cert_pool \<times> go_error option) option" where
  "AddCertPEM X pemData p =
     map_option (\<lambda>(p', n, err). (p', case err of Some e \<Rightarrow> Some e | None \<Rightarrow> if n = 0 then Some ErrNoCertsFound else None))
       (pem_loop X pemData p 0)"

definition AddCertFile :: "'c pem_calls \<Rightarrow> string \<Rightarrow> 'c cert_pool \<Rightarrow> ('c cert_pool \<times> go_error option) option" where
  "AddCertFile X path p =
     (case pem_ReadFile X path of
        Inl err \<Rightarrow> Some (p, Some (WrapError (''tlsroots: read cert file '' @ path) err))
      | Inr data \<Rightarrow> AddCertPEM X data p)"

fun add_entries :: "'c pem_calls \<Rightarrow> string \<Rightarrow> (string \<times> bool) list \<Rightarrow> 'c cert_pool \<Rightarrow> 'c cert_pool option" where
  "add_entries X d [] p = Some p"
| "add_entries X d ((name, isDir) # es) p =
     (if isDir then add_entries X d es p
      else
        (let ext = (if length name > 4 then drop (length name - 4) name else '''') in
         if ext \<in> {''.pem'', ''.crt'', ''.cer''} then
           (case AddCertFile X (d @ ''/'' @ name) p of None \<Rightarrow> None | Some (p', _) \<Rightarrow> add_entries X d es p')
         else add_entries X d es p))"

definition AddCertDir :: "'c pem_calls \<Rightarrow> string \<Rightarrow> 'c cert_pool \<Rightarrow> ('c cert_pool \<times> go_error option) option" where
  "AddCertDir X d p =
     (case pem_ReadDir X d of
        Inl err \<Rightarrow> Some (p, Some (WrapError (''tlsroots: read dir '' @ d) err))
      | Inr es \<Rightarrow> map_option (\<lambda>p'. (p', None)) (add_entries X d es p))"

definition NewEmptyPool :: "'c cert_pool" where
  "NewEmptyPool = []"

definition AddCert :: "'c \<Rightarrow> 'c cert_pool \<Rightarrow> 'c cert_pool" where
  "AddCert cert p = p @ [cert]"

text \<open>The TLS settings made of a pool: the roots for servers and for clients, the own certificates, and whether a client must show a
  certificate that verifies.\<close>

record ('c, 'k) tls_config =
  tlc_RootCAs :: "'c cert_pool"
  tlc_ClientCAs :: "'c cert_pool"
  tlc_Certificates :: "'k list"
  tlc_RequireAndVerify :: bool
  tlc_MinVersion :: nat

abbreviation VersionTLS12 :: nat where "VersionTLS12 \<equiv> 0x0303"

definition TLSConfig :: "'c cert_pool \<Rightarrow> ('c, 'k) tls_config" where
  "TLSConfig p =
     \<lparr> tlc_RootCAs = p, tlc_ClientCAs = [], tlc_Certificates = [], tlc_RequireAndVerify = False, tlc_MinVersion = VersionTLS12 \<rparr>"

definition MutualTLSConfig :: "go_error + 'k \<Rightarrow> 'c cert_pool \<Rightarrow> go_error + ('c, 'k) tls_config" where
  "MutualTLSConfig loaded p =
     (case loaded of
        Inl err \<Rightarrow> Inl (WrapError ''tlsroots: load key pair'' err)
      | Inr cert \<Rightarrow>
          Inr \<lparr> tlc_RootCAs = p, tlc_ClientCAs = p, tlc_Certificates = [cert], tlc_RequireAndVerify = True, tlc_MinVersion = VersionTLS12 \<rparr>)"

section \<open>File names\<close>

text \<open>The last element of a path, without trailing slashes.\<close>

definition filepath_Base :: "string \<Rightarrow> string" where
  "filepath_Base path =
     (if path = '''' then ''.''
      else
        (let p = rev (dropWhile (\<lambda>c. c = CHR ''/'') (rev path)) in
         if p = '''' then ''/'' else rev (takeWhile (\<lambda>c. c \<noteq> CHR ''/'') (rev p))))"

record fs_event =
  ev_Name :: string
  ev_Write :: bool
  ev_Create :: bool

section \<open>The certificate watcher\<close>

text \<open>The time of the last reload is \<open>None\<close> for the zero time, which is longer ago than any duration. What the two files load
  to at a moment is \<open>files\<close> of it.\<close>

record 'c cert_watcher =
  tw_certFile :: string
  tw_keyFile :: string
  tw_cert :: "'c option"
  tw_debounce :: int
  tw_lastReload :: "int option"
  tw_done :: bool

abbreviation Millisecond :: int where "Millisecond \<equiv> 1000000"

definition WithDebounce :: "int \<Rightarrow> 'c cert_watcher \<Rightarrow> 'c cert_watcher" where
  "WithDebounce d w = w \<lparr> tw_debounce := d \<rparr>"

definition watcher_reload :: "(int \<Rightarrow> go_error + 'c) \<Rightarrow> int \<Rightarrow> 'c cert_watcher \<Rightarrow> 'c cert_watcher \<times> go_error option" where
  "watcher_reload files now w =
     (case files now of
        Inl err \<Rightarrow> (w, Some (WrapError ''load key pair'' err))
      | Inr c \<Rightarrow> (w \<lparr> tw_cert := Some c \<rparr>, None))"

definition cert_NewWatcher ::
  "(int \<Rightarrow> go_error + 'c) \<Rightarrow> int \<Rightarrow> string \<Rightarrow> string \<Rightarrow> ('c cert_watcher \<Rightarrow> 'c cert_watcher) list \<Rightarrow> go_error + 'c cert_watcher" where
  "cert_NewWatcher files now certFile keyFile opts =
     (case watcher_reload files now (foldl (\<lambda>w opt. opt w)
             \<lparr> tw_certFile = certFile, tw_keyFile = keyFile, tw_cert = None, tw_debounce = 500 * Millisecond, tw_lastReload = None,
               tw_done = False \<rparr> opts) of
        (w, Some err) \<Rightarrow> Inl (WrapError ''tlsroots: initial load'' err)
      | (w, None) \<Rightarrow> Inr w)"

definition debouncedReload :: "(int \<Rightarrow> go_error + 'c) \<Rightarrow> int \<Rightarrow> 'c cert_watcher \<Rightarrow> 'c cert_watcher \<times> go_error option" where
  "debouncedReload files now w =
     (if (case tw_lastReload w of None \<Rightarrow> False | Some t \<Rightarrow> now - t < tw_debounce w) then (w, None)
      else watcher_reload files (now + 100 * Millisecond) (w \<lparr> tw_lastReload := Some now \<rparr>))"

definition relevant :: "'c cert_watcher \<Rightarrow> fs_event \<Rightarrow> bool" where
  "relevant w ev \<longleftrightarrow>
     (filepath_Base (ev_Name ev) = filepath_Base (tw_certFile w) \<or> filepath_Base (ev_Name ev) = filepath_Base (tw_keyFile w)) \<and>
     (ev_Write ev \<or> ev_Create ev)"

text \<open>What the loop of \<open>Start\<close> receives, with the time at which it handles an event.\<close>

datatype watch_input = FsEvent int fs_event | FsError | FsClosed | Stopped "go_error option"

fun watch_loop :: "(int \<Rightarrow> go_error + 'c) \<Rightarrow> watch_input list \<Rightarrow> 'c cert_watcher \<Rightarrow> 'c cert_watcher \<times> go_error option" where
  "watch_loop files [] w = (w, None)"
| "watch_loop files (FsEvent now ev # ins) w =
     (if \<not> relevant w ev then watch_loop files ins w else watch_loop files ins (fst (debouncedReload files now w)))"
| "watch_loop files (FsError # ins) w = watch_loop files ins w"
| "watch_loop files (FsClosed # ins) w = (w, None)"
| "watch_loop files (Stopped err # ins) w = (w, err)"

text \<open>\<open>Start\<close>: the outcomes of creating the notifier and of adding the directories.\<close>

definition Watcher_Start ::
  "(int \<Rightarrow> go_error + 'c) \<Rightarrow> (string \<Rightarrow> string) \<Rightarrow> go_error option \<Rightarrow> (string \<Rightarrow> go_error option) \<Rightarrow> watch_input list \<Rightarrow> 'c cert_watcher
     \<Rightarrow> 'c cert_watcher \<times> go_error option" where
  "Watcher_Start files filepath_Dir create add ins w =
     (case create of
        Some err \<Rightarrow> (w, Some (WrapError ''tlsroots: create watcher'' err))
      | None \<Rightarrow>
          (let certDir = filepath_Dir (tw_certFile w); keyDir = filepath_Dir (tw_keyFile w) in
           case add certDir of
             Some err \<Rightarrow> (w, Some (WrapError (''tlsroots: watch cert dir '' @ certDir) err))
           | None \<Rightarrow>
               (case (if keyDir \<noteq> certDir then add keyDir else None) of
                  Some err \<Rightarrow> (w, Some (WrapError (''tlsroots: watch key dir '' @ keyDir) err))
                | None \<Rightarrow> watch_loop files ins w)))"

text \<open>A second stop closes a closed channel and panics.\<close>

definition Watcher_Stop :: "'c cert_watcher \<Rightarrow> 'c cert_watcher option" where
  "Watcher_Stop w = (if tw_done w then None else Some (w \<lparr> tw_done := True \<rparr>))"

definition GetCertificate :: "'c cert_watcher \<Rightarrow> 'c option" where
  "GetCertificate w = tw_cert w"

section \<open>The configuration watcher\<close>

text \<open>The callbacks change a state of their own.\<close>

record 's conf_watcher =
  cw_callbacks :: "(string \<Rightarrow> 's \<Rightarrow> 's) list"
  cw_dirs :: "string list"
  cw_done :: bool

definition conf_NewWatcher :: "go_error option \<Rightarrow> go_error + 's conf_watcher" where
  "conf_NewWatcher create = (case create of Some err \<Rightarrow> Inl err | None \<Rightarrow> Inr \<lparr> cw_callbacks = [], cw_dirs = [], cw_done = False \<rparr>)"

definition conf_Watch :: "(string \<Rightarrow> string) \<Rightarrow> (string \<Rightarrow> go_error option) \<Rightarrow> string \<Rightarrow> 's conf_watcher \<Rightarrow> 's conf_watcher \<times> go_error option" where
  "conf_Watch filepath_Dir add path w =
     (case add (filepath_Dir path) of
        Some err \<Rightarrow> (w, Some err)
      | None \<Rightarrow> (w \<lparr> cw_dirs := cw_dirs w @ [filepath_Dir path] \<rparr>, None))"

definition OnChange :: "(string \<Rightarrow> 's \<Rightarrow> 's) \<Rightarrow> 's conf_watcher \<Rightarrow> 's conf_watcher" where
  "OnChange cb w = w \<lparr> cw_callbacks := cw_callbacks w @ [cb] \<rparr>"

definition notifyCallbacks :: "'s conf_watcher \<Rightarrow> string \<Rightarrow> 's \<Rightarrow> 's" where
  "notifyCallbacks w path s = foldl (\<lambda>s cb. cb path s) s (cw_callbacks w)"

fun conf_Start :: "'s conf_watcher \<Rightarrow> watch_input list \<Rightarrow> 's \<Rightarrow> 's" where
  "conf_Start w [] s = s"
| "conf_Start w (FsEvent now ev # ins) s =
     conf_Start w ins (if ev_Write ev \<or> ev_Create ev then notifyCallbacks w (ev_Name ev) s else s)"
| "conf_Start w (FsError # ins) s = conf_Start w ins s"
| "conf_Start w (FsClosed # ins) s = s"
| "conf_Start w (Stopped err # ins) s = s"

definition conf_Stop :: "go_error option \<Rightarrow> 's conf_watcher \<Rightarrow> ('s conf_watcher \<times> go_error option) option" where
  "conf_Stop close w = (if cw_done w then None else Some (w \<lparr> cw_done := True \<rparr>, close))"

section \<open>What the certificate watcher serves\<close>

text \<open>A served certificate was in the files at some moment: a pair that does not load never replaces one that does.\<close>

definition was_loaded :: "(int \<Rightarrow> go_error + 'c) \<Rightarrow> 'c cert_watcher \<Rightarrow> bool" where
  "was_loaded files w \<longleftrightarrow> (\<exists>t c. files t = Inr c \<and> tw_cert w = Some c)"

lemma watcher_reload_loaded: "was_loaded files w \<Longrightarrow> was_loaded files (fst (watcher_reload files now w))"
  by (auto simp: watcher_reload_def was_loaded_def split: sum.splits)

lemma watch_loop_loaded: "was_loaded files w \<Longrightarrow> was_loaded files (fst (watch_loop files ins w))"
proof (induction files ins w rule: watch_loop.induct)
  case (2 files now ev ins w)
  have "was_loaded files (w \<lparr> tw_lastReload := t \<rparr>)" for t using 2(3) by (simp add: was_loaded_def)
  then have "was_loaded files (fst (debouncedReload files now w))"
    using 2(3) watcher_reload_loaded by (auto simp: debouncedReload_def)
  then show ?case using 2 by simp
qed simp_all

lemma new_watcher_loaded: "cert_NewWatcher files now cf kf opts = Inr w \<Longrightarrow> was_loaded files w"
  by (auto simp: cert_NewWatcher_def watcher_reload_def was_loaded_def split: sum.splits prod.splits option.splits)

lemma watcher_serves_loaded:
  assumes "cert_NewWatcher files now cf kf opts = Inr w"
  shows "\<exists>t c. files t = Inr c \<and> GetCertificate (fst (watch_loop files ins w)) = Some c"
  using watch_loop_loaded [OF new_watcher_loaded [OF assms], of ins] by (auto simp: was_loaded_def GetCertificate_def)

text \<open>Which events are handled within the time after the last attempt.\<close>

definition in_window :: "int \<Rightarrow> 'c cert_watcher \<Rightarrow> watch_input \<Rightarrow> bool" where
  "in_window t w i \<longleftrightarrow> (case i of FsEvent now ev \<Rightarrow> now - t < tw_debounce w | _ \<Rightarrow> True)"

lemma window_drops:
  assumes "tw_lastReload w = Some t" "list_all (in_window t w) ins"
  shows "fst (watch_loop files ins w) = w"
  using assms
proof (induction files ins w rule: watch_loop.induct)
  case (2 files now ev ins w)
  then have "debouncedReload files now w = (w, None)" by (simp add: debouncedReload_def in_window_def)
  then show ?case using 2 by auto
qed simp_all

text \<open>The debounce is exact, and on the leading edge. The first of a burst of changes decides: the watcher loads the files once,
  a hundred milliseconds after it, and whatever else changes before the debounce time has passed is never loaded, even when that
  one load failed because only one of the two files had been replaced.\<close>

lemma burst_loads_once:
  assumes "relevant w ev" "\<forall>t. tw_lastReload w = Some t \<longrightarrow> tw_debounce w \<le> now - t"
    and "list_all (in_window now w) ins"
  shows "GetCertificate (fst (watch_loop files (FsEvent now ev # ins) w)) =
    (case files (now + 100 * Millisecond) of Inr c \<Rightarrow> Some c | Inl _ \<Rightarrow> GetCertificate w)"
proof -
  let ?w = "fst (debouncedReload files now w)"
  have d: "debouncedReload files now w = watcher_reload files (now + 100 * Millisecond) (w \<lparr> tw_lastReload := Some now \<rparr>)"
    using assms(2) by (auto simp: debouncedReload_def split: option.splits)
  then have "tw_lastReload ?w = Some now" "tw_debounce ?w = tw_debounce w"
    by (auto simp: watcher_reload_def split: sum.splits)
  moreover from this have "in_window now ?w = in_window now w" by (simp add: in_window_def fun_eq_iff split: watch_input.splits)
  ultimately have "fst (watch_loop files ins ?w) = ?w" using assms(3) by (intro window_drops) auto
  then show ?thesis using assms(1) d by (simp add: watcher_reload_def GetCertificate_def split: sum.splits)
qed

text \<open>Reading certificates ends: every block that is found takes something from the data.\<close>

lemma pem_loop_returns:
  assumes "\<And>b t rest. pem_Decode X b = (Some t, rest) \<Longrightarrow> length rest < length b"
  shows "pem_loop X b p n \<noteq> None"
proof (induction "length b" arbitrary: b p n rule: less_induct)
  case less
  show ?case
    using assms [of b] less by (subst pem_loop.simps) (auto split: option.splits prod.splits sum.splits)
qed

text \<open>With settings for mutual TLS a client must show a certificate, and what verifies it is exactly the pool.\<close>

lemma mutual_tls_pool:
  "MutualTLSConfig loaded (AddCert c p) = Inr cfg \<Longrightarrow>
    tlc_RequireAndVerify cfg \<and> set (tlc_ClientCAs cfg) = insert c (set p) \<and> tlc_RootCAs cfg = tlc_ClientCAs cfg \<and> tlc_Certificates cfg \<noteq> []"
  by (auto simp: MutualTLSConfig_def AddCert_def split: sum.splits)

end
