(* ===== verification/Engine_Background.thy ===== *)
theory Engine_Background
  imports Engine_Recovery Token_Service
begin

text \<open>
  The loops behind the storage: the snapshots of the engine (\<open>engine.go\<close>, \<open>backgroundLoop\<close>) and the flushes of the log writer
  (\<open>wal/writer.go\<close>, \<open>startSyncLoop\<close>), the check of a finished segment (\<open>wal/reader.go\<close>), and the hashes of \<open>pkg/token\<close>. A loop is run on
  the sequence of events that it receives. The lemmas show that the loops keep the sessions and the entries of the log, and that
  verification is exact.
\<close>

section \<open>Loops\<close>

datatype 'a loop_event = Tick 'a | StopCh

fun background_events :: "(int \<Rightarrow> string) \<Rightarrow> (string \<Rightarrow> int) \<Rightarrow> (os_calls \<times> int) loop_event list \<Rightarrow> engine \<Rightarrow> engine" where
  "background_events ft mtime [] e = e"
| "background_events ft mtime (StopCh # evs) e = e"
| "background_events ft mtime (Tick (sys, now) # evs) e = background_events ft mtime evs (fst (TriggerSnapshot ft mtime sys now e))"

text \<open>\<open>time.NewTicker\<close> panics when the interval is not positive.\<close>

definition backgroundLoop ::
  "(int \<Rightarrow> string) \<Rightarrow> (string \<Rightarrow> int) \<Rightarrow> (os_calls \<times> int) loop_event list \<Rightarrow> engine \<Rightarrow> engine option" where
  "backgroundLoop ft mtime evs e =
     (if ec_SnapshotInterval (en_cfg e) \<le> 0 then None else Some (background_events ft mtime evs e))"

fun sync_events :: "os_calls loop_event list \<Rightarrow> dir \<times> wal_writer \<Rightarrow> dir \<times> wal_writer" where
  "sync_events [] (d, w) = (d, w)"
| "sync_events (StopCh # evs) (d, w) = (d, w)"
| "sync_events (Tick sys # evs) (d, w) = (case Writer_Flush sys d w of (d', w', err) \<Rightarrow> sync_events evs (d', w'))"

definition startSyncLoop :: "os_calls loop_event list \<Rightarrow> dir \<Rightarrow> wal_writer \<Rightarrow> (dir \<times> wal_writer) option" where
  "startSyncLoop evs d w = (if wc_SyncInterval (W_cfg w) \<le> 0 then None else Some (sync_events evs (d, w)))"

section \<open>Finished segments\<close>

definition VerifyTrailerChecksum :: "os_calls \<Rightarrow> dir \<Rightarrow> string \<Rightarrow> go_error option" where
  "VerifyTrailerChecksum sys d path =
     (case os_Open sys path of
        Some err \<Rightarrow> Some err
      | None \<Rightarrow>
          (case gm_get d path of
             None \<Rightarrow> Some ErrNotExist
           | Some c \<Rightarrow>
               (case os_Stat sys path of
                  Some err \<Rightarrow> Some err
                | None \<Rightarrow>
                    if length c < ChecksumSize then Some ErrCorrupted
                    else
                      (let dataLen = length c - ChecksumSize in
                       if Sum256 (take dataLen c) \<noteq> drop dataLen c then Some errChecksumInvalid else None))))"

section \<open>Hashes of tokens\<close>

definition token_HashBytes :: "bytes \<Rightarrow> string" where
  "token_HashBytes data = hex_EncodeToString (Sum256 data)"

definition token_Hash :: "string \<Rightarrow> string" where
  "token_Hash token = hex_EncodeToString (Sum256 (bytes_of_string token))"

definition token_Verify :: "string \<Rightarrow> string \<Rightarrow> bool" where
  "token_Verify token expectedHash \<longleftrightarrow>
     ConstantTimeCompare (bytes_of_string (token_Hash token)) (bytes_of_string expectedHash) = 1"

definition token_VerifyBytes :: "bytes \<Rightarrow> string \<Rightarrow> bool" where
  "token_VerifyBytes data expectedHash \<longleftrightarrow>
     ConstantTimeCompare (bytes_of_string (token_HashBytes data)) (bytes_of_string expectedHash) = 1"

section \<open>Lemmas\<close>

text \<open>Snapshots taken in the background, whatever fails, change neither the sessions nor the writer of the log; with the default
  interval the loop does not panic.\<close>

lemma TriggerSnapshot_keeps:
  "en_store (fst (TriggerSnapshot ft mtime sys now e)) = en_store e" "en_wal (fst (TriggerSnapshot ft mtime sys now e)) = en_wal e"
  "en_cfg (fst (TriggerSnapshot ft mtime sys now e)) = en_cfg e"
  by (simp_all add: TriggerSnapshot_def split: prod.splits sum.splits)

lemma background_keeps_sessions:
  "backgroundLoop ft mtime evs e = Some e' \<Longrightarrow> en_store e' = en_store e \<and> en_wal e' = en_wal e"
proof -
  have "en_store (background_events ft mtime evs e) = en_store e \<and> en_wal (background_events ft mtime evs e) = en_wal e"
    by (induction ft mtime evs e rule: background_events.induct) (simp_all add: TriggerSnapshot_keeps)
  then show "backgroundLoop ft mtime evs e = Some e' \<Longrightarrow> en_store e' = en_store e \<and> en_wal e' = en_wal e"
    by (auto simp: backgroundLoop_def split: if_splits)
qed

text \<open>Any number of flushes in the background, while the segment numbers last, keeps the entries of the log in their order; after the
  first one nothing is left in the buffer.\<close>

lemma sync_keeps_log:
  assumes "log_holds d w fs" "unat (W_segmentID w) + n < 2 ^ 64"
  shows "\<exists>d' w'. sync_events (replicate n (Tick os_ok)) (d, w) = (d', w') \<and> log_holds d' w' fs \<and> (0 < n \<longrightarrow> W_buffer w' = []) \<and>
    unat (W_segmentID w') \<le> unat (W_segmentID w) + n"
  using assms
proof (induction n arbitrary: d w)
  case (Suc n)
  have b: "unat (W_segmentID w) + 1 < 2 ^ 64" using Suc.prems(2) by linarith
  obtain d1 w1 where f: "flushLocked os_ok d w = (d1, w1, None)" "log_holds d1 w1 fs" "W_buffer w1 = []"
    "unat (W_segmentID w1) \<le> unat (W_segmentID w) + 1"
    using log_holds_flush [OF Suc.prems(1) b] by blast
  then obtain d2 w2 where s: "sync_events (replicate n (Tick os_ok)) (d1, w1) = (d2, w2)" "log_holds d2 w2 fs" "0 < n \<longrightarrow> W_buffer w2 = []"
    "unat (W_segmentID w2) \<le> unat (W_segmentID w1) + n"
    using Suc.IH [of d1 w1] Suc.prems(2) by auto
  have "W_buffer w2 = []" using s(1,3) f(3) by (cases n) auto
  with f s show ?case by (simp add: Writer_Flush_def)
qed simp

text \<open>A finished segment passes the check, whatever frames it holds, and the check of the reader then agrees.\<close>

lemma finished_segment_verifies:
  assumes "gm_get d path = Some (seg_sealed fs)"
  shows "VerifyTrailerChecksum os_ok d path = None"
  using assms verify_sealed [of fs] by (auto simp: VerifyTrailerChecksum_def Let_def seg_sealed_def)

lemma verified_segment_reads:
  assumes "VerifyTrailerChecksum sys d path = None" "gm_get d path = Some c" "take MagicBytesSize c = MagicBytes" "MagicBytesSize + ChecksumSize \<le> length c"
  shows "verifyChecksumTrailer c = Inr (True, length c - ChecksumSize)"
  using assms by (auto simp: VerifyTrailerChecksum_def verifyChecksumTrailer_def Let_def split: option.splits if_splits)

text \<open>Verification is exact, on strings as on bytes, and the hash is the one of the domain without its prefix.\<close>

lemma token_Verify_exact: "token_Verify token h \<longleftrightarrow> token_Hash token = h"
  unfolding token_Verify_def ConstantTimeCompare_iff bytes_of_string_inj ..

lemma token_VerifyBytes_exact: "token_VerifyBytes data h \<longleftrightarrow> token_HashBytes data = h"
  unfolding token_VerifyBytes_def ConstantTimeCompare_iff bytes_of_string_inj ..

lemma token_Hash_domain: "HashToken token = TokenHashPrefix @ token_Hash token"
  by (simp add: HashToken_def token_Hash_def)

end
