(* ===== verification/Log_Context.thy ===== *)
theory Log_Context
  imports Log_Redact
begin

text \<open>
  Loggers with attributes and levels (\<open>telemetry/logger/logger.go\<close>) and their passage through contexts (\<open>context.go\<close>). A logger is the list
  of the attributes it adds; the level of the process is shared by all. The lemmas show that the logger of a request
  carries its identifiers, once each and readable, and nothing else.
\<close>

section \<open>Loggers\<close>

type_synonym 'x logger = "'x attr list"

definition slog_With :: "'x logger \<Rightarrow> 'x attr list \<Rightarrow> 'x logger" where
  "slog_With l args = l @ args"

text \<open>The process: the level, and the logger that is used where none is given.\<close>

record 'x log_process =
  lgs_level :: log_level
  lgs_default :: "'x logger"

definition logger_New :: "ext \<Rightarrow> string \<Rightarrow> 'x log_process \<Rightarrow> 'x log_process \<times> 'x logger" where
  "logger_New X level g = (g \<lparr> lgs_level := parseLevel X level \<rparr>, [])"

definition SetLevel :: "ext \<Rightarrow> string \<Rightarrow> 'x log_process \<Rightarrow> 'x log_process" where
  "SetLevel X level g = g \<lparr> lgs_level := parseLevel X level \<rparr>"

definition SetDefault :: "'x logger \<Rightarrow> 'x log_process \<Rightarrow> 'x log_process" where
  "SetDefault l g = g \<lparr> lgs_default := l \<rparr>"

text \<open>The attributes that are written of a call on a logger, if its level is written.\<close>

definition logger_write :: "ext \<Rightarrow> 'x log_process \<Rightarrow> 'x logger \<Rightarrow> log_level \<Rightarrow> 'x attr list \<Rightarrow> 'x attr list option" where
  "logger_write X g l level args = logged X (lgs_level g) level (l @ args)"

section \<open>Contexts\<close>

record 'x log_ctx =
  lcx_logger :: "'x logger option"
  lcx_request_id :: "string option"
  lcx_trace_id :: "string option"

definition log_Background :: "'x log_ctx" where
  "log_Background = \<lparr> lcx_logger = None, lcx_request_id = None, lcx_trace_id = None \<rparr>"

definition WithLogger :: "'x log_ctx \<Rightarrow> 'x logger \<Rightarrow> 'x log_ctx" where
  "WithLogger ctx l = ctx \<lparr> lcx_logger := Some l \<rparr>"

definition FromContext :: "'x log_process \<Rightarrow> 'x log_ctx \<Rightarrow> 'x logger" where
  "FromContext g ctx = (case lcx_logger ctx of Some l \<Rightarrow> l | None \<Rightarrow> lgs_default g)"

definition WithRequestID :: "'x log_ctx \<Rightarrow> string \<Rightarrow> 'x log_ctx" where
  "WithRequestID ctx requestID = ctx \<lparr> lcx_request_id := Some requestID \<rparr>"

definition RequestIDFromContext :: "'x log_ctx \<Rightarrow> string" where
  "RequestIDFromContext ctx = (case lcx_request_id ctx of Some i \<Rightarrow> i | None \<Rightarrow> '''')"

definition WithTraceID :: "'x log_ctx \<Rightarrow> string \<Rightarrow> 'x log_ctx" where
  "WithTraceID ctx traceID = ctx \<lparr> lcx_trace_id := Some traceID \<rparr>"

definition TraceIDFromContext :: "'x log_ctx \<Rightarrow> string" where
  "TraceIDFromContext ctx = (case lcx_trace_id ctx of Some i \<Rightarrow> i | None \<Rightarrow> '''')"

definition log_L :: "'x log_process \<Rightarrow> 'x log_ctx \<Rightarrow> 'x logger" where
  "log_L g ctx =
     (let l = FromContext g ctx;
          l = (if RequestIDFromContext ctx \<noteq> '''' then slog_With l [Attr ''request_id'' (KindString (RequestIDFromContext ctx))] else l);
          l = (if TraceIDFromContext ctx \<noteq> '''' then slog_With l [Attr ''trace_id'' (KindString (TraceIDFromContext ctx))] else l)
      in l)"

section \<open>Lemmas\<close>

lemma plain_names: "\<not> IsSensitiveKey X ''request_id''" "\<not> IsSensitiveKey X ''trace_id''"
proof -
  have "list_all (\<lambda>n. is_ascii n \<and> \<not> list_ex (Contains (map lower_char n)) sensitiveKeyPatterns) [''request_id'', ''trace_id'']" by code_simp
  then show "\<not> IsSensitiveKey X ''request_id''" "\<not> IsSensitiveKey X ''trace_id''" by (simp_all add: IsSensitiveKey_def ToLower_def)
qed

lemma plain_name_written:
  "k \<in> {''request_id'', ''trace_id''} \<Longrightarrow> \<not> IsSensitiveValue i \<Longrightarrow> redactSensitive X (Attr k (KindString i)) = Attr k (KindString i)"
  using plain_names [of X] by (auto simp: redact_string_def sensitive_prefix_None [THEN iffD2])

text \<open>What the logger of a request writes: the attributes of the logger in its context, redacted, then the identifiers as they are, unless
  a client gave a token for one, and then those of the call.\<close>

lemma request_log_line:
  assumes "logger_write X g (log_L g ctx) level args = Some line"
    and "lcx_logger ctx = Some l" "lcx_request_id ctx = Some i" "i \<noteq> ''''" "\<not> IsSensitiveValue i" "lcx_trace_id ctx = None"
  shows "line = map (redactSensitive X) l @ [Attr ''request_id'' (KindString i)] @ map (redactSensitive X) args"
  using assms plain_name_written [of "''request_id''" i X]
  by (auto simp: logger_write_def logged_def log_L_def FromContext_def RequestIDFromContext_def TraceIDFromContext_def slog_With_def Let_def
      split: if_splits)

text \<open>A change of the level reaches every logger, those made before too: one at a level below the new one writes nothing.\<close>

lemma SetLevel_silences:
  "logger_write X (SetLevel X ''error'' g) l LevelInfo args = None"
  "logger_write X (SetLevel X ''error'' g) l LevelError args \<noteq> None"
proof -
  have "parseLevel X ''error'' = LevelError" by (simp add: parseLevel_def ToLower_def is_ascii_def lower_char_def)
  then show "logger_write X (SetLevel X ''error'' g) l LevelInfo args = None" "logger_write X (SetLevel X ''error'' g) l LevelError args \<noteq> None"
    by (simp_all add: logger_write_def SetLevel_def logged_def)
qed

end
