(* ===== verification/Spec2Isabelle.thy ===== *)
theory Spec2Isabelle
  imports Session_Service Auth_Service Engine_Recovery Wal_Compactor Memory_List Cluster_Props Redis_Props Http_Props Cli_Repl Snapshot_Encrypt Badger_Engine Tls_Roots Engine_Background Log_Context
begin

text \<open>
  TokMesh is a distributed session and token cache written in Go (\<open>src/src\<close>). This library models
  its core and proves what makes it correct. Paths below are relative to \<open>src/src\<close>.

  \<^bold>\<open>The program.\<close> Requests reach a session service, a token service and an authentication service
  (\<open>internal/core/service\<close>) over the entities of \<open>internal/core/domain\<close>. The services call a
  repository: the storage engine (\<open>internal/storage/engine.go\<close>), which writes every change to a log
  (\<open>internal/storage/wal\<close>), applies it to an in-memory store (\<open>internal/storage/memory\<close>) built on
  a sharded map (\<open>pkg/cmap\<close>), and takes snapshots (\<open>internal/storage/snapshot\<close>); at start it
  recovers from the newest snapshot and the log after it. Nodes form a cluster
  (\<open>internal/server/clusterserver\<close>): a shard map and a member list are replicated as a state machine,
  and the sessions of a shard are streamed to its new owner.

  \<^bold>\<open>The theories, in the order of the calls.\<close>
  \<^item> \<open>Go_Prelude\<close>, \<open>Go_Strings\<close>, \<open>Go_Hash\<close>, \<open>Go_Net\<close>, \<open>Go_Os\<close>: what the code uses of Go: integers and
    their wrap-around, time, maps as association lists, strings and UTF-8, number formats, SHA-256 and CRC-32,
    addresses and prefixes, files with the outcome of every call as an argument.
  \<^item> \<open>Go_Json_Text\<close>, \<open>Go_Json\<close>, \<open>Go_Json_Utf8\<close>, \<open>Session_Json\<close>, \<open>Snapshot_Json\<close>, \<open>Cluster_Json\<close>: \<open>encoding/json\<close> as
    the code uses it, with the round trip of printing and parsing, and the structs by their tags.
  \<^item> \<open>Domain_Errors\<close>, \<open>Domain_Session\<close>, \<open>Domain_Token\<close>, \<open>Domain_APIKey\<close>: the entities.
  \<^item> \<open>Cmap\<close>: the sharded map, a refinement of one finite map (locale \<open>conc_map\<close> and its interpretations).
  \<^item> \<open>Memory_Index\<close>, \<open>Memory_Store\<close>, \<open>Memory_Refine\<close>, \<open>Memory_List\<close>, \<open>Memory_APIKey\<close>: the store, its invariant, the
    abstract store it refines, paging, the key store.
  \<^item> \<open>Lru_Cache\<close>: the nonce cache and the key cache.
  \<^item> \<open>Repository\<close>: the interfaces of the services as locales; the in-memory store and the engine interpret them.
  \<^item> \<open>Token_Service\<close>, \<open>Session_Service\<close>, \<open>Auth_Service\<close>: the services, proved over the interfaces; other requests that
    may run between two repository calls are an argument.
  \<^item> \<open>Wal_Codec\<close>, \<open>Wal_Writer\<close>, \<open>Wal_Reader\<close>, \<open>Wal_Compactor\<close>: the log.
  \<^item> \<open>Snapshot_Manager\<close>: snapshot files. \<open>Engine\<close>, \<open>Engine_Recovery\<close>: the engine and its recovery.
  \<^item> \<open>Shard_Map\<close>, \<open>Cluster_FSM\<close>, \<open>Rebalance\<close>: the hash ring, the replicated state machine, the migration of shards.
    \<open>Cluster_Raft\<close>, \<open>Cluster_Discovery\<close>, \<open>Cluster_Server\<close>, \<open>Cluster_Rpc\<close>, \<open>Cluster_Props\<close>: the Raft node, gossip, the cluster server with its
    RPC handlers, the interceptors around them, and the states that the server reaches.
  \<^item> \<open>Redis_Resp\<close>, \<open>Redis_Glob\<close>, \<open>Redis_Command\<close>, \<open>Redis_Props\<close>: the Redis front end (\<open>internal/server/redisserver\<close>): protocol,
    patterns, commands over the services, serving a connection, and who may change the sessions.
  \<^item> \<open>Http_Handler\<close>, \<open>Http_Router\<close>, \<open>Http_Props\<close>: the HTTP front end (\<open>internal/server/httpserver\<close>): handlers, middleware as functions
    between handlers, the router, and who may change sessions and keys. \<open>Go_Text\<close>: what the servers use of \<open>strings\<close> and \<open>strconv\<close>.
  \<^item> \<open>Redis_Server\<close>: the threads of the Redis server between start and shutdown (\<open>redisserver/server.go\<close>), a step relation.
  \<^item> \<open>Snapshot_Encrypt\<close>: ciphers with their nonces and keys from passphrases (\<open>pkg/crypto/adaptive\<close>, \<open>snapshot/encrypt.go\<close>).
  \<^item> \<open>Badger_Engine\<close>: the key-value engine (\<open>internal/storage/badger.go\<close>) over a database given by its contract, a locale.
  \<^item> \<open>Server_Config\<close>, \<open>Server_Main\<close>: the settings (\<open>internal/server/config\<close>, \<open>internal/infra/confloader\<close>), the process that composes engine,
    services and servers (\<open>cmd/tokmesh-server\<close>) and its shutdown. \<open>Log_Redact\<close>: what the logger hides. \<open>Tls_Roots\<close>: certificate
    pools and the watchers of files (\<open>internal/infra/tlsroots\<close>).
  \<^item> \<open>Cli_Client\<close>, \<open>Cli_Output\<close>, \<open>Cli_Repl\<close>: the commands of the client (\<open>internal/cli\<close>), run against the modelled server, its tables, its
    interactive mode, and the local management server.
  \<^item> \<open>Engine_Background\<close>, \<open>Log_Context\<close>: the loops behind the engine and the log writer, loggers and their contexts.

  \<^bold>\<open>What is shown.\<close> The store keeps its indexes exact and its quota in every reachable state and refines an
  abstract store; the engine is one more implementation of the repository, so the theorems of the
  services hold for the durable store; what the log and a snapshot hold is read back, recovery restores
  memory, compaction and pruning never take what recovery needs; tokens and keys work exactly as long as
  they should; nonces are not replayed; clients change sessions only with a validated key, over Redis only with a role that allows it, and keys only as
  administrators; every HTTP request is answered; replicas that take a snapshot agree with those that apply the log;
  migrated sessions arrive; a cluster server keeps its state well formed, its RPCs need a certificate, and nodes join as they say; what is
  written under a passphrase is read back, the Redis server shuts down in bounded many steps, the log shows no secrets. Each property is stated beside its component, or here when it spans several. Where the code does not
  do what it means to, the property states what it does: updates lost in replay, a seek that loses the
  tail of the log, a clean-up that blocks, a transfer that cannot be repeated, HTTP routes that ignore roles, a stop that panics,
  a process that serves HTTP without the router (the access properties of HTTP are about \<open>NewRouter\<close>, which it does not use) and closes the storage
  before the servers, a client whose command to enable a key disables it. Lemmas that are not listed as properties show more of this
  kind: a shutdown of Redis that misses a listener, settings that no environment variable reaches, a restore that loses the old data,
  certificates that a burst of changes leaves stale, configuration commands
  and a local socket that nothing answers.

  \<^bold>\<open>Conventions.\<close> Strings are lists of bytes; \<open>int64\<close> is \<open>int\<close> with its wrap-around written out where it can occur;
  unsigned integers are words. The clock, random bytes and operating system calls are arguments. A panic, a deadlock and a loop that never
  ends are the value \<open>None\<close>, and that an operation returns is part of the statement. Loops are total functions with
  termination proofs, or partial functions that are proved to return where they do; no fuel is used. Cipher, MurmurHash3, gzip, Argon2, ULIDs, the rate limiter, Raft, the member list, certificate chains, RPC streams,
  AEAD ciphers, the settings library, the Badger database and file notifications are parameters; what the
  code relies on (a cipher that decrypts what it encrypted, a compression without loss) is a hypothesis of the theorems
  that need it, with an instance in their witnesses.

  \<^bold>\<open>Not modelled.\<close> The declarations of commands and flags, the spinner and the progress bar of the client; functions whose bodies are still to
  be written (saved configurations and backups of the client, tracing); the stubs of the metrics registry; the generated RPC code. They are
  data, terminal output, stubs, or calls of packages that are not part of the sources.
\<close>

section \<open>The services over the storage engine\<close>

text \<open>C4: a token that was handed out works. When \<open>SessionService.Create\<close> succeeds over the storage
  engine, whatever calls of the operating system failed and whatever other requests ran between its
  steps, exactly the created session is added, for the user who asked, and its token validates to it
  at every time before it expires.\<close>

theorem created_session_validates:
  assumes "store_inv (en_store (env e))"
    and "SessionService_Create X (engine_session_repo sys) now ulid rnd env e req = (e', Inr resp)"
    and "cq_Token req = '''' \<Longrightarrow> \<exists>bs. rnd = Inr bs \<and> length bs = 32"
    and "\<not> Session_IsExpired t (cr_Session resp)"
  shows "TokenService_Validate (engine_token_repo sys) t e'
      \<lparr> vr_Token = cr_Token resp, vr_Touch = False, vr_ClientIP = ip, vr_UserAgent = ua \<rparr> =
      (e', \<lparr> vp_Valid = True, vp_Session = Some (cr_Session resp) \<rparr>, None) \<and>
    store_inv (en_store e') \<and> S_UserID (cr_Session resp) = cq_UserID req \<and>
    store_abs (en_store (env e)) (cr_SessionID resp) = None \<and>
    store_abs (en_store e') = (store_abs (en_store (env e)))(cr_SessionID resp \<mapsto> cr_Session resp)"
proof -
  let ?mx = "st_maxSessionsPerUser (en_store (env e))"
  have inv: "store_inv (en_store (env e)) \<and> st_maxSessionsPerUser (en_store (env e)) = ?mx" using assms(1) by simp
  from dur.Create_ok [OF inv assms(2,3)]
  have "store_inv (en_store e')" "S_UserID (cr_Session resp) = cq_UserID req"
    "store_abs (en_store (env e)) (cr_SessionID resp) = None"
    "store_abs (en_store e') = (store_abs (en_store (env e)))(cr_SessionID resp \<mapsto> cr_Session resp)" by metis+
  then show ?thesis using dur.Create_then_Validate(1) [OF inv assms(2,3,4)] by simp
qed

text \<open>C5: no token validates that was not handed out. A validation over the engine that answers \<open>valid\<close> is
  of a well-formed token whose hash is that of a stored session that is neither expired nor deleted, and
  the answer carries that session, touched when a touch was asked for and could be written.\<close>

theorem validation_sound:
  assumes "store_inv (en_store e)" "TokenService_Validate (engine_token_repo sys) now e req = (e', resp, r)" "vp_Valid resp"
  shows "store_inv (en_store e') \<and> r = None \<and> ValidateTokenFormat (vr_Token req) \<and>
    (\<exists>i s. store_abs (en_store e) i = Some s \<and> S_TokenHash s = HashToken (vr_Token req) \<and>
       \<not> Session_IsExpired now s \<and> \<not> S_IsDeleted s)"
  using dur.Validate_sound [of e "st_maxSessionsPerUser (en_store e)" sys now req e' resp r] assms by simp

text \<open>C6: a revoked token is refused. When the deletion reaches the log, \<open>Revoke\<close> succeeds, removes
  exactly the session, and its token is refused from then on.\<close>

theorem revoked_token_refused:
  assumes "store_inv (en_store e)" "store_abs (en_store e) i = Some s" "i \<noteq> ''''"
    and "S_TokenHash s = HashToken token" "ValidateTokenFormat token"
    and "Writer_Append (sys now) (en_walDir e) (en_wal e) (NewDeleteEntry now i) = (d, w, None)"
  shows "\<exists>e'. SessionService_Revoke (engine_session_repo sys) now e i = (e', Inr True) \<and>
    store_abs (en_store e') = (store_abs (en_store e))(i := None) \<and>
    TokenService_Validate (engine_token_repo sys) t e' \<lparr> vr_Token = token, vr_Touch = b, vr_ClientIP = ip, vr_UserAgent = ua \<rparr> =
      (e', invalid_response, Some (WithCause ErrTokenInvalid ErrTokenInvalid))"
proof -
  let ?mx = "st_maxSessionsPerUser (en_store e)"
  obtain st r where del: "Store_Delete (en_store e) i = (st, r)" by fastforce
  note D = Store_Delete_refines [OF assms(1) del]
  have r: "r = None" "store_abs st = (store_abs (en_store e))(i := None)"
    using D(2) assms(2) by (simp_all add: a_Delete_def)
  let ?e = "e \<lparr> en_walDir := d, en_wal := w, en_store := st, en_lastWALOffset := Writer_CurrentOffset w \<rparr>"
  have rv: "SessionService_Revoke (engine_session_repo sys) now e i = (?e, Inr True)"
    using assms(3,6) del r(1) by (simp add: SessionService_Revoke_def engine_session_repo_def Engine_Delete_def log_then_def)
  have "\<not> token_used (store_abs st) (HashToken token)"
  proof
    assume "token_used (store_abs st) (HashToken token)"
    then obtain j a where "store_abs st j = Some a" "S_TokenHash a = HashToken token" by (auto simp: token_used_def)
    then have "j \<noteq> i" "store_abs (en_store e) j = Some a" using r(2) by (auto split: if_splits)
    with assms(1,2,4) \<open>S_TokenHash a = HashToken token\<close> show False
      using dur.token_unique [of e ?mx i s j a] by simp
  qed
  then have "TokenService_Validate (engine_token_repo sys) t ?e
      \<lparr> vr_Token = token, vr_Touch = b, vr_ClientIP = ip, vr_UserAgent = ua \<rparr> =
      (?e, invalid_response, Some (WithCause ErrTokenInvalid ErrTokenInvalid))"
    using dur.Validate_unknown [of ?e ?mx] D(1,3) assms(5) by simp
  then show ?thesis using rv r(2) by (intro exI [of _ ?e]) simp
qed


section \<open>Examples\<close>

definition example_token :: string where
  "example_token = fst (projr (GenerateToken (Inr (replicate 32 0))))"

abbreviation example_live :: session where
  "example_live \<equiv> example_session ''tmss-1'' ''u'' (HashToken example_token)"

text \<open>A fresh engine, and one that holds a session.\<close>

lemma example_live_engine:
  obtains e :: engine where "store_inv (en_store e)" "store_abs (en_store e) = [''tmss-1'' \<mapsto> example_live]"
    "log_holds (en_walDir e) (en_wal e) []" "\<not> W_closed (en_wal e)" "unat (W_segmentID (en_wal e)) = 1"
    "wc_Cipher (W_cfg (en_wal e)) = None"
proof -
  obtain e :: engine where e: "log_holds (en_walDir e) (en_wal e) []" "\<not> W_closed (en_wal e)" "unat (W_segmentID (en_wal e)) = 1"
    "wc_Cipher (W_cfg (en_wal e)) = None" "store_inv (en_store e)" "store_abs (en_store e) = Map.empty"
    "st_maxSessionsPerUser (en_store e) = DefaultMaxSessionsPerUser"
    by (rule example_engine [of "\<lambda>_. 0" "\<lambda>_. 0" "\<lambda>_. 0"]) blast
  obtain st r where c: "Store_Create (en_store e) example_live = (st, r)" by fastforce
  have "Session_Validate example_live = None"
    by (simp add: Session_Validate_None data_within_limits_def example_session_def Session_zero_def)
  then have "store_inv st" "store_abs st = [''tmss-1'' \<mapsto> example_live]"
    using Store_Create_refines [OF e(5) c] e(6,7) by (auto simp: a_Create_def user_ids_def token_used_def)
  with e(1-4) show ?thesis by (intro that [of "e \<lparr> en_store := st \<rparr>"]) auto
qed

lemma example_token_valid: "ValidateTokenFormat example_token"
proof -
  obtain p h where g: "GenerateToken (Inr (replicate 32 0)) = Inr (p, h)" by (simp add: GenerateToken_Inr)
  then show ?thesis using GenerateToken_valid [of "replicate 32 0" p h] by (simp add: example_token_def)
qed

theorem validation_sound_witness:
  "\<exists>e e' resp r. TokenService_Validate (engine_token_repo (\<lambda>_. os_ok)) 0 e
     \<lparr> vr_Token = example_token, vr_Touch = False, vr_ClientIP = '''', vr_UserAgent = '''' \<rparr> = (e', resp, r) \<and>
     vp_Valid resp \<and> r = None \<and> store_inv (en_store e')"
proof -
  obtain e :: engine where e: "store_inv (en_store e)" "store_abs (en_store e) = [''tmss-1'' \<mapsto> example_live]"
    by (rule example_live_engine)
  let ?q = "\<lparr> vr_Token = example_token, vr_Touch = False, vr_ClientIP = '''', vr_UserAgent = '''' \<rparr>"
  have v: "TokenService_Validate (engine_token_repo (\<lambda>_. os_ok)) 0 e ?q =
      (e, \<lparr> vp_Valid = True, vp_Session = Some example_live \<rparr>, None)"
    using dur.Validate_ok [of e "st_maxSessionsPerUser (en_store e)" ?q "''tmss-1''" example_live 0] e example_token_valid
    by (simp add: Session_IsExpired_def)
  from validation_sound [OF e(1) v] have "store_inv (en_store e)" by simp
  with v show ?thesis by (intro exI [of _ e] exI [of _ "\<lparr> vp_Valid = True, vp_Session = Some example_live \<rparr>"] exI [of _ None]) simp
qed

theorem revoked_token_refused_witness:
  "\<exists>e e'. SessionService_Revoke (engine_session_repo (\<lambda>_. os_ok)) 0 e ''tmss-1'' = (e', Inr True) \<and>
    TokenService_Validate (engine_token_repo (\<lambda>_. os_ok)) 0 e'
      \<lparr> vr_Token = example_token, vr_Touch = False, vr_ClientIP = '''', vr_UserAgent = '''' \<rparr> =
      (e', invalid_response, Some (WithCause ErrTokenInvalid ErrTokenInvalid))"
proof -
  obtain e :: engine where e: "store_inv (en_store e)" "store_abs (en_store e) = [''tmss-1'' \<mapsto> example_live]"
    "log_holds (en_walDir e) (en_wal e) []" "\<not> W_closed (en_wal e)" "unat (W_segmentID (en_wal e)) = 1"
    "wc_Cipher (W_cfg (en_wal e)) = None"
    by (rule example_live_engine)
  obtain d w where "Writer_Append os_ok (en_walDir e) (en_wal e) (NewDeleteEntry 0 ''tmss-1'') = (d, w, None)"
    by (rule example_delete_append [OF e(3-6)])
  then show ?thesis
    using revoked_token_refused [OF e(1), of "''tmss-1''" example_live example_token "\<lambda>_. os_ok" 0 d w 0 False "''''" "''''"]
      e(2) example_token_valid by auto
qed


abbreviation example_request :: create_session_request where
  "example_request \<equiv> \<lparr> cq_UserID = ''u'', cq_DeviceID = '''', cq_Data = None, cq_TTL = 5000000, cq_Token = example_token,
     cq_CreatedBy = '''', cq_ClientIP = '''', cq_UserAgent = '''' \<rparr>"

abbreviation example_created :: "string \<Rightarrow> session" where
  "example_created h \<equiv> Session_zero \<lparr> S_ID := ''tmss-a'', S_UserID := ''u'', S_TokenHash := h, S_Data := Some [],
     S_Version := 1, S_ExpiresAt := 5, S_TTL := 5 \<rparr>"

definition example_payload :: "string \<Rightarrow> wire_payload" where
  "example_payload h = \<lparr> P_Timestamp = 0, P_SessionID = ''tmss-a'', P_Version = 1, P_Session = Some (example_created h),
     P_EncryptedSession = '''' \<rparr>"

lemma example_payload_text:
  "9 + length (json_text (payload_json (example_payload (HashToken example_token)))) < 2 ^ 32"
proof -
  let ?n = "\<lambda>h. length (json_text (payload_json (example_payload h)))"
  have add: "?n h = ?n '''' + length (json_escape h)" for h
    unfolding example_payload_def payload_json_def session_json_def json_text_def Session_zero_def
    by (simp del: json_escape.simps) simp
  have base: "?n '''' \<le> 400" by code_simp
  have esc: "length (json_escape (HashToken example_token)) \<le> 600"
    using json_escape_length [of "HashToken example_token"] unfolding HashToken_length by (rule order_trans) simp
  have "?n (HashToken example_token) \<le> 400 + 600"
    unfolding add [of "HashToken example_token"] using base esc by (rule add_mono)
  then show ?thesis by (rule order_le_less_trans [OF add_left_mono]) simp
qed

lemma example_create:
  obtains e e' :: engine and resp where "store_inv (en_store e)"
    "SessionService_Create example_ext (engine_session_repo (\<lambda>_. os_ok)) 0 (Inr ''a'') (Inr []) (\<lambda>e. e) e example_request = (e', Inr resp)"
    "cr_Session resp = example_created (HashToken example_token)"
proof -
  let ?s = "example_created (HashToken example_token)"
  obtain e :: engine where e: "log_holds (en_walDir e) (en_wal e) []" "\<not> W_closed (en_wal e)" "unat (W_segmentID (en_wal e)) = 1"
    "wc_Cipher (W_cfg (en_wal e)) = None" "store_inv (en_store e)" "store_abs (en_store e) = Map.empty"
    "st_maxSessionsPerUser (en_store e) = DefaultMaxSessionsPerUser"
    by (rule example_engine [of "\<lambda>_. 0" "\<lambda>_. 0" "\<lambda>_. 0"]) blast
  have "entry_payload None (NewCreateEntry 0 ?s) = Inr (example_payload (HashToken example_token))"
    "wf_entry (NewCreateEntry 0 ?s)"
    by (simp_all add: entry_payload_def NewCreateEntry_def UnixMilli_def wf_entry_def example_payload_def)
  then obtain f where "encodeEntryFrame (wc_Cipher (W_cfg (en_wal e))) (NewCreateEntry 0 ?s) = Inr f"
    using encode_fits example_payload_text e(4) by metis
  moreover have "unat (W_segmentID (en_wal e)) + 1 < 2 ^ 64" using e(3) by simp
  ultimately obtain d w where a: "Writer_Append os_ok (en_walDir e) (en_wal e) (NewCreateEntry 0 ?s) = (d, w, None)"
    using Writer_Append_ok [OF e(1,2)] by metis
  obtain st r where c: "Store_Create (en_store e) ?s = (st, r)" by fastforce
  have v: "Session_Validate ?s = None"
    by (simp add: Session_Validate_None data_within_limits_def Session_zero_def)
  have "r = None" using Store_Create_refines(2) [OF e(5) c] e(6,7) v by (simp add: a_Create_def user_ids_def token_used_def)
  then have cr: "snd (Engine_Create os_ok 0 e ?s) = None" using a c by (simp add: Engine_Create_def log_then_def)
  have n: "Engine_CountByUserID e ''u'' = 0"
    using dur.count_alpha [of e "st_maxSessionsPerUser (en_store e)" "\<lambda>_. os_ok" "''u''"] e(5,6)
    by (simp add: engine_session_repo_def user_ids_def)
  have ne: "example_token \<noteq> ''''" using example_token_valid by (auto simp: ValidateTokenFormat_def)
  have s: "Session_SetExpiration 0 5000000 ((Session_zero \<lparr> S_ID := ''tmss-a'', S_UserID := ''u'', S_CreatedAt := UnixMilli 0,
      S_LastActive := UnixMilli 0, S_Data := Some [], S_Version := 1 \<rparr>) \<lparr> S_TokenHash := HashToken example_token,
      S_IPAddress := '''', S_UserAgent := '''', S_LastAccessIP := '''', S_LastAccessUA := '''', S_DeviceID := '''',
      S_CreatedBy := '''', S_Data := Some [] \<rparr>) = ?s"
    by (simp add: Session_SetExpiration_def UnixMilli_def Session_zero_def Milliseconds_def go_div_def)
  have i: "GenerateSessionID example_ext (Inr ''a'') = Inr ''tmss-a''"
    by (simp add: GenerateSessionID_def ToLower_def is_ascii_def lower_char_def)
  have "\<exists>e' resp. SessionService_Create example_ext (engine_session_repo (\<lambda>_. os_ok)) 0 (Inr ''a'') (Inr []) (\<lambda>e. e) e
      example_request = (e', Inr resp) \<and> cr_Session resp = ?s"
    unfolding SessionService_Create_def choose_token_def NewSession_def persist_new_def
      engine_session_repo_def ComputeTokenHash_def ttl_or_default_def data_or_empty_def
    using n v cr ne example_token_valid
    by (cases "Engine_Create os_ok 0 e ?s") (simp add: i s [simplified])
  then show ?thesis using that e(5) by blast
qed

theorem created_session_validates_witness:
  "\<exists>e e' resp. SessionService_Create example_ext (engine_session_repo (\<lambda>_. os_ok)) 0 (Inr ''a'') (Inr []) (\<lambda>e. e) e
      example_request = (e', Inr resp) \<and>
    TokenService_Validate (engine_token_repo (\<lambda>_. os_ok)) 0 e'
      \<lparr> vr_Token = cr_Token resp, vr_Touch = False, vr_ClientIP = '''', vr_UserAgent = '''' \<rparr> =
      (e', \<lparr> vp_Valid = True, vp_Session = Some (cr_Session resp) \<rparr>, None)"
proof -
  obtain e e' :: engine and resp where c: "store_inv (en_store e)"
    "SessionService_Create example_ext (engine_session_repo (\<lambda>_. os_ok)) 0 (Inr ''a'') (Inr []) (\<lambda>e. e) e example_request = (e', Inr resp)"
    "cr_Session resp = example_created (HashToken example_token)"
    by (rule example_create)
  have "\<not> Session_IsExpired 0 (cr_Session resp)" using c(3) by (simp add: Session_IsExpired_def UnixMilli_def)
  moreover have "example_token \<noteq> ''''" using example_token_valid by (auto simp: ValidateTokenFormat_def)
  ultimately show ?thesis
    using created_session_validates [of "\<lambda>e. e" e, OF c(1,2), of 0 "''''" "''''"] c(2) by auto
qed

end
